(* ===== verification/Prelude.thy ===== *)
theory Prelude
  imports Main "HOL-Library.Sublist"
begin

text \<open>
  Shared vocabulary of the development: theorem collections, lists that JavaScript code treats as
  keyed tables (append, remove by key, update by key), bounded windows (\<^verbatim>\<open>xs.slice(-n)\<close>), the
  stable \<^verbatim>\<open>Array.prototype.sort\<close>, and the two locales that several components instantiate:
  \<open>keyed_table\<close> for lists with one entry per key and \<open>transition_system\<close> for reachability.
\<close>

named_theorems js_defs \<open>definitions of the JavaScript library operations\<close>
named_theorems store_defs \<open>definitions of the store operations\<close>
named_theorems api_defs \<open>definitions of the REST client\<close>
named_theorems ws_defs \<open>definitions of the WebSocket hook\<close>
named_theorems hook_defs \<open>definitions of the query and mutation hooks\<close>

subsection \<open>Windows: the last \<open>n\<close> elements\<close>

definition last_n :: "nat \<Rightarrow> 'a list \<Rightarrow> 'a list" where
  "last_n n xs = drop (length xs - n) xs"

lemma length_last_n [simp]: "length (last_n n xs) = min n (length xs)"
  by (simp add: last_n_def)

lemma last_n_short [simp]: "length xs \<le> n \<Longrightarrow> last_n n xs = xs"
  by (simp add: last_n_def)

lemma last_n_last [simp]: "0 < n \<Longrightarrow> xs \<noteq> [] \<Longrightarrow> last (last_n n xs) = last xs"
  by (simp add: last_n_def last_drop)

lemma last_n_suffix: "\<exists>zs. xs = zs @ last_n n xs"
  by (metis append_take_drop_id last_n_def)

lemma last_n_snoc: "0 < n \<Longrightarrow> last_n n (xs @ [x]) = last_n (n - 1) xs @ [x]"
  by (cases n) (auto simp: last_n_def)

lemma last_n_last_n_snoc: "last_n n (last_n n xs @ [x]) = last_n n (xs @ [x])"
proof (cases "n = 0")
  case True
  then show ?thesis by (simp add: last_n_def)
next
  case False
  have "last_n (n - 1) (last_n n xs) = last_n (n - 1) xs"
    by (cases "length xs \<le> n") (auto simp: last_n_def)
  with False show ?thesis by (simp add: last_n_snoc)
qed

subsection \<open>Lists as keyed tables\<close>

definition remove_key :: "('a \<Rightarrow> 'k) \<Rightarrow> 'k \<Rightarrow> 'a list \<Rightarrow> 'a list" where
  "remove_key key k xs = filter (\<lambda>x. key x \<noteq> k) xs"

definition map_key :: "('a \<Rightarrow> 'k) \<Rightarrow> 'k \<Rightarrow> ('a \<Rightarrow> 'a) \<Rightarrow> 'a list \<Rightarrow> 'a list" where
  "map_key key k f xs = map (\<lambda>x. if key x = k then f x else x) xs"

definition find_key :: "('a \<Rightarrow> 'k) \<Rightarrow> 'k \<Rightarrow> 'a list \<Rightarrow> 'a option" where
  "find_key key k xs = find (\<lambda>x. key x = k) xs"

definition unique_keys :: "('a \<Rightarrow> 'k) \<Rightarrow> 'a list \<Rightarrow> bool" where
  "unique_keys key xs = distinct (map key xs)"

lemma find_key_Nil [simp]: "find_key key k [] = None"
  by (simp add: find_key_def)

lemma find_key_Cons [simp]:
  "find_key key k (x # xs) = (if key x = k then Some x else find_key key k xs)"
  by (simp add: find_key_def)

lemma find_key_append:
  "find_key key k (xs @ ys) = (case find_key key k xs of None \<Rightarrow> find_key key k ys | Some x \<Rightarrow> Some x)"
  by (induction xs) auto

lemma find_key_None_iff: "find_key key k xs = None \<longleftrightarrow> k \<notin> key ` set xs"
  by (induction xs) auto

lemma list_ex_key: "list_ex (\<lambda>x. key x = k) xs \<longleftrightarrow> k \<in> key ` set xs"
  by (auto simp: list_ex_iff image_iff)

lemma find_key_SomeD: "find_key key k xs = Some x \<Longrightarrow> x \<in> set xs \<and> key x = k"
  by (induction xs) (auto split: if_splits)

lemma find_key_unique:
  "unique_keys key xs \<Longrightarrow> x \<in> set xs \<Longrightarrow> find_key key (key x) xs = Some x"
  by (induction xs) (auto simp: unique_keys_def)

lemma remove_key_simps [simp]:
  "remove_key key k [] = []"
  "remove_key key k (x # xs) = (if key x = k then remove_key key k xs else x # remove_key key k xs)"
  by (simp_all add: remove_key_def)

lemma set_remove_key: "set (remove_key key k xs) = {x \<in> set xs. key x \<noteq> k}"
  by (simp add: remove_key_def)

lemma find_remove_key:
  "find_key key k' (remove_key key k xs) = (if k' = k then None else find_key key k' xs)"
  by (induction xs) auto

lemma map_remove_key: "map key (remove_key key k xs) = filter (\<lambda>j. j \<noteq> k) (map key xs)"
  by (induction xs) auto

lemma unique_remove_key [intro]: "unique_keys key xs \<Longrightarrow> unique_keys key (remove_key key k xs)"
  by (simp add: unique_keys_def map_remove_key)

lemma unique_snoc:
  "unique_keys key (xs @ [x]) \<longleftrightarrow> unique_keys key xs \<and> key x \<notin> key ` set xs"
  by (auto simp: unique_keys_def)

lemma map_key_keys: "(\<And>x. key (f x) = key x) \<Longrightarrow> map key (map_key key k f xs) = map key xs"
  by (simp add: map_key_def)

lemma find_map_key:
  assumes "\<And>x. key x = k \<Longrightarrow> key (f x) = k"
  shows "find_key key k' (map_key key k f xs) =
    (if k' = k then map_option f (find_key key k xs) else find_key key k' xs)"
  using assms by (induction xs) (auto simp: map_key_def)

lemma map_key_id: "k \<notin> key ` set xs \<Longrightarrow> map_key key k f xs = xs"
  by (induction xs) (auto simp: map_key_def)

subsection \<open>Tables with one entry per key, as an interface\<close>

text \<open>
  The toast list, the pending server operations and the plan-access lists are all tables with
  one entry per key: the interface below is a finite map with an insertion that may refuse.
\<close>

locale keyed_table =
  fixes lookup :: "'s \<Rightarrow> 'k \<Rightarrow> 'v option"
    and insert :: "'v \<Rightarrow> 's \<Rightarrow> 's"
    and remove :: "'k \<Rightarrow> 's \<Rightarrow> 's"
    and key :: "'v \<Rightarrow> 'k"
    and invar :: "'s \<Rightarrow> bool"
    and fresh :: "'v \<Rightarrow> 's \<Rightarrow> bool"
  assumes lookup_insert:
      "invar s \<Longrightarrow> fresh v s \<Longrightarrow> lookup (insert v s) = (lookup s)(key v \<mapsto> v)"
    and lookup_remove: "invar s \<Longrightarrow> lookup (remove k s) = (lookup s)(k := None)"
    and invar_insert: "invar s \<Longrightarrow> fresh v s \<Longrightarrow> invar (insert v s)"
    and invar_remove: "invar s \<Longrightarrow> invar (remove k s)"
begin

lemma lookup_insert_same: "invar s \<Longrightarrow> fresh v s \<Longrightarrow> lookup (insert v s) (key v) = Some v"
  by (simp add: lookup_insert)

lemma lookup_insert_other:
  "invar s \<Longrightarrow> fresh v s \<Longrightarrow> k \<noteq> key v \<Longrightarrow> lookup (insert v s) k = lookup s k"
  by (simp add: lookup_insert)

lemma remove_insert:
  assumes "invar s" and "fresh v s"
  shows "lookup (remove (key v) (insert v s)) = (lookup s)(key v := None)"
  using assms by (simp add: lookup_insert lookup_remove invar_insert)

lemma remove_insert_absent:
  assumes "invar s" and "fresh v s" and "lookup s (key v) = None"
  shows "lookup (remove (key v) (insert v s)) = lookup s"
  using assms by (simp add: remove_insert fun_upd_idem)

lemma remove_commute:
  "invar s \<Longrightarrow> lookup (remove j (remove k s)) = lookup (remove k (remove j s))"
  by (auto simp: lookup_remove invar_remove fun_upd_twist)

end

subsection \<open>Transition systems, as an interface\<close>

text \<open>
  An initial-state predicate and a step relation; an inductive invariant holds in every state
  that can be reached.
\<close>

locale transition_system =
  fixes init :: "'s \<Rightarrow> bool"
    and step :: "'s \<Rightarrow> 's \<Rightarrow> bool"
    and inv :: "'s \<Rightarrow> bool"
  assumes init_inv: "init s \<Longrightarrow> inv s"
    and step_inv: "inv s \<Longrightarrow> step s t \<Longrightarrow> inv t"
begin

lemma steps_inv: "step\<^sup>*\<^sup>* s t \<Longrightarrow> inv s \<Longrightarrow> inv t"
  by (induction rule: rtranclp_induct) (auto intro: step_inv)

lemma reachable_inv: "init s \<Longrightarrow> step\<^sup>*\<^sup>* s t \<Longrightarrow> inv t"
  by (blast intro: init_inv steps_inv)

end

subsection \<open>Stable sorting with a comparison function\<close>

text \<open>
  \<^verbatim>\<open>Array.prototype.sort\<close> is stable since ECMAScript 2019. For a comparison function that is a
  consistent weak order every stable sorting algorithm gives the same result; insertion from the
  right is the shortest one.
\<close>

fun js_insert :: "('a \<Rightarrow> 'a \<Rightarrow> int) \<Rightarrow> 'a \<Rightarrow> 'a list \<Rightarrow> 'a list" where
  "js_insert cmp x [] = [x]"
| "js_insert cmp x (y # ys) = (if cmp x y \<le> 0 then x # y # ys else y # js_insert cmp x ys)"

definition js_sort :: "('a \<Rightarrow> 'a \<Rightarrow> int) \<Rightarrow> 'a list \<Rightarrow> 'a list" where
  "js_sort cmp xs = foldr (js_insert cmp) xs []"

lemma js_sort_simps [simp]:
  "js_sort cmp [] = []"
  "js_sort cmp (x # xs) = js_insert cmp x (js_sort cmp xs)"
  by (simp_all add: js_sort_def)

lemma set_js_insert [simp]: "set (js_insert cmp x xs) = insert x (set xs)"
  by (induction xs) auto

lemma set_js_sort [simp]: "set (js_sort cmp xs) = set xs"
  by (induction xs) auto

lemma length_js_insert [simp]: "length (js_insert cmp x xs) = Suc (length xs)"
  by (induction xs) auto

lemma length_js_sort [simp]: "length (js_sort cmp xs) = length xs"
  by (induction xs) auto

lemma distinct_js_insert: "distinct (js_insert cmp x xs) \<longleftrightarrow> x \<notin> set xs \<and> distinct xs"
  by (induction xs) auto

lemma distinct_js_sort [simp]: "distinct (js_sort cmp xs) = distinct xs"
  by (induction xs) (auto simp: distinct_js_insert)

lemma js_sort_sorted: "sorted_wrt (\<lambda>a b. cmp a b \<le> 0) xs \<Longrightarrow> js_sort cmp xs = xs"
proof (induction xs)
  case (Cons x xs)
  then show ?case by (cases xs) auto
qed simp

end
