(* ===== verification/Js_Sort.thy ===== *)
theory Js_Sort
  imports Prelude "HOL-Library.Multiset"
begin

text \<open>
  What \<^verbatim>\<open>Array.prototype.sort\<close>, modelled by \<open>js_sort\<close>, does with a comparison: it permutes the items, puts
  them in order where the comparison is total and transitive, and keeps the order of items it does not
  distinguish.
\<close>

lemma mset_js_insert: "mset (js_insert cmp x xs) = add_mset x (mset xs)"
  by (induction xs) auto

lemma mset_js_sort: "mset (js_sort cmp xs) = mset xs"
  by (induction xs) (simp_all add: mset_js_insert)

lemma js_insert_sorted:
  assumes "\<And>a b. a \<in> A \<Longrightarrow> b \<in> A \<Longrightarrow> cmp a b \<le> 0 \<or> cmp b a \<le> (0 :: int)"
    and "\<And>a b c. a \<in> A \<Longrightarrow> b \<in> A \<Longrightarrow> c \<in> A \<Longrightarrow> cmp a b \<le> 0 \<Longrightarrow> cmp b c \<le> 0 \<Longrightarrow> cmp a c \<le> 0"
    and "x \<in> A" and "set xs \<subseteq> A" and "sorted_wrt (\<lambda>a b. cmp a b \<le> 0) xs"
  shows "sorted_wrt (\<lambda>a b. cmp a b \<le> 0) (js_insert cmp x xs)"
  using assms(4,5)
proof (induction xs)
  case (Cons y ys)
  have y: "y \<in> A" using Cons.prems(1) by simp
  show ?case
  proof (cases "cmp x y \<le> 0")
    case True
    have "cmp x z \<le> 0" if "z \<in> set ys" for z
    proof -
      have "z \<in> A" "cmp y z \<le> 0" using that Cons.prems by auto
      then show ?thesis using assms(2)[OF assms(3) y] True by blast
    qed
    with True Cons.prems show ?thesis by simp
  next
    case False
    then have "cmp y x \<le> 0" using assms(1)[OF assms(3) y] by blast
    with False Cons show ?thesis by simp
  qed
qed simp

lemma js_sort_total:
  assumes "\<And>a b. a \<in> A \<Longrightarrow> b \<in> A \<Longrightarrow> cmp a b \<le> 0 \<or> cmp b a \<le> (0 :: int)"
    and "\<And>a b c. a \<in> A \<Longrightarrow> b \<in> A \<Longrightarrow> c \<in> A \<Longrightarrow> cmp a b \<le> 0 \<Longrightarrow> cmp b c \<le> 0 \<Longrightarrow> cmp a c \<le> 0"
    and "set xs \<subseteq> A"
  shows "sorted_wrt (\<lambda>a b. cmp a b \<le> 0) (js_sort cmp xs)"
  using assms(3)
proof (induction xs)
  case (Cons x xs)
  have "sorted_wrt (\<lambda>a b. cmp a b \<le> 0) (js_insert cmp x (js_sort cmp xs))"
    by (rule js_insert_sorted[where A = A, OF assms(1,2)]) (use Cons in simp_all)
  then show ?case by simp
qed simp

lemma filter_js_insert:
  assumes "\<And>y. y \<in> set ys \<Longrightarrow> P x \<Longrightarrow> P y \<Longrightarrow> cmp x y \<le> (0 :: int)"
  shows "filter P (js_insert cmp x ys) = filter P (x # ys)"
  using assms by (induction ys) auto

lemma js_sort_stable:
  assumes "\<And>a b. a \<in> set xs \<Longrightarrow> b \<in> set xs \<Longrightarrow> P a \<Longrightarrow> P b \<Longrightarrow> cmp a b \<le> (0 :: int)"
  shows "filter P (js_sort cmp xs) = filter P xs"
  using assms
proof (induction xs)
  case (Cons x xs)
  have "filter P (js_insert cmp x (js_sort cmp xs)) = filter P (x # js_sort cmp xs)"
    by (rule filter_js_insert) (use Cons.prems in auto)
  with Cons show ?case by simp
qed simp

end
