(* ===== verification/Js_Strings.thy ===== *)
theory Js_Strings
  imports Prelude
begin

text \<open>
  The JavaScript string and number operations the sources use, on strings as character lists:
  \<^verbatim>\<open>split\<close> and \<^verbatim>\<open>join\<close> with a one-character separator, \<^verbatim>\<open>includes\<close>, \<^verbatim>\<open>startsWith\<close>, \<^verbatim>\<open>endsWith\<close>,
  \<^verbatim>\<open>trim\<close>, \<^verbatim>\<open>toLowerCase\<close> (on the ASCII range), printing of integers and \<^verbatim>\<open>padStart\<close>, and
  \<^verbatim>\<open>parseInt\<close>. A JavaScript number is modelled exactly, by an integer or a rational; \<^verbatim>\<open>NaN\<close> is
  \<^term>\<open>None\<close> where an operation can produce it.
\<close>

subsection \<open>Splitting and joining\<close>

fun js_split :: "char \<Rightarrow> string \<Rightarrow> string list" where
  "js_split c [] = [[]]"
| "js_split c (x # xs) =
     (if x = c then [] # js_split c xs
      else case js_split c xs of [] \<Rightarrow> [[x]] | y # ys \<Rightarrow> (x # y) # ys)"

fun js_join :: "string \<Rightarrow> string list \<Rightarrow> string" where
  "js_join sep [] = []"
| "js_join sep [x] = x"
| "js_join sep (x # y # ys) = x @ sep @ js_join sep (y # ys)"

lemma js_split_not_Nil [simp]: "js_split c s \<noteq> []"
  by (cases s) (auto split: list.splits)

lemma js_split_no_sep: "c \<notin> set s \<Longrightarrow> js_split c s = [s]"
  by (induction s) auto

lemma js_split_append: "c \<notin> set s \<Longrightarrow> js_split c (s @ c # t) = s # js_split c t"
  by (induction s) auto

lemma js_split_join:
  "xs \<noteq> [] \<Longrightarrow> (\<And>x. x \<in> set xs \<Longrightarrow> c \<notin> set x) \<Longrightarrow> js_split c (js_join [c] xs) = xs"
proof (induction "[c]" xs rule: js_join.induct)
  case (3 x y ys)
  have "js_split c (x @ c # js_join [c] (y # ys)) = x # js_split c (js_join [c] (y # ys))"
    using "3.prems" by (intro js_split_append) auto
  moreover have "js_split c (js_join [c] (y # ys)) = y # ys"
    using "3.prems" by (intro "3.hyps") auto
  ultimately show ?case by simp
qed (auto simp: js_split_no_sep)

lemma js_split_parts: "p \<in> set (js_split c s) \<Longrightarrow> c \<notin> set p"
  by (induction s arbitrary: p) (auto split: if_splits list.splits)

lemma js_join_split: "js_join [c] (js_split c s) = s"
proof (induction s)
  case (Cons x xs)
  then obtain y ys where "js_split c xs = y # ys" by (cases "js_split c xs") auto
  with Cons show ?case by (cases ys) auto
qed simp

lemma set_js_join: "set (js_join sep xs) \<subseteq> set sep \<union> (\<Union> (set ` set xs))"
  by (induction sep xs rule: js_join.induct) auto

subsection \<open>Prefixes, suffixes, trimming, case\<close>

definition js_includes :: "string \<Rightarrow> char \<Rightarrow> bool" where
  "js_includes s c = (c \<in> set s)"

definition js_startsWith :: "string \<Rightarrow> string \<Rightarrow> bool" where
  "js_startsWith s p = (take (length p) s = p)"

definition js_endsWith :: "string \<Rightarrow> string \<Rightarrow> bool" where
  "js_endsWith s p = (length p \<le> length s \<and> drop (length s - length p) s = p)"

definition js_space :: "char \<Rightarrow> bool" where
  "js_space c = (c \<in> {CHR '' '', CHR 0x09, CHR 0x0A, CHR 0x0B, CHR 0x0C, CHR 0x0D})"

definition js_trim :: "string \<Rightarrow> string" where
  "js_trim s = rev (dropWhile js_space (rev (dropWhile js_space s)))"

definition js_lower_char :: "char \<Rightarrow> char" where
  "js_lower_char c =
     (if 65 \<le> (of_char c :: nat) \<and> (of_char c :: nat) \<le> 90 then char_of ((of_char c :: nat) + 32) else c)"

definition js_upper_char :: "char \<Rightarrow> char" where
  "js_upper_char c =
     (if 97 \<le> (of_char c :: nat) \<and> (of_char c :: nat) \<le> 122 then char_of ((of_char c :: nat) - 32) else c)"

definition js_toLowerCase :: "string \<Rightarrow> string" where
  "js_toLowerCase s = map js_lower_char s"

definition js_toUpperCase :: "string \<Rightarrow> string" where
  "js_toUpperCase s = map js_upper_char s"

lemmas string_defs [js_defs] =
  js_includes_def js_startsWith_def js_endsWith_def js_trim_def js_toLowerCase_def js_toUpperCase_def

lemma js_startsWith_append [simp]: "js_startsWith (p @ s) p"
  by (simp add: js_startsWith_def)

lemma js_endsWith_append [simp]: "js_endsWith (s @ p) p"
  by (simp add: js_endsWith_def)

lemma js_endsWith_iff: "js_endsWith s p \<longleftrightarrow> (\<exists>r. s = r @ p)"
proof
  assume "js_endsWith s p"
  then have "s = take (length s - length p) s @ p"
    by (metis append_take_drop_id js_endsWith_def)
  then show "\<exists>r. s = r @ p" by blast
qed auto

lemma js_startsWith_iff: "js_startsWith s p \<longleftrightarrow> (\<exists>r. s = p @ r)"
proof
  assume "js_startsWith s p"
  then have "s = p @ drop (length p) s"
    by (metis append_take_drop_id js_startsWith_def)
  then show "\<exists>r. s = p @ r" by blast
qed auto

lemma js_trim_id:
  assumes "\<And>c. c \<in> set s \<Longrightarrow> \<not> js_space c"
  shows "js_trim s = s"
proof -
  have "dropWhile js_space t = t" if "\<And>c. c \<in> set t \<Longrightarrow> \<not> js_space c" for t
    using that by (cases t) auto
  from this [of s] this [of "rev s"] assms show ?thesis by (simp add: js_trim_def)
qed

lemma trim_head:
  assumes "dropWhile p s = c # cs"
  shows "\<not> p c"
  using assms by (metis hd_dropWhile list.discI list.sel(1))

lemma js_trim_trim: "js_trim (js_trim s) = js_trim s"
proof -
  let ?t = "dropWhile js_space s"
  let ?u = "dropWhile js_space (rev ?t)"
  have u: "dropWhile js_space ?u = ?u" by (simp add: dropWhile_idem)
  have "dropWhile js_space (rev ?u) = rev ?u"
  proof (cases "?u = []")
    case False
    then have "?t \<noteq> []" by (metis dropWhile.simps(1) rev.simps(1))
    then obtain c cs where c: "?t = c # cs" by (cases ?t) auto
    then have nc: "\<not> js_space c" by (rule trim_head)
    have "rev ?t = takeWhile js_space (rev ?t) @ ?u" by simp
    then have "?t = rev ?u @ rev (takeWhile js_space (rev ?t))" by (metis rev_append rev_rev_ident)
    with False c have "hd (rev ?u) = c" by (metis hd_append list.sel(1) rev_is_Nil_conv)
    with nc False show ?thesis by (cases "rev ?u") auto
  next
    case True
    then show ?thesis by (metis dropWhile.simps(1) rev.simps(1))
  qed
  with u show ?thesis by (simp add: js_trim_def)
qed

subsection \<open>Decimal digits\<close>

definition is_digit :: "char \<Rightarrow> bool" where
  "is_digit c = (48 \<le> (of_char c :: nat) \<and> (of_char c :: nat) \<le> 57)"

definition digit_val :: "char \<Rightarrow> nat" where
  "digit_val c = (of_char c :: nat) - 48"

definition digit_char :: "nat \<Rightarrow> char" where
  "digit_char d = char_of (48 + d)"

fun show_nat :: "nat \<Rightarrow> string" where
  "show_nat n = (if n < 10 then [digit_char n] else show_nat (n div 10) @ [digit_char (n mod 10)])"

declare show_nat.simps [simp del]

definition show_int :: "int \<Rightarrow> string" where
  "show_int i = (if i < 0 then CHR ''-'' # show_nat (nat (- i)) else show_nat (nat i))"

definition read_digits :: "string \<Rightarrow> nat" where
  "read_digits s = foldl (\<lambda>a c. 10 * a + digit_val c) 0 s"

definition js_padStart2 :: "string \<Rightarrow> string" where
  "js_padStart2 s = replicate (2 - length s) CHR ''0'' @ s"

lemma of_char_digit_char: "d < 10 \<Longrightarrow> of_char (digit_char d) = 48 + d"
  by (simp add: digit_char_def)

lemma is_digit_digit_char [simp]: "d < 10 \<Longrightarrow> is_digit (digit_char d)"
  by (simp add: is_digit_def of_char_digit_char)

lemma digit_val_digit_char [simp]: "d < 10 \<Longrightarrow> digit_val (digit_char d) = d"
  by (simp add: digit_val_def of_char_digit_char)

lemma show_nat_not_Nil [simp]: "show_nat n \<noteq> []"
  by (subst show_nat.simps) auto

lemma show_nat_digits: "c \<in> set (show_nat n) \<Longrightarrow> is_digit c"
proof (induction n arbitrary: c rule: show_nat.induct)
  case (1 n)
  show ?case
  proof (cases "n < 10")
    case True
    with "1.prems" show ?thesis by (simp add: show_nat.simps [of n])
  next
    case False
    with "1.prems" have "c \<in> set (show_nat (n div 10)) \<or> c = digit_char (n mod 10)"
      by (auto simp: show_nat.simps [of n])
    then show ?thesis using "1.IH" False by auto
  qed
qed

lemma read_digits_snoc: "read_digits (s @ [c]) = 10 * read_digits s + digit_val c"
  by (simp add: read_digits_def)

lemma read_show_nat [simp]: "read_digits (show_nat n) = n"
proof (induction n rule: show_nat.induct)
  case (1 n)
  show ?case
  proof (cases "n < 10")
    case True
    then show ?thesis by (simp add: show_nat.simps [of n] read_digits_def)
  next
    case False
    with "1.IH" show ?thesis by (simp add: show_nat.simps [of n] read_digits_snoc)
  qed
qed

lemma show_nat_inj: "show_nat m = show_nat n \<longleftrightarrow> m = n"
  by (metis read_show_nat)

lemma show_nat_small: "n < 10 \<Longrightarrow> show_nat n = [digit_char n]"
  by (simp add: show_nat.simps [of n])

lemma show_int_nat [simp]: "0 \<le> i \<Longrightarrow> show_int i = show_nat (nat i)"
  by (simp add: show_int_def)

lemma digit_not_space: "is_digit c \<Longrightarrow> \<not> js_space c"
  by (auto simp: is_digit_def js_space_def)

lemma digit_not_sep:
  "is_digit c \<Longrightarrow> c \<noteq> CHR '' '' \<and> c \<noteq> CHR '','' \<and> c \<noteq> CHR ''-'' \<and> c \<noteq> CHR ''+'' \<and> c \<noteq> CHR ''*''
     \<and> c \<noteq> CHR ''.''"
  by (auto simp: is_digit_def)

subsection \<open>\<^verbatim>\<open>parseInt\<close>\<close>

text \<open>
  \<^verbatim>\<open>parseInt(s, 10)\<close>: leading white space is skipped, an optional sign is read, then the longest
  digit prefix; \<^term>\<open>None\<close> is \<^verbatim>\<open>NaN\<close>, the result when there is no digit.
\<close>

definition js_parseInt10 :: "string \<Rightarrow> int option" where
  "js_parseInt10 s =
     (let t = dropWhile js_space s;
          (sg, r) = (case t of [] \<Rightarrow> (1, [])
                     | c # cs \<Rightarrow> if c = CHR ''-'' then (- 1, cs) else if c = CHR ''+'' then (1, cs) else (1, t));
          ds = takeWhile is_digit r
      in if ds = [] then None else Some (sg * int (read_digits ds)))"

lemma js_parseInt10_show_nat [simp]: "js_parseInt10 (show_nat n) = Some (int n)"
proof -
  obtain c cs where s: "show_nat n = c # cs" by (cases "show_nat n") auto
  then have all: "\<And>x. x \<in> set (c # cs) \<Longrightarrow> is_digit x" using show_nat_digits [of _ n] by auto
  then have "takeWhile is_digit (c # cs) = c # cs" by (auto simp: takeWhile_eq_all_conv)
  moreover have "\<not> js_space c" "c \<noteq> CHR ''-''" "c \<noteq> CHR ''+''"
    using all [of c] digit_not_space digit_not_sep by auto
  moreover have "read_digits (c # cs) = n" using s read_show_nat [of n] by simp
  ultimately show ?thesis by (simp add: js_parseInt10_def s)
qed

end
