(* ===== verification/Js_Values.thy ===== *)
theory Js_Values
  imports Js_Strings
begin

text \<open>
  JSON values as the sources receive them from the network, JavaScript truthiness, \<^verbatim>\<open>String(v)\<close>,
  property access, and the form-urlencoded serialisation of \<^verbatim>\<open>URLSearchParams\<close>. A JSON number is a
  decimal \<open>m * 10 ^ (- s)\<close>, written \<open>JNum m s\<close>; the printing below is JavaScript's for
  magnitudes from \<open>10 ^ (- 6)\<close> to \<open>10 ^ 21\<close> and at most fifteen significant digits, where
  the double nearest to a decimal prints back as that decimal. Characters are bytes, so a string
  is read as its UTF-8 encoding.
\<close>

datatype json =
    JNull
  | JBool bool
  | JNum int nat
  | JStr string
  | JArr "json list"
  | JObj "(string \<times> json) list"

fun js_truthy :: "json \<Rightarrow> bool" where
  "js_truthy JNull = False"
| "js_truthy (JBool b) = b"
| "js_truthy (JNum m s) = (m \<noteq> 0)"
| "js_truthy (JStr s) = (s \<noteq> [])"
| "js_truthy (JArr xs) = True"
| "js_truthy (JObj kvs) = True"

text \<open>\<^verbatim>\<open>v.key\<close>: \<^term>\<open>None\<close> is \<^verbatim>\<open>undefined\<close>. \<^verbatim>\<open>JSON.parse\<close> keeps the last of two equal keys.\<close>

fun js_get :: "json \<Rightarrow> string \<Rightarrow> json option" where
  "js_get (JObj kvs) k = map_of (rev kvs) k"
| "js_get _ k = None"

fun show_decimal :: "int \<Rightarrow> nat \<Rightarrow> string" where
  "show_decimal m 0 = show_int m"
| "show_decimal m (Suc s) =
     (if 10 dvd m then show_decimal (m div 10) s
      else let a = nat \<bar>m\<bar>; p = 10 ^ Suc s; f = show_nat (a mod p)
           in (if m < 0 then ''-'' else []) @ show_nat (a div p) @ ''.'' @
              replicate (Suc s - length f) CHR ''0'' @ f)"

fun js_String :: "json \<Rightarrow> string" where
  "js_String JNull = ''null''"
| "js_String (JBool b) = (if b then ''true'' else ''false'')"
| "js_String (JNum m s) = show_decimal m s"
| "js_String (JStr s) = s"
| "js_String (JArr xs) =
     js_join '','' (map (\<lambda>x. case x of JNull \<Rightarrow> [] | _ \<Rightarrow> js_String x) xs)"
| "js_String (JObj kvs) = ''[object Object]''"

text \<open>Numbers that come from text may also be no number or infinite (negative, if the flag is set).\<close>

datatype js_num = NaN | Fin int nat | Infinite bool

definition js_is_string :: "json \<Rightarrow> bool" where
  "js_is_string v = (case v of JStr _ \<Rightarrow> True | _ \<Rightarrow> False)"

subsection \<open>\<^verbatim>\<open>URLSearchParams\<close>\<close>

text \<open>
  The application/x-www-form-urlencoded serialiser: letters, digits and \<open>*-._\<close> stand for
  themselves, a space is \<open>+\<close>, every other byte is a percent sign and two upper-case hexadecimal digits.
\<close>

definition url_safe :: "char \<Rightarrow> bool" where
  "url_safe c =
     (let n = (of_char c :: nat)
      in 48 \<le> n \<and> n \<le> 57 \<or> 65 \<le> n \<and> n \<le> 90 \<or> 97 \<le> n \<and> n \<le> 122 \<or> n \<in> {42, 45, 46, 95})"

definition hex_digit :: "nat \<Rightarrow> char" where
  "hex_digit d = (if d < 10 then char_of (48 + d) else char_of (55 + d))"

definition url_encode_char :: "char \<Rightarrow> string" where
  "url_encode_char c =
     (if url_safe c then [c]
      else if c = CHR '' '' then ''+''
      else let n = (of_char c :: nat) in [CHR ''%'', hex_digit (n div 16), hex_digit (n mod 16)])"

definition url_encode :: "string \<Rightarrow> string" where
  "url_encode s = concat (map url_encode_char s)"

definition search_params :: "(string \<times> string) list \<Rightarrow> string" where
  "search_params kvs = js_join ''&'' (map (\<lambda>(k, v). url_encode k @ ''='' @ url_encode v) kvs)"

text \<open>The decoder of the receiving side, as the URL standard defines it on well-formed input.\<close>

definition hex_val :: "char \<Rightarrow> nat" where
  "hex_val c = (let n = (of_char c :: nat) in if n \<le> 57 then n - 48 else n - 55)"

fun url_decode :: "string \<Rightarrow> string" where
  "url_decode [] = []"
| "url_decode (c # cs) =
     (if c = CHR ''+'' then CHR '' '' # url_decode cs
      else if c = CHR ''%'' then
        (case cs of a # b # r \<Rightarrow> char_of (16 * hex_val a + hex_val b) # url_decode r
         | _ \<Rightarrow> c # url_decode cs)
      else c # url_decode cs)"

definition parse_params :: "string \<Rightarrow> (string \<times> string) list" where
  "parse_params q =
     (if q = [] then []
      else map (\<lambda>p. case js_split CHR ''='' p of
                      [] \<Rightarrow> ([], []) | k # vs \<Rightarrow> (url_decode k, url_decode (js_join ''='' vs)))
             (js_split CHR ''&'' q))"

lemma hex_val_hex_digit: "d < 16 \<Longrightarrow> hex_val (hex_digit d) = d"
  by (simp add: hex_val_def hex_digit_def Let_def)

lemma of_char_lt: "(of_char c :: nat) < 256"
  by (metis of_char_mod_256 mod_less_divisor zero_less_numeral)

lemma url_decode_encode_char: "url_decode (url_encode_char c @ r) = c # url_decode r"
proof -
  let ?n = "(of_char c :: nat)"
  have "?n div 16 < 16" using of_char_lt [of c] by (intro less_mult_imp_div_less) simp
  then have "16 * hex_val (hex_digit (?n div 16)) + hex_val (hex_digit (?n mod 16)) = ?n"
    by (simp add: hex_val_hex_digit)
  then have dec: "char_of (16 * hex_val (hex_digit (?n div 16)) + hex_val (hex_digit (?n mod 16))) = c"
    by simp
  show ?thesis
  proof (cases "url_safe c")
    case True
    then have "c \<noteq> CHR ''+''" "c \<noteq> CHR ''%''" by (auto simp: url_safe_def Let_def)
    with True show ?thesis by (simp add: url_encode_char_def)
  next
    case False
    then show ?thesis using dec by (simp add: url_encode_char_def Let_def)
  qed
qed

lemma url_decode_encode [simp]: "url_decode (url_encode s) = s"
  by (induction s) (simp_all add: url_encode_def url_decode_encode_char)

lemma hex_digit_safe: "d < 16 \<Longrightarrow> hex_digit d \<noteq> CHR ''&'' \<and> hex_digit d \<noteq> CHR ''=''"
  by (auto simp: hex_digit_def dest!: arg_cong [where f = "of_char :: char \<Rightarrow> nat"])

lemma url_encode_no_sep: "CHR ''&'' \<notin> set (url_encode s) \<and> CHR ''='' \<notin> set (url_encode s)"
proof -
  have "CHR ''&'' \<notin> set (url_encode_char c) \<and> CHR ''='' \<notin> set (url_encode_char c)" for c
  proof (cases "url_safe c")
    case True
    then have "c \<noteq> CHR ''&''" "c \<noteq> CHR ''=''" by (auto simp: url_safe_def Let_def)
    with True show ?thesis by (simp add: url_encode_char_def)
  next
    case False
    have "(of_char c :: nat) div 16 < 16" using of_char_lt [of c] by (intro less_mult_imp_div_less) simp
    then have "hex_digit (of_char c div 16) \<noteq> CHR ''&''" "hex_digit (of_char c div 16) \<noteq> CHR ''=''"
      "hex_digit (of_char c mod 16) \<noteq> CHR ''&''" "hex_digit (of_char c mod 16) \<noteq> CHR ''=''"
      using hex_digit_safe by simp_all
    with False show ?thesis by (auto simp: url_encode_char_def Let_def)
  qed
  then show ?thesis by (auto simp: url_encode_def)
qed

lemma param_split:
  "js_split CHR ''='' (url_encode k @ ''='' @ url_encode v) = [url_encode k, url_encode v]"
  using url_encode_no_sep [of k] url_encode_no_sep [of v]
  by (simp add: js_split_append js_split_no_sep)

lemma parse_search_params: "parse_params (search_params kvs) = kvs"
proof (cases kvs)
  case Nil
  then show ?thesis by (simp add: search_params_def parse_params_def)
next
  case (Cons kv rest)
  let ?enc = "\<lambda>(k, v). url_encode k @ ''='' @ url_encode v"
  let ?dec = "\<lambda>p. case js_split CHR ''='' p of
    [] \<Rightarrow> ([], []) | k # vs \<Rightarrow> (url_decode k, url_decode (js_join ''='' vs))"
  have sep: "CHR ''&'' \<notin> set (?enc p)" for p
    using url_encode_no_sep by (cases p) auto
  have parts: "js_split CHR ''&'' (js_join ''&'' (map ?enc kvs)) = map ?enc kvs"
    using Cons sep by (intro js_split_join) auto
  moreover have "js_join ''&'' (map ?enc kvs) \<noteq> []"
  proof
    assume "js_join ''&'' (map ?enc kvs) = []"
    with parts have "map ?enc kvs = [[]]" by simp
    with Cons show False by (cases kv) simp
  qed
  moreover have "?dec (?enc p) = p" for p
    by (cases p) (simp add: param_split [simplified])
  ultimately show ?thesis
    by (simp add: search_params_def parse_params_def o_def)
qed

end
