(* ===== verification/Auth_Store.thy ===== *)
theory Auth_Store
  imports Js_Values
begin

text \<open>
  The client-side authorisation store, \<^verbatim>\<open>frontend/src/stores/auth-store.ts\<close>: role levels, the
  permission check with its role-based fallback, every role and capability predicate of the store,
  and the page guard built on them (\<^verbatim>\<open>hooks/use-page-guard.ts\<close>,
  \<^verbatim>\<open>components/permission-guard.tsx\<close>, \<^verbatim>\<open>routes/admin.tsx\<close>).
\<close>

subsection \<open>Users and roles\<close>

text \<open>
  The fields of \<^verbatim>\<open>User\<close> (\<^verbatim>\<open>types/api.ts\<close>) the stores and hooks read; \<^verbatim>\<open>permissions?\<close> and
  \<^verbatim>\<open>preferences?\<close> are optional.
\<close>

record User =
  user_id :: string
  username :: string
  role :: string
  permissions :: "string list option"
  is_active :: bool
  preferences :: "(string \<times> json) list option"

definition ROLE_LEVELS :: "(string \<times> int) list" where
  "ROLE_LEVELS =
    [(''super_admin'', 5), (''admin'', 4), (''moderator'', 3), (''support'', 2), (''user'', 1),
     (''guest'', 0)]"

abbreviation "LEVEL_admin \<equiv> (4 :: int)"
abbreviation "LEVEL_moderator \<equiv> (3 :: int)"
abbreviation "LEVEL_support \<equiv> (2 :: int)"
abbreviation "LEVEL_user \<equiv> (1 :: int)"
abbreviation "LEVEL_guest \<equiv> (0 :: int)"

subsection \<open>Permission constants\<close>

abbreviation "USERS_READ \<equiv> ''users:read''"
abbreviation "USERS_CREATE \<equiv> ''users:create''"
abbreviation "USERS_UPDATE \<equiv> ''users:update''"
abbreviation "USERS_DELETE \<equiv> ''users:delete''"
abbreviation "USERS_IMPERSONATE \<equiv> ''users:impersonate''"
abbreviation "SERVERS_READ_OWN \<equiv> ''servers:read_own''"
abbreviation "SERVERS_WRITE_OWN \<equiv> ''servers:write_own''"
abbreviation "SERVERS_READ_ALL \<equiv> ''servers:read_all''"
abbreviation "SERVERS_WRITE_ALL \<equiv> ''servers:write_all''"
abbreviation "SERVERS_ACCESS_OTHERS \<equiv> ''servers:access_others''"
abbreviation "ENVIRONMENT_CREATE \<equiv> ''environment:create''"
abbreviation "ENVIRONMENT_READ \<equiv> ''environment:read''"
abbreviation "ENVIRONMENT_UPDATE \<equiv> ''environment:update''"
abbreviation "ENVIRONMENT_DELETE \<equiv> ''environment:delete''"
abbreviation "PLAN_CREATE \<equiv> ''plan:create''"
abbreviation "PLAN_READ \<equiv> ''plan:read''"
abbreviation "PLAN_UPDATE \<equiv> ''plan:update''"
abbreviation "PLAN_DELETE \<equiv> ''plan:delete''"
abbreviation "QUOTA_READ \<equiv> ''quota:read''"
abbreviation "QUOTA_UPDATE \<equiv> ''quota:update''"
abbreviation "CREDITS_READ_OWN \<equiv> ''credits:read_own''"
abbreviation "CREDITS_READ_ALL \<equiv> ''credits:read_all''"
abbreviation "CREDITS_GRANT \<equiv> ''credits:grant''"
abbreviation "CREDITS_DEDUCT \<equiv> ''credits:deduct''"
abbreviation "ANALYTICS_READ_OWN \<equiv> ''analytics:read_own''"
abbreviation "ANALYTICS_READ \<equiv> ''analytics:read''"
abbreviation "WORKSPACES_READ_OWN \<equiv> ''workspaces:read_own''"
abbreviation "WORKSPACES_WRITE_OWN \<equiv> ''workspaces:write_own''"
abbreviation "WORKSPACES_READ_ALL \<equiv> ''workspaces:read_all''"
abbreviation "WORKSPACES_WRITE_ALL \<equiv> ''workspaces:write_all''"
abbreviation "VOLUMES_READ_OWN \<equiv> ''volumes:read_own''"
abbreviation "VOLUMES_WRITE_OWN \<equiv> ''volumes:write_own''"
abbreviation "VOLUMES_READ_ALL \<equiv> ''volumes:read_all''"
abbreviation "VOLUMES_WRITE_ALL \<equiv> ''volumes:write_all''"
abbreviation "AUDIT_READ \<equiv> ''audit:read''"
abbreviation "ADMIN_ACCESS \<equiv> ''admin:access''"
abbreviation "ALL_PERMISSIONS \<equiv> ''*''"

definition PERMISSIONS :: "string list" where
  "PERMISSIONS =
    [USERS_READ, USERS_CREATE, USERS_UPDATE, USERS_DELETE, USERS_IMPERSONATE, SERVERS_READ_OWN,
     SERVERS_WRITE_OWN, SERVERS_READ_ALL, SERVERS_WRITE_ALL, SERVERS_ACCESS_OTHERS,
     ENVIRONMENT_CREATE, ENVIRONMENT_READ, ENVIRONMENT_UPDATE, ENVIRONMENT_DELETE, PLAN_CREATE,
     PLAN_READ, PLAN_UPDATE, PLAN_DELETE, QUOTA_READ, QUOTA_UPDATE, CREDITS_READ_OWN,
     CREDITS_READ_ALL, CREDITS_GRANT, CREDITS_DEDUCT, ANALYTICS_READ_OWN, ANALYTICS_READ,
     WORKSPACES_READ_OWN, WORKSPACES_WRITE_OWN, WORKSPACES_READ_ALL, WORKSPACES_WRITE_ALL,
     VOLUMES_READ_OWN, VOLUMES_WRITE_OWN, VOLUMES_READ_ALL, VOLUMES_WRITE_ALL, AUDIT_READ,
     ADMIN_ACCESS, ALL_PERMISSIONS]"

subsection \<open>The permission check\<close>

text \<open>
  \<^verbatim>\<open>ROLE_LEVELS[role] ?? -1\<close> on the own keys of the table. (For a name that every object inherits,
  such as \<^verbatim>\<open>constructor\<close>, the code reads a function here; each comparison with it is false, as
  each comparison with \<open>- 1\<close> is.)
\<close>

definition getRoleLevel :: "string option \<Rightarrow> int" where
  "getRoleLevel r =
     (case r of None \<Rightarrow> - 1
      | Some s \<Rightarrow> if s = [] then - 1 else case map_of ROLE_LEVELS s of None \<Rightarrow> - 1 | Some l \<Rightarrow> l)"

definition fallbackPermission :: "int \<Rightarrow> string \<Rightarrow> bool" where
  "fallbackPermission roleLevel permission =
    (if permission \<in> {USERS_READ, USERS_CREATE, USERS_UPDATE} then roleLevel \<ge> LEVEL_moderator
     else if permission \<in> {USERS_DELETE, USERS_IMPERSONATE} then roleLevel \<ge> LEVEL_admin
     else if permission \<in> {SERVERS_READ_ALL, SERVERS_WRITE_ALL, SERVERS_ACCESS_OTHERS}
       then roleLevel \<ge> LEVEL_moderator
     else if permission = SERVERS_WRITE_OWN then roleLevel \<ge> LEVEL_user
     else if permission = SERVERS_READ_OWN then roleLevel \<ge> LEVEL_guest
     else if permission \<in> {ENVIRONMENT_CREATE, ENVIRONMENT_UPDATE, ENVIRONMENT_DELETE}
       then roleLevel \<ge> LEVEL_admin
     else if permission = ENVIRONMENT_READ then roleLevel \<ge> LEVEL_moderator
     else if permission \<in> {PLAN_CREATE, PLAN_UPDATE, PLAN_DELETE} then roleLevel \<ge> LEVEL_admin
     else if permission = PLAN_READ then roleLevel \<ge> LEVEL_moderator
     else if permission \<in> {QUOTA_READ, QUOTA_UPDATE} then roleLevel \<ge> LEVEL_admin
     else if permission = CREDITS_READ_OWN then roleLevel \<ge> LEVEL_user
     else if permission = CREDITS_READ_ALL then roleLevel \<ge> LEVEL_support
     else if permission \<in> {CREDITS_GRANT, CREDITS_DEDUCT} then roleLevel \<ge> LEVEL_admin
     else if permission \<in> {AUDIT_READ, ADMIN_ACCESS} then roleLevel \<ge> LEVEL_admin
     else if permission = ANALYTICS_READ then roleLevel \<ge> LEVEL_support
     else if permission \<in> {WORKSPACES_READ_OWN, VOLUMES_READ_OWN, VOLUMES_WRITE_OWN,
       WORKSPACES_WRITE_OWN} then roleLevel \<ge> LEVEL_user
     else if permission \<in> {WORKSPACES_READ_ALL, VOLUMES_READ_ALL} then roleLevel \<ge> LEVEL_support
     else if permission \<in> {WORKSPACES_WRITE_ALL, VOLUMES_WRITE_ALL}
       then roleLevel \<ge> LEVEL_moderator
     else False)"

definition checkPermission :: "User option \<Rightarrow> string \<Rightarrow> bool" where
  "checkPermission u permission =
    (case u of None \<Rightarrow> False
     | Some usr \<Rightarrow>
         if \<not> is_active usr then False
         else case permissions usr of
             Some (p # ps) \<Rightarrow>
               if ALL_PERMISSIONS \<in> set (p # ps) then True else permission \<in> set (p # ps)
           | _ \<Rightarrow> fallbackPermission (getRoleLevel (Some (role usr))) permission)"

subsection \<open>The store\<close>

record AuthState =
  user :: "User option"

definition initialAuth :: AuthState where
  "initialAuth = \<lparr>user = None\<rparr>"

definition setUser :: "User option \<Rightarrow> AuthState \<Rightarrow> AuthState" where
  "setUser u st = st\<lparr>user := u\<rparr>"

definition getRole :: "AuthState \<Rightarrow> string" where
  "getRole st = (case user st of None \<Rightarrow> ''guest'' | Some u \<Rightarrow> if role u = [] then ''guest'' else role u)"

definition storeRoleLevel :: "AuthState \<Rightarrow> int" where
  "storeRoleLevel st = getRoleLevel (map_option role (user st))"

definition hasPermission :: "AuthState \<Rightarrow> string \<Rightarrow> bool" where
  "hasPermission st permission = checkPermission (user st) permission"

definition hasAnyPermission :: "AuthState \<Rightarrow> string list \<Rightarrow> bool" where
  "hasAnyPermission st ps = list_ex (checkPermission (user st)) ps"

definition hasAllPermissions :: "AuthState \<Rightarrow> string list \<Rightarrow> bool" where
  "hasAllPermissions st ps = list_all (checkPermission (user st)) ps"

definition isSuperAdmin :: "AuthState \<Rightarrow> bool" where
  "isSuperAdmin st = hasPermission st ALL_PERMISSIONS"

definition isAdmin :: "AuthState \<Rightarrow> bool" where
  "isAdmin st = hasPermission st ADMIN_ACCESS"

definition isModerator :: "AuthState \<Rightarrow> bool" where
  "isModerator st = (hasPermission st SERVERS_READ_ALL \<and> \<not> hasPermission st ADMIN_ACCESS)"

definition isSupport :: "AuthState \<Rightarrow> bool" where
  "isSupport st = (hasPermission st VOLUMES_READ_ALL \<and> \<not> hasPermission st SERVERS_READ_ALL)"

definition isUser :: "AuthState \<Rightarrow> bool" where
  "isUser st = (hasPermission st SERVERS_WRITE_OWN \<and> \<not> hasPermission st VOLUMES_READ_ALL)"

definition isGuest :: "AuthState \<Rightarrow> bool" where
  "isGuest st =
    (user st = None \<or> hasPermission st SERVERS_READ_OWN \<and> \<not> hasPermission st SERVERS_WRITE_OWN)"

definition canManageUsers :: "AuthState \<Rightarrow> bool" where
  "canManageUsers st = hasAnyPermission st [USERS_CREATE, USERS_UPDATE, USERS_DELETE]"

definition canCreateUsers :: "AuthState \<Rightarrow> bool" where
  "canCreateUsers st = hasPermission st USERS_CREATE"

definition canDeleteUsers :: "AuthState \<Rightarrow> bool" where
  "canDeleteUsers st = hasPermission st USERS_DELETE"

definition canManageServers :: "AuthState \<Rightarrow> bool" where
  "canManageServers st = hasPermission st SERVERS_WRITE_ALL"

definition canAccessOthersServers :: "AuthState \<Rightarrow> bool" where
  "canAccessOthersServers st = hasPermission st SERVERS_ACCESS_OTHERS"

definition canViewAllServers :: "AuthState \<Rightarrow> bool" where
  "canViewAllServers st = hasPermission st SERVERS_READ_ALL"

definition canStartStopServers :: "AuthState \<Rightarrow> bool" where
  "canStartStopServers st = hasPermission st SERVERS_WRITE_OWN"

definition canDeleteServers :: "AuthState \<Rightarrow> bool" where
  "canDeleteServers st = hasPermission st SERVERS_WRITE_OWN"

definition canWriteOwnServers :: "AuthState \<Rightarrow> bool" where
  "canWriteOwnServers st = hasPermission st SERVERS_WRITE_OWN"

definition canManageEnvironments :: "AuthState \<Rightarrow> bool" where
  "canManageEnvironments st =
    hasAnyPermission st [ENVIRONMENT_CREATE, ENVIRONMENT_UPDATE, ENVIRONMENT_DELETE]"

definition canManagePlans :: "AuthState \<Rightarrow> bool" where
  "canManagePlans st = hasAnyPermission st [PLAN_CREATE, PLAN_UPDATE, PLAN_DELETE]"

definition canAccessAdmin :: "AuthState \<Rightarrow> bool" where
  "canAccessAdmin st = hasAnyPermission st
    [ADMIN_ACCESS, USERS_READ, USERS_CREATE, USERS_UPDATE, USERS_DELETE, SERVERS_READ_ALL,
     SERVERS_WRITE_ALL, ENVIRONMENT_CREATE, ENVIRONMENT_UPDATE, ENVIRONMENT_DELETE, PLAN_CREATE,
     PLAN_UPDATE, PLAN_DELETE, QUOTA_READ, QUOTA_UPDATE, CREDITS_GRANT, CREDITS_DEDUCT,
     ANALYTICS_READ, AUDIT_READ]"

definition canManageCredits :: "AuthState \<Rightarrow> bool" where
  "canManageCredits st = hasAnyPermission st [CREDITS_GRANT, CREDITS_DEDUCT]"

definition canViewCredits :: "AuthState \<Rightarrow> bool" where
  "canViewCredits st = hasPermission st CREDITS_READ_OWN"

definition canViewAudit :: "AuthState \<Rightarrow> bool" where
  "canViewAudit st = hasPermission st AUDIT_READ"

text \<open>
  Persistence: \<^verbatim>\<open>partialize\<close> stores the user only, \<^verbatim>\<open>migrate\<close> (a stored version other than 1) drops it.
\<close>

definition partialize :: "AuthState \<Rightarrow> User option" where
  "partialize st = user st"

definition rehydrate :: "nat \<Rightarrow> User option \<Rightarrow> AuthState \<Rightarrow> AuthState" where
  "rehydrate version stored st = (if version = 1 then st\<lparr>user := stored\<rparr> else st\<lparr>user := None\<rparr>)"

lemmas store_predicates [store_defs] =
  hasPermission_def hasAnyPermission_def hasAllPermissions_def isSuperAdmin_def isAdmin_def
  isModerator_def isSupport_def isUser_def isGuest_def canManageUsers_def canCreateUsers_def
  canDeleteUsers_def canManageServers_def canAccessOthersServers_def canViewAllServers_def
  canStartStopServers_def canDeleteServers_def canWriteOwnServers_def canManageEnvironments_def
  canManagePlans_def canAccessAdmin_def canManageCredits_def canViewCredits_def canViewAudit_def

subsection \<open>Guards\<close>

record PageGuardOptions =
  g_permission :: "string option"
  g_permissions :: "string list option"
  g_requireAll :: bool
  g_redirectTo :: string

text \<open>\<^verbatim>\<open>usePageGuard\<close>: whether the page renders, and the redirect of the effect when it does not.\<close>

definition guardAllowed :: "AuthState \<Rightarrow> PageGuardOptions \<Rightarrow> bool" where
  "guardAllowed st opts =
    (case g_permission opts of
       Some (c # cs) \<Rightarrow> hasPermission st (c # cs)
     | _ \<Rightarrow>
       (case g_permissions opts of
          Some (p # ps) \<Rightarrow>
            if g_requireAll opts then hasAllPermissions st (p # ps) else hasAnyPermission st (p # ps)
        | _ \<Rightarrow> True))"

definition usePageGuard :: "AuthState \<Rightarrow> PageGuardOptions \<Rightarrow> bool \<times> string option" where
  "usePageGuard st opts =
    (let allowed = guardAllowed st opts in (allowed, if allowed then None else Some (g_redirectTo opts)))"

definition PermissionGuard :: "AuthState \<Rightarrow> PageGuardOptions \<Rightarrow> 'n \<Rightarrow> 'n \<Rightarrow> 'n \<times> string option" where
  "PermissionGuard st opts fallback children =
    (let allowed = guardAllowed st opts
     in (if allowed then children else fallback, if allowed then None else Some (g_redirectTo opts)))"

definition AdminLayout :: "AuthState \<Rightarrow> bool \<times> string option" where
  "AdminLayout st = (canAccessAdmin st, if canAccessAdmin st then None else Some ''/'')"

subsection \<open>Specification: the least role level of each permission\<close>

definition REQUIRED_LEVEL :: "(string \<times> int) list" where
  "REQUIRED_LEVEL =
    [(USERS_READ, 3), (USERS_CREATE, 3), (USERS_UPDATE, 3), (USERS_DELETE, 4),
     (USERS_IMPERSONATE, 4), (SERVERS_READ_ALL, 3), (SERVERS_WRITE_ALL, 3),
     (SERVERS_ACCESS_OTHERS, 3), (SERVERS_WRITE_OWN, 1), (SERVERS_READ_OWN, 0),
     (ENVIRONMENT_CREATE, 4), (ENVIRONMENT_UPDATE, 4), (ENVIRONMENT_DELETE, 4),
     (ENVIRONMENT_READ, 3), (PLAN_CREATE, 4), (PLAN_UPDATE, 4), (PLAN_DELETE, 4), (PLAN_READ, 3),
     (QUOTA_READ, 4), (QUOTA_UPDATE, 4), (CREDITS_READ_OWN, 1), (CREDITS_READ_ALL, 2),
     (CREDITS_GRANT, 4), (CREDITS_DEDUCT, 4), (AUDIT_READ, 4), (ADMIN_ACCESS, 4),
     (ANALYTICS_READ, 2), (WORKSPACES_READ_OWN, 1), (VOLUMES_READ_OWN, 1), (VOLUMES_WRITE_OWN, 1),
     (WORKSPACES_WRITE_OWN, 1), (WORKSPACES_READ_ALL, 2), (VOLUMES_READ_ALL, 2),
     (WORKSPACES_WRITE_ALL, 3), (VOLUMES_WRITE_ALL, 3)]"

text \<open>A user in fallback mode: active, and the backend sent no permission list (or an empty one).\<close>

definition fallback_mode :: "User \<Rightarrow> bool" where
  "fallback_mode u = (is_active u \<and> (permissions u = None \<or> permissions u = Some []))"

definition session_active :: "AuthState \<Rightarrow> bool" where
  "session_active st = (case user st of None \<Rightarrow> False | Some u \<Rightarrow> is_active u)"

subsection \<open>An authorisation oracle, as an interface\<close>

text \<open>
  What guards and capability predicates rely on, on the client and on the server: an inactive
  session is granted nothing. The disjunctive and conjunctive checks inherit it.
\<close>

locale permission_oracle =
  fixes has :: "'s \<Rightarrow> string \<Rightarrow> bool"
    and active :: "'s \<Rightarrow> bool"
  assumes inactive_denied: "\<not> active s \<Longrightarrow> \<not> has s p"
begin

lemma any_inactive: "\<not> active s \<Longrightarrow> \<not> list_ex (has s) ps"
  by (simp add: list_ex_iff inactive_denied)

lemma all_inactive: "\<not> active s \<Longrightarrow> ps \<noteq> [] \<Longrightarrow> \<not> list_all (has s) ps"
  by (cases ps) (simp_all add: inactive_denied)

lemma all_imp_any: "ps \<noteq> [] \<Longrightarrow> list_all (has s) ps \<Longrightarrow> list_ex (has s) ps"
  by (cases ps) auto

lemma any_mono: "set ps \<subseteq> set qs \<Longrightarrow> list_ex (has s) ps \<Longrightarrow> list_ex (has s) qs"
  by (auto simp: list_ex_iff)

end

lemma hasPermission_active: "hasPermission st p \<Longrightarrow> session_active st"
  by (auto simp: hasPermission_def checkPermission_def session_active_def split: option.splits if_splits)

interpretation client: permission_oracle hasPermission session_active
  by unfold_locales (blast dest: hasPermission_active)

lemma any_client: "hasAnyPermission st ps = list_ex (hasPermission st) ps"
  by (simp add: hasAnyPermission_def hasPermission_def [abs_def])

lemma all_client: "hasAllPermissions st ps = list_all (hasPermission st) ps"
  by (simp add: hasAllPermissions_def hasPermission_def [abs_def])

subsection \<open>The fallback switch\<close>

lemma fallback_in_table:
  "(p, m) \<in> set REQUIRED_LEVEL \<Longrightarrow> fallbackPermission l p \<longleftrightarrow> m \<le> l"
  unfolding REQUIRED_LEVEL_def
  by (simp only: list.set insert_iff empty_iff prod.inject simp_thms, elim disjE conjE;
      simp add: fallbackPermission_def)

lemma fallback_not_in_table: "p \<notin> fst ` set REQUIRED_LEVEL \<Longrightarrow> \<not> fallbackPermission l p"
  by (simp add: REQUIRED_LEVEL_def fallbackPermission_def)

text \<open>
  The 35-case switch of the role fallback is the table of least role levels: a permission
  is granted exactly when it is listed and the caller's level reaches the listed level; every other
  string, the wildcard included, is denied.
\<close>
theorem fallback_switch_is_table:
  "fallbackPermission l p \<longleftrightarrow> (\<exists>m. map_of REQUIRED_LEVEL p = Some m \<and> m \<le> l)"
proof (cases "map_of REQUIRED_LEVEL p")
  case None
  then have "p \<notin> fst ` set REQUIRED_LEVEL" by (simp add: map_of_eq_None_iff)
  with None show ?thesis by (simp add: fallback_not_in_table)
next
  case (Some m)
  then have "(p, m) \<in> set REQUIRED_LEVEL" by (rule map_of_SomeD)
  with Some show ?thesis by (simp add: fallback_in_table)
qed

lemma fallback_mono: "fallbackPermission l p \<Longrightarrow> l \<le> l' \<Longrightarrow> fallbackPermission l' p"
proof (cases "map_of REQUIRED_LEVEL p")
  case None
  then have "p \<notin> fst ` set REQUIRED_LEVEL" by (simp add: map_of_eq_None_iff)
  then show "fallbackPermission l p \<Longrightarrow> ?thesis" by (simp add: fallback_not_in_table)
next
  case (Some m)
  then have "(p, m) \<in> set REQUIRED_LEVEL" by (rule map_of_SomeD)
  then show "fallbackPermission l p \<Longrightarrow> l \<le> l' \<Longrightarrow> ?thesis" by (simp add: fallback_in_table)
qed

lemma check_fallback:
  "fallback_mode u \<Longrightarrow>
    checkPermission (Some u) p = fallbackPermission (getRoleLevel (Some (role u))) p"
  by (auto simp: fallback_mode_def checkPermission_def)

lemma check_listed:
  "is_active u \<Longrightarrow> permissions u = Some ps \<Longrightarrow> ps \<noteq> [] \<Longrightarrow>
    checkPermission (Some u) p = (ALL_PERMISSIONS \<in> set ps \<or> p \<in> set ps)"
  by (cases ps) (auto simp: checkPermission_def)

text \<open>
  Role hierarchy: without a permission list from the backend, whatever a user may do, a user
  whose role has at least the same level may do too.
\<close>
theorem role_hierarchy_monotone:
  assumes "fallback_mode u" and "fallback_mode v"
    and "getRoleLevel (Some (role u)) \<le> getRoleLevel (Some (role v))"
    and "checkPermission (Some u) p"
  shows "checkPermission (Some v) p"
  using assms fallback_mono by (auto simp: check_fallback)

definition demo_user :: "string \<Rightarrow> string list option \<Rightarrow> User" where
  "demo_user r ps = \<lparr>user_id = ''u1'', username = ''ann'', role = r, permissions = ps,
     is_active = True, preferences = None\<rparr>"

theorem role_hierarchy_monotone_witness:
  "checkPermission (Some (demo_user ''admin'' None)) USERS_READ"
  by (rule role_hierarchy_monotone [of "demo_user ''moderator'' None"])
    (simp_all add: demo_user_def fallback_mode_def getRoleLevel_def ROLE_LEVELS_def
      checkPermission_def fallbackPermission_def)

text \<open>
  A signed-out or deactivated session is denied everything: every permission, every capability
  predicate of the store, the admin area, and every guarded page, whatever its cached role or
  permission list says.
\<close>
theorem inactive_session_denied:
  assumes "\<not> session_active st"
  shows "\<not> hasPermission st p \<and> \<not> canAccessAdmin st \<and> \<not> canManageUsers st \<and> \<not> canManageServers st
    \<and> \<not> canManageCredits st \<and> \<not> canStartStopServers st \<and> \<not> isSuperAdmin st
    \<and> AdminLayout st = (False, Some ''/'')
    \<and> usePageGuard st \<lparr>g_permission = Some (c # cs), g_permissions = ps, g_requireAll = b, g_redirectTo = r\<rparr>
        = (False, Some r)"
  using assms client.inactive_denied client.any_inactive
  by (auto simp: any_client canAccessAdmin_def canManageUsers_def canManageServers_def
      canManageCredits_def canStartStopServers_def isSuperAdmin_def AdminLayout_def usePageGuard_def
      guardAllowed_def)

theorem inactive_session_denied_witness:
  "\<not> hasPermission \<lparr>user = Some ((demo_user ''super_admin'' (Some [ALL_PERMISSIONS]))\<lparr>is_active := False\<rparr>)\<rparr>
      USERS_READ"
  by (rule inactive_session_denied [THEN conjunct1]) (simp add: session_active_def demo_user_def)

text \<open>
  In fallback mode the five role predicates of the store name the user's role: for each known
  role exactly the predicates in its row hold, so no user is two things at once.
\<close>
theorem role_predicates_partition:
  assumes "user st = Some u" and "fallback_mode u"
    and "map_of ROLE_LEVELS (role u) = Some l"
  shows "(isAdmin st \<longleftrightarrow> role u \<in> {''super_admin'', ''admin''})
    \<and> (isModerator st \<longleftrightarrow> role u = ''moderator'') \<and> (isSupport st \<longleftrightarrow> role u = ''support'')
    \<and> (isUser st \<longleftrightarrow> role u = ''user'') \<and> (isGuest st \<longleftrightarrow> role u = ''guest'')"
  using assms
  by (auto simp: isAdmin_def isModerator_def isSupport_def isUser_def isGuest_def hasPermission_def
      check_fallback fallbackPermission_def getRoleLevel_def ROLE_LEVELS_def split: if_splits)

theorem role_predicates_partition_witness:
  "isSupport \<lparr>user = Some (demo_user ''support'' None)\<rparr> \<and> \<not> isUser \<lparr>user = Some (demo_user ''support'' None)\<rparr>"
  using role_predicates_partition [of "\<lparr>user = Some (demo_user ''support'' None)\<rparr>"
      "demo_user ''support'' None" 2]
  by (simp add: demo_user_def fallback_mode_def ROLE_LEVELS_def)

text \<open>
  The admin area is reachable for everyone who can use any part of it: each administrative
  capability of the store implies \<^term>\<open>canAccessAdmin\<close>, with listed permissions and in fallback mode.
\<close>
theorem admin_capabilities_open_admin_area:
  "isAdmin st \<or> canManageUsers st \<or> canManageServers st \<or> canViewAllServers st \<or>
   canManageEnvironments st \<or> canManagePlans st \<or> canManageCredits st \<or> canViewAudit st \<Longrightarrow>
   canAccessAdmin st"
  unfolding isAdmin_def canManageUsers_def canManageServers_def canViewAllServers_def
    canManageEnvironments_def canManagePlans_def canManageCredits_def canViewAudit_def
    canAccessAdmin_def any_client
  by (elim disjE) auto

theorem admin_capabilities_open_admin_area_witness:
  "canAccessAdmin \<lparr>user = Some (demo_user ''x'' (Some [CREDITS_GRANT]))\<rparr>"
  by (rule admin_capabilities_open_admin_area)
    (simp add: canManageCredits_def hasAnyPermission_def checkPermission_def demo_user_def)

text \<open>
  In fallback mode nobody is a super admin, not even a user whose role is \<^verbatim>\<open>super_admin\<close>: the
  switch has no case for the wildcard, so \<^term>\<open>isSuperAdmin\<close> answers false until the backend's
  permission list has arrived.
\<close>
theorem no_super_admin_in_fallback:
  assumes "user st = Some u" and "fallback_mode u"
  shows "\<not> isSuperAdmin st"
  using assms
  by (simp add: isSuperAdmin_def hasPermission_def check_fallback fallbackPermission_def)

theorem no_super_admin_in_fallback_witness:
  "\<not> isSuperAdmin \<lparr>user = Some (demo_user ''super_admin'' None)\<rparr>"
  by (rule no_super_admin_in_fallback [where u = "demo_user ''super_admin'' None"])
    (simp_all add: demo_user_def fallback_mode_def)

text \<open>
  A guarded page and its redirect are complementary, and requiring all of a non-empty list is
  at least as strict as requiring any of it.
\<close>
theorem guard_renders_or_redirects:
  "(fst (usePageGuard st opts) \<longleftrightarrow> snd (usePageGuard st opts) = None)
   \<and> PermissionGuard st opts fallback children =
      (if fst (usePageGuard st opts) then children else fallback, snd (usePageGuard st opts))
   \<and> (fst (usePageGuard st (opts\<lparr>g_requireAll := True\<rparr>)) \<longrightarrow>
      fst (usePageGuard st (opts\<lparr>g_requireAll := False\<rparr>)))"
  by (auto simp: usePageGuard_def PermissionGuard_def guardAllowed_def Let_def all_client any_client
      split: option.splits list.splits)

theorem guard_renders_or_redirects_witness:
  "fst (usePageGuard \<lparr>user = Some (demo_user ''x'' (Some [QUOTA_READ, AUDIT_READ]))\<rparr>
     (\<lparr>g_permission = None, g_permissions = Some [AUDIT_READ, QUOTA_READ], g_requireAll = True, g_redirectTo = ''/''\<rparr>
        \<lparr>g_requireAll := False\<rparr>))"
  by (rule guard_renders_or_redirects [THEN conjunct2, THEN conjunct2, rule_format])
    (simp add: usePageGuard_def guardAllowed_def hasAllPermissions_def checkPermission_def demo_user_def)

end
