(* ===== verification/Role_Matrix.thy ===== *)
theory Role_Matrix
  imports Auth_Store
begin

text \<open>
  The server side of the authorisation contract, \<^verbatim>\<open>backend/app/core/roles.py\<close> and
  \<^verbatim>\<open>backend/app/core/security.py\<close>: the role matrix and how it changes while the backend runs, the expansion of
  implied permissions, and the checks. It is what the client's permission list comes from, so the client's answers are
  compared with it.
\<close>

text \<open>
  The matrix is a dictionary that administrators change at run time. \<open>ROLE_PERMISSIONS\<close> is what it holds when the
  module is loaded; everything that reads the matrix takes the current one as its first argument. The cache of
  expanded lists is rebuilt at every change, so it is the expansion of the current matrix.
\<close>

type_synonym RoleTable = "string \<rightharpoonup> string list"

definition ROLE_PERMISSIONS :: "(string \<times> string list) list" where
  "ROLE_PERMISSIONS =
    [(''super_admin'', [ALL_PERMISSIONS]),
     (''admin'',
       [USERS_READ, USERS_CREATE, USERS_UPDATE, USERS_DELETE, USERS_IMPERSONATE, SERVERS_READ_ALL,
        SERVERS_WRITE_ALL, ENVIRONMENT_CREATE, ENVIRONMENT_READ, ENVIRONMENT_UPDATE,
        ENVIRONMENT_DELETE, PLAN_CREATE, PLAN_READ, PLAN_UPDATE, PLAN_DELETE, QUOTA_READ,
        QUOTA_UPDATE, CREDITS_READ_OWN, CREDITS_READ_ALL, CREDITS_GRANT, CREDITS_DEDUCT,
        ANALYTICS_READ_OWN, ANALYTICS_READ, WORKSPACES_READ_ALL, WORKSPACES_WRITE_ALL,
        VOLUMES_READ_ALL, VOLUMES_WRITE_ALL, AUDIT_READ, ADMIN_ACCESS]),
     (''moderator'',
       [USERS_READ, USERS_CREATE, USERS_UPDATE, SERVERS_READ_ALL, SERVERS_WRITE_ALL,
        ENVIRONMENT_CREATE, ENVIRONMENT_READ, ENVIRONMENT_UPDATE, ENVIRONMENT_DELETE, PLAN_CREATE,
        PLAN_READ, PLAN_UPDATE, PLAN_DELETE, QUOTA_READ, QUOTA_UPDATE, CREDITS_READ_ALL,
        CREDITS_GRANT, CREDITS_DEDUCT, WORKSPACES_READ_ALL, WORKSPACES_WRITE_ALL,
        VOLUMES_READ_ALL, VOLUMES_WRITE_ALL, AUDIT_READ]),
     (''support'',
       [USERS_READ, SERVERS_WRITE_OWN, SERVERS_READ_ALL, ENVIRONMENT_READ, PLAN_READ, QUOTA_READ,
        CREDITS_READ_OWN, CREDITS_READ_ALL, CREDITS_GRANT, ANALYTICS_READ_OWN, ANALYTICS_READ,
        WORKSPACES_WRITE_OWN, WORKSPACES_READ_ALL, VOLUMES_WRITE_OWN, VOLUMES_READ_ALL]),
     (''user'',
       [SERVERS_READ_OWN, SERVERS_WRITE_OWN, VOLUMES_READ_OWN, VOLUMES_WRITE_OWN,
        WORKSPACES_READ_OWN, WORKSPACES_WRITE_OWN, ENVIRONMENT_READ, PLAN_READ, CREDITS_READ_OWN,
        ANALYTICS_READ_OWN]),
     (''guest'', [SERVERS_READ_OWN, VOLUMES_READ_OWN])]"

definition all_permissions :: "string list" where
  "all_permissions =
    [USERS_READ, USERS_CREATE, USERS_UPDATE, USERS_DELETE, USERS_IMPERSONATE, SERVERS_READ_OWN,
     SERVERS_WRITE_OWN, SERVERS_READ_ALL, SERVERS_WRITE_ALL, SERVERS_ACCESS_OTHERS,
     ENVIRONMENT_CREATE, ENVIRONMENT_READ, ENVIRONMENT_UPDATE, ENVIRONMENT_DELETE, PLAN_CREATE,
     PLAN_READ, PLAN_UPDATE, PLAN_DELETE, QUOTA_READ, QUOTA_UPDATE, CREDITS_READ_OWN,
     CREDITS_READ_ALL, CREDITS_GRANT, CREDITS_DEDUCT, ANALYTICS_READ_OWN, ANALYTICS_READ,
     WORKSPACES_READ_OWN, WORKSPACES_WRITE_OWN, WORKSPACES_READ_ALL, WORKSPACES_WRITE_ALL,
     VOLUMES_READ_OWN, VOLUMES_WRITE_OWN, VOLUMES_READ_ALL, VOLUMES_WRITE_ALL, AUDIT_READ,
     ADMIN_ACCESS]"

definition get_role_permissions :: "RoleTable \<Rightarrow> string \<Rightarrow> string list" where
  "get_role_permissions T r = (case T r of None \<Rightarrow> [] | Some ps \<Rightarrow> ps)"

subsection \<open>Implied permissions\<close>

definition implications :: "(string \<times> string list) list" where
  "implications =
    [(ALL_PERMISSIONS, all_permissions),
     (SERVERS_READ_ALL, [SERVERS_READ_OWN]),
     (SERVERS_WRITE_ALL, [SERVERS_WRITE_OWN, SERVERS_READ_ALL, SERVERS_READ_OWN]),
     (SERVERS_ACCESS_OTHERS, [SERVERS_READ_ALL, SERVERS_READ_OWN]),
     (VOLUMES_READ_ALL, [VOLUMES_READ_OWN]),
     (VOLUMES_WRITE_ALL, [VOLUMES_WRITE_OWN, VOLUMES_READ_ALL, VOLUMES_READ_OWN]),
     (WORKSPACES_READ_ALL, [WORKSPACES_READ_OWN]),
     (WORKSPACES_WRITE_ALL, [WORKSPACES_WRITE_OWN, WORKSPACES_READ_ALL, WORKSPACES_READ_OWN]),
     (CREDITS_READ_ALL, [CREDITS_READ_OWN])]"

definition implied :: "string \<Rightarrow> string list" where
  "implied p = (case map_of implications p of None \<Rightarrow> [] | Some qs \<Rightarrow> qs)"

definition add_missing :: "string list \<Rightarrow> string list \<Rightarrow> string list" where
  "add_missing result qs = fold (\<lambda>q r. if q \<in> set r then r else r @ [q]) qs result"

text \<open>One turn of the \<^verbatim>\<open>while changed\<close> loop: it iterates over a snapshot of the result.\<close>

definition expand_pass :: "string list \<Rightarrow> string list" where
  "expand_pass result = fold (\<lambda>p r. add_missing r (implied p)) result result"

lemma add_missing_Cons:
  "add_missing r (q # qs) = add_missing (if q \<in> set r then r else r @ [q]) qs"
  by (simp add: add_missing_def)

lemma set_add_missing: "set (add_missing r qs) = set r \<union> set qs"
  by (induction qs arbitrary: r) (auto simp: add_missing_def)

lemma add_missing_extends: "\<exists>zs. add_missing r qs = r @ zs \<and> set zs \<subseteq> set qs - set r \<and> distinct zs"
proof (induction qs arbitrary: r)
  case Nil
  then show ?case by (simp add: add_missing_def)
next
  case (Cons q qs)
  show ?case
  proof (cases "q \<in> set r")
    case True
    with Cons [of r] show ?thesis by (auto simp: add_missing_Cons)
  next
    case False
    obtain zs where "add_missing (r @ [q]) qs = (r @ [q]) @ zs"
      "set zs \<subseteq> set qs - set (r @ [q])" "distinct zs"
      using Cons [of "r @ [q]"] by blast
    with False show ?thesis by (intro exI [of _ "q # zs"]) (auto simp: add_missing_Cons)
  qed
qed

lemma set_fold_missing:
  "set (fold (\<lambda>p r. add_missing r (implied p)) ps r) = set r \<union> (\<Union>p\<in>set ps. set (implied p))"
  by (induction ps arbitrary: r) (auto simp: set_add_missing)

lemma fold_missing_extends:
  "\<exists>zs. fold (\<lambda>p r. add_missing r (implied p)) ps r = r @ zs \<and> set zs \<inter> set r = {}"
proof (induction ps arbitrary: r)
  case (Cons p ps)
  obtain ys where ys: "add_missing r (implied p) = r @ ys" "set ys \<inter> set r = {}"
    using add_missing_extends [of r "implied p"] by blast
  obtain zs where "fold (\<lambda>p r. add_missing r (implied p)) ps (r @ ys) = (r @ ys) @ zs"
    "set zs \<inter> set (r @ ys) = {}"
    using Cons [of "r @ ys"] by blast
  with ys show ?case by (intro exI [of _ "ys @ zs"]) auto
qed simp

lemma set_expand_pass: "set (expand_pass r) = set r \<union> (\<Union>p\<in>set r. set (implied p))"
  by (simp add: expand_pass_def set_fold_missing)

lemma expand_pass_extends: "\<exists>zs. expand_pass r = r @ zs \<and> set zs \<inter> set r = {}"
  unfolding expand_pass_def by (rule fold_missing_extends)

definition implied_universe :: "string set" where
  "implied_universe = (\<Union>(p, qs)\<in>set implications. set qs)"

lemma implied_in_universe: "set (implied p) \<subseteq> implied_universe"
proof (cases "map_of implications p")
  case (Some qs)
  then have "(p, qs) \<in> set implications" by (rule map_of_SomeD)
  with Some show ?thesis by (force simp: implied_def implied_universe_def)
qed (simp add: implied_def)

lemma finite_universe [simp]: "finite implied_universe"
  by (auto simp: implied_universe_def)

lemma expand_pass_measure:
  assumes "length (expand_pass r) \<noteq> length r"
  shows "card (implied_universe - set (expand_pass r)) < card (implied_universe - set r)"
proof -
  obtain zs where zs: "expand_pass r = r @ zs" "set zs \<inter> set r = {}"
    using expand_pass_extends by blast
  with assms obtain z where z: "z \<in> set zs" by (cases zs) auto
  then have "z \<in> (\<Union>p\<in>set r. set (implied p))" using set_expand_pass [of r] zs by auto
  then have "z \<in> implied_universe" using implied_in_universe by blast
  with z zs have "implied_universe - set (expand_pass r) \<subset> implied_universe - set r" by auto
  then show ?thesis by (rule psubset_card_mono [rotated]) simp
qed

function expand_permissions :: "string list \<Rightarrow> string list" where
  "expand_permissions r =
    (let r' = expand_pass r in if length r' = length r then r else expand_permissions r')"
  by pat_completeness auto
termination
  by (relation "measure (\<lambda>r. card (implied_universe - set r))") (auto simp: expand_pass_measure)

declare expand_permissions.simps [simp del]

subsection \<open>The server's checks\<close>

definition get_expanded_role_permissions :: "RoleTable \<Rightarrow> string \<Rightarrow> string set" where
  "get_expanded_role_permissions T r = set (expand_permissions (get_role_permissions T r))"

definition get_user_permissions :: "RoleTable \<Rightarrow> User option \<Rightarrow> string list" where
  "get_user_permissions T u =
    (case u of None \<Rightarrow> [] | Some usr \<Rightarrow> if role usr = [] then [] else get_role_permissions T (role usr))"

definition has_permission :: "RoleTable \<Rightarrow> User option \<Rightarrow> string \<Rightarrow> bool" where
  "has_permission T u p =
    (case u of None \<Rightarrow> False
     | Some usr \<Rightarrow> is_active usr \<and> p \<in> get_expanded_role_permissions T (role usr))"

definition has_any_permission :: "RoleTable \<Rightarrow> User option \<Rightarrow> string list \<Rightarrow> bool" where
  "has_any_permission T u ps = list_ex (has_permission T u) ps"

definition has_all_permissions :: "RoleTable \<Rightarrow> User option \<Rightarrow> string list \<Rightarrow> bool" where
  "has_all_permissions T u ps =
    (case u of None \<Rightarrow> False | Some usr \<Rightarrow> is_active usr \<and> list_all (has_permission T u) ps)"

text \<open>The profile the server sends to the client: the user with its raw permission list.\<close>

definition profile_user :: "RoleTable \<Rightarrow> User \<Rightarrow> User" where
  "profile_user T u = u\<lparr>permissions := Some (get_user_permissions T (Some u))\<rparr>"

interpretation server: permission_oracle "has_permission T"
  "\<lambda>u. case u of None \<Rightarrow> False | Some usr \<Rightarrow> is_active usr"
  by unfold_locales (auto simp: has_permission_def split: option.splits)

subsection \<open>Changes of the matrix\<close>

definition VALID_ROLES :: "string list" where
  "VALID_ROLES = map fst ROLE_PERMISSIONS"

text \<open>The handler of an update, behind the check of its caller: the status it answers and the matrix afterwards.\<close>

definition update_role_permissions :: "string \<Rightarrow> string list \<Rightarrow> RoleTable \<Rightarrow> nat \<times> RoleTable" where
  "update_role_permissions r ps T =
    (if r = ''super_admin'' then (403, T)
     else if r \<notin> set VALID_ROLES then (400, T)
     else if filter (\<lambda>p. p \<notin> set all_permissions \<and> p \<noteq> ALL_PERMISSIONS) ps \<noteq> [] then (400, T)
     else (200, T(r \<mapsto> ps)))"

text \<open>At the start the saved matrix is read; a list with a permission that is no longer known is reset.\<close>

definition load_role_permissions_from_db :: "(string \<times> string list) list option \<Rightarrow> RoleTable \<Rightarrow> RoleTable" where
  "load_role_permissions_from_db raw T =
    (case raw of None \<Rightarrow> T
     | Some saved \<Rightarrow> fold (\<lambda>(r, ps) T. if T r = None then T
         else if filter (\<lambda>p. p \<notin> set all_permissions \<and> p \<noteq> ALL_PERMISSIONS) ps \<noteq> [] then T(r := map_of ROLE_PERMISSIONS r)
         else T(r \<mapsto> ps)) saved T)"

text \<open>The matrices a running backend can have: whatever was saved is loaded, and whoever may does updates.\<close>

inductive role_table :: "RoleTable \<Rightarrow> bool" where
  loaded: "role_table (load_role_permissions_from_db raw (map_of ROLE_PERMISSIONS))"
| updated: "role_table T \<Longrightarrow> has_permission T (Some actor) ADMIN_ACCESS \<Longrightarrow> role_table (snd (update_role_permissions r ps T))"

lemma default_roles: "map_of ROLE_PERMISSIONS r = None \<longleftrightarrow> r \<notin> set VALID_ROLES"
  by (auto simp: VALID_ROLES_def map_of_eq_None_iff)

text \<open>Loading and updating never add or drop a role.\<close>

lemma load_keeps_roles: "dom T = set VALID_ROLES \<Longrightarrow> dom (load_role_permissions_from_db raw T) = set VALID_ROLES"
proof (cases raw)
  case (Some saved)
  have "dom T = set VALID_ROLES \<Longrightarrow> dom (fold (\<lambda>(r, ps) T. if T r = None then T
         else if filter (\<lambda>p. p \<notin> set all_permissions \<and> p \<noteq> ALL_PERMISSIONS) ps \<noteq> [] then T(r := map_of ROLE_PERMISSIONS r)
         else T(r \<mapsto> ps)) saved T) = set VALID_ROLES" for T
  proof (induction saved arbitrary: T)
    case (Cons x saved)
    obtain r ps where x: "x = (r, ps)" by (cases x)
    have "T r \<noteq> None \<Longrightarrow> map_of ROLE_PERMISSIONS r \<noteq> None" using Cons.prems default_roles [of r] by auto
    then have "T r \<noteq> None \<Longrightarrow> dom (T(r := map_of ROLE_PERMISSIONS r)) = set VALID_ROLES" using Cons.prems by auto
    moreover have "T r \<noteq> None \<Longrightarrow> dom (T(r \<mapsto> ps)) = set VALID_ROLES" using Cons.prems by auto
    ultimately show ?case using Cons.IH Cons.prems unfolding x by (simp del: fun_upd_apply dom_fun_upd)
  qed simp
  with Some show "dom T = set VALID_ROLES \<Longrightarrow> ?thesis" by (simp add: load_role_permissions_from_db_def)
qed (simp add: load_role_permissions_from_db_def)

lemma role_table_dom: "role_table T \<Longrightarrow> dom T = set VALID_ROLES"
proof (induction rule: role_table.induct)
  case (loaded raw)
  have "dom (map_of ROLE_PERMISSIONS) = set VALID_ROLES" by (simp add: VALID_ROLES_def dom_map_of_conv_image_fst)
  then show ?case by (rule load_keeps_roles)
next
  case (updated T actor r ps)
  then show ?case by (auto simp: update_role_permissions_def)
qed

lemma default_role_table: "role_table (map_of ROLE_PERMISSIONS)"
  using role_table.loaded [of None] by (simp add: load_role_permissions_from_db_def)

subsection \<open>Expansion computes the least closed set\<close>

definition perm_closed :: "string set \<Rightarrow> bool" where
  "perm_closed S = (\<forall>p\<in>S. set (implied p) \<subseteq> S)"

lemma expand_superset: "set r \<subseteq> set (expand_permissions r)"
proof (induction r rule: expand_permissions.induct)
  case (1 r)
  show ?case
  proof (cases "length (expand_pass r) = length r")
    case True
    then show ?thesis by (simp add: expand_permissions.simps [of r])
  next
    case False
    with "1.IH" have "set (expand_pass r) \<subseteq> set (expand_permissions (expand_pass r))" by simp
    with False show ?thesis by (auto simp: expand_permissions.simps [of r] set_expand_pass)
  qed
qed

lemma expand_closed: "perm_closed (set (expand_permissions r))"
proof (induction r rule: expand_permissions.induct)
  case (1 r)
  show ?case
  proof (cases "length (expand_pass r) = length r")
    case True
    obtain zs where "expand_pass r = r @ zs" using expand_pass_extends by blast
    with True have "set (expand_pass r) = set r" by simp
    then have "perm_closed (set r)" by (auto simp: perm_closed_def set_expand_pass)
    with True show ?thesis by (simp add: expand_permissions.simps [of r])
  next
    case False
    with "1.IH" show ?thesis by (simp add: expand_permissions.simps [of r])
  qed
qed

lemma expand_least: "perm_closed S \<Longrightarrow> set r \<subseteq> S \<Longrightarrow> set (expand_permissions r) \<subseteq> S"
proof (induction r rule: expand_permissions.induct)
  case (1 r)
  show ?case
  proof (cases "length (expand_pass r) = length r")
    case True
    with "1.prems" show ?thesis by (simp add: expand_permissions.simps [of r])
  next
    case False
    have "set (expand_pass r) \<subseteq> S" using "1.prems" by (auto simp: set_expand_pass perm_closed_def)
    with False "1.IH" "1.prems" show ?thesis by (simp add: expand_permissions.simps [of r])
  qed
qed

text \<open>
  C10. The expansion loop terminates on every list and returns the least superset that is closed
  under the implication table.
\<close>
theorem expand_is_least_closure:
  "set r \<subseteq> set (expand_permissions r) \<and> perm_closed (set (expand_permissions r))
   \<and> (\<forall>S. perm_closed S \<and> set r \<subseteq> S \<longrightarrow> set (expand_permissions r) \<subseteq> S)"
  using expand_superset expand_closed expand_least by blast

theorem expand_is_least_closure_witness:
  "SERVERS_WRITE_OWN \<in> set (expand_permissions [SERVERS_WRITE_ALL])"
proof -
  have "perm_closed (set (expand_permissions [SERVERS_WRITE_ALL]))"
    and "SERVERS_WRITE_ALL \<in> set (expand_permissions [SERVERS_WRITE_ALL])"
    using expand_is_least_closure [of "[SERVERS_WRITE_ALL]"] by auto
  then have "set (implied SERVERS_WRITE_ALL) \<subseteq> set (expand_permissions [SERVERS_WRITE_ALL])"
    by (auto simp: perm_closed_def)
  then show ?thesis by (simp add: implied_def implications_def)
qed

subsection \<open>The client against the server\<close>

lemma expanded_implied:
  "p \<in> get_expanded_role_permissions T r \<Longrightarrow> q \<in> set (implied p) \<Longrightarrow> q \<in> get_expanded_role_permissions T r"
  using expand_closed [of "get_role_permissions T r"]
  by (auto simp: get_expanded_role_permissions_def perm_closed_def)

lemma raw_in_expanded: "p \<in> set (get_role_permissions T r) \<Longrightarrow> p \<in> get_expanded_role_permissions T r"
  using expand_superset [of "get_role_permissions T r"] by (auto simp: get_expanded_role_permissions_def)

lemma implied_all [simp]: "implied ALL_PERMISSIONS = all_permissions"
  by (simp add: implied_def implications_def)

lemma known_role_nonempty: "map_of ROLE_PERMISSIONS r = Some ps \<Longrightarrow> ps \<noteq> [] \<and> r \<noteq> []"
  by (auto simp: ROLE_PERMISSIONS_def split: if_splits)

lemma fallback_below_guest: "\<not> fallbackPermission (- 1) p"
  by (simp add: fallbackPermission_def)

lemma profile_user_simps [simp]:
  "is_active (profile_user T u) = is_active u" "role (profile_user T u) = role u"
  "permissions (profile_user T u) = Some (get_user_permissions T (Some u))"
  by (simp_all add: profile_user_def)

lemma profile_listed:
  assumes "T (role u) = Some ps" and "ps \<noteq> []" and "role u \<noteq> []" and "is_active u"
  shows "checkPermission (Some (profile_user T u)) p = (ALL_PERMISSIONS \<in> set ps \<or> p \<in> set ps)"
proof -
  have "get_user_permissions T (Some u) = ps"
    using assms by (simp add: get_user_permissions_def get_role_permissions_def)
  then show ?thesis using assms check_listed [of "profile_user T u" ps p] by simp
qed

lemma profile_check:
  assumes "map_of ROLE_PERMISSIONS (role u) = Some ps" and "is_active u"
  shows "checkPermission (Some (profile_user (map_of ROLE_PERMISSIONS) u)) p = (ALL_PERMISSIONS \<in> set ps \<or> p \<in> set ps)"
  using assms known_role_nonempty [OF assms(1)] by (intro profile_listed) auto

lemma unknown_role_level: "r \<notin> set VALID_ROLES \<Longrightarrow> getRoleLevel (Some r) = - 1"
  by (simp add: VALID_ROLES_def ROLE_PERMISSIONS_def ROLE_LEVELS_def getRoleLevel_def)

lemma unknown_profile_check:
  assumes "T (role u) = None" and "role u \<notin> set VALID_ROLES"
  shows "\<not> checkPermission (Some (profile_user T u)) p"
  using unknown_role_level [OF assms(2)] assms(1)
  by (auto simp: checkPermission_def get_user_permissions_def get_role_permissions_def fallback_below_guest)

lemma listed_granted:
  assumes "T r = Some ps" and "ALL_PERMISSIONS \<in> set ps \<or> p \<in> set ps" and "p \<in> set all_permissions"
  shows "p \<in> get_expanded_role_permissions T r"
proof -
  have "get_role_permissions T r = ps" using assms(1) by (simp add: get_role_permissions_def)
  then show ?thesis using raw_in_expanded expanded_implied assms(2,3) by (metis implied_all)
qed

lemma emptied_role_denied: "T (role u) = Some [] \<Longrightarrow> \<not> has_permission T (Some u) p"
  by (simp add: has_permission_def get_expanded_role_permissions_def get_role_permissions_def
      expand_permissions.simps [of "[]"] expand_pass_def)

lemma client_sound:
  assumes "role_table T" and "checkPermission (Some (profile_user T u)) p" and "p \<in> set all_permissions"
  shows "has_permission T (Some u) p \<longleftrightarrow> T (role u) \<noteq> Some []"
proof (cases "T (role u)")
  case None
  then have "role u \<notin> set VALID_ROLES" using role_table_dom [OF assms(1)] by blast
  with None assms(2) show ?thesis by (simp add: unknown_profile_check)
next
  case (Some ps)
  have act: "is_active u" using assms(2) by (auto simp: checkPermission_def split: if_splits)
  have "role u \<in> set VALID_ROLES" using Some role_table_dom [OF assms(1)] by blast
  then have "role u \<noteq> []" by (auto simp: VALID_ROLES_def ROLE_PERMISSIONS_def)
  then show ?thesis
    using Some assms(2,3) act profile_listed [where T = T and u = u and ps = ps and p = p] listed_granted [where T = T and r = "role u" and ps = ps and p = p] emptied_role_denied [of T u p]
    by (cases "ps = []") (auto simp: has_permission_def)
qed

text \<open>
  C5. Whatever administrators did to the role matrix, an account is offered by the client, of the permissions the system
  knows, only what the server itself grants, as long as the profile was sent under the current matrix. The one
  exception is a role whose list was emptied: the client takes an empty list for a missing one and guesses by the
  role's level, and whatever it then offers the server refuses.
\<close>
theorem client_sound_for_server:
  assumes "role_table T" and "checkPermission (Some (profile_user T u)) p" and "p \<in> set all_permissions"
  shows "has_permission T (Some u) p \<longleftrightarrow> T (role u) \<noteq> Some []"
  by (rule client_sound [OF assms])

text \<open>The two cases: a role that was given one permission, and one whose list was emptied.\<close>

theorem client_sound_for_server_witness:
  "(let T = snd (update_role_permissions ''guest'' [QUOTA_READ] (map_of ROLE_PERMISSIONS))
    in has_permission T (Some (demo_user ''guest'' None)) QUOTA_READ) \<and>
   (let T = snd (update_role_permissions ''moderator'' [] (map_of ROLE_PERMISSIONS))
    in \<not> has_permission T (Some (demo_user ''moderator'' None)) USERS_READ)"
proof -
  let ?T = "\<lambda>r ps. snd (update_role_permissions r ps (map_of ROLE_PERMISSIONS))"
  have "ALL_PERMISSIONS \<in> get_expanded_role_permissions (map_of ROLE_PERMISSIONS) ''super_admin''"
    by (rule raw_in_expanded) (simp add: get_role_permissions_def ROLE_PERMISSIONS_def)
  then have "ADMIN_ACCESS \<in> get_expanded_role_permissions (map_of ROLE_PERMISSIONS) ''super_admin''"
    by (rule expanded_implied) (simp add: all_permissions_def)
  then have "has_permission (map_of ROLE_PERMISSIONS) (Some (demo_user ''super_admin'' None)) ADMIN_ACCESS"
    by (simp add: has_permission_def demo_user_def)
  then have T: "role_table (?T r ps)" for r ps by (rule role_table.updated [OF default_role_table])
  have g: "?T ''guest'' [QUOTA_READ] ''guest'' = Some [QUOTA_READ]" "?T ''moderator'' [] ''moderator'' = Some []"
    by (simp_all add: update_role_permissions_def VALID_ROLES_def ROLE_PERMISSIONS_def all_permissions_def)
  have c: "checkPermission (Some (profile_user (?T ''guest'' [QUOTA_READ]) (demo_user ''guest'' None))) QUOTA_READ"
    by (simp add: profile_listed [where ps = "[QUOTA_READ]"] g demo_user_def)
  have m: "checkPermission (Some (profile_user (?T ''moderator'' []) (demo_user ''moderator'' None))) USERS_READ"
    by (simp add: checkPermission_def get_user_permissions_def get_role_permissions_def g demo_user_def fallbackPermission_def
        getRoleLevel_def ROLE_LEVELS_def)
  have k: "QUOTA_READ \<in> set all_permissions" "USERS_READ \<in> set all_permissions" by (simp_all add: all_permissions_def)
  from client_sound_for_server [OF T c k(1)] client_sound_for_server [OF T m k(2)] g show ?thesis
    by (simp add: demo_user_def Let_def)
qed

text \<open>
  The converse fails: the server sends the unexpanded list and the client does not expand it,
  so for an administrator or a moderator the server grants the own-resource permissions implied by
  the all-resource ones while the client denies them; \<^term>\<open>canStartStopServers\<close> and
  \<^term>\<open>canDeleteServers\<close> are false for these roles.
\<close>
theorem client_incomplete_for_server:
  assumes "is_active u" and "role u = ''admin'' \<or> role u = ''moderator''"
    and "p \<in> {SERVERS_WRITE_OWN, SERVERS_READ_OWN, VOLUMES_WRITE_OWN, VOLUMES_READ_OWN,
      WORKSPACES_WRITE_OWN, WORKSPACES_READ_OWN}"
  shows "has_permission (map_of ROLE_PERMISSIONS) (Some u) p \<and> \<not> checkPermission (Some (profile_user (map_of ROLE_PERMISSIONS) u)) p
    \<and> \<not> canStartStopServers \<lparr>user = Some (profile_user (map_of ROLE_PERMISSIONS) u)\<rparr> \<and> \<not> canDeleteServers \<lparr>user = Some (profile_user (map_of ROLE_PERMISSIONS) u)\<rparr>"
proof -
  obtain ps where ps: "map_of ROLE_PERMISSIONS (role u) = Some ps"
    and raw: "SERVERS_WRITE_ALL \<in> set ps" "VOLUMES_WRITE_ALL \<in> set ps" "WORKSPACES_WRITE_ALL \<in> set ps"
    and own: "ALL_PERMISSIONS \<notin> set ps" "p \<notin> set ps" "SERVERS_WRITE_OWN \<notin> set ps"
    using assms(2,3) by (elim disjE) (auto simp: ROLE_PERMISSIONS_def)
  have "p \<in> set (implied SERVERS_WRITE_ALL) \<union> set (implied VOLUMES_WRITE_ALL) \<union> set (implied WORKSPACES_WRITE_ALL)"
    using assms(3) by (auto simp: implied_def implications_def)
  moreover have "q \<in> get_expanded_role_permissions (map_of ROLE_PERMISSIONS) (role u)" if "q \<in> set ps" for q
    using that ps by (intro raw_in_expanded) (simp add: get_role_permissions_def)
  ultimately have "p \<in> get_expanded_role_permissions (map_of ROLE_PERMISSIONS) (role u)"
    using raw by (blast intro: expanded_implied)
  with assms(1) own profile_check [OF ps assms(1)] show ?thesis
    by (simp add: has_permission_def canStartStopServers_def canDeleteServers_def hasPermission_def)
qed

theorem client_incomplete_for_server_witness:
  "has_permission (map_of ROLE_PERMISSIONS) (Some (demo_user ''admin'' None)) SERVERS_WRITE_OWN
   \<and> \<not> canStartStopServers \<lparr>user = Some (profile_user (map_of ROLE_PERMISSIONS) (demo_user ''admin'' None))\<rparr>"
  using client_incomplete_for_server [of "demo_user ''admin'' None" SERVERS_WRITE_OWN]
  by (simp add: demo_user_def)

end
