(* ===== verification/Ui_Stores.thy ===== *)
theory Ui_Stores
  imports Auth_Store
begin

text \<open>
  The remaining client stores: toasts (\<^verbatim>\<open>stores/toast-store.ts\<close>), the sidebar
  (\<^verbatim>\<open>stores/sidebar-store.ts\<close> and the handlers of \<^verbatim>\<open>components/layout/sidebar.tsx\<close>), the theme
  (\<^verbatim>\<open>stores/theme-store.ts\<close> with the document updates of \<^verbatim>\<open>lib/theme.ts\<close>) and the timezone
  preference (\<^verbatim>\<open>stores/timezone-store.ts\<close>, \<^verbatim>\<open>hooks/use-timezone-sync.ts\<close>).
\<close>

subsection \<open>Toasts\<close>

datatype ToastType = TSuccess | TError | TWarning | TInfo

text \<open>The callback of a toast's action is not modelled; its label is.\<close>

record ToastOptions =
  toast_type :: ToastType
  toast_title :: string
  toast_message :: "string option"
  toast_duration :: "nat option"
  toast_action :: "string option"

record Toast = ToastOptions +
  toast_id :: string

record ToastStore =
  toasts :: "Toast list"
  toastIdCounter :: nat

definition initialToasts :: ToastStore where
  "initialToasts = \<lparr>toasts = [], toastIdCounter = 0\<rparr>"

definition toast_name :: "nat \<Rightarrow> string" where
  "toast_name n = ''toast-'' @ show_nat n"

definition addToast :: "ToastOptions \<Rightarrow> ToastStore \<Rightarrow> string \<times> ToastStore" where
  "addToast opts st =
    (let n = Suc (toastIdCounter st); i = toast_name n
     in (i, st\<lparr>toasts := toasts st @ [ToastOptions.extend opts \<lparr>toast_id = i\<rparr>], toastIdCounter := n\<rparr>))"

definition removeToast :: "string \<Rightarrow> ToastStore \<Rightarrow> ToastStore" where
  "removeToast i st = st\<lparr>toasts := remove_key toast_id i (toasts st)\<rparr>"

text \<open>\<^verbatim>\<open>updateToast(id, updates)\<close>: \<^verbatim>\<open>{ ...t, ...updates }\<close> with the fields present in the update.\<close>

record ToastUpdate =
  upd_id :: "string option"
  upd_type :: "ToastType option"
  upd_title :: "string option"
  upd_message :: "string option"
  upd_duration :: "nat option"

definition applyUpdate :: "ToastUpdate \<Rightarrow> Toast \<Rightarrow> Toast" where
  "applyUpdate up t = t\<lparr>
     toast_type := (case upd_type up of None \<Rightarrow> toast_type t | Some v \<Rightarrow> v),
     toast_title := (case upd_title up of None \<Rightarrow> toast_title t | Some v \<Rightarrow> v),
     toast_message := (case upd_message up of None \<Rightarrow> toast_message t | Some v \<Rightarrow> Some v),
     toast_duration := (case upd_duration up of None \<Rightarrow> toast_duration t | Some v \<Rightarrow> Some v),
     toast_id := (case upd_id up of None \<Rightarrow> toast_id t | Some v \<Rightarrow> v)\<rparr>"

definition updateToast :: "string \<Rightarrow> ToastUpdate \<Rightarrow> ToastStore \<Rightarrow> ToastStore" where
  "updateToast i up st = st\<lparr>toasts := map_key toast_id i (applyUpdate up) (toasts st)\<rparr>"

definition mkToast :: "ToastType \<Rightarrow> string \<Rightarrow> string option \<Rightarrow> nat \<Rightarrow> ToastOptions" where
  "mkToast ty t m d =
    \<lparr>toast_type = ty, toast_title = t, toast_message = m, toast_duration = Some d, toast_action = None\<rparr>"

text \<open>The convenience callbacks of \<^verbatim>\<open>useToast\<close>.\<close>

definition toast_success :: "string \<Rightarrow> string option \<Rightarrow> ToastStore \<Rightarrow> string \<times> ToastStore" where
  "toast_success t m = addToast (mkToast TSuccess t m 5000)"

definition toast_error :: "string \<Rightarrow> string option \<Rightarrow> ToastStore \<Rightarrow> string \<times> ToastStore" where
  "toast_error t m = addToast (mkToast TError t m 8000)"

definition toast_warning :: "string \<Rightarrow> string option \<Rightarrow> ToastStore \<Rightarrow> string \<times> ToastStore" where
  "toast_warning t m = addToast (mkToast TWarning t m 6000)"

definition toast_info :: "string \<Rightarrow> string option \<Rightarrow> ToastStore \<Rightarrow> string \<times> ToastStore" where
  "toast_info t m = addToast (mkToast TInfo t m 4000)"

subsection \<open>Sidebar\<close>

datatype SidebarMode = Collapsed | Auto | Expanded

record SidebarState =
  isOpen :: bool
  sb_mode :: SidebarMode
  isMobileOpen :: bool

definition initialSidebar :: SidebarState where
  "initialSidebar = \<lparr>isOpen = True, sb_mode = Expanded, isMobileOpen = False\<rparr>"

definition sb_toggle :: "SidebarState \<Rightarrow> SidebarState" where
  "sb_toggle st = st\<lparr>isOpen := \<not> isOpen st\<rparr>"

definition setMode :: "SidebarMode \<Rightarrow> SidebarState \<Rightarrow> SidebarState" where
  "setMode m st =
    (if m = Expanded then st\<lparr>sb_mode := m, isOpen := True\<rparr>
     else if m = Collapsed then st\<lparr>sb_mode := m, isOpen := False\<rparr>
     else st\<lparr>sb_mode := m\<rparr>)"

definition setOpen :: "bool \<Rightarrow> SidebarState \<Rightarrow> SidebarState" where
  "setOpen b st = st\<lparr>isOpen := b\<rparr>"

definition setMobileOpen :: "bool \<Rightarrow> SidebarState \<Rightarrow> SidebarState" where
  "setMobileOpen b st = st\<lparr>isMobileOpen := b\<rparr>"

definition closeMobile :: "SidebarState \<Rightarrow> SidebarState" where
  "closeMobile st = st\<lparr>isMobileOpen := False\<rparr>"

text \<open>Only the mode is persisted; at the next page load it is merged into the initial state.\<close>

definition reloadSidebar :: "SidebarState \<Rightarrow> SidebarState" where
  "reloadSidebar st = initialSidebar\<lparr>sb_mode := sb_mode st\<rparr>"

text \<open>The handlers of the sidebar component: the mouse, and the button that cycles the mode.\<close>

definition sidebarMouseEnter :: "SidebarState \<Rightarrow> SidebarState" where
  "sidebarMouseEnter st = (if sb_mode st = Auto then setOpen True st else st)"

definition sidebarMouseLeave :: "SidebarState \<Rightarrow> SidebarState" where
  "sidebarMouseLeave st = (if sb_mode st = Auto then setOpen False st else st)"

definition sidebarCycleMode :: "SidebarState \<Rightarrow> SidebarState" where
  "sidebarCycleMode st =
    setMode (case sb_mode st of Collapsed \<Rightarrow> Auto | Auto \<Rightarrow> Expanded | Expanded \<Rightarrow> Collapsed) st"

subsection \<open>Theme\<close>

text \<open>
  The part of \<^verbatim>\<open>document.documentElement\<close> the theme code writes: the attribute
  \<^verbatim>\<open>data-app-theme\<close>, the class list and the inline style properties.
\<close>

record Dom =
  dataAppTheme :: "string option"
  classList :: "string set"
  styleProps :: "string \<rightharpoonup> string"

definition ACCENT_COLORS :: "(string \<times> string) list" where
  "ACCENT_COLORS =
    [(''default'', ''oklch(0.70 0.18 55)''), (''purple'', ''oklch(0.627 0.233 303.896)''),
     (''blue'', ''oklch(0.65 0.15 231.134)''), (''red'', ''oklch(0.608 0.209 27.019)''),
     (''green'', ''oklch(0.65 0.17 145)'')]"

definition DEFAULT_ACCENT :: string where
  "DEFAULT_ACCENT = ''oklch(0.541 0.281 293.009)''"

definition applyTheme :: "string \<Rightarrow> Dom \<Rightarrow> Dom" where
  "applyTheme theme d =
    (if theme = ''default'' then d\<lparr>dataAppTheme := None\<rparr> else d\<lparr>dataAppTheme := Some theme\<rparr>)"

definition toggleClass :: "string \<Rightarrow> bool \<Rightarrow> string set \<Rightarrow> string set" where
  "toggleClass c on cls = (if on then insert c cls else cls - {c})"

definition applyDarkMode :: "bool \<Rightarrow> Dom \<Rightarrow> Dom" where
  "applyDarkMode dark d =
    (let cls = toggleClass ''dark'' dark (classList d)
     in d\<lparr>classList := (if \<not> dark then insert ''light'' cls else cls - {''light''})\<rparr>)"

definition applyOledMode :: "bool \<Rightarrow> Dom \<Rightarrow> Dom" where
  "applyOledMode oled d = d\<lparr>classList := toggleClass ''oled'' oled (classList d)\<rparr>"

definition getContrastingForeground :: "string \<Rightarrow> string" where
  "getContrastingForeground c = ''oklch(0.98 0 0)''"

definition accentColorValue :: "string \<Rightarrow> string" where
  "accentColorValue color = (case map_of ACCENT_COLORS color of Some c \<Rightarrow> c | None \<Rightarrow> DEFAULT_ACCENT)"

definition applyAccentColor :: "string \<Rightarrow> Dom \<Rightarrow> Dom" where
  "applyAccentColor color d =
    (let resolved = accentColorValue color;
         ring = ''color-mix(in srgb, '' @ resolved @ '' 50%, transparent)''
     in d\<lparr>styleProps := (styleProps d)(''--primary'' \<mapsto> resolved,
          ''--primary-foreground'' \<mapsto> getContrastingForeground resolved,
          ''--ring'' \<mapsto> ring, ''--sidebar-ring'' \<mapsto> ring)\<rparr>)"

datatype Density = Compact | Comfortable

record ThemeState =
  theme :: string
  isDark :: bool
  isOled :: bool
  accentColor :: string
  density :: Density

definition initialTheme :: ThemeState where
  "initialTheme = \<lparr>theme = ''default'', isDark = True, isOled = False, accentColor = ''default'',
     density = Comfortable\<rparr>"

definition setTheme :: "string \<Rightarrow> ThemeState \<times> Dom \<Rightarrow> ThemeState \<times> Dom" where
  "setTheme t s = ((fst s)\<lparr>theme := t\<rparr>, applyTheme t (snd s))"

definition setDarkMode :: "bool \<Rightarrow> ThemeState \<times> Dom \<Rightarrow> ThemeState \<times> Dom" where
  "setDarkMode b s = ((fst s)\<lparr>isDark := b\<rparr>, applyDarkMode b (snd s))"

definition setOledMode :: "bool \<Rightarrow> ThemeState \<times> Dom \<Rightarrow> ThemeState \<times> Dom" where
  "setOledMode b s = ((fst s)\<lparr>isOled := b\<rparr>, applyOledMode b (snd s))"

definition setAccentColor :: "string \<Rightarrow> ThemeState \<times> Dom \<Rightarrow> ThemeState \<times> Dom" where
  "setAccentColor c s = ((fst s)\<lparr>accentColor := c\<rparr>, applyAccentColor c (snd s))"

definition setDensity :: "Density \<Rightarrow> ThemeState \<times> Dom \<Rightarrow> ThemeState \<times> Dom" where
  "setDensity x s = ((fst s)\<lparr>density := x\<rparr>, snd s)"

text \<open>\<^verbatim>\<open>onRehydrateStorage\<close>: the stored state replaces the initial one and is applied to the document.\<close>

definition rehydrateTheme :: "ThemeState option \<Rightarrow> ThemeState \<times> Dom \<Rightarrow> ThemeState \<times> Dom" where
  "rehydrateTheme stored s =
    (case stored of None \<Rightarrow> s
     | Some st \<Rightarrow>
         (st, applyAccentColor (accentColor st) (applyOledMode (isOled st)
                (applyDarkMode (isDark st) (applyTheme (theme st) (snd s))))))"

subsection \<open>Timezone\<close>

abbreviation "AUTO_TIMEZONE \<equiv> ''auto''"

text \<open>
  The browser's \<^verbatim>\<open>Intl\<close> database is a parameter: the zone it resolves for itself (\<^term>\<open>None\<close> where it
  throws or has none) and the zone names it accepts.
\<close>

record Intl =
  resolvedZone :: "string option"
  knownZone :: "string \<Rightarrow> bool"

record TimezoneState =
  preference :: string
  effectiveZone :: string

definition getBrowserTimezone :: "Intl \<Rightarrow> string" where
  "getBrowserTimezone intl =
    (case resolvedZone intl of Some (c # cs) \<Rightarrow> c # cs | _ \<Rightarrow> ''UTC'')"

definition isValidTimezone :: "Intl \<Rightarrow> string \<Rightarrow> bool" where
  "isValidTimezone intl tz = knownZone intl tz"

definition resolveZone :: "Intl \<Rightarrow> string \<Rightarrow> string" where
  "resolveZone intl pref =
    (if pref = AUTO_TIMEZONE then getBrowserTimezone intl
     else if isValidTimezone intl pref then pref else getBrowserTimezone intl)"

definition initialTimezone :: "Intl \<Rightarrow> TimezoneState" where
  "initialTimezone intl = \<lparr>preference = AUTO_TIMEZONE, effectiveZone = getBrowserTimezone intl\<rparr>"

definition setPreference :: "Intl \<Rightarrow> string \<Rightarrow> TimezoneState \<Rightarrow> TimezoneState" where
  "setPreference intl tz st =
    (let p = (if tz \<noteq> AUTO_TIMEZONE \<and> isValidTimezone intl tz then tz else AUTO_TIMEZONE)
     in st\<lparr>preference := p, effectiveZone := resolveZone intl p\<rparr>)"

definition useTimezoneSync :: "Intl \<Rightarrow> AuthState \<Rightarrow> TimezoneState \<Rightarrow> TimezoneState" where
  "useTimezoneSync intl auth st =
    (let tz = (case user auth of None \<Rightarrow> None
               | Some u \<Rightarrow> (case preferences u of None \<Rightarrow> None | Some kvs \<Rightarrow> js_get (JObj kvs) ''timezone''))
     in setPreference intl (case tz of Some (JStr z) \<Rightarrow> z | _ \<Rightarrow> AUTO_TIMEZONE) st)"

lemmas toast_defs [store_defs] = addToast_def removeToast_def updateToast_def
lemmas sidebar_defs [store_defs] =
  setMode_def setOpen_def sb_toggle_def sidebarMouseEnter_def sidebarMouseLeave_def
  sidebarCycleMode_def reloadSidebar_def initialSidebar_def setMobileOpen_def closeMobile_def
lemmas theme_defs [store_defs] =
  setTheme_def setDarkMode_def setOledMode_def setAccentColor_def setDensity_def rehydrateTheme_def
  applyTheme_def applyDarkMode_def applyOledMode_def applyAccentColor_def toggleClass_def
lemmas timezone_defs [store_defs] =
  setPreference_def resolveZone_def isValidTimezone_def initialTimezone_def

subsection \<open>Step relations and invariants\<close>

inductive toast_step :: "ToastStore \<Rightarrow> ToastStore \<Rightarrow> bool" where
  add: "toast_step st (snd (addToast opts st))"
| remove: "toast_step st (removeToast i st)"
| update: "upd_id up = None \<Longrightarrow> toast_step st (updateToast i up st)"

definition toast_inv :: "ToastStore \<Rightarrow> bool" where
  "toast_inv st = (unique_keys toast_id (toasts st)
     \<and> toast_id ` set (toasts st) \<subseteq> toast_name ` {1..toastIdCounter st})"

inductive sidebar_step :: "SidebarState \<Rightarrow> SidebarState \<Rightarrow> bool" where
  enter: "sidebar_step st (sidebarMouseEnter st)"
| leave: "sidebar_step st (sidebarMouseLeave st)"
| cycle: "sidebar_step st (sidebarCycleMode st)"
| mobile: "sidebar_step st (setMobileOpen b st)"
| close: "sidebar_step st (closeMobile st)"

definition sidebar_inv :: "SidebarState \<Rightarrow> bool" where
  "sidebar_inv st = ((sb_mode st = Expanded \<longrightarrow> isOpen st) \<and> (sb_mode st = Collapsed \<longrightarrow> \<not> isOpen st))"

text \<open>What the document must show for a theme state.\<close>

definition dom_shows :: "ThemeState \<Rightarrow> Dom \<Rightarrow> bool" where
  "dom_shows st d =
    (dataAppTheme d = (if theme st = ''default'' then None else Some (theme st))
     \<and> (''dark'' \<in> classList d \<longleftrightarrow> isDark st) \<and> (''light'' \<in> classList d \<longleftrightarrow> \<not> isDark st)
     \<and> (''oled'' \<in> classList d \<longleftrightarrow> isOled st)
     \<and> styleProps d ''--primary'' = Some (accentColorValue (accentColor st))
     \<and> styleProps d ''--ring'' = styleProps d ''--sidebar-ring''
     \<and> styleProps d ''--ring'' =
         Some (''color-mix(in srgb, '' @ accentColorValue (accentColor st) @ '' 50%, transparent)''))"

inductive theme_step :: "ThemeState \<times> Dom \<Rightarrow> ThemeState \<times> Dom \<Rightarrow> bool" where
  set_theme: "theme_step s (setTheme t s)"
| set_dark: "theme_step s (setDarkMode b s)"
| set_oled: "theme_step s (setOledMode b s)"
| set_accent: "theme_step s (setAccentColor c s)"
| set_density: "theme_step s (setDensity x s)"

subsection \<open>Toast identifiers\<close>

lemma toast_name_inj: "toast_name m = toast_name n \<longleftrightarrow> m = n"
  by (simp add: toast_name_def show_nat_inj)

lemma add_toasts:
  "toasts (snd (addToast opts st)) =
     toasts st @ [ToastOptions.extend opts \<lparr>toast_id = toast_name (Suc (toastIdCounter st))\<rparr>]"
  "toastIdCounter (snd (addToast opts st)) = Suc (toastIdCounter st)"
  "fst (addToast opts st) = toast_name (Suc (toastIdCounter st))"
  by (simp_all add: addToast_def Let_def)

lemma extend_id [simp]: "toast_id (ToastOptions.extend opts \<lparr>toast_id = i\<rparr>) = i"
  by (simp add: ToastOptions.extend_def)

lemma fresh_toast_name:
  "toast_inv st \<Longrightarrow> toast_name (Suc (toastIdCounter st)) \<notin> toast_id ` set (toasts st)"
proof
  assume "toast_inv st" and "toast_name (Suc (toastIdCounter st)) \<in> toast_id ` set (toasts st)"
  then have "toast_name (Suc (toastIdCounter st)) \<in> toast_name ` {1..toastIdCounter st}"
    unfolding toast_inv_def by (meson subsetD)
  then show False by (auto simp: toast_name_inj)
qed

lemma toast_inv_add: "toast_inv st \<Longrightarrow> toast_inv (snd (addToast opts st))"
  using fresh_toast_name [of st]
  by (auto simp: toast_inv_def add_toasts unique_snoc toast_name_inj)

lemma toast_inv_remove: "toast_inv st \<Longrightarrow> toast_inv (removeToast i st)"
  by (auto simp: toast_inv_def removeToast_def set_remove_key)

lemma toast_inv_update: "upd_id up = None \<Longrightarrow> toast_inv st \<Longrightarrow> toast_inv (updateToast i up st)"
proof -
  assume up: "upd_id up = None" and inv: "toast_inv st"
  have ids: "map toast_id (map_key toast_id i (applyUpdate up) (toasts st)) = map toast_id (toasts st)"
    by (rule map_key_keys) (simp add: applyUpdate_def up)
  then have "toast_id ` set (map_key toast_id i (applyUpdate up) (toasts st)) = toast_id ` set (toasts st)"
    by (metis list.set_map)
  with ids inv show ?thesis by (simp add: toast_inv_def updateToast_def unique_keys_def)
qed

interpretation toast_sys: transition_system "\<lambda>s. s = initialToasts" toast_step toast_inv
proof
  fix s t assume "toast_inv s" and "toast_step s t"
  from this(2,1) show "toast_inv t"
    by cases (auto intro: toast_inv_add toast_inv_remove toast_inv_update)
qed (simp add: toast_inv_def initialToasts_def unique_keys_def)

text \<open>
  In every state the toast store can reach, the identifier \<^term>\<open>addToast\<close> hands out is new:
  the visible toasts have distinct identifiers, the new one is none of them, and dismissing it
  restores exactly the list from before.
\<close>
theorem toast_identifiers_fresh:
  assumes "toast_step\<^sup>*\<^sup>* initialToasts st"
  shows "distinct (map toast_id (toasts st))
    \<and> fst (addToast opts st) \<notin> toast_id ` set (toasts st)
    \<and> toasts (removeToast (fst (addToast opts st)) (snd (addToast opts st))) = toasts st"
proof -
  have inv: "toast_inv st" using assms by (rule toast_sys.reachable_inv [OF refl])
  note fresh = fresh_toast_name [OF inv]
  then have "remove_key toast_id (toast_name (Suc (toastIdCounter st))) (toasts st) = toasts st"
    by (auto simp: remove_key_def filter_id_conv intro: rev_image_eqI)
  with inv fresh show ?thesis
    by (auto simp: toast_inv_def unique_keys_def add_toasts removeToast_def remove_key_def)
qed

theorem toast_identifiers_fresh_witness:
  "fst (addToast (mkToast TInfo ''a'' None 1) (snd (addToast (mkToast TError ''b'' None 2) initialToasts)))
     \<notin> toast_id ` set (toasts (snd (addToast (mkToast TError ''b'' None 2) initialToasts)))"
  using toast_identifiers_fresh [of "snd (addToast (mkToast TError ''b'' None 2) initialToasts)"
      "mkToast TInfo ''a'' None 1"] toast_step.add
  by blast

subsection \<open>Sidebar\<close>

interpretation sidebar_sys: transition_system "\<lambda>s. s = initialSidebar" sidebar_step sidebar_inv
proof
  fix s t assume "sidebar_inv s" and "sidebar_step s t"
  from this(2,1) show "sidebar_inv t"
    by cases (auto simp: sidebar_inv_def sidebar_defs split: SidebarMode.splits)
qed (simp add: sidebar_inv_def initialSidebar_def)

text \<open>
  While the page stays loaded the sidebar's width agrees with its mode (expanded means open,
  collapsed means closed), but the agreement does not survive a reload: only the mode is persisted, so
  a collapsed sidebar comes back open with its mode still collapsed.
\<close>
theorem sidebar_mode_lost_on_reload:
  assumes "sidebar_step\<^sup>*\<^sup>* initialSidebar st"
  shows "sidebar_inv st \<and> (sb_mode st = Collapsed \<longrightarrow>
     \<not> isOpen st \<and> isOpen (reloadSidebar st) \<and> sb_mode (reloadSidebar st) = Collapsed)"
  using sidebar_sys.reachable_inv [OF refl assms]
  by (simp add: sidebar_inv_def reloadSidebar_def initialSidebar_def)

theorem sidebar_mode_lost_on_reload_witness:
  "sb_mode (sidebarCycleMode initialSidebar) = Collapsed \<and> isOpen (reloadSidebar (sidebarCycleMode initialSidebar))"
  using sidebar_mode_lost_on_reload [of "sidebarCycleMode initialSidebar"]
    sidebar_step.cycle [of initialSidebar]
  by (auto simp: sidebar_defs)

subsection \<open>Theme\<close>

lemma apply_theme_dom [simp]:
  "dataAppTheme (applyTheme t d) = (if t = ''default'' then None else Some t)"
  "classList (applyTheme t d) = classList d" "styleProps (applyTheme t d) = styleProps d"
  by (simp_all add: applyTheme_def)

lemma apply_dark_dom [simp]:
  "dataAppTheme (applyDarkMode b d) = dataAppTheme d" "styleProps (applyDarkMode b d) = styleProps d"
  "''dark'' \<in> classList (applyDarkMode b d) \<longleftrightarrow> b" "''light'' \<in> classList (applyDarkMode b d) \<longleftrightarrow> \<not> b"
  "''oled'' \<in> classList (applyDarkMode b d) \<longleftrightarrow> ''oled'' \<in> classList d"
  by (simp_all add: applyDarkMode_def toggleClass_def Let_def)

lemma apply_oled_dom [simp]:
  "dataAppTheme (applyOledMode b d) = dataAppTheme d" "styleProps (applyOledMode b d) = styleProps d"
  "''oled'' \<in> classList (applyOledMode b d) \<longleftrightarrow> b"
  "c \<noteq> ''oled'' \<Longrightarrow> c \<in> classList (applyOledMode b d) \<longleftrightarrow> c \<in> classList d"
  by (simp_all add: applyOledMode_def toggleClass_def)

lemma apply_accent_dom [simp]:
  "dataAppTheme (applyAccentColor c d) = dataAppTheme d" "classList (applyAccentColor c d) = classList d"
  "styleProps (applyAccentColor c d) ''--primary'' = Some (accentColorValue c)"
  "styleProps (applyAccentColor c d) ''--ring'' =
     Some (''color-mix(in srgb, '' @ accentColorValue c @ '' 50%, transparent)'')"
  "styleProps (applyAccentColor c d) ''--sidebar-ring'' =
     Some (''color-mix(in srgb, '' @ accentColorValue c @ '' 50%, transparent)'')"
  by (simp_all add: applyAccentColor_def Let_def)

lemma dom_shows_step: "dom_shows (fst s) (snd s) \<Longrightarrow> theme_step s t \<Longrightarrow> dom_shows (fst t) (snd t)"
  by (erule theme_step.cases) (auto simp: dom_shows_def setTheme_def setDarkMode_def setOledMode_def
      setAccentColor_def setDensity_def)

interpretation theme_sys: transition_system
  "\<lambda>s. \<exists>st s0. s = rehydrateTheme (Some st) s0" theme_step "\<lambda>s. dom_shows (fst s) (snd s)"
proof
  show "\<exists>st s0. s = rehydrateTheme (Some st) s0 \<Longrightarrow> dom_shows (fst s) (snd s)" for s
    by (auto simp: dom_shows_def rehydrateTheme_def)
qed (rule dom_shows_step)

text \<open>
  The document always shows the theme state: once the stored preferences have been rehydrated,
  after any sequence of theme actions the theme attribute, the dark, light and oled classes and the
  accent properties are those of the store's current state.
\<close>
theorem document_shows_theme:
  assumes "theme_step\<^sup>*\<^sup>* (rehydrateTheme (Some st) s0) s"
  shows "dom_shows (fst s) (snd s)"
  using assms by (rule theme_sys.reachable_inv [rotated]) blast

theorem document_shows_theme_witness:
  "dom_shows (initialTheme\<lparr>isDark := False\<rparr>)
     (snd (setDarkMode False (rehydrateTheme (Some initialTheme)
        (initialTheme, \<lparr>dataAppTheme = Some ''nord'', classList = {}, styleProps = Map.empty\<rparr>))))"
  using document_shows_theme [OF r_into_rtranclp, OF theme_step.set_dark
      [of "rehydrateTheme (Some initialTheme)
        (initialTheme, \<lparr>dataAppTheme = Some ''nord'', classList = {}, styleProps = Map.empty\<rparr>)" False]]
  by (simp add: setDarkMode_def rehydrateTheme_def)

subsection \<open>Timezone\<close>

text \<open>
  The formatters' zone is always usable: whatever string the preference is set to, the zone in
  effect is one the browser knows or the browser's own, it is the zone of the stored preference, and
  setting the stored preference again changes nothing.
\<close>
theorem timezone_preference_sound:
  "(let st' = setPreference intl tz st
    in (effectiveZone st' = getBrowserTimezone intl \<or> knownZone intl (effectiveZone st'))
       \<and> effectiveZone st' = resolveZone intl (preference st')
       \<and> (preference st' = AUTO_TIMEZONE \<or> preference st' = tz \<and> effectiveZone st' = tz)
       \<and> setPreference intl (preference st') st' = st')"
  by (auto simp: timezone_defs Let_def)

end
