(* ===== verification/Api_Client.thy ===== *)
theory Api_Client
  imports Js_Values
begin

text \<open>
  The REST client, \<^verbatim>\<open>frontend/src/lib/api.ts\<close>. Tokens live in local storage and in a cookie; a call
  that is answered with 401 waits for a token refresh shared by all calls and is then sent once more.

  Asynchronous code is modelled between its suspension points: a call or a refresh is a program
  counter, each handler below is the code from one \<^verbatim>\<open>await\<close> to the next, and \<open>api_step\<close> lets the
  handlers of any number of calls interleave, with the network answering in any order. A refresh is
  identified by the promise it belongs to. Headers and body of a successful refresh answer arrive in
  one step: between them the code has no effect.
\<close>

subsection \<open>Storage\<close>

record Browser =
  ls_token :: "string option"
  ls_refresh :: "string option"
  cookie_token :: "string option"
  pathname :: string

definition getAccessToken :: "Browser \<Rightarrow> string" where
  "getAccessToken b = (case ls_token b of None \<Rightarrow> [] | Some t \<Rightarrow> t)"

definition getRefreshToken :: "Browser \<Rightarrow> string" where
  "getRefreshToken b = (case ls_refresh b of None \<Rightarrow> [] | Some t \<Rightarrow> t)"

text \<open>The cookie's value ends at the first semicolon of the assigned text.\<close>

definition setTokens :: "string \<Rightarrow> string \<Rightarrow> Browser \<Rightarrow> Browser" where
  "setTokens access refresh b =
    b\<lparr>ls_token := Some access, ls_refresh := Some refresh,
      cookie_token := Some (takeWhile (\<lambda>c. c \<noteq> CHR '';'') access)\<rparr>"

definition clearTokens :: "Browser \<Rightarrow> Browser" where
  "clearTokens b = b\<lparr>ls_token := None, ls_refresh := None, cookie_token := None\<rparr>"

definition redirectToLogin :: "Browser \<Rightarrow> Browser" where
  "redirectToLogin b = (if pathname b \<noteq> ''/login'' then b\<lparr>pathname := ''/login''\<rparr> else b)"

subsection \<open>Requests, responses, errors\<close>

record FetchRequest =
  req_path :: string
  req_method :: string
  req_body :: "json option"

datatype Body = EmptyBody | BadJson | JsonBody json

record Response =
  resp_status :: nat
  resp_statusText :: string
  resp_body :: Body

definition resp_ok :: "Response \<Rightarrow> bool" where
  "resp_ok r = (200 \<le> resp_status r \<and> resp_status r \<le> 299)"

record ApiError =
  err_message :: string
  err_status :: nat
  err_retryAfter :: "json option"

datatype CallResult =
    Resolved "json option"
  | RejectedApi ApiError
  | RejectedSession
  | RejectedNetwork
  | RejectedSyntax

text \<open>The methods of \<^verbatim>\<open>api\<close>: the body stands for its \<^verbatim>\<open>JSON.stringify\<close> text.\<close>

definition api_get :: "string \<Rightarrow> FetchRequest" where
  "api_get p = \<lparr>req_path = p, req_method = ''GET'', req_body = None\<rparr>"

definition api_post :: "string \<Rightarrow> json \<Rightarrow> FetchRequest" where
  "api_post p d = \<lparr>req_path = p, req_method = ''POST'', req_body = Some d\<rparr>"

definition api_put :: "string \<Rightarrow> json \<Rightarrow> FetchRequest" where
  "api_put p d = \<lparr>req_path = p, req_method = ''PUT'', req_body = Some d\<rparr>"

definition api_patch :: "string \<Rightarrow> json \<Rightarrow> FetchRequest" where
  "api_patch p d = \<lparr>req_path = p, req_method = ''PATCH'', req_body = Some d\<rparr>"

definition api_delete :: "string \<Rightarrow> (string \<times> string) list option \<Rightarrow> FetchRequest" where
  "api_delete p q =
    \<lparr>req_path = p @ (case q of None \<Rightarrow> [] | Some kvs \<Rightarrow> ''?'' @ search_params kvs),
     req_method = ''DELETE'', req_body = None\<rparr>"

definition error_item :: "json \<Rightarrow> string" where
  "error_item v = (case js_get v ''msg'' of Some m \<Rightarrow> js_String m | None \<Rightarrow> js_String v)"

definition extractErrorDetail :: "json \<Rightarrow> string \<Rightarrow> string" where
  "extractErrorDetail b fallback =
    (case js_get b ''detail'' of
       Some (JStr (c # cs)) \<Rightarrow> c # cs
     | Some (JArr (x # xs)) \<Rightarrow> js_join ''; '' (map error_item (x # xs))
     | _ \<Rightarrow> (case js_get b ''message'' of Some (JStr (c # cs)) \<Rightarrow> c # cs | _ \<Rightarrow> fallback))"

definition errorOf :: "Response \<Rightarrow> ApiError" where
  "errorOf r =
    (case resp_body r of
       JsonBody b \<Rightarrow>
         (let detail = extractErrorDetail b (resp_statusText r)
          in case (if resp_status r = 429 then js_get b ''retry_after'' else None) of
               Some v \<Rightarrow>
                 if js_truthy v
                 then \<lparr>err_message = detail @ '' Retry in '' @ js_String v @ ''s.'',
                       err_status = resp_status r, err_retryAfter = Some v\<rparr>
                 else \<lparr>err_message = detail, err_status = resp_status r, err_retryAfter = None\<rparr>
             | None \<Rightarrow> \<lparr>err_message = detail, err_status = resp_status r, err_retryAfter = None\<rparr>)
     | _ \<Rightarrow> \<lparr>err_message = resp_statusText r, err_status = resp_status r, err_retryAfter = None\<rparr>)"

definition parseJson :: "Response \<Rightarrow> CallResult" where
  "parseJson r =
    (case resp_body r of EmptyBody \<Rightarrow> Resolved None | BadJson \<Rightarrow> RejectedSyntax
     | JsonBody v \<Rightarrow> Resolved (Some v))"

text \<open>The retry policy of the shared query client; the status is present for an \<^verbatim>\<open>ApiError\<close>.\<close>

definition queryRetry :: "nat \<Rightarrow> nat option \<Rightarrow> bool" where
  "queryRetry failureCount status =
    (case status of
       Some s \<Rightarrow> if s = 401 \<or> s = 429 then False else failureCount < 2
     | None \<Rightarrow> failureCount < 2)"

subsection \<open>The client's state\<close>

datatype RefreshPc = RIdle | RFetching | RSettled bool | RFinished bool

datatype CallPc =
    Idle
  | AwaitFirst FetchRequest
  | AwaitRefresh FetchRequest nat
  | AwaitRetry FetchRequest
  | Finished CallResult

datatype Sent = SentCall nat string | SentRefresh nat string

record ApiState =
  browser :: Browser
  isRefreshing :: bool
  refreshPromise :: "nat option"
  nextRefresh :: nat
  refreshes :: "nat \<Rightarrow> RefreshPc"
  calls :: "nat \<Rightarrow> CallPc"
  sent :: "Sent list"
  captured :: "(string \<times> nat \<times> string) list"

definition initialApi :: "Browser \<Rightarrow> ApiState" where
  "initialApi b = \<lparr>browser = b, isRefreshing = False, refreshPromise = None, nextRefresh = 0,
     refreshes = (\<lambda>_. RIdle), calls = (\<lambda>_. Idle), sent = [], captured = []\<rparr>"

subsection \<open>Token refresh\<close>

text \<open>
  \<^verbatim>\<open>doRefresh\<close> up to its first \<^verbatim>\<open>await\<close>, then the code after the answer: refused, unreadable or
  failed answers clear the tokens.
\<close>

definition doRefresh_start :: "nat \<Rightarrow> ApiState \<Rightarrow> ApiState" where
  "doRefresh_start r st =
    (let token = getRefreshToken (browser st)
     in if token = [] then st\<lparr>refreshes := (refreshes st)(r := RSettled False)\<rparr>
        else st\<lparr>refreshes := (refreshes st)(r := RFetching), sent := sent st @ [SentRefresh r token]\<rparr>)"

definition token_string :: "json option \<Rightarrow> string" where
  "token_string v = (case v of None \<Rightarrow> ''undefined'' | Some x \<Rightarrow> js_String x)"

definition doRefresh_fail :: "nat \<Rightarrow> ApiState \<Rightarrow> ApiState" where
  "doRefresh_fail r st =
    st\<lparr>browser := clearTokens (browser st), refreshes := (refreshes st)(r := RSettled False)\<rparr>"

definition doRefresh_response :: "nat \<Rightarrow> Response \<Rightarrow> ApiState \<Rightarrow> ApiState" where
  "doRefresh_response r resp st =
    (if \<not> resp_ok resp then doRefresh_fail r st
     else case resp_body resp of
         JsonBody d \<Rightarrow>
           if d = JNull then doRefresh_fail r st
           else st\<lparr>browser := setTokens (token_string (js_get d ''access_token''))
                    (token_string (js_get d ''refresh_token'')) (browser st),
                  refreshes := (refreshes st)(r := RSettled True)\<rparr>
       | _ \<Rightarrow> doRefresh_fail r st)"

definition refreshAccessToken :: "ApiState \<Rightarrow> nat \<times> ApiState" where
  "refreshAccessToken st =
    (case (if isRefreshing st then refreshPromise st else None) of
       Some r \<Rightarrow> (r, st)
     | None \<Rightarrow>
         (let r = nextRefresh st
          in (r, (doRefresh_start r (st\<lparr>isRefreshing := True, nextRefresh := Suc r\<rparr>))
                   \<lparr>refreshPromise := Some r\<rparr>)))"

definition refresh_finally :: "nat \<Rightarrow> bool \<Rightarrow> ApiState \<Rightarrow> ApiState" where
  "refresh_finally r b st =
    st\<lparr>refreshes := (refreshes st)(r := RFinished b), isRefreshing := False, refreshPromise := None\<rparr>"

subsection \<open>Calls\<close>

definition finishCall :: "nat \<Rightarrow> FetchRequest \<Rightarrow> Response \<Rightarrow> ApiState \<Rightarrow> ApiState" where
  "finishCall i req resp st =
    (if \<not> resp_ok resp
     then let e = errorOf resp
          in st\<lparr>calls := (calls st)(i := Finished (RejectedApi e)),
                captured := (if resp_status resp \<ge> 500
                  then captured st @ [(req_path req, resp_status resp, err_message e)] else captured st)\<rparr>
     else st\<lparr>calls := (calls st)(i := Finished (parseJson resp))\<rparr>)"

definition makeRequest :: "nat \<Rightarrow> CallPc \<Rightarrow> ApiState \<Rightarrow> ApiState" where
  "makeRequest i pc st =
    st\<lparr>calls := (calls st)(i := pc), sent := sent st @ [SentCall i (getAccessToken (browser st))]\<rparr>"

definition apiFetch_start :: "nat \<Rightarrow> FetchRequest \<Rightarrow> ApiState \<Rightarrow> ApiState" where
  "apiFetch_start i req st = makeRequest i (AwaitFirst req) st"

definition apiFetch_first :: "nat \<Rightarrow> FetchRequest \<Rightarrow> Response \<Rightarrow> ApiState \<Rightarrow> ApiState" where
  "apiFetch_first i req resp st =
    (if resp_status resp = 401
     then let (r, st') = refreshAccessToken st in st'\<lparr>calls := (calls st')(i := AwaitRefresh req r)\<rparr>
     else finishCall i req resp st)"

definition apiFetch_resume :: "nat \<Rightarrow> FetchRequest \<Rightarrow> bool \<Rightarrow> ApiState \<Rightarrow> ApiState" where
  "apiFetch_resume i req refreshed st =
    (if refreshed then makeRequest i (AwaitRetry req) st
     else st\<lparr>browser := redirectToLogin (browser st), calls := (calls st)(i := Finished RejectedSession)\<rparr>)"

definition apiFetch_retry :: "nat \<Rightarrow> FetchRequest \<Rightarrow> Response \<Rightarrow> ApiState \<Rightarrow> ApiState" where
  "apiFetch_retry i req resp st = finishCall i req resp st"

definition apiFetch_reject :: "nat \<Rightarrow> ApiState \<Rightarrow> ApiState" where
  "apiFetch_reject i st = st\<lparr>calls := (calls st)(i := Finished RejectedNetwork)\<rparr>"

lemmas client_defs [api_defs] =
  doRefresh_start_def doRefresh_fail_def doRefresh_response_def refreshAccessToken_def
  refresh_finally_def finishCall_def makeRequest_def apiFetch_start_def apiFetch_first_def
  apiFetch_resume_def apiFetch_retry_def apiFetch_reject_def

subsection \<open>Interleaving\<close>

text \<open>
  One rule per handler; the last three are other code of the page: the WebSocket's own refresh, and
  sign-in, sign-out and navigation, which write the storage at any moment.
\<close>

inductive api_step :: "ApiState \<Rightarrow> ApiState \<Rightarrow> bool" where
  call: "calls st i = Idle \<Longrightarrow> api_step st (apiFetch_start i req st)"
| first: "calls st i = AwaitFirst req \<Longrightarrow> api_step st (apiFetch_first i req resp st)"
| first_reject: "calls st i = AwaitFirst req \<Longrightarrow> api_step st (apiFetch_reject i st)"
| refresh_ok: "refreshes st r = RFetching \<Longrightarrow> api_step st (doRefresh_response r resp st)"
| refresh_reject: "refreshes st r = RFetching \<Longrightarrow> api_step st (doRefresh_fail r st)"
| settle: "refreshes st r = RSettled b \<Longrightarrow> api_step st (refresh_finally r b st)"
| resume: "calls st i = AwaitRefresh req r \<Longrightarrow> refreshes st r = RFinished b \<Longrightarrow>
    api_step st (apiFetch_resume i req b st)"
| retry: "calls st i = AwaitRetry req \<Longrightarrow> api_step st (apiFetch_retry i req resp st)"
| retry_reject: "calls st i = AwaitRetry req \<Longrightarrow> api_step st (apiFetch_reject i st)"
| other_refresh: "api_step st (snd (refreshAccessToken st))"
| storage: "api_step st (st\<lparr>browser := b\<rparr>)"

subsection \<open>Downloads\<close>

text \<open>
  \<^verbatim>\<open>api.download\<close> calls itself again whenever a 401 is followed by a successful refresh. One round
  is an answer, the outcome of the refresh that a 401 triggers and the storage after it; \<^term>\<open>None\<close>
  means that the rounds given have been used up and the download is still running. The result comes
  with the storage and the exceptions reported.
\<close>

datatype DownloadResult = Downloaded string | DownloadSession | DownloadError ApiError

fun download ::
  "string \<Rightarrow> string option \<Rightarrow> Browser \<Rightarrow> (Response \<times> bool \<times> Browser) list
    \<Rightarrow> (DownloadResult \<times> Browser \<times> (string \<times> nat \<times> string) list) option" where
  "download path filename b [] = None"
| "download path filename b ((resp, refreshed, b') # rounds) =
    (if resp_status resp = 401
     then if refreshed then download path filename b' rounds
          else Some (DownloadSession, redirectToLogin b', [])
     else if \<not> resp_ok resp
     then let e = errorOf resp
          in Some (DownloadError e, b,
               if resp_status resp \<ge> 500 then [(path, resp_status resp, err_message e)] else [])
     else Some (Downloaded (case filename of Some (c # cs) \<Rightarrow> c # cs | _ \<Rightarrow> ''download''), b, []))"

subsection \<open>The invariant\<close>

text \<open>
  A refresh is active while its promise is pending. The module variables point at the one active
  refresh, and a call only ever waits for a refresh that was started.
\<close>

definition active :: "RefreshPc \<Rightarrow> bool" where
  "active pc = (case pc of RFetching \<Rightarrow> True | RSettled _ \<Rightarrow> True | _ \<Rightarrow> False)"

lemma active_simps [simp]:
  "\<not> active RIdle" "active RFetching" "active (RSettled b)" "\<not> active (RFinished b)"
  by (simp_all add: active_def)

definition refresh_inv :: "ApiState \<Rightarrow> bool" where
  "refresh_inv st \<longleftrightarrow>
    (isRefreshing st \<longleftrightarrow> refreshPromise st \<noteq> None) \<and>
    (\<forall>r. active (refreshes st r) \<longleftrightarrow> refreshPromise st = Some r) \<and>
    (\<forall>r. refreshes st r = RIdle \<longleftrightarrow> nextRefresh st \<le> r) \<and>
    (\<forall>i req r. calls st i = AwaitRefresh req r \<longrightarrow> r < nextRefresh st)"

fun is_call :: "nat \<Rightarrow> Sent \<Rightarrow> bool" where
  "is_call i (SentCall j t) = (i = j)"
| "is_call i (SentRefresh r t) = False"

fun is_refresh :: "nat \<Rightarrow> Sent \<Rightarrow> bool" where
  "is_refresh r (SentCall j t) = False"
| "is_refresh r (SentRefresh q t) = (r = q)"

definition call_count :: "nat \<Rightarrow> ApiState \<Rightarrow> nat" where
  "call_count i st = length (filter (is_call i) (sent st))"

definition refresh_count :: "nat \<Rightarrow> ApiState \<Rightarrow> nat" where
  "refresh_count r st = length (filter (is_refresh r) (sent st))"

fun call_budget :: "CallPc \<Rightarrow> nat \<Rightarrow> bool" where
  "call_budget Idle n = (n = 0)"
| "call_budget (AwaitFirst req) n = (n = 1)"
| "call_budget (AwaitRefresh req r) n = (n = 1)"
| "call_budget (AwaitRetry req) n = (n = 2)"
| "call_budget (Finished res) n = (n = 1 \<or> n = 2)"

definition count_inv :: "ApiState \<Rightarrow> bool" where
  "count_inv st \<longleftrightarrow>
    (\<forall>i. call_budget (calls st i) (call_count i st)) \<and>
    (\<forall>r. refresh_count r st \<le> 1) \<and>
    (\<forall>r. refreshes st r = RIdle \<longrightarrow> refresh_count r st = 0)"

definition api_inv :: "ApiState \<Rightarrow> bool" where
  "api_inv st \<longleftrightarrow> refresh_inv st \<and> count_inv st"

lemma refreshAccessToken_joins:
  "isRefreshing st \<Longrightarrow> refreshPromise st = Some r \<Longrightarrow> refreshAccessToken st = (r, st)"
  by (simp add: refreshAccessToken_def)

lemma refresh_inv_refreshAccessToken:
  assumes "refresh_inv st" and "refreshAccessToken st = (r, st')"
  shows "refresh_inv st' \<and> calls st' = calls st \<and> r < nextRefresh st' \<and> nextRefresh st \<le> nextRefresh st'"
proof (cases "refreshPromise st")
  case None
  with assms show ?thesis
    by (auto simp: refresh_inv_def refreshAccessToken_def doRefresh_start_def Let_def
        less_Suc_eq not_less_eq_eq split: if_splits)
next
  case (Some q)
  with assms(1) have "active (refreshes st q)" and joined: "isRefreshing st"
    by (auto simp: refresh_inv_def)
  then have "refreshes st q \<noteq> RIdle" by auto
  with assms(1) have "q < nextRefresh st" by (auto simp: refresh_inv_def not_le[symmetric])
  with Some joined assms show ?thesis by (auto simp: refreshAccessToken_joins)
qed

lemma count_inv_refreshAccessToken:
  assumes "refresh_inv st" and "count_inv st" and "refreshAccessToken st = (r, st')"
  shows "count_inv st'"
proof (cases "refreshPromise st")
  case None
  with assms have "refreshes st (nextRefresh st) = RIdle" by (simp add: refresh_inv_def)
  with assms None show ?thesis
    by (fastforce simp: count_inv_def refreshAccessToken_def doRefresh_start_def Let_def call_count_def
        refresh_count_def refresh_inv_def split: if_splits)
next
  case (Some q)
  with assms(1) have "isRefreshing st" by (auto simp: refresh_inv_def)
  with Some assms show ?thesis by (simp add: refreshAccessToken_joins)
qed

lemma count_inv_finishCall:
  "count_inv st \<Longrightarrow> calls st i = AwaitFirst req \<or> calls st i = AwaitRetry req \<Longrightarrow>
    count_inv (finishCall i req' resp st)"
  by (auto simp: count_inv_def finishCall_def Let_def call_count_def refresh_count_def
      dest: spec[where x = i])

lemma refresh_inv_finishCall: "refresh_inv st \<Longrightarrow> refresh_inv (finishCall i req resp st)"
  by (auto simp: refresh_inv_def finishCall_def Let_def)

lemma refresh_started: "refresh_inv st \<Longrightarrow> refreshes st r \<noteq> RIdle \<longleftrightarrow> r < nextRefresh st"
  by (simp add: refresh_inv_def not_le)

lemma api_inv_browser [simp]:
  "refresh_inv (st\<lparr>browser := b, calls := c\<rparr>) = refresh_inv (st\<lparr>calls := c\<rparr>)"
  "count_inv (st\<lparr>browser := b, calls := c\<rparr>) = count_inv (st\<lparr>calls := c\<rparr>)"
  by (simp_all add: refresh_inv_def count_inv_def call_count_def refresh_count_def)

lemma refresh_inv_settle:
  "refresh_inv st \<Longrightarrow> refreshes st r = RFetching \<Longrightarrow>
    refresh_inv (st\<lparr>browser := b, refreshes := (refreshes st)(r := RSettled ok)\<rparr>)"
  using refresh_started[of st r] by (auto simp: refresh_inv_def)

lemma count_inv_settle:
  "count_inv st \<Longrightarrow> refreshes st r \<noteq> RIdle \<Longrightarrow> pc \<noteq> RIdle \<Longrightarrow>
    count_inv (st\<lparr>browser := b, refreshes := (refreshes st)(r := pc)\<rparr>)"
  by (auto simp: count_inv_def call_count_def refresh_count_def)

lemma doRefresh_response_settles:
  "\<exists>b ok. doRefresh_response r resp st = st\<lparr>browser := b, refreshes := (refreshes st)(r := RSettled ok)\<rparr>"
  by (auto simp: doRefresh_response_def doRefresh_fail_def split: Body.splits)

lemma refresh_inv_finally:
  assumes "refresh_inv st" and "refreshes st r = RSettled b"
  shows "refresh_inv (refresh_finally r b st)"
proof -
  have "active (refreshes st q) \<longleftrightarrow> q = r" for q
    using assms by (metis active_simps(3) option.inject refresh_inv_def)
  with assms refresh_started[OF assms(1), of r] show ?thesis
    by (auto simp: refresh_inv_def refresh_finally_def)
qed

lemma count_inv_finally:
  "count_inv st \<Longrightarrow> refreshes st r \<noteq> RIdle \<Longrightarrow> count_inv (refresh_finally r b st)"
  by (auto simp: count_inv_def call_count_def refresh_count_def refresh_finally_def)

lemma count_inv_makeRequest:
  "count_inv st \<Longrightarrow> call_budget pc (Suc (call_count i st)) \<Longrightarrow> count_inv (makeRequest i pc st)"
  by (auto simp: count_inv_def call_count_def refresh_count_def makeRequest_def)

lemma refresh_inv_makeRequest:
  "refresh_inv st \<Longrightarrow> \<forall>req r. pc \<noteq> AwaitRefresh req r \<Longrightarrow> refresh_inv (makeRequest i pc st)"
  by (auto simp: refresh_inv_def makeRequest_def)

lemma count_inv_pc:
  "count_inv st \<Longrightarrow> call_budget pc (call_count i st) \<Longrightarrow>
    count_inv (st\<lparr>calls := (calls st)(i := pc)\<rparr>)"
  by (auto simp: count_inv_def call_count_def refresh_count_def)

lemma refresh_inv_pc:
  "refresh_inv st \<Longrightarrow> \<forall>req r. pc = AwaitRefresh req r \<longrightarrow> r < nextRefresh st \<Longrightarrow>
    refresh_inv (st\<lparr>calls := (calls st)(i := pc)\<rparr>)"
  by (auto simp: refresh_inv_def)

lemma api_inv_first:
  assumes "api_inv st" and pc: "calls st i = AwaitFirst req"
  shows "api_inv (apiFetch_first i req resp st)"
proof (cases "resp_status resp = 401")
  case False
  then show ?thesis using assms
    by (auto simp: api_inv_def apiFetch_first_def refresh_inv_finishCall count_inv_finishCall)
next
  case True
  obtain r st' where eq: "refreshAccessToken st = (r, st')" by (cases "refreshAccessToken st")
  from assms(1) have inv: "refresh_inv st" "count_inv st" by (auto simp: api_inv_def)
  note r = refresh_inv_refreshAccessToken[OF inv(1) eq]
  note c = count_inv_refreshAccessToken[OF inv eq]
  have "call_budget (AwaitFirst req) (call_count i st')"
    using c pc r by (metis count_inv_def)
  then have "api_inv (st'\<lparr>calls := (calls st')(i := AwaitRefresh req r)\<rparr>)"
    using r c refresh_inv_pc[of st' "AwaitRefresh req r" i] count_inv_pc[of st' "AwaitRefresh req r" i]
    by (simp add: api_inv_def)
  with True eq show ?thesis by (simp add: apiFetch_first_def)
qed

lemma call_budgetD: "count_inv st \<Longrightarrow> call_budget (calls st i) (call_count i st)"
  by (simp add: count_inv_def)

lemma api_inv_step:
  assumes "api_step st st'" and "api_inv st"
  shows "api_inv st'"
  using assms
proof (cases rule: api_step.cases)
  case (call i req)
  with assms(2) call_budgetD[of st i] show ?thesis
    by (auto simp: api_inv_def apiFetch_start_def intro!: count_inv_makeRequest refresh_inv_makeRequest)
next
  case (first i req resp)
  with assms(2) show ?thesis by (simp add: api_inv_first)
next
  case (first_reject i req)
  with assms(2) call_budgetD[of st i] show ?thesis
    by (auto simp: api_inv_def apiFetch_reject_def intro!: count_inv_pc refresh_inv_pc)
next
  case (refresh_ok r resp)
  with assms(2) doRefresh_response_settles[of r resp st] show ?thesis
    by (auto simp: api_inv_def refresh_inv_settle count_inv_settle)
next
  case (refresh_reject r)
  with assms(2) show ?thesis
    by (auto simp: api_inv_def doRefresh_fail_def refresh_inv_settle count_inv_settle)
next
  case (settle r b)
  with assms(2) show ?thesis by (auto simp: api_inv_def refresh_inv_finally count_inv_finally)
next
  case (resume i req r b)
  with assms(2) call_budgetD[of st i] show ?thesis
    by (auto simp: api_inv_def apiFetch_resume_def
        intro!: count_inv_makeRequest refresh_inv_makeRequest refresh_inv_pc count_inv_pc)
next
  case (retry i req resp)
  with assms(2) show ?thesis
    by (auto simp: api_inv_def apiFetch_retry_def refresh_inv_finishCall count_inv_finishCall)
next
  case (retry_reject i req)
  with assms(2) call_budgetD[of st i] show ?thesis
    by (auto simp: api_inv_def apiFetch_reject_def intro!: count_inv_pc refresh_inv_pc)
next
  case other_refresh
  obtain r st'' where eq: "refreshAccessToken st = (r, st'')" by (cases "refreshAccessToken st")
  from assms(2) have inv: "refresh_inv st" "count_inv st" by (simp_all add: api_inv_def)
  from refresh_inv_refreshAccessToken[OF inv(1) eq] count_inv_refreshAccessToken[OF inv eq]
  show ?thesis by (simp add: other_refresh eq api_inv_def)
next
  case (storage b)
  with assms(2) show ?thesis
    by (auto simp: api_inv_def refresh_inv_def count_inv_def call_count_def refresh_count_def)
qed

lemma api_inv_initial: "api_inv (initialApi b)"
  by (auto simp: api_inv_def refresh_inv_def count_inv_def call_count_def refresh_count_def initialApi_def)

interpretation api_sys: transition_system "\<lambda>st. \<exists>b. st = initialApi b" api_step api_inv
proof
  show "\<exists>b. st = initialApi b \<Longrightarrow> api_inv st" for st by (elim exE) (simp add: api_inv_initial)
  show "api_inv st \<Longrightarrow> api_step st st' \<Longrightarrow> api_inv st'" for st st' by (rule api_inv_step)
qed

lemmas api_reachable = api_sys.reachable_inv[OF exI, OF refl]

subsection \<open>Consequences\<close>

lemma joins_active:
  assumes "refresh_inv st" and "active (refreshes st r)"
  shows "refreshAccessToken st = (r, st)"
proof -
  from assms have "refreshPromise st = Some r" by (simp add: refresh_inv_def)
  moreover with assms have "isRefreshing st" by (simp add: refresh_inv_def)
  ultimately show ?thesis by (rule refreshAccessToken_joins[rotated])
qed

lemma refresh_terminates:
  assumes "active (refreshes st r)"
  shows "\<exists>st' b. api_step\<^sup>*\<^sup>* st st' \<and> calls st' = calls st \<and> refreshes st' r = RFinished b"
proof (cases "refreshes st r")
  case RFetching
  let ?s = "doRefresh_fail r st"
  have "refreshes ?s r = RSettled False" "calls ?s = calls st" by (simp_all add: doRefresh_fail_def)
  moreover have "api_step st ?s" using RFetching by (rule api_step.refresh_reject)
  moreover have "api_step ?s (refresh_finally r False ?s)" by (rule api_step.settle) fact
  ultimately have "api_step\<^sup>*\<^sup>* st (refresh_finally r False ?s)"
    "calls (refresh_finally r False ?s) = calls st" "refreshes (refresh_finally r False ?s) r = RFinished False"
    by (auto simp: refresh_finally_def)
  then show ?thesis by blast
next
  case (RSettled b)
  then have "api_step st (refresh_finally r b st)" by (rule api_step.settle)
  then show ?thesis by (intro exI[of _ "refresh_finally r b st"]) (auto simp: refresh_finally_def)
qed (use assms in auto)

lemma resume_pc:
  "calls (apiFetch_resume i req b st) i = AwaitRetry req \<or>
   calls (apiFetch_resume i req b st) i = Finished RejectedSession"
  by (simp add: apiFetch_resume_def makeRequest_def)

text \<open>Two calls, both answered with 401: the second joins the refresh that the first started.\<close>

definition demo_browser :: Browser where
  "demo_browser = \<lparr>ls_token = Some ''old'', ls_refresh = Some ''ref'', cookie_token = Some ''old'',
     pathname = ''/servers''\<rparr>"

definition demo_401 :: Response where
  "demo_401 = \<lparr>resp_status = 401, resp_statusText = ''Unauthorized'', resp_body = EmptyBody\<rparr>"

definition demo_both :: ApiState where
  "demo_both =
    apiFetch_first 1 (api_get ''/plans'') demo_401 (apiFetch_first 0 (api_get ''/servers/'') demo_401
      (apiFetch_start 1 (api_get ''/plans'') (apiFetch_start 0 (api_get ''/servers/'')
        (initialApi demo_browser))))"

lemmas demo_defs = demo_both_def demo_401_def demo_browser_def initialApi_def getRefreshToken_def
  getAccessToken_def

lemma demo_both_reachable: "api_step\<^sup>*\<^sup>* (initialApi demo_browser) demo_both"
proof -
  let ?s0 = "initialApi demo_browser"
  let ?s1 = "apiFetch_start 0 (api_get ''/servers/'') ?s0"
  let ?s2 = "apiFetch_start 1 (api_get ''/plans'') ?s1"
  let ?s3 = "apiFetch_first 0 (api_get ''/servers/'') demo_401 ?s2"
  have "api_step ?s0 ?s1" by (rule api_step.call) (simp add: initialApi_def)
  moreover have "api_step ?s1 ?s2"
    by (rule api_step.call) (simp add: initialApi_def apiFetch_start_def makeRequest_def)
  moreover have "api_step ?s2 ?s3"
    by (rule api_step.first) (simp add: initialApi_def apiFetch_start_def makeRequest_def)
  moreover have "api_step ?s3 demo_both" unfolding demo_both_def
    by (rule api_step.first) (simp add: api_defs demo_defs Let_def)
  ultimately show ?thesis by (meson converse_rtranclp_into_rtranclp rtranclp.rtrancl_refl)
qed

text \<open>
  C1. At most one token refresh is in flight at any time, whatever the interleaving of calls, answers
  and storage changes: the module's flag is set exactly while one is, and every further request for
  a refresh joins it without changing the state.
\<close>

theorem single_refresh_in_flight:
  assumes "api_step\<^sup>*\<^sup>* (initialApi b) st"
  shows "(\<forall>r q. active (refreshes st r) \<longrightarrow> active (refreshes st q) \<longrightarrow> r = q) \<and>
    (isRefreshing st \<longleftrightarrow> (\<exists>r. active (refreshes st r))) \<and>
    (\<forall>r. active (refreshes st r) \<longrightarrow> refreshAccessToken st = (r, st))"
proof -
  have inv: "refresh_inv st" using api_reachable[OF assms] by (simp add: api_inv_def)
  then have "active (refreshes st r) \<longleftrightarrow> refreshPromise st = Some r" for r by (simp add: refresh_inv_def)
  moreover have "isRefreshing st \<longleftrightarrow> refreshPromise st \<noteq> None" using inv by (simp add: refresh_inv_def)
  ultimately show ?thesis using joins_active[OF inv] by auto
qed

theorem single_refresh_in_flight_witness:
  "active (refreshes demo_both 0) \<and> refreshAccessToken demo_both = (0, demo_both) \<and>
   sent demo_both = [SentCall 0 ''old'', SentCall 1 ''old'', SentRefresh 0 ''ref'']"
proof -
  have "active (refreshes demo_both 0)"
    "sent demo_both = [SentCall 0 ''old'', SentCall 1 ''old'', SentRefresh 0 ''ref'']"
    by (simp_all add: api_defs demo_defs Let_def)
  with single_refresh_in_flight[OF demo_both_reachable] show ?thesis by blast
qed

text \<open>
  C2. A call is sent at most twice (once more after a refresh), and a refresh costs at most one request:
  a server that keeps answering 401 cannot make the client loop.
\<close>

theorem requests_bounded:
  assumes "api_step\<^sup>*\<^sup>* (initialApi b) st"
  shows "call_count i st \<le> 2 \<and> refresh_count r st \<le> 1 \<and> (calls st i = Idle \<longrightarrow> call_count i st = 0)"
proof -
  have inv: "count_inv st" using api_reachable[OF assms] by (simp add: api_inv_def)
  with call_budgetD[OF inv, of i] show ?thesis
    by (cases "calls st i") (auto simp: count_inv_def)
qed

theorem requests_bounded_witness:
  "call_count 0 demo_both \<le> 2 \<and> refresh_count 0 demo_both = 1"
proof -
  have "refresh_count 0 demo_both = 1"
    by (simp add: refresh_count_def api_defs demo_defs Let_def)
  with requests_bounded[OF demo_both_reachable, of 0 0] show ?thesis by blast
qed

text \<open>
  C3. No call waits for a refresh in vain: from every reachable state in which a call waits, the refresh
  it waits for can finish and the call goes on to its second attempt or ends with the session error.
\<close>

theorem waiting_call_resumes:
  assumes "api_step\<^sup>*\<^sup>* (initialApi b) st" and wait: "calls st i = AwaitRefresh req r"
  shows "\<exists>st'. api_step\<^sup>*\<^sup>* st st' \<and>
    (calls st' i = AwaitRetry req \<or> calls st' i = Finished RejectedSession)"
proof -
  have inv: "refresh_inv st" using api_reachable[OF assms(1)] by (simp add: api_inv_def)
  with wait have "refreshes st r \<noteq> RIdle" using refresh_started[OF inv] by (simp add: refresh_inv_def)
  then consider b where "refreshes st r = RFinished b" | "active (refreshes st r)"
    by (cases "refreshes st r") auto
  then obtain s b' where s: "api_step\<^sup>*\<^sup>* st s" "calls s = calls st" "refreshes s r = RFinished b'"
    using refresh_terminates by cases blast+
  with wait have "api_step s (apiFetch_resume i req b' s)" by (intro api_step.resume) simp_all
  with s(1) resume_pc show ?thesis by (meson rtranclp.rtrancl_into_rtrancl)
qed

theorem waiting_call_resumes_witness:
  "\<exists>st'. api_step\<^sup>*\<^sup>* demo_both st' \<and>
    (calls st' 1 = AwaitRetry (api_get ''/plans'') \<or> calls st' 1 = Finished RejectedSession)"
proof -
  have "calls demo_both 1 = AwaitRefresh (api_get ''/plans'') 0"
    by (simp add: api_defs demo_defs Let_def)
  with waiting_call_resumes[OF demo_both_reachable] show ?thesis by blast
qed

definition after_refresh :: "nat \<Rightarrow> Response \<Rightarrow> bool \<Rightarrow> ApiState \<Rightarrow> ApiState" where
  "after_refresh r resp ok st = refresh_finally r ok (doRefresh_response r resp st)"

text \<open>
  C4. What a refresh leaves behind. An accepted answer stores both tokens, and a call that waited is sent
  again with the new access token. A refused or unreadable answer clears every token, and the call ends
  with the session error on the login page.
\<close>

theorem refresh_outcome:
  "(resp_ok resp \<and> resp_body resp = JsonBody d \<and> js_get d ''access_token'' = Some (JStr a) \<and>
      js_get d ''refresh_token'' = Some (JStr f) \<longrightarrow>
        refreshes (doRefresh_response r resp st) r = RSettled True \<and>
        getRefreshToken (browser (after_refresh r resp True st)) = f \<and>
        sent (apiFetch_resume i req True (after_refresh r resp True st)) = sent st @ [SentCall i a]) \<and>
    (\<not> resp_ok resp \<or> resp_body resp = EmptyBody \<or> resp_body resp = BadJson \<longrightarrow>
        refreshes (doRefresh_response r resp st) r = RSettled False \<and>
        getAccessToken (browser (after_refresh r resp False st)) = [] \<and>
        getRefreshToken (browser (after_refresh r resp False st)) = [] \<and>
        cookie_token (browser (after_refresh r resp False st)) = None \<and>
        calls (apiFetch_resume i req False (after_refresh r resp False st)) i = Finished RejectedSession \<and>
        pathname (browser (apiFetch_resume i req False (after_refresh r resp False st))) = ''/login'')"
  by (auto simp: after_refresh_def api_defs setTokens_def clearTokens_def getAccessToken_def getRefreshToken_def
      token_string_def redirectToLogin_def)

definition demo_tokens :: Response where
  "demo_tokens = \<lparr>resp_status = 200, resp_statusText = ''OK'', resp_body = JsonBody (JObj
     [(''access_token'', JStr ''new''), (''refresh_token'', JStr ''ref2'')])\<rparr>"

theorem refresh_outcome_witness:
  "sent (apiFetch_resume 0 (api_get ''/servers/'') True
      (after_refresh 0 demo_tokens True demo_both)) =
    sent demo_both @ [SentCall 0 ''new''] \<and>
   getRefreshToken (browser (after_refresh 0 demo_401 False demo_both)) = []"
proof -
  have "\<not> resp_ok demo_401" by (simp add: resp_ok_def demo_401_def)
  moreover have "resp_ok demo_tokens" by (simp add: resp_ok_def demo_tokens_def)
  moreover have "resp_body demo_tokens = JsonBody (JObj
      [(''access_token'', JStr ''new''), (''refresh_token'', JStr ''ref2'')])"
    by (simp add: demo_tokens_def)
  ultimately show ?thesis
    using refresh_outcome[of demo_tokens "JObj [(''access_token'', JStr ''new''),
        (''refresh_token'', JStr ''ref2'')]" "''new''" "''ref2''" 0 demo_both 0 "api_get ''/servers/''"]
      refresh_outcome[of demo_401 JNull "[]" "[]" 0 demo_both 0 "api_get ''/servers/''"]
    by simp
qed

text \<open>
  The detail shown to the user: FastAPI's text, its list of validation messages, the generic message,
  or the status text, in this order.
\<close>

definition detail_of :: "json \<Rightarrow> string option" where
  "detail_of b =
    (case js_get b ''detail'' of
       Some (JStr t) \<Rightarrow> if t = [] then None else Some t
     | Some (JArr vs) \<Rightarrow> if vs = [] then None else Some (js_join ''; '' (map error_item vs))
     | _ \<Rightarrow> None)"

definition message_of :: "json \<Rightarrow> string option" where
  "message_of b = (case js_get b ''message'' of Some (JStr t) \<Rightarrow> if t = [] then None else Some t | _ \<Rightarrow> None)"

lemma extractErrorDetail_priority:
  "extractErrorDetail b fallback =
    (case detail_of b of Some d \<Rightarrow> d
     | None \<Rightarrow> (case message_of b of Some m \<Rightarrow> m | None \<Rightarrow> fallback))"
  by (auto simp: extractErrorDetail_def detail_of_def message_of_def neq_Nil_conv
      split: option.splits json.splits list.splits)

lemma errorOf_status [simp]: "err_status (errorOf r) = resp_status r"
  by (auto simp: errorOf_def Let_def split: Body.splits option.splits)

lemma errorOf_retryAfter: "err_retryAfter (errorOf r) \<noteq> None \<Longrightarrow> resp_status r = 429"
  by (auto simp: errorOf_def Let_def split: Body.splits option.splits if_splits)

lemma errorOf_message:
  "resp_body r = JsonBody b \<Longrightarrow> resp_status r \<noteq> 429 \<Longrightarrow>
    err_message (errorOf r) = extractErrorDetail b (resp_statusText r)"
  by (simp add: errorOf_def Let_def)

text \<open>
  How an answer ends a call: it is rejected exactly when its status is outside 200--299, with that
  status; server errors and only those are reported, once, with the message the caller gets; a
  waiting time is attached to 429 only.
\<close>

theorem answer_classified:
  "(\<exists>e. calls (finishCall i req resp st) i = Finished (RejectedApi e) \<and> err_status e = resp_status resp \<and>
      (err_retryAfter e \<noteq> None \<longrightarrow> resp_status resp = 429) \<and>
      captured (finishCall i req resp st) = captured st @
        (if resp_status resp \<ge> 500 then [(req_path req, resp_status resp, err_message e)] else []))
    \<longleftrightarrow> \<not> (200 \<le> resp_status resp \<and> resp_status resp < 300)"
proof (cases "resp_ok resp")
  case True
  then have "calls (finishCall i req resp st) i = Finished (parseJson resp)" by (simp add: finishCall_def)
  moreover have "parseJson resp \<noteq> RejectedApi e" for e by (simp add: parseJson_def split: Body.splits)
  moreover have "200 \<le> resp_status resp \<and> resp_status resp < 300" using True by (simp add: resp_ok_def)
  ultimately show ?thesis by simp
next
  case False
  moreover from False have "\<not> (200 \<le> resp_status resp \<and> resp_status resp < 300)"
    by (auto simp: resp_ok_def)
  ultimately show ?thesis using errorOf_retryAfter[of resp]
    by (simp add: finishCall_def Let_def)
qed

definition demo_500 :: Response where
  "demo_500 = \<lparr>resp_status = 500, resp_statusText = ''Internal Server Error'',
     resp_body = JsonBody (JObj [(''detail'', JStr ''spawn failed'')])\<rparr>"

theorem answer_classified_witness:
  "\<exists>e. calls (finishCall 0 (api_get ''/x'') demo_500 demo_both) 0 = Finished (RejectedApi e) \<and>
     err_status e = 500"
proof -
  have "\<not> (200 \<le> resp_status demo_500 \<and> resp_status demo_500 < 300)" by (simp add: demo_500_def)
  then obtain e where "calls (finishCall 0 (api_get ''/x'') demo_500 demo_both) 0 = Finished (RejectedApi e)"
    "err_status e = resp_status demo_500"
    using answer_classified[of 0 "api_get ''/x''" demo_500 demo_both] by blast
  then show ?thesis by (auto simp: demo_500_def)
qed

text \<open>
  A download, unlike a call, has no bound on its attempts: it is still running exactly while every
  answer so far was 401 and every refresh succeeded, so a server that keeps refusing a freshly
  issued token is asked forever.
\<close>

theorem download_ends_iff:
  "download path filename b rounds = None \<longleftrightarrow>
    list_all (\<lambda>(resp, refreshed, b'). resp_status resp = 401 \<and> refreshed) rounds"
  by (induction path filename b rounds rule: download.induct) (auto simp: Let_def)

end
