(* ===== verification/Session.thy ===== *)
theory Session
  imports Api_Client Auth_Store
begin

text \<open>
  The session around the stores: route guards and sign-out of \<^verbatim>\<open>hooks/use-auth.ts\<close>, and the activity pings of
  \<^verbatim>\<open>lib/activity-heartbeat.ts\<close> and \<^verbatim>\<open>hooks/use-activity-heartbeat.ts\<close>, which keep a server alive while its user
  is at work. Times are milliseconds.
\<close>

subsection \<open>Guards and sign-out\<close>

definition isAuthenticated :: "Browser \<Rightarrow> bool" where
  "isAuthenticated b = (getAccessToken b \<noteq> [])"

definition useAuthGuard :: "bool \<Rightarrow> Browser \<Rightarrow> string option" where
  "useAuthGuard requireAuth b =
    (let token = (ls_token b \<noteq> None \<and> ls_token b \<noteq> Some [])
     in if requireAuth \<and> \<not> token then Some ''/login'' else if \<not> requireAuth \<and> token then Some ''/'' else None)"

record Session =
  sess_browser :: Browser
  sess_auth :: AuthState
  sess_href :: string

definition logout_headers :: "Browser \<Rightarrow> (string \<times> string) list" where
  "logout_headers b = (''Content-Type'', ''application/json'') #
    (case ls_token b of Some (c # cs) \<Rightarrow> [(''Authorization'', ''Bearer '' @ c # cs)] | _ \<Rightarrow> [])"

definition logout_body :: "Browser \<Rightarrow> json" where
  "logout_body b = JObj [(''refresh_token'', case ls_refresh b of None \<Rightarrow> JNull | Some t \<Rightarrow> JStr t)]"

text \<open>
  The answer is \<^term>\<open>None\<close> when the request fails. Any failure to read it leaves the address unset.
\<close>

definition oauthLogoutUrl :: "Response option \<Rightarrow> string option" where
  "oauthLogoutUrl res =
    (case res of
       None \<Rightarrow> None
     | Some r \<Rightarrow>
         if \<not> resp_ok r then None
         else case resp_body r of
             JsonBody d \<Rightarrow>
               (case js_get d ''oauth_logout_url'' of
                  None \<Rightarrow> None | Some v \<Rightarrow> if v = JNull then None else Some (js_String v))
           | _ \<Rightarrow> None)"

definition logout :: "Response option \<Rightarrow> Session \<Rightarrow> Session" where
  "logout res s =
    (let s1 = s\<lparr>sess_browser := clearTokens (sess_browser s)\<rparr>;
         s2 = s1\<lparr>sess_auth := setUser None (sess_auth s1)\<rparr>
     in s2\<lparr>sess_href := (case oauthLogoutUrl res of None \<Rightarrow> ''/login'' | Some u \<Rightarrow> u)\<rparr>)"

text \<open>
  Signing out always ends the local session, whether the server answers, refuses or cannot be reached: no
  token remains in storage or in the cookie, every permission is denied, protected pages lead to the
  login page, and the page goes to the identity provider exactly when a successful answer names it.
\<close>

theorem logout_ends_session:
  "\<not> isAuthenticated (sess_browser (logout res s)) \<and>
   getRefreshToken (sess_browser (logout res s)) = [] \<and> cookie_token (sess_browser (logout res s)) = None \<and>
   \<not> hasPermission (sess_auth (logout res s)) p \<and>
   useAuthGuard True (sess_browser (logout res s)) = Some ''/login'' \<and>
   sess_href (logout res s) = (case oauthLogoutUrl res of None \<Rightarrow> ''/login'' | Some u \<Rightarrow> u)"
  by (simp add: logout_def isAuthenticated_def getAccessToken_def getRefreshToken_def clearTokens_def
      useAuthGuard_def setUser_def hasPermission_def checkPermission_def Let_def)

subsection \<open>Activity pings\<close>

definition ACTIVITY_HEARTBEAT_INTERVAL_MS :: int where
  "ACTIVITY_HEARTBEAT_INTERVAL_MS = 30000"

definition ACTIVITY_INPUT_WINDOW_MS :: int where
  "ACTIVITY_INPUT_WINDOW_MS = 4 * 60000"

definition shouldPingActivity :: "int option \<Rightarrow> int \<Rightarrow> int \<Rightarrow> bool" where
  "shouldPingActivity lastInteractionAt now inputWindowMs =
    (case lastInteractionAt of None \<Rightarrow> False | Some t \<Rightarrow> now - t \<le> inputWindowMs)"

record Heartbeat =
  lastInteraction :: "int option"
  pings :: "(int \<times> FetchRequest) list"

definition activity_request :: "string \<Rightarrow> FetchRequest" where
  "activity_request server = api_post (''/servers/'' @ server @ ''/activity'') (JObj [])"

definition recordInteraction :: "int \<Rightarrow> Heartbeat \<Rightarrow> Heartbeat" where
  "recordInteraction now h = h\<lparr>lastInteraction := Some now\<rparr>"

definition sendPing :: "string \<Rightarrow> bool \<Rightarrow> int \<Rightarrow> Heartbeat \<Rightarrow> Heartbeat" where
  "sendPing server visible now h =
    (if \<not> visible then h
     else if shouldPingActivity (lastInteraction h) now ACTIVITY_INPUT_WINDOW_MS
     then h\<lparr>pings := pings h @ [(now, activity_request server)]\<rparr> else h)"

datatype HeartbeatEvent = Input int | Tick bool int | VisibilityChange bool int

text \<open>The interval and the visibility listener; a change to hidden does nothing.\<close>

fun heartbeat :: "string \<Rightarrow> HeartbeatEvent \<Rightarrow> Heartbeat \<Rightarrow> Heartbeat" where
  "heartbeat server (Input now) h = recordInteraction now h"
| "heartbeat server (Tick visible now) h = sendPing server visible now h"
| "heartbeat server (VisibilityChange visible now) h = (if visible then sendPing server visible now h else h)"

definition heartbeat_start :: "string \<Rightarrow> bool \<Rightarrow> bool \<Rightarrow> int \<Rightarrow> Heartbeat \<Rightarrow> Heartbeat" where
  "heartbeat_start server enabled visible now h =
    (if server = [] \<or> \<not> enabled then h else sendPing server visible now (recordInteraction now h))"

fun ping_time :: "HeartbeatEvent \<Rightarrow> int option" where
  "ping_time (Input now) = None"
| "ping_time (Tick visible now) = (if visible then Some now else None)"
| "ping_time (VisibilityChange visible now) = (if visible then Some now else None)"

fun is_input :: "HeartbeatEvent \<Rightarrow> bool" where
  "is_input (Input now) = True"
| "is_input _ = False"

lemma heartbeat_idle:
  assumes "lastInteraction h = Some t" and "\<not> is_input e"
  shows "heartbeat server e h = h\<lparr>pings := pings h @
    (case ping_time e of None \<Rightarrow> [] | Some now \<Rightarrow> if now - t \<le> 240000 then [(now, activity_request server)] else [])\<rparr>"
  using assms by (cases e)
    (auto simp: sendPing_def shouldPingActivity_def ACTIVITY_INPUT_WINDOW_MS_def)

text \<open>
  An untouched page does not keep a server alive: after an interaction at time \<open>t\<close> and without another, the
  pings are exactly those of the visible checks up to four minutes later, however long the page
  stays open.
\<close>

theorem idle_page_stops_pinging:
  assumes "lastInteraction h = Some t" and "list_all (\<lambda>e. \<not> is_input e) es"
  shows "pings (fold (heartbeat server) es h) =
    pings h @ map (\<lambda>now. (now, activity_request server)) (filter (\<lambda>now. now \<le> t + 240000) (List.map_filter ping_time es))"
  using assms
proof (induction es arbitrary: h)
  case (Cons e es)
  then have "lastInteraction (heartbeat server e h) = Some t" by (simp add: heartbeat_idle)
  with Cons show ?case
    by (auto simp: heartbeat_idle List.map_filter_def split: option.splits)
qed (simp add: List.map_filter_def)

theorem idle_page_stops_pinging_witness:
  "pings (fold (heartbeat ''s'') [Tick True 30000, Tick False 60000, VisibilityChange True 90000, Tick True 270000]
      (heartbeat_start ''s'' True False 0 \<lparr>lastInteraction = None, pings = []\<rparr>)) =
    [(30000, activity_request ''s''), (90000, activity_request ''s'')]"
proof -
  let ?h = "heartbeat_start ''s'' True False 0 \<lparr>lastInteraction = None, pings = []\<rparr>"
  have "lastInteraction ?h = Some 0" "pings ?h = []"
    by (simp_all add: heartbeat_start_def sendPing_def recordInteraction_def)
  with idle_page_stops_pinging[of ?h 0
      "[Tick True 30000, Tick False 60000, VisibilityChange True 90000, Tick True 270000]" "''s''"]
  show ?thesis by (simp add: List.map_filter_def)
qed

end
