(* ===== verification/Web_Socket.thy ===== *)
theory Web_Socket
  imports Js_Values
begin

text \<open>
  The live connection, \<^verbatim>\<open>frontend/src/hooks/use-websocket.ts\<close>: React state and refs are one record,
  a browser socket is its \<^verbatim>\<open>readyState\<close>, a timer or a pending microtask is an entry of the state, and
  every handler the hook installs is a function on the record. \<open>ws_enabled\<close> says when the browser can
  deliver an event and \<open>ws_handle\<close> runs the handler, so a run of the page is a list of events.

  The constructor of \<^verbatim>\<open>WebSocket\<close> may throw; \<open>ws_throws\<close> is its message for a given address. A failed
  connection fires \<^verbatim>\<open>error\<close> and \<^verbatim>\<open>close\<close> in one task; messages are delivered to open sockets only.
\<close>

subsection \<open>Addresses\<close>

record WsEnv =
  explicitUrl :: "string option"
  apiUrl :: "string option"
  location_hostname :: string
  location_host :: string
  location_protocol :: string
  maxReconnectAttempts :: nat
  ws_throws :: "string \<Rightarrow> string option"

definition trim_slashes :: "string \<Rightarrow> string" where
  "trim_slashes s = rev (dropWhile (\<lambda>c. c = CHR ''/'') (rev s))"

definition strip_http :: "string \<Rightarrow> string" where
  "strip_http s =
    (if js_startsWith s ''http:'' then drop 5 s
     else if js_startsWith s ''https:'' then drop 6 s else s)"

definition strip_api :: "string \<Rightarrow> string" where
  "strip_api s = (if js_endsWith s ''/api'' then take (length s - 4) s else s)"

definition getDefaultWebSocketUrl :: "WsEnv \<Rightarrow> string" where
  "getDefaultWebSocketUrl env =
    (case apiUrl env of
       Some (c # cs) \<Rightarrow>
         (let httpUrl = trim_slashes (c # cs);
              wsProtocol = (if js_startsWith httpUrl ''https:'' then ''wss:'' else ''ws:'')
          in wsProtocol @ strip_api (strip_http httpUrl) @ ''/api/ws'')
     | _ \<Rightarrow>
         (let isLocalhost =
                (location_hostname env = ''localhost'' \<or> location_hostname env = ''127.0.0.1'');
              host = (if isLocalhost then ''localhost:8080'' else location_host env);
              protocol = (if location_protocol env = ''https:'' then ''wss:'' else ''ws:'')
          in protocol @ ''//'' @ host @ ''/api/ws''))"

definition socket_url :: "WsEnv \<Rightarrow> string" where
  "socket_url env = (case explicitUrl env of Some (c # cs) \<Rightarrow> c # cs | _ \<Rightarrow> getDefaultWebSocketUrl env)"

subsection \<open>State\<close>

datatype ReadyState = CONNECTING | OPEN | CLOSING | CLOSED

text \<open>Sockets and timers are numbered in the order of their creation; handlers are kept in the order of a \<^verbatim>\<open>Set\<close>.\<close>

record WsState =
  isConnected :: bool
  isConnecting :: bool
  error :: "string option"
  wsRef :: "nat option"
  sockets :: "nat \<Rightarrow> ReadyState"
  nextSocket :: nat
  reconnectAttempts :: nat
  timers :: "nat list"
  nextTimer :: nat
  reconnectTimer :: "nat option"
  handlers :: "nat list"
  shouldReconnect :: bool
  isConnectingRef :: bool
  lastMessageAt :: int
  authFailed :: bool
  microtasks :: nat
  refreshWaits :: nat
  frames :: "(nat \<times> json) list"
  dispatched :: "(nat \<times> json) list"

definition initialWs :: WsState where
  "initialWs = \<lparr>isConnected = False, isConnecting = False, error = None, wsRef = None,
     sockets = (\<lambda>_. CLOSED), nextSocket = 0, reconnectAttempts = 0, timers = [], nextTimer = 0,
     reconnectTimer = None, handlers = [], shouldReconnect = True, isConnectingRef = False,
     lastMessageAt = 0, authFailed = False, microtasks = 0, refreshWaits = 0, frames = [],
     dispatched = []\<rparr>"

definition ready :: "WsState \<Rightarrow> ReadyState option" where
  "ready st = map_option (sockets st) (wsRef st)"

definition socket_close :: "nat \<Rightarrow> WsState \<Rightarrow> WsState" where
  "socket_close k st =
    (if sockets st k = CONNECTING \<or> sockets st k = OPEN
     then st\<lparr>sockets := (sockets st)(k := CLOSING)\<rparr> else st)"

definition ws_setTimeout :: "WsState \<Rightarrow> WsState" where
  "ws_setTimeout st =
    st\<lparr>timers := timers st @ [nextTimer st], reconnectTimer := Some (nextTimer st),
       nextTimer := Suc (nextTimer st)\<rparr>"

subsection \<open>Handlers\<close>

definition connect :: "WsEnv \<Rightarrow> WsState \<Rightarrow> WsState" where
  "connect env st =
    (if ready st = Some OPEN then st
     else if isConnectingRef st then st
     else let st1 = st\<lparr>isConnectingRef := True, isConnecting := True, error := None\<rparr>
          in case ws_throws env (socket_url env) of
               None \<Rightarrow>
                 st1\<lparr>sockets := (sockets st)(nextSocket st := CONNECTING),
                     wsRef := Some (nextSocket st), nextSocket := Suc (nextSocket st)\<rparr>
             | Some msg \<Rightarrow> st1\<lparr>isConnectingRef := False, error := Some msg, isConnecting := False\<rparr>)"

definition ws_onopen :: "nat \<Rightarrow> string \<Rightarrow> WsState \<Rightarrow> WsState" where
  "ws_onopen k token st =
    (if token \<noteq> []
     then st\<lparr>frames := frames st @ [(k, JObj [(''type'', JStr ''auth''), (''token'', JStr token)])]\<rparr>
     else st)"

text \<open>\<^term>\<open>None\<close> is text that is not JSON; \<^term>\<open>JNull\<close> has no property to read and ends in the outer \<^verbatim>\<open>catch\<close>.\<close>

definition ws_onmessage :: "nat \<Rightarrow> int \<Rightarrow> json option \<Rightarrow> WsState \<Rightarrow> WsState" where
  "ws_onmessage k now data st =
    (case data of
       None \<Rightarrow> st
     | Some message \<Rightarrow>
         (let st1 = st\<lparr>lastMessageAt := now\<rparr>
          in if message = JNull then st1
             else if js_get message ''event'' = Some (JStr ''auth:success'')
             then st1\<lparr>authFailed := False, isConnectingRef := False, isConnected := True,
                      isConnecting := False, error := None, reconnectAttempts := 0\<rparr>
             else if js_get message ''event'' = Some (JStr ''auth:error'')
             then socket_close k
                    (st1\<lparr>authFailed := True, error := Some ''Authentication failed'', isConnecting := False\<rparr>)
             else st1\<lparr>dispatched := dispatched st @ map (\<lambda>h. (h, message)) (handlers st)\<rparr>))"

definition ws_onerror :: "WsState \<Rightarrow> WsState" where
  "ws_onerror st =
    st\<lparr>isConnectingRef := False, error := Some ''WebSocket connection error'', isConnecting := False\<rparr>"

definition ws_onclose :: "WsEnv \<Rightarrow> nat \<Rightarrow> nat \<Rightarrow> WsState \<Rightarrow> WsState" where
  "ws_onclose env k code st =
    (let st1 = st\<lparr>isConnectingRef := False, isConnected := False, isConnecting := False,
                  wsRef := (if wsRef st = Some k then None else wsRef st)\<rparr>
     in if code = 4001 \<or> authFailed st
        then st1\<lparr>authFailed := False, error := Some ''Authentication required'',
                 refreshWaits := (if shouldReconnect st then Suc (refreshWaits st) else refreshWaits st)\<rparr>
        else if shouldReconnect st \<and> reconnectAttempts st < maxReconnectAttempts env
        then ws_setTimeout (st1\<lparr>reconnectAttempts := reconnectAttempts st + 1\<rparr>)
        else st1)"

text \<open>The continuation of the token refresh that an authentication failure starts.\<close>

definition ws_refreshed :: "bool \<Rightarrow> WsState \<Rightarrow> WsState" where
  "ws_refreshed refreshed st =
    (let st1 = st\<lparr>refreshWaits := refreshWaits st - 1\<rparr>
     in if refreshed \<and> shouldReconnect st then ws_setTimeout (st1\<lparr>reconnectAttempts := 0\<rparr>) else st1)"

definition disconnect :: "WsState \<Rightarrow> WsState" where
  "disconnect st =
    (let st1 = st\<lparr>shouldReconnect := False\<rparr>;
         st2 = (case reconnectTimer st1 of
                  None \<Rightarrow> st1
                | Some t \<Rightarrow> st1\<lparr>timers := filter (\<lambda>u. u \<noteq> t) (timers st1), reconnectTimer := None\<rparr>);
         st3 = (case wsRef st2 of None \<Rightarrow> st2 | Some k \<Rightarrow> (socket_close k st2)\<lparr>wsRef := None\<rparr>)
     in st3\<lparr>isConnected := False\<rparr>)"

definition ws_send :: "json \<Rightarrow> WsState \<Rightarrow> bool \<times> WsState" where
  "ws_send data st =
    (case wsRef st of
       Some k \<Rightarrow> if sockets st k = OPEN then (True, st\<lparr>frames := frames st @ [(k, data)]\<rparr>) else (False, st)
     | None \<Rightarrow> (False, st))"

definition scope_frame :: "string \<Rightarrow> string \<Rightarrow> string option \<Rightarrow> json" where
  "scope_frame type scope targetId =
    JObj ([(''type'', JStr type), (''scope'', JStr scope)] @
      (case targetId of None \<Rightarrow> [] | Some t \<Rightarrow> [(''target_id'', JStr t)]))"

definition subscribe :: "string \<Rightarrow> string option \<Rightarrow> WsState \<Rightarrow> WsState" where
  "subscribe scope targetId st = snd (ws_send (scope_frame ''subscribe'' scope targetId) st)"

definition unsubscribe :: "string \<Rightarrow> string option \<Rightarrow> WsState \<Rightarrow> WsState" where
  "unsubscribe scope targetId st = snd (ws_send (scope_frame ''unsubscribe'' scope targetId) st)"

definition onMessage :: "nat \<Rightarrow> WsState \<Rightarrow> WsState" where
  "onMessage h st = (if h \<in> set (handlers st) then st else st\<lparr>handlers := handlers st @ [h]\<rparr>)"

definition offMessage :: "nat \<Rightarrow> WsState \<Rightarrow> WsState" where
  "offMessage h st = st\<lparr>handlers := filter (\<lambda>g. g \<noteq> h) (handlers st)\<rparr>"

definition ws_mount :: "WsState \<Rightarrow> WsState" where
  "ws_mount st = st\<lparr>shouldReconnect := True, microtasks := Suc (microtasks st)\<rparr>"

definition ZOMBIE_THRESHOLD_MS :: int where
  "ZOMBIE_THRESHOLD_MS = 90000"

definition recover :: "WsEnv \<Rightarrow> int \<Rightarrow> WsState \<Rightarrow> WsState" where
  "recover env now st =
    (if isConnectingRef st then st
     else let st1 = st\<lparr>reconnectAttempts := 0, shouldReconnect := True\<rparr>
          in case wsRef st1 of
               Some k \<Rightarrow>
                 if sockets st1 k = OPEN
                 then if now - lastMessageAt st1 > ZOMBIE_THRESHOLD_MS then socket_close k st1 else st1
                 else if sockets st1 k \<noteq> CLOSED then st1 else connect env st1
             | None \<Rightarrow> connect env st1)"

lemmas handler_defs [ws_defs] =
  connect_def ws_onopen_def ws_onmessage_def ws_onerror_def ws_onclose_def ws_refreshed_def
  disconnect_def ws_send_def subscribe_def unsubscribe_def onMessage_def offMessage_def ws_mount_def
  recover_def socket_close_def ws_setTimeout_def ready_def

subsection \<open>Events\<close>

datatype WsEvent =
    Mount | Unmount | Microtask
  | CallConnect | CallDisconnect
  | Opened nat string | Message nat int "json option" | Failed nat nat | Closed nat nat
  | Timer nat | Refreshed bool
  | CallSend json | AddHandler nat | DropHandler nat
  | Visible int

fun ws_enabled :: "WsEvent \<Rightarrow> WsState \<Rightarrow> bool" where
  "ws_enabled Microtask st = (microtasks st > 0)"
| "ws_enabled (Opened k token) st = (sockets st k = CONNECTING)"
| "ws_enabled (Message k now data) st = (sockets st k = OPEN)"
| "ws_enabled (Failed k code) st = (sockets st k \<noteq> CLOSED)"
| "ws_enabled (Closed k code) st = (sockets st k = OPEN \<or> sockets st k = CLOSING)"
| "ws_enabled (Timer t) st = (t \<in> set (timers st))"
| "ws_enabled (Refreshed b) st = (refreshWaits st > 0)"
| "ws_enabled _ st = True"

fun ws_handle :: "WsEnv \<Rightarrow> WsEvent \<Rightarrow> WsState \<Rightarrow> WsState" where
  "ws_handle env Mount st = ws_mount st"
| "ws_handle env Unmount st = disconnect st"
| "ws_handle env Microtask st = connect env (st\<lparr>microtasks := microtasks st - 1\<rparr>)"
| "ws_handle env CallConnect st = connect env st"
| "ws_handle env CallDisconnect st = disconnect st"
| "ws_handle env (Opened k token) st = ws_onopen k token (st\<lparr>sockets := (sockets st)(k := OPEN)\<rparr>)"
| "ws_handle env (Message k now data) st = ws_onmessage k now data st"
| "ws_handle env (Failed k code) st =
    ws_onclose env k code (ws_onerror (st\<lparr>sockets := (sockets st)(k := CLOSED)\<rparr>))"
| "ws_handle env (Closed k code) st = ws_onclose env k code (st\<lparr>sockets := (sockets st)(k := CLOSED)\<rparr>)"
| "ws_handle env (Timer t) st = connect env (st\<lparr>timers := filter (\<lambda>u. u \<noteq> t) (timers st)\<rparr>)"
| "ws_handle env (Refreshed b) st = ws_refreshed b st"
| "ws_handle env (CallSend data) st = snd (ws_send data st)"
| "ws_handle env (AddHandler h) st = onMessage h st"
| "ws_handle env (DropHandler h) st = offMessage h st"
| "ws_handle env (Visible now) st = recover env now st"

inductive ws_step :: "WsEnv \<Rightarrow> WsState \<Rightarrow> WsState \<Rightarrow> bool" for env where
  event: "ws_enabled e st \<Longrightarrow> ws_step env st (ws_handle env e st)"

text \<open>
  Orderly events: a socket that was given up closes before its replacement exists.
\<close>

fun ws_orderly :: "WsEvent \<Rightarrow> WsState \<Rightarrow> bool" where
  "ws_orderly (Failed k code) st = (wsRef st = Some k \<or> wsRef st = None)"
| "ws_orderly (Closed k code) st = (wsRef st = Some k \<or> wsRef st = None)"
| "ws_orderly _ st = True"

inductive ws_orderly_step :: "WsEnv \<Rightarrow> WsState \<Rightarrow> WsState \<Rightarrow> bool" for env where
  event: "ws_enabled e st \<Longrightarrow> ws_orderly e st \<Longrightarrow> ws_orderly_step env st (ws_handle env e st)"

text \<open>A run: the events in order, \<^term>\<open>None\<close> when one of them cannot happen.\<close>

fun ws_run :: "WsEnv \<Rightarrow> WsEvent list \<Rightarrow> WsState \<Rightarrow> WsState option" where
  "ws_run env [] st = Some st"
| "ws_run env (e # es) st = (if ws_enabled e st then ws_run env es (ws_handle env e st) else None)"

lemma ws_run_steps: "ws_run env es st = Some st' \<Longrightarrow> (ws_step env)\<^sup>*\<^sup>* st st'"
proof (induction es arbitrary: st)
  case (Cons e es)
  then have "ws_step env st (ws_handle env e st)" "(ws_step env)\<^sup>*\<^sup>* (ws_handle env e st) st'"
    by (auto intro: ws_step.event split: if_splits)
  then show ?case by (rule converse_rtranclp_into_rtranclp)
qed simp

fun ws_orderly_run :: "WsEnv \<Rightarrow> WsEvent list \<Rightarrow> WsState \<Rightarrow> bool" where
  "ws_orderly_run env [] st = True"
| "ws_orderly_run env (e # es) st = (ws_orderly e st \<and> ws_orderly_run env es (ws_handle env e st))"

lemma ws_run_orderly_steps:
  "ws_run env es st = Some st' \<Longrightarrow> ws_orderly_run env es st \<Longrightarrow> (ws_orderly_step env)\<^sup>*\<^sup>* st st'"
proof (induction es arbitrary: st)
  case (Cons e es)
  then have "ws_orderly_step env st (ws_handle env e st)" "(ws_orderly_step env)\<^sup>*\<^sup>* (ws_handle env e st) st'"
    by (auto intro: ws_orderly_step.event split: if_splits)
  then show ?case by (rule converse_rtranclp_into_rtranclp)
qed simp

subsection \<open>Invariants\<close>

definition ws_inv :: "WsEnv \<Rightarrow> WsState \<Rightarrow> bool" where
  "ws_inv env st \<longleftrightarrow>
    reconnectAttempts st \<le> maxReconnectAttempts env \<and> distinct (handlers st) \<and>
    (\<forall>k. wsRef st = Some k \<longrightarrow> sockets st k \<noteq> CLOSED) \<and>
    (\<forall>k. sockets st k \<noteq> CLOSED \<longrightarrow> k < nextSocket st)"

definition live :: "ReadyState \<Rightarrow> bool" where
  "live r = (r = CONNECTING \<or> r = OPEN)"

definition exclusive_inv :: "WsState \<Rightarrow> bool" where
  "exclusive_inv st \<longleftrightarrow>
    (\<forall>k. live (sockets st k) \<longrightarrow> wsRef st = Some k) \<and>
    (\<forall>k. sockets st k = CONNECTING \<longrightarrow> isConnectingRef st)"

lemma ws_inv_frame [simp]:
  "ws_inv env (st\<lparr>microtasks := n\<rparr>) = ws_inv env st"
  "ws_inv env (st\<lparr>timers := ts\<rparr>) = ws_inv env st"
  "ws_inv env (st\<lparr>frames := fs\<rparr>) = ws_inv env st"
  "ws_inv env (st\<lparr>shouldReconnect := b\<rparr>) = ws_inv env st"
  by (simp_all add: ws_inv_def)

lemma exclusive_frame [simp]:
  "exclusive_inv (st\<lparr>microtasks := n\<rparr>) = exclusive_inv st"
  "exclusive_inv (st\<lparr>timers := ts\<rparr>) = exclusive_inv st"
  "exclusive_inv (st\<lparr>frames := fs\<rparr>) = exclusive_inv st"
  "exclusive_inv (st\<lparr>handlers := hs\<rparr>) = exclusive_inv st"
  "exclusive_inv (st\<lparr>shouldReconnect := b\<rparr>) = exclusive_inv st"
  by (simp_all add: exclusive_inv_def)

lemma exclusive_unique:
  "exclusive_inv st \<Longrightarrow> live (sockets st j) \<Longrightarrow> live (sockets st k) \<Longrightarrow> j = k"
  by (metis exclusive_inv_def option.inject)

lemma ws_inv_connect: "ws_inv env st \<Longrightarrow> ws_inv env (connect env st)"
  by (auto simp: ws_inv_def connect_def Let_def less_Suc_eq split: option.splits)

lemma ws_inv_socket_close [simp]: "ws_inv env st \<Longrightarrow> ws_inv env (socket_close k st)"
  by (auto simp: ws_inv_def socket_close_def)

lemma ws_inv_onmessage: "ws_inv env st \<Longrightarrow> ws_inv env (ws_onmessage k now data st)"
  by (cases data) (auto simp: ws_onmessage_def Let_def ws_inv_def socket_close_def)

lemma ws_inv_closed:
  "ws_inv env st \<Longrightarrow> ws_inv env (ws_onclose env k code (st\<lparr>sockets := (sockets st)(k := CLOSED)\<rparr>))"
  by (auto simp: ws_inv_def ws_onclose_def ws_setTimeout_def Let_def)

lemma ws_inv_failed:
  "ws_inv env st \<Longrightarrow>
    ws_inv env (ws_onclose env k code (ws_onerror (st\<lparr>sockets := (sockets st)(k := CLOSED)\<rparr>)))"
  by (auto simp: ws_inv_def ws_onclose_def ws_onerror_def ws_setTimeout_def Let_def)

lemma ws_inv_disconnect: "ws_inv env st \<Longrightarrow> ws_inv env (disconnect st)"
  by (auto simp: ws_inv_def disconnect_def socket_close_def Let_def split: option.splits)

lemma ws_inv_recover: "ws_inv env st \<Longrightarrow> ws_inv env (recover env now st)"
  using ws_inv_connect[of env "st\<lparr>reconnectAttempts := 0, shouldReconnect := True\<rparr>"]
  by (auto simp: recover_def ws_inv_def socket_close_def Let_def split: option.splits)

lemma ws_inv_refreshed: "ws_inv env st \<Longrightarrow> ws_inv env (ws_refreshed b st)"
  by (auto simp: ws_inv_def ws_refreshed_def ws_setTimeout_def Let_def)

lemma ws_inv_opened:
  "ws_inv env st \<Longrightarrow> sockets st k = CONNECTING \<Longrightarrow>
    ws_inv env (ws_onopen k token (st\<lparr>sockets := (sockets st)(k := OPEN)\<rparr>))"
  by (auto simp: ws_inv_def ws_onopen_def)

lemma ws_inv_send: "ws_inv env st \<Longrightarrow> ws_inv env (snd (ws_send d st))"
  by (auto simp: ws_send_def split: option.splits)

lemma ws_inv_handlers:
  "ws_inv env st \<Longrightarrow> ws_inv env (onMessage h st)" "ws_inv env st \<Longrightarrow> ws_inv env (offMessage h st)"
  by (auto simp: ws_inv_def onMessage_def offMessage_def)

lemma ws_inv_step:
  assumes "ws_inv env st" and "ws_enabled e st"
  shows "ws_inv env (ws_handle env e st)"
  using assms
  by (cases e) (simp_all add: ws_inv_connect ws_inv_onmessage ws_inv_closed ws_inv_failed ws_inv_disconnect
      ws_inv_recover ws_inv_refreshed ws_inv_opened ws_inv_send ws_inv_handlers ws_mount_def)

interpretation ws_sys: transition_system "\<lambda>st. st = initialWs" "ws_step env" "ws_inv env" for env
proof
  show "st = initialWs \<Longrightarrow> ws_inv env st" for st by (simp add: ws_inv_def initialWs_def)
  show "ws_inv env st \<Longrightarrow> ws_step env st st' \<Longrightarrow> ws_inv env st'" for st st'
    by (auto elim!: ws_step.cases intro: ws_inv_step)
qed

lemma exclusive_none: "(\<And>k. \<not> live (sockets st k)) \<Longrightarrow> exclusive_inv st"
  by (auto simp: exclusive_inv_def live_def)

lemma exclusive_mono:
  assumes "exclusive_inv st" and "wsRef st' = wsRef st"
    and "\<And>k. live (sockets st' k) \<Longrightarrow> live (sockets st k)"
    and "\<And>k. sockets st' k = CONNECTING \<Longrightarrow> isConnectingRef st'"
  shows "exclusive_inv st'"
  using assms by (simp add: exclusive_inv_def)

lemma exclusive_connect:
  assumes inv: "exclusive_inv st"
  shows "exclusive_inv (connect env st)"
proof (cases "ready st = Some OPEN \<or> isConnectingRef st")
  case True
  then show ?thesis using inv by (auto simp: connect_def)
next
  case False
  have dead: "\<not> live (sockets st k)" for k
  proof
    assume "live (sockets st k)"
    with inv have "wsRef st = Some k" "sockets st k = CONNECTING \<Longrightarrow> isConnectingRef st"
      by (auto simp: exclusive_inv_def)
    with False \<open>live (sockets st k)\<close> show False by (auto simp: live_def ready_def)
  qed
  with False show ?thesis
    by (cases "ws_throws env (socket_url env)")
      (auto simp: connect_def Let_def exclusive_inv_def live_def)
qed

lemma exclusive_socket_close: "exclusive_inv st \<Longrightarrow> exclusive_inv (socket_close k st)"
  by (rule exclusive_mono[of st]) (auto simp: socket_close_def live_def exclusive_inv_def split: if_splits)

lemma onmessage_sockets:
  "wsRef (ws_onmessage k now data st) = wsRef st \<and>
   (sockets (ws_onmessage k now data st) = sockets st \<or>
    sockets (ws_onmessage k now data st) = (sockets st)(k := CLOSING))"
  by (simp add: ws_onmessage_def socket_close_def Let_def split: option.split)

lemma exclusive_onmessage:
  assumes inv: "exclusive_inv st" and "sockets st k = OPEN"
  shows "exclusive_inv (ws_onmessage k now data st)"
proof -
  have "sockets st j \<noteq> CONNECTING" for j
    using exclusive_unique[OF inv, of j k] assms(2) by (auto simp: live_def)
  with inv onmessage_sockets[of k now data st] show ?thesis
    by (intro exclusive_mono[OF inv]) (auto simp: live_def split: if_splits)
qed

lemma exclusive_closed:
  assumes "exclusive_inv st" and "wsRef st = Some k \<or> wsRef st = None"
    and "sockets st' = (sockets st)(k := CLOSED)"
  shows "exclusive_inv (ws_onclose env k code st')"
proof -
  have "\<not> live (sockets st' j)" for j
  proof
    assume "live (sockets st' j)"
    with assms(3) have "live (sockets st j)" "j \<noteq> k" by (auto simp: live_def split: if_splits)
    with assms(1,2) show False by (auto simp: exclusive_inv_def)
  qed
  then show ?thesis by (intro exclusive_none) (simp add: ws_onclose_def ws_setTimeout_def Let_def)
qed

lemma exclusive_disconnect:
  assumes inv: "exclusive_inv st"
  shows "exclusive_inv (disconnect st)"
proof -
  have "\<not> live (sockets (disconnect st) j)" for j
  proof (cases "live (sockets st j)")
    case True
    with inv have "wsRef st = Some j" by (simp add: exclusive_inv_def)
    with True show ?thesis
      by (cases "reconnectTimer st") (auto simp: disconnect_def socket_close_def live_def Let_def)
  next
    case False
    then show ?thesis
      by (auto simp: disconnect_def socket_close_def live_def Let_def split: option.splits)
  qed
  then show ?thesis by (rule exclusive_none)
qed

lemma exclusive_recover:
  assumes inv: "exclusive_inv st"
  shows "exclusive_inv (recover env now st)"
proof -
  let ?s = "st\<lparr>reconnectAttempts := 0, shouldReconnect := True\<rparr>"
  have "exclusive_inv ?s" using inv by (simp add: exclusive_inv_def)
  with inv show ?thesis
    by (auto simp: recover_def Let_def exclusive_connect exclusive_socket_close split: option.splits)
qed

lemma exclusive_refreshed: "exclusive_inv st \<Longrightarrow> exclusive_inv (ws_refreshed b st)"
  by (simp add: exclusive_inv_def ws_refreshed_def ws_setTimeout_def Let_def)

lemma exclusive_opened:
  assumes "exclusive_inv st" and "sockets st k = CONNECTING"
  shows "exclusive_inv (ws_onopen k token (st\<lparr>sockets := (sockets st)(k := OPEN)\<rparr>))"
proof -
  have "isConnectingRef st" using assms by (auto simp: exclusive_inv_def)
  with assms show ?thesis
    by (intro exclusive_mono[OF assms(1)]) (auto simp: ws_onopen_def live_def split: if_splits)
qed

lemma exclusive_send: "exclusive_inv st \<Longrightarrow> exclusive_inv (snd (ws_send d st))"
  by (auto simp: ws_send_def split: option.splits)

lemma exclusive_step:
  assumes "exclusive_inv st" and "ws_enabled e st" and "ws_orderly e st"
  shows "exclusive_inv (ws_handle env e st)"
  using assms
  by (cases e) (simp_all add: exclusive_connect exclusive_onmessage exclusive_disconnect exclusive_recover
      exclusive_refreshed exclusive_opened exclusive_send exclusive_closed[of st] ws_onerror_def ws_mount_def
      onMessage_def offMessage_def)

interpretation orderly_sys: transition_system "\<lambda>st. st = initialWs" "ws_orderly_step env" exclusive_inv for env
proof
  show "st = initialWs \<Longrightarrow> exclusive_inv st" for st
    by (simp add: exclusive_inv_def initialWs_def live_def)
  show "exclusive_inv st \<Longrightarrow> ws_orderly_step env st st' \<Longrightarrow> exclusive_inv st'" for st st'
    by (auto elim!: ws_orderly_step.cases intro: exclusive_step)
qed

lemmas ws_reachable = ws_sys.reachable_inv[OF refl]

subsection \<open>Properties of the connection\<close>

definition demo_ws_env :: WsEnv where
  "demo_ws_env = \<lparr>explicitUrl = None, apiUrl = None, location_hostname = ''lab.example.org'',
     location_host = ''lab.example.org'', location_protocol = ''https:'', maxReconnectAttempts = 5,
     ws_throws = (\<lambda>_. None)\<rparr>"

definition auth_success :: json where
  "auth_success = JObj [(''event'', JStr ''auth:success'')]"

definition demo_live :: WsState where
  "demo_live = ws_handle demo_ws_env (Message 0 100 (Some auth_success))
     (ws_handle demo_ws_env (Opened 0 ''tok'')
       (ws_handle demo_ws_env Microtask (ws_handle demo_ws_env Mount initialWs)))"

lemmas demo_ws_simps = demo_live_def demo_ws_env_def auth_success_def initialWs_def Let_def

lemma demo_live_run:
  "ws_run demo_ws_env [Mount, Microtask, Opened 0 ''tok'', Message 0 100 (Some auth_success)] initialWs =
    Some demo_live"
  by (simp add: ws_defs demo_ws_simps)

lemma demo_live_orderly:
  "ws_orderly_run demo_ws_env [Mount, Microtask, Opened 0 ''tok'', Message 0 100 (Some auth_success)] initialWs"
  by simp

lemmas demo_live_steps =
  ws_run_orderly_steps[OF demo_live_run demo_live_orderly] ws_run_steps[OF demo_live_run]

text \<open>
  C6. One connection: as long as an abandoned socket closes before its replacement exists, at most one
  socket is connecting or open, it is the one the hook refers to, and the hook never starts another
  while it is open or connecting.
\<close>

theorem one_live_socket:
  assumes "(ws_orderly_step env)\<^sup>*\<^sup>* initialWs st"
  shows "(\<forall>j k. live (sockets st j) \<longrightarrow> live (sockets st k) \<longrightarrow> j = k) \<and>
    (\<forall>k. live (sockets st k) \<longrightarrow> wsRef st = Some k \<and> connect env st = st)"
proof -
  have inv: "exclusive_inv st" using orderly_sys.reachable_inv[OF refl assms] .
  have "wsRef st = Some k \<and> connect env st = st" if l: "live (sockets st k)" for k
  proof -
    from inv l have "wsRef st = Some k" "sockets st k = OPEN \<or> isConnectingRef st"
      by (auto simp: exclusive_inv_def live_def)
    then show ?thesis by (auto simp: connect_def ready_def)
  qed
  with exclusive_unique[OF inv] show ?thesis by blast
qed

theorem one_live_socket_witness:
  "live (sockets demo_live 0) \<and> wsRef demo_live = Some 0 \<and> connect demo_ws_env demo_live = demo_live"
proof -
  have "live (sockets demo_live 0)" by (simp add: ws_defs demo_ws_simps live_def)
  then show ?thesis using one_live_socket[OF demo_live_steps(1)] by simp
qed

definition remount_race :: "WsEvent list" where
  "remount_race = [Mount, Microtask, Opened 0 ''tok'', Message 0 1 (Some auth_success), AddHandler 7,
     Unmount, Mount, Microtask, Closed 0 1000, Timer 0, Opened 1 ''tok'', Opened 2 ''tok'',
     Message 1 2 (Some (JObj [(''event'', JStr ''e'')])), Message 2 2 (Some (JObj [(''event'', JStr ''e'')]))]"

text \<open>
  The proviso is needed: when the page remounts the hook while its first socket is still closing, the
  late close event clears the connecting flag and schedules a reconnection, a second socket is opened
  beside the replacement, and every message reaches each handler twice.
\<close>

theorem stale_close_gives_two_sockets:
  "\<exists>st. ws_run demo_ws_env remount_race initialWs = Some st \<and>
     sockets st 1 = OPEN \<and> sockets st 2 = OPEN \<and>
     dispatched st = [(7, JObj [(''event'', JStr ''e'')]), (7, JObj [(''event'', JStr ''e'')])]"
  by (simp add: remount_race_def ws_defs demo_ws_simps)



definition handshake :: "json \<Rightarrow> bool" where
  "handshake m \<longleftrightarrow> js_get m ''event'' = Some (JStr ''auth:success'') \<or>
     js_get m ''event'' = Some (JStr ''auth:error'')"

lemma count_handlers:
  assumes "distinct hs"
  shows "length (filter (\<lambda>(g, m). g = h) (map (\<lambda>h. (h, message)) hs)) = (if h \<in> set hs then 1 else 0)"
proof -
  have "filter (\<lambda>(g, m). g = h) (map (\<lambda>h. (h, message)) hs) = map (\<lambda>h. (h, message)) (filter (\<lambda>g. g = h) hs)"
    by (simp add: filter_map comp_def)
  moreover have "length (filter (\<lambda>g. g = h) hs) = (if h \<in> set hs then 1 else 0)"
    using assms by (induction hs) auto
  ultimately show ?thesis by simp
qed

text \<open>
  Delivery: a parsed message reaches every registered handler exactly once and nobody else, except the
  answers of the authentication handshake and \<^verbatim>\<open>null\<close>, which no handler sees.
\<close>

theorem message_delivered_once:
  assumes "(ws_step env)\<^sup>*\<^sup>* initialWs st"
  shows "\<exists>new. dispatched (ws_onmessage k now (Some m) st) = dispatched st @ new \<and>
    snd ` set new \<subseteq> {m} \<and>
    length (filter (\<lambda>(g, m'). g = h) new) =
      (if h \<in> set (handlers st) \<and> \<not> handshake m \<and> m \<noteq> JNull then 1 else 0)"
proof -
  have "distinct (handlers st)" using ws_reachable[OF assms] by (simp add: ws_inv_def)
  note count = count_handlers[OF this, of h m]
  show ?thesis
  proof (cases "handshake m \<or> m = JNull")
    case True
    then show ?thesis by (intro exI[of _ "[]"]) (auto simp: ws_onmessage_def handshake_def Let_def socket_close_def)
  next
    case False
    with count show ?thesis
      by (intro exI[of _ "map (\<lambda>h. (h, m)) (handlers st)"])
        (auto simp: ws_onmessage_def handshake_def Let_def)
  qed
qed

theorem message_delivered_once_witness:
  "\<exists>new. dispatched (ws_onmessage 0 200 (Some auth_success) demo_live) = dispatched demo_live @ new \<and>
    length (filter (\<lambda>(g, m'). g = 7) new) = 0"
proof -
  have "handshake auth_success" by (simp add: handshake_def auth_success_def)
  with message_delivered_once[OF demo_live_steps(2), of 0 200 auth_success 7] show ?thesis by auto
qed

text \<open>
  After \<^verbatim>\<open>disconnect\<close> the hook schedules nothing more: until it is mounted again or the page becomes
  visible, no event adds a timer or a token refresh.
\<close>

theorem disconnected_schedules_nothing:
  assumes "\<not> shouldReconnect st" and "e \<noteq> Mount" and "\<And>now. e \<noteq> Visible now"
  shows "\<not> shouldReconnect (ws_handle env e st) \<and> set (timers (ws_handle env e st)) \<subseteq> set (timers st) \<and>
    refreshWaits (ws_handle env e st) \<le> refreshWaits st"
  using assms
  by (cases e) (auto simp: ws_defs Let_def split: option.splits)

theorem disconnected_schedules_nothing_witness:
  "\<not> shouldReconnect (disconnect demo_live) \<and>
   set (timers (ws_handle demo_ws_env (Closed 0 1006) (disconnect demo_live))) \<subseteq>
     set (timers (disconnect demo_live))"
proof -
  have "\<not> shouldReconnect (disconnect demo_live)" by (simp add: ws_defs demo_ws_simps)
  with disconnected_schedules_nothing[of "disconnect demo_live" "Closed 0 1006" demo_ws_env]
  show ?thesis by simp
qed

definition unmount_leak :: "WsEvent list" where
  "unmount_leak = [Mount, Microtask, Opened 0 ''tok'', Message 0 1 (Some auth_success), Unmount, Mount,
     Microtask, Closed 0 1000, Failed 1 1006, Unmount, Timer 0]"

text \<open>
  But it does not cancel every timer it had scheduled: when a late close event and the failure of the
  replacement have each scheduled one, only the second is cancelled, and the first opens a socket
  after the hook has been unmounted.
\<close>

theorem unmounted_hook_reconnects:
  "\<exists>st. ws_run demo_ws_env unmount_leak initialWs = Some st \<and>
     \<not> shouldReconnect st \<and> wsRef st = Some 2 \<and> sockets st 2 = CONNECTING"
  by (simp add: unmount_leak_def ws_defs demo_ws_simps)

lemma trim_slashes_api: "trim_slashes (s @ ''/api'' @ replicate n (CHR ''/'')) = s @ ''/api''"
proof -
  have "dropWhile (\<lambda>c. c = CHR ''/'') (replicate n (CHR ''/'') @ ''ipa/'' @ rev s) = ''ipa/'' @ rev s"
    by (induction n) auto
  then show ?thesis by (simp add: trim_slashes_def)
qed

text \<open>
  Addresses: an absolute API address gives the socket address of the same host with the matching
  scheme, whatever slashes trail it; a relative one, the default of the compose file, gives an address
  without a host.
\<close>

theorem websocket_address:
  "getDefaultWebSocketUrl (env\<lparr>apiUrl := Some (''http://'' @ host @ ''/api'' @ replicate n (CHR ''/''))\<rparr>) =
     ''ws://'' @ host @ ''/api/ws'' \<and>
   getDefaultWebSocketUrl (env\<lparr>apiUrl := Some (''https://'' @ host @ ''/api'' @ replicate n (CHR ''/''))\<rparr>) =
     ''wss://'' @ host @ ''/api/ws'' \<and>
   getDefaultWebSocketUrl (env\<lparr>apiUrl := Some ''/api''\<rparr>) = ''ws:/api/ws''"
  using trim_slashes_api[of "''http://'' @ host" n] trim_slashes_api[of "''https://'' @ host" n]
    trim_slashes_api[of "[]" 0]
  by (simp add: getDefaultWebSocketUrl_def strip_http_def strip_api_def js_startsWith_def js_endsWith_def
      Let_def)

end
