(* ===== verification/Server_Actions.thy ===== *)
theory Server_Actions
  imports Api_Client Ui_Stores
begin

text \<open>
  Server operations, \<^verbatim>\<open>frontend/src/hooks/use-servers.ts\<close>, and the reason dialog in front of them,
  \<^verbatim>\<open>hooks/use-server-actions-with-reason.ts\<close> and \<^verbatim>\<open>hooks/use-reason-dialog.tsx\<close>.

  The query cache belongs to a library. It is the parameter \<open>qc\<close>: how the list under \<^verbatim>\<open>['servers']\<close>
  is read and written and how keys are invalidated. \<open>query_client_laws\<close> states what its documentation
  promises: an updater that returns \<^verbatim>\<open>undefined\<close> leaves the data alone, any other result replaces it,
  and invalidation keeps the data until the refetch arrives.
\<close>

subsection \<open>Servers and the query cache\<close>

record Server =
  server_id :: string
  status :: string
  server_user_id :: "string option"
  server_username :: "string option"

record 'c QueryClient =
  getQueryData :: "'c \<Rightarrow> Server list option"
  setQueryData :: "(Server list option \<Rightarrow> Server list option) \<Rightarrow> 'c \<Rightarrow> 'c"
  invalidateQueries :: "string list \<Rightarrow> 'c \<Rightarrow> 'c"

definition query_client_laws :: "'c QueryClient \<Rightarrow> bool" where
  "query_client_laws qc \<longleftrightarrow>
    (\<forall>f c. getQueryData qc (setQueryData qc f c) =
      (case f (getQueryData qc c) of None \<Rightarrow> getQueryData qc c | Some v \<Rightarrow> Some v)) \<and>
    (\<forall>k c. getQueryData qc (invalidateQueries qc k c) = getQueryData qc c)"

lemma query_clientD:
  assumes "query_client_laws qc"
  shows "getQueryData qc (setQueryData qc f c) =
      (case f (getQueryData qc c) of None \<Rightarrow> getQueryData qc c | Some v \<Rightarrow> Some v)"
    and "getQueryData qc (invalidateQueries qc k c) = getQueryData qc c"
  using assms by (simp_all add: query_client_laws_def)

text \<open>An instance: the data with the keys invalidated so far.\<close>

definition list_cache :: "(Server list option \<times> string list list) QueryClient" where
  "list_cache = \<lparr>getQueryData = fst,
     setQueryData = (\<lambda>f (d, ks). (case f d of None \<Rightarrow> d | Some v \<Rightarrow> Some v, ks)),
     invalidateQueries = (\<lambda>k (d, ks). (d, ks @ [k]))\<rparr>"

lemma list_cache_laws: "query_client_laws list_cache"
  by (auto simp: query_client_laws_def list_cache_def split: option.splits)

subsection \<open>Pending operations\<close>

datatype OpType = Start | Stop | Restart | Delete

datatype TargetStatus = TargetRunning | TargetStopped | TargetDeleted

record PendingOperation =
  serverId :: string
  op_type :: OpType
  targetStatus :: TargetStatus

fun target_name :: "TargetStatus \<Rightarrow> string" where
  "target_name TargetRunning = ''running''"
| "target_name TargetStopped = ''stopped''"
| "target_name TargetDeleted = ''deleted''"

record 'c ActionState =
  pendingOps :: "PendingOperation list"
  opTimers :: "(string \<times> nat) list"
  cache :: 'c
  toastStore :: ToastStore
  requests :: "FetchRequest list"

text \<open>
  Every new array of operations runs the timeout effect again: the old timers are cleared and each
  operation other than a deletion gets a fresh one. A timer is its server and its due time.
\<close>

definition op_timeout :: "OpType \<Rightarrow> nat" where
  "op_timeout t = (if t = Restart then 15000 else 30000)"

definition armTimers :: "nat \<Rightarrow> PendingOperation list \<Rightarrow> (string \<times> nat) list" where
  "armTimers now ops =
    map (\<lambda>op. (serverId op, now + op_timeout (op_type op))) (filter (\<lambda>op. op_type op \<noteq> Delete) ops)"

definition setPendingOps :: "nat \<Rightarrow> PendingOperation list \<Rightarrow> 'c ActionState \<Rightarrow> 'c ActionState" where
  "setPendingOps now ops st = st\<lparr>pendingOps := ops, opTimers := armTimers now ops\<rparr>"

definition insertOp :: "PendingOperation \<Rightarrow> PendingOperation list \<Rightarrow> PendingOperation list" where
  "insertOp op ops = remove_key serverId (serverId op) ops @ [op]"

definition addPendingOp ::
  "nat \<Rightarrow> string \<Rightarrow> OpType \<Rightarrow> TargetStatus \<Rightarrow> 'c ActionState \<Rightarrow> 'c ActionState" where
  "addPendingOp now i t target st =
    setPendingOps now (insertOp \<lparr>serverId = i, op_type = t, targetStatus = target\<rparr> (pendingOps st)) st"

definition removePendingOp :: "nat \<Rightarrow> string \<Rightarrow> 'c ActionState \<Rightarrow> 'c ActionState" where
  "removePendingOp now i st = setPendingOps now (remove_key serverId i (pendingOps st)) st"

definition still_pending :: "Server list \<Rightarrow> PendingOperation \<Rightarrow> bool" where
  "still_pending servers op =
    (if targetStatus op = TargetDeleted then list_ex (\<lambda>s. server_id s = serverId op) servers
     else case find_key server_id (serverId op) servers of
         None \<Rightarrow> False
       | Some server \<Rightarrow>
           if op_type op = Restart \<and> status server = ''running'' then False
           else status server \<noteq> target_name (targetStatus op))"

definition checkPendingOps :: "'c QueryClient \<Rightarrow> nat \<Rightarrow> 'c ActionState \<Rightarrow> 'c ActionState" where
  "checkPendingOps qc now st =
    (case getQueryData qc (cache st) of
       None \<Rightarrow> st
     | Some servers \<Rightarrow>
         if pendingOps st = [] then st
         else let next = filter (still_pending servers) (pendingOps st)
              in if length next = length (pendingOps st) then st else setPendingOps now next st)"

definition isOperationPending :: "string \<Rightarrow> OpType option \<Rightarrow> 'c ActionState \<Rightarrow> bool" where
  "isOperationPending i t st =
    list_ex (\<lambda>op. if serverId op \<noteq> i then False else case t of None \<Rightarrow> True | Some ty \<Rightarrow> op_type op = ty)
      (pendingOps st)"

subsection \<open>Mutations\<close>

text \<open>
  The four mutations differ in their path, verb and target. \<^verbatim>\<open>JSON.stringify\<close> drops an undefined reason.
\<close>

fun op_name :: "OpType \<Rightarrow> string" where
  "op_name Start = ''start''"
| "op_name Stop = ''stop''"
| "op_name Restart = ''restart''"
| "op_name Delete = ''delete''"

fun op_target :: "OpType \<Rightarrow> TargetStatus" where
  "op_target Start = TargetRunning"
| "op_target Stop = TargetStopped"
| "op_target Restart = TargetRunning"
| "op_target Delete = TargetDeleted"

definition reason_body :: "string option \<Rightarrow> json" where
  "reason_body reason = JObj (case reason of None \<Rightarrow> [] | Some r \<Rightarrow> [(''reason'', JStr r)])"

definition op_request :: "OpType \<Rightarrow> string \<Rightarrow> string option \<Rightarrow> FetchRequest" where
  "op_request t i reason =
    (if t = Delete
     then api_delete (''/servers/'' @ i)
       (case reason of Some (c # cs) \<Rightarrow> Some [(''reason'', c # cs)] | _ \<Rightarrow> None)
     else api_post (''/servers/'' @ i @ ''/'' @ op_name t) (reason_body reason))"

definition mutate_server :: "OpType \<Rightarrow> string \<Rightarrow> string option \<Rightarrow> nat \<Rightarrow> 'c ActionState \<Rightarrow> 'c ActionState" where
  "mutate_server t i reason now st =
    (let st1 = addPendingOp now i t (op_target t) st in st1\<lparr>requests := requests st1 @ [op_request t i reason]\<rparr>)"

definition invalidate_server_keys :: "'c QueryClient \<Rightarrow> 'c \<Rightarrow> 'c" where
  "invalidate_server_keys qc c = invalidateQueries qc [''dashboard''] (invalidateQueries qc [''servers''] c)"

definition updated_servers :: "OpType \<Rightarrow> string \<Rightarrow> string \<Rightarrow> Server list option \<Rightarrow> Server list option" where
  "updated_servers t i new_status old =
    (case old of
       None \<Rightarrow> None
     | Some ss \<Rightarrow>
         Some (if t = Delete then remove_key server_id i ss
               else map_key server_id i (\<lambda>s. s\<lparr>status := new_status\<rparr>) ss))"

text \<open>
  The hook is subscribed to the cache: writing the list and invalidating it each notify it, and it looks through the
  pending operations with the list as it is then, those of all servers.
\<close>

definition mutation_success ::
  "'c QueryClient \<Rightarrow> OpType \<Rightarrow> string \<Rightarrow> string \<Rightarrow> nat \<Rightarrow> 'c ActionState \<Rightarrow> 'c ActionState" where
  "mutation_success qc t i new_status now st =
    (let st1 = checkPendingOps qc now (st\<lparr>cache := setQueryData qc (updated_servers t i new_status) (cache st)\<rparr>);
         st2 = removePendingOp now i st1
     in checkPendingOps qc now (st2\<lparr>cache := invalidate_server_keys qc (cache st2)\<rparr>))"

definition mutation_error :: "OpType \<Rightarrow> string \<Rightarrow> string \<Rightarrow> nat \<Rightarrow> 'c ActionState \<Rightarrow> 'c ActionState" where
  "mutation_error t i msg now st =
    (let st1 = removePendingOp now i st
     in st1\<lparr>toastStore := snd (addToast (mkToast TError (''Failed to '' @ op_name t @ '' server'') (Some msg) 8000)
                                   (toastStore st1))\<rparr>)"

text \<open>The four mutation objects of \<^verbatim>\<open>useServerActions\<close>: a call and its two callbacks.\<close>

record 'c ServerMutation =
  sm_mutate :: "string \<Rightarrow> string option \<Rightarrow> nat \<Rightarrow> 'c ActionState \<Rightarrow> 'c ActionState"
  sm_success :: "string \<Rightarrow> string \<Rightarrow> nat \<Rightarrow> 'c ActionState \<Rightarrow> 'c ActionState"
  sm_error :: "string \<Rightarrow> string \<Rightarrow> nat \<Rightarrow> 'c ActionState \<Rightarrow> 'c ActionState"

definition server_mutation :: "'c QueryClient \<Rightarrow> OpType \<Rightarrow> 'c ServerMutation" where
  "server_mutation qc t =
    \<lparr>sm_mutate = mutate_server t, sm_success = mutation_success qc t, sm_error = mutation_error t\<rparr>"

definition startServer :: "'c QueryClient \<Rightarrow> 'c ServerMutation" where
  "startServer qc = server_mutation qc Start"

definition stopServer :: "'c QueryClient \<Rightarrow> 'c ServerMutation" where
  "stopServer qc = server_mutation qc Stop"

definition restartServer :: "'c QueryClient \<Rightarrow> 'c ServerMutation" where
  "restartServer qc = server_mutation qc Restart"

definition deleteServer :: "'c QueryClient \<Rightarrow> 'c ServerMutation" where
  "deleteServer qc = server_mutation qc Delete"

definition createServer :: "json \<Rightarrow> FetchRequest" where
  "createServer data = api_post ''/servers/'' data"

definition updateServer :: "string \<Rightarrow> json \<Rightarrow> FetchRequest" where
  "updateServer i data = api_patch (''/servers/'' @ i) data"

definition saved_success :: "'c QueryClient \<Rightarrow> 'c ActionState \<Rightarrow> 'c ActionState" where
  "saved_success qc st = st\<lparr>cache := invalidate_server_keys qc (cache st)\<rparr>"

subsection \<open>Bulk actions\<close>

record BulkActionResponse =
  bulk_succeeded :: "string list"
  bulk_failed :: "(string \<times> string) list"
  bulk_total :: int
  bulk_success_count :: int
  bulk_failure_count :: int

definition bulk_request :: "OpType \<Rightarrow> string list \<Rightarrow> string option \<Rightarrow> FetchRequest" where
  "bulk_request t ids reason = api_post ''/bulk/servers/bulk-action''
    (JObj ([(''action'', JStr (op_name t)), (''server_ids'', JArr (map JStr ids))] @
      (case reason of None \<Rightarrow> [] | Some r \<Rightarrow> [(''reason'', JStr r)])))"

definition bulk_error_text :: "(string \<times> string) list \<Rightarrow> string" where
  "bulk_error_text failed =
    js_join ''; '' (map snd (take 3 failed)) @
    (if length failed > 3 then '' and '' @ show_nat (length failed - 3) @ '' more'' else [])"

definition bulk_success :: "'c QueryClient \<Rightarrow> BulkActionResponse \<Rightarrow> 'c ActionState \<Rightarrow> 'c ActionState" where
  "bulk_success qc data st =
    (let st1 = st\<lparr>cache := invalidate_server_keys qc (cache st)\<rparr>;
         st2 = (if bulk_failure_count data > 0
                then st1\<lparr>toastStore := snd (addToast (mkToast TError
                       (show_int (bulk_failure_count data) @ '' server(s) failed'')
                       (Some (bulk_error_text (bulk_failed data))) 8000) (toastStore st1))\<rparr>
                else st1)
     in if bulk_success_count data > 0
        then st2\<lparr>toastStore := snd (addToast (mkToast TSuccess ''Bulk action completed''
               (Some (show_int (bulk_success_count data) @ '' server(s) processed successfully'')) 4000)
               (toastStore st2))\<rparr>
        else st2)"

definition bulk_error :: "string \<Rightarrow> 'c ActionState \<Rightarrow> 'c ActionState" where
  "bulk_error msg st =
    st\<lparr>toastStore := snd (addToast (mkToast TError ''Bulk action failed'' (Some msg) 8000) (toastStore st))\<rparr>"

lemmas action_defs [hook_defs] =
  setPendingOps_def addPendingOp_def removePendingOp_def insertOp_def mutate_server_def mutation_success_def
  mutation_error_def saved_success_def bulk_success_def bulk_error_def invalidate_server_keys_def

subsection \<open>The table of pending operations\<close>

interpretation pending: keyed_table
  "\<lambda>ops i. find_key serverId i ops" insertOp "remove_key serverId" serverId "unique_keys serverId" "\<lambda>_ _. True"
proof
  show "(\<lambda>i. find_key serverId i (insertOp v s)) = (\<lambda>i. find_key serverId i s)(serverId v \<mapsto> v)" for v s
    by (auto simp: fun_eq_iff insertOp_def find_key_append find_remove_key split: option.splits)
  show "(\<lambda>i. find_key serverId i (remove_key serverId k s)) = (\<lambda>i. find_key serverId i s)(k := None)" for k s
    by (auto simp: fun_eq_iff find_remove_key)
  show "unique_keys serverId s \<Longrightarrow> unique_keys serverId (insertOp v s)" for v s
    by (auto simp: insertOp_def unique_snoc set_remove_key)
  show "unique_keys serverId s \<Longrightarrow> unique_keys serverId (remove_key serverId k s)" for k s ..
qed

subsection \<open>Histories\<close>

text \<open>
  Mutations, their answers, changes of the cache (refetches, WebSocket updates) and timers, in any order. What the
  subscription does when a saved or a bulk request invalidates the list is a change of the cache of its own.
\<close>

inductive action_step :: "'c QueryClient \<Rightarrow> 'c ActionState \<Rightarrow> 'c ActionState \<Rightarrow> bool" for qc where
  mutate: "action_step qc st (mutate_server t i reason now st)"
| success: "action_step qc st (mutation_success qc t i s now st)"
| failure: "action_step qc st (mutation_error t i msg now st)"
| cache_updated: "action_step qc st (checkPendingOps qc now (st\<lparr>cache := c\<rparr>))"
| timeout: "(i, due) \<in> set (opTimers st) \<Longrightarrow> due \<le> now \<Longrightarrow> action_step qc st (removePendingOp now i st)"
| saved: "action_step qc st (saved_success qc st)"
| bulk: "action_step qc st (bulk_success qc data st)"
| bulk_failed: "action_step qc st (bulk_error msg st)"

definition initialActions :: "'c \<Rightarrow> 'c ActionState" where
  "initialActions c = \<lparr>pendingOps = [], opTimers = [], cache = c, toastStore = initialToasts, requests = []\<rparr>"

definition timed_ids :: "PendingOperation list \<Rightarrow> string list" where
  "timed_ids ops = map serverId (filter (\<lambda>op. op_type op \<noteq> Delete) ops)"

definition op_inv :: "'c ActionState \<Rightarrow> bool" where
  "op_inv st \<longleftrightarrow>
    unique_keys serverId (pendingOps st) \<and>
    (\<forall>op \<in> set (pendingOps st). targetStatus op = op_target (op_type op)) \<and>
    map fst (opTimers st) = timed_ids (pendingOps st)"

lemma op_inv_initial: "op_inv (initialActions c)"
  by (simp add: op_inv_def initialActions_def unique_keys_def timed_ids_def)

lemma op_inv_frame [simp]:
  "op_inv (st\<lparr>cache := c\<rparr>) = op_inv st" "op_inv (st\<lparr>requests := r\<rparr>) = op_inv st"
  "op_inv (st\<lparr>toastStore := ts\<rparr>) = op_inv st"
  by (simp_all add: op_inv_def)

lemma op_inv_set:
  "op_inv (setPendingOps now ops st) \<longleftrightarrow>
    unique_keys serverId ops \<and> (\<forall>op \<in> set ops. targetStatus op = op_target (op_type op))"
  by (simp add: op_inv_def setPendingOps_def armTimers_def timed_ids_def)

lemma op_invD:
  assumes "op_inv st"
  shows "unique_keys serverId (pendingOps st)"
    and "op \<in> set (pendingOps st) \<Longrightarrow> targetStatus op = op_target (op_type op)"
    and "map fst (opTimers st) = timed_ids (pendingOps st)"
  using assms by (simp_all add: op_inv_def)

lemma op_inv_add: "op_inv st \<Longrightarrow> op_inv (addPendingOp now i t (op_target t) st)"
  unfolding addPendingOp_def op_inv_set insertOp_def
  by (auto simp: unique_snoc set_remove_key dest: op_invD)

lemma op_inv_remove: "op_inv st \<Longrightarrow> op_inv (removePendingOp now i st)"
  unfolding removePendingOp_def op_inv_set by (auto simp: set_remove_key dest: op_invD)

lemma unique_filter: "unique_keys key xs \<Longrightarrow> unique_keys key (filter P xs)"
  by (simp add: unique_keys_def distinct_map_filter)

lemma op_inv_check: "op_inv st \<Longrightarrow> op_inv (checkPendingOps qc now st)"
  by (auto simp: checkPendingOps_def Let_def op_inv_set unique_filter dest: op_invD split: option.splits)

lemma op_inv_step: "op_inv st \<Longrightarrow> action_step qc st st' \<Longrightarrow> op_inv st'"
  by (erule action_step.cases)
    (auto simp: mutate_server_def mutation_success_def mutation_error_def saved_success_def bulk_success_def
      bulk_error_def Let_def op_inv_add op_inv_remove op_inv_check)

interpretation action_sys: transition_system "\<lambda>st. \<exists>c. st = initialActions c" "action_step qc" op_inv for qc
proof
  show "\<exists>c. st = initialActions c \<Longrightarrow> op_inv st" for st :: "'c ActionState"
    by (elim exE) (simp add: op_inv_initial)
  show "op_inv st \<Longrightarrow> action_step qc st st' \<Longrightarrow> op_inv st'" for st st' by (rule op_inv_step)
qed

lemmas actions_reachable = action_sys.reachable_inv[OF exI, OF refl]

lemma pending_iff: "isOperationPending i None st \<longleftrightarrow> find_key serverId i (pendingOps st) \<noteq> None"
  by (auto simp: isOperationPending_def list_ex_iff find_key_None_iff)

lemma pending_after_remove:
  "isOperationPending j None (removePendingOp now i st) \<longleftrightarrow> j \<noteq> i \<and> isOperationPending j None st"
  by (auto simp: pending_iff removePendingOp_def setPendingOps_def find_remove_key)

definition demo_servers :: "Server list" where
  "demo_servers =
    [\<lparr>server_id = ''a'', status = ''stopped'', server_user_id = Some ''u1'', server_username = None\<rparr>,
     \<lparr>server_id = ''b'', status = ''running'', server_user_id = Some ''u2'', server_username = Some ''eve''\<rparr>]"

definition demo_actions :: "(Server list option \<times> string list list) ActionState" where
  "demo_actions = mutate_server Start ''a'' None 1000 (initialActions (Some demo_servers, []))"

lemma demo_actions_steps: "(action_step list_cache)\<^sup>*\<^sup>* (initialActions (Some demo_servers, [])) demo_actions"
  unfolding demo_actions_def by (intro r_into_rtranclp action_step.mutate)

lemma demo_actions_pending:
  "pendingOps demo_actions = [\<lparr>serverId = ''a'', op_type = Start, targetStatus = TargetRunning\<rparr>]"
  by (simp add: demo_actions_def initialActions_def action_defs Let_def)

text \<open>
  C7. No button is busy forever: in every history each server has at most one pending operation, every
  operation other than a deletion has a timer of its own, and when that timer fires the operation is
  gone while those of the other servers stay.
\<close>

theorem pending_operations_time_out:
  assumes "(action_step qc)\<^sup>*\<^sup>* (initialActions c) st"
  shows "distinct (map serverId (pendingOps st)) \<and>
    (\<forall>op \<in> set (pendingOps st). op_type op \<noteq> Delete \<longrightarrow>
      (\<exists>due. (serverId op, due) \<in> set (opTimers st) \<and>
        (\<forall>now j. due \<le> now \<longrightarrow> action_step qc st (removePendingOp now (serverId op) st) \<and>
          (isOperationPending j None (removePendingOp now (serverId op) st) \<longleftrightarrow>
            j \<noteq> serverId op \<and> isOperationPending j None st))))"
proof -
  have inv: "op_inv st" using actions_reachable[OF assms] .
  have timer: "\<exists>due. (serverId op, due) \<in> set (opTimers st)"
    if "op \<in> set (pendingOps st)" "op_type op \<noteq> Delete" for op
  proof -
    have "serverId op \<in> set (timed_ids (pendingOps st))" using that by (simp add: timed_ids_def)
    also have "\<dots> = set (map fst (opTimers st))" using inv by (simp add: op_inv_def)
    finally show ?thesis by auto
  qed
  moreover have "distinct (map serverId (pendingOps st))" using inv by (simp add: op_inv_def unique_keys_def)
  ultimately show ?thesis using action_step.timeout[of _ _ st _ qc] pending_after_remove by metis
qed

theorem pending_operations_time_out_witness:
  "\<exists>due. (''a'', due) \<in> set (opTimers demo_actions) \<and>
     \<not> isOperationPending ''a'' None (removePendingOp due ''a'' demo_actions)"
  using pending_operations_time_out[OF demo_actions_steps] by (auto simp: demo_actions_pending)

lemma filter_same_length: "length (filter P xs) = length xs \<Longrightarrow> filter P xs = xs"
  by (metis filter_id_conv length_filter_less less_irrefl_nat)

lemma check_pending:
  "getQueryData qc (cache st) = Some ss \<Longrightarrow>
    pendingOps (checkPendingOps qc now st) = filter (still_pending ss) (pendingOps st)"
  by (auto simp: checkPendingOps_def Let_def setPendingOps_def dest: filter_same_length)

lemma check_keeps [simp]:
  "cache (checkPendingOps qc now st) = cache st" "toastStore (checkPendingOps qc now st) = toastStore st"
  by (simp_all add: checkPendingOps_def setPendingOps_def Let_def split: option.splits)

text \<open>What a mutation writes into the list concerns its own server only, so the others are judged as before.\<close>

lemma find_remove_other: "k' \<noteq> k \<Longrightarrow> find_key key k' (remove_key key k xs) = find_key key k' xs"
  by (simp add: find_remove_key)

lemma still_pending_other:
  assumes "serverId op \<noteq> i"
  shows "still_pending (if t = Delete then remove_key server_id i ss else map_key server_id i (\<lambda>x. x\<lparr>status := s\<rparr>) ss) op =
    still_pending ss op"
proof -
  have m: "find_key server_id (serverId op) (map_key server_id i (\<lambda>x. x\<lparr>status := s\<rparr>) ss) = find_key server_id (serverId op) ss"
    by (subst find_map_key) (use assms in \<open>auto split: option.splits\<close>)
  have x: "list_ex (\<lambda>x. server_id x = serverId op) (map_key server_id i (\<lambda>x. x\<lparr>status := s\<rparr>) ss) = list_ex (\<lambda>x. server_id x = serverId op) ss"
    by (induction ss) (auto simp: map_key_def)
  have r: "list_ex (\<lambda>x. server_id x = serverId op) (remove_key server_id i ss) = list_ex (\<lambda>x. server_id x = serverId op) ss"
    using assms by (auto simp: list_ex_iff set_remove_key)
  show ?thesis by (simp add: still_pending_def m x r find_remove_other [OF assms])
qed

text \<open>
  C8. An answered mutation, while the list of servers is cached: on success the cached list shows the new status of its
  server (or no longer has it, after a deletion) and every other server as before; the pending mark of its server is
  gone, and of the other marks exactly those stay whose operation the list does not show as done. On failure the
  cache and the marks of all other servers stay, its own is gone and exactly one error toast is shown.
\<close>

theorem mutation_settles:
  assumes laws: "query_client_laws qc" and ss: "getQueryData qc (cache st) = Some ss"
  shows "getQueryData qc (cache (mutation_success qc t i s now st)) =
      Some (if t = Delete then remove_key server_id i ss else map_key server_id i (\<lambda>x. x\<lparr>status := s\<rparr>) ss) \<and>
    pendingOps (mutation_success qc t i s now st) =
      filter (\<lambda>op. serverId op \<noteq> i \<and> still_pending ss op) (pendingOps st) \<and>
    cache (mutation_error t i msg now st) = cache st \<and>
    (isOperationPending j None (mutation_error t i msg now st) \<longleftrightarrow> j \<noteq> i \<and> isOperationPending j None st) \<and>
    (\<exists>toast. toasts (toastStore (mutation_error t i msg now st)) = toasts (toastStore st) @ [toast] \<and>
      toast_type toast = TError \<and> toast_message toast = Some msg)"
proof -
  let ?ss = "if t = Delete then remove_key server_id i ss else map_key server_id i (\<lambda>x. x\<lparr>status := s\<rparr>) ss"
  let ?c = "setQueryData qc (updated_servers t i s) (cache st)"
  let ?st1 = "checkPendingOps qc now (st\<lparr>cache := ?c\<rparr>)"
  let ?st2 = "removePendingOp now i ?st1"
  have written: "getQueryData qc ?c = Some ?ss" using ss by (simp add: query_clientD [OF laws] updated_servers_def)
  have kept: "cache ?st2 = ?c" by (simp add: removePendingOp_def setPendingOps_def)
  have inv: "getQueryData qc (invalidate_server_keys qc ?c) = Some ?ss"
    using written by (simp add: invalidate_server_keys_def query_clientD [OF laws])
  have success: "mutation_success qc t i s now st = checkPendingOps qc now (?st2\<lparr>cache := invalidate_server_keys qc ?c\<rparr>)"
    by (simp add: mutation_success_def kept Let_def)
  have "pendingOps ?st1 = filter (still_pending ?ss) (pendingOps st)"
    using check_pending [of qc "st\<lparr>cache := ?c\<rparr>" ?ss now] written by simp
  then have "pendingOps ?st2 = filter (\<lambda>op. serverId op \<noteq> i) (filter (still_pending ?ss) (pendingOps st))"
    by (simp add: removePendingOp_def setPendingOps_def remove_key_def)
  moreover have "pendingOps (mutation_success qc t i s now st) = filter (still_pending ?ss) (pendingOps ?st2)"
    unfolding success using check_pending [of qc "?st2\<lparr>cache := invalidate_server_keys qc ?c\<rparr>" ?ss now] inv by simp
  ultimately have "pendingOps (mutation_success qc t i s now st) =
      filter (\<lambda>op. serverId op \<noteq> i \<and> still_pending ?ss op) (pendingOps st)"
    by (simp add: conj_commute conj_left_commute)
  moreover have "(\<lambda>op. serverId op \<noteq> i \<and> still_pending ?ss op) = (\<lambda>op. serverId op \<noteq> i \<and> still_pending ss op)"
    by (rule ext) (rule conj_cong [OF refl still_pending_other])
  moreover have "getQueryData qc (cache (mutation_success qc t i s now st)) = Some ?ss" unfolding success using inv by simp
  moreover have "isOperationPending j None (mutation_error t i msg now st) = isOperationPending j None (removePendingOp now i st)"
    by (simp add: mutation_error_def Let_def isOperationPending_def)
  then have "isOperationPending j None (mutation_error t i msg now st) \<longleftrightarrow> j \<noteq> i \<and> isOperationPending j None st"
    by (simp add: pending_after_remove)
  ultimately show ?thesis
    by (simp add: mutation_error_def Let_def removePendingOp_def setPendingOps_def addToast_def mkToast_def
        ToastOptions.defs)
qed

text \<open>
  A restart of the running server b is pending when the start of server a is answered: b's mark goes too, although its restart
  has not been answered.
\<close>

theorem mutation_settles_witness:
  "pendingOps (mutation_success list_cache Start ''a'' ''running'' 2000 (mutate_server Restart ''b'' None 1500 demo_actions)) = []"
proof -
  let ?st = "mutate_server Restart ''b'' None 1500 demo_actions"
  have "getQueryData list_cache (cache ?st) = Some demo_servers"
    by (simp add: demo_actions_def initialActions_def action_defs list_cache_def Let_def)
  from mutation_settles [OF list_cache_laws this, of Start "''a''" "''running''" 2000] show ?thesis
    by (simp add: mutate_server_def addPendingOp_def setPendingOps_def insertOp_def remove_key_def demo_actions_pending
        still_pending_def find_key_def demo_servers_def Let_def)
qed

text \<open>So the button of a server being restarted comes back to life as soon as any other operation succeeds.\<close>

theorem restart_mark_lost:
  assumes "query_client_laws qc" and "getQueryData qc (cache st) = Some ss" and "find_key server_id j ss = Some x"
    and "status x = ''running''" and "i \<noteq> j"
  shows "\<not> isOperationPending j None (mutation_success qc t i s now (mutate_server Restart j r now0 st))"
proof -
  let ?st = "mutate_server Restart j r now0 st"
  have p: "pendingOps ?st = remove_key serverId j (pendingOps st) @ [\<lparr>serverId = j, op_type = Restart, targetStatus = TargetRunning\<rparr>]"
    and c: "cache ?st = cache st"
    by (simp_all add: mutate_server_def addPendingOp_def setPendingOps_def insertOp_def Let_def)
  from mutation_settles [OF assms(1), of ?st ss t i s now j] assms c
  have "pendingOps (mutation_success qc t i s now ?st) = filter (\<lambda>op. serverId op \<noteq> i \<and> still_pending ss op) (pendingOps ?st)"
    by simp
  then show ?thesis
    using assms(3,4) by (auto simp: isOperationPending_def p list_ex_iff set_remove_key still_pending_def)
qed

lemma still_pending_iff:
  assumes "unique_keys server_id ss" and "targetStatus op = op_target (op_type op)"
  shows "still_pending ss op \<longleftrightarrow> (\<exists>s \<in> set ss. server_id s = serverId op \<and>
    (op_type op = Delete \<or> status s \<noteq> target_name (op_target (op_type op))))"
proof (cases "find_key server_id (serverId op) ss")
  case None
  then have "\<forall>s \<in> set ss. server_id s \<noteq> serverId op" by (metis find_key_None_iff imageI)
  with None assms(2) show ?thesis by (auto simp: still_pending_def list_ex_iff)
next
  case (Some s)
  then have s: "s \<in> set ss" "server_id s = serverId op" by (auto dest: find_key_SomeD)
  have "x = s" if "x \<in> set ss" "server_id x = serverId op" for x
    using find_key_unique[OF assms(1) that(1)] that(2) Some by simp
  with s have rhs: "(\<exists>x \<in> set ss. server_id x = serverId op \<and>
      (op_type op = Delete \<or> status x \<noteq> target_name (op_target (op_type op)))) \<longleftrightarrow>
    op_type op = Delete \<or> status s \<noteq> target_name (op_target (op_type op))" by blast
  have "list_ex (\<lambda>x. server_id x = serverId op) ss" using s by (auto simp: list_ex_iff)
  then show ?thesis unfolding rhs using Some assms(2)
    by (cases "op_type op") (simp_all add: still_pending_def)
qed

text \<open>
  What a change of the cached list clears: an operation stays pending exactly when its server is still
  listed and, unless it is a deletion, has not reached the status the operation aims at. A restart
  therefore stops being pending at the first update that reports the server as running, also one that
  was sent before the restart.
\<close>

theorem cache_update_clears:
  assumes "(action_step qc)\<^sup>*\<^sup>* (initialActions c) st" and "getQueryData qc (cache st) = Some ss"
    and "unique_keys server_id ss"
  shows "op \<in> set (pendingOps (checkPendingOps qc now st)) \<longleftrightarrow>
    op \<in> set (pendingOps st) \<and> (\<exists>s \<in> set ss. server_id s = serverId op \<and>
      (op_type op = Delete \<or> status s \<noteq> target_name (op_target (op_type op))))"
proof -
  have "op_inv st" using actions_reachable[OF assms(1)] .
  then have "op \<in> set (pendingOps st) \<Longrightarrow> targetStatus op = op_target (op_type op)"
    by (simp add: op_inv_def)
  with still_pending_iff[OF assms(3), of op] check_pending[OF assms(2), of now] show ?thesis by auto
qed

theorem cache_update_clears_witness:
  "\<lparr>serverId = ''a'', op_type = Start, targetStatus = TargetRunning\<rparr>
    \<in> set (pendingOps (checkPendingOps list_cache 5 demo_actions))"
proof -
  have c: "getQueryData list_cache (cache demo_actions) = Some demo_servers"
    by (simp add: demo_actions_def initialActions_def action_defs list_cache_def Let_def)
  have "unique_keys server_id demo_servers" by (simp add: unique_keys_def demo_servers_def)
  note stays = cache_update_clears[OF demo_actions_steps c this]
  show ?thesis unfolding stays by (simp add: demo_actions_pending demo_servers_def)
qed

subsection \<open>Reasons for acting on the servers of others\<close>

record PromptOptions =
  opt_title :: "string option"
  opt_description :: "string option"
  opt_actionLabel :: "string option"
  opt_cancelLabel :: "string option"

record PromptState = PromptOptions +
  dlg_isOpen :: bool
  dlg_resolve :: "nat option"

text \<open>
  \<open>waiting\<close> holds, per prompt, the continuation \<^verbatim>\<open>runWithReason\<close> attached to its promise: the operation
  and the server. \<open>mutations\<close> is the log of \<^verbatim>\<open>mutateFn\<close> calls.
\<close>

record ReasonState =
  prompt_state :: PromptState
  reason :: string
  nextPrompt :: nat
  waiting :: "nat \<Rightarrow> (OpType \<times> Server) option"
  mutations :: "(OpType \<times> Server \<times> string option) list"

definition initialReason :: ReasonState where
  "initialReason =
    \<lparr>prompt_state = \<lparr>opt_title = Some ''Reason Required'', opt_description = None, opt_actionLabel = None,
        opt_cancelLabel = None, dlg_isOpen = False, dlg_resolve = None\<rparr>,
     reason = [], nextPrompt = 0, waiting = (\<lambda>_. None), mutations = []\<rparr>"

definition prompt :: "PromptOptions \<Rightarrow> ReasonState \<Rightarrow> nat \<times> ReasonState" where
  "prompt options st =
    (nextPrompt st, st\<lparr>reason := [],
       prompt_state := PromptOptions.extend
         (options\<lparr>opt_title := Some (case opt_title options of None \<Rightarrow> ''Reason Required'' | Some t \<Rightarrow> t)\<rparr>)
         \<lparr>dlg_isOpen = True, dlg_resolve = Some (nextPrompt st)\<rparr>,
       nextPrompt := Suc (nextPrompt st)\<rparr>)"

definition isOwnServer :: "User option \<Rightarrow> Server \<Rightarrow> bool" where
  "isOwnServer usr server = (case usr of None \<Rightarrow> False | Some u \<Rightarrow> server_user_id server = Some (user_id u))"

definition reason_options :: "Server \<Rightarrow> string \<Rightarrow> PromptOptions" where
  "reason_options server actionLabel =
    \<lparr>opt_title = None,
     opt_description = Some (''You are about to '' @ actionLabel @ '' a server owned by '' @
       (case server_username server of Some (c # cs) \<Rightarrow> c # cs | _ \<Rightarrow> ''another user'') @
       ''. Please provide a reason.''),
     opt_actionLabel = Some actionLabel, opt_cancelLabel = None\<rparr>"

definition runWithReason :: "User option \<Rightarrow> OpType \<Rightarrow> Server \<Rightarrow> ReasonState \<Rightarrow> ReasonState" where
  "runWithReason usr t server st =
    (if isOwnServer usr server then st\<lparr>mutations := mutations st @ [(t, server, None)]\<rparr>
     else let (p, st') = prompt (reason_options server (op_name t)) st
          in st'\<lparr>waiting := (waiting st')(p := Some (t, server))\<rparr>)"

text \<open>
  \<^verbatim>\<open>promptAccessReason\<close> answers at once for one's own server and otherwise opens the dialog and returns its
  prompt.
\<close>

definition promptAccessReason ::
  "User option \<Rightarrow> Server \<Rightarrow> string \<Rightarrow> ReasonState \<Rightarrow> (string + nat) \<times> ReasonState" where
  "promptAccessReason usr server actionLabel st =
    (if isOwnServer usr server then (Inl [], st)
     else let (p, st') = prompt (reason_options server actionLabel) st in (Inr p, st'))"

text \<open>\<^verbatim>\<open>runAsyncWithReason\<close>: as above, and whether the operation was sent once the prompt is settled.\<close>

definition asyncSent :: "User option \<Rightarrow> Server \<Rightarrow> string option \<Rightarrow> bool" where
  "asyncSent usr server val =
    (if isOwnServer usr server then True else case val of Some (c # cs) \<Rightarrow> True | _ \<Rightarrow> False)"

text \<open>The continuation of a settled prompt: an empty or missing reason gives up the action.\<close>

definition settlePrompt :: "nat \<Rightarrow> string option \<Rightarrow> ReasonState \<Rightarrow> ReasonState" where
  "settlePrompt p val st =
    (case waiting st p of
       None \<Rightarrow> st
     | Some (t, server) \<Rightarrow>
         (let st' = st\<lparr>waiting := (waiting st)(p := None)\<rparr>
          in case val of
               Some (c # cs) \<Rightarrow> st'\<lparr>mutations := mutations st' @ [(t, server, Some (c # cs))]\<rparr>
             | _ \<Rightarrow> st'))"

definition handleClose :: "string option \<Rightarrow> ReasonState \<Rightarrow> ReasonState" where
  "handleClose val st =
    (let st1 = (case dlg_resolve (prompt_state st) of None \<Rightarrow> st | Some p \<Rightarrow> settlePrompt p val st)
     in st1\<lparr>prompt_state := (prompt_state st1)\<lparr>dlg_isOpen := False, dlg_resolve := None\<rparr>, reason := []\<rparr>)"

definition setReason :: "string \<Rightarrow> ReasonState \<Rightarrow> ReasonState" where
  "setReason r st = st\<lparr>reason := r\<rparr>"

text \<open>The confirm button is disabled for a blank reason; the keyboard shortcut tests for one.\<close>

definition confirmReason :: "ReasonState \<Rightarrow> ReasonState" where
  "confirmReason st = (if js_trim (reason st) \<noteq> [] then handleClose (Some (js_trim (reason st))) st else st)"

inductive reason_step :: "User option \<Rightarrow> ReasonState \<Rightarrow> ReasonState \<Rightarrow> bool" for usr where
  "reason_step usr st (runWithReason usr t server st)"
| "reason_step usr st (setReason r st)"
| "reason_step usr st (confirmReason st)"
| "reason_step usr st (handleClose None st)"

definition justified :: "User option \<Rightarrow> OpType \<times> Server \<times> string option \<Rightarrow> bool" where
  "justified usr m = (case m of (t, server, r) \<Rightarrow>
    if isOwnServer usr server then r = None else \<exists>x. r = Some (js_trim x) \<and> js_trim x \<noteq> [])"

definition reason_inv :: "User option \<Rightarrow> ReasonState \<Rightarrow> bool" where
  "reason_inv usr st \<longleftrightarrow> list_all (justified usr) (mutations st) \<and>
    (\<forall>p t server. waiting st p = Some (t, server) \<longrightarrow> p < nextPrompt st \<and> \<not> isOwnServer usr server) \<and>
    (\<forall>p. dlg_resolve (prompt_state st) = Some p \<longrightarrow> p < nextPrompt st)"

lemma reason_inv_close:
  assumes "reason_inv usr st" and "val = None \<or> (\<exists>x. val = Some (js_trim x))"
  shows "reason_inv usr (handleClose val st)"
proof (cases "dlg_resolve (prompt_state st)")
  case (Some p)
  show ?thesis
  proof (cases "waiting st p")
    case None
    with Some assms(1) show ?thesis by (simp add: handleClose_def settlePrompt_def reason_inv_def)
  next
    case (Some a)
    moreover obtain t server where "a = (t, server)" by (cases a)
    moreover have "\<not> isOwnServer usr server" using assms(1) calculation by (auto simp: reason_inv_def)
    ultimately show ?thesis using \<open>dlg_resolve (prompt_state st) = Some p\<close> assms
      by (auto simp: handleClose_def settlePrompt_def reason_inv_def justified_def Let_def
          split: option.splits list.splits)
  qed
qed (use assms in \<open>simp add: handleClose_def reason_inv_def\<close>)

lemma reason_inv_run: "reason_inv usr st \<Longrightarrow> reason_inv usr (runWithReason usr t server st)"
  by (auto simp: reason_inv_def runWithReason_def prompt_def justified_def PromptOptions.defs less_Suc_eq
      split: if_splits)

lemma reason_inv_confirm: "reason_inv usr st \<Longrightarrow> reason_inv usr (confirmReason st)"
  by (auto simp: confirmReason_def intro: reason_inv_close)

lemma reason_inv_set: "reason_inv usr st \<Longrightarrow> reason_inv usr (setReason r st)"
  by (simp add: reason_inv_def setReason_def)

interpretation reason_sys: transition_system "\<lambda>st. st = initialReason" "reason_step usr" "reason_inv usr" for usr
proof
  show "st = initialReason \<Longrightarrow> reason_inv usr st" for st by (simp add: reason_inv_def initialReason_def)
  show "reason_inv usr st \<Longrightarrow> reason_step usr st st' \<Longrightarrow> reason_inv usr st'" for st st'
    by (erule reason_step.cases)
      (auto simp: reason_inv_run reason_inv_confirm reason_inv_set intro: reason_inv_close)
qed

definition demo_reason :: ReasonState where
  "demo_reason = confirmReason (setReason '' broken  '' (runWithReason None Stop (demo_servers ! 1) initialReason))"

text \<open>
  C9. Accountability: whatever the user does with the dialog, an operation on someone else's server is only
  ever sent with a reason that is not blank, and an operation on one's own server with none.
\<close>

theorem foreign_operations_have_reason:
  assumes "(reason_step usr)\<^sup>*\<^sup>* initialReason st" and "(t, server, r) \<in> set (mutations st)"
  shows "if isOwnServer usr server then r = None else \<exists>x. r = Some (js_trim x) \<and> js_trim x \<noteq> []"
  using reason_sys.reachable_inv[OF refl assms(1)] assms(2)
  by (auto simp: reason_inv_def list_all_iff justified_def)

lemma demo_reason_steps: "(reason_step None)\<^sup>*\<^sup>* initialReason demo_reason"
  unfolding demo_reason_def
  by (rule rtranclp_trans[OF r_into_rtranclp rtranclp_trans[OF r_into_rtranclp r_into_rtranclp]])
    (rule reason_step.intros)+

theorem foreign_operations_have_reason_witness:
  "mutations demo_reason = [(Stop, demo_servers ! 1, Some ''broken'')] \<and> (\<exists>x. ''broken'' = js_trim x)"
proof -
  have "mutations demo_reason = [(Stop, demo_servers ! 1, Some ''broken'')]"
    by (simp add: demo_reason_def confirmReason_def setReason_def runWithReason_def isOwnServer_def prompt_def
        handleClose_def settlePrompt_def PromptOptions.defs initialReason_def js_trim_def js_space_def)
  with foreign_operations_have_reason[OF demo_reason_steps, of Stop "demo_servers ! 1" "Some ''broken''"]
  show ?thesis by (auto simp: isOwnServer_def)
qed

end
