(* ===== verification/Query_Hooks.thy ===== *)
theory Query_Hooks
  imports Server_Actions
begin

text \<open>
  The data hooks for workspaces, plans, tokens, volumes and notifications (\<^verbatim>\<open>frontend/src/hooks\<close>). A
  query is its key, the request it sends and when it is enabled. A mutation is the request it sends, the
  query keys its success invalidates, and the toasts of its two outcomes; \<open>mutation_ok\<close> and
  \<open>mutation_failed\<close> are the callbacks. A key is a list of JSON values.

  The query library is a parameter again: \<open>matches k q\<close> says that invalidating \<open>k\<close> refreshes the query
  with key \<open>q\<close>; its documentation promises that for every key \<open>k\<close> that \<open>q\<close> begins with.
\<close>

type_synonym key = "json list"

record Query =
  queryKey :: key
  queryRequest :: FetchRequest
  queryEnabled :: bool

record Mutation =
  mutationFn :: FetchRequest
  invalidated :: "key list"
  successToast :: "(string \<times> string) option"
  errorTitle :: "string option"

record HookState =
  hook_toasts :: ToastStore
  hook_invalidated :: "key list"

datatype Thrown = ThrownError string | ThrownString string | ThrownOther

definition getErrorMessage :: "Thrown \<Rightarrow> string" where
  "getErrorMessage e =
    (case e of ThrownError m \<Rightarrow> m | ThrownString s \<Rightarrow> s | ThrownOther \<Rightarrow> ''An unexpected error occurred'')"

definition mutation_ok :: "Mutation \<Rightarrow> HookState \<Rightarrow> HookState" where
  "mutation_ok m st = st\<lparr>hook_invalidated := hook_invalidated st @ invalidated m,
     hook_toasts := (case successToast m of None \<Rightarrow> hook_toasts st
       | Some (t, msg) \<Rightarrow> snd (toast_success t (Some msg) (hook_toasts st)))\<rparr>"

definition mutation_failed :: "Mutation \<Rightarrow> Thrown \<Rightarrow> HookState \<Rightarrow> HookState" where
  "mutation_failed m e st = st\<lparr>hook_toasts := (case errorTitle m of None \<Rightarrow> hook_toasts st
     | Some t \<Rightarrow> snd (toast_error t (Some (getErrorMessage e)) (hook_toasts st)))\<rparr>"

definition prefix_matching :: "(key \<Rightarrow> key \<Rightarrow> bool) \<Rightarrow> bool" where
  "prefix_matching matches \<longleftrightarrow> (\<forall>k q. prefix k q \<longrightarrow> matches k q)"

definition refreshes_query :: "(key \<Rightarrow> key \<Rightarrow> bool) \<Rightarrow> Mutation \<Rightarrow> Query \<Rightarrow> bool" where
  "refreshes_query matches m q = list_ex (\<lambda>k. matches k (queryKey q)) (invalidated m)"

text \<open>Search parameters: each is set only when it is truthy.\<close>

definition num_param :: "string \<Rightarrow> nat option \<Rightarrow> (string \<times> string) list" where
  "num_param k v = (case v of None \<Rightarrow> [] | Some n \<Rightarrow> if n = 0 then [] else [(k, show_nat n)])"

definition str_param :: "string \<Rightarrow> string option \<Rightarrow> (string \<times> string) list" where
  "str_param k v = (case v of None \<Rightarrow> [] | Some s \<Rightarrow> if s = [] then [] else [(k, s)])"

definition bool_param :: "string \<Rightarrow> bool option \<Rightarrow> (string \<times> string) list" where
  "bool_param k v = (case v of None \<Rightarrow> [] | Some b \<Rightarrow> [(k, if b then ''true'' else ''false'')])"

definition num_json :: "string \<Rightarrow> nat option \<Rightarrow> (string \<times> json) list" where
  "num_json k v = (case v of None \<Rightarrow> [] | Some n \<Rightarrow> [(k, JNum (int n) 0)])"

definition str_json :: "string \<Rightarrow> string option \<Rightarrow> (string \<times> json) list" where
  "str_json k v = (case v of None \<Rightarrow> [] | Some s \<Rightarrow> [(k, JStr s)])"

definition bool_json :: "string \<Rightarrow> bool option \<Rightarrow> (string \<times> json) list" where
  "bool_json k v = (case v of None \<Rightarrow> [] | Some b \<Rightarrow> [(k, JBool b)])"

subsection \<open>Workspaces\<close>

definition ws_path :: "string \<Rightarrow> string" where
  "ws_path w = ''/workspaces/'' @ w"

definition useWorkspaces :: Query where
  "useWorkspaces = \<lparr>queryKey = [JStr ''workspaces''], queryRequest = api_get ''/workspaces/'', queryEnabled = True\<rparr>"

definition useWorkspace :: "string \<Rightarrow> Query" where
  "useWorkspace w =
    \<lparr>queryKey = [JStr ''workspace'', JStr w], queryRequest = api_get (ws_path w), queryEnabled = (w \<noteq> [])\<rparr>"

definition workspace_mutation :: "FetchRequest \<Rightarrow> key list \<Rightarrow> string \<Rightarrow> Mutation" where
  "workspace_mutation req ks title =
    \<lparr>mutationFn = req, invalidated = ks, successToast = None, errorTitle = Some title\<rparr>"

abbreviation list_key :: key where
  "list_key \<equiv> [JStr ''workspaces'']"

abbreviation detail_key :: "string \<Rightarrow> key" where
  "detail_key w \<equiv> [JStr ''workspace'', JStr w]"

definition useCreateWorkspace :: "json \<Rightarrow> Mutation" where
  "useCreateWorkspace data = workspace_mutation (api_post ''/workspaces/'' data) [list_key]
     ''Failed to create workspace''"

definition useUpdateWorkspace :: "string \<Rightarrow> json \<Rightarrow> Mutation" where
  "useUpdateWorkspace w data = workspace_mutation (api_put (ws_path w) data) [list_key, detail_key w]
     ''Failed to update workspace''"

definition useDeleteWorkspace :: "string \<Rightarrow> Mutation" where
  "useDeleteWorkspace w = workspace_mutation (api_delete (ws_path w) None) [list_key]
     ''Failed to delete workspace''"

definition useAddWorkspaceMember :: "string \<Rightarrow> string \<Rightarrow> string \<Rightarrow> Mutation" where
  "useAddWorkspaceMember w u r = workspace_mutation
     (api_post (ws_path w @ ''/members'') (JObj [(''user_id'', JStr u), (''role'', JStr r)]))
     [detail_key w] ''Failed to add member''"

definition useRemoveWorkspaceMember :: "string \<Rightarrow> string \<Rightarrow> Mutation" where
  "useRemoveWorkspaceMember w u = workspace_mutation (api_delete (ws_path w @ ''/members/'' @ u) None)
     [detail_key w] ''Failed to remove member''"

definition useUpdateMemberRole :: "string \<Rightarrow> string \<Rightarrow> string \<Rightarrow> Mutation" where
  "useUpdateMemberRole w u r = workspace_mutation
     (api_put (ws_path w @ ''/members/'' @ u) (JObj [(''role'', JStr r)]))
     [detail_key w] ''Failed to update member role''"

definition useAddWorkspaceVolume :: "string \<Rightarrow> string \<Rightarrow> string \<Rightarrow> Mutation" where
  "useAddWorkspaceVolume w v r = workspace_mutation
     (api_post (ws_path w @ ''/volumes'') (JObj [(''volume_id'', JStr v), (''role'', JStr r)]))
     [detail_key w, list_key] ''Failed to add volume''"

definition useRemoveWorkspaceVolume :: "string \<Rightarrow> string \<Rightarrow> Mutation" where
  "useRemoveWorkspaceVolume w v = workspace_mutation (api_delete (ws_path w @ ''/volumes/'' @ v) None)
     [detail_key w, list_key] ''Failed to remove volume''"

definition useUpdateVolumeRole :: "string \<Rightarrow> string \<Rightarrow> string \<Rightarrow> Mutation" where
  "useUpdateVolumeRole w v r = workspace_mutation
     (api_put (ws_path w @ ''/volumes/'' @ v) (JObj [(''role'', JStr r)]))
     [detail_key w] ''Failed to update volume access''"

definition useInviteWorkspaceMember :: "string \<Rightarrow> string \<Rightarrow> string \<Rightarrow> Mutation" where
  "useInviteWorkspaceMember w u r = workspace_mutation
     (api_post (ws_path w @ ''/invitations'') (JObj [(''user_id'', JStr u), (''role'', JStr r)]))
     [detail_key w] ''Failed to send invitation''"

definition useAcceptInvitation :: "string \<Rightarrow> string \<Rightarrow> Mutation" where
  "useAcceptInvitation w i = workspace_mutation
     (api_post (ws_path w @ ''/invitations/'' @ i @ ''/accept'') (JObj []))
     [detail_key w, list_key] ''Failed to accept invitation''"

definition useRejectInvitation :: "string \<Rightarrow> string \<Rightarrow> Mutation" where
  "useRejectInvitation w i = workspace_mutation
     (api_post (ws_path w @ ''/invitations/'' @ i @ ''/reject'') (JObj []))
     [detail_key w, list_key] ''Failed to decline invitation''"

definition useCancelInvitation :: "string \<Rightarrow> string \<Rightarrow> Mutation" where
  "useCancelInvitation w i = workspace_mutation (api_delete (ws_path w @ ''/invitations/'' @ i) None)
     [detail_key w] ''Failed to cancel invitation''"

definition useLeaveWorkspace :: "string \<Rightarrow> Mutation" where
  "useLeaveWorkspace w = workspace_mutation (api_post (ws_path w @ ''/leave'') (JObj []))
     [detail_key w, list_key] ''Failed to leave workspace''"

definition useTransferOwnership :: "string \<Rightarrow> string \<Rightarrow> Mutation" where
  "useTransferOwnership w u = workspace_mutation
     (api_post (ws_path w @ ''/transfer'') (JObj [(''user_id'', JStr u)]))
     [detail_key w, list_key] ''Failed to transfer ownership''"

record PageParams =
  pp_page :: "nat option"
  pp_limit :: "nat option"

record MembersParams = PageParams +
  pp_sort_by :: "string option"
  pp_sort_order :: "string option"
  pp_search :: "string option"
  pp_role :: "string option"

definition page_params :: "('a PageParams_scheme) \<Rightarrow> (string \<times> string) list" where
  "page_params p = num_param ''page'' (pp_page p) @ num_param ''limit'' (pp_limit p)"

definition volumes_params :: "MembersParams \<Rightarrow> (string \<times> string) list" where
  "volumes_params p = page_params p @ str_param ''sort_by'' (pp_sort_by p) @
     str_param ''sort_order'' (pp_sort_order p) @ str_param ''search'' (pp_search p)"

definition members_params :: "MembersParams \<Rightarrow> (string \<times> string) list" where
  "members_params p = volumes_params p @ str_param ''role'' (pp_role p)"

definition page_json :: "('a PageParams_scheme) \<Rightarrow> (string \<times> json) list" where
  "page_json p = num_json ''page'' (pp_page p) @ num_json ''limit'' (pp_limit p)"

definition members_json :: "MembersParams \<Rightarrow> json" where
  "members_json p = JObj (page_json p @ str_json ''sort_by'' (pp_sort_by p) @
     str_json ''sort_order'' (pp_sort_order p) @ str_json ''search'' (pp_search p) @ str_json ''role'' (pp_role p))"

definition useWorkspaceActivity :: "string \<Rightarrow> PageParams \<Rightarrow> Query" where
  "useWorkspaceActivity w p =
    \<lparr>queryKey = [JStr ''workspace'', JStr w, JStr ''activity'', JObj (page_json p)],
     queryRequest = api_get (ws_path w @ ''/activity?'' @ search_params (page_params p)),
     queryEnabled = (w \<noteq> [])\<rparr>"

definition useWorkspaceMembers :: "string \<Rightarrow> MembersParams \<Rightarrow> Query" where
  "useWorkspaceMembers w p =
    \<lparr>queryKey = [JStr ''workspace'', JStr w, JStr ''members'', members_json p],
     queryRequest = api_get (ws_path w @ ''/members?'' @ search_params (members_params p)),
     queryEnabled = (w \<noteq> [])\<rparr>"

definition useWorkspaceVolumes :: "string \<Rightarrow> MembersParams \<Rightarrow> Query" where
  "useWorkspaceVolumes w p =
    \<lparr>queryKey = [JStr ''workspace'', JStr w, JStr ''volumes'', members_json p],
     queryRequest = api_get (ws_path w @ ''/volumes?'' @ search_params (volumes_params p)),
     queryEnabled = (w \<noteq> [])\<rparr>"

definition useWorkspaceInvitations :: "string \<Rightarrow> Query" where
  "useWorkspaceInvitations w =
    \<lparr>queryKey = [JStr ''workspace'', JStr w, JStr ''invitations''],
     queryRequest = api_get (ws_path w @ ''/invitations''), queryEnabled = (w \<noteq> [])\<rparr>"

subsection \<open>Plans\<close>

record PlansParams = PageParams +
  plan_category :: "string option"
  plan_is_active :: "bool option"

definition plans_params :: "PlansParams \<Rightarrow> (string \<times> string) list" where
  "plans_params p = str_param ''category'' (plan_category p) @ bool_param ''is_active'' (plan_is_active p) @
     page_params p"

definition usePlans :: "PlansParams \<Rightarrow> Query" where
  "usePlans p =
    \<lparr>queryKey = [JStr ''plans'', JObj (str_json ''category'' (plan_category p) @
        bool_json ''is_active'' (plan_is_active p) @ page_json p)],
     queryRequest = api_get (''/plans/?'' @ search_params (plans_params p)), queryEnabled = True\<rparr>"

definition plan_mutation :: "FetchRequest \<Rightarrow> string \<Rightarrow> string \<Rightarrow> string \<Rightarrow> Mutation" where
  "plan_mutation req ok_title ok_message err_title =
    \<lparr>mutationFn = req, invalidated = [[JStr ''plans'']], successToast = Some (ok_title, ok_message),
     errorTitle = Some err_title\<rparr>"

definition createPlan :: "json \<Rightarrow> Mutation" where
  "createPlan data = plan_mutation (api_post ''/plans/'' data) ''Plan created''
     ''New plan has been created successfully'' ''Failed to create plan''"

definition updatePlan :: "string \<Rightarrow> json \<Rightarrow> Mutation" where
  "updatePlan p data = plan_mutation (api_put (''/plans/'' @ p) data) ''Plan updated''
     ''Plan has been updated successfully'' ''Failed to update plan''"

definition deletePlan :: "string \<Rightarrow> Mutation" where
  "deletePlan p = plan_mutation (api_delete (''/plans/'' @ p @ ''/permanent'') None) ''Plan deleted''
     ''Plan has been permanently deleted'' ''Failed to delete plan''"

definition activatePlan :: "string \<Rightarrow> Mutation" where
  "activatePlan p = plan_mutation (api_post (''/plans/'' @ p @ ''/activate'') (JObj [])) ''Plan activated''
     ''Plan has been activated'' ''Failed to activate plan''"

definition deactivatePlan :: "string \<Rightarrow> Mutation" where
  "deactivatePlan p = plan_mutation (api_delete (''/plans/'' @ p) None) ''Plan deactivated''
     ''Plan has been deactivated'' ''Failed to deactivate plan''"

definition usePlanUsers :: "string option \<Rightarrow> Query" where
  "usePlanUsers p = (let i = (case p of None \<Rightarrow> ''undefined'' | Some s \<Rightarrow> s)
    in \<lparr>queryKey = [JStr ''plans'', (case p of None \<Rightarrow> JNull | Some s \<Rightarrow> JStr s), JStr ''users''],
        queryRequest = api_get (''/plans/'' @ i @ ''/users''), queryEnabled = (p \<noteq> None \<and> p \<noteq> Some [])\<rparr>)"

definition usePlanWorkspaces :: "string option \<Rightarrow> Query" where
  "usePlanWorkspaces p = (let i = (case p of None \<Rightarrow> ''undefined'' | Some s \<Rightarrow> s)
    in \<lparr>queryKey = [JStr ''plans'', (case p of None \<Rightarrow> JNull | Some s \<Rightarrow> JStr s), JStr ''workspaces''],
        queryRequest = api_get (''/plans/'' @ i @ ''/workspaces''), queryEnabled = (p \<noteq> None \<and> p \<noteq> Some [])\<rparr>)"

text \<open>
  Granting and revoking access rewrite the cached list at once. The two entries differ only in their key
  field, so the updaters take the key function: \<open>access_id\<close> is the user or the workspace.
\<close>

record Access =
  access_id :: string
  access_plan_id :: string

definition grant_updater :: "Access \<Rightarrow> Access list option \<Rightarrow> Access list" where
  "grant_updater entry old =
    (case old of
       None \<Rightarrow> [entry]
     | Some xs \<Rightarrow> if list_ex (\<lambda>u. access_id u = access_id entry) xs then xs else xs @ [entry])"

definition revoke_updater :: "string \<Rightarrow> Access list option \<Rightarrow> Access list" where
  "revoke_updater i old = (case old of None \<Rightarrow> [] | Some xs \<Rightarrow> remove_key access_id i xs)"

record AccessMutation =
  acc_request :: FetchRequest
  acc_key :: key
  acc_success :: "string \<times> string"
  acc_error :: string

record AccessState =
  access_cache :: "Access list option"
  access_refetched :: "key list"
  access_toasts :: ToastStore

definition access_mutation :: "bool \<Rightarrow> string \<Rightarrow> string \<Rightarrow> string \<Rightarrow> string \<Rightarrow> AccessMutation" where
  "access_mutation grant p kind i who =
    \<lparr>acc_request = (let path = ''/plans/'' @ p @ ''/'' @ kind @ ''/'' @ i
        in if grant then api_post path (JObj []) else api_delete path None),
     acc_key = [JStr ''plans'', JStr p, JStr kind],
     acc_success = (if grant then (''Access granted'', who @ '' has been granted access to this plan'')
        else (''Access revoked'', who @ '' access has been revoked'')),
     acc_error = (if grant then ''Failed to grant access'' else ''Failed to revoke access'')\<rparr>"

definition grantUserAccess :: "string \<Rightarrow> string \<Rightarrow> AccessMutation" where
  "grantUserAccess p u = access_mutation True p ''users'' u ''User''"

definition revokeUserAccess :: "string \<Rightarrow> string \<Rightarrow> AccessMutation" where
  "revokeUserAccess p u = access_mutation False p ''users'' u ''User''"

definition grantWorkspaceAccess :: "string \<Rightarrow> string \<Rightarrow> AccessMutation" where
  "grantWorkspaceAccess p w = access_mutation True p ''workspaces'' w ''Workspace''"

definition revokeWorkspaceAccess :: "string \<Rightarrow> string \<Rightarrow> AccessMutation" where
  "revokeWorkspaceAccess p w = access_mutation False p ''workspaces'' w ''Workspace''"

text \<open>The success callback: the updater's list, the refetch of its key, the toast.\<close>

definition access_ok :: "AccessMutation \<Rightarrow> (Access list option \<Rightarrow> Access list) \<Rightarrow> AccessState \<Rightarrow> AccessState" where
  "access_ok m updater st =
    st\<lparr>access_cache := Some (updater (access_cache st)), access_refetched := access_refetched st @ [acc_key m],
       access_toasts := snd (toast_success (fst (acc_success m)) (Some (snd (acc_success m))) (access_toasts st))\<rparr>"

definition access_failed :: "AccessMutation \<Rightarrow> Thrown \<Rightarrow> AccessState \<Rightarrow> AccessState" where
  "access_failed m e st =
    st\<lparr>access_toasts := snd (toast_error (acc_error m) (Some (getErrorMessage e)) (access_toasts st))\<rparr>"

subsection \<open>API tokens\<close>

definition useTokens :: Query where
  "useTokens = \<lparr>queryKey = [JStr ''tokens''], queryRequest = api_get ''/tokens'', queryEnabled = True\<rparr>"

definition useTokenUsage :: "string \<Rightarrow> Query" where
  "useTokenUsage t =
    \<lparr>queryKey = [JStr ''tokens'', JStr t, JStr ''usage''], queryRequest = api_get (''/tokens/'' @ t @ ''/usage''),
     queryEnabled = (t \<noteq> [])\<rparr>"

definition token_mutation :: "FetchRequest \<Rightarrow> string \<Rightarrow> string \<Rightarrow> string \<Rightarrow> Mutation" where
  "token_mutation req ok_title ok_message err_title =
    \<lparr>mutationFn = req, invalidated = [[JStr ''tokens'']], successToast = Some (ok_title, ok_message),
     errorTitle = Some err_title\<rparr>"

definition createToken :: "json \<Rightarrow> Mutation" where
  "createToken data = token_mutation (api_post ''/tokens'' data) ''Token created''
     ''Your new API token has been created successfully'' ''Failed to create token''"

definition regenerateToken :: "string \<Rightarrow> Mutation" where
  "regenerateToken t = token_mutation (api_post (''/tokens/'' @ t @ ''/regenerate'') (JObj []))
     ''Token regenerated'' ''Your API token has been regenerated successfully'' ''Failed to regenerate token''"

definition revokeToken :: "string \<Rightarrow> Mutation" where
  "revokeToken t = token_mutation (api_delete (''/tokens/'' @ t) None) ''Token revoked''
     ''The API token has been revoked'' ''Failed to revoke token''"

definition deleteToken :: "string \<Rightarrow> Mutation" where
  "deleteToken t = token_mutation (api_delete (''/tokens/'' @ t @ ''/permanent'') None) ''Token deleted''
     ''The API token has been permanently deleted'' ''Failed to delete token''"

subsection \<open>Notifications\<close>

definition bool_text :: "bool \<Rightarrow> string" where
  "bool_text b = (if b then ''true'' else ''false'')"

text \<open>\<open>authed\<close> is the result of \<^verbatim>\<open>isAuthenticated()\<close>.\<close>

definition useNotifications :: "bool \<Rightarrow> bool \<Rightarrow> nat \<Rightarrow> nat \<Rightarrow> bool \<Rightarrow> Query" where
  "useNotifications authed unreadOnly page pageSize enabled =
    \<lparr>queryKey = [JStr ''notifications'', JBool unreadOnly, JNum (int page) 0, JNum (int pageSize) 0],
     queryRequest = api_get (''/notifications/?unread_only='' @ bool_text unreadOnly @ ''&page='' @ show_nat page @
       ''&page_size='' @ show_nat pageSize),
     queryEnabled = (enabled \<and> authed)\<rparr>"

definition useUnreadCount :: "bool \<Rightarrow> bool \<Rightarrow> Query" where
  "useUnreadCount authed enabled =
    \<lparr>queryKey = [JStr ''notifications'', JStr ''unread-count''],
     queryRequest = api_get ''/notifications/unread-count'', queryEnabled = (enabled \<and> authed)\<rparr>"

definition notification_mutation :: "FetchRequest \<Rightarrow> Mutation" where
  "notification_mutation req =
    \<lparr>mutationFn = req, invalidated = [[JStr ''notifications'']], successToast = None, errorTitle = None\<rparr>"

definition useMarkAsRead :: "string \<Rightarrow> Mutation" where
  "useMarkAsRead n = notification_mutation (api_put (''/notifications/'' @ n @ ''/read'') (JObj []))"

definition useMarkAllAsRead :: Mutation where
  "useMarkAllAsRead = notification_mutation (api_put ''/notifications/read-all'' (JObj []))"

definition useDeleteNotification :: "string \<Rightarrow> Mutation" where
  "useDeleteNotification n = notification_mutation (api_delete (''/notifications/'' @ n) None)"

definition useDeleteNotifications :: "json \<Rightarrow> Mutation" where
  "useDeleteNotifications data = notification_mutation (api_post ''/notifications/bulk-delete'' data)"

subsection \<open>Volumes\<close>

text \<open>\<^verbatim>\<open>encodeURIComponent\<close> keeps letters, digits and \<open>-_.!~*'()\<close>; every other byte is percent-encoded.\<close>

definition component_safe :: "char \<Rightarrow> bool" where
  "component_safe c =
    (let n = (of_char c :: nat)
     in 48 \<le> n \<and> n \<le> 57 \<or> 65 \<le> n \<and> n \<le> 90 \<or> 97 \<le> n \<and> n \<le> 122 \<or>
        n \<in> {33, 39, 40, 41, 42, 45, 46, 95, 126})"

definition encodeURIComponent :: "string \<Rightarrow> string" where
  "encodeURIComponent s = concat (map (\<lambda>c. if component_safe c then [c]
     else let n = (of_char c :: nat) in [CHR ''%'', hex_digit (n div 16), hex_digit (n mod 16)]) s)"

record VolumeFilesParams =
  vf_path :: "string option"
  vf_search :: "string option"
  vf_sort_by :: "string option"
  vf_sort_order :: "string option"
  vf_page :: "nat option"
  vf_page_size :: "nat option"

definition files_params :: "VolumeFilesParams \<Rightarrow> (string \<times> string) list" where
  "files_params p = str_param ''path'' (vf_path p) @ str_param ''search'' (vf_search p) @
     str_param ''sort_by'' (vf_sort_by p) @ str_param ''sort_order'' (vf_sort_order p) @
     num_param ''page'' (vf_page p) @ num_param ''page_size'' (vf_page_size p)"

definition files_json :: "VolumeFilesParams \<Rightarrow> json" where
  "files_json p = JObj (str_json ''path'' (vf_path p) @ str_json ''search'' (vf_search p) @
     str_json ''sort_by'' (vf_sort_by p) @ str_json ''sort_order'' (vf_sort_order p) @
     num_json ''page'' (vf_page p) @ num_json ''page_size'' (vf_page_size p))"

definition useVolumes :: Query where
  "useVolumes = \<lparr>queryKey = [JStr ''volumes''], queryRequest = api_get ''/volumes/'', queryEnabled = True\<rparr>"

definition useVolumeFiles :: "string \<Rightarrow> VolumeFilesParams \<Rightarrow> Query" where
  "useVolumeFiles v p =
    \<lparr>queryKey = [JStr ''volume-files'', JStr v, files_json p],
     queryRequest = api_get (''/volumes/'' @ v @ ''/files?'' @ search_params (files_params p)),
     queryEnabled = (v \<noteq> [])\<rparr>"

definition volume_mutation :: "FetchRequest \<Rightarrow> key \<Rightarrow> Mutation" where
  "volume_mutation req k = \<lparr>mutationFn = req, invalidated = [k], successToast = None, errorTitle = None\<rparr>"

definition useCreateVolume :: "json \<Rightarrow> Mutation" where
  "useCreateVolume data = volume_mutation (api_post ''/volumes/'' data) [JStr ''volumes'']"

definition useDeleteVolume :: "string \<Rightarrow> Mutation" where
  "useDeleteVolume v = volume_mutation (api_delete (''/volumes/'' @ v) None) [JStr ''volumes'']"

definition useUpdateVolume :: "string \<Rightarrow> json \<Rightarrow> Mutation" where
  "useUpdateVolume v data = volume_mutation (api_put (''/volumes/'' @ v) data) [JStr ''volumes'']"

definition useDeleteVolumeFile :: "string \<Rightarrow> string \<Rightarrow> Mutation" where
  "useDeleteVolumeFile v path = volume_mutation
     (api_delete (''/volumes/'' @ v @ ''/files?path='' @ encodeURIComponent path) None)
     [JStr ''volume-files'', JStr v]"

definition useRefreshVolumeSize :: "string \<Rightarrow> Mutation" where
  "useRefreshVolumeSize v = volume_mutation (api_post (''/volumes/'' @ v @ ''/refresh-size'') (JObj []))
     [JStr ''volumes'']"

subsection \<open>Servers, schedules and logs\<close>

definition useServers :: Query where
  "useServers = \<lparr>queryKey = [JStr ''servers''], queryRequest = api_get ''/servers/'', queryEnabled = True\<rparr>"

definition useServerByPath :: "string \<Rightarrow> string \<Rightarrow> Query" where
  "useServerByPath u n =
    \<lparr>queryKey = [JStr ''server-by-path'', JStr u, JStr n],
     queryRequest = api_get (''/servers/by-path/'' @ u @ ''/'' @ n), queryEnabled = (u \<noteq> [] \<and> n \<noteq> [])\<rparr>"

definition js_contains :: "string \<Rightarrow> string \<Rightarrow> bool" where
  "js_contains s t = list_ex (\<lambda>i. take (length t) (drop i s) = t) [0..<Suc (length s)]"

text \<open>Its retry policy looks for the status in the message of the error.\<close>

definition byPathRetry :: "nat \<Rightarrow> Thrown \<Rightarrow> bool" where
  "byPathRetry failureCount e =
    (case e of ThrownError msg \<Rightarrow> if js_contains msg ''404'' then False else failureCount < 2
     | _ \<Rightarrow> failureCount < 2)"

definition schedule_path :: "string \<Rightarrow> string" where
  "schedule_path s = ''/schedules/servers/'' @ s @ ''/schedules''"

definition useServerSchedules :: "string \<Rightarrow> Query" where
  "useServerSchedules s =
    \<lparr>queryKey = [JStr ''server-schedules'', JStr s], queryRequest = api_get (schedule_path s),
     queryEnabled = (s \<noteq> [])\<rparr>"

definition useCreateSchedule :: "string \<Rightarrow> json \<Rightarrow> Mutation" where
  "useCreateSchedule s data =
    \<lparr>mutationFn = api_post (schedule_path s) data, invalidated = [[JStr ''server-schedules'', JStr s]],
     successToast = None, errorTitle = None\<rparr>"

definition useDeleteSchedule :: "string \<Rightarrow> string \<Rightarrow> Mutation" where
  "useDeleteSchedule s i =
    \<lparr>mutationFn = api_delete (schedule_path s @ ''/'' @ i) None,
     invalidated = [[JStr ''server-schedules'', JStr s]], successToast = None, errorTitle = None\<rparr>"

text \<open>The logs, with their polling interval in milliseconds.\<close>

definition useServerLogs :: "string \<Rightarrow> nat \<Rightarrow> bool \<Rightarrow> bool \<Rightarrow> Query \<times> nat option" where
  "useServerLogs s tail_lines paused watching =
    (\<lparr>queryKey = [JStr ''server-logs'', JStr s, JNum (int tail_lines) 0],
      queryRequest = api_get (''/servers/'' @ s @ ''/logs?tail='' @ show_nat tail_lines),
      queryEnabled = (s \<noteq> [] \<and> \<not> paused \<and> watching)\<rparr>,
     if paused \<or> \<not> watching then None else Some 5000)"

lemma schedules_refreshed:
  "prefix_matching matches \<Longrightarrow> refreshes_query matches (useCreateSchedule s d) (useServerSchedules s) \<and>
    refreshes_query matches (useDeleteSchedule s i) (useServerSchedules s)"
  by (simp add: refreshes_query_def prefix_matching_def useCreateSchedule_def useDeleteSchedule_def
      useServerSchedules_def)

text \<open>
  The message of a rejected call is the server's detail, not the status, so a missing server is asked
  for again in spite of the policy.
\<close>

lemma missing_server_is_retried:
  "byPathRetry 0 (ThrownError (err_message (errorOf \<lparr>resp_status = 404, resp_statusText = ''Not Found'',
     resp_body = JsonBody (JObj [(''detail'', JStr ''Server not found'')])\<rparr>)))"
  by code_simp

subsection \<open>Coherence of the cache\<close>

text \<open>The queries about one workspace, and the mutations of its contents.\<close>

inductive_set workspace_queries :: "string \<Rightarrow> Query set" for w where
  "useWorkspace w \<in> workspace_queries w"
| "useWorkspaceActivity w p \<in> workspace_queries w"
| "useWorkspaceMembers w q \<in> workspace_queries w"
| "useWorkspaceVolumes w q \<in> workspace_queries w"
| "useWorkspaceInvitations w \<in> workspace_queries w"

inductive_set workspace_changes :: "string \<Rightarrow> Mutation set" for w where
  "useUpdateWorkspace w data \<in> workspace_changes w"
| "useAddWorkspaceMember w u r \<in> workspace_changes w"
| "useRemoveWorkspaceMember w u \<in> workspace_changes w"
| "useUpdateMemberRole w u r \<in> workspace_changes w"
| "useAddWorkspaceVolume w v r \<in> workspace_changes w"
| "useRemoveWorkspaceVolume w v \<in> workspace_changes w"
| "useUpdateVolumeRole w v r \<in> workspace_changes w"
| "useInviteWorkspaceMember w u r \<in> workspace_changes w"
| "useAcceptInvitation w i \<in> workspace_changes w"
| "useRejectInvitation w i \<in> workspace_changes w"
| "useCancelInvitation w i \<in> workspace_changes w"
| "useLeaveWorkspace w \<in> workspace_changes w"
| "useTransferOwnership w u \<in> workspace_changes w"

lemmas workspace_query_defs = useWorkspace_def useWorkspaceActivity_def useWorkspaceMembers_def
  useWorkspaceVolumes_def useWorkspaceInvitations_def useWorkspaces_def

lemmas workspace_mutation_defs = workspace_mutation_def useCreateWorkspace_def useUpdateWorkspace_def
  useDeleteWorkspace_def useAddWorkspaceMember_def useRemoveWorkspaceMember_def useUpdateMemberRole_def
  useAddWorkspaceVolume_def useRemoveWorkspaceVolume_def useUpdateVolumeRole_def useInviteWorkspaceMember_def
  useAcceptInvitation_def useRejectInvitation_def useCancelInvitation_def useLeaveWorkspace_def
  useTransferOwnership_def

lemma workspace_query_key: "q \<in> workspace_queries w \<Longrightarrow> prefix (detail_key w) (queryKey q)"
  by (erule workspace_queries.cases) (simp_all add: workspace_query_defs)

lemma workspace_change_key: "m \<in> workspace_changes w \<Longrightarrow> detail_key w \<in> set (invalidated m)"
  by (erule workspace_changes.cases) (simp_all add: workspace_mutation_defs)

lemma refreshes_queryI:
  "prefix_matching matches \<Longrightarrow> k \<in> set (invalidated m) \<Longrightarrow> prefix k (queryKey q) \<Longrightarrow>
    refreshes_query matches m q"
  by (auto simp: refreshes_query_def prefix_matching_def list_ex_iff)

text \<open>
  A family of queries with a common key prefix and the mutations that invalidate it: every mutation of
  the family refreshes every query of it.
\<close>

locale cache_family =
  fixes queries :: "Query set"
    and changes :: "Mutation set"
    and root :: key
  assumes query_root: "q \<in> queries \<Longrightarrow> prefix root (queryKey q)"
    and change_root: "m \<in> changes \<Longrightarrow> root \<in> set (invalidated m)"
begin

lemma coherent: "prefix_matching matches \<Longrightarrow> m \<in> changes \<Longrightarrow> q \<in> queries \<Longrightarrow> refreshes_query matches m q"
  by (rule refreshes_queryI [OF _ change_root query_root])

lemma invalidated_after:
  "m \<in> changes \<Longrightarrow> root \<in> set (hook_invalidated (mutation_ok m st))"
  by (simp add: mutation_ok_def change_root)

end

interpretation workspace_cache: cache_family "workspace_queries w" "workspace_changes w" "detail_key w" for w
  by unfold_locales (rule workspace_query_key, assumption, rule workspace_change_key)

text \<open>
  Cache coherence of workspaces: every change of a workspace refreshes every query about it, its
  details, activity, members, volumes and invitations, with whatever paging and filters.
\<close>

theorem workspace_changes_refresh_queries:
  assumes "prefix_matching matches" and "m \<in> workspace_changes w" and "q \<in> workspace_queries w"
  shows "refreshes_query matches m q"
  using assms by (rule workspace_cache.coherent)

theorem workspace_changes_refresh_queries_witness:
  "refreshes_query prefix (useAddWorkspaceMember ''w1'' ''u1'' ''admin'') (useWorkspaceInvitations ''w1'')"
proof -
  have "prefix_matching prefix" by (simp add: prefix_matching_def)
  then show ?thesis
    by (rule workspace_changes_refresh_queries[OF _ workspace_changes.intros(2) workspace_queries.intros(5)])
qed

text \<open>
  The list of workspaces, which shows the number of members, is not refreshed when a member is added or
  removed, although it is when a member joins by invitation or leaves.
\<close>

theorem member_changes_leave_list_stale:
  "\<not> refreshes_query prefix (useAddWorkspaceMember w u r) useWorkspaces \<and>
   \<not> refreshes_query prefix (useRemoveWorkspaceMember w u) useWorkspaces \<and>
   refreshes_query prefix (useAcceptInvitation w i) useWorkspaces \<and>
   refreshes_query prefix (useLeaveWorkspace w) useWorkspaces"
  by (simp add: refreshes_query_def workspace_mutation_defs useWorkspaces_def)

subsection \<open>Access lists\<close>

interpretation access: keyed_table
  "\<lambda>xs i. find_key access_id i xs" "\<lambda>e xs. grant_updater e (Some xs)" "\<lambda>i xs. revoke_updater i (Some xs)"
  access_id "unique_keys access_id" "\<lambda>e xs. find_key access_id (access_id e) xs = None"
proof
  fix e :: Access and xs :: "Access list" and i
  show "unique_keys access_id (revoke_updater i (Some xs))" if "unique_keys access_id xs"
    using that by (auto simp: revoke_updater_def)
  show "(\<lambda>j. find_key access_id j (revoke_updater i (Some xs))) = (\<lambda>j. find_key access_id j xs)(i := None)"
    by (auto simp: fun_eq_iff revoke_updater_def find_remove_key)
  assume new: "find_key access_id (access_id e) xs = None"
  then have absent: "access_id e \<notin> access_id ` set xs" by (simp add: find_key_None_iff)
  then have "grant_updater e (Some xs) = xs @ [e]" by (simp add: grant_updater_def list_ex_key)
  with new absent show
    "(\<lambda>j. find_key access_id j (grant_updater e (Some xs))) = (\<lambda>j. find_key access_id j xs)(access_id e \<mapsto> e)"
    "unique_keys access_id xs \<Longrightarrow> unique_keys access_id (grant_updater e (Some xs))"
    by (auto simp: fun_eq_iff find_key_append unique_snoc split: option.splits)
qed

datatype AccessOp = Grant Access | Revoke string

text \<open>A list that was never read, or could not be, is \<open>None\<close>; every operation rewrites it all the same.\<close>

fun access_run :: "AccessOp list \<Rightarrow> Access list option \<Rightarrow> Access list option" where
  "access_run [] old = old"
| "access_run (Grant e # ops) old = access_run ops (Some (grant_updater e old))"
| "access_run (Revoke i # ops) old = access_run ops (Some (revoke_updater i old))"

fun access_spec :: "AccessOp list \<Rightarrow> string set \<Rightarrow> string set" where
  "access_spec [] S = S"
| "access_spec (Grant e # ops) S = access_spec ops (insert (access_id e) S)"
| "access_spec (Revoke i # ops) S = access_spec ops (S - {i})"

fun touched :: "AccessOp list \<Rightarrow> string set" where
  "touched [] = {}"
| "touched (Grant e # ops) = insert (access_id e) (touched ops)"
| "touched (Revoke i # ops) = insert i (touched ops)"

lemma access_spec_split: "access_spec ops S = access_spec ops {} \<union> (S - touched ops)"
proof (induction ops arbitrary: S rule: touched.induct)
  case (2 e ops)
  from "2.IH" [of "insert (access_id e) S"] "2.IH" [of "{access_id e}"] show ?case by auto
next
  case (3 i ops)
  from "3.IH" [of "S - {i}"] show ?case by auto
qed simp

lemma access_spec_touched: "access_spec ops S \<subseteq> S \<union> touched ops"
proof (induction ops arbitrary: S rule: touched.induct)
  case (2 e ops)
  from "2.IH" [of "insert (access_id e) S"] show ?case by auto
next
  case (3 i ops)
  from "3.IH" [of "S - {i}"] show ?case by auto
qed simp

definition cached_ids :: "Access list option \<Rightarrow> string set" where
  "cached_ids old = (case old of None \<Rightarrow> {} | Some xs \<Rightarrow> access_id ` set xs)"

lemma grant_ids: "access_id ` set (grant_updater e old) = insert (access_id e) (cached_ids old)"
  by (auto simp: grant_updater_def cached_ids_def list_ex_key split: option.splits)

lemma revoke_ids: "access_id ` set (revoke_updater i old) = cached_ids old - {i}"
  by (auto simp: revoke_updater_def cached_ids_def set_remove_key split: option.splits)

definition cached_unique :: "Access list option \<Rightarrow> bool" where
  "cached_unique old \<longleftrightarrow> (case old of None \<Rightarrow> True | Some xs \<Rightarrow> unique_keys access_id xs)"

lemma grant_unique: "cached_unique old \<Longrightarrow> unique_keys access_id (grant_updater e old)"
  using access.invar_insert [of "the old" e]
  by (cases old) (auto simp: cached_unique_def grant_updater_def list_ex_key find_key_None_iff unique_keys_def)

lemma revoke_unique: "cached_unique old \<Longrightarrow> unique_keys access_id (revoke_updater i old)"
  using access.invar_remove [of "the old" i] by (cases old) (auto simp: cached_unique_def revoke_updater_def unique_keys_def)

lemma access_run_ids:
  "cached_unique old \<Longrightarrow> cached_unique (access_run ops old) \<and> cached_ids (access_run ops old) = access_spec ops (cached_ids old)"
proof (induction ops old rule: access_run.induct)
  case (2 e ops old)
  have "cached_unique (Some (grant_updater e old))" using grant_unique [OF "2.prems"] by (simp add: cached_unique_def)
  with "2.IH" show ?case by (simp add: cached_ids_def [of "Some _"] grant_ids)
next
  case (3 i ops old)
  have "cached_unique (Some (revoke_updater i old))" using revoke_unique [OF "3.prems"] by (simp add: cached_unique_def)
  with "3.IH" show ?case by (simp add: cached_ids_def [of "Some _"] revoke_ids)
qed simp

lemma access_run_None: "access_run ops old = None \<longleftrightarrow> ops = [] \<and> old = None"
  by (induction ops old rule: access_run.induct) auto

text \<open>
  C34. A cached access list that holds those who have access implements that set: after any sequence of grants and
  revocations it holds exactly those who have access then, each once. Where no list had been read, the operations make
  one from nothing, and it is right only if everyone who had access before was granted or revoked it since.
\<close>

theorem access_list_is_set:
  assumes "case old of None \<Rightarrow> True | Some xs \<Rightarrow> unique_keys access_id xs \<and> access_id ` set xs = S"
  shows "case access_run ops old of
      None \<Rightarrow> ops = [] \<and> old = None
    | Some ys \<Rightarrow> distinct (map access_id ys) \<and>
        (access_id ` set ys = access_spec ops S \<longleftrightarrow> old \<noteq> None \<or> S \<subseteq> touched ops)"
proof -
  have "cached_unique old" using assms by (auto simp: cached_unique_def split: option.splits)
  from access_run_ids [OF this, of ops]
  have run: "cached_unique (access_run ops old)" "cached_ids (access_run ops old) = access_spec ops (cached_ids old)" by blast+
  have "access_spec ops {} = access_spec ops S \<longleftrightarrow> S \<subseteq> touched ops"
    using access_spec_split [of ops S] access_spec_touched [of ops "{}"] by blast
  moreover have "old \<noteq> None \<Longrightarrow> cached_ids old = S" "old = None \<Longrightarrow> cached_ids old = {}"
    using assms by (auto simp: cached_ids_def)
  ultimately have key: "cached_ids (access_run ops old) = access_spec ops S \<longleftrightarrow> old \<noteq> None \<or> S \<subseteq> touched ops"
    unfolding run(2) by (cases "old = None") simp_all
  show ?thesis
  proof (cases "access_run ops old")
    case None
    then show ?thesis by (simp add: access_run_None)
  next
    case (Some ys)
    with run(1) key show ?thesis by (simp add: cached_ids_def [of "Some _"] cached_unique_def unique_keys_def)
  qed
qed

text \<open>With a list that was read the result is the set; without, a revocation makes an empty list of those who still have access.\<close>

theorem access_list_is_set_witness:
  "let run = access_run [Grant \<lparr>access_id = ''u2'', access_plan_id = ''p''\<rparr>, Revoke ''u2''];
       spec = access_spec [Grant \<lparr>access_id = ''u2'', access_plan_id = ''p''\<rparr>, Revoke ''u2''] {''u1''}
   in access_id ` set (the (run (Some [\<lparr>access_id = ''u1'', access_plan_id = ''p''\<rparr>]))) = spec \<and>
      access_id ` set (the (run None)) \<noteq> spec"
proof -
  let ?ops = "[Grant \<lparr>access_id = ''u2'', access_plan_id = ''p''\<rparr>, Revoke ''u2'']" and ?xs = "[\<lparr>access_id = ''u1'', access_plan_id = ''p''\<rparr>]"
  have "unique_keys access_id ?xs" by (simp add: unique_keys_def)
  then show ?thesis
    using access_list_is_set [where old = "Some ?xs" and S = "{''u1''}" and ops = ?ops]
      access_list_is_set [where old = None and S = "{''u1''}" and ops = ?ops]
    by (simp add: Let_def)
qed

text \<open>
  Query strings: the filters and paging a list request carries are read back by the server exactly, in
  order, whatever characters the search text has; absent, empty and zero values are left out.
\<close>

theorem list_requests_decode:
  "(\<exists>q. req_path (queryRequest (useWorkspaceMembers w p)) = ''/workspaces/'' @ w @ ''/members?'' @ q \<and>
      parse_params q = members_params p) \<and>
   (\<exists>q. req_path (queryRequest (usePlans f)) = ''/plans/?'' @ q \<and> parse_params q = plans_params f) \<and>
   (\<exists>q. req_path (queryRequest (useVolumeFiles v g)) = ''/volumes/'' @ v @ ''/files?'' @ q \<and>
      parse_params q = files_params g)"
  by (simp add: useWorkspaceMembers_def usePlans_def useVolumeFiles_def ws_path_def api_get_def
      parse_search_params)

end
