(* ===== verification/Credit_Hooks.thy ===== *)
theory Credit_Hooks
  imports Query_Hooks
begin

text \<open>
  Credits and credit requests: \<^verbatim>\<open>frontend/src/hooks/use-credits.ts\<close> and
  \<^verbatim>\<open>frontend/src/hooks/use-credit-requests.ts\<close>, as queries and mutations of the theory of hooks. An
  amount is a JSON number. The text of \<^verbatim>\<open>toLocaleString\<close> depends on the browser's locale: \<open>loc\<close> formats a
  number, \<open>locDate\<close> a date. A field that is \<^verbatim>\<open>undefined\<close> is left out of a request body.
\<close>

subsection \<open>Credit queries\<close>

record CreditHistoryParams =
  ch_transaction_type :: "string option"
  ch_from_date :: "string option"
  ch_to_date :: "string option"
  ch_page :: "nat option"
  ch_limit :: "nat option"
  ch_sort_by :: "string option"
  ch_sort_order :: "string option"

definition history_params :: "CreditHistoryParams \<Rightarrow> (string \<times> string) list" where
  "history_params p = str_param ''transaction_type'' (ch_transaction_type p) @
     str_param ''from_date'' (ch_from_date p) @ str_param ''to_date'' (ch_to_date p) @
     num_param ''page'' (ch_page p) @ num_param ''limit'' (ch_limit p) @
     str_param ''sort_by'' (ch_sort_by p) @ str_param ''sort_order'' (ch_sort_order p)"

definition history_json :: "CreditHistoryParams \<Rightarrow> json" where
  "history_json p = JObj (str_json ''transaction_type'' (ch_transaction_type p) @
     str_json ''from_date'' (ch_from_date p) @ str_json ''to_date'' (ch_to_date p) @
     num_json ''page'' (ch_page p) @ num_json ''limit'' (ch_limit p) @
     str_json ''sort_by'' (ch_sort_by p) @ str_json ''sort_order'' (ch_sort_order p))"

definition with_query :: "string \<Rightarrow> string" where
  "with_query q = (if q = [] then [] else CHR ''?'' # q)"

definition useCreditSummary :: "string \<Rightarrow> Query" where
  "useCreditSummary u =
    \<lparr>queryKey = [JStr ''credits'', JStr ''summary'', JStr u], queryRequest = api_get (''/credits/users/'' @ u),
     queryEnabled = (u \<noteq> [])\<rparr>"

definition useMyCreditSummary :: Query where
  "useMyCreditSummary =
    \<lparr>queryKey = [JStr ''credits'', JStr ''my-summary''], queryRequest = api_get ''/credits/'', queryEnabled = True\<rparr>"

definition useMyCreditHistory :: "CreditHistoryParams \<Rightarrow> Query" where
  "useMyCreditHistory p =
    \<lparr>queryKey = [JStr ''credits'', JStr ''my-history'', history_json p],
     queryRequest = api_get (''/credits/history'' @ with_query (search_params (history_params p))),
     queryEnabled = True\<rparr>"

definition useCreditHistory :: "string \<Rightarrow> CreditHistoryParams \<Rightarrow> Query" where
  "useCreditHistory u p =
    \<lparr>queryKey = [JStr ''credits'', JStr ''history'', JStr u, history_json p],
     queryRequest = api_get (''/credits/users/'' @ u @ ''/history?'' @ search_params (history_params p)),
     queryEnabled = (u \<noteq> [])\<rparr>"

definition or_default :: "nat \<Rightarrow> nat option \<Rightarrow> nat" where
  "or_default d v = (case v of None \<Rightarrow> d | Some n \<Rightarrow> n)"

definition useLowBalanceUsers :: "nat option \<Rightarrow> nat option \<Rightarrow> nat option \<Rightarrow> Query" where
  "useLowBalanceUsers threshold page limit =
    (let t = or_default 100 threshold; p = or_default 1 page; l = or_default 50 limit
     in \<lparr>queryKey = [JStr ''credits'', JStr ''low-balance'', JNum (int t) 0, JNum (int p) 0, JNum (int l) 0],
         queryRequest = api_get (''/credits/low-balance?threshold='' @ show_nat t @ ''&page='' @ show_nat p @
           ''&limit='' @ show_nat l),
         queryEnabled = True\<rparr>)"

subsection \<open>Credit mutations\<close>

definition credit_keys :: "key list" where
  "credit_keys = [[JStr ''credits''], [JStr ''users''], [JStr ''dashboard'']]"

definition summary_key :: "string \<Rightarrow> key" where
  "summary_key u = [JStr ''credits'', JStr ''summary'', JStr u]"

definition history_key :: "string \<Rightarrow> key" where
  "history_key u = [JStr ''credits'', JStr ''history'', JStr u]"

definition grantCredits :: "string \<Rightarrow> json \<Rightarrow> string \<Rightarrow> Mutation" where
  "grantCredits u amount why =
    \<lparr>mutationFn = api_post (''/credits/users/'' @ u @ ''/grant'')
       (JObj [(''amount'', amount), (''reason'', JStr why)]),
     invalidated = credit_keys @ [summary_key u, history_key u],
     successToast = Some (''Credits granted'', ''Granted '' @ js_String amount @ '' credits to user''),
     errorTitle = Some ''Failed to grant credits''\<rparr>"

definition deductCredits :: "string \<Rightarrow> json \<Rightarrow> string \<Rightarrow> Mutation" where
  "deductCredits u amount why =
    \<lparr>mutationFn = api_post (''/credits/users/'' @ u @ ''/deduct'')
       (JObj [(''amount'', amount), (''reason'', JStr why)]),
     invalidated = credit_keys @ [summary_key u, history_key u],
     successToast = Some (''Credits deducted'', ''Deducted '' @ js_String amount @ '' credits from user''),
     errorTitle = Some ''Failed to deduct credits''\<rparr>"

definition updateUserDailyAllowance :: "(json \<Rightarrow> string) \<Rightarrow> string \<Rightarrow> json \<Rightarrow> Mutation" where
  "updateUserDailyAllowance loc u amount =
    \<lparr>mutationFn = api_put (''/credits/users/'' @ u @ ''/daily-allowance'') (JObj [(''amount'', amount)]),
     invalidated = credit_keys @ [summary_key u],
     successToast = Some (''Daily allowance updated'', ''Set to '' @ loc amount @ '' NUKE / day''),
     errorTitle = Some ''Failed to update daily allowance''\<rparr>"

definition setOverride :: "(json \<Rightarrow> string) \<Rightarrow> (string \<Rightarrow> string) \<Rightarrow> string \<Rightarrow> json \<Rightarrow> string \<Rightarrow> Mutation" where
  "setOverride loc locDate u amount until =
    \<lparr>mutationFn = api_put (''/credits/users/'' @ u @ ''/allowance-override'')
       (JObj [(''amount'', amount), (''until'', JStr until)]),
     invalidated = [[JStr ''credits''], [JStr ''users''], summary_key u],
     successToast = Some (''Override set'', loc amount @ '' NUKE/day until '' @ locDate until),
     errorTitle = Some ''Failed to set override''\<rparr>"

definition clearOverride :: "string \<Rightarrow> Mutation" where
  "clearOverride u =
    \<lparr>mutationFn = api_delete (''/credits/users/'' @ u @ ''/allowance-override'') None,
     invalidated = [[JStr ''credits''], [JStr ''users''], summary_key u],
     successToast = Some (''Override cleared'', ''Reverted to base daily allowance''),
     errorTitle = Some ''Failed to clear override''\<rparr>"

text \<open>
  A bulk call answers with the users it succeeded and failed for; its success callback shows an error
  when there is a failure. The dash is the three bytes of its UTF-8 encoding.
\<close>

record BulkResponse =
  bulk_message :: string
  bulk_success :: "string list"
  bulk_failed :: "string list"

record BulkMutation =
  bulk_request :: FetchRequest
  bulk_invalidated :: "key list"
  bulk_partial_title :: string
  bulk_complete_title :: string
  bulk_error_title :: string

definition bulk_counts :: "nat \<Rightarrow> nat \<Rightarrow> string" where
  "bulk_counts good bad = show_nat good @ '' succeeded, '' @ show_nat bad @ '' failed '' @
     [CHR 0xE2, CHR 0x80, CHR 0x94] @ '' see results''"

definition bulk_mutation :: "BulkMutation \<Rightarrow> BulkResponse \<Rightarrow> Mutation" where
  "bulk_mutation m data =
    \<lparr>mutationFn = bulk_request m, invalidated = bulk_invalidated m,
     successToast = (if bulk_failed data = [] then Some (bulk_complete_title m, bulk_message data) else None),
     errorTitle = Some (bulk_error_title m)\<rparr>"

definition bulk_ok :: "BulkMutation \<Rightarrow> BulkResponse \<Rightarrow> HookState \<Rightarrow> HookState" where
  "bulk_ok m data st =
    (let st1 = mutation_ok (bulk_mutation m data) st;
         good = length (bulk_success data);
         bad = length (bulk_failed data)
     in if 0 < bad
        then st1\<lparr>hook_toasts := snd (toast_error (bulk_partial_title m) (Some (bulk_counts good bad)) (hook_toasts st1))\<rparr>
        else st1)"

definition bulkGrantCredits :: "string list \<Rightarrow> json \<Rightarrow> string \<Rightarrow> BulkMutation" where
  "bulkGrantCredits us amount why =
    \<lparr>bulk_request = api_post ''/admin/credits/grant-bulk''
       (JObj [(''user_ids'', JArr (map JStr us)), (''amount'', amount), (''reason'', JStr why)]),
     bulk_invalidated = credit_keys, bulk_partial_title = ''Bulk grant partially failed'',
     bulk_complete_title = ''Bulk grant complete'', bulk_error_title = ''Failed to bulk grant credits''\<rparr>"

definition bulkSetAllowance :: "string list \<Rightarrow> json \<Rightarrow> BulkMutation" where
  "bulkSetAllowance us amount =
    \<lparr>bulk_request = api_post ''/admin/credits/bulk-allowance''
       (JObj [(''user_ids'', JArr (map JStr us)), (''amount'', amount)]),
     bulk_invalidated = credit_keys, bulk_partial_title = ''Bulk allowance partially failed'',
     bulk_complete_title = ''Bulk allowance update complete'', bulk_error_title = ''Failed to bulk update allowance''\<rparr>"

subsection \<open>Credit requests\<close>

record CreditRequestListParams =
  cr_status :: "string option"
  cr_page :: "nat option"
  cr_limit :: "nat option"
  cr_sort :: "string option"

definition request_params :: "CreditRequestListParams \<Rightarrow> (string \<times> string) list" where
  "request_params p = str_param ''status'' (cr_status p) @ num_param ''page'' (cr_page p) @
     num_param ''limit'' (cr_limit p) @ str_param ''sort'' (cr_sort p)"

definition buildQueryString :: "CreditRequestListParams \<Rightarrow> string" where
  "buildQueryString p = with_query (search_params (request_params p))"

definition request_json :: "CreditRequestListParams \<Rightarrow> json" where
  "request_json p = JObj (str_json ''status'' (cr_status p) @ num_json ''page'' (cr_page p) @
     num_json ''limit'' (cr_limit p) @ str_json ''sort'' (cr_sort p))"

abbreviation requests_key :: key where
  "requests_key \<equiv> [JStr ''credit-requests'']"

definition useMyCreditRequests :: "CreditRequestListParams \<Rightarrow> Query" where
  "useMyCreditRequests p =
    \<lparr>queryKey = [JStr ''credit-requests'', JStr ''mine'', request_json p],
     queryRequest = api_get (''/credit-requests/'' @ buildQueryString p), queryEnabled = True\<rparr>"

definition useAllCreditRequests :: "CreditRequestListParams \<Rightarrow> Query" where
  "useAllCreditRequests p =
    \<lparr>queryKey = [JStr ''credit-requests'', JStr ''all'', request_json p],
     queryRequest = api_get (''/credit-requests/all'' @ buildQueryString p), queryEnabled = True\<rparr>"

definition usePendingCreditRequestCount :: Query where
  "usePendingCreditRequestCount =
    \<lparr>queryKey = [JStr ''credit-requests'', JStr ''pending-count''],
     queryRequest = api_get ''/credit-requests/pending-count'', queryEnabled = True\<rparr>"

definition useCreditRequestStats :: Query where
  "useCreditRequestStats =
    \<lparr>queryKey = [JStr ''credit-requests'', JStr ''stats''], queryRequest = api_get ''/credit-requests/stats'',
     queryEnabled = True\<rparr>"

definition useCreditRequestMessages :: "string option \<Rightarrow> Query" where
  "useCreditRequestMessages r =
    \<lparr>queryKey = [JStr ''credit-requests'', JStr ''messages'', (case r of None \<Rightarrow> JNull | Some s \<Rightarrow> JStr s)],
     queryRequest = api_get (''/credit-requests/'' @ (case r of None \<Rightarrow> ''undefined'' | Some s \<Rightarrow> s) @ ''/messages''),
     queryEnabled = (r \<noteq> None \<and> r \<noteq> Some [])\<rparr>"

definition useAddCreditRequestMessage :: "string \<Rightarrow> string \<Rightarrow> bool option \<Rightarrow> Mutation" where
  "useAddCreditRequestMessage r body internal =
    \<lparr>mutationFn = api_post (''/credit-requests/'' @ r @ ''/messages'')
       (JObj ([(''body'', JStr body)] @ bool_json ''internal'' internal)),
     invalidated = [requests_key, [JStr ''credit-requests'', JStr ''messages'', JStr r]],
     successToast = None, errorTitle = Some ''Failed to send message''\<rparr>"

definition useBulkReviewCreditRequests :: "string list \<Rightarrow> string \<Rightarrow> string option \<Rightarrow> BulkMutation" where
  "useBulkReviewCreditRequests rs action note =
    \<lparr>bulk_request = api_post ''/credit-requests/bulk-review''
       (JObj ([(''request_ids'', JArr (map JStr rs)), (''action'', JStr action)] @ str_json ''note'' note)),
     bulk_invalidated = [requests_key, [JStr ''credits'']],
     bulk_partial_title = ''Bulk '' @ action @ '' partially failed'',
     bulk_complete_title = ''Bulk '' @ action @ '' complete'', bulk_error_title = ''Failed to bulk review requests''\<rparr>"

text \<open>\<open>until\<close> may be absent, \<^verbatim>\<open>null\<close> or a date; \<open>message\<close> is the answer's text.\<close>

definition useSetCreditRequestBlock ::
  "string \<Rightarrow> bool \<Rightarrow> string option \<Rightarrow> string option option \<Rightarrow> string \<Rightarrow> Mutation" where
  "useSetCreditRequestBlock u blocked why until message =
    \<lparr>mutationFn = api_put (''/credit-requests/users/'' @ u @ ''/block'')
       (JObj ([(''blocked'', JBool blocked)] @ str_json ''reason'' why @
         (case until of None \<Rightarrow> [] | Some None \<Rightarrow> [(''until'', JNull)] | Some (Some d) \<Rightarrow> [(''until'', JStr d)]))),
     invalidated = [[JStr ''users''], requests_key],
     successToast = Some (if blocked then ''Credit requests blocked'' else ''Credit requests unblocked'', message),
     errorTitle = Some ''Failed to update credit request block''\<rparr>"

definition useCancelCreditRequest :: "string \<Rightarrow> string \<Rightarrow> Mutation" where
  "useCancelCreditRequest r message =
    \<lparr>mutationFn = api_post (''/credit-requests/'' @ r @ ''/cancel'') (JObj []), invalidated = [requests_key],
     successToast = Some (''Request cancelled'', message), errorTitle = Some ''Failed to cancel request''\<rparr>"

definition useCreateCreditRequest :: "json \<Rightarrow> string \<Rightarrow> string option \<Rightarrow> Mutation" where
  "useCreateCreditRequest amount why request_type =
    \<lparr>mutationFn = api_post ''/credit-requests/''
       (JObj ([(''amount'', amount), (''reason'', JStr why)] @ str_json ''request_type'' request_type)),
     invalidated = [requests_key],
     successToast = Some (''Credit request submitted'', ''Your request is pending admin review''),
     errorTitle = Some ''Failed to submit credit request''\<rparr>"

definition approveRequest :: "string \<Rightarrow> json option \<Rightarrow> string option \<Rightarrow> string \<Rightarrow> Mutation" where
  "approveRequest r amount note message =
    \<lparr>mutationFn = api_post (''/credit-requests/'' @ r @ ''/approve'')
       (JObj ((case amount of None \<Rightarrow> [] | Some a \<Rightarrow> [(''amount'', a)]) @ str_json ''note'' note)),
     invalidated = [requests_key, [JStr ''credits'']], successToast = Some (''Request approved'', message),
     errorTitle = Some ''Failed to approve request''\<rparr>"

definition rejectRequest :: "string \<Rightarrow> string option \<Rightarrow> string \<Rightarrow> Mutation" where
  "rejectRequest r note message =
    \<lparr>mutationFn = api_post (''/credit-requests/'' @ r @ ''/reject'') (JObj (str_json ''note'' note)),
     invalidated = [requests_key, [JStr ''credits'']], successToast = Some (''Request rejected'', message),
     errorTitle = Some ''Failed to reject request''\<rparr>"

subsection \<open>Coherence of the cache\<close>

inductive_set credit_queries :: "Query set" where
  "useCreditSummary u \<in> credit_queries"
| "useMyCreditSummary \<in> credit_queries"
| "useMyCreditHistory p \<in> credit_queries"
| "useCreditHistory u p \<in> credit_queries"
| "useLowBalanceUsers t g l \<in> credit_queries"

inductive_set credit_changes :: "Mutation set" where
  "grantCredits u a r \<in> credit_changes"
| "deductCredits u a r \<in> credit_changes"
| "updateUserDailyAllowance loc u a \<in> credit_changes"
| "setOverride loc locDate u a d \<in> credit_changes"
| "clearOverride u \<in> credit_changes"
| "bulk_mutation (bulkGrantCredits us a r) data \<in> credit_changes"
| "bulk_mutation (bulkSetAllowance us a) data \<in> credit_changes"
| "bulk_mutation (useBulkReviewCreditRequests rs act note) data \<in> credit_changes"
| "approveRequest q amt note msg \<in> credit_changes"
| "rejectRequest q note msg \<in> credit_changes"

inductive_set request_queries :: "Query set" where
  "useMyCreditRequests p \<in> request_queries"
| "useAllCreditRequests p \<in> request_queries"
| "usePendingCreditRequestCount \<in> request_queries"
| "useCreditRequestStats \<in> request_queries"
| "useCreditRequestMessages r \<in> request_queries"

inductive_set request_changes :: "Mutation set" where
  "useAddCreditRequestMessage r body internal \<in> request_changes"
| "bulk_mutation (useBulkReviewCreditRequests rs act note) data \<in> request_changes"
| "useSetCreditRequestBlock u b why till msg \<in> request_changes"
| "useCancelCreditRequest r msg \<in> request_changes"
| "useCreateCreditRequest a why ty \<in> request_changes"
| "approveRequest q amt note msg \<in> request_changes"
| "rejectRequest q note msg \<in> request_changes"

lemmas credit_defs = useCreditSummary_def useMyCreditSummary_def useMyCreditHistory_def useCreditHistory_def
  useLowBalanceUsers_def grantCredits_def deductCredits_def updateUserDailyAllowance_def setOverride_def
  clearOverride_def bulk_mutation_def bulkGrantCredits_def bulkSetAllowance_def credit_keys_def

lemmas request_defs = useMyCreditRequests_def useAllCreditRequests_def usePendingCreditRequestCount_def
  useCreditRequestStats_def useCreditRequestMessages_def useAddCreditRequestMessage_def bulk_mutation_def
  useBulkReviewCreditRequests_def useSetCreditRequestBlock_def useCancelCreditRequest_def
  useCreateCreditRequest_def approveRequest_def rejectRequest_def

interpretation credit_cache: cache_family credit_queries credit_changes "[JStr ''credits'']"
proof
  show "prefix [JStr ''credits''] (queryKey q)" if "q \<in> credit_queries" for q
    using that by cases (simp_all add: credit_defs Let_def)
  show "[JStr ''credits''] \<in> set (invalidated m)" if "m \<in> credit_changes" for m
    using that by cases (simp_all add: credit_defs request_defs)
qed

interpretation request_cache: cache_family request_queries request_changes requests_key
proof
  show "prefix requests_key (queryKey q)" if "q \<in> request_queries" for q
    using that by cases (simp_all add: request_defs)
  show "requests_key \<in> set (invalidated m)" if "m \<in> request_changes" for m
    using that by cases (simp_all add: request_defs)
qed

text \<open>
  Balances and requests stay current: whatever changes credits, a grant, a deduction, an allowance, an
  override, a bulk change or the review of a request, refreshes every credit query; and whatever changes
  credit requests refreshes every query about them.
\<close>
theorem credit_caches_coherent:
  assumes "prefix_matching matches"
  shows "(m \<in> credit_changes \<and> q \<in> credit_queries \<or> m \<in> request_changes \<and> q \<in> request_queries) \<longrightarrow>
    refreshes_query matches m q"
  using credit_cache.coherent [OF assms] request_cache.coherent [OF assms] by blast

theorem credit_caches_coherent_witness:
  "refreshes_query prefix (approveRequest ''r1'' None None ''ok'') useMyCreditSummary"
proof -
  have "prefix_matching prefix" by (simp add: prefix_matching_def)
  from credit_caches_coherent [OF this, of "approveRequest ''r1'' None None ''ok''" useMyCreditSummary]
  show ?thesis using credit_changes.intros(9) credit_queries.intros(2) by blast
qed

subsection \<open>Bulk operations\<close>

text \<open>
  Bulk operations report their outcome once: the success callback adds exactly one toast, an error with
  both counts when some user failed and the server's message otherwise, and always invalidates its keys.
\<close>
theorem bulk_outcome_reported:
  "\<exists>t. toasts (hook_toasts (bulk_ok m data st)) = toasts (hook_toasts st) @ [t] \<and>
    (toast_type t = TError \<longleftrightarrow> bulk_failed data \<noteq> []) \<and>
    toast_message t = Some (if bulk_failed data = [] then bulk_message data
      else bulk_counts (length (bulk_success data)) (length (bulk_failed data))) \<and>
    hook_invalidated (bulk_ok m data st) = hook_invalidated st @ bulk_invalidated m"
  by (simp add: bulk_ok_def bulk_mutation_def mutation_ok_def toast_success_def toast_error_def addToast_def
      mkToast_def ToastOptions.defs Let_def)

text \<open>
  The query strings of credit lists decode to the parameters that were given; one with no parameter at
  all has no question mark.
\<close>
lemma credit_lists_decode:
  "\<exists>q. req_path (queryRequest (useMyCreditRequests p)) = ''/credit-requests/'' @ with_query q \<and>
    parse_params q = request_params p"
  "\<exists>q. req_path (queryRequest (useMyCreditHistory h)) = ''/credits/history'' @ with_query q \<and>
    parse_params q = history_params h"
  by (auto simp: request_defs credit_defs buildQueryString_def api_get_def parse_search_params)

end
