(* ===== verification/Tables.thy ===== *)
theory Tables
  imports Query_Hooks
begin

text \<open>
  Lists on the page: pinned workspaces (\<^verbatim>\<open>hooks/use-workspace-pins.ts\<close>), the paging state of tables
  (\<^verbatim>\<open>hooks/use-data-table.ts\<close>) and their export as CSV (\<^verbatim>\<open>lib/export.ts\<close>), with a reader of the CSV format
  as the specification of the writer.
\<close>

subsection \<open>Pinned workspaces\<close>

definition pinnedIds :: "json option \<Rightarrow> string list" where
  "pinnedIds prefs =
    (case prefs of
       None \<Rightarrow> []
     | Some p \<Rightarrow>
         (case js_get p ''pinned_workspace_ids'' of
            Some (JArr vs) \<Rightarrow> map js_String vs
          | _ \<Rightarrow> []))"

definition isPinned :: "string list \<Rightarrow> string \<Rightarrow> bool" where
  "isPinned ids w = (w \<in> set ids)"

text \<open>\<^term>\<open>Some ids\<close> is a call of the mutation that stores the new list.\<close>

definition pinWorkspace :: "string list \<Rightarrow> string \<Rightarrow> string list option" where
  "pinWorkspace ids w = (if w \<in> set ids then None else Some (ids @ [w]))"

definition unpinWorkspace :: "string list \<Rightarrow> string \<Rightarrow> string list option" where
  "unpinWorkspace ids w = Some (filter (\<lambda>i. i \<noteq> w) ids)"

definition togglePin :: "string list \<Rightarrow> string \<Rightarrow> string list option" where
  "togglePin ids w = (if w \<in> set ids then unpinWorkspace ids w else pinWorkspace ids w)"

definition updatePins :: "string list \<Rightarrow> Mutation" where
  "updatePins ids =
    \<lparr>mutationFn = api_put ''/preferences/'' (JObj [(''pinned_workspace_ids'', JArr (map JStr ids))]),
     invalidated = [[JStr ''me'']], successToast = None, errorTitle = None\<rparr>"

definition pin_cmp :: "string list \<Rightarrow> ('a \<Rightarrow> string) \<Rightarrow> 'a \<Rightarrow> 'a \<Rightarrow> int" where
  "pin_cmp ids ident a b =
    (let aPinned = (if ident a \<in> set ids then 1 else 0); bPinned = (if ident b \<in> set ids then 1 else 0)
     in if aPinned \<noteq> bPinned then bPinned - aPinned else 0)"

definition sortByPinned :: "string list \<Rightarrow> ('a \<Rightarrow> string) \<Rightarrow> 'a list \<Rightarrow> 'a list" where
  "sortByPinned ids ident items = js_sort (pin_cmp ids ident) items"

lemma js_insert_pinned:
  "ident x \<in> set ids \<Longrightarrow> js_insert (pin_cmp ids ident) x ys = x # ys"
  by (cases ys) (auto simp: pin_cmp_def)

lemma js_insert_unpinned:
  assumes "ident x \<notin> set ids" and "\<forall>y \<in> set ps. ident y \<in> set ids" and "\<forall>y \<in> set us. ident y \<notin> set ids"
  shows "js_insert (pin_cmp ids ident) x (ps @ us) = ps @ x # us"
  using assms(2)
proof (induction ps)
  case Nil
  then show ?case using assms(1,3) by (cases us) (auto simp: pin_cmp_def)
next
  case (Cons p ps)
  then show ?case using assms(1) by (simp add: pin_cmp_def)
qed

text \<open>
  Pinned workspaces come first, and within the pinned and the other ones the order of the list is kept;
  pinning a workspace moves only it, and toggling a pin twice gives back the same pins.
\<close>

theorem pinned_first_and_stable:
  "sortByPinned ids ident items =
     filter (\<lambda>x. isPinned ids (ident x)) items @ filter (\<lambda>x. \<not> isPinned ids (ident x)) items \<and>
   (\<exists>once twice. togglePin ids w = Some once \<and> togglePin once w = Some twice \<and> set twice = set ids \<and>
      isPinned once w = (\<not> isPinned ids w))"
proof -
  have "sortByPinned ids ident items =
      filter (\<lambda>x. isPinned ids (ident x)) items @ filter (\<lambda>x. \<not> isPinned ids (ident x)) items"
  proof (induction items)
    case (Cons x items)
    then show ?case
      by (cases "ident x \<in> set ids")
        (simp_all add: sortByPinned_def isPinned_def js_insert_pinned js_insert_unpinned)
  qed (simp add: sortByPinned_def)
  moreover have "\<exists>once twice. togglePin ids w = Some once \<and> togglePin once w = Some twice \<and>
      set twice = set ids \<and> isPinned once w = (\<not> isPinned ids w)"
    by (auto simp: togglePin_def pinWorkspace_def unpinWorkspace_def isPinned_def)
  ultimately show ?thesis by blast
qed

subsection \<open>Paging state\<close>

datatype FilterValue = OneValue string | ManyValues "string list"

record TableState =
  tbl_page :: nat
  tbl_limit :: nat
  tbl_sortBy :: string
  tbl_descending :: bool
  tbl_search :: string
  tbl_filters :: "string \<Rightarrow> FilterValue option"

definition initialTable :: "nat option \<Rightarrow> string option \<Rightarrow> bool option \<Rightarrow> TableState" where
  "initialTable limit sortBy descending =
    \<lparr>tbl_page = 1, tbl_limit = (case limit of None \<Rightarrow> 20 | Some l \<Rightarrow> l),
     tbl_sortBy = (case sortBy of None \<Rightarrow> ''created_at'' | Some s \<Rightarrow> s),
     tbl_descending = (case descending of None \<Rightarrow> True | Some d \<Rightarrow> d), tbl_search = [],
     tbl_filters = (\<lambda>_. None)\<rparr>"

definition setPage :: "nat \<Rightarrow> TableState \<Rightarrow> TableState" where
  "setPage p st = st\<lparr>tbl_page := p\<rparr>"

definition setLimit :: "nat \<Rightarrow> TableState \<Rightarrow> TableState" where
  "setLimit l st = st\<lparr>tbl_limit := l, tbl_page := 1\<rparr>"

definition setSort :: "string \<Rightarrow> bool \<Rightarrow> TableState \<Rightarrow> TableState" where
  "setSort by_field descending st = st\<lparr>tbl_sortBy := by_field, tbl_descending := descending, tbl_page := 1\<rparr>"

definition setSearch :: "string \<Rightarrow> TableState \<Rightarrow> TableState" where
  "setSearch s st = st\<lparr>tbl_search := s, tbl_page := 1\<rparr>"

definition setFilter :: "string \<Rightarrow> FilterValue option \<Rightarrow> TableState \<Rightarrow> TableState" where
  "setFilter k v st = st\<lparr>tbl_filters := (tbl_filters st)(k := v), tbl_page := 1\<rparr>"

definition resetFilters :: "TableState \<Rightarrow> TableState" where
  "resetFilters st = st\<lparr>tbl_page := 1, tbl_search := [], tbl_filters := (\<lambda>_. None)\<rparr>"

lemma narrowing_returns_to_first_page:
  "tbl_page (setLimit l st) = 1" "tbl_page (setSort b d st) = 1" "tbl_page (setSearch s st) = 1"
  "tbl_page (setFilter k v st) = 1" "tbl_page (resetFilters st) = 1"
  by (simp_all add: setLimit_def setSort_def setSearch_def setFilter_def resetFilters_def)

lemma removed_filter_restores: "tbl_filters st k = None \<Longrightarrow> tbl_filters (setFilter k None (setFilter k v st)) = tbl_filters st"
  by (auto simp: setFilter_def fun_eq_iff)

subsection \<open>CSV\<close>

definition csv_special :: "string \<Rightarrow> bool" where
  "csv_special s \<longleftrightarrow> CHR '','' \<in> set s \<or> CHR 0x22 \<in> set s \<or> CHR 0x0A \<in> set s"

definition double_quotes :: "string \<Rightarrow> string" where
  "double_quotes s = concat (map (\<lambda>c. if c = CHR 0x22 then [c, c] else [c]) s)"

definition quote_field :: "string \<Rightarrow> string" where
  "quote_field s = (if csv_special s then CHR 0x22 # double_quotes s @ [CHR 0x22] else s)"

definition csv_escape :: "json option \<Rightarrow> string" where
  "csv_escape v = quote_field (case v of None \<Rightarrow> [] | Some w \<Rightarrow> if w = JNull then [] else js_String w)"

text \<open>A row is its properties in the order of \<^verbatim>\<open>Object.keys\<close>; the result is the file name and the text.\<close>

definition exportToCSV :: "(string \<times> json) list list \<Rightarrow> string \<Rightarrow> (string \<times> string) option" where
  "exportToCSV data filename =
    (case data of
       [] \<Rightarrow> None
     | first # _ \<Rightarrow>
         (let headers = map fst first;
              rows = map (\<lambda>row. js_join '','' (map (\<lambda>h. csv_escape (js_get (JObj row) h)) headers)) data
          in Some (if js_endsWith filename ''.csv'' then filename else filename @ ''.csv'',
                   js_join [CHR 0x0A] (js_join '','' headers # rows))))"

text \<open>
  A reader for the format: fields separated by commas, records by line feeds, a quoted field with its quotes doubled.
\<close>

datatype CsvMode = FieldStart | Unquoted | Quoted | QuoteSeen

fun read_csv :: "CsvMode \<Rightarrow> string \<Rightarrow> string list \<Rightarrow> string \<Rightarrow> string list list" where
  "read_csv mode field row [] = [rev (rev field # row)]"
| "read_csv mode field row (c # cs) =
    (if mode = Quoted then
       (if c = CHR 0x22 then read_csv QuoteSeen field row cs else read_csv Quoted (c # field) row cs)
     else if c = CHR '','' then read_csv FieldStart [] (rev field # row) cs
     else if c = CHR 0x0A then rev (rev field # row) # read_csv FieldStart [] [] cs
     else if c = CHR 0x22 \<and> mode = FieldStart then read_csv Quoted [] row cs
     else if c = CHR 0x22 \<and> mode = QuoteSeen then read_csv Quoted (c # field) row cs
     else read_csv Unquoted (c # field) row cs)"

definition field_end :: "string \<Rightarrow> bool" where
  "field_end rest \<longleftrightarrow> rest = [] \<or> hd rest = CHR '','' \<or> hd rest = CHR 0x0A"

lemma read_at_end:
  "field_end rest \<Longrightarrow> mode \<noteq> Quoted \<Longrightarrow> read_csv mode field row rest = read_csv Unquoted field row rest"
  by (cases rest) (auto simp: field_end_def)

lemma read_plain:
  "\<not> csv_special s \<Longrightarrow> read_csv Unquoted field row (s @ rest) = read_csv Unquoted (rev s @ field) row rest"
  by (induction s arbitrary: field) (auto simp: csv_special_def)

lemma read_plain_start:
  assumes "\<not> csv_special s" and "field_end rest"
  shows "read_csv FieldStart [] row (s @ rest) = read_csv Unquoted (rev s) row rest"
proof (cases s)
  case Nil
  then show ?thesis using read_at_end[OF assms(2), of FieldStart "[]" row] by simp
next
  case (Cons c cs)
  with assms(1) have "\<not> csv_special cs" "c \<noteq> CHR '',''" "c \<noteq> CHR 0x22" "c \<noteq> CHR 0x0A"
    by (auto simp: csv_special_def)
  with Cons read_plain[of cs "[c]" row rest] show ?thesis by simp
qed

lemma read_quoted:
  "read_csv Quoted field row (double_quotes s @ CHR 0x22 # rest) = read_csv QuoteSeen (rev s @ field) row rest"
  by (induction s arbitrary: field) (auto simp: double_quotes_def)

lemma read_field:
  assumes "field_end rest"
  shows "read_csv FieldStart [] row (quote_field s @ rest) = read_csv Unquoted (rev s) row rest"
proof (cases "csv_special s")
  case True
  then show ?thesis using read_quoted[of "[]" row s rest] read_at_end[OF assms, of QuoteSeen]
    by (simp add: quote_field_def)
next
  case False
  then show ?thesis using read_plain_start[OF False assms] by (simp add: quote_field_def)
qed

lemma read_row:
  assumes "fs \<noteq> []" and "rest = [] \<or> hd rest = CHR 0x0A"
  shows "read_csv FieldStart [] row (js_join '','' (map quote_field fs) @ rest) =
    read_csv Unquoted (rev (last fs)) (rev (butlast fs) @ row) rest"
  using assms(1)
proof (induction fs arbitrary: row rule: list_nonempty_induct)
  case (single f)
  have "field_end rest" using assms(2) by (auto simp: field_end_def)
  then show ?case using read_field[of rest row f] by simp
next
  case (cons f fs)
  let ?tail = "CHR '','' # js_join '','' (map quote_field fs) @ rest"
  have "read_csv FieldStart [] row (quote_field f @ ?tail) = read_csv Unquoted (rev f) row ?tail"
    by (rule read_field) (simp add: field_end_def)
  moreover have "js_join '','' (map quote_field (f # fs)) = quote_field f @ CHR '','' # js_join '','' (map quote_field fs)"
    using cons by (cases fs) auto
  ultimately show ?case using cons by simp
qed

lemma read_rows:
  "rows \<noteq> [] \<Longrightarrow> \<forall>fs \<in> set rows. fs \<noteq> [] \<Longrightarrow>
    read_csv FieldStart [] [] (js_join [CHR 0x0A] (map (\<lambda>fs. js_join '','' (map quote_field fs)) rows)) = rows"
proof (induction rows rule: list_nonempty_induct)
  case (single fs)
  then show ?case using read_row[of fs "[]" "[]"] by simp
next
  case (cons fs rows)
  let ?text = "\<lambda>fs. js_join '','' (map quote_field fs)"
  have "js_join [CHR 0x0A] (map ?text (fs # rows)) = ?text fs @ CHR 0x0A # js_join [CHR 0x0A] (map ?text rows)"
    using cons by (cases rows) auto
  with cons read_row[of fs "CHR 0x0A # js_join [CHR 0x0A] (map ?text rows)" "[]"] show ?case by simp
qed

definition cell_text :: "json option \<Rightarrow> string" where
  "cell_text v = (case v of None \<Rightarrow> [] | Some w \<Rightarrow> if w = JNull then [] else js_String w)"

text \<open>
  C38. Exported tables can be read back: for at least one row and one column, and column names without commas, quotes
  and line breaks (the header is not escaped), a CSV reader gives the header and, for every row, the text of each of its
  cells, whatever the cells contain.
\<close>

theorem csv_round_trip:
  assumes "data \<noteq> []" and "hd data \<noteq> []" and "\<forall>h \<in> set (map fst (hd data)). \<not> csv_special h"
  shows "\<exists>name text. exportToCSV data filename = Some (name, text) \<and>
    read_csv FieldStart [] [] text =
      map fst (hd data) # map (\<lambda>row. map (\<lambda>h. cell_text (js_get (JObj row) h)) (map fst (hd data))) data"
proof -
  obtain first rest where data: "data = first # rest" using assms(1) by (cases data) auto
  let ?hs = "map fst first"
  let ?rows = "?hs # map (\<lambda>row. map (\<lambda>h. cell_text (js_get (JObj row) h)) ?hs) data"
  have "map (\<lambda>x. quote_field (fst x)) first = ?hs" using assms(3) by (auto simp: data quote_field_def)
  moreover have "(\<lambda>v. csv_escape v) = (\<lambda>v. quote_field (cell_text v))" by (simp add: csv_escape_def cell_text_def fun_eq_iff)
  ultimately have "exportToCSV data filename = Some (if js_endsWith filename ''.csv'' then filename else filename @ ''.csv'',
      js_join [CHR 0x0A] (map (\<lambda>fs. js_join '','' (map quote_field fs)) ?rows))"
    by (simp add: exportToCSV_def data Let_def comp_def fun_eq_iff cong: map_cong)
  moreover have "read_csv FieldStart [] [] (js_join [CHR 0x0A] (map (\<lambda>fs. js_join '','' (map quote_field fs)) ?rows)) = ?rows"
    using assms(2) by (intro read_rows) (auto simp: data)
  ultimately show ?thesis by (auto simp: data)
qed

theorem csv_round_trip_witness:
  "\<exists>name text. exportToCSV [[(''name'', JStr ''a,b''), (''cost'', JNum 15 1)]] ''usage'' = Some (name, text) \<and>
    read_csv FieldStart [] [] text = [[''name'', ''cost''], [''a,b'', ''1.5'']]"
proof -
  let ?d = "[[(''name'', JStr ''a,b''), (''cost'', JNum 15 1)]]"
  have "?d \<noteq> []" "hd ?d \<noteq> []" "\<forall>h \<in> set (map fst (hd ?d)). \<not> csv_special h"
    by (simp_all add: csv_special_def)
  from csv_round_trip[OF this, of "''usage''"] obtain name csv where
    "exportToCSV ?d ''usage'' = Some (name, csv)"
    "read_csv FieldStart [] [] csv = map fst (hd ?d) # map (\<lambda>row. map (\<lambda>h. cell_text (js_get (JObj row) h)) (map fst (hd ?d))) ?d"
    by blast
  moreover have "js_String (JNum 15 1) = ''1.5''" by code_simp
  ultimately show ?thesis by (simp add: cell_text_def)
qed

text \<open>Column names are written as they are: one with a comma becomes two columns.\<close>

lemma csv_header_not_escaped:
  "exportToCSV [[(''a,b'', JStr ''x'')]] ''f.csv'' = Some (''f.csv'', ''a,b'' @ [CHR 0x0A] @ ''x'') \<and>
   read_csv FieldStart [] [] (''a,b'' @ [CHR 0x0A] @ ''x'') = [[''a'', ''b''], [''x'']]"
  by (simp add: exportToCSV_def csv_escape_def quote_field_def csv_special_def js_endsWith_def)

end
