(* ===== verification/Metrics.thy ===== *)
theory Metrics
  imports Complex_Main Query_Hooks
begin

text \<open>
  Live charts: \<^verbatim>\<open>hooks/use-server-metrics.ts\<close>, \<^verbatim>\<open>hooks/use-dashboard-metrics.ts\<close>, the rates of
  \<^verbatim>\<open>lib/metrics-rates.ts\<close> and \<^verbatim>\<open>lib/task-rates.ts\<close>. Numbers are rationals; the rounding of doubles is not
  modelled. A field declared \<^verbatim>\<open>number | null\<close> or optional is an option, and \<^verbatim>\<open>Number(x) || 0\<close> reads it.
  The text of a time stamp comes from the browser's locale code and is the parameter \<open>fmt\<close> of the instant.

  React runs the effects of a component in the order they are written; \<^verbatim>\<open>queueMicrotask\<close> defers their
  state updates, kept here as a queue.
\<close>

definition orZero :: "rat option \<Rightarrow> rat" where
  "orZero v = (case v of None \<Rightarrow> 0 | Some x \<Rightarrow> x)"

definition MAX_POINTS :: nat where
  "MAX_POINTS = 60"

subsection \<open>The metrics of one server\<close>

record CurrentMetrics =
  cpu :: rat
  memory :: rat
  memoryUsed :: rat
  memoryTotal :: rat
  memoryCache :: rat
  diskRead :: rat
  diskWrite :: rat
  networkRx :: rat
  networkTx :: rat

record ServerMetricPoint = CurrentMetrics +
  timestamp :: string
  epochMs :: int

record MetricData =
  md_cpu_percent :: "rat option"
  md_memory_percent :: "rat option"
  md_memory_used :: "rat option"
  md_memory_total :: "rat option"
  md_memory_cache :: "rat option"
  md_disk_read :: "rat option"
  md_disk_write :: "rat option"
  md_network_rx :: "rat option"
  md_network_tx :: "rat option"

definition zeroMetrics :: CurrentMetrics where
  "zeroMetrics = \<lparr>cpu = 0, memory = 0, memoryUsed = 0, memoryTotal = 0, memoryCache = 0, diskRead = 0,
     diskWrite = 0, networkRx = 0, networkTx = 0\<rparr>"

text \<open>
  A stored sample carries its instant, a live one is stamped with the current time; both read the same
  nine numbers.
\<close>

definition metric_point :: "(int \<Rightarrow> string) \<Rightarrow> int \<Rightarrow> MetricData \<Rightarrow> ServerMetricPoint" where
  "metric_point fmt instant d =
    \<lparr>cpu = orZero (md_cpu_percent d), memory = orZero (md_memory_percent d),
     memoryUsed = orZero (md_memory_used d), memoryTotal = orZero (md_memory_total d),
     memoryCache = orZero (md_memory_cache d), diskRead = orZero (md_disk_read d),
     diskWrite = orZero (md_disk_write d), networkRx = orZero (md_network_rx d),
     networkTx = orZero (md_network_tx d), timestamp = fmt instant, epochMs = instant\<rparr>"

definition parseApiMetric :: "(int \<Rightarrow> string) \<Rightarrow> int \<times> MetricData \<Rightarrow> ServerMetricPoint" where
  "parseApiMetric fmt m = metric_point fmt (fst m) (snd m)"

definition parseWsMetric :: "(int \<Rightarrow> string) \<Rightarrow> int \<Rightarrow> MetricData \<Rightarrow> ServerMetricPoint" where
  "parseWsMetric fmt now d = metric_point fmt now d"

definition current_of :: "ServerMetricPoint \<Rightarrow> CurrentMetrics" where
  "current_of p = CurrentMetrics.truncate p"

datatype Deferred = ShowHistory "ServerMetricPoint list" | ResetMetrics

record MetricsState =
  metrics :: "ServerMetricPoint list"
  currentMetrics :: CurrentMetrics
  hasInitialized :: bool
  deferred :: "Deferred list"

definition initialMetrics :: MetricsState where
  "initialMetrics = \<lparr>metrics = [], currentMetrics = zeroMetrics, hasInitialized = False, deferred = []\<rparr>"

text \<open>Effect 2: the history, when it is there and was not shown yet.\<close>

definition historyEffect ::
  "(int \<Rightarrow> string) \<Rightarrow> (int \<times> MetricData) list option \<Rightarrow> MetricsState \<Rightarrow> MetricsState" where
  "historyEffect fmt historyData st =
    (case historyData of
       None \<Rightarrow> st
     | Some ms \<Rightarrow>
         if hasInitialized st then st
         else let parsed = map (parseApiMetric fmt) ms
              in st\<lparr>deferred := (if parsed = [] then deferred st else deferred st @ [ShowHistory parsed]),
                    hasInitialized := True\<rparr>)"

text \<open>Effect 5: the reset when the server changes, the first render included.\<close>

definition resetEffect :: "MetricsState \<Rightarrow> MetricsState" where
  "resetEffect st = st\<lparr>hasInitialized := False, deferred := deferred st @ [ResetMetrics]\<rparr>"

definition runDeferred :: "Deferred \<Rightarrow> MetricsState \<Rightarrow> MetricsState" where
  "runDeferred d st =
    (case d of
       ShowHistory parsed \<Rightarrow> st\<lparr>metrics := parsed, currentMetrics := current_of (last parsed)\<rparr>
     | ResetMetrics \<Rightarrow> st\<lparr>metrics := [], currentMetrics := zeroMetrics\<rparr>)"

definition flushDeferred :: "MetricsState \<Rightarrow> MetricsState" where
  "flushDeferred st = fold runDeferred (deferred st) (st\<lparr>deferred := []\<rparr>)"

text \<open>
  The first render of a server runs both effects, in this order; a later arrival of the history runs
  the history effect only.
\<close>

definition mountMetrics ::
  "(int \<Rightarrow> string) \<Rightarrow> (int \<times> MetricData) list option \<Rightarrow> MetricsState \<Rightarrow> MetricsState" where
  "mountMetrics fmt historyData st = flushDeferred (resetEffect (historyEffect fmt historyData st))"

definition historyArrives ::
  "(int \<Rightarrow> string) \<Rightarrow> (int \<times> MetricData) list \<Rightarrow> MetricsState \<Rightarrow> MetricsState" where
  "historyArrives fmt ms st = flushDeferred (historyEffect fmt (Some ms) st)"

text \<open>Effect 4: a message for this server extends the window.\<close>

definition onServerMetric ::
  "(int \<Rightarrow> string) \<Rightarrow> string \<Rightarrow> int \<times> string \<times> MetricData \<Rightarrow> MetricsState \<Rightarrow> MetricsState" where
  "onServerMetric fmt server msg st =
    (case msg of (now, sid, d) \<Rightarrow>
       if sid \<noteq> server then st
       else let point = parseWsMetric fmt now d
            in st\<lparr>currentMetrics := current_of point, metrics := last_n MAX_POINTS (metrics st @ [point])\<rparr>)"

definition useServerMetrics_query :: "string \<Rightarrow> Query" where
  "useServerMetrics_query s =
    \<lparr>queryKey = [JStr ''server-metrics'', JStr s],
     queryRequest = api_get (''/metrics/servers/'' @ s @ ''?limit='' @ show_nat MAX_POINTS),
     queryEnabled = (s \<noteq> [])\<rparr>"

definition own_points ::
  "(int \<Rightarrow> string) \<Rightarrow> string \<Rightarrow> (int \<times> string \<times> MetricData) list \<Rightarrow> ServerMetricPoint list" where
  "own_points fmt server msgs =
    map (\<lambda>(now, sid, d). parseWsMetric fmt now d) (filter (\<lambda>(now, sid, d). sid = server) msgs)"

text \<open>What happens to the hook after its first render: a message, or the answer to the query for the history.\<close>

datatype MetricsEvent = Live_message int string MetricData | History_arrives "(int \<times> MetricData) list"

fun metrics_event :: "(int \<Rightarrow> string) \<Rightarrow> string \<Rightarrow> MetricsEvent \<Rightarrow> MetricsState \<Rightarrow> MetricsState" where
  "metrics_event fmt server (Live_message now sid d) st = onServerMetric fmt server (now, sid, d) st"
| "metrics_event fmt server (History_arrives ms) st = historyArrives fmt ms st"

fun own_live :: "(int \<Rightarrow> string) \<Rightarrow> string \<Rightarrow> MetricsEvent list \<Rightarrow> ServerMetricPoint list" where
  "own_live fmt server [] = []"
| "own_live fmt server (Live_message now sid d # es) = own_points fmt server [(now, sid, d)] @ own_live fmt server es"
| "own_live fmt server (History_arrives ms # es) = own_live fmt server es"

text \<open>The samples the chart should show a window of: the first history that arrives takes the place of what came before.\<close>

fun chart_base :: "(int \<Rightarrow> string) \<Rightarrow> string \<Rightarrow> ServerMetricPoint list \<Rightarrow> MetricsEvent list \<Rightarrow> ServerMetricPoint list" where
  "chart_base fmt server before [] = before"
| "chart_base fmt server before (Live_message now sid d # es) = chart_base fmt server (before @ own_points fmt server [(now, sid, d)]) es"
| "chart_base fmt server before (History_arrives ms # es) = (if ms = [] then before else map (parseApiMetric fmt) ms) @ own_live fmt server es"

fun histories :: "MetricsEvent list \<Rightarrow> (int \<times> MetricData) list list" where
  "histories [] = []"
| "histories (Live_message now sid d # es) = histories es"
| "histories (History_arrives ms # es) = ms # histories es"

definition newest :: "ServerMetricPoint list \<Rightarrow> CurrentMetrics" where
  "newest ps = (if ps = [] then zeroMetrics else current_of (last ps))"

definition shows_window :: "ServerMetricPoint list \<Rightarrow> MetricsState \<Rightarrow> bool" where
  "shows_window base st \<longleftrightarrow> metrics st = last_n MAX_POINTS base \<and> currentMetrics st = newest base \<and> deferred st = []"

lemma window_message:
  "shows_window base st \<Longrightarrow> shows_window (base @ own_points fmt s [msg]) (onServerMetric fmt s msg st) \<and>
    hasInitialized (onServerMetric fmt s msg st) = hasInitialized st"
  by (cases msg) (simp add: shows_window_def own_points_def onServerMetric_def newest_def Let_def last_n_last_n_snoc)

lemma window_initialized:
  "shows_window base st \<Longrightarrow> hasInitialized st \<Longrightarrow> shows_window (base @ own_live fmt s es) (fold (metrics_event fmt s) es st)"
proof (induction es arbitrary: base st)
  case (Cons e es)
  show ?case
  proof (cases e)
    case (Live_message now sid d)
    with Cons.IH [of "base @ own_points fmt s [(now, sid, d)]" "onServerMetric fmt s (now, sid, d) st"]
      window_message [OF Cons.prems(1), of fmt s "(now, sid, d)"] Cons.prems(2)
    show ?thesis by simp
  next
    case (History_arrives ms)
    have "historyArrives fmt ms st = st"
      using Cons.prems by (simp add: historyArrives_def historyEffect_def flushDeferred_def shows_window_def)
    with Cons.IH [OF Cons.prems] show ?thesis by (simp add: History_arrives)
  qed
qed simp

lemma history_window:
  assumes "shows_window base st" and "\<not> hasInitialized st" and "length ms \<le> MAX_POINTS"
  shows "shows_window (if ms = [] then base else map (parseApiMetric fmt) ms) (historyArrives fmt ms st) \<and> hasInitialized (historyArrives fmt ms st)"
  using assms by (auto simp: shows_window_def historyArrives_def historyEffect_def flushDeferred_def runDeferred_def newest_def Let_def)

lemma window_run:
  "shows_window base st \<Longrightarrow> \<not> hasInitialized st \<Longrightarrow> list_all (\<lambda>ms. length ms \<le> MAX_POINTS) (histories es) \<Longrightarrow>
    shows_window (chart_base fmt s base es) (fold (metrics_event fmt s) es st)"
proof (induction es arbitrary: base st)
  case (Cons e es)
  show ?case
  proof (cases e)
    case (Live_message now sid d)
    with Cons.IH [of "base @ own_points fmt s [(now, sid, d)]" "onServerMetric fmt s (now, sid, d) st"]
      window_message [OF Cons.prems(1), of fmt s "(now, sid, d)"] Cons.prems(2,3)
    show ?thesis by simp
  next
    case (History_arrives ms)
    with Cons.prems(3) have "length ms \<le> MAX_POINTS" by simp
    from history_window [OF Cons.prems(1,2) this, of fmt] window_initialized
    show ?thesis unfolding History_arrives fold_simps metrics_event.simps chart_base.simps by blast
  qed
qed simp

lemma mounted_window: "shows_window [] (mountMetrics fmt cached initialMetrics) \<and> \<not> hasInitialized (mountMetrics fmt cached initialMetrics)"
  by (cases cached) (auto simp: shows_window_def mountMetrics_def historyEffect_def resetEffect_def flushDeferred_def runDeferred_def
      initialMetrics_def newest_def Let_def)

text \<open>
  C35. The chart of a server is always a window on the newest sixty of its samples, and the current values are those of
  the newest. Until a history arrives after the first render these are the messages for this server. The first one that
  arrives, if it has a sample, takes the place of the messages that were faster: from then on they are its samples (at
  most sixty, as requested) followed by the messages. A history that was cached already when the page opened is not shown.
\<close>

theorem chart_is_newest_window:
  assumes "list_all (\<lambda>ms. length ms \<le> 60) (histories es)"
    and "st = fold (metrics_event fmt s) es (mountMetrics fmt cached initialMetrics)"
  shows "metrics st = last_n 60 (chart_base fmt s [] es) \<and>
    currentMetrics st = (if chart_base fmt s [] es = [] then zeroMetrics else current_of (last (chart_base fmt s [] es)))"
  using window_run [of "[]" "mountMetrics fmt cached initialMetrics" es fmt s] mounted_window [of fmt cached] assms
  by (simp add: shows_window_def newest_def MAX_POINTS_def)

definition demo_sample :: MetricData where
  "demo_sample = \<lparr>md_cpu_percent = Some 12, md_memory_percent = None, md_memory_used = None,
     md_memory_total = None, md_memory_cache = None, md_disk_read = None, md_disk_write = None,
     md_network_rx = None, md_network_tx = None\<rparr>"

text \<open>One message before the history, one after it, and one of another server.\<close>

theorem chart_is_newest_window_witness:
  "map epochMs (metrics (fold (metrics_event show_int ''a'') [Live_message 2 ''a'' demo_sample, History_arrives [(1, demo_sample)],
     Live_message 3 ''b'' demo_sample, Live_message 4 ''a'' demo_sample] (mountMetrics show_int None initialMetrics))) = [1, 4]"
proof -
  let ?es = "[Live_message 2 ''a'' demo_sample, History_arrives [(1, demo_sample)], Live_message 3 ''b'' demo_sample, Live_message 4 ''a'' demo_sample]"
  have "list_all (\<lambda>ms. length ms \<le> 60) (histories ?es)" by simp
  from chart_is_newest_window [OF this refl, of show_int "''a''" None]
  show ?thesis by (simp add: own_points_def parseApiMetric_def parseWsMetric_def metric_point_def del: metrics_event.simps)
qed

text \<open>
  History that is already in the query cache when the page opens is lost: the history effect runs
  first, the reset effect of the same render empties the chart behind it, and the chart starts empty;
  history is shown when it arrives after the first render.
\<close>

theorem cached_history_is_lost:
  "metrics (mountMetrics fmt (Some ms) initialMetrics) = [] \<and>
   currentMetrics (mountMetrics fmt (Some ms) initialMetrics) = zeroMetrics \<and>
   metrics (historyArrives fmt ms (mountMetrics fmt None initialMetrics)) = map (parseApiMetric fmt) ms"
proof -
  have empty: "metrics (mountMetrics fmt None initialMetrics) = []"
    by (simp add: mountMetrics_def historyEffect_def resetEffect_def flushDeferred_def runDeferred_def
        initialMetrics_def)
  show ?thesis
    by (cases ms) (simp_all add: empty mountMetrics_def historyArrives_def historyEffect_def resetEffect_def
        flushDeferred_def runDeferred_def initialMetrics_def Let_def)
qed

subsection \<open>The dashboard\<close>

record DashboardCurrent =
  dc_cpu :: rat
  dc_cpuCount :: rat
  dc_memoryPercent :: rat
  dc_memoryUsed :: rat
  dc_memoryTotal :: rat
  dc_diskRead :: rat
  dc_diskWrite :: rat
  dc_diskPercent :: rat
  dc_diskUsed :: rat
  dc_diskTotal :: rat
  dc_networkRx :: rat
  dc_networkTx :: rat

record DashboardMetricPoint = DashboardCurrent +
  dp_memoryAvailable :: rat
  dp_timestamp :: string

record SystemData =
  sd_cpu_percent :: "rat option"
  sd_cpu_count :: "rat option"
  sd_memory_percent :: "rat option"
  sd_memory_used :: "rat option"
  sd_memory_total :: "rat option"
  sd_memory_available :: "rat option"
  sd_disk_percent :: "rat option"
  sd_disk_used :: "rat option"
  sd_disk_total :: "rat option"
  sd_disk_read :: "rat option"
  sd_disk_write :: "rat option"
  sd_network_rx :: "rat option"
  sd_network_tx :: "rat option"

definition dashboard_point :: "(int \<Rightarrow> string) \<Rightarrow> int \<Rightarrow> SystemData \<Rightarrow> DashboardMetricPoint" where
  "dashboard_point fmt instant d =
    \<lparr>dc_cpu = orZero (sd_cpu_percent d), dc_cpuCount = orZero (sd_cpu_count d),
     dc_memoryPercent = orZero (sd_memory_percent d), dc_memoryUsed = orZero (sd_memory_used d),
     dc_memoryTotal = orZero (sd_memory_total d), dc_diskRead = orZero (sd_disk_read d),
     dc_diskWrite = orZero (sd_disk_write d), dc_diskPercent = orZero (sd_disk_percent d),
     dc_diskUsed = orZero (sd_disk_used d), dc_diskTotal = orZero (sd_disk_total d),
     dc_networkRx = orZero (sd_network_rx d), dc_networkTx = orZero (sd_network_tx d),
     dp_memoryAvailable = orZero (sd_memory_available d), dp_timestamp = fmt instant\<rparr>"

definition parseDashApiMetric :: "(int \<Rightarrow> string) \<Rightarrow> int \<times> SystemData \<Rightarrow> DashboardMetricPoint" where
  "parseDashApiMetric fmt m = dashboard_point fmt (fst m) (snd m)"

definition parseDashWsMetric :: "(int \<Rightarrow> string) \<Rightarrow> int \<Rightarrow> SystemData \<Rightarrow> DashboardMetricPoint" where
  "parseDashWsMetric fmt now d = dashboard_point fmt now d"

record ServerLoad =
  sl_cpu :: rat
  sl_memoryPercent :: rat
  sl_memoryUsed :: rat
  sl_memoryTotal :: rat
  sl_diskRead :: rat
  sl_diskWrite :: rat
  sl_networkRx :: rat
  sl_networkTx :: rat

definition server_load :: "MetricData \<Rightarrow> ServerLoad" where
  "server_load d =
    \<lparr>sl_cpu = orZero (md_cpu_percent d), sl_memoryPercent = orZero (md_memory_percent d),
     sl_memoryUsed = orZero (md_memory_used d), sl_memoryTotal = orZero (md_memory_total d),
     sl_diskRead = orZero (md_disk_read d), sl_diskWrite = orZero (md_disk_write d),
     sl_networkRx = orZero (md_network_rx d), sl_networkTx = orZero (md_network_tx d)\<rparr>"

record DashboardState =
  dash_metrics :: "DashboardMetricPoint list"
  dash_current :: DashboardCurrent
  dash_servers :: "string \<Rightarrow> ServerLoad option"
  dash_initialized :: bool

text \<open>
  Everything on the dashboard needs the administrator permission. Its history effect defers its updates
  too, but nothing resets the chart behind them, so they take effect at once here.
\<close>

definition canViewSystemMetrics :: "AuthState \<Rightarrow> bool" where
  "canViewSystemMetrics auth = hasPermission auth ADMIN_ACCESS"

definition useDashboardMetrics_query :: "AuthState \<Rightarrow> Query" where
  "useDashboardMetrics_query auth =
    \<lparr>queryKey = [JStr ''system-metrics''],
     queryRequest = api_get (''/metrics/system?limit='' @ show_nat MAX_POINTS),
     queryEnabled = canViewSystemMetrics auth\<rparr>"

definition dashHistoryEffect ::
  "(int \<Rightarrow> string) \<Rightarrow> (int \<times> SystemData) list option \<Rightarrow> DashboardState \<Rightarrow> DashboardState" where
  "dashHistoryEffect fmt historyData st =
    (case historyData of
       None \<Rightarrow> st
     | Some ms \<Rightarrow>
         if dash_initialized st then st
         else let parsed = map (parseDashApiMetric fmt) ms
              in (if parsed = [] then st
                  else st\<lparr>dash_metrics := parsed, dash_current := DashboardCurrent.truncate (last parsed)\<rparr>)
                   \<lparr>dash_initialized := True\<rparr>)"

datatype DashMessage =
    SystemMetrics int SystemData
  | ServerMetrics "string option" MetricData
  | OtherMessage

definition onDashMessage ::
  "(int \<Rightarrow> string) \<Rightarrow> AuthState \<Rightarrow> DashMessage \<Rightarrow> DashboardState \<Rightarrow> DashboardState" where
  "onDashMessage fmt auth msg st =
    (if \<not> canViewSystemMetrics auth then st
     else case msg of
         SystemMetrics now d \<Rightarrow>
           (let point = parseDashWsMetric fmt now d
            in st\<lparr>dash_current := DashboardCurrent.truncate point,
                  dash_metrics := last_n MAX_POINTS (dash_metrics st @ [point])\<rparr>)
       | ServerMetrics (Some (c # cs)) d \<Rightarrow> st\<lparr>dash_servers := (dash_servers st)(c # cs \<mapsto> server_load d)\<rparr>
       | _ \<Rightarrow> st)"

lemma dashboard_window:
  "length (dash_metrics st) \<le> MAX_POINTS \<Longrightarrow> length (dash_metrics (onDashMessage fmt auth msg st)) \<le> MAX_POINTS"
  by (auto simp: onDashMessage_def Let_def split: DashMessage.splits option.splits list.splits)

lemma dashboard_needs_admin:
  "\<not> canViewSystemMetrics auth \<Longrightarrow>
    \<not> queryEnabled (useDashboardMetrics_query auth) \<and> onDashMessage fmt auth msg st = st"
  by (simp add: useDashboardMetrics_query_def onDashMessage_def)

subsection \<open>Rates\<close>

record CounterSample =
  sample_t :: int
  sample_value :: rat

definition counterRate :: "CounterSample option \<Rightarrow> CounterSample \<Rightarrow> rat" where
  "counterRate prev cur =
    (case prev of
       None \<Rightarrow> 0
     | Some p \<Rightarrow>
         let dt = of_int (sample_t cur - sample_t p) / 1000;
             delta = sample_value cur - sample_value p
         in if dt \<le> 0 then 0 else if delta \<le> 0 then 0 else delta / dt)"

record ComputedTask =
  pid :: int
  cpu_time_seconds :: rat
  cpu_percent :: rat
  mem_percent :: rat
  rss_bytes :: rat

record TaskSnapshot =
  snap_t :: int
  byPid :: "int \<Rightarrow> rat option"

text \<open>\<^verbatim>\<open>new Map(entries)\<close> keeps the last value of a repeated key.\<close>

definition snapshot_of :: "ComputedTask list \<Rightarrow> int \<Rightarrow> TaskSnapshot" where
  "snapshot_of tasks now = \<lparr>snap_t = now, byPid = map_of (rev (map (\<lambda>t. (pid t, cpu_time_seconds t)) tasks))\<rparr>"

definition task_cores :: "TaskSnapshot option \<Rightarrow> int \<Rightarrow> ComputedTask \<Rightarrow> rat" where
  "task_cores prev now t =
    (case prev of
       None \<Rightarrow> 0
     | Some s \<Rightarrow>
         (case byPid s (pid t) of
            None \<Rightarrow> 0
          | Some prevTime \<Rightarrow>
              counterRate (Some \<lparr>sample_t = snap_t s, sample_value = prevTime\<rparr>)
                \<lparr>sample_t = now, sample_value = cpu_time_seconds t\<rparr>))"

definition positive_limit :: "rat option \<Rightarrow> rat option" where
  "positive_limit v = (case v of Some x \<Rightarrow> if x > 0 then Some x else None | None \<Rightarrow> None)"

definition computeTaskRates ::
  "ComputedTask list \<Rightarrow> TaskSnapshot option \<Rightarrow> int \<Rightarrow> rat option \<Rightarrow> rat option
    \<Rightarrow> ComputedTask list \<times> TaskSnapshot" where
  "computeTaskRates tasks prev now allocatedCpu allocatedMemoryBytes =
    (map (\<lambda>t. t\<lparr>
       cpu_percent := (case positive_limit allocatedCpu of
           Some a \<Rightarrow> (task_cores prev now t / a) * 100 | None \<Rightarrow> task_cores prev now t * 100),
       mem_percent := (case positive_limit allocatedMemoryBytes of
           Some m \<Rightarrow> (rss_bytes t / m) * 100 | None \<Rightarrow> mem_percent t)\<rparr>) tasks,
     snapshot_of tasks now)"

lemma counterRate_nonneg: "0 \<le> counterRate prev cur"
  by (auto simp: counterRate_def Let_def split: option.splits)

lemma task_cores_nonneg: "0 \<le> task_cores prev now t"
  by (auto simp: task_cores_def counterRate_nonneg split: option.splits)

lemma snapshot_lookup:
  "distinct (map pid tasks) \<Longrightarrow> t \<in> set tasks \<Longrightarrow> byPid (snapshot_of tasks now) (pid t) = Some (cpu_time_seconds t)"
  by (auto simp: snapshot_of_def rev_map[symmetric] comp_def intro!: map_of_is_SomeI)

text \<open>
  The load of a process: two polls \<open>dt\<close> milliseconds apart, between which it used \<open>used\<close> seconds of CPU
  time, give \<open>used\<close> per elapsed second, as a percentage of the allocated cores; a first poll, a clock
  that did not advance and a counter that did not grow give zero, so the value is never negative.
\<close>

theorem task_load:
  assumes "distinct (map pid old)" and "t \<in> set old" and "0 < dt" and "0 \<le> used" and "0 < cores"
  shows "map cpu_percent (fst (computeTaskRates [t\<lparr>cpu_time_seconds := cpu_time_seconds t + used\<rparr>]
        (Some (snd (computeTaskRates old prev t0 (Some cores) mem))) (t0 + dt) (Some cores) mem)) =
      [used / (of_int dt / 1000) / cores * 100] \<and>
    (\<forall>x \<in> set (fst (computeTaskRates old prev t0 (Some cores) mem)). 0 \<le> cpu_percent x) \<and>
    (\<forall>x \<in> set (fst (computeTaskRates old None t0 (Some cores) mem)). cpu_percent x = 0)"
proof -
  have rate: "counterRate (Some \<lparr>sample_t = t0, sample_value = v\<rparr>)
      \<lparr>sample_t = t0 + dt, sample_value = v + used\<rparr> = used / (of_int dt / 1000)" for v
    using assms(3,4) by (auto simp: counterRate_def Let_def)
  have snap: "byPid (snapshot_of old t0) (pid t) = Some (cpu_time_seconds t)" "snap_t (snapshot_of old t0) = t0"
    using snapshot_lookup[OF assms(1,2)] by (simp_all add: snapshot_of_def)
  have "task_cores (Some (snapshot_of old t0)) (t0 + dt) (t\<lparr>cpu_time_seconds := cpu_time_seconds t + used\<rparr>) =
      used / (of_int dt / 1000)"
    by (simp add: task_cores_def snap rate)
  moreover have "0 \<le> task_cores prev t0 x / cores * 100" for x
    using task_cores_nonneg[of prev t0 x] assms(5) by simp
  moreover have "task_cores None t0 x = 0" for x by (simp add: task_cores_def)
  ultimately show ?thesis using assms(5) by (auto simp: computeTaskRates_def positive_limit_def)
qed

theorem task_load_witness:
  "map cpu_percent (fst (computeTaskRates
      [\<lparr>pid = 7, cpu_time_seconds = 12, cpu_percent = 0, mem_percent = 0, rss_bytes = 0\<rparr>]
      (Some (snd (computeTaskRates
         [\<lparr>pid = 7, cpu_time_seconds = 2, cpu_percent = 0, mem_percent = 0, rss_bytes = 0\<rparr>]
         None 0 (Some 4) None))) 5000 (Some 4) None)) = [50]"
proof -
  let ?t = "\<lparr>pid = 7, cpu_time_seconds = 2, cpu_percent = 0, mem_percent = 0, rss_bytes = 0\<rparr>"
  have "distinct (map pid [?t])" "?t \<in> set [?t]" "(0::int) < 5000" "(0::rat) \<le> 10" "(0::rat) < 4" by simp_all
  from task_load[OF this, of None 0 None] show ?thesis by simp
qed

end
