(* ===== verification/Cron.thy ===== *)
theory Cron
  imports Js_Values
begin

text \<open>
  Schedules: \<^verbatim>\<open>lib/cron-utils.ts\<close> and the state of \<^verbatim>\<open>components/cron-builder.tsx\<close>. The functions take text from
  the server through \<^verbatim>\<open>Number\<close> and \<^verbatim>\<open>parseInt\<close>, so numbers are kept as JavaScript sees them: not a number, an
  infinity, or a finite decimal \<open>m * 10 ^ (- s)\<close>. A loop over an infinite range does not return and an
  index outside the table of days throws; both are \<^term>\<open>None\<close>.
\<close>

subsection \<open>Numbers from text\<close>

fun num_le :: "js_num \<Rightarrow> js_num \<Rightarrow> bool" where
  "num_le NaN _ = False"
| "num_le _ NaN = False"
| "num_le (Fin m s) (Fin n t) = (m * 10 ^ t \<le> n * 10 ^ s)"
| "num_le (Infinite neg) (Fin n t) = neg"
| "num_le (Fin m s) (Infinite neg) = (\<not> neg)"
| "num_le (Infinite a) (Infinite b) = (a \<or> \<not> b)"

definition num_eq :: "js_num \<Rightarrow> js_num \<Rightarrow> bool" where
  "num_eq a b = (num_le a b \<and> num_le b a)"

fun num_text :: "js_num \<Rightarrow> string" where
  "num_text NaN = ''NaN''"
| "num_text (Fin m s) = show_decimal m s"
| "num_text (Infinite neg) = (if neg then ''-Infinity'' else ''Infinity'')"

abbreviation whole :: "nat \<Rightarrow> js_num" where
  "whole n \<equiv> Fin (int n) 0"

text \<open>A decimal literal without sign: digits, a fraction, an exponent; the rest of the text is returned.\<close>

definition scan_exponent :: "string \<Rightarrow> int \<times> string" where
  "scan_exponent s =
    (case s of
       c # r \<Rightarrow>
         if c = CHR ''e'' \<or> c = CHR ''E'' then
           (let (sg, ds) = (case r of d # r' \<Rightarrow>
                  if d = CHR ''-'' then (- 1, r') else if d = CHR ''+'' then (1, r') else (1, r) | [] \<Rightarrow> (1, []));
                e = takeWhile is_digit ds
            in if e = [] then (0, s) else (sg * int (read_digits e), drop (length e) ds))
         else (0, s)
     | [] \<Rightarrow> (0, s))"

definition scan_decimal :: "string \<Rightarrow> (js_num \<times> string) option" where
  "scan_decimal s =
    (let ip = takeWhile is_digit s; r = drop (length ip) s;
         fp = (case r of c # r' \<Rightarrow> if c = CHR ''.'' then takeWhile is_digit r' else [] | [] \<Rightarrow> []);
         r2 = (case r of c # r' \<Rightarrow> if c = CHR ''.'' then drop (length fp) r' else r | [] \<Rightarrow> r);
         (e, rest) = scan_exponent r2;
         m = int (read_digits (ip @ fp)); k = e - int (length fp)
     in if ip = [] \<and> fp = [] then None
        else Some (if k \<ge> 0 then Fin (m * 10 ^ nat k) 0 else Fin m (nat (- k)), rest))"

fun num_negate :: "js_num \<Rightarrow> js_num" where
  "num_negate NaN = NaN"
| "num_negate (Fin m s) = Fin (- m) s"
| "num_negate (Infinite b) = Infinite (\<not> b)"

definition radix_digit :: "char \<Rightarrow> nat option" where
  "radix_digit c =
    (let n = (of_char c :: nat)
     in if 48 \<le> n \<and> n \<le> 57 then Some (n - 48)
        else if 97 \<le> n \<and> n \<le> 102 then Some (n - 87)
        else if 65 \<le> n \<and> n \<le> 70 then Some (n - 55) else None)"

fun radix_value :: "nat \<Rightarrow> string \<Rightarrow> nat \<Rightarrow> nat option" where
  "radix_value b [] a = Some a"
| "radix_value b (c # cs) a =
    (case radix_digit c of Some d \<Rightarrow> if d < b then radix_value b cs (b * a + d) else None | None \<Rightarrow> None)"

definition js_Number :: "string \<Rightarrow> js_num" where
  "js_Number s =
    (let t = js_trim s;
         signed = (case t of
           c # r \<Rightarrow> if c = CHR ''-'' then (True, r) else if c = CHR ''+'' then (False, r) else (False, t)
         | [] \<Rightarrow> (False, t));
         neg = fst signed; u = snd signed
     in if t = [] then Fin 0 0
        else if take 2 t \<in> {''0x'', ''0X'', ''0o'', ''0O'', ''0b'', ''0B''} then
          (let b = (if take 2 t \<in> {''0x'', ''0X''} then 16 else if take 2 t \<in> {''0o'', ''0O''} then 8 else 2)
           in if length t = 2 then NaN
              else case radix_value b (drop 2 t) 0 of Some n \<Rightarrow> whole n | None \<Rightarrow> NaN)
        else if u = ''Infinity'' then Infinite neg
        else case scan_decimal u of
            Some (v, []) \<Rightarrow> if neg then num_negate v else v
          | _ \<Rightarrow> NaN)"

text \<open>\<^verbatim>\<open>parseInt\<close> without a radix: hexadecimal after a leading \<open>0x\<close>, decimal otherwise.\<close>

definition is_hex :: "char \<Rightarrow> bool" where
  "is_hex c = (radix_digit c \<noteq> None)"

definition js_parseInt :: "string \<Rightarrow> int option" where
  "js_parseInt s =
    (let t = dropWhile js_space s;
         (sg, r) = (case t of [] \<Rightarrow> (1, [])
                    | c # cs \<Rightarrow> if c = CHR ''-'' then (- 1, cs) else if c = CHR ''+'' then (1, cs) else (1, t))
     in if take 2 r = ''0x'' \<or> take 2 r = ''0X'' then
          (case radix_value 16 (takeWhile is_hex (drop 2 r)) 0 of
             Some n \<Rightarrow> if takeWhile is_hex (drop 2 r) = [] then None else Some (sg * int n) | None \<Rightarrow> None)
        else js_parseInt10 s)"

subsection \<open>Reading and writing expressions\<close>

record Schedule =
  minute :: int
  hour :: int
  days :: "js_num list"

fun range_fin :: "nat \<Rightarrow> int \<Rightarrow> nat \<Rightarrow> js_num list" where
  "range_fin 0 m s = []"
| "range_fin (Suc n) m s = Fin m s # range_fin n (m + 10 ^ s) s"

text \<open>
  \<^verbatim>\<open>for (let i = start; i <= end; i++)\<close>: the number of rounds is known when both ends are finite; with
  an infinite end that is never passed the loop runs forever.
\<close>

definition range_days :: "js_num \<Rightarrow> js_num \<Rightarrow> js_num list option" where
  "range_days from_day to_day =
    (if \<not> num_le from_day to_day then Some []
     else case (from_day, to_day) of
         (Fin m s, Fin n t) \<Rightarrow>
           Some (range_fin (nat ((n * 10 ^ s - m * 10 ^ t) div 10 ^ (s + t)) + 1) m s)
       | _ \<Rightarrow> None)"

definition parse_days :: "string \<Rightarrow> js_num list option" where
  "parse_days dow =
    (if dow = ''*'' then Some (map whole [0, 1, 2, 3, 4, 5, 6])
     else if CHR ''-'' \<in> set dow then
       (case map js_Number (js_split CHR ''-'' dow) of
          a # b # _ \<Rightarrow> range_days a b
        | _ \<Rightarrow> Some [])
     else if CHR '','' \<in> set dow then Some (map js_Number (js_split CHR '','' dow))
     else if js_Number dow \<noteq> NaN then Some [js_Number dow]
     else Some [])"

definition parseCron :: "string \<Rightarrow> Schedule option" where
  "parseCron cron =
    (case js_split CHR '' '' cron of
       [p0, p1, p2, p3, dow] \<Rightarrow>
         map_option (\<lambda>ds. \<lparr>minute = (case js_parseInt p0 of None \<Rightarrow> 0 | Some m \<Rightarrow> m),
             hour = (case js_parseInt p1 of None \<Rightarrow> 9 | Some h \<Rightarrow> h), days = ds\<rparr>) (parse_days dow)
     | _ \<Rightarrow> Some \<lparr>minute = 0, hour = 9, days = map whole [1, 2, 3, 4, 5]\<rparr>)"

fun str_cmp :: "string \<Rightarrow> string \<Rightarrow> int" where
  "str_cmp [] [] = 0"
| "str_cmp [] (b # bs) = - 1"
| "str_cmp (a # as) [] = 1"
| "str_cmp (a # as) (b # bs) = (if a = b then str_cmp as bs else int (of_char a) - int (of_char b))"

definition buildCron :: "int \<Rightarrow> int \<Rightarrow> js_num list \<Rightarrow> string" where
  "buildCron m h ds =
    (let daysStr = (if length ds = 7 \<or> length ds = 0 then ''*''
           else js_join '','' (map num_text (js_sort (\<lambda>a b. str_cmp (num_text a) (num_text b)) ds)))
     in show_int m @ '' '' @ show_int h @ '' * * '' @ daysStr)"

definition day_labels :: "string list" where
  "day_labels = [''Sun'', ''Mon'', ''Tue'', ''Wed'', ''Thu'', ''Fri'', ''Sat'']"

definition day_label :: "js_num \<Rightarrow> string option" where
  "day_label d = map_option snd (find (\<lambda>(i, l). num_eq d (whole i)) (zip [0..<7] day_labels))"

fun all_some :: "'a option list \<Rightarrow> 'a list option" where
  "all_some [] = Some []"
| "all_some (x # xs) = (case x of None \<Rightarrow> None | Some v \<Rightarrow> map_option (\<lambda>vs. v # vs) (all_some xs))"

definition humanizeSchedule :: "int \<Rightarrow> int \<Rightarrow> js_num list \<Rightarrow> string option" where
  "humanizeSchedule m h ds =
    (let time = js_padStart2 (show_int h) @ '':'' @ js_padStart2 (show_int m)
     in if length ds = 7 then Some (''Every day at '' @ time)
        else if length ds = 5 \<and> list_all2 num_eq ds (map whole [1, 2, 3, 4, 5]) then Some (''Weekdays at '' @ time)
        else if length ds = 2 \<and> list_ex (\<lambda>d. num_eq d (whole 0)) ds \<and> list_ex (\<lambda>d. num_eq d (whole 6)) ds
        then Some (''Weekends at '' @ time)
        else if length ds = 1 then map_option (\<lambda>l. l @ '' at '' @ time) (day_label (hd ds))
        else map_option (\<lambda>ls. js_join '', '' ls @ '' at '' @ time) (all_some (map day_label ds)))"

subsection \<open>The builder\<close>

record BuilderState = Schedule +
  isPM :: bool
  minuteMode :: bool

definition builder_load :: "Schedule \<Rightarrow> BuilderState" where
  "builder_load p = \<lparr>minute = minute p, hour = hour p, days = days p, isPM = (hour p \<ge> 12), minuteMode = False\<rparr>"

definition num_cmp :: "js_num \<Rightarrow> js_num \<Rightarrow> int" where
  "num_cmp a b = (if num_eq a b \<or> a = NaN \<or> b = NaN then 0 else if num_le a b then - 1 else 1)"

definition toggleDay :: "nat \<Rightarrow> BuilderState \<Rightarrow> BuilderState" where
  "toggleDay day st =
    st\<lparr>days :=
      (if list_ex (\<lambda>d. num_eq d (whole day)) (days st)
       then let filtered = filter (\<lambda>d. \<not> num_eq d (whole day)) (days st)
            in if filtered = [] then [whole day] else filtered
       else js_sort num_cmp (days st @ [whole day]))\<rparr>"

definition clock_hour :: "int \<Rightarrow> int" where
  "clock_hour h = (if h = 0 then 12 else if h > 12 then h - 12 else h)"

definition handleHourClick :: "int \<Rightarrow> BuilderState \<Rightarrow> BuilderState" where
  "handleHourClick clockHour st =
    st\<lparr>hour := (if clockHour = 12 then (if isPM st then 12 else 0)
               else if isPM st then clockHour + 12 else clockHour), minuteMode := True\<rparr>"

definition handlePeriodChange :: "bool \<Rightarrow> BuilderState \<Rightarrow> BuilderState" where
  "handlePeriodChange pm st =
    (let h12 = clock_hour (hour st)
     in st\<lparr>isPM := pm, hour := (if h12 = 12 then (if pm then 12 else 0) else if pm then h12 + 12 else h12)\<rparr>)"

text \<open>The arrows next to the minutes; \<^verbatim>\<open>%\<close> takes the sign of its left operand.\<close>

definition js_rem :: "int \<Rightarrow> int \<Rightarrow> int" where
  "js_rem a b = sgn a * (\<bar>a\<bar> mod \<bar>b\<bar>)"

definition minuteDown :: "BuilderState \<Rightarrow> BuilderState" where
  "minuteDown st = st\<lparr>minute := js_rem (minute st - 1 + 60) 60\<rparr>"

definition minuteUp :: "BuilderState \<Rightarrow> BuilderState" where
  "minuteUp st = st\<lparr>minute := js_rem (minute st + 1) 60\<rparr>"

definition setMinute :: "int \<Rightarrow> BuilderState \<Rightarrow> BuilderState" where
  "setMinute m st = st\<lparr>minute := m\<rparr>"

definition emitted :: "BuilderState \<Rightarrow> string" where
  "emitted st = buildCron (minute st) (hour st) (days st)"

subsection \<open>Round trip\<close>

lemma digit_cases: "d < (7::nat) \<Longrightarrow> d = 0 \<or> d = 1 \<or> d = 2 \<or> d = 3 \<or> d = 4 \<or> d = 5 \<or> d = 6"
  by linarith

lemma num_text_whole [simp]: "num_text (whole n) = show_nat n"
  by (simp add: show_int_def)

lemma num_whole [simp]:
  "num_le (whole a) (whole b) \<longleftrightarrow> a \<le> b" "num_eq (whole a) (whole b) \<longleftrightarrow> a = b"
  "num_cmp (whole a) (whole b) = (if a = b then 0 else if a < b then - 1 else 1)"
  by (auto simp: num_eq_def num_cmp_def)

lemma digit_chars:
  "digit_char 0 = CHR ''0''" "digit_char 1 = CHR ''1''" "digit_char (Suc 0) = CHR ''1''"
  "digit_char 2 = CHR ''2''" "digit_char 3 = CHR ''3''" "digit_char 4 = CHR ''4''"
  "digit_char 5 = CHR ''5''" "digit_char 6 = CHR ''6''"
  by (simp_all add: digit_char_def char_of_def bit_Suc_0_iff)

lemma show_nat_digit: "d < 7 \<Longrightarrow> show_nat d = [digit_char d]"
  by (simp add: show_nat.simps)

lemma str_cmp_digits: "a < 7 \<Longrightarrow> b < 7 \<Longrightarrow> a \<le> b \<Longrightarrow> str_cmp (show_nat a) (show_nat b) \<le> 0"
  by (simp add: show_nat_digit of_char_digit_char)

lemma js_Number_digit:
  assumes "d < 7"
  shows "js_Number (show_nat d) = whole d"
  using digit_cases[OF assms]
  by (elim disjE) (simp_all add: js_Number_def js_trim_def js_space_def scan_decimal_def scan_exponent_def
      show_nat_digit digit_chars is_digit_def read_digits_def digit_val_def)

lemma js_parseInt_show_nat: "js_parseInt (show_nat n) = Some (int n)"
proof -
  have digits: "\<And>c. c \<in> set (show_nat n) \<Longrightarrow> is_digit c" by (rule show_nat_digits)
  obtain c cs where s: "show_nat n = c # cs" by (cases "show_nat n") auto
  have c: "\<not> js_space c" "c \<noteq> CHR ''-''" "c \<noteq> CHR ''+''"
    using digits[of c] digit_not_space digit_not_sep by (auto simp: s)
  have "take 2 (c # cs) \<noteq> CHR ''0'' # [x]" if "x = CHR ''x'' \<or> x = CHR ''X''" for x
  proof
    assume "take 2 (c # cs) = CHR ''0'' # [x]"
    then have "x \<in> set (show_nat n)" using s by (metis in_set_takeD list.set_intros(1) list.set_intros(2))
    with digits[of x] that show False by (auto simp: is_digit_def)
  qed
  from this[of "CHR ''x''"] this[of "CHR ''X''"] c show ?thesis
    using js_parseInt10_show_nat[of n] by (auto simp: js_parseInt_def s Let_def)
qed

definition week :: "nat list \<Rightarrow> bool" where
  "week ds \<longleftrightarrow> sorted_wrt (<) ds \<and> set ds \<subseteq> {..<7} \<and> ds \<noteq> []"

lemma week_length: "week ds \<Longrightarrow> length ds = 7 \<Longrightarrow> ds = [0, 1, 2, 3, 4, 5, 6]"
proof -
  assume w: "week ds" "length ds = 7"
  then have "distinct ds" "sorted ds" by (auto simp: week_def strict_sorted_iff)
  moreover from w calculation have "card (set ds) = 7" by (simp add: distinct_card)
  with w have "set ds = {..<7}" by (intro card_subset_eq) (auto simp: week_def)
  ultimately have "ds = sorted_list_of_set {..<7}" using sorted_list_of_set.idem_if_sorted_distinct[of ds] by simp
  also have "\<dots> = [0..<7]" by (metis atLeast_upt sorted_list_of_set_range atLeast0LessThan)
  finally show ?thesis by (simp add: upt_rec)
qed

lemma week_sort: "week ds \<Longrightarrow> js_sort (\<lambda>a b. str_cmp (num_text a) (num_text b)) (map whole ds) = map whole ds"
  by (intro js_sort_sorted)
    (auto simp: week_def sorted_wrt_map intro!: str_cmp_digits elim!: sorted_wrt_mono_rel[rotated])

lemma parse_days_text:
  assumes w: "week ds" and "length ds \<noteq> 7"
  shows "parse_days (js_join '','' (map show_nat ds)) = Some (map whole ds)"
proof -
  let ?t = "js_join '','' (map show_nat ds)"
  have digit: "\<And>d c. c \<in> set (show_nat d) \<Longrightarrow> is_digit c" by (rule show_nat_digits)
  have split: "js_split CHR '','' ?t = map show_nat ds"
    using w digit digit_not_sep by (intro js_split_join) (auto simp: week_def)
  have nums: "\<forall>d \<in> set ds. js_Number (show_nat d) = whole d"
    using w by (auto simp: week_def js_Number_digit)
  show ?thesis
  proof (cases ds)
    case (Cons d rest)
    then have d: "d < 7" using w by (simp add: week_def)
    show ?thesis
    proof (cases rest)
      case Nil
      with Cons d js_Number_digit[OF d] digit_cases[OF d] show ?thesis
        by (auto simp: parse_days_def show_nat_digit digit_chars)
    next
      case (Cons e more)
      have chars: "c \<in> set ?t \<Longrightarrow> is_digit c \<or> c = CHR '',''" for c
        using set_js_join[of "'',''" "map show_nat ds"] digit by fastforce
      have "CHR ''-'' \<notin> set ?t" "?t \<noteq> ''*''" using chars by (fastforce simp: is_digit_def)+
      moreover have "CHR '','' \<in> set ?t" using Cons \<open>ds = d # rest\<close> by simp
      ultimately show ?thesis by (simp add: parse_days_def split nums)
    qed
  qed (use w in \<open>simp add: week_def\<close>)
qed

lemma js_split_cron:
  assumes "CHR '' '' \<notin> set d"
  shows "js_split CHR '' '' (show_nat m @ '' '' @ show_nat h @ '' * * '' @ d) = [show_nat m, show_nat h, ''*'', ''*'', d]"
proof -
  have "CHR '' '' \<notin> set (show_nat n)" for n using show_nat_digits digit_not_sep by blast
  then have "js_split CHR '' '' (show_nat m @ CHR '' '' # show_nat h @ CHR '' '' # ''*'' @ CHR '' '' # ''*'' @ CHR '' '' # d) =
      [show_nat m, show_nat h, ''*'', ''*'', d]"
    using assms by (simp add: js_split_append js_split_no_sep)
  then show ?thesis by simp
qed

lemma parse_build:
  assumes w: "week ds"
  shows "parseCron (buildCron (int m) (int h) (map whole ds)) = Some \<lparr>minute = int m, hour = int h, days = map whole ds\<rparr>"
proof (cases "length ds = 7")
  case True
  then show ?thesis using week_length[OF w True] js_split_cron[of "''*''" m h]
    by (simp add: buildCron_def parseCron_def parse_days_def js_parseInt_show_nat show_int_def)
next
  case False
  let ?t = "js_join '','' (map show_nat ds)"
  have "ds \<noteq> []" using w by (simp add: week_def)
  then have "buildCron (int m) (int h) (map whole ds) = show_nat m @ '' '' @ show_nat h @ '' * * '' @ ?t"
    using False week_sort[OF w] by (simp add: buildCron_def show_int_def comp_def)
  moreover have "CHR '' '' \<notin> set ?t"
    using set_js_join[of "'',''" "map show_nat ds"] show_nat_digits digit_not_sep by fastforce
  ultimately show ?thesis
    using js_split_cron[of ?t m h] parse_days_text[OF w False] by (simp add: parseCron_def js_parseInt_show_nat)
qed

text \<open>What the controls of the builder can do.\<close>

inductive builder_step :: "BuilderState \<Rightarrow> BuilderState \<Rightarrow> bool" where
  "d < 7 \<Longrightarrow> builder_step st (toggleDay d st)"
| "1 \<le> c \<Longrightarrow> c \<le> 12 \<Longrightarrow> builder_step st (handleHourClick c st)"
| "builder_step st (handlePeriodChange pm st)"
| "builder_step st (minuteUp st)"
| "builder_step st (minuteDown st)"
| "i < 12 \<Longrightarrow> builder_step st (setMinute (5 * int i) st)"

definition builder_inv :: "BuilderState \<Rightarrow> bool" where
  "builder_inv st \<longleftrightarrow> 0 \<le> minute st \<and> minute st < 60 \<and> 0 \<le> hour st \<and> hour st < 24 \<and>
    (isPM st \<longleftrightarrow> hour st \<ge> 12) \<and> (\<exists>ds. days st = map whole ds \<and> week ds)"

lemma js_insert_insort:
  "sorted (x # xs) \<Longrightarrow> x \<noteq> d \<Longrightarrow>
    js_insert num_cmp (whole x) (map whole (insort d xs)) = map whole (insort d (x # xs))"
proof (cases "x < d")
  case True
  assume s: "sorted (x # xs)"
  have "\<forall>y \<in> set (insort d xs). x \<le> y" using s True by (auto simp: set_insort_key)
  then have "js_insert num_cmp (whole x) (map whole (insort d xs)) = whole x # map whole (insort d xs)"
    by (cases "insort d xs") auto
  with True show ?thesis by simp
next
  case False
  assume s: "sorted (x # xs)" and "x \<noteq> d"
  with False have "d < x" by simp
  with s have "insort d xs = d # xs" by (cases xs) auto
  moreover have "js_insert num_cmp (whole x) (map whole xs) = whole x # map whole xs" using s by (cases xs) auto
  ultimately show ?thesis using \<open>d < x\<close> by simp
qed

lemma js_sort_insort:
  "sorted xs \<Longrightarrow> d \<notin> set xs \<Longrightarrow> js_sort num_cmp (map whole xs @ [whole d]) = map whole (insort d xs)"
  by (induction xs) (simp_all add: js_insert_insort del: insort_key.simps(2))

lemma toggleDay_week:
  assumes "days st = map whole ds" and w: "week ds" and "d < 7"
  shows "\<exists>es. days (toggleDay d st) = map whole es \<and> week es"
proof (cases "d \<in> set ds")
  case True
  have f: "filter (\<lambda>x. \<not> num_eq x (whole d)) (map whole ds) = map whole (filter (\<lambda>x. x \<noteq> d) ds)"
    by (simp add: filter_map comp_def)
  have "list_ex (\<lambda>x. num_eq x (whole d)) (map whole ds)" using True by (auto simp: list_ex_iff)
  then have "days (toggleDay d st) = map whole (if filter (\<lambda>x. x \<noteq> d) ds = [] then [d] else filter (\<lambda>x. x \<noteq> d) ds)"
    using assms(1) f by (simp add: toggleDay_def Let_def)
  moreover have "week (if filter (\<lambda>x. x \<noteq> d) ds = [] then [d] else filter (\<lambda>x. x \<noteq> d) ds)"
    using w assms(3) by (auto simp: week_def sorted_wrt_filter)
  ultimately show ?thesis by blast
next
  case False
  then have "\<not> list_ex (\<lambda>x. num_eq x (whole d)) (map whole ds)" by (auto simp: list_ex_iff)
  moreover have "sorted ds" "distinct ds" using w by (auto simp: week_def strict_sorted_iff)
  ultimately have "days (toggleDay d st) = map whole (insort d ds)"
    using assms(1) js_sort_insort[of ds d] False by (simp add: toggleDay_def)
  moreover have "week (insort d ds)"
    using w False assms(3) \<open>sorted ds\<close> \<open>distinct ds\<close>
    by (auto simp: week_def strict_sorted_iff sorted_insort distinct_insort set_insort_key)
  ultimately show ?thesis by blast
qed

lemma toggleDay_frame:
  "minute (toggleDay d st) = minute st" "hour (toggleDay d st) = hour st" "isPM (toggleDay d st) = isPM st"
  by (simp_all add: toggleDay_def)

lemma builder_inv_step:
  assumes "builder_inv st" and "builder_step st st'"
  shows "builder_inv st'"
  using assms(2)
proof cases
  case (1 d)
  from assms(1) obtain ds where "days st = map whole ds" "week ds" by (auto simp: builder_inv_def)
  from toggleDay_week[OF this 1(2)] assms(1) show ?thesis by (simp add: 1(1) builder_inv_def toggleDay_frame)
next
  case (2 c)
  then show ?thesis using assms(1) by (auto simp: builder_inv_def handleHourClick_def)
next
  case (3 pm)
  then show ?thesis using assms(1) by (auto simp: builder_inv_def handlePeriodChange_def clock_hour_def Let_def)
next
  case 4
  then show ?thesis using assms(1) by (auto simp: builder_inv_def minuteUp_def js_rem_def)
next
  case 5
  then show ?thesis using assms(1) by (auto simp: builder_inv_def minuteDown_def js_rem_def)
next
  case (6 i)
  then show ?thesis using assms(1) by (auto simp: builder_inv_def setMinute_def)
qed

definition well_formed :: "Schedule \<Rightarrow> bool" where
  "well_formed p \<longleftrightarrow> 0 \<le> minute p \<and> minute p < 60 \<and> 0 \<le> hour p \<and> hour p < 24 \<and>
    (\<exists>ds. days p = map whole ds \<and> week ds)"

interpretation builder_sys: transition_system "\<lambda>st. \<exists>p. well_formed p \<and> st = builder_load p" builder_step builder_inv
proof
  show "\<exists>p. well_formed p \<and> st = builder_load p \<Longrightarrow> builder_inv st" for st
    by (auto simp: well_formed_def builder_inv_def builder_load_def)
  show "builder_inv st \<Longrightarrow> builder_step st st' \<Longrightarrow> builder_inv st'" for st st' by (rule builder_inv_step)
qed

lemma builder_reachable:
  assumes "well_formed p" and "builder_step\<^sup>*\<^sup>* (builder_load p) st"
  shows "builder_inv st" and "parseCron (emitted st) = Some \<lparr>minute = minute st, hour = hour st, days = days st\<rparr>"
proof -
  show inv: "builder_inv st" using builder_sys.reachable_inv[OF _ assms(2)] assms(1) by blast
  then obtain ds where ds: "0 \<le> minute st" "0 \<le> hour st" "days st = map whole ds" "week ds"
    by (auto simp: builder_inv_def)
  then have "int (nat (minute st)) = minute st" "int (nat (hour st)) = hour st" by simp_all
  with parse_build[OF ds(4), of "nat (minute st)" "nat (hour st)"]
  show "parseCron (emitted st) = Some \<lparr>minute = minute st, hour = hour st, days = days st\<rparr>"
    by (simp only: emitted_def ds(3))
qed

subsection \<open>The builder and its owner\<close>

text \<open>
  The owner holds the expression, \<open>bp_value\<close>. In the mode for presets a click hands one of them on; in the custom mode every
  click works on the builder's own fields, and an effect hands their expression on. Another effect loads the fields anew
  when the expression has changed, before the next click.
\<close>

definition builder_presets :: "string list" where
  "builder_presets = [''0 * * * *'', ''0 */6 * * *'', ''0 9 * * *'', ''0 18 * * *'', ''0 9 * * 1-5'', ''0 9 * * 0,6'']"

record BuilderPage =
  bp_custom :: bool
  bp_builder :: BuilderState
  bp_value :: string

definition reload :: "string \<Rightarrow> BuilderState \<Rightarrow> BuilderState" where
  "reload cron st = (case parseCron cron of None \<Rightarrow> st
     | Some p \<Rightarrow> st\<lparr>minute := minute p, hour := hour p, days := days p, isPM := (hour p \<ge> 12)\<rparr>)"

definition mountBuilder :: "string \<Rightarrow> Schedule \<Rightarrow> BuilderPage" where
  "mountBuilder v parsed = \<lparr>bp_custom = False, bp_builder = builder_load parsed, bp_value = v\<rparr>"

definition reportBuilder :: "BuilderPage \<Rightarrow> BuilderPage" where
  "reportBuilder s = (if bp_custom s then s\<lparr>bp_value := emitted (bp_builder s)\<rparr> else s)"

definition reloadBuilder :: "string \<Rightarrow> BuilderPage \<Rightarrow> BuilderPage" where
  "reloadBuilder old s = (if bp_value s = old then s else s\<lparr>bp_builder := reload (bp_value s) (bp_builder s)\<rparr>)"

datatype BuilderEvent = Mode_click bool | Clock_mode_click bool | Preset_click nat | Day_click nat | Hour_click nat
  | Period_click bool | Minute_up_click | Minute_down_click | Minute_click nat

definition in_custom :: "(BuilderState \<Rightarrow> bool) \<Rightarrow> (BuilderState \<Rightarrow> BuilderState) \<Rightarrow> BuilderPage \<Rightarrow> BuilderPage" where
  "in_custom shown f s = (if bp_custom s \<and> shown (bp_builder s) then s\<lparr>bp_builder := f (bp_builder s)\<rparr> else s)"

fun builder_click :: "BuilderEvent \<Rightarrow> BuilderPage \<Rightarrow> BuilderPage" where
  "builder_click (Mode_click custom) s = s\<lparr>bp_custom := custom\<rparr>"
| "builder_click (Clock_mode_click m) s = in_custom (\<lambda>st. True) (\<lambda>st. st\<lparr>minuteMode := m\<rparr>) s"
| "builder_click (Preset_click i) s = (if \<not> bp_custom s \<and> i < length builder_presets then s\<lparr>bp_value := builder_presets ! i\<rparr> else s)"
| "builder_click (Day_click d) s = in_custom (\<lambda>st. d < 7) (toggleDay d) s"
| "builder_click (Hour_click i) s = in_custom (\<lambda>st. \<not> minuteMode st \<and> i < 12) (handleHourClick (if i = 0 then 12 else int i)) s"
| "builder_click (Period_click pm) s = in_custom (\<lambda>st. \<not> minuteMode st) (handlePeriodChange pm) s"
| "builder_click Minute_up_click s = in_custom minuteMode minuteUp s"
| "builder_click Minute_down_click s = in_custom minuteMode minuteDown s"
| "builder_click (Minute_click i) s = in_custom (\<lambda>st. minuteMode st \<and> i < 12) (setMinute (5 * int i)) s"

definition builder_event :: "BuilderEvent \<Rightarrow> BuilderPage \<Rightarrow> BuilderPage" where
  "builder_event e s = reloadBuilder (bp_value s) (reportBuilder (builder_click e s))"

definition shown_schedule :: "BuilderState \<Rightarrow> Schedule" where
  "shown_schedule st = \<lparr>minute = minute st, hour = hour st, days = days st\<rparr>"

definition builder_page_inv :: "string \<Rightarrow> BuilderPage \<Rightarrow> bool" where
  "builder_page_inv v s \<longleftrightarrow> builder_inv (bp_builder s) \<and> parseCron (bp_value s) = Some (shown_schedule (bp_builder s)) \<and>
     (bp_custom s \<longrightarrow> bp_value s = emitted (bp_builder s)) \<and>
     (bp_value s = v \<or> bp_value s \<in> set builder_presets \<or> bp_value s = emitted (bp_builder s))"

lemma emitted_shown:
  assumes "builder_inv st"
  shows "parseCron (emitted st) = Some (shown_schedule st)" and "reload (emitted st) st = st"
proof -
  from assms obtain ds where ds: "0 \<le> minute st" "0 \<le> hour st" "days st = map whole ds" "week ds" "isPM st \<longleftrightarrow> hour st \<ge> 12"
    by (auto simp: builder_inv_def)
  then have "int (nat (minute st)) = minute st" "int (nat (hour st)) = hour st" by simp_all
  with parse_build [OF ds(4), of "nat (minute st)" "nat (hour st)"]
  show e: "parseCron (emitted st) = Some (shown_schedule st)" by (simp only: emitted_def shown_schedule_def ds(3))
  with ds(5) show "reload (emitted st) st = st" by (cases st) (simp add: reload_def shown_schedule_def)
qed

lemma click_builder:
  assumes "builder_inv (bp_builder s)"
  shows "builder_inv (bp_builder (builder_click e s))"
proof -
  have "bp_builder (builder_click e s) = bp_builder s \<or> (\<exists>m. bp_builder (builder_click e s) = (bp_builder s)\<lparr>minuteMode := m\<rparr>) \<or>
      builder_step (bp_builder s) (bp_builder (builder_click e s))"
    by (cases e) (auto simp: in_custom_def intro: builder_step.intros)
  moreover have "builder_inv (st\<lparr>minuteMode := m\<rparr>) = builder_inv st" for st m by (simp add: builder_inv_def)
  ultimately show ?thesis using assms builder_inv_step by metis
qed

lemma click_value: "bp_value (builder_click e s) = bp_value s \<and> (bp_custom s \<or> bp_builder (builder_click e s) = bp_builder s) \<or>
    \<not> bp_custom (builder_click e s) \<and> bp_value (builder_click e s) \<in> set builder_presets \<and> bp_builder (builder_click e s) = bp_builder s"
  by (cases e) (auto simp: in_custom_def)

lemma preset_readings: "map parseCron builder_presets =
    [Some \<lparr>minute = 0, hour = 9, days = map whole [0, 1, 2, 3, 4, 5, 6]\<rparr>, Some \<lparr>minute = 0, hour = 9, days = map whole [0, 1, 2, 3, 4, 5, 6]\<rparr>,
     Some \<lparr>minute = 0, hour = 9, days = map whole [0, 1, 2, 3, 4, 5, 6]\<rparr>, Some \<lparr>minute = 0, hour = 18, days = map whole [0, 1, 2, 3, 4, 5, 6]\<rparr>,
     Some \<lparr>minute = 0, hour = 9, days = map whole [1, 2, 3, 4, 5]\<rparr>, Some \<lparr>minute = 0, hour = 9, days = map whole [0, 6]\<rparr>]"
  by code_simp

lemma preset_loaded:
  assumes "cron \<in> set builder_presets"
  shows "builder_inv (reload cron st) \<and> parseCron cron = Some (shown_schedule (reload cron st))"
proof -
  have w: "week [0, 1, 2, 3, 4, 5, 6]" "week [1, 2, 3, 4, 5]" "week [0, 6]" by (simp_all add: week_def)
  have "parseCron cron \<in> set (map parseCron builder_presets)" using assms by simp
  then obtain h ds where "parseCron cron = Some \<lparr>minute = 0, hour = h, days = map whole ds\<rparr>" "h = 9 \<or> h = 18" "week ds"
    unfolding preset_readings list.set insert_iff empty_iff by (elim disjE FalseE) (use w in blast)+
  then show ?thesis by (auto simp: reload_def shown_schedule_def builder_inv_def)
qed

lemma builder_page_inv_event:
  assumes "builder_page_inv v s"
  shows "builder_page_inv v (builder_event e s)"
proof -
  let ?c = "builder_click e s"
  have inv: "builder_inv (bp_builder ?c)" using assms by (simp add: builder_page_inv_def click_builder)
  note shown = emitted_shown [OF inv]
  show ?thesis
  proof (cases "bp_custom ?c")
    case True
    then have "builder_event e s = ?c\<lparr>bp_value := emitted (bp_builder ?c)\<rparr>"
      using shown(2) by (simp add: builder_event_def reportBuilder_def reloadBuilder_def)
    with inv shown(1) True show ?thesis by (simp add: builder_page_inv_def)
  next
    case False
    then show ?thesis
      using click_value [of e s] assms preset_loaded [of "bp_value ?c" "bp_builder s"] inv
      by (cases e) (auto simp: builder_event_def reportBuilder_def reloadBuilder_def builder_page_inv_def in_custom_def)
  qed
qed

text \<open>
  C36. From an expression that is read as a minute below 60, an hour below 24 and at least one day, whatever the user clicks
  in the builder, presets included: the expression the owner holds is read as the minute, hour and days on display, which
  are in range and match the AM/PM switch. It is the expression the owner began with, a preset, or the one built from the
  display, and always the latter in the custom mode. (What the presets for every hour and for every six hours are read
  as is nine o'clock, see below.)
\<close>

theorem builder_round_trip:
  assumes "parseCron v = Some p" and "well_formed p" and "s = fold builder_event es (mountBuilder v p)"
  shows "parseCron (bp_value s) = Some (shown_schedule (bp_builder s)) \<and> well_formed (shown_schedule (bp_builder s)) \<and>
    (isPM (bp_builder s) \<longleftrightarrow> hour (bp_builder s) \<ge> 12) \<and>
    (bp_value s = v \<or> bp_value s \<in> set builder_presets \<or> bp_value s = emitted (bp_builder s)) \<and>
    (bp_custom s \<longrightarrow> bp_value s = emitted (bp_builder s))"
proof -
  have "builder_page_inv v (mountBuilder v p)"
    using assms(1,2) by (auto simp: builder_page_inv_def mountBuilder_def builder_load_def builder_inv_def well_formed_def shown_schedule_def)
  then have "builder_page_inv v (fold builder_event es (mountBuilder v p))"
    by (induction es rule: rev_induct) (simp_all add: builder_page_inv_event)
  then show ?thesis by (auto simp: assms(3) builder_page_inv_def builder_inv_def well_formed_def shown_schedule_def)
qed

theorem builder_round_trip_witness:
  "let s = fold builder_event [Preset_click 3, Mode_click True, Day_click 2, Clock_mode_click True, Minute_click 6]
       (mountBuilder ''0 9 * * 1-5'' \<lparr>minute = 0, hour = 9, days = map whole [1, 2, 3, 4, 5]\<rparr>)
   in bp_value s = ''30 18 * * 0,1,3,4,5,6'' \<and> parseCron (bp_value s) = Some (shown_schedule (bp_builder s))"
proof -
  let ?p = "\<lparr>minute = 0, hour = 9, days = map whole [1, 2, 3, 4, 5]\<rparr>"
    and ?es = "[Preset_click 3, Mode_click True, Day_click 2, Clock_mode_click True, Minute_click 6]"
  have "parseCron ''0 9 * * 1-5'' = Some ?p" by code_simp
  moreover have "well_formed ?p" by (auto simp: well_formed_def week_def intro!: exI [of _ "[1, 2, 3, 4, 5]"])
  moreover have "bp_value (fold builder_event ?es (mountBuilder ''0 9 * * 1-5'' ?p)) = ''30 18 * * 0,1,3,4,5,6''" by code_simp
  ultimately show ?thesis using builder_round_trip [of "''0 9 * * 1-5''" ?p _ ?es, OF _ _ refl] by (simp add: Let_def)
qed

definition describe :: "string \<Rightarrow> string option" where
  "describe cron = (case parseCron cron of None \<Rightarrow> None | Some s \<Rightarrow> humanizeSchedule (minute s) (hour s) (days s))"

text \<open>
  Expressions outside the builder's own form are misread: the two presets that run every hour and every
  six hours are described as running once a day at nine.
\<close>

theorem hourly_presets_misread:
  "describe ''0 * * * *'' = Some ''Every day at 09:00'' \<and> describe ''0 */6 * * *'' = Some ''Every day at 09:00'' \<and>
   describe ''0 9 * * *'' = Some ''Every day at 09:00'' \<and> describe ''0 9 * * 1-5'' = Some ''Weekdays at 09:00''"
  by code_simp

text \<open>Looking at the custom mode is enough to replace an hourly schedule by one that runs once a day.\<close>

theorem custom_mode_overwrites_hourly:
  assumes "parseCron v = Some p"
  shows "bp_value (builder_event (Mode_click True) (builder_event (Preset_click 0) (mountBuilder v p))) = ''0 9 * * *''"
proof -
  have c: "parseCron ''0 * * * *'' = Some \<lparr>minute = 0, hour = 9, days = map whole [0, 1, 2, 3, 4, 5, 6]\<rparr>" by code_simp
  have b: "buildCron 0 9 (map whole [0, 1, 2, 3, 4, 5, 6]) = ''0 9 * * *''" by code_simp
  have "bp_builder (builder_event (Preset_click 0) (mountBuilder v p)) = reload ''0 * * * *'' (builder_load p)"
    using assms c by (auto simp: builder_event_def mountBuilder_def builder_presets_def reportBuilder_def reloadBuilder_def reload_def builder_load_def)
  with b show ?thesis
    by (simp add: builder_event_def reportBuilder_def reloadBuilder_def emitted_def reload_def c)
qed

theorem custom_mode_overwrites_hourly_witness:
  "bp_value (builder_event (Mode_click True) (builder_event (Preset_click 0)
     (mountBuilder ''30 18 * * *'' \<lparr>minute = 30, hour = 18, days = map whole [0, 1, 2, 3, 4, 5, 6]\<rparr>))) = ''0 9 * * *''"
proof -
  have "parseCron ''30 18 * * *'' = Some \<lparr>minute = 30, hour = 18, days = map whole [0, 1, 2, 3, 4, 5, 6]\<rparr>" by code_simp
  then show ?thesis by (rule custom_mode_overwrites_hourly)
qed

end
