(* ===== verification/Format_Utils.thy ===== *)
theory Format_Utils
  imports Complex_Main Js_Values
begin

text \<open>
  The formatting helpers of \<^verbatim>\<open>frontend/src/lib/utils.ts\<close> and the memory parser of
  \<^verbatim>\<open>frontend/src/lib/task-rates.ts\<close>. A finite number read from text or from the server is a decimal
  \<open>m * 10 ^ (- s)\<close>, as in the theory of JSON values; a time in seconds is a rational. \<^verbatim>\<open>Math.log\<close>,
  multiplication and division are exact. The formatters of \<^verbatim>\<open>Intl\<close> and the constructor of \<^verbatim>\<open>Date\<close>
  belong to the browser and are parameters.
\<close>

subsection \<open>Numbers\<close>

definition js_sign :: "string \<Rightarrow> int \<times> string" where
  "js_sign t = (case t of [] \<Rightarrow> (1, [])
    | c # cs \<Rightarrow> if c = CHR ''-'' then (- 1, cs) else if c = CHR ''+'' then (1, cs) else (1, t))"

definition exponent_part :: "string \<Rightarrow> int" where
  "exponent_part t = (case t of [] \<Rightarrow> 0
    | c # q \<Rightarrow> if c = CHR ''e'' \<or> c = CHR ''E''
        then let (sg, r) = js_sign q; ds = takeWhile is_digit r in if ds = [] then 0 else sg * int (read_digits ds)
        else 0)"

text \<open>
  \<^verbatim>\<open>parseFloat\<close>: the longest prefix that is a decimal literal; \<^term>\<open>None\<close> is \<^verbatim>\<open>NaN\<close>. The literal
  \<^verbatim>\<open>Infinity\<close> is left out, since every argument in the sources has been lower-cased or matched as digits.
\<close>

definition js_parseFloat :: "string \<Rightarrow> (int \<times> nat) option" where
  "js_parseFloat s =
    (let (sg, r) = js_sign (dropWhile js_space s);
         i = takeWhile is_digit r;
         r1 = dropWhile is_digit r;
         f = (case r1 of [] \<Rightarrow> [] | c # q \<Rightarrow> if c = CHR ''.'' then takeWhile is_digit q else []);
         r2 = (case r1 of [] \<Rightarrow> [] | c # q \<Rightarrow> if c = CHR ''.'' then dropWhile is_digit q else r1)
     in if i = [] \<and> f = [] then None
        else let m = sg * int (read_digits (i @ f)); e = exponent_part r2
             in Some (if 0 \<le> e then (m * 10 ^ nat e, length f) else (m, length f + nat (- e))))"

text \<open>
  The integer behind \<^verbatim>\<open>toFixed(d)\<close> of a non-negative quotient: the nearest multiple of \<open>10 ^ (- d)\<close>, the
  larger one when two are equally near.
\<close>

definition fixed_digits :: "nat \<Rightarrow> int \<Rightarrow> int \<Rightarrow> int" where
  "fixed_digits d num den = (2 * num * 10 ^ d + den) div (2 * den)"

definition js_round_div :: "int \<Rightarrow> int \<Rightarrow> int" where
  "js_round_div n d = (2 * n + d) div (2 * d)"

subsection \<open>Sizes\<close>

definition sizes :: "string list" where
  "sizes = [''B'', ''KB'', ''MB'', ''GB'', ''TB'', ''PB'']"

definition size_index :: "int \<Rightarrow> nat \<Rightarrow> nat" where
  "size_index m s = length (takeWhile (\<lambda>j. 1024 ^ j * 10 ^ s \<le> m) [1..<6])"

text \<open>
  \<^verbatim>\<open>formatBytes\<close>: for a negative number the logarithm, the index and the quotient are all \<^verbatim>\<open>NaN\<close>.
  \<^term>\<open>None\<close> is the \<^verbatim>\<open>RangeError\<close> of \<^verbatim>\<open>toFixed\<close>.
\<close>

definition formatBytes :: "js_num option \<Rightarrow> int \<Rightarrow> string option" where
  "formatBytes bytes decimals =
    (case bytes of
       Some (Fin m s) \<Rightarrow>
         if m = 0 then Some ''0 B''
         else let dm = (if decimals < 0 then 0 else nat decimals)
              in if 100 < dm then None
                 else if m < 0 then Some ''NaN undefined''
                 else let i = size_index m s
                      in Some (show_decimal (fixed_digits dm m (10 ^ s * 1024 ^ i)) dm @ '' '' @ sizes ! i)
     | _ \<Rightarrow> Some ''0 B'')"

definition toFixed1 :: "int \<Rightarrow> int \<Rightarrow> string" where
  "toFixed1 num den =
    (let n = fixed_digits 1 num den in show_nat (nat n div 10) @ ''.'' @ show_nat (nat n mod 10))"

definition formatNumber :: "int \<Rightarrow> nat \<Rightarrow> string" where
  "formatNumber m s =
    (if 10 ^ s * 1000000000 \<le> m then toFixed1 m (10 ^ s * 1000000000) @ ''B''
     else if 10 ^ s * 1000000 \<le> m then toFixed1 m (10 ^ s * 1000000) @ ''M''
     else if 10 ^ s * 1000 \<le> m then toFixed1 m (10 ^ s * 1000) @ ''K''
     else show_decimal m s)"

subsection \<open>Plan resources\<close>

definition is_letter :: "char \<Rightarrow> bool" where
  "is_letter c = (let n = (of_char c :: nat) in 65 \<le> n \<and> n \<le> 90 \<or> 97 \<le> n \<and> n \<le> 122)"

text \<open>
  \<^verbatim>\<open>/^([\d.]+)\s*([a-z]+)$/i\<close>: the three classes are disjoint, so the greedy reading is the only one.
\<close>

definition resource_match :: "string \<Rightarrow> (string \<times> string) option" where
  "resource_match v =
    (let num = takeWhile (\<lambda>c. is_digit c \<or> c = CHR ''.'') v;
         unit = dropWhile js_space (dropWhile (\<lambda>c. is_digit c \<or> c = CHR ''.'') v)
     in if num \<noteq> [] \<and> list_all is_letter unit then Some (num, unit) else None)"

definition pretty_units :: "(string \<times> string) list" where
  "pretty_units = [(''b'', ''B''), (''k'', ''KB''), (''kb'', ''KB''), (''m'', ''MB''), (''mb'', ''MB''),
     (''g'', ''GB''), (''gb'', ''GB''), (''t'', ''TB''), (''tb'', ''TB'')]"

text \<open>
  A lookup in an object literal also finds what the literal inherits; of those names only
  \<^verbatim>\<open>constructor\<close> consists of lower-case letters.
\<close>

definition pretty_unit :: "string \<Rightarrow> string" where
  "pretty_unit u =
    (case map_of pretty_units u of
       Some p \<Rightarrow> p
     | None \<Rightarrow> if u = ''constructor'' then ''function Object() { [native code] }'' else js_toUpperCase u)"

definition formatPlanResource :: "string option \<Rightarrow> string" where
  "formatPlanResource value =
    (case value of None \<Rightarrow> ''-''
     | Some v \<Rightarrow> if v = [] then ''-''
         else case resource_match v of None \<Rightarrow> v
          | Some (num, unit) \<Rightarrow>
              if unit = [] then v
              else (case js_parseFloat num of None \<Rightarrow> ''NaN'' | Some (m, s) \<Rightarrow> show_decimal m s) @ '' '' @
                pretty_unit (js_toLowerCase unit))"

text \<open>The keys of \<^verbatim>\<open>multipliers\<close> in the order of the literal: the first that is a suffix decides.\<close>

definition memory_suffixes :: "(char \<times> int) list" where
  "memory_suffixes = [(CHR ''b'', 1), (CHR ''k'', 1024), (CHR ''m'', 1024 ^ 2), (CHR ''g'', 1024 ^ 3),
     (CHR ''t'', 1024 ^ 4)]"

definition parseMemoryString :: "string \<Rightarrow> int option" where
  "parseMemoryString memoryStr =
    (if memoryStr = [] then Some 0
     else let str = js_trim (js_toLowerCase memoryStr)
          in case find (\<lambda>(c, k). js_endsWith str [c]) memory_suffixes of
               Some (c, k) \<Rightarrow> map_option (\<lambda>(m, s). m * k div 10 ^ s) (js_parseFloat (butlast str))
             | None \<Rightarrow> Some (case js_parseInt10 str of None \<Rightarrow> 0 | Some n \<Rightarrow> n))"

definition unit_multipliers :: "(string \<times> int) list" where
  "unit_multipliers = [([], 1), (''b'', 1), (''k'', 1024), (''kb'', 1024), (''m'', 1024 ^ 2), (''mb'', 1024 ^ 2),
     (''g'', 1024 ^ 3), (''gb'', 1024 ^ 3), (''t'', 1024 ^ 4), (''tb'', 1024 ^ 4)]"

text \<open>The outer option is \<^verbatim>\<open>undefined\<close>, the inner one \<^verbatim>\<open>NaN\<close>.\<close>

definition parseMemoryToBytes :: "string option \<Rightarrow> int option option" where
  "parseMemoryToBytes value =
    (case value of None \<Rightarrow> None
     | Some v \<Rightarrow> if v = [] then None
         else case resource_match (js_trim v) of None \<Rightarrow> None
          | Some (num, unit) \<Rightarrow>
              (case js_parseFloat num of None \<Rightarrow> None
               | Some (m, s) \<Rightarrow>
                   (case map_of unit_multipliers (js_toLowerCase unit) of
                      Some k \<Rightarrow> Some (Some (js_round_div (m * k) (10 ^ s)))
                    | None \<Rightarrow> if js_toLowerCase unit = ''constructor'' then Some None else None)))"

subsection \<open>Durations and dates\<close>

definition js_trunc :: "rat \<Rightarrow> int" where
  "js_trunc x = (if 0 \<le> x then \<lfloor>x\<rfloor> else \<lceil>x\<rceil>)"

definition js_rem :: "rat \<Rightarrow> rat \<Rightarrow> rat" where
  "js_rem x y = x - y * of_int (js_trunc (x / y))"

definition formatDuration :: "rat \<Rightarrow> string" where
  "formatDuration seconds =
    (let days = \<lfloor>seconds / 86400\<rfloor>;
         hours = \<lfloor>js_rem seconds 86400 / 3600\<rfloor>;
         minutes = \<lfloor>js_rem seconds 3600 / 60\<rfloor>;
         secs = \<lfloor>js_rem seconds 60\<rfloor>
     in if 0 < days then show_int days @ ''d '' @ show_int hours @ ''h''
        else if 0 < hours then show_int hours @ ''h '' @ show_int minutes @ ''m''
        else if 0 < minutes then show_int minutes @ ''m '' @ show_int secs @ ''s''
        else show_int secs @ ''s'')"

text \<open>\<^verbatim>\<open>/[+-]\d{2}:?\d{2}$/\<close>\<close>

definition ends_with_offset :: "string \<Rightarrow> bool" where
  "ends_with_offset s =
    (let sign = (\<lambda>c. c = CHR ''+'' \<or> c = CHR ''-'')
     in case last_n 6 s of
          [c1, c2, c3, c4, c5, c6] \<Rightarrow>
            sign c1 \<and> is_digit c2 \<and> is_digit c3 \<and> c4 = CHR '':'' \<and> is_digit c5 \<and> is_digit c6 \<or>
            sign c2 \<and> is_digit c3 \<and> is_digit c4 \<and> is_digit c5 \<and> is_digit c6
        | [c2, c3, c4, c5, c6] \<Rightarrow> sign c2 \<and> is_digit c3 \<and> is_digit c4 \<and> is_digit c5 \<and> is_digit c6
        | _ \<Rightarrow> False)"

text \<open>The text that \<^verbatim>\<open>parseUtcDate\<close> hands to the constructor of \<^verbatim>\<open>Date\<close>.\<close>

definition normalizeUtc :: "string \<Rightarrow> string" where
  "normalizeUtc date =
    (if js_includes date CHR ''T'' \<and> \<not> js_endsWith date ''Z'' \<and> \<not> ends_with_offset date
     then date @ ''Z'' else date)"

definition parseUtcDate :: "(string \<Rightarrow> 'd) \<Rightarrow> 'd + string \<Rightarrow> 'd" where
  "parseUtcDate new_Date date = (case date of Inl d \<Rightarrow> d | Inr s \<Rightarrow> new_Date (normalizeUtc s))"

definition formatDate :: "(string \<Rightarrow> 'd) \<Rightarrow> (string \<Rightarrow> 'd \<Rightarrow> string) \<Rightarrow> string \<Rightarrow> 'd + string \<Rightarrow> string" where
  "formatDate new_Date intl effectiveZone date = intl effectiveZone (parseUtcDate new_Date date)"

datatype RelUnit = Day | Hour | Minute | Second

text \<open>\<open>diffMs\<close> is the instant of the date less the current one, in milliseconds; \<open>rtf\<close> the formatter.\<close>

definition formatRelativeTime :: "(int \<Rightarrow> RelUnit \<Rightarrow> 'r) \<Rightarrow> 'r \<Rightarrow> int \<Rightarrow> 'r" where
  "formatRelativeTime rtf date_text diffMs =
    (let diffSec = js_round_div diffMs 1000;
         diffMin = js_round_div diffSec 60;
         diffHour = js_round_div diffMin 60;
         diffDay = js_round_div diffHour 24
     in if 365 \<le> \<bar>diffDay\<bar> then date_text
        else if 1 \<le> \<bar>diffDay\<bar> then rtf diffDay Day
        else if 1 \<le> \<bar>diffHour\<bar> then rtf diffHour Hour
        else if 1 \<le> \<bar>diffMin\<bar> then rtf diffMin Minute
        else rtf diffSec Second)"

subsection \<open>Reading sizes\<close>

definition number_end :: "string \<Rightarrow> bool" where
  "number_end r = (case r of [] \<Rightarrow> True
    | c # _ \<Rightarrow> \<not> is_digit c \<and> c \<noteq> CHR ''.'' \<and> c \<noteq> CHR ''e'' \<and> c \<noteq> CHR ''E'')"

lemma show_nat_head: "\<exists>c cs. show_nat n = c # cs \<and> is_digit c"
  using show_nat_digits [of _ n] by (cases "show_nat n") auto

lemma js_sign_show_nat: "js_sign (dropWhile js_space (show_nat n @ r)) = (1, show_nat n @ r)"
proof -
  obtain c cs where c: "show_nat n = c # cs" "is_digit c" using show_nat_head by blast
  then show ?thesis using digit_not_space [of c] digit_not_sep [of c] by (simp add: js_sign_def)
qed

lemma parseFloat_nat:
  assumes "number_end r"
  shows "js_parseFloat (show_nat n @ r) = Some (int n, 0)"
proof -
  have all: "\<And>c. c \<in> set (show_nat n) \<Longrightarrow> is_digit c" by (rule show_nat_digits)
  have parts: "takeWhile is_digit (show_nat n @ r) = show_nat n" "dropWhile is_digit (show_nat n @ r) = r"
    using all assms by (cases r; simp add: takeWhile_append dropWhile_append number_end_def)+
  show ?thesis
    using assms unfolding js_parseFloat_def js_sign_show_nat Let_def prod.case parts
    by (cases r) (auto simp: number_end_def exponent_part_def)
qed

lemma lower_digit: "is_digit c \<Longrightarrow> js_lower_char c = c"
  by (auto simp: is_digit_def js_lower_char_def)

lemma lower_show_nat: "js_toLowerCase (show_nat n) = show_nat n"
  unfolding js_toLowerCase_def using show_nat_digits lower_digit by (intro map_idI) blast

lemma letter_not_space: "is_letter c \<Longrightarrow> \<not> js_space c \<and> \<not> is_digit c \<and> c \<noteq> CHR ''.''"
  by (auto simp: is_letter_def js_space_def is_digit_def)

lemma trim_resource:
  "list_all is_letter u \<Longrightarrow> js_trim (show_nat n @ u) = show_nat n @ u"
  using show_nat_digits digit_not_space letter_not_space
  by (intro js_trim_id) (auto simp: list_all_iff)

lemma resource_match_nat:
  assumes "list_all is_letter u"
  shows "resource_match (show_nat n @ u) = Some (show_nat n, u)"
proof -
  let ?p = "\<lambda>c. is_digit c \<or> c = CHR ''.''"
  have all: "\<And>c. c \<in> set (show_nat n) \<Longrightarrow> ?p c" using show_nat_digits by blast
  have u: "takeWhile ?p u = []" "dropWhile ?p u = u" "dropWhile js_space u = u"
    using assms letter_not_space by (cases u; auto)+
  then have "takeWhile ?p (show_nat n @ u) = show_nat n" "dropWhile ?p (show_nat n @ u) = u"
    using all by (simp_all add: takeWhile_append dropWhile_append)
  with u(3) assms show ?thesis by (simp add: resource_match_def)
qed

lemma parseMemoryToBytes_nat:
  assumes "list_all is_letter u" and "map_of unit_multipliers (js_toLowerCase u) = Some k"
  shows "parseMemoryToBytes (Some (show_nat n @ u)) = Some (Some (int n * k))"
  using assms parseFloat_nat [of "[]" n]
  by (simp add: parseMemoryToBytes_def trim_resource resource_match_nat number_end_def js_round_div_def)

lemma parseMemoryString_nat:
  assumes "list_all is_letter u" and "js_toLowerCase u = v @ [c]" and "number_end v"
    and "find (\<lambda>(d, k). d = c) memory_suffixes = Some (c, k)"
  shows "parseMemoryString (show_nat n @ u) = Some (int n * k)"
proof -
  have low: "js_toLowerCase (show_nat n @ u) = show_nat n @ v @ [c]"
    using assms(2) lower_show_nat by (simp add: js_toLowerCase_def)
  have "is_letter (js_lower_char a)" if "is_letter a" for a
    using that by (auto simp: is_letter_def js_lower_char_def Let_def)
  then have "list_all is_letter (v @ [c])" unfolding assms(2) [symmetric]
    using assms(1) by (auto simp: js_toLowerCase_def list_all_iff)
  then have trim: "js_trim (show_nat n @ v @ [c]) = show_nat n @ v @ [c]" by (rule trim_resource)
  have ends: "js_endsWith (show_nat n @ v @ [c]) [d] \<longleftrightarrow> d = c" for d
    by (auto simp: js_endsWith_def)
  show ?thesis
    using assms(4) parseFloat_nat [OF assms(3), of n]
    by (simp add: parseMemoryString_def low trim ends butlast_append)
qed

text \<open>
  The two memory parsers of the client agree on sizes written with one unit letter, in either case: they
  give the number times the power of 1024.
\<close>
theorem one_letter_sizes_agree:
  assumes "(c, k) \<in> set memory_suffixes" and "js_lower_char u = c"
  shows "parseMemoryString (show_nat n @ [u]) = Some (int n * k) \<and>
    parseMemoryToBytes (Some (show_nat n @ [u])) = Some (Some (int n * k))"
proof -
  have c: "(c, k) \<in> {(CHR ''b'', 1), (CHR ''k'', 1024), (CHR ''m'', 1024 ^ 2), (CHR ''g'', 1024 ^ 3), (CHR ''t'', 1024 ^ 4)}"
    using assms(1) by (simp add: memory_suffixes_def)
  have "is_letter u"
  proof (rule ccontr)
    assume no: "\<not> is_letter u"
    then have "js_lower_char u = u" by (auto simp: is_letter_def js_lower_char_def Let_def)
    with assms(2) have "u = c" by simp
    with no c show False by (auto simp: is_letter_def)
  qed
  have "find (\<lambda>(d, k). d = c) memory_suffixes = Some (c, k)" using c by (auto simp: memory_suffixes_def)
  moreover have "map_of unit_multipliers [c] = Some k" using c by (auto simp: unit_multipliers_def)
  ultimately show ?thesis
    using parseMemoryString_nat [of "[u]" "[]" c k n] parseMemoryToBytes_nat [of "[u]" k n] \<open>is_letter u\<close> assms(2)
    by (simp add: js_toLowerCase_def number_end_def)
qed

theorem one_letter_sizes_agree_witness:
  "parseMemoryString (show_nat 10 @ ''G'') = Some 10737418240 \<and>
   parseMemoryToBytes (Some (show_nat 10 @ ''G'')) = Some (Some 10737418240)"
proof -
  have "js_lower_char CHR ''G'' = CHR ''g''" by code_simp
  with one_letter_sizes_agree [of "CHR ''g''" "1024 ^ 3" "CHR ''G''" 10] show ?thesis
    by (simp add: memory_suffixes_def)
qed

text \<open>
  They disagree on two-letter units: \<^verbatim>\<open>parseMemoryString\<close> finds the suffix \<open>b\<close> first and reads a limit of
  \<open>n\<close> gigabytes as \<open>n\<close> bytes.
\<close>
theorem two_letter_sizes_differ:
  "parseMemoryString (show_nat n @ ''gb'') = Some (int n) \<and>
   parseMemoryToBytes (Some (show_nat n @ ''gb'')) = Some (Some (int n * 1024 ^ 3))"
  using parseMemoryString_nat [of "''gb''" "''g''" "CHR ''b''" 1 n] parseMemoryToBytes_nat [of "''gb''" "1024 ^ 3" n]
  by (simp add: is_letter_def js_toLowerCase_def js_lower_char_def number_end_def is_digit_def
      memory_suffixes_def unit_multipliers_def)

subsection \<open>Relative times\<close>

definition unit_ms :: "RelUnit \<Rightarrow> int" where
  "unit_ms u = (case u of Day \<Rightarrow> 86400000 | Hour \<Rightarrow> 3600000 | Minute \<Rightarrow> 60000 | Second \<Rightarrow> 1000)"

definition unit_error :: "RelUnit \<Rightarrow> int" where
  "unit_error u = (case u of Day \<Rightarrow> 45030500 | Hour \<Rightarrow> 1830500 | Minute \<Rightarrow> 30500 | Second \<Rightarrow> 500)"

definition unit_range :: "RelUnit \<Rightarrow> int \<Rightarrow> bool" where
  "unit_range u n = (case u of Day \<Rightarrow> 1 \<le> \<bar>n\<bar> \<and> \<bar>n\<bar> < 365 | Hour \<Rightarrow> 1 \<le> \<bar>n\<bar> \<and> - 12 \<le> n \<and> n < 12
     | Minute \<Rightarrow> 1 \<le> \<bar>n\<bar> \<and> - 30 \<le> n \<and> n < 30 | Second \<Rightarrow> - 30 \<le> n \<and> n < 30)"

lemma js_round_div_bounds:
  assumes "0 < d"
  shows "2 * d * js_round_div n d \<le> 2 * n + d" and "2 * n + d < 2 * d * js_round_div n d + 2 * d"
proof -
  let ?q = "(2 * n + d) div (2 * d)" and ?r = "(2 * n + d) mod (2 * d)"
  have "2 * n + d = 2 * d * ?q + ?r" by simp
  moreover have "0 \<le> ?r" "?r < 2 * d" using assms by simp_all
  ultimately show "2 * d * js_round_div n d \<le> 2 * n + d" "2 * n + d < 2 * d * js_round_div n d + 2 * d"
    unfolding js_round_div_def by linarith+
qed

text \<open>
  Relative times are accurate: a difference is shown in a unit with a number in the range of that unit,
  and lies within half a unit, plus the half units of the finer roundings, of what is shown.
\<close>
theorem relative_time_accuracy:
  assumes "formatRelativeTime (\<lambda>n u. Some (n, u)) None d = Some (n, u)"
  shows "unit_range u n \<and> \<bar>d - n * unit_ms u\<bar> \<le> unit_error u"
proof -
  define s where "s = js_round_div d 1000"
  define m where "m = js_round_div s 60"
  define h where "h = js_round_div m 60"
  define y where "y = js_round_div h 24"
  have b: "2000 * s \<le> 2 * d + 1000" "2 * d + 1000 < 2000 * s + 2000" "120 * m \<le> 2 * s + 60"
    "2 * s + 60 < 120 * m + 120" "120 * h \<le> 2 * m + 60" "2 * m + 60 < 120 * h + 120"
    "48 * y \<le> 2 * h + 24" "2 * h + 24 < 48 * y + 48"
    using js_round_div_bounds [of 1000 d] js_round_div_bounds [of 60 s] js_round_div_bounds [of 60 m]
      js_round_div_bounds [of 24 h] by (simp_all add: s_def m_def h_def y_def)
  have "n = y \<and> u = Day \<and> 1 \<le> \<bar>y\<bar> \<and> \<bar>y\<bar> < 365 \<or> n = h \<and> u = Hour \<and> y = 0 \<and> 1 \<le> \<bar>h\<bar> \<or>
    n = m \<and> u = Minute \<and> h = 0 \<and> 1 \<le> \<bar>m\<bar> \<or> n = s \<and> u = Second \<and> m = 0"
    using assms unfolding formatRelativeTime_def Let_def s_def [symmetric] m_def [symmetric]
      h_def [symmetric] y_def [symmetric] by (auto split: if_splits)
  then show ?thesis
  proof (elim disjE conjE)
    assume "n = y" "u = Day" "1 \<le> \<bar>y\<bar>" "\<bar>y\<bar> < 365"
    then show ?thesis using b unfolding unit_range_def unit_ms_def unit_error_def by simp
  next
    assume "n = h" "u = Hour" "y = 0" "1 \<le> \<bar>h\<bar>"
    then show ?thesis using b unfolding unit_range_def unit_ms_def unit_error_def by simp
  next
    assume "n = m" "u = Minute" "h = 0" "1 \<le> \<bar>m\<bar>"
    then show ?thesis using b unfolding unit_range_def unit_ms_def unit_error_def by simp
  next
    assume "n = s" "u = Second" "m = 0"
    then show ?thesis using b unfolding unit_range_def unit_ms_def unit_error_def by simp
  qed
qed

theorem relative_time_accuracy_witness: "unit_range Hour (- 1) \<and> \<bar>- 1860000 - - 1 * unit_ms Hour\<bar> \<le> unit_error Hour"
  by (rule relative_time_accuracy) (simp add: formatRelativeTime_def js_round_div_def)

subsection \<open>Timestamps\<close>

definition time_char :: "char \<Rightarrow> bool" where
  "time_char c = (is_digit c \<or> c = CHR '':'' \<or> c = CHR ''.'')"

lemma ends_with_offset_sign:
  assumes "ends_with_offset s"
  shows "CHR ''+'' \<in> set (last_n 6 s) \<or> CHR ''-'' \<in> set (last_n 6 s)"
  using assms by (auto simp: ends_with_offset_def Let_def split: list.splits)

lemma set_last_n_append: "n \<le> length t \<Longrightarrow> set (last_n n (s @ t)) \<subseteq> set t"
  by (auto simp: last_n_def dest: in_set_dropD)

lemma time_no_offset:
  assumes "list_all time_char t" and "6 \<le> length t"
  shows "\<not> ends_with_offset (s @ t)"
proof
  assume "ends_with_offset (s @ t)"
  then have "CHR ''+'' \<in> set t \<or> CHR ''-'' \<in> set t"
    using ends_with_offset_sign set_last_n_append [OF assms(2)] by blast
  with assms(1) show False by (auto simp: list_all_iff time_char_def is_digit_def)
qed

lemma time_no_Z: "list_all time_char t \<Longrightarrow> t \<noteq> [] \<Longrightarrow> \<not> js_endsWith (s @ t) ''Z''"
  by (cases t rule: rev_cases) (auto simp: js_endsWith_def time_char_def is_digit_def)

lemma normalizeUtc_idem: "normalizeUtc (normalizeUtc s) = normalizeUtc s"
  by (simp add: normalizeUtc_def)

text \<open>
  Server timestamps: a naive timestamp, one whose time has only digits, colons and a point, is read as
  the instant with the designator \<open>Z\<close>; a timestamp that carries \<open>Z\<close> or a numeric offset is read as it
  stands; and reading is insensitive to having been normalised before.
\<close>
theorem timestamps_read_as_utc:
  assumes "list_all time_char t" and "6 \<le> length t" and "ends_with_offset z"
  shows "parseUtcDate new_Date (Inr (d @ ''T'' @ t)) = new_Date (d @ ''T'' @ t @ ''Z'') \<and>
    parseUtcDate new_Date (Inr (d @ ''T'' @ t @ ''Z'')) = new_Date (d @ ''T'' @ t @ ''Z'') \<and>
    parseUtcDate new_Date (Inr z) = new_Date z \<and>
    parseUtcDate new_Date (Inr (normalizeUtc s)) = parseUtcDate new_Date (Inr s)"
proof -
  have "t \<noteq> []" using assms(2) by auto
  then have "\<not> js_endsWith ((d @ ''T'') @ t) ''Z''" "\<not> ends_with_offset ((d @ ''T'') @ t)"
    using assms time_no_Z time_no_offset by blast+
  then have "normalizeUtc (d @ ''T'' @ t) = d @ ''T'' @ t @ ''Z''"
    by (simp add: normalizeUtc_def js_includes_def)
  moreover have "normalizeUtc ((d @ ''T'' @ t) @ ''Z'') = (d @ ''T'' @ t) @ ''Z''"
    unfolding normalizeUtc_def using js_endsWith_append [of "d @ ''T'' @ t" "''Z''"] by presburger
  ultimately show ?thesis using assms(3) by (simp add: parseUtcDate_def normalizeUtc_idem normalizeUtc_def [of z])
qed

theorem timestamps_read_as_utc_witness:
  "parseUtcDate id (Inr (''2026-01-01T12:00:00'')) = ''2026-01-01T12:00:00Z'' \<and>
   parseUtcDate id (Inr ''2026-01-01T12:00:00-08:00'') = ''2026-01-01T12:00:00-08:00''"
proof -
  have "list_all time_char ''12:00:00''" "ends_with_offset ''2026-01-01T12:00:00-08:00''" by code_simp+
  with timestamps_read_as_utc [of "''12:00:00''" "''2026-01-01T12:00:00-08:00''" id "''2026-01-01''" "[]"]
  show ?thesis by simp
qed

subsection \<open>Sizes and durations\<close>

lemma size_index_bounds:
  shows "size_index m s \<le> 5" and "0 < size_index m s \<Longrightarrow> 1024 ^ size_index m s * 10 ^ s \<le> m"
  and "size_index m s < 5 \<Longrightarrow> m < 1024 ^ Suc (size_index m s) * 10 ^ s"
proof -
  let ?P = "\<lambda>j. 1024 ^ j * 10 ^ s \<le> m" and ?L = "[1..<6]"
  have len: "length (takeWhile ?P ?L) \<le> length ?L" by (rule length_takeWhile_le)
  then show "size_index m s \<le> 5" by (simp add: size_index_def)
  show "1024 ^ size_index m s * 10 ^ s \<le> m" if pos: "0 < size_index m s"
  proof -
    let ?i = "size_index m s - 1"
    have i: "?i < length (takeWhile ?P ?L)" using pos by (simp add: size_index_def)
    then have "takeWhile ?P ?L ! ?i = ?L ! ?i" by (rule takeWhile_nth)
    also have "\<dots> = size_index m s" using i len pos by (subst nth_upt) auto
    finally show ?thesis using set_takeWhileD [of _ ?P ?L] nth_mem [OF i] by metis
  qed
  show "m < 1024 ^ Suc (size_index m s) * 10 ^ s" if "size_index m s < 5"
  proof -
    have "\<not> ?P (?L ! size_index m s)"
      unfolding size_index_def using that by (intro nth_length_takeWhile) (simp add: size_index_def)
    moreover have "?L ! size_index m s = Suc (size_index m s)" using that by (subst nth_upt) auto
    ultimately show ?thesis by simp
  qed
qed

lemma half_error:
  fixes a b d :: int
  shows "2 * a \<le> 2 * b + d \<Longrightarrow> 2 * b + d < 2 * a + 2 * d \<Longrightarrow> 2 * \<bar>a - b\<bar> \<le> d"
  by (cases "a \<le> b") simp_all

lemma fixed_digits_error:
  assumes "0 < den"
  shows "2 * \<bar>fixed_digits d num den * den - num * 10 ^ d\<bar> \<le> den"
proof -
  define q where "q = fixed_digits d num den"
  have "q = js_round_div (num * 10 ^ d) den" by (simp add: q_def fixed_digits_def js_round_div_def mult.assoc)
  then have "2 * (q * den) \<le> 2 * (num * 10 ^ d) + den" "2 * (num * 10 ^ d) + den < 2 * (q * den) + 2 * den"
    using js_round_div_bounds [OF assms, of "num * 10 ^ d"] by (simp_all add: algebra_simps)
  then show ?thesis unfolding q_def [symmetric] by (rule half_error)
qed

text \<open>
  A positive size is shown in the unit that makes its number at least 1 and less than 1024 (bytes below,
  petabytes above), rounded to the nearest multiple of the last decimal shown.
\<close>
theorem formatBytes_unit_and_rounding:
  assumes "0 < m" and "0 \<le> decimals" and "decimals \<le> 100"
  shows "\<exists>i n. formatBytes (Some (Fin m s)) decimals = Some (show_decimal n (nat decimals) @ '' '' @ sizes ! i) \<and>
    i \<le> 5 \<and> (0 < i \<longrightarrow> 1024 ^ i * 10 ^ s \<le> m) \<and> (i < 5 \<longrightarrow> m < 1024 ^ Suc i * 10 ^ s) \<and>
    2 * \<bar>n * (10 ^ s * 1024 ^ i) - m * 10 ^ nat decimals\<bar> \<le> 10 ^ s * 1024 ^ i"
proof -
  let ?i = "size_index m s"
  let ?n = "fixed_digits (nat decimals) m (10 ^ s * 1024 ^ ?i)"
  have "formatBytes (Some (Fin m s)) decimals = Some (show_decimal ?n (nat decimals) @ '' '' @ sizes ! ?i)"
    using assms by (simp add: formatBytes_def Let_def nat_le_iff not_less)
  moreover have "2 * \<bar>?n * (10 ^ s * 1024 ^ ?i) - m * 10 ^ nat decimals\<bar> \<le> 10 ^ s * 1024 ^ ?i"
    by (rule fixed_digits_error) simp
  moreover note size_index_bounds(1) [of m s]
  moreover have "0 < ?i \<longrightarrow> 1024 ^ ?i * 10 ^ s \<le> m" "?i < 5 \<longrightarrow> m < 1024 ^ Suc ?i * 10 ^ s"
    using size_index_bounds(2,3) by blast+
  ultimately show ?thesis by (intro exI [of _ ?i] exI [of _ ?n] conjI)
qed

theorem formatBytes_unit_and_rounding_witness:
  "\<exists>i n. formatBytes (Some (Fin 1536 0)) 2 = Some (show_decimal n (nat 2) @ '' '' @ sizes ! i) \<and>
    i \<le> 5 \<and> (0 < i \<longrightarrow> 1024 ^ i * 10 ^ 0 \<le> (1536 :: int)) \<and> (i < 5 \<longrightarrow> (1536 :: int) < 1024 ^ Suc i * 10 ^ 0) \<and>
    2 * \<bar>n * (10 ^ 0 * 1024 ^ i) - 1536 * 10 ^ nat 2\<bar> \<le> 10 ^ 0 * 1024 ^ i"
  by (rule formatBytes_unit_and_rounding) simp_all

lemma rounded_up_size: "formatBytes (Some (Fin 1048575 0)) 2 = Some ''1024 KB''"
  by code_simp

text \<open>A duration in whole seconds, as the integer arithmetic of the decomposition.\<close>

definition duration_text :: "nat \<Rightarrow> string" where
  "duration_text n =
    (if 86400 \<le> n then show_nat (n div 86400) @ ''d '' @ show_nat (n mod 86400 div 3600) @ ''h''
     else if 3600 \<le> n then show_nat (n div 3600) @ ''h '' @ show_nat (n mod 3600 div 60) @ ''m''
     else if 60 \<le> n then show_nat (n div 60) @ ''m '' @ show_nat (n mod 60) @ ''s''
     else show_nat n @ ''s'')"

lemma floor_div:
  assumes "0 < k"
  shows "\<lfloor>(x :: rat) / of_int k\<rfloor> = \<lfloor>x\<rfloor> div k"
proof (rule floor_unique)
  let ?q = "\<lfloor>x\<rfloor> div k"
  have k: "0 < (of_int k :: rat)" using assms by simp
  have q: "k * ?q \<le> \<lfloor>x\<rfloor>" "\<lfloor>x\<rfloor> < k * ?q + k"
    using assms mult_div_mod_eq [of k "\<lfloor>x\<rfloor>"] pos_mod_bound [of k "\<lfloor>x\<rfloor>"] pos_mod_sign [of k "\<lfloor>x\<rfloor>"] by linarith+
  then have "of_int (k * ?q) \<le> x" by (simp add: le_floor_iff)
  then show "of_int ?q \<le> x / of_int k" using k by (simp add: pos_le_divide_eq mult.commute)
  have "x < of_int (k * ?q + k)" using q(2) by (simp add: floor_less_iff)
  then show "x / of_int k < of_int ?q + 1" using k by (simp add: pos_divide_less_eq algebra_simps)
qed

lemma floor_js_rem:
  assumes "0 \<le> x" and "0 < k"
  shows "\<lfloor>js_rem x (of_int k)\<rfloor> = \<lfloor>x\<rfloor> mod k"
proof -
  have "js_trunc (x / of_int k) = \<lfloor>x\<rfloor> div k" using assms by (simp add: js_trunc_def floor_div)
  then have "js_rem x (of_int k) = x - of_int (k * (\<lfloor>x\<rfloor> div k))" by (simp add: js_rem_def)
  then have "\<lfloor>js_rem x (of_int k)\<rfloor> = \<lfloor>x\<rfloor> - k * (\<lfloor>x\<rfloor> div k)" by (simp only: floor_diff_of_int)
  then show ?thesis by (simp add: minus_mult_div_eq_mod)
qed

text \<open>
  Durations: for every non-negative number of seconds, fractions included, the text shows the two
  leading parts of its exact decomposition into days, hours, minutes and whole seconds.
\<close>
theorem formatDuration_decomposes:
  assumes "0 \<le> seconds"
  shows "formatDuration seconds = duration_text (nat \<lfloor>seconds\<rfloor>)"
proof -
  define n where "n = nat \<lfloor>seconds\<rfloor>"
  have n: "\<lfloor>seconds\<rfloor> = int n" using assms by (simp add: n_def)
  note r = floor_js_rem [OF assms, of 86400] floor_js_rem [OF assms, of 3600] floor_js_rem [OF assms, of 60]
  have "\<lfloor>seconds / 86400\<rfloor> = int (n div 86400)"
    using floor_div [of 86400 seconds] by (simp only: n of_int_numeral zdiv_int of_nat_numeral zero_less_numeral simp_thms)
  moreover have "\<lfloor>js_rem seconds 86400 / 3600\<rfloor> = int (n mod 86400 div 3600)"
    using floor_div [of 3600 "js_rem seconds 86400"] r(1) by (simp only: n of_int_numeral zdiv_int zmod_int of_nat_numeral zero_less_numeral simp_thms)
  moreover have "\<lfloor>js_rem seconds 3600 / 60\<rfloor> = int (n mod 3600 div 60)"
    using floor_div [of 60 "js_rem seconds 3600"] r(2) by (simp only: n of_int_numeral zdiv_int zmod_int of_nat_numeral zero_less_numeral simp_thms)
  moreover have "\<lfloor>js_rem seconds 60\<rfloor> = int (n mod 60)"
    using r(3) by (simp only: n of_int_numeral zmod_int of_nat_numeral zero_less_numeral simp_thms)
  ultimately have f: "\<lfloor>seconds / 86400\<rfloor> = int (n div 86400)"
    "\<lfloor>js_rem seconds 86400 / 3600\<rfloor> = int (n mod 86400 div 3600)"
    "\<lfloor>js_rem seconds 3600 / 60\<rfloor> = int (n mod 3600 div 60)" "\<lfloor>js_rem seconds 60\<rfloor> = int (n mod 60)"
    by blast+
  show ?thesis
    unfolding formatDuration_def Let_def f duration_text_def n_def [symmetric]
    by (auto simp: div_greater_zero_iff)
qed

theorem formatDuration_decomposes_witness: "formatDuration (90061 / 2) = duration_text (nat \<lfloor>90061 / 2 :: rat\<rfloor>)"
  by (rule formatDuration_decomposes) simp

end
