(* ===== verification/Shortcuts.thy ===== *)
theory Shortcuts
  imports Auth_Store
begin

text \<open>
  Global keyboard shortcuts: \<^verbatim>\<open>frontend/src/hooks/use-keyboard-shortcuts.ts\<close>, the help dialog that lists
  them (\<^verbatim>\<open>components/feedback/shortcuts-modal.tsx\<close>), and the part of the servers page that answers the
  shortcut for a new server (\<^verbatim>\<open>routes/servers.index.tsx\<close>). The page is what the shortcuts can change:
  the location, the session flag, the custom events sent, the clicks on close buttons, and whether the
  browser's default action for the key was prevented.
\<close>

datatype Modifier = Ctrl | Alt | Shift | Meta | Mod

datatype ShortcutAction = DispatchEvent string | ClickCloseButtons | NavigateTo string | NewServer

record Shortcut =
  sc_key :: string
  sc_modifiers :: "Modifier list"
  sc_description :: string
  sc_action :: ShortcutAction
  sc_preventDefault :: "bool option"
  sc_permission :: "string option"

record KeyEvent =
  ev_key :: string
  ctrlKey :: bool
  altKey :: bool
  shiftKey :: bool
  metaKey :: bool
  target_tag :: string
  target_editable :: bool

record Page =
  location :: string
  new_server_flag :: "string option"
  dispatched :: "string list"
  close_clicks :: nat
  prevented :: bool

definition modifier_match :: "KeyEvent \<Rightarrow> Modifier \<Rightarrow> bool" where
  "modifier_match ev m = (case m of Ctrl \<Rightarrow> ctrlKey ev | Alt \<Rightarrow> altKey ev | Shift \<Rightarrow> shiftKey ev
    | Meta \<Rightarrow> metaKey ev | Mod \<Rightarrow> ctrlKey ev \<or> metaKey ev)"

definition shortcut_match :: "KeyEvent \<Rightarrow> Shortcut \<Rightarrow> bool" where
  "shortcut_match ev sc =
    (js_toLowerCase (ev_key ev) = js_toLowerCase (sc_key sc) \<and> list_all (modifier_match ev) (sc_modifiers sc))"

definition run_action :: "ShortcutAction \<Rightarrow> Page \<Rightarrow> Page" where
  "run_action a p =
    (case a of
       DispatchEvent e \<Rightarrow> p\<lparr>dispatched := dispatched p @ [e]\<rparr>
     | ClickCloseButtons \<Rightarrow> p\<lparr>close_clicks := Suc (close_clicks p)\<rparr>
     | NavigateTo l \<Rightarrow> p\<lparr>location := l\<rparr>
     | NewServer \<Rightarrow>
         if location p = ''/servers'' then p\<lparr>dispatched := dispatched p @ [''new-server'']\<rparr>
         else p\<lparr>new_server_flag := Some ''true'', location := ''/servers''\<rparr>)"

definition typing :: "KeyEvent \<Rightarrow> bool" where
  "typing ev = (target_tag ev = ''INPUT'' \<or> target_tag ev = ''TEXTAREA'' \<or> target_editable ev)"

definition handleKeyDown :: "Shortcut list \<Rightarrow> KeyEvent \<Rightarrow> Page \<Rightarrow> Page" where
  "handleKeyDown shortcuts ev p =
    (if typing ev \<and> ev_key ev \<noteq> ''Escape'' then p
     else case find (shortcut_match ev) shortcuts of
       None \<Rightarrow> p
     | Some sc \<Rightarrow>
         run_action (sc_action sc) (if sc_preventDefault sc \<noteq> Some False then p\<lparr>prevented := True\<rparr> else p))"

definition shortcut :: "string \<Rightarrow> Modifier list \<Rightarrow> string \<Rightarrow> ShortcutAction \<Rightarrow> string option \<Rightarrow> Shortcut" where
  "shortcut k ms d a perm = \<lparr>sc_key = k, sc_modifiers = ms, sc_description = d, sc_action = a,
     sc_preventDefault = None, sc_permission = perm\<rparr>"

definition all_shortcuts :: "Shortcut list" where
  "all_shortcuts =
    [shortcut ''?'' [] ''Show keyboard shortcuts help'' (DispatchEvent ''show-shortcuts'') None,
     shortcut ''k'' [Mod] ''Search'' (DispatchEvent ''show-search'') None,
     shortcut ''/'' [] ''Search'' (DispatchEvent ''show-search'') None,
     shortcut ''Escape'' [] ''Close modal/drawer'' ClickCloseButtons None,
     shortcut ''d'' [Ctrl] ''Go to Dashboard'' (NavigateTo ''/'') None,
     shortcut ''s'' [Ctrl] ''Go to Servers'' (NavigateTo ''/servers'') None,
     shortcut ''e'' [Ctrl] ''Go to Environments'' (NavigateTo ''/environments'') (Some ENVIRONMENT_READ),
     shortcut ''u'' [Ctrl] ''Go to Users'' (NavigateTo ''/users'') (Some USERS_READ),
     shortcut ''n'' [Alt] ''New Server'' NewServer None]"

definition useAppShortcuts :: "AuthState \<Rightarrow> Shortcut list" where
  "useAppShortcuts auth =
    filter (\<lambda>sc. sc_permission sc = None \<or> sc_permission sc = Some [] \<or>
      hasPermission auth (the (sc_permission sc))) all_shortcuts"

text \<open>The servers page: its effect on mount, its listener, and whether the deploy dialog is open.\<close>

definition servers_mount :: "Page \<Rightarrow> bool \<times> Page" where
  "servers_mount p =
    (if new_server_flag p = Some ''true'' then (True, p\<lparr>new_server_flag := None\<rparr>) else (False, p))"

definition handleNewServer :: "string \<Rightarrow> bool \<Rightarrow> bool" where
  "handleNewServer e dialogOpen = (e = ''new-server'' \<or> dialogOpen)"

text \<open>The help dialog: one group per description, in the order of first occurrence.\<close>

record ShortcutGroup =
  group_description :: string
  combos :: "(string \<times> Modifier list) list"

definition add_to_group :: "Shortcut \<Rightarrow> ShortcutGroup list \<Rightarrow> ShortcutGroup list" where
  "add_to_group sc gs =
    (let c = (sc_key sc, sc_modifiers sc)
     in case find_key group_description (sc_description sc) gs of
          Some _ \<Rightarrow> map_key group_description (sc_description sc) (\<lambda>g. g\<lparr>combos := combos g @ [c]\<rparr>) gs
        | None \<Rightarrow> gs @ [\<lparr>group_description = sc_description sc, combos = [c]\<rparr>])"

definition groups :: "Shortcut list \<Rightarrow> ShortcutGroup list" where
  "groups shortcuts = fold add_to_group shortcuts []"

subsection \<open>Which shortcut runs\<close>

lemma find_filter_memD: "find P (filter Q xs) = Some x \<Longrightarrow> x \<in> set xs \<and> P x \<and> Q x"
  by (induction xs) (auto split: if_splits)

lemma run_location:
  "location (run_action a p) = l \<Longrightarrow> location p \<noteq> l \<Longrightarrow> a = NavigateTo l \<or> a = NewServer \<and> l = ''/servers''"
  by (auto simp: run_action_def split: ShortcutAction.splits if_splits)

lemma users_shortcut:
  "sc \<in> set all_shortcuts \<Longrightarrow> sc_action sc = NavigateTo ''/users'' \<Longrightarrow> sc_permission sc = Some USERS_READ"
  by (auto simp: all_shortcuts_def shortcut_def)

lemma users_read_opens_admin: "hasPermission auth USERS_READ \<Longrightarrow> fst (AdminLayout auth)"
  by (simp add: AdminLayout_def canAccessAdmin_def hasAnyPermission_def hasPermission_def)

text \<open>The guard of the page behind \<open>/users\<close>, which redirects to \<open>/admin/users\<close>.\<close>

definition users_page_guard :: PageGuardOptions where
  "users_page_guard =
    \<lparr>g_permission = Some USERS_READ, g_permissions = None, g_requireAll = False, g_redirectTo = ''/''\<rparr>"

text \<open>
  Shortcuts respect permissions: whatever key is pressed, if a shortcut leads to the user administration
  then both the admin area and the page itself render for that user instead of redirecting.
\<close>
theorem shortcut_to_users_can_open:
  assumes "location p \<noteq> ''/users''" and "location (handleKeyDown (useAppShortcuts auth) ev p) = ''/users''"
  shows "AdminLayout auth = (True, None) \<and> usePageGuard auth users_page_guard = (True, None)"
proof -
  obtain sc where sc: "find (shortcut_match ev) (useAppShortcuts auth) = Some sc"
    and l: "location (run_action (sc_action sc)
      (if sc_preventDefault sc \<noteq> Some False then p\<lparr>prevented := True\<rparr> else p)) = ''/users''"
    using assms by (auto simp: handleKeyDown_def split: option.splits if_splits)
  have "sc_action sc = NavigateTo ''/users''"
    using run_location [OF l] assms(1) by (auto split: if_splits)
  moreover have "sc \<in> set all_shortcuts" "sc_permission sc = None \<or> sc_permission sc = Some [] \<or>
      hasPermission auth (the (sc_permission sc))"
    using find_filter_memD [OF sc [unfolded useAppShortcuts_def]] by auto
  ultimately have "hasPermission auth USERS_READ" using users_shortcut [of sc] by auto
  then show ?thesis using users_read_opens_admin [of auth] by (simp add: AdminLayout_def usePageGuard_def guardAllowed_def users_page_guard_def Let_def)
qed

theorem shortcut_to_users_can_open_witness:
  "AdminLayout \<lparr>user = Some \<lparr>user_id = ''1'', username = ''m'', role = ''moderator'', permissions = None,
     is_active = True, preferences = None\<rparr>\<rparr> = (True, None)"
proof -
  let ?auth = "\<lparr>user = Some \<lparr>user_id = ''1'', username = ''m'', role = ''moderator'', permissions = None,
     is_active = True, preferences = None\<rparr>\<rparr>"
  let ?p = "\<lparr>location = ''/'', new_server_flag = None, dispatched = [], close_clicks = 0, prevented = False\<rparr>"
  let ?ev = "\<lparr>ev_key = ''u'', ctrlKey = True, altKey = False, shiftKey = False, metaKey = False,
     target_tag = ''BODY'', target_editable = False\<rparr>"
  have "location (handleKeyDown (useAppShortcuts ?auth) ?ev ?p) = ''/users''" by code_simp
  then show ?thesis using shortcut_to_users_can_open [of ?p ?auth ?ev] by simp
qed

subsection \<open>Typing, and the new server\<close>

lemma typing_not_intercepted: "typing ev \<Longrightarrow> ev_key ev \<noteq> ''Escape'' \<Longrightarrow> handleKeyDown scs ev p = p"
  by (simp add: handleKeyDown_def)

lemma lower_keys:
  "js_toLowerCase ''?'' = ''?''" "js_toLowerCase ''k'' = ''k''" "js_toLowerCase ''/'' = ''/''"
  "js_toLowerCase ''Escape'' = ''escape''" "js_toLowerCase ''d'' = ''d''" "js_toLowerCase ''s'' = ''s''"
  "js_toLowerCase ''e'' = ''e''" "js_toLowerCase ''u'' = ''u''" "js_toLowerCase ''n'' = ''n''"
  by code_simp+

lemma alt_n_match:
  assumes "js_toLowerCase (ev_key ev) = ''n''" and "altKey ev"
  shows "find (shortcut_match ev) (useAppShortcuts auth) = Some (shortcut ''n'' [Alt] ''New Server'' NewServer None)"
  using assms
  by (simp add: useAppShortcuts_def all_shortcuts_def shortcut_match_def shortcut_def lower_keys modifier_match_def)

text \<open>
  A new server from anywhere: Alt+N pressed outside an input opens the deploy dialog, at once on the
  servers page and after its mount from every other page; the session flag is then consumed.
\<close>
theorem alt_n_opens_dialog:
  assumes "js_toLowerCase (ev_key ev) = ''n''" and "altKey ev" and "\<not> typing ev"
  shows "let p' = handleKeyDown (useAppShortcuts auth) ev p
    in location p' = ''/servers'' \<and>
       (if location p = ''/servers'' then list_ex (\<lambda>e. handleNewServer e False) (dispatched p')
        else fst (servers_mount p') \<and> new_server_flag (snd (servers_mount p')) = None)"
  using assms alt_n_match [OF assms(1,2), of auth]
  by (simp add: handleKeyDown_def shortcut_def run_action_def servers_mount_def handleNewServer_def Let_def)

theorem alt_n_opens_dialog_witness:
  "fst (servers_mount (handleKeyDown (useAppShortcuts initialAuth)
     \<lparr>ev_key = ''N'', ctrlKey = False, altKey = True, shiftKey = False, metaKey = False, target_tag = ''DIV'',
      target_editable = False\<rparr>
     \<lparr>location = ''/volumes'', new_server_flag = None, dispatched = [], close_clicks = 0, prevented = False\<rparr>))"
proof -
  let ?ev = "\<lparr>ev_key = ''N'', ctrlKey = False, altKey = True, shiftKey = False, metaKey = False,
    target_tag = ''DIV'', target_editable = False\<rparr>"
  have "js_toLowerCase (ev_key ?ev) = ''n''" by code_simp
  then show ?thesis
    using alt_n_opens_dialog [of ?ev initialAuth "\<lparr>location = ''/volumes'', new_server_flag = None, dispatched = [],
      close_clicks = 0, prevented = False\<rparr>"] by (simp add: typing_def Let_def)
qed

subsection \<open>The help dialog\<close>

definition groups_ok :: "Shortcut list \<Rightarrow> ShortcutGroup list \<Rightarrow> bool" where
  "groups_ok scs gs \<longleftrightarrow> distinct (map group_description gs) \<and>
    group_description ` set gs = sc_description ` set scs \<and>
    (\<forall>g \<in> set gs. combos g = map (\<lambda>s. (sc_key s, sc_modifiers s))
       (filter (\<lambda>s. sc_description s = group_description g) scs))"

lemma groups_ok_step:
  assumes "groups_ok scs gs"
  shows "groups_ok (scs @ [sc]) (add_to_group sc gs)"
proof (cases "find_key group_description (sc_description sc) gs")
  case None
  then have new: "sc_description sc \<notin> group_description ` set gs" by (simp add: find_key_None_iff)
  then have "filter (\<lambda>s. sc_description s = sc_description sc) scs = []"
    using assms by (auto simp: groups_ok_def filter_empty_conv) (metis imageI)
  with new None assms show ?thesis
    by (auto simp: groups_ok_def add_to_group_def)
next
  case (Some g0)
  let ?f = "\<lambda>g. g\<lparr>combos := combos g @ [(sc_key sc, sc_modifiers sc)]\<rparr>"
  let ?gs = "map_key group_description (sc_description sc) ?f gs"
  have keys: "map group_description ?gs = map group_description gs" by (rule map_key_keys) simp
  then have img: "group_description ` set ?gs = group_description ` set gs" by (metis set_map)
  have mem: "sc_description sc \<in> group_description ` set gs"
    using find_key_SomeD [OF Some] by (metis imageI)
  have "combos g = map (\<lambda>s. (sc_key s, sc_modifiers s))
      (filter (\<lambda>s. sc_description s = group_description g) (scs @ [sc]))" if "g \<in> set ?gs" for g
    using that assms by (auto simp: map_key_def groups_ok_def)
  with keys img mem assms Some show ?thesis
    by (auto simp: groups_ok_def add_to_group_def)
qed

lemma groups_fold: "groups_ok scs gs \<Longrightarrow> groups_ok (scs @ xs) (fold add_to_group xs gs)"
proof (induction xs arbitrary: scs gs)
  case (Cons x xs)
  then show ?case using Cons.IH [OF groups_ok_step] by fastforce
qed simp

text \<open>
  The help dialog shows every shortcut once: its groups have different descriptions, exactly those of
  the shortcuts, and each lists the key combinations of its description in order.
\<close>
theorem help_groups_partition:
  "distinct (map group_description (groups scs)) \<and>
   group_description ` set (groups scs) = sc_description ` set scs \<and>
   list_all (\<lambda>g. combos g = map (\<lambda>s. (sc_key s, sc_modifiers s))
     (filter (\<lambda>s. sc_description s = group_description g) scs)) (groups scs)"
  using groups_fold [of "[]" "[]" scs] by (simp add: groups_def groups_ok_def list_all_iff)

end
