(* ===== verification/Push_Registration.thy ===== *)
theory Push_Registration
  imports Ui_Stores "HOL-Library.Word"
begin

text \<open>
  Web Push (\<^verbatim>\<open>frontend/src/lib/register-sw.ts\<close>) and the toggle of the notification settings that drives
  it (\<^verbatim>\<open>frontend/src/routes/settings.notifications.tsx\<close>). The browser's service worker container,
  push manager and permission prompt are an environment record, each field one answer of the browser;
  the page's own state is what the browser and the server hold; the server's part is
  \<^verbatim>\<open>backend/app/api/push.py\<close>. An exception is \<^term>\<open>Inl\<close> of its
  message. The application key travels as unpadded base64url, decoded by \<^verbatim>\<open>atob\<close>, the forgiving
  base64 decoder of the HTML standard.
\<close>

subsection \<open>Base64\<close>

definition b64_val :: "char \<Rightarrow> nat option" where
  "b64_val c =
    (let n = (of_char c :: nat)
     in if 65 \<le> n \<and> n \<le> 90 then Some (n - 65)
        else if 97 \<le> n \<and> n \<le> 122 then Some (n - 71)
        else if 48 \<le> n \<and> n \<le> 57 then Some (n + 4)
        else if n = 43 then Some 62
        else if n = 47 then Some 63
        else None)"

fun b64_bytes :: "nat list \<Rightarrow> nat list" where
  "b64_bytes (a # b # c # d # r) =
     [a * 4 + b div 16, b mod 16 * 16 + c div 4, c mod 4 * 64 + d] @ b64_bytes r"
| "b64_bytes [a, b, c] = [a * 4 + b div 16, b mod 16 * 16 + c div 4]"
| "b64_bytes [a, b] = [a * 4 + b div 16]"
| "b64_bytes _ = []"

definition ascii_space :: "char \<Rightarrow> bool" where
  "ascii_space c = (c \<in> {CHR '' '', CHR 0x09, CHR 0x0A, CHR 0x0C, CHR 0x0D})"

definition strip_equals :: "string \<Rightarrow> string" where
  "strip_equals s =
    (if length s mod 4 = 0 \<and> js_endsWith s ''=='' then take (length s - 2) s
     else if length s mod 4 = 0 \<and> js_endsWith s ''='' then take (length s - 1) s
     else s)"

definition atob :: "string \<Rightarrow> nat list option" where
  "atob s =
    (let t = strip_equals (filter (\<lambda>c. \<not> ascii_space c) s)
     in if length t mod 4 = 1 then None
        else if list_all (\<lambda>c. b64_val c \<noteq> None) t then Some (b64_bytes (map (\<lambda>c. the (b64_val c)) t))
        else None)"

definition url_to_base64 :: "char \<Rightarrow> char" where
  "url_to_base64 c = (if c = CHR ''-'' then CHR ''+'' else if c = CHR ''_'' then CHR ''/'' else c)"

definition urlBase64ToUint8Array :: "string \<Rightarrow> 8 word list option" where
  "urlBase64ToUint8Array base64String =
    (let padding = replicate ((4 - length base64String mod 4) mod 4) CHR ''='';
         base64 = map url_to_base64 (base64String @ padding)
     in map_option (map word_of_nat) (atob base64))"

text \<open>The encoder of the sender, base64url without padding as RFC 4648 defines it.\<close>

fun sextets :: "nat list \<Rightarrow> nat list" where
  "sextets (x # y # z # r) =
     [x div 4, x mod 4 * 16 + y div 16, y mod 16 * 4 + z div 64, z mod 64] @ sextets r"
| "sextets [x, y] = [x div 4, x mod 4 * 16 + y div 16, y mod 16 * 4]"
| "sextets [x] = [x div 4, x mod 4 * 16]"
| "sextets [] = []"

definition b64url_char :: "nat \<Rightarrow> char" where
  "b64url_char n =
    (if n < 26 then char_of (n + 65) else if n < 52 then char_of (n + 71)
     else if n < 62 then char_of (n - 4) else if n = 62 then CHR ''-'' else CHR ''_'')"

definition b64url_encode :: "8 word list \<Rightarrow> string" where
  "b64url_encode ws = map b64url_char (sextets (map unat ws))"

subsection \<open>Decoding inverts encoding\<close>

lemma b64_val_url_char:
  assumes "n < 64"
  shows "b64_val (url_to_base64 (b64url_char n)) = Some n"
proof -
  consider "n < 26" | "26 \<le> n" "n < 52" | "52 \<le> n" "n < 62" | "n = 62" | "n = 63" using assms by linarith
  then show ?thesis
  proof cases
    case 1
    then have "char_of (n + 65) \<noteq> CHR ''-''" "char_of (n + 65) \<noteq> CHR ''_''"
      by (auto dest!: arg_cong [where f = "of_char :: char \<Rightarrow> nat"])
    with 1 show ?thesis by (simp add: b64url_char_def url_to_base64_def b64_val_def)
  next
    case 2
    then have "char_of (n + 71) \<noteq> CHR ''-''" "char_of (n + 71) \<noteq> CHR ''_''"
      by (auto dest!: arg_cong [where f = "of_char :: char \<Rightarrow> nat"])
    with 2 show ?thesis by (simp add: b64url_char_def url_to_base64_def b64_val_def)
  next
    case 3
    then have "char_of (n - 4) \<noteq> CHR ''-''" "char_of (n - 4) \<noteq> CHR ''_''"
      by (auto dest!: arg_cong [where f = "of_char :: char \<Rightarrow> nat"])
    with 3 show ?thesis by (simp add: b64url_char_def url_to_base64_def b64_val_def Let_def) arith
  qed (simp_all add: b64url_char_def url_to_base64_def b64_val_def)
qed

lemma b64_val_not_special: "b64_val c \<noteq> None \<Longrightarrow> \<not> ascii_space c \<and> c \<noteq> CHR ''=''"
  by (auto simp: b64_val_def ascii_space_def)

lemma sextets_bound: "(\<And>x. x \<in> set xs \<Longrightarrow> x < 256) \<Longrightarrow> n \<in> set (sextets xs) \<Longrightarrow> n < 64"
proof (induction xs arbitrary: n rule: sextets.induct)
  case (1 x y z r)
  have "x < 256" "y < 256" "z < 256" using "1.prems"(1) by auto
  then have "x div 4 < 64" "x mod 4 * 16 + y div 16 < 64" "y mod 16 * 4 + z div 64 < 64" by linarith+
  moreover have "n \<in> set (sextets r) \<Longrightarrow> n < 64" using "1.IH" "1.prems"(1) by simp
  ultimately show ?case using "1.prems"(2) by auto
next
  case (2 x y)
  have "x < 256" "y < 256" using "2.prems"(1) by auto
  then have "x div 4 < 64" "x mod 4 * 16 + y div 16 < 64" "y mod 16 * 4 < 64" by linarith+
  then show ?case using "2.prems"(2) by auto
next
  case (3 x)
  have "x < 256" using "3.prems"(1) by auto
  then have "x div 4 < 64" "x mod 4 * 16 < 64" by linarith+
  then show ?case using "3.prems"(2) by auto
qed simp

lemma pack_fields:
  fixes a b k :: nat
  assumes "b < k"
  shows "(a * k + b) div k = a" and "(a * k + b) mod k = b"
  using assms by simp_all

lemma sextet_fields:
  fixes x y z :: nat
  assumes "y < 256" and "z < 256"
  shows "x div 4 * 4 + (x mod 4 * 16 + y div 16) div 16 = x \<and>
    (x mod 4 * 16 + y div 16) mod 16 * 16 + (y mod 16 * 4 + z div 64) div 4 = y \<and>
    (y mod 16 * 4 + z div 64) mod 4 * 64 + z mod 64 = z"
proof -
  have "y div 16 < 16" "z div 64 < 4" using assms by (simp_all add: less_mult_imp_div_less)
  note f = pack_fields [OF this(1), of "x mod 4"] pack_fields [OF this(2), of "y mod 16"]
  show ?thesis unfolding f by simp
qed

lemma b64_bytes_sextets: "(\<And>x. x \<in> set xs \<Longrightarrow> x < 256) \<Longrightarrow> b64_bytes (sextets xs) = xs"
proof (induction xs rule: sextets.induct)
  case (1 x y z r)
  then show ?case using sextet_fields [of y z x] by simp
next
  case (2 x y)
  then show ?case using sextet_fields [of y 0 x] by simp
next
  case (3 x)
  then show ?case using sextet_fields [of 0 0 x] by simp
qed simp

lemma sextets_length: "length (sextets xs) mod 4 \<noteq> 1"
  by (induction xs rule: sextets.induct) auto

lemma atob_padded:
  assumes "list_all (\<lambda>c. b64_val c \<noteq> None) t" and "length t mod 4 \<noteq> 1"
  shows "atob (t @ replicate ((4 - length t mod 4) mod 4) CHR ''='') =
    Some (b64_bytes (map (\<lambda>c. the (b64_val c)) t))"
proof -
  let ?p = "replicate ((4 - length t mod 4) mod 4) CHR ''=''"
  have t: "\<not> ascii_space c" "c \<noteq> CHR ''=''" if "c \<in> set t" for c
    using assms(1) that b64_val_not_special by (auto simp: list_all_iff)
  then have keep: "filter (\<lambda>c. \<not> ascii_space c) (t @ ?p) = t @ ?p"
    by (auto simp: filter_id_conv ascii_space_def)
  have len: "length t mod 4 \<in> {0, 2, 3}" using assms(2) by auto
  have noend: "\<not> js_endsWith t ''=''" "\<not> js_endsWith t ''==''"
    using t(2) [of "CHR ''=''"] by (auto simp: js_endsWith_iff)
  have "strip_equals (t @ ?p) = t"
  proof -
    consider "length t mod 4 = 0" | "length t mod 4 = 2" | "length t mod 4 = 3" using len by auto
    then show ?thesis
    proof cases
      case 1
      then show ?thesis using noend by (simp add: strip_equals_def)
    next
      case 2
      then have "?p = ''==''" "(length t + 2) mod 4 = 0" by (simp_all add: numeral_2_eq_2) presburger
      then show ?thesis by (simp add: strip_equals_def)
    next
      case 3
      then have "?p = ''=''" "(length t + 1) mod 4 = 0" by simp_all presburger
      moreover have "\<not> js_endsWith (t @ ''='') ''==''" 
        using t(2) [of "CHR ''=''"] by (auto simp: js_endsWith_iff append_eq_append_conv2 Cons_eq_append_conv)
      ultimately show ?thesis by (simp add: strip_equals_def)
    qed
  qed
  then show ?thesis using assms keep by (simp add: atob_def)
qed

text \<open>
  The application key survives its transport: decoding the unpadded base64url form of any bytes gives
  those bytes back.
\<close>
theorem application_key_round_trip: "urlBase64ToUint8Array (b64url_encode ws) = Some ws"
proof -
  let ?n = "sextets (map unat ws)" and ?t = "map url_to_base64 (b64url_encode ws)"
  have bytes: "x < 256" if "x \<in> set (map unat ws)" for x
    using that unsigned_less [of _, where 'b = 8 and 'a = nat] by auto
  have bound: "n < 64" if "n \<in> set ?n" for n using sextets_bound [OF bytes that] .
  then have vals: "list_all (\<lambda>c. b64_val c \<noteq> None) ?t" "map (\<lambda>c. the (b64_val c)) ?t = ?n"
    by (auto simp: list_all_iff b64url_encode_def b64_val_url_char o_def intro!: map_idI)
  have len: "length ?t = length ?n" by (simp add: b64url_encode_def)
  have "atob (?t @ replicate ((4 - length ?t mod 4) mod 4) CHR ''='') = Some (b64_bytes ?n)"
    using atob_padded [OF vals(1)] sextets_length len vals(2) by simp
  moreover have "b64_bytes ?n = map unat ws" by (rule b64_bytes_sextets [OF bytes])
  ultimately show ?thesis
    by (simp add: urlBase64ToUint8Array_def url_to_base64_def map_replicate_const o_def map_idI)
qed

lemma odd_length_key_rejected:
  "\<lbrakk>length s mod 4 = 1; \<forall>c \<in> set s. \<not> ascii_space c\<rbrakk> \<Longrightarrow> urlBase64ToUint8Array s = None"
proof -
  assume len: "length s mod 4 = 1" and sp: "\<forall>c \<in> set s. \<not> ascii_space c"
  let ?t = "map url_to_base64 s"
  have nosp: "\<not> ascii_space (url_to_base64 c)" if "c \<in> set s" for c
    using that sp by (auto simp: url_to_base64_def ascii_space_def)
  have "(4 - length s mod 4) mod 4 = 3" using len by simp
  then have pad: "map url_to_base64 (s @ replicate ((4 - length s mod 4) mod 4) CHR ''='') = ?t @ ''===''"
    by (simp add: url_to_base64_def numeral_3_eq_3)
  have keep: "filter (\<lambda>c. \<not> ascii_space c) (?t @ ''==='') = ?t @ ''===''"
    using nosp by (auto simp: filter_id_conv ascii_space_def)
  have "(length s + 3) mod 4 = 0" using len by presburger
  moreover have "js_endsWith (?t @ ''==='') ''==''" by (simp add: js_endsWith_def)
  ultimately have "strip_equals (?t @ ''==='') = ?t @ ''=''" by (simp add: strip_equals_def add.commute)
  moreover have "b64_val CHR ''='' = None" by (simp add: b64_val_def)
  ultimately have "atob (?t @ ''==='') = None" unfolding atob_def keep by (simp add: Let_def)
  then show ?thesis by (simp only: urlBase64ToUint8Array_def pad Let_def) simp
qed

subsection \<open>Subscriptions\<close>

text \<open>\<^verbatim>\<open>subscription.toJSON()\<close>: every part may be missing.\<close>

record SubscriptionJson =
  sub_endpoint :: "string option"
  sub_keys :: "(string option \<times> string option) option"

record PushSubscriptionInfo =
  push_endpoint :: string
  push_p256dh :: string
  push_auth :: string

text \<open>
  The answers of the browser: what it supports, the user's answer to the permission prompt, the outcomes
  of looking up and registering the worker, the time until the worker is active (never, if
  \<^term>\<open>None\<close>), the push manager's answers, and the message of \<^verbatim>\<open>atob\<close>'s exception.
\<close>

record PushEnv =
  sw_supported :: bool
  pm_supported :: bool
  permission :: string
  lookup_error :: "string option"
  register_error :: "string option"
  ready_after :: "nat option"
  pm_subscribe :: "8 word list \<Rightarrow> SubscriptionJson option \<Rightarrow> string + SubscriptionJson"
  unsubscribe_answer :: "string + bool"
  atob_error :: string

text \<open>The server keeps the subscriptions of all users, for each of them one with an endpoint.\<close>

record PushRow =
  pr_user :: string
  pr_info :: PushSubscriptionInfo

definition row_of :: "string \<Rightarrow> string \<Rightarrow> PushRow \<Rightarrow> bool" where
  "row_of uid ep r \<longleftrightarrow> pr_user r = uid \<and> push_endpoint (pr_info r) = ep"

definition subscribe_push :: "string \<Rightarrow> PushSubscriptionInfo \<Rightarrow> PushRow list \<Rightarrow> PushRow list" where
  "subscribe_push uid request rows =
    (if list_ex (row_of uid (push_endpoint request)) rows
     then map (\<lambda>r. if row_of uid (push_endpoint request) r
       then r\<lparr>pr_info := (pr_info r)\<lparr>push_p256dh := push_p256dh request, push_auth := push_auth request\<rparr>\<rparr> else r) rows
     else rows @ [\<lparr>pr_user = uid, pr_info = request\<rparr>])"

definition unsubscribe_push :: "string \<Rightarrow> string \<Rightarrow> PushRow list \<Rightarrow> PushRow list" where
  "unsubscribe_push uid endpoint rows = filter (\<lambda>r. \<not> row_of uid endpoint r) rows"

definition unique_rows :: "PushRow list \<Rightarrow> bool" where
  "unique_rows rows \<longleftrightarrow> distinct (map (\<lambda>r. (pr_user r, push_endpoint (pr_info r))) rows)"

text \<open>A request of the user \<open>ps_user\<close>: it is served, or it fails with a message and changes nothing.\<close>

record PushServer =
  ps_user :: string
  ps_save_error :: "string option"
  ps_remove_error :: "string option"

definition saveSubscription :: "PushServer \<Rightarrow> PushSubscriptionInfo \<Rightarrow> PushRow list \<Rightarrow> string + PushRow list" where
  "saveSubscription srv sub rows =
    (case ps_save_error srv of Some e \<Rightarrow> Inl e | None \<Rightarrow> Inr (subscribe_push (ps_user srv) sub rows))"

definition removeSubscription :: "PushServer \<Rightarrow> string \<Rightarrow> PushRow list \<Rightarrow> string + PushRow list" where
  "removeSubscription srv endpoint rows =
    (case ps_remove_error srv of Some e \<Rightarrow> Inl e | None \<Rightarrow> Inr (unsubscribe_push (ps_user srv) endpoint rows))"

record PushWorld =
  sw_registered :: bool
  subscription :: "SubscriptionJson option"
  server_subs :: "PushRow list"

type_synonym 'a push_result = "(string + 'a) \<times> PushWorld"

definition attempt :: "'a push_result \<Rightarrow> ('a \<Rightarrow> PushWorld \<Rightarrow> 'b push_result) \<Rightarrow> 'b push_result" where
  "attempt m f = (case m of (Inl e, w) \<Rightarrow> (Inl e, w) | (Inr a, w) \<Rightarrow> f a w)"

text \<open>\<open>dev\<close> and \<open>pushInDev\<close> are the build flags; a failed registration is only logged.\<close>

definition registerServiceWorker :: "bool \<Rightarrow> bool \<Rightarrow> PushEnv \<Rightarrow> PushWorld \<Rightarrow> PushWorld" where
  "registerServiceWorker dev pushInDev env w =
    (if dev \<and> \<not> pushInDev then w
     else if \<not> sw_supported env then w
     else case register_error env of None \<Rightarrow> w\<lparr>sw_registered := True\<rparr> | Some _ \<Rightarrow> w)"

definition SW_ACTIVATION_TIMEOUT_MS :: nat where
  "SW_ACTIVATION_TIMEOUT_MS = 10000"

text \<open>The result says whether there is a registration; the race is decided by the activation time.\<close>

definition activation_race :: "PushEnv \<Rightarrow> string + bool" where
  "activation_race env =
    (case ready_after env of
       None \<Rightarrow> Inl ''Service worker activation timed out''
     | Some t \<Rightarrow> if t < SW_ACTIVATION_TIMEOUT_MS then Inr True else Inl ''Service worker activation timed out'')"

definition resolveRegistration :: "PushEnv \<Rightarrow> bool \<Rightarrow> PushWorld \<Rightarrow> bool push_result" where
  "resolveRegistration env registerIfMissing w =
    (case lookup_error env of Some e \<Rightarrow> (Inl e, w)
     | None \<Rightarrow>
        if sw_registered w then (activation_race env, w)
        else if registerIfMissing then
          (case register_error env of
             Some e \<Rightarrow> (Inl e, w)
           | None \<Rightarrow> (activation_race env, w\<lparr>sw_registered := True\<rparr>))
        else (Inr False, w))"

definition push_info :: "SubscriptionJson \<Rightarrow> PushSubscriptionInfo option" where
  "push_info sub =
    (case (sub_endpoint sub, sub_keys sub) of
       (Some (e # es), Some (Some (p # ps), Some (a # as))) \<Rightarrow>
         Some \<lparr>push_endpoint = e # es, push_p256dh = p # ps, push_auth = a # as\<rparr>
     | _ \<Rightarrow> None)"

definition subscribePush ::
  "PushEnv \<Rightarrow> PushServer \<Rightarrow> string \<Rightarrow> PushWorld \<Rightarrow> PushSubscriptionInfo push_result" where
  "subscribePush env srv publicKey w =
    (if \<not> sw_supported env then (Inl ''Service workers are not supported'', w)
     else if \<not> pm_supported env then (Inl ''Push notifications are not supported'', w)
     else if permission env \<noteq> ''granted'' then (Inl (''Notification permission '' @ permission env), w)
     else attempt (resolveRegistration env True w) (\<lambda>reg w1.
       if \<not> reg then (Inl ''Service worker is not available'', w1)
       else case urlBase64ToUint8Array publicKey of
         None \<Rightarrow> (Inl (atob_error env), w1)
       | Some key \<Rightarrow>
           (case pm_subscribe env key (subscription w1) of
              Inl e \<Rightarrow> (Inl e, w1)
            | Inr sub \<Rightarrow>
                (let w2 = w1\<lparr>subscription := Some sub\<rparr>
                 in case push_info sub of
                      None \<Rightarrow> (Inl ''Invalid push subscription'', w2)
                    | Some info \<Rightarrow>
                        (case saveSubscription srv info (server_subs w2) of
                           Inl e \<Rightarrow> (Inl e, w2)
                         | Inr subs \<Rightarrow> (Inr info, w2\<lparr>server_subs := subs\<rparr>))))))"

definition unsubscribePush :: "PushEnv \<Rightarrow> PushServer \<Rightarrow> PushWorld \<Rightarrow> unit push_result" where
  "unsubscribePush env srv w =
    (if \<not> sw_supported env \<or> \<not> pm_supported env then (Inr (), w)
     else attempt (resolveRegistration env False w) (\<lambda>reg w1.
       if \<not> reg then (Inr (), w1)
       else case subscription w1 of
         None \<Rightarrow> (Inr (), w1)
       | Some sub \<Rightarrow>
           (case unsubscribe_answer env of
              Inl e \<Rightarrow> (Inl e, w1)
            | Inr done_ \<Rightarrow>
                (let w2 = (if done_ then w1\<lparr>subscription := None\<rparr> else w1)
                 in case sub_endpoint sub of
                      Some (c # cs) \<Rightarrow>
                        (case removeSubscription srv (c # cs) (server_subs w2) of
                           Inl e \<Rightarrow> (Inl e, w2)
                         | Inr subs \<Rightarrow> (Inr (), w2\<lparr>server_subs := subs\<rparr>))
                    | _ \<Rightarrow> (Inr (), w2)))))"

definition getPushSubscription :: "PushEnv \<Rightarrow> PushWorld \<Rightarrow> PushSubscriptionInfo option push_result" where
  "getPushSubscription env w =
    (if \<not> sw_supported env \<or> \<not> pm_supported env then (Inr None, w)
     else attempt (resolveRegistration env False w) (\<lambda>reg w1.
       if \<not> reg then (Inr None, w1)
       else case subscription w1 of None \<Rightarrow> (Inr None, w1) | Some sub \<Rightarrow> (Inr (push_info sub), w1)))"

subsection \<open>The toggle of the settings page\<close>

record PushPage =
  pushEnabled :: bool
  pushPermission :: string
  page_toasts :: ToastStore

definition page_push_effect :: "bool \<Rightarrow> PushEnv \<Rightarrow> PushWorld \<Rightarrow> PushPage \<Rightarrow> PushPage" where
  "page_push_effect pushSupported env w page =
    (if \<not> pushSupported then page
     else case fst (getPushSubscription env w) of
            Inl _ \<Rightarrow> page | Inr sub \<Rightarrow> page\<lparr>pushEnabled := (sub \<noteq> None)\<rparr>)"

definition pushSubscribeMutation :: "string + PushSubscriptionInfo \<Rightarrow> PushPage \<Rightarrow> PushPage" where
  "pushSubscribeMutation outcome page =
    (case outcome of
       Inr _ \<Rightarrow> page\<lparr>pushEnabled := True, pushPermission := ''granted''\<rparr>
     | Inl msg \<Rightarrow>
         page\<lparr>page_toasts := snd (toast_error ''Push subscription failed'' (Some msg) (page_toasts page))\<rparr>)"

definition pushUnsubscribeMutation :: "string + unit \<Rightarrow> PushPage \<Rightarrow> PushPage" where
  "pushUnsubscribeMutation outcome page =
    (case outcome of
       Inr _ \<Rightarrow> page\<lparr>pushEnabled := False\<rparr>
     | Inl msg \<Rightarrow>
         page\<lparr>page_toasts := snd (toast_error ''Push unsubscribe failed'' (Some msg) (page_toasts page))\<rparr>)"

subsection \<open>Browser and server agree\<close>

lemmas push_defs = attempt_def resolveRegistration_def activation_race_def

lemma resolve_ready:
  "resolveRegistration env b w = (Inr True, w1) \<Longrightarrow>
    w1 = w\<lparr>sw_registered := True\<rparr> \<and> resolveRegistration env c w1 = (Inr True, w1)"
  by (auto simp: push_defs split: option.splits if_splits)

lemma subscribePush_InrE:
  assumes "subscribePush env srv key w = (Inr info, w')"
  obtains bytes sub where "sw_supported env" "pm_supported env" "permission env = ''granted''"
    "resolveRegistration env True w = (Inr True, w\<lparr>sw_registered := True\<rparr>)"
    "urlBase64ToUint8Array key = Some bytes" "pm_subscribe env bytes (subscription w) = Inr sub"
    "push_info sub = Some info" "ps_save_error srv = None" "server_subs w' = subscribe_push (ps_user srv) info (server_subs w)"
    "w' = w\<lparr>sw_registered := True, subscription := Some sub, server_subs := server_subs w'\<rparr>"
proof -
  obtain w1 where reg: "resolveRegistration env True w = (Inr True, w1)"
    using assms by (auto simp: subscribePush_def attempt_def split: if_splits prod.splits sum.splits)
  then have w1: "w1 = w\<lparr>sw_registered := True\<rparr>" by (simp add: resolve_ready)
  show thesis
    using assms reg that unfolding w1
    by (auto simp: subscribePush_def attempt_def Let_def saveSubscription_def split: if_splits option.splits sum.splits)
qed

lemma push_info_endpoint: "push_info sub = Some info \<Longrightarrow> sub_endpoint sub = Some (push_endpoint info) \<and> push_endpoint info \<noteq> []"
  by (auto simp: push_info_def split: option.splits list.splits prod.splits)

lemma resolve_registered:
  "resolveRegistration env b w = (Inr True, w1) \<Longrightarrow> sw_registered w' \<Longrightarrow>
    resolveRegistration env c w' = (Inr True, w')"
  by (auto simp: push_defs split: option.splits if_splits)

lemma get_of_ready:
  "sw_supported env \<Longrightarrow> pm_supported env \<Longrightarrow> resolveRegistration env False w = (Inr True, w) \<Longrightarrow>
    fst (getPushSubscription env w) = Inr (Option.bind (subscription w) push_info)"
  by (simp add: getPushSubscription_def attempt_def split: option.splits)

definition own_rows :: "string \<Rightarrow> string \<Rightarrow> PushWorld \<Rightarrow> PushSubscriptionInfo list" where
  "own_rows uid ep w = map pr_info (filter (row_of uid ep) (server_subs w))"

lemma unique_row_filter: "unique_rows rows \<Longrightarrow> length (filter (row_of uid ep) rows) \<le> 1"
proof (induction rows)
  case (Cons r rows)
  show ?case
  proof (cases "row_of uid ep r")
    case True
    then have "filter (row_of uid ep) rows = []"
      using Cons.prems by (auto simp: unique_rows_def row_of_def filter_empty_conv image_iff)
    then show ?thesis by simp
  next
    case False
    with Cons show ?thesis by (simp add: unique_rows_def)
  qed
qed simp

lemma only_element: "r \<in> set xs \<Longrightarrow> length xs \<le> 1 \<Longrightarrow> xs = [r]"
  by (cases xs) auto

lemma stored_row:
  assumes "unique_rows rows"
  shows "map pr_info (filter (row_of uid (push_endpoint i)) (subscribe_push uid i rows)) = [i]"
proof (cases "list_ex (row_of uid (push_endpoint i)) rows")
  case True
  let ?P = "row_of uid (push_endpoint i)"
  from True obtain r where r: "r \<in> set rows" "?P r" by (auto simp: list_ex_iff)
  then have "r \<in> set (filter ?P rows)" by simp
  then have "filter ?P rows = [r]" by (rule only_element) (rule unique_row_filter [OF assms])
  moreover have "filter ?P (map (\<lambda>r. if ?P r then f r else r) rows) = map f (filter ?P rows)"
    if "\<And>r. ?P (f r) = ?P r" for f
    using that by (induction rows) auto
  ultimately show ?thesis using True r(2) by (simp add: subscribe_push_def row_of_def)
next
  case False
  then have "filter (row_of uid (push_endpoint i)) rows = []" by (auto simp: list_ex_iff filter_empty_conv)
  with False show ?thesis by (simp add: subscribe_push_def row_of_def)
qed

lemma other_rows: "filter (\<lambda>r. \<not> row_of uid (push_endpoint i) r) (subscribe_push uid i rows) = filter (\<lambda>r. \<not> row_of uid (push_endpoint i) r) rows"
proof -
  let ?P = "row_of uid (push_endpoint i)"
  let ?f = "\<lambda>r. r\<lparr>pr_info := (pr_info r)\<lparr>push_p256dh := push_p256dh i, push_auth := push_auth i\<rparr>\<rparr>"
  have "?P (?f r) = ?P r" for r by (simp add: row_of_def)
  then have "filter (\<lambda>r. \<not> ?P r) (map (\<lambda>r. if ?P r then ?f r else r) rows) = filter (\<lambda>r. \<not> ?P r) rows"
    by (induction rows) auto
  then show ?thesis by (simp add: subscribe_push_def row_of_def)
qed

text \<open>
  C39. Turning push on and off again, where the table has no two rows with one user and endpoint, as its unique index
  makes sure. When \<^verbatim>\<open>subscribePush\<close> returns, the user had granted the permission,
  \<^verbatim>\<open>getPushSubscription\<close> finds the very subscription the server has stored, and the server has stored it once for
  the endpoint. When \<^verbatim>\<open>unsubscribePush\<close> then returns, the server has no subscription of the user with that endpoint,
  and all others are what they were; the browser has none either, unless it answered the call to unsubscribe with
  false, which the code does not look at: then the next load of the page finds the subscription again.
\<close>

theorem push_toggle_round_trip:
  assumes on: "subscribePush env srv key w = (Inr info, w1)" and rows: "unique_rows (server_subs w)"
  shows "permission env = ''granted'' \<and> fst (getPushSubscription env w1) = Inr (Some info) \<and>
    own_rows (ps_user srv) (push_endpoint info) w1 = [info] \<and>
    (\<forall>env' srv' w2. sw_supported env' \<and> pm_supported env' \<and> ps_user srv' = ps_user srv \<and> unsubscribePush env' srv' w1 = (Inr (), w2) \<longrightarrow>
      own_rows (ps_user srv) (push_endpoint info) w2 = [] \<and>
      fst (getPushSubscription env' w2) = Inr (if unsubscribe_answer env' = Inr True then None else Some info) \<and>
      server_subs w2 = filter (\<lambda>r. \<not> row_of (ps_user srv) (push_endpoint info) r) (server_subs w))"
  using on
proof (rule subscribePush_InrE)
  fix bytes sub
  assume env: "sw_supported env" "pm_supported env" "permission env = ''granted''"
    and reg: "resolveRegistration env True w = (Inr True, w\<lparr>sw_registered := True\<rparr>)"
    and sub: "push_info sub = Some info" "server_subs w1 = subscribe_push (ps_user srv) info (server_subs w)"
    and w1: "w1 = w\<lparr>sw_registered := True, subscription := Some sub, server_subs := server_subs w1\<rparr>"
  have st: "sw_registered w1" "subscription w1 = Some sub" by (subst w1, simp)+
  obtain c cs where e: "sub_endpoint sub = Some (c # cs)" "push_endpoint info = c # cs"
    using push_info_endpoint [OF sub(1)] by (cases "push_endpoint info") auto
  have shown: "fst (getPushSubscription env w1) = Inr (Some info)"
    using get_of_ready [OF env(1,2) resolve_registered [OF reg st(1)]] st(2) sub(1) by simp
  have stored: "own_rows (ps_user srv) (push_endpoint info) w1 = [info]"
    unfolding own_rows_def sub(2) by (rule stored_row [OF rows])
  have "own_rows (ps_user srv) (push_endpoint info) w2 = [] \<and>
      fst (getPushSubscription env' w2) = Inr (if unsubscribe_answer env' = Inr True then None else Some info) \<and>
      server_subs w2 = filter (\<lambda>r. \<not> row_of (ps_user srv) (push_endpoint info) r) (server_subs w)"
    if off: "sw_supported env'" "pm_supported env'" "ps_user srv' = ps_user srv" "unsubscribePush env' srv' w1 = (Inr (), w2)" for env' srv' w2
  proof -
    have reg': "resolveRegistration env' False w1 = (Inr True, w1)"
      using off st(1) by (auto simp: unsubscribePush_def push_defs split: option.splits if_splits)
    obtain a where a: "unsubscribe_answer env' = Inr a"
      using off reg' st(2) by (auto simp: unsubscribePush_def attempt_def split: sum.splits)
    have rm: "server_subs w2 = unsubscribe_push (ps_user srv) (push_endpoint info) (server_subs w1)"
      and b: "subscription w2 = (if a then None else Some sub)" "sw_registered w2"
      using off reg' st e a
      by (auto simp: unsubscribePush_def attempt_def Let_def removeSubscription_def split: sum.splits option.splits if_splits)
    have "fst (getPushSubscription env' w2) = Inr (if a then None else Some info)"
      using get_of_ready [OF off(1,2) resolve_registered [OF reg' b(2)]] b(1) sub(1) by simp
    moreover have "server_subs w2 = filter (\<lambda>r. \<not> row_of (ps_user srv) (push_endpoint info) r) (server_subs w)"
      by (simp add: rm unsubscribe_push_def sub(2) other_rows)
    ultimately show ?thesis by (simp add: own_rows_def a)
  qed
  with env shown stored show ?thesis by blast
qed

definition sample_subscription :: SubscriptionJson where
  "sample_subscription = \<lparr>sub_endpoint = Some ''https://push/1'', sub_keys = Some (Some ''p'', Some ''a'')\<rparr>"

definition sample_env :: PushEnv where
  "sample_env = \<lparr>sw_supported = True, pm_supported = True, permission = ''granted'', lookup_error = None,
     register_error = None, ready_after = Some 20, pm_subscribe = (\<lambda>_ _. Inr sample_subscription),
     unsubscribe_answer = Inr True, atob_error = ''bad key''\<rparr>"

definition sample_info :: PushSubscriptionInfo where
  "sample_info = \<lparr>push_endpoint = ''https://push/1'', push_p256dh = ''p'', push_auth = ''a''\<rparr>"

definition sample_world :: "bool \<Rightarrow> SubscriptionJson option \<Rightarrow> PushSubscriptionInfo list \<Rightarrow> PushWorld" where
  "sample_world r sub subs = \<lparr>sw_registered = r, subscription = sub, server_subs = map (\<lambda>i. \<lparr>pr_user = ''u1'', pr_info = i\<rparr>) subs\<rparr>"

definition sample_server :: "string option \<Rightarrow> PushServer" where
  "sample_server e = \<lparr>ps_user = ''u1'', ps_save_error = e, ps_remove_error = None\<rparr>"

lemmas sample_defs = sample_env_def sample_info_def sample_subscription_def sample_world_def sample_server_def push_defs
  push_info_def SW_ACTIVATION_TIMEOUT_MS_def

lemma sample_key: "urlBase64ToUint8Array ''BAE'' = Some [4, 1]"
  by code_simp

theorem push_toggle_round_trip_witness:
  "fst (getPushSubscription sample_env (sample_world True (Some sample_subscription) [sample_info])) = Inr (Some sample_info) \<and>
   fst (getPushSubscription sample_env (sample_world True None [])) = Inr None"
proof -
  let ?srv = "sample_server None" and ?w1 = "sample_world True (Some sample_subscription) [sample_info]"
  have on: "subscribePush sample_env ?srv ''BAE'' (sample_world False None []) = (Inr sample_info, ?w1)"
    by (simp add: subscribePush_def sample_key saveSubscription_def subscribe_push_def sample_defs)
  have off: "unsubscribePush sample_env ?srv ?w1 = (Inr (), sample_world True None [])"
    by (simp add: unsubscribePush_def removeSubscription_def unsubscribe_push_def row_of_def sample_defs)
  have "unique_rows (server_subs (sample_world False None []))" by (simp add: unique_rows_def sample_world_def)
  from push_toggle_round_trip [OF on this] off show ?thesis by (simp add: sample_env_def)
qed

text \<open>
  When the server refuses the subscription, the browser keeps it: the call fails, the server stores
  nothing, and the next load of the settings page still shows push as enabled.
\<close>
theorem refused_subscription_shown_enabled:
  assumes "sw_supported env" and "pm_supported env" and "permission env = ''granted''"
    and "resolveRegistration env True w = (Inr True, w1)" and "urlBase64ToUint8Array key = Some bytes"
    and "pm_subscribe env bytes (subscription w) = Inr sub" and "push_info sub = Some info"
    and "ps_save_error srv = Some e"
  shows "\<exists>w'. subscribePush env srv key w = (Inl e, w') \<and> server_subs w' = server_subs w \<and>
    pushEnabled (page_push_effect True env w' page)"
proof -
  let ?w = "w\<lparr>sw_registered := True, subscription := Some sub\<rparr>"
  have w1: "w1 = w\<lparr>sw_registered := True\<rparr>" using assms(4) by (simp add: resolve_ready)
  have "subscribePush env srv key w = (Inl e, ?w)"
    using assms unfolding w1 by (simp add: subscribePush_def attempt_def saveSubscription_def)
  moreover have "fst (getPushSubscription env ?w) = Inr (Some info)"
    using get_of_ready [OF assms(1,2) resolve_registered [OF assms(4), of ?w False]] assms(7) by simp
  ultimately show ?thesis by (simp add: page_push_effect_def)
qed

theorem refused_subscription_shown_enabled_witness:
  "\<exists>w'. subscribePush sample_env (sample_server (Some ''503'')) ''BAE'' (sample_world False None []) = (Inl ''503'', w') \<and>
    server_subs w' = [] \<and>
    pushEnabled (page_push_effect True sample_env w' \<lparr>pushEnabled = False, pushPermission = [], page_toasts = initialToasts\<rparr>)"
proof -
  show ?thesis
    using refused_subscription_shown_enabled [of sample_env "sample_world False None []"
        "sample_world True None []" "''BAE''" "[4, 1]" sample_subscription sample_info "sample_server (Some ''503'')" "''503''"]
    by (simp add: sample_key sample_defs)
qed

end
