(* ===== verification/Dates.thy ===== *)
theory Dates
  imports Js_Strings
begin

text \<open>
  The part of JavaScript's \<^verbatim>\<open>Date\<close> the client's calendars use, in local time of a fixed offset: a day is
  its number, counted from the first of January 1970, and \<^verbatim>\<open>getFullYear\<close>, \<^verbatim>\<open>getMonth\<close> (from 0), \<^verbatim>\<open>getDate\<close>
  and \<^verbatim>\<open>getDay\<close> (from Sunday) are functions of it. \<open>make_day\<close> is \<^verbatim>\<open>new Date(y, m, d)\<close>, with months and days
  out of range carried over and two-digit years in the twentieth century, as ECMAScript defines it. A date
  is written \<^verbatim>\<open>YYYY-MM-DD\<close> and compared as a string.
\<close>

subsection \<open>Years and months\<close>

definition leap :: "int \<Rightarrow> bool" where
  "leap y = (y mod 4 = 0 \<and> (y mod 100 \<noteq> 0 \<or> y mod 400 = 0))"

definition day_from_year :: "int \<Rightarrow> int" where
  "day_from_year y = 365 * (y - 1970) + (y - 1969) div 4 - (y - 1901) div 100 + (y - 1601) div 400"

definition month_lengths :: "int \<Rightarrow> int list" where
  "month_lengths y = [31, if leap y then 29 else 28, 31, 30, 31, 30, 31, 31, 30, 31, 30, 31]"

definition month_offset :: "int \<Rightarrow> nat \<Rightarrow> int" where
  "month_offset y m = sum_list (take m (month_lengths y))"

definition full_year :: "int \<Rightarrow> int" where
  "full_year y = (if 0 \<le> y \<and> y \<le> 99 then 1900 + y else y)"

definition civil_day :: "int \<Rightarrow> int \<Rightarrow> int \<Rightarrow> int" where
  "civil_day y m d =
    (let ym = y + m div 12 in day_from_year ym + month_offset ym (nat (m mod 12)) + d - 1)"

definition make_day :: "int \<Rightarrow> int \<Rightarrow> int \<Rightarrow> int" where
  "make_day y m d = civil_day (full_year y) m d"

subsection \<open>Reading a day\<close>

definition getFullYear :: "int \<Rightarrow> int" where
  "getFullYear n =
    (let y = 1970 + 400 * n div 146097
     in if n < day_from_year y then y - 1 else if day_from_year (y + 1) \<le> n then y + 1 else y)"

definition day_of_year :: "int \<Rightarrow> int" where
  "day_of_year n = n - day_from_year (getFullYear n)"

definition getMonth :: "int \<Rightarrow> int" where
  "getMonth n = int (length (takeWhile (\<lambda>m. month_offset (getFullYear n) m \<le> day_of_year n) [1..<12]))"

definition getDate :: "int \<Rightarrow> int" where
  "getDate n = day_of_year n - month_offset (getFullYear n) (nat (getMonth n)) + 1"

definition getDay :: "int \<Rightarrow> int" where
  "getDay n = (n + 4) mod 7"

definition days_in :: "int \<Rightarrow> int \<Rightarrow> int" where
  "days_in y m = month_lengths y ! nat m"

lemma div_bounds:
  fixes a k :: int
  assumes "0 < k"
  shows "k * (a div k) \<le> a" and "a < k * (a div k) + k"
  using assms mult_div_mod_eq [of k a] pos_mod_bound [of k a] pos_mod_sign [of k a] by linarith+

lemma div_Suc_int:
  fixes a k :: int
  assumes "0 < k"
  shows "(a + 1) div k = a div k + (if k dvd a + 1 then 1 else 0)"
proof (cases "k dvd a + 1")
  case True
  then obtain q where q: "a + 1 = k * q" by (rule dvdE)
  then have "a div k = q - 1" using assms by (intro int_div_pos_eq [of _ _ _ "k - 1"]) (auto simp: algebra_simps)
  with True q assms show ?thesis by simp
next
  case False
  then have "a mod k + 1 \<noteq> k"
    by (metis dvd_triv_left mult_div_mod_eq add.assoc distrib_left mult.right_neutral)
  then have "a mod k + 1 < k" using pos_mod_bound [OF assms, of a] by linarith
  then have "(a + 1) div k = a div k"
    using assms pos_mod_sign [OF assms, of a] mult_div_mod_eq [of k a]
    by (intro int_div_pos_eq [of _ _ _ "a mod k + 1"]) linarith+
  with False show ?thesis by simp
qed

lemma day_from_year_Suc: "day_from_year (y + 1) = day_from_year y + (if leap y then 366 else 365)"
proof -
  have s: "(y - 1968) div 4 = (y - 1969) div 4 + (if 4 dvd y - 1968 then 1 else 0)"
    "(y - 1900) div 100 = (y - 1901) div 100 + (if 100 dvd y - 1900 then 1 else 0)"
    "(y - 1600) div 400 = (y - 1601) div 400 + (if 400 dvd y - 1600 then 1 else 0)"
    using div_Suc_int [of 4 "y - 1969"] div_Suc_int [of 100 "y - 1901"] div_Suc_int [of 400 "y - 1601"] by simp_all
  have d: "4 dvd y - 1968 \<longleftrightarrow> 4 dvd y" "100 dvd y - 1900 \<longleftrightarrow> 100 dvd y" "400 dvd y - 1600 \<longleftrightarrow> 400 dvd y"
    using dvd_diff_left_iff [of 4 1968 y] dvd_diff_left_iff [of 100 1900 y] dvd_diff_left_iff [of 400 1600 y]
    by simp_all
  have "400 dvd y \<Longrightarrow> 100 dvd y" "100 dvd y \<Longrightarrow> 4 dvd y"
    using dvd_trans [of 100 400 y] dvd_trans [of 4 100 y] by simp_all
  moreover have e: "y + 1 - 1970 = y - 1970 + 1" "y + 1 - 1969 = y - 1968" "y + 1 - 1901 = y - 1900"
    "y + 1 - 1601 = y - 1600" by simp_all
  moreover have "leap y \<longleftrightarrow> 4 dvd y \<and> (\<not> 100 dvd y \<or> 400 dvd y)" by (simp add: leap_def dvd_eq_mod_eq_0)
  ultimately show ?thesis
    unfolding day_from_year_def e s d by (cases "4 dvd y"; cases "100 dvd y"; cases "400 dvd y") simp_all
qed

lemma day_from_year_mono: "y \<le> z \<Longrightarrow> day_from_year y \<le> day_from_year z"
proof (induction z rule: int_ge_induct)
  case (step z)
  then show ?case by (simp add: day_from_year_Suc)
qed simp

lemma getFullYear_bounds: "day_from_year (getFullYear n) \<le> n \<and> n < day_from_year (getFullYear n + 1)"
proof -
  define y where "y = 1970 + 400 * n div 146097"
  have y: "146097 * (y - 1970) \<le> 400 * n" "400 * n < 146097 * (y - 1970) + 146097"
    using div_bounds [of 146097 "400 * n"] by (simp_all add: y_def)
  note b = div_bounds [of 4] div_bounds [of 100] div_bounds [of 400]
  have low: "day_from_year (y - 1) \<le> n"
    using y(1) b(1,2) [of "y - 1970"] b(3,4) [of "y - 1902"] b(5,6) [of "y - 1602"]
    by (simp add: day_from_year_def)
  have high: "n < day_from_year (y + 2)"
    using y(2) b(1,2) [of "y - 1967"] b(3,4) [of "y - 1899"] b(5,6) [of "y - 1599"]
    by (simp add: day_from_year_def)
  show ?thesis
    using low high by (auto simp: getFullYear_def y_def [symmetric] Let_def add.commute)
qed

lemma getFullYear_unique: "day_from_year y \<le> n \<Longrightarrow> n < day_from_year (y + 1) \<Longrightarrow> getFullYear n = y"
  using getFullYear_bounds [of n] day_from_year_mono [of "y + 1" "getFullYear n"] day_from_year_mono [of "getFullYear n + 1" y]
  by (cases "getFullYear n" y rule: linorder_cases) auto

lemma length_month_lengths [simp]: "length (month_lengths y) = 12"
  by (simp add: month_lengths_def)

lemma month_offset_0 [simp]: "month_offset y 0 = 0"
  by (simp add: month_offset_def)

lemma month_offset_Suc: "m < 12 \<Longrightarrow> month_offset y (Suc m) = month_offset y m + days_in y (int m)"
  by (simp add: month_offset_def days_in_def take_Suc_conv_app_nth)

lemma month_offset_12: "month_offset y 12 = (if leap y then 366 else 365)"
  by (simp add: month_offset_def month_lengths_def)

lemma days_in_bounds:
  assumes "0 \<le> m" and "m < 12"
  shows "28 \<le> days_in y m" and "days_in y m \<le> 31"
proof -
  have "days_in y m \<in> set (month_lengths y)" using assms by (simp add: days_in_def nat_less_iff)
  then show "28 \<le> days_in y m" "days_in y m \<le> 31" by (auto simp: month_lengths_def split: if_splits)
qed

lemma month_offset_mono: "i \<le> k \<Longrightarrow> k \<le> 12 \<Longrightarrow> month_offset y i \<le> month_offset y k"
proof (induction k rule: dec_induct)
  case (step k)
  then show ?case using days_in_bounds [of "int k" y] by (simp add: month_offset_Suc)
qed simp

lemma month_index_unique:
  assumes "m < 12" and "month_offset y m \<le> e" and "e < month_offset y (Suc m)"
  shows "length (takeWhile (\<lambda>k. month_offset y k \<le> e) [1..<12]) = m"
proof -
  let ?P = "\<lambda>k. month_offset y k \<le> e"
  have below: "?P k" if "k \<le> m" for k using that assms month_offset_mono [of k m y] by linarith
  have "[1..<12] = [1..<Suc m] @ [Suc m..<12]"
    using assms(1) upt_add_eq_append [of 1 "Suc m" "11 - m"] by simp
  moreover have "takeWhile ?P [Suc m..<12] = []"
    using assms(1,3) by (cases "Suc m < 12") (simp_all add: upt_conv_Cons)
  ultimately have "takeWhile ?P [1..<12] = [1..<Suc m]" using below by (simp add: takeWhile_append)
  then show ?thesis by simp
qed

lemma month_index_exists:
  "k \<le> 12 \<Longrightarrow> 0 \<le> e \<Longrightarrow> e < month_offset y k \<Longrightarrow> \<exists>m<k. month_offset y m \<le> e \<and> e < month_offset y (Suc m)"
proof (induction k)
  case (Suc k)
  then show ?case by (cases "e < month_offset y k") (auto simp: less_Suc_eq not_less)
qed simp

definition civil :: "int \<Rightarrow> int \<Rightarrow> int \<Rightarrow> bool" where
  "civil y m d = (0 \<le> m \<and> m < 12 \<and> 1 \<le> d \<and> d \<le> days_in y m)"

lemma civil_day_parts:
  assumes "civil y m d"
  shows "getFullYear (civil_day y m d) = y" and "getMonth (civil_day y m d) = m"
    and "getDate (civil_day y m d) = d"
proof -
  let ?n = "civil_day y m d" and ?k = "nat m"
  have k: "?k < 12" "int ?k = m" and d: "1 \<le> d" "d \<le> days_in y m" using assms by (auto simp: civil_def)
  have n: "?n = day_from_year y + (month_offset y ?k + d - 1)"
    using assms by (simp add: civil_day_def civil_def Let_def)
  have off: "month_offset y ?k \<le> month_offset y ?k + d - 1" "month_offset y ?k + d - 1 < month_offset y (Suc ?k)"
    using d k month_offset_Suc [of ?k y] by simp_all
  moreover have "month_offset y (Suc ?k) \<le> month_offset y 12" "0 \<le> month_offset y ?k"
    using k month_offset_mono [of "Suc ?k" 12 y] month_offset_mono [of 0 ?k y] by simp_all
  ultimately have "day_from_year y \<le> ?n" "?n < day_from_year (y + 1)"
    unfolding n day_from_year_Suc month_offset_12 by linarith+
  then show y: "getFullYear ?n = y" by (rule getFullYear_unique)
  then have doy: "day_of_year ?n = month_offset y ?k + d - 1" by (simp add: day_of_year_def n)
  then show m: "getMonth ?n = m"
    using month_index_unique [OF k(1) off] k(2) by (simp add: getMonth_def y)
  show "getDate ?n = d" using doy by (simp add: getDate_def y m)
qed

lemma civil_of_day: "civil (getFullYear n) (getMonth n) (getDate n)"
  and civil_day_of_parts: "civil_day (getFullYear n) (getMonth n) (getDate n) = n"
proof -
  let ?y = "getFullYear n" and ?e = "day_of_year n"
  have e: "0 \<le> ?e" "?e < month_offset ?y 12"
    using getFullYear_bounds [of n] by (simp_all add: day_of_year_def day_from_year_Suc month_offset_12 split: if_splits)
  from month_index_exists [OF _ this] obtain m where
    m: "m < 12" "month_offset ?y m \<le> ?e" "?e < month_offset ?y (Suc m)" by auto
  then have month: "getMonth n = int m" unfolding getMonth_def using month_index_unique [OF m] by (simp only:)
  then have date: "getDate n = ?e - month_offset ?y m + 1" by (simp add: getDate_def)
  show "civil ?y (getMonth n) (getDate n)"
    using m month_offset_Suc [OF m(1), of ?y] unfolding month date by (simp add: civil_def)
  show "civil_day ?y (getMonth n) (getDate n) = n"
    using m(1) unfolding month date by (simp add: civil_day_def Let_def day_of_year_def)
qed

lemma civil_day_mono_day: "civil_day y m (d + k) = civil_day y m d + k"
  by (simp add: civil_day_def Let_def)

text \<open>The month before, and its last day.\<close>

definition prev_month :: "int \<Rightarrow> int \<Rightarrow> int \<times> int" where
  "prev_month y m = (if m = 0 then (y - 1, 11) else (y, m - 1))"

definition next_month :: "int \<Rightarrow> int \<Rightarrow> int \<times> int" where
  "next_month y m = (if m = 11 then (y + 1, 0) else (y, m + 1))"

lemma civil_day_in: "0 \<le> m \<Longrightarrow> m < 12 \<Longrightarrow> civil_day y m d = day_from_year y + month_offset y (nat m) + d - 1"
  by (simp add: civil_day_def Let_def)

lemma civil_day_prev:
  assumes "0 \<le> m" and "m < 12"
  shows "civil_day y (m - 1) d = civil_day (fst (prev_month y m)) (snd (prev_month y m)) d"
  using assms by (cases "m = 0") (simp_all add: prev_month_def civil_day_def Let_def)

lemma civil_day_next:
  assumes "0 \<le> m" and "m < 12"
  shows "civil_day y (m + 1) d = civil_day (fst (next_month y m)) (snd (next_month y m)) d"
  using assms by (cases "m = 11") (simp_all add: next_month_def civil_day_def Let_def)

lemma next_month_first:
  assumes "0 \<le> m" and "m < 12"
  shows "civil_day (fst (next_month y m)) (snd (next_month y m)) 1 = civil_day y m (days_in y m) + 1"
proof (cases "m = 11")
  case True
  have "month_offset y 12 = month_offset y 11 + days_in y 11" using month_offset_Suc [of 11 y] by simp
  then show ?thesis
    using True day_from_year_Suc [of y] month_offset_12 [of y] by (simp add: next_month_def civil_day_in)
next
  case False
  then have "nat (m + 1) = Suc (nat m)" "nat m < 12" using assms by simp_all
  then show ?thesis
    using False assms month_offset_Suc [of "nat m" y] by (simp add: next_month_def civil_day_in)
qed

lemma next_prev_month: "0 \<le> m \<Longrightarrow> m < 12 \<Longrightarrow> next_month (fst (prev_month y m)) (snd (prev_month y m)) = (y, m)"
  and prev_next_month: "0 \<le> m \<Longrightarrow> m < 12 \<Longrightarrow> prev_month (fst (next_month y m)) (snd (next_month y m)) = (y, m)"
  by (auto simp: next_month_def prev_month_def)

lemma prev_month_range: "0 \<le> m \<Longrightarrow> m < 12 \<Longrightarrow> 0 \<le> snd (prev_month y m) \<and> snd (prev_month y m) < 12"
  and next_month_range: "0 \<le> m \<Longrightarrow> m < 12 \<Longrightarrow> 0 \<le> snd (next_month y m) \<and> snd (next_month y m) < 12"
  by (auto simp: next_month_def prev_month_def)

lemma prev_month_last:
  assumes "0 \<le> m" and "m < 12"
  shows "civil_day (fst (prev_month y m)) (snd (prev_month y m)) (days_in (fst (prev_month y m)) (snd (prev_month y m)))
    = civil_day y m 0"
  using next_month_first [of "snd (prev_month y m)" "fst (prev_month y m)"] assms prev_month_range [OF assms, of y]
    next_prev_month [OF assms, of y] civil_day_mono_day [of y m 0 1] by simp

subsection \<open>Days in order\<close>

lemma getFullYear_mono: "a \<le> b \<Longrightarrow> getFullYear a \<le> getFullYear b"
  using getFullYear_bounds [of a] getFullYear_bounds [of b] day_from_year_mono [of "getFullYear b + 1" "getFullYear a"]
  by linarith

lemma getMonth_mono:
  assumes "a \<le> b" and "getFullYear a = getFullYear b"
  shows "getMonth a \<le> getMonth b"
proof (rule ccontr)
  assume less: "\<not> getMonth a \<le> getMonth b"
  let ?y = "getFullYear b" and ?i = "nat (getMonth a)" and ?k = "nat (getMonth b)"
  have c: "civil ?y (getMonth a) (getDate a)" "civil ?y (getMonth b) (getDate b)"
    using civil_of_day [of a] civil_of_day [of b] assms(2) by simp_all
  have "a = civil_day ?y (getMonth a) (getDate a)" "b = civil_day ?y (getMonth b) (getDate b)"
    using civil_day_of_parts [of a] civil_day_of_parts [of b] assms(2) by simp_all
  then have "month_offset ?y ?i + getDate a \<le> month_offset ?y ?k + getDate b"
    using assms(1) c by (simp add: civil_day_in civil_def)
  moreover have "Suc ?k \<le> ?i" "?i \<le> 12" "?k < 12" "int ?k = getMonth b"
    using less c by (auto simp: civil_def)
  then have "month_offset ?y ?k + days_in ?y (getMonth b) \<le> month_offset ?y ?i"
    using month_offset_mono [of "Suc ?k" ?i ?y] month_offset_Suc [of ?k ?y] by simp
  ultimately show False using c by (simp add: civil_def)
qed

lemma same_month_date:
  assumes "getFullYear a = getFullYear b" and "getMonth a = getMonth b"
  shows "a - b = getDate a - getDate b"
proof -
  have "0 \<le> getMonth b" "getMonth b < 12" using civil_of_day [of b] by (simp_all add: civil_def)
  then show ?thesis
    using civil_day_of_parts [of a] civil_day_of_parts [of b] assms by (simp add: civil_day_in)
qed

lemma day_less_iff:
  "a < b \<longleftrightarrow> getFullYear a < getFullYear b \<or> getFullYear a = getFullYear b \<and>
    (getMonth a < getMonth b \<or> getMonth a = getMonth b \<and> getDate a < getDate b)"
proof (cases a b rule: linorder_cases)
  case less
  then show ?thesis
    using getFullYear_mono [of a b] getMonth_mono [of a b] same_month_date [of a b] by auto
next
  case greater
  then show ?thesis
    using getFullYear_mono [of b a] getMonth_mono [of b a] same_month_date [of a b] by auto
qed simp

subsection \<open>The text of a day\<close>

text \<open>\<^verbatim>\<open><\<close> on strings: the order of code units, a proper prefix first.\<close>

fun js_lt :: "string \<Rightarrow> string \<Rightarrow> bool" where
  "js_lt s [] = False"
| "js_lt [] (c # cs) = True"
| "js_lt (a # s) (b # t) = ((of_char a :: nat) < of_char b \<or> a = b \<and> js_lt s t)"

definition formatLocalDate :: "int \<Rightarrow> string" where
  "formatLocalDate n = show_int (getFullYear n) @ ''-'' @ js_padStart2 (show_int (getMonth n + 1)) @ ''-'' @
     js_padStart2 (show_int (getDate n))"

fun fixed_width :: "nat \<Rightarrow> nat \<Rightarrow> string" where
  "fixed_width 0 n = []"
| "fixed_width (Suc k) n = fixed_width k (n div 10) @ [digit_char (n mod 10)]"

lemma length_fixed_width [simp]: "length (fixed_width k n) = k"
  by (induction k arbitrary: n) auto

lemma js_lt_append:
  "length a = length b \<Longrightarrow> js_lt (a @ s) (b @ t) \<longleftrightarrow> js_lt a b \<or> a = b \<and> js_lt s t"
  by (induction a b rule: list_induct2) auto

lemma js_lt_irrefl [simp]: "\<not> js_lt s s"
  by (induction s) auto

lemma digit_char_order: "a < 10 \<Longrightarrow> b < 10 \<Longrightarrow> (of_char (digit_char a) :: nat) < of_char (digit_char b) \<longleftrightarrow> a < b"
  by (simp add: of_char_digit_char)

lemma digit_char_inj: "a < 10 \<Longrightarrow> b < 10 \<Longrightarrow> digit_char a = digit_char b \<longleftrightarrow> a = b"
  by (metis digit_val_digit_char)

lemma fixed_width_inj: "a < 10 ^ k \<Longrightarrow> b < 10 ^ k \<Longrightarrow> fixed_width k a = fixed_width k b \<longleftrightarrow> a = b"
proof (induction k arbitrary: a b)
  case (Suc k)
  then have "a div 10 < 10 ^ k" "b div 10 < 10 ^ k" by (simp_all add: less_mult_imp_div_less mult.commute)
  with Suc.IH have "fixed_width (Suc k) a = fixed_width (Suc k) b \<longleftrightarrow> a div 10 = b div 10 \<and> a mod 10 = b mod 10"
    by (simp add: digit_char_inj)
  then show ?case by (metis mult_div_mod_eq)
qed simp

lemma lex_div:
  fixes a b :: nat
  shows "a div 10 < b div 10 \<or> a div 10 = b div 10 \<and> a mod 10 < b mod 10 \<longleftrightarrow> a < b"
proof -
  obtain p q r s where "p = a div 10" "q = b div 10" "r = a mod 10" "s = b mod 10" by blast
  moreover from this have "a = 10 * p + r" "b = 10 * q + s" "r < 10" "s < 10" by simp_all
  ultimately show ?thesis by linarith
qed

lemma fixed_width_order:
  "a < 10 ^ k \<Longrightarrow> b < 10 ^ k \<Longrightarrow> js_lt (fixed_width k a) (fixed_width k b) \<longleftrightarrow> a < b"
proof (induction k arbitrary: a b)
  case (Suc k)
  then have d: "a div 10 < 10 ^ k" "b div 10 < 10 ^ k" by (simp_all add: less_mult_imp_div_less mult.commute)
  have "js_lt (fixed_width (Suc k) a) (fixed_width (Suc k) b) \<longleftrightarrow>
      a div 10 < b div 10 \<or> a div 10 = b div 10 \<and> a mod 10 < b mod 10"
    using Suc.IH [OF d] fixed_width_inj [OF d] by (simp add: js_lt_append digit_char_order)
  also have "\<dots> \<longleftrightarrow> a < b" by (rule lex_div)
  finally show ?case .
qed simp

lemma show_nat_fixed_width: "10 ^ k \<le> n \<Longrightarrow> n < 10 ^ Suc k \<Longrightarrow> show_nat n = fixed_width (Suc k) n"
proof (induction k arbitrary: n)
  case 0
  then show ?case by (simp add: show_nat_small)
next
  case (Suc k)
  then have "\<not> n < 10" by (simp, metis One_nat_def Suc_leI le_trans mult.commute mult_le_mono2 nat_mult_1_right not_less one_le_power zero_less_numeral one_le_numeral)
  moreover have "10 ^ k \<le> n div 10" "n div 10 < 10 ^ Suc k"
    using Suc.prems by (simp_all add: less_eq_div_iff_mult_less_eq less_mult_imp_div_less mult.commute)
  ultimately show ?case using Suc.IH [of "n div 10"] by (simp add: show_nat.simps [of n])
qed

lemma digit_char_0: "digit_char 0 = CHR ''0''"
  by code_simp

lemma pad_fixed_width: "n < 100 \<Longrightarrow> js_padStart2 (show_nat n) = fixed_width 2 n"
  using digit_char_0 by (cases "n < 10")
    (simp_all add: js_padStart2_def show_nat_small show_nat_fixed_width [of 1, simplified] numeral_2_eq_2)

definition four_digit :: "int \<Rightarrow> bool" where
  "four_digit n = (1000 \<le> getFullYear n \<and> getFullYear n \<le> 9999)"

lemma formatLocalDate_fixed:
  assumes "four_digit n"
  shows "formatLocalDate n = fixed_width 4 (nat (getFullYear n)) @ ''-'' @ fixed_width 2 (nat (getMonth n + 1)) @ ''-'' @
    fixed_width 2 (nat (getDate n))"
proof -
  have c: "0 \<le> getMonth n" "getMonth n < 12" "1 \<le> getDate n" "getDate n \<le> 31"
    using civil_of_day [of n] days_in_bounds(2) [of "getMonth n" "getFullYear n"] by (auto simp: civil_def)
  have "show_nat (nat (getFullYear n)) = fixed_width (Suc 3) (nat (getFullYear n))"
    using assms by (intro show_nat_fixed_width) (simp_all add: four_digit_def le_nat_iff nat_less_iff)
  moreover have "Suc 3 = 4" by simp
  ultimately have "show_int (getFullYear n) = fixed_width 4 (nat (getFullYear n))"
    using assms by (simp only: four_digit_def) (simp add: four_digit_def)
  moreover have "js_padStart2 (show_int (getMonth n + 1)) = fixed_width 2 (nat (getMonth n + 1))"
    "js_padStart2 (show_int (getDate n)) = fixed_width 2 (nat (getDate n))"
    using c pad_fixed_width [of "nat (getMonth n + 1)"] pad_fixed_width [of "nat (getDate n)"] by simp_all
  ultimately show ?thesis unfolding formatLocalDate_def by simp
qed

text \<open>
  Texts of days and their order, as an interface: a client that filters by comparing texts filters by
  comparing days.
\<close>

locale ordered_text =
  fixes text_of :: "int \<Rightarrow> string"
    and valid :: "int \<Rightarrow> bool"
  assumes text_order: "valid a \<Longrightarrow> valid b \<Longrightarrow> js_lt (text_of a) (text_of b) \<longleftrightarrow> a < b"
begin

lemma text_inj: "valid a \<Longrightarrow> valid b \<Longrightarrow> text_of a = text_of b \<longleftrightarrow> a = b"
  using text_order [of a b] text_order [of b a] by (cases a b rule: linorder_cases) auto

lemma text_between:
  "valid a \<Longrightarrow> valid lo \<Longrightarrow> valid hi \<Longrightarrow>
    \<not> js_lt (text_of a) (text_of lo) \<and> \<not> js_lt (text_of hi) (text_of a) \<longleftrightarrow> lo \<le> a \<and> a \<le> hi"
  by (simp add: text_order not_less)

end

lemma date_text_order:
  assumes "four_digit a" and "four_digit b"
  shows "js_lt (formatLocalDate a) (formatLocalDate b) \<longleftrightarrow> a < b"
proof -
  define ya ma da yb mb db where "ya = nat (getFullYear a)" and "ma = nat (getMonth a + 1)" and "da = nat (getDate a)"
    and "yb = nat (getFullYear b)" and "mb = nat (getMonth b + 1)" and "db = nat (getDate b)"
  note defs = this
  have c: "0 \<le> getMonth n \<and> getMonth n < 12 \<and> 1 \<le> getDate n \<and> getDate n \<le> 31" for n
    using civil_of_day [of n] days_in_bounds(2) [of "getMonth n" "getFullYear n"] by (auto simp: civil_def)
  have r: "ya < 10 ^ 4" "yb < 10 ^ 4" "ma < 10 ^ 2" "mb < 10 ^ 2" "da < 10 ^ 2" "db < 10 ^ 2"
    using assms c [of a] c [of b] by (auto simp: defs four_digit_def)
  have i: "int ya = getFullYear a" "int ma = getMonth a + 1" "int da = getDate a"
    "int yb = getFullYear b" "int mb = getMonth b + 1" "int db = getDate b"
    using assms c [of a] c [of b] by (auto simp: defs four_digit_def)
  have "js_lt (formatLocalDate a) (formatLocalDate b) \<longleftrightarrow>
      ya < yb \<or> ya = yb \<and> (ma < mb \<or> ma = mb \<and> da < db)"
    unfolding formatLocalDate_fixed [OF assms(1)] formatLocalDate_fixed [OF assms(2)] defs [symmetric]
    using r by (simp add: js_lt_append fixed_width_order fixed_width_inj del: fixed_width.simps)
  also have "\<dots> \<longleftrightarrow> a < b"
  proof -
    have "getMonth a < getMonth b \<longleftrightarrow> ma < mb" "getMonth a = getMonth b \<longleftrightarrow> ma = mb" using i by linarith+
    then show ?thesis unfolding day_less_iff [of a b] i(1,3,4,6) [symmetric] by simp
  qed
  finally show ?thesis .
qed

interpretation date_text: ordered_text formatLocalDate four_digit
  by unfold_locales (rule date_text_order)

subsection \<open>Reading the text of a day\<close>

text \<open>
  The day of a well-formed \<^verbatim>\<open>YYYY-MM-DD\<close>; other texts, which the sources never pass, are \<^term>\<open>None\<close>.
\<close>

definition parse_day :: "string \<Rightarrow> int option" where
  "parse_day s =
    (case js_split CHR ''-'' s of
       [y, m, d] \<Rightarrow>
         if list_all (\<lambda>p. p \<noteq> [] \<and> list_all is_digit p) [y, m, d] \<and> length y = 4 \<and> length m = 2 \<and> length d = 2 \<and>
            civil (int (read_digits y)) (int (read_digits m) - 1) (int (read_digits d))
         then Some (civil_day (int (read_digits y)) (int (read_digits m) - 1) (int (read_digits d)))
         else None
     | _ \<Rightarrow> None)"

lemma fixed_width_digits: "c \<in> set (fixed_width k n) \<Longrightarrow> is_digit c"
  by (induction k arbitrary: n) auto

lemma read_fixed_width: "n < 10 ^ k \<Longrightarrow> read_digits (fixed_width k n) = n"
proof (induction k arbitrary: n)
  case 0
  then show ?case by (simp add: read_digits_def)
next
  case (Suc k)
  then have "n div 10 < 10 ^ k" by (simp add: less_mult_imp_div_less mult.commute)
  then show ?case using Suc.IH by (simp add: read_digits_snoc)
qed

lemma parse_formatLocalDate:
  assumes "four_digit n"
  shows "parse_day (formatLocalDate n) = Some n"
proof -
  have c: "0 \<le> getMonth n" "getMonth n < 12" "1 \<le> getDate n" "getDate n \<le> 31"
    using civil_of_day [of n] days_in_bounds(2) [of "getMonth n" "getFullYear n"] by (auto simp: civil_def)
  let ?y = "fixed_width 4 (nat (getFullYear n))" and ?m = "fixed_width 2 (nat (getMonth n + 1))"
    and ?d = "fixed_width 2 (nat (getDate n))"
  have no: "CHR ''-'' \<notin> set (fixed_width k x)" for k x using fixed_width_digits digit_not_sep by blast
  have "formatLocalDate n = js_join ''-'' [?y, ?m, ?d]" by (simp add: formatLocalDate_fixed [OF assms])
  then have "js_split CHR ''-'' (formatLocalDate n) = [?y, ?m, ?d]"
    using js_split_join [of "[?y, ?m, ?d]" "CHR ''-''"] no by auto
  moreover have "int (read_digits ?y) = getFullYear n" "int (read_digits ?m) - 1 = getMonth n" "int (read_digits ?d) = getDate n"
    using assms c read_fixed_width [of "nat (getFullYear n)" 4] read_fixed_width [of "nat (getMonth n + 1)" 2]
      read_fixed_width [of "nat (getDate n)" 2] by (simp_all add: four_digit_def nat_less_iff)
  moreover have "fixed_width k x \<noteq> []" if "0 < k" for k x
    using that length_fixed_width [of k x] by (metis length_0_conv less_irrefl)
  ultimately show ?thesis
    using civil_of_day [of n] civil_day_of_parts [of n] fixed_width_digits
    by (simp add: parse_day_def list_all_iff del: fixed_width.simps)
qed

end
