(* ===== verification/Calendar.thy ===== *)
theory Calendar
  imports Complex_Main Dates
begin

text \<open>
  Date and time controls: the month calendar (\<^verbatim>\<open>frontend/src/components/ui/calendar.tsx\<close>), the date range
  picker (\<^verbatim>\<open>components/ui/date-range-picker.tsx\<close>), the time picker (\<^verbatim>\<open>components/ui/time-picker.tsx\<close>) and
  the calendar heatmap (\<^verbatim>\<open>components/charts/calendar-heatmap.tsx\<close>). A local date is the number of its day,
  an instant is in milliseconds, and the offset of the local zone is constant: a change to summer time
  within a range is not modelled. Screen coordinates are rationals.
\<close>

subsection \<open>The month calendar\<close>

record Cell =
  cell_day :: int
  cell_date :: string
  isCurrentMonth :: bool
  isToday :: bool
  isDisabled :: bool

record View =
  v_year :: int
  v_month :: int

definition getDaysInMonth :: "int \<Rightarrow> int \<Rightarrow> int" where
  "getDaysInMonth year month = getDate (make_day year (month + 1) 0)"

definition getFirstDayOfMonth :: "int \<Rightarrow> int \<Rightarrow> int" where
  "getFirstDayOfMonth year month = getDay (make_day year month 1)"

definition before_min :: "string option \<Rightarrow> string \<Rightarrow> bool" where
  "before_min minDate date = (case minDate of None \<Rightarrow> False | Some s \<Rightarrow> s \<noteq> [] \<and> js_lt date s)"

definition after_max :: "string option \<Rightarrow> string \<Rightarrow> bool" where
  "after_max maxDate date = (case maxDate of None \<Rightarrow> False | Some s \<Rightarrow> s \<noteq> [] \<and> js_lt s date)"

definition padding_cell :: "int \<Rightarrow> int \<Rightarrow> int \<Rightarrow> Cell" where
  "padding_cell year month d = \<lparr>cell_day = d, cell_date = formatLocalDate (make_day year month d),
     isCurrentMonth = False, isToday = False, isDisabled = True\<rparr>"

text \<open>\<open>now_day\<close> is the current local day.\<close>

definition calendar_days :: "int \<Rightarrow> string option \<Rightarrow> string option \<Rightarrow> View \<Rightarrow> Cell list" where
  "calendar_days now_day minDate maxDate v =
    (let year = v_year v; month = v_month v;
         total = getDaysInMonth year month;
         firstDay = getFirstDayOfMonth year month;
         prevMonthDays = getDaysInMonth year (month - 1);
         today = formatLocalDate now_day;
         cells1 = map (\<lambda>i. padding_cell year (month - 1) (prevMonthDays - i)) (rev [0..firstDay - 1]);
         cells2 = map (\<lambda>d. let date = formatLocalDate (make_day year month d)
             in \<lparr>cell_day = d, cell_date = date, isCurrentMonth = True, isToday = (date = today),
                 isDisabled = (before_min minDate date \<or> after_max maxDate date)\<rparr>) [1..total];
         remaining = 42 - int (length (cells1 @ cells2));
         cells3 = map (padding_cell year (month + 1)) [1..remaining]
     in cells1 @ cells2 @ cells3)"

definition goToPrevMonth :: "View \<Rightarrow> View" where
  "goToPrevMonth v = (if v_month v = 0 then \<lparr>v_year = v_year v - 1, v_month = 11\<rparr>
     else \<lparr>v_year = v_year v, v_month = v_month v - 1\<rparr>)"

definition goToNextMonth :: "View \<Rightarrow> View" where
  "goToNextMonth v = (if v_month v = 11 then \<lparr>v_year = v_year v + 1, v_month = 0\<rparr>
     else \<lparr>v_year = v_year v, v_month = v_month v + 1\<rparr>)"

definition goToToday :: "int \<Rightarrow> View" where
  "goToToday now_day = \<lparr>v_year = getFullYear now_day, v_month = getMonth now_day\<rparr>"

text \<open>The reference: forty-two days from the Sunday on or before the first of the month.\<close>

definition grid_start :: "View \<Rightarrow> int" where
  "grid_start v = (let f = civil_day (v_year v) (v_month v) 1 in f - getDay f)"

definition grid_cell :: "int \<Rightarrow> string option \<Rightarrow> string option \<Rightarrow> View \<Rightarrow> int \<Rightarrow> Cell" where
  "grid_cell now_day minDate maxDate v n =
    (let inside = (getFullYear n = v_year v \<and> getMonth n = v_month v); date = formatLocalDate n
     in \<lparr>cell_day = getDate n, cell_date = date, isCurrentMonth = inside,
         isToday = (inside \<and> date = formatLocalDate now_day),
         isDisabled = (\<not> inside \<or> before_min minDate date \<or> after_max maxDate date)\<rparr>)"

definition view_ok :: "View \<Rightarrow> bool" where
  "view_ok v = (0 \<le> v_month v \<and> v_month v < 12 \<and> 1001 \<le> v_year v \<and> v_year v \<le> 9998)"

lemma getDay_range: "0 \<le> getDay n \<and> getDay n < 7"
  by (simp add: getDay_def)

lemma make_day_view: "view_ok v \<Longrightarrow> make_day (v_year v) m d = civil_day (v_year v) m d"
  by (simp add: make_day_def full_year_def view_ok_def)

lemma civil_inside:
  assumes "0 \<le> m" "m < 12" "1 \<le> d" "d \<le> days_in y m"
  shows "getFullYear (civil_day y m d) = y \<and> getMonth (civil_day y m d) = m \<and> getDate (civil_day y m d) = d"
  using civil_day_parts [of y m d] assms by (simp add: civil_def)

lemma civil_day_shift: "civil_day y m d = civil_day y m 1 + (d - 1)"
  using civil_day_mono_day [of y m 1 "d - 1"] by simp

lemma getDaysInMonth_view:
  assumes "view_ok v"
  shows "getDaysInMonth (v_year v) (v_month v) = days_in (v_year v) (v_month v)"
proof -
  let ?y = "v_year v" and ?m = "v_month v"
  have m: "0 \<le> ?m" "?m < 12" using assms by (simp_all add: view_ok_def)
  have "civil_day ?y (?m + 1) 1 = civil_day ?y ?m (days_in ?y ?m) + 1"
    using next_month_first [OF m, of ?y] civil_day_next [OF m, of ?y 1] by simp
  then have "make_day ?y (?m + 1) 0 = civil_day ?y ?m (days_in ?y ?m)"
    using civil_day_mono_day [of ?y "?m + 1" 0 1] by (simp add: make_day_view [OF assms])
  then show ?thesis
    using civil_inside [OF m, of "days_in ?y ?m" ?y] days_in_bounds [OF m, of ?y] by (simp add: getDaysInMonth_def)
qed

lemma getDaysInMonth_prev:
  assumes "view_ok v"
  defines "p \<equiv> prev_month (v_year v) (v_month v)"
  shows "getDaysInMonth (v_year v) (v_month v - 1) = days_in (fst p) (snd p)"
    and "civil_day (v_year v) (v_month v - 1) (days_in (fst p) (snd p)) = civil_day (v_year v) (v_month v) 1 - 1"
proof -
  let ?y = "v_year v" and ?m = "v_month v"
  have m: "0 \<le> ?m" "?m < 12" using assms(1) by (simp_all add: view_ok_def)
  have p: "0 \<le> snd p" "snd p < 12" using prev_month_range [OF m, of ?y] by (simp_all add: p_def)
  have "civil_day (fst p) (snd p) (days_in (fst p) (snd p)) = civil_day ?y ?m 0"
    using prev_month_last [OF m, of ?y] by (simp add: p_def)
  moreover have "make_day ?y (?m - 1 + 1) 0 = civil_day ?y ?m 0" by (simp add: make_day_view [OF assms(1)])
  ultimately show "getDaysInMonth ?y (?m - 1) = days_in (fst p) (snd p)"
    and "civil_day ?y (?m - 1) (days_in (fst p) (snd p)) = civil_day ?y ?m 1 - 1"
    using civil_inside [OF p, of "days_in (fst p) (snd p)" "fst p"] days_in_bounds [OF p, of "fst p"]
      civil_day_prev [OF m, of ?y] civil_day_mono_day [of ?y ?m 0 1] by (simp_all add: getDaysInMonth_def p_def)
qed

lemma upto_shift: "map (\<lambda>d. c + d) [a..b] = [c + a..c + b]"
  by (rule nth_equalityI) auto

lemma upto_backwards: "0 \<le> f \<Longrightarrow> map (\<lambda>i. c - i) (rev [0..f - 1]) = [c - f + 1..c]"
  by (rule nth_equalityI) (auto simp: rev_nth)

lemma upto_three:
  fixes a b c d :: int
  assumes "a \<le> b" and "b \<le> c" and "c \<le> d"
  shows "[a..b - 1] @ [b..c - 1] @ [c..d - 1] = [a..d - 1]"
  using assms upto_split2 [of a "b - 1" "d - 1"] upto_split2 [of b "c - 1" "d - 1"]
  by (cases "a < b"; cases "b < c") simp_all

lemma cell_before:
  assumes v: "view_ok v" and i: "0 \<le> i" "i < 7"
  shows "padding_cell (v_year v) (v_month v - 1) (getDaysInMonth (v_year v) (v_month v - 1) - i) =
    grid_cell now lo hi v (civil_day (v_year v) (v_month v) 1 - 1 - i)"
proof -
  let ?y = "v_year v" and ?m = "v_month v" and ?p = "prev_month (v_year v) (v_month v)"
  let ?P = "days_in (fst ?p) (snd ?p)"
  have m: "0 \<le> ?m" "?m < 12" using v by (simp_all add: view_ok_def)
  have p: "0 \<le> snd ?p" "snd ?p < 12" "28 \<le> ?P" "?p \<noteq> (?y, ?m)"
    using prev_month_range [OF m, of ?y] days_in_bounds(1) [of "snd ?p" "fst ?p"] by (auto simp: prev_month_def)
  have "civil_day ?y (?m - 1) (?P - i) = civil_day ?y ?m 1 - 1 - i"
    using getDaysInMonth_prev(2) [OF v] civil_day_mono_day [of ?y "?m - 1" ?P "- i"] by simp
  moreover have "civil_day ?y (?m - 1) (?P - i) = civil_day (fst ?p) (snd ?p) (?P - i)"
    by (rule civil_day_prev [OF m])
  moreover note civil_inside [OF p(1,2), of "?P - i" "fst ?p"]
  ultimately show ?thesis
    using p i getDaysInMonth_prev(1) [OF v]
    by (auto simp: padding_cell_def grid_cell_def make_day_view [OF v] prod_eq_iff Let_def)
qed

lemma cell_after:
  assumes v: "view_ok v" and d: "1 \<le> d" "d \<le> 28"
  shows "padding_cell (v_year v) (v_month v + 1) d =
    grid_cell now lo hi v (civil_day (v_year v) (v_month v) 1 + days_in (v_year v) (v_month v) - 1 + d)"
proof -
  let ?y = "v_year v" and ?m = "v_month v" and ?p = "next_month (v_year v) (v_month v)"
  have m: "0 \<le> ?m" "?m < 12" using v by (simp_all add: view_ok_def)
  have p: "0 \<le> snd ?p" "snd ?p < 12" "28 \<le> days_in (fst ?p) (snd ?p)" "?p \<noteq> (?y, ?m)"
    using next_month_range [OF m, of ?y] days_in_bounds(1) [of "snd ?p" "fst ?p"] by (auto simp: next_month_def)
  have "civil_day ?y (?m + 1) d = civil_day ?y ?m 1 + days_in ?y ?m - 1 + d"
    using next_month_first [OF m, of ?y] civil_day_next [OF m, of ?y 1] civil_day_shift [of ?y "?m + 1" d]
      civil_day_shift [of ?y ?m "days_in ?y ?m"] by simp
  moreover have "civil_day ?y (?m + 1) d = civil_day (fst ?p) (snd ?p) d" by (rule civil_day_next [OF m])
  moreover note civil_inside [OF p(1,2), of d "fst ?p"]
  ultimately show ?thesis
    using p d by (auto simp: padding_cell_def grid_cell_def make_day_view [OF v] prod_eq_iff Let_def)
qed

lemma cell_inside:
  assumes v: "view_ok v" and d: "1 \<le> d" "d \<le> days_in (v_year v) (v_month v)"
  shows "(let date = formatLocalDate (make_day (v_year v) (v_month v) d)
      in \<lparr>cell_day = d, cell_date = date, isCurrentMonth = True, isToday = (date = formatLocalDate now),
          isDisabled = (before_min lo date \<or> after_max hi date)\<rparr>) =
    grid_cell now lo hi v (civil_day (v_year v) (v_month v) 1 - 1 + d)"
proof -
  have m: "0 \<le> v_month v" "v_month v < 12" using v by (simp_all add: view_ok_def)
  have "civil_day (v_year v) (v_month v) 1 - 1 + d = civil_day (v_year v) (v_month v) d"
    using civil_day_shift [of "v_year v" "v_month v" d] by simp
  then show ?thesis
    using civil_inside [OF m d] by (simp add: grid_cell_def make_day_view [OF v] Let_def)
qed

lemma week_start_sunday: "getDay (n - getDay n) = 0"
  unfolding getDay_def by presburger

lemma calendar_six_weeks:
  assumes "view_ok v"
  shows "calendar_days now lo hi v = map (grid_cell now lo hi v) [grid_start v..grid_start v + 41]"
proof -
  let ?y = "v_year v" and ?m = "v_month v"
  let ?F = "civil_day ?y ?m 1" and ?g = "grid_cell now lo hi v"
  let ?f = "getDay ?F" and ?T = "days_in ?y ?m"
  have m: "0 \<le> ?m" "?m < 12" using assms by (simp_all add: view_ok_def)
  have f: "0 \<le> ?f" "?f < 7" using getDay_range by simp_all
  have T: "28 \<le> ?T" "?T \<le> 31" using days_in_bounds [OF m, of ?y] .
  have first: "getFirstDayOfMonth ?y ?m = ?f" by (simp add: getFirstDayOfMonth_def make_day_view [OF assms])
  have c1: "map (\<lambda>i. padding_cell ?y (?m - 1) (getDaysInMonth ?y (?m - 1) - i)) (rev [0..?f - 1]) =
      map ?g [?F - ?f..?F - 1]"
    using f cell_before [OF assms] upto_backwards [of ?f "?F - 1", symmetric] by (simp del: upto_rec_numeral)
  have c2: "map (\<lambda>d. let date = formatLocalDate (make_day ?y ?m d)
      in \<lparr>cell_day = d, cell_date = date, isCurrentMonth = True, isToday = (date = formatLocalDate now),
          isDisabled = (before_min lo date \<or> after_max hi date)\<rparr>) [1..?T] = map ?g [?F..?F + ?T - 1]"
  proof -
    have "?F + ?T - 1 = ?F - 1 + ?T" "?F = ?F - 1 + 1" by simp_all
    then have "[?F..?F + ?T - 1] = map ((+) (?F - 1)) [1..?T]" using upto_shift [of "?F - 1" 1 ?T] by metis
    then show ?thesis using cell_inside [OF assms] by simp
  qed
  have c3: "map (padding_cell ?y (?m + 1)) [1..42 - ?f - ?T] = map ?g [?F + ?T..?F - ?f + 41]"
  proof -
    have "?F + ?T = ?F + ?T - 1 + 1" "?F - ?f + 41 = ?F + ?T - 1 + (42 - ?f - ?T)" by simp_all
    then have "[?F + ?T..?F - ?f + 41] = map ((+) (?F + ?T - 1)) [1..42 - ?f - ?T]"
      using upto_shift [of "?F + ?T - 1" 1 "42 - ?f - ?T"] by metis
    then show ?thesis using f T cell_after [OF assms] by simp
  qed
  have "calendar_days now lo hi v = map ?g ([?F - ?f..?F - 1] @ [?F..?F + ?T - 1] @ [?F + ?T..?F - ?f + 41])"
    using f T c3 [unfolded diff_diff_eq] unfolding calendar_days_def Let_def [of ?y] Let_def [of ?m] first getDaysInMonth_view [OF assms]
    by (simp add: Let_def c1 c2 [unfolded Let_def] del: upto_rec_numeral)
  moreover have "[?F - ?f..?F - 1] @ [?F..?F + ?T - 1] @ [?F + ?T..?F - ?f + 41] = [?F - ?f..?F - ?f + 41]"
  proof -
    have e: "?F - ?f + 41 = ?F - ?f + 42 - 1" by simp
    show ?thesis unfolding e using f T by (intro upto_three) simp_all
  qed
  ultimately show ?thesis by (simp only: grid_start_def Let_def)
qed

text \<open>
  The calendar shows six full weeks: the cells are the forty-two consecutive days from the Sunday on or
  before the first of the month, the cells of the month are exactly its days, and a cell can be clicked
  exactly when it is in the month and its text lies between the bounds.
\<close>
theorem calendar_is_six_weeks:
  assumes "view_ok v"
  shows "calendar_days now lo hi v = map (grid_cell now lo hi v) [grid_start v..grid_start v + 41] \<and>
    getDay (grid_start v) = 0"
  using calendar_six_weeks [OF assms] week_start_sunday by (simp add: grid_start_def Let_def)

theorem calendar_is_six_weeks_witness:
  "map cell_day (calendar_days 20000 None None \<lparr>v_year = 2024, v_month = 1\<rparr>) ! 32 = 29 \<and>
   getDay (grid_start \<lparr>v_year = 2024, v_month = 1\<rparr>) = 0"
proof -
  let ?v = "\<lparr>v_year = 2024, v_month = 1\<rparr>"
  have v: "view_ok ?v" by (simp add: view_ok_def)
  have "getDate (grid_start ?v + 32) = 29" by code_simp
  then have "map cell_day (map (grid_cell 20000 None None ?v) [grid_start ?v..grid_start ?v + 41]) ! 32 = 29"
    by (simp add: nth_upto grid_cell_def Let_def del: upto_rec_numeral)
  with calendar_is_six_weeks [OF v, of 20000 None None] show ?thesis by simp
qed

text \<open>Navigation keeps the month in range, and the two arrows are inverse to each other.\<close>

lemma navigation_inverse:
  assumes "0 \<le> v_month v" and "v_month v < 12"
  shows "goToPrevMonth (goToNextMonth v) = v" and "goToNextMonth (goToPrevMonth v) = v"
  using assms by (auto simp: goToPrevMonth_def goToNextMonth_def)

inductive view_step :: "View \<Rightarrow> View \<Rightarrow> bool" where
  "view_step v (goToPrevMonth v)"
| "view_step v (goToNextMonth v)"
| "view_step v (goToToday n)"

interpretation view_sys: transition_system "\<lambda>v. \<exists>n. v = goToToday n" view_step
  "\<lambda>v. 0 \<le> v_month v \<and> v_month v < 12"
proof
  show "0 \<le> v_month v \<and> v_month v < 12" if "\<exists>n. v = goToToday n" for v
    using that civil_of_day by (auto simp: goToToday_def civil_def)
  show "0 \<le> v_month w \<and> v_month w < 12" if "0 \<le> v_month v \<and> v_month v < 12" "view_step v w" for v w
    using that(2,1) civil_of_day
    by cases (auto simp: goToPrevMonth_def goToNextMonth_def goToToday_def civil_def)
qed

subsection \<open>Where a dropdown opens\<close>

record Rect =
  r_left :: rat
  r_right :: rat
  r_top :: rat
  r_bottom :: rat
  r_width :: rat
  r_height :: rat

definition GAP :: rat where "GAP = 8"
definition VIEWPORT_PAD :: rat where "VIEWPORT_PAD = 8"

definition computeDropdownPosition :: "rat \<Rightarrow> rat \<Rightarrow> Rect \<Rightarrow> Rect \<Rightarrow> rat \<times> rat" where
  "computeDropdownPosition vw vh anchorRect panelRect =
    (let left0 = r_left anchorRect;
         top0 = r_bottom anchorRect + GAP;
         top1 = (if vh - VIEWPORT_PAD < top0 + r_height panelRect
                 then r_top anchorRect - r_height panelRect - GAP else top0);
         left1 = (if vw - VIEWPORT_PAD < left0 + r_width panelRect
                  then r_right anchorRect - r_width panelRect else left0)
     in (max VIEWPORT_PAD (min (vw - r_width panelRect - VIEWPORT_PAD) left1),
         max VIEWPORT_PAD (min (vh - r_height panelRect - VIEWPORT_PAD) top1)))"

text \<open>
  A dropdown that fits the window lies inside it with its margin on every side; one that does not fit
  starts at the margin. When there is room below its anchor it opens right below, aligned left.
\<close>
theorem dropdown_stays_in_window:
  assumes "computeDropdownPosition vw vh anchor panel = (x, y)"
  shows "VIEWPORT_PAD \<le> x \<and> VIEWPORT_PAD \<le> y \<and>
    (if r_width panel + 2 * VIEWPORT_PAD \<le> vw then x + r_width panel \<le> vw - VIEWPORT_PAD else x = VIEWPORT_PAD) \<and>
    (if r_height panel + 2 * VIEWPORT_PAD \<le> vh then y + r_height panel \<le> vh - VIEWPORT_PAD else y = VIEWPORT_PAD) \<and>
    (VIEWPORT_PAD \<le> r_bottom anchor + GAP \<and> r_bottom anchor + GAP + r_height panel \<le> vh - VIEWPORT_PAD \<longrightarrow>
      y = r_bottom anchor + GAP)"
  using assms by (auto simp: computeDropdownPosition_def Let_def max_def min_def)

theorem dropdown_stays_in_window_witness:
  "\<exists>x y. computeDropdownPosition 400 300 \<lparr>r_left = 350, r_right = 390, r_top = 250, r_bottom = 280, r_width = 40,
      r_height = 30\<rparr> \<lparr>r_left = 0, r_right = 320, r_top = 0, r_bottom = 200, r_width = 320, r_height = 200\<rparr> = (x, y) \<and>
    x + 320 \<le> 392 \<and> y + 200 \<le> 292"
proof -
  let ?a = "\<lparr>r_left = 350, r_right = 390, r_top = 250, r_bottom = 280, r_width = 40, r_height = 30\<rparr> :: Rect"
  let ?p = "\<lparr>r_left = 0, r_right = 320, r_top = 0, r_bottom = 200, r_width = 320, r_height = 200\<rparr> :: Rect"
  obtain l t where pos: "computeDropdownPosition 400 300 ?a ?p = (l, t)" by (cases "computeDropdownPosition 400 300 ?a ?p")
  from dropdown_stays_in_window [OF pos] have "l + 320 \<le> 392 \<and> t + 200 \<le> 292" by (simp add: VIEWPORT_PAD_def)
  with pos show ?thesis by blast
qed

subsection \<open>The time picker\<close>

definition tp_clock_hour :: "int \<Rightarrow> int" where
  "tp_clock_hour hour = (if hour = 0 then 12 else if 12 < hour then hour - 12 else hour)"

definition tp_handleHourClick :: "int \<Rightarrow> int \<Rightarrow> int" where
  "tp_handleHourClick hour clockHour =
    (let isPM = (12 \<le> hour)
     in if clockHour = 12 then (if isPM then 12 else 0) else (if isPM then clockHour + 12 else clockHour))"

definition tp_handlePeriodChange :: "int \<Rightarrow> bool \<Rightarrow> int" where
  "tp_handlePeriodChange hour pm =
    (let h12 = (if hour = 0 then 12 else if 12 < hour then hour - 12 else hour)
     in if h12 = 12 then (if pm then 12 else 0) else (if pm then h12 + 12 else h12))"

text \<open>
  The twelve-hour face: after a click on an hour the face shows that hour in the same half of the day,
  after a change of the half it shows the same hour in the other, and the value stays an hour of the day.
\<close>
theorem clock_face_consistent:
  assumes "0 \<le> hour" and "hour < 24" and "1 \<le> h" and "h \<le> 12"
  shows "0 \<le> tp_handleHourClick hour h \<and> tp_handleHourClick hour h < 24 \<and>
    tp_clock_hour (tp_handleHourClick hour h) = h \<and> (12 \<le> tp_handleHourClick hour h \<longleftrightarrow> 12 \<le> hour) \<and>
    0 \<le> tp_handlePeriodChange hour pm \<and> tp_handlePeriodChange hour pm < 24 \<and>
    tp_clock_hour (tp_handlePeriodChange hour pm) = tp_clock_hour hour \<and> (12 \<le> tp_handlePeriodChange hour pm \<longleftrightarrow> pm)"
  using assms by (auto simp: tp_clock_hour_def tp_handleHourClick_def tp_handlePeriodChange_def Let_def)

theorem clock_face_consistent_witness: "tp_clock_hour (tp_handleHourClick 23 12) = 12 \<and> tp_handlePeriodChange 0 True = 12"
  using clock_face_consistent [of 23 12 False] by (simp add: tp_handlePeriodChange_def)

subsection \<open>The date range picker\<close>

record DateRange =
  range_from :: string
  range_to :: string

datatype Preset = Today | LastDays int | ThisMonth | LastMonth

definition PRESETS :: "Preset list" where
  "PRESETS = [Today, LastDays 7, LastDays 30, LastDays 90, ThisMonth, LastMonth]"

definition day_ms :: int where "day_ms = 86400000"

text \<open>
  \<open>off\<close> is the offset of the local zone in minutes east of UTC. \<open>utc_text\<close> is
  \<^verbatim>\<open>toISOString().split('T')[0]\<close> of an instant; \<open>local_midnight\<close> the instant of \<^verbatim>\<open>new Date(y, m, d)\<close>.
\<close>

definition local_day :: "int \<Rightarrow> int \<Rightarrow> int" where
  "local_day off t = (t + off * 60000) div day_ms"

definition local_midnight :: "int \<Rightarrow> int \<Rightarrow> int" where
  "local_midnight off n = n * day_ms - off * 60000"

definition utc_day :: "int \<Rightarrow> int" where
  "utc_day t = t div day_ms"

definition utc_text :: "int \<Rightarrow> string" where
  "utc_text t = formatLocalDate (utc_day t)"

definition first_of_month :: "int \<Rightarrow> int" where
  "first_of_month n = make_day (getFullYear n) (getMonth n) 1"

definition range_instants :: "int \<Rightarrow> int \<Rightarrow> Preset \<Rightarrow> int \<times> int" where
  "range_instants off now p =
    (let today = local_day off now
     in case p of
          Today \<Rightarrow> (now, now)
        | LastDays k \<Rightarrow> (now - (k - 1) * day_ms, now)
        | ThisMonth \<Rightarrow> (local_midnight off (first_of_month today), now)
        | LastMonth \<Rightarrow> (local_midnight off (make_day (getFullYear today) (getMonth today - 1) 1),
             local_midnight off (make_day (getFullYear today) (getMonth today) 0)))"

definition getRange :: "int \<Rightarrow> int \<Rightarrow> Preset \<Rightarrow> DateRange" where
  "getRange off now p = (let (a, b) = range_instants off now p in \<lparr>range_from = utc_text a, range_to = utc_text b\<rparr>)"

definition daysCount :: "DateRange \<Rightarrow> int" where
  "daysCount r =
    (case (parse_day (range_from r), parse_day (range_to r)) of
       (Some a, Some b) \<Rightarrow> b - a + 1 | _ \<Rightarrow> 0)"

text \<open>The bounds the two calendars get; \<open>today\<close> is the UTC date.\<close>

definition from_max :: "string \<Rightarrow> DateRange \<Rightarrow> string" where
  "from_max today r = (if range_to r \<noteq> [] \<and> js_lt (range_to r) today then range_to r else today)"

definition to_min :: "DateRange \<Rightarrow> string option" where
  "to_min r = (if range_from r = [] then None else Some (range_from r))"

lemma utc_day_shift: "utc_day (t + k * day_ms) = utc_day t + k"
  by (simp add: utc_day_def day_ms_def)

lemma utc_day_midnight:
  assumes "\<bar>off\<bar> \<le> 840"
  shows "utc_day (local_midnight off n) = (if 0 < off then n - 1 else n)"
proof (cases "0 < off")
  case True
  then have "local_midnight off n = (n - 1) * day_ms + (day_ms - off * 60000)" "0 \<le> day_ms - off * 60000"
    "day_ms - off * 60000 < day_ms" using assms by (simp_all add: local_midnight_def day_ms_def algebra_simps)
  with True show ?thesis unfolding utc_day_def by (intro int_div_pos_eq [THEN trans]) auto
next
  case False
  then have "local_midnight off n = n * day_ms + (- off * 60000)" "0 \<le> - off * 60000" "- off * 60000 < day_ms"
    using assms by (simp_all add: local_midnight_def day_ms_def)
  with False show ?thesis unfolding utc_day_def by (intro int_div_pos_eq [THEN trans]) auto
qed

text \<open>The presets of the last days cover as many days as they say.\<close>
theorem last_days_presets:
  assumes "four_digit (utc_day now - (k - 1))" and "four_digit (utc_day now)"
  shows "daysCount (getRange off now (LastDays k)) = k \<and> range_to (getRange off now (LastDays k)) = utc_text now"
proof -
  have "utc_day (now - (k - 1) * day_ms) = utc_day now - (k - 1)"
    using utc_day_shift [of now "- (k - 1)"] by (simp add: algebra_simps)
  then show ?thesis
    using assms by (simp add: getRange_def range_instants_def Let_def daysCount_def utc_text_def parse_formatLocalDate)
qed

text \<open>
  The presets of months start at local midnight but are written as UTC dates. East of Greenwich the
  current month begins with the last day of the month before, and the last month is shifted by a day at
  both ends; from Greenwich westwards both are right.
\<close>
theorem month_presets_shifted_east:
  fixes off now :: int
  assumes "\<bar>off\<bar> \<le> 840"
  defines "t \<equiv> local_day off now" and "shift \<equiv> if 0 < off then 1 else 0"
  shows "range_from (getRange off now ThisMonth) = formatLocalDate (first_of_month t - shift) \<and>
    range_from (getRange off now LastMonth) = formatLocalDate (make_day (getFullYear t) (getMonth t - 1) 1 - shift) \<and>
    range_to (getRange off now LastMonth) = formatLocalDate (first_of_month t - 1 - shift)"
proof -
  have "make_day (getFullYear t) (getMonth t) 0 = first_of_month t - 1"
    using civil_day_mono_day [of "full_year (getFullYear t)" "getMonth t" 1 "- 1"] by (simp add: first_of_month_def make_day_def)
  then show ?thesis
    using utc_day_midnight [OF assms(1)]
    by (simp add: getRange_def range_instants_def Let_def utc_text_def t_def [symmetric] shift_def)
qed

theorem month_presets_shifted_east_witness:
  "range_from (getRange 120 1773576000000 ThisMonth) = ''2026-02-28''"
proof -
  have "local_day 120 1773576000000 = 20527" by (simp add: local_day_def day_ms_def)
  moreover have "formatLocalDate (first_of_month 20527 - 1) = ''2026-02-28''" by code_simp
  ultimately show ?thesis using month_presets_shifted_east [of 120 1773576000000] by simp
qed

subsection \<open>The range stays a range\<close>

text \<open>What the user can do: wait, choose a preset, or click an enabled cell of either calendar in any month.\<close>

definition clock_ok :: "int \<Rightarrow> bool" where
  "clock_ok now = (1002 \<le> getFullYear (utc_day now) \<and> getFullYear (utc_day now) \<le> 9998)"

inductive range_step :: "int \<Rightarrow> int \<times> DateRange \<Rightarrow> int \<times> DateRange \<Rightarrow> bool" for off where
  "now \<le> later \<Longrightarrow> clock_ok later \<Longrightarrow> range_step off (now, r) (later, r)"
| "p \<in> set PRESETS \<Longrightarrow> range_step off (now, r) (now, getRange off now p)"
| "view_ok v \<Longrightarrow> c \<in> set (calendar_days (local_day off now) None (Some (from_max (utc_text now) r)) v) \<Longrightarrow>
    \<not> isDisabled c \<Longrightarrow> range_step off (now, r) (now, r\<lparr>range_from := cell_date c\<rparr>)"
| "view_ok v \<Longrightarrow> c \<in> set (calendar_days (local_day off now) (to_min r) (Some (utc_text now)) v) \<Longrightarrow>
    \<not> isDisabled c \<Longrightarrow> range_step off (now, r) (now, r\<lparr>range_to := cell_date c\<rparr>)"

definition range_inv :: "int \<times> DateRange \<Rightarrow> bool" where
  "range_inv = (\<lambda>(now, r). clock_ok now \<and> (\<exists>a b. range_from r = formatLocalDate a \<and> range_to r = formatLocalDate b \<and>
     four_digit a \<and> four_digit b \<and> a \<le> b \<and> b \<le> utc_day now))"

lemma getFullYear_near:
  assumes "t - 365 \<le> n"
  shows "getFullYear t - 1 \<le> getFullYear n"
proof (rule ccontr)
  assume "\<not> ?thesis"
  then have "day_from_year (getFullYear n + 1) \<le> day_from_year (getFullYear t - 1)"
    by (intro day_from_year_mono) simp
  moreover have "day_from_year (getFullYear t - 1) + 365 \<le> day_from_year (getFullYear t)"
    using day_from_year_Suc [of "getFullYear t - 1"] by (simp split: if_splits)
  ultimately show False using assms getFullYear_bounds [of t] getFullYear_bounds [of n] by linarith
qed

lemma four_digit_near: "clock_ok now \<Longrightarrow> n \<le> utc_day now \<Longrightarrow> utc_day now - 365 \<le> n \<Longrightarrow> four_digit n"
  using getFullYear_near [of "utc_day now" n] getFullYear_mono [of n "utc_day now"]
  by (simp add: clock_ok_def four_digit_def)

lemma local_day_near:
  assumes "\<bar>off\<bar> \<le> 840"
  shows "utc_day now - 1 \<le> local_day off now" and "local_day off now - (if 0 < off then 1 else 0) \<le> utc_day now"
proof -
  have m: "now - day_ms \<le> now + off * 60000" "now + off * 60000 \<le> now + day_ms"
    using assms by (simp_all add: day_ms_def)
  have "utc_day (now - day_ms) \<le> local_day off now" "local_day off now \<le> utc_day (now + day_ms)"
    unfolding utc_day_def local_day_def using m by (intro zdiv_mono1; simp add: day_ms_def)+
  moreover have "0 < off \<or> local_day off now \<le> utc_day now"
    unfolding utc_day_def local_day_def by (cases "0 < off") (auto intro!: zdiv_mono1 simp: day_ms_def)
  ultimately show "utc_day now - 1 \<le> local_day off now" "local_day off now - (if 0 < off then 1 else 0) \<le> utc_day now"
    using utc_day_shift [of now 1] utc_day_shift [of now "- 1"] by auto
qed

lemma first_of_month_near:
  assumes "100 \<le> getFullYear n"
  shows "n - 30 \<le> first_of_month n" and "first_of_month n \<le> n"
    and "n - 61 \<le> make_day (getFullYear n) (getMonth n - 1) 1"
    and "make_day (getFullYear n) (getMonth n - 1) 1 < first_of_month n"
proof -
  let ?y = "getFullYear n" and ?m = "getMonth n"
  have y: "full_year ?y = ?y" using assms by (simp add: full_year_def)
  have c: "0 \<le> ?m" "?m < 12" "1 \<le> getDate n" "getDate n \<le> days_in ?y ?m" using civil_of_day [of n] by (simp_all add: civil_def)
  have n: "n = civil_day ?y ?m 1 + (getDate n - 1)" using civil_day_of_parts [of n] civil_day_shift [of ?y ?m "getDate n"] by simp
  have p: "civil_day ?y (?m - 1) 1 = civil_day ?y ?m 1 - days_in (fst (prev_month ?y ?m)) (snd (prev_month ?y ?m))"
    using prev_month_last [OF c(1,2), of ?y] civil_day_prev [OF c(1,2), of ?y 1] civil_day_mono_day [of ?y ?m 0 1]
      civil_day_shift [of "fst (prev_month ?y ?m)" "snd (prev_month ?y ?m)"
        "days_in (fst (prev_month ?y ?m)) (snd (prev_month ?y ?m))"] by simp
  have d: "28 \<le> days_in (fst (prev_month ?y ?m)) (snd (prev_month ?y ?m))"
    "days_in (fst (prev_month ?y ?m)) (snd (prev_month ?y ?m)) \<le> 31" "days_in ?y ?m \<le> 31"
    using days_in_bounds prev_month_range [OF c(1,2), of ?y] c by simp_all
  show "n - 30 \<le> first_of_month n" "first_of_month n \<le> n" "n - 61 \<le> make_day ?y (?m - 1) 1"
    "make_day ?y (?m - 1) 1 < first_of_month n"
    using n p d c by (simp_all add: first_of_month_def make_day_def y)
qed

lemma preset_range_inv:
  assumes "\<bar>off\<bar> \<le> 840" and "clock_ok now" and "p \<in> set PRESETS"
  shows "range_inv (now, getRange off now p)"
proof -
  let ?t = "local_day off now" and ?u = "utc_day now" and ?s = "if 0 < off then 1 else 0 :: int"
  note near = local_day_near [OF assms(1), of now]
  have y: "100 \<le> getFullYear ?t"
    using getFullYear_near [of ?u ?t] near(1) assms(2) by (simp add: clock_ok_def)
  note f = first_of_month_near [OF y]
  define a b where "a = utc_day (fst (range_instants off now p))" and "b = utc_day (snd (range_instants off now p))"
  have e: "make_day (getFullYear ?t) (getMonth ?t) 0 = first_of_month ?t - 1"
    using civil_day_mono_day [of "full_year (getFullYear ?t)" "getMonth ?t" 1 "- 1"] by (simp add: first_of_month_def make_day_def)
  have l: "utc_day (now - (k - 1) * day_ms) = ?u - (k - 1)" for k
    using utc_day_shift [of now "- (k - 1)"] by (simp add: algebra_simps)
  have "a \<le> b" "b \<le> ?u" "?u - 365 \<le> a"
    using assms(3) f near utc_day_midnight [OF assms(1)] l [of 7] l [of 30] l [of 90]
    by (auto simp: PRESETS_def a_def b_def range_instants_def Let_def e)
  moreover have "getRange off now p = \<lparr>range_from = formatLocalDate a, range_to = formatLocalDate b\<rparr>"
    by (simp add: getRange_def utc_text_def a_def b_def split: prod.splits)
  ultimately show ?thesis
    using assms(2) four_digit_near [OF assms(2), of a] four_digit_near [OF assms(2), of b]
    by (auto simp: range_inv_def)
qed

lemma enabled_cell:
  assumes "view_ok v" and "c \<in> set (calendar_days now lo hi v)" and "\<not> isDisabled c"
  obtains n where "cell_date c = formatLocalDate n" "four_digit n" "\<not> before_min lo (formatLocalDate n)"
    "\<not> after_max hi (formatLocalDate n)"
proof -
  from assms(2) obtain n where "c = grid_cell now lo hi v n"
    by (auto simp: calendar_six_weeks [OF assms(1)])
  with assms that show thesis by (auto simp: grid_cell_def Let_def four_digit_def view_ok_def)
qed

lemma date_not_empty: "formatLocalDate n \<noteq> []"
  by (simp add: formatLocalDate_def)

lemma range_step_inv:
  assumes "\<bar>off\<bar> \<le> 840" and "range_step off s t" and "range_inv s"
  shows "range_inv t"
  using assms(2,3)
proof cases
  case (1 now later r)
  have "utc_day now \<le> utc_day later" unfolding utc_day_def using 1(3) by (intro zdiv_mono1) (simp_all add: day_ms_def)
  with 1 assms(3) show ?thesis by (fastforce simp: range_inv_def)
next
  case (2 p now r)
  then show ?thesis using preset_range_inv [OF assms(1)] assms(3) by (auto simp: range_inv_def)
next
  case (3 v c now r)
  obtain a b where r: "range_from r = formatLocalDate a" "range_to r = formatLocalDate b" "four_digit a" "four_digit b"
    "a \<le> b" "b \<le> utc_day now" and ck: "clock_ok now" using assms(3) 3(1) by (auto simp: range_inv_def)
  obtain n where n: "cell_date c = formatLocalDate n" "four_digit n"
    "\<not> after_max (Some (from_max (utc_text now) r)) (formatLocalDate n)"
    using enabled_cell [OF 3(3,4,5)] by metis
  have u: "four_digit (utc_day now)" using four_digit_near [OF ck, of "utc_day now"] by simp
  have "n \<le> b"
    using n(3) r date_text.text_order [OF r(4) n(2)] date_text.text_order [OF r(4) u] date_text.text_order [OF u n(2)]
    by (auto simp: after_max_def from_max_def utc_text_def date_not_empty split: if_splits)
  then show ?thesis using 3(2) n r ck by (auto simp: range_inv_def)
next
  case (4 v c now r)
  obtain a b where r: "range_from r = formatLocalDate a" "range_to r = formatLocalDate b" "four_digit a" "four_digit b"
    "a \<le> b" "b \<le> utc_day now" and ck: "clock_ok now" using assms(3) 4(1) by (auto simp: range_inv_def)
  obtain n where n: "cell_date c = formatLocalDate n" "four_digit n" "\<not> before_min (to_min r) (formatLocalDate n)"
    "\<not> after_max (Some (utc_text now)) (formatLocalDate n)"
    using enabled_cell [OF 4(3,4,5)] by metis
  have u: "four_digit (utc_day now)" using four_digit_near [OF ck, of "utc_day now"] by simp
  have "a \<le> n" "n \<le> utc_day now"
    using n(3,4) r date_text.text_order [OF n(2) r(3)] date_text.text_order [OF u n(2)]
    by (auto simp: before_min_def after_max_def to_min_def utc_text_def date_not_empty)
  then show ?thesis using 4(2) n r ck by (auto simp: range_inv_def)
qed

interpretation range_sys: transition_system
  "\<lambda>s. clock_ok (fst s) \<and> \<bar>off\<bar> \<le> 840 \<and> (\<exists>p \<in> set PRESETS. snd s = getRange off (fst s) p)"
  "range_step off" "\<lambda>s. \<bar>off\<bar> \<le> 840 \<and> range_inv s" for off
proof unfold_locales
  fix s
  assume "clock_ok (fst s) \<and> \<bar>off\<bar> \<le> 840 \<and> (\<exists>p \<in> set PRESETS. snd s = getRange off (fst s) p)"
  then show "\<bar>off\<bar> \<le> 840 \<and> range_inv s" using preset_range_inv [of off "fst s"] by (cases s) auto
next
  fix s t
  assume "\<bar>off\<bar> \<le> 840 \<and> range_inv s" "range_step off s t"
  then show "\<bar>off\<bar> \<le> 840 \<and> range_inv t" using range_step_inv by blast
qed

lemma range_inv_days:
  assumes "range_inv (now, r)"
  shows "1 \<le> daysCount r \<and> \<not> js_lt (utc_text now) (range_to r)"
proof -
  obtain a b where r: "range_from r = formatLocalDate a" "range_to r = formatLocalDate b" "four_digit a" "four_digit b"
    "a \<le> b" "b \<le> utc_day now" and ck: "clock_ok now" using assms by (auto simp: range_inv_def)
  have "four_digit (utc_day now)" using four_digit_near [OF ck, of "utc_day now"] by simp
  then show ?thesis
    using r date_text.text_order [of "utc_day now" b] by (simp add: daysCount_def parse_formatLocalDate utc_text_def)
qed

text \<open>
  C13. Whatever presets the user chooses and whatever enabled cells of the two calendars they click, in any
  month and while the clock goes on, the range has at least one day and does not end after the current
  UTC date.
\<close>
theorem range_stays_ordered:
  assumes "(range_step off)\<^sup>*\<^sup>* (now, getRange off now p) (later, r)"
    and "p \<in> set PRESETS" and "clock_ok now" and "\<bar>off\<bar> \<le> 840"
  shows "1 \<le> daysCount r \<and> \<not> js_lt (utc_text later) (range_to r)"
proof -
  have "\<bar>off\<bar> \<le> 840 \<and> range_inv (later, r)"
    using range_sys.reachable_inv [OF _ assms(1)] assms(2-4) by auto
  then show ?thesis using range_inv_days by blast
qed

theorem range_stays_ordered_witness: "1 \<le> daysCount (getRange 120 1773576000000 LastMonth)"
proof -
  have "clock_ok 1773576000000"
    by code_simp
  moreover have "range_step 120 (1773576000000, getRange 120 1773576000000 Today)
      (1773576000000, getRange 120 1773576000000 LastMonth)"
    by (rule range_step.intros(2)) (simp add: PRESETS_def)
  then have "(range_step 120)\<^sup>*\<^sup>* (1773576000000, getRange 120 1773576000000 Today)
      (1773576000000, getRange 120 1773576000000 LastMonth)" by blast
  ultimately show ?thesis
    using range_stays_ordered [of 120 1773576000000 Today 1773576000000] by (simp add: PRESETS_def)
qed

theorem last_days_presets_witness: "daysCount (getRange 120 1773576000000 (LastDays 90)) = 90"
proof -
  have "four_digit (utc_day 1773576000000 - 89)" "four_digit (utc_day 1773576000000)" by code_simp+
  then show ?thesis using last_days_presets [of 1773576000000 90 120] by simp
qed

end
