(* ===== verification/Heatmap.thy ===== *)
theory Heatmap
  imports Complex_Main Dates
begin

text \<open>
  The calendar heatmap of the analytics page (\<^verbatim>\<open>frontend/src/components/charts/calendar-heatmap.tsx\<close>): the
  loop that lays the days of a range out in weeks from Monday to Sunday, the levels of the cells, the
  summary, and the labels of the months. Values and screen lengths are rationals. The array of the
  current week is a list with possible holes, as the source writes it by index.
\<close>

record HeatDatum =
  hd_date :: string
  hd_value :: rat

record DayCell =
  dc_date :: string
  dc_value :: rat
  inRange :: bool

definition MONTH_NAMES :: "string list" where
  "MONTH_NAMES = [''Jan'', ''Feb'', ''Mar'', ''Apr'', ''May'', ''Jun'', ''Jul'', ''Aug'', ''Sep'', ''Oct'', ''Nov'', ''Dec'']"

definition normalizeDate :: "string \<Rightarrow> string" where
  "normalizeDate dateStr = (if 10 < length dateStr then take 10 dateStr else dateStr)"

definition getLevel :: "rat \<Rightarrow> rat \<Rightarrow> nat" where
  "getLevel value maxValue =
    (if value \<le> 0 \<or> maxValue \<le> 0 then 0
     else let ratio = value / maxValue
          in if ratio \<le> 1 / 4 then 1 else if ratio \<le> 1 / 2 then 2 else if ratio \<le> 3 / 4 then 3 else 4)"

definition METRIC_LABELS :: "string \<rightharpoonup> string \<times> string" where
  "METRIC_LABELS = map_of [(''signups'', (''signup'', ''signups'')), (''credits'', (''credit'', ''credits'')),
     (''servers'', (''server'', ''servers'')), (''logins'', (''login'', ''logins''))]"

definition formatMetric :: "rat \<Rightarrow> string \<Rightarrow> string" where
  "formatMetric value metric =
    (case METRIC_LABELS metric of
       Some (singular, plural) \<Rightarrow> if value = 1 then singular else plural
     | None \<Rightarrow> if value = 1 then ''activity'' else ''activities'')"

subsection \<open>The loop over the days\<close>

definition in_text_range :: "string \<Rightarrow> string \<Rightarrow> string \<Rightarrow> bool" where
  "in_text_range from_text to_text s = (\<not> js_lt s from_text \<and> \<not> js_lt to_text s)"

definition value_map :: "HeatDatum list \<Rightarrow> string \<rightharpoonup> rat" where
  "value_map data = map_of (rev (map (\<lambda>d. (normalizeDate (hd_date d), hd_value d)) data))"

definition js_index_set :: "nat \<Rightarrow> 'a \<Rightarrow> 'a option list \<Rightarrow> 'a option list" where
  "js_index_set i x xs =
    (if i < length xs then xs[i := Some x] else xs @ replicate (i - length xs) None @ [Some x])"

record HeatLoop =
  h_iter :: int
  currentWeek :: "DayCell option list"
  weekIdx :: nat
  lastMonth :: int
  weeksArr :: "DayCell option list list"
  h_months :: "(string \<times> nat) list"

definition heat_cell :: "string \<Rightarrow> string \<Rightarrow> (string \<rightharpoonup> rat) \<Rightarrow> int \<Rightarrow> DayCell" where
  "heat_cell from_text to_text vm n =
    (let iso = formatLocalDate n; ok = in_text_range from_text to_text iso
     in \<lparr>dc_date = iso, dc_value = (if ok then case vm iso of Some v \<Rightarrow> v | None \<Rightarrow> 0 else 0), inRange = ok\<rparr>)"

definition week_row :: "int \<Rightarrow> nat" where
  "week_row n = (if getDay n = 0 then 6 else nat (getDay n - 1))"

definition heat_month :: "HeatLoop \<Rightarrow> HeatLoop" where
  "heat_month s =
    (let m = getMonth (h_iter s)
     in if m \<noteq> lastMonth s
        then s\<lparr>h_months := h_months s @ [(MONTH_NAMES ! nat m, weekIdx s)], lastMonth := m\<rparr> else s)"

definition heat_step :: "string \<Rightarrow> string \<Rightarrow> (string \<rightharpoonup> rat) \<Rightarrow> HeatLoop \<Rightarrow> HeatLoop" where
  "heat_step from_text to_text vm s =
    (let row = week_row (h_iter s);
         s1 = (if row = 0 then heat_month s else s);
         s2 = s1\<lparr>currentWeek := js_index_set row (heat_cell from_text to_text vm (h_iter s)) (currentWeek s1)\<rparr>;
         s3 = (if row = 6
               then s2\<lparr>weeksArr := weeksArr s2 @ [currentWeek s2], currentWeek := [], weekIdx := Suc (weekIdx s2)\<rparr>
               else s2)
     in s3\<lparr>h_iter := h_iter s3 + 1\<rparr>)"

lemma h_iter_heat_step [simp]: "h_iter (heat_step from_text to_text vm s) = h_iter s + 1"
  by (simp add: heat_step_def heat_month_def Let_def)

function heat_loop :: "string \<Rightarrow> string \<Rightarrow> (string \<rightharpoonup> rat) \<Rightarrow> int \<Rightarrow> HeatLoop \<Rightarrow> HeatLoop" where
  "heat_loop from_text to_text vm toDate s =
    (if h_iter s \<le> toDate then heat_loop from_text to_text vm toDate (heat_step from_text to_text vm s) else s)"
  by pat_completeness auto
termination
  by (relation "measure (\<lambda>(from_text, to_text, vm, toDate, s). nat (toDate + 1 - h_iter s))") auto

declare heat_loop.simps [simp del]

definition daysBack :: "int \<Rightarrow> int" where
  "daysBack n = (if getDay n = 0 then 6 else getDay n - 1)"

definition daysForward :: "int \<Rightarrow> int" where
  "daysForward n = (if getDay n = 0 then 0 else 7 - getDay n)"

definition heat_start :: "int \<Rightarrow> HeatLoop" where
  "heat_start fromDate = \<lparr>h_iter = fromDate, currentWeek = [], weekIdx = 0, lastMonth = -1, weeksArr = [], h_months = []\<rparr>"

definition last_week :: "DayCell option list \<Rightarrow> DayCell option list" where
  "last_week w = w @ replicate (7 - length w) (Some \<lparr>dc_date = [], dc_value = 0, inRange = False\<rparr>)"

text \<open>The days \<open>a\<close> and \<open>b\<close> are those of the two texts.\<close>

definition heat_weeks :: "HeatDatum list \<Rightarrow> string \<Rightarrow> string \<Rightarrow> int \<Rightarrow> int \<Rightarrow> DayCell option list list \<times> (string \<times> nat) list" where
  "heat_weeks data from_text to_text a b =
    (let s = heat_loop from_text to_text (value_map data) (b + daysForward b) (heat_start (a - daysBack a))
     in (if currentWeek s \<noteq> [] then weeksArr s @ [last_week (currentWeek s)] else weeksArr s, h_months s))"

record HeatStats =
  hs_total :: rat
  hs_busiest :: rat
  hs_quietest :: rat

definition inRangeValues :: "HeatDatum list \<Rightarrow> string \<Rightarrow> string \<Rightarrow> rat list" where
  "inRangeValues data from_text to_text =
    map hd_value (filter (\<lambda>d. in_text_range from_text to_text (normalizeDate (hd_date d))) data)"

definition heat_max :: "rat list \<Rightarrow> rat" where
  "heat_max vs = fold max (if vs = [] then [0] else vs) 1"

text \<open>\<^term>\<open>None\<close> is the initial infinity of the minimum.\<close>

fun heat_fold :: "rat \<times> rat \<times> rat option \<Rightarrow> rat list \<Rightarrow> rat \<times> rat \<times> rat option" where
  "heat_fold acc [] = acc"
| "heat_fold (tot, busiest, quietest) (v # vs) =
    heat_fold (tot + v, if busiest < v then v else busiest,
      case quietest of None \<Rightarrow> Some v | Some q \<Rightarrow> if v < q then Some v else Some q) vs"

definition heat_stats :: "rat list \<Rightarrow> HeatStats" where
  "heat_stats vs =
    (let (tot, busiest, quietest) = heat_fold (0, 0, None) vs
     in \<lparr>hs_total = tot, hs_busiest = busiest, hs_quietest = (case quietest of None \<Rightarrow> 0 | Some q \<Rightarrow> q)\<rparr>)"

subsection \<open>The layout on the screen\<close>

definition cellSize :: "rat \<Rightarrow> nat \<Rightarrow> int" where
  "cellSize containerWidth weeks =
    (if containerWidth = 0 \<or> weeks = 0 then 12
     else let available = containerWidth - 40 - 16;
              fit = \<lfloor>(available - (of_nat weeks - 1) * 2) / of_nat weeks\<rfloor>
          in max 8 fit)"

definition cellHeight :: "int \<Rightarrow> int" where
  "cellHeight cell = min cell 20"

fun visible_labels :: "int \<Rightarrow> (string \<times> int) list \<Rightarrow> (string \<times> nat) list \<Rightarrow> (string \<times> int) list" where
  "visible_labels weekWidth kept [] = kept"
| "visible_labels weekWidth kept ((label, wi) # ms) =
    (let left = int wi * weekWidth
     in if kept = [] \<or> 28 \<le> left - snd (last kept)
        then visible_labels weekWidth (kept @ [(label, left)]) ms
        else visible_labels weekWidth kept ms)"

definition visibleMonthLabels :: "int \<Rightarrow> (string \<times> nat) list \<Rightarrow> (string \<times> int) list" where
  "visibleMonthLabels weekWidth ms = visible_labels weekWidth [] ms"

record HeatTooltip =
  ht_date :: string
  ht_value :: rat
  ht_level :: nat
  ht_x :: rat
  ht_y :: rat

text \<open>The pointer enters a cell whose left edge, width and top are given.\<close>

definition handleEnter :: "rat \<Rightarrow> DayCell \<Rightarrow> rat \<times> rat \<times> rat \<Rightarrow> HeatTooltip option \<Rightarrow> HeatTooltip option" where
  "handleEnter maxValue d rect tip =
    (let (left, width, top) = rect
     in if \<not> inRange d \<or> dc_date d = [] then tip
        else Some \<lparr>ht_date = dc_date d, ht_value = dc_value d, ht_level = getLevel (dc_value d) maxValue,
               ht_x = left + width / 2, ht_y = top - 4\<rparr>)"

subsection \<open>Whole weeks\<close>

lemma heat_loop_rounds:
  "heat_loop from_text to_text vm b s = (heat_step from_text to_text vm ^^ nat (b + 1 - h_iter s)) s"
proof (induction "nat (b + 1 - h_iter s)" arbitrary: s)
  case 0
  then show ?case by (simp add: heat_loop.simps [of _ _ _ _ s])
next
  case (Suc k)
  from Suc.hyps(2) have le: "h_iter s \<le> b" and e: "nat (b + 1 - h_iter s) = Suc k" by linarith+
  have k: "nat (b + 1 - h_iter (heat_step from_text to_text vm s)) = k" using e by simp
  have "heat_loop from_text to_text vm b (heat_step from_text to_text vm s) =
      (heat_step from_text to_text vm ^^ k) (heat_step from_text to_text vm s)"
    using Suc.hyps(1) [OF k [symmetric]] unfolding k .
  with le e show ?case by (simp add: heat_loop.simps [of _ _ _ _ s] funpow_swap1)
qed

lemma getDay_add: "getDay (n + k) = (getDay n + k) mod 7"
  by (simp add: getDay_def algebra_simps mod_simps)

lemma weekday_range: "0 \<le> getDay n \<and> getDay n < 7"
  by (simp add: getDay_def)

lemma first_day_monday: "getDay (a - daysBack a) = 1"
proof -
  have "getDay a = 0 \<or> getDay a = 1 \<or> getDay a = 2 \<or> getDay a = 3 \<or> getDay a = 4 \<or> getDay a = 5 \<or> getDay a = 6"
    using weekday_range [of a] by linarith
  then show ?thesis using getDay_add [of a "- daysBack a"] by (auto simp: daysBack_def)
qed

lemma last_day_sunday: "getDay (b + daysForward b) = 0"
proof -
  have "getDay b = 0 \<or> getDay b = 1 \<or> getDay b = 2 \<or> getDay b = 3 \<or> getDay b = 4 \<or> getDay b = 5 \<or> getDay b = 6"
    using weekday_range [of b] by linarith
  then show ?thesis using getDay_add [of b "daysForward b"] by (auto simp: daysForward_def)
qed

definition week_done :: "string \<Rightarrow> string \<Rightarrow> (string \<rightharpoonup> rat) \<Rightarrow> HeatLoop \<Rightarrow> HeatLoop" where
  "week_done from_text to_text vm s =
    (let s1 = heat_month s
     in s1\<lparr>h_iter := h_iter s + 7, weekIdx := Suc (weekIdx s), currentWeek := [],
          weeksArr := weeksArr s @ [map (\<lambda>k. Some (heat_cell from_text to_text vm (h_iter s + k))) [0..6]]\<rparr>)"

lemma heat_month_simps [simp]:
  "h_iter (heat_month s) = h_iter s" "currentWeek (heat_month s) = currentWeek s"
  "weekIdx (heat_month s) = weekIdx s" "weeksArr (heat_month s) = weeksArr s"
  by (simp_all add: heat_month_def Let_def)

lemma one_week:
  assumes "getDay (h_iter s) = 1" and "currentWeek s = []"
  shows "(heat_step from_text to_text vm ^^ 7) s = week_done from_text to_text vm s"
proof -
  have row: "week_row (h_iter s + k) = nat k" if "0 \<le> k" "k < 7" for k
    using getDay_add [of "h_iter s" k] assms(1) that by (cases "k = 6") (simp_all add: week_row_def)
  have w: "week_row (h_iter s) = 0" using row [of 0] by simp
  have seven: "(7::nat) = Suc (Suc (Suc (Suc (Suc (Suc (Suc 0))))))" by simp
  show ?thesis
    unfolding seven funpow.simps o_def id_def
    by (simp add: heat_step_def Let_def w row assms(2) js_index_set_def week_done_def add.assoc upto.simps)
qed

lemma weeks_done:
  assumes "getDay (h_iter s) = 1" and "currentWeek s = []"
  shows "let t = (heat_step from_text to_text vm ^^ (7 * k)) s
    in h_iter t = h_iter s + 7 * int k \<and> currentWeek t = [] \<and> weekIdx t = weekIdx s + k \<and>
       weeksArr t = weeksArr s @
         map (\<lambda>w. map (\<lambda>r. Some (heat_cell from_text to_text vm (h_iter s + 7 * int w + r))) [0..6]) [0..<k]"
proof (induction k)
  case (Suc k)
  let ?t = "(heat_step from_text to_text vm ^^ (7 * k)) s"
  from Suc have t: "h_iter ?t = h_iter s + 7 * int k" "currentWeek ?t = []" "weekIdx ?t = weekIdx s + k"
    "weeksArr ?t = weeksArr s @
       map (\<lambda>w. map (\<lambda>r. Some (heat_cell from_text to_text vm (h_iter s + 7 * int w + r))) [0..6]) [0..<k]"
    by (simp_all add: Let_def)
  have "getDay (h_iter ?t) = 1" using getDay_add [of "h_iter s" "7 * int k"] assms(1) t(1) by (simp add: mod_simps)
  then have "(heat_step from_text to_text vm ^^ (7 * Suc k)) s = week_done from_text to_text vm ?t"
    using one_week [OF _ t(2)] funpow_add [of 7 "7 * k" "heat_step from_text to_text vm"] by (simp add: add.commute)
  then show ?case using t by (simp add: week_done_def Let_def algebra_simps)
qed (simp add: assms(2))

text \<open>The grid runs from the Monday on or before the first day to the Sunday on or after the last one.\<close>

definition week_count :: "int \<Rightarrow> int \<Rightarrow> nat" where
  "week_count a b = nat ((b + daysForward b + 1 - (a - daysBack a)) div 7)"

lemma grid_days:
  "nat (b + daysForward b + 1 - (a - daysBack a)) = 7 * week_count a b"
proof -
  have "getDay (b + daysForward b + 1) = 1" using getDay_add [of "b + daysForward b" 1] last_day_sunday by simp
  then have "(b + daysForward b + 1 - (a - daysBack a)) mod 7 = 0"
    using first_day_monday [of a] by (simp add: getDay_def) presburger
  then have "7 dvd (b + daysForward b + 1 - (a - daysBack a))" by presburger
  then show ?thesis by (auto simp: week_count_def nat_mult_distrib elim!: dvdE)
qed

lemma heatmap_grid:
  "(let s = heat_start (a - daysBack a); t = heat_loop from_text to_text vm (b + daysForward b) s
    in t = (heat_step from_text to_text vm ^^ (7 * week_count a b)) s \<and> currentWeek t = [] \<and>
       weeksArr t = map (\<lambda>w. map (\<lambda>r. Some (heat_cell from_text to_text vm (a - daysBack a + 7 * int w + r))) [0..6])
         [0..<week_count a b])"
  using heat_loop_rounds [of from_text to_text vm "b + daysForward b" "heat_start (a - daysBack a)"] grid_days [of b a]
    weeks_done [of "heat_start (a - daysBack a)" "week_count a b" from_text to_text vm] first_day_monday [of a]
  by (simp add: Let_def heat_start_def)

text \<open>
  C14. The loop ends after seven rounds a week, with whole weeks from Monday to Sunday of consecutive days and
  nothing left over, so the padding of a last week is never needed.
\<close>
theorem heatmap_whole_weeks:
  "(let s = heat_start (a - daysBack a); t = heat_loop from_text to_text vm (b + daysForward b) s
    in t = (heat_step from_text to_text vm ^^ (7 * week_count a b)) s \<and> currentWeek t = [] \<and>
       weeksArr t = map (\<lambda>w. map (\<lambda>r. Some (heat_cell from_text to_text vm (a - daysBack a + 7 * int w + r))) [0..6])
         [0..<week_count a b] \<and> getDay (a - daysBack a) = 1)"
  using heatmap_grid [of a from_text to_text vm b] first_day_monday [of a] unfolding Let_def by blast

lemma seven_days: "map (\<lambda>r. f (c + r)) [0..6] = map f [c..c + 6]" for c :: int
  by (simp add: upto.simps add.assoc)

lemma concat_weeks:
  "concat (map (\<lambda>w. map (\<lambda>r. f (c + 7 * int w + r)) [0..6]) [0..<k]) = map f [c..c + 7 * int k - 1]"
proof (induction k)
  case (Suc k)
  have "[c..c + 7 * int (Suc k) - 1] = [c..c + 7 * int k - 1] @ [c + 7 * int k..c + 7 * int k + 6]"
    using upto_split1 [of c "c + 7 * int k" "c + 7 * int k + 6"] by (simp add: algebra_simps)
  then show ?case using Suc seven_days [of f "c + 7 * int k"] by simp
qed simp

lemma four_digit_between: "four_digit a \<Longrightarrow> four_digit b \<Longrightarrow> a \<le> n \<Longrightarrow> n \<le> b \<Longrightarrow> four_digit n"
  using getFullYear_mono [of a n] getFullYear_mono [of n b] by (simp add: four_digit_def)

lemma heat_weeks_days:
  "concat (fst (heat_weeks data from_text to_text a b)) =
    map (\<lambda>n. Some (heat_cell from_text to_text (value_map data) n)) [a - daysBack a..b + daysForward b]"
proof -
  have "int (7 * week_count a b) = max 0 (b + daysForward b + 1 - (a - daysBack a))" using grid_days [of b a] by linarith
  then have "[a - daysBack a..a - daysBack a + 7 * int (week_count a b) - 1] = [a - daysBack a..b + daysForward b]"
    by (cases "a - daysBack a \<le> b + daysForward b + 1") simp_all
  moreover define t where "t = heat_loop from_text to_text (value_map data) (b + daysForward b) (heat_start (a - daysBack a))"
  moreover have "currentWeek t = []" "weeksArr t =
      map (\<lambda>w. map (\<lambda>r. Some (heat_cell from_text to_text (value_map data) (a - daysBack a + 7 * int w + r))) [0..6])
        [0..<week_count a b]"
    using heatmap_grid [of a from_text to_text "value_map data" b] unfolding Let_def t_def by blast+
  ultimately show ?thesis
    using concat_weeks [of "\<lambda>n. Some (heat_cell from_text to_text (value_map data) n)" "a - daysBack a" "week_count a b"]
    by (simp add: heat_weeks_def Let_def)
qed

text \<open>
  Every day from the first to the last one is shown once, in order, with the value the data give last
  for it or zero; the days that fill up the first and the last week are outside the range and carry zero.
\<close>
theorem heatmap_shows_values:
  assumes "four_digit (a - 6)" and "four_digit (b + 6)" and "a \<le> b"
  shows "concat (fst (heat_weeks data (formatLocalDate a) (formatLocalDate b) a b)) =
    map (\<lambda>n. Some \<lparr>dc_date = formatLocalDate n,
        dc_value = (if a \<le> n \<and> n \<le> b then case value_map data (formatLocalDate n) of Some v \<Rightarrow> v | None \<Rightarrow> 0 else 0),
        inRange = (a \<le> n \<and> n \<le> b)\<rparr>) [a - daysBack a..b + daysForward b]"
proof -
  have "heat_cell (formatLocalDate a) (formatLocalDate b) vm n = \<lparr>dc_date = formatLocalDate n,
      dc_value = (if a \<le> n \<and> n \<le> b then case vm (formatLocalDate n) of Some v \<Rightarrow> v | None \<Rightarrow> 0 else 0),
      inRange = (a \<le> n \<and> n \<le> b)\<rparr>" if "n \<in> set [a - daysBack a..b + daysForward b]" for n vm
  proof -
    have r: "a - 6 \<le> n" "n \<le> b + 6" using that weekday_range [of a] weekday_range [of b]
      by (auto simp: daysBack_def daysForward_def split: if_splits)
    have n: "four_digit n" "four_digit a" "four_digit b"
      using four_digit_between [OF assms(1,2)] assms(3) r by simp_all
    then have "in_text_range (formatLocalDate a) (formatLocalDate b) (formatLocalDate n) = (a \<le> n \<and> n \<le> b)"
      using date_text.text_order [of n a] date_text.text_order [of b n] by (auto simp: in_text_range_def)
    then show ?thesis by (simp add: heat_cell_def Let_def)
  qed
  then show ?thesis by (simp add: heat_weeks_days)
qed

theorem heatmap_shows_values_witness:
  "map (\<lambda>c. case c of Some d \<Rightarrow> (dc_value d, inRange d) | None \<Rightarrow> (0, False))
    (concat (fst (heat_weeks [\<lparr>hd_date = ''2026-03-10T00:00:00'', hd_value = 4\<rparr>]
      (formatLocalDate 20522) (formatLocalDate 20523) 20522 20523))) =
   [(0, False), (4, True), (0, True), (0, False), (0, False), (0, False), (0, False)]"
proof -
  have "four_digit (20522 - 6)" "four_digit (20523 + 6)" by code_simp+
  then have "concat (fst (heat_weeks [\<lparr>hd_date = ''2026-03-10T00:00:00'', hd_value = 4\<rparr>]
      (formatLocalDate 20522) (formatLocalDate 20523) 20522 20523)) = map (\<lambda>n. Some \<lparr>dc_date = formatLocalDate n,
        dc_value = (if 20522 \<le> n \<and> n \<le> 20523
          then case value_map [\<lparr>hd_date = ''2026-03-10T00:00:00'', hd_value = 4\<rparr>] (formatLocalDate n) of
            Some v \<Rightarrow> v | None \<Rightarrow> 0 else 0),
        inRange = (20522 \<le> n \<and> n \<le> 20523)\<rparr>) [20522 - daysBack 20522..20523 + daysForward 20523]"
    using heatmap_shows_values [of 20522 20523] by simp
  moreover have "[20522 - daysBack 20522..20523 + daysForward 20523] = [20521, 20522, 20523, 20524, 20525, 20526, 20527]"
    by code_simp
  moreover have "formatLocalDate 20522 = ''2026-03-10''" "formatLocalDate 20523 = ''2026-03-11''" by code_simp+
  ultimately show ?thesis by (simp add: value_map_def normalizeDate_def)
qed

subsection \<open>Levels, labels, fit\<close>

definition shade :: "rat \<Rightarrow> rat \<Rightarrow> rat \<Rightarrow> rat \<Rightarrow> nat" where
  "shade q1 q2 q3 r = (if r \<le> q1 then 1 else if r \<le> q2 then 2 else if r \<le> q3 then 3 else 4)"

lemma shade_mono: "x \<le> y \<Longrightarrow> shade q1 q2 q3 x \<le> shade q1 q2 q3 y"
  by (auto simp: shade_def)

lemma shade_range: "1 \<le> shade q1 q2 q3 x \<and> shade q1 q2 q3 x < 5"
  by (auto simp: shade_def)

lemma getLevel_shade:
  "getLevel v m = (if v \<le> 0 \<or> m \<le> 0 then 0 else shade (1 / 4) (1 / 2) (3 / 4) (v / m))"
  by (simp only: getLevel_def shade_def Let_def)

text \<open>
  A level is one of the five colours, zero for no activity and only then, and a day with more activity
  never gets a paler colour.
\<close>
theorem levels_are_shades:
  assumes "v \<le> w"
  shows "getLevel v m \<le> getLevel w m \<and> getLevel w m < 5 \<and> (0 < m \<longrightarrow> (getLevel v m = 0 \<longleftrightarrow> v \<le> 0))"
proof (cases "0 < m")
  case True
  then have "v / m \<le> w / m" using assms by (simp add: divide_right_mono)
  with True show ?thesis
    using assms shade_mono [of "v / m" "w / m"] shade_range [of "1 / 4" "1 / 2" "3 / 4" "v / m"]
      shade_range [of "1 / 4" "1 / 2" "3 / 4" "w / m"] by (auto simp: getLevel_shade)
qed (simp add: getLevel_def)

lemma last_is_rightmost:
  "sorted_wrt (\<lambda>x y. 28 \<le> snd y - snd x) kept \<Longrightarrow> x \<in> set kept \<Longrightarrow> snd x \<le> snd (last kept)"
  for kept :: "(string \<times> int) list"
proof (induction kept rule: rev_induct)
  case (snoc y ys)
  then show ?case by (fastforce simp: sorted_wrt_append)
qed simp

lemma visible_labels_gaps:
  "sorted_wrt (\<lambda>x y. 28 \<le> snd y - snd x) kept \<Longrightarrow>
    sorted_wrt (\<lambda>x y. 28 \<le> snd y - snd x) (visible_labels weekWidth kept ms)"
proof (induction weekWidth kept ms rule: visible_labels.induct)
  case (2 weekWidth kept label wi ms)
  show ?case
  proof (cases "kept = [] \<or> 28 \<le> int wi * weekWidth - snd (last kept)")
    case True
    have "28 \<le> int wi * weekWidth - snd x" if x: "x \<in> set kept" for x
      using last_is_rightmost [OF 2(3) x] True x by auto
    with True 2 show ?thesis by (simp add: Let_def sorted_wrt_append)
  next
    case False
    with 2 show ?thesis by (simp add: Let_def)
  qed
qed simp

text \<open>The labels of the months that are shown never overlap: their left edges are 28 pixels apart.\<close>
lemma labels_apart:
  "sorted_wrt (\<lambda>x y. 28 \<le> snd y - snd x) (visibleMonthLabels weekWidth ms)"
  by (simp add: visibleMonthLabels_def visible_labels_gaps)

text \<open>The columns of the weeks fit beside the labels unless the cells are at their smallest size.\<close>
lemma grid_fits:
  assumes "0 < weeks" and "containerWidth \<noteq> 0" and "8 < cellSize containerWidth weeks"
  shows "of_nat weeks * of_int (cellSize containerWidth weeks) + (of_nat weeks - 1) * 2 \<le> containerWidth - 40 - 16"
proof -
  let ?fit = "\<lfloor>(containerWidth - 40 - 16 - (of_nat weeks - 1) * 2) / of_nat weeks\<rfloor>"
  have c: "cellSize containerWidth weeks = ?fit" using assms by (auto simp: cellSize_def Let_def max_def split: if_splits)
  have "of_int ?fit \<le> (containerWidth - 40 - 16 - (of_nat weeks - 1) * 2) / of_nat weeks" by (rule of_int_floor_le)
  then have "of_nat weeks * of_int ?fit \<le> containerWidth - 40 - 16 - (of_nat weeks - 1) * 2"
    using assms(1) pos_le_divide_eq [THEN iffD1, of "rat_of_nat weeks" "of_int ?fit"] by (simp only: of_nat_0_less_iff mult.commute)
  then show ?thesis unfolding c by linarith
qed

lemma fold_max_upper: "x \<in> set vs \<or> x \<le> m \<Longrightarrow> x \<le> fold max vs m" for x :: rat
proof (induction vs arbitrary: m)
  case (Cons v vs)
  then have "x \<in> set vs \<or> x \<le> max v m" by (auto simp: le_max_iff_disj)
  from Cons.IH [OF this] show ?case by simp
qed simp

text \<open>The maximum the levels are relative to is positive and no value in the range exceeds it.\<close>
lemma heat_max_upper: "v \<in> insert 1 (set vs) \<Longrightarrow> v \<le> heat_max vs"
  using fold_max_upper [of v "if vs = [] then [0] else vs" 1] by (cases "vs = []") (auto simp: heat_max_def)

end
