(* ===== verification/Iso_Time.thy ===== *)
theory Iso_Time
  imports Dates Format_Utils
begin

text \<open>
  Instants as ISO text: \<^verbatim>\<open>Date.prototype.toISOString\<close> and the date-time strings \<^verbatim>\<open>new Date(s)\<close> reads, for
  years of four digits. An instant is a number of milliseconds since 1970; \<^term>\<open>None\<close> is the invalid
  date. Of the formats the constructor knows, this is the one with a zone that \<^verbatim>\<open>parseUtcDate\<close>
  (\<^verbatim>\<open>frontend/src/lib/utils.ts\<close>) hands to it; digits of a second after the third are dropped.
\<close>

definition ms_per_day :: int where "ms_per_day = 86400000"

definition toISOString :: "int \<Rightarrow> string" where
  "toISOString t =
    (let ms = t mod ms_per_day
     in formatLocalDate (t div ms_per_day) @ ''T'' @ fixed_width 2 (nat (ms div 3600000)) @ '':'' @
        fixed_width 2 (nat (ms div 60000 mod 60)) @ '':'' @ fixed_width 2 (nat (ms div 1000 mod 60)) @ ''.'' @
        fixed_width 3 (nat (ms mod 1000)) @ ''Z'')"

text \<open>A number of exactly \<open>k\<close> digits at the start of a text, and the rest.\<close>

definition read_fixed :: "nat \<Rightarrow> string \<Rightarrow> (int \<times> string) option" where
  "read_fixed k s =
    (if k \<le> length s \<and> list_all is_digit (take k s) then Some (int (read_digits (take k s)), drop k s) else None)"

definition read_char :: "char \<Rightarrow> string \<Rightarrow> string option" where
  "read_char c s = (case s of [] \<Rightarrow> None | x # r \<Rightarrow> if x = c then Some r else None)"

definition read_fraction :: "string \<Rightarrow> int \<times> string" where
  "read_fraction s =
    (case s of
       c # r \<Rightarrow>
         if c = CHR ''.'' \<and> takeWhile is_digit r \<noteq> []
         then (int (read_digits (take 3 (takeWhile is_digit r @ ''00''))), dropWhile is_digit r)
         else (0, s)
     | [] \<Rightarrow> (0, s))"

definition read_zone :: "string \<Rightarrow> int option" where
  "read_zone s =
    (if s = ''Z'' then Some 0
     else case s of
       sg # r \<Rightarrow>
         (if sg = CHR ''+'' \<or> sg = CHR ''-'' then
            Option.bind (read_fixed 2 r) (\<lambda>(h, r1).
            let r2 = (case read_char CHR '':'' r1 of Some x \<Rightarrow> x | None \<Rightarrow> r1) in
            Option.bind (read_fixed 2 r2) (\<lambda>(m, r3).
            if r3 = [] \<and> h < 24 \<and> m < 60 then Some ((if sg = CHR ''-'' then -1 else 1) * (h * 60 + m)) else None))
          else None)
     | [] \<Rightarrow> None)"

definition parse_iso :: "string \<Rightarrow> int option" where
  "parse_iso s =
    Option.bind (parse_day (take 10 s)) (\<lambda>d.
    Option.bind (read_char CHR ''T'' (drop 10 s)) (\<lambda>r1.
    Option.bind (read_fixed 2 r1) (\<lambda>(h, r2).
    Option.bind (read_char CHR '':'' r2) (\<lambda>r3.
    Option.bind (read_fixed 2 r3) (\<lambda>(m, r4).
    Option.bind (read_char CHR '':'' r4) (\<lambda>r5.
    Option.bind (read_fixed 2 r5) (\<lambda>(sec, r6).
    let (ms, r7) = read_fraction r6 in
    Option.bind (read_zone r7) (\<lambda>off.
    if h < 24 \<and> m < 60 \<and> sec < 60
    then Some (d * ms_per_day + h * 3600000 + m * 60000 + sec * 1000 + ms - off * 60000) else None))))))))"

text \<open>\<^verbatim>\<open>parseUtcDate(s).getTime()\<close>\<close>

definition utc_time :: "string \<Rightarrow> int option" where
  "utc_time s = parseUtcDate parse_iso (Inr s)"

lemma read_fixed_width_append: "n < 10 ^ k \<Longrightarrow> read_fixed k (fixed_width k n @ r) = Some (int n, r)"
  using fixed_width_digits by (auto simp: read_fixed_def read_fixed_width list_all_iff simp del: fixed_width.simps)

lemma length_formatLocalDate: "four_digit n \<Longrightarrow> length (formatLocalDate n) = 10"
  by (simp add: formatLocalDate_fixed del: fixed_width.simps)

lemma time_of_day:
  fixes ms :: int
  assumes "0 \<le> ms" and "ms < 86400000"
  shows "ms div 3600000 * 3600000 + ms div 60000 mod 60 * 60000 + ms div 1000 mod 60 * 1000 + ms mod 1000 = ms"
    and "ms div 3600000 < 24"
proof -
  have "ms div 1000 div 60 = ms div 60000" "ms div 60000 div 60 = ms div 3600000"
    by (simp_all add: zdiv_zmult2_eq [symmetric])
  moreover have "ms = 1000 * (ms div 1000) + ms mod 1000" by simp
  moreover have "ms div 1000 = 60 * (ms div 1000 div 60) + ms div 1000 mod 60" by simp
  moreover have "ms div 60000 = 60 * (ms div 60000 div 60) + ms div 60000 mod 60" by simp
  ultimately show "ms div 3600000 * 3600000 + ms div 60000 mod 60 * 60000 + ms div 1000 mod 60 * 1000 + ms mod 1000 = ms"
    by linarith
  show "ms div 3600000 < 24" using zdiv_mono1 [of ms 86399999 3600000] assms by simp
qed

lemma read_fraction_fixed:
  assumes "n < 1000"
  shows "read_fraction (CHR ''.'' # fixed_width 3 n @ ''Z'') = (int n, ''Z'')"
proof -
  have d: "\<forall>c \<in> set (fixed_width 3 n). is_digit c" using fixed_width_digits by blast
  have "\<not> is_digit CHR ''Z''" by (simp add: is_digit_def)
  then have "takeWhile is_digit (fixed_width 3 n @ ''Z'') = fixed_width 3 n" "dropWhile is_digit (fixed_width 3 n @ ''Z'') = ''Z''"
    using d by (simp_all add: takeWhile_append2 dropWhile_append2 del: fixed_width.simps)
  moreover have "length (fixed_width 3 n) = 3" by (rule length_fixed_width)
  moreover have "read_digits (fixed_width 3 n) = n" using assms by (intro read_fixed_width) simp
  ultimately show ?thesis by (auto simp: read_fraction_def simp del: fixed_width.simps length_fixed_width)
qed

lemma parse_iso_text:
  assumes "four_digit d" and "h < 24" and "m < 60" and "sec < 60" and "ms < 1000"
  shows "parse_iso (formatLocalDate d @ CHR ''T'' # fixed_width 2 h @ CHR '':'' # fixed_width 2 m @ CHR '':'' #
      fixed_width 2 sec @ CHR ''.'' # fixed_width 3 ms @ ''Z'') =
    Some (d * ms_per_day + int h * 3600000 + int m * 60000 + int sec * 1000 + int ms)"
  using assms
  by (simp add: parse_iso_def length_formatLocalDate parse_formatLocalDate read_char_def read_fixed_width_append
      read_fraction_fixed read_zone_def del: fixed_width.simps)

lemma parse_toISOString:
  assumes "four_digit (t div ms_per_day)"
  shows "parse_iso (toISOString t) = Some t"
proof -
  define ms where "ms = t mod ms_per_day"
  have r: "0 \<le> ms" "ms < 86400000" by (simp_all add: ms_def ms_per_day_def)
  define h m sec f where "h = ms div 3600000" and "m = ms div 60000 mod 60" and "sec = ms div 1000 mod 60" and "f = ms mod 1000"
  have p: "0 \<le> h" "0 \<le> m" "0 \<le> sec" "0 \<le> f" "h < 24" "m < 60" "sec < 60" "f < 1000"
    using r time_of_day(2) [OF r] by (simp_all add: h_def m_def sec_def f_def pos_imp_zdiv_nonneg_iff)
  have e: "h * 3600000 + m * 60000 + sec * 1000 + f = ms"
    unfolding h_def m_def sec_def f_def by (rule time_of_day(1) [OF r])
  have "toISOString t = formatLocalDate (t div ms_per_day) @ CHR ''T'' # fixed_width 2 (nat h) @ CHR '':'' #
      fixed_width 2 (nat m) @ CHR '':'' # fixed_width 2 (nat sec) @ CHR ''.'' # fixed_width 3 (nat f) @ ''Z''"
    unfolding toISOString_def Let_def ms_def [symmetric] h_def [symmetric] m_def [symmetric] sec_def [symmetric] f_def [symmetric]
    by (simp del: fixed_width.simps)
  moreover have "nat h < 24" "nat m < 60" "nat sec < 60" "nat f < 1000" using p by linarith+
  note parse_iso_text [OF assms this]
  ultimately have "parse_iso (toISOString t) =
      Some (t div ms_per_day * ms_per_day + int (nat h) * 3600000 + int (nat m) * 60000 + int (nat sec) * 1000 + int (nat f))"
    by (simp only:)
  also have "\<dots> = Some (t div ms_per_day * ms_per_day + ms)" using p e by simp
  finally show ?thesis by (simp add: ms_def)
qed

end
