(* ===== verification/Notifications.thy ===== *)
theory Notifications
  imports Iso_Time Server_Actions Query_Hooks
begin

text \<open>
  Notification toasts (\<^verbatim>\<open>frontend/src/components/notifications/notification-toast-provider.tsx\<close>): the two
  watermarks, the toast and the cache refresh of a notification, the handler of socket messages and the
  polling fallback. The state holds the refs of the component, the stored watermark, the toast store,
  the cached list of servers and the query keys invalidated so far. The text of a timestamp is read by
  \<open>utc_time\<close>; a comparison with an invalid time is false, and \<^verbatim>\<open>toISOString\<close> of one raises a
  \<^verbatim>\<open>RangeError\<close>. The console output of development builds is left out.
\<close>

record Notification =
  n_type :: string
  severity :: string
  n_title :: string
  n_message :: string
  action_url :: "string option"
  created_at :: "string option"

record StatusServer = Server +
  stop_reason :: "string option"

record ToastState =
  ls_lastToast :: "string option"
  lastToastTime :: string
  lastCacheRefresh :: string
  mountedAt :: string
  nt_toasts :: ToastStore
  nt_servers :: "StatusServer list option"
  nt_invalidated :: "key list"

definition epoch :: string where
  "epoch = toISOString 0"

definition getLastToastTime :: "string option \<Rightarrow> string \<times> string option" where
  "getLastToastTime stored =
    (case stored of Some t \<Rightarrow> if t \<noteq> [] then (t, stored) else (epoch, Some epoch) | None \<Rightarrow> (epoch, Some epoch))"

definition mount_toasts :: "string option \<Rightarrow> int \<Rightarrow> ToastStore \<Rightarrow> StatusServer list option \<Rightarrow> ToastState" where
  "mount_toasts stored now ts servers =
    (let (t1, ls1) = getLastToastTime stored; (t2, ls2) = getLastToastTime ls1
     in \<lparr>ls_lastToast = ls2, lastToastTime = t1, lastCacheRefresh = t2, mountedAt = toISOString now,
         nt_toasts = ts, nt_servers = servers, nt_invalidated = []\<rparr>)"

definition CLOCK_SKEW_TOLERANCE_MS :: int where
  "CLOCK_SKEW_TOLERANCE_MS = 5000"

text \<open>\<^verbatim>\<open>a <= b\<close> on times, false when one is no number; \<^verbatim>\<open>a - ms\<close> and \<^verbatim>\<open>Math.max\<close> propagate it.\<close>

definition time_le :: "int option \<Rightarrow> int option \<Rightarrow> bool" where
  "time_le a b = (case (a, b) of (Some x, Some y) \<Rightarrow> x \<le> y | _ \<Rightarrow> False)"

definition num_minus :: "int option \<Rightarrow> int \<Rightarrow> int option" where
  "num_minus a k = map_option (\<lambda>x. x - k) a"

definition num_max :: "int option \<Rightarrow> int option \<Rightarrow> int option" where
  "num_max a b = (case (a, b) of (Some x, Some y) \<Rightarrow> Some (max x y) | _ \<Rightarrow> None)"

definition request_of_url :: "string \<Rightarrow> string option" where
  "request_of_url actionUrl =
    (case js_split CHR ''?'' actionUrl of
       _ # q # _ \<Rightarrow> map_of (parse_params q) ''request''
     | _ \<Rightarrow> None)"

definition credit_note_keys :: "Notification \<Rightarrow> key list" where
  "credit_note_keys n =
    (case action_url n of
       Some url \<Rightarrow>
         if n_type n = ''credit'' \<and> url \<noteq> [] \<and>
            (js_startsWith url ''/settings/credits'' \<or> js_startsWith url ''/admin/credits'')
         then (case request_of_url url of
                 Some r \<Rightarrow> if r \<noteq> [] then [[JStr ''credit-requests'', JStr ''messages'', JStr r]] else []
               | None \<Rightarrow> []) @ [[JStr ''credit-requests'']]
         else []
     | None \<Rightarrow> [])"

text \<open>The creation time, if the notification is there and the field is truthy.\<close>

definition created :: "Notification option \<Rightarrow> string option" where
  "created n = Option.bind n (\<lambda>m. Option.bind (created_at m) (\<lambda>c. if c = [] then None else Some c))"

definition refreshCaches :: "Notification option \<Rightarrow> ToastState \<Rightarrow> ToastState" where
  "refreshCaches n s =
    (case (n, created n) of
       (Some m, Some c) \<Rightarrow>
         (let cutoff = num_minus (utc_time (lastCacheRefresh s)) CLOCK_SKEW_TOLERANCE_MS
          in if time_le (utc_time c) cutoff then s
             else s\<lparr>lastCacheRefresh := c,
                    nt_invalidated := nt_invalidated s @ [[JStr ''notifications'']] @ credit_note_keys m\<rparr>)
     | _ \<Rightarrow> s)"

definition toastFn :: "string \<Rightarrow> string \<Rightarrow> string option \<Rightarrow> ToastStore \<Rightarrow> string \<times> ToastStore" where
  "toastFn sev = (if sev = ''success'' then toast_success else if sev = ''warning'' then toast_warning
     else if sev = ''error'' then toast_error else toast_info)"

datatype RangeError = RangeError

definition showToast :: "Notification option \<Rightarrow> ToastState \<Rightarrow> RangeError + ToastState" where
  "showToast n s =
    (case (n, created n) of
       (Some m, Some c) \<Rightarrow>
         (case num_minus (num_max (utc_time (lastToastTime s)) (utc_time (mountedAt s))) CLOCK_SKEW_TOLERANCE_MS of
            None \<Rightarrow> Inl RangeError
          | Some t \<Rightarrow>
              let cutoff = toISOString t
              in if time_le (utc_time c) (utc_time cutoff) then Inr s
                 else Inr (s\<lparr>nt_toasts := snd (toastFn (severity m) (n_title m) (Some (n_message m)) (nt_toasts s)),
                            lastToastTime := c, ls_lastToast := Some c\<rparr>))
     | _ \<Rightarrow> Inr s)"

text \<open>
  Both callbacks for one notification: the state afterwards, and whether the second one threw. The first
  has written its changes by then.
\<close>

definition deliver :: "Notification option \<Rightarrow> ToastState \<Rightarrow> ToastState \<times> bool" where
  "deliver n s =
    (let s1 = refreshCaches n s
     in case showToast n s1 of Inl _ \<Rightarrow> (s1, True) | Inr s2 \<Rightarrow> (s2, False))"

datatype SocketMessage =
    StatusChanged "(string \<times> string \<times> string option) option"
  | RateLimited "string option"
  | NewNotification "Notification option"
  | OtherEvent

definition set_status :: "string \<Rightarrow> string \<Rightarrow> string option \<Rightarrow> StatusServer list option \<Rightarrow> StatusServer list option" where
  "set_status i st why old =
    map_option (map (\<lambda>s. if server_id s = i then s\<lparr>status := st, stop_reason := why\<rparr> else s)) old"

definition toast_onMessage :: "SocketMessage \<Rightarrow> ToastState \<Rightarrow> ToastState \<times> bool" where
  "toast_onMessage msg s =
    (case msg of
       StatusChanged d \<Rightarrow>
         (case d of
            Some (i, st, why) \<Rightarrow> if i = [] then (s, False) else (s\<lparr>nt_servers := set_status i st why (nt_servers s)\<rparr>, False)
          | None \<Rightarrow> (s, False))
     | RateLimited m \<Rightarrow>
         (s\<lparr>nt_toasts := snd (toast_warning ''Rate Limited''
              (Some (case m of Some x \<Rightarrow> if x \<noteq> [] then x else ''Too many messages. Please slow down.''
                     | None \<Rightarrow> ''Too many messages. Please slow down.'')) (nt_toasts s))\<rparr>, False)
     | NewNotification n \<Rightarrow> deliver n s
     | OtherEvent \<Rightarrow> (s, False))"

text \<open>The notifications of an answer, in order; an exception ends the loop and is caught.\<close>

fun poll_each :: "Notification list \<Rightarrow> ToastState \<Rightarrow> ToastState" where
  "poll_each [] s = s"
| "poll_each (n # ns) s = (let (s1, threw) = deliver (Some n) s in if threw then s1 else poll_each ns s1)"

definition POLL_URL :: string where
  "POLL_URL = ''/notifications/?unread_only=true&page=1&page_size=10''"

definition poll :: "bool \<Rightarrow> Notification list option \<Rightarrow> ToastState \<Rightarrow> ToastState" where
  "poll cancelled response s =
    (case response of None \<Rightarrow> s | Some ns \<Rightarrow> if cancelled then s else poll_each ns s)"

text \<open>The rooms the component asks for while it is connected and someone is logged in.\<close>

definition user_room :: "bool \<Rightarrow> string option \<Rightarrow> (string \<times> string) list" where
  "user_room isConnected who = (case who of Some u \<Rightarrow> if isConnected then [(''user'', u)] else [] | None \<Rightarrow> [])"

subsection \<open>Delivery of one notification\<close>

definition time_ok :: "int \<Rightarrow> bool" where
  "time_ok t = four_digit (t div ms_per_day)"

definition is_at :: "Notification \<Rightarrow> int \<Rightarrow> bool" where
  "is_at n t = (case created_at n of Some c \<Rightarrow> c \<noteq> [] \<and> utc_time c = Some t | None \<Rightarrow> False)"

definition marks :: "ToastState \<Rightarrow> int \<Rightarrow> int \<Rightarrow> int \<Rightarrow> bool" where
  "marks s shown mount seen =
    (utc_time (lastToastTime s) = Some shown \<and> utc_time (mountedAt s) = Some mount \<and>
     utc_time (lastCacheRefresh s) = Some seen \<and> time_ok (max shown mount - 5000))"

definition toasted :: "Notification \<Rightarrow> ToastStore \<Rightarrow> ToastStore" where
  "toasted n ts = snd (toastFn (severity n) (n_title n) (Some (n_message n)) ts)"

lemma normalizeUtc_iso: "normalizeUtc (toISOString t) = toISOString t"
  by (simp add: normalizeUtc_def toISOString_def js_endsWith_def Let_def del: fixed_width.simps)

lemma utc_time_iso: "time_ok t \<Longrightarrow> utc_time (toISOString t) = Some t"
  by (simp add: utc_time_def parseUtcDate_def normalizeUtc_iso parse_toISOString time_ok_def)

lemma time_ok_between: "time_ok a \<Longrightarrow> time_ok b \<Longrightarrow> a \<le> x \<Longrightarrow> x \<le> b \<Longrightarrow> time_ok x"
proof -
  assume "time_ok a" "time_ok b" and x: "a \<le> x" "x \<le> b"
  moreover have "a div ms_per_day \<le> x div ms_per_day" "x div ms_per_day \<le> b div ms_per_day"
    using x by (simp_all add: ms_per_day_def zdiv_mono1)
  ultimately show "time_ok x"
    using getFullYear_mono [of "a div ms_per_day" "x div ms_per_day"] getFullYear_mono [of "x div ms_per_day" "b div ms_per_day"]
    by (auto simp: time_ok_def four_digit_def)
qed

lemma deliver_at:
  assumes "is_at n t" and "marks s shown mount seen"
  obtains c where "created_at n = Some c" "utc_time c = Some t"
    "deliver (Some n) s =
      ((let s1 = (if t \<le> seen - 5000 then s
          else s\<lparr>lastCacheRefresh := c, nt_invalidated := nt_invalidated s @ [[JStr ''notifications'']] @ credit_note_keys n\<rparr>)
        in if t \<le> max shown mount - 5000 then s1
           else s1\<lparr>nt_toasts := toasted n (nt_toasts s), lastToastTime := c, ls_lastToast := Some c\<rparr>), False)"
proof -
  obtain c where c: "created_at n = Some c" "c \<noteq> []" "utc_time c = Some t"
    using assms(1) by (auto simp: is_at_def split: option.splits)
  have "utc_time (toISOString (max shown mount - 5000)) = Some (max shown mount - 5000)"
    using assms(2) by (simp add: marks_def utc_time_iso)
  then have "deliver (Some n) s =
      ((let s1 = (if t \<le> seen - 5000 then s
          else s\<lparr>lastCacheRefresh := c, nt_invalidated := nt_invalidated s @ [[JStr ''notifications'']] @ credit_note_keys n\<rparr>)
        in if t \<le> max shown mount - 5000 then s1
           else s1\<lparr>nt_toasts := toasted n (nt_toasts s), lastToastTime := c, ls_lastToast := Some c\<rparr>), False)"
    using assms(2) c
    by (simp add: deliver_def refreshCaches_def showToast_def created_def marks_def num_minus_def num_max_def time_le_def
        CLOCK_SKEW_TOLERANCE_MS_def Let_def toasted_def)
  with c that show thesis by blast
qed

lemma deliver_marks:
  assumes "is_at n t" and "marks s shown mount seen" and "time_ok (t - 5000)"
  shows "marks (fst (deliver (Some n) s)) (if t \<le> max shown mount - 5000 then shown else t) mount
      (if t \<le> seen - 5000 then seen else t)"
    and "nt_toasts (fst (deliver (Some n) s)) =
      (if t \<le> max shown mount - 5000 then nt_toasts s else toasted n (nt_toasts s))"
    and "snd (deliver (Some n) s) = False"
proof -
  have m: "time_ok (max t mount - 5000)" if "\<not> t \<le> max shown mount - 5000"
  proof (cases "mount \<le> t")
    case True
    then show ?thesis using assms(3) by (simp add: max_def)
  next
    case False
    then have "max t mount - 5000 \<le> max shown mount - 5000" "t - 5000 \<le> max t mount - 5000" by simp_all
    then show ?thesis using assms(2,3) time_ok_between unfolding marks_def by blast
  qed
  obtain c where c: "utc_time c = Some t" "deliver (Some n) s =
      ((let s1 = (if t \<le> seen - 5000 then s
          else s\<lparr>lastCacheRefresh := c, nt_invalidated := nt_invalidated s @ [[JStr ''notifications'']] @ credit_note_keys n\<rparr>)
        in if t \<le> max shown mount - 5000 then s1
           else s1\<lparr>nt_toasts := toasted n (nt_toasts s), lastToastTime := c, ls_lastToast := Some c\<rparr>), False)"
    by (rule deliver_at [OF assms(1,2)])
  show "marks (fst (deliver (Some n) s)) (if t \<le> max shown mount - 5000 then shown else t) mount
      (if t \<le> seen - 5000 then seen else t)"
    using assms(2) m unfolding c(2) by (simp add: marks_def Let_def c(1))
  show "nt_toasts (fst (deliver (Some n) s)) =
      (if t \<le> max shown mount - 5000 then nt_toasts s else toasted n (nt_toasts s))"
    unfolding c(2) by (simp add: Let_def)
  show "snd (deliver (Some n) s) = False" unfolding c(2) by simp
qed

subsection \<open>The watermark\<close>

text \<open>
  What the watermark promises, on instants alone: which of a list of timed notifications are shown, in
  order, and the watermark afterwards.
\<close>

fun watermark :: "int \<Rightarrow> int \<Rightarrow> (int \<times> 'n) list \<Rightarrow> 'n list \<times> int" where
  "watermark shown mount [] = ([], shown)"
| "watermark shown mount ((t, n) # r) =
    (if t \<le> max shown mount - 5000 then watermark shown mount r
     else (n # fst (watermark t mount r), snd (watermark t mount r)))"

definition timed :: "(int \<times> Notification) list \<Rightarrow> bool" where
  "timed = list_all (\<lambda>(t, n). is_at n t \<and> time_ok (t - 5000))"

lemma poll_each_watermark:
  assumes "timed tns" and "marks s shown mount seen"
  shows "nt_toasts (poll_each (map snd tns) s) = fold toasted (fst (watermark shown mount tns)) (nt_toasts s) \<and>
    (\<exists>seen'. marks (poll_each (map snd tns) s) (snd (watermark shown mount tns)) mount seen')"
  using assms
proof (induction tns arbitrary: s shown seen)
  case (Cons tn tns)
  obtain t n where tn: "tn = (t, n)" by (cases tn)
  have n: "is_at n t" "time_ok (t - 5000)" and r: "timed tns" using Cons.prems(1) by (simp_all add: timed_def tn)
  note d = deliver_marks [OF n(1) Cons.prems(2) n(2)]
  have "poll_each (map snd (tn # tns)) s = poll_each (map snd tns) (fst (deliver (Some n) s))"
    using d(3) by (simp add: tn split_beta)
  then show ?case using Cons.IH [OF r d(1)] d(2) by (simp add: tn split: if_splits)
qed auto

text \<open>
  C12. A poll refines the watermark: the answer's notifications are shown exactly as the watermark decides,
  each with the toast of its severity, in the order of the answer.
\<close>
theorem poll_refines_watermark:
  assumes "timed tns" and "marks s shown mount seen"
  shows "nt_toasts (poll False (Some (map snd tns)) s) =
      fold toasted (fst (watermark shown mount tns)) (nt_toasts s) \<and>
    utc_time (lastToastTime (poll False (Some (map snd tns)) s)) = Some (snd (watermark shown mount tns))"
  using poll_each_watermark [OF assms] by (auto simp: poll_def marks_def)

definition demo_note :: "string \<Rightarrow> Notification" where
  "demo_note c = \<lparr>n_type = ''server'', severity = ''success'', n_title = ''Server'', n_message = ''Started'',
     action_url = None, created_at = Some c\<rparr>"

definition demo_toasts :: ToastState where
  "demo_toasts = mount_toasts (Some ''2026-03-15T11:59:00'') 1773576000000 initialToasts None"

lemma demo_marks: "marks demo_toasts 1773575940000 1773576000000 1773575940000"
  by code_simp

lemma demo_timed:
  "timed [(1773576030000, demo_note ''2026-03-15T12:00:30.000Z''), (1773576010000, demo_note ''2026-03-15T12:00:10'')]"
  by code_simp

theorem poll_refines_watermark_witness:
  "length (toasts (nt_toasts (poll False
      (Some [demo_note ''2026-03-15T12:00:30.000Z'', demo_note ''2026-03-15T12:00:10'']) demo_toasts))) = 1"
  using poll_refines_watermark [OF demo_timed demo_marks]
  by (simp add: toasted_def toastFn_def demo_note_def toast_success_def addToast_def demo_toasts_def mount_toasts_def
      getLastToastTime_def initialToasts_def Let_def)

lemma watermark_old:
  "list_all (\<lambda>(t, n). t \<le> max shown mount - 5000) tns \<Longrightarrow> watermark shown mount tns = ([], shown)"
  by (induction tns) auto

text \<open>
  Notifications from before the component was mounted, beyond the tolerance for clock skew, are never
  shown by a poll, whatever the stored watermark: loading the page does not replay them.
\<close>
theorem old_notifications_not_replayed:
  assumes "timed tns" and "marks s shown mount seen" and "list_all (\<lambda>(t, n). t \<le> mount - 5000) tns"
  shows "nt_toasts (poll cancelled (Some (map snd tns)) s) = nt_toasts s"
proof -
  have "list_all (\<lambda>(t, n). t \<le> max shown mount - 5000) tns" using assms(3) by (auto simp: list_all_iff)
  then show ?thesis using poll_each_watermark [OF assms(1,2)] by (simp add: poll_def watermark_old)
qed

theorem old_notifications_not_replayed_witness:
  "nt_toasts (poll False (Some [demo_note ''2026-03-15T11:59:30'']) demo_toasts) = nt_toasts demo_toasts"
proof -
  have "timed [(1773575970000, demo_note ''2026-03-15T11:59:30'')]" by code_simp
  from old_notifications_not_replayed [OF this demo_marks, of False] show ?thesis by simp
qed

lemma length_toasted: "length (toasts (toasted n ts)) = Suc (length (toasts ts))"
  by (simp add: toasted_def toastFn_def toast_success_def toast_warning_def toast_error_def toast_info_def addToast_def Let_def)

text \<open>
  An unread notification that came in after the component was mounted is shown again by every poll: the
  watermark it leaves is its own time, and the tolerance puts the cut-off five seconds before that.
\<close>
theorem unread_shown_by_every_poll:
  assumes "is_at n t" and "time_ok (t - 5000)" and "marks s shown mount seen"
    and "max shown mount - 5000 < t"
  shows "length (toasts (nt_toasts ((poll False (Some [n]) ^^ k) s))) = length (toasts (nt_toasts s)) + k"
proof -
  have "\<exists>shown' seen'. marks ((poll False (Some [n]) ^^ k) s) shown' mount seen' \<and> max shown' mount - 5000 < t \<and>
      length (toasts (nt_toasts ((poll False (Some [n]) ^^ k) s))) = length (toasts (nt_toasts s)) + k"
  proof (induction k)
    case (Suc k)
    then obtain shown' seen' where
      k: "marks ((poll False (Some [n]) ^^ k) s) shown' mount seen'" "max shown' mount - 5000 < t"
        "length (toasts (nt_toasts ((poll False (Some [n]) ^^ k) s))) = length (toasts (nt_toasts s)) + k" by blast
    define u where "u = (poll False (Some [n]) ^^ k) s"
    have "timed [(t, n)]" using assms(1,2) by (simp add: timed_def)
    then obtain x where "marks (poll False (Some [n]) u) t mount x"
      "nt_toasts (poll False (Some [n]) u) = toasted n (nt_toasts u)"
      using poll_each_watermark [OF _ k(1) [folded u_def], of "[(t, n)]"] k(2) by (auto simp: poll_def simp del: poll_each.simps)
    moreover have "max t mount - 5000 < t" using assms(4) by simp
    ultimately show ?case using k(3) by (auto simp: u_def length_toasted)
  qed (use assms in auto)
  then show ?thesis by blast
qed

theorem unread_shown_by_every_poll_witness:
  "length (toasts (nt_toasts ((poll False (Some [demo_note ''2026-03-15T12:00:30'']) ^^ 20) demo_toasts))) = 20"
proof -
  have "is_at (demo_note ''2026-03-15T12:00:30'') 1773576030000" "time_ok (1773576030000 - 5000)" by code_simp+
  from unread_shown_by_every_poll [OF this demo_marks, of 20]
  show ?thesis by (simp add: demo_toasts_def mount_toasts_def getLastToastTime_def initialToasts_def)
qed

text \<open>
  The server answers with the newest notification first, so that one moves the watermark before the others
  are looked at: of the notifications that came in since the last poll, those more than five seconds older
  than the newest are not shown, by this poll or a later one.
\<close>
theorem poll_hides_older:
  assumes "timed ((t, n) # tns)" and "marks s shown mount seen"
    and "max shown mount - 5000 < t" and "list_all (\<lambda>(t', n'). t' \<le> t - 5000) tns"
  shows "nt_toasts (poll False (Some (n # map snd tns)) s) = toasted n (nt_toasts s) \<and>
    nt_toasts (poll False (Some (map snd tns)) (poll False (Some (n # map snd tns)) s)) = toasted n (nt_toasts s)"
proof -
  have old: "list_all (\<lambda>(t', n'). t' \<le> max t mount - 5000) tns" using assms(4) by (auto simp: list_all_iff)
  have w: "watermark shown mount ((t, n) # tns) = ([n], t)" using assms(3) old by (simp add: watermark_old)
  have "timed tns" using assms(1) by (simp add: timed_def)
  obtain seen' where "marks (poll_each (n # map snd tns) s) t mount seen'"
    and p: "nt_toasts (poll_each (n # map snd tns) s) = toasted n (nt_toasts s)"
    using poll_each_watermark [OF assms(1,2)] w by (auto simp del: poll_each.simps)
  from poll_each_watermark [OF \<open>timed tns\<close> this(1)] p show ?thesis
    by (simp add: poll_def watermark_old [OF old] del: poll_each.simps)
qed

theorem poll_hides_older_witness:
  "length (toasts (nt_toasts (poll False
      (Some [demo_note ''2026-03-15T12:00:30.000Z'', demo_note ''2026-03-15T12:00:10'']) demo_toasts))) = 1"
proof -
  let ?n = "demo_note ''2026-03-15T12:00:30.000Z''" and ?m = "demo_note ''2026-03-15T12:00:10''"
  have "nt_toasts (poll False (Some [?n, ?m]) demo_toasts) = toasted ?n (nt_toasts demo_toasts)"
    using poll_hides_older [OF demo_timed demo_marks] by simp
  then show ?thesis
    by (simp add: length_toasted demo_toasts_def mount_toasts_def getLastToastTime_def initialToasts_def)
qed

subsection \<open>Caches and errors\<close>

text \<open>
  The caches are refreshed independently of the toasts: what a notification invalidates and the watermark
  of the refresh do not depend on the watermarks of the toasts, on the time of mounting or on whether the
  toast throws.
\<close>
theorem refresh_independent_of_toast:
  "nt_invalidated (fst (deliver n (s\<lparr>lastToastTime := a, mountedAt := b, ls_lastToast := l, nt_toasts := ts\<rparr>))) =
     nt_invalidated (fst (deliver n s)) \<and>
   lastCacheRefresh (fst (deliver n (s\<lparr>lastToastTime := a, mountedAt := b, ls_lastToast := l, nt_toasts := ts\<rparr>))) =
     lastCacheRefresh (fst (deliver n s))"
  by (auto simp: deliver_def refreshCaches_def showToast_def Let_def split: option.splits sum.splits if_splits)

text \<open>
  One timestamp that is no date switches the toasts off for good: the notification is shown and its text
  becomes the stored watermark, and from then on, also after the page is loaded again, every
  notification with a creation time raises a \<^verbatim>\<open>RangeError\<close> before its toast.
\<close>
theorem malformed_time_disables_toasts:
  assumes "created n = Some c" and "utc_time c = None" and "marks s shown mount seen" and "created m \<noteq> None"
  shows "let t = fst (deliver n s); r = mount_toasts (ls_lastToast t) now ts servers
    in ls_lastToast t = Some c \<and> showToast m t = Inl RangeError \<and> showToast m r = Inl RangeError \<and>
       snd (deliver m r) \<and> nt_toasts (fst (deliver m r)) = ts"
proof -
  obtain x where x: "n = Some x" "c \<noteq> []" using assms(1) by (cases n) (auto simp: created_def split: if_splits bind_splits)
  obtain y d where y: "m = Some y" "created m = Some d" using assms(4) by (cases m) (auto simp: created_def)
  define t where "t = fst (deliver n s)"
  have t: "ls_lastToast t = Some c" "lastToastTime t = c"
    using assms(1-3) x
    by (simp_all add: t_def deliver_def refreshCaches_def showToast_def marks_def num_minus_def num_max_def time_le_def Let_def)
  have thr: "showToast m u = Inl RangeError" if "lastToastTime u = c" for u
    using that y assms(2) by (simp add: showToast_def num_minus_def num_max_def)
  define r where "r = mount_toasts (ls_lastToast t) now ts servers"
  have r: "lastToastTime r = c" "nt_toasts r = ts" using t x by (simp_all add: r_def mount_toasts_def getLastToastTime_def)
  have f: "lastToastTime (refreshCaches m u) = lastToastTime u" "nt_toasts (refreshCaches m u) = nt_toasts u" for u
    by (simp_all add: refreshCaches_def Let_def split: option.splits)
  have "deliver m r = (refreshCaches m r, True)" using thr [of "refreshCaches m r"] f r by (simp add: deliver_def Let_def)
  then show ?thesis using t r thr f unfolding Let_def t_def [symmetric] r_def [symmetric] by simp
qed

theorem malformed_time_disables_toasts_witness:
  "showToast (Some (demo_note ''2026-03-15T12:01:00'')) (fst (deliver (Some (demo_note ''yesterday'')) demo_toasts)) =
    Inl RangeError"
proof -
  have "created (Some (demo_note ''yesterday'')) = Some ''yesterday''" "utc_time ''yesterday'' = None"
    "created (Some (demo_note ''2026-03-15T12:01:00'')) \<noteq> None" by code_simp+
  from malformed_time_disables_toasts [OF this(1,2) demo_marks this(3)] show ?thesis by (simp add: Let_def)
qed

end
