(* ===== verification/Palette.thy ===== *)
theory Palette
  imports Auth_Store Format_Utils Query_Hooks
begin

text \<open>
  Search and navigation: the command palette (\<^verbatim>\<open>frontend/src/components/search/command-palette.tsx\<close>), the
  search query (\<^verbatim>\<open>hooks/use-search.ts\<close>) and the entries of the sidebar (\<^verbatim>\<open>components/layout/sidebar.tsx\<close>).
  The state of the palette holds its React state, the stored recent entries, and what it asked of the
  router and of the browser. Icons and focus are left out. Stored recent entries are \<^term>\<open>None\<close> when
  nothing is stored or what is stored is no array; characters are bytes, so the arrow and the dot of the
  labels are their UTF-8 encodings.
\<close>

subsection \<open>Scopes\<close>

definition SCOPE_NAMES :: "string list" where
  "SCOPE_NAMES = [''servers'', ''volumes'', ''workspaces'', ''environments'', ''users'']"

definition scope_permission :: "string \<Rightarrow> string option" where
  "scope_permission name =
    (if name = ''environments'' then Some ENVIRONMENT_READ else if name = ''users'' then Some USERS_READ else None)"

definition availableScopes :: "AuthState \<Rightarrow> string list" where
  "availableScopes st =
    filter (\<lambda>name. case scope_permission name of None \<Rightarrow> True | Some p \<Rightarrow> p = [] \<or> hasPermission st p) SCOPE_NAMES"

definition toSearchScope :: "string option \<Rightarrow> string option" where
  "toSearchScope token =
    (let lower = (case token of Some t \<Rightarrow> js_toLowerCase t | None \<Rightarrow> [])
     in if lower \<in> set SCOPE_NAMES then Some lower else None)"

definition js_trimStart :: "string \<Rightarrow> string" where
  "js_trimStart s = dropWhile js_space s"

definition one_line :: "string \<Rightarrow> bool" where
  "one_line s = list_all (\<lambda>c. c \<noteq> CHR 0x0A \<and> c \<noteq> CHR 0x0D) s"

text \<open>\<^verbatim>\<open>/^([a-z]+):(.*)$/i\<close> and \<^verbatim>\<open>/^\/([a-z]+)(?:\s+(.*))?$/i\<close>: the groups of a match.\<close>

definition colon_match :: "string \<Rightarrow> (string \<times> string) option" where
  "colon_match input =
    (let w = takeWhile is_letter input
     in case dropWhile is_letter input of
          c # r \<Rightarrow> if w \<noteq> [] \<and> c = CHR '':'' \<and> one_line r then Some (w, r) else None
        | [] \<Rightarrow> None)"

definition slash_match :: "string \<Rightarrow> (string \<times> string option) option" where
  "slash_match input =
    (case input of
       c # s \<Rightarrow>
         if c = CHR ''/'' \<and> takeWhile is_letter s \<noteq> [] then
           (let r = dropWhile is_letter s
            in if r = [] then Some (takeWhile is_letter s, None)
               else if js_space (hd r) \<and> one_line (js_trimStart r) then Some (takeWhile is_letter s, Some (js_trimStart r))
               else None)
         else None
     | [] \<Rightarrow> None)"

definition parseScopePrefix :: "string \<Rightarrow> (string \<times> string) option" where
  "parseScopePrefix input =
    (let colon = colon_match input
     in case (colon, toSearchScope (map_option fst colon)) of
          (Some (_, r), Some scope) \<Rightarrow> Some (scope, js_trimStart r)
        | _ \<Rightarrow>
          (let slash = slash_match input
           in case (slash, toSearchScope (map_option fst slash)) of
                (Some (_, r), Some scope) \<Rightarrow> Some (scope, js_trimStart (case r of Some x \<Rightarrow> x | None \<Rightarrow> []))
              | _ \<Rightarrow> None))"

subsection \<open>Items and recent entries\<close>

datatype EntityType = EServer | EVolume | EWorkspace | EEnvironment | EUser

datatype ItemType = Entity EntityType | PageItem | ScopeItem

record PaletteItem =
  it_type :: ItemType
  it_id :: string
  it_label :: string
  it_subtitle :: "string option"
  it_to :: "string option"
  it_keywords :: "string list option"
  it_action :: "string option"

record RecentEntry =
  r_type :: EntityType
  r_id :: string
  r_label :: string
  r_subtitle :: "string option"

definition MAX_RECENTS :: nat where
  "MAX_RECENTS = 5"

definition matchesCommand :: "PaletteItem \<Rightarrow> string \<Rightarrow> bool" where
  "matchesCommand command f =
    (js_contains (js_toLowerCase (it_label command)) f \<or>
     (case it_keywords command of Some ks \<Rightarrow> list_ex (\<lambda>k. js_contains k f) ks | None \<Rightarrow> False))"

definition loadRecents :: "RecentEntry list option \<Rightarrow> RecentEntry list" where
  "loadRecents stored = (case stored of Some rs \<Rightarrow> take MAX_RECENTS rs | None \<Rightarrow> [])"

definition recent_key :: "RecentEntry \<Rightarrow> EntityType \<times> string" where
  "recent_key r = (r_type r, r_id r)"

text \<open>\<open>writable\<close>: whether the browser lets the page write to its storage.\<close>

definition pushRecent :: "bool \<Rightarrow> RecentEntry \<Rightarrow> RecentEntry list option \<Rightarrow> RecentEntry list option" where
  "pushRecent writable entry stored =
    (let new = take MAX_RECENTS (entry # filter (\<lambda>r. \<not> (r_type r = r_type entry \<and> r_id r = r_id entry)) (loadRecents stored))
     in if writable then Some new else stored)"

subsection \<open>Commands\<close>

definition arrow :: string where "arrow = [CHR 0xE2, CHR 0x86, CHR 0x92]"

definition page_cmd :: "string \<Rightarrow> string \<Rightarrow> string list option \<Rightarrow> PaletteItem" where
  "page_cmd label path keywords = \<lparr>it_type = PageItem, it_id = path, it_label = label, it_subtitle = None,
     it_to = Some path, it_keywords = keywords, it_action = None\<rparr>"

definition adminPage :: "string \<Rightarrow> string \<Rightarrow> string list \<Rightarrow> bool \<Rightarrow> PaletteItem list" where
  "adminPage name path keywords allowed =
    (if allowed then [page_cmd (''Admin '' @ arrow @ '' '' @ name) path (Some keywords)] else [])"

definition grafana_cmd :: PaletteItem where
  "grafana_cmd = \<lparr>it_type = PageItem, it_id = ''grafana'', it_label = ''Grafana'', it_subtitle = None, it_to = None,
     it_keywords = Some [''monitoring'', ''metrics'', ''dashboards''], it_action = Some ''/grafana''\<rparr>"

definition pageCommands :: "AuthState \<Rightarrow> PaletteItem list" where
  "pageCommands st =
    [page_cmd ''Dashboard'' ''/'' None,
     page_cmd ''Servers'' ''/servers'' None,
     page_cmd ''Usage'' ''/usage'' None,
     page_cmd ''Activity'' ''/activity'' (Some [''history'', ''events''])] @
    (if hasPermission st ENVIRONMENT_READ then [page_cmd ''Environments'' ''/environments'' None] else []) @
    [page_cmd ''Volumes'' ''/volumes'' None,
     page_cmd ''Workspaces'' ''/workspaces'' None] @
    (if hasPermission st PLAN_READ then [page_cmd ''Plans'' ''/plans'' None] else []) @
    [page_cmd ''Settings'' ''/settings'' None,
     page_cmd ''Profile'' ''/settings/profile'' (Some [''account'']),
     page_cmd ''Themes'' ''/settings/appearance'' (Some [''appearance'', ''theme'', ''dark mode'', ''light mode'']),
     page_cmd ''Notifications'' ''/settings/notifications'' (Some [''alerts'']),
     page_cmd ''Server Settings'' ''/settings/servers'' (Some [''defaults'']),
     page_cmd ''API Tokens'' ''/settings/tokens'' (Some [''api'', ''token'']),
     page_cmd ''Credits'' ''/settings/credits'' (Some [''balance''])] @
    (if canAccessAdmin st then [page_cmd ''Administration'' ''/admin'' None] else []) @
    adminPage ''Users'' ''/admin/users'' [''users'', ''accounts''] (hasPermission st USERS_READ) @
    adminPage ''Servers'' ''/admin/servers'' [''servers'', ''containers''] (hasPermission st SERVERS_READ_ALL) @
    adminPage ''Health'' ''/admin/health'' [''health'', ''status''] (hasPermission st ADMIN_ACCESS) @
    adminPage ''Analytics'' ''/admin/analytics'' [''analytics'', ''stats''] (hasPermission st ANALYTICS_READ) @
    adminPage ''Audit Logs'' ''/admin/audit-logs'' [''audit'', ''logs''] (hasPermission st AUDIT_READ) @
    adminPage ''Credits'' ''/admin/credits'' [''credits'', ''allowance''] (hasPermission st CREDITS_READ_ALL) @
    adminPage ''Environments'' ''/admin/environments'' [''environments'', ''images'']
      (hasAnyPermission st [ENVIRONMENT_CREATE, ENVIRONMENT_UPDATE, ENVIRONMENT_DELETE]) @
    adminPage ''Plans'' ''/admin/plans'' [''plans'', ''pricing'']
      (hasAnyPermission st [PLAN_CREATE, PLAN_UPDATE, PLAN_DELETE]) @
    adminPage ''Quotas'' ''/admin/quotas'' [''quotas'', ''limits''] (hasPermission st QUOTA_READ) @
    adminPage ''Workspaces'' ''/admin/workspaces'' [''workspaces''] (hasPermission st ADMIN_ACCESS) @
    adminPage ''Volumes'' ''/admin/volumes'' [''volumes'', ''storage''] (hasPermission st ADMIN_ACCESS) @
    adminPage ''Permissions'' ''/admin/permissions'' [''permissions'', ''roles''] (hasPermission st ADMIN_ACCESS) @
    adminPage ''IP Restrictions'' ''/admin/ip-restrictions'' [''ip'', ''restrictions''] (hasPermission st ADMIN_ACCESS) @
    adminPage ''Maintenance Windows'' ''/admin/maintenance-windows'' [''maintenance'', ''windows'']
      (hasPermission st ADMIN_ACCESS) @
    adminPage ''Settings'' ''/admin/settings'' [''settings'', ''system''] (hasPermission st ADMIN_ACCESS) @
    (if canAccessAdmin st then [grafana_cmd] else []) @
    [page_cmd ''Help & FAQ'' ''/support'' (Some [''help'', ''questions'', ''support'', ''faq''])]"

subsection \<open>The search\<close>

record SearchServer = ss_id :: string ss_name :: string ss_status :: string

record SearchVolume =
  sv_id :: string
  sv_name :: string
  sv_display :: "string option"
  sv_size :: "js_num option"
  sv_status :: "string option"

record SearchNamed = sn_id :: string sn_name :: string sn_detail :: "string option"

record SearchResults =
  res_servers :: "SearchServer list option"
  res_volumes :: "SearchVolume list option"
  res_workspaces :: "SearchNamed list option"
  res_environments :: "SearchNamed list option"
  res_users :: "SearchNamed list option"

definition useSearch :: "string \<Rightarrow> string option \<Rightarrow> Query" where
  "useSearch q scope =
    \<lparr>queryKey = [JStr ''search'', case scope of Some s \<Rightarrow> JStr s | None \<Rightarrow> JNull, JStr q],
     queryRequest = api_get (''/search/?q='' @ encodeURIComponent q @
       (case scope of Some s \<Rightarrow> if s \<noteq> [] then ''&group='' @ s @ ''&limit=10'' else ''&limit=5'' | None \<Rightarrow> ''&limit=5'')),
     queryEnabled = (2 \<le> length (js_trim q))\<rparr>"

definition entity_item :: "EntityType \<Rightarrow> string \<Rightarrow> string \<Rightarrow> string option \<Rightarrow> PaletteItem" where
  "entity_item ty i label sub = \<lparr>it_type = Entity ty, it_id = i, it_label = label, it_subtitle = sub,
     it_to = None, it_keywords = None, it_action = None\<rparr>"

definition middot :: string where "middot = [CHR '' '', CHR 0xC2, CHR 0xB7, CHR '' '']"

text \<open>\<open>size_text\<close> is \<^verbatim>\<open>formatBytes(v.size_bytes)\<close>.\<close>

definition volume_item :: "(js_num option \<Rightarrow> string) \<Rightarrow> SearchVolume \<Rightarrow> PaletteItem" where
  "volume_item size_text v =
    (let label = (case sv_display v of Some d \<Rightarrow> if d \<noteq> [] then d else sv_name v | None \<Rightarrow> sv_name v);
         parts = [if sv_name v \<noteq> label then Some (sv_name v) else None, Some (size_text (sv_size v)), sv_status v]
     in entity_item EVolume (sv_id v) label
          (Some (js_join middot (filter (\<lambda>p. p \<noteq> []) (map the (filter (\<lambda>p. p \<noteq> None) parts))))))"

type_synonym Section = "string \<times> PaletteItem list"

definition group_section :: "string \<Rightarrow> ('a \<Rightarrow> PaletteItem) \<Rightarrow> 'a list option \<Rightarrow> Section list" where
  "group_section title item xs = (case xs of Some (y # ys) \<Rightarrow> [(title, map item (y # ys))] | _ \<Rightarrow> [])"

definition result_sections :: "(js_num option \<Rightarrow> string) \<Rightarrow> SearchResults \<Rightarrow> Section list" where
  "result_sections size_text d =
    group_section ''Servers'' (\<lambda>s. entity_item EServer (ss_id s) (ss_name s) (Some (ss_status s))) (res_servers d) @
    group_section ''Volumes'' (volume_item size_text) (res_volumes d) @
    group_section ''Workspaces'' (\<lambda>w. entity_item EWorkspace (sn_id w) (sn_name w) None) (res_workspaces d) @
    group_section ''Environments'' (\<lambda>e. entity_item EEnvironment (sn_id e) (sn_name e) (sn_detail e)) (res_environments d) @
    group_section ''Users'' (\<lambda>u. entity_item EUser (sn_id u) (sn_name u) (sn_detail u)) (res_users d)"

subsection \<open>The palette\<close>

datatype Nav = NavTo string | NavServer string | NavWorkspace string | Monitoring string

record PaletteState =
  paletteOpen :: bool
  p_query :: string
  debouncedQuery :: string
  selectedIndex :: int
  p_recents :: "RecentEntry list"
  p_scope :: "string option"
  p_stored :: "RecentEntry list option"
  p_nav :: "Nav list"
  p_scopes :: "string list"
  p_commands :: "PaletteItem list"

text \<open>
  \<open>p_scopes\<close> and \<open>p_commands\<close> are the two memoised lists. Their dependencies are functions of the store that never
  change, so both are computed once, for the user of the moment the palette is mounted.
\<close>

definition mountPalette :: "AuthState \<Rightarrow> RecentEntry list option \<Rightarrow> PaletteState" where
  "mountPalette st stored = \<lparr>paletteOpen = False, p_query = [], debouncedQuery = [], selectedIndex = 0, p_recents = [],
     p_scope = None, p_stored = stored, p_nav = [], p_scopes = availableScopes st, p_commands = pageCommands st\<rparr>"

definition handleShow :: "PaletteState \<Rightarrow> PaletteState" where
  "handleShow s = s\<lparr>p_query := [], debouncedQuery := [], selectedIndex := 0, p_recents := loadRecents (p_stored s),
     p_scope := None, paletteOpen := True\<rparr>"

definition debounce_fires :: "PaletteState \<Rightarrow> PaletteState" where
  "debounce_fires s = s\<lparr>debouncedQuery := p_query s\<rparr>"

definition isSlashMode :: "PaletteState \<Rightarrow> bool" where
  "isSlashMode s = (p_scope s = None \<and> js_startsWith (p_query s) ''/'')"

definition canSearch :: "PaletteState \<Rightarrow> bool" where
  "canSearch s = (\<not> isSlashMode s \<and> 2 \<le> length (js_trim (p_query s)))"

definition palette_search :: "PaletteState \<Rightarrow> Query" where
  "palette_search s = useSearch (if isSlashMode s then [] else js_trim (debouncedQuery s)) (p_scope s)"

definition searching :: "PaletteState \<Rightarrow> bool \<Rightarrow> bool" where
  "searching s isFetching = (canSearch s \<and> (isFetching \<or> js_trim (debouncedQuery s) \<noteq> js_trim (p_query s)))"

definition recent_item :: "RecentEntry \<Rightarrow> PaletteItem" where
  "recent_item r = entity_item (r_type r) (r_id r) (r_label r) (r_subtitle r)"

definition scope_item :: "string \<Rightarrow> PaletteItem" where
  "scope_item name = \<lparr>it_type = ScopeItem, it_id = name, it_label = ''Search '' @ name, it_subtitle = None,
     it_to = None, it_keywords = None, it_action = None\<rparr>"

definition nonempty_section :: "string \<Rightarrow> PaletteItem list \<Rightarrow> Section list" where
  "nonempty_section title items = (if items \<noteq> [] then [(title, items)] else [])"

definition sections :: "(js_num option \<Rightarrow> string) \<Rightarrow> SearchResults option \<Rightarrow> PaletteState \<Rightarrow> Section list" where
  "sections size_text data s =
    (if isSlashMode s then
       (let f = js_toLowerCase (drop 1 (p_query s))
        in nonempty_section ''Scopes'' (map scope_item (filter (\<lambda>name. js_contains name f) (p_scopes s))))
     else
       let f = js_toLowerCase (js_trim (p_query s)); commands = filter (\<lambda>c. matchesCommand c f) (p_commands s)
       in if \<not> canSearch s then nonempty_section ''Recent'' (map recent_item (p_recents s)) @ nonempty_section ''Go to'' commands
          else nonempty_section ''Pages'' commands @ (case data of None \<Rightarrow> [] | Some d \<Rightarrow> result_sections size_text d))"

definition flatItems :: "Section list \<Rightarrow> PaletteItem list" where
  "flatItems secs = concat (map snd secs)"

definition activeIndex :: "PaletteItem list \<Rightarrow> PaletteState \<Rightarrow> int" where
  "activeIndex items s = (if items = [] then -1 else min (selectedIndex s) (int (length items) - 1))"

text \<open>The rows with their indices; the counter runs on from section to section.\<close>

fun indexedSections :: "nat \<Rightarrow> Section list \<Rightarrow> (string \<times> (nat \<times> PaletteItem) list) list" where
  "indexedSections k [] = []"
| "indexedSections k ((title, items) # secs) =
    (title, zip [k..<k + length items] items) # indexedSections (k + length items) secs"

definition handleOpenChange :: "bool \<Rightarrow> PaletteState \<Rightarrow> PaletteState" where
  "handleOpenChange v s = (if v then s else s\<lparr>p_scope := None\<rparr>)\<lparr>paletteOpen := v\<rparr>"

definition clearScope :: "PaletteState \<Rightarrow> PaletteState" where
  "clearScope s = s\<lparr>p_scope := None\<rparr>"

definition handleQueryChange :: "string \<Rightarrow> PaletteState \<Rightarrow> PaletteState" where
  "handleQueryChange v s =
    (case (p_scope s, parseScopePrefix v) of
       (None, Some (scope, r)) \<Rightarrow> s\<lparr>p_scope := Some scope, p_query := r, selectedIndex := 0\<rparr>
     | _ \<Rightarrow> s\<lparr>p_query := v, selectedIndex := 0\<rparr>)"

definition item_nav :: "PaletteItem \<Rightarrow> Nav list" where
  "item_nav item =
    (case it_type item of
       Entity EServer \<Rightarrow> [NavServer (it_id item)]
     | Entity EWorkspace \<Rightarrow> [NavWorkspace (it_id item)]
     | Entity EVolume \<Rightarrow> [NavTo ''/volumes'']
     | Entity EEnvironment \<Rightarrow> [NavTo ''/environments'']
     | Entity EUser \<Rightarrow> [NavTo ''/admin/users'']
     | PageItem \<Rightarrow>
         (case it_action item of
            Some a \<Rightarrow> [Monitoring a]
          | None \<Rightarrow> (case it_to item of Some path \<Rightarrow> if path \<noteq> [] then [NavTo path] else [] | None \<Rightarrow> []))
     | ScopeItem \<Rightarrow> [])"

definition openItem :: "bool \<Rightarrow> PaletteItem \<Rightarrow> PaletteState \<Rightarrow> PaletteState" where
  "openItem writable item s =
    (if it_type item = ScopeItem
     then s\<lparr>p_scope := Some (it_id item), p_query := [], debouncedQuery := [], selectedIndex := 0\<rparr>
     else
       let s1 = s\<lparr>p_nav := p_nav s @ item_nav item\<rparr>;
           s2 = (case it_type item of
                   Entity ty \<Rightarrow>
                     (let st = pushRecent writable
                        \<lparr>r_type = ty, r_id = it_id item, r_label = it_label item, r_subtitle = it_subtitle item\<rparr> (p_stored s1)
                      in s1\<lparr>p_stored := st, p_recents := loadRecents st\<rparr>)
                 | _ \<Rightarrow> s1)
       in s2\<lparr>p_query := [], debouncedQuery := [], p_scope := None, paletteOpen := False\<rparr>)"

text \<open>The remainder of JavaScript has the sign of the dividend.\<close>

definition js_mod :: "int \<Rightarrow> int \<Rightarrow> int" where
  "js_mod a n = sgn a * (\<bar>a\<bar> mod \<bar>n\<bar>)"

definition palette_key :: "bool \<Rightarrow> PaletteItem list \<Rightarrow> string \<Rightarrow> PaletteState \<Rightarrow> PaletteState" where
  "palette_key writable items key s =
    (let len = int (length items)
     in if key = ''ArrowDown'' then (if items \<noteq> [] then s\<lparr>selectedIndex := js_mod (selectedIndex s + 1) len\<rparr> else s)
        else if key = ''ArrowUp'' then (if items \<noteq> [] then s\<lparr>selectedIndex := js_mod (selectedIndex s - 1 + len) len\<rparr> else s)
        else if key = ''Enter'' then (if 0 \<le> activeIndex items s then openItem writable (items ! nat (activeIndex items s)) s else s)
        else if key = ''Escape'' then handleOpenChange False s
        else if key = ''Backspace'' then (if p_scope s \<noteq> None \<and> p_query s = [] then s\<lparr>p_scope := None\<rparr> else s)
        else s)"

text \<open>
  \<^verbatim>\<open>openMonitoringTool\<close>: the location to go to when the refresh fails, or the address opened in a new tab.
  \<open>monitoring\<close> and \<open>api_url\<close> are the two build-time settings.
\<close>

definition strip_slash :: "string \<Rightarrow> string" where
  "strip_slash s = (if js_endsWith s ''/'' then butlast s else s)"

definition openMonitoringTool :: "bool \<Rightarrow> string option \<Rightarrow> string option \<Rightarrow> string option \<Rightarrow> string \<Rightarrow> string + string" where
  "openMonitoringTool refreshed monitoring api_url token redirect =
    (if \<not> refreshed then Inl ''/login''
     else let or_else = (\<lambda>x d. case x of Some v \<Rightarrow> if v \<noteq> [] then v else d | None \<Rightarrow> d);
              base = or_else monitoring (or_else api_url ''/api'')
          in Inr (strip_slash base @ ''/auth/monitoring?redirect='' @ encodeURIComponent redirect @ ''&token='' @
               encodeURIComponent (case token of Some t \<Rightarrow> t | None \<Rightarrow> [])))"

subsection \<open>The sidebar\<close>

record NavItem =
  nav_label :: string
  nav_href :: string
  requiredPermission :: "string option"

type_synonym NavGroup = "string \<times> NavItem list"

definition navGroups :: "NavGroup list" where
  "navGroups =
    [(''Platform'',
       [\<lparr>nav_label = ''Dashboard'', nav_href = ''/'', requiredPermission = None\<rparr>,
        \<lparr>nav_label = ''Servers'', nav_href = ''/servers'', requiredPermission = None\<rparr>,
        \<lparr>nav_label = ''Usage'', nav_href = ''/usage'', requiredPermission = None\<rparr>,
        \<lparr>nav_label = ''Activity'', nav_href = ''/activity'', requiredPermission = None\<rparr>]),
     (''Resources'',
       [\<lparr>nav_label = ''Environments'', nav_href = ''/environments'', requiredPermission = Some ENVIRONMENT_READ\<rparr>,
        \<lparr>nav_label = ''Volumes'', nav_href = ''/volumes'', requiredPermission = None\<rparr>,
        \<lparr>nav_label = ''Workspaces'', nav_href = ''/workspaces'', requiredPermission = None\<rparr>,
        \<lparr>nav_label = ''Plans'', nav_href = ''/plans'', requiredPermission = Some PLAN_READ\<rparr>]),
     (''System'',
       [\<lparr>nav_label = ''Settings'', nav_href = ''/settings'', requiredPermission = None\<rparr>,
        \<lparr>nav_label = ''Administration'', nav_href = ''/admin'', requiredPermission = None\<rparr>,
        \<lparr>nav_label = ''Support'', nav_href = ''/support'', requiredPermission = None\<rparr>])]"

definition dockItems :: "NavItem list" where
  "dockItems = [\<lparr>nav_label = ''Dashboard'', nav_href = ''/'', requiredPermission = None\<rparr>,
     \<lparr>nav_label = ''Servers'', nav_href = ''/servers'', requiredPermission = None\<rparr>]"

definition canAccessItem :: "AuthState \<Rightarrow> NavItem \<Rightarrow> bool" where
  "canAccessItem st item =
    (case requiredPermission item of
       Some (c # cs) \<Rightarrow> hasPermission st (c # cs)
     | _ \<Rightarrow> if nav_href item = ''/admin'' then canAccessAdmin st else True)"

definition visibleNavGroups :: "AuthState \<Rightarrow> NavGroup list" where
  "visibleNavGroups st =
    filter (\<lambda>g. snd g \<noteq> []) (map (\<lambda>(label, items). (label, filter (canAccessItem st) items)) navGroups)"

definition visibleDockItems :: "AuthState \<Rightarrow> NavItem list" where
  "visibleDockItems st = filter (canAccessItem st) dockItems"

definition nav_isActive :: "string \<Rightarrow> string \<Rightarrow> bool" where
  "nav_isActive path href = (if href = ''/'' then path = ''/'' else js_startsWith path href)"

subsection \<open>Commands and the guards of the pages\<close>

definition one_guard :: "string \<Rightarrow> string \<Rightarrow> PageGuardOptions" where
  "one_guard p target = \<lparr>g_permission = Some p, g_permissions = None, g_requireAll = False, g_redirectTo = target\<rparr>"

definition any_guard :: "string list \<Rightarrow> PageGuardOptions" where
  "any_guard ps = \<lparr>g_permission = None, g_permissions = Some ps, g_requireAll = False, g_redirectTo = ''/''\<rparr>"

text \<open>The guard each route below \<open>/admin\<close> puts in front of its page, one file each.\<close>

definition usersGuard :: PageGuardOptions where
  "usersGuard = one_guard USERS_READ ''/''"

definition serversGuard :: PageGuardOptions where
  "serversGuard = one_guard SERVERS_READ_ALL ''/servers''"

definition healthGuard :: PageGuardOptions where
  "healthGuard = one_guard ADMIN_ACCESS ''/admin''"

definition analyticsGuard :: PageGuardOptions where
  "analyticsGuard = one_guard ANALYTICS_READ ''/''"

definition auditGuard :: PageGuardOptions where
  "auditGuard = one_guard AUDIT_READ ''/''"

definition creditsGuard :: PageGuardOptions where
  "creditsGuard = one_guard CREDITS_READ_ALL ''/''"

definition environmentsGuard :: PageGuardOptions where
  "environmentsGuard = any_guard [ENVIRONMENT_CREATE, ENVIRONMENT_UPDATE, ENVIRONMENT_DELETE]"

definition plansGuard :: PageGuardOptions where
  "plansGuard = any_guard [PLAN_CREATE, PLAN_UPDATE, PLAN_DELETE]"

definition quotasGuard :: PageGuardOptions where
  "quotasGuard = one_guard QUOTA_READ ''/''"

definition workspacesGuard :: PageGuardOptions where
  "workspacesGuard = one_guard ADMIN_ACCESS ''/''"

definition volumesGuard :: PageGuardOptions where
  "volumesGuard = one_guard ADMIN_ACCESS ''/''"

definition permissionsGuard :: PageGuardOptions where
  "permissionsGuard = one_guard ADMIN_ACCESS ''/''"

definition restrictionsGuard :: PageGuardOptions where
  "restrictionsGuard = one_guard ADMIN_ACCESS ''/''"

definition windowsGuard :: PageGuardOptions where
  "windowsGuard = one_guard ADMIN_ACCESS ''/''"

definition settingsGuard :: PageGuardOptions where
  "settingsGuard = one_guard ADMIN_ACCESS ''/''"

text \<open>All of them, under the paths of their pages.\<close>

definition ADMIN_GUARDS :: "(string \<times> PageGuardOptions) list" where
  "ADMIN_GUARDS =
    [(''/admin/users'', usersGuard),
     (''/admin/servers'', serversGuard),
     (''/admin/health'', healthGuard),
     (''/admin/analytics'', analyticsGuard),
     (''/admin/audit-logs'', auditGuard),
     (''/admin/credits'', creditsGuard),
     (''/admin/environments'', environmentsGuard),
     (''/admin/plans'', plansGuard),
     (''/admin/quotas'', quotasGuard),
     (''/admin/workspaces'', workspacesGuard),
     (''/admin/volumes'', volumesGuard),
     (''/admin/permissions'', permissionsGuard),
     (''/admin/ip-restrictions'', restrictionsGuard),
     (''/admin/maintenance-windows'', windowsGuard),
     (''/admin/settings'', settingsGuard)]"

lemmas admin_guards = ADMIN_GUARDS_def usersGuard_def serversGuard_def healthGuard_def analyticsGuard_def auditGuard_def creditsGuard_def
  environmentsGuard_def plansGuard_def quotasGuard_def workspacesGuard_def volumesGuard_def
  permissionsGuard_def restrictionsGuard_def windowsGuard_def settingsGuard_def

text \<open>The pages a list of commands leads to, and those the palette offers.\<close>

definition paths :: "PaletteItem list \<Rightarrow> string list" where
  "paths items = map the (filter (\<lambda>x. x \<noteq> None) (map it_to items))"

definition offered :: "AuthState \<Rightarrow> string list" where
  "offered st = paths (pageCommands st)"

lemma guard_allowed [simp]:
  "p \<noteq> [] \<Longrightarrow> guardAllowed st (one_guard p t) = hasPermission st p"
  "ps \<noteq> [] \<Longrightarrow> guardAllowed st (any_guard ps) = hasAnyPermission st ps"
  by (auto simp: guardAllowed_def one_guard_def any_guard_def split: list.splits)

lemma paths_append: "paths (xs @ ys) = paths xs @ paths ys"
  by (simp add: paths_def)

lemma paths_admin: "paths (adminPage n path ks b) = (if b then [path] else [])"
  by (simp add: adminPage_def page_cmd_def paths_def)

lemma paths_page:
  "paths (page_cmd l path ks # items) = path # paths items"
  "paths (if b then [page_cmd l path ks] else []) = (if b then [path] else [])"
  "paths (if b then [grafana_cmd] else []) = []" "paths [] = []"
  by (simp_all add: page_cmd_def grafana_cmd_def paths_def)

lemmas paths_simps = paths_append paths_admin paths_page

definition admin_pages :: "AuthState \<Rightarrow> string list" where
  "admin_pages st = concat (map (\<lambda>(p, g). if guardAllowed st g then [p] else []) ADMIN_GUARDS)"

lemma offered_list:
  "offered st =
    [''/'', ''/servers'', ''/usage'', ''/activity''] @ (if hasPermission st ENVIRONMENT_READ then [''/environments''] else []) @
    [''/volumes'', ''/workspaces''] @ (if hasPermission st PLAN_READ then [''/plans''] else []) @
    [''/settings'', ''/settings/profile'', ''/settings/appearance'', ''/settings/notifications'', ''/settings/servers'',
     ''/settings/tokens'', ''/settings/credits''] @
    (if canAccessAdmin st then [''/admin''] else []) @ admin_pages st @ [''/support'']"
  unfolding offered_def pageCommands_def paths_simps admin_pages_def admin_guards list.map prod.case concat.simps
  by (simp only: guard_allowed list.distinct not_False_eq_True append_assoc append_Nil append_Cons append_Nil2)

lemma admin_pages_filter: "admin_pages st = map fst (filter (\<lambda>(p, g). guardAllowed st g) ADMIN_GUARDS)"
proof -
  have "concat (map (\<lambda>(p, g). if f g then [p] else []) xs) = map fst (filter (\<lambda>(p, g). f g) xs)" for f :: "'g \<Rightarrow> bool" and xs
    by (induction xs) auto
  then show ?thesis by (simp add: admin_pages_def)
qed

lemma filter_conditional: "filter P (if b then xs else []) = (if b then filter P xs else [])"
  by simp

lemma palette_guards:
  "filter (\<lambda>p. p \<in> set (map fst ADMIN_GUARDS)) (offered st) = map fst (filter (\<lambda>(p, g). guardAllowed st g) ADMIN_GUARDS)"
proof -
  let ?f = "filter (\<lambda>p. p \<in> set (map fst ADMIN_GUARDS))"
  have "?f (admin_pages st) = admin_pages st" by (auto simp: admin_pages_filter filter_id_conv)
  moreover have "?f [''/'', ''/servers'', ''/usage'', ''/activity''] = []" "?f [''/environments''] = []"
    "?f [''/volumes'', ''/workspaces''] = []" "?f [''/plans''] = []" "?f [''/admin''] = []" "?f [''/support''] = []"
    "?f [''/settings'', ''/settings/profile'', ''/settings/appearance'', ''/settings/notifications'', ''/settings/servers'',
      ''/settings/tokens'', ''/settings/credits''] = []"
    by code_simp+
  ultimately show ?thesis
    unfolding offered_list filter_append filter_conditional by (simp only: if_cancel append_Nil append_Nil2 admin_pages_filter)
qed

lemma admin_layout_covers:
  assumes "(p, g) \<in> set ADMIN_GUARDS" and "guardAllowed st g" and "p \<noteq> ''/admin/credits''"
  shows "canAccessAdmin st"
proof -
  have "g \<in> set (map snd (filter (\<lambda>(q, g). q \<noteq> ''/admin/credits'') ADMIN_GUARDS))" using assms(1,3) by force
  then have "g \<in> set [one_guard USERS_READ ''/'', one_guard SERVERS_READ_ALL ''/servers'', one_guard ADMIN_ACCESS ''/admin'',
      one_guard ANALYTICS_READ ''/'', one_guard AUDIT_READ ''/'',
      any_guard [ENVIRONMENT_CREATE, ENVIRONMENT_UPDATE, ENVIRONMENT_DELETE], any_guard [PLAN_CREATE, PLAN_UPDATE, PLAN_DELETE],
      one_guard QUOTA_READ ''/'', one_guard ADMIN_ACCESS ''/'']"
    by (auto simp: admin_guards)
  with assms(2) show ?thesis
    unfolding list.set insert_iff empty_iff
    by (elim disjE FalseE) (simp_all add: canAccessAdmin_def any_client, blast+)
qed

text \<open>
  The layout around the admin pages has a list of its own. For a palette mounted with the same user it lets in everyone to whom the palette offers
  an admin page, except that someone whose only administrative permission is to read all credits is
  offered the credits page and sent away by the layout.
\<close>
theorem offered_admin_page_opens:
  assumes "p \<in> set (offered st)" and "p \<in> set (map fst ADMIN_GUARDS)" and "p \<noteq> ''/admin/credits''"
  shows "fst (AdminLayout st)"
proof -
  have "p \<in> set (filter (\<lambda>p. p \<in> set (map fst ADMIN_GUARDS)) (offered st))" using assms(1,2) by simp
  then obtain g where "(p, g) \<in> set ADMIN_GUARDS" "guardAllowed st g" unfolding palette_guards by auto
  then show ?thesis using admin_layout_covers assms(3) by (simp add: AdminLayout_def)
qed

theorem offered_admin_page_opens_witness:
  "fst (AdminLayout \<lparr>user = Some (demo_user ''guest'' (Some [AUDIT_READ]))\<rparr>)"
proof -
  have "''/admin/audit-logs'' \<in> set (offered \<lparr>user = Some (demo_user ''guest'' (Some [AUDIT_READ]))\<rparr>)"
    "''/admin/audit-logs'' \<in> set (map fst ADMIN_GUARDS)" by code_simp+
  then show ?thesis by (rule offered_admin_page_opens) simp
qed

text \<open>Someone who may only read all credits is offered a page that the layout does not let them open.\<close>
theorem credits_reader_sent_away:
  "let st = \<lparr>user = Some (demo_user ''guest'' (Some [CREDITS_READ_ALL]))\<rparr>
   in ''/admin/credits'' \<in> set (offered st) \<and> guardAllowed st (one_guard CREDITS_READ_ALL ''/'') \<and>
      AdminLayout st = (False, Some ''/'')"
  by code_simp

subsection \<open>The sidebar and the palette\<close>

definition nav_paths :: "AuthState \<Rightarrow> string list" where
  "nav_paths st = map nav_href (concat (map snd (visibleNavGroups st)))"

lemma nav_paths_filter: "nav_paths st = map nav_href (filter (canAccessItem st) (concat (map snd navGroups)))"
proof -
  have "concat (map snd (filter (\<lambda>g. snd g \<noteq> []) gs)) = concat (map snd gs)" for gs :: "NavGroup list"
    by (induction gs) auto
  moreover have "concat (map snd (map (\<lambda>(l, items). (l, filter P items)) gs)) = filter P (concat (map snd gs))"
    for gs :: "NavGroup list" and P
    by (induction gs) auto
  ultimately show ?thesis by (simp add: nav_paths_def visibleNavGroups_def)
qed

text \<open>The entries of the sidebar are the commands of a palette mounted for the same user, for the same pages.\<close>
theorem sidebar_matches_palette:
  "nav_paths st = filter (\<lambda>p. p \<in> set (map nav_href (concat (map snd navGroups)))) (offered st)"
proof -
  let ?f = "filter (\<lambda>p. p \<in> set (map nav_href (concat (map snd navGroups))))"
  have n: "set (map nav_href (concat (map snd navGroups))) \<inter> set (map fst ADMIN_GUARDS) = {}" by code_simp
  have "set (admin_pages st) \<subseteq> set (map fst ADMIN_GUARDS)" by (auto simp: admin_pages_filter)
  then have "?f (admin_pages st) = []" using n unfolding filter_empty_conv by blast
  moreover have "?f [''/'', ''/servers'', ''/usage'', ''/activity''] = [''/'', ''/servers'', ''/usage'', ''/activity'']"
    "?f [''/environments''] = [''/environments'']" "?f [''/volumes'', ''/workspaces''] = [''/volumes'', ''/workspaces'']"
    "?f [''/plans''] = [''/plans'']" "?f [''/admin''] = [''/admin'']" "?f [''/support''] = [''/support'']"
    "?f [''/settings'', ''/settings/profile'', ''/settings/appearance'', ''/settings/notifications'', ''/settings/servers'',
      ''/settings/tokens'', ''/settings/credits''] = [''/settings'']"
    by code_simp+
  moreover have "nav_paths st =
    [''/'', ''/servers'', ''/usage'', ''/activity''] @ (if hasPermission st ENVIRONMENT_READ then [''/environments''] else []) @
    [''/volumes'', ''/workspaces''] @ (if hasPermission st PLAN_READ then [''/plans''] else []) @
    [''/settings''] @ (if canAccessAdmin st then [''/admin''] else []) @ [''/support'']"
    by (simp add: nav_paths_filter navGroups_def canAccessItem_def)
  ultimately show ?thesis
    unfolding offered_list filter_append filter_conditional by (simp only: append_Nil append_Nil2)
qed

subsection \<open>Recent entries\<close>

text \<open>The specification: the entries opened, latest first, each entity once and with its latest label.\<close>

fun latest :: "('a \<Rightarrow> 'k) \<Rightarrow> 'a list \<Rightarrow> 'a list" where
  "latest k [] = []"
| "latest k (x # xs) = x # filter (\<lambda>y. k y \<noteq> k x) (latest k xs)"

lemma set_latest: "set (latest k xs) \<subseteq> set xs"
  by (induction xs) auto

lemma distinct_latest: "distinct (map k (latest k xs))"
proof (induction xs)
  case (Cons x xs)
  then show ?case by (auto simp: distinct_map inj_on_def)
qed simp

lemma take_filter_one:
  assumes "distinct (map k xs)"
  shows "take n (filter (\<lambda>y. k y \<noteq> a) (take (Suc n) xs)) = take n (filter (\<lambda>y. k y \<noteq> a) xs)"
  using assms
proof (induction xs arbitrary: n)
  case (Cons x xs)
  show ?case
  proof (cases "k x = a")
    case True
    have "\<forall>y \<in> set xs. k y \<noteq> a" using Cons.prems True by (auto simp: image_iff)
    moreover have "\<forall>y \<in> set (take n xs). k y \<noteq> a" using calculation by (meson in_set_takeD)
    ultimately show ?thesis using True by (simp add: filter_True)
  next
    case False
    then show ?thesis using Cons by (cases n) simp_all
  qed
qed simp

definition pushes :: "RecentEntry list \<Rightarrow> RecentEntry list option" where
  "pushes es = fold (pushRecent True) es None"

lemma pushes_snoc: "pushes (es @ [e]) = pushRecent True e (pushes es)"
  by (simp add: pushes_def)

text \<open>
  The recent entries are the five entities opened last, the latest first, each once: the cut to five after
  every opening never loses one of them.
\<close>
theorem recents_are_latest: "loadRecents (pushes es) = take 5 (latest recent_key (rev es))"
proof (induction es rule: rev_induct)
  case Nil
  then show ?case by (simp add: pushes_def loadRecents_def)
next
  case (snoc e es)
  let ?l = "latest recent_key (rev es)"
  have "take 4 (filter (\<lambda>y. recent_key y \<noteq> recent_key e) (take 5 ?l)) = take 4 (filter (\<lambda>y. recent_key y \<noteq> recent_key e) ?l)"
    using take_filter_one [where k = recent_key and xs = ?l and n = 4 and a = "recent_key e", OF distinct_latest] by simp
  moreover have "(\<lambda>r. \<not> (r_type r = r_type e \<and> r_id r = r_id e)) = (\<lambda>y. recent_key y \<noteq> recent_key e)"
    by (auto simp: recent_key_def)
  ultimately show ?case
    unfolding pushes_snoc pushRecent_def snoc.IH
    by (simp add: loadRecents_def MAX_RECENTS_def take_Cons')
qed

subsection \<open>Scopes and keys\<close>

lemma scope_letters: "s \<in> set SCOPE_NAMES \<Longrightarrow> list_all is_letter s \<and> s \<noteq> []"
  unfolding SCOPE_NAMES_def by (auto simp: is_letter_def Let_def)

lemma letter_lower: "is_letter (js_lower_char c) = is_letter c"
  by (auto simp: is_letter_def js_lower_char_def Let_def)

lemma word_of_scope:
  assumes "js_toLowerCase w \<in> set SCOPE_NAMES"
  shows "list_all is_letter w" and "w \<noteq> []"
  using scope_letters [OF assms] by (auto simp: js_toLowerCase_def list_all_iff letter_lower)

text \<open>
  A scope, in any case, followed by a colon and any text on one line becomes the scope with the text less
  its leading blanks, and so does a slash before the scope and a blank after it; nothing else ever
  becomes a scope that is not one of the five.
\<close>
theorem scope_prefix_recognised:
  assumes "js_toLowerCase w \<in> set SCOPE_NAMES" and "one_line r"
  shows "parseScopePrefix (w @ '':'' @ r) = Some (js_toLowerCase w, js_trimStart r) \<and>
    parseScopePrefix (''/'' @ w @ '' '' @ r) = Some (js_toLowerCase w, js_trimStart r) \<and>
    parseScopePrefix (''/'' @ w) = Some (js_toLowerCase w, [])"
proof -
  note w = word_of_scope [OF assms(1)]
  have tw: "takeWhile is_letter (w @ c # x) = w" "dropWhile is_letter (w @ c # x) = c # x" if "\<not> is_letter c" for c x
    using w(1) that by (auto simp: takeWhile_append2 dropWhile_append2 list_all_iff)
  have tw0: "takeWhile is_letter w = w" "dropWhile is_letter w = []"
    using w(1) by (auto simp: list_all_iff intro: takeWhile_eq_all_conv [THEN iffD2] dropWhile_eq_Nil_conv [THEN iffD2])
  have nl: "\<not> is_letter CHR '':''" "\<not> is_letter CHR '' ''" "\<not> is_letter CHR ''/''" by (simp_all add: is_letter_def)
  have sp: "js_space CHR '' ''" by code_simp
  have dw: "js_trimStart (js_trimStart x) = js_trimStart x" for x
    by (simp add: js_trimStart_def dropWhile_idem)
  have ol: "one_line (js_trimStart r)"
    using assms(2) by (auto simp: one_line_def js_trimStart_def list_all_iff dest: set_dropWhileD)
  have "slash_match (''/'' @ w @ '' '' @ r) = Some (w, Some (js_trimStart r))"
    using tw [OF nl(2)] w(2) sp ol by (simp add: slash_match_def Let_def js_trimStart_def)
  moreover have "colon_match (''/'' @ x) = None" for x using nl(3) by (simp add: colon_match_def Let_def)
  moreover have "slash_match (''/'' @ w) = Some (w, None)" using w(2) by (simp add: slash_match_def Let_def tw0)
  moreover have "colon_match (w @ '':'' @ r) = Some (w, r)"
    using tw [OF nl(1)] w(2) assms(2) by (simp add: colon_match_def Let_def)
  ultimately show ?thesis
    using assms(1) dw by (simp add: parseScopePrefix_def toSearchScope_def Let_def js_trimStart_def)
qed

theorem scope_prefix_recognised_witness: "parseScopePrefix ''Users:  john'' = Some (''users'', ''john'')"
proof -
  have "js_toLowerCase ''Users'' \<in> set SCOPE_NAMES" "one_line ''  john''" "js_toLowerCase ''Users'' = ''users''"
    "js_trimStart ''  john'' = ''john''" by code_simp+
  then show ?thesis using scope_prefix_recognised [of "''Users''" "''  john''"] by simp
qed

lemma parsed_scope_known: "parseScopePrefix v = Some (scope, r) \<Longrightarrow> scope \<in> set SCOPE_NAMES"
  by (auto simp: parseScopePrefix_def toSearchScope_def Let_def split: option.splits prod.splits if_splits)

text \<open>The rows carry their positions in the flat list the keys work on.\<close>
lemma rows_indexed:
  "concat (map snd (indexedSections k secs)) = zip [k..<k + length (flatItems secs)] (flatItems secs)"
proof (induction k secs rule: indexedSections.induct)
  case (2 k title items secs)
  have "[k..<k + (length items + length (flatItems secs))] =
      [k..<k + length items] @ [k + length items..<k + length items + length (flatItems secs)]"
    using upt_add_eq_append [of k "k + length items" "length (flatItems secs)"] by (simp add: add.assoc)
  with 2 show ?case by (simp add: flatItems_def)
qed (simp add: flatItems_def)

lemma js_mod_nonneg: "0 \<le> a \<Longrightarrow> 0 \<le> n \<Longrightarrow> js_mod a n = a mod n"
  by (cases "a = 0") (simp_all add: js_mod_def sgn_if)

lemma arrow_down:
  "items \<noteq> [] \<Longrightarrow> 0 \<le> selectedIndex s \<Longrightarrow> palette_key w items ''ArrowDown'' s = s\<lparr>selectedIndex := (selectedIndex s + 1) mod int (length items)\<rparr>"
  by (simp add: palette_key_def js_mod_nonneg)

lemma arrow_up:
  "items \<noteq> [] \<Longrightarrow> 0 \<le> selectedIndex s \<Longrightarrow> palette_key w items ''ArrowUp'' s =
    s\<lparr>selectedIndex := (selectedIndex s - 1 + int (length items)) mod int (length items)\<rparr>"
  by (cases items) (simp_all add: palette_key_def js_mod_nonneg)

text \<open>
  While the selection is a row of the list, the arrow keys walk round it: \<open>k\<close> presses go \<open>k\<close> rows on,
  a press the other way undoes the last one, and Enter opens the row where they stop.
\<close>
theorem arrows_walk_round:
  assumes "0 \<le> selectedIndex s" and "selectedIndex s < int (length items)"
  shows "let t = (palette_key w items ''ArrowDown'' ^^ k) s; i = nat ((selectedIndex s + int k) mod int (length items))
    in selectedIndex t = int i \<and> activeIndex items t = int i \<and>
       palette_key w items ''ArrowUp'' (palette_key w items ''ArrowDown'' t) = t \<and>
       palette_key w items ''Enter'' t = openItem w (items ! i) t"
proof -
  let ?n = "int (length items)"
  have ne: "items \<noteq> []" "0 < ?n" using assms by auto
  define t where "t = (palette_key w items ''ArrowDown'' ^^ k) s"
  have t: "selectedIndex t = (selectedIndex s + int k) mod ?n"
    unfolding t_def
  proof (induction k)
    case (Suc k)
    then have "0 \<le> selectedIndex ((palette_key w items ''ArrowDown'' ^^ k) s)" using ne(2) by simp
    with Suc show ?case using arrow_down [OF ne(1)] by (simp add: mod_simps algebra_simps)
  qed (use assms in simp)
  have r: "0 \<le> selectedIndex t" "selectedIndex t < ?n" using t ne(2) by simp_all
  have "((selectedIndex t + 1) mod ?n - 1 + ?n) mod ?n = selectedIndex t"
    using r by (simp add: mod_simps)
  then have u: "palette_key w items ''ArrowUp'' (palette_key w items ''ArrowDown'' t) = t"
    using arrow_down [OF ne(1) r(1)] ne(2)
      arrow_up [OF ne(1), of "t\<lparr>selectedIndex := (selectedIndex t + 1) mod ?n\<rparr>" w] by simp
  have a: "activeIndex items t = selectedIndex t" using r ne(1) by (simp add: activeIndex_def)
  then have "palette_key w items ''Enter'' t = openItem w (items ! nat (selectedIndex t)) t"
    using r by (simp add: palette_key_def)
  then show ?thesis using t u a r unfolding Let_def t_def [symmetric] by simp
qed

theorem arrows_walk_round_witness:
  "activeIndex [grafana_cmd, grafana_cmd, grafana_cmd] ((palette_key True [grafana_cmd, grafana_cmd, grafana_cmd] ''ArrowDown'' ^^ 4)
     \<lparr>paletteOpen = True, p_query = [], debouncedQuery = [], selectedIndex = 1, p_recents = [], p_scope = None, p_stored = None, p_nav = [], p_scopes = [], p_commands = []\<rparr>) = 2"
  using arrows_walk_round [of "\<lparr>paletteOpen = True, p_query = [], debouncedQuery = [], selectedIndex = 1, p_recents = [], p_scope = None,
    p_stored = None, p_nav = [], p_scopes = [], p_commands = []\<rparr>" "[grafana_cmd, grafana_cmd, grafana_cmd]" 4 True]
  by (simp add: Let_def)

text \<open>
  When the list has shrunk below the stored selection, the last row is highlighted but the keys go on
  from the stored one: the arrow down does not go from the last row to the first.
\<close>
lemma stale_selection_jumps:
  assumes "items \<noteq> []" and "selectedIndex s = int (length items)" and "2 \<le> length items"
  shows "activeIndex items s = int (length items) - 1 \<and> selectedIndex (palette_key w items ''ArrowDown'' s) = 1"
  using assms arrow_down [OF assms(1), of s w] by (simp add: activeIndex_def)

subsection \<open>States of the palette\<close>

text \<open>
  What can happen to the palette: it is shown, the debounce timer fires, the input changes, a key is pressed,
  a row is clicked or pointed at, the chip of the scope is removed, the dialog is closed. The rows are those
  of the sections on display, for any answer of the search.
\<close>

inductive palette_step :: "PaletteState \<Rightarrow> PaletteState \<Rightarrow> bool" where
  "palette_step s (handleShow s)"
| "palette_step s (debounce_fires s)"
| "paletteOpen s \<Longrightarrow> palette_step s (handleQueryChange v s)"
| "paletteOpen s \<Longrightarrow> palette_step s (palette_key w (flatItems (sections size_text data s)) k s)"
| "paletteOpen s \<Longrightarrow> item \<in> set (flatItems (sections size_text data s)) \<Longrightarrow> palette_step s (openItem w item s)"
| "paletteOpen s \<Longrightarrow> i < length (flatItems (sections size_text data s)) \<Longrightarrow> palette_step s (s\<lparr>selectedIndex := int i\<rparr>)"
| "paletteOpen s \<Longrightarrow> palette_step s (clearScope s)"
| "palette_step s (handleOpenChange False s)"

definition palette_inv :: "PaletteState \<Rightarrow> bool" where
  "palette_inv s =
    (set_option (p_scope s) \<subseteq> set SCOPE_NAMES \<and> (\<not> paletteOpen s \<longrightarrow> p_scope s = None) \<and> 0 \<le> selectedIndex s \<and>
     length (p_recents s) \<le> MAX_RECENTS \<and> set (p_scopes s) \<subseteq> set SCOPE_NAMES \<and>
     (\<forall>item \<in> set (p_commands s). it_type item = PageItem))"

lemma loadRecents_bound: "length (loadRecents stored) \<le> MAX_RECENTS"
  by (simp add: loadRecents_def split: option.splits)

lemma entity_not_scope: "it_type (entity_item ty i l sub) \<noteq> ScopeItem" "it_type (volume_item f v) \<noteq> ScopeItem"
  by (simp_all add: entity_item_def volume_item_def Let_def)

lemma group_section_items: "item \<in> set (flatItems (group_section t f xs)) \<Longrightarrow> \<exists>x. item = f x"
  by (auto simp: group_section_def flatItems_def split: option.splits list.splits)

lemma flatItems_append: "flatItems (a @ b) = flatItems a @ flatItems b"
  by (simp add: flatItems_def)

lemma flatItems_nonempty: "flatItems (nonempty_section t items) = items"
  by (simp add: nonempty_section_def flatItems_def)

lemma flatItems_Nil: "flatItems [] = []"
  by (simp add: flatItems_def)

lemma result_not_scope: "item \<in> set (flatItems (result_sections f d)) \<Longrightarrow> it_type item \<noteq> ScopeItem"
  unfolding result_sections_def flatItems_append set_append Un_iff
  by (elim disjE) (auto dest!: group_section_items simp: entity_not_scope)

lemma page_not_scope: "item \<in> set (pageCommands st) \<Longrightarrow> it_type item = PageItem"
  unfolding pageCommands_def set_append Un_iff
  by (elim disjE) (auto simp: page_cmd_def grafana_cmd_def adminPage_def split: if_splits)

lemma row_scope:
  assumes "palette_inv s" and "item \<in> set (flatItems (sections f data s))" and "it_type item = ScopeItem"
  shows "it_id item \<in> set SCOPE_NAMES"
proof (cases "isSlashMode s")
  case True
  with assms(1,2) show ?thesis
    by (auto simp: sections_def Let_def flatItems_nonempty scope_item_def palette_inv_def)
next
  case False
  with assms show ?thesis
    by (auto simp: sections_def Let_def flatItems_append flatItems_nonempty flatItems_Nil recent_item_def entity_not_scope
        palette_inv_def dest: result_not_scope split: if_splits option.splits)
qed

lemma openItem_inv:
  assumes "palette_inv s" and "paletteOpen s" and "it_type item = ScopeItem \<longrightarrow> it_id item \<in> set SCOPE_NAMES"
  shows "palette_inv (openItem w item s)"
  using assms loadRecents_bound by (auto simp: palette_inv_def openItem_def Let_def split: ItemType.splits)

lemma palette_inv_updates:
  assumes "palette_inv s"
  shows "0 \<le> i \<Longrightarrow> palette_inv (s\<lparr>selectedIndex := i\<rparr>)" and "palette_inv (s\<lparr>p_scope := None\<rparr>)"
    and "palette_inv (s\<lparr>p_scope := None, paletteOpen := False\<rparr>)"
  using assms by (simp_all add: palette_inv_def)

lemma palette_key_inv:
  assumes "palette_inv s" and "paletteOpen s" and "\<And>item. item \<in> set items \<Longrightarrow> it_type item = ScopeItem \<Longrightarrow> it_id item \<in> set SCOPE_NAMES"
  shows "palette_inv (palette_key w items k s)"
proof -
  have "0 \<le> activeIndex items s \<Longrightarrow> items ! nat (activeIndex items s) \<in> set items"
    by (cases "items = []") (auto simp: activeIndex_def nat_less_iff min_less_iff_disj intro!: nth_mem)
  then have e: "0 \<le> activeIndex items s \<Longrightarrow> palette_inv (openItem w (items ! nat (activeIndex items s)) s)"
    using openItem_inv [OF assms(1,2)] assms(3) by blast
  have m: "0 \<le> js_mod (selectedIndex s + 1) (int (length items))" if "items \<noteq> []"
    using assms(1) that by (simp add: js_mod_nonneg palette_inv_def)
  have u: "0 \<le> js_mod (selectedIndex s - 1 + int (length items)) (int (length items))" if "items \<noteq> []"
    using assms(1) that by (cases items) (simp_all add: js_mod_nonneg palette_inv_def)
  show ?thesis
    unfolding palette_key_def Let_def handleOpenChange_def
    by (simp only: if_False split: if_split) (intro conjI impI; (rule palette_inv_updates [OF assms(1)] e m u assms(1))+)
qed

lemma parsed_scope_inv: "palette_inv s \<Longrightarrow> paletteOpen s \<Longrightarrow> palette_inv (handleQueryChange v s)"
  using parsed_scope_known by (auto simp: palette_inv_def handleQueryChange_def split: option.splits)

lemma palette_step_inv: "palette_step s t \<Longrightarrow> palette_inv s \<Longrightarrow> palette_inv t"
proof (induction rule: palette_step.induct)
  case (4 s w size_text data k)
  then show ?case using palette_key_inv row_scope by blast
next
  case (5 s item size_text data w)
  then show ?case using openItem_inv row_scope by blast
qed (use loadRecents_bound parsed_scope_inv in \<open>auto simp: palette_inv_def handleShow_def debounce_fires_def clearScope_def handleOpenChange_def\<close>)

interpretation palette_sys: transition_system "\<lambda>s. \<exists>st stored. s = mountPalette st stored" palette_step palette_inv
proof
  show "palette_inv s" if "\<exists>st stored. s = mountPalette st stored" for s
    using that page_not_scope by (auto simp: palette_inv_def mountPalette_def availableScopes_def)
  show "palette_inv t" if "palette_inv s" "palette_step s t" for s t
    using that palette_step_inv by blast
qed

text \<open>The memoised commands are never computed again.\<close>

lemma palette_step_commands: "palette_step s t \<Longrightarrow> p_commands t = p_commands s"
  by (induction rule: palette_step.induct)
    (auto simp: handleShow_def debounce_fires_def handleQueryChange_def palette_key_def openItem_def clearScope_def
      handleOpenChange_def Let_def split: option.split prod.split ItemType.split)

lemma palette_run_commands: "palette_step\<^sup>*\<^sup>* s t \<Longrightarrow> p_commands t = p_commands s"
  by (induction rule: rtranclp_induct) (simp_all add: palette_step_commands)

lemma opened_rows:
  "paths (flatItems (sections size_text data (handleShow s))) = paths (p_commands s)"
proof -
  have r: "paths (map recent_item rs) = []" for rs
    by (induction rs) (simp_all add: paths_def recent_item_def entity_item_def)
  have all: "filter (\<lambda>c. matchesCommand c []) cs = cs" for cs
    by (simp add: matchesCommand_def js_contains_def filter_id_conv)
  have q: "js_trim [] = []" "js_toLowerCase [] = []" "\<not> js_startsWith [] ''/''" by code_simp+
  show ?thesis
    by (simp add: sections_def handleShow_def isSlashMode_def canSearch_def q all flatItems_append flatItems_nonempty paths_append r Let_def)
qed

text \<open>
  C15. However it was used since it was mounted, when the palette is opened it offers the pages below \<open>/admin\<close> exactly as
  their own guards would have let in the user of the moment it was mounted: each page once, and no other.
\<close>
theorem palette_mirrors_guards:
  assumes "palette_step\<^sup>*\<^sup>* (mountPalette st stored) s"
  shows "filter (\<lambda>p. p \<in> set (map fst ADMIN_GUARDS)) (paths (flatItems (sections size_text data (handleShow s)))) =
    map fst (filter (\<lambda>(p, g). guardAllowed st g) ADMIN_GUARDS)"
  using palette_guards [of st] palette_run_commands [OF assms]
  unfolding opened_rows by (simp add: offered_def mountPalette_def)

text \<open>Mounted before the user was known, as on the way from the login page, it offers none of them later either.\<close>

theorem palette_mirrors_guards_witness:
  "filter (\<lambda>p. p \<in> set (map fst ADMIN_GUARDS))
     (paths (flatItems (sections (\<lambda>_. []) None (handleShow (debounce_fires (mountPalette initialAuth None)))))) = [] \<and>
   guardAllowed \<lparr>user = Some (demo_user ''admin'' (Some [USERS_READ]))\<rparr> usersGuard"
proof -
  have "palette_step\<^sup>*\<^sup>* (mountPalette initialAuth None) (debounce_fires (mountPalette initialAuth None))"
    by (rule r_into_rtranclp) (rule palette_step.intros(2))
  from palette_mirrors_guards [OF this, of "\<lambda>_. []" None]
  have "filter (\<lambda>p. p \<in> set (map fst ADMIN_GUARDS))
     (paths (flatItems (sections (\<lambda>_. []) None (handleShow (debounce_fires (mountPalette initialAuth None)))))) =
     map fst (filter (\<lambda>(p, g). guardAllowed initialAuth g) ADMIN_GUARDS)" .
  moreover have "map fst (filter (\<lambda>(p, g). guardAllowed initialAuth g) ADMIN_GUARDS) = []"
    "guardAllowed \<lparr>user = Some (demo_user ''admin'' (Some [USERS_READ]))\<rparr> usersGuard" by code_simp+
  ultimately show ?thesis by metis
qed

text \<open>
  C40. Whatever the user types, presses or clicks, the palette's state stays well formed: the scope is one of the
  five or none, and none while the palette is closed, the selection is not negative and there are at most
  five recent entries.
\<close>
theorem palette_well_formed:
  assumes "palette_step\<^sup>*\<^sup>* (mountPalette st stored) s"
  shows "set_option (p_scope s) \<subseteq> set SCOPE_NAMES \<and> (paletteOpen s \<or> p_scope s = None) \<and> 0 \<le> selectedIndex s \<and>
    length (p_recents s) \<le> 5"
proof -
  have "palette_inv s" using palette_sys.reachable_inv [OF _ assms] by blast
  then show ?thesis by (auto simp: palette_inv_def MAX_RECENTS_def)
qed

theorem palette_well_formed_witness:
  "set_option (p_scope (handleQueryChange ''users:'' (handleShow (mountPalette initialAuth None)))) \<subseteq> set SCOPE_NAMES"
proof -
  have "palette_step (mountPalette initialAuth None) (handleShow (mountPalette initialAuth None))" by (rule palette_step.intros(1))
  moreover have "palette_step (handleShow (mountPalette initialAuth None)) (handleQueryChange ''users:'' (handleShow (mountPalette initialAuth None)))"
    by (rule palette_step.intros(3)) (simp add: handleShow_def)
  ultimately have "palette_step\<^sup>*\<^sup>* (mountPalette initialAuth None) (handleQueryChange ''users:'' (handleShow (mountPalette initialAuth None)))"
    by (meson converse_rtranclp_into_rtranclp r_into_rtranclp)
  from palette_well_formed [OF this] show ?thesis by blast
qed

end
