(* ===== verification/Data_Views.thy ===== *)
theory Data_Views
  imports Js_Sort Query_Hooks Iso_Time
begin

text \<open>
  Views of data: the comparison of two states in the audit log (\<^verbatim>\<open>frontend/src/components/audit/audit-log-diff.tsx\<close>),
  the page buttons of tables (\<^verbatim>\<open>components/data/data-table-pagination.tsx\<close>) and the container log viewer
  (\<^verbatim>\<open>components/log-viewer.tsx\<close>). The comparison function of the diff is not a consistent order, so what
  \<^verbatim>\<open>Array.prototype.sort\<close> does with it is a parameter of which only that it permutes is known;
  \<^verbatim>\<open>localeCompare\<close> depends on the locale and is a parameter too.
\<close>

subsection \<open>\<^verbatim>\<open>JSON.stringify\<close>\<close>

definition json_escape :: "char \<Rightarrow> string" where
  "json_escape c =
    (let n = (of_char c :: nat)
     in if n = 34 then [CHR 0x5C, CHR 0x22]
        else if n = 92 then [CHR 0x5C, CHR 0x5C]
        else if n = 8 then [CHR 0x5C, CHR ''b'']
        else if n = 12 then [CHR 0x5C, CHR ''f'']
        else if n = 10 then [CHR 0x5C, CHR ''n'']
        else if n = 13 then [CHR 0x5C, CHR ''r'']
        else if n = 9 then [CHR 0x5C, CHR ''t'']
        else if n < 32 then [CHR 0x5C, CHR ''u'', CHR ''0'', CHR ''0'', if n < 16 then CHR ''0'' else CHR ''1'',
          if n mod 16 < 10 then char_of (48 + n mod 16) else char_of (87 + n mod 16)]
        else [c])"

definition json_quote :: "string \<Rightarrow> string" where
  "json_quote s = [CHR 0x22] @ concat (map json_escape s) @ [CHR 0x22]"

fun json_text :: "json \<Rightarrow> string" where
  "json_text JNull = ''null''"
| "json_text (JBool b) = (if b then ''true'' else ''false'')"
| "json_text (JNum m s) = show_decimal m s"
| "json_text (JStr s) = json_quote s"
| "json_text (JArr xs) = ''['' @ js_join '','' (map json_text xs) @ '']''"
| "json_text (JObj kvs) = ''{'' @ js_join '','' (map (\<lambda>(k, v). json_quote k @ '':'' @ json_text v) kvs) @ ''}''"

text \<open>\<^verbatim>\<open>JSON.stringify(v, null, 2)\<close> at an indentation.\<close>

definition newline :: string where "newline = [CHR 0x0A]"

fun json_pretty :: "string \<Rightarrow> json \<Rightarrow> string" where
  "json_pretty ind (JArr xs) =
    (if xs = [] then ''[]''
     else ''['' @ newline @ js_join ('','' @ newline) (map (\<lambda>x. ind @ ''  '' @ json_pretty (ind @ ''  '') x) xs) @
       newline @ ind @ '']'')"
| "json_pretty ind (JObj kvs) =
    (if kvs = [] then ''{}''
     else ''{'' @ newline @ js_join ('','' @ newline)
       (map (\<lambda>(k, v). ind @ ''  '' @ json_quote k @ '': '' @ json_pretty (ind @ ''  '') v) kvs) @ newline @ ind @ ''}'')"
| "json_pretty ind v = json_text v"

subsection \<open>The diff of an audit entry\<close>

datatype DiffType = Added | Removed | Changed | Unchanged

record DiffItem =
  d_key :: string
  d_before :: "json option"
  d_after :: "json option"
  d_type :: DiffType

text \<open>The states are objects with distinct keys, in the order of \<^verbatim>\<open>Object.keys\<close>; a missing one is empty.\<close>

type_synonym state_obj = "(string \<times> json) list"

definition diff_keys :: "state_obj \<Rightarrow> state_obj \<Rightarrow> string list" where
  "diff_keys before after = map fst before @ filter (\<lambda>k. k \<notin> fst ` set before) (map fst after)"

definition diff_item :: "state_obj \<Rightarrow> state_obj \<Rightarrow> string \<Rightarrow> DiffItem" where
  "diff_item before after k =
    (case (map_of before k, map_of after k) of
       (None, Some v) \<Rightarrow> \<lparr>d_key = k, d_before = None, d_after = Some v, d_type = Added\<rparr>
     | (Some v, None) \<Rightarrow> \<lparr>d_key = k, d_before = Some v, d_after = None, d_type = Removed\<rparr>
     | (b, a) \<Rightarrow> \<lparr>d_key = k, d_before = b, d_after = a,
         d_type = (if map_option json_text b \<noteq> map_option json_text a then Changed else Unchanged)\<rparr>)"

definition diff_cmp :: "(string \<Rightarrow> string \<Rightarrow> int) \<Rightarrow> DiffItem \<Rightarrow> DiffItem \<Rightarrow> int" where
  "diff_cmp localeCompare a b =
    (if d_type a = Changed \<and> d_type b \<noteq> Changed then -1
     else if d_type b = Changed \<and> d_type a \<noteq> Changed then 1
     else if d_type a = Added \<and> d_type b = Removed then -1
     else if d_type a = Removed \<and> d_type b = Added then 1
     else localeCompare (d_key a) (d_key b))"

definition computeDiff ::
  "((DiffItem \<Rightarrow> DiffItem \<Rightarrow> int) \<Rightarrow> DiffItem list \<Rightarrow> DiffItem list) \<Rightarrow> (string \<Rightarrow> string \<Rightarrow> int) \<Rightarrow>
    state_obj \<Rightarrow> state_obj \<Rightarrow> DiffItem list" where
  "computeDiff sort_with localeCompare before after =
    sort_with (diff_cmp localeCompare) (map (diff_item before after) (diff_keys before after))"

definition formatValue :: "json option \<Rightarrow> string" where
  "formatValue v =
    (case v of
       None \<Rightarrow> ''null''
     | Some JNull \<Rightarrow> ''null''
     | Some (JBool b) \<Rightarrow> if b then ''true'' else ''false''
     | Some (JNum m s) \<Rightarrow> show_decimal m s
     | Some (JStr s) \<Rightarrow> if s \<noteq> [] then s else [CHR 0x22, CHR 0x22]
     | Some (JArr xs) \<Rightarrow> ''['' @ show_nat (length xs) @ '' items]''
     | Some (JObj kvs) \<Rightarrow> json_pretty [] (JObj kvs))"

text \<open>Which of the two values a row shows, and whether in two columns.\<close>

definition is_object :: "json option \<Rightarrow> bool" where
  "is_object v = (case v of Some (JArr _) \<Rightarrow> True | Some (JObj _) \<Rightarrow> True | _ \<Rightarrow> False)"

definition isMultiline :: "DiffItem \<Rightarrow> bool" where
  "isMultiline i = (is_object (d_before i) \<or> is_object (d_after i))"

definition AuditLogDiff :: "(state_obj \<Rightarrow> state_obj \<Rightarrow> DiffItem list) \<Rightarrow> state_obj \<Rightarrow> state_obj \<Rightarrow>
    (bool \<times> string option \<times> string option) list option" where
  "AuditLogDiff diff before after =
    (if before = [] \<and> after = [] then None
     else Some (map (\<lambda>i. (isMultiline i,
       if d_type i \<noteq> Added then Some (formatValue (d_before i)) else None,
       if d_type i \<noteq> Removed then Some (formatValue (d_after i)) else None)) (diff before after)))"

text \<open>What the language promises of \<^verbatim>\<open>sort\<close> even for an inconsistent comparison: the result is a permutation.\<close>

definition permutes_items :: "((DiffItem \<Rightarrow> DiffItem \<Rightarrow> int) \<Rightarrow> DiffItem list \<Rightarrow> DiffItem list) \<Rightarrow> bool" where
  "permutes_items sort_with = (\<forall>c xs. mset (sort_with c xs) = mset xs)"

lemma js_sort_permutes: "permutes_items js_sort"
  by (simp add: permutes_items_def mset_js_sort)

lemma diff_item_key: "d_key (diff_item before after k) = k"
  by (simp add: diff_item_def split: option.splits)

text \<open>
  The diff shows every key of either state exactly once, and its type says which of the states have the
  key and, where both do, whether their texts differ.
\<close>
theorem diff_is_complete:
  assumes "permutes_items sort_with" and "distinct (map fst before)" and "distinct (map fst after)"
  shows "let items = computeDiff sort_with loc before after
    in distinct (map d_key items) \<and> set (map d_key items) = dom (map_of before) \<union> dom (map_of after) \<and>
       list_all (\<lambda>i. d_before i = map_of before (d_key i) \<and> d_after i = map_of after (d_key i) \<and>
         (d_type i = Added \<longleftrightarrow> d_before i = None) \<and> (d_type i = Removed \<longleftrightarrow> d_after i = None) \<and>
         (d_type i = Unchanged \<longleftrightarrow> map_option json_text (d_before i) = map_option json_text (d_after i))) items"
proof -
  define base where "base = map (diff_item before after) (diff_keys before after)"
  define items where "items = computeDiff sort_with loc before after"
  have m: "mset items = mset base" using assms(1) by (simp add: items_def base_def computeDiff_def permutes_items_def)
  have keys: "map d_key base = diff_keys before after" by (simp add: base_def diff_item_key o_def)
  have dk: "distinct (diff_keys before after)" using assms(2,3) by (auto simp: diff_keys_def)
  have sk: "set (diff_keys before after) = dom (map_of before) \<union> dom (map_of after)"
    by (auto simp: diff_keys_def dom_map_of_conv_image_fst)
  have "mset (map d_key items) = mset (map d_key base)" using m by simp
  then have "distinct (map d_key items)" "set (map d_key items) = set (diff_keys before after)"
    using dk keys mset_eq_imp_distinct_iff mset_eq_setD by metis+
  moreover have "list_all (\<lambda>i. d_before i = map_of before (d_key i) \<and> d_after i = map_of after (d_key i) \<and>
         (d_type i = Added \<longleftrightarrow> d_before i = None) \<and> (d_type i = Removed \<longleftrightarrow> d_after i = None) \<and>
         (d_type i = Unchanged \<longleftrightarrow> map_option json_text (d_before i) = map_option json_text (d_after i))) base"
    unfolding base_def list_all_iff using sk
    by (auto simp: diff_item_def dom_def split: option.splits)
  then have "list_all (\<lambda>i. d_before i = map_of before (d_key i) \<and> d_after i = map_of after (d_key i) \<and>
         (d_type i = Added \<longleftrightarrow> d_before i = None) \<and> (d_type i = Removed \<longleftrightarrow> d_after i = None) \<and>
         (d_type i = Unchanged \<longleftrightarrow> map_option json_text (d_before i) = map_option json_text (d_after i))) items"
    using mset_eq_setD [OF m] by (simp only: list_all_iff)
  ultimately show ?thesis using sk unfolding Let_def items_def [symmetric] by simp
qed

theorem diff_is_complete_witness:
  "distinct (map d_key (computeDiff js_sort (\<lambda>a b. if a = b then 0 else if js_lt a b then -1 else 1)
    [(''name'', JStr ''a''), (''cpu'', JNum 2 0)] [(''cpu'', JNum 4 0), (''disk'', JNull)]))"
  using diff_is_complete [OF js_sort_permutes, of "[(''name'', JStr ''a''), (''cpu'', JNum 2 0)]"
    "[(''cpu'', JNum 4 0), (''disk'', JNull)]" "\<lambda>a b. if a = b then 0 else if js_lt a b then -1 else 1"]
  by (simp add: Let_def)

text \<open>
  The comparison runs in a circle as soon as something is unchanged: an added key \<open>z\<close> comes before a
  removed key \<open>a\<close>, that before an unchanged key \<open>m\<close>, and that before \<open>z\<close>. The order of the rows is
  then up to the engine.
\<close>
theorem diff_order_circular:
  assumes "loc ''a'' ''m'' < 0" and "loc ''m'' ''z'' < 0"
  shows "let before = [(''a'', JNull), (''m'', JNull)]; after = [(''m'', JNull), (''z'', JNull)]; i = diff_item before after
    in diff_cmp loc (i ''z'') (i ''a'') < 0 \<and> diff_cmp loc (i ''a'') (i ''m'') < 0 \<and> diff_cmp loc (i ''m'') (i ''z'') < 0"
  using assms by (simp add: diff_cmp_def diff_item_def Let_def)

theorem diff_order_circular_witness:
  "diff_cmp (\<lambda>a b. if js_lt a b then -1 else 1) (diff_item [(''a'', JNull), (''m'', JNull)] [(''m'', JNull), (''z'', JNull)] ''z'')
    (diff_item [(''a'', JNull), (''m'', JNull)] [(''m'', JNull), (''z'', JNull)] ''a'') < 0"
  using diff_order_circular [of "\<lambda>a b. if js_lt a b then -1 else 1"] by (simp add: Let_def)

subsection \<open>Pages of a table\<close>

definition startItem :: "int \<Rightarrow> int \<Rightarrow> int" where
  "startItem page limit = (page - 1) * limit + 1"

definition endItem :: "int \<Rightarrow> int \<Rightarrow> int \<Rightarrow> int" where
  "endItem page limit totalCount = min (page * limit) totalCount"

definition limitOptions :: "int list" where
  "limitOptions = [10, 20, 50, 100]"

definition pageNum :: "int \<Rightarrow> int \<Rightarrow> int \<Rightarrow> int" where
  "pageNum page pageCount i =
    (if pageCount \<le> 5 then i + 1
     else if page \<le> 3 then i + 1
     else if pageCount - 2 \<le> page then pageCount - 4 + i
     else page - 2 + i)"

definition page_buttons :: "int \<Rightarrow> int \<Rightarrow> int list" where
  "page_buttons page pageCount = map (pageNum page pageCount) [0..min 5 pageCount - 1]"

text \<open>First, previous, next and last page, where they are enabled.\<close>

definition step_buttons :: "int \<Rightarrow> int \<Rightarrow> int option list" where
  "step_buttons page pageCount =
    [if page \<le> 1 then None else Some 1, if page \<le> 1 then None else Some (page - 1),
     if pageCount \<le> page then None else Some (page + 1), if pageCount \<le> page then None else Some pageCount]"

text \<open>\<^verbatim>\<open>Math.ceil(total / limit) || 1\<close>\<close>

definition page_count :: "int \<Rightarrow> int \<Rightarrow> int" where
  "page_count totalCount limit = (let n = (totalCount + limit - 1) div limit in if n = 0 then 1 else n)"

lemma map_add_upto: "map (\<lambda>i. c + i) [a..b] = [c + a..c + b]" for a b c :: int
proof (induction a b rule: upto.induct)
  case (1 i j)
  then show ?case by (cases "i \<le> j") (simp_all add: upto_rec1 [of i j] upto_rec1 [of "c + i" "c + j"] add.assoc)
qed

text \<open>
  The buttons are consecutive pages of the table, at most five, and as many as there are; the current page
  is among them, and every button leads to a page that exists.
\<close>
theorem page_buttons_window:
  assumes "1 \<le> page" and "page \<le> pageCount"
  shows "\<exists>first. page_buttons page pageCount = [first..first + min 5 pageCount - 1] \<and> 1 \<le> first \<and>
      first + min 5 pageCount - 1 \<le> pageCount \<and> page \<in> set (page_buttons page pageCount) \<and>
      (\<forall>p. Some p \<in> set (step_buttons page pageCount) \<longrightarrow> 1 \<le> p \<and> p \<le> pageCount)"
proof -
  define first where "first = pageNum page pageCount 0"
  have "pageNum page pageCount = (\<lambda>i. first + i)" by (auto simp: pageNum_def first_def fun_eq_iff)
  then have b: "page_buttons page pageCount = [first..first + min 5 pageCount - 1]"
    using map_add_upto [of first 0 "min 5 pageCount - 1"] by (simp add: page_buttons_def algebra_simps)
  moreover have "1 \<le> first" "first + min 5 pageCount - 1 \<le> pageCount" "first \<le> page" "page \<le> first + min 5 pageCount - 1"
    using assms by (auto simp: first_def pageNum_def min_def)
  moreover have "\<forall>p. Some p \<in> set (step_buttons page pageCount) \<longrightarrow> 1 \<le> p \<and> p \<le> pageCount"
    using assms by (auto simp: step_buttons_def)
  ultimately show ?thesis by auto
qed

theorem page_buttons_window_witness: "5 \<in> set (page_buttons 5 9)"
  using page_buttons_window [of 5 9] by auto

lemma upto_join: "0 \<le> a \<Longrightarrow> a \<le> b \<Longrightarrow> [1..a] @ [a + 1..b] = [1..b]" for a b :: int
  using upto_split1 [of 1 "a + 1" b] by (cases "a = b") simp_all

lemma pages_prefix:
  assumes "0 < limit" and "0 \<le> totalCount"
  shows "concat (map (\<lambda>p. [startItem p limit..endItem p limit totalCount]) [1..int k]) = [1..min (int k * limit) totalCount]"
proof (induction k)
  case 0
  then show ?case using assms by simp
next
  case (Suc k)
  have "[1..int (Suc k)] = [1..int k] @ [int k + 1]" by (simp add: upto_rec2)
  then have "concat (map (\<lambda>p. [startItem p limit..endItem p limit totalCount]) [1..int (Suc k)]) =
      [1..min (int k * limit) totalCount] @ [int k * limit + 1..min ((int k + 1) * limit) totalCount]"
    using Suc by (simp add: startItem_def endItem_def)
  also have "\<dots> = [1..min (int (Suc k) * limit) totalCount]"
  proof (cases "int k * limit \<le> totalCount")
    case True
    moreover have "0 \<le> int k * limit" "int k * limit \<le> (int k + 1) * limit" using assms(1) by (simp_all add: algebra_simps)
    ultimately show ?thesis using upto_join [of "int k * limit" "min ((int k + 1) * limit) totalCount"] by (simp add: add.commute)
  next
    case False
    then have "totalCount \<le> (int k + 1) * limit" using assms(1) by (simp add: algebra_simps)
    with False show ?thesis by (simp add: add.commute)
  qed
  finally show ?case .
qed

text \<open>
  The ranges shown for the pages are the results without gaps or repetitions. For an empty table the single
  page claims to show the results from 1 to 0.
\<close>
theorem pages_partition_results:
  assumes "0 < limit" and "0 \<le> totalCount"
  shows "concat (map (\<lambda>p. [startItem p limit..endItem p limit totalCount]) [1..page_count totalCount limit]) = [1..totalCount] \<and>
    startItem 1 limit = 1 \<and> endItem 1 limit 0 = 0"
proof -
  have n: "0 \<le> page_count totalCount limit" "totalCount \<le> page_count totalCount limit * limit"
  proof -
    let ?n = "(totalCount + limit - 1) div limit"
    have "totalCount + limit - 1 < limit * ?n + limit" by (rule div_bounds(2) [OF assms(1)])
    then have b: "totalCount \<le> ?n * limit" by (simp add: mult.commute)
    moreover have "0 \<le> ?n" using assms by (simp add: pos_imp_zdiv_nonneg_iff)
    ultimately show "0 \<le> page_count totalCount limit" "totalCount \<le> page_count totalCount limit * limit"
      using assms(1) by (auto simp: page_count_def Let_def)
  qed
  then have "min (page_count totalCount limit * limit) totalCount = totalCount" by simp
  then show ?thesis
    using pages_prefix [OF assms, of "nat (page_count totalCount limit)"] n assms
    by (simp add: startItem_def endItem_def)
qed

theorem pages_partition_results_witness:
  "concat (map (\<lambda>p. [startItem p 10..endItem p 10 25]) [1..page_count 25 10]) = [1..25]"
  using pages_partition_results [of 10 25] by simp

subsection \<open>The log viewer\<close>

datatype LogLevel = LInfo | LWarn | LError | LDebug | LUnknown

record LogEntry =
  raw :: string
  timestamp :: "string option"
  log_message :: string
  level :: LogLevel

definition parseLogLevel :: "string \<Rightarrow> LogLevel" where
  "parseLogLevel line =
    (let lower = js_toLowerCase line
     in if js_contains lower ''error'' \<or> js_contains lower ''fatal'' \<or> js_contains lower ''panic'' then LError
        else if js_contains lower ''warn'' \<or> js_contains lower ''warning'' then LWarn
        else if js_contains lower ''debug'' then LDebug
        else if js_contains lower ''info'' \<or> js_contains lower ''trace'' then LInfo
        else LUnknown)"

text \<open>
  \<^verbatim>\<open>/^(\d{4}-\d{2}-\d{2}T\d{2}:\d{2}:\d{2}[\d.]*(?:[+-]\d{2}:\d{2})?)\s*/\<close>: the first group and the length of the
  match. A \<open>d\<close> of the picture stands for a digit.
\<close>

definition fits :: "string \<Rightarrow> string \<Rightarrow> bool" where
  "fits picture s = list_all2 (\<lambda>p c. if p = CHR ''d'' then is_digit c else c = p) picture s"

definition ts_zone :: "string \<Rightarrow> string" where
  "ts_zone r = (if r \<noteq> [] \<and> (hd r = CHR ''+'' \<or> hd r = CHR ''-'') \<and> fits ''dd:dd'' (take 5 (tl r)) then take 6 r else [])"

definition ts_match :: "string \<Rightarrow> (string \<times> nat) option" where
  "ts_match line =
    (if fits ''dddd-dd-ddTdd:dd:dd'' (take 19 line) then
       (let frac = takeWhile (\<lambda>c. is_digit c \<or> c = CHR ''.'') (drop 19 line);
            r = drop (19 + length frac) line;
            ts = take 19 line @ frac @ ts_zone r
        in Some (ts, length ts + length (takeWhile js_space (drop (length ts) line))))
     else None)"

definition parse_line :: "string \<Rightarrow> LogEntry" where
  "parse_line line =
    (case ts_match line of
       Some (ts, n) \<Rightarrow> \<lparr>raw = line, timestamp = Some ts, log_message = drop n line, level = parseLogLevel line\<rparr>
     | None \<Rightarrow> \<lparr>raw = line, timestamp = None, log_message = line, level = parseLogLevel line\<rparr>)"

datatype RawLogs = LogText string | LogLines "string list"

definition parseLogs :: "RawLogs \<Rightarrow> LogEntry list" where
  "parseLogs r =
    (case r of
       LogText s \<Rightarrow> if s = [] then [] else map parse_line (filter (\<lambda>l. l \<noteq> []) (js_split CHR 0x0A s))
     | LogLines ls \<Rightarrow> map parse_line (filter (\<lambda>l. l \<noteq> []) ls))"

record LogState =
  searchQuery :: string
  levelFilter :: "LogLevel option"
  autoScroll :: bool
  isPaused :: bool
  userScrolledUp :: bool

definition filtered :: "LogState \<Rightarrow> LogEntry list \<Rightarrow> LogEntry list" where
  "filtered s entries =
    (let r1 = (case levelFilter s of None \<Rightarrow> entries | Some l \<Rightarrow> filter (\<lambda>e. level e = l) entries)
     in if js_trim (searchQuery s) \<noteq> []
        then filter (\<lambda>e. js_contains (js_toLowerCase (raw e)) (js_toLowerCase (searchQuery s))) r1 else r1)"

text \<open>Heights and positions of the scrolled element.\<close>

definition handleScroll :: "rat \<Rightarrow> rat \<Rightarrow> rat \<Rightarrow> LogState \<Rightarrow> LogState" where
  "handleScroll scrollHeight scrollTop clientHeight s =
    s\<lparr>userScrolledUp := \<not> scrollHeight - scrollTop - clientHeight < 50\<rparr>"

definition scroll_after_update :: "LogState \<Rightarrow> rat \<Rightarrow> rat \<Rightarrow> rat" where
  "scroll_after_update s scrollHeight scrollTop =
    (if \<not> autoScroll s \<or> userScrolledUp s \<or> isPaused s then scrollTop else scrollHeight)"

definition togglePause :: "LogState \<Rightarrow> LogState \<times> bool" where
  "togglePause s = (let next_value = \<not> isPaused s in (s\<lparr>isPaused := next_value\<rparr>, next_value))"

definition copyLogs :: "LogState \<Rightarrow> LogEntry list \<Rightarrow> string" where
  "copyLogs s entries = js_join newline (map raw (filtered s entries))"

definition downloadLogs :: "int \<Rightarrow> LogState \<Rightarrow> LogEntry list \<Rightarrow> string \<times> string" where
  "downloadLogs now s entries =
    (''container-logs-'' @ take 19 (toISOString now) @ ''.txt'', js_join newline (map raw (filtered s entries)))"

text \<open>
  \<^verbatim>\<open>text.split(new RegExp(`(${escaped})`, 'gi'))\<close> for a query that is not empty: the text between the
  matches and the matches in turn.
\<close>

function hl_split :: "string \<Rightarrow> string \<Rightarrow> string \<Rightarrow> string list" where
  "hl_split q acc s =
    (if s = [] \<or> q = [] then [acc @ s]
     else if js_toLowerCase (take (length q) s) = js_toLowerCase q
     then acc # take (length q) s # hl_split q [] (drop (length q) s)
     else hl_split q (acc @ [hd s]) (tl s))"
  by pat_completeness auto
termination
  by (relation "measure (\<lambda>(q, acc, s). length s)") (auto simp: neq_Nil_conv)

declare hl_split.simps [simp del]

definition highlightMatch :: "string \<Rightarrow> string \<Rightarrow> (bool \<times> string) list" where
  "highlightMatch text q =
    (if js_trim q = [] then [(False, text)]
     else map (\<lambda>part. (js_toLowerCase part = js_toLowerCase q, part)) (hl_split q [] text))"

lemma parse_line_raw: "raw (parse_line l) = l"
  by (simp add: parse_line_def split: option.splits prod.splits)

lemma raw_parseLogs: "map raw (parseLogs (LogText s)) = filter (\<lambda>l. l \<noteq> []) (js_split CHR 0x0A s)"
  by (simp add: parseLogs_def o_def parse_line_raw)

lemma takeWhile_prefix: "take (length (takeWhile P s)) s = takeWhile P s"
  by (metis takeWhile_eq_take length_takeWhile_le take_take min.idem length_take min.absorb2)

text \<open>
  What the viewer copies or saves reads back as the lines it shows: blank lines apart, no line is lost, cut
  or joined with another.
\<close>
theorem copied_logs_read_back:
  "parseLogs (LogText (copyLogs s (parseLogs (LogText t)))) = filtered s (parseLogs (LogText t))"
proof -
  define es where "es = filtered s (parseLogs (LogText t))"
  have sub: "set es \<subseteq> set (parseLogs (LogText t))" by (auto simp: es_def filtered_def Let_def split: option.splits)
  have line: "raw e \<noteq> [] \<and> CHR 0x0A \<notin> set (raw e) \<and> parse_line (raw e) = e" if "e \<in> set es" for e
    using that sub js_split_parts by (fastforce simp: parseLogs_def parse_line_raw split: if_splits)
  have "parseLogs (LogText (js_join newline (map raw es))) = es"
  proof (cases "es = []")
    case True
    then show ?thesis by (simp add: parseLogs_def)
  next
    case False
    have "js_split CHR 0x0A (js_join newline (map raw es)) = map raw es"
      unfolding newline_def using False line by (intro js_split_join) auto
    moreover have "js_join newline (map raw es) \<noteq> []"
    proof
      assume "js_join newline (map raw es) = []"
      with calculation have "map raw es = [[]]" by simp
      with line show False by auto
    qed
    moreover have "filter (\<lambda>l. l \<noteq> []) (map raw es) = map raw es" "map parse_line (map raw es) = es"
      using line by (auto simp: filter_id_conv intro!: map_idI)
    ultimately show ?thesis by (simp add: parseLogs_def)
  qed
  then show ?thesis unfolding copyLogs_def es_def .
qed

text \<open>
  Docker ends its timestamps with \<open>Z\<close>, which the pattern does not know: the timestamp loses the letter and
  every message begins with it.
\<close>
theorem docker_zone_left_in_message:
  assumes "fits ''dddd-dd-ddTdd:dd:dd'' d" and "list_all is_digit f"
  shows "timestamp (parse_line (d @ ''.'' @ f @ ''Z '' @ msg)) = Some (d @ ''.'' @ f) \<and>
    log_message (parse_line (d @ ''.'' @ f @ ''Z '' @ msg)) = ''Z '' @ msg"
proof -
  let ?line = "d @ CHR ''.'' # f @ CHR ''Z'' # CHR '' '' # msg" and ?P = "\<lambda>c. is_digit c \<or> c = CHR ''.''"
  have len: "length d = 19" using list_all2_lengthD [OF assms(1) [unfolded fits_def]] by simp
  have d: "take 19 ?line = d" "drop 19 ?line = CHR ''.'' # f @ CHR ''Z'' # CHR '' '' # msg"
    by (simp_all add: len)
  have "takeWhile ?P (CHR ''.'' # f @ CHR ''Z'' # CHR '' '' # msg) = CHR ''.'' # f"
    using assms(2) by (simp add: takeWhile_append2 list_all_iff is_digit_def)
  moreover have "drop (19 + length (CHR ''.'' # f)) ?line = CHR ''Z'' # CHR '' '' # msg" by (simp add: len)
  moreover have "\<not> js_space CHR ''Z''" by code_simp
  ultimately have "ts_match ?line = Some (d @ CHR ''.'' # f, length (d @ CHR ''.'' # f))"
    using assms(1) d len by (simp add: ts_match_def ts_zone_def Let_def)
  then show ?thesis by (simp add: parse_line_def)
qed

theorem docker_zone_left_in_message_witness:
  "log_message (parse_line ''2026-03-15T12:00:00.123456789Z ready'') = ''Z ready''"
proof -
  have "fits ''dddd-dd-ddTdd:dd:dd'' ''2026-03-15T12:00:00''" "list_all is_digit ''123456789''" by code_simp+
  from docker_zone_left_in_message [OF this, of "''ready''"] show ?thesis by simp
qed

lemma concat_hl_split: "concat (hl_split q acc s) = acc @ s"
proof (induction q acc s rule: hl_split.induct)
  case (1 q acc s)
  then show ?case by (subst hl_split.simps) auto
qed

lemma lower_take: "js_toLowerCase (take n s) = take n (js_toLowerCase s)"
  by (simp add: js_toLowerCase_def take_map)

text \<open>
  Highlighting keeps the text: the parts put together are the message, and the parts that are marked are
  those that are the query but for case.
\<close>
theorem highlight_keeps_text:
  "concat (map snd (highlightMatch text q)) = text \<and>
   (\<forall>(marked, part) \<in> set (highlightMatch text q). marked \<longleftrightarrow> js_trim q \<noteq> [] \<and> js_toLowerCase part = js_toLowerCase q)"
  using concat_hl_split [of q "[]" "text"] by (auto simp: highlightMatch_def o_def)

theorem highlight_keeps_text_witness:
  "concat (map snd (highlightMatch ''An Error'' ''err'')) = ''An Error''"
  using highlight_keeps_text [of "''An Error''" "''err''"] by simp

end
