(* ===== verification/Admin_Hooks.thy ===== *)
theory Admin_Hooks
  imports Credit_Hooks
begin

text \<open>
  The data hooks of the administration and of the monitoring pages (\<^verbatim>\<open>frontend/src/hooks\<close>): users, quotas,
  environments, system settings, maintenance windows, administration of volumes and workspaces, e-mail,
  retention, analytics, audit log, activity, health and the signed-in user. They are queries and mutations
  of the theory of hooks. Payloads are JSON values; \<open>loc\<close> is \<^verbatim>\<open>toLocaleString\<close> of a number. Polling
  intervals and times of staleness are left out.
\<close>

subsection \<open>Users\<close>

record UsersParams = PageParams +
  up_role :: "string option"
  up_status :: "string option"
  up_search :: "string option"
  up_sort_by :: "string option"
  up_sort_order :: "string option"

definition users_params :: "UsersParams \<Rightarrow> (string \<times> string) list" where
  "users_params p = str_param ''role'' (up_role p) @ str_param ''status'' (up_status p) @
     str_param ''search'' (up_search p) @ str_param ''sort_by'' (up_sort_by p) @
     str_param ''sort_order'' (up_sort_order p) @ page_params p"

definition users_json :: "UsersParams \<Rightarrow> json" where
  "users_json p = JObj (str_json ''role'' (up_role p) @ str_json ''status'' (up_status p) @
     str_json ''search'' (up_search p) @ str_json ''sort_by'' (up_sort_by p) @
     str_json ''sort_order'' (up_sort_order p) @ page_json p)"

definition useUsers :: "UsersParams \<Rightarrow> Query" where
  "useUsers p =
    \<lparr>queryKey = [JStr ''users'', users_json p],
     queryRequest = api_get (''/users/?'' @ search_params (users_params p)), queryEnabled = True\<rparr>"

definition opt_json :: "string option \<Rightarrow> json" where
  "opt_json v = (case v of None \<Rightarrow> JNull | Some s \<Rightarrow> JStr s)"

definition useDiscoverUsers :: "string option \<Rightarrow> Query" where
  "useDiscoverUsers search =
    \<lparr>queryKey = [JStr ''users'', JStr ''discover'', opt_json search],
     queryRequest = api_get (''/users/discover?'' @ search_params (str_param ''search'' search)),
     queryEnabled = (case search of None \<Rightarrow> True | Some s \<Rightarrow> 2 \<le> length s)\<rparr>"

definition usePublicProfile :: "string option \<Rightarrow> Query" where
  "usePublicProfile u =
    \<lparr>queryKey = [JStr ''users'', JStr ''profile'', opt_json u],
     queryRequest = api_get (''/users/'' @ (case u of None \<Rightarrow> ''undefined'' | Some s \<Rightarrow> s) @ ''/profile''),
     queryEnabled = (u \<noteq> None \<and> u \<noteq> Some [])\<rparr>"

definition user_mutation :: "FetchRequest \<Rightarrow> string \<Rightarrow> string \<Rightarrow> string \<Rightarrow> Mutation" where
  "user_mutation req ok_title ok_message err_title =
    \<lparr>mutationFn = req, invalidated = [[JStr ''users'']], successToast = Some (ok_title, ok_message),
     errorTitle = Some err_title\<rparr>"

definition createUser :: "json \<Rightarrow> Mutation" where
  "createUser data = user_mutation (api_post ''/users/'' data) ''User created''
     ''New user has been created successfully'' ''Failed to create user''"

definition updateUser :: "string \<Rightarrow> json \<Rightarrow> Mutation" where
  "updateUser u data = user_mutation (api_put (''/users/'' @ u) data) ''User updated''
     ''User has been updated successfully'' ''Failed to update user''"

definition disableUser :: "string \<Rightarrow> bool \<Rightarrow> Mutation" where
  "disableUser u disabled = user_mutation (api_post (''/users/'' @ u @ ''/disable'') (JObj [(''disabled'', JBool disabled)]))
     ''User status updated'' ''User status has been changed successfully'' ''Failed to update user status''"

definition deleteUser :: "string \<Rightarrow> Mutation" where
  "deleteUser u = user_mutation (api_delete (''/users/'' @ u) None) ''User deleted''
     ''User has been deleted successfully'' ''Failed to delete user''"

definition useUserDetail :: "string \<Rightarrow> Query" where
  "useUserDetail u =
    \<lparr>queryKey = [JStr ''users'', JStr ''detail'', JStr u], queryRequest = api_get (''/users/'' @ u), queryEnabled = (u \<noteq> [])\<rparr>"

definition useUserServers :: "string \<Rightarrow> Query" where
  "useUserServers u =
    \<lparr>queryKey = [JStr ''users'', JStr ''servers'', JStr u], queryRequest = api_get (''/users/'' @ u @ ''/servers''),
     queryEnabled = (u \<noteq> [])\<rparr>"

definition useUserQuota :: "string \<Rightarrow> Query" where
  "useUserQuota u =
    \<lparr>queryKey = [JStr ''users'', JStr ''quota'', JStr u], queryRequest = api_get (''/quotas/'' @ u), queryEnabled = (u \<noteq> [])\<rparr>"

subsection \<open>Quotas\<close>

definition useMyQuota :: Query where
  "useMyQuota = \<lparr>queryKey = [JStr ''quota'', JStr ''me''], queryRequest = api_get ''/quotas/'', queryEnabled = True\<rparr>"

record QuotasParams = PageParams +
  qp_search :: "string option"

definition quotas_params :: "QuotasParams \<Rightarrow> (string \<times> string) list" where
  "quotas_params p = str_param ''search'' (qp_search p) @ page_params p"

definition useQuotas :: "QuotasParams \<Rightarrow> Query" where
  "useQuotas p =
    \<lparr>queryKey = [JStr ''quotas'', JObj (str_json ''search'' (qp_search p) @ page_json p)],
     queryRequest = api_get (''/quotas/all'' @ with_query (search_params (quotas_params p))), queryEnabled = True\<rparr>"

definition updateQuota :: "string \<Rightarrow> json \<Rightarrow> Mutation" where
  "updateQuota u limits =
    \<lparr>mutationFn = api_put (''/quotas/'' @ u) limits, invalidated = [[JStr ''quotas'']],
     successToast = Some (''Quota updated'', ''Resource limits updated for user''),
     errorTitle = Some ''Failed to update quota''\<rparr>"

definition useSystemQuotaDefaults :: Query where
  "useSystemQuotaDefaults =
    \<lparr>queryKey = [JStr ''system-quota-defaults''], queryRequest = api_get ''/admin/quotas/default-limits'', queryEnabled = True\<rparr>"

definition useUpdateSystemQuotaDefaults :: "json \<Rightarrow> Mutation" where
  "useUpdateSystemQuotaDefaults limits =
    \<lparr>mutationFn = api_put ''/admin/quotas/default-limits'' limits,
     invalidated = [[JStr ''system-quota-defaults''], [JStr ''quotas'']],
     successToast = Some (''Default quotas updated'', ''New users will receive these limits''),
     errorTitle = Some ''Failed to update default quotas''\<rparr>"

subsection \<open>Environments\<close>

record EnvironmentsParams = PageParams +
  ep_category :: "string option"
  ep_is_active :: "bool option"
  ep_search :: "string option"

definition environments_params :: "EnvironmentsParams \<Rightarrow> (string \<times> string) list" where
  "environments_params p = str_param ''category'' (ep_category p) @ bool_param ''is_active'' (ep_is_active p) @
     str_param ''search'' (ep_search p) @ page_params p"

definition useEnvironments :: "EnvironmentsParams \<Rightarrow> Query" where
  "useEnvironments p =
    \<lparr>queryKey = [JStr ''environments'', JObj (str_json ''category'' (ep_category p) @
        bool_json ''is_active'' (ep_is_active p) @ str_json ''search'' (ep_search p) @ page_json p)],
     queryRequest = api_get (''/environments/?'' @ search_params (environments_params p)), queryEnabled = True\<rparr>"

text \<open>A mutation without toasts: the component that calls it reports the outcome.\<close>

definition silent_mutation :: "FetchRequest \<Rightarrow> key list \<Rightarrow> Mutation" where
  "silent_mutation req keys = \<lparr>mutationFn = req, invalidated = keys, successToast = None, errorTitle = None\<rparr>"

abbreviation environments_key :: "key list" where
  "environments_key \<equiv> [[JStr ''environments'']]"

definition createEnvironment :: "json \<Rightarrow> Mutation" where
  "createEnvironment data = silent_mutation (api_post ''/environments/'' data) environments_key"

definition updateEnvironment :: "string \<Rightarrow> json \<Rightarrow> Mutation" where
  "updateEnvironment e data = silent_mutation (api_put (''/environments/'' @ e) data) environments_key"

definition deleteEnvironment :: "string \<Rightarrow> Mutation" where
  "deleteEnvironment e = silent_mutation (api_delete (''/environments/'' @ e @ ''/permanent'') None) environments_key"

definition activateEnvironment :: "string \<Rightarrow> Mutation" where
  "activateEnvironment e = silent_mutation (api_post (''/environments/'' @ e @ ''/activate'') (JObj [])) environments_key"

definition deactivateEnvironment :: "string \<Rightarrow> Mutation" where
  "deactivateEnvironment e = silent_mutation (api_delete (''/environments/'' @ e) None) environments_key"

definition cloneEnvironment :: "string \<Rightarrow> string \<Rightarrow> string \<Rightarrow> Mutation" where
  "cloneEnvironment e name slug = silent_mutation
     (api_post (''/environments/'' @ e @ ''/clone'') (JObj [(''name'', JStr name), (''slug'', JStr slug)])) environments_key"

subsection \<open>System settings\<close>

definition plain_query :: "key \<Rightarrow> string \<Rightarrow> Query" where
  "plain_query k path = \<lparr>queryKey = k, queryRequest = api_get path, queryEnabled = True\<rparr>"

definition useSystemConfig :: Query where
  "useSystemConfig = plain_query [JStr ''system-config''] ''/system/config''"

definition useUpdateSystemConfig :: "json \<Rightarrow> Mutation" where
  "useUpdateSystemConfig payload = silent_mutation (api_put ''/system/config'' payload) [[JStr ''system-config''], [JStr ''health'']]"

definition useToggleMaintenance :: "bool \<Rightarrow> string option \<Rightarrow> Mutation" where
  "useToggleMaintenance enabled message = silent_mutation
     (api_post (''/system/maintenance?enabled='' @ bool_text enabled @
        (case message of None \<Rightarrow> [] | Some m \<Rightarrow> if m = [] then [] else ''&message='' @ encodeURIComponent m)) (JObj []))
     [[JStr ''system-config''], [JStr ''health'']]"

text \<open>The numeric settings: each has a key, an address, and the wording of its outcome.\<close>

definition setting_mutation :: "string \<Rightarrow> string \<Rightarrow> string \<Rightarrow> json \<Rightarrow> string \<Rightarrow> string \<Rightarrow> string \<Rightarrow> Mutation" where
  "setting_mutation k path field amount ok_title ok_message err_title =
    \<lparr>mutationFn = api_put path (JObj [(field, amount)]), invalidated = [[JStr k], [JStr ''system-config'']],
     successToast = Some (ok_title, ok_message), errorTitle = Some err_title\<rparr>"

definition is_zero :: "json \<Rightarrow> bool" where
  "is_zero v = (case v of JNum m _ \<Rightarrow> m = 0 | _ \<Rightarrow> False)"

definition useSystemDailyAllowance :: Query where
  "useSystemDailyAllowance = plain_query [JStr ''system-daily-allowance''] ''/admin/credits/default-allowance''"

definition useUpdateSystemDailyAllowance :: "(json \<Rightarrow> string) \<Rightarrow> json \<Rightarrow> Mutation" where
  "useUpdateSystemDailyAllowance loc amount =
    setting_mutation ''system-daily-allowance'' ''/admin/credits/default-allowance'' ''amount'' amount
      ''System default updated'' (''Daily allowance set to '' @ loc amount @ '' NUKE'') ''Failed to update system default''"

definition useSystemMaxBalance :: Query where
  "useSystemMaxBalance = plain_query [JStr ''system-max-balance''] ''/admin/credits/max-balance''"

definition useUpdateSystemMaxBalance :: "(json \<Rightarrow> string) \<Rightarrow> json \<Rightarrow> Mutation" where
  "useUpdateSystemMaxBalance loc amount =
    (let label = (if is_zero amount then ''unlimited'' else loc amount @ '' NUKE'')
     in setting_mutation ''system-max-balance'' ''/admin/credits/max-balance'' ''amount'' amount
          ''Max balance updated'' (''Credit cap set to '' @ label) ''Failed to update max balance'')"

definition useSystemAutoApproveMax :: Query where
  "useSystemAutoApproveMax = plain_query [JStr ''system-auto-approve-max''] ''/admin/credits/auto-approve-max''"

definition useUpdateSystemAutoApproveMax :: "(json \<Rightarrow> string) \<Rightarrow> json \<Rightarrow> Mutation" where
  "useUpdateSystemAutoApproveMax loc amount =
    (let label = (if is_zero amount then ''disabled'' else loc amount @ '' NUKE'')
     in setting_mutation ''system-auto-approve-max'' ''/admin/credits/auto-approve-max'' ''amount'' amount
          ''Auto-approve max updated'' (''Auto-approve threshold set to '' @ label) ''Failed to update auto-approve max'')"

definition useSystemRequestCooldown :: Query where
  "useSystemRequestCooldown = plain_query [JStr ''system-request-cooldown''] ''/admin/credits/request-cooldown-hours''"

definition useUpdateSystemRequestCooldown :: "json \<Rightarrow> Mutation" where
  "useUpdateSystemRequestCooldown amount =
    setting_mutation ''system-request-cooldown'' ''/admin/credits/request-cooldown-hours'' ''hours'' amount
      ''Request cooldown updated'' (''Cooldown set to '' @ js_String amount @ '' hours'') ''Failed to update request cooldown''"

definition useSystemInitialBalance :: Query where
  "useSystemInitialBalance = plain_query [JStr ''system-initial-balance''] ''/admin/credits/initial-balance''"

definition useUpdateSystemInitialBalance :: "(json \<Rightarrow> string) \<Rightarrow> json \<Rightarrow> Mutation" where
  "useUpdateSystemInitialBalance loc amount =
    setting_mutation ''system-initial-balance'' ''/admin/credits/initial-balance'' ''amount'' amount
      ''Signup balance updated'' (''New users start with '' @ loc amount @ '' NUKE'') ''Failed to update signup balance''"

definition useSystemAllowanceLoginWindow :: Query where
  "useSystemAllowanceLoginWindow = plain_query [JStr ''system-allowance-login-window''] ''/admin/credits/allowance-login-window''"

definition useUpdateSystemAllowanceLoginWindow :: "(json \<Rightarrow> string) \<Rightarrow> json \<Rightarrow> Mutation" where
  "useUpdateSystemAllowanceLoginWindow loc hours =
    setting_mutation ''system-allowance-login-window'' ''/admin/credits/allowance-login-window'' ''hours'' hours
      ''Login window updated'' (''Daily allowance requires a login within '' @ loc hours @ '' hours'')
      ''Failed to update login window''"

text \<open>Their error callback has a wording of its own for what is no \<^verbatim>\<open>Error\<close>.\<close>

definition setting_failed :: "Mutation \<Rightarrow> Thrown \<Rightarrow> HookState \<Rightarrow> HookState" where
  "setting_failed m e st =
    (let msg = (case e of ThrownError s \<Rightarrow> s | _ \<Rightarrow> ''Unknown error'')
     in st\<lparr>hook_toasts := (case errorTitle m of None \<Rightarrow> hook_toasts st
          | Some t \<Rightarrow> snd (toast_error t (Some msg) (hook_toasts st)))\<rparr>)"

subsection \<open>Maintenance windows, e-mail, retention\<close>

text \<open>An absent flag is left out of the key object.\<close>

definition useMaintenanceWindows :: "bool option \<Rightarrow> bool option \<Rightarrow> Query" where
  "useMaintenanceWindows activeOnly futureOnly =
    \<lparr>queryKey = [JStr ''maintenance-windows'', JObj (bool_json ''activeOnly'' activeOnly @ bool_json ''futureOnly'' futureOnly)],
     queryRequest = api_get (''/system/maintenance-windows'' @ with_query (search_params
       ((if activeOnly = Some True then [(''active_only'', ''true'')] else []) @
        (if futureOnly = Some True then [(''future_only'', ''true'')] else [])))),
     queryEnabled = True\<rparr>"

abbreviation windows_key :: "key list" where
  "windows_key \<equiv> [[JStr ''maintenance-windows'']]"

definition useCreateMaintenanceWindow :: "json \<Rightarrow> Mutation" where
  "useCreateMaintenanceWindow payload = silent_mutation (api_post ''/system/maintenance-windows'' payload) windows_key"

definition useUpdateMaintenanceWindow :: "string \<Rightarrow> json \<Rightarrow> Mutation" where
  "useUpdateMaintenanceWindow i payload = silent_mutation (api_put (''/system/maintenance-windows/'' @ i) payload) windows_key"

definition useDeleteMaintenanceWindow :: "string \<Rightarrow> Mutation" where
  "useDeleteMaintenanceWindow i = silent_mutation (api_delete (''/system/maintenance-windows/'' @ i) None) windows_key"

definition useEmailConfig :: Query where
  "useEmailConfig = plain_query [JStr ''admin'', JStr ''email-config''] ''/admin/email-config''"

definition useEmailStatus :: Query where
  "useEmailStatus = plain_query [JStr ''admin'', JStr ''email-status''] ''/admin/email-status''"

definition useEmailTest :: "string option \<Rightarrow> Mutation" where
  "useEmailTest toEmail = silent_mutation (api_post ''/admin/email-test''
     (JObj [(''to_email'', case toEmail of None \<Rightarrow> JNull | Some e \<Rightarrow> if e = [] then JNull else JStr e)])) []"

definition useRetentionPolicy :: Query where
  "useRetentionPolicy = plain_query [JStr ''retention-policy''] ''/admin/retention''"

definition useUpdateRetentionPolicy :: "json \<Rightarrow> Mutation" where
  "useUpdateRetentionPolicy payload = silent_mutation (api_put ''/admin/retention'' payload) [[JStr ''retention-policy'']]"

subsection \<open>Administration of volumes and workspaces\<close>

record AdminListParams = PageParams +
  al_search :: "string option"
  al_status :: "string option"
  al_visibility :: "string option"
  al_owner :: "string option"
  al_sort_by :: "string option"
  al_sort_order :: "string option"

text \<open>The list of workspaces has no visibility.\<close>

definition admin_list_params :: "AdminListParams \<Rightarrow> (string \<times> string) list" where
  "admin_list_params p = str_param ''search'' (al_search p) @ str_param ''status'' (al_status p) @
     str_param ''visibility'' (al_visibility p) @ str_param ''owner_id'' (al_owner p) @ page_params p @
     str_param ''sort_by'' (al_sort_by p) @ str_param ''sort_order'' (al_sort_order p)"

definition admin_list_json :: "AdminListParams \<Rightarrow> json" where
  "admin_list_json p = JObj (str_json ''search'' (al_search p) @ str_json ''status'' (al_status p) @
     str_json ''visibility'' (al_visibility p) @ str_json ''owner_id'' (al_owner p) @ page_json p @
     str_json ''sort_by'' (al_sort_by p) @ str_json ''sort_order'' (al_sort_order p))"

definition useAdminVolumes :: "AdminListParams \<Rightarrow> Query" where
  "useAdminVolumes p =
    \<lparr>queryKey = [JStr ''admin-volumes'', admin_list_json p],
     queryRequest = api_get (''/admin/volumes'' @ with_query (search_params (admin_list_params p))), queryEnabled = True\<rparr>"

definition useAdminVolume :: "string option \<Rightarrow> Query" where
  "useAdminVolume v =
    \<lparr>queryKey = [JStr ''admin-volume'', opt_json v],
     queryRequest = api_get (''/admin/volumes/'' @ (case v of None \<Rightarrow> [] | Some i \<Rightarrow> i)),
     queryEnabled = (v \<noteq> None \<and> v \<noteq> Some [])\<rparr>"

definition adminUpdateVolume :: "string \<Rightarrow> json \<Rightarrow> Mutation" where
  "adminUpdateVolume v data =
    \<lparr>mutationFn = api_put (''/admin/volumes/'' @ v) data,
     invalidated = [[JStr ''admin-volumes''], [JStr ''admin-volume'', JStr v]],
     successToast = Some (''Volume updated'', ''Volume has been updated successfully''),
     errorTitle = Some ''Failed to update volume''\<rparr>"

definition adminDeleteVolume :: "string \<Rightarrow> Mutation" where
  "adminDeleteVolume v =
    \<lparr>mutationFn = api_delete (''/admin/volumes/'' @ v) None, invalidated = [[JStr ''admin-volumes'']],
     successToast = Some (''Volume deleted'', ''Volume has been deleted successfully''),
     errorTitle = Some ''Failed to delete volume''\<rparr>"

definition adminRefreshVolumeSize :: "string \<Rightarrow> Mutation" where
  "adminRefreshVolumeSize v =
    \<lparr>mutationFn = api_post (''/volumes/'' @ v @ ''/refresh-size'') (JObj []), invalidated = [[JStr ''admin-volumes'']],
     successToast = Some (''Size refreshed'', ''Volume size has been recalculated''),
     errorTitle = Some ''Failed to refresh size''\<rparr>"

text \<open>
  Bulk calls answer with the number done and the errors; their success callback reports both, the errors
  first and at most three of them.
\<close>

record AdminBulk =
  ab_request :: FetchRequest
  ab_key :: key
  ab_failed_noun :: string
  ab_done_title :: string
  ab_done_message :: "nat \<Rightarrow> string"
  ab_error_title :: string

definition admin_bulk_ok :: "AdminBulk \<Rightarrow> nat \<Rightarrow> string list \<Rightarrow> HookState \<Rightarrow> HookState" where
  "admin_bulk_ok m done_count errors st =
    (let st1 = st\<lparr>hook_invalidated := hook_invalidated st @ [ab_key m]\<rparr>;
         st2 = (if 0 < length errors
                then st1\<lparr>hook_toasts := snd (toast_error (show_nat (length errors) @ ab_failed_noun m)
                       (Some (js_join ''; '' (take 3 errors))) (hook_toasts st1))\<rparr>
                else st1)
     in if 0 < done_count
        then st2\<lparr>hook_toasts := snd (toast_success (ab_done_title m) (Some (ab_done_message m done_count)) (hook_toasts st2))\<rparr>
        else st2)"

definition admin_bulk_failed :: "AdminBulk \<Rightarrow> Thrown \<Rightarrow> HookState \<Rightarrow> HookState" where
  "admin_bulk_failed m e st =
    st\<lparr>hook_toasts := snd (toast_error (ab_error_title m) (Some (getErrorMessage e)) (hook_toasts st))\<rparr>"

definition adminVolumeBulkAction :: "json \<Rightarrow> AdminBulk" where
  "adminVolumeBulkAction data =
    \<lparr>ab_request = api_post ''/admin/volumes/bulk-action'' data, ab_key = [JStr ''admin-volumes''],
     ab_failed_noun = '' volume(s) failed'', ab_done_title = ''Bulk action completed'',
     ab_done_message = (\<lambda>n. show_nat n @ '' volume(s) processed''), ab_error_title = ''Bulk action failed''\<rparr>"

definition refreshAllSizes :: AdminBulk where
  "refreshAllSizes =
    \<lparr>ab_request = api_post ''/admin/volumes/refresh-sizes'' (JObj []), ab_key = [JStr ''admin-volumes''],
     ab_failed_noun = '' volume(s) failed'', ab_done_title = ''Sizes refreshed'',
     ab_done_message = (\<lambda>n. show_nat n @ '' volume(s) recalculated''), ab_error_title = ''Failed to refresh sizes''\<rparr>"

definition useAdminWorkspaces :: "AdminListParams \<Rightarrow> Query" where
  "useAdminWorkspaces p =
    \<lparr>queryKey = [JStr ''admin-workspaces'', admin_list_json (p\<lparr>al_visibility := None\<rparr>)],
     queryRequest = api_get (''/admin/workspaces'' @ with_query (search_params (admin_list_params (p\<lparr>al_visibility := None\<rparr>)))),
     queryEnabled = True\<rparr>"

definition useAdminWorkspace :: "string option \<Rightarrow> Query" where
  "useAdminWorkspace w =
    \<lparr>queryKey = [JStr ''admin-workspace'', opt_json w],
     queryRequest = api_get (''/admin/workspaces/'' @ (case w of None \<Rightarrow> [] | Some i \<Rightarrow> i)),
     queryEnabled = (w \<noteq> None \<and> w \<noteq> Some [])\<rparr>"

definition adminUpdateWorkspace :: "string \<Rightarrow> json \<Rightarrow> Mutation" where
  "adminUpdateWorkspace w data =
    \<lparr>mutationFn = api_put (''/admin/workspaces/'' @ w) data,
     invalidated = [[JStr ''admin-workspaces''], [JStr ''admin-workspace'', JStr w]],
     successToast = Some (''Workspace updated'', ''Workspace has been updated successfully''),
     errorTitle = Some ''Failed to update workspace''\<rparr>"

definition adminDeleteWorkspace :: "string \<Rightarrow> Mutation" where
  "adminDeleteWorkspace w =
    \<lparr>mutationFn = api_delete (''/admin/workspaces/'' @ w) None, invalidated = [[JStr ''admin-workspaces'']],
     successToast = Some (''Workspace deleted'', ''Workspace has been deleted successfully''),
     errorTitle = Some ''Failed to delete workspace''\<rparr>"

definition adminWorkspaceBulkAction :: "json \<Rightarrow> AdminBulk" where
  "adminWorkspaceBulkAction data =
    \<lparr>ab_request = api_post ''/admin/workspaces/bulk-action'' data, ab_key = [JStr ''admin-workspaces''],
     ab_failed_noun = '' workspace(s) failed'', ab_done_title = ''Bulk action completed'',
     ab_done_message = (\<lambda>n. show_nat n @ '' workspace(s) processed''), ab_error_title = ''Bulk action failed''\<rparr>"

subsection \<open>Analytics, audit log and activity\<close>

record RangeParams =
  rp_days :: "nat option"
  rp_from :: "string option"
  rp_to :: "string option"

definition range_params :: "RangeParams \<Rightarrow> (string \<times> string) list" where
  "range_params p =
    (case (rp_from p, rp_to p) of
       (Some (f # fs), Some (t # ts)) \<Rightarrow> [(''from'', f # fs), (''to'', t # ts)]
     | _ \<Rightarrow> [(''days'', show_nat (or_default 30 (rp_days p)))])"

definition analytics_qs :: "RangeParams \<Rightarrow> string" where
  "analytics_qs p = search_params (range_params p)"

definition range_json :: "RangeParams \<Rightarrow> (string \<times> json) list" where
  "range_json p = num_json ''days'' (rp_days p) @ str_json ''from'' (rp_from p) @ str_json ''to'' (rp_to p)"

definition useUserUsage :: "string \<Rightarrow> RangeParams \<Rightarrow> Query" where
  "useUserUsage u p =
    \<lparr>queryKey = [JStr ''analytics'', JStr ''user'', JStr u, JObj (range_json p)],
     queryRequest = api_get (''/analytics/users/'' @ u @ ''/usage?'' @ analytics_qs p), queryEnabled = (u \<noteq> [])\<rparr>"

definition analytics_query :: "string \<Rightarrow> string \<Rightarrow> RangeParams \<Rightarrow> Query" where
  "analytics_query name path p =
    \<lparr>queryKey = [JStr ''analytics'', JStr name, JObj (range_json p)],
     queryRequest = api_get (path @ CHR ''?'' # analytics_qs p), queryEnabled = True\<rparr>"

definition useGlobalUsage :: "RangeParams \<Rightarrow> Query" where
  "useGlobalUsage p = analytics_query ''global'' ''/analytics/global'' p"

text \<open>\<^verbatim>\<open>new URLSearchParams(buildQueryString(dateParams))\<close> reads the parameters back before the limit is set.\<close>

definition useTopConsumers :: "RangeParams \<Rightarrow> nat option \<Rightarrow> Query" where
  "useTopConsumers p limit =
    \<lparr>queryKey = [JStr ''analytics'', JStr ''top-consumers'', JObj (range_json p @ num_json ''limit'' limit)],
     queryRequest = api_get (''/analytics/top-consumers?'' @
       search_params (parse_params (analytics_qs p) @ [(''limit'', show_nat (or_default 10 limit))])),
     queryEnabled = True\<rparr>"

definition useCreditFlow :: "RangeParams \<Rightarrow> Query" where
  "useCreditFlow p = analytics_query ''credit-flow'' ''/analytics/credit-flow'' p"

definition useUserGrowth :: "RangeParams \<Rightarrow> Query" where
  "useUserGrowth p = analytics_query ''user-growth'' ''/analytics/user-growth'' p"

definition useLoginEvents :: "RangeParams \<Rightarrow> Query" where
  "useLoginEvents p = analytics_query ''logins'' ''/analytics/logins'' p"

definition usePlatformMetrics :: "RangeParams \<Rightarrow> Query" where
  "usePlatformMetrics p = analytics_query ''platform-metrics'' ''/analytics/platform-metrics'' p"

definition useRequestMetrics :: "RangeParams \<Rightarrow> Query" where
  "useRequestMetrics p = analytics_query ''request-metrics'' ''/metrics/requests'' p"

definition useVolumeAnalytics :: Query where
  "useVolumeAnalytics = plain_query [JStr ''analytics'', JStr ''volumes''] ''/analytics/volumes''"

definition useWorkspaceAnalytics :: Query where
  "useWorkspaceAnalytics = plain_query [JStr ''analytics'', JStr ''workspaces''] ''/analytics/workspaces''"

definition useEnvironmentUsage :: Query where
  "useEnvironmentUsage = plain_query [JStr ''analytics'', JStr ''environments''] ''/analytics/environments''"

definition usePlanUsage :: Query where
  "usePlanUsage = plain_query [JStr ''analytics'', JStr ''plans''] ''/analytics/plans''"

record LogParams = PageParams +
  lp_user :: "string option"
  lp_action :: "string option"
  lp_target :: "string option"
  lp_from :: "string option"
  lp_to :: "string option"

definition log_page :: "nat \<Rightarrow> LogParams \<Rightarrow> (string \<times> string) list" where
  "log_page default_limit p = [(''page'', show_nat (or_default 1 (pp_page p))), (''limit'', show_nat (or_default default_limit (pp_limit p)))]"

definition useAuditLogs :: "LogParams \<Rightarrow> Query" where
  "useAuditLogs p =
    \<lparr>queryKey = [JStr ''audit-logs'', opt_json (lp_user p), opt_json (lp_action p), opt_json (lp_target p), opt_json (lp_from p),
       opt_json (lp_to p), JNum (int (or_default 1 (pp_page p))) 0, JNum (int (or_default 50 (pp_limit p))) 0],
     queryRequest = api_get (''/admin/activity?'' @ search_params (log_page 50 p @ str_param ''user_id'' (lp_user p) @
       str_param ''action'' (lp_action p) @ str_param ''target_type'' (lp_target p) @
       str_param ''from_date'' (lp_from p) @ str_param ''to_date'' (lp_to p))),
     queryEnabled = True\<rparr>"

definition useActivity :: "LogParams \<Rightarrow> Query" where
  "useActivity p =
    \<lparr>queryKey = [JStr ''activity'', JNum (int (or_default 1 (pp_page p))) 0, JNum (int (or_default 25 (pp_limit p))) 0,
       opt_json (lp_action p), opt_json (lp_target p), opt_json (lp_from p), opt_json (lp_to p)],
     queryRequest = api_get (''/users/me/activity?'' @ search_params (log_page 25 p @ str_param ''action'' (lp_action p) @
       str_param ''target_type'' (lp_target p) @ str_param ''from_date'' (lp_from p) @ str_param ''to_date'' (lp_to p))),
     queryEnabled = True\<rparr>"

subsection \<open>Health, dashboard, the signed-in user\<close>

record HealthParams = PageParams +
  hp_status :: "string option"
  hp_search :: "string option"

definition useHealthMonitoring :: "HealthParams \<Rightarrow> Query" where
  "useHealthMonitoring p =
    \<lparr>queryKey = [JStr ''health-monitoring'', JNum (int (or_default 1 (pp_page p))) 0, JNum (int (or_default 20 (pp_limit p))) 0,
       opt_json (hp_status p), opt_json (hp_search p)],
     queryRequest = api_get (''/admin/health/monitoring?'' @ search_params
       ([(''page'', show_nat (or_default 1 (pp_page p))), (''limit'', show_nat (or_default 20 (pp_limit p)))] @
        str_param ''status'' (hp_status p) @ str_param ''search'' (hp_search p))),
     queryEnabled = True\<rparr>"

text \<open>
  \<^verbatim>\<open>useHealth\<close> calls \<^verbatim>\<open>fetch\<close> itself. Its function on the answer: \<open>ok\<close> and the parsed body, or none when the
  body is no JSON; the result, or the error, with its message if the hook throws it and without if the parser does.
\<close>

definition health_result :: "bool \<Rightarrow> json option \<Rightarrow> string option + json" where
  "health_result ok body =
    (case body of
       None \<Rightarrow> Inl None
     | Some data \<Rightarrow>
         if js_get data ''status'' = Some (JStr ''maintenance'')
         then Inr (JObj ([(''status'', JStr ''maintenance'')] @
           (case js_get data ''message'' of None \<Rightarrow> [] | Some m \<Rightarrow> [(''message'', m)])))
         else if \<not> ok then Inl (Some ''Backend unavailable'') else Inr data)"

definition useDashboard :: Query where
  "useDashboard = plain_query [JStr ''dashboard''] ''/dashboard/''"

definition useCurrentUser :: "bool \<Rightarrow> Query" where
  "useCurrentUser enabled =
    \<lparr>queryKey = [JStr ''me''], queryRequest = api_get ''/users/me/profile'', queryEnabled = enabled\<rparr>"

definition currentUser_loaded :: "User \<Rightarrow> AuthState \<Rightarrow> User \<times> AuthState" where
  "currentUser_loaded u st = (u, setUser (Some u) st)"

subsection \<open>Coherence of the caches\<close>

inductive_set user_queries :: "Query set" where
  "useUsers p \<in> user_queries"
| "useDiscoverUsers q \<in> user_queries"
| "usePublicProfile v \<in> user_queries"
| "useUserDetail u \<in> user_queries"
| "useUserServers u \<in> user_queries"
| "useUserQuota u \<in> user_queries"

inductive_set user_changes :: "Mutation set" where
  "createUser d \<in> user_changes"
| "updateUser u d \<in> user_changes"
| "disableUser u b \<in> user_changes"
| "deleteUser u \<in> user_changes"

inductive_set environment_changes :: "Mutation set" where
  "createEnvironment d \<in> environment_changes"
| "updateEnvironment e d \<in> environment_changes"
| "deleteEnvironment e \<in> environment_changes"
| "activateEnvironment e \<in> environment_changes"
| "deactivateEnvironment e \<in> environment_changes"
| "cloneEnvironment e n s \<in> environment_changes"

text \<open>Every mutation of a setting refreshes the configuration.\<close>

inductive_set setting_changes :: "Mutation set" where
  "useUpdateSystemConfig d \<in> setting_changes"
| "useToggleMaintenance b m \<in> setting_changes"
| "useUpdateSystemDailyAllowance loc a \<in> setting_changes"
| "useUpdateSystemMaxBalance loc a \<in> setting_changes"
| "useUpdateSystemAutoApproveMax loc a \<in> setting_changes"
| "useUpdateSystemRequestCooldown a \<in> setting_changes"
| "useUpdateSystemInitialBalance loc a \<in> setting_changes"
| "useUpdateSystemAllowanceLoginWindow loc a \<in> setting_changes"

inductive_set window_changes :: "Mutation set" where
  "useCreateMaintenanceWindow d \<in> window_changes"
| "useUpdateMaintenanceWindow i d \<in> window_changes"
| "useDeleteMaintenanceWindow i \<in> window_changes"

lemmas user_hook_defs = useUsers_def useDiscoverUsers_def usePublicProfile_def useUserDetail_def useUserServers_def
  useUserQuota_def user_mutation_def createUser_def updateUser_def disableUser_def deleteUser_def

lemmas admin_hook_defs = silent_mutation_def plain_query_def setting_mutation_def useEnvironments_def createEnvironment_def
  updateEnvironment_def deleteEnvironment_def activateEnvironment_def deactivateEnvironment_def cloneEnvironment_def
  useSystemConfig_def useUpdateSystemConfig_def useToggleMaintenance_def useUpdateSystemDailyAllowance_def
  useUpdateSystemMaxBalance_def useUpdateSystemAutoApproveMax_def useUpdateSystemRequestCooldown_def
  useUpdateSystemInitialBalance_def useUpdateSystemAllowanceLoginWindow_def useMaintenanceWindows_def
  useCreateMaintenanceWindow_def useUpdateMaintenanceWindow_def useDeleteMaintenanceWindow_def

interpretation user_cache: cache_family user_queries user_changes "[JStr ''users'']"
proof
  show "prefix [JStr ''users''] (queryKey q)" if "q \<in> user_queries" for q
    using that by cases (simp_all add: user_hook_defs)
  show "[JStr ''users''] \<in> set (invalidated m)" if "m \<in> user_changes" for m
    using that by cases (simp_all add: user_hook_defs)
qed

interpretation environment_cache: cache_family "range useEnvironments" environment_changes "[JStr ''environments'']"
proof
  show "prefix [JStr ''environments''] (queryKey q)" if "q \<in> range useEnvironments" for q
    using that by (auto simp: admin_hook_defs)
  show "[JStr ''environments''] \<in> set (invalidated m)" if "m \<in> environment_changes" for m
    using that by cases (simp_all add: admin_hook_defs)
qed

interpretation setting_cache: cache_family "{useSystemConfig}" setting_changes "[JStr ''system-config'']"
proof
  show "prefix [JStr ''system-config''] (queryKey q)" if "q \<in> {useSystemConfig}" for q
    using that by (simp add: admin_hook_defs)
  show "[JStr ''system-config''] \<in> set (invalidated m)" if "m \<in> setting_changes" for m
    using that by cases (simp_all add: admin_hook_defs Let_def)
qed

interpretation window_cache: cache_family "{q. \<exists>a f. q = useMaintenanceWindows a f}" window_changes "[JStr ''maintenance-windows'']"
proof
  show "prefix [JStr ''maintenance-windows''] (queryKey q)" if "q \<in> {q. \<exists>a f. q = useMaintenanceWindows a f}" for q
    using that by (auto simp: admin_hook_defs)
  show "[JStr ''maintenance-windows''] \<in> set (invalidated m)" if "m \<in> window_changes" for m
    using that by cases (simp_all add: admin_hook_defs)
qed

text \<open>
  The administration pages stay current: every change of a user refreshes every query about users, every
  change of an environment every list of environments, every change of a setting the configuration, and
  every change of a maintenance window every list of windows.
\<close>
theorem admin_caches_coherent:
  assumes "prefix_matching matches"
    and "m \<in> user_changes \<and> q \<in> user_queries \<or> m \<in> environment_changes \<and> q \<in> range useEnvironments \<or>
      m \<in> setting_changes \<and> q = useSystemConfig \<or> m \<in> window_changes \<and> (\<exists>a f. q = useMaintenanceWindows a f)"
  shows "refreshes_query matches m q"
  using assms user_cache.coherent environment_cache.coherent setting_cache.coherent window_cache.coherent by blast

theorem admin_caches_coherent_witness:
  "refreshes_query prefix (disableUser ''u1'' True) (useUserDetail ''u1'')"
proof -
  have "prefix_matching prefix" by (simp add: prefix_matching_def)
  then show ?thesis
    by (rule admin_caches_coherent) (use user_changes.intros(3) user_queries.intros(4) in blast)
qed

text \<open>
  A changed quota does not refresh the quota on the user's own page nor the one on the page about that
  user, which are cached under other keys; nor does a change in the administration of volumes or workspaces
  refresh the lists their users see.
\<close>
theorem quota_change_leaves_views_stale:
  "refreshes_query prefix (updateQuota u d) (useQuotas p) \<and> \<not> refreshes_query prefix (updateQuota u d) (useUserQuota u) \<and>
   \<not> refreshes_query prefix (updateQuota u d) useMyQuota \<and> \<not> refreshes_query prefix (adminUpdateVolume v d) useVolumes \<and>
   \<not> refreshes_query prefix (adminUpdateWorkspace w d) useWorkspaces"
  by (simp add: refreshes_query_def updateQuota_def useQuotas_def useUserQuota_def useMyQuota_def adminUpdateVolume_def
      adminUpdateWorkspace_def useVolumes_def useWorkspaces_def)

subsection \<open>Outcomes and requests\<close>

text \<open>
  A bulk action of the administration reports everything that happened: an error with the number of failures
  when there was one, and a success with the number done when there was one, in that order.
\<close>
theorem admin_bulk_reported:
  "\<exists>new. toasts (hook_toasts (admin_bulk_ok m n errors st)) = toasts (hook_toasts st) @ new \<and>
    map toast_type new = (if errors = [] then [] else [TError]) @ (if n = 0 then [] else [TSuccess]) \<and>
    hook_invalidated (admin_bulk_ok m n errors st) = hook_invalidated st @ [ab_key m]"
  by (simp add: admin_bulk_ok_def toast_success_def toast_error_def addToast_def mkToast_def ToastOptions.defs Let_def)

text \<open>The date range of an analytics query is read back by the server, also after the limit has been added.\<close>
theorem analytics_range_decodes:
  "(\<exists>q. req_path (queryRequest (useTopConsumers p limit)) = ''/analytics/top-consumers?'' @ q \<and>
      parse_params q = range_params p @ [(''limit'', show_nat (or_default 10 limit))]) \<and>
   (\<exists>q. req_path (queryRequest (useCreditFlow p)) = ''/analytics/credit-flow?'' @ q \<and> parse_params q = range_params p)"
  by (simp add: useTopConsumers_def useCreditFlow_def analytics_query_def analytics_qs_def api_get_def parse_search_params)

end
