(* ===== verification/File_Browser.thy ===== *)
theory File_Browser
  imports Query_Hooks Complex_Main
begin

text \<open>
  The file browser of a volume (\<^verbatim>\<open>components/volume-file-browser.tsx\<close>). Its state is the component's
  \<^verbatim>\<open>useState\<close> hooks and the debounce timer; every handler is a function on it. Abstractly the browser is at
  a location, a list of folder names; the handlers implement entering, leaving and jumping between folders.
\<close>

datatype SortColumn = ByName | BySize | ByModified

record FileBrowser =
  currentPath :: string
  searchQuery :: string
  debouncedSearch :: string
  fb_sortBy :: SortColumn
  fb_descending :: bool
  fb_page :: nat
  searchTimeout :: "string option"
  scrolledItems :: nat
  fb_deleting :: "string option"

definition PAGE_SIZE :: nat where "PAGE_SIZE = 100"

definition initialBrowser :: FileBrowser where
  "initialBrowser = \<lparr>currentPath = [], searchQuery = [], debouncedSearch = [], fb_sortBy = ByName,
     fb_descending = False, fb_page = 1, searchTimeout = None, scrolledItems = 50, fb_deleting = None\<rparr>"

fun column_name :: "SortColumn \<Rightarrow> string" where
  "column_name ByName = ''name''"
| "column_name BySize = ''size''"
| "column_name ByModified = ''modified''"

definition browser_params :: "FileBrowser \<Rightarrow> VolumeFilesParams" where
  "browser_params s =
    \<lparr>vf_path = Some (currentPath s),
     vf_search = (if debouncedSearch s = [] then None else Some (debouncedSearch s)),
     vf_sort_by = Some (column_name (fb_sortBy s)),
     vf_sort_order = Some (if fb_descending s then ''desc'' else ''asc''),
     vf_page = Some (fb_page s), vf_page_size = Some PAGE_SIZE\<rparr>"

subsection \<open>Handlers\<close>

definition handleSearchChange :: "string \<Rightarrow> FileBrowser \<Rightarrow> FileBrowser" where
  "handleSearchChange v s = s\<lparr>searchQuery := v, fb_page := 1, searchTimeout := Some v\<rparr>"

text \<open>The timer fires.\<close>

definition searchElapsed :: "FileBrowser \<Rightarrow> FileBrowser" where
  "searchElapsed s = (case searchTimeout s of None \<Rightarrow> s
     | Some v \<Rightarrow> s\<lparr>debouncedSearch := v, searchTimeout := None\<rparr>)"

definition item_path :: "string \<Rightarrow> string \<Rightarrow> string" where
  "item_path path item = (if path \<noteq> [] then path @ ''/'' @ item else item)"

definition path_parts :: "string \<Rightarrow> string list" where
  "path_parts path = filter (\<lambda>p. p \<noteq> []) (js_split CHR ''/'' path)"

definition handleNavigate :: "string \<Rightarrow> FileBrowser \<Rightarrow> FileBrowser" where
  "handleNavigate item s =
    s\<lparr>currentPath := item_path (currentPath s) item, fb_page := 1, searchQuery := [], debouncedSearch := [],
      scrolledItems := 50\<rparr>"

definition handleGoUp :: "FileBrowser \<Rightarrow> FileBrowser" where
  "handleGoUp s =
    s\<lparr>currentPath := js_join ''/'' (butlast (path_parts (currentPath s))), fb_page := 1, scrolledItems := 50\<rparr>"

definition handlePathClick :: "nat \<Rightarrow> FileBrowser \<Rightarrow> FileBrowser" where
  "handlePathClick i s =
    s\<lparr>currentPath := js_join ''/'' (take (i + 1) (path_parts (currentPath s))), fb_page := 1, scrolledItems := 50\<rparr>"

definition rootClick :: "FileBrowser \<Rightarrow> FileBrowser" where
  "rootClick s = s\<lparr>currentPath := [], fb_page := 1\<rparr>"

definition breadcrumbParts :: "FileBrowser \<Rightarrow> string list" where
  "breadcrumbParts s = (if currentPath s = [] then [] else path_parts (currentPath s))"

definition handleSort :: "SortColumn \<Rightarrow> FileBrowser \<Rightarrow> FileBrowser" where
  "handleSort c s =
    (if fb_sortBy s = c then s\<lparr>fb_descending := \<not> fb_descending s, fb_page := 1\<rparr>
     else s\<lparr>fb_sortBy := c, fb_descending := False, fb_page := 1\<rparr>)"

definition prevPage :: "FileBrowser \<Rightarrow> FileBrowser" where
  "prevPage s = s\<lparr>fb_page := max 1 (fb_page s - 1)\<rparr>"

definition nextPage :: "nat \<Rightarrow> FileBrowser \<Rightarrow> FileBrowser" where
  "nextPage totalPages s = s\<lparr>fb_page := min totalPages (fb_page s + 1)\<rparr>"

text \<open>
  The list is rendered in windows of fifty. \<open>items\<close> is the listing on display, \<^term>\<open>None\<close> while it is loading.
\<close>

definition listScroll :: "rat \<Rightarrow> rat \<Rightarrow> rat \<Rightarrow> 'i list option \<Rightarrow> FileBrowser \<Rightarrow> FileBrowser" where
  "listScroll scrollTop scrollHeight clientHeight items s =
    (if scrollTop + clientHeight \<ge> scrollHeight - 200
     then s\<lparr>scrolledItems := min (scrolledItems s + 50) (case items of None \<Rightarrow> 0 | Some xs \<Rightarrow> length xs)\<rparr>
     else s)"

definition visibleItems :: "FileBrowser \<Rightarrow> 'i list option \<Rightarrow> 'i list" where
  "visibleItems s items = (case items of None \<Rightarrow> [] | Some xs \<Rightarrow> take (scrolledItems s) xs)"

definition hasMore :: "FileBrowser \<Rightarrow> 'i list option \<Rightarrow> bool" where
  "hasMore s items = (scrolledItems s < (case items of None \<Rightarrow> 0 | Some xs \<Rightarrow> length xs))"

text \<open>The footer's \<^verbatim>\<open>showing a-b of n\<close>.\<close>

definition shown_range :: "nat \<Rightarrow> nat \<Rightarrow> nat \<times> nat" where
  "shown_range page total_items = ((page - 1) * PAGE_SIZE + 1, min (page * PAGE_SIZE) total_items)"

subsection \<open>Deleting and downloading\<close>

text \<open>
  A deletion asks, then sends; the row is marked while the request is under way. A rejected request is an
  error with a message; the \<^verbatim>\<open>response\<close> field the code looks at first belongs to another HTTP library, its
  detail is \<open>axios_detail\<close>.
\<close>

definition deleteStart :: "string \<Rightarrow> string \<Rightarrow> bool \<Rightarrow> FileBrowser \<Rightarrow> Mutation option \<times> FileBrowser" where
  "deleteStart v item confirmed s =
    (if \<not> confirmed then (None, s)
     else (Some (useDeleteVolumeFile v (item_path (currentPath s) item)), s\<lparr>fb_deleting := Some item\<rparr>))"

definition delete_message :: "string option \<Rightarrow> string option \<Rightarrow> string" where
  "delete_message axios_detail message =
    (case axios_detail of Some (c # cs) \<Rightarrow> c # cs
     | _ \<Rightarrow> (case message of Some (c # cs) \<Rightarrow> c # cs | _ \<Rightarrow> ''Failed to delete''))"

definition deleteEnd :: "FileBrowser \<Rightarrow> FileBrowser" where
  "deleteEnd s = s\<lparr>fb_deleting := None\<rparr>"

definition download_path :: "string \<Rightarrow> string \<Rightarrow> FileBrowser \<Rightarrow> string" where
  "download_path v item s =
    ''/volumes/'' @ v @ ''/download?path='' @ encodeURIComponent (item_path (currentPath s) item)"

definition download_toast :: "string option \<Rightarrow> ToastOptions" where
  "download_toast message =
    \<lparr>toast_type = TError, toast_title = ''Download failed'',
     toast_message = Some (case message of Some m \<Rightarrow> m | None \<Rightarrow> ''Unknown error''),
     toast_duration = Some 8000, toast_action = None\<rparr>"

subsection \<open>Folders as lists of names\<close>

definition file_name :: "string \<Rightarrow> bool" where
  "file_name n \<longleftrightarrow> n \<noteq> [] \<and> CHR ''/'' \<notin> set n"

lemma js_split_append_sep: "js_split c (a @ c # b) = js_split c a @ js_split c b"
  by (induction a) (auto split: list.splits)

lemma path_parts_Nil [simp]: "path_parts [] = []"
  by (simp add: path_parts_def)

lemma path_parts_item: "file_name item \<Longrightarrow> path_parts (item_path path item) = path_parts path @ [item]"
  by (simp add: path_parts_def item_path_def file_name_def js_split_append_sep js_split_no_sep)

lemma path_parts_join:
  assumes "list_all file_name ps"
  shows "path_parts (js_join ''/'' ps) = ps"
proof (cases "ps = []")
  case False
  have "js_split CHR ''/'' (js_join [CHR ''/''] ps) = ps"
    using False assms by (intro js_split_join) (auto simp: list_all_iff file_name_def)
  with assms show ?thesis by (simp add: path_parts_def list_all_iff file_name_def filter_id_conv)
qed simp

lemma js_join_snoc: "ps \<noteq> [] \<Longrightarrow> js_join sep (ps @ [x]) = js_join sep ps @ sep @ x"
  by (induction sep ps rule: js_join.induct) auto

lemma js_join_empty_iff: "list_all file_name ps \<Longrightarrow> js_join ''/'' ps = [] \<longleftrightarrow> ps = []"
  by (cases ps rule: remdups_adj.cases) (auto simp: file_name_def)

lemma item_path_join:
  "list_all file_name ps \<Longrightarrow> item_path (js_join ''/'' ps) item = js_join ''/'' (ps @ [item])"
  using js_join_empty_iff[of ps] js_join_snoc[of ps "''/''" item] by (auto simp: item_path_def)

text \<open>What the user does, and what it means for a location.\<close>

datatype 'i FbAction = Navigate string | GoUp | PathClick nat | Root | Search string | Elapse
  | SortOn SortColumn | Prev | Next nat | Scroll rat rat rat "'i list option" | DeleteStart string bool | DeleteEnd

fun fb_act :: "'i FbAction \<Rightarrow> FileBrowser \<Rightarrow> FileBrowser" where
  "fb_act (Navigate n) s = handleNavigate n s"
| "fb_act GoUp s = handleGoUp s"
| "fb_act (PathClick i) s = handlePathClick i s"
| "fb_act Root s = rootClick s"
| "fb_act (Search v) s = handleSearchChange v s"
| "fb_act Elapse s = searchElapsed s"
| "fb_act (SortOn c) s = handleSort c s"
| "fb_act Prev s = prevPage s"
| "fb_act (Next n) s = nextPage n s"
| "fb_act (Scroll a b c xs) s = listScroll a b c xs s"
| "fb_act (DeleteStart n y) s = snd (deleteStart [] n y s)"
| "fb_act DeleteEnd s = deleteEnd s"

fun location_step :: "string list \<Rightarrow> 'i FbAction \<Rightarrow> string list" where
  "location_step ps (Navigate n) = ps @ [n]"
| "location_step ps GoUp = butlast ps"
| "location_step ps (PathClick i) = take (i + 1) ps"
| "location_step ps Root = []"
| "location_step ps _ = ps"

fun names_ok :: "'i FbAction \<Rightarrow> bool" where
  "names_ok (Navigate n) = file_name n"
| "names_ok _ = True"

lemma list_all_butlast: "list_all P xs \<Longrightarrow> list_all P (butlast xs)"
  by (auto simp: list_all_iff dest: in_set_butlastD)

lemma list_all_take: "list_all P xs \<Longrightarrow> list_all P (take n xs)"
  by (auto simp: list_all_iff dest: in_set_takeD)

lemma location_names: "list_all file_name ps \<Longrightarrow> names_ok a \<Longrightarrow> list_all file_name (location_step ps a)"
  by (cases a) (auto intro: list_all_butlast list_all_take)

lemma fb_act_path:
  assumes "currentPath s = js_join ''/'' ps" and "list_all file_name ps" and "names_ok a"
  shows "currentPath (fb_act a s) = js_join ''/'' (location_step ps a)"
  using assms
  by (cases a) (auto simp: handleNavigate_def handleGoUp_def handlePathClick_def rootClick_def handleSearchChange_def
      searchElapsed_def handleSort_def prevPage_def nextPage_def listScroll_def deleteStart_def deleteEnd_def
      item_path_join path_parts_join split: option.splits)

lemma fb_run_path:
  assumes "currentPath s = js_join ''/'' ps" and "list_all file_name ps" and "list_all names_ok acts"
  shows "currentPath (fold fb_act acts s) = js_join ''/'' (foldl location_step ps acts) \<and>
    list_all file_name (foldl location_step ps acts)"
  using assms
proof (induction acts arbitrary: s ps)
  case (Cons a acts)
  then have "currentPath (fb_act a s) = js_join ''/'' (location_step ps a)"
    and "list_all file_name (location_step ps a)"
    by (simp_all add: fb_act_path location_names)
  with Cons show ?case by simp
qed simp
text \<open>
  C29. The file browser refines a location: after any sequence of actions the path it lists is the list of
  folders that was entered and not left again, joined by slashes, and the breadcrumbs are those folders.
\<close>

theorem browser_refines_location:
  assumes "list_all names_ok acts"
  shows "currentPath (fold fb_act acts initialBrowser) = js_join ''/'' (foldl location_step [] acts) \<and>
    breadcrumbParts (fold fb_act acts initialBrowser) = foldl location_step [] acts"
  using fb_run_path[of initialBrowser "[]" acts] assms
  by (auto simp: initialBrowser_def breadcrumbParts_def path_parts_join js_join_empty_iff)

theorem browser_refines_location_witness:
  "currentPath (fold fb_act [Navigate ''src'', Search ''x'', Navigate ''lib'', Navigate ''a b'', PathClick 1,
     GoUp, Navigate ''doc'', (Next 4 :: nat FbAction)] initialBrowser) = ''src/doc''"
  using browser_refines_location[of "[Navigate ''src'', Search ''x'', Navigate ''lib'', Navigate ''a b'', PathClick 1,
     GoUp, Navigate ''doc'', (Next 4 :: nat FbAction)]"]
  by (simp add: file_name_def)

lemma up_undoes_navigate:
  assumes "currentPath s = js_join ''/'' ps" and "list_all file_name ps" and "file_name item"
  shows "currentPath (handleGoUp (handleNavigate item s)) = currentPath s"
  using fb_act_path[OF assms(1,2), of "Navigate item"] assms
  by (simp add: handleGoUp_def path_parts_join)

text \<open>The query string of a deletion or download names the file that was clicked, whatever its name.\<close>

lemma url_decode_component_char:
  "url_decode ((if component_safe c then [c]
     else let n = (of_char c :: nat) in [CHR ''%'', hex_digit (n div 16), hex_digit (n mod 16)]) @ r) = c # url_decode r"
proof (cases "component_safe c")
  case True
  then have "c \<noteq> CHR ''+''" "c \<noteq> CHR ''%''" by (auto simp: component_safe_def Let_def)
  with True show ?thesis by simp
next
  case False
  let ?n = "(of_char c :: nat)"
  have "?n div 16 < 16" using of_char_lt [of c] by (intro less_mult_imp_div_less) simp
  then have "16 * hex_val (hex_digit (?n div 16)) + hex_val (hex_digit (?n mod 16)) = ?n"
    by (simp add: hex_val_hex_digit)
  then show ?thesis using False by (simp add: Let_def)
qed

lemma url_decode_component [simp]: "url_decode (encodeURIComponent s) = s"
  unfolding encodeURIComponent_def
  by (induction s) (simp_all only: list.map concat.simps url_decode_component_char url_decode.simps)

text \<open>
  Deleting acts on the file that was clicked: the request names, once its query string is decoded, the
  item within the folder on display.
\<close>

theorem deletion_names_clicked_file:
  assumes "list_all names_ok acts" and "s = fold fb_act acts initialBrowser"
  shows "\<exists>q m. fst (deleteStart v item True s) = Some m \<and>
    req_path (mutationFn m) = ''/volumes/'' @ v @ ''/files?path='' @ q \<and>
    download_path v item s = ''/volumes/'' @ v @ ''/download?path='' @ q \<and>
    url_decode q = js_join ''/'' (foldl location_step [] acts @ [item])"
proof -
  let ?ps = "foldl location_step [] acts"
  have p: "currentPath s = js_join ''/'' ?ps" "list_all file_name ?ps"
    using fb_run_path[of initialBrowser "[]" acts] assms by (simp_all add: initialBrowser_def)
  show ?thesis
    by (intro exI[of _ "encodeURIComponent (item_path (currentPath s) item)"])
      (simp add: deleteStart_def useDeleteVolumeFile_def volume_mutation_def api_delete_def download_path_def
        item_path_join[OF p(2)] p(1))
qed

theorem deletion_names_clicked_file_witness:
  "url_decode (encodeURIComponent ''data/50% & more'') = ''data/50% & more'' \<and>
   (\<exists>m. fst (deleteStart ''v1'' ''50% & more'' True (fold fb_act [(Navigate ''data'' :: nat FbAction)] initialBrowser)) = Some m)"
  using deletion_names_clicked_file[of "[(Navigate ''data'' :: nat FbAction)]" _ "''v1''" "''50% & more''", OF _ refl]
  by (auto simp: file_name_def)

subsection \<open>Search\<close>

lemma search_settles:
  "let t = searchElapsed (handleSearchChange v s)
   in vf_search (browser_params t) = (if searchQuery t = [] then None else Some (searchQuery t)) \<and> fb_page t = 1"
  by (simp add: searchElapsed_def handleSearchChange_def browser_params_def Let_def)

text \<open>
  Entering a folder clears the search but not its timer. Text typed less than three hundred milliseconds
  earlier therefore filters the new folder although the search field is empty.
\<close>

theorem navigation_keeps_search_timer:
  assumes "searchTimeout s = Some v" and "v \<noteq> []"
  shows "let t = searchElapsed (handleNavigate item s)
    in searchQuery t = [] \<and> vf_search (browser_params t) = Some v \<and> vf_path (browser_params t) =
      Some (item_path (currentPath s) item)"
  using assms by (simp add: searchElapsed_def handleNavigate_def browser_params_def Let_def)

theorem navigation_keeps_search_timer_witness:
  "vf_search (browser_params (searchElapsed (handleNavigate ''src'' (handleSearchChange ''sr'' initialBrowser)))) =
     Some ''sr''"
  using navigation_keeps_search_timer[of "handleSearchChange ''sr'' initialBrowser" "''sr''" "''src''"]
  by (simp add: handleSearchChange_def Let_def)

subsection \<open>The window of rendered rows\<close>

lemma listScroll_window:
  "scrolledItems (listScroll a b c (Some xs) s) =
    (if a + c \<ge> b - 200 then min (scrolledItems s + 50) (length xs) else scrolledItems s)"
  by (simp add: listScroll_def)

text \<open>Scrolling to the end often enough shows the whole page.\<close>

lemma scrolling_reveals_all:
  assumes "scTop + client \<ge> height - 200" and "length xs \<le> scrolledItems s + 50 * k" and "0 < k"
  shows "visibleItems ((listScroll scTop height client (Some xs) ^^ k) s) (Some xs) = xs"
proof -
  have "scrolledItems ((listScroll scTop height client (Some xs) ^^ k) s) = min (scrolledItems s + 50 * k) (length xs)"
    using assms(3)
  proof (induction k)
    case (Suc k)
    then show ?case using assms(1) by (cases "k = 0") (simp_all add: listScroll_window)
  qed simp
  with assms(2) show ?thesis by (simp add: visibleItems_def min_def)
qed

fun keeps_window :: "'i FbAction \<Rightarrow> bool" where
  "keeps_window (Navigate _) = False"
| "keeps_window GoUp = False"
| "keeps_window (PathClick _) = False"
| "keeps_window (Scroll _ _ _ _) = False"
| "keeps_window _ = True"

lemma keeps_window_act: "keeps_window a \<Longrightarrow> scrolledItems (fb_act a s) = scrolledItems s"
  by (cases a) (simp_all add: rootClick_def handleSearchChange_def searchElapsed_def handleSort_def prevPage_def
      nextPage_def deleteStart_def deleteEnd_def split: option.splits)

lemma keeps_window_run: "list_all keeps_window acts \<Longrightarrow> scrolledItems (fold fb_act acts s) = scrolledItems s"
  by (induction acts arbitrary: s) (simp_all add: keeps_window_act)

text \<open>
  The row window never grows past what was last on display, and nothing but changing folder resets it. A
  scroll event that arrives while the listing is loading closes it altogether: whatever is loaded then, no row
  is shown and the list says there is more, until the folder is left or the empty list is scrolled.
\<close>

theorem scroll_while_loading_hides_rows:
  assumes "scTop + client \<ge> height - 200" and "list_all keeps_window acts" and "xs \<noteq> []"
  shows "let t = fold fb_act acts (listScroll scTop height client (None :: 'i list option) s)
    in visibleItems t (Some xs) = [] \<and> hasMore t (Some (xs :: 'i list))"
  using assms keeps_window_run[OF assms(2)]
  by (simp add: visibleItems_def hasMore_def listScroll_def Let_def)

theorem scroll_while_loading_hides_rows_witness:
  "visibleItems (fold fb_act [Prev, (SortOn BySize :: nat FbAction)]
     (listScroll 0 600 600 (None :: nat list option) initialBrowser)) (Some [1, 2, 3 :: nat]) = []"
  using scroll_while_loading_hides_rows[of 600 0 600 "[Prev, (SortOn BySize :: nat FbAction)]" "[1, 2, 3 :: nat]" initialBrowser]
  by (simp add: Let_def)

text \<open>On a short page the window shrinks, and going back to a full page leaves the rest of it hidden.\<close>

lemma short_page_shrinks_window:
  assumes "scTop + client \<ge> height - 200" and "length ys \<le> length xs" and "length ys \<le> scrolledItems s + 50"
  shows "visibleItems (prevPage (listScroll scTop height client (Some ys) s)) (Some xs) = take (length ys) xs"
  using assms by (simp add: visibleItems_def prevPage_def listScroll_def min_def)

lemma shown_ranges_adjoin:
  "1 \<le> p \<Longrightarrow> p * PAGE_SIZE \<le> n \<Longrightarrow> fst (shown_range (p + 1) n) = snd (shown_range p n) + 1"
  by (simp add: shown_range_def)

end
