(* ===== verification/Confirm_Dialog.thy ===== *)
theory Confirm_Dialog
  imports Js_Values Prelude
begin

text \<open>
  The confirmation dialog (\<^verbatim>\<open>components/ui/confirm-dialog.tsx\<close>, closed by \<^verbatim>\<open>components/ui/modal.tsx\<close>). A call
  of \<^verbatim>\<open>confirm\<close> is a promise, numbered in the order of the calls; the dialog's state holds the one that its
  buttons resolve. \<open>answers\<close> is the log of resolutions with the text that was in the input.
\<close>

record ConfirmOptions =
  co_title :: string
  co_description :: "string option"
  co_confirmLabel :: "string option"
  co_cancelLabel :: "string option"
  co_variant :: "string option"
  co_typeToConfirm :: "string option"

record ConfirmState =
  cd_options :: ConfirmOptions
  cd_isOpen :: bool
  cd_resolve :: "nat option"

record ConfirmHook =
  cd_state :: ConfirmState
  typedText :: string
  nextQuestion :: nat
  asked :: "nat \<Rightarrow> string option"
  answers :: "(nat \<times> bool \<times> string) list"

definition initialConfirm :: ConfirmHook where
  "initialConfirm =
    \<lparr>cd_state = \<lparr>cd_options = \<lparr>co_title = [], co_description = Some [], co_confirmLabel = Some ''Confirm'',
        co_cancelLabel = Some ''Cancel'', co_variant = Some ''info'', co_typeToConfirm = None\<rparr>,
        cd_isOpen = False, cd_resolve = None\<rparr>,
     typedText = [], nextQuestion = 0, asked = (\<lambda>_. None), answers = []\<rparr>"

definition nullish :: "'a \<Rightarrow> 'a option \<Rightarrow> 'a option" where
  "nullish d v = Some (case v of None \<Rightarrow> d | Some x \<Rightarrow> x)"

definition confirm :: "ConfirmOptions \<Rightarrow> ConfirmHook \<Rightarrow> nat \<times> ConfirmHook" where
  "confirm options h =
    (nextQuestion h,
     h\<lparr>typedText := [],
       cd_state := \<lparr>cd_options = options
           \<lparr>co_confirmLabel := nullish ''Confirm'' (co_confirmLabel options),
            co_cancelLabel := nullish ''Cancel'' (co_cancelLabel options),
            co_variant := nullish ''info'' (co_variant options)\<rparr>,
         cd_isOpen = True, cd_resolve = Some (nextQuestion h)\<rparr>,
       nextQuestion := Suc (nextQuestion h),
       asked := (asked h)(nextQuestion h := co_typeToConfirm options)\<rparr>)"

definition closeConfirm :: "bool \<Rightarrow> ConfirmHook \<Rightarrow> ConfirmHook" where
  "closeConfirm v h =
    h\<lparr>answers := answers h @ (case cd_resolve (cd_state h) of None \<Rightarrow> [] | Some p \<Rightarrow> [(p, v, typedText h)]),
      cd_state := (cd_state h)\<lparr>cd_isOpen := False, cd_resolve := None\<rparr>, typedText := []\<rparr>"

definition normal_text :: "string \<Rightarrow> string" where
  "normal_text s = js_trim (js_toLowerCase s)"

definition text_required :: "string option \<Rightarrow> string \<Rightarrow> bool" where
  "text_required want typed =
    (case want of Some (c # cs) \<Rightarrow> normal_text typed \<noteq> normal_text (c # cs) | _ \<Rightarrow> False)"

definition confirmDisabled :: "ConfirmHook \<Rightarrow> bool" where
  "confirmDisabled h = text_required (co_typeToConfirm (cd_options (cd_state h))) (typedText h)"

definition typeText :: "string \<Rightarrow> ConfirmHook \<Rightarrow> ConfirmHook" where
  "typeText t h = h\<lparr>typedText := t\<rparr>"

text \<open>The confirm button is disabled, and Enter in the input ignored, while the text is missing.\<close>

definition clickConfirm :: "ConfirmHook \<Rightarrow> ConfirmHook" where
  "clickConfirm h = (if confirmDisabled h then h else closeConfirm True h)"

definition pressEnter :: "ConfirmHook \<Rightarrow> ConfirmHook" where
  "pressEnter h = (if \<not> confirmDisabled h then closeConfirm True h else h)"

text \<open>Cancel, Escape and a click outside the modal.\<close>

definition dismiss :: "ConfirmHook \<Rightarrow> ConfirmHook" where
  "dismiss h = closeConfirm False h"

subsection \<open>Promises of the dialog\<close>

inductive confirm_step :: "ConfirmHook \<Rightarrow> ConfirmHook \<Rightarrow> bool" where
  ask: "confirm_step h (snd (confirm options h))"
| typing: "confirm_step h (typeText t h)"
| click: "confirm_step h (clickConfirm h)"
| enter: "confirm_step h (pressEnter h)"
| dismissed: "confirm_step h (dismiss h)"

inductive_cases confirm_stepE: "confirm_step h h'"

definition answer_ok :: "(nat \<Rightarrow> string option) \<Rightarrow> nat \<times> bool \<times> string \<Rightarrow> bool" where
  "answer_ok a x = (case x of (p, v, t) \<Rightarrow> v \<longrightarrow> \<not> text_required (a p) t)"

definition confirm_inv :: "ConfirmHook \<Rightarrow> bool" where
  "confirm_inv h \<longleftrightarrow>
    distinct (map fst (answers h)) \<and> (\<forall>x \<in> set (answers h). fst x < nextQuestion h \<and> answer_ok (asked h) x) \<and>
    (case cd_resolve (cd_state h) of
       None \<Rightarrow> True
     | Some p \<Rightarrow> p < nextQuestion h \<and> p \<notin> fst ` set (answers h) \<and>
         asked h p = co_typeToConfirm (cd_options (cd_state h)))"

lemma confirm_inv_close:
  assumes "confirm_inv h" and "v \<longrightarrow> \<not> confirmDisabled h"
  shows "confirm_inv (closeConfirm v h)"
  using assms by (auto simp: confirm_inv_def closeConfirm_def answer_ok_def confirmDisabled_def split: option.splits)

lemma confirm_inv_ask:
  assumes "confirm_inv h"
  shows "confirm_inv (snd (confirm options h))"
proof -
  have old: "fst x < nextQuestion h" "answer_ok (asked h) x" if "x \<in> set (answers h)" for x
    using assms that by (auto simp: confirm_inv_def)
  have "answer_ok ((asked h)(nextQuestion h := w)) x" if "x \<in> set (answers h)" for x w
    using old[OF that] by (auto simp: answer_ok_def split: prod.splits)
  moreover have "nextQuestion h \<notin> fst ` set (answers h)" by (auto dest: old(1))
  ultimately show ?thesis
    using assms by (auto simp: confirm_inv_def confirm_def less_Suc_eq dest: old(1))
qed

lemma confirm_inv_type: "confirm_inv h \<Longrightarrow> confirm_inv (typeText t h)"
  by (simp add: confirm_inv_def typeText_def split: option.splits)

interpretation confirm_sys: transition_system "\<lambda>h. h = initialConfirm" confirm_step confirm_inv
proof
  show "h = initialConfirm \<Longrightarrow> confirm_inv h" for h by (simp add: confirm_inv_def initialConfirm_def)
  show "confirm_inv h \<Longrightarrow> confirm_step h h' \<Longrightarrow> confirm_inv h'" for h h'
    by (erule confirm_stepE) (auto simp: confirm_inv_ask confirm_inv_type clickConfirm_def pressEnter_def dismiss_def
        intro: confirm_inv_close)
qed

text \<open>
  Nothing dangerous happens by accident: whatever is typed, clicked or dismissed in any order, a question is
  answered at most once, and it is answered yes only with the text it asks for in the input, up to case and
  surrounding white space.
\<close>

theorem confirmed_only_as_typed:
  assumes "confirm_step\<^sup>*\<^sup>* initialConfirm h"
  shows "distinct (map fst (answers h)) \<and>
    (\<forall>p t w. (p, True, t) \<in> set (answers h) \<longrightarrow> asked h p = Some w \<longrightarrow> w \<noteq> [] \<longrightarrow>
       js_trim (js_toLowerCase t) = js_trim (js_toLowerCase w))"
proof -
  have inv: "confirm_inv h" using confirm_sys.reachable_inv[OF refl assms] .
  have "normal_text t = normal_text w" if "(p, True, t) \<in> set (answers h)" "asked h p = Some w" "w \<noteq> []" for p t w
    using inv that by (fastforce simp: confirm_inv_def answer_ok_def text_required_def split: list.splits)
  with inv show ?thesis by (simp add: confirm_inv_def normal_text_def)
qed

definition demo_question :: ConfirmOptions where
  "demo_question = \<lparr>co_title = ''Share?'', co_description = None, co_confirmLabel = None, co_cancelLabel = None,
     co_variant = None, co_typeToConfirm = Some ''YES''\<rparr>"

definition demo_confirm :: ConfirmHook where
  "demo_confirm = clickConfirm (typeText '' yes'' (clickConfirm (typeText ''no'' (snd (confirm demo_question initialConfirm)))))"

lemma demo_confirm_steps: "confirm_step\<^sup>*\<^sup>* initialConfirm demo_confirm"
  unfolding demo_confirm_def by (meson confirm_step.intros rtranclp.rtrancl_into_rtrancl rtranclp.rtrancl_refl)

theorem confirmed_only_as_typed_witness:
  "answers demo_confirm = [(0, True, '' yes'')] \<and> js_trim (js_toLowerCase '' yes'') = js_trim (js_toLowerCase ''YES'')"
proof -
  have n: "normal_text '' yes'' = ''yes''" "normal_text ''no'' = ''no''" "normal_text ''YES'' = ''yes''"
    by code_simp+
  then have a: "answers demo_confirm = [(0, True, '' yes'')]" "asked demo_confirm 0 = Some ''YES''"
    by (simp_all add: demo_confirm_def demo_question_def clickConfirm_def typeText_def confirm_def initialConfirm_def
        confirmDisabled_def text_required_def closeConfirm_def)
  then have "(0, True, '' yes'') \<in> set (answers demo_confirm)" by simp
  with confirmed_only_as_typed[OF demo_confirm_steps] a show ?thesis by blast
qed

text \<open>
  A second question asked while one is open takes its place: the first promise is then never settled, and
  the code waiting for it neither proceeds nor gives up.
\<close>

definition abandoned :: "nat \<Rightarrow> ConfirmHook \<Rightarrow> bool" where
  "abandoned p h \<longleftrightarrow> p < nextQuestion h \<and> cd_resolve (cd_state h) \<noteq> Some p \<and> p \<notin> fst ` set (answers h)"

lemma abandoned_step: "confirm_step h h' \<Longrightarrow> abandoned p h \<Longrightarrow> abandoned p h'"
  by (erule confirm_stepE)
    (auto simp: abandoned_def confirm_def typeText_def clickConfirm_def pressEnter_def dismiss_def closeConfirm_def
      split: option.splits)

lemma second_question_abandons_first:
  assumes "confirm_step\<^sup>*\<^sup>* initialConfirm h" and "cd_resolve (cd_state h) = Some p"
    and "confirm_step\<^sup>*\<^sup>* (snd (confirm options h)) h'"
  shows "p \<notin> fst ` set (answers h')"
proof -
  have "confirm_inv h" using confirm_sys.reachable_inv[OF refl assms(1)] .
  then have "abandoned p (snd (confirm options h))"
    using assms(2) by (auto simp: abandoned_def confirm_def confirm_inv_def)
  with assms(3) have "abandoned p h'" by (induction rule: rtranclp_induct) (auto intro: abandoned_step)
  then show ?thesis by (simp add: abandoned_def)
qed

text \<open>Without one, every way of closing the dialog settles its promise.\<close>

lemma closing_settles:
  "cd_resolve (cd_state h) = Some p \<Longrightarrow> (p, v, typedText h) \<in> set (answers (closeConfirm v h))"
  by (simp add: closeConfirm_def)

end
