(* ===== verification/Token_Page.thy ===== *)
theory Token_Page
  imports Query_Hooks Confirm_Dialog
begin

text \<open>
  The page of personal access tokens (\<^verbatim>\<open>components/settings/tokens-page.tsx\<close>): the scopes it offers, the
  dialog that creates a token, the list and its actions; and the validation of
  \<^verbatim>\<open>backend/app/api/tokens.py\<close> that a request has to pass.
\<close>

record Scope =
  scope_value :: string
  scope_label :: string
  scope_description :: string
  scope_category :: string

definition scope :: "string \<Rightarrow> string \<Rightarrow> string \<Rightarrow> string \<Rightarrow> Scope" where
  "scope v l d c = \<lparr>scope_value = v, scope_label = l, scope_description = d, scope_category = c\<rparr>"

definition AVAILABLE_SCOPES :: "Scope list" where
  "AVAILABLE_SCOPES =
    [scope ''servers:read'' ''Read Servers'' ''View server details'' ''Servers'',
     scope ''servers:manage'' ''Manage Servers'' ''Create, start, stop, and delete servers'' ''Servers'',
     scope ''volumes:read'' ''Read Volumes'' ''View volume details'' ''Volumes'',
     scope ''volumes:manage'' ''Manage Volumes'' ''Create and manage volumes'' ''Volumes'',
     scope ''workspaces:read'' ''Read Workspaces'' ''View workspace details'' ''Workspaces'',
     scope ''workspaces:manage'' ''Manage Workspaces'' ''Create and manage workspaces'' ''Workspaces'',
     scope ''user:read'' ''Read User'' ''View user profile information'' ''User'',
     scope ''user:update'' ''Update User'' ''Update user profile'' ''User'',
     scope ''credits:read'' ''Read Credits'' ''View credit balance and history'' ''Credits'',
     scope ''notifications:read'' ''Read Notifications'' ''View notifications'' ''Notifications'',
     scope ''notifications:write'' ''Manage Notifications'' ''Mark notifications as read'' ''Notifications'',
     scope ''preferences:read'' ''Read Preferences'' ''View user preferences'' ''Preferences'',
     scope ''preferences:write'' ''Write Preferences'' ''Update user preferences'' ''Preferences'']"

definition EXPIRATION_OPTIONS :: "(string \<times> string) list" where
  "EXPIRATION_OPTIONS = [(''7'', ''7 days''), (''30'', ''30 days''), (''90'', ''90 days''), (''180'', ''6 months''),
     (''365'', ''1 year'')]"

definition VALID_TOKEN_SCOPES :: "string list" where
  "VALID_TOKEN_SCOPES =
    [''analytics:read'', ''credits:read'', ''dashboard:read'', ''environments:read'', ''metrics:read'',
     ''notifications:read'', ''notifications:write'', ''plans:read'', ''preferences:read'', ''preferences:write'',
     ''quotas:read'', ''schedules:read'', ''schedules:write'', ''servers:read'', ''servers:start'', ''servers:stop'',
     ''servers:delete'', ''servers:manage'', ''user:read'', ''user:update'', ''volumes:read'', ''volumes:manage'',
     ''workspaces:read'', ''workspaces:manage'']"

text \<open>The model \<^verbatim>\<open>TokenCreate\<close> of the backend: bounds of the fields, and the validator of the scopes.\<close>

definition TokenCreate_accepts :: "string \<Rightarrow> string list \<Rightarrow> int \<Rightarrow> bool" where
  "TokenCreate_accepts token_name scopes days \<longleftrightarrow>
    1 \<le> length token_name \<and> length token_name \<le> 255 \<and> 1 \<le> days \<and> days \<le> 365 \<and>
    list_all (\<lambda>s. s \<in> set VALID_TOKEN_SCOPES) scopes"

subsection \<open>Creating a token\<close>

text \<open>
  The dialog and the page each call \<^verbatim>\<open>useTokenActions\<close>, so each holds mutations of its own: \<open>td_creating\<close> is
  \<^verbatim>\<open>createToken.isPending\<close> of the dialog's, \<open>page_creating\<close> of the page's. \<open>td_sent\<close> is the log of requests.
\<close>

record TokenDialog =
  td_open :: bool
  td_name :: string
  td_expires :: string
  td_scopes :: "string list"
  td_nameError :: string
  td_creating :: bool
  page_creating :: bool
  td_sent :: "json list"
  newToken :: "string option"

definition default_scopes :: "string list" where
  "default_scopes = [''servers:read'', ''servers:manage'']"

definition initialTokenDialog :: TokenDialog where
  "initialTokenDialog = \<lparr>td_open = False, td_name = [], td_expires = ''30'', td_scopes = default_scopes,
     td_nameError = [], td_creating = False, page_creating = False, td_sent = [], newToken = None\<rparr>"

definition isCreating :: "TokenDialog \<Rightarrow> bool" where
  "isCreating d = page_creating d"

definition openDialog :: "TokenDialog \<Rightarrow> TokenDialog" where
  "openDialog d = d\<lparr>td_open := True\<rparr>"

definition toggleScope :: "string \<Rightarrow> TokenDialog \<Rightarrow> TokenDialog" where
  "toggleScope s d = d\<lparr>td_scopes :=
     (if s \<in> set (td_scopes d) then filter (\<lambda>x. x \<noteq> s) (td_scopes d) else td_scopes d @ [s])\<rparr>"

definition changeName :: "string \<Rightarrow> TokenDialog \<Rightarrow> TokenDialog" where
  "changeName n d = d\<lparr>td_name := n, td_nameError := []\<rparr>"

definition changeExpires :: "string \<Rightarrow> TokenDialog \<Rightarrow> TokenDialog" where
  "changeExpires e d = d\<lparr>td_expires := e\<rparr>"

definition token_body :: "string \<Rightarrow> string list \<Rightarrow> int option \<Rightarrow> json" where
  "token_body n scopes days = JObj [(''name'', JStr n), (''scopes'', JArr (map JStr scopes)),
     (''expires_days'', case days of None \<Rightarrow> JNull | Some x \<Rightarrow> JNum x 0)]"

definition handleTokenSubmit :: "TokenDialog \<Rightarrow> TokenDialog" where
  "handleTokenSubmit d =
    (if js_trim (td_name d) = [] then d\<lparr>td_nameError := ''Token name is required''\<rparr>
     else if td_scopes d = [] then d\<lparr>td_nameError := ''Select at least one scope''\<rparr>
     else d\<lparr>td_nameError := [], td_creating := True,
            td_sent := td_sent d @ [token_body (js_trim (td_name d)) (td_scopes d) (js_parseInt10 (td_expires d))]\<rparr>)"

text \<open>The answer to the request: the page shows the token and closes the dialog, the dialog clears its fields.\<close>

definition tokenCreated :: "string \<Rightarrow> TokenDialog \<Rightarrow> TokenDialog" where
  "tokenCreated value d =
    d\<lparr>newToken := Some value, td_open := False, td_name := [], td_scopes := default_scopes, td_expires := ''30'',
      td_creating := False\<rparr>"

definition tokenRefused :: "TokenDialog \<Rightarrow> TokenDialog" where
  "tokenRefused d = d\<lparr>td_creating := False\<rparr>"

definition closeTokenDialog :: "TokenDialog \<Rightarrow> TokenDialog" where
  "closeTokenDialog d =
    (if \<not> isCreating d
     then d\<lparr>td_name := [], td_nameError := [], td_scopes := default_scopes, td_expires := ''30'', td_open := False\<rparr>
     else d)"

definition dismissToken :: "TokenDialog \<Rightarrow> TokenDialog" where
  "dismissToken d = d\<lparr>newToken := None\<rparr>"

text \<open>Only the offered checkboxes and options can be chosen.\<close>

inductive token_step :: "TokenDialog \<Rightarrow> TokenDialog \<Rightarrow> bool" where
  "token_step d (openDialog d)"
| "s \<in> scope_value ` set AVAILABLE_SCOPES \<Longrightarrow> token_step d (toggleScope s d)"
| "token_step d (changeName n d)"
| "e \<in> fst ` set EXPIRATION_OPTIONS \<Longrightarrow> token_step d (changeExpires e d)"
| "token_step d (handleTokenSubmit d)"
| "token_step d (tokenCreated v d)"
| "token_step d (tokenRefused d)"
| "token_step d (closeTokenDialog d)"
| "token_step d (dismissToken d)"

inductive_cases token_stepE: "token_step d d'"

text \<open>A request body the backend accepts if the name is not too long.\<close>

definition body_ok :: "json \<Rightarrow> bool" where
  "body_ok b \<longleftrightarrow> (\<exists>n scopes days. b = token_body n scopes (Some days) \<and> js_trim n = n \<and> scopes \<noteq> [] \<and>
    distinct scopes \<and> (length n \<le> 255 \<longrightarrow> TokenCreate_accepts n scopes days))"

definition token_inv :: "TokenDialog \<Rightarrow> bool" where
  "token_inv d \<longleftrightarrow> distinct (td_scopes d) \<and> set (td_scopes d) \<subseteq> scope_value ` set AVAILABLE_SCOPES \<and>
    td_expires d \<in> fst ` set EXPIRATION_OPTIONS \<and> \<not> page_creating d \<and> list_all body_ok (td_sent d)"

lemma offered_scopes_valid: "scope_value ` set AVAILABLE_SCOPES \<subseteq> set VALID_TOKEN_SCOPES"
  by (simp add: AVAILABLE_SCOPES_def VALID_TOKEN_SCOPES_def scope_def)

lemma default_scopes_offered: "set default_scopes \<subseteq> scope_value ` set AVAILABLE_SCOPES"
  by (simp add: AVAILABLE_SCOPES_def default_scopes_def scope_def)

lemma offered_expiry:
  "e \<in> fst ` set EXPIRATION_OPTIONS \<Longrightarrow> \<exists>days. js_parseInt10 e = Some days \<and> 1 \<le> days \<and> days \<le> 365"
  by (auto simp: EXPIRATION_OPTIONS_def js_parseInt10_def js_space_def is_digit_def read_digits_def digit_val_def)

lemma token_body_ok:
  assumes "token_inv d" and "js_trim (td_name d) \<noteq> []" and "td_scopes d \<noteq> []"
  shows "body_ok (token_body (js_trim (td_name d)) (td_scopes d) (js_parseInt10 (td_expires d)))"
proof -
  obtain days where days: "js_parseInt10 (td_expires d) = Some days" "1 \<le> days" "days \<le> 365"
    using assms(1) offered_expiry by (auto simp: token_inv_def)
  have "set (td_scopes d) \<subseteq> set VALID_TOKEN_SCOPES" using assms(1) offered_scopes_valid by (auto simp: token_inv_def)
  then have "list_all (\<lambda>s. s \<in> set VALID_TOKEN_SCOPES) (td_scopes d)" by (auto simp: list_all_iff)
  with days assms show ?thesis
    unfolding body_ok_def
    by (intro exI[of _ "js_trim (td_name d)"] exI[of _ "td_scopes d"] exI[of _ days])
      (simp add: TokenCreate_accepts_def js_trim_trim token_inv_def Suc_le_eq)
qed

lemma token_inv_submit: "token_inv d \<Longrightarrow> token_inv (handleTokenSubmit d)"
  using token_body_ok[of d] by (auto simp: handleTokenSubmit_def token_inv_def)

lemma token_inv_toggle:
  "token_inv d \<Longrightarrow> s \<in> scope_value ` set AVAILABLE_SCOPES \<Longrightarrow> token_inv (toggleScope s d)"
  by (auto simp: toggleScope_def token_inv_def)

lemma token_inv_default: "td_scopes d = default_scopes \<Longrightarrow> td_expires d = ''30'' \<Longrightarrow> \<not> page_creating d \<Longrightarrow>
    list_all body_ok (td_sent d) \<Longrightarrow> token_inv d"
  using default_scopes_offered by (simp add: token_inv_def EXPIRATION_OPTIONS_def default_scopes_def)

interpretation token_sys: transition_system "\<lambda>d. d = initialTokenDialog" token_step token_inv
proof
  show "d = initialTokenDialog \<Longrightarrow> token_inv d" for d
    by (rule token_inv_default) (simp_all add: initialTokenDialog_def)
  show "token_inv d \<Longrightarrow> token_step d d' \<Longrightarrow> token_inv d'" for d d'
  proof (erule token_stepE)
    assume "token_inv d" "d' = closeTokenDialog d"
    then show "token_inv d'"
      by (auto simp: closeTokenDialog_def isCreating_def token_inv_def intro!: token_inv_default)
        (auto simp: default_scopes_offered EXPIRATION_OPTIONS_def default_scopes_def AVAILABLE_SCOPES_def scope_def)
  next
    fix v assume "token_inv d" "d' = tokenCreated v d"
    then show "token_inv d'" by (intro token_inv_default) (auto simp: tokenCreated_def token_inv_def)
  qed (simp_all add: token_inv_submit token_inv_toggle, simp_all add: token_inv_def openDialog_def changeName_def
      changeExpires_def tokenRefused_def dismissToken_def)
qed

text \<open>
  C30. Whatever the user does with the dialog for a new token, every request it sends has a trimmed name, at least one
  scope and no scope twice, and it passes the validation of the backend exactly if the name has at most 255 characters:
  the field has no bound, so a longer name is sent and refused.
\<close>

theorem token_requests_accepted:
  assumes "token_step\<^sup>*\<^sup>* initialTokenDialog d" and "b \<in> set (td_sent d)"
  shows "\<exists>n scopes days. b = token_body n scopes (Some days) \<and> n \<noteq> [] \<and> js_trim n = n \<and> scopes \<noteq> [] \<and> distinct scopes \<and>
    (TokenCreate_accepts n scopes days \<longleftrightarrow> length n \<le> 255)"
proof -
  obtain n scopes days where b: "b = token_body n scopes (Some days)" "js_trim n = n" "scopes \<noteq> []" "distinct scopes"
    "length n \<le> 255 \<longrightarrow> TokenCreate_accepts n scopes days"
    using token_sys.reachable_inv [OF refl assms(1)] assms(2) by (auto simp: token_inv_def list_all_iff body_ok_def)
  moreover have "TokenCreate_accepts n scopes days \<longrightarrow> length n \<le> 255 \<and> n \<noteq> []" by (auto simp: TokenCreate_accepts_def)
  moreover have "n = [] \<longrightarrow> length n \<le> 255" by simp
  ultimately show ?thesis by blast
qed

definition demo_dialog :: TokenDialog where
  "demo_dialog = handleTokenSubmit (toggleScope ''user:read'' (changeName '' CLI '' (openDialog initialTokenDialog)))"

lemma demo_dialog_steps: "token_step\<^sup>*\<^sup>* initialTokenDialog demo_dialog"
proof -
  have "''user:read'' \<in> scope_value ` set AVAILABLE_SCOPES" by (simp add: AVAILABLE_SCOPES_def scope_def)
  then show ?thesis
    unfolding demo_dialog_def by (meson token_step.intros rtranclp.rtrancl_into_rtrancl rtranclp.rtrancl_refl)
qed

lemma demo_dialog_sent:
  "td_sent demo_dialog = [token_body ''CLI'' [''servers:read'', ''servers:manage'', ''user:read''] (Some 30)]"
proof -
  have "js_trim '' CLI '' = ''CLI''" "js_parseInt10 ''30'' = Some 30" by code_simp+
  then show ?thesis
    by (simp add: demo_dialog_def handleTokenSubmit_def toggleScope_def changeName_def openDialog_def
        initialTokenDialog_def default_scopes_def)
qed

theorem token_requests_accepted_witness:
  "\<exists>n scopes days. token_body ''CLI'' [''servers:read'', ''servers:manage'', ''user:read''] (Some 30) =
     token_body n scopes (Some days) \<and> (TokenCreate_accepts n scopes days \<longleftrightarrow> length n \<le> 255)"
  using token_requests_accepted[OF demo_dialog_steps, of "hd (td_sent demo_dialog)"]
  by (simp add: demo_dialog_sent) blast

text \<open>
  The dialog watches the page's mutation, which is never started, instead of its own: while a request is under
  way it is not marked as creating, its fields and its button stay enabled, and a second click sends the request
  again.
\<close>

theorem creating_never_blocks_dialog:
  assumes "token_step\<^sup>*\<^sup>* initialTokenDialog d" and "js_trim (td_name d) \<noteq> []" and "td_scopes d \<noteq> []"
  shows "let d1 = handleTokenSubmit d; d2 = handleTokenSubmit d1
    in td_creating d1 \<and> \<not> isCreating d1 \<and>
      (\<exists>b. td_sent d1 = td_sent d @ [b] \<and> td_sent d2 = td_sent d @ [b, b])"
  using token_sys.reachable_inv[OF refl assms(1)] assms(2,3)
  by (simp add: handleTokenSubmit_def isCreating_def token_inv_def Let_def)

theorem creating_never_blocks_dialog_witness:
  "\<exists>b. td_sent (handleTokenSubmit demo_dialog) = [b, b]"
proof -
  have n: "js_trim '' CLI '' \<noteq> []" by code_simp
  let ?d = "toggleScope ''user:read'' (changeName '' CLI '' (openDialog initialTokenDialog))"
  have "''user:read'' \<in> scope_value ` set AVAILABLE_SCOPES" by (simp add: AVAILABLE_SCOPES_def scope_def)
  then have "token_step\<^sup>*\<^sup>* initialTokenDialog ?d"
    by (meson token_step.intros rtranclp.rtrancl_into_rtrancl rtranclp.rtrancl_refl)
  from creating_never_blocks_dialog[OF this] show ?thesis using n
    by (auto simp: demo_dialog_def toggleScope_def changeName_def openDialog_def initialTokenDialog_def
        default_scopes_def Let_def)
qed

subsection \<open>The list of tokens\<close>

record ApiToken =
  tok_id :: string
  tok_name :: string
  tok_active :: bool
  tok_scopes :: "string list"

definition activeTokens :: "ApiToken list option \<Rightarrow> ApiToken list" where
  "activeTokens ts = (case ts of None \<Rightarrow> [] | Some xs \<Rightarrow> filter tok_active xs)"

definition revokedTokens :: "ApiToken list option \<Rightarrow> ApiToken list" where
  "revokedTokens ts = (case ts of None \<Rightarrow> [] | Some xs \<Rightarrow> filter (\<lambda>t. \<not> tok_active t) xs)"

text \<open>Each action asks first; the buttons depend on whether the token is active.\<close>

datatype TokenAction = Regenerate | Revoke | DeletePermanently

definition token_buttons :: "ApiToken \<Rightarrow> TokenAction list" where
  "token_buttons t = (if tok_active t then [Regenerate] else []) @ (if tok_active t then [Revoke] else [DeletePermanently])"

fun token_request :: "TokenAction \<Rightarrow> ApiToken \<Rightarrow> Mutation" where
  "token_request Regenerate t = regenerateToken (tok_id t)"
| "token_request Revoke t = revokeToken (tok_id t)"
| "token_request DeletePermanently t = deleteToken (tok_id t)"

definition token_action :: "TokenAction \<Rightarrow> ApiToken \<Rightarrow> bool \<Rightarrow> Mutation option" where
  "token_action a t confirmed = (if confirmed then Some (token_request a t) else None)"

definition toggleExpand :: "string option \<Rightarrow> ApiToken \<Rightarrow> string option" where
  "toggleExpand expanded t = (if expanded = Some (tok_id t) then None else Some (tok_id t))"

text \<open>The card names three scopes and counts the rest.\<close>

definition card_scopes :: "ApiToken \<Rightarrow> string list" where
  "card_scopes t = take 3 (tok_scopes t) @
     (if length (tok_scopes t) > 3 then [''+'' @ show_nat (length (tok_scopes t) - 3) @ '' more''] else [])"

lemma active_revoked_partition:
  "set (activeTokens (Some ts)) \<union> set (revokedTokens (Some ts)) = set ts \<and>
   set (activeTokens (Some ts)) \<inter> set (revokedTokens (Some ts)) = {} \<and>
   length (activeTokens (Some ts)) + length (revokedTokens (Some ts)) = length ts"
  by (auto simp: activeTokens_def revokedTokens_def sum_length_filter_compl)

text \<open>A token can be deleted for good only after it has been revoked.\<close>

lemma only_revoked_deleted: "DeletePermanently \<in> set (token_buttons t) \<longleftrightarrow> \<not> tok_active t"
  by (simp add: token_buttons_def)

lemma card_scopes_bounded: "length (card_scopes t) \<le> 4"
  by (simp add: card_scopes_def)

end
