(* ===== verification/Local_Time.thy ===== *)
theory Local_Time
  imports Iso_Time Calendar
begin

text \<open>
  Instants in form fields: the text \<^verbatim>\<open>YYYY-MM-DDTHH:MM\<close> in local time that the pages put into date and time
  pickers (\<^verbatim>\<open>routes/admin.maintenance-windows.tsx\<close>, \<^verbatim>\<open>components/admin/credits/users-tab.tsx\<close>), and reading it
  back. \<open>off\<close> is the offset of the local zone in minutes east of UTC, constant over the times of one form.
\<close>

definition local_ms :: "int \<Rightarrow> int \<Rightarrow> int" where
  "local_ms off t = (t + off * 60000) mod day_ms"

definition local_datetime :: "int \<Rightarrow> int \<Rightarrow> string" where
  "local_datetime off t = formatLocalDate (local_day off t) @ ''T'' @ fixed_width 2 (nat (local_ms off t div 3600000)) @
     '':'' @ fixed_width 2 (nat (local_ms off t div 60000 mod 60))"

text \<open>\<^verbatim>\<open>new Date(s)\<close> of such a field: without a zone the text is local time.\<close>

definition parse_local :: "int \<Rightarrow> string \<Rightarrow> int option" where
  "parse_local off s =
    Option.bind (parse_day (take 10 s)) (\<lambda>d.
    Option.bind (read_char CHR ''T'' (drop 10 s)) (\<lambda>r1.
    Option.bind (read_fixed 2 r1) (\<lambda>(h, r2).
    Option.bind (read_char CHR '':'' r2) (\<lambda>r3.
    Option.bind (read_fixed 2 r3) (\<lambda>(m, r4).
    if r4 = [] \<and> h < 24 \<and> m < 60 then Some (d * day_ms + h * 3600000 + m * 60000 - off * 60000) else None)))))"

lemma parse_local_text:
  assumes "four_digit d" and "h < 24" and "m < 60"
  shows "parse_local off (formatLocalDate d @ CHR ''T'' # fixed_width 2 h @ CHR '':'' # fixed_width 2 m) =
    Some (d * day_ms + int h * 3600000 + int m * 60000 - off * 60000)"
  using assms read_fixed_width_append[of m 2 "[]"]
  by (simp add: parse_local_def length_formatLocalDate parse_formatLocalDate read_char_def read_fixed_width_append
      del: fixed_width.simps)

lemma local_minutes:
  "local_ms off t div 3600000 * 3600000 + local_ms off t div 60000 mod 60 * 60000 = local_ms off t - t mod 60000"
  "0 \<le> local_ms off t div 3600000" "local_ms off t div 3600000 < 24"
proof -
  let ?ms = "local_ms off t"
  have r: "0 \<le> ?ms" "?ms < 86400000" by (simp_all add: local_ms_def day_ms_def)
  have "?ms div 60000 div 60 = ?ms div 3600000" by (simp add: zdiv_zmult2_eq [symmetric])
  moreover have "?ms div 60000 = 60 * (?ms div 60000 div 60) + ?ms div 60000 mod 60" by simp
  moreover have "?ms = 60000 * (?ms div 60000) + ?ms mod 60000" by simp
  moreover have "?ms mod 60000 = t mod 60000"
  proof -
    have "?ms mod 60000 = (t + off * 60000) mod 60000"
      unfolding local_ms_def day_ms_def by (rule mod_mod_cancel) simp
    then show ?thesis by simp
  qed
  ultimately show "?ms div 3600000 * 3600000 + ?ms div 60000 mod 60 * 60000 = ?ms - t mod 60000" by linarith
  show "0 \<le> ?ms div 3600000" "?ms div 3600000 < 24"
    using r time_of_day(2)[OF r] by (simp_all add: pos_imp_zdiv_nonneg_iff)
qed

lemma parse_local_datetime:
  assumes "four_digit (local_day off t)"
  shows "parse_local off (local_datetime off t) = Some (t - t mod 60000)"
proof -
  let ?h = "local_ms off t div 3600000" and ?m = "local_ms off t div 60000 mod 60"
  have "nat ?h < 24" "nat ?m < 60" using local_minutes(2,3)[of off t] by (auto simp: nat_less_iff)
  then have "parse_local off (local_datetime off t) =
      Some (local_day off t * day_ms + int (nat ?h) * 3600000 + int (nat ?m) * 60000 - off * 60000)"
    using parse_local_text[OF assms, of "nat ?h" "nat ?m" off] by (simp only: local_datetime_def append_Cons append_Nil)
  also have "\<dots> = Some (local_day off t * day_ms + (local_ms off t - t mod 60000) - off * 60000)"
  proof -
    have "int (nat ?h) = ?h" "int (nat ?m) = ?m" using local_minutes(2)[of off t] by simp_all
    then have "int (nat ?h) * 3600000 + int (nat ?m) * 60000 = local_ms off t - t mod 60000"
      using local_minutes(1)[of off t] by (simp only:)
    then show ?thesis unfolding option.inject by linarith
  qed
  finally have "parse_local off (local_datetime off t) =
      Some (local_day off t * day_ms + (local_ms off t - t mod 60000) - off * 60000)" .
  moreover have "local_day off t * day_ms + local_ms off t = t + off * 60000"
    by (simp add: local_day_def local_ms_def day_ms_def)
  ultimately show ?thesis by simp
qed

text \<open>
  The calendar and the clock each replace their half of a field; \<open>today\<close> is the date a time is given when there
  is none yet.
\<close>

definition pickDate :: "string \<Rightarrow> string \<Rightarrow> string" where
  "pickDate date field =
    (let time = (case js_split CHR ''T'' field of _ # x # _ \<Rightarrow> if x = [] then ''00:00'' else x | _ \<Rightarrow> ''00:00'')
     in date @ ''T'' @ (if field = [] then ''00:00'' else time))"

definition pickTime :: "string \<Rightarrow> nat \<Rightarrow> nat \<Rightarrow> string \<Rightarrow> string" where
  "pickTime today h m field =
    (let date = (if field \<noteq> [] then hd (js_split CHR ''T'' field) else today)
     in date @ ''T'' @ js_padStart2 (show_nat h) @ '':'' @ js_padStart2 (show_nat m))"

lemma pick_date_time:
  assumes "four_digit d" and "four_digit d'" and "h < 24" and "m < 60"
  shows "parse_local off (pickDate (formatLocalDate d') (formatLocalDate d @ CHR ''T'' # fixed_width 2 h @ CHR '':'' # fixed_width 2 m)) =
    Some (d' * day_ms + int h * 3600000 + int m * 60000 - off * 60000)"
proof -
  have T: "\<not> is_digit CHR ''T''" by (simp add: is_digit_def)
  have w: "CHR ''T'' \<notin> set (fixed_width k n)" for k n using fixed_width_digits[of "CHR ''T''" k n] T by blast
  have d: "CHR ''T'' \<notin> set (formatLocalDate d)"
    using w by (simp add: formatLocalDate_fixed[OF assms(1)] del: fixed_width.simps)
  have "js_split CHR ''T'' (formatLocalDate d @ CHR ''T'' # fixed_width 2 h @ CHR '':'' # fixed_width 2 m) =
      formatLocalDate d # js_split CHR ''T'' (fixed_width 2 h @ CHR '':'' # fixed_width 2 m)"
    by (rule js_split_append[OF d])
  also have "js_split CHR ''T'' (fixed_width 2 h @ CHR '':'' # fixed_width 2 m) = [fixed_width 2 h @ CHR '':'' # fixed_width 2 m]"
    using w by (intro js_split_no_sep) (simp del: fixed_width.simps)
  finally show ?thesis
    using parse_local_text[OF assms(2-4), of off] by (simp add: pickDate_def del: fixed_width.simps)
qed

end
