(* ===== verification/Maintenance_Page.thy ===== *)
theory Maintenance_Page
  imports Local_Time Admin_Hooks
begin

text \<open>
  The page of maintenance windows (\<^verbatim>\<open>routes/admin.maintenance-windows.tsx\<close>): instants in the fields of the
  form and back, the state of a window at a given moment, the form's checks and its reminders. \<open>off\<close> is the
  offset of the local zone in minutes east of UTC, constant over the times of one window.
\<close>

subsection \<open>Times in the form\<close>

definition toLocalDatetimeInputValue :: "int \<Rightarrow> string \<Rightarrow> string option" where
  "toLocalDatetimeInputValue off stamp = map_option (local_datetime off) (utc_time stamp)"

text \<open>\<^verbatim>\<open>toISOString\<close> of an invalid date throws.\<close>

definition fromLocalDatetimeInputValue :: "int \<Rightarrow> string \<Rightarrow> string option" where
  "fromLocalDatetimeInputValue off s = map_option toISOString (parse_local off s)"

text \<open>
  Opening a window for editing and saving it unchanged keeps its times to the minute, in every zone: the text
  in a field reads back as the instant it came from, less its seconds.
\<close>

theorem editing_keeps_times:
  assumes "utc_time stamp = Some t" and "four_digit (local_day off t)"
  shows "\<exists>field. toLocalDatetimeInputValue off stamp = Some field \<and>
    fromLocalDatetimeInputValue off field = Some (toISOString (t - t mod 60000))"
  using assms by (simp add: toLocalDatetimeInputValue_def fromLocalDatetimeInputValue_def parse_local_datetime)

theorem editing_keeps_times_witness:
  "\<exists>field. toLocalDatetimeInputValue 120 ''2026-03-15T23:30:45'' = Some field \<and>
    fromLocalDatetimeInputValue 120 field = Some ''2026-03-15T23:30:00.000Z''"
proof -
  have "utc_time ''2026-03-15T23:30:45'' = Some 1773617445000" by code_simp
  moreover have "four_digit (local_day 120 1773617445000)" by code_simp
  moreover have "toISOString (1773617445000 - 1773617445000 mod 60000) = ''2026-03-15T23:30:00.000Z''" by code_simp
  ultimately show ?thesis using editing_keeps_times by metis
qed

subsection \<open>The state of a window\<close>

record MaintenanceWindow =
  mw_id :: string
  mw_title :: string
  mw_message :: string
  mw_start_at :: string
  mw_end_at :: string
  mw_is_active :: bool
  mw_notify_offsets :: "int list option"
  mw_notified_at :: "string option"
  mw_auto_enabled :: bool
  mw_auto_disabled :: bool

datatype WindowStatus = Inactive | Completed | Active | InProgress | Scheduled | Pending | Expired

text \<open>\<^verbatim>\<open><=\<close>, \<^verbatim>\<open>>=\<close> and \<^verbatim>\<open>>\<close> on strings.\<close>

definition getWindowStatus :: "int \<Rightarrow> MaintenanceWindow \<Rightarrow> WindowStatus" where
  "getWindowStatus clock w =
    (let now = toISOString clock
     in if \<not> mw_is_active w then Inactive
        else if mw_auto_disabled w then Completed
        else if mw_auto_enabled w then Active
        else if \<not> js_lt now (mw_start_at w) \<and> \<not> js_lt (mw_end_at w) now then InProgress
        else if js_lt now (mw_start_at w)
          then (case mw_notified_at w of Some (c # cs) \<Rightarrow> Scheduled | _ \<Rightarrow> Pending)
        else Expired)"

text \<open>What the backend sends for a whole second: ISO text without fraction and zone.\<close>

definition naive_text :: "int \<Rightarrow> string" where
  "naive_text t =
    (let ms = t mod ms_per_day
     in formatLocalDate (t div ms_per_day) @ ''T'' @ fixed_width 2 (nat (ms div 3600000)) @ '':'' @
        fixed_width 2 (nat (ms div 60000 mod 60)) @ '':'' @ fixed_width 2 (nat (ms div 1000 mod 60)))"

definition fraction_text :: "int \<Rightarrow> string" where
  "fraction_text t = ''.'' @ fixed_width 3 (nat (t mod ms_per_day mod 1000)) @ ''Z''"

lemma toISOString_naive: "toISOString t = naive_text t @ fraction_text t"
  by (simp add: toISOString_def naive_text_def fraction_text_def Let_def del: fixed_width.simps)

lemma length_naive: "four_digit (t div ms_per_day) \<Longrightarrow> length (naive_text t) = 19"
  by (simp add: naive_text_def Let_def length_formatLocalDate del: fixed_width.simps)

lemma js_lt_fields:
  assumes "length a = length b"
  shows "js_lt (a @ c # s) (b @ c # t) \<longleftrightarrow> js_lt a b \<or> a = b \<and> js_lt s t"
  using js_lt_append[OF assms, of "c # s" "c # t"] by auto

text \<open>Comparing the fields of two times one after the other compares the times.\<close>

lemma lex_int:
  fixes a b k r u :: int
  assumes "0 \<le> r" and "r < k" and "0 \<le> u" and "u < k"
  shows "a * k + r < b * k + u \<longleftrightarrow> a < b \<or> a = b \<and> r < u"
proof (cases a b rule: linorder_cases)
  case less
  then have "(a + 1) * k \<le> b * k" using assms by (intro mult_right_mono) auto
  then show ?thesis using less assms by (simp add: algebra_simps)
next
  case greater
  then have "(b + 1) * k \<le> a * k" using assms by (intro mult_right_mono) auto
  then show ?thesis using greater assms by (simp add: algebra_simps)
qed simp

lemma lex_int_eq:
  fixes a b k r u :: int
  assumes "0 \<le> r" and "r < k" and "0 \<le> u" and "u < k"
  shows "a * k + r = b * k + u \<longleftrightarrow> a = b \<and> r = u"
  using lex_int[OF assms, of a b] lex_int[OF assms(3,4,1,2), of b a]
  by (metis linorder_neqE_linordered_idom order_less_irrefl)

lemma day_seconds: "t div 1000 = t div ms_per_day * 86400 + t mod ms_per_day div 1000" for t :: int
proof -
  have "t = t mod ms_per_day + (86400 * (t div ms_per_day)) * 1000" by (simp add: ms_per_day_def)
  then have "t div 1000 = (t mod ms_per_day + (86400 * (t div ms_per_day)) * 1000) div 1000" by (rule arg_cong)
  then show ?thesis by simp
qed

lemma second_fields:
  "p div 1000 = (p div 3600000 * 60 + p div 60000 mod 60) * 60 + p div 1000 mod 60" for p :: int
proof -
  have "p div 1000 div 60 = p div 60000" "p div 60000 div 60 = p div 3600000" by (simp_all add: zdiv_zmult2_eq [symmetric])
  moreover have "p div 1000 = p div 1000 div 60 * 60 + p div 1000 mod 60"
    "p div 60000 = p div 60000 div 60 * 60 + p div 60000 mod 60" by simp_all
  ultimately show ?thesis by simp
qed

lemma time_fields:
  "0 \<le> t mod ms_per_day div 3600000 \<and> t mod ms_per_day div 3600000 < 24" for t :: int
  using time_of_day(2)[of "t mod ms_per_day"] by (simp add: ms_per_day_def pos_imp_zdiv_nonneg_iff)

lemma seconds_split:
  fixes a b :: int
  shows "a div 1000 < b div 1000 \<longleftrightarrow>
    (let p = a mod ms_per_day; q = b mod ms_per_day in
     a div ms_per_day < b div ms_per_day \<or> a div ms_per_day = b div ms_per_day \<and>
     (p div 3600000 < q div 3600000 \<or> p div 3600000 = q div 3600000 \<and>
      (p div 60000 mod 60 < q div 60000 mod 60 \<or> p div 60000 mod 60 = q div 60000 mod 60 \<and>
        p div 1000 mod 60 < q div 1000 mod 60)))"
proof -
  let ?p = "a mod ms_per_day" and ?q = "b mod ms_per_day"
  have pq: "0 \<le> t mod ms_per_day div 1000 \<and> t mod ms_per_day div 1000 < 86400" for t :: int
    using zdiv_mono1[of "t mod ms_per_day" 86399999 1000] by (simp add: ms_per_day_def pos_imp_zdiv_nonneg_iff)
  have "a div 1000 < b div 1000 \<longleftrightarrow> a div ms_per_day < b div ms_per_day \<or> a div ms_per_day = b div ms_per_day \<and>
      ?p div 1000 < ?q div 1000"
    unfolding day_seconds[of a] day_seconds[of b] using pq[of a] pq[of b] by (intro lex_int) auto
  also have "?p div 1000 < ?q div 1000 \<longleftrightarrow> ?p div 3600000 * 60 + ?p div 60000 mod 60 < ?q div 3600000 * 60 + ?q div 60000 mod 60 \<or>
      ?p div 3600000 * 60 + ?p div 60000 mod 60 = ?q div 3600000 * 60 + ?q div 60000 mod 60 \<and> ?p div 1000 mod 60 < ?q div 1000 mod 60"
    using lex_int[of "?p div 1000 mod 60" 60 "?q div 1000 mod 60" "?p div 3600000 * 60 + ?p div 60000 mod 60"
        "?q div 3600000 * 60 + ?q div 60000 mod 60"]
    unfolding second_fields[symmetric] by simp
  also have "?p div 3600000 * 60 + ?p div 60000 mod 60 < ?q div 3600000 * 60 + ?q div 60000 mod 60 \<longleftrightarrow>
      ?p div 3600000 < ?q div 3600000 \<or> ?p div 3600000 = ?q div 3600000 \<and> ?p div 60000 mod 60 < ?q div 60000 mod 60"
    by (rule lex_int) auto
  also have "?p div 3600000 * 60 + ?p div 60000 mod 60 = ?q div 3600000 * 60 + ?q div 60000 mod 60 \<longleftrightarrow>
      ?p div 3600000 = ?q div 3600000 \<and> ?p div 60000 mod 60 = ?q div 60000 mod 60"
    by (rule lex_int_eq) auto
  finally show ?thesis unfolding Let_def by blast
qed

lemma naive_order:
  assumes "four_digit (a div ms_per_day)" and "four_digit (b div ms_per_day)"
  shows "js_lt (naive_text a) (naive_text b) \<longleftrightarrow> a div 1000 < b div 1000"
proof -
  have f: "0 \<le> t mod ms_per_day div 3600000 \<and> nat (t mod ms_per_day div 3600000) < 10 ^ 2 \<and>
      nat (t mod ms_per_day div 60000 mod 60) < 10 ^ 2 \<and> nat (t mod ms_per_day div 1000 mod 60) < 10 ^ 2" for t
    using time_of_day(2)[of "t mod ms_per_day"] by (auto simp: ms_per_day_def nat_less_iff pos_imp_zdiv_nonneg_iff)
  have n: "nat x < nat y \<longleftrightarrow> x < y" "nat x = nat y \<longleftrightarrow> x = y" if "0 \<le> x" "0 \<le> y" for x y :: int
    using that by (auto simp: nat_less_eq_zless eq_nat_nat_iff)
  show ?thesis
    unfolding seconds_split naive_text_def Let_def
    using f[of a] f[of b] assms
    by (simp add: js_lt_append js_lt_fields length_formatLocalDate date_text_order date_text.text_inj fixed_width_order
        fixed_width_inj n del: fixed_width.simps zless_nat_conj)
qed

lemma naive_before_iso:
  assumes "four_digit (a div ms_per_day)" and "four_digit (b div ms_per_day)" and "a mod 1000 = 0"
  shows "js_lt (naive_text a) (toISOString b) \<longleftrightarrow> a \<le> b" and "js_lt (toISOString b) (naive_text a) \<longleftrightarrow> b < a"
proof -
  have len: "length (naive_text a) = length (naive_text b)" using assms by (simp add: length_naive)
  have eq: "naive_text a = naive_text b \<longleftrightarrow> a div 1000 = b div 1000"
  proof
    assume "naive_text a = naive_text b"
    then show "a div 1000 = b div 1000"
      using naive_order[OF assms(1,2)] naive_order[OF assms(2,1)] by (metis js_lt_irrefl linorder_neqE_linordered_idom)
  next
    assume d: "a div 1000 = b div 1000"
    then have "a div ms_per_day = b div ms_per_day"
      using zdiv_zmult2_eq[of 86400 a 1000] zdiv_zmult2_eq[of 86400 b 1000] by (simp add: ms_per_day_def)
    with d have m: "a mod ms_per_day div 1000 = b mod ms_per_day div 1000"
      using day_seconds[of a] day_seconds[of b] by simp
    have "p div 60000 = p div 1000 div 60" "p div 3600000 = p div 1000 div 3600" for p :: int
      by (simp_all add: zdiv_zmult2_eq [symmetric])
    with m \<open>a div ms_per_day = b div ms_per_day\<close> show "naive_text a = naive_text b" by (simp add: naive_text_def Let_def)
  qed
  have tail: "js_lt [] (fraction_text b)" "\<not> js_lt (fraction_text b) []" by (simp_all add: fraction_text_def)
  have le: "a div 1000 \<le> b div 1000 \<longleftrightarrow> a \<le> b" 
  proof
    assume "a div 1000 \<le> b div 1000"
    moreover have "a = 1000 * (a div 1000) + a mod 1000" "b = 1000 * (b div 1000) + b mod 1000" "0 \<le> b mod 1000"
      by simp_all
    ultimately show "a \<le> b" using assms(3) by linarith
  qed (simp add: zdiv_mono1)
  show "js_lt (naive_text a) (toISOString b) \<longleftrightarrow> a \<le> b"
    using js_lt_append[OF len, of "[]" "fraction_text b"] naive_order[OF assms(1,2)] eq le tail
    by (auto simp: toISOString_naive)
  show "js_lt (toISOString b) (naive_text a) \<longleftrightarrow> b < a"
    using js_lt_append[OF len[symmetric], of "fraction_text b" "[]"] naive_order[OF assms(2,1)] eq le tail
    by (auto simp: toISOString_naive)
qed

text \<open>
  Comparing texts of different precision tells the right state: for a window the scheduler has not touched
  whose times are whole seconds, it is in progress from its start until just before its end, expired from its
  end on, and before its start scheduled or pending, as its users have been notified or not.
\<close>

theorem window_status_follows_clock:
  assumes "mw_is_active w" and "\<not> mw_auto_disabled w" and "\<not> mw_auto_enabled w"
    and "mw_start_at w = naive_text a" and "mw_end_at w = naive_text b" and "a < b"
    and "a mod 1000 = 0" and "b mod 1000 = 0"
    and "four_digit (a div ms_per_day)" and "four_digit (b div ms_per_day)" and "four_digit (now div ms_per_day)"
  shows "getWindowStatus now w =
    (if now < a then (if mw_notified_at w \<in> {None, Some []} then Pending else Scheduled)
     else if now < b then InProgress else Expired)"
proof -
  have "js_lt (toISOString now) (mw_start_at w) \<longleftrightarrow> now < a" "js_lt (mw_end_at w) (toISOString now) \<longleftrightarrow> b \<le> now"
    using naive_before_iso(2)[OF assms(9,11,7)] naive_before_iso(1)[OF assms(10,11,8)] assms(4,5) by simp_all
  with assms(1-3,6) show ?thesis
    by (auto simp: getWindowStatus_def Let_def split: option.splits list.splits)
qed

definition demo_window :: MaintenanceWindow where
  "demo_window = \<lparr>mw_id = ''w'', mw_title = ''Upgrade'', mw_message = ''m'', mw_start_at = ''2026-03-15T12:00:00'',
     mw_end_at = ''2026-03-15T13:00:00'', mw_is_active = True, mw_notify_offsets = None, mw_notified_at = None,
     mw_auto_enabled = False, mw_auto_disabled = False\<rparr>"

theorem window_status_follows_clock_witness:
  "getWindowStatus 1773576000000 demo_window = InProgress \<and> getWindowStatus 1773575999999 demo_window = Pending"
proof -
  have "naive_text 1773576000000 = ''2026-03-15T12:00:00''" "naive_text 1773579600000 = ''2026-03-15T13:00:00''"
    "four_digit (1773576000000 div ms_per_day)" "four_digit (1773579600000 div ms_per_day)"
    "four_digit (1773575999999 div ms_per_day)"
    by code_simp+
  then show ?thesis
    using window_status_follows_clock[of demo_window 1773576000000 1773579600000 1773576000000]
      window_status_follows_clock[of demo_window 1773576000000 1773579600000 1773575999999]
    by (simp add: demo_window_def)
qed

subsection \<open>The form\<close>

record WindowForm =
  wf_title :: string
  wf_message :: string
  wf_startAt :: string
  wf_endAt :: string
  wf_isActive :: bool
  wf_notifyOffsets :: "int list"
  wf_editing :: "string option"
  wf_error :: string
  wf_open :: bool

definition resetWindowForm :: "WindowForm \<Rightarrow> WindowForm" where
  "resetWindowForm f = f\<lparr>wf_title := [], wf_message := [], wf_startAt := [], wf_endAt := [], wf_isActive := True,
     wf_notifyOffsets := [15], wf_editing := None, wf_error := []\<rparr>"

definition openCreateWindow :: "int \<Rightarrow> int \<Rightarrow> WindowForm \<Rightarrow> WindowForm" where
  "openCreateWindow off now f =
    (resetWindowForm f)\<lparr>wf_startAt := local_datetime off (now + 60 * 60 * 1000),
       wf_endAt := local_datetime off (now + 60 * 60 * 1000 + 60 * 60 * 1000), wf_notifyOffsets := [15], wf_open := True\<rparr>"

definition openEditWindow :: "int \<Rightarrow> MaintenanceWindow \<Rightarrow> WindowForm \<Rightarrow> WindowForm option" where
  "openEditWindow off w f =
    Option.bind (toLocalDatetimeInputValue off (mw_start_at w)) (\<lambda>s.
    Option.bind (toLocalDatetimeInputValue off (mw_end_at w)) (\<lambda>e.
    Some (f\<lparr>wf_editing := Some (mw_id w), wf_title := mw_title w, wf_message := mw_message w, wf_startAt := s,
      wf_endAt := e, wf_isActive := mw_is_active w,
      wf_notifyOffsets := (case mw_notify_offsets w of None \<Rightarrow> [15] | Some xs \<Rightarrow> xs), wf_error := [], wf_open := True\<rparr>)))"

text \<open>
  The outcome of submitting: an error in the form, an exception of \<^verbatim>\<open>toISOString\<close>, or a request. A comparison
  with an invalid date is false.
\<close>

datatype SubmitOutcome = FormError string | RangeThrown | Submitted Mutation

definition not_before :: "int option \<Rightarrow> int option \<Rightarrow> bool" where
  "not_before a b = (case (a, b) of (Some x, Some y) \<Rightarrow> x \<ge> y | _ \<Rightarrow> False)"

definition window_payload :: "WindowForm \<Rightarrow> string \<Rightarrow> string \<Rightarrow> json" where
  "window_payload f s e = JObj [(''title'', JStr (js_trim (wf_title f))), (''message'', JStr (js_trim (wf_message f))),
     (''start_at'', JStr s), (''end_at'', JStr e), (''is_active'', JBool (wf_isActive f)),
     (''notify_offsets'', JArr (map (\<lambda>o'. JNum o' 0) (wf_notifyOffsets f)))]"

definition submitWindow :: "int \<Rightarrow> WindowForm \<Rightarrow> SubmitOutcome" where
  "submitWindow off f =
    (if js_trim (wf_title f) = [] \<or> js_trim (wf_message f) = [] \<or> wf_startAt f = [] \<or> wf_endAt f = []
     then FormError ''Please fill in all fields''
     else if not_before (parse_local off (wf_startAt f)) (parse_local off (wf_endAt f))
     then FormError ''End time must be after start time''
     else case (fromLocalDatetimeInputValue off (wf_startAt f), fromLocalDatetimeInputValue off (wf_endAt f)) of
       (Some s, Some e) \<Rightarrow> Submitted (case wf_editing f of
            Some i \<Rightarrow> useUpdateMaintenanceWindow i (window_payload f s e)
          | None \<Rightarrow> useCreateMaintenanceWindow (window_payload f s e))
     | _ \<Rightarrow> RangeThrown)"

definition toggleWindow :: "MaintenanceWindow \<Rightarrow> Mutation" where
  "toggleWindow w = useUpdateMaintenanceWindow (mw_id w) (JObj [(''is_active'', JBool (\<not> mw_is_active w))])"

text \<open>The calendar and the clock each replace their half of a field.\<close>

definition pickDate :: "string \<Rightarrow> string \<Rightarrow> string" where
  "pickDate date field =
    (let time = (case js_split CHR ''T'' field of _ # x # _ \<Rightarrow> if x = [] then ''00:00'' else x | _ \<Rightarrow> ''00:00'')
     in date @ ''T'' @ (if field = [] then ''00:00'' else time))"

definition pickTime :: "int \<Rightarrow> nat \<Rightarrow> nat \<Rightarrow> string \<Rightarrow> string" where
  "pickTime now h m field =
    (let date = (if field \<noteq> [] then hd (js_split CHR ''T'' field) else utc_text now)
     in date @ ''T'' @ js_padStart2 (show_nat h) @ '':'' @ js_padStart2 (show_nat m))"

text \<open>
  Every request the form sends is for a window that ends after it starts: whatever is in the fields, the
  instants it names are those of the fields, in order.
\<close>

theorem submitted_window_ordered:
  assumes "submitWindow off f = Submitted m"
  shows "\<exists>a b. parse_local off (wf_startAt f) = Some a \<and> parse_local off (wf_endAt f) = Some b \<and> a < b \<and>
    req_body (mutationFn m) = Some (window_payload f (toISOString a) (toISOString b))"
proof -
  from assms obtain a b where p: "parse_local off (wf_startAt f) = Some a" "parse_local off (wf_endAt f) = Some b"
    by (auto simp: submitWindow_def fromLocalDatetimeInputValue_def split: if_splits option.splits)
  with assms have "a < b" by (auto simp: submitWindow_def not_before_def split: if_splits)
  moreover have "req_body (mutationFn m) = Some (window_payload f (toISOString a) (toISOString b))"
    using assms p
    by (auto simp: submitWindow_def fromLocalDatetimeInputValue_def useUpdateMaintenanceWindow_def
        useCreateMaintenanceWindow_def silent_mutation_def api_put_def api_post_def split: if_splits option.splits)
  ultimately show ?thesis using p by blast
qed

definition demo_form :: WindowForm where
  "demo_form = \<lparr>wf_title = ''Upgrade'', wf_message = ''m'', wf_startAt = ''2026-03-15T12:00'',
     wf_endAt = ''2026-03-15T13:00'', wf_isActive = True, wf_notifyOffsets = [15], wf_editing = None, wf_error = [],
     wf_open = True\<rparr>"

theorem submitted_window_ordered_witness:
  "\<exists>m a b. submitWindow 60 demo_form = Submitted m \<and> parse_local 60 ''2026-03-15T12:00'' = Some a \<and>
    parse_local 60 ''2026-03-15T13:00'' = Some b \<and> a < b"
proof -
  have "js_trim ''Upgrade'' \<noteq> [] \<and> js_trim ''m'' \<noteq> []" by code_simp
  moreover have "parse_local 60 ''2026-03-15T12:00'' = Some 1773572400000" "parse_local 60 ''2026-03-15T13:00'' = Some 1773576000000"
    by code_simp+
  ultimately have "\<exists>m. submitWindow 60 demo_form = Submitted m"
    by (simp add: submitWindow_def demo_form_def not_before_def fromLocalDatetimeInputValue_def)
  then show ?thesis using submitted_window_ordered[of 60 demo_form] by (auto simp: demo_form_def)
qed

text \<open>A window opened for creation is valid as it stands: an hour from now, for an hour.\<close>

lemma new_window_valid:
  assumes "four_digit (local_day off (now + 3600000))" and "four_digit (local_day off (now + 7200000))"
    and "js_trim t \<noteq> []" and "js_trim msg \<noteq> []"
  shows "\<exists>m. submitWindow off ((openCreateWindow off now f)\<lparr>wf_title := t, wf_message := msg\<rparr>) = Submitted m"
proof -
  have "parse_local off (local_datetime off (now + 3600000)) = Some (now + 3600000 - (now + 3600000) mod 60000)"
    "parse_local off (local_datetime off (now + 7200000)) = Some (now + 7200000 - (now + 7200000) mod 60000)"
    using assms(1,2) by (simp_all add: parse_local_datetime)
  moreover have "(now + 3600000) mod 60000 = now mod 60000" "(now + 7200000) mod 60000 = now mod 60000"
    using mod_mult_self1[of now 60 60000] mod_mult_self1[of now 120 60000] by simp_all
  ultimately have p: "parse_local off (local_datetime off (now + 3600000)) = Some (now + 3600000 - now mod 60000)"
    "parse_local off (local_datetime off (7200000 + now)) = Some (now + 7200000 - now mod 60000)"
    by (simp_all add: add.commute)
  have "local_datetime off t \<noteq> []" for t by (simp add: local_datetime_def)
  with p assms(3,4) show ?thesis
    by (simp add: submitWindow_def openCreateWindow_def resetWindowForm_def not_before_def fromLocalDatetimeInputValue_def)
qed

subsection \<open>Reminders\<close>

definition minutesUntilStart :: "int \<Rightarrow> int option \<Rightarrow> int" where
  "minutesUntilStart now start = (case start of None \<Rightarrow> 0 | Some t \<Rightarrow> max 0 ((t - now) div 60000))"

definition impossibleOffsets :: "int \<Rightarrow> int list \<Rightarrow> int list" where
  "impossibleOffsets mins offsets = filter (\<lambda>x. x \<ge> mins) offsets"

definition reminder_options :: "(int \<times> string) list" where
  "reminder_options = [(15, ''15 min''), (60, ''1 hour''), (1440, ''1 day''), (10080, ''7 days'')]"

definition reminder_disabled :: "int \<Rightarrow> int \<Rightarrow> bool" where
  "reminder_disabled mins v \<longleftrightarrow> mins > 0 \<and> v \<ge> mins"

definition toggleReminder :: "int \<Rightarrow> int \<Rightarrow> int list \<Rightarrow> int list" where
  "toggleReminder mins v offsets =
    (if reminder_disabled mins v then offsets
     else if v \<in> set offsets then filter (\<lambda>x. x \<noteq> v) offsets
     else js_sort (\<lambda>a b. b - a) (offsets @ [v]))"

lemma js_insert_descending:
  "sorted_wrt (\<ge>) xs \<Longrightarrow> sorted_wrt (\<ge>) (js_insert (\<lambda>a b. b - a) (x :: int) xs)"
  by (induction xs) auto

lemma js_sort_descending: "sorted_wrt (\<ge>) (js_sort (\<lambda>a b. b - a) (xs :: int list))"
  by (induction xs) (simp_all add: js_insert_descending)

text \<open>The chosen reminders stay distinct and in descending order.\<close>

lemma reminders_sorted:
  assumes "sorted_wrt (\<ge>) offsets" and "distinct offsets"
  shows "sorted_wrt (\<ge>) (toggleReminder mins v offsets) \<and> distinct (toggleReminder mins v offsets)"
  using assms js_sort_descending[of "offsets @ [v]"]
  by (auto simp: toggleReminder_def sorted_wrt_filter simp del: js_sort_simps)

text \<open>A reminder that has become impossible can no longer be taken out: its button is disabled.\<close>

lemma impossible_reminder_stuck:
  "mins > 0 \<Longrightarrow> v \<in> set (impossibleOffsets mins offsets) \<Longrightarrow> v \<in> set (toggleReminder mins v offsets)"
  by (auto simp: impossibleOffsets_def toggleReminder_def reminder_disabled_def)

end
