(* ===== verification/Credit_Dialogs.thy ===== *)
theory Credit_Dialogs
  imports Credit_Hooks Complex_Main
begin

text \<open>
  The dialogs about credits (\<^verbatim>\<open>components/admin/credit-adjust-dialog.tsx\<close>, \<^verbatim>\<open>daily-allowance-dialog.tsx\<close>,
  \<^verbatim>\<open>bulk-credit-dialog.tsx\<close>, \<^verbatim>\<open>allowance-override-dialog.tsx\<close>, \<^verbatim>\<open>credit-request-review-dialog.tsx\<close>,
  \<^verbatim>\<open>components/credit-request-dialog.tsx\<close>, \<^verbatim>\<open>credit-request-thread.tsx\<close>). A dialog is a component that stays
  mounted while it is closed: its state is created once, with the page. A submission either sets the error
  texts or sends a mutation; \<^term>\<open>None\<close> stands for no mutation.
\<close>

definition or_zero :: "int option \<Rightarrow> int" where
  "or_zero v = (case v of None \<Rightarrow> 0 | Some n \<Rightarrow> n)"

abbreviation amount_json :: "int \<Rightarrow> json" where
  "amount_json n \<equiv> JNum n 0"

subsection \<open>Granting and deducting\<close>

datatype Operation = Grant_op | Deduct_op

record AdjustDialog =
  ad_operation :: Operation
  ad_amount :: string
  ad_reason :: string
  ad_amountError :: string
  ad_reasonError :: string

definition initialAdjust :: AdjustDialog where
  "initialAdjust = \<lparr>ad_operation = Grant_op, ad_amount = [], ad_reason = [], ad_amountError = [], ad_reasonError = []\<rparr>"

definition availableOperations :: "bool \<Rightarrow> bool \<Rightarrow> Operation list" where
  "availableOperations canGrant canDeduct = (if canGrant then [Grant_op] else []) @ (if canDeduct then [Deduct_op] else [])"

definition numericAmount :: "AdjustDialog \<Rightarrow> int" where
  "numericAmount d = or_zero (js_parseInt10 (ad_amount d))"

definition newBalance :: "int \<Rightarrow> AdjustDialog \<Rightarrow> int" where
  "newBalance balance d = (case ad_operation d of
     Grant_op \<Rightarrow> balance + numericAmount d | Deduct_op \<Rightarrow> balance - numericAmount d)"

definition isOverdraft :: "int \<Rightarrow> AdjustDialog \<Rightarrow> bool" where
  "isOverdraft balance d \<longleftrightarrow> newBalance balance d < 0"

definition closeAdjust :: "bool \<Rightarrow> AdjustDialog \<Rightarrow> AdjustDialog" where
  "closeAdjust canGrant d = d\<lparr>ad_amount := [], ad_reason := [], ad_amountError := [], ad_reasonError := [],
     ad_operation := (if canGrant then Grant_op else Deduct_op)\<rparr>"

text \<open>The errors are set one after the other, so that of the balance replaces that of the amount.\<close>

definition submitAdjust :: "string \<Rightarrow> int \<Rightarrow> AdjustDialog \<Rightarrow> Mutation option \<times> AdjustDialog" where
  "submitAdjust u balance d =
    (let n = numericAmount d;
         badAmount = (ad_amount d = [] \<or> n \<le> 0);
         badReason = (js_trim (ad_reason d) = []);
         overdrawn = (ad_operation d = Deduct_op \<and> isOverdraft balance d);
         d1 = d\<lparr>ad_amountError := (if overdrawn then ''Amount exceeds current balance''
                  else if badAmount then ''Enter a valid amount greater than 0'' else []),
                ad_reasonError := (if badReason then ''Reason is required'' else [])\<rparr>
     in if badAmount \<or> badReason \<or> overdrawn then (None, d1)
        else (Some (case ad_operation d of
                Grant_op \<Rightarrow> grantCredits u (amount_json n) (js_trim (ad_reason d))
              | Deduct_op \<Rightarrow> deductCredits u (amount_json n) (js_trim (ad_reason d))), d1))"

text \<open>
  An adjustment is only sent for a positive amount and with a reason, and a deduction never asks for more than
  the balance.
\<close>

theorem adjustment_within_balance:
  assumes "submitAdjust u balance d = (Some m, d')"
  shows "\<exists>n why. 0 < n \<and> why = js_trim (ad_reason d) \<and> why \<noteq> [] \<and>
    (if ad_operation d = Grant_op then m = grantCredits u (amount_json n) why
     else m = deductCredits u (amount_json n) why \<and> 0 \<le> balance - n)"
proof -
  let ?n = "numericAmount d"
  from assms have "0 < ?n" "js_trim (ad_reason d) \<noteq> []" "ad_operation d = Deduct_op \<longrightarrow> \<not> isOverdraft balance d"
    by (auto simp: submitAdjust_def Let_def split: if_splits)
  with assms show ?thesis
    by (intro exI[of _ ?n] exI[of _ "js_trim (ad_reason d)"])
      (auto simp: submitAdjust_def Let_def isOverdraft_def newBalance_def split: if_splits Operation.splits)
qed

definition demo_adjust :: AdjustDialog where
  "demo_adjust = initialAdjust\<lparr>ad_operation := Deduct_op, ad_amount := ''40'', ad_reason := ''refund''\<rparr>"

lemma demo_adjust_values: "js_parseInt10 ''40'' = Some 40" "js_trim ''refund'' = ''refund''"
  by code_simp+

theorem adjustment_within_balance_witness:
  "\<exists>m d'. submitAdjust ''u'' 50 demo_adjust = (Some m, d') \<and> m = deductCredits ''u'' (amount_json 40) ''refund''"
proof -
  obtain m d' where s: "submitAdjust ''u'' 50 demo_adjust = (Some m, d')"
    and m: "m = deductCredits ''u'' (amount_json 40) ''refund''"
    by (simp add: submitAdjust_def Let_def demo_adjust_def initialAdjust_def numericAmount_def or_zero_def
        isOverdraft_def newBalance_def demo_adjust_values)
  have "ad_operation demo_adjust = Deduct_op" by (simp add: demo_adjust_def)
  with adjustment_within_balance[OF s] s m show ?thesis by auto
qed

text \<open>
  The operation a dialog starts with is to grant, whether or not the user may. Someone who may only deduct is
  offered one button, for deducting, yet the first submission of the dialog is sent as a grant.
\<close>

theorem first_adjustment_is_grant:
  assumes "js_parseInt10 amount = Some n" and "0 < n" and "amount \<noteq> []" and "js_trim why \<noteq> []"
  shows "availableOperations False True = [Deduct_op] \<and>
    fst (submitAdjust u balance (initialAdjust\<lparr>ad_amount := amount, ad_reason := why\<rparr>)) =
      Some (grantCredits u (amount_json n) (js_trim why))"
  using assms by (simp add: availableOperations_def submitAdjust_def initialAdjust_def numericAmount_def or_zero_def
      isOverdraft_def Let_def)

theorem first_adjustment_is_grant_witness:
  "fst (submitAdjust ''u'' 50 (initialAdjust\<lparr>ad_amount := ''40'', ad_reason := ''refund''\<rparr>)) =
     Some (grantCredits ''u'' (amount_json 40) ''refund'')"
  using first_adjustment_is_grant[of "''40''" 40 "''refund''" "''u''" 50] demo_adjust_values by simp

subsection \<open>Daily allowance\<close>

definition valid_amount :: "string \<Rightarrow> int option" where
  "valid_amount s = (case js_parseInt10 s of Some n \<Rightarrow> if n \<ge> 0 then Some n else None | None \<Rightarrow> None)"

text \<open>
  The result of a submission: an error text, closing without a request, or a mutation.
\<close>

datatype DialogOutcome = Refused string | ClosedUnchanged | Sends Mutation

definition openAllowance :: "int option \<Rightarrow> string" where
  "openAllowance daily_allowance = show_int (or_zero daily_allowance)"

definition submitAllowance :: "(json \<Rightarrow> string) \<Rightarrow> string \<Rightarrow> int option \<Rightarrow> string \<Rightarrow> DialogOutcome" where
  "submitAllowance loc u current amount =
    (case valid_amount amount of
       None \<Rightarrow> Refused ''Enter a valid non-negative integer''
     | Some n \<Rightarrow> if current = Some n then ClosedUnchanged else Sends (updateUserDailyAllowance loc u (amount_json n)))"

text \<open>Opening the dialog and submitting it as it stands changes nothing.\<close>

lemma allowance_unchanged:
  assumes "0 \<le> a"
  shows "submitAllowance loc u (Some a) (openAllowance (Some a)) = ClosedUnchanged"
  using assms js_parseInt10_show_nat[of "nat a"]
  by (simp add: submitAllowance_def openAllowance_def valid_amount_def or_zero_def)

subsection \<open>Many users at once\<close>

datatype BulkMode = BulkGrant | BulkAllowance

record BulkDialog =
  bd_amount :: string
  bd_reason :: string
  bd_amountError :: string
  bd_reasonError :: string

definition resetBulk :: "BulkDialog \<Rightarrow> BulkDialog" where
  "resetBulk d = d\<lparr>bd_amount := [], bd_reason := [], bd_amountError := [], bd_reasonError := []\<rparr>"

definition submitBulk :: "BulkMode \<Rightarrow> string list \<Rightarrow> BulkDialog \<Rightarrow> BulkMutation option \<times> BulkDialog" where
  "submitBulk mode us d =
    (if us = [] then (None, d)
     else case valid_amount (bd_amount d) of
       None \<Rightarrow> (None, d\<lparr>bd_amountError := ''Enter a valid non-negative integer''\<rparr>)
     | Some n \<Rightarrow>
         (if mode = BulkGrant \<and> js_trim (bd_reason d) = []
          then (None, d\<lparr>bd_reasonError := ''Reason is required for bulk grants''\<rparr>)
          else (Some (case mode of
                   BulkGrant \<Rightarrow> bulkGrantCredits us (amount_json n) (js_trim (bd_reason d))
                 | BulkAllowance \<Rightarrow> bulkSetAllowance us (amount_json n)), d\<lparr>bd_reasonError := []\<rparr>)))"

lemma bulk_needs_users_and_reason:
  assumes "fst (submitBulk mode us d) = Some m"
  shows "us \<noteq> [] \<and> (mode = BulkGrant \<longrightarrow> js_trim (bd_reason d) \<noteq> []) \<and> (\<exists>n \<ge> 0. valid_amount (bd_amount d) = Some n)"
  using assms by (auto simp: submitBulk_def valid_amount_def split: if_splits option.splits)

subsection \<open>Temporary allowances\<close>

text \<open>
  The end of an override is memoised on the number of hours alone: it is computed when the component is
  mounted and again when another window is chosen, not when the dialog opens. \<open>plusHours t h\<close> is \<^verbatim>\<open>setHours\<close>
  on the local clock. \<open>ov_memo\<close> holds the hours it was computed for and the result.
\<close>

record OverrideDialog =
  ov_amount :: string
  ov_presetHours :: nat
  ov_amountError :: string
  ov_memo :: "nat \<times> int"

definition PRESET_WINDOWS :: "(string \<times> nat) list" where
  "PRESET_WINDOWS = [(''24 hours'', 24), (''3 days'', 24 * 3), (''7 days'', 24 * 7), (''14 days'', 24 * 14),
     (''30 days'', 24 * 30)]"

definition mountOverride :: "(int \<Rightarrow> nat \<Rightarrow> int) \<Rightarrow> int \<Rightarrow> OverrideDialog" where
  "mountOverride plusHours now =
    \<lparr>ov_amount = [], ov_presetHours = 24, ov_amountError = [], ov_memo = (24, plusHours now 24)\<rparr>"

definition renderOverride :: "(int \<Rightarrow> nat \<Rightarrow> int) \<Rightarrow> int \<Rightarrow> OverrideDialog \<Rightarrow> OverrideDialog" where
  "renderOverride plusHours now d =
    (if fst (ov_memo d) = ov_presetHours d then d
     else d\<lparr>ov_memo := (ov_presetHours d, plusHours now (ov_presetHours d))\<rparr>)"

definition openOverride :: "int option \<Rightarrow> int option \<Rightarrow> OverrideDialog \<Rightarrow> OverrideDialog" where
  "openOverride over base d =
    d\<lparr>ov_amount := show_int (case over of Some n \<Rightarrow> n | None \<Rightarrow> or_zero base), ov_presetHours := 24, ov_amountError := []\<rparr>"

definition choosePreset :: "nat \<Rightarrow> OverrideDialog \<Rightarrow> OverrideDialog" where
  "choosePreset h d = d\<lparr>ov_presetHours := h\<rparr>"

definition submitOverride ::
  "(json \<Rightarrow> string) \<Rightarrow> (string \<Rightarrow> string) \<Rightarrow> (int \<Rightarrow> string) \<Rightarrow> string \<Rightarrow> OverrideDialog \<Rightarrow> Mutation option \<times> OverrideDialog" where
  "submitOverride loc locDate isoText u d =
    (case valid_amount (ov_amount d) of
       None \<Rightarrow> (None, d\<lparr>ov_amountError := ''Enter a valid non-negative integer''\<rparr>)
     | Some n \<Rightarrow> (Some (setOverride loc locDate u (amount_json n) (isoText (snd (ov_memo d)))), d))"

text \<open>
  The override of a page that has been open for some time ends too early: opened at a later moment and
  submitted with the preset window it ends twenty-four hours after the page was mounted, even when that is
  already in the past.
\<close>

theorem override_counts_from_mount:
  assumes "valid_amount (show_int (or_zero base)) = Some n"
  shows "let d = renderOverride plusHours later (openOverride None base (renderOverride plusHours later
      (mountOverride plusHours mounted)))
    in fst (submitOverride loc locDate isoText u d) =
      Some (setOverride loc locDate u (amount_json n) (isoText (plusHours mounted 24)))"
  using assms by (simp add: renderOverride_def openOverride_def mountOverride_def submitOverride_def Let_def)

definition utc_plus_hours :: "int \<Rightarrow> nat \<Rightarrow> int" where
  "utc_plus_hours t h = t + int h * 3600000"

theorem override_counts_from_mount_witness:
  "\<exists>m. fst (submitOverride (\<lambda>_. []) (\<lambda>_. []) show_int ''u''
      (renderOverride utc_plus_hours 172800000 (openOverride None (Some 5) (renderOverride utc_plus_hours 172800000
        (mountOverride utc_plus_hours 0))))) = Some m \<and>
    m = setOverride (\<lambda>_. []) (\<lambda>_. []) ''u'' (amount_json 5) (show_int 86400000) \<and> (86400000 :: int) < 172800000"
proof -
  have "valid_amount (show_int (or_zero (Some 5))) = Some 5" by code_simp
  from override_counts_from_mount[OF this, of utc_plus_hours 172800000 0 "\<lambda>_. []" "\<lambda>_. []" show_int "''u''"]
  show ?thesis by (simp add: utc_plus_hours_def)
qed

text \<open>Choosing another window computes the end anew.\<close>

lemma chosen_window_counts_from_now:
  "h \<noteq> fst (ov_memo d) \<Longrightarrow> snd (ov_memo (renderOverride plusHours now (choosePreset h d))) = plusHours now h"
  by (simp add: renderOverride_def choosePreset_def)

subsection \<open>Requesting credits\<close>

definition MAX_REASON_LENGTH :: nat where "MAX_REASON_LENGTH = 2000"

datatype RequestType = TopUp | Allowance

fun request_type_name :: "RequestType \<Rightarrow> string" where
  "request_type_name TopUp = ''top_up''"
| "request_type_name Allowance = ''allowance''"

record RequestDialog =
  rd_amount :: string
  rd_reason :: string
  rd_type :: RequestType
  rd_amountError :: string
  rd_reasonError :: string
  rd_submitError :: string

definition closeRequest :: "RequestDialog \<Rightarrow> RequestDialog" where
  "closeRequest d = d\<lparr>rd_amount := [], rd_reason := [], rd_type := TopUp, rd_amountError := [], rd_reasonError := [],
     rd_submitError := []\<rparr>"

text \<open>\<^verbatim>\<open>length\<close> counts UTF-16 units in the source and bytes here; the two agree on ASCII.\<close>

definition submitRequest :: "RequestDialog \<Rightarrow> Mutation option \<times> RequestDialog" where
  "submitRequest d =
    (let n = or_zero (js_parseInt10 (rd_amount d)); why = js_trim (rd_reason d);
         badAmount = (rd_amount d = [] \<or> n \<le> 0);
         reasonError = (if why = [] then ''Reason is required''
           else if length why > MAX_REASON_LENGTH
             then ''Reason must be '' @ show_nat MAX_REASON_LENGTH @ '' characters or fewer'' else []);
         d1 = d\<lparr>rd_amountError := (if badAmount then ''Enter a valid amount greater than 0'' else []),
                rd_reasonError := reasonError\<rparr>
     in if badAmount \<or> reasonError \<noteq> [] then (None, d1)
        else (Some (useCreateCreditRequest (amount_json n) why (Some (request_type_name (rd_type d)))), d1))"

definition requestFailed :: "Thrown \<Rightarrow> RequestDialog \<Rightarrow> RequestDialog" where
  "requestFailed e d = d\<lparr>rd_submitError := (case e of ThrownError msg \<Rightarrow> msg | _ \<Rightarrow> ''Failed to submit credit request'')\<rparr>"

lemma submitted_request_valid:
  assumes "fst (submitRequest d) = Some m"
  shows "\<exists>n why. m = useCreateCreditRequest (amount_json n) why (Some (request_type_name (rd_type d))) \<and> 0 < n \<and>
    why \<noteq> [] \<and> length why \<le> MAX_REASON_LENGTH"
proof (intro exI conjI)
  show "m = useCreateCreditRequest (amount_json (or_zero (js_parseInt10 (rd_amount d)))) (js_trim (rd_reason d))
      (Some (request_type_name (rd_type d)))" "0 < or_zero (js_parseInt10 (rd_amount d))"
    "js_trim (rd_reason d) \<noteq> []" "length (js_trim (rd_reason d)) \<le> MAX_REASON_LENGTH"
    using assms by (simp_all add: submitRequest_def Let_def not_le not_less split: if_splits)
qed

subsection \<open>Conversation of a request\<close>

definition MAX_MESSAGE_LENGTH :: nat where "MAX_MESSAGE_LENGTH = 2000"

definition handleSend :: "string \<Rightarrow> string \<Rightarrow> bool \<Rightarrow> Mutation option" where
  "handleSend r body internal =
    (let trimmed = js_trim body
     in if trimmed = [] \<or> length trimmed > MAX_MESSAGE_LENGTH then None
        else Some (useAddCreditRequestMessage r trimmed (if internal then Some True else None)))"

text \<open>An internal note is never sent as a reply, nor a reply as a note.\<close>

lemma note_stays_internal:
  assumes "handleSend r body internal = Some m"
  shows "\<exists>fields. req_body (mutationFn m) = Some (JObj fields) \<and> (internal \<longleftrightarrow> (''internal'', JBool True) \<in> set fields)"
  using assms
  by (auto simp: handleSend_def Let_def useAddCreditRequestMessage_def api_post_def bool_json_def split: if_splits)

subsection \<open>Reviewing a request\<close>

record CreditRequest =
  req_id :: string
  req_amount :: int
  req_type :: RequestType
  req_status :: string
  review_note :: "string option"
  granted_amount :: "int option"
  req_created_at :: string
  reviewed_at :: "string option"

datatype ReviewAction = Approve | Reject

definition isOpenRequest :: "CreditRequest \<Rightarrow> bool" where
  "isOpenRequest r \<longleftrightarrow> req_status r = ''pending'' \<or> req_status r = ''needs_info''"

text \<open>
  The tab of requests renders one review dialog, always: it is mounted with the tab, when no request is
  selected and the preset action is to approve. \<open>rp_request\<close> and \<open>rp_initial\<close> are what the tab passes to it,
  the other fields its own; \<open>rp_sent\<close> is the log of its mutations.
\<close>

record ReviewPage =
  rp_request :: "CreditRequest option"
  rp_initial :: ReviewAction
  rp_open :: bool
  rv_action :: ReviewAction
  rv_amount :: string
  rv_note :: string
  rv_amountError :: string
  rp_sent :: "(string \<times> ReviewAction \<times> int) list"

definition mountReview :: ReviewPage where
  "mountReview = \<lparr>rp_request = None, rp_initial = Approve, rp_open = False, rv_action = Approve, rv_amount = [],
     rv_note = [], rv_amountError = [], rp_sent = []\<rparr>"

definition handleReviewRequest :: "CreditRequest \<Rightarrow> ReviewAction \<Rightarrow> ReviewPage \<Rightarrow> ReviewPage" where
  "handleReviewRequest r a s = s\<lparr>rp_request := Some r, rp_initial := a, rp_open := True\<rparr>"

definition handleViewRequest :: "CreditRequest \<Rightarrow> ReviewPage \<Rightarrow> ReviewPage" where
  "handleViewRequest r s = s\<lparr>rp_request := Some r, rp_initial := Approve, rp_open := True\<rparr>"

definition closeReview :: "ReviewPage \<Rightarrow> ReviewPage" where
  "closeReview s = s\<lparr>rv_amount := [], rv_note := [], rv_amountError := [], rp_open := False\<rparr>"

definition submitReview :: "ReviewPage \<Rightarrow> ReviewPage" where
  "submitReview s =
    (case rp_request s of
       None \<Rightarrow> s
     | Some r \<Rightarrow>
         let n = or_zero (js_parseInt10 (rv_amount s))
         in case rv_action s of
              Approve \<Rightarrow>
                (if rv_amount s = [] \<or> n \<le> 0 then s\<lparr>rv_amountError := ''Enter a valid amount greater than 0''\<rparr>
                 else s\<lparr>rp_sent := rp_sent s @ [(req_id r, Approve, n)]\<rparr>)
            | Reject \<Rightarrow> s\<lparr>rp_sent := rp_sent s @ [(req_id r, Reject, n)]\<rparr>)"

definition review_mutation :: "string \<times> ReviewAction \<times> int \<Rightarrow> string \<Rightarrow> string \<Rightarrow> Mutation" where
  "review_mutation e note message =
    (let note' = (if js_trim note = [] then None else Some (js_trim note))
     in case e of
          (r, Approve, n) \<Rightarrow> approveRequest r (Some (amount_json n)) note' message
        | (r, Reject, n) \<Rightarrow> rejectRequest r note' message)"

datatype ReviewEvent = Quick CreditRequest ReviewAction | View CreditRequest | ChooseAction ReviewAction | EnterAmount string
  | EnterNote string | SubmitReview | CloseReview

text \<open>The form is shown for an open request only.\<close>

fun review_event :: "ReviewEvent \<Rightarrow> ReviewPage \<Rightarrow> ReviewPage" where
  "review_event (Quick r a) s = handleReviewRequest r a s"
| "review_event (View r) s = handleViewRequest r s"
| "review_event (ChooseAction a) s = s\<lparr>rv_action := a\<rparr>"
| "review_event (EnterAmount v) s = s\<lparr>rv_amount := v, rv_amountError := []\<rparr>"
| "review_event (EnterNote v) s = s\<lparr>rv_note := v\<rparr>"
| "review_event SubmitReview s =
     (if rp_open s \<and> (case rp_request s of None \<Rightarrow> False | Some r \<Rightarrow> isOpenRequest r) then submitReview s else s)"
| "review_event CloseReview s = closeReview s"

text \<open>The action of the dialog is the last one chosen in it, for whatever request that was.\<close>

fun last_choice :: "ReviewEvent list \<Rightarrow> ReviewAction \<Rightarrow> ReviewAction" where
  "last_choice [] a = a"
| "last_choice (ChooseAction b # es) a = last_choice es b"
| "last_choice (_ # es) a = last_choice es a"

lemma submitReview_action: "rv_action (submitReview s) = rv_action s"
  by (simp add: submitReview_def Let_def split: option.splits ReviewAction.splits)

lemma review_action: "rv_action (fold review_event es s) = last_choice es (rv_action s)"
proof (induction es arbitrary: s)
  case (Cons e es)
  then show ?case
    by (cases e) (simp_all add: handleReviewRequest_def handleViewRequest_def closeReview_def submitReview_action)
qed simp

text \<open>
  The buttons for a quick decision do not decide anything: whichever of them opens the dialog, and with whatever
  request, the dialog comes up with the action last chosen in it, at first to approve, and it does not fill in
  the requested amount unless the amount was left over from before.
\<close>

theorem quick_decision_ignored:
  "let s = fold review_event es mountReview; t = review_event (Quick r a) s
   in rp_initial t = a \<and> rv_action t = last_choice es Approve \<and> rv_amount t = rv_amount s"
  by (simp add: review_action handleReviewRequest_def mountReview_def Let_def)

text \<open>
  So rejecting one request by hand makes the approve button of the next one reject it: the next submission
  sends a rejection.
\<close>

lemma approve_button_rejects:
  assumes "isOpenRequest q" and "isOpenRequest r"
  shows "map (\<lambda>(i, a, n). (i, a)) (rp_sent (fold review_event [Quick q Reject, ChooseAction Reject, SubmitReview,
    CloseReview, Quick r Approve, SubmitReview] mountReview)) = [(req_id q, Reject), (req_id r, Reject)]"
  using assms
  by (simp add: mountReview_def handleReviewRequest_def closeReview_def submitReview_def or_zero_def Let_def)

text \<open>What is sent is nevertheless sound: approvals have a positive amount, decisions are about open requests.\<close>

definition review_inv :: "CreditRequest set \<Rightarrow> ReviewPage \<Rightarrow> bool" where
  "review_inv rs s \<longleftrightarrow> (\<forall>r. rp_request s = Some r \<longrightarrow> r \<in> rs) \<and>
    (\<forall>(i, a, n) \<in> set (rp_sent s). (a = Approve \<longrightarrow> 0 < n) \<and> i \<in> req_id ` {r \<in> rs. isOpenRequest r})"

fun event_requests :: "ReviewEvent \<Rightarrow> CreditRequest set" where
  "event_requests (Quick r a) = {r}"
| "event_requests (View r) = {r}"
| "event_requests _ = {}"

lemma review_inv_submit:
  "review_inv rs s \<Longrightarrow> rp_request s = Some r \<Longrightarrow> isOpenRequest r \<Longrightarrow> review_inv rs (submitReview s)"
  by (auto simp: review_inv_def submitReview_def Let_def split: ReviewAction.splits)

lemma review_inv_event: "review_inv rs s \<Longrightarrow> event_requests e \<subseteq> rs \<Longrightarrow> review_inv rs (review_event e s)"
proof (cases e)
  case SubmitReview
  then show "review_inv rs s \<Longrightarrow> review_inv rs (review_event e s)"
    by (auto split: option.splits intro: review_inv_submit)
qed (auto simp: review_inv_def handleReviewRequest_def handleViewRequest_def closeReview_def)

lemma review_inv_run: "review_inv rs s \<Longrightarrow> (\<Union>e \<in> set es. event_requests e) \<subseteq> rs \<Longrightarrow> review_inv rs (fold review_event es s)"
  by (induction es arbitrary: s) (simp_all add: review_inv_event)

theorem review_decisions_sound:
  assumes "(i, a, n) \<in> set (rp_sent (fold review_event es mountReview))"
  shows "(a = Approve \<longrightarrow> 0 < n) \<and> (\<exists>r \<in> (\<Union>e \<in> set es. event_requests e). req_id r = i \<and> isOpenRequest r)"
proof -
  let ?rs = "\<Union>e \<in> set es. event_requests e"
  have "review_inv ?rs mountReview" by (simp add: review_inv_def mountReview_def)
  then have "review_inv ?rs (fold review_event es mountReview)" by (rule review_inv_run) simp
  with assms have "(a = Approve \<longrightarrow> 0 < n) \<and> i \<in> req_id ` {r \<in> ?rs. isOpenRequest r}"
    unfolding review_inv_def by fast
  then show ?thesis by blast
qed

definition demo_request :: CreditRequest where
  "demo_request = \<lparr>req_id = ''r1'', req_amount = 100, req_type = TopUp, req_status = ''pending'', review_note = None,
     granted_amount = None, req_created_at = ''2026-03-15T12:00:00'', reviewed_at = None\<rparr>"

theorem review_decisions_sound_witness:
  "(''r1'', Approve, 40) \<in> set (rp_sent (fold review_event [Quick demo_request Reject, EnterAmount ''40'', SubmitReview]
     mountReview)) \<and> (0 :: int) < 40"
proof -
  have s: "rp_sent (fold review_event [Quick demo_request Reject, EnterAmount ''40'', SubmitReview] mountReview) =
      [(''r1'', Approve, 40)]"
    using demo_adjust_values(1)
    by (simp add: mountReview_def handleReviewRequest_def submitReview_def or_zero_def isOpenRequest_def demo_request_def
        Let_def)
  then have "(''r1'', Approve, 40) \<in> set (rp_sent (fold review_event [Quick demo_request Reject, EnterAmount ''40'',
      SubmitReview] mountReview))" by simp
  with review_decisions_sound[OF this] show ?thesis by simp
qed

end
