(* ===== verification/Data_Table.thy ===== *)
theory Data_Table
  imports Tables
begin

text \<open>
  The table of the list pages (\<^verbatim>\<open>components/data/data-table.tsx\<close>, \<^verbatim>\<open>data-table-toolbar.tsx\<close>,
  \<^verbatim>\<open>data-table-mobile.tsx\<close>) and the way the pages copy its column filters into their own filter state. The
  table library keeps the column filters. It is the parameter \<open>api\<close>; \<open>table_api_laws\<close> states what its
  documentation says of the calls the toolbar makes: a column is found by its identifier, setting the
  filter of a column replaces its entry or, for \<^verbatim>\<open>undefined\<close> and for the empty string, removes it.
\<close>

type_synonym ColumnFilters = "(string \<times> string) list"

record TableApi =
  getColumn :: "string list \<Rightarrow> string \<Rightarrow> bool"
  setFilterValue :: "string \<Rightarrow> string option \<Rightarrow> ColumnFilters \<Rightarrow> ColumnFilters"

definition kept_value :: "string option \<Rightarrow> string option" where
  "kept_value v = (if v = Some [] then None else v)"

definition table_api_laws :: "TableApi \<Rightarrow> bool" where
  "table_api_laws api \<longleftrightarrow> (\<forall>cols k. getColumn api cols k \<longleftrightarrow> k \<in> set cols) \<and>
    (\<forall>k v fs. distinct (map fst fs) \<longrightarrow> distinct (map fst (setFilterValue api k v fs)) \<and>
      map_of (setFilterValue api k v fs) = (map_of fs)(k := kept_value v))"

text \<open>An instance: the entry is removed and, when there is a value, added at the end.\<close>

definition list_filters :: TableApi where
  "list_filters = \<lparr>getColumn = (\<lambda>cols k. k \<in> set cols),
     setFilterValue = (\<lambda>k v fs. remove_key fst k fs @ (case kept_value v of None \<Rightarrow> [] | Some x \<Rightarrow> [(k, x)]))\<rparr>"

lemma map_of_remove_key: "map_of (remove_key fst k fs) = (map_of fs)(k := None)"
  by (induction fs) auto

lemma list_filters_laws: "table_api_laws list_filters"
proof -
  have "distinct (map fst (remove_key fst k fs @ (case kept_value v of None \<Rightarrow> [] | Some x \<Rightarrow> [(k, x)])))"
    if "distinct (map fst fs)" for k v and fs :: ColumnFilters
    using that unique_remove_key[of fst fs k] by (auto simp: unique_keys_def set_remove_key split: option.splits)
  moreover have "map_of (remove_key fst k fs @ (case kept_value v of None \<Rightarrow> [] | Some x \<Rightarrow> [(k, x)])) = (map_of fs)(k := kept_value v)"
    for k v and fs :: ColumnFilters
    by (auto simp: map_of_remove_key fun_eq_iff map_add_def split: option.splits)
  ultimately show ?thesis by (simp add: table_api_laws_def list_filters_def)
qed

subsection \<open>Toolbar and pages\<close>

text \<open>
  A list page: its paging state, the column filters of the table and those the last run of its effect saw.
\<close>

record ListPage =
  lp_table :: TableState
  lp_columnFilters :: ColumnFilters
  lp_prevFilters :: ColumnFilters

definition initialListPage :: "nat \<Rightarrow> ListPage" where
  "initialListPage limit = \<lparr>lp_table = initialTable (Some limit) None None, lp_columnFilters = [], lp_prevFilters = []\<rparr>"

definition chooseFilter :: "TableApi \<Rightarrow> string list \<Rightarrow> string \<Rightarrow> string option \<Rightarrow> ColumnFilters \<Rightarrow> ColumnFilters" where
  "chooseFilter api cols k v fs = (if getColumn api cols k then setFilterValue api k v fs else fs)"

definition filterEffect :: "ListPage \<Rightarrow> ListPage" where
  "filterEffect s =
    (let t1 = fold (\<lambda>(k, v). setFilter k (Some (OneValue v))) (lp_columnFilters s) (lp_table s);
         t2 = fold (\<lambda>(k, v). if k \<notin> fst ` set (lp_columnFilters s) then setFilter k None else id) (lp_prevFilters s) t1
     in s\<lparr>lp_table := t2, lp_prevFilters := lp_columnFilters s\<rparr>)"

datatype TableEvent = ChooseFilter string string | AllValues string | ClearFilters | Search string | Page nat | Limit nat

text \<open>The effect runs after each change of the column filters.\<close>

fun table_event :: "TableApi \<Rightarrow> string list \<Rightarrow> TableEvent \<Rightarrow> ListPage \<Rightarrow> ListPage" where
  "table_event api cols (ChooseFilter k v) s =
     filterEffect (s\<lparr>lp_columnFilters := chooseFilter api cols k (Some v) (lp_columnFilters s)\<rparr>)"
| "table_event api cols (AllValues k) s =
     filterEffect (s\<lparr>lp_columnFilters := chooseFilter api cols k None (lp_columnFilters s)\<rparr>)"
| "table_event api cols ClearFilters s = filterEffect (s\<lparr>lp_columnFilters := []\<rparr>)"
| "table_event api cols (Search q) s = s\<lparr>lp_table := setSearch q (lp_table s)\<rparr>"
| "table_event api cols (Page p) s = s\<lparr>lp_table := setPage p (lp_table s)\<rparr>"
| "table_event api cols (Limit l) s = s\<lparr>lp_table := setLimit l (lp_table s)\<rparr>"

text \<open>The abstract page: per key the option chosen last, for the keys that are columns. An empty option is none.\<close>

fun choice :: "string list \<Rightarrow> TableEvent \<Rightarrow> (string \<Rightarrow> string option) \<Rightarrow> string \<Rightarrow> string option" where
  "choice cols (ChooseFilter k v) m = (if k \<in> set cols then m(k := kept_value (Some v)) else m)"
| "choice cols (AllValues k) m = m(k := None)"
| "choice cols ClearFilters m = Map.empty"
| "choice cols _ m = m"

definition page_inv :: "string list \<Rightarrow> (string \<Rightarrow> string option) \<Rightarrow> ListPage \<Rightarrow> bool" where
  "page_inv cols m s \<longleftrightarrow> distinct (map fst (lp_columnFilters s)) \<and> map_of (lp_columnFilters s) = m \<and> dom m \<subseteq> set cols \<and>
    lp_prevFilters s = lp_columnFilters s \<and> tbl_filters (lp_table s) = map_option OneValue \<circ> m"

lemma set_filters_fold:
  "tbl_filters (fold (\<lambda>(k, v). setFilter k (Some (OneValue v))) fs t) = tbl_filters t ++ (map_option OneValue \<circ> map_of (rev fs))"
  by (induction fs arbitrary: t)
    (auto simp: setFilter_def fun_eq_iff map_add_def split: option.splits)

lemma unset_filters_fold:
  "tbl_filters (fold (\<lambda>(k, v). if k \<notin> K then setFilter k None else id) fs t) k =
     (if k \<in> fst ` set fs \<and> k \<notin> K then None else tbl_filters t k)"
  by (induction fs arbitrary: t) (auto simp: setFilter_def)

lemma map_of_rev_distinct: "distinct (map fst fs) \<Longrightarrow> map_of (rev fs) = map_of fs"
  by (rule map_of_eqI) (auto simp: rev_map[symmetric] intro!: map_of_is_SomeI dest!: map_of_SomeD)

lemma filterEffect_syncs:
  assumes "distinct (map fst (lp_columnFilters s))"
    and "tbl_filters (lp_table s) = map_option OneValue \<circ> map_of (lp_prevFilters s)"
  shows "tbl_filters (lp_table (filterEffect s)) = map_option OneValue \<circ> map_of (lp_columnFilters s)"
proof
  fix k
  have "tbl_filters (lp_table (filterEffect s)) k =
      (if k \<in> fst ` set (lp_prevFilters s) \<and> k \<notin> fst ` set (lp_columnFilters s) then None
       else ((map_option OneValue \<circ> map_of (lp_prevFilters s)) ++
         (map_option OneValue \<circ> map_of (lp_columnFilters s))) k)"
    by (simp add: filterEffect_def Let_def unset_filters_fold set_filters_fold map_of_rev_distinct assms)
  moreover have "k \<in> fst ` set fs \<longleftrightarrow> map_of fs k \<noteq> None" for fs :: ColumnFilters by (simp add: map_of_eq_None_iff)
  ultimately show "tbl_filters (lp_table (filterEffect s)) k = (map_option OneValue \<circ> map_of (lp_columnFilters s)) k"
    by (cases "map_of (lp_columnFilters s) k") (simp_all add: map_add_def)
qed

lemma filterEffect_fields:
  "lp_columnFilters (filterEffect s) = lp_columnFilters s" "lp_prevFilters (filterEffect s) = lp_columnFilters s"
  by (simp_all add: filterEffect_def Let_def)

lemma page_inv_filters:
  assumes "page_inv cols m s" and "distinct (map fst fs)" and "map_of fs = m'" and "dom m' \<subseteq> set cols"
  shows "page_inv cols m' (filterEffect (s\<lparr>lp_columnFilters := fs\<rparr>))"
  using assms filterEffect_syncs[of "s\<lparr>lp_columnFilters := fs\<rparr>"] by (simp add: page_inv_def filterEffect_fields)

lemma page_inv_event:
  assumes "table_api_laws api" and "page_inv cols m s"
  shows "page_inv cols (choice cols e m) (table_event api cols e s)"
proof -
  have laws: "getColumn api cols k \<longleftrightarrow> k \<in> set cols"
      "distinct (map fst (setFilterValue api k v (lp_columnFilters s)))"
      "map_of (setFilterValue api k v (lp_columnFilters s)) = m(k := kept_value v)" for k v
    using assms by (auto simp: table_api_laws_def page_inv_def)
  have m: "distinct (map fst (lp_columnFilters s))" "map_of (lp_columnFilters s) = m" "dom m \<subseteq> set cols"
    using assms(2) by (simp_all add: page_inv_def)
  then have out: "k \<notin> set cols \<Longrightarrow> m(k := None) = m" for k by (metis domIff fun_upd_triv subsetD)
  have same: "page_inv cols m (filterEffect (s\<lparr>lp_columnFilters := lp_columnFilters s\<rparr>))"
    by (rule page_inv_filters[OF assms(2) m])
  have chosen: "page_inv cols (m(k := kept_value v)) (filterEffect (s\<lparr>lp_columnFilters := setFilterValue api k v (lp_columnFilters s)\<rparr>))"
    if "k \<in> set cols" for k v
    by (rule page_inv_filters[OF assms(2) laws(2,3)]) (use that m(3) in \<open>auto split: if_splits\<close>)
  show ?thesis
  proof (cases e)
    case (ChooseFilter k v)
    with laws(1)[of k] same chosen[of k "Some v"] show ?thesis
      by (cases "k \<in> set cols") (simp_all add: chooseFilter_def)
  next
    case (AllValues k)
    with laws(1)[of k] same chosen[of k None] out[of k] show ?thesis
      by (cases "k \<in> set cols") (simp_all add: chooseFilter_def kept_value_def)
  next
    case ClearFilters
    then show ?thesis by (auto intro!: page_inv_filters[OF assms(2)])
  qed (use assms(2) in \<open>auto simp: page_inv_def setSearch_def setPage_def setLimit_def\<close>)
qed

lemma page_inv_run:
  "table_api_laws api \<Longrightarrow> page_inv cols m s \<Longrightarrow> page_inv cols (fold (choice cols) es m) (fold (table_event api cols) es s)"
  by (induction es arbitrary: m s) (simp_all add: page_inv_event)

lemma page_inv_initial: "page_inv cols Map.empty (initialListPage limit)"
  by (simp add: page_inv_def initialListPage_def initialTable_def fun_eq_iff)

lemma page_filters_last_choices:
  assumes "table_api_laws api"
  shows "tbl_filters (lp_table (fold (table_event api cols) es (initialListPage limit))) =
    map_option OneValue \<circ> fold (choice cols) es Map.empty"
  using page_inv_run[OF assms page_inv_initial, of cols es limit] by (simp add: page_inv_def)

text \<open>
  C19. A list page that hands its column filters to its table keeps, whatever the user clicks, exactly the options
  chosen last for those keys that are columns of the table. The page of a user's activity, which hands its table an
  empty list, is not one of them (\<^verbatim>\<open>Activity_Page\<close>).
\<close>

theorem page_filters_refine_choices:
  assumes "table_api_laws api"
  shows "tbl_filters (lp_table (fold (table_event api cols) es (initialListPage limit))) =
    map_option OneValue \<circ> fold (choice cols) es Map.empty"
  by (rule page_filters_last_choices[OF assms])

theorem page_filters_refine_choices_witness:
  "tbl_filters (lp_table (fold (table_event list_filters [''status''])
     [ChooseFilter ''status'' ''running'', Search ''x'', ChooseFilter ''status'' ''error''] (initialListPage 10))) ''status'' =
   Some (OneValue ''error'')"
  using page_filters_refine_choices[OF list_filters_laws, of "[''status'']"
      "[ChooseFilter ''status'' ''running'', Search ''x'', ChooseFilter ''status'' ''error'']" 10] by (simp add: kept_value_def)

subsection \<open>Filters of the pages\<close>

text \<open>Per page: the identifiers of its columns and the keys of its filters.\<close>

type_synonym PageTable = "string list \<times> string list"

definition users_table :: PageTable where
  "users_table = ([''select'', ''username'', ''email'', ''role'', ''is_active'', ''is_verified'', ''nuke_balance'',
     ''daily_allowance'', ''created_at'', ''login_count'', ''actions''], [''role'', ''status''])"

definition volumes_table :: PageTable where
  "volumes_table = ([''display_name'', ''owner'', ''size_bytes'', ''status'', ''visibility'', ''server_count'',
     ''created_at'', ''actions''], [''status'', ''visibility''])"

definition plans_table :: PageTable where
  "plans_table = ([''select'', ''name'', ''slug'', ''cpu_limit'', ''memory_limit'', ''disk_limit'', ''cost_per_hour'',
     ''is_active'', ''created_at'', ''actions''], [''category'', ''is_active''])"

definition environments_table :: PageTable where
  "environments_table = ([''select'', ''name'', ''slug'', ''image'', ''category'', ''is_active'', ''created_at'',
     ''actions''], [''category'', ''is_active''])"

definition audit_table :: PageTable where
  "audit_table = ([''action'', ''target_type'', ''actor_id'', ''ip_address'', ''created_at'', ''actions''],
     [''action'', ''target_type''])"

definition workspaces_table :: PageTable where
  "workspaces_table = ([''name'', ''owner_username'', ''member_count'', ''volume_count'', ''is_active'', ''created_at'',
     ''actions''], [''status''])"

definition servers_table :: PageTable where
  "servers_table = ([''select'', ''name'', ''status'', ''health_status'', ''username'', ''allocated_cpu'',
     ''allocated_memory'', ''external_url'', ''created_at'', ''actions''], [''owner'', ''status''])"

definition my_servers_table :: PageTable where
  "my_servers_table = ([''select'', ''name'', ''status'', ''external_url'', ''created_at'', ''actions''], [''status''])"

definition page_tables :: "(string \<times> PageTable) list" where
  "page_tables = [(''/admin/users'', users_table), (''/admin/volumes'', volumes_table), (''/admin/plans'', plans_table),
     (''/admin/environments'', environments_table), (''/admin/audit-logs'', audit_table),
     (''/admin/workspaces'', workspaces_table), (''/admin/servers'', servers_table), (''/servers'', my_servers_table)]"

lemmas page_table_defs = page_tables_def users_table_def volumes_table_def plans_table_def environments_table_def
  audit_table_def workspaces_table_def servers_table_def my_servers_table_def

definition dead_filters :: "(string \<times> string) list" where
  "dead_filters = [(''/admin/users'', ''status''), (''/admin/plans'', ''category''), (''/admin/workspaces'', ''status''),
     (''/admin/servers'', ''owner'')]"

lemma dead_filters_table:
  "list_all (\<lambda>(p, cols, ks). list_all (\<lambda>k. k \<in> set cols \<longleftrightarrow> (p, k) \<notin> set dead_filters) ks) page_tables"
  by code_simp

lemma dead_filters_complete:
  "(p, cols, ks) \<in> set page_tables \<Longrightarrow> k \<in> set ks \<Longrightarrow> k \<in> set cols \<longleftrightarrow> (p, k) \<notin> set dead_filters"
  using dead_filters_table by (fastforce simp: list_all_iff)

lemma choice_column: "dom m \<subseteq> set cols \<Longrightarrow> dom (fold (choice cols) es m) \<subseteq> set cols"
proof (induction es arbitrary: m)
  case (Cons e es)
  have "dom (choice cols e m) \<subseteq> set cols" using Cons.prems by (cases e) (auto split: if_splits)
  with Cons.IH show ?case by simp
qed simp

text \<open>
  Choosing an option of a filter sets it, except for four filters of the administration pages whose key is not
  the identifier of a column: these do nothing, whatever is clicked before or after.
\<close>

theorem dead_filters_never_set:
  assumes "table_api_laws api" and "(p, cols, ks) \<in> set page_tables" and "k \<in> set ks"
  shows "tbl_filters (lp_table (fold (table_event api cols) (es @ [ChooseFilter k v]) (initialListPage limit))) k =
    (if (p, k) \<in> set dead_filters then None else map_option OneValue (kept_value (Some v)))"
proof (cases "k \<in> set cols")
  case True
  then have "fold (choice cols) (es @ [ChooseFilter k v]) Map.empty k = kept_value (Some v)" by simp
  with True dead_filters_complete[OF assms(2,3)] show ?thesis
    by (simp add: page_filters_last_choices[OF assms(1)] del: fold_append fold_simps)
next
  case False
  with choice_column[of Map.empty cols "es @ [ChooseFilter k v]"]
  have "fold (choice cols) (es @ [ChooseFilter k v]) Map.empty k = None" by (auto simp: dom_def)
  with False dead_filters_complete[OF assms(2,3)] show ?thesis
    by (simp add: page_filters_last_choices[OF assms(1)] del: fold_append fold_simps)
qed

theorem dead_filters_never_set_witness:
  "tbl_filters (lp_table (fold (table_event list_filters (fst servers_table)) ([] @ [ChooseFilter ''owner'' ''u1''])
     (initialListPage 20))) ''owner'' = None"
proof -
  have "(''/admin/servers'', fst servers_table, snd servers_table) \<in> set page_tables" by (simp add: page_tables_def)
  moreover have "''owner'' \<in> set (snd servers_table)" by (simp add: servers_table_def)
  moreover have "(''/admin/servers'', ''owner'') \<in> set dead_filters" by (simp add: dead_filters_def)
  ultimately show ?thesis
    using dead_filters_never_set[OF list_filters_laws, of "''/admin/servers''" "fst servers_table" "snd servers_table"
        "''owner''" "[]" "''u1''" 20] by simp
qed

subsection \<open>Selection\<close>

text \<open>
  The selection is kept per row identifier. A bulk action gets the selected rows among those of the page on
  display, in their order; its success empties the whole selection.
\<close>

type_synonym RowSelection = "string \<Rightarrow> bool"

definition toggleRow :: "string \<Rightarrow> RowSelection \<Rightarrow> RowSelection" where
  "toggleRow r sel = sel(r := \<not> sel r)"

definition selectedIds :: "('a \<Rightarrow> string) \<Rightarrow> RowSelection \<Rightarrow> 'a list \<Rightarrow> string list" where
  "selectedIds getRowId sel rows = map getRowId (filter (\<lambda>r. sel (getRowId r)) rows)"

definition clearSelection :: RowSelection where
  "clearSelection = (\<lambda>_. False)"

lemma toggleRow_selects:
  "distinct (map getRowId rows) \<Longrightarrow> r \<in> set rows \<Longrightarrow>
    getRowId r \<in> set (selectedIds getRowId (toggleRow (getRowId r) sel) rows) \<longleftrightarrow>
      getRowId r \<notin> set (selectedIds getRowId sel rows)"
  by (auto simp: selectedIds_def toggleRow_def image_iff)

lemma bulk_acts_on_page: "set (selectedIds getRowId sel rows) \<subseteq> getRowId ` set rows"
  by (auto simp: selectedIds_def)

end
