(* ===== verification/Deploy_Dialog.thy ===== *)
theory Deploy_Dialog
  imports Role_Matrix Format_Utils
begin

text \<open>
  Deploying a server (\<^verbatim>\<open>components/server/deploy-server-dialog.tsx\<close>) and editing one
  (\<^verbatim>\<open>routes/servers.index.tsx\<close>): the list of volume mounts both edit, the capacity check, the request each
  sends, and the effect that fills the deploy form when the dialog opens.
\<close>

subsection \<open>Volume mounts\<close>

datatype MountMode = ReadWrite | ReadOnly

record VolumeMountForm =
  vm_volume_id :: string
  vm_mount_path :: string
  vm_mode :: MountMode
  vm_max_size_gb :: int

definition GB :: int where "GB = 1024 * 1024 * 1024"

definition freshMounts :: "VolumeMountForm list" where
  "freshMounts = [\<lparr>vm_volume_id = [], vm_mount_path = [], vm_mode = ReadWrite, vm_max_size_gb = 10\<rparr>]"

definition addVolumeMount :: "VolumeMountForm list \<Rightarrow> VolumeMountForm list" where
  "addVolumeMount ms = ms @ [\<lparr>vm_volume_id = [], vm_mount_path = ''/data'', vm_mode = ReadWrite, vm_max_size_gb = 10\<rparr>]"

definition removeVolumeMount :: "nat \<Rightarrow> VolumeMountForm list \<Rightarrow> VolumeMountForm list" where
  "removeVolumeMount i ms = map snd (filter (\<lambda>(j, m). j \<noteq> i) (enumerate 0 ms))"

text \<open>The computed key of \<^verbatim>\<open>{ ...m, [field]: value }\<close>. A size is stored as text and read back by the arithmetic.\<close>

datatype MountField = Volume_field string | Path_field string | Mode_field MountMode | Size_field int

fun set_field :: "MountField \<Rightarrow> VolumeMountForm \<Rightarrow> VolumeMountForm" where
  "set_field (Volume_field v) m = m\<lparr>vm_volume_id := v\<rparr>"
| "set_field (Path_field v) m = m\<lparr>vm_mount_path := v\<rparr>"
| "set_field (Mode_field v) m = m\<lparr>vm_mode := v\<rparr>"
| "set_field (Size_field v) m = m\<lparr>vm_max_size_gb := v\<rparr>"

definition updateVolumeMount :: "nat \<Rightarrow> MountField \<Rightarrow> VolumeMountForm list \<Rightarrow> VolumeMountForm list" where
  "updateVolumeMount i f ms = map (\<lambda>(j, m). if j = i then set_field f m else m) (enumerate 0 ms)"

definition clampSize :: "string \<Rightarrow> int" where
  "clampSize s = (case js_parseInt10 s of None \<Rightarrow> 1 | Some v \<Rightarrow> max 1 (min 500 v))"

record VolumeInfo =
  vol_id :: string
  vol_max_size_bytes :: "int option"
  vol_size_bytes :: int

definition mount_bytes :: "VolumeInfo list \<Rightarrow> VolumeMountForm \<Rightarrow> int" where
  "mount_bytes volumes m =
    (if vm_volume_id m = [] then vm_max_size_gb m * GB
     else case find_key vol_id (vm_volume_id m) volumes of
       None \<Rightarrow> 0
     | Some v \<Rightarrow> (case vol_max_size_bytes v of Some n \<Rightarrow> if n \<noteq> 0 then n else vol_size_bytes v | None \<Rightarrow> vol_size_bytes v))"

definition totalAllocatedBytes :: "VolumeInfo list \<Rightarrow> VolumeMountForm list \<Rightarrow> int" where
  "totalAllocatedBytes volumes ms = foldl (\<lambda>sum m. sum + mount_bytes volumes m) 0 ms"

record DeployPlan =
  dplan_id :: string
  dplan_disk_limit :: string

text \<open>\<^term>\<open>None\<close> is \<^verbatim>\<open>NaN\<close>, which is not above zero.\<close>

definition planDiskBytes :: "DeployPlan list \<Rightarrow> string \<Rightarrow> int option" where
  "planDiskBytes plans p = (case find_key dplan_id p plans of None \<Rightarrow> Some 0 | Some pl \<Rightarrow> parseMemoryString (dplan_disk_limit pl))"

definition isOverCapacity :: "DeployPlan list \<Rightarrow> VolumeInfo list \<Rightarrow> string \<Rightarrow> VolumeMountForm list \<Rightarrow> bool" where
  "isOverCapacity plans volumes p ms =
    (case planDiskBytes plans p of None \<Rightarrow> False | Some b \<Rightarrow> 0 < b \<and> b < totalAllocatedBytes volumes ms)"

definition capacityPercent :: "DeployPlan list \<Rightarrow> VolumeInfo list \<Rightarrow> string \<Rightarrow> VolumeMountForm list \<Rightarrow> rat" where
  "capacityPercent plans volumes p ms =
    (case planDiskBytes plans p of
       Some b \<Rightarrow> if 0 < b then min 100 (of_int (totalAllocatedBytes volumes ms) / of_int b * 100) else 0
     | None \<Rightarrow> 0)"

record MountRequest =
  mr_volume_id :: string
  mr_mount_path :: string
  mr_mode :: MountMode
  mr_max_size_bytes :: "int option"

definition mount_requests :: "string \<Rightarrow> VolumeMountForm list \<Rightarrow> MountRequest list" where
  "mount_requests uname ms = map (\<lambda>(idx, m).
     \<lparr>mr_volume_id = vm_volume_id m,
      mr_mount_path = (if idx = 0 \<and> vm_mount_path m = [] then ''/home/'' @ uname
        else if vm_mount_path m \<noteq> [] then vm_mount_path m else ''/data''),
      mr_mode = vm_mode m,
      mr_max_size_bytes = (if vm_volume_id m = [] then Some (vm_max_size_gb m * GB) else None)\<rparr>) (enumerate 0 ms)"

definition mounts_inv :: "VolumeMountForm list \<Rightarrow> bool" where
  "mounts_inv ms \<longleftrightarrow> ms \<noteq> [] \<and> (\<forall>m \<in> set ms. 1 \<le> vm_max_size_gb m \<and> vm_max_size_gb m \<le> 500)"

lemma set_removeVolumeMount: "set (removeVolumeMount i ms) \<subseteq> set ms"
  by (auto simp: removeVolumeMount_def in_set_enumerate_eq)

lemma length_removeVolumeMount: "i < length ms \<Longrightarrow> length (removeVolumeMount i ms) = length ms - 1"
proof -
  assume i: "i < length ms"
  have "length (filter (\<lambda>(j, m). j \<noteq> i) (enumerate k ms)) = length ms - (if k \<le> i \<and> i < k + length ms then 1 else 0)" for k
    by (induction ms arbitrary: k) auto
  from this[of 0] i show ?thesis by (simp add: removeVolumeMount_def)
qed

lemma clampSize_bounds: "1 \<le> clampSize s \<and> clampSize s \<le> 500"
  by (simp add: clampSize_def split: option.splits)

lemma mounts_inv_fresh: "mounts_inv freshMounts"
  by (simp add: mounts_inv_def freshMounts_def)

lemma mounts_inv_add: "mounts_inv ms \<Longrightarrow> mounts_inv (addVolumeMount ms)"
  by (simp add: mounts_inv_def addVolumeMount_def)

lemma mounts_inv_remove: "mounts_inv ms \<Longrightarrow> 1 < length ms \<Longrightarrow> mounts_inv (removeVolumeMount i ms)"
proof (cases "i < length ms")
  case True
  moreover assume "mounts_inv ms" "1 < length ms"
  ultimately show ?thesis
    using length_removeVolumeMount[of i ms] set_removeVolumeMount[of i ms] by (auto simp: mounts_inv_def)
next
  case False
  then have "filter (\<lambda>(j, m). j \<noteq> i) (enumerate 0 ms) = enumerate 0 ms"
    by (auto simp: filter_id_conv in_set_enumerate_eq)
  then show "mounts_inv ms \<Longrightarrow> ?thesis" by (simp add: removeVolumeMount_def)
qed

fun field_ok :: "MountField \<Rightarrow> bool" where
  "field_ok (Size_field v) \<longleftrightarrow> 1 \<le> v \<and> v \<le> 500"
| "field_ok _ \<longleftrightarrow> True"

lemma set_field_size: "field_ok f \<Longrightarrow> 1 \<le> vm_max_size_gb m \<and> vm_max_size_gb m \<le> 500 \<Longrightarrow>
    1 \<le> vm_max_size_gb (set_field f m) \<and> vm_max_size_gb (set_field f m) \<le> 500"
  by (cases f) simp_all

lemma mounts_inv_update: "field_ok f \<Longrightarrow> mounts_inv ms \<Longrightarrow> mounts_inv (updateVolumeMount i f ms)"
  using set_field_size[of f]
  by (auto simp: mounts_inv_def updateVolumeMount_def in_set_enumerate_eq enumerate_eq_zip set_zip)


subsection \<open>The deploy dialog\<close>

text \<open>
  What the page passes to the dialog. The lists of plans and environments are objects: two renders pass the
  same list when the reference is the same, so each is paired with its reference.
\<close>

record DeployProps =
  pr_open :: bool
  pr_plans :: "nat \<times> DeployPlan list"
  pr_environments :: "nat \<times> string list"
  pr_volumes :: "VolumeInfo list"
  pr_username :: string
  pr_defaultPlan :: "string option"
  pr_defaultEnvironment :: "string option"

record DeployServerData =
  ds_name :: string
  ds_plan_id :: string
  ds_environment_id :: string
  ds_mounts :: "MountRequest list option"

type_synonym DeployDeps = "bool \<times> string option \<times> string option \<times> nat \<times> nat"

record DeployDialog =
  df_name :: string
  df_plan_id :: string
  df_environment_id :: string
  df_mounts :: "VolumeMountForm list"
  df_visibleError :: "string option"
  df_deps :: "DeployDeps option"
  df_sent :: "(DeployProps \<times> DeployServerData) list"

definition mountDeploy :: DeployDialog where
  "mountDeploy = \<lparr>df_name = [], df_plan_id = [], df_environment_id = [], df_mounts = freshMounts, df_visibleError = None,
     df_deps = None, df_sent = []\<rparr>"

definition deploy_deps :: "DeployProps \<Rightarrow> DeployDeps" where
  "deploy_deps pr = (pr_open pr, pr_defaultPlan pr, pr_defaultEnvironment pr, fst (pr_plans pr), fst (pr_environments pr))"

definition default_in :: "string option \<Rightarrow> string list \<Rightarrow> string" where
  "default_in d ids = (case d of Some i \<Rightarrow> if i \<noteq> [] \<and> i \<in> set ids then i else [] | None \<Rightarrow> [])"

text \<open>The effect runs when one of its dependencies differs from those of its last run.\<close>

definition deployEffect :: "DeployProps \<Rightarrow> DeployDialog \<Rightarrow> DeployDialog" where
  "deployEffect pr d =
    (if df_deps d = Some (deploy_deps pr) then d
     else let d' = d\<lparr>df_deps := Some (deploy_deps pr)\<rparr>
       in if pr_open pr
          then d'\<lparr>df_name := [], df_plan_id := default_in (pr_defaultPlan pr) (map dplan_id (snd (pr_plans pr))),
                  df_environment_id := default_in (pr_defaultEnvironment pr) (snd (pr_environments pr)),
                  df_mounts := freshMounts, df_visibleError := None\<rparr>
          else d')"

definition isValidDeploy :: "DeployProps \<Rightarrow> DeployDialog \<Rightarrow> bool" where
  "isValidDeploy pr d \<longleftrightarrow> js_trim (df_name d) \<noteq> [] \<and> df_plan_id d \<noteq> [] \<and> df_environment_id d \<noteq> [] \<and>
     \<not> isOverCapacity (snd (pr_plans pr)) (pr_volumes pr) (df_plan_id d) (df_mounts d)"

definition deploy_data :: "DeployProps \<Rightarrow> DeployDialog \<Rightarrow> DeployServerData" where
  "deploy_data pr d =
    (let mounts = mount_requests (pr_username pr) (df_mounts d)
     in \<lparr>ds_name = js_trim (df_name d), ds_plan_id = df_plan_id d, ds_environment_id = df_environment_id d,
         ds_mounts = (if length mounts > 0 then Some mounts else None)\<rparr>)"

definition submitDeploy :: "DeployProps \<Rightarrow> DeployDialog \<Rightarrow> DeployDialog" where
  "submitDeploy pr d =
    (if js_trim (df_name d) = [] then d\<lparr>df_visibleError := Some ''Server name is required''\<rparr>
     else if df_plan_id d = [] then d\<lparr>df_visibleError := Some ''Please select a plan''\<rparr>
     else if df_environment_id d = [] then d\<lparr>df_visibleError := Some ''Please select an environment''\<rparr>
     else d\<lparr>df_visibleError := None, df_sent := df_sent d @ [(pr, deploy_data pr d)]\<rparr>)"

definition deployFailed :: "string \<Rightarrow> DeployDialog \<Rightarrow> DeployDialog" where
  "deployFailed msg d = d\<lparr>df_visibleError := Some msg\<rparr>"

datatype DeployEvent = Name_text string | Plan_choice string | Environment_choice string | Add_mount | Remove_mount nat
  | Mount_volume nat string | Mount_path nat string | Mount_mode nat MountMode | Mount_size nat string
  | Deploy_click | Cancel_click | Deploy_failed string | Rerender DeployProps

text \<open>
  The button for removing is shown when there is more than one mount, the input for the size on rows for new
  volumes, and the deploy button is enabled when the form is valid. \<^verbatim>\<open>Cancel\<close> asks the page to close the
  dialog; the page answers with a new render.
\<close>

fun deploy_event :: "DeployEvent \<Rightarrow> DeployProps \<times> DeployDialog \<Rightarrow> DeployProps \<times> DeployDialog" where
  "deploy_event (Name_text v) (pr, d) = (pr, d\<lparr>df_name := v, df_visibleError := None\<rparr>)"
| "deploy_event (Plan_choice v) (pr, d) = (pr, d\<lparr>df_plan_id := v, df_visibleError := None\<rparr>)"
| "deploy_event (Environment_choice v) (pr, d) = (pr, d\<lparr>df_environment_id := v, df_visibleError := None\<rparr>)"
| "deploy_event Add_mount (pr, d) = (pr, d\<lparr>df_mounts := addVolumeMount (df_mounts d)\<rparr>)"
| "deploy_event (Remove_mount i) (pr, d) =
     (pr, if 1 < length (df_mounts d) then d\<lparr>df_mounts := removeVolumeMount i (df_mounts d)\<rparr> else d)"
| "deploy_event (Mount_volume i v) (pr, d) = (pr, d\<lparr>df_mounts := updateVolumeMount i (Volume_field v) (df_mounts d)\<rparr>)"
| "deploy_event (Mount_path i v) (pr, d) = (pr, d\<lparr>df_mounts := updateVolumeMount i (Path_field v) (df_mounts d)\<rparr>)"
| "deploy_event (Mount_mode i v) (pr, d) = (pr, d\<lparr>df_mounts := updateVolumeMount i (Mode_field v) (df_mounts d)\<rparr>)"
| "deploy_event (Mount_size i v) (pr, d) =
     (pr, d\<lparr>df_mounts := updateVolumeMount i (Size_field (clampSize v)) (df_mounts d)\<rparr>)"
| "deploy_event Deploy_click (pr, d) = (pr, if isValidDeploy pr d then submitDeploy pr d else d)"
| "deploy_event Cancel_click (pr, d) = (pr, d\<lparr>df_mounts := freshMounts\<rparr>)"
| "deploy_event (Deploy_failed msg) (pr, d) = (pr, deployFailed msg d)"
| "deploy_event (Rerender pr') (pr, d) = (pr', deployEffect pr' d)"

text \<open>
  The disk space a request takes: what it asks for a new volume, and for an existing one its limit, or its size where it
  has none, as the page lists it. A volume that is not listed counts nothing.
\<close>

definition request_bytes :: "VolumeInfo list \<Rightarrow> MountRequest \<Rightarrow> int" where
  "request_bytes volumes r =
    (if mr_volume_id r = [] then (case mr_max_size_bytes r of None \<Rightarrow> 0 | Some n \<Rightarrow> n)
     else sum_list (map (\<lambda>v. case vol_max_size_bytes v of None \<Rightarrow> vol_size_bytes v | Some n \<Rightarrow> if n = 0 then vol_size_bytes v else n)
       (take 1 (filter (\<lambda>v. vol_id v = mr_volume_id r) volumes))))"

text \<open>What a request promises, given the lists on display when it was sent.\<close>

definition mount_valid :: "MountRequest \<Rightarrow> bool" where
  "mount_valid r \<longleftrightarrow> mr_mount_path r \<noteq> [] \<and>
    (if mr_volume_id r = [] then \<exists>b. mr_max_size_bytes r = Some b \<and> GB \<le> b \<and> b \<le> 500 * GB
     else mr_max_size_bytes r = None)"

definition request_valid :: "DeployProps \<times> DeployServerData \<Rightarrow> bool" where
  "request_valid e \<longleftrightarrow> (case e of (pr, r) \<Rightarrow>
     ds_name r \<noteq> [] \<and> js_trim (ds_name r) = ds_name r \<and> ds_plan_id r \<noteq> [] \<and> ds_environment_id r \<noteq> [] \<and>
     (\<exists>reqs. ds_mounts r = Some reqs \<and> reqs \<noteq> [] \<and> list_all mount_valid reqs \<and>
       (\<forall>b. planDiskBytes (snd (pr_plans pr)) (ds_plan_id r) = Some b \<longrightarrow> 0 < b \<longrightarrow>
          sum_list (map (request_bytes (pr_volumes pr)) reqs) \<le> b)))"

lemma existing_bytes: "sum_list (map f (take 1 (filter P xs))) = (case find P xs of None \<Rightarrow> 0 | Some x \<Rightarrow> (f x :: int))"
  by (induction xs) auto

lemma request_bytes_form:
  "request_bytes volumes \<lparr>mr_volume_id = vm_volume_id m, mr_mount_path = p, mr_mode = md,
     mr_max_size_bytes = (if vm_volume_id m = [] then Some (vm_max_size_gb m * GB) else None)\<rparr> = mount_bytes volumes m"
  unfolding request_bytes_def mount_bytes_def existing_bytes find_key_def by (auto split: option.split)

text \<open>The request takes what the form shows as allocated.\<close>

lemma request_total: "sum_list (map (request_bytes volumes) (mount_requests u ms)) = totalAllocatedBytes volumes ms"
proof -
  have "map (request_bytes volumes) (mount_requests u ms) = map (\<lambda>x. mount_bytes volumes (snd x)) (enumerate 0 ms)"
    unfolding mount_requests_def map_map comp_def case_prod_beta request_bytes_form ..
  also have "\<dots> = map (mount_bytes volumes) (map snd (enumerate 0 ms))" by (simp only: map_map comp_def)
  finally have "map (request_bytes volumes) (mount_requests u ms) = map (mount_bytes volumes) ms" by (simp only: map_snd_enumerate)
  moreover have "foldl (\<lambda>sum m. sum + mount_bytes volumes m) a ms = a + sum_list (map (mount_bytes volumes) ms)" for a
    by (induction ms arbitrary: a) simp_all
  ultimately show ?thesis by (simp add: totalAllocatedBytes_def)
qed

lemma mount_requests_valid: "mounts_inv ms \<Longrightarrow> list_all mount_valid (mount_requests u ms)"
  by (auto simp: list_all_iff mount_requests_def mount_valid_def mounts_inv_def in_set_enumerate_eq GB_def
      split: if_splits)

lemma mount_requests_empty: "mount_requests u ms = [] \<longleftrightarrow> ms = []"
  by (auto simp: mount_requests_def enumerate_eq_zip)

definition deploy_inv :: "DeployProps \<times> DeployDialog \<Rightarrow> bool" where
  "deploy_inv s \<longleftrightarrow> mounts_inv (df_mounts (snd s)) \<and> list_all request_valid (df_sent (snd s))"

lemma deploy_inv_submit: "deploy_inv (pr, d) \<Longrightarrow> isValidDeploy pr d \<Longrightarrow> deploy_inv (pr, submitDeploy pr d)"
  by (auto simp: deploy_inv_def submitDeploy_def request_valid_def deploy_data_def Let_def js_trim_trim isValidDeploy_def
      isOverCapacity_def mount_requests_valid mount_requests_empty request_total mounts_inv_def not_less)

lemma deploy_inv_event: "deploy_inv s \<Longrightarrow> deploy_inv (deploy_event e s)"
proof (cases s)
  case (Pair pr d)
  assume "deploy_inv s"
  then have i: "mounts_inv (df_mounts d)" "list_all request_valid (df_sent d)" using Pair by (simp_all add: deploy_inv_def)
  show ?thesis
  proof (cases e)
    case Deploy_click
    with \<open>deploy_inv s\<close> Pair show ?thesis by (simp add: deploy_inv_submit)
  qed (use i Pair clampSize_bounds in \<open>auto simp: deploy_inv_def mounts_inv_add mounts_inv_remove mounts_inv_update
        mounts_inv_fresh deployFailed_def deployEffect_def Let_def\<close>)
qed

text \<open>The dialog within its page: the properties may change at any render.\<close>

inductive deploy_step :: "DeployProps \<times> DeployDialog \<Rightarrow> DeployProps \<times> DeployDialog \<Rightarrow> bool" where
  "deploy_step s (deploy_event e s)"

interpretation deploy_sys: transition_system "\<lambda>s. snd s = mountDeploy" deploy_step deploy_inv
proof
  show "snd s = mountDeploy \<Longrightarrow> deploy_inv s" for s
    by (simp add: deploy_inv_def mountDeploy_def mounts_inv_fresh)
  show "deploy_inv s \<Longrightarrow> deploy_step s t \<Longrightarrow> deploy_inv t" for s t
    by (auto elim!: deploy_step.cases intro: deploy_inv_event)
qed

lemma deploy_run: "deploy_step\<^sup>*\<^sup>* s (fold deploy_event es s)"
proof (induction es arbitrary: s)
  case (Cons e es)
  then show ?case using deploy_step.intros[of s e] by (simp add: converse_rtranclp_into_rtranclp)
qed simp

text \<open>
  C17. Whatever the user and the page do, a deployment is only sent with a trimmed name, a plan, an environment and
  at least one mount; every mount has a path, new volumes between one and five hundred gigabytes, existing ones
  no size. Where the limit of the plan reads as a number above zero, the sizes the request asks for, together with
  what the listed existing volumes take, fit it.
\<close>

theorem deployments_valid:
  assumes "(pr, r) \<in> set (df_sent (snd (fold deploy_event es (pr0, mountDeploy))))"
  shows "request_valid (pr, r)"
  using deploy_sys.reachable_inv[OF _ deploy_run, of "(pr0, mountDeploy)" es] assms
  by (auto simp: deploy_inv_def list_all_iff)

definition demo_props :: DeployProps where
  "demo_props = \<lparr>pr_open = True, pr_plans = (0, [\<lparr>dplan_id = ''p1'', dplan_disk_limit = ''20G''\<rparr>]),
     pr_environments = (0, [''e1'']), pr_volumes = [], pr_username = ''ada'', pr_defaultPlan = Some ''p1'',
     pr_defaultEnvironment = Some ''e1''\<rparr>"

definition demo_sent :: DeployServerData where
  "demo_sent = \<lparr>ds_name = ''sim'', ds_plan_id = ''p1'', ds_environment_id = ''e1'', ds_mounts = Some
     [\<lparr>mr_volume_id = [], mr_mount_path = ''/home/ada'', mr_mode = ReadWrite, mr_max_size_bytes = Some (10 * GB)\<rparr>]\<rparr>"

lemma demo_plan_disk: "parseMemoryString ''20G'' = Some (20 * GB)"
  by code_simp

lemma demo_deploy:
  "df_sent (snd (fold deploy_event [Rerender demo_props, Name_text ''sim'', Deploy_click] (demo_props, mountDeploy))) =
     [(demo_props, demo_sent)]"
proof -
  have n: "js_trim ''sim'' = ''sim''" by code_simp
  have o: "\<not> isOverCapacity [\<lparr>dplan_id = ''p1'', dplan_disk_limit = ''20G''\<rparr>] [] ''p1'' freshMounts"
    by (simp add: isOverCapacity_def planDiskBytes_def demo_plan_disk totalAllocatedBytes_def mount_bytes_def freshMounts_def GB_def)
  show ?thesis
    using n o by (simp add: mountDeploy_def deployEffect_def deploy_deps_def demo_props_def default_in_def isValidDeploy_def
        submitDeploy_def deploy_data_def mount_requests_def demo_sent_def freshMounts_def Let_def)
qed

theorem deployments_valid_witness:
  "request_valid (demo_props, demo_sent) \<and> ds_plan_id demo_sent = ''p1''"
proof -
  have "(demo_props, demo_sent) \<in> set (df_sent (snd (fold deploy_event
      [Rerender demo_props, Name_text ''sim'', Deploy_click] (demo_props, mountDeploy))))"
    unfolding demo_deploy by simp
  from deployments_valid[OF this] show ?thesis by (simp add: demo_sent_def)
qed

lemma form_events_keep_deps:
  "\<forall>e \<in> set es. \<forall>p. e \<noteq> Rerender p \<Longrightarrow> fold deploy_event es (pr, d) = (pr', d') \<Longrightarrow> pr' = pr \<and> df_deps d' = df_deps d"
proof (induction es arbitrary: d)
  case (Cons e es)
  have "\<exists>d1. deploy_event e (pr, d) = (pr, d1) \<and> df_deps d1 = df_deps d"
    using Cons.prems(1) by (cases e) (auto simp: deployFailed_def submitDeploy_def)
  with Cons show ?case by fastforce
qed simp

text \<open>
  The form is filled in again whenever a list is replaced while the dialog is open. So a form typed before the
  plans have arrived is lost when they do: name, choices and mounts are those of a dialog just opened.
\<close>

theorem late_plans_discard_form:
  assumes "\<forall>e \<in> set es. \<forall>p. e \<noteq> Rerender p" and "pr_open pr'" and "fst (pr_plans pr') \<noteq> fst (pr_plans pr)"
  shows "let d = snd (fold deploy_event (Rerender pr # es @ [Rerender pr']) (pr0, d0))
    in df_name d = [] \<and> df_mounts d = freshMounts \<and>
      df_plan_id d = default_in (pr_defaultPlan pr') (map dplan_id (snd (pr_plans pr')))"
proof -
  obtain pr1 d1 where d1: "fold deploy_event es (pr, deployEffect pr d0) = (pr1, d1)"
    by (cases "fold deploy_event es (pr, deployEffect pr d0)")
  from form_events_keep_deps[OF assms(1) d1] have "df_deps d1 = Some (deploy_deps pr)"
    by (auto simp: deployEffect_def Let_def split: if_splits)
  moreover have "deploy_deps pr \<noteq> deploy_deps pr'" using assms(3) by (simp add: deploy_deps_def)
  ultimately show ?thesis using assms(2) d1 by (simp add: deployEffect_def Let_def)
qed

theorem late_plans_discard_form_witness:
  "df_name (snd (fold deploy_event (Rerender (demo_props\<lparr>pr_plans := (1, [])\<rparr>) # [Name_text ''sim''] @ [Rerender demo_props])
     (demo_props, mountDeploy))) = []"
  using late_plans_discard_form[of "[Name_text ''sim'']" demo_props "demo_props\<lparr>pr_plans := (1, [])\<rparr>" demo_props mountDeploy]
  by (simp add: Let_def demo_props_def del: fold_simps deploy_event.simps)

text \<open>Two added mounts ask for the same path unless the user changes one.\<close>

lemma added_mounts_collide:
  "map mr_mount_path (mount_requests u (addVolumeMount (addVolumeMount freshMounts))) =
    [''/home/'' @ u, ''/data'', ''/data'']"
  by (simp add: mount_requests_def addVolumeMount_def freshMounts_def)

subsection \<open>The edit dialog\<close>

record ServerMount =
  sm_volume_id :: string
  sm_mount_path :: string
  sm_mode :: MountMode
  sm_volume_max :: "int option"

record ServerConfig =
  sc_id :: string
  sc_name :: string
  sc_plan_id :: "string option"
  sc_environment_id :: "string option"
  sc_volume_id :: "string option"
  sc_volume_mode :: "MountMode option"
  sc_volume_mounts :: "ServerMount list option"

record EditDialog =
  ed_open :: bool
  ed_server :: "string option"
  ed_name :: string
  ed_plan_id :: string
  ed_environment_id :: string
  ed_mounts :: "VolumeMountForm list"
  ed_visibleError :: "string option"

record ServerUpdate =
  su_name :: "string option"
  su_plan_id :: "string option"
  su_environment_id :: "string option"
  su_mounts :: "MountRequest list option"

definition text_or_empty :: "string option \<Rightarrow> string" where
  "text_or_empty v = (case v of None \<Rightarrow> [] | Some s \<Rightarrow> s)"

definition text_or_undefined :: "string \<Rightarrow> string option" where
  "text_or_undefined s = (if s = [] then None else Some s)"

definition openEditDialog :: "string \<Rightarrow> ServerConfig \<Rightarrow> EditDialog" where
  "openEditDialog uname server =
    \<lparr>ed_open = True, ed_server = Some (sc_id server), ed_name = sc_name server,
     ed_plan_id = text_or_empty (sc_plan_id server), ed_environment_id = text_or_empty (sc_environment_id server),
     ed_mounts = (case sc_volume_mounts server of
        Some (m # ms) \<Rightarrow> map (\<lambda>m. \<lparr>vm_volume_id = sm_volume_id m, vm_mount_path = sm_mount_path m, vm_mode = sm_mode m,
           vm_max_size_gb = (case sm_volume_max m of
              Some b \<Rightarrow> if b \<noteq> 0 then js_round_div b GB else 10 | None \<Rightarrow> 10)\<rparr>) (m # ms)
      | _ \<Rightarrow> [\<lparr>vm_volume_id = text_or_empty (sc_volume_id server),
           vm_mount_path = (if sc_volume_mode server = None then [] else ''/home/'' @ uname),
           vm_mode = (case sc_volume_mode server of None \<Rightarrow> ReadWrite | Some md \<Rightarrow> md), vm_max_size_gb = 10\<rparr>]),
     ed_visibleError = None\<rparr>"

definition edit_data :: "string \<Rightarrow> EditDialog \<Rightarrow> ServerUpdate" where
  "edit_data uname d =
    (let mounts = mount_requests uname (ed_mounts d)
     in \<lparr>su_name = Some (ed_name d), su_plan_id = text_or_undefined (ed_plan_id d),
         su_environment_id = text_or_undefined (ed_environment_id d),
         su_mounts = (if length mounts > 0 then Some mounts else None)\<rparr>)"

definition handleEdit :: "string \<Rightarrow> EditDialog \<Rightarrow> (string \<times> ServerUpdate) option \<times> EditDialog" where
  "handleEdit uname d = (map_option (\<lambda>i. (i, edit_data uname d)) (ed_server d), d\<lparr>ed_visibleError := None\<rparr>)"

definition editSaved :: "EditDialog \<Rightarrow> EditDialog" where
  "editSaved d = d\<lparr>ed_open := False, ed_server := None\<rparr>"

text \<open>
  The backend's handler of the update: the container is recreated when the plan, the environment or the mounts
  are given, whether or not they differ from the present ones.
\<close>

definition needs_recreate :: "ServerUpdate \<Rightarrow> bool" where
  "needs_recreate body \<longleftrightarrow> su_plan_id body \<noteq> None \<or> su_environment_id body \<noteq> None \<or> su_mounts body \<noteq> None"

definition edit_event :: "DeployEvent \<Rightarrow> EditDialog \<Rightarrow> EditDialog" where
  "edit_event e d = (case e of
       Name_text v \<Rightarrow> d\<lparr>ed_name := v, ed_visibleError := None\<rparr>
     | Plan_choice v \<Rightarrow> d\<lparr>ed_plan_id := v, ed_visibleError := None\<rparr>
     | Environment_choice v \<Rightarrow> d\<lparr>ed_environment_id := v, ed_visibleError := None\<rparr>
     | Add_mount \<Rightarrow> d\<lparr>ed_mounts := addVolumeMount (ed_mounts d)\<rparr>
     | Remove_mount i \<Rightarrow> (if 1 < length (ed_mounts d) then d\<lparr>ed_mounts := removeVolumeMount i (ed_mounts d)\<rparr> else d)
     | Mount_volume i v \<Rightarrow> d\<lparr>ed_mounts := updateVolumeMount i (Volume_field v) (ed_mounts d)\<rparr>
     | Mount_path i v \<Rightarrow> d\<lparr>ed_mounts := updateVolumeMount i (Path_field v) (ed_mounts d)\<rparr>
     | Mount_mode i v \<Rightarrow> d\<lparr>ed_mounts := updateVolumeMount i (Mode_field v) (ed_mounts d)\<rparr>
     | Mount_size i v \<Rightarrow> d\<lparr>ed_mounts := updateVolumeMount i (Size_field (clampSize v)) (ed_mounts d)\<rparr>
     | _ \<Rightarrow> d)"

lemma edit_mounts_nonempty: "ed_mounts d \<noteq> [] \<Longrightarrow> ed_mounts (edit_event e d) \<noteq> []"
proof (cases e)
  case (Remove_mount i)
  assume "ed_mounts d \<noteq> []"
  moreover have "i \<ge> length (ed_mounts d) \<Longrightarrow> removeVolumeMount i (ed_mounts d) = ed_mounts d"
  proof -
    assume "i \<ge> length (ed_mounts d)"
    then have "filter (\<lambda>(j, m). j \<noteq> i) (enumerate 0 (ed_mounts d)) = enumerate 0 (ed_mounts d)"
      by (auto simp: filter_id_conv in_set_enumerate_eq)
    then show ?thesis by (simp add: removeVolumeMount_def)
  qed
  moreover have "i < length (ed_mounts d) \<Longrightarrow> 1 < length (ed_mounts d) \<Longrightarrow> removeVolumeMount i (ed_mounts d) \<noteq> []"
    using length_removeVolumeMount[of i "ed_mounts d"] by auto
  ultimately show ?thesis using Remove_mount by (cases "i < length (ed_mounts d)") (auto simp: edit_event_def)
qed (auto simp: edit_event_def addVolumeMount_def updateVolumeMount_def enumerate_eq_zip)

lemma edit_run_nonempty: "ed_mounts d \<noteq> [] \<Longrightarrow> ed_mounts (fold edit_event es d) \<noteq> []"
  by (induction es arbitrary: d) (simp_all add: edit_mounts_nonempty)

lemma open_edit_nonempty: "ed_mounts (openEditDialog u server) \<noteq> []"
  by (simp add: openEditDialog_def split: option.splits list.splits)

text \<open>
  Every edit, also one that only changes the name, makes the backend stop and recreate the container.\<close>

theorem every_edit_recreates:
  "needs_recreate (edit_data u (fold edit_event es (openEditDialog u server)))"
  using edit_run_nonempty[OF open_edit_nonempty, of es u server]
  by (simp add: needs_recreate_def edit_data_def mount_requests_empty Let_def)

text \<open>
  Opening the dialog and saving sends the mounts the server has.\<close>

theorem edit_keeps_mounts:
  assumes "sc_volume_mounts server = Some ms" and "ms \<noteq> []"
    and "\<forall>m \<in> set ms. sm_volume_id m \<noteq> [] \<and> sm_mount_path m \<noteq> []"
  shows "map_option (map (\<lambda>r. (mr_volume_id r, mr_mount_path r, mr_mode r, mr_max_size_bytes r)))
      (su_mounts (edit_data u (openEditDialog u server))) =
    Some (map (\<lambda>m. (sm_volume_id m, sm_mount_path m, sm_mode m, None)) ms)"
proof -
  have "ed_mounts (openEditDialog u server) = map (\<lambda>m. \<lparr>vm_volume_id = sm_volume_id m, vm_mount_path = sm_mount_path m,
      vm_mode = sm_mode m, vm_max_size_gb = (case sm_volume_max m of
        Some b \<Rightarrow> if b \<noteq> 0 then js_round_div b GB else 10 | None \<Rightarrow> 10)\<rparr>) ms"
    using assms(1,2) by (cases ms) (simp_all add: openEditDialog_def)
  moreover have "map (\<lambda>r. (mr_volume_id r, mr_mount_path r, mr_mode r, mr_max_size_bytes r))
      (mount_requests u (map (\<lambda>m. \<lparr>vm_volume_id = sm_volume_id m, vm_mount_path = sm_mount_path m,
        vm_mode = sm_mode m, vm_max_size_gb = f m\<rparr>) ms)) = map (\<lambda>m. (sm_volume_id m, sm_mount_path m, sm_mode m, None)) ms" for f
    by (rule nth_equalityI) (use assms(3) in \<open>simp_all add: mount_requests_def nth_enumerate_eq\<close>)
  ultimately show ?thesis using assms(2) by (simp add: edit_data_def Let_def mount_requests_empty)
qed

definition demo_server :: ServerConfig where
  "demo_server = \<lparr>sc_id = ''s1'', sc_name = ''sim'', sc_plan_id = Some ''p1'', sc_environment_id = Some ''e1'',
     sc_volume_id = None, sc_volume_mode = None, sc_volume_mounts = Some
       [\<lparr>sm_volume_id = ''v1'', sm_mount_path = ''/home/ada'', sm_mode = ReadWrite, sm_volume_max = Some (10 * GB)\<rparr>]\<rparr>"

theorem edit_keeps_mounts_witness:
  "map_option (map mr_volume_id) (su_mounts (edit_data ''ada'' (openEditDialog ''ada'' demo_server))) = Some [''v1'']"
  using edit_keeps_mounts[of demo_server "the (sc_volume_mounts demo_server)" "''ada''"]
  by (auto simp: demo_server_def)

text \<open>A server without volumes gets one: saving the form as it opens asks for a new volume of ten gigabytes.\<close>

theorem edit_of_bare_server_adds_volume:
  assumes "sc_volume_mounts server = None \<or> sc_volume_mounts server = Some []" and "sc_volume_id server = None"
  shows "\<exists>r. su_mounts (edit_data u (openEditDialog u server)) = Some [r] \<and> mr_volume_id r = [] \<and>
    mr_mount_path r = ''/home/'' @ u \<and> mr_max_size_bytes r = Some (10 * GB)"
  using assms by (auto simp: edit_data_def openEditDialog_def text_or_empty_def mount_requests_def Let_def)

theorem edit_of_bare_server_adds_volume_witness:
  "\<exists>r. su_mounts (edit_data ''ada'' (openEditDialog ''ada'' (demo_server\<lparr>sc_volume_mounts := Some []\<rparr>))) = Some [r] \<and>
     mr_max_size_bytes r = Some 10737418240"
  using edit_of_bare_server_adds_volume[of "demo_server\<lparr>sc_volume_mounts := Some []\<rparr>" "''ada''"]
  by (auto simp: demo_server_def GB_def)

text \<open>
  The page offers the dialog to every user for their own servers, and the backend's handler asks for the
  permission to write all servers: a plain user's edit is refused.
\<close>

definition update_allowed :: "RoleTable \<Rightarrow> User option \<Rightarrow> bool" where
  "update_allowed T usr \<longleftrightarrow> has_permission T usr SERVERS_WRITE_ALL"

lemma implied_write_all:
  "list_all (\<lambda>(p, qs). p = ALL_PERMISSIONS \<or> (ALL_PERMISSIONS \<notin> set qs \<and> SERVERS_WRITE_ALL \<notin> set qs)) implications"
  by code_simp

lemma own_server_roles:
  "list_all (\<lambda>r. SERVERS_WRITE_OWN \<in> set (get_role_permissions (map_of ROLE_PERMISSIONS) r) \<and> ALL_PERMISSIONS \<notin> set (get_role_permissions (map_of ROLE_PERMISSIONS) r) \<and>
     SERVERS_WRITE_ALL \<notin> set (get_role_permissions (map_of ROLE_PERMISSIONS) r)) [''user'', ''support'']"
  by code_simp

lemma closed_without_write_all: "perm_closed (- {ALL_PERMISSIONS, SERVERS_WRITE_ALL})"
  unfolding perm_closed_def
proof
  fix p assume p: "p \<in> - {ALL_PERMISSIONS, SERVERS_WRITE_ALL}"
  show "set (implied p) \<subseteq> - {ALL_PERMISSIONS, SERVERS_WRITE_ALL}"
  proof (cases "map_of implications p")
    case (Some qs)
    then have "(p, qs) \<in> set implications" by (rule map_of_SomeD)
    then have "p = ALL_PERMISSIONS \<or> (ALL_PERMISSIONS \<notin> set qs \<and> SERVERS_WRITE_ALL \<notin> set qs)"
      using implied_write_all unfolding list_all_iff by blast
    moreover have "implied p = qs" using Some by (simp add: implied_def)
    ultimately show ?thesis using p by blast
  qed (simp add: implied_def)
qed

theorem plain_user_cannot_edit:
  assumes "role u = ''user'' \<or> role u = ''support''" and "is_active u"
  shows "has_permission (map_of ROLE_PERMISSIONS) (Some u) SERVERS_WRITE_OWN \<and> \<not> update_allowed (map_of ROLE_PERMISSIONS) (Some u)"
proof -
  let ?raw = "get_role_permissions (map_of ROLE_PERMISSIONS) (role u)"
  have "role u \<in> set [''user'', ''support'']" using assms(1) by simp
  from own_server_roles[unfolded list_all_iff, rule_format, OF this]
  have raw: "SERVERS_WRITE_OWN \<in> set ?raw" "set ?raw \<subseteq> - {ALL_PERMISSIONS, SERVERS_WRITE_ALL}" by blast+
  with expand_superset[of ?raw] expand_least[OF closed_without_write_all raw(2)] assms(2) show ?thesis
    by (auto simp: update_allowed_def has_permission_def get_expanded_role_permissions_def)
qed

theorem plain_user_cannot_edit_witness: "\<not> update_allowed (map_of ROLE_PERMISSIONS) (Some (demo_user ''user'' None))"
  using plain_user_cannot_edit[of "demo_user ''user'' None"] by (simp add: demo_user_def)

end
