(* ===== verification/Server_Lists.thy ===== *)
theory Server_Lists
  imports Data_Table Query_Hooks Server_Actions Js_Sort Complex_Main
begin

text \<open>
  The two lists of servers (\<^verbatim>\<open>routes/servers.index.tsx\<close> for one's own, \<^verbatim>\<open>routes/admin.servers.tsx\<close> for
  all): search, filters, sorting, pages, the cards above the table, opening a server, the buttons of a row and
  bulk actions.
\<close>

subsection \<open>Sorting with a total order\<close>

text \<open>The comparison of strings by code units.\<close>

fun js_less :: "string \<Rightarrow> string \<Rightarrow> bool" where
  "js_less _ [] = False"
| "js_less [] (_ # _) = True"
| "js_less (c # s) (d # t) \<longleftrightarrow> of_char c < (of_char d :: nat) \<or> (c = d \<and> js_less s t)"

lemma js_less_irrefl: "\<not> js_less s s"
  by (induction s) auto

lemma js_less_total: "js_less s t \<or> s = t \<or> js_less t s"
proof (induction s t rule: js_less.induct)
  case (3 c s d t)
  have "of_char c = (of_char d :: nat) \<longleftrightarrow> c = d" by (simp add: of_char_eq_iff)
  with 3 show ?case by (auto simp: nat_neq_iff)
qed (auto simp: neq_Nil_conv, metis js_less.simps(2) list.exhaust)

lemma js_less_trans: "js_less s t \<Longrightarrow> js_less t u \<Longrightarrow> js_less s u"
proof (induction s t arbitrary: u rule: js_less.induct)
  case (2 d t)
  then show ?case by (cases u) auto
next
  case (3 c s d t)
  then show ?case by (cases u) auto
qed simp

subsection \<open>Rows and columns\<close>

record ListedServer = Server +
  ls_name :: string
  ls_external_url :: "string option"
  ls_created_at :: "string option"
  ls_health_status :: "string option"
  ls_allocated_cpu :: "rat option"
  ls_allocated_memory :: "string option"

datatype FieldValue = FNum rat | FStr string

definition field :: "string \<Rightarrow> ListedServer \<Rightarrow> FieldValue option" where
  "field k s =
    (if k = ''name'' then Some (FStr (ls_name s))
     else if k = ''status'' then Some (FStr (status s))
     else if k = ''external_url'' then map_option FStr (ls_external_url s)
     else if k = ''created_at'' then map_option FStr (ls_created_at s)
     else if k = ''health_status'' then map_option FStr (ls_health_status s)
     else if k = ''username'' then map_option FStr (server_username s)
     else if k = ''allocated_cpu'' then map_option FNum (ls_allocated_cpu s)
     else if k = ''allocated_memory'' then map_option FStr (ls_allocated_memory s)
     else None)"

text \<open>A column holds values of one type, so the mixed cases do not occur.\<close>

fun field_less :: "FieldValue \<Rightarrow> FieldValue \<Rightarrow> bool" where
  "field_less (FNum x) (FNum y) \<longleftrightarrow> x < y"
| "field_less (FStr x) (FStr y) \<longleftrightarrow> js_less x y"
| "field_less _ _ \<longleftrightarrow> False"

definition server_cmp :: "(string \<times> bool) list \<Rightarrow> ListedServer \<Rightarrow> ListedServer \<Rightarrow> int" where
  "server_cmp sorting a b =
    (case sorting of
       [] \<Rightarrow> 0
     | (k, desc) # _ \<Rightarrow>
         (case (field k a, field k b) of
            (Some x, Some y) \<Rightarrow>
              if field_less x y then (if desc then 1 else - 1)
              else if field_less y x then (if desc then - 1 else 1) else 0
          | _ \<Rightarrow> 0))"

definition sortedServers :: "(string \<times> bool) list \<Rightarrow> ListedServer list \<Rightarrow> ListedServer list" where
  "sortedServers sorting xs = js_sort (server_cmp sorting) xs"

definition row_le :: "string \<Rightarrow> bool \<Rightarrow> ListedServer \<Rightarrow> ListedServer \<Rightarrow> bool" where
  "row_le k desc a b \<longleftrightarrow> (case (field k a, field k b) of
     (Some x, Some y) \<Rightarrow> (if desc then \<not> field_less x y else \<not> field_less y x) | _ \<Rightarrow> True)"

lemma server_cmp_le: "server_cmp [(k, desc)] a b \<le> 0 \<longleftrightarrow> row_le k desc a b \<or> (field k a \<noteq> None \<and> field k b \<noteq> None \<and>
    field_less (the (field k a)) (the (field k b)) \<and> field_less (the (field k b)) (the (field k a)) \<and> \<not> desc)"
  by (auto simp: server_cmp_def row_le_def split: option.splits)

lemma field_same_type:
  "field k a = Some x \<Longrightarrow> field k b = Some y \<Longrightarrow> (\<exists>p q. x = FNum p \<and> y = FNum q) \<or> (\<exists>s t. x = FStr s \<and> y = FStr t)"
  by (auto simp: field_def split: if_splits)

lemma field_less_asym: "field_less x y \<Longrightarrow> \<not> field_less y x"
  by (cases x; cases y) (auto dest: js_less_trans simp: js_less_irrefl)

lemma server_cmp_row: "server_cmp [(k, desc)] a b \<le> 0 \<longleftrightarrow> row_le k desc a b"
  unfolding server_cmp_le using field_less_asym by blast

lemma row_le_total: "row_le k desc a b \<or> row_le k desc b a"
  by (auto simp: row_le_def dest: field_less_asym split: option.splits)

lemma field_not_less_trans:
  assumes "field k a = Some x" "field k b = Some y" "field k c = Some z"
    and "\<not> field_less y x" "\<not> field_less z y"
  shows "\<not> field_less z x"
  using field_same_type[OF assms(1,2)] field_same_type[OF assms(2,3)] assms(4,5) js_less_total js_less_trans
  by (auto simp: not_less) blast+

lemma row_le_trans:
  assumes "field k a \<noteq> None" "field k b \<noteq> None" "field k c \<noteq> None" "row_le k desc a b" "row_le k desc b c"
  shows "row_le k desc a c"
proof -
  obtain x y z where f: "field k a = Some x" "field k b = Some y" "field k c = Some z" using assms(1-3) by auto
  show ?thesis
    using field_not_less_trans[OF f] field_not_less_trans[OF f(3,2,1)] assms(4,5) f
    by (cases desc) (simp_all add: row_le_def)
qed

text \<open>
  Sorting by a column that every row has a value for shows the same rows in the order of the column, and rows
  the column does not distinguish in the order they had.
\<close>

theorem sorting_orders_rows:
  assumes "\<forall>s \<in> set xs. field k s \<noteq> None"
  shows "mset (sortedServers [(k, desc)] xs) = mset xs \<and> sorted_wrt (row_le k desc) (sortedServers [(k, desc)] xs) \<and>
    (\<forall>v. filter (\<lambda>s. field k s = Some v) (sortedServers [(k, desc)] xs) = filter (\<lambda>s. field k s = Some v) xs)"
proof (intro conjI allI)
  show "mset (sortedServers [(k, desc)] xs) = mset xs" by (simp add: sortedServers_def mset_js_sort)
  have "sorted_wrt (\<lambda>a b. server_cmp [(k, desc)] a b \<le> 0) (js_sort (server_cmp [(k, desc)]) xs)"
  proof (rule js_sort_total[where A = "set xs"])
    show "server_cmp [(k, desc)] a b \<le> 0 \<or> server_cmp [(k, desc)] b a \<le> 0" for a b
      by (simp add: server_cmp_row row_le_total)
    show "server_cmp [(k, desc)] a b \<le> 0 \<Longrightarrow> server_cmp [(k, desc)] b c \<le> 0 \<Longrightarrow> server_cmp [(k, desc)] a c \<le> 0"
      if "a \<in> set xs" "b \<in> set xs" "c \<in> set xs" for a b c
      unfolding server_cmp_row by (rule row_le_trans) (use assms that in blast)+
  qed simp
  then show "sorted_wrt (row_le k desc) (sortedServers [(k, desc)] xs)" by (simp add: sortedServers_def server_cmp_row)
  show "filter (\<lambda>s. field k s = Some v) (sortedServers [(k, desc)] xs) = filter (\<lambda>s. field k s = Some v) xs" for v
    unfolding sortedServers_def
  proof (rule js_sort_stable)
    have "\<not> field_less v v" using field_less_asym[of v v] by blast
    then show "server_cmp [(k, desc)] a b \<le> 0" if "field k a = Some v" "field k b = Some v" for a b
      using that by (simp add: server_cmp_def)
  qed
qed

text \<open>
  A missing value compares as equal to everything, so the comparison is not transitive: a row without a value
  between two others hides that those are in the wrong order, and the result is up to the engine's algorithm.
\<close>

lemma missing_value_hides_order:
  assumes "field k a = Some x" and "field k m = None" and "field k b = Some y" and "field_less y x"
  shows "server_cmp [(k, False)] a m = 0 \<and> server_cmp [(k, False)] m b = 0 \<and> server_cmp [(k, False)] a b = 1"
  using assms field_less_asym[OF assms(4)] by (simp add: server_cmp_def)

definition demo_row :: "string \<Rightarrow> string \<Rightarrow> ListedServer" where
  "demo_row i n = Server.extend \<lparr>server_id = i, status = ''running'', server_user_id = Some ''u1'', server_username = Some ''ada''\<rparr>
     \<lparr>ls_name = n, ls_external_url = None, ls_created_at = None, ls_health_status = None, ls_allocated_cpu = None,
      ls_allocated_memory = Some ''512m''\<rparr>"

lemma demo_row_fields: "field ''name'' (demo_row i n) = Some (FStr n)"
  by (simp add: field_def demo_row_def Server.defs)

theorem sorting_orders_rows_witness:
  "sorted_wrt (row_le ''name'' False) (sortedServers [(''name'', False)] [demo_row ''1'' ''b'', demo_row ''2'' ''a''])"
  using sorting_orders_rows[of "[demo_row ''1'' ''b'', demo_row ''2'' ''a'']" "''name''" False] by (simp add: demo_row_fields)

subsection \<open>Search, filters, pages\<close>

definition search_matches :: "string \<Rightarrow> string list \<Rightarrow> bool" where
  "search_matches q texts \<longleftrightarrow> q = [] \<or> list_ex (\<lambda>t. js_contains (js_toLowerCase t) (js_toLowerCase q)) texts"

text \<open>A filter that is missing or empty does not restrict; a list is never equal to a text.\<close>

definition filter_passes :: "FilterValue option \<Rightarrow> string option \<Rightarrow> bool" where
  "filter_passes f v = (case f of
     None \<Rightarrow> True | Some (OneValue x) \<Rightarrow> x = [] \<or> v = Some x | Some (ManyValues _) \<Rightarrow> False)"

definition myServers :: "User option \<Rightarrow> ListedServer list \<Rightarrow> ListedServer list" where
  "myServers usr servers = filter (\<lambda>s. case usr of None \<Rightarrow> True | Some u \<Rightarrow> server_user_id s = Some (user_id u)) servers"

definition my_matches :: "TableState \<Rightarrow> ListedServer \<Rightarrow> bool" where
  "my_matches t s \<longleftrightarrow> search_matches (tbl_search t) [ls_name s, status s] \<and>
     filter_passes (tbl_filters t ''status'') (Some (status s))"

definition admin_matches :: "TableState \<Rightarrow> ListedServer \<Rightarrow> bool" where
  "admin_matches t s \<longleftrightarrow>
     search_matches (tbl_search t) [ls_name s, status s, case server_username s of None \<Rightarrow> [] | Some u \<Rightarrow> u] \<and>
     filter_passes (tbl_filters t ''owner'') (server_user_id s) \<and> filter_passes (tbl_filters t ''status'') (Some (status s))"

definition pageCount :: "nat \<Rightarrow> 'a list \<Rightarrow> nat" where
  "pageCount limit xs = (let n = (length xs + limit - 1) div limit in if n = 0 then 1 else n)"

definition pageRows :: "nat \<Rightarrow> nat \<Rightarrow> 'a list \<Rightarrow> 'a list" where
  "pageRows p limit xs = take limit (drop ((p - 1) * limit) xs)"

definition my_page :: "User option \<Rightarrow> (string \<times> bool) list \<Rightarrow> TableState \<Rightarrow> ListedServer list \<Rightarrow> ListedServer list" where
  "my_page usr sorting t servers = pageRows (tbl_page t) (tbl_limit t)
     (sortedServers sorting (filter (my_matches t) (myServers usr servers)))"

definition admin_page :: "(string \<times> bool) list \<Rightarrow> TableState \<Rightarrow> ListedServer list \<Rightarrow> ListedServer list" where
  "admin_page sorting t servers = pageRows (tbl_page t) (tbl_limit t) (sortedServers sorting (filter (admin_matches t) servers))"

lemma page_rows_prefix: "concat (map (\<lambda>p. pageRows p limit xs) [1..<Suc n]) = take (n * limit) xs"
proof (induction n)
  case (Suc n)
  have "take (n * limit) xs @ take limit (drop (n * limit) xs) = take (n * limit + limit) xs" by (simp add: take_add)
  with Suc show ?case by (simp add: pageRows_def add.commute)
qed simp

lemma pageCount_covers: "0 < limit \<Longrightarrow> length xs \<le> pageCount limit xs * limit"
proof -
  assume "0 < limit"
  then have "length xs + limit - 1 < ((length xs + limit - 1) div limit) * limit + limit"
    using dividend_less_div_times[of limit "length xs + limit - 1"] by (simp add: add.commute)
  then have "length xs \<le> ((length xs + limit - 1) div limit) * limit" using \<open>0 < limit\<close> by linarith
  then show ?thesis by (auto simp: pageCount_def Let_def)
qed

text \<open>
  The pages, one after the other, are all the rows; none is longer than the limit.\<close>

theorem pages_partition_rows:
  assumes "0 < limit"
  shows "concat (map (\<lambda>p. pageRows p limit xs) [1..<Suc (pageCount limit xs)]) = xs \<and>
    (\<forall>p. length (pageRows p limit xs) \<le> limit)"
  using pageCount_covers[OF assms, of xs] by (simp only: page_rows_prefix) (simp add: pageRows_def)

theorem pages_partition_rows_witness:
  "concat (map (\<lambda>p. pageRows p 2 [1 :: nat, 2, 3]) [1..<Suc (pageCount 2 [1 :: nat, 2, 3])]) = [1, 2, 3]"
  using pages_partition_rows[of 2 "[1 :: nat, 2, 3]"] by simp

text \<open>
  The page number is not brought back when rows disappear. Deleting the only server of the last page leaves an
  empty page: the table shows its text for an account without servers, although there are full pages of them,
  and the buttons for going back are hidden with the table.
\<close>

definition shows_empty_state :: "nat \<Rightarrow> nat \<Rightarrow> 'a list \<Rightarrow> bool" where
  "shows_empty_state p limit xs \<longleftrightarrow> pageRows p limit xs = []"

theorem emptied_page_hides_servers:
  assumes "0 < limit" and "0 < n" and "length xs = n * limit + 1" and "x \<in> set xs" and "distinct xs"
  shows "pageCount limit xs = Suc n \<and> \<not> shows_empty_state (Suc n) limit xs \<and>
    shows_empty_state (Suc n) limit (remove1 x xs) \<and> pageCount limit (remove1 x xs) = n"
proof -
  have "length (remove1 x xs) = n * limit" using assms by (simp add: length_remove1)
  moreover have "(n * limit + 1 + limit - 1) div limit = Suc n"
  proof -
    have "n * limit + 1 + limit - 1 = Suc n * limit" by simp
    then show ?thesis using assms(1) by simp
  qed
  moreover have "(n * limit + limit - 1) div limit = n"
    by (rule div_nat_eqI) (use assms(1) in \<open>simp_all add: mult.commute\<close>)
  ultimately show ?thesis using assms by (auto simp: pageCount_def shows_empty_state_def pageRows_def Let_def)
qed

theorem emptied_page_hides_servers_witness:
  "shows_empty_state 2 2 (remove1 3 [1 :: nat, 2, 3]) \<and> pageCount 2 (remove1 3 [1 :: nat, 2, 3]) = 1"
  using emptied_page_hides_servers[of 2 1 "[1 :: nat, 2, 3]" 3] by (simp add: numeral_2_eq_2[symmetric])

subsection \<open>Cards and filter options\<close>

text \<open>The number in front of the amount of memory, whatever its unit; the card shows the sum as gigabytes.\<close>

definition parseMemory :: "string option \<Rightarrow> int" where
  "parseMemory mem = (case mem of None \<Rightarrow> 0 | Some m \<Rightarrow> int (read_digits (takeWhile is_digit m)))"

definition totalMemory :: "ListedServer list \<Rightarrow> int" where
  "totalMemory servers = foldl (\<lambda>acc s. acc + parseMemory (ls_allocated_memory s)) 0 servers"

definition totalCpu :: "ListedServer list \<Rightarrow> rat" where
  "totalCpu servers = foldl (\<lambda>acc s. acc + (case ls_allocated_cpu s of None \<Rightarrow> 0 | Some c \<Rightarrow> c)) 0 servers"

definition activeServers :: "ListedServer list \<Rightarrow> nat" where
  "activeServers servers = length (filter (\<lambda>s. status s = ''running'') servers)"

lemma parseMemory_digits:
  assumes "u = [] \<or> \<not> is_digit (hd u)"
  shows "parseMemory (Some (show_nat n @ u)) = int n"
proof -
  have "takeWhile is_digit (show_nat n @ u) = show_nat n"
    using assms show_nat_digits[of _ n] by (cases u) (auto simp: takeWhile_append2[where xs = "show_nat n"])
  then show ?thesis by (simp add: parseMemory_def)
qed

text \<open>Servers with as many megabytes as others have gigabytes add the same to the total.\<close>

theorem memory_total_ignores_units:
  assumes "\<forall>s \<in> set servers. \<exists>n u. ls_allocated_memory s = Some (show_nat n @ u) \<and> (u = [] \<or> \<not> is_digit (hd u)) \<and> amount s = int n"
  shows "totalMemory servers = sum_list (map amount servers)"
proof -
  have "foldl (\<lambda>acc s. acc + parseMemory (ls_allocated_memory s)) a servers = a + sum_list (map amount servers)" for a
    using assms
  proof (induction servers arbitrary: a)
    case (Cons s ss)
    then have "parseMemory (ls_allocated_memory s) = amount s" using parseMemory_digits by fastforce
    with Cons show ?case by simp
  qed simp
  then show ?thesis by (simp add: totalMemory_def)
qed

theorem memory_total_ignores_units_witness: "totalMemory [demo_row ''1'' ''a'', demo_row ''2'' ''b''] = 1024"
proof -
  have "''512m'' = show_nat 512 @ ''m'' \<and> \<not> is_digit (hd ''m'')" by code_simp
  then have "\<forall>s \<in> set [demo_row ''1'' ''a'', demo_row ''2'' ''b'']. \<exists>n u. ls_allocated_memory s = Some (show_nat n @ u) \<and>
      (u = [] \<or> \<not> is_digit (hd u)) \<and> (512 :: int) = int n"
    by (auto simp: demo_row_def Server.defs intro!: exI[of _ 512] exI[of _ "''m''"])
  from memory_total_ignores_units[OF this] show ?thesis by simp
qed

text \<open>
  \<^verbatim>\<open>Map.set\<close> keeps the place of a key that is there. The options are sorted by \<^verbatim>\<open>localeCompare\<close>, the parameter
  \<open>cmp\<close>.
\<close>

definition map_set :: "'k \<Rightarrow> 'v \<Rightarrow> ('k \<times> 'v) list \<Rightarrow> ('k \<times> 'v) list" where
  "map_set k v m = (if k \<in> fst ` set m then map_key fst k (\<lambda>_. (k, v)) m else m @ [(k, v)])"

definition owner_map :: "ListedServer list \<Rightarrow> (string \<times> string) list" where
  "owner_map servers = fold (\<lambda>s m. case (server_user_id s, server_username s) of
     (Some i, Some n) \<Rightarrow> if i \<noteq> [] \<and> n \<noteq> [] then map_set i n m else m | _ \<Rightarrow> m) servers []"

definition ownerFilterOptions :: "(string \<Rightarrow> string \<Rightarrow> int) \<Rightarrow> ListedServer list \<Rightarrow> (string \<times> string) list" where
  "ownerFilterOptions cmp servers =
    js_sort (\<lambda>(a, _) (b, _). cmp a b) (map (\<lambda>(i, n). (n, i)) (owner_map servers))"

lemma map_fst_map_key: "map fst (map_key fst k (\<lambda>_. (k, v)) m) = map fst m"
  by (induction m) (auto simp: map_key_def)

lemma map_set_keys: "fst ` set (map_set k v m) = insert k (fst ` set m)"
  unfolding map_set_def using arg_cong[OF map_fst_map_key, of set k v m] by auto

lemma map_set_distinct: "distinct (map fst m) \<Longrightarrow> distinct (map fst (map_set k v m))"
  unfolding map_set_def by (auto simp del: map_map simp: map_fst_map_key)

definition owner_of :: "ListedServer \<Rightarrow> string set" where
  "owner_of s = (case (server_user_id s, server_username s) of
     (Some i, Some n) \<Rightarrow> if i \<noteq> [] \<and> n \<noteq> [] then {i} else {} | _ \<Rightarrow> {})"

lemma owner_fold:
  assumes "distinct (map fst m)"
  shows "let r = fold (\<lambda>s m. case (server_user_id s, server_username s) of
     (Some i, Some n) \<Rightarrow> if i \<noteq> [] \<and> n \<noteq> [] then map_set i n m else m | _ \<Rightarrow> m) servers m
    in distinct (map fst r) \<and> fst ` set r = fst ` set m \<union> (\<Union>s \<in> set servers. owner_of s)"
  using assms
proof (induction servers arbitrary: m)
  case (Cons s ss)
  let ?m = "case (server_user_id s, server_username s) of
     (Some i, Some n) \<Rightarrow> if i \<noteq> [] \<and> n \<noteq> [] then map_set i n m else m | _ \<Rightarrow> m"
  have "distinct (map fst ?m)" "fst ` set ?m = fst ` set m \<union> owner_of s"
    using Cons.prems by (simp_all add: owner_of_def map_set_keys map_set_distinct split: option.splits)
  with Cons.IH[of ?m] show ?case by (simp add: Let_def Un_assoc)
qed simp

text \<open>The owner filter offers every named owner once.\<close>

lemma owner_options_once:
  "distinct (map snd (ownerFilterOptions cmp servers)) \<and> snd ` set (ownerFilterOptions cmp servers) = (\<Union>s \<in> set servers. owner_of s)"
proof -
  have d: "distinct (map fst (owner_map servers))" "fst ` set (owner_map servers) = (\<Union>s \<in> set servers. owner_of s)"
    using owner_fold[of "[]" servers] by (simp_all add: owner_map_def Let_def)
  have m: "mset (map snd (ownerFilterOptions cmp servers)) = mset (map fst (owner_map servers))"
    by (simp add: ownerFilterOptions_def mset_map mset_js_sort multiset.map_comp case_prod_beta comp_def del: mset_map)
      (simp add: mset_map mset_js_sort multiset.map_comp comp_def case_prod_beta)
  then have "distinct (map snd (ownerFilterOptions cmp servers))" using d(1) by (metis mset_eq_imp_distinct_iff)
  moreover have "set (map snd (ownerFilterOptions cmp servers)) = set (map fst (owner_map servers))" using m by (rule mset_eq_setD)
  ultimately show ?thesis using d(2) by simp
qed

subsection \<open>Opening a server\<close>

text \<open>
  What the handler does, in order: the start request, the question for a reason, the new window, its address.
  Its environment answers: whether the start request succeeded, the reason given, whether the browser opened a
  window.
\<close>

datatype OpenEffect = Starts string | Asks string | Opens_window | Navigates string

definition gatewayUrl :: "ListedServer \<Rightarrow> string option" where
  "gatewayUrl s = (case server_username s of
     Some (c # cs) \<Rightarrow> Some (''/user/'' @ (c # cs) @ ''/'' @ ls_name s) | _ \<Rightarrow> ls_external_url s)"

definition open_window :: "ListedServer \<Rightarrow> bool \<Rightarrow> OpenEffect list" where
  "open_window s popup = Opens_window # (if popup then (case gatewayUrl s of Some u \<Rightarrow> [Navigates u] | None \<Rightarrow> []) else [])"

definition handleOpen_my :: "User option \<Rightarrow> ListedServer \<Rightarrow> bool \<Rightarrow> string option \<Rightarrow> bool \<Rightarrow> OpenEffect list" where
  "handleOpen_my usr s started answer popup =
    (if status s \<noteq> ''running'' then Starts (server_id s) # (if started then open_window s popup else [])
     else if server_user_id s \<noteq> map_option user_id usr
     then Asks (server_id s) # (case answer of None \<Rightarrow> [] | Some _ \<Rightarrow> open_window s popup)
     else open_window s popup)"

definition canAccessServer :: "AuthState \<Rightarrow> ListedServer \<Rightarrow> bool" where
  "canAccessServer st s \<longleftrightarrow> (case user st of None \<Rightarrow> True | Some u \<Rightarrow> server_user_id s = Some (user_id u) \<or> canAccessOthersServers st)"

text \<open>
  On the page of all servers a reason is asked for before the start request and before the window; \<^verbatim>\<open>started\<close> is
  whether the start request succeeded, a failure ends the handler.
\<close>

definition handleOpen_admin :: "AuthState \<Rightarrow> ListedServer \<Rightarrow> string option \<Rightarrow> bool \<Rightarrow> bool \<Rightarrow> OpenEffect list" where
  "handleOpen_admin st s answer started popup =
    (let own = isOwnServer (user st) (Server.truncate s)
     in if \<not> canAccessServer st s then []
        else if status s \<noteq> ''running'' then
          (if own then Starts (server_id s) # (if started then open_window s popup else [])
           else Asks (server_id s) # (case answer of
               Some (c # cs) \<Rightarrow> Starts (server_id s) # (if started then open_window s popup else [])
             | _ \<Rightarrow> []))
        else if own then open_window s popup
        else Asks (server_id s) # (case answer of Some r \<Rightarrow> open_window s popup | None \<Rightarrow> []))"

text \<open>
  No window opens on someone else's server unless the user may access the servers of others and has given an
  answer to the question for a reason, asked before.
\<close>

theorem foreign_server_opened_with_reason:
  assumes "Opens_window \<in> set (handleOpen_admin st s answer started popup)" and "user st = Some u"
    and "server_user_id s \<noteq> Some (user_id u)"
  shows "canAccessOthersServers st \<and> answer \<noteq> None \<and>
    (\<exists>rest. handleOpen_admin st s answer started popup = Asks (server_id s) # rest \<and> Opens_window \<in> set rest)"
  using assms by (auto simp: handleOpen_admin_def canAccessServer_def isOwnServer_def Server.defs Let_def
      split: if_splits option.splits list.splits)

definition demo_admin :: AuthState where
  "demo_admin = \<lparr>user = Some (demo_user ''super_admin'' (Some [ALL_PERMISSIONS]))\<rparr>"

theorem foreign_server_opened_with_reason_witness:
  "\<exists>rest. handleOpen_admin demo_admin ((demo_row ''1'' ''a'')\<lparr>server_user_id := Some ''nobody''\<rparr>) (Some ''check'') True True =
     Asks ''1'' # rest"
proof -
  let ?s = "(demo_row ''1'' ''a'')\<lparr>server_user_id := Some ''nobody''\<rparr>"
  have acc: "canAccessOthersServers demo_admin" by code_simp
  have u: "user demo_admin = Some (demo_user ''super_admin'' (Some [ALL_PERMISSIONS]))" by (simp add: demo_admin_def)
  have n: "server_user_id ?s \<noteq> Some (user_id (demo_user ''super_admin'' (Some [ALL_PERMISSIONS])))" "status ?s = ''running''"
      "server_id ?s = ''1''"
    by (simp_all add: demo_user_def demo_row_def Server.defs)
  have "Opens_window \<in> set (handleOpen_admin demo_admin ?s (Some ''check'') True True)"
    using acc u n by (simp add: handleOpen_admin_def canAccessServer_def isOwnServer_def Server.defs open_window_def Let_def)
  from foreign_server_opened_with_reason[OF this u n(1)] n(3) show ?thesis by auto
qed

text \<open>
  On the page of one's own servers the question is never asked, and when a server has to be started first the
  window only opens after the answer of that request.
\<close>

lemma own_page_never_asks:
  assumes "s \<in> set (myServers (Some u) servers)"
  shows "Asks i \<notin> set (handleOpen_my (Some u) s started answer popup)"
proof -
  have "server_user_id s = Some (user_id u)" using assms by (simp add: myServers_def)
  moreover have "Asks i \<notin> set (open_window s popup)" by (cases popup; cases "gatewayUrl s") (simp_all add: open_window_def)
  ultimately show ?thesis by (simp add: handleOpen_my_def)
qed

lemma window_opens_after_start:
  assumes "status s \<noteq> ''running''"
  shows "handleOpen_my usr s True answer popup = Starts (server_id s) # open_window s popup"
  using assms by (simp add: handleOpen_my_def)

subsection \<open>Buttons of a row\<close>

text \<open>The buttons on display and whether each is disabled.\<close>

definition row_buttons :: "'c ActionState \<Rightarrow> ListedServer \<Rightarrow> (OpType \<times> bool) list" where
  "row_buttons st s = map (\<lambda>t. (t, isOperationPending (server_id s) (Some t) st))
     ((if status s = ''stopped'' then [Start] else []) @ (if status s = ''running'' then [Stop, Restart] else []) @ [Delete])"

lemma pending_after_mutate: "isOperationPending i (Some t) (mutate_server t i r now st)"
  by (simp add: isOperationPending_def mutate_server_def addPendingOp_def setPendingOps_def insertOp_def Let_def)

text \<open>A button that has been clicked stays disabled while its operation is pending.\<close>

lemma clicked_button_disabled: "(t, False) \<notin> set (row_buttons (mutate_server t (server_id s) r now st) s)"
  using pending_after_mutate[of "server_id s" t r now st] by (auto simp: row_buttons_def)

subsection \<open>Bulk actions\<close>

text \<open>
  The page of all servers uses the hook of the reason dialog twice. One use comes with its server actions, and
  the page renders its dialog (\<open>bp_shown\<close>). The other is its own (\<open>bp_own\<close>): the page asks with it for the
  reason of a bulk action, and does not render its dialog. User events can only reach a dialog that is
  rendered. \<open>bp_waiting\<close> holds the continuations of the page's own questions, \<open>bp_sent\<close> the log of bulk
  mutations with the list of servers each was decided on.
\<close>

record BulkPage =
  bp_servers :: "ListedServer list"
  bp_shown :: ReasonState
  bp_own :: ReasonState
  bp_waiting :: "nat \<Rightarrow> (OpType \<times> string list) option"
  bp_sent :: "(ListedServer list \<times> OpType \<times> string list \<times> string option) list"

definition initialBulk :: "ListedServer list \<Rightarrow> BulkPage" where
  "initialBulk servers = \<lparr>bp_servers = servers, bp_shown = initialReason, bp_own = initialReason, bp_waiting = (\<lambda>_. None),
     bp_sent = []\<rparr>"

definition hasCrossUser :: "User option \<Rightarrow> ListedServer list \<Rightarrow> string list \<Rightarrow> bool" where
  "hasCrossUser usr servers ids =
    list_ex (\<lambda>s. server_user_id s \<noteq> map_option user_id usr) (List.map_filter (\<lambda>i. find_key server_id i servers) ids)"

definition bulk_options :: "OpType \<Rightarrow> string list \<Rightarrow> PromptOptions" where
  "bulk_options t ids =
    \<lparr>opt_title = None,
     opt_description = Some (''You are about to '' @ op_name t @ '' '' @ show_nat (length ids) @
       '' server(s) owned by other users. Please provide a reason.''),
     opt_actionLabel = Some (op_name t), opt_cancelLabel = None\<rparr>"

definition runBulkAction :: "User option \<Rightarrow> OpType \<Rightarrow> string list \<Rightarrow> BulkPage \<Rightarrow> BulkPage" where
  "runBulkAction usr t ids s =
    (if hasCrossUser usr (bp_servers s) ids
     then let (p, own) = prompt (bulk_options t ids) (bp_own s)
          in s\<lparr>bp_own := own, bp_waiting := (bp_waiting s)(p := Some (t, ids))\<rparr>
     else s\<lparr>bp_sent := bp_sent s @ [(bp_servers s, t, ids, None)]\<rparr>)"

datatype BulkEvent = Bulk OpType "string list" | Shown_start "ListedServer" OpType | Shown_text string | Shown_confirm | Shown_cancel
  | Servers_arrive "ListedServer list"

text \<open>A bulk deletion is confirmed first; \<^term>\<open>Bulk Delete ids\<close> is the confirmed one.\<close>

fun bulk_event :: "User option \<Rightarrow> BulkEvent \<Rightarrow> BulkPage \<Rightarrow> BulkPage" where
  "bulk_event usr (Bulk t ids) s = runBulkAction usr t ids s"
| "bulk_event usr (Shown_start srv t) s = s\<lparr>bp_shown := runWithReason usr t (Server.truncate srv) (bp_shown s)\<rparr>"
| "bulk_event usr (Shown_text v) s = s\<lparr>bp_shown := setReason v (bp_shown s)\<rparr>"
| "bulk_event usr Shown_confirm s = s\<lparr>bp_shown := confirmReason (bp_shown s)\<rparr>"
| "bulk_event usr Shown_cancel s = s\<lparr>bp_shown := handleClose None (bp_shown s)\<rparr>"
| "bulk_event usr (Servers_arrive servers) s = s\<lparr>bp_servers := servers\<rparr>"

definition bulk_inv :: "User option \<Rightarrow> BulkPage \<Rightarrow> bool" where
  "bulk_inv usr s \<longleftrightarrow> (\<forall>(servers, t, ids, r) \<in> set (bp_sent s). \<not> hasCrossUser usr servers ids \<and> r = None)"

lemma bulk_inv_event: "bulk_inv usr s \<Longrightarrow> bulk_inv usr (bulk_event usr e s)"
  by (cases e) (auto simp: bulk_inv_def runBulkAction_def prompt_def Let_def)

lemma bulk_inv_run: "bulk_inv usr s \<Longrightarrow> bulk_inv usr (fold (bulk_event usr) es s)"
  by (induction es arbitrary: s) (simp_all add: bulk_inv_event)

text \<open>
  C18. So no bulk action that concerns a server of someone else is ever sent, whatever the user clicks and types:
  the question for the reason is never on display and its continuation waits for ever.
\<close>

theorem foreign_bulk_never_sent:
  assumes "(servers, t, ids, r) \<in> set (bp_sent (fold (bulk_event usr) es (initialBulk servers0)))"
    and "s \<in> set servers" and "find_key server_id (server_id s) servers = Some s" and "server_id s \<in> set ids"
  shows "server_user_id s = map_option user_id usr"
proof -
  have "bulk_inv usr (initialBulk servers0)" by (simp add: bulk_inv_def initialBulk_def)
  from bulk_inv_run[OF this, of es] assms(1) have "\<not> hasCrossUser usr servers ids" by (auto simp: bulk_inv_def)
  moreover have "s \<in> set (List.map_filter (\<lambda>i. find_key server_id i servers) ids)"
    using assms(3,4) by (auto simp: List.map_filter_def intro!: image_eqI[of _ _ "server_id s"])
  ultimately show ?thesis by (auto simp: hasCrossUser_def list_ex_iff)
qed

theorem foreign_bulk_never_sent_witness:
  "server_user_id (demo_row ''1'' ''a'') = map_option user_id (Some (demo_user ''admin'' None\<lparr>user_id := ''u1''\<rparr>))"
proof (rule foreign_bulk_never_sent)
  let ?u = "Some (demo_user ''admin'' None\<lparr>user_id := ''u1''\<rparr>)"
  show "([demo_row ''1'' ''a''], Stop, [''1''], None) \<in>
      set (bp_sent (fold (bulk_event ?u) [Bulk Stop [''1'']] (initialBulk [demo_row ''1'' ''a''])))"
    by (simp add: runBulkAction_def hasCrossUser_def initialBulk_def demo_row_def Server.defs List.map_filter_def)
  show "find_key server_id (server_id (demo_row ''1'' ''a'')) [demo_row ''1'' ''a''] = Some (demo_row ''1'' ''a'')"
    by simp
  show "server_id (demo_row ''1'' ''a'') \<in> set [''1'']" by (simp add: demo_row_def Server.defs)
qed simp

text \<open>The click on a bulk action over servers of others changes nothing but the dialog that is not rendered.\<close>

lemma foreign_bulk_click:
  "hasCrossUser usr (bp_servers s) ids \<Longrightarrow> bp_sent (runBulkAction usr t ids s) = bp_sent s \<and>
    bp_shown (runBulkAction usr t ids s) = bp_shown s"
  by (simp add: runBulkAction_def prompt_def Let_def)

end
