(* ===== verification/Workspace_Page.thy ===== *)
theory Workspace_Page
  imports Confirm_Dialog Data_Table Query_Hooks
begin

text \<open>
  The page of a workspace (\<^verbatim>\<open>routes/workspaces.$workspaceId.tsx\<close>): who sees it, what it offers, the requests its
  dialogs and buttons send, with the confirmation some of them need, and the effect that copies the filters of
  its member table.
\<close>

subsection \<open>Views and rights\<close>

record WsMember =
  wm_user_id :: string
  wm_role :: string
  wm_username :: "string option"

record WsInvitation =
  wi_id :: string
  wi_user_id :: string
  wi_status :: string
  wi_username :: "string option"
  wi_display_name :: "string option"

record WsVolume =
  wv_id :: string
  wv_owner_id :: string
  wv_display_name :: string
  wv_is_home :: bool
  wv_server_count :: int

record WsDetail =
  wd_id :: string
  wd_name :: string
  wd_description :: "string option"
  wd_owner_id :: string
  wd_membership :: "WsMember option"
  wd_invitation :: "WsInvitation option"

text \<open>What a render of the page reads: the queries and the signed-in user.\<close>

record WsContext =
  wc_user :: "string option"
  wc_loading :: bool
  wc_workspace :: "WsDetail option"
  wc_discoverable :: "string list"
  wc_allMembers :: "WsMember list"
  wc_invitations :: "WsInvitation list"
  wc_volumes :: "WsVolume list"
  wc_workspaceVolumes :: "string list"

definition isOwner :: "WsContext \<Rightarrow> WsDetail \<Rightarrow> bool" where
  "isOwner c w \<longleftrightarrow> wc_user c = Some (wd_owner_id w)"

definition isAdminOf :: "WsContext \<Rightarrow> WsDetail \<Rightarrow> bool" where
  "isAdminOf c w \<longleftrightarrow> isOwner c w \<or> map_option wm_role (wd_membership w) = Some ''admin''"

definition isMember :: "WsContext \<Rightarrow> WsDetail \<Rightarrow> bool" where
  "isMember c w \<longleftrightarrow> isOwner c w \<or> wd_membership w \<noteq> None"

definition hasPendingInvite :: "WsDetail \<Rightarrow> bool" where
  "hasPendingInvite w \<longleftrightarrow> map_option wi_status (wd_invitation w) = Some ''pending''"

datatype WsView = View_loading | View_missing | View_invitation WsDetail WsInvitation | View_no_access | View_full WsDetail

definition workspaceView :: "WsContext \<Rightarrow> WsView" where
  "workspaceView c =
    (if wc_loading c then View_loading
     else case wc_workspace c of
       None \<Rightarrow> View_missing
     | Some w \<Rightarrow>
         (if hasPendingInvite w then View_invitation w (the (wd_invitation w))
          else if isMember c w then View_full w else View_no_access))"

definition canManage :: "WsContext \<Rightarrow> WsDetail \<Rightarrow> WsMember \<Rightarrow> bool" where
  "canManage c w m \<longleftrightarrow> isAdminOf c w \<and> wd_owner_id w \<noteq> wm_user_id m \<and> wc_user c \<noteq> Some (wm_user_id m)"

definition availableUsers :: "WsContext \<Rightarrow> string list" where
  "availableUsers c = filter (\<lambda>u. wc_user c \<noteq> Some u \<and> \<not> list_ex (\<lambda>m. wm_user_id m = u) (wc_allMembers c) \<and>
     \<not> list_ex (\<lambda>i. wi_user_id i = u) (wc_invitations c)) (wc_discoverable c)"

definition availableVolumes :: "WsContext \<Rightarrow> WsVolume list" where
  "availableVolumes c = filter (\<lambda>v. wc_user c = Some (wv_owner_id v) \<and> wv_id v \<notin> set (wc_workspaceVolumes c)) (wc_volumes c)"

definition transferTargets :: "WsContext \<Rightarrow> string list" where
  "transferTargets c = map wm_user_id (filter (\<lambda>m. wc_user c \<noteq> Some (wm_user_id m)) (wc_allMembers c))"

subsection \<open>Actions and their confirmation\<close>

datatype WsAction = Invite string string | Share string string | Leave | Transfer string | Remove_member string
  | Change_role string string | Remove_volume string | Change_volume_role string string | Save_edit string string
  | Accept_invitation string | Decline_invitation string | Cancel_invitation string

fun ws_mutation :: "string \<Rightarrow> WsAction \<Rightarrow> Mutation" where
  "ws_mutation w (Invite u r) = useInviteWorkspaceMember w u r"
| "ws_mutation w (Share v r) = useAddWorkspaceVolume w v r"
| "ws_mutation w Leave = useLeaveWorkspace w"
| "ws_mutation w (Transfer u) = useTransferOwnership w u"
| "ws_mutation w (Remove_member u) = useRemoveWorkspaceMember w u"
| "ws_mutation w (Change_role u r) = useUpdateMemberRole w u r"
| "ws_mutation w (Remove_volume v) = useRemoveWorkspaceVolume w v"
| "ws_mutation w (Change_volume_role v r) = useUpdateVolumeRole w v r"
| "ws_mutation w (Save_edit n d) = useUpdateWorkspace w (JObj [(''name'', JStr n), (''description'', JStr d)])"
| "ws_mutation w (Accept_invitation i) = useAcceptInvitation w i"
| "ws_mutation w (Decline_invitation i) = useRejectInvitation w i"
| "ws_mutation w (Cancel_invitation i) = useCancelInvitation w i"

text \<open>
  \<open>wp_waiting\<close> holds what follows a question of the confirmation dialog, with the context of the render it was
  asked in; \<open>wp_sent\<close> the log of mutations, with that context and, for a confirmed one, the text in the input.
\<close>

record WorkspacePage =
  wp_confirm :: ConfirmHook
  wp_waiting :: "nat \<Rightarrow> (WsContext \<times> WsAction) option"
  wp_sent :: "(WsContext \<times> WsAction \<times> string option) list"
  wp_userId :: string
  wp_role :: string
  wp_volumeId :: string
  wp_volumeRole :: string
  wp_transferId :: string
  wp_editName :: string
  wp_editDescription :: string
  wp_showInvite :: bool
  wp_showVolume :: bool
  wp_showEdit :: bool
  wp_showTransfer :: bool

definition initialWorkspacePage :: WorkspacePage where
  "initialWorkspacePage = \<lparr>wp_confirm = initialConfirm, wp_waiting = (\<lambda>_. None), wp_sent = [], wp_userId = [],
     wp_role = ''read_write'', wp_volumeId = [], wp_volumeRole = ''read_write'', wp_transferId = [], wp_editName = [],
     wp_editDescription = [], wp_showInvite = False, wp_showVolume = False, wp_showEdit = False, wp_showTransfer = False\<rparr>"

definition send_now :: "WsContext \<Rightarrow> WsAction \<Rightarrow> WorkspacePage \<Rightarrow> WorkspacePage" where
  "send_now c a s = s\<lparr>wp_sent := wp_sent s @ [(c, a, None)]\<rparr>"

definition ask_first :: "WsContext \<Rightarrow> WsAction \<Rightarrow> ConfirmOptions \<Rightarrow> WorkspacePage \<Rightarrow> WorkspacePage" where
  "ask_first c a opts s =
    (let (p, h) = confirm opts (wp_confirm s) in s\<lparr>wp_confirm := h, wp_waiting := (wp_waiting s)(p := Some (c, a))\<rparr>)"

definition warning :: "string \<Rightarrow> string \<Rightarrow> string \<Rightarrow> string option \<Rightarrow> ConfirmOptions" where
  "warning title description label typed = \<lparr>co_title = title, co_description = Some description,
     co_confirmLabel = Some label, co_cancelLabel = Some ''Cancel'', co_variant = Some ''warning'', co_typeToConfirm = typed\<rparr>"

definition handleInviteMember :: "WsContext \<Rightarrow> WorkspacePage \<Rightarrow> WorkspacePage" where
  "handleInviteMember c s = (if wp_userId s = [] then s else send_now c (Invite (wp_userId s) (wp_role s)) s)"

definition handleAddVolume :: "WsContext \<Rightarrow> WorkspacePage \<Rightarrow> WorkspacePage" where
  "handleAddVolume c s =
    (let a = Share (wp_volumeId s) (wp_volumeRole s)
     in if wp_volumeId s = [] then s
        else case find_key wv_id (wp_volumeId s) (availableVolumes c) of
          None \<Rightarrow> send_now c a s
        | Some v \<Rightarrow>
            (if wv_is_home v
             then ask_first c a (warning ''Share Home Directory Volume?''
               (''This volume is or was mounted as your home directory. Everyone in this workspace will be able '' @
                ''to read and modify its contents.'') ''Share Anyway'' (Some ''YES'')) s
             else if wv_server_count v > 0
             then ask_first c a (warning ''Share Active Volume?''
               (''This volume ('' @ wv_display_name v @ '') is currently mounted on '' @ show_int (wv_server_count v) @
                '' server(s). Sharing it may allow workspace members to access or modify files that those servers are '' @
                ''actively using. Are you sure you want to proceed?'') ''Share Anyway'' None) s
             else send_now c a s))"

definition handleLeaveWorkspace :: "WsContext \<Rightarrow> WsDetail \<Rightarrow> WorkspacePage \<Rightarrow> WorkspacePage" where
  "handleLeaveWorkspace c w s = ask_first c Leave (warning ''Leave Workspace''
     (''Are you sure you want to leave \"'' @ wd_name w @ ''\"? You will lose access to all shared volumes.'')
     ''Leave'' None) s"

text \<open>The names of someone invited; a template shows a missing one as \<open>undefined\<close>.\<close>

definition invited_name :: "WsInvitation \<Rightarrow> string" where
  "invited_name i = (case wi_display_name i of Some (x # xs) \<Rightarrow> x # xs
     | _ \<Rightarrow> (case wi_username i of None \<Rightarrow> ''undefined'' | Some u \<Rightarrow> u))"

definition cancelInvitationClick :: "WsContext \<Rightarrow> WsInvitation \<Rightarrow> WorkspacePage \<Rightarrow> WorkspacePage" where
  "cancelInvitationClick c i s = ask_first c (Cancel_invitation (wi_id i))
     \<lparr>co_title = ''Cancel Invitation'', co_description = Some (''Cancel invitation to '' @ invited_name i @ ''?''),
      co_confirmLabel = Some ''Cancel Invite'', co_cancelLabel = Some ''Keep'', co_variant = Some ''warning'',
      co_typeToConfirm = None\<rparr> s"

definition handleTransferOwnership :: "WsContext \<Rightarrow> WorkspacePage \<Rightarrow> WorkspacePage" where
  "handleTransferOwnership c s = (if wp_transferId s = [] then s else send_now c (Transfer (wp_transferId s)) s)"

text \<open>The answer of the dialog runs what waited for it.\<close>

definition answered :: "nat \<times> bool \<times> string \<Rightarrow> WorkspacePage \<Rightarrow> WorkspacePage" where
  "answered x s =
    (case x of (p, v, t) \<Rightarrow>
       (case wp_waiting s p of
          None \<Rightarrow> s
        | Some (c, a) \<Rightarrow>
            let s' = s\<lparr>wp_waiting := (wp_waiting s)(p := None)\<rparr>
            in if v then s'\<lparr>wp_sent := wp_sent s' @ [(c, a, Some t)]\<rparr> else s'))"

definition dialog_moves :: "ConfirmHook \<Rightarrow> WorkspacePage \<Rightarrow> WorkspacePage" where
  "dialog_moves h s = fold answered (drop (length (answers (wp_confirm s))) (answers h)) (s\<lparr>wp_confirm := h\<rparr>)"

datatype WsEvent = Choose_user string | Choose_role string | Choose_volume string | Choose_volume_role string
  | Choose_target string | Edit_name string | Edit_description string
  | Open_invite | Open_volume | Open_edit | Open_transfer | Close_dialogs
  | Submit_invite | Submit_volume | Submit_transfer | Submit_edit | Click_leave
  | Click_remove_member WsMember | Click_role WsMember string | Click_remove_volume string | Click_volume_role string string string
  | Click_accept | Click_decline | Click_cancel_invitation WsInvitation
  | Invited | Volume_added | Transferred | Edited
  | Confirm_text string | Confirm_click | Confirm_enter | Confirm_dismiss

text \<open>
  Events of the full view are possible in it alone, and the buttons are there for those who may use them.
\<close>

definition full_event :: "WsContext \<Rightarrow> WsDetail \<Rightarrow> WsEvent \<Rightarrow> WorkspacePage \<Rightarrow> WorkspacePage" where
  "full_event c w e s =
    (let adm = isAdminOf c w; own = isOwner c w in case e of
       Choose_user v \<Rightarrow> s\<lparr>wp_userId := v\<rparr>
     | Choose_role v \<Rightarrow> s\<lparr>wp_role := v\<rparr>
     | Choose_volume v \<Rightarrow> s\<lparr>wp_volumeId := v\<rparr>
     | Choose_volume_role v \<Rightarrow> s\<lparr>wp_volumeRole := v\<rparr>
     | Choose_target v \<Rightarrow> s\<lparr>wp_transferId := v\<rparr>
     | Edit_name v \<Rightarrow> s\<lparr>wp_editName := v\<rparr>
     | Edit_description v \<Rightarrow> s\<lparr>wp_editDescription := v\<rparr>
     | Open_invite \<Rightarrow> if adm then s\<lparr>wp_userId := [], wp_role := ''read_write'', wp_showInvite := True\<rparr> else s
     | Open_volume \<Rightarrow> if adm then s\<lparr>wp_volumeId := [], wp_volumeRole := ''read_write'', wp_showVolume := True\<rparr> else s
     | Open_edit \<Rightarrow> if adm then s\<lparr>wp_editName := wd_name w,
         wp_editDescription := (case wd_description w of None \<Rightarrow> [] | Some d \<Rightarrow> d), wp_showEdit := True\<rparr> else s
     | Open_transfer \<Rightarrow> if own then s\<lparr>wp_transferId := [], wp_showTransfer := True\<rparr> else s
     | Close_dialogs \<Rightarrow> s\<lparr>wp_showInvite := False, wp_showVolume := False, wp_showEdit := False, wp_showTransfer := False\<rparr>
     | Submit_invite \<Rightarrow> if adm \<and> wp_showInvite s then handleInviteMember c s else s
     | Submit_volume \<Rightarrow> if adm \<and> wp_showVolume s then handleAddVolume c s else s
     | Submit_transfer \<Rightarrow> if own \<and> wp_showTransfer s then handleTransferOwnership c s else s
     | Submit_edit \<Rightarrow> if adm \<and> wp_showEdit s then send_now c (Save_edit (wp_editName s) (wp_editDescription s)) s else s
     | Click_leave \<Rightarrow> if isMember c w \<and> \<not> own then handleLeaveWorkspace c w s else s
     | Click_remove_member m \<Rightarrow> if canManage c w m
         then ask_first c (Remove_member (wm_user_id m)) (warning ''Remove Member'' (''Remove '' @
           (case wm_username m of Some (x # xs) \<Rightarrow> x # xs | _ \<Rightarrow> ''this member'') @ '' from the workspace?'') ''Remove'' None) s
         else s
     | Click_role m r \<Rightarrow> if canManage c w m \<and> r \<noteq> wm_role m then send_now c (Change_role (wm_user_id m) r) s else s
     | Click_remove_volume v \<Rightarrow> if adm
         then ask_first c (Remove_volume v) (warning ''Remove Volume'' ''Remove this volume from the workspace?'' ''Remove'' None) s
         else s
     | Click_cancel_invitation i \<Rightarrow> if adm \<and> i \<in> set (wc_invitations c) then cancelInvitationClick c i s else s
     | Click_volume_role v old r \<Rightarrow> if adm \<and> r \<noteq> old then send_now c (Change_volume_role v r) s else s
     | _ \<Rightarrow> s)"

definition workspace_event :: "WsContext \<Rightarrow> WsEvent \<Rightarrow> WorkspacePage \<Rightarrow> WorkspacePage" where
  "workspace_event c e s = (case e of
       Invited \<Rightarrow> s\<lparr>wp_showInvite := False, wp_userId := [], wp_role := ''read_write''\<rparr>
     | Volume_added \<Rightarrow> s\<lparr>wp_showVolume := False, wp_volumeId := [], wp_volumeRole := ''read_write''\<rparr>
     | Transferred \<Rightarrow> s\<lparr>wp_showTransfer := False, wp_transferId := []\<rparr>
     | Edited \<Rightarrow> s\<lparr>wp_showEdit := False\<rparr>
     | Confirm_text v \<Rightarrow> dialog_moves (typeText v (wp_confirm s)) s
     | Confirm_click \<Rightarrow> dialog_moves (clickConfirm (wp_confirm s)) s
     | Confirm_enter \<Rightarrow> dialog_moves (pressEnter (wp_confirm s)) s
     | Confirm_dismiss \<Rightarrow> dialog_moves (dismiss (wp_confirm s)) s
     | _ \<Rightarrow> (case workspaceView c of
          View_full w \<Rightarrow> full_event c w e s
        | View_invitation w i \<Rightarrow>
            (case e of Click_accept \<Rightarrow> send_now c (Accept_invitation (wi_id i)) s
             | Click_decline \<Rightarrow> send_now c (Decline_invitation (wi_id i)) s | _ \<Rightarrow> s)
        | _ \<Rightarrow> s))"

subsection \<open>Who sends what\<close>

definition in_full :: "WsContext \<Rightarrow> (WsDetail \<Rightarrow> bool) \<Rightarrow> bool" where
  "in_full c P \<longleftrightarrow> (case workspaceView c of View_full w \<Rightarrow> P w | _ \<Rightarrow> False)"

definition share_consent :: "WsVolume option \<Rightarrow> string option \<Rightarrow> bool" where
  "share_consent v t \<longleftrightarrow> (case v of None \<Rightarrow> True
     | Some x \<Rightarrow> (if wv_is_home x then \<exists>y. t = Some y \<and> normal_text y = ''yes'' else wv_server_count x > 0 \<longrightarrow> t \<noteq> None))"

fun authorised :: "WsContext \<Rightarrow> WsAction \<Rightarrow> bool" where
  "authorised c (Invite u r) \<longleftrightarrow> u \<noteq> [] \<and> in_full c (isAdminOf c)"
| "authorised c (Share v r) \<longleftrightarrow> v \<noteq> [] \<and> in_full c (isAdminOf c)"
| "authorised c Leave \<longleftrightarrow> in_full c (\<lambda>w. isMember c w \<and> \<not> isOwner c w)"
| "authorised c (Transfer u) \<longleftrightarrow> u \<noteq> [] \<and> in_full c (isOwner c)"
| "authorised c (Remove_member u) \<longleftrightarrow> in_full c (\<lambda>w. isAdminOf c w \<and> wd_owner_id w \<noteq> u \<and> wc_user c \<noteq> Some u)"
| "authorised c (Change_role u r) \<longleftrightarrow> in_full c (\<lambda>w. isAdminOf c w \<and> wd_owner_id w \<noteq> u \<and> wc_user c \<noteq> Some u)"
| "authorised c (Remove_volume v) \<longleftrightarrow> in_full c (isAdminOf c)"
| "authorised c (Change_volume_role v r) \<longleftrightarrow> in_full c (isAdminOf c)"
| "authorised c (Save_edit n d) \<longleftrightarrow> in_full c (isAdminOf c)"
| "authorised c (Accept_invitation i) \<longleftrightarrow> (\<exists>w inv. workspaceView c = View_invitation w inv \<and> wi_id inv = i)"
| "authorised c (Decline_invitation i) \<longleftrightarrow> (\<exists>w inv. workspaceView c = View_invitation w inv \<and> wi_id inv = i)"
| "authorised c (Cancel_invitation i) \<longleftrightarrow> in_full c (isAdminOf c) \<and> i \<in> wi_id ` set (wc_invitations c)"

text \<open>The text a question asks for, and what a confirmed or unconfirmed action must come with.\<close>

fun consent :: "WsContext \<Rightarrow> WsAction \<Rightarrow> string option \<Rightarrow> bool" where
  "consent c (Share v r) t \<longleftrightarrow> share_consent (find_key wv_id v (availableVolumes c)) t"
| "consent c Leave t \<longleftrightarrow> t \<noteq> None"
| "consent c (Remove_member u) t \<longleftrightarrow> t \<noteq> None"
| "consent c (Remove_volume v) t \<longleftrightarrow> t \<noteq> None"
| "consent c (Cancel_invitation i) t \<longleftrightarrow> t \<noteq> None"
| "consent c _ t \<longleftrightarrow> True"

definition waits_ok :: "ConfirmHook \<Rightarrow> (nat \<Rightarrow> (WsContext \<times> WsAction) option) \<Rightarrow> bool" where
  "waits_ok h waits \<longleftrightarrow> (\<forall>p c a. waits p = Some (c, a) \<longrightarrow> p < nextQuestion h \<and> authorised c a \<and>
     (\<forall>t. \<not> text_required (asked h p) t \<longrightarrow> consent c a (Some t)))"

definition workspace_inv :: "WorkspacePage \<Rightarrow> bool" where
  "workspace_inv s \<longleftrightarrow> confirm_inv (wp_confirm s) \<and> waits_ok (wp_confirm s) (wp_waiting s) \<and>
     (\<forall>(c, a, t) \<in> set (wp_sent s). authorised c a \<and> consent c a t)"

lemma workspace_inv_initial: "workspace_inv initialWorkspacePage"
  using confirm_sys.init_inv[OF refl] by (simp add: workspace_inv_def initialWorkspacePage_def waits_ok_def)

lemma workspace_inv_send:
  "workspace_inv s \<Longrightarrow> authorised c a \<Longrightarrow> consent c a None \<Longrightarrow> workspace_inv (send_now c a s)"
  by (auto simp: workspace_inv_def send_now_def)

lemma workspace_inv_ask:
  assumes "workspace_inv s" and "authorised c a" and "\<And>t. \<not> text_required (co_typeToConfirm opts) t \<Longrightarrow> consent c a (Some t)"
  shows "workspace_inv (ask_first c a opts s)"
proof -
  have "confirm_inv (snd (confirm opts (wp_confirm s)))"
    using assms(1) by (auto simp: workspace_inv_def intro: confirm_inv_ask)
  moreover have "waits_ok (snd (confirm opts (wp_confirm s))) ((wp_waiting s)(nextQuestion (wp_confirm s) := Some (c, a)))"
    using assms by (auto simp: workspace_inv_def waits_ok_def confirm_def less_Suc_eq)
  ultimately show ?thesis using assms(1) by (simp add: workspace_inv_def ask_first_def confirm_def Let_def)
qed

lemma answered_inv:
  assumes "confirm_inv h" and "waits_ok h (wp_waiting s)" and "x \<in> set (answers h)"
    and "\<forall>(c, a, t) \<in> set (wp_sent s). authorised c a \<and> consent c a t"
  shows "waits_ok h (wp_waiting (answered x s)) \<and> (\<forall>(c, a, t) \<in> set (wp_sent (answered x s)). authorised c a \<and> consent c a t)"
proof -
  obtain p v t where x: "x = (p, v, t)" by (cases x)
  have ok: "v \<longrightarrow> \<not> text_required (asked h p) t" using assms(1,3) x by (auto simp: confirm_inv_def answer_ok_def)
  show ?thesis
  proof (cases "wp_waiting s p")
    case (Some ca)
    obtain c a where ca: "ca = (c, a)" by (cases ca)
    have w: "authorised c a" "v \<longrightarrow> consent c a (Some t)" using assms(2) Some ca ok by (auto simp: waits_ok_def)
    have "waits_ok h ((wp_waiting s)(p := None))" using assms(2) by (auto simp: waits_ok_def)
    with w assms(4) show ?thesis by (auto simp: answered_def x Some ca Let_def)
  qed (use assms in \<open>simp add: answered_def x\<close>)
qed

lemma answered_confirm: "wp_confirm (answered x s) = wp_confirm s"
  by (simp add: answered_def Let_def split: prod.splits option.splits)

lemma fold_answered_inv:
  assumes "confirm_inv h" and "set xs \<subseteq> set (answers h)" and "waits_ok h (wp_waiting s)"
    and "\<forall>(c, a, t) \<in> set (wp_sent s). authorised c a \<and> consent c a t" and "wp_confirm s = h"
  shows "workspace_inv (fold answered xs s)"
  using assms(2-)
proof (induction xs arbitrary: s)
  case Nil
  with assms(1) show ?case by (simp add: workspace_inv_def)
next
  case (Cons x xs)
  from Cons.prems answered_inv[OF assms(1) Cons.prems(2), of x] show ?case
    by (simp add: Cons.IH answered_confirm)
qed

lemma workspace_inv_dialog:
  assumes "workspace_inv s" and "confirm_step (wp_confirm s) h" and "nextQuestion h = nextQuestion (wp_confirm s)"
    and "asked h = asked (wp_confirm s)"
  shows "workspace_inv (dialog_moves h s)"
proof -
  have "confirm_inv h" using assms(1,2) confirm_sys.step_inv by (auto simp: workspace_inv_def)
  moreover have "waits_ok h (wp_waiting s)" using assms by (simp add: workspace_inv_def waits_ok_def)
  ultimately show ?thesis
    unfolding dialog_moves_def using assms(1) set_drop_subset[of _ "answers h"]
    by (intro fold_answered_inv[of h]) (auto simp: workspace_inv_def dest: in_set_dropD)
qed

lemma dialog_fields:
  "nextQuestion (typeText t h) = nextQuestion h" "asked (typeText t h) = asked h"
  "nextQuestion (clickConfirm h) = nextQuestion h" "asked (clickConfirm h) = asked h"
  "nextQuestion (pressEnter h) = nextQuestion h" "asked (pressEnter h) = asked h"
  "nextQuestion (dismiss h) = nextQuestion h" "asked (dismiss h) = asked h"
  by (simp_all add: typeText_def clickConfirm_def pressEnter_def dismiss_def closeConfirm_def)

lemma form_keeps_inv:
  "wp_confirm s' = wp_confirm s \<Longrightarrow> wp_waiting s' = wp_waiting s \<Longrightarrow> wp_sent s' = wp_sent s \<Longrightarrow> workspace_inv s \<Longrightarrow> workspace_inv s'"
  by (simp add: workspace_inv_def)

lemma normal_yes: "normal_text ''YES'' = ''yes''"
  by code_simp

lemma add_volume_inv:
  assumes "workspace_inv s" and "in_full c (isAdminOf c)"
  shows "workspace_inv (handleAddVolume c s)"
proof -
  have y: "\<not> text_required (Some ''YES'') t \<Longrightarrow> normal_text t = ''yes''" for t
    by (simp add: text_required_def normal_yes split: if_splits)
  show ?thesis
    using assms y
    by (auto simp: handleAddVolume_def Let_def share_consent_def warning_def
        intro!: workspace_inv_send workspace_inv_ask split: option.split)
qed

lemma full_event_inv:
  assumes "workspace_inv s" and "workspaceView c = View_full w"
  shows "workspace_inv (full_event c w e s)"
proof (cases e)
  case Submit_volume
  with assms show ?thesis by (auto simp: full_event_def Let_def in_full_def intro: add_volume_inv)
next
  case (Click_role m r)
  with assms show ?thesis by (auto simp: full_event_def Let_def in_full_def canManage_def intro!: workspace_inv_send)
next
  case (Click_remove_member m)
  with assms show ?thesis by (auto simp: full_event_def Let_def in_full_def canManage_def intro!: workspace_inv_ask)
qed (use assms in \<open>auto simp: full_event_def Let_def in_full_def handleInviteMember_def handleTransferOwnership_def
      handleLeaveWorkspace_def cancelInvitationClick_def intro!: workspace_inv_send workspace_inv_ask intro: form_keeps_inv\<close>)

lemma workspace_event_inv: "workspace_inv s \<Longrightarrow> workspace_inv (workspace_event c e s)"
proof (cases e)
  case (Confirm_text v)
  moreover assume "workspace_inv s"
  ultimately show ?thesis by (simp add: workspace_event_def workspace_inv_dialog confirm_step.intros dialog_fields)
next
  case Confirm_click
  moreover assume "workspace_inv s"
  ultimately show ?thesis by (simp add: workspace_event_def workspace_inv_dialog confirm_step.intros dialog_fields)
next
  case Confirm_enter
  moreover assume "workspace_inv s"
  ultimately show ?thesis by (simp add: workspace_event_def workspace_inv_dialog confirm_step.intros dialog_fields)
next
  case Confirm_dismiss
  moreover assume "workspace_inv s"
  ultimately show ?thesis by (simp add: workspace_event_def workspace_inv_dialog confirm_step.intros dialog_fields)
next
  case Click_accept
  moreover assume "workspace_inv s"
  ultimately show ?thesis
    by (auto simp: workspace_event_def full_event_def split: WsView.split intro!: workspace_inv_send)
next
  case Click_decline
  moreover assume "workspace_inv s"
  ultimately show ?thesis
    by (auto simp: workspace_event_def full_event_def split: WsView.split intro!: workspace_inv_send)
qed (auto simp: workspace_event_def split: WsView.split intro: full_event_inv form_keeps_inv)

lemma workspace_run_inv: "workspace_inv s \<Longrightarrow> workspace_inv (fold (\<lambda>(c, e). workspace_event c e) es s)"
  by (induction es arbitrary: s) (auto simp: workspace_event_inv)

text \<open>
  C16. Whatever happens on the page, in whatever order and with whatever answers of the server in between: each of the
  twelve kinds of changes it asks for is one the user was entitled to in the view it comes from, administrators never
  remove or change the owner or themselves and cancel invitations of the list on display only; leaving, removing a
  member or a volume and cancelling an invitation was confirmed, a volume that was a home directory is only shared
  after the text YES was typed, a mounted one after a confirmation.
\<close>

theorem workspace_requests_authorised:
  assumes "(c, a, t) \<in> set (wp_sent (fold (\<lambda>(c, e). workspace_event c e) es initialWorkspacePage))"
  shows "authorised c a \<and> consent c a t"
  using workspace_run_inv[OF workspace_inv_initial, of es] assms by (auto simp: workspace_inv_def)

definition demo_detail :: WsDetail where
  "demo_detail = \<lparr>wd_id = ''w1'', wd_name = ''lab'', wd_description = None, wd_owner_id = ''u1'', wd_membership = None,
     wd_invitation = None\<rparr>"

definition demo_home :: WsVolume where
  "demo_home = \<lparr>wv_id = ''v1'', wv_owner_id = ''u1'', wv_display_name = ''home'', wv_is_home = True, wv_server_count = 0\<rparr>"

definition demo_ws :: WsContext where
  "demo_ws = \<lparr>wc_user = Some ''u1'', wc_loading = False, wc_workspace = Some demo_detail, wc_discoverable = [],
     wc_allMembers = [], wc_invitations = [], wc_volumes = [demo_home], wc_workspaceVolumes = []\<rparr>"

definition demo_share :: "(WsContext \<times> WsEvent) list" where
  "demo_share = map (\<lambda>e. (demo_ws, e)) [Open_volume, Choose_volume ''v1'', Submit_volume, Confirm_click, Confirm_text ''Yes '', Confirm_enter]"

lemma demo_ws_facts:
  "workspaceView demo_ws = View_full demo_detail" "isAdminOf demo_ws demo_detail" "availableVolumes demo_ws = [demo_home]"
  by (simp_all add: workspaceView_def demo_ws_def demo_detail_def hasPendingInvite_def isMember_def isOwner_def isAdminOf_def
      availableVolumes_def demo_home_def)

lemma demo_share_sent:
  "wp_sent (fold (\<lambda>(c, e). workspace_event c e) demo_share initialWorkspacePage) =
     [(demo_ws, Share ''v1'' ''read_write'', Some ''Yes '')]"
proof -
  have n: "normal_text ''Yes '' = ''yes''" "normal_text [] = []" by code_simp+
  show ?thesis
    by (simp add: demo_share_def workspace_event_def demo_ws_facts full_event_def Let_def initialWorkspacePage_def
        handleAddVolume_def demo_home_def ask_first_def confirm_def warning_def dialog_moves_def clickConfirm_def
        confirmDisabled_def text_required_def n normal_yes typeText_def pressEnter_def closeConfirm_def answered_def
        initialConfirm_def)
qed

theorem workspace_requests_authorised_witness:
  "consent demo_ws (Share ''v1'' ''read_write'') (Some ''Yes '')"
  using workspace_requests_authorised[of demo_ws "Share ''v1'' ''read_write''" "Some ''Yes ''" demo_share]
  by (simp add: demo_share_sent del: consent.simps)

subsection \<open>The member table\<close>

text \<open>
  The effect of the member table names the whole table object among its dependencies, and the hook returns a new
  one at every render. So it runs after every render, and each of its updates causes another: \<open>settle_members\<close>
  follows the renders until none of them updates the state.
\<close>

definition effect_updates :: "ListPage \<Rightarrow> bool" where
  "effect_updates s \<longleftrightarrow> lp_columnFilters s \<noteq> [] \<or> (\<exists>x \<in> set (lp_prevFilters s). fst x \<notin> fst ` set (lp_columnFilters s))"

partial_function (option) settle_members :: "ListPage \<Rightarrow> ListPage option" where
  "settle_members s = (if effect_updates s then settle_members (filterEffect s) else Some (filterEffect s))"

lemma settle_needs_no_filter:
  assumes "settle_members s = Some t"
  shows "lp_columnFilters s = []"
proof (rule settle_members.raw_induct[where P = "\<lambda>s t. lp_columnFilters s = []", OF _ assms])
  fix settle s t
  assume ih: "\<And>s t. settle s = Some t \<Longrightarrow> lp_columnFilters s = []"
    and "(if effect_updates s then settle (filterEffect s) else Some (filterEffect s)) = Some t"
  then show "lp_columnFilters s = []"
    using ih[of "filterEffect s" t] by (cases "effect_updates s") (auto simp: effect_updates_def filterEffect_fields)
qed

lemma set_filters_page:
  "tbl_page (fold (\<lambda>(k, v). setFilter k (Some (OneValue v))) fs t) = (if fs = [] then tbl_page t else 1)"
  by (induction fs arbitrary: t) (auto simp: setFilter_def)

lemma unset_filters_page:
  "tbl_page t = 1 \<Longrightarrow> tbl_page (fold (\<lambda>(k, v). if k \<notin> K then setFilter k None else id) fs t) = 1"
  by (induction fs arbitrary: t) (auto simp: setFilter_def)

text \<open>
  C22. Choosing a role in the filter of the member table makes the page render for ever. Each of these renders sends
  the table back to its first page, so no other page of the filtered members can be looked at.
\<close>

theorem member_filter_never_settles:
  assumes "lp_columnFilters s \<noteq> []"
  shows "settle_members s = None \<and> tbl_page (lp_table (filterEffect (s\<lparr>lp_table := setPage p (lp_table s)\<rparr>))) = 1"
proof -
  have "settle_members s = None" using assms settle_needs_no_filter[of s] by (cases "settle_members s") auto
  then show ?thesis using assms by (simp add: filterEffect_def Let_def set_filters_page unset_filters_page)
qed

theorem member_filter_never_settles_witness:
  "settle_members ((initialListPage 20)\<lparr>lp_columnFilters := [(''role'', ''admin'')]\<rparr>) = None"
  using member_filter_never_settles[of "(initialListPage 20)\<lparr>lp_columnFilters := [(''role'', ''admin'')]\<rparr>"] by simp

text \<open>Without filters the page settles after at most one more render.\<close>

lemma unfiltered_members_settle: "lp_columnFilters s = [] \<Longrightarrow> \<exists>t. settle_members s = Some t"
proof -
  assume "lp_columnFilters s = []"
  then have "\<not> effect_updates (filterEffect s)" by (simp add: effect_updates_def filterEffect_fields)
  then have "\<exists>t. settle_members (filterEffect s) = Some t" by (subst settle_members.simps) simp
  then show ?thesis by (subst settle_members.simps) auto
qed

subsection \<open>Activity labels\<close>

definition text_in_quotes :: "string \<Rightarrow> string" where
  "text_in_quotes t = ''\"'' @ t @ ''\"''"

definition activity_labels :: "(string \<times> string) list" where
  "activity_labels = [(''member_left'', ''left the workspace''), (''ownership_transferred'', ''transferred ownership''),
     (''invitation_sent'', ''sent an invitation''), (''invitation_accepted'', ''accepted an invitation''),
     (''invitation_rejected'', ''rejected an invitation''), (''invitation_expired'', ''invitation expired''),
     (''member_added'', ''was added''), (''member_removed'', ''was removed''), (''role_updated'', ''role was updated''),
     (''volume_added'', ''added a volume''), (''volume_removed'', ''removed a volume''),
     (''workspace_created'', ''created workspace'')]"

record WsActivity =
  wa_action :: string
  wa_changed :: "string list option"
  wa_name :: "string option"
  wa_is_active :: bool

definition formatActivityLabel :: "WsActivity \<Rightarrow> string" where
  "formatActivityLabel item =
    (if wa_action item = ''workspace_updated'' then
       (case wa_changed item of
          None \<Rightarrow> ''updated workspace''
        | Some [] \<Rightarrow> ''updated workspace''
        | Some xs \<Rightarrow>
            if xs = [''name''] then ''renamed workspace to '' @
              text_in_quotes (case wa_name item of None \<Rightarrow> ''undefined'' | Some n \<Rightarrow> n)
            else if xs = [''description''] then ''updated workspace description''
            else if xs = [''is_active''] then (if wa_is_active item then ''activated workspace'' else ''deactivated workspace'')
            else ''updated workspace '' @ js_join '', '' xs)
     else case map_of activity_labels (wa_action item) of Some l \<Rightarrow> l | None \<Rightarrow> wa_action item)"

lemma activity_labels_distinct: "distinct (map fst activity_labels) \<and> distinct (map snd activity_labels)"
  by code_simp

end
