(* ===== verification/Credit_Pages.thy ===== *)
theory Credit_Pages
  imports Credit_Dialogs Local_Time Data_Views
begin

text \<open>
  The credit pages: the administration tabs for users and requests (\<^verbatim>\<open>components/admin/credits/users-tab.tsx\<close>,
  \<^verbatim>\<open>requests-tab.tsx\<close>), the history dialog (\<^verbatim>\<open>components/admin/credit-history-dialog.tsx\<close>) and one's own page
  (\<^verbatim>\<open>routes/settings.credits.tsx\<close>).
\<close>

subsection \<open>Looking a request up\<close>

text \<open>
  The lookup of a deep link goes through the pages of the newest requests, ten per page and at most ten pages;
  \<open>fetch\<close> is the answer of the list endpoint for a page, with the number of pages.
\<close>

fun findRequest :: "(nat \<Rightarrow> CreditRequest list \<times> nat) \<Rightarrow> string \<Rightarrow> nat \<Rightarrow> nat \<Rightarrow> CreditRequest option" where
  "findRequest fetch i page 0 = None"
| "findRequest fetch i page (Suc n) =
    (case find_key req_id i (fst (fetch page)) of
       Some r \<Rightarrow> Some r
     | None \<Rightarrow> if snd (fetch page) \<le> page then None else findRequest fetch i (Suc page) n)"

definition findAllCreditRequestById :: "(nat \<Rightarrow> CreditRequest list \<times> nat) \<Rightarrow> string \<Rightarrow> CreditRequest option" where
  "findAllCreditRequestById fetch i = findRequest fetch i 1 10"

text \<open>The backend's pages of a list.\<close>

definition paged :: "CreditRequest list \<Rightarrow> nat \<Rightarrow> CreditRequest list \<times> nat" where
  "paged xs p = (take 10 (drop ((p - 1) * 10) xs), (length xs + 10 - 1) div 10)"

lemma find_key_take_drop:
  "find_key f k (take m xs) = None \<Longrightarrow> find_key f k (take (m + n) xs) = find_key f k (take n (drop m xs))"
  by (simp add: take_add find_key_append)

lemma findRequest_paged:
  assumes "0 < p"
  shows "findRequest (paged xs) i p n = find_key req_id i (take (n * 10) (drop ((p - 1) * 10) xs))"
  using assms
proof (induction n arbitrary: p)
  case (Suc n)
  let ?ys = "drop ((p - 1) * 10) xs"
  have split: "take (Suc n * 10) ?ys = take 10 ?ys @ take (n * 10) (drop 10 ?ys)" by (simp add: take_add)
  show ?case
  proof (cases "find_key req_id i (take 10 ?ys)")
    case None
    show ?thesis
    proof (cases "(length xs + 10 - 1) div 10 \<le> p")
      case True
      then have "length xs \<le> p * 10"
        using dividend_less_div_times[of 10 "length xs + 10 - 1"] by simp
      then have "drop 10 ?ys = []" using Suc.prems by (cases p) (simp_all add: add.commute)
      with None True show ?thesis unfolding split by (simp add: paged_def find_key_append)
    next
      case False
      have "drop 10 ?ys = drop ((Suc p - 1) * 10) xs" using Suc.prems by (cases p) (simp_all add: add.commute)
      with None False Suc.IH[of "Suc p"] show ?thesis unfolding split by (simp add: paged_def find_key_append)
    qed
  next
    case (Some r)
    then show ?thesis unfolding split by (simp add: paged_def find_key_append)
  qed
qed simp

text \<open>So a link to a request finds it exactly when it is among the hundred newest, however long the list is.\<close>

theorem deep_link_finds_newest_hundred:
  "findAllCreditRequestById (paged xs) i = find_key req_id i (take 100 xs)"
  using findRequest_paged[of 1 xs i 10] by (simp add: findAllCreditRequestById_def)

subsection \<open>The tab of users\<close>

record CreditUser =
  cu_id :: string
  cu_username :: string
  cu_nuke_balance :: int
  cu_active_block :: "bool option"
  cu_requests_blocked :: "bool option"

text \<open>
  \<open>ut_focus\<close> is the user of the page's address, \<open>ut_users\<close> the page of users on display. The tab hands its
  selected user to all its dialogs; \<open>ut_sent\<close> is the log of the adjustments they sent.
\<close>

record UsersTab =
  ut_focus :: "string option"
  ut_users :: "CreditUser list option"
  ut_selected :: "CreditUser option"
  ut_adjustOpen :: bool
  ut_historyOpen :: bool
  ut_allowanceOpen :: bool
  ut_overrideOpen :: bool
  ut_adjust :: AdjustDialog
  ut_sent :: "Mutation list"

definition mountUsersTab :: "string option \<Rightarrow> UsersTab" where
  "mountUsersTab focus = \<lparr>ut_focus = focus, ut_users = None, ut_selected = None, ut_adjustOpen = False, ut_historyOpen = False,
     ut_allowanceOpen = False, ut_overrideOpen = False, ut_adjust = initialAdjust, ut_sent = []\<rparr>"

text \<open>The effect runs whenever new data arrive.\<close>

definition usersArrive :: "CreditUser list \<Rightarrow> UsersTab \<Rightarrow> UsersTab" where
  "usersArrive us s =
    (let s' = s\<lparr>ut_users := Some us\<rparr>
     in case ut_focus s of
          Some (c # cs) \<Rightarrow> (case find_key cu_id (c # cs) us of Some u \<Rightarrow> s'\<lparr>ut_selected := Some u\<rparr> | None \<Rightarrow> s')
        | _ \<Rightarrow> s')"

definition handleAdjust :: "CreditUser \<Rightarrow> UsersTab \<Rightarrow> UsersTab" where
  "handleAdjust u s = s\<lparr>ut_selected := Some u, ut_adjustOpen := True\<rparr>"

definition handleViewHistory :: "CreditUser \<Rightarrow> UsersTab \<Rightarrow> UsersTab" where
  "handleViewHistory u s = s\<lparr>ut_selected := Some u, ut_historyOpen := True\<rparr>"

definition handleSetAllowance :: "CreditUser \<Rightarrow> UsersTab \<Rightarrow> UsersTab" where
  "handleSetAllowance u s = s\<lparr>ut_selected := Some u, ut_allowanceOpen := True\<rparr>"

definition handleSetOverride :: "CreditUser \<Rightarrow> UsersTab \<Rightarrow> UsersTab" where
  "handleSetOverride u s = s\<lparr>ut_selected := Some u, ut_overrideOpen := True\<rparr>"

definition submitUserAdjust :: "UsersTab \<Rightarrow> UsersTab" where
  "submitUserAdjust s =
    (case ut_selected s of
       None \<Rightarrow> s
     | Some u \<Rightarrow>
         (case submitAdjust (cu_id u) (cu_nuke_balance u) (ut_adjust s) of
            (Some m, d) \<Rightarrow> s\<lparr>ut_adjust := d, ut_sent := ut_sent s @ [m]\<rparr>
          | (None, d) \<Rightarrow> s\<lparr>ut_adjust := d\<rparr>))"

datatype UsersEvent = Users_arrive "CreditUser list" | Adjust_form AdjustDialog | Adjust_submit

fun users_event :: "UsersEvent \<Rightarrow> UsersTab \<Rightarrow> UsersTab" where
  "users_event (Users_arrive us) s = usersArrive us s"
| "users_event (Adjust_form d) s = (if ut_adjustOpen s then s\<lparr>ut_adjust := d\<rparr> else s)"
| "users_event Adjust_submit s = (if ut_adjustOpen s then submitUserAdjust s else s)"

lemma unfocused_selection:
  "ut_focus s = None \<Longrightarrow> ut_selected (users_event e s) = ut_selected s \<and> ut_focus (users_event e s) = None"
  by (cases e) (auto simp: usersArrive_def submitUserAdjust_def Let_def split: option.splits prod.splits)

lemma unfocused_run:
  "ut_focus s = None \<Longrightarrow> ut_selected (fold users_event es s) = ut_selected s"
  by (induction es arbitrary: s) (simp_all add: unfocused_selection)

text \<open>On a page without a focused user an adjustment goes to the user whose button opened the dialog.\<close>

lemma adjustment_reaches_clicked_user:
  assumes "ut_focus s = None" and "ut_selected (fold users_event es (handleAdjust u s)) = Some v"
  shows "v = u"
  using assms unfocused_run[of "handleAdjust u s" es] by (simp add: handleAdjust_def)

text \<open>
  With a focused user every arrival of data selects that user again, under a dialog that is open for another
  one: a grant typed for \<open>v\<close> is then sent to the user of the address.
\<close>

theorem refetch_redirects_grant:
  assumes "ut_focus s = Some f" and "f \<noteq> []" and "find_key cu_id f us = Some u" and "cu_id v \<noteq> f"
    and "ad_operation d = Grant_op" and "js_parseInt10 (ad_amount d) = Some n" and "0 < n" and "ad_amount d \<noteq> []"
    and "js_trim (ad_reason d) \<noteq> []"
  shows "ut_sent (fold users_event [Adjust_form d, Users_arrive us, Adjust_submit] (handleAdjust v s)) =
      ut_sent s @ [grantCredits f (amount_json n) (js_trim (ad_reason d))] \<and>
    ut_sent (fold users_event [Adjust_form d, Adjust_submit] (handleAdjust v s)) =
      ut_sent s @ [grantCredits (cu_id v) (amount_json n) (js_trim (ad_reason d))]"
proof -
  obtain c cs where f: "f = c # cs" using assms(2) by (cases f) auto
  have u: "cu_id u = f" using find_key_SomeD[OF assms(3)] by simp
  have sub: "submitAdjust i b d = (Some (grantCredits i (amount_json n) (js_trim (ad_reason d))),
      d\<lparr>ad_amountError := [], ad_reasonError := []\<rparr>)" for i b
    using assms(5-9) by (simp add: submitAdjust_def numericAmount_def or_zero_def Let_def)
  show ?thesis using assms(1,3) f u
    by (simp add: handleAdjust_def usersArrive_def submitUserAdjust_def sub Let_def)
qed

definition demo_user_row :: "string \<Rightarrow> CreditUser" where
  "demo_user_row i = \<lparr>cu_id = i, cu_username = i, cu_nuke_balance = 0, cu_active_block = None, cu_requests_blocked = None\<rparr>"

theorem refetch_redirects_grant_witness:
  "ut_sent (fold users_event [Adjust_form (demo_adjust\<lparr>ad_operation := Grant_op\<rparr>), Users_arrive [demo_user_row ''a''], Adjust_submit]
     (handleAdjust (demo_user_row ''b'') (mountUsersTab (Some ''a'')))) = [grantCredits ''a'' (amount_json 40) ''refund'']"
  using refetch_redirects_grant[of "mountUsersTab (Some ''a'')" "''a''" "[demo_user_row ''a'']" "demo_user_row ''a''"
      "demo_user_row ''b''" "demo_adjust\<lparr>ad_operation := Grant_op\<rparr>" 40] demo_adjust_values
  by (simp add: demo_user_row_def mountUsersTab_def demo_adjust_def initialAdjust_def del: users_event.simps fold_simps)

subsection \<open>Blocking requests\<close>

definition isRequestBlocked :: "CreditUser \<Rightarrow> bool" where
  "isRequestBlocked u = (case cu_active_block u of Some b \<Rightarrow> b
     | None \<Rightarrow> (case cu_requests_blocked u of Some b \<Rightarrow> b | None \<Rightarrow> False))"

text \<open>
  The mutation of a confirmed answer: \<open>why\<close> and \<open>till\<close> are the fields of the dialog, an invalid date raises
  (\<^term>\<open>None\<close>); \<open>message\<close> is the text of the server's answer.
\<close>

definition handleToggleBlock ::
  "int \<Rightarrow> CreditUser \<Rightarrow> bool \<Rightarrow> string \<Rightarrow> string \<Rightarrow> string \<Rightarrow> Mutation option" where
  "handleToggleBlock off u confirmed why till message =
    (if \<not> confirmed then None
     else if isRequestBlocked u then Some (useSetCreditRequestBlock (cu_id u) False None None message)
     else let why' = (if js_trim why = [] then None else Some (js_trim why))
          in if till = [] then Some (useSetCreditRequestBlock (cu_id u) True why' (Some None) message)
             else map_option (\<lambda>t. useSetCreditRequestBlock (cu_id u) True why' (Some (Some (toISOString t))) message)
                    (parse_local off till))"

text \<open>
  The end of a block is the moment picked on the local calendar and clock. Nothing compares it with the present:
  the calendar excludes earlier days, and the clock does not exclude earlier times of today.
\<close>

lemma block_ends_when_picked:
  assumes "\<not> isRequestBlocked u" and "four_digit d" and "h < 24" and "m < 60"
  shows "handleToggleBlock off u True why (pickTime (formatLocalDate d) h m []) message =
    Some (useSetCreditRequestBlock (cu_id u) True (if js_trim why = [] then None else Some (js_trim why))
      (Some (Some (toISOString (d * day_ms + int h * 3600000 + int m * 60000 - off * 60000)))) message)"
proof -
  have p: "js_padStart2 (show_nat h) = fixed_width 2 h" "js_padStart2 (show_nat m) = fixed_width 2 m"
    using assms(3,4) by (simp_all add: pad_fixed_width)
  have "pickTime (formatLocalDate d) h m [] = formatLocalDate d @ CHR ''T'' # fixed_width 2 h @ CHR '':'' # fixed_width 2 m"
    by (simp add: pickTime_def p)
  with parse_local_text[OF assms(2-4), of off] assms(1) show ?thesis
    by (simp add: handleToggleBlock_def Let_def)
qed

subsection \<open>The tab of requests\<close>

text \<open>
  \<open>rt_selected\<close> is the object of check marks in the order its keys were added. The list on display is that of the
  filter; the selection is independent of it.
\<close>

record RequestsTab =
  rt_statusFilter :: string
  rt_sort :: string
  rt_selected :: "(string \<times> bool) list"
  rt_note :: string

definition initialRequests :: RequestsTab where
  "initialRequests = \<lparr>rt_statusFilter = ''pending'', rt_sort = ''newest'', rt_selected = [], rt_note = []\<rparr>"

definition toggleRequestSelected :: "string \<Rightarrow> bool \<Rightarrow> RequestsTab \<Rightarrow> RequestsTab" where
  "toggleRequestSelected i checked s = s\<lparr>rt_selected := (if i \<in> fst ` set (rt_selected s)
     then map_key fst i (\<lambda>_. (i, checked)) (rt_selected s) else rt_selected s @ [(i, checked)])\<rparr>"

definition selectedReviewIds :: "RequestsTab \<Rightarrow> string list" where
  "selectedReviewIds s = map fst (filter snd (rt_selected s))"

definition bulkReview :: "bool \<Rightarrow> string \<Rightarrow> RequestsTab \<Rightarrow> BulkMutation option" where
  "bulkReview confirmed action s =
    (if selectedReviewIds s = [] \<or> \<not> confirmed then None
     else Some (useBulkReviewCreditRequests (selectedReviewIds s) action
       (if action = ''reject'' then (if js_trim (rt_note s) = [] then None else Some (js_trim (rt_note s))) else None)))"

definition bulkReviewed :: "RequestsTab \<Rightarrow> RequestsTab" where
  "bulkReviewed s = s\<lparr>rt_selected := []\<rparr>"

text \<open>
  A request stays selected when the list is filtered or sorted differently, and a bulk decision also goes to the
  selected requests that are no longer on display.
\<close>

theorem bulk_review_includes_hidden:
  assumes "i \<notin> fst ` set (rt_selected s)"
  shows "let s' = (toggleRequestSelected i True s)\<lparr>rt_statusFilter := f, rt_sort := o'\<rparr>
    in \<exists>ids. i \<in> set ids \<and> bulkReview True ''approve'' s' = Some (useBulkReviewCreditRequests ids ''approve'' None)"
proof -
  let ?s = "(toggleRequestSelected i True s)\<lparr>rt_statusFilter := f, rt_sort := o'\<rparr>"
  have "i \<in> set (selectedReviewIds ?s)" using assms by (simp add: toggleRequestSelected_def selectedReviewIds_def)
  moreover from this have "bulkReview True ''approve'' ?s = Some (useBulkReviewCreditRequests (selectedReviewIds ?s) ''approve'' None)"
    by (auto simp: bulkReview_def)
  ultimately show ?thesis unfolding Let_def by blast
qed

theorem bulk_review_includes_hidden_witness:
  "\<exists>ids. ''r1'' \<in> set ids \<and> bulkReview True ''approve'' ((toggleRequestSelected ''r1'' True initialRequests)
     \<lparr>rt_statusFilter := ''rejected'', rt_sort := ''newest''\<rparr>) = Some (useBulkReviewCreditRequests ids ''approve'' None)"
  using bulk_review_includes_hidden[of "''r1''" initialRequests "''newest''" "''rejected''"]
  by (simp add: initialRequests_def Let_def)

text \<open>The rate is a fraction from this backend; a number above one is taken for a percentage.\<close>

definition approvalRatePct :: "rat \<Rightarrow> int" where
  "approvalRatePct r = \<lfloor>(if r \<le> 1 then r * 100 else r) + 1 / 2\<rfloor>"

lemma approvalRatePct_bounds:
  assumes "0 \<le> r" and "r \<le> 1"
  shows "0 \<le> approvalRatePct r \<and> approvalRatePct r \<le> 100"
proof -
  have "0 \<le> r * 100 + 1 / 2" "r * 100 + 1 / 2 < 101" using assms by auto
  with assms(2) show ?thesis by (simp add: approvalRatePct_def le_floor_iff floor_less_iff flip: zless_add1_eq)
qed

definition isWaiting :: "int \<Rightarrow> CreditRequest \<Rightarrow> int \<Rightarrow> bool" where
  "isWaiting now r created \<longleftrightarrow> isOpenRequest r \<and> now - created > 24 * 60 * 60 * 1000"

text \<open>\<open>locale\<close> writes a number, \<open>rel\<close> is \<^verbatim>\<open>formatRelativeTime\<close>.\<close>

definition middle_dot :: string where
  "middle_dot = '' '' @ [CHR 0xC2, CHR 0xB7] @ '' ''"

definition getOutcomeText :: "(int \<Rightarrow> string) \<Rightarrow> (string \<Rightarrow> string) \<Rightarrow> CreditRequest \<Rightarrow> string" where
  "getOutcomeText loc rel r =
    (let reviewed = rel (case reviewed_at r of Some t \<Rightarrow> t | None \<Rightarrow> req_created_at r)
     in if req_status r = ''approved'' then
          (let amount = loc (case granted_amount r of Some a \<Rightarrow> a | None \<Rightarrow> req_amount r)
           in (if req_type r = Allowance then ''Set to '' @ amount @ '' NUKE/day'' else ''Granted '' @ amount @ '' NUKE'') @
              middle_dot @ ''reviewed '' @ reviewed)
        else if req_status r = ''rejected'' then
          ''Rejected'' @ middle_dot @ (case review_note r of Some n \<Rightarrow> if js_trim n = [] then ''no note'' else js_trim n | None \<Rightarrow> ''no note'') @
            middle_dot @ reviewed
        else ''Cancelled '' @ rel (req_created_at r))"

subsection \<open>The history of a user\<close>

text \<open>The dialog is mounted with the tab; closed, it renders nothing and keeps its state.\<close>

record HistoryDialog =
  hd_page :: nat
  hd_limit :: nat
  hd_typeFilter :: string
  hd_sortBy :: string
  hd_sortDesc :: bool

definition mountHistory :: HistoryDialog where
  "mountHistory = \<lparr>hd_page = 1, hd_limit = 10, hd_typeFilter = [], hd_sortBy = ''created_at'', hd_sortDesc = True\<rparr>"

definition historySort :: "string \<Rightarrow> HistoryDialog \<Rightarrow> HistoryDialog" where
  "historySort column h =
    (if hd_sortBy h = column then h\<lparr>hd_sortDesc := \<not> hd_sortDesc h, hd_page := 1\<rparr>
     else h\<lparr>hd_sortBy := column, hd_sortDesc := (column = ''created_at''), hd_page := 1\<rparr>)"

definition historyFilter :: "string \<Rightarrow> HistoryDialog \<Rightarrow> HistoryDialog" where
  "historyFilter v h = h\<lparr>hd_typeFilter := v, hd_page := 1\<rparr>"

definition historyPage :: "nat \<Rightarrow> HistoryDialog \<Rightarrow> HistoryDialog" where
  "historyPage p h = h\<lparr>hd_page := p\<rparr>"

definition history_params_of :: "HistoryDialog \<Rightarrow> CreditHistoryParams" where
  "history_params_of h =
     \<lparr>ch_transaction_type = (if hd_typeFilter h = [] then None else Some (hd_typeFilter h)), ch_from_date = None,
      ch_to_date = None, ch_page = Some (hd_page h), ch_limit = Some (hd_limit h), ch_sort_by = Some (hd_sortBy h),
      ch_sort_order = Some (if hd_sortDesc h then ''desc'' else ''asc'')\<rparr>"

definition history_query :: "CreditUser option \<Rightarrow> HistoryDialog \<Rightarrow> Query" where
  "history_query u h = useCreditHistory (case u of None \<Rightarrow> [] | Some v \<Rightarrow> cu_id v) (history_params_of h)"

text \<open>
  Opening the history of another user asks for the page, type and order left over from the one before, although
  that user may not have so many pages.
\<close>

lemma history_page_carried_over:
  "history_query (Some v) (historyPage p h) = useCreditHistory (cu_id v) (history_params_of (historyPage p h)) \<and>
    ch_page (history_params_of (historyPage p h)) = Some p"
  by (simp add: history_query_def historyPage_def history_params_of_def)

lemma sort_twice_reverses: "hd_sortBy h = c \<Longrightarrow> historySort c (historySort c h) = h\<lparr>hd_page := 1\<rparr>"
  by (simp add: historySort_def)

lemma narrowing_history: "hd_page (historySort c h) = 1 \<and> hd_page (historyFilter v h) = 1"
  by (simp add: historySort_def historyFilter_def)

end
