(* ===== verification/Gateway_Page.thy ===== *)
theory Gateway_Page
  imports Server_Lists
begin

text \<open>
  The page in front of a server (\<^verbatim>\<open>routes/user.$username.$serverName.tsx\<close>): it starts a stopped server, waits
  while it is pending, and once it runs asks for an access token and leaves for the server. What a browser tab
  keeps is here too: the session storage and the requests and navigations of all visits to the page.
\<close>

subsection \<open>Waiting for a server to start\<close>

definition gateway_progress :: "nat \<Rightarrow> nat" where
  "gateway_progress pollCount = min (pollCount * 10) 85"

definition stepItems :: "(string \<times> nat) list" where
  "stepItems = [(''Provisioning container'', 0), (''Starting services'', 30), (''Activating routing'', 60), (''Ready'', 90)]"

definition step_active :: "nat \<Rightarrow> nat \<Rightarrow> bool" where
  "step_active progress i \<longleftrightarrow> progress \<ge> snd (stepItems ! i)"

definition step_current :: "nat \<Rightarrow> nat \<Rightarrow> bool" where
  "step_current progress i \<longleftrightarrow> progress \<ge> snd (stepItems ! i) \<and>
     (i = length stepItems - 1 \<or> progress < snd (stepItems ! (i + 1)))"

text \<open>One of the first three steps is current, and the last one, which says that the server is ready, never is.\<close>

lemma step_current_table:
  "step_current p 0 \<longleftrightarrow> p < 30" "step_current p 1 \<longleftrightarrow> 30 \<le> p \<and> p < 60"
  "step_current p 2 \<longleftrightarrow> 60 \<le> p \<and> p < 90" "step_current p 3 \<longleftrightarrow> 90 \<le> p"
  by (simp_all add: step_current_def stepItems_def numeral_2_eq_2 numeral_3_eq_3 conj_commute)

lemma one_current_step:
  "\<exists>!i. i < length stepItems \<and> step_current (gateway_progress n) i" "\<not> step_active (gateway_progress n) 3"
proof -
  let ?p = "gateway_progress n"
  have small: "?p \<le> 85" by (simp add: gateway_progress_def)
  have four: "i < length stepItems \<longleftrightarrow> i = 0 \<or> i = 1 \<or> i = 2 \<or> i = 3" for i by (auto simp: stepItems_def)
  consider "?p < 30" | "30 \<le> ?p" "?p < 60" | "60 \<le> ?p" by linarith
  then show "\<exists>!i. i < length stepItems \<and> step_current ?p i"
  proof cases
    case 1
    then show ?thesis unfolding four by (intro ex1I[of _ 0]) (auto simp: step_current_table simp del: One_nat_def)
  next
    case 2
    then show ?thesis unfolding four by (intro ex1I[of _ 1]) (auto simp: step_current_table simp del: One_nat_def)
  next
    case 3
    with small show ?thesis unfolding four by (intro ex1I[of _ 2]) (auto simp: step_current_table simp del: One_nat_def)
  qed
  show "\<not> step_active ?p 3" using small by (simp add: step_active_def stepItems_def)
qed

subsection \<open>Updating the service worker\<close>

text \<open>
  How long the navigation waits for a new worker, in milliseconds: \<open>watched\<close> are the workers whose state is
  observed, the events come with their times. A worker that was already waiting is told to take over, but
  is not observed.
\<close>

datatype SwEvent = Update_found string | Activated string | Update_failed

fun sw_wait :: "string list \<Rightarrow> (nat \<times> SwEvent) list \<Rightarrow> nat" where
  "sw_wait watched [] = 2000"
| "sw_wait watched ((t, e) # es) =
    (if t \<ge> 2000 then 2000
     else case e of
         Update_found w \<Rightarrow> sw_wait (w # watched) es
       | Activated w \<Rightarrow> if w \<in> set watched then t else sw_wait watched es
       | Update_failed \<Rightarrow> t)"

definition ensureServiceWorkerUpdated :: "bool \<Rightarrow> string option \<Rightarrow> (nat \<times> SwEvent) list \<Rightarrow> nat" where
  "ensureServiceWorkerUpdated registered installing es =
    (if registered then sw_wait (case installing of None \<Rightarrow> [] | Some w \<Rightarrow> [w]) es else 0)"

lemma sw_wait_bounded: "sw_wait watched es \<le> 2000"
  by (induction watched es rule: sw_wait.induct) (auto split: SwEvent.splits)

lemma sw_wait_idle: "\<forall>(t, e) \<in> set es. \<exists>w. e = Activated w \<Longrightarrow> sw_wait [] es = 2000"
  by (induction es) auto

text \<open>
  Leaving for the server never waits longer than two seconds; it waits that long whenever the worker is up to
  date already or its successor was waiting.
\<close>

lemma service_worker_wait:
  "ensureServiceWorkerUpdated registered installing es \<le> 2000 \<and>
   ((\<forall>(t, e) \<in> set es. \<exists>w. e = Activated w) \<longrightarrow> ensureServiceWorkerUpdated True None es = 2000)"
  by (simp add: ensureServiceWorkerUpdated_def sw_wait_bounded sw_wait_idle)

subsection \<open>State\<close>

text \<open>
  What the two prompts of the page go on with: starting the server, or opening it at an address. A request under
  way knows the visit it belongs to, because the state of an earlier visit is gone. The logs hold the user and the
  server a request was sent for, whether it was automatic, and its reason.
\<close>

datatype Question = Ask_start ListedServer | Ask_open ListedServer string

record TokenCall =
  tc_visit :: nat
  tc_automatic :: bool
  tc_target :: string

record AccessRequest =
  ar_user :: "User option"
  ar_server :: ListedServer
  ar_automatic :: bool
  ar_reason :: "string option"

type_synonym RedirectDeps = "string option \<times> string option \<times> string option \<times> bool"

record GatewayPage =
  gp_visit :: nat
  gp_href :: string
  gp_user :: "User option"
  gp_server :: "ListedServer option"
  gp_isLoading :: bool
  gp_isError :: bool
  gp_isStarting :: bool
  gp_pollCount :: nat
  gp_startTime :: "int option"
  gp_elapsedSeconds :: int
  gp_manualOpenReady :: bool
  gp_tokenError :: "string option"
  gp_isOpening :: bool
  gp_redirectDeps :: "RedirectDeps option"
  gp_reason :: ReasonState
  gp_waiting :: "nat \<Rightarrow> Question option"
  gp_invalidations :: nat
  gp_session :: "string list"
  gp_startCalls :: "nat list"
  gp_tokenCalls :: "TokenCall list"
  gp_startsSent :: "AccessRequest list"
  gp_tokensSent :: "AccessRequest list"
  gp_navigations :: "string list"

definition visitGateway :: "string \<Rightarrow> GatewayPage \<Rightarrow> GatewayPage" where
  "visitGateway href s = s\<lparr>gp_visit := Suc (gp_visit s), gp_href := href, gp_server := None, gp_isLoading := True,
     gp_isError := False, gp_isStarting := False, gp_pollCount := 0, gp_startTime := None, gp_elapsedSeconds := 0,
     gp_manualOpenReady := False, gp_tokenError := None, gp_isOpening := False, gp_redirectDeps := None,
     gp_reason := initialReason, gp_waiting := (\<lambda>_. None)\<rparr>"

definition newTab :: "string \<Rightarrow> User option \<Rightarrow> GatewayPage" where
  "newTab href usr = \<lparr>gp_visit = 0, gp_href = href, gp_user = usr, gp_server = None, gp_isLoading = True,
     gp_isError = False, gp_isStarting = False, gp_pollCount = 0, gp_startTime = None, gp_elapsedSeconds = 0,
     gp_manualOpenReady = False, gp_tokenError = None, gp_isOpening = False, gp_redirectDeps = None,
     gp_reason = initialReason, gp_waiting = (\<lambda>_. None), gp_invalidations = 0, gp_session = [], gp_startCalls = [],
     gp_tokenCalls = [], gp_startsSent = [], gp_tokensSent = [], gp_navigations = []\<rparr>"

definition gateway_own :: "User option \<Rightarrow> ListedServer option \<Rightarrow> bool" where
  "gateway_own usr server = (case server of Some s \<Rightarrow> server_user_id s = map_option user_id usr | None \<Rightarrow> True)"

datatype GatewayView = Loading_view | NotFound_view | Manual_view | Redirecting_view | Starting_view | Stopped_view

definition gatewayView :: "GatewayPage \<Rightarrow> GatewayView" where
  "gatewayView s =
    (if gp_isLoading s then Loading_view
     else case gp_server s of
         None \<Rightarrow> NotFound_view
       | Some server \<Rightarrow>
           if gp_isError s then NotFound_view
           else if status server = ''running'' then (if gp_manualOpenReady s then Manual_view else Redirecting_view)
           else if status server = ''pending'' \<or> status server = ''error'' \<or> gp_isStarting s then Starting_view
           else Stopped_view)"

subsection \<open>Operations\<close>

definition sendStart :: "ListedServer \<Rightarrow> string option \<Rightarrow> GatewayPage \<Rightarrow> GatewayPage" where
  "sendStart server r s = s\<lparr>gp_startCalls := gp_startCalls s @ [gp_visit s],
     gp_startsSent := gp_startsSent s @ [\<lparr>ar_user = gp_user s, ar_server = server, ar_automatic = False, ar_reason = r\<rparr>]\<rparr>"

definition getServerAccessToken :: "bool \<Rightarrow> ListedServer \<Rightarrow> string \<Rightarrow> string option \<Rightarrow> GatewayPage \<Rightarrow> GatewayPage" where
  "getServerAccessToken automatic server target r s =
    s\<lparr>gp_tokenCalls := gp_tokenCalls s @ [\<lparr>tc_visit = gp_visit s, tc_automatic = automatic, tc_target = target\<rparr>],
      gp_tokensSent := gp_tokensSent s @
        [\<lparr>ar_user = gp_user s, ar_server = server, ar_automatic = automatic, ar_reason = r\<rparr>]\<rparr>"

definition refetchServer :: "GatewayPage \<Rightarrow> GatewayPage" where
  "refetchServer s = s\<lparr>gp_invalidations := Suc (gp_invalidations s)\<rparr>"

definition targetUrl :: "GatewayPage \<Rightarrow> ListedServer \<Rightarrow> string" where
  "targetUrl s server = (case ls_external_url server of Some (c # cs) \<Rightarrow> c # cs | _ \<Rightarrow> gp_href s)"

text \<open>The effect of a running server; its key in the session storage is \<^verbatim>\<open>server-redirect-\<close> and the identifier.\<close>

definition redirect_deps :: "GatewayPage \<Rightarrow> RedirectDeps" where
  "redirect_deps s = (map_option status (gp_server s), map_option server_id (gp_server s),
     Option.bind (gp_server s) ls_external_url, gateway_own (gp_user s) (gp_server s))"

definition redirectEffect :: "GatewayPage \<Rightarrow> GatewayPage" where
  "redirectEffect s =
    (case gp_server s of
       None \<Rightarrow> s
     | Some server \<Rightarrow>
         if status server \<noteq> ''running'' then s
         else let redirectKey = ''server-redirect-'' @ server_id server
           in if redirectKey \<in> set (gp_session s) then s\<lparr>gp_manualOpenReady := True\<rparr>
              else if \<not> gateway_own (gp_user s) (Some server) then s\<lparr>gp_manualOpenReady := True\<rparr>
              else getServerAccessToken True server (targetUrl s server) None
                     (s\<lparr>gp_session := gp_session s @ [redirectKey]\<rparr>))"

definition gatewayEffects :: "int \<Rightarrow> GatewayPage \<Rightarrow> GatewayPage" where
  "gatewayEffects now s =
    (let s1 = (if map_option status (gp_server s) = Some ''pending'' \<and> gp_startTime s = None
               then s\<lparr>gp_startTime := Some now\<rparr> else s)
     in if gp_redirectDeps s1 = Some (redirect_deps s1) then s1
        else redirectEffect (s1\<lparr>gp_redirectDeps := Some (redirect_deps s1)\<rparr>))"

text \<open>
  Starting goes on at once for one's own server and otherwise after the prompt. The start button ignores whether
  the start was given up: \<^verbatim>\<open>startServerAsync\<close> answers false then and does not throw.
\<close>

definition handleStartGateway :: "GatewayPage \<Rightarrow> GatewayPage" where
  "handleStartGateway s =
    (case gp_server s of
       None \<Rightarrow> s
     | Some server \<Rightarrow>
         let s1 = s\<lparr>gp_isStarting := True\<rparr>
         in if isOwnServer (gp_user s) (Server.truncate server) then sendStart server None s1
            else let (p, r) = prompt (reason_options (Server.truncate server) ''start'') (gp_reason s1)
              in s1\<lparr>gp_reason := r, gp_waiting := (gp_waiting s1)(p := Some (Ask_start server))\<rparr>)"

definition openManually :: "ListedServer \<Rightarrow> string \<Rightarrow> string option \<Rightarrow> GatewayPage \<Rightarrow> GatewayPage" where
  "openManually server target r s =
    getServerAccessToken False server target r (s\<lparr>gp_isOpening := True, gp_tokenError := None\<rparr>)"

definition reason_or_none :: "string \<Rightarrow> string option" where
  "reason_or_none r = (if r \<noteq> [] then Some r else None)"

definition handleManualOpen :: "GatewayPage \<Rightarrow> GatewayPage" where
  "handleManualOpen s =
    (case gp_server s of
       None \<Rightarrow> s
     | Some server \<Rightarrow>
         if gateway_own (gp_user s) (Some server) then openManually server (targetUrl s server) None s
         else (case promptAccessReason (gp_user s) (Server.truncate server) ''open'' (gp_reason s) of
             (Inl r, _) \<Rightarrow> openManually server (targetUrl s server) (reason_or_none r) s
           | (Inr p, rs) \<Rightarrow>
               s\<lparr>gp_reason := rs, gp_waiting := (gp_waiting s)(p := Some (Ask_open server (targetUrl s server)))\<rparr>))"

definition gatewayAnswered :: "nat \<Rightarrow> string option \<Rightarrow> GatewayPage \<Rightarrow> GatewayPage" where
  "gatewayAnswered p val s =
    (let s1 = s\<lparr>gp_waiting := (gp_waiting s)(p := None)\<rparr>
     in case gp_waiting s p of
          None \<Rightarrow> s
        | Some (Ask_start server) \<Rightarrow>
            (case val of Some (c # cs) \<Rightarrow> sendStart server (Some (c # cs)) s1 | _ \<Rightarrow> refetchServer s1)
        | Some (Ask_open server target) \<Rightarrow>
            (case val of None \<Rightarrow> s1 | Some r \<Rightarrow> openManually server target (reason_or_none r) s1))"

definition gatewayDialog :: "string option \<Rightarrow> GatewayPage \<Rightarrow> GatewayPage" where
  "gatewayDialog val s =
    (let s1 = s\<lparr>gp_reason := handleClose val (gp_reason s)\<rparr>
     in case dlg_resolve (prompt_state (gp_reason s)) of None \<Rightarrow> s1 | Some p \<Rightarrow> gatewayAnswered p val s1)"

definition remove_nth :: "nat \<Rightarrow> 'a list \<Rightarrow> 'a list" where
  "remove_nth k xs = take k xs @ drop (Suc k) xs"

text \<open>The answer to a start request under way; the page of an earlier visit is not there any more to see it.\<close>

definition startAnswered :: "nat \<Rightarrow> bool \<Rightarrow> GatewayPage \<Rightarrow> GatewayPage" where
  "startAnswered k ok s =
    (if k \<ge> length (gp_startCalls s) then s
     else let visit = gp_startCalls s ! k; s1 = s\<lparr>gp_startCalls := remove_nth k (gp_startCalls s)\<rparr>
       in if ok then refetchServer s1
          else if visit = gp_visit s then s1\<lparr>gp_isStarting := False\<rparr> else s1)"

text \<open>
  The answer to a token request. A granted one leads, once the service worker is up to date, to the address
  remembered with it, whatever page is shown by then.
\<close>

definition tokenAnswered :: "nat \<Rightarrow> string option \<Rightarrow> GatewayPage \<Rightarrow> GatewayPage" where
  "tokenAnswered k failure s =
    (if k \<ge> length (gp_tokenCalls s) then s
     else let c = gp_tokenCalls s ! k; s1 = s\<lparr>gp_tokenCalls := remove_nth k (gp_tokenCalls s)\<rparr>
       in case failure of
            None \<Rightarrow> s1\<lparr>gp_navigations := gp_navigations s1 @ [tc_target c]\<rparr>
          | Some msg \<Rightarrow>
              if tc_visit c \<noteq> gp_visit s then s1
              else if tc_automatic c then s1\<lparr>gp_tokenError := Some msg, gp_manualOpenReady := True\<rparr>
              else s1\<lparr>gp_isOpening := False, gp_tokenError := Some msg\<rparr>)"

definition pollTick :: "GatewayPage \<Rightarrow> GatewayPage" where
  "pollTick s = (if map_option status (gp_server s) = Some ''pending''
     then (refetchServer s)\<lparr>gp_pollCount := Suc (gp_pollCount s)\<rparr> else s)"

definition clockTick :: "int \<Rightarrow> GatewayPage \<Rightarrow> GatewayPage" where
  "clockTick now s =
    (if map_option status (gp_server s) \<noteq> Some ''pending'' \<and> \<not> gp_isStarting s then s
     else case gp_startTime s of
         None \<Rightarrow> s
       | Some t \<Rightarrow> if t = 0 then s else s\<lparr>gp_elapsedSeconds := (now - t) div 1000\<rparr>)"

datatype GatewayEvent = Gateway_server int ListedServer | Gateway_missing | Gateway_user int "User option" | Poll_tick
  | Clock_tick int | Click_start | Click_open | Reason_text string | Reason_confirm | Reason_cancel
  | Start_answer nat bool | Token_answer nat "string option" | Visit string

fun gateway_event :: "GatewayEvent \<Rightarrow> GatewayPage \<Rightarrow> GatewayPage" where
  "gateway_event (Gateway_server now server) s =
    gatewayEffects now (s\<lparr>gp_server := Some server, gp_isLoading := False, gp_isError := False\<rparr>)"
| "gateway_event Gateway_missing s = s\<lparr>gp_isLoading := False, gp_isError := True\<rparr>"
| "gateway_event (Gateway_user now usr) s = gatewayEffects now (s\<lparr>gp_user := usr\<rparr>)"
| "gateway_event Poll_tick s = pollTick s"
| "gateway_event (Clock_tick now) s = clockTick now s"
| "gateway_event Click_start s = (if gatewayView s = Stopped_view then handleStartGateway s else s)"
| "gateway_event Click_open s = (if gatewayView s = Manual_view \<and> \<not> gp_isOpening s then handleManualOpen s else s)"
| "gateway_event (Reason_text v) s = s\<lparr>gp_reason := setReason v (gp_reason s)\<rparr>"
| "gateway_event Reason_confirm s =
    (if js_trim (reason (gp_reason s)) \<noteq> [] then gatewayDialog (Some (js_trim (reason (gp_reason s)))) s else s)"
| "gateway_event Reason_cancel s = gatewayDialog None s"
| "gateway_event (Start_answer k ok) s = startAnswered k ok s"
| "gateway_event (Token_answer k failure) s = tokenAnswered k failure s"
| "gateway_event (Visit href) s = visitGateway href s"

subsection \<open>Who asks for access, and how often\<close>

definition given_reason :: "string option \<Rightarrow> bool" where
  "given_reason r \<longleftrightarrow> (case r of None \<Rightarrow> False | Some x \<Rightarrow> js_trim x = x \<and> x \<noteq> [])"

definition access_justified :: "AccessRequest \<Rightarrow> bool" where
  "access_justified r \<longleftrightarrow>
    (if ar_automatic r then gateway_own (ar_user r) (Some (ar_server r)) \<and> ar_reason r = None
     else gateway_own (ar_user r) (Some (ar_server r)) \<or> given_reason (ar_reason r))"

definition auto_keys :: "GatewayPage \<Rightarrow> string list" where
  "auto_keys s = map (\<lambda>r. ''server-redirect-'' @ server_id (ar_server r)) (filter ar_automatic (gp_tokensSent s))"

definition gateway_inv :: "GatewayPage \<Rightarrow> bool" where
  "gateway_inv s \<longleftrightarrow> list_all access_justified (gp_tokensSent s) \<and> list_all access_justified (gp_startsSent s) \<and>
    auto_keys s = gp_session s \<and> distinct (gp_session s)"

lemma gateway_own_hook: "isOwnServer usr (Server.truncate server) \<Longrightarrow> gateway_own usr (Some server)"
  by (simp add: isOwnServer_def gateway_own_def Server.defs split: option.splits)

lemma gateway_inv_initial: "gateway_inv (newTab href usr)"
  by (simp add: gateway_inv_def newTab_def auto_keys_def)

lemma gateway_inv_frame:
  "gateway_inv s \<Longrightarrow> gp_tokensSent t = gp_tokensSent s \<Longrightarrow> gp_startsSent t = gp_startsSent s \<Longrightarrow>
    gp_session t = gp_session s \<Longrightarrow> gateway_inv t"
  by (simp add: gateway_inv_def auto_keys_def)

lemma gateway_inv_start:
  "gateway_inv s \<Longrightarrow> gateway_own (gp_user s) (Some server) \<or> given_reason r \<Longrightarrow>
    gateway_inv (sendStart server r s)"
  by (auto simp: gateway_inv_def auto_keys_def sendStart_def access_justified_def)

lemma gateway_inv_open:
  "gateway_inv s \<Longrightarrow> gateway_own (gp_user s) (Some server) \<or> given_reason r \<Longrightarrow>
    gateway_inv (openManually server target r s)"
  by (auto simp: gateway_inv_def auto_keys_def openManually_def getServerAccessToken_def access_justified_def)

lemma gateway_inv_redirect: "gateway_inv s \<Longrightarrow> gateway_inv (redirectEffect s)"
  by (auto simp: gateway_inv_def auto_keys_def redirectEffect_def getServerAccessToken_def access_justified_def Let_def
      split: option.splits)

lemma gateway_inv_effects: "gateway_inv s \<Longrightarrow> gateway_inv (gatewayEffects now s)"
  by (auto simp: gatewayEffects_def Let_def intro!: gateway_inv_redirect elim!: gateway_inv_frame)

lemma gateway_inv_handleStart: "gateway_inv s \<Longrightarrow> gateway_inv (handleStartGateway s)"
  by (auto simp: handleStartGateway_def Let_def prompt_def dest: gateway_own_hook split: option.splits
      intro!: gateway_inv_start elim!: gateway_inv_frame)

lemma gateway_inv_handleOpen: "gateway_inv s \<Longrightarrow> gateway_inv (handleManualOpen s)"
  by (auto simp: handleManualOpen_def promptAccessReason_def prompt_def Let_def dest: gateway_own_hook split: option.splits
      intro!: gateway_inv_open elim!: gateway_inv_frame)

lemma gateway_inv_answered:
  assumes "gateway_inv s" and "val = None \<or> given_reason val"
  shows "gateway_inv (gatewayAnswered p val s)"
proof -
  have frame: "gateway_inv (s\<lparr>gp_waiting := w\<rparr>)" "gateway_inv (refetchServer (s\<lparr>gp_waiting := w\<rparr>))" for w
    using assms(1) by (auto simp: refetchServer_def elim!: gateway_inv_frame)
  show ?thesis using assms frame
    by (auto simp: gatewayAnswered_def Let_def reason_or_none_def given_reason_def[of None] given_reason_def[of "Some []"]
        split: option.splits Question.splits list.splits intro!: gateway_inv_start gateway_inv_open)
qed

lemma gateway_inv_dialog:
  assumes "gateway_inv s" and "val = None \<or> given_reason val"
  shows "gateway_inv (gatewayDialog val s)"
proof -
  have "gateway_inv (s\<lparr>gp_reason := r\<rparr>)" for r using assms(1) by (auto elim!: gateway_inv_frame)
  then show ?thesis using assms(2)
    by (auto simp: gatewayDialog_def Let_def split: option.splits intro!: gateway_inv_answered)
qed

lemma trimmed_reason: "js_trim x \<noteq> [] \<Longrightarrow> given_reason (Some (js_trim x))"
  by (simp add: given_reason_def js_trim_trim)

lemma gateway_inv_event: "gateway_inv s \<Longrightarrow> gateway_inv (gateway_event e s)"
proof (cases e)
  case (Gateway_server now server)
  moreover assume "gateway_inv s"
  ultimately show ?thesis by (auto intro!: gateway_inv_effects elim!: gateway_inv_frame)
next
  case (Gateway_user now usr)
  moreover assume "gateway_inv s"
  ultimately show ?thesis by (auto intro!: gateway_inv_effects elim!: gateway_inv_frame)
qed (auto simp: pollTick_def refetchServer_def clockTick_def startAnswered_def tokenAnswered_def visitGateway_def Let_def
    intro!: gateway_inv_dialog trimmed_reason gateway_inv_handleStart gateway_inv_handleOpen elim!: gateway_inv_frame split: option.splits)

lemma gateway_inv_run: "gateway_inv s \<Longrightarrow> gateway_inv (fold gateway_event es s)"
  by (induction es arbitrary: s) (simp_all add: gateway_inv_event)

lemma gateway_run_inv: "gateway_inv (fold gateway_event es (newTab href usr))"
  by (rule gateway_inv_run[OF gateway_inv_initial])

text \<open>
  Every start and every access token the page asks for is for the user's own server, or comes with a reason that is
  not blank; and it only asks by itself for the user's own.
\<close>

theorem gateway_access_justified:
  assumes "r \<in> set (gp_tokensSent (fold gateway_event es (newTab href usr))) \<union>
    set (gp_startsSent (fold gateway_event es (newTab href usr)))"
  shows "if server_user_id (ar_server r) = map_option user_id (ar_user r) then True
    else \<not> ar_automatic r \<and> (\<exists>x. ar_reason r = Some x \<and> js_trim x = x \<and> x \<noteq> [])"
proof -
  have "access_justified r" using gateway_run_inv[of es href usr] assms by (auto simp: gateway_inv_def list_all_iff)
  then show ?thesis
    by (auto simp: access_justified_def gateway_own_def given_reason_def split: if_splits option.splits)
qed

text \<open>
  A tab leaves for a server by itself at most once, however often the page is visited and whatever happens to the
  server: there is no loop of redirections.
\<close>

theorem one_automatic_redirect:
  "distinct (map (\<lambda>r. server_id (ar_server r))
     (filter ar_automatic (gp_tokensSent (fold gateway_event es (newTab href usr)))))"
proof -
  have "distinct (auto_keys (fold gateway_event es (newTab href usr)))"
    using gateway_run_inv[of es href usr] by (simp add: gateway_inv_def)
  then show ?thesis by (simp add: auto_keys_def distinct_map inj_on_def)
qed

subsection \<open>Dead ends\<close>

definition stuck :: "AccessRequest list \<Rightarrow> GatewayPage \<Rightarrow> bool" where
  "stuck rs s \<longleftrightarrow> gp_isStarting s \<and> gp_startsSent s = rs \<and> gp_visit s \<notin> set (gp_startCalls s) \<and>
     (\<forall>p server. gp_waiting s p \<noteq> Some (Ask_start server))"

lemma stuck_view: "stuck rs s \<Longrightarrow> gatewayView s \<noteq> Stopped_view"
  by (simp add: stuck_def gatewayView_def split: option.splits)

lemma stuck_frame:
  "stuck rs s \<Longrightarrow> gp_isStarting t = gp_isStarting s \<Longrightarrow> gp_startsSent t = gp_startsSent s \<Longrightarrow>
    gp_visit t = gp_visit s \<Longrightarrow> gp_startCalls t = gp_startCalls s \<Longrightarrow> gp_waiting t = gp_waiting s \<Longrightarrow> stuck rs t"
  by (simp add: stuck_def)

lemma stuck_effects: "stuck rs s \<Longrightarrow> stuck rs (gatewayEffects now s)"
  by (auto simp: gatewayEffects_def redirectEffect_def getServerAccessToken_def Let_def elim!: stuck_frame split: option.splits)

lemma stuck_dialog: "stuck rs s \<Longrightarrow> stuck rs (gatewayDialog val s)"
  by (auto simp: stuck_def gatewayDialog_def gatewayAnswered_def openManually_def getServerAccessToken_def Let_def
      split: option.splits Question.splits)

lemma stuck_open: "stuck rs s \<Longrightarrow> stuck rs (handleManualOpen s)"
  by (auto simp: stuck_def handleManualOpen_def openManually_def promptAccessReason_def prompt_def getServerAccessToken_def
      Let_def split: option.splits)

lemma stuck_answered: "stuck rs s \<Longrightarrow> stuck rs (startAnswered k ok s)"
proof (cases "k < length (gp_startCalls s)")
  case True
  assume s: "stuck rs s"
  then have "gp_startCalls s ! k \<noteq> gp_visit s" using True by (metis nth_mem stuck_def)
  moreover have "set (remove_nth k (gp_startCalls s)) \<subseteq> set (gp_startCalls s)"
    by (auto simp: remove_nth_def dest: in_set_takeD in_set_dropD)
  ultimately show ?thesis using s True by (auto simp: stuck_def startAnswered_def refetchServer_def Let_def)
qed (simp add: startAnswered_def)

lemma stuck_event: "stuck rs s \<Longrightarrow> (\<And>h. e \<noteq> Visit h) \<Longrightarrow> stuck rs (gateway_event e s)"
proof (cases e)
  case (Gateway_server now server)
  moreover assume "stuck rs s"
  ultimately show ?thesis by (auto intro!: stuck_effects elim!: stuck_frame)
next
  case (Gateway_user now usr)
  moreover assume "stuck rs s"
  ultimately show ?thesis by (auto intro!: stuck_effects elim!: stuck_frame)
qed (auto simp: pollTick_def refetchServer_def clockTick_def tokenAnswered_def Let_def stuck_view
    intro!: stuck_dialog stuck_open stuck_answered elim!: stuck_frame split: option.splits)

lemma stuck_run: "stuck rs s \<Longrightarrow> \<forall>e \<in> set es. \<forall>h. e \<noteq> Visit h \<Longrightarrow> stuck rs (fold gateway_event es s)"
  by (induction es arbitrary: s) (simp_all add: stuck_event)

text \<open>
  Whoever clicks the start button of someone else's server and gives up the question for the reason is left with the
  page that says the server is starting: nothing was sent, and without leaving the page the start button never
  comes back, whatever the server does.
\<close>

theorem cancelled_start_never_recovers:
  assumes "gatewayView s = Stopped_view" and "gp_server s = Some server"
    and "\<not> isOwnServer (gp_user s) (Server.truncate server)"
    and "gp_startCalls s = []" and "gp_waiting s = (\<lambda>_. None)" and "\<forall>e \<in> set es. \<forall>h. e \<noteq> Visit h"
  shows "let t = fold gateway_event (Click_start # Reason_cancel # es) s
    in gp_startsSent t = gp_startsSent s \<and> gatewayView t \<noteq> Stopped_view"
proof -
  let ?s = "gateway_event Reason_cancel (gateway_event Click_start s)"
  have "stuck (gp_startsSent s) ?s" using assms(1-5)
    by (auto simp: handleStartGateway_def prompt_def stuck_def gatewayDialog_def gatewayAnswered_def refetchServer_def Let_def
        PromptOptions.defs)
  from stuck_run[OF this assms(6)] have "stuck (gp_startsSent s) (fold gateway_event es ?s)" .
  with stuck_view[OF this] show ?thesis by (simp add: stuck_def Let_def)
qed

definition demo_stopped :: GatewayPage where
  "demo_stopped = gateway_event (Gateway_server 0 ((demo_row ''1'' ''a'')\<lparr>status := ''stopped''\<rparr>))
     (newTab ''/user/bob/a'' None)"

lemma demo_stopped_facts:
  "gatewayView demo_stopped = Stopped_view" "gp_server demo_stopped = Some ((demo_row ''1'' ''a'')\<lparr>status := ''stopped''\<rparr>)"
  "gp_user demo_stopped = None" "gp_startCalls demo_stopped = []" "gp_waiting demo_stopped = (\<lambda>_. None)"
  "gp_startsSent demo_stopped = []"
  by (simp_all add: demo_stopped_def newTab_def gatewayEffects_def redirectEffect_def gatewayView_def Let_def)

theorem cancelled_start_never_recovers_witness:
  "gp_startsSent (fold gateway_event [Click_start, Reason_cancel, Poll_tick, Click_start, Reason_confirm] demo_stopped) = []"
proof -
  have "\<not> isOwnServer (gp_user demo_stopped) (Server.truncate ((demo_row ''1'' ''a'')\<lparr>status := ''stopped''\<rparr>))"
    by (simp add: demo_stopped_facts isOwnServer_def)
  from cancelled_start_never_recovers[OF demo_stopped_facts(1,2) this demo_stopped_facts(4,5),
      of "[Poll_tick, Click_start, Reason_confirm]"]
  show ?thesis by (simp add: demo_stopped_facts(6) Let_def del: gateway_event.simps)
qed

theorem gateway_access_justified_witness:
  "\<exists>r. gp_tokensSent (fold gateway_event [Gateway_server 5 (demo_row ''1'' ''a''), Click_open, Reason_text '' check '',
      Reason_confirm] (newTab ''/user/bob/a'' None)) = [r] \<and> ar_reason r = Some ''check''"
proof -
  let ?es = "[Gateway_server 5 (demo_row ''1'' ''a''), Click_open, Reason_text '' check '', Reason_confirm]"
  have trim: "js_trim '' check '' = ''check''" by code_simp
  have row: "status (demo_row ''1'' ''a'') = ''running''" "server_user_id (demo_row ''1'' ''a'') = Some ''u1''"
    by (simp_all add: demo_row_def Server.defs)
  obtain r where r: "gp_tokensSent (fold gateway_event ?es (newTab ''/user/bob/a'' None)) = [r]"
      "ar_server r = demo_row ''1'' ''a''" "ar_user r = None" "ar_reason r = Some ''check''"
    using trim row by (auto simp: newTab_def gatewayEffects_def redirectEffect_def redirect_deps_def gatewayView_def gateway_own_def
        handleManualOpen_def promptAccessReason_def isOwnServer_def prompt_def gatewayDialog_def gatewayAnswered_def
        openManually_def getServerAccessToken_def reason_or_none_def setReason_def handleClose_def settlePrompt_def
        initialReason_def PromptOptions.defs Let_def)
  from gateway_access_justified[of r ?es "''/user/bob/a''" None] r row have "\<not> ar_automatic r" by simp
  with r show ?thesis by blast
qed

text \<open>
  A server in the state \<^verbatim>\<open>error\<close> is shown as starting, and the page does not even ask again for its state.
\<close>

lemma failed_server_shown_starting:
  assumes "gp_server s = Some server" and "status server = ''error''" and "\<not> gp_isLoading s" and "\<not> gp_isError s"
  shows "gatewayView s = Starting_view \<and> pollTick s = s"
  using assms by (simp add: gatewayView_def pollTick_def)

text \<open>Leaving the page does not stop it: the answer to its token request still takes the tab to the server.\<close>

lemma left_page_still_navigates:
  assumes "k < length (gp_tokenCalls s)"
  shows "gp_navigations (fold gateway_event [Visit href, Token_answer k None] s) =
    gp_navigations s @ [tc_target (gp_tokenCalls s ! k)]"
  using assms by (simp add: visitGateway_def tokenAnswered_def Let_def)

end
