(* ===== verification/Login_Page.thy ===== *)
theory Login_Page
  imports Session
begin

text \<open>
  Signing in: the deep links of \<^verbatim>\<open>main.tsx\<close> and the login page (\<^verbatim>\<open>routes/login.tsx\<close>), with the parameters the
  backend's OAuth callback hands over. The parameters of the page's address are the entries
  \<^verbatim>\<open>URLSearchParams\<close> gives, in order.
\<close>

type_synonym Params = "(string \<times> string) list"

definition param :: "string \<Rightarrow> Params \<Rightarrow> string" where
  "param k ps = (case map_of ps k of None \<Rightarrow> [] | Some v \<Rightarrow> v)"

subsection \<open>Deep links\<close>

definition safe_path :: "string \<Rightarrow> bool" where
  "safe_path p \<longleftrightarrow> p \<noteq> [] \<and> js_startsWith p ''/'' \<and> \<not> js_startsWith p ''//''"

definition getSafeNextPath :: "Params \<Rightarrow> string option" where
  "getSafeNextPath ps = (if safe_path (param ''next'' ps) then Some (param ''next'' ps) else None)"

datatype DeepLink = Stay | Go_to string | Go_login Params

definition deep_link :: "Params \<Rightarrow> Browser \<Rightarrow> DeepLink" where
  "deep_link ps b =
    (case getSafeNextPath ps of
       None \<Rightarrow> Stay
     | Some p \<Rightarrow> if getAccessToken b \<noteq> [] then Go_to p else Go_login [(''next'', p)])"

subsection \<open>\<^verbatim>\<open>decodeURIComponent\<close>\<close>

text \<open>
  The result is missing when the function throws. \<open>k\<close> is the number of continuation bytes that are still due,
  \<open>lo\<close> and \<open>hi\<close> the range of the next one.
\<close>

definition hex_value :: "char \<Rightarrow> nat option" where
  "hex_value c = (let n = (of_char c :: nat) in
     if 48 \<le> n \<and> n \<le> 57 then Some (n - 48) else if 65 \<le> n \<and> n \<le> 70 then Some (n - 55)
     else if 97 \<le> n \<and> n \<le> 102 then Some (n - 87) else None)"

definition utf8_lead :: "nat \<Rightarrow> (nat \<times> nat \<times> nat) option" where
  "utf8_lead v =
    (if 194 \<le> v \<and> v \<le> 223 then Some (1, 128, 191)
     else if v = 224 then Some (2, 160, 191) else if v = 237 then Some (2, 128, 159)
     else if 225 \<le> v \<and> v \<le> 239 then Some (2, 128, 191)
     else if v = 240 then Some (3, 144, 191) else if v = 244 then Some (3, 128, 143)
     else if 241 \<le> v \<and> v \<le> 243 then Some (3, 128, 191) else None)"

definition percent_byte :: "string \<Rightarrow> nat option" where
  "percent_byte cs = (case cs of a # b # _ \<Rightarrow>
     (case (hex_value a, hex_value b) of (Some x, Some y) \<Rightarrow> Some (16 * x + y) | _ \<Rightarrow> None) | _ \<Rightarrow> None)"

function decode_from :: "nat \<Rightarrow> nat \<Rightarrow> nat \<Rightarrow> string \<Rightarrow> string option" where
  "decode_from k lo hi [] = (if k = 0 then Some [] else None)"
| "decode_from k lo hi (c # cs) =
    (if c = CHR ''%'' then
       (case percent_byte cs of
          None \<Rightarrow> None
        | Some v \<Rightarrow>
            if k = 0 then
              (if v < 128 then map_option ((#) (char_of v)) (decode_from 0 0 0 (drop 2 cs))
               else case utf8_lead v of
                   None \<Rightarrow> None
                 | Some (n, l, h) \<Rightarrow> map_option ((#) (char_of v)) (decode_from n l h (drop 2 cs)))
            else if lo \<le> v \<and> v \<le> hi then map_option ((#) (char_of v)) (decode_from (k - 1) 128 191 (drop 2 cs))
            else None)
     else if k = 0 then map_option ((#) c) (decode_from 0 0 0 cs) else None)"
  by pat_completeness auto
termination by (relation "measure (\<lambda>(_, _, _, cs). length cs)") auto

definition decodeURIComponent :: "string \<Rightarrow> string option" where
  "decodeURIComponent s = decode_from 0 0 0 s"

lemma decode_plain: "CHR ''%'' \<notin> set xs \<Longrightarrow> decode_from 0 0 0 (xs @ ys) = map_option ((@) xs) (decode_from 0 0 0 ys)"
  by (cases "decode_from 0 0 0 ys"; induction xs) auto

lemma decode_no_percent: "CHR ''%'' \<notin> set xs \<Longrightarrow> decodeURIComponent xs = Some xs"
  using decode_plain[of xs "[]"] by (simp add: decodeURIComponent_def)

lemma decode_bare_percent:
  "CHR ''%'' \<notin> set xs \<Longrightarrow> percent_byte ys = None \<Longrightarrow> decodeURIComponent (xs @ CHR ''%'' # ys) = None"
  by (simp add: decodeURIComponent_def decode_plain)

subsection \<open>The page\<close>

record AuthMethod =
  am_type :: string
  am_name :: string
  am_enabled :: bool

record LoginPage =
  lg_username :: string
  lg_password :: string
  lg_showPass :: bool
  lg_error :: string
  lg_loading :: bool
  lg_authMethods :: "AuthMethod list"
  lg_authLoading :: bool
  lg_params :: Params
  lg_session :: Session
  lg_requests :: "string list"
  lg_navigations :: "string list"

definition storeLogin :: "string \<Rightarrow> string option \<Rightarrow> Session \<Rightarrow> Session" where
  "storeLogin token refresh s =
    (let b = sess_browser s; r = (case refresh of None \<Rightarrow> ls_refresh b | Some v \<Rightarrow> Some v)
     in s\<lparr>sess_browser := b\<lparr>ls_token := Some token, ls_refresh := r,
        cookie_token := Some (takeWhile (\<lambda>c. c \<noteq> CHR '';'') token)\<rparr>\<rparr>)"

definition or_home :: "string option \<Rightarrow> string" where
  "or_home p = (case p of Some (c # cs) \<Rightarrow> c # cs | _ \<Rightarrow> ''/'')"

text \<open>
  The effect of the first render. The error text is decoded in a microtask; when that throws, the text is not
  set. The address is replaced by \<^verbatim>\<open>/login\<close> after a sign-out and when there is an error, which removes all its
  parameters.
\<close>

definition loginSignedOut :: "LoginPage \<Rightarrow> LoginPage" where
  "loginSignedOut s =
    (let sn = lg_session s
     in s\<lparr>lg_session := sn\<lparr>sess_browser := clearTokens (sess_browser sn), sess_auth := setUser None (sess_auth sn)\<rparr>,
          lg_params := []\<rparr>)"

definition mountLogin :: "Params \<Rightarrow> Session \<Rightarrow> LoginPage" where
  "mountLogin ps sn =
    (let token = param ''token'' ps; refresh = param ''refresh'' ps; errMsg = param ''error'' ps;
         nextPath = getSafeNextPath ps;
         s0 = \<lparr>lg_username = [], lg_password = [], lg_showPass = False, lg_error = [], lg_loading = False,
               lg_authMethods = [], lg_authLoading = True, lg_params = ps, lg_session = sn, lg_requests = [],
               lg_navigations = []\<rparr>;
         s1 = (if param ''signed_out'' ps = ''1'' then loginSignedOut s0 else s0);
         s2 = (if errMsg \<noteq> [] then s1\<lparr>lg_error := (case decodeURIComponent errMsg of Some t \<Rightarrow> t | None \<Rightarrow> []), lg_params := []\<rparr>
               else s1)
     in if token = [] then s2
        else s2\<lparr>lg_session := storeLogin token (if refresh \<noteq> [] then Some refresh else None) (lg_session s2),
                lg_navigations := [or_home nextPath]\<rparr>)"

definition hasLocal :: "LoginPage \<Rightarrow> bool" where
  "hasLocal s \<longleftrightarrow> list_ex (\<lambda>m. am_type m = ''local'') (lg_authMethods s)"

definition hasOAuth :: "LoginPage \<Rightarrow> bool" where
  "hasOAuth s \<longleftrightarrow> list_ex (\<lambda>m. am_type m = ''oauth'') (lg_authMethods s)"

definition oauthName :: "LoginPage \<Rightarrow> string" where
  "oauthName s = (case find_key am_type ''oauth'' (lg_authMethods s) of
     Some m \<Rightarrow> (if am_name m \<noteq> [] then am_name m else ''OAuth'') | None \<Rightarrow> ''OAuth'')"

definition methodsArrive :: "AuthMethod list option \<Rightarrow> LoginPage \<Rightarrow> LoginPage" where
  "methodsArrive ms s = (case ms of None \<Rightarrow> s | Some ms \<Rightarrow> s\<lparr>lg_authMethods := ms\<rparr>)\<lparr>lg_authLoading := False\<rparr>"

definition login_body :: "string \<Rightarrow> string \<Rightarrow> string" where
  "login_body u p = search_params [(''username'', u), (''password'', p)]"

definition handleLoginSubmit :: "LoginPage \<Rightarrow> LoginPage" where
  "handleLoginSubmit s = s\<lparr>lg_error := [], lg_loading := True,
     lg_requests := lg_requests s @ [login_body (lg_username s) (lg_password s)]\<rparr>"

datatype LoginAnswer = Unreachable string | Answered Response

definition or_failed :: "string \<Rightarrow> string" where
  "or_failed msg = (if msg \<noteq> [] then msg else ''Login failed'')"

text \<open>\<open>type_error\<close> is the engine's text for reading a property of null.\<close>

definition loginAnswered :: "string \<Rightarrow> LoginAnswer \<Rightarrow> LoginPage \<Rightarrow> LoginPage" where
  "loginAnswered type_error a s =
    (case a of
       Unreachable msg \<Rightarrow> s\<lparr>lg_error := or_failed msg, lg_loading := False\<rparr>
     | Answered res \<Rightarrow>
         let data = (case resp_body res of JsonBody d \<Rightarrow> d | _ \<Rightarrow> JObj [])
         in if data = JNull then s\<lparr>lg_error := or_failed type_error, lg_loading := False\<rparr>
            else if \<not> resp_ok res
            then s\<lparr>lg_error := (case js_get data ''detail'' of
                Some v \<Rightarrow> if js_truthy v then or_failed (js_String v) else ''Login failed'' | None \<Rightarrow> ''Login failed''),
              lg_loading := False\<rparr>
            else s\<lparr>lg_session := storeLogin (token_string (js_get data ''access_token''))
                (case js_get data ''refresh_token'' of Some v \<Rightarrow> (if js_truthy v then Some (js_String v) else None) | None \<Rightarrow> None)
                (lg_session s),
              lg_navigations := lg_navigations s @ [or_home (getSafeNextPath (lg_params s))], lg_loading := False\<rparr>)"

definition handleOAuth :: "LoginPage \<Rightarrow> LoginPage" where
  "handleOAuth s = s\<lparr>lg_session := (lg_session s)\<lparr>sess_href := ''/api/auth/oauth/login''\<rparr>\<rparr>"

datatype LoginEvent = Username_text string | Password_text string | Show_password | Login_click
  | Login_answer string LoginAnswer | Methods_answer "AuthMethod list option" | OAuth_click

fun login_event :: "LoginEvent \<Rightarrow> LoginPage \<Rightarrow> LoginPage" where
  "login_event (Username_text v) s = (if hasLocal s then s\<lparr>lg_username := v\<rparr> else s)"
| "login_event (Password_text v) s = (if hasLocal s then s\<lparr>lg_password := v\<rparr> else s)"
| "login_event Show_password s = s\<lparr>lg_showPass := \<not> lg_showPass s\<rparr>"
| "login_event Login_click s = (if hasLocal s \<and> \<not> lg_loading s then handleLoginSubmit s else s)"
| "login_event (Login_answer e a) s = (if lg_loading s then loginAnswered e a s else s)"
| "login_event (Methods_answer ms) s = methodsArrive ms s"
| "login_event OAuth_click s = (if hasOAuth s then handleOAuth s else s)"

subsection \<open>Where a sign-in leads\<close>

definition login_inv :: "LoginPage \<Rightarrow> bool" where
  "login_inv s \<longleftrightarrow> list_all (\<lambda>p. p = ''/'' \<or> safe_path p) (lg_navigations s)"

lemma next_or_home: "or_home (getSafeNextPath ps) = ''/'' \<or> safe_path (or_home (getSafeNextPath ps))"
  by (auto simp: getSafeNextPath_def or_home_def safe_path_def split: list.splits)

lemma login_inv_mount: "login_inv (mountLogin ps sn)"
  using next_or_home[of ps] by (simp add: login_inv_def mountLogin_def loginSignedOut_def Let_def)

lemma login_inv_event: "login_inv s \<Longrightarrow> login_inv (login_event e s)"
  using next_or_home[of "lg_params s"]
  by (cases e) (auto simp: login_inv_def handleLoginSubmit_def loginAnswered_def methodsArrive_def handleOAuth_def Let_def
      split: LoginAnswer.splits option.splits)

lemma login_inv_run: "login_inv s \<Longrightarrow> login_inv (fold login_event es s)"
  by (induction es arbitrary: s) (simp_all add: login_inv_event)

text \<open>
  Whatever the address of the login page says and the server answers, the page only leads to paths of the client:
  they begin with one slash, not with two, which would name another host.
\<close>

theorem login_stays_on_site:
  assumes "p \<in> set (lg_navigations (fold login_event es (mountLogin ps sn)))"
  shows "js_startsWith p ''/'' \<and> \<not> js_startsWith p ''//''"
proof -
  have "p = ''/'' \<or> safe_path p"
    using login_inv_run[OF login_inv_mount, of es ps sn] assms by (auto simp: login_inv_def list_all_iff)
  then show ?thesis by (auto simp: safe_path_def js_startsWith_def)
qed

lemma param_next: "param ''next'' [(''next'', p)] = p"
  by (simp add: param_def)

lemma mount_next:
  "mountLogin [(''next'', p)] sn = \<lparr>lg_username = [], lg_password = [], lg_showPass = False, lg_error = [],
     lg_loading = False, lg_authMethods = [], lg_authLoading = True, lg_params = [(''next'', p)], lg_session = sn,
     lg_requests = [], lg_navigations = []\<rparr>"
  by (simp add: mountLogin_def param_def Let_def)

text \<open>
  C31. A deep link survives the detour over the login page: without a session the client goes to the login page, the
  request of the form carries what was typed, and an answer with a token stores the session and leads to the path
  of the link.
\<close>

theorem deep_link_survives_login:
  assumes "getSafeNextPath ps = Some p" and "getAccessToken (sess_browser sn) = []"
    and "list_ex (\<lambda>m. am_type m = ''local'') ms"
    and "resp_ok res" and "resp_body res = JsonBody d" and "js_get d ''access_token'' = Some (JStr t)" and "t \<noteq> []"
  shows "\<exists>q. deep_link ps (sess_browser sn) = Go_login q \<and>
    (let s = fold login_event [Methods_answer (Some ms), Username_text u, Password_text w, Login_click,
         Login_answer e (Answered res)] (mountLogin q sn)
     in map parse_params (lg_requests s) = [[(''username'', u), (''password'', w)]] \<and> lg_navigations s = [p] \<and>
        getAccessToken (sess_browser (lg_session s)) = t \<and> isAuthenticated (sess_browser (lg_session s)))"
proof -
  have p: "safe_path p" "or_home (getSafeNextPath [(''next'', p)]) = p"
    using assms(1) by (auto simp: getSafeNextPath_def param_next or_home_def safe_path_def split: if_splits list.splits)
  have d: "d \<noteq> JNull" using assms(6) by auto
  have "deep_link ps (sess_browser sn) = Go_login [(''next'', p)]" using assms(1,2) by (simp add: deep_link_def)
  moreover have "let s = fold login_event [Methods_answer (Some ms), Username_text u, Password_text w, Login_click,
         Login_answer e (Answered res)] (mountLogin [(''next'', p)] sn)
     in map parse_params (lg_requests s) = [[(''username'', u), (''password'', w)]] \<and> lg_navigations s = [p] \<and>
        getAccessToken (sess_browser (lg_session s)) = t \<and> isAuthenticated (sess_browser (lg_session s))"
    using assms(3-7) p(2) d
    by (simp add: mount_next methodsArrive_def hasLocal_def handleLoginSubmit_def login_body_def parse_search_params
        loginAnswered_def storeLogin_def token_string_def getAccessToken_def isAuthenticated_def Let_def)
  ultimately show ?thesis by blast
qed

definition demo_tab :: Session where
  "demo_tab = \<lparr>sess_browser = \<lparr>ls_token = None, ls_refresh = None, cookie_token = None, pathname = ''/''\<rparr>,
     sess_auth = \<lparr>user = None\<rparr>, sess_href = ''/''\<rparr>"

definition demo_granted :: Response where
  "demo_granted = \<lparr>resp_status = 200, resp_statusText = ''OK'', resp_body = JsonBody (JObj [(''access_token'', JStr ''jwt'')])\<rparr>"

theorem deep_link_survives_login_witness:
  "\<exists>q. deep_link [(''next'', ''/user/ada/sim'')] (sess_browser demo_tab) = Go_login q \<and>
    lg_navigations (fold login_event [Methods_answer (Some [\<lparr>am_type = ''local'', am_name = ''Local'', am_enabled = True\<rparr>]),
      Username_text ''ada'', Password_text ''a&b=c'', Login_click, Login_answer [] (Answered demo_granted)]
      (mountLogin q demo_tab)) = [''/user/ada/sim'']"
proof -
  have link: "getSafeNextPath [(''next'', ''/user/ada/sim'')] = Some ''/user/ada/sim''" by code_simp
  have tab: "getAccessToken (sess_browser demo_tab) = []" by (simp add: demo_tab_def getAccessToken_def)
  have local: "list_ex (\<lambda>m. am_type m = ''local'') [\<lparr>am_type = ''local'', am_name = ''Local'', am_enabled = True\<rparr>]" by simp
  have answer: "resp_ok demo_granted" "resp_body demo_granted = JsonBody (JObj [(''access_token'', JStr ''jwt'')])"
      "js_get (JObj [(''access_token'', JStr ''jwt'')]) ''access_token'' = Some (JStr ''jwt'')" "''jwt'' \<noteq> []"
    by (simp_all add: demo_granted_def resp_ok_def)
  from deep_link_survives_login[OF link tab local answer, of "''ada''" "''a&b=c''" "[]"]
  show ?thesis unfolding Let_def by blast
qed

theorem login_stays_on_site_witness:
  "lg_navigations (mountLogin [(''token'', ''jwt''), (''next'', ''//evil.example'')] demo_tab) = [''/''] \<and>
   \<not> js_startsWith ''/'' ''//''"
proof -
  have n: "lg_navigations (mountLogin [(''token'', ''jwt''), (''next'', ''//evil.example'')] demo_tab) = [''/'']" by code_simp
  then have "''/'' \<in> set (lg_navigations (fold login_event [] (mountLogin [(''token'', ''jwt''), (''next'', ''//evil.example'')] demo_tab)))"
    by simp
  from login_stays_on_site[OF this] n show ?thesis by blast
qed

text \<open>
  Signing in over OAuth loses the link: the button leads to a fixed address, and the callback of the backend names
  only the tokens, or an error text.
\<close>

lemma oauth_forgets_link:
  assumes "t \<noteq> []"
  shows "sess_href (lg_session (handleOAuth s)) = ''/api/auth/oauth/login'' \<and>
    lg_navigations (mountLogin [(''token'', t), (''refresh'', r)] sn) = [''/'']"
proof -
  have "getSafeNextPath [(''token'', t), (''refresh'', r)] = None" by (simp add: getSafeNextPath_def param_def safe_path_def)
  with assms show ?thesis by (simp add: handleOAuth_def mountLogin_def param_def or_home_def Let_def)
qed

subsection \<open>Errors\<close>

text \<open>
  The error of a failed OAuth sign-in is decoded twice, by \<^verbatim>\<open>URLSearchParams\<close> and once more by the page. A text
  without percent signs is shown as it is; one with a percent sign that no two hexadecimal digits follow is not
  shown at all, and neither is any other message.
\<close>

theorem percent_in_error_hides_it:
  assumes "param ''error'' ps = xs @ CHR ''%'' # ys" and "CHR ''%'' \<notin> set xs" and "percent_byte ys = None"
  shows "lg_error (mountLogin ps sn) = []"
  using assms by (simp add: mountLogin_def decode_bare_percent Let_def)

theorem percent_in_error_hides_it_witness:
  "lg_error (mountLogin [(''error'', ''quota at 100% of limit'')] demo_tab) = []"
  by (rule percent_in_error_hides_it[of _ "''quota at 100''" "'' of limit''"]) code_simp+

lemma plain_error_shown:
  "CHR ''%'' \<notin> set (param ''error'' ps) \<Longrightarrow> lg_error (mountLogin ps sn) = param ''error'' ps"
  by (simp add: mountLogin_def decode_no_percent loginSignedOut_def Let_def)

text \<open>
  A refused sign-in shows the text the server gives. When the server rejects the form itself, its detail is a list of
  objects: then the page shows no more than the text of an object, where every other request of the client would
  show the messages in it.
\<close>

lemma refused_login_shows_detail:
  assumes "\<not> resp_ok res" and "resp_body res = JsonBody d" and "js_get d ''detail'' = Some (JStr t)" and "t \<noteq> []"
  shows "lg_error (loginAnswered e (Answered res) s) = t \<and> lg_navigations (loginAnswered e (Answered res) s) = lg_navigations s"
proof -
  have "d \<noteq> JNull" using assms(3) by auto
  with assms show ?thesis by (cases t) (simp_all add: loginAnswered_def or_failed_def Let_def)
qed

theorem validation_error_unreadable:
  assumes "\<not> resp_ok res" and "resp_body res = JsonBody d" and "js_get d ''detail'' = Some (JArr [JObj kvs])"
    and "js_get (JObj kvs) ''msg'' = Some (JStr m)"
  shows "lg_error (loginAnswered e (Answered res) s) = ''[object Object]'' \<and> extractErrorDetail d fb = m"
proof -
  have "d \<noteq> JNull" using assms(3) by auto
  with assms show ?thesis
    by (simp add: loginAnswered_def or_failed_def extractErrorDetail_def error_item_def Let_def del: js_get.simps)
qed

theorem validation_error_unreadable_witness:
  "lg_error (loginAnswered [] (Answered \<lparr>resp_status = 422, resp_statusText = ''Unprocessable Entity'',
     resp_body = JsonBody (JObj [(''detail'', JArr [JObj [(''msg'', JStr ''Field required'')]])])\<rparr>)
     (mountLogin [] demo_tab)) = ''[object Object]''"
  using validation_error_unreadable[of "\<lparr>resp_status = 422, resp_statusText = ''Unprocessable Entity'',
     resp_body = JsonBody (JObj [(''detail'', JArr [JObj [(''msg'', JStr ''Field required'')]])])\<rparr>"
     "JObj [(''detail'', JArr [JObj [(''msg'', JStr ''Field required'')]])]" "[(''msg'', JStr ''Field required'')]"
     "''Field required''" "[]" "mountLogin [] demo_tab" "[]"]
  by (simp add: resp_ok_def)

text \<open>
  A successful answer that is no JSON, or has no token in it, counts as a sign-in: the text \<^verbatim>\<open>undefined\<close> is stored as
  the token and the page leaves.
\<close>

theorem login_without_token_accepted:
  assumes "resp_ok res" and "resp_body res = EmptyBody \<or> resp_body res = BadJson"
  shows "let s' = loginAnswered e (Answered res) s
    in isAuthenticated (sess_browser (lg_session s')) \<and> getAccessToken (sess_browser (lg_session s')) = ''undefined'' \<and>
       lg_navigations s' = lg_navigations s @ [or_home (getSafeNextPath (lg_params s))]"
  using assms by (auto simp: loginAnswered_def storeLogin_def token_string_def isAuthenticated_def getAccessToken_def Let_def)

theorem login_without_token_accepted_witness:
  "getAccessToken (sess_browser (lg_session (loginAnswered [] (Answered \<lparr>resp_status = 200, resp_statusText = ''OK'',
     resp_body = BadJson\<rparr>) (mountLogin [] demo_tab)))) = ''undefined''"
  using login_without_token_accepted[of "\<lparr>resp_status = 200, resp_statusText = ''OK'', resp_body = BadJson\<rparr>" "[]"
      "mountLogin [] demo_tab"]
  by (simp add: resp_ok_def Let_def)

text \<open>When the methods cannot be loaded the page shows neither a form nor a button to sign in with.\<close>

lemma no_methods_no_login:
  "let s = methodsArrive None (mountLogin ps sn)
   in \<not> lg_authLoading s \<and> \<not> hasLocal s \<and> \<not> hasOAuth s \<and> login_event Login_click s = s \<and> login_event OAuth_click s = s"
proof -
  have "lg_authMethods (mountLogin ps sn) = []"
    by (simp add: mountLogin_def loginSignedOut_def Let_def if_distrib [of lg_authMethods] cong: if_cong)
  then show ?thesis by (simp add: methodsArrive_def hasLocal_def hasOAuth_def Let_def)
qed

text \<open>Coming back from the identity provider after a sign-out ends what is left of the session.\<close>

lemma signed_out_ends_session:
  assumes "param ''signed_out'' ps = ''1''" and "param ''token'' ps = []"
  shows "\<not> isAuthenticated (sess_browser (lg_session (mountLogin ps sn))) \<and>
    \<not> hasPermission (sess_auth (lg_session (mountLogin ps sn))) perm"
  using assms by (simp add: mountLogin_def loginSignedOut_def isAuthenticated_def getAccessToken_def clearTokens_def setUser_def
      hasPermission_def checkPermission_def Let_def)

text \<open>
  Signing in stores tokens only. The user of the permission store, which may still be the one of a session that ended
  without a sign-out, stays until the new user's data arrive.
\<close>

lemma login_keeps_stored_user: "sess_auth (lg_session (loginAnswered e a s)) = sess_auth (lg_session s)"
  by (simp add: loginAnswered_def storeLogin_def Let_def split: LoginAnswer.splits)

end
