(* ===== verification/Plan_Page.thy ===== *)
theory Plan_Page
  imports Data_Table Query_Hooks Server_Lists Format_Utils
begin

text \<open>
  The administration page of plans (\<^verbatim>\<open>routes/admin.plans.tsx\<close>): the list, the form for creating and editing a plan
  with the backend's rule for an update (\<^verbatim>\<open>backend/app/services/plan_service.py\<close>), and the dialog for access.
\<close>

subsection \<open>The list\<close>

text \<open>What the list is asked for, of the filters, page and limit of the table.\<close>

definition text_filter :: "FilterValue option \<Rightarrow> string option" where
  "text_filter v = (case v of Some (OneValue s) \<Rightarrow> Some s | _ \<Rightarrow> None)"

definition plan_list_query :: "TableState \<Rightarrow> Query" where
  "plan_list_query t = usePlans
    \<lparr>pp_page = Some (tbl_page t), pp_limit = Some (tbl_limit t), plan_category = text_filter (tbl_filters t ''category''),
     plan_is_active = (if text_filter (tbl_filters t ''is_active'') = Some ''true'' then Some True
       else if text_filter (tbl_filters t ''is_active'') = Some ''false'' then Some False else None)\<rparr>"

text \<open>
  The table leaves searching and sorting to the page, and the page does not pass them on: typing into the search
  field or clicking a column asks for the first page of the very same list.
\<close>

theorem plan_search_ignored:
  "plan_list_query (setSearch q t) = plan_list_query (setPage 1 t) \<and>
   plan_list_query (setSort k d t) = plan_list_query (setPage 1 t)"
  by (simp add: plan_list_query_def setSearch_def setSort_def setPage_def)

subsection \<open>The form\<close>

text \<open>A number of the form is kept as JavaScript keeps it, a decimal \<open>m * 10 ^ (- s)\<close>.\<close>

type_synonym Decimal = "int \<times> nat"

definition decimal :: "Decimal \<Rightarrow> json" where
  "decimal d = JNum (fst d) (snd d)"

record PlanForm =
  pf_name :: string
  pf_slug :: string
  pf_description :: string
  pf_category :: string
  pf_cpu_limit :: Decimal
  pf_memory_limit :: string
  pf_disk_limit :: string
  pf_gpu_limit :: Decimal
  pf_max_servers_per_user :: Decimal
  pf_cost_per_hour :: Decimal
  pf_cooldown_seconds :: Decimal
  pf_is_public :: bool
  pf_visible_to_roles :: "string list"
  pf_priority :: Decimal

record PlanRow =
  pl_id :: string
  pl_name :: string
  pl_slug :: string
  pl_description :: "string option"
  pl_category :: string
  pl_cpu_limit :: Decimal
  pl_memory_limit :: string
  pl_disk_limit :: string
  pl_gpu_limit :: Decimal
  pl_max_servers_per_user :: Decimal
  pl_cost_per_hour :: Decimal
  pl_cooldown_seconds :: Decimal
  pl_is_public :: bool
  pl_visible_to_roles :: "string list option"
  pl_priority :: Decimal
  pl_is_active :: bool

definition emptyPlanForm :: PlanForm where
  "emptyPlanForm = \<lparr>pf_name = [], pf_slug = [], pf_description = [], pf_category = ''cpu'', pf_cpu_limit = (1, 0),
     pf_memory_limit = ''2g'', pf_disk_limit = ''10g'', pf_gpu_limit = (0, 0), pf_max_servers_per_user = (3, 0),
     pf_cost_per_hour = (10, 0), pf_cooldown_seconds = (0, 0), pf_is_public = False, pf_visible_to_roles = [''user''],
     pf_priority = (0, 0)\<rparr>"

record PlanPage =
  pg_dialogOpen :: bool
  pg_editing :: "PlanRow option"
  pg_form :: PlanForm
  pg_sent :: "Mutation list"

definition openCreatePlan :: "PlanPage \<Rightarrow> PlanPage" where
  "openCreatePlan s = s\<lparr>pg_editing := None, pg_form := emptyPlanForm, pg_dialogOpen := True\<rparr>"

definition plan_form_of :: "PlanRow \<Rightarrow> PlanForm" where
  "plan_form_of p = \<lparr>pf_name = pl_name p, pf_slug = pl_slug p,
     pf_description = (case pl_description p of None \<Rightarrow> [] | Some d \<Rightarrow> d), pf_category = pl_category p,
     pf_cpu_limit = pl_cpu_limit p, pf_memory_limit = pl_memory_limit p, pf_disk_limit = pl_disk_limit p,
     pf_gpu_limit = pl_gpu_limit p, pf_max_servers_per_user = pl_max_servers_per_user p,
     pf_cost_per_hour = pl_cost_per_hour p, pf_cooldown_seconds = pl_cooldown_seconds p,
     pf_is_public = pl_is_public p,
     pf_visible_to_roles = (case pl_visible_to_roles p of None \<Rightarrow> [''user''] | Some rs \<Rightarrow> rs), pf_priority = pl_priority p\<rparr>"

definition openEditPlan :: "PlanRow \<Rightarrow> PlanPage \<Rightarrow> PlanPage" where
  "openEditPlan p s = s\<lparr>pg_editing := Some p, pg_form := plan_form_of p, pg_dialogOpen := True\<rparr>"

text \<open>The fields of the request; an empty description is \<^verbatim>\<open>undefined\<close> and left out of the body.\<close>

definition plan_fields :: "PlanForm \<Rightarrow> (string \<times> json) list" where
  "plan_fields f =
    (if pf_description f \<noteq> [] then [(''description'', JStr (pf_description f))] else []) @
    [(''category'', JStr (pf_category f)), (''cpu_limit'', decimal (pf_cpu_limit f)),
     (''memory_limit'', JStr (pf_memory_limit f)), (''disk_limit'', JStr (pf_disk_limit f)),
     (''gpu_limit'', decimal (pf_gpu_limit f)), (''max_servers_per_user'', decimal (pf_max_servers_per_user f)),
     (''cost_per_hour'', decimal (pf_cost_per_hour f)), (''cooldown_seconds'', decimal (pf_cooldown_seconds f)),
     (''is_public'', JBool (pf_is_public f)), (''visible_to_roles'', JArr (map JStr (pf_visible_to_roles f))),
     (''priority'', decimal (pf_priority f))]"

definition submitPlan :: "PlanPage \<Rightarrow> PlanPage" where
  "submitPlan s =
    (let f = pg_form s; name = (''name'', JStr (pf_name f))
     in s\<lparr>pg_sent := pg_sent s @ [case pg_editing s of
            Some p \<Rightarrow> updatePlan (pl_id p) (JObj (name # plan_fields f))
          | None \<Rightarrow> createPlan (JObj (name # (''slug'', JStr (pf_slug f)) # plan_fields f))],
          pg_dialogOpen := False\<rparr>)"

definition toggleRole :: "string \<Rightarrow> bool \<Rightarrow> PlanForm \<Rightarrow> PlanForm" where
  "toggleRole r0 checked f =
    (if r0 = ''admin'' \<or> r0 = ''super_admin'' then f
     else f\<lparr>pf_visible_to_roles :=
       (if checked then (if r0 \<in> set (pf_visible_to_roles f) then pf_visible_to_roles f else pf_visible_to_roles f @ [r0])
        else filter (\<lambda>r. r \<noteq> r0) (pf_visible_to_roles f))\<rparr>)"

text \<open>A field for a number takes its default for a text that is no number, and for zero.\<close>

definition number_field :: "Decimal \<Rightarrow> Decimal option \<Rightarrow> Decimal" where
  "number_field d v = (case v of Some x \<Rightarrow> if fst x \<noteq> 0 then x else d | None \<Rightarrow> d)"

text \<open>After any clicks on the checkboxes a role is chosen as it was clicked last, and none is listed twice.\<close>

fun chosen_last :: "string \<Rightarrow> bool \<Rightarrow> (string \<times> bool) list \<Rightarrow> bool" where
  "chosen_last r b [] = b"
| "chosen_last r b ((k, c) # ts) = chosen_last r (if k = r then c else b) ts"

lemma role_toggles:
  assumes "distinct (pf_visible_to_roles f)" and "r \<notin> {''admin'', ''super_admin''}"
  shows "let f' = fold (\<lambda>(k, c). toggleRole k c) ts f
    in (r \<in> set (pf_visible_to_roles f') \<longleftrightarrow> chosen_last r (r \<in> set (pf_visible_to_roles f)) ts) \<and>
       distinct (pf_visible_to_roles f')"
  using assms(1)
proof (induction ts arbitrary: f)
  case (Cons t ts)
  obtain k c where t: "t = (k, c)" by (cases t)
  have "distinct (pf_visible_to_roles (toggleRole k c f))" using Cons.prems by (simp add: toggleRole_def)
  moreover have "r \<in> set (pf_visible_to_roles (toggleRole k c f)) \<longleftrightarrow> (if k = r then c else r \<in> set (pf_visible_to_roles f))"
    using assms(2) by (auto simp: toggleRole_def)
  ultimately show ?case using Cons.IH[of "toggleRole k c f"] t by (simp add: Let_def)
qed simp

subsection \<open>The backend's update\<close>

text \<open>The attributes of a stored plan; an update sets those that are present and not null.\<close>

definition plan_attrs :: "PlanRow \<Rightarrow> (string \<times> json) list" where
  "plan_attrs p = [(''name'', JStr (pl_name p)), (''slug'', JStr (pl_slug p)),
     (''description'', case pl_description p of None \<Rightarrow> JNull | Some d \<Rightarrow> JStr d), (''category'', JStr (pl_category p)),
     (''cpu_limit'', decimal (pl_cpu_limit p)), (''memory_limit'', JStr (pl_memory_limit p)),
     (''disk_limit'', JStr (pl_disk_limit p)), (''gpu_limit'', decimal (pl_gpu_limit p)),
     (''max_servers_per_user'', decimal (pl_max_servers_per_user p)), (''cost_per_hour'', decimal (pl_cost_per_hour p)),
     (''cooldown_seconds'', decimal (pl_cooldown_seconds p)), (''is_public'', JBool (pl_is_public p)),
     (''visible_to_roles'', case pl_visible_to_roles p of None \<Rightarrow> JNull | Some rs \<Rightarrow> JArr (map JStr rs)),
     (''priority'', decimal (pl_priority p)), (''is_active'', JBool (pl_is_active p))]"

definition set_attr :: "string \<times> json \<Rightarrow> (string \<times> json) list \<Rightarrow> (string \<times> json) list" where
  "set_attr u attrs = map (\<lambda>(k, v). if k = fst u \<and> snd u \<noteq> JNull then (k, snd u) else (k, v)) attrs"

definition update_plan :: "(string \<times> json) list \<Rightarrow> (string \<times> json) list \<Rightarrow> (string \<times> json) list" where
  "update_plan updates attrs = fold set_attr updates attrs"

definition sent_fields :: "PlanPage \<Rightarrow> (string \<times> json) list" where
  "sent_fields s = (''name'', JStr (pf_name (pg_form s))) # plan_fields (pg_form s)"

lemma sent_fields_sent:
  "pg_editing s = Some p \<Longrightarrow> pg_sent (submitPlan s) = pg_sent s @ [updatePlan (pl_id p) (JObj (sent_fields s))]"
  by (simp add: submitPlan_def sent_fields_def Let_def)

text \<open>
  Editing a plan and saving the form as it opens changes nothing, except that a plan without a list of roles
  gets the role \<^verbatim>\<open>user\<close>.
\<close>

theorem unchanged_plan_form_keeps_plan:
  "update_plan (sent_fields (openEditPlan p s)) (plan_attrs p) =
    plan_attrs (p\<lparr>pl_visible_to_roles := Some (case pl_visible_to_roles p of None \<Rightarrow> [''user''] | Some rs \<Rightarrow> rs)\<rparr>)"
  by (cases "pl_description p"; cases "pl_visible_to_roles p")
    (simp_all add: update_plan_def sent_fields_def openEditPlan_def plan_form_of_def plan_fields_def plan_attrs_def set_attr_def
      decimal_def)

text \<open>
  A description once given cannot be removed: the emptied field is not sent, and the stored text stays, whatever
  else the form changes.
\<close>

theorem description_cannot_be_removed:
  assumes "pl_description p = Some d" and "pf_description (pg_form s) = []"
  shows "map_of (update_plan (sent_fields s) (plan_attrs p)) ''description'' = Some (JStr d)"
  using assms by (simp add: update_plan_def sent_fields_def plan_fields_def plan_attrs_def set_attr_def)

subsection \<open>Bulk actions and numbers above the list\<close>

definition bulkActivate :: "bool \<Rightarrow> string list \<Rightarrow> Mutation list" where
  "bulkActivate on ids = map (if on then activatePlan else deactivatePlan) ids"

lemma bulk_one_request_each: "map (req_path \<circ> mutationFn) (bulkActivate True ids) = map (\<lambda>i. ''/plans/'' @ i @ ''/activate'') ids"
  by (simp add: bulkActivate_def activatePlan_def plan_mutation_def api_post_def)

fun first_of_each :: "string list \<Rightarrow> string list \<Rightarrow> string list" where
  "first_of_each seen [] = []"
| "first_of_each seen (x # xs) = (if x \<in> set seen then first_of_each seen xs else x # first_of_each (x # seen) xs)"

definition plan_categories :: "PlanRow list \<Rightarrow> string list" where
  "plan_categories ps = first_of_each [] (filter (\<lambda>c. c \<noteq> []) (map pl_category ps))"

lemma first_of_each_set: "set (first_of_each seen xs) = set xs - set seen" "distinct (first_of_each seen xs)"
  by (induction xs arbitrary: seen) auto

text \<open>
  The options of the category filter are the categories of the page of plans on display, each once; the average cost
  is that of this page too, next to the number of all plans.
\<close>

lemma category_options: "set (plan_categories ps) = pl_category ` set ps - {[]}" "distinct (plan_categories ps)"
  by (auto simp: plan_categories_def first_of_each_set)

definition averageCost :: "int list \<Rightarrow> string" where
  "averageCost costs = (if costs \<noteq> [] then show_int (js_round_div (sum_list costs) (int (length costs))) @ '' nukes/hr'' else ''0'')"

subsection \<open>Access\<close>

record AccessUser =
  au_user_id :: string
  au_username :: "string option"
  au_display_name :: "string option"
  au_granted_by_username :: "string option"
  au_granted_at :: "string option"

record DirectoryUser =
  du_id :: string
  du_username :: string
  du_display_name :: "string option"

definition availableUserOptions :: "AccessUser list \<Rightarrow> DirectoryUser list \<Rightarrow> (string \<times> string) list" where
  "availableUserOptions assigned users =
    map (\<lambda>u. (du_id u, (case du_display_name u of Some (c # cs) \<Rightarrow> c # cs | _ \<Rightarrow> du_username u) @ '' (@'' @ du_username u @ '')''))
      (filter (\<lambda>u. du_id u \<notin> au_user_id ` set assigned) users)"

text \<open>A search finds a text in the name, the display name or the identifier, without regard to case.\<close>

definition mentions :: "string \<Rightarrow> string option \<Rightarrow> bool" where
  "mentions q t = (case t of Some (c # cs) \<Rightarrow> sublist q (js_toLowerCase (c # cs)) | _ \<Rightarrow> False)"

definition access_field :: "string \<Rightarrow> AccessUser \<Rightarrow> string" where
  "access_field k u = (case (if k = ''username'' then au_username u
      else if k = ''granted_by_username'' then au_granted_by_username u
      else if k = ''granted_at'' then au_granted_at u else if k = ''user_id'' then Some (au_user_id u)
      else if k = ''display_name'' then au_display_name u else None) of None \<Rightarrow> [] | Some v \<Rightarrow> v)"

definition access_matches :: "string \<Rightarrow> AccessUser \<Rightarrow> bool" where
  "access_matches search u \<longleftrightarrow> (let q = js_toLowerCase search in
     mentions q (au_username u) \<or> mentions q (au_display_name u) \<or> sublist q (js_toLowerCase (au_user_id u)))"

definition filteredUsers :: "(string \<Rightarrow> string \<Rightarrow> int) \<Rightarrow> string \<Rightarrow> (string \<times> bool) list \<Rightarrow> AccessUser list \<Rightarrow> AccessUser list" where
  "filteredUsers localeCompare search sorting users =
    (let found = (if search \<noteq> [] then filter (access_matches search) users else users)
     in case sorting of
          [] \<Rightarrow> found
        | (k, desc) # _ \<Rightarrow> js_sort (\<lambda>a b. let c = localeCompare (access_field k a) (access_field k b)
            in if desc then - c else c) found)"

definition access_page :: "nat \<Rightarrow> nat \<Rightarrow> 'a list \<Rightarrow> 'a list" where
  "access_page page limit xs = take limit (drop ((page - 1) * limit) xs)"

lemma filteredUsers_permutes:
  "mset (filteredUsers lc search sorting users) = mset (filter (\<lambda>u. search = [] \<or> access_matches search u) users)"
  by (cases sorting) (auto simp: filteredUsers_def mset_js_sort Let_def)

text \<open>
  The dialog stays in the page when it is closed, with the user chosen in it. Opened for another plan, its button
  gives that user access to the other plan, also when the user has it already.
\<close>

record AccessDialog =
  acd_plan :: "string option"
  acd_open :: bool
  acd_selectedUserId :: string
  acd_sent :: "AccessMutation list"

definition openAccessDialog :: "string \<Rightarrow> AccessDialog \<Rightarrow> AccessDialog" where
  "openAccessDialog p d = d\<lparr>acd_plan := Some p, acd_open := True\<rparr>"

definition chooseAccessUser :: "string \<Rightarrow> AccessDialog \<Rightarrow> AccessDialog" where
  "chooseAccessUser u d = d\<lparr>acd_selectedUserId := u\<rparr>"

definition grantClicked :: "AccessDialog \<Rightarrow> AccessDialog" where
  "grantClicked d = (case acd_plan d of
     Some p \<Rightarrow> if acd_selectedUserId d = [] then d else d\<lparr>acd_sent := acd_sent d @ [grantUserAccess p (acd_selectedUserId d)]\<rparr>
   | None \<Rightarrow> d)"

definition accessGranted :: "AccessDialog \<Rightarrow> AccessDialog" where
  "accessGranted d = d\<lparr>acd_selectedUserId := []\<rparr>"

definition closeAccessDialog :: "AccessDialog \<Rightarrow> AccessDialog" where
  "closeAccessDialog d = d\<lparr>acd_open := False\<rparr>"

lemma selection_carried_to_next_plan:
  "u \<noteq> [] \<Longrightarrow> acd_sent (grantClicked (openAccessDialog q (closeAccessDialog (chooseAccessUser u (openAccessDialog p d))))) =
    acd_sent d @ [grantUserAccess q u]"
  by (simp add: grantClicked_def openAccessDialog_def closeAccessDialog_def chooseAccessUser_def)

lemma offered_user_has_no_access:
  "(i, l) \<in> set (availableUserOptions assigned users) \<Longrightarrow> i \<notin> au_user_id ` set assigned"
  by (auto simp: availableUserOptions_def)

theorem description_cannot_be_removed_witness:
  "map_of (update_plan (sent_fields \<lparr>pg_dialogOpen = True, pg_editing = None, pg_form = emptyPlanForm, pg_sent = []\<rparr>)
     (plan_attrs \<lparr>pl_id = ''p'', pl_name = ''A'', pl_slug = ''a'', pl_description = Some ''old'', pl_category = ''cpu'',
        pl_cpu_limit = (1, 0), pl_memory_limit = ''2g'', pl_disk_limit = ''10g'', pl_gpu_limit = (0, 0),
        pl_max_servers_per_user = (3, 0), pl_cost_per_hour = (10, 0), pl_cooldown_seconds = (0, 0), pl_is_public = False,
        pl_visible_to_roles = None, pl_priority = (0, 0), pl_is_active = True\<rparr>)) ''description'' = Some (JStr ''old'')"
  by (rule description_cannot_be_removed) (simp_all add: emptyPlanForm_def)

end
