(* ===== verification/Schedule_Dialog.thy ===== *)
theory Schedule_Dialog
  imports Cron Query_Hooks
begin

text \<open>
  The dialog for the schedules of a server (\<^verbatim>\<open>components/server/schedule-dialog.tsx\<close>) with the schedule builder in it
  (\<^verbatim>\<open>components/cron-builder.tsx\<close>): its form, its requests, what it lists, and the effect by which the builder
  reports the expression it has built.
\<close>

subsection \<open>The form\<close>

record ScheduleForm =
  sf_action :: string
  sf_cron_expression :: string
  sf_timezone :: string
  sf_is_active :: bool

definition defaultSchedule :: ScheduleForm where
  "defaultSchedule = \<lparr>sf_action = ''start'', sf_cron_expression = ''0 9 * * *'', sf_timezone = ''UTC'', sf_is_active = True\<rparr>"

record ScheduleDialog =
  sd_showForm :: bool
  sd_form :: ScheduleForm
  sd_sent :: "Mutation list"

definition schedule_body :: "ScheduleForm \<Rightarrow> json" where
  "schedule_body f = JObj [(''action'', JStr (sf_action f)), (''cron_expression'', JStr (sf_cron_expression f)),
     (''timezone'', JStr (sf_timezone f)), (''is_active'', JBool (sf_is_active f))]"

datatype ScheduleEvent = Show_form | Hide_form | Action_choice string | Timezone_text string | Cron_change string | Create_click
  | Delete_schedule string bool

text \<open>A deletion comes with the answer to its confirmation.\<close>

fun schedule_event :: "string \<Rightarrow> ScheduleEvent \<Rightarrow> ScheduleDialog \<Rightarrow> ScheduleDialog" where
  "schedule_event server Show_form d = d\<lparr>sd_showForm := True\<rparr>"
| "schedule_event server Hide_form d = d\<lparr>sd_showForm := False\<rparr>"
| "schedule_event server (Action_choice a) d = d\<lparr>sd_form := (sd_form d)\<lparr>sf_action := a\<rparr>\<rparr>"
| "schedule_event server (Timezone_text z) d = d\<lparr>sd_form := (sd_form d)\<lparr>sf_timezone := z\<rparr>\<rparr>"
| "schedule_event server (Cron_change c) d = d\<lparr>sd_form := (sd_form d)\<lparr>sf_cron_expression := c\<rparr>\<rparr>"
| "schedule_event server Create_click d =
    d\<lparr>sd_sent := sd_sent d @ [useCreateSchedule server (schedule_body (sd_form d))], sd_showForm := False,
      sd_form := defaultSchedule\<rparr>"
| "schedule_event server (Delete_schedule i confirmed) d =
    (if confirmed then d\<lparr>sd_sent := sd_sent d @ [useDeleteSchedule server i]\<rparr> else d)"

definition actionLabel :: "string \<Rightarrow> string" where
  "actionLabel a = (if a = ''start'' then ''Start'' else if a = ''stop'' then ''Stop'' else ''Restart'')"

text \<open>The line of a schedule in the list: its action and the time the expression is read as, without the timezone.\<close>

definition schedule_row :: "ScheduleForm \<Rightarrow> string \<times> string option" where
  "schedule_row f = (actionLabel (sf_action f), describe (sf_cron_expression f))"

text \<open>
  A schedule built with the controls is listed as what the controls showed when it was created: the expression sent
  to the server, once it comes back in the list, is described by the chosen hour, minute and days.
\<close>

theorem schedule_listed_as_built:
  assumes "well_formed p" and "builder_step\<^sup>*\<^sup>* (builder_load p) st"
  shows "let d' = fold (schedule_event server) [Cron_change (emitted st), Create_click] d;
             f = (sd_form d)\<lparr>sf_cron_expression := emitted st\<rparr>
    in sd_sent d' = sd_sent d @ [useCreateSchedule server (schedule_body f)] \<and>
       schedule_row f = (actionLabel (sf_action (sd_form d)), humanizeSchedule (minute st) (hour st) (days st))"
  using builder_reachable(2)[OF assms] by (simp add: schedule_row_def describe_def Let_def)

theorem schedule_listed_as_built_witness:
  "snd (schedule_row (defaultSchedule\<lparr>sf_cron_expression :=
     emitted (toggleDay 3 (builder_load \<lparr>minute = 30, hour = 18, days = map whole [1]\<rparr>))\<rparr>)) = Some ''Mon, Wed at 18:30''"
proof -
  let ?p = "\<lparr>minute = 30, hour = 18, days = map whole [1]\<rparr>"
  have "well_formed ?p" by (auto simp: well_formed_def week_def intro!: exI[of _ "[1]"])
  moreover have "builder_step\<^sup>*\<^sup>* (builder_load ?p) (toggleDay 3 (builder_load ?p))"
    by (intro r_into_rtranclp builder_step.intros) simp
  moreover have "humanizeSchedule (minute (toggleDay 3 (builder_load ?p))) (hour (toggleDay 3 (builder_load ?p)))
      (days (toggleDay 3 (builder_load ?p))) = Some ''Mon, Wed at 18:30''" by code_simp
  ultimately show ?thesis
    using schedule_listed_as_built[of ?p "toggleDay 3 (builder_load ?p)" "''s''"
        "\<lparr>sd_showForm = True, sd_form = defaultSchedule, sd_sent = []\<rparr>"]
    by (simp add: Let_def)
qed

text \<open>A creation that fails is not reported, and the form is gone by then.\<close>

lemma failed_schedule_silent:
  "errorTitle (last (sd_sent (schedule_event server Create_click d))) = None \<and>
   sd_form (schedule_event server Create_click d) = defaultSchedule \<and> \<not> sd_showForm (schedule_event server Create_click d)"
  by (simp add: useCreateSchedule_def)

subsection \<open>The builder in the dialog\<close>

text \<open>
  The builder reports its expression from an effect that depends on its own state and on the callback
  \<^verbatim>\<open>onChange\<close>. In this dialog the callback is a new function at every render, numbered by \<open>br_callback\<close>, and calling
  it sets the state of the dialog to a new object, which renders again. \<open>settle_builder\<close> follows the renders
  until the effect has nothing to do.
\<close>

type_synonym BuilderDeps = "bool \<times> int \<times> int \<times> js_num list \<times> nat"

record BuilderRender =
  br_custom :: bool
  br_builder :: BuilderState
  br_callback :: nat
  br_value :: string
  br_deps :: "BuilderDeps option"

definition builder_deps :: "BuilderRender \<Rightarrow> BuilderDeps" where
  "builder_deps s = (br_custom s, minute (br_builder s), hour (br_builder s), days (br_builder s), br_callback s)"

definition reportEffect :: "BuilderRender \<Rightarrow> BuilderRender" where
  "reportEffect s =
    (let s1 = s\<lparr>br_deps := Some (builder_deps s)\<rparr>
     in if br_custom s then s1\<lparr>br_value := emitted (br_builder s), br_callback := Suc (br_callback s)\<rparr> else s1)"

partial_function (option) settle_builder :: "BuilderRender \<Rightarrow> BuilderRender option" where
  "settle_builder s = (if br_deps s = Some (builder_deps s) then Some s else settle_builder (reportEffect s))"

definition custom_due :: "BuilderRender \<Rightarrow> bool" where
  "custom_due s \<longleftrightarrow> br_custom s \<and> br_deps s \<noteq> Some (builder_deps s)"

lemma custom_due_report: "custom_due s \<Longrightarrow> custom_due (reportEffect s)"
  by (simp add: custom_due_def reportEffect_def builder_deps_def Let_def)

lemma settle_not_due:
  assumes "settle_builder s = Some t"
  shows "\<not> custom_due s"
proof (rule settle_builder.raw_induct[where P = "\<lambda>s t. \<not> custom_due s", OF _ assms])
  fix settle s t
  assume ih: "\<And>s t. settle s = Some t \<Longrightarrow> \<not> custom_due s"
    and "(if br_deps s = Some (builder_deps s) then Some s else settle (reportEffect s)) = Some t"
  then show "\<not> custom_due s"
    using ih[of "reportEffect s" t] custom_due_report[of s] by (cases "br_deps s = Some (builder_deps s)") (auto simp: custom_due_def)
qed

text \<open>
  Switching the builder of this dialog to its custom mode makes the dialog render without end; in the mode of the
  presets it settles.
\<close>

theorem custom_mode_never_settles:
  "settle_builder (s\<lparr>br_custom := c, br_deps := d\<rparr>) = None \<longleftrightarrow>
    c \<and> d \<noteq> Some (builder_deps (s\<lparr>br_custom := c, br_deps := d\<rparr>))"
proof (cases "c \<and> d \<noteq> Some (builder_deps (s\<lparr>br_custom := c, br_deps := d\<rparr>))")
  case True
  then have "custom_due (s\<lparr>br_custom := c, br_deps := d\<rparr>)" by (cases c) (simp_all add: custom_due_def)
  with settle_not_due[of "s\<lparr>br_custom := c, br_deps := d\<rparr>"] True show ?thesis
    by (cases "settle_builder (s\<lparr>br_custom := c, br_deps := d\<rparr>)") auto
next
  case False
  let ?s = "s\<lparr>br_custom := c, br_deps := d\<rparr>"
  have "settle_builder ?s \<noteq> None"
  proof (cases "d = Some (builder_deps ?s)")
    case True
    then show ?thesis by (subst settle_builder.simps) simp
  next
    case not_run: False
    with False have "\<not> c" by blast
    then have "br_deps (reportEffect ?s) = Some (builder_deps (reportEffect ?s))"
      by (simp add: reportEffect_def builder_deps_def Let_def)
    then have "settle_builder (reportEffect ?s) \<noteq> None" by (subst settle_builder.simps) simp
    with not_run show ?thesis by (subst settle_builder.simps) simp
  qed
  with False show ?thesis by blast
qed

end
