(* ===== verification/Notification_Views.thy ===== *)
theory Notification_Views
  imports Notifications Query_Hooks Confirm_Dialog
begin

text \<open>
  The two views of the notifications: the bell with its panel (\<^verbatim>\<open>components/notifications/notification-center.tsx\<close>)
  and the page (\<^verbatim>\<open>routes/notifications.tsx\<close>).
\<close>

subsection \<open>Where the panel is shown\<close>

text \<open>Lengths are whole pixels. \<open>h\<close> is the height of the panel, at most \<^verbatim>\<open>MAX_DROPDOWN_HEIGHT\<close>.\<close>

record Rect =
  rc_left :: int
  rc_right :: int
  rc_top :: int
  rc_bottom :: int

definition dropdown_height :: "int \<Rightarrow> int" where
  "dropdown_height offsetHeight = min offsetHeight 480"

definition dropdown_left :: "Rect \<Rightarrow> int \<Rightarrow> int" where
  "dropdown_left r innerWidth =
    (let l = rc_right r + 8; l' = (if l + 360 > innerWidth - 8 then rc_left r - 360 - 8 else l)
     in max 8 (min l' (innerWidth - 360 - 8)))"

definition dropdown_top :: "Rect \<Rightarrow> int \<Rightarrow> int \<Rightarrow> int" where
  "dropdown_top r innerHeight h =
    (let spaceBelow = innerHeight - rc_bottom r - 8; spaceAbove = rc_top r - 8; below = rc_bottom r + 8
     in max 8 (if h \<le> spaceBelow then below
        else if h \<le> spaceAbove then rc_top r - h - 8
        else if below + h > innerHeight - 8 then max 8 (innerHeight - h - 8) else below))"

text \<open>In a window that has room for it the panel is inside the window, wherever the bell is.\<close>

theorem panel_inside_window:
  assumes "376 \<le> innerWidth" and "dropdown_height o_h + 16 \<le> innerHeight" and "rc_top r \<le> innerHeight"
  shows "8 \<le> dropdown_left r innerWidth \<and> dropdown_left r innerWidth + 360 \<le> innerWidth - 8 \<and>
    8 \<le> dropdown_top r innerHeight (dropdown_height o_h) \<and>
    dropdown_top r innerHeight (dropdown_height o_h) + dropdown_height o_h \<le> innerHeight"
  using assms by (auto simp: dropdown_left_def dropdown_top_def Let_def)

theorem panel_inside_window_witness:
  "dropdown_left \<lparr>rc_left = 980, rc_right = 1010, rc_top = 700, rc_bottom = 730\<rparr> 1024 + 360 \<le> 1016"
  using panel_inside_window[of 1024 300 768 "\<lparr>rc_left = 980, rc_right = 1010, rc_top = 700, rc_bottom = 730\<rparr>"]
  by (simp add: dropdown_height_def)

subsection \<open>The panel\<close>

record ListedNotification = Notification +
  ln_id :: string
  ln_read :: bool

datatype PanelEffect = Navigate_to string | Marks_read string | Deletes string | Closes_panel

definition row_url :: "ListedNotification \<Rightarrow> string option" where
  "row_url n = (case action_url n of Some (c # cs) \<Rightarrow> Some (c # cs) | _ \<Rightarrow> None)"

definition follow :: "ListedNotification \<Rightarrow> PanelEffect list" where
  "follow n = (case row_url n of Some u \<Rightarrow> [Navigate_to u] | None \<Rightarrow> [])"

definition mark_if_unread :: "ListedNotification \<Rightarrow> PanelEffect list" where
  "mark_if_unread n = (if ln_read n then [] else [Marks_read (ln_id n)])"

datatype PanelClick = On_row | On_title | On_check | On_delete

text \<open>
  The title is a link when there is an address to go to and otherwise text, on which a click is one on the row. The
  link and the two buttons keep a click from the row.
\<close>

definition panel_click :: "ListedNotification \<Rightarrow> PanelClick \<Rightarrow> PanelEffect list" where
  "panel_click n c =
    (case c of
       On_row \<Rightarrow> follow n @ mark_if_unread n @ [Closes_panel]
     | On_title \<Rightarrow> (if row_url n \<noteq> None then mark_if_unread n @ [Closes_panel] @ follow n
         else follow n @ mark_if_unread n @ [Closes_panel])
     | On_check \<Rightarrow> mark_if_unread n
     | On_delete \<Rightarrow> [Deletes (ln_id n)])"

text \<open>Each click asks at most once to mark the notification read, and never for one that is read.\<close>

lemma marked_once:
  "length (filter (\<lambda>e. \<exists>i. e = Marks_read i) (panel_click n c)) \<le> 1"
  "ln_read n \<Longrightarrow> Marks_read i \<notin> set (panel_click n c)"
  by (cases c; auto simp: panel_click_def follow_def mark_if_unread_def split: option.splits)+

definition unread_badge :: "nat \<Rightarrow> string" where
  "unread_badge n = (if n > 99 then ''99+'' else show_nat n)"

subsection \<open>The page\<close>

text \<open>
  The selection is an object of identifiers, in the order in which they were first clicked. The page holds the
  filter, the selection, the notifications on display and its requests.
\<close>

record NotificationsPage =
  np_unreadOnly :: bool
  np_selected :: "(string \<times> bool) list"
  np_shown :: "ListedNotification list"
  np_sent :: "Mutation list"

definition initialNotifications :: NotificationsPage where
  "initialNotifications = \<lparr>np_unreadOnly = False, np_selected = [], np_shown = [], np_sent = []\<rparr>"

definition set_entry :: "string \<Rightarrow> bool \<Rightarrow> (string \<times> bool) list \<Rightarrow> (string \<times> bool) list" where
  "set_entry k b m = (if k \<in> fst ` set m then map (\<lambda>(i, c). if i = k then (i, b) else (i, c)) m else m @ [(k, b)])"

definition selected_ids :: "(string \<times> bool) list \<Rightarrow> string list" where
  "selected_ids m = map fst (filter snd m)"

definition handleToggleSelected :: "string \<Rightarrow> bool \<Rightarrow> NotificationsPage \<Rightarrow> NotificationsPage" where
  "handleToggleSelected i b s = s\<lparr>np_selected := set_entry i b (np_selected s)\<rparr>"

definition handleDeleteSelected :: "NotificationsPage \<Rightarrow> NotificationsPage" where
  "handleDeleteSelected s =
    (if selected_ids (np_selected s) = [] then s
     else s\<lparr>np_sent := np_sent s @
       [useDeleteNotifications (JObj [(''notification_ids'', JArr (map JStr (selected_ids (np_selected s))))])]\<rparr>)"

definition clearRead :: "NotificationsPage \<Rightarrow> NotificationsPage" where
  "clearRead s = (if list_ex ln_read (np_shown s)
     then s\<lparr>np_sent := np_sent s @ [useDeleteNotifications (JObj [(''read_only'', JBool True)])]\<rparr> else s)"

definition clearAll :: "bool \<Rightarrow> NotificationsPage \<Rightarrow> NotificationsPage" where
  "clearAll confirmed s = (if np_shown s \<noteq> [] \<and> confirmed
     then s\<lparr>np_sent := np_sent s @ [useDeleteNotifications (JObj [(''all'', JBool True)])]\<rparr> else s)"

datatype NotificationsEvent = Choose_unread bool | Notifications_arrive "ListedNotification list" | Check string bool
  | Delete_checked | Checked_deleted | Clear_read | Clear_all bool | Mark_one string | Delete_one string | Mark_all

definition shown_row :: "string \<Rightarrow> NotificationsPage \<Rightarrow> bool" where
  "shown_row i s \<longleftrightarrow> list_ex (\<lambda>n. ln_id n = i) (np_shown s)"

fun notifications_event :: "NotificationsEvent \<Rightarrow> NotificationsPage \<Rightarrow> NotificationsPage" where
  "notifications_event (Choose_unread b) s = s\<lparr>np_unreadOnly := b\<rparr>"
| "notifications_event (Notifications_arrive ns) s = s\<lparr>np_shown := ns\<rparr>"
| "notifications_event (Check i b) s = (if shown_row i s then handleToggleSelected i b s else s)"
| "notifications_event Delete_checked s = handleDeleteSelected s"
| "notifications_event Checked_deleted s = s\<lparr>np_selected := []\<rparr>"
| "notifications_event Clear_read s = clearRead s"
| "notifications_event (Clear_all confirmed) s = clearAll confirmed s"
| "notifications_event (Mark_one i) s = (if shown_row i s then s\<lparr>np_sent := np_sent s @ [useMarkAsRead i]\<rparr> else s)"
| "notifications_event (Delete_one i) s = (if shown_row i s then s\<lparr>np_sent := np_sent s @ [useDeleteNotification i]\<rparr> else s)"
| "notifications_event Mark_all s = s\<lparr>np_sent := np_sent s @ [useMarkAllAsRead]\<rparr>"

text \<open>What was last clicked for each identifier since the selection was emptied.\<close>

fun last_checks :: "NotificationsEvent list \<Rightarrow> NotificationsPage \<Rightarrow> (string \<Rightarrow> bool) \<Rightarrow> string \<Rightarrow> bool" where
  "last_checks [] s m = m"
| "last_checks (e # es) s m = last_checks es (notifications_event e s)
     (case e of Check i b \<Rightarrow> if shown_row i s then m(i := b) else m | Checked_deleted \<Rightarrow> (\<lambda>_. False) | _ \<Rightarrow> m)"

lemma set_entry_keys:
  assumes "distinct (map fst m)"
  shows "distinct (map fst (set_entry k b m))"
proof (cases "k \<in> fst ` set m")
  case True
  have "map fst (map (\<lambda>(i, c). if i = k then (i, b) else (i, c)) m) = map fst m" by (induction m) auto
  then have "map fst (set_entry k b m) = map fst m" using True by (simp only: set_entry_def if_True)
  with assms show ?thesis by (simp only:)
next
  case False
  with assms show ?thesis by (simp add: set_entry_def)
qed

lemma set_entry_selected:
  "distinct (map fst m) \<Longrightarrow> i \<in> set (selected_ids (set_entry k b m)) \<longleftrightarrow> (if i = k then b else i \<in> set (selected_ids m))"
proof (induction m)
  case (Cons x m)
  obtain j c where x: "x = (j, c)" by (cases x)
  have absent: "map (\<lambda>(i, c). if i = k then (i, b) else (i, c)) m = m" if "k \<notin> fst ` set m"
    using that by (intro map_idI) (auto simp: image_iff)
  show ?case
  proof (cases "j = k")
    case True
    with Cons.prems x have "k \<notin> fst ` set m" by (auto simp: image_iff)
    with absent True x show ?thesis by (auto simp: set_entry_def selected_ids_def)
  next
    case False
    then have "set_entry k b (x # m) = x # set_entry k b m" using x by (auto simp: set_entry_def)
    with Cons x False show ?thesis by (auto simp: selected_ids_def)
  qed
qed (simp add: set_entry_def selected_ids_def)

lemma selected_distinct: "distinct (map fst m) \<Longrightarrow> distinct (selected_ids m)"
  by (induction m) (auto simp: selected_ids_def)

lemma notifications_selection:
  assumes "distinct (map fst (np_selected s))" and "\<And>i. i \<in> set (selected_ids (np_selected s)) \<longleftrightarrow> m i"
  shows "distinct (map fst (np_selected (fold notifications_event es s))) \<and>
    (\<forall>i. i \<in> set (selected_ids (np_selected (fold notifications_event es s))) \<longleftrightarrow> last_checks es s m i)"
  using assms
proof (induction es arbitrary: s m)
  case (Cons e es)
  let ?m = "case e of Check i b \<Rightarrow> if shown_row i s then m(i := b) else m | Checked_deleted \<Rightarrow> (\<lambda>_. False) | _ \<Rightarrow> m"
  have "distinct (map fst (np_selected (notifications_event e s)))" using Cons.prems(1)
    by (cases e) (auto simp: handleToggleSelected_def handleDeleteSelected_def clearRead_def clearAll_def intro: set_entry_keys)
  moreover have "i \<in> set (selected_ids (np_selected (notifications_event e s))) \<longleftrightarrow> ?m i" for i
    using Cons.prems
    by (cases e) (auto simp: handleToggleSelected_def handleDeleteSelected_def clearRead_def clearAll_def set_entry_selected
        selected_ids_def[of "[]"])
  ultimately show ?case using Cons.IH[of "notifications_event e s" ?m] by simp
qed simp

text \<open>
  Deleting the selection asks for exactly those notifications whose box was checked last, each once. Neither
  changing the filter nor deleting a notification by its own button takes it out of the selection, so they need not
  be on display.
\<close>

theorem deletes_last_checked:
  assumes "\<exists>i. last_checks es initialNotifications (\<lambda>_. False) i"
  shows "\<exists>ids. np_sent (notifications_event Delete_checked (fold notifications_event es initialNotifications)) =
      np_sent (fold notifications_event es initialNotifications) @
        [useDeleteNotifications (JObj [(''notification_ids'', JArr (map JStr ids))])] \<and>
    distinct ids \<and> (\<forall>i. i \<in> set ids \<longleftrightarrow> last_checks es initialNotifications (\<lambda>_. False) i)"
proof -
  let ?s = "fold notifications_event es initialNotifications"
  have sel: "distinct (map fst (np_selected ?s))"
      "\<forall>i. i \<in> set (selected_ids (np_selected ?s)) \<longleftrightarrow> last_checks es initialNotifications (\<lambda>_. False) i"
    using notifications_selection[of initialNotifications "\<lambda>_. False" es] by (auto simp: initialNotifications_def selected_ids_def)
  with assms have "selected_ids (np_selected ?s) \<noteq> []" by auto
  with sel show ?thesis by (auto simp: handleDeleteSelected_def selected_distinct)
qed

definition demo_notification :: "string \<Rightarrow> ListedNotification" where
  "demo_notification i = Notification.extend \<lparr>n_type = ''server'', severity = ''info'', n_title = ''t'', n_message = ''m'',
     action_url = None, created_at = None\<rparr> \<lparr>ln_id = i, ln_read = True\<rparr>"

theorem deletes_last_checked_witness:
  "\<exists>ids. distinct ids \<and> set ids = {''a''} \<and>
    np_sent (fold notifications_event [Notifications_arrive [demo_notification ''a'', demo_notification ''b''], Check ''a'' True,
      Check ''b'' True, Check ''b'' False, Choose_unread True, Notifications_arrive [], Delete_checked] initialNotifications) =
    [useDeleteNotifications (JObj [(''notification_ids'', JArr (map JStr ids))])]"
proof -
  let ?es = "[Notifications_arrive [demo_notification ''a'', demo_notification ''b''], Check ''a'' True,
      Check ''b'' True, Check ''b'' False, Choose_unread True, Notifications_arrive []]"
  have ids: "ln_id (demo_notification i) = i" for i by (simp add: demo_notification_def Notification.defs)
  have checks: "last_checks ?es initialNotifications (\<lambda>_. False) i \<longleftrightarrow> i = ''a''" for i
    by (simp add: shown_row_def ids handleToggleSelected_def)
  then have "\<exists>i. last_checks ?es initialNotifications (\<lambda>_. False) i" by blast
  from deletes_last_checked[OF this] obtain xs where
    "np_sent (notifications_event Delete_checked (fold notifications_event ?es initialNotifications)) =
      np_sent (fold notifications_event ?es initialNotifications) @
        [useDeleteNotifications (JObj [(''notification_ids'', JArr (map JStr xs))])]" "distinct xs" "\<forall>i. i \<in> set xs \<longleftrightarrow> i = ''a''"
    unfolding checks by blast
  moreover have "np_sent (fold notifications_event ?es initialNotifications) = []"
    by (simp add: initialNotifications_def shown_row_def ids handleToggleSelected_def)
  ultimately show ?thesis by (intro exI[of _ xs]) auto
qed

end
