(* ===== verification/Admin_Controls.thy ===== *)
theory Admin_Controls
  imports Role_Matrix Query_Hooks
begin

text \<open>
  Two pages of the administration: the restrictions by address (\<^verbatim>\<open>routes/admin.ip-restrictions.tsx\<close>) next to the
  backend's gate (\<^verbatim>\<open>backend/app/middleware/ip_restriction.py\<close>), and the matrix of permissions
  (\<^verbatim>\<open>routes/admin.permissions.tsx\<close>) next to the backend's check of an update (\<^verbatim>\<open>backend/app/api/admin.py\<close>).
\<close>

subsection \<open>Restrictions by address\<close>

record IPRestriction =
  ir_id :: string
  ir_range :: string
  ir_type :: string
  ir_is_active :: bool

datatype Mode = Open_mode | Blocklist_mode | Allowlist_mode

definition getActiveMode :: "IPRestriction list \<Rightarrow> Mode" where
  "getActiveMode items =
    (let active = filter ir_is_active items
     in if list_ex (\<lambda>i. ir_type i = ''allow'') active then Allowlist_mode
        else if list_ex (\<lambda>i. ir_type i = ''block'') active then Blocklist_mode else Open_mode)"

text \<open>
  The gate lets a request pass or not; \<open>ip_matches\<close> is Python's \<^verbatim>\<open>ipaddress\<close> deciding whether an address is in a
  range. The restrictions it knows are the active ones.
\<close>

definition exempt_path :: "string \<Rightarrow> bool" where
  "exempt_path p \<longleftrightarrow> js_startsWith p ''/api/auth'' \<or> js_startsWith p ''/api/admin/ip-restrictions'' \<or>
     p \<in> {''/api/health'', ''/health'', ''/api/docs'', ''/api/openapi.json'', ''/api/ws'', ''/ws''}"

definition gate_passes :: "(string \<Rightarrow> string \<Rightarrow> bool) \<Rightarrow> IPRestriction list \<Rightarrow> string \<Rightarrow> string \<Rightarrow> bool" where
  "gate_passes ip_matches items path client =
    (if exempt_path path then True
     else let restrictions = filter ir_is_active items;
            allowlist = filter (\<lambda>r. ir_type r = ''allow'') restrictions;
            blocklist = filter (\<lambda>r. ir_type r = ''block'') restrictions
       in if restrictions = [] then True
          else if allowlist \<noteq> [] then list_ex (\<lambda>r. ip_matches client (ir_range r)) allowlist
          else \<not> list_ex (\<lambda>r. ip_matches client (ir_range r)) blocklist)"

text \<open>
  What the banner of the page says is what the gate does: without active restrictions every address is let in, with
  a blocklist every address but the listed ones, with an allowlist the listed ones only.
\<close>

theorem banner_tells_the_gate:
  "gate_passes ip_matches items path client \<longleftrightarrow> exempt_path path \<or>
    (case getActiveMode items of
       Open_mode \<Rightarrow> True
     | Blocklist_mode \<Rightarrow> \<not> (\<exists>r \<in> set items. ir_is_active r \<and> ir_type r = ''block'' \<and> ip_matches client (ir_range r))
     | Allowlist_mode \<Rightarrow> (\<exists>r \<in> set items. ir_is_active r \<and> ir_type r = ''allow'' \<and> ip_matches client (ir_range r)))"
proof (cases "exempt_path path")
  case False
  let ?allow = "filter (\<lambda>r. ir_type r = ''allow'') (filter ir_is_active items)"
  let ?block = "filter (\<lambda>r. ir_type r = ''block'') (filter ir_is_active items)"
  have empty: "filter ir_is_active items = [] \<Longrightarrow> ?allow = [] \<and> ?block = []" by simp
  have gate: "gate_passes ip_matches items path client \<longleftrightarrow>
      (if ?allow \<noteq> [] then list_ex (\<lambda>r. ip_matches client (ir_range r)) ?allow
       else \<not> list_ex (\<lambda>r. ip_matches client (ir_range r)) ?block)"
    using False empty by (auto simp: gate_passes_def Let_def simp del: filter_filter)
  show ?thesis
  proof (cases "?allow = []")
    case True
    then have "\<not> list_ex (\<lambda>i. ir_type i = ''allow'') (filter ir_is_active items)" by (auto simp: list_ex_iff filter_empty_conv)
    then show ?thesis using gate True \<open>\<not> exempt_path path\<close>
      by (auto simp: getActiveMode_def list_ex_iff Let_def simp del: filter_filter)
  next
    case some: False
    then have "list_ex (\<lambda>i. ir_type i = ''allow'') (filter ir_is_active items)" by (auto simp: list_ex_iff filter_empty_conv)
    then show ?thesis using gate some \<open>\<not> exempt_path path\<close> by (auto simp: getActiveMode_def list_ex_iff Let_def)
  qed
qed (simp add: gate_passes_def)

record IpForm =
  if_range :: string
  if_type :: string
  if_note :: string
  if_error :: string
  if_open :: bool

definition closedIpForm :: IpForm where
  "closedIpForm = \<lparr>if_range = [], if_type = ''block'', if_note = [], if_error = [], if_open = False\<rparr>"

definition openIpDialog :: "(string \<times> string \<times> string) option \<Rightarrow> IpForm" where
  "openIpDialog prefill = (case prefill of
     None \<Rightarrow> closedIpForm\<lparr>if_open := True\<rparr>
   | Some (r, t, n) \<Rightarrow> \<lparr>if_range = r, if_type = t, if_note = n, if_error = [], if_open = True\<rparr>)"

definition submitIp :: "IpForm \<Rightarrow> FetchRequest option \<times> IpForm" where
  "submitIp f =
    (if js_trim (if_range f) = [] then (None, f\<lparr>if_error := ''IP range is required''\<rparr>)
     else (Some (api_post ''/admin/ip-restrictions'' (JObj [(''ip_range'', JStr (if_range f)),
       (''restriction_type'', JStr (if_type f)), (''note'', JStr (if_note f))])), f))"

definition ipCreated :: "IpForm \<Rightarrow> IpForm" where
  "ipCreated f = closedIpForm"

definition ipRefused :: "string \<Rightarrow> IpForm \<Rightarrow> IpForm" where
  "ipRefused msg f = f\<lparr>if_error := (if msg \<noteq> [] then msg else ''Failed to create restriction'')\<rparr>"

text \<open>
  The button next to one's own address replaces whatever the form holds by an entry that allows it. Sent first, it puts
  the platform in lockdown for that address alone.
\<close>

lemma own_address_first:
  assumes "\<forall>r \<in> set items. \<not> ir_is_active r" and "\<not> exempt_path path"
  shows "gate_passes m (\<lparr>ir_id = i, ir_range = if_range (openIpDialog (Some (ip, ''allow'', n))),
      ir_type = if_type (openIpDialog (Some (ip, ''allow'', n))), ir_is_active = True\<rparr> # items) path client \<longleftrightarrow> m client ip"
  using assms by (auto simp: gate_passes_def openIpDialog_def Let_def filter_empty_conv)


subsection \<open>The matrix of permissions\<close>

record PermissionMatrix =
  pm_roles :: "string list"
  pm_permissions :: "string list"
  pm_matrix :: "string \<rightharpoonup> string list"

record PermissionCategory =
  pc_id :: string
  pc_label :: string
  pc_permissions :: "string list"

definition category_table :: "(string \<times> string \<times> (string \<Rightarrow> bool)) list" where
  "category_table =
    [(''users'', ''Users'', \<lambda>p. js_startsWith p ''users:''),
     (''servers'', ''Servers'', \<lambda>p. js_startsWith p ''servers:''),
     (''resources'', ''Resources'', \<lambda>p. js_startsWith p ''resources:''),
     (''environments'', ''Environments'', \<lambda>p. js_startsWith p ''environment:''),
     (''plans'', ''Plans'', \<lambda>p. js_startsWith p ''plan:'' \<or> js_startsWith p ''quota:''),
     (''credits'', ''Credits'', \<lambda>p. js_startsWith p ''credits:''),
     (''workspaces'', ''Workspaces'', \<lambda>p. js_startsWith p ''workspaces:''),
     (''volumes'', ''Volumes'', \<lambda>p. js_startsWith p ''volumes:''),
     (''admin'', ''Admin'', \<lambda>p. js_startsWith p ''audit:'' \<or> js_startsWith p ''admin:'' \<or> p = ''*'')]"

definition getCategories :: "string list \<Rightarrow> PermissionCategory list" where
  "getCategories ps = filter (\<lambda>c. pc_permissions c \<noteq> [])
     (map (\<lambda>(i, l, f). \<lparr>pc_id = i, pc_label = l, pc_permissions = filter f ps\<rparr>) category_table)"

text \<open>The state of the page. The roles are looked up as \<^verbatim>\<open>editedRoles[role] || []\<close>.\<close>

record PermissionsPage =
  pp_fetched :: "PermissionMatrix option"
  pp_loading :: bool
  pp_savingRole :: "string option"
  pp_error :: "string option"
  pp_edited :: "string \<rightharpoonup> string list"
  pp_expanded :: "string \<rightharpoonup> bool"

definition initPermissions :: PermissionsPage where
  "initPermissions = \<lparr>pp_fetched = None, pp_loading = True, pp_savingRole = None, pp_error = None,
     pp_edited = Map.empty, pp_expanded = Map.empty\<rparr>"

definition perms_of :: "(string \<rightharpoonup> string list) \<Rightarrow> string \<Rightarrow> string list" where
  "perms_of m r = (case m r of None \<Rightarrow> [] | Some ps \<Rightarrow> ps)"

definition fetchMatrix :: "PermissionsPage \<Rightarrow> FetchRequest \<times> PermissionsPage" where
  "fetchMatrix s = (api_get ''/admin/permissions'', s\<lparr>pp_loading := True\<rparr>)"

definition matrixFetched :: "PermissionMatrix \<Rightarrow> PermissionsPage \<Rightarrow> PermissionsPage" where
  "matrixFetched m s = s\<lparr>pp_fetched := Some m, pp_edited := pm_matrix m,
     pp_expanded := (\<lambda>r. if r \<in> set (pm_roles m) \<and> r \<noteq> ''super_admin'' then Some True else None),
     pp_error := None, pp_loading := False\<rparr>"

definition matrixFailed :: "string option \<Rightarrow> PermissionsPage \<Rightarrow> PermissionsPage" where
  "matrixFailed msg s = s\<lparr>pp_error := Some (case msg of Some m \<Rightarrow> m | None \<Rightarrow> ''Failed to load permissions''),
     pp_loading := False\<rparr>"

definition togglePermission :: "string \<Rightarrow> string \<Rightarrow> PermissionsPage \<Rightarrow> PermissionsPage" where
  "togglePermission r p s =
    (let current = perms_of (pp_edited s) r
     in s\<lparr>pp_edited := (pp_edited s)(r \<mapsto>
          (if p \<in> set current then filter (\<lambda>q. q \<noteq> p) current else current @ [p]))\<rparr>)"

text \<open>\<^verbatim>\<open>new Set(xs)\<close> keeps the first of equal elements; \<^verbatim>\<open>add\<close> appends what is not there.\<close>

definition js_set_of :: "string list \<Rightarrow> string list" where
  "js_set_of xs = add_missing [] xs"

definition toggleAllInCategory :: "string \<Rightarrow> PermissionCategory \<Rightarrow> bool \<Rightarrow> PermissionsPage \<Rightarrow> PermissionsPage" where
  "toggleAllInCategory r c grant s =
    (let current = js_set_of (perms_of (pp_edited s) r)
     in s\<lparr>pp_edited := (pp_edited s)(r \<mapsto>
          (if grant then add_missing current (pc_permissions c)
           else filter (\<lambda>q. q \<notin> set (pc_permissions c)) current))\<rparr>)"

definition saveRole :: "string \<Rightarrow> PermissionsPage \<Rightarrow> FetchRequest \<times> PermissionsPage" where
  "saveRole r s = (api_put (''/admin/permissions/'' @ r)
       (JObj [(''permissions'', JArr (map JStr (perms_of (pp_edited s) r)))]), s\<lparr>pp_savingRole := Some r\<rparr>)"

text \<open>\<open>ps\<close> are the permissions of the role when the button was pressed, which the handler holds on to.\<close>

definition roleSaved :: "string \<Rightarrow> string list \<Rightarrow> PermissionsPage \<Rightarrow> PermissionsPage" where
  "roleSaved r ps s = s\<lparr>
     pp_fetched := map_option (\<lambda>m. m\<lparr>pm_matrix := (pm_matrix m)(r \<mapsto> ps)\<rparr>) (pp_fetched s),
     pp_error := None, pp_savingRole := None\<rparr>"

definition roleRefused :: "string option \<Rightarrow> PermissionsPage \<Rightarrow> PermissionsPage" where
  "roleRefused msg s = s\<lparr>pp_error := Some (case msg of Some m \<Rightarrow> m | None \<Rightarrow> ''Failed to save permissions''),
     pp_savingRole := None\<rparr>"

definition resetRole :: "string \<Rightarrow> PermissionsPage \<Rightarrow> PermissionsPage" where
  "resetRole r s = (case pp_fetched s of None \<Rightarrow> s
     | Some m \<Rightarrow> s\<lparr>pp_edited := (pp_edited s)(r \<mapsto> perms_of (pm_matrix m) r)\<rparr>)"

definition hasChanges :: "PermissionsPage \<Rightarrow> string \<Rightarrow> bool" where
  "hasChanges s r = (case pp_fetched s of None \<Rightarrow> False
     | Some m \<Rightarrow> (let original = perms_of (pm_matrix m) r; edited = perms_of (pp_edited s) r
        in if length original \<noteq> length edited then True
           else list_ex (\<lambda>p. p \<notin> set edited) original \<or> list_ex (\<lambda>p. p \<notin> set original) edited))"

definition toggleExpanded :: "string \<Rightarrow> PermissionsPage \<Rightarrow> PermissionsPage" where
  "toggleExpanded r s = s\<lparr>pp_expanded := (pp_expanded s)(r \<mapsto> \<not> (case pp_expanded s r of None \<Rightarrow> True | Some e \<Rightarrow> e))\<rparr>"

datatype PermView = Loading_view | Error_view string | Grid_view "string list"

definition permissions_view :: "PermissionsPage \<Rightarrow> PermView" where
  "permissions_view s =
    (if pp_loading s then Loading_view
     else case pp_error s of Some e \<Rightarrow> Error_view e
     | None \<Rightarrow> Grid_view (case pp_fetched s of None \<Rightarrow> [] | Some m \<Rightarrow> filter (\<lambda>r. r \<noteq> ''super_admin'') (pm_roles m)))"

text \<open>
  What an administrator can do in the grid. A permission can be pressed when one of the shown categories has it, and
  the buttons \<^verbatim>\<open>Reset\<close> and \<^verbatim>\<open>Save\<close> are there for a modified role only.
\<close>

datatype PermAct = Toggle_perm string string | Toggle_category string PermissionCategory bool
  | Reset_role string | Save_role string | Expand_role string

definition shown_categories :: "PermissionsPage \<Rightarrow> PermissionCategory list" where
  "shown_categories s = (case pp_fetched s of None \<Rightarrow> [] | Some m \<Rightarrow> getCategories (pm_permissions m))"

fun can_act :: "PermissionsPage \<Rightarrow> PermAct \<Rightarrow> bool" where
  "can_act s (Toggle_perm r p) = (\<exists>c \<in> set (shown_categories s). p \<in> set (pc_permissions c))"
| "can_act s (Toggle_category r c g) = (c \<in> set (shown_categories s))"
| "can_act s (Reset_role r) = hasChanges s r"
| "can_act s (Save_role r) = hasChanges s r"
| "can_act s (Expand_role r) = True"

fun act_role :: "PermAct \<Rightarrow> string" where
  "act_role (Toggle_perm r p) = r"
| "act_role (Toggle_category r c g) = r"
| "act_role (Reset_role r) = r"
| "act_role (Save_role r) = r"
| "act_role (Expand_role r) = r"

text \<open>What the backend gives the page; the update is \<^term>\<open>update_role_permissions\<close>, and the page is behind its guard.\<close>

definition get_permission_matrix :: "(string \<rightharpoonup> string list) \<Rightarrow> PermissionMatrix" where
  "get_permission_matrix stored = \<lparr>pm_roles = VALID_ROLES, pm_permissions = all_permissions,
     pm_matrix = (\<lambda>r. if r \<in> set VALID_ROLES then Some (perms_of stored r) else None)\<rparr>"

text \<open>
  The page and the backend together. A save is answered before the next action; a refused one shows the error.
\<close>

record PermWorld =
  pw_page :: PermissionsPage
  pw_stored :: "string \<rightharpoonup> string list"
  pw_statuses :: "nat list"

fun perm_step :: "PermAct \<Rightarrow> PermWorld \<Rightarrow> PermWorld" where
  "perm_step (Toggle_perm r p) w = w\<lparr>pw_page := togglePermission r p (pw_page w)\<rparr>"
| "perm_step (Toggle_category r c g) w = w\<lparr>pw_page := toggleAllInCategory r c g (pw_page w)\<rparr>"
| "perm_step (Reset_role r) w = w\<lparr>pw_page := resetRole r (pw_page w)\<rparr>"
| "perm_step (Expand_role r) w = w\<lparr>pw_page := toggleExpanded r (pw_page w)\<rparr>"
| "perm_step (Save_role r) w =
    (let ps = perms_of (pp_edited (pw_page w)) r; s = snd (saveRole r (pw_page w));
         (status, stored) = update_role_permissions r ps (pw_stored w)
     in \<lparr>pw_page = (if status = 200 then roleSaved r ps s else roleRefused None s),
         pw_stored = stored, pw_statuses = pw_statuses w @ [status]\<rparr>)"

inductive perm_reach :: "(string \<rightharpoonup> string list) \<Rightarrow> PermWorld \<Rightarrow> bool" for stored where
  opened: "perm_reach stored \<lparr>pw_page = matrixFetched (get_permission_matrix stored) initPermissions,
             pw_stored = stored, pw_statuses = []\<rparr>"
| acted: "perm_reach stored w \<Longrightarrow> permissions_view (pw_page w) = Grid_view rs \<Longrightarrow> act_role a \<in> set rs \<Longrightarrow>
     can_act (pw_page w) a \<Longrightarrow> perm_reach stored (perm_step a w)"


lemma category_perms: "c \<in> set (getCategories ps) \<Longrightarrow> p \<in> set (pc_permissions c) \<Longrightarrow> p \<in> set ps"
  by (auto simp: getCategories_def)

lemma startsWith_prefix: "js_startsWith p a \<Longrightarrow> prefix a p"
  by (metis js_startsWith_def take_is_prefix)

lemma no_analytics_category:
  "c \<in> set (getCategories ps) \<Longrightarrow> p \<in> set (pc_permissions c) \<Longrightarrow> \<not> js_startsWith p ''analytics:''"
proof
  assume c: "c \<in> set (getCategories ps)" "p \<in> set (pc_permissions c)" and p: "js_startsWith p ''analytics:''"
  have clash: "js_startsWith p a \<Longrightarrow> prefix a ''analytics:'' \<or> prefix ''analytics:'' a" for a
    using prefix_same_cases [OF startsWith_prefix startsWith_prefix [OF p]] by blast
  obtain i l f where "(i, l, f) \<in> set category_table" "f p" using c by (auto simp: getCategories_def)
  moreover have "p \<noteq> ''*''" using p by (auto simp: js_startsWith_def)
  ultimately show False by (auto simp: category_table_def dest: clash)
qed

lemma distinct_add_missing: "distinct xs \<Longrightarrow> distinct (add_missing xs ys)"
  using add_missing_extends [of xs ys] by auto

lemma set_js_set_of [simp]: "set (js_set_of xs) = set xs"
  by (simp add: js_set_of_def set_add_missing)

lemma distinct_js_set_of [simp]: "distinct (js_set_of xs)"
  by (simp add: js_set_of_def distinct_add_missing)

lemma perms_of_upd [simp]: "perms_of (m(r \<mapsto> ps)) r' = (if r' = r then ps else perms_of m r')"
  by (simp add: perms_of_def)

text \<open>How one action changes what a role has in the page: only permissions of the shown categories move.\<close>

definition edit_of :: "PermWorld \<Rightarrow> string \<Rightarrow> string list" where
  "edit_of w = perms_of (pp_edited (pw_page w))"

definition kept_of :: "PermWorld \<Rightarrow> string \<Rightarrow> string list" where
  "kept_of w = perms_of (pw_stored w)"

definition page_agrees :: "PermWorld \<Rightarrow> bool" where
  "page_agrees w \<longleftrightarrow> pp_loading (pw_page w) = False \<and> (\<exists>m. pp_fetched (pw_page w) = Some m \<and> pm_roles m = VALID_ROLES \<and>
     pm_permissions m = all_permissions \<and> (\<forall>r \<in> set VALID_ROLES. perms_of (pm_matrix m) r = kept_of w r))"

text \<open>
  A property of the permissions of each role that the actions keep: what is put in a list comes from a category, what
  is dropped too. \<open>ok r ps\<close> is the property.
\<close>

locale permission_law =
  fixes ok :: "string \<Rightarrow> string list \<Rightarrow> bool"
  assumes toggled_on: "ok r ps \<Longrightarrow> c \<in> set (getCategories all_permissions) \<Longrightarrow> p \<in> set (pc_permissions c) \<Longrightarrow> p \<notin> set ps \<Longrightarrow>
      ok r (ps @ [p])"
    and toggled_off: "ok r ps \<Longrightarrow> c \<in> set (getCategories all_permissions) \<Longrightarrow> p \<in> set (pc_permissions c) \<Longrightarrow>
      ok r (filter (\<lambda>q. q \<noteq> p) ps)"
    and all_on: "ok r ps \<Longrightarrow> c \<in> set (getCategories all_permissions) \<Longrightarrow> ok r (add_missing (js_set_of ps) (pc_permissions c))"
    and all_off: "ok r ps \<Longrightarrow> c \<in> set (getCategories all_permissions) \<Longrightarrow>
      ok r (filter (\<lambda>q. q \<notin> set (pc_permissions c)) (js_set_of ps))"
begin

lemma step_keeps:
  assumes agrees: "page_agrees w" and grid: "permissions_view (pw_page w) = Grid_view rs"
    and shown: "act_role a \<in> set rs" and possible: "can_act (pw_page w) a"
    and ok: "\<forall>r \<in> set VALID_ROLES. ok r (edit_of w r) \<and> ok r (kept_of w r)"
  shows "page_agrees (perm_step a w) \<and>
    (\<forall>r \<in> set VALID_ROLES. ok r (edit_of (perm_step a w) r) \<and> ok r (kept_of (perm_step a w) r))"
proof -
  obtain m where m: "pp_fetched (pw_page w) = Some m" "pm_roles m = VALID_ROLES" "pm_permissions m = all_permissions"
    "\<forall>r \<in> set VALID_ROLES. perms_of (pm_matrix m) r = kept_of w r" and idle: "pp_loading (pw_page w) = False"
    using agrees by (auto simp: page_agrees_def)
  have role: "act_role a \<in> set VALID_ROLES" "act_role a \<noteq> ''super_admin''"
    using grid shown m idle by (auto simp: permissions_view_def split: if_splits option.splits)
  note defs = edit_of_def kept_of_def page_agrees_def m idle Let_def
  show ?thesis
  proof (cases a)
    case (Toggle_perm r p)
    then show ?thesis using ok role possible m(4)
      by (auto simp: defs togglePermission_def shown_categories_def toggled_on toggled_off)
  next
    case (Toggle_category r c g)
    then show ?thesis using ok role possible m(4)
      by (auto simp: defs toggleAllInCategory_def shown_categories_def all_on all_off)
  next
    case (Reset_role r)
    then show ?thesis using ok role m(4) by (auto simp: defs resetRole_def)
  next
    case (Save_role r)
    then show ?thesis using ok role m(4)
      by (auto simp: defs saveRole_def roleSaved_def roleRefused_def update_role_permissions_def split: prod.splits)
  next
    case (Expand_role r)
    then show ?thesis using ok m(4) by (auto simp: defs toggleExpanded_def)
  qed
qed

lemma reach_keeps:
  assumes "perm_reach stored w" and "\<forall>r \<in> set VALID_ROLES. ok r (perms_of stored r)"
  shows "page_agrees w \<and> (\<forall>r \<in> set VALID_ROLES. ok r (edit_of w r) \<and> ok r (kept_of w r))"
  using assms
proof induction
  case opened
  then show ?case
    by (auto simp: page_agrees_def edit_of_def kept_of_def matrixFetched_def get_permission_matrix_def perms_of_def)
next
  case (acted w rs a)
  then show ?case using step_keeps by blast
qed

end

text \<open>Three laws: the permissions are ones the backend knows, no list has doubles, a permission without category stays.\<close>

definition known_perms :: "string \<Rightarrow> string list \<Rightarrow> bool" where
  "known_perms r ps \<longleftrightarrow> r = ''super_admin'' \<or> set ps \<subseteq> set all_permissions \<union> {ALL_PERMISSIONS}"

interpretation known: permission_law known_perms
  by unfold_locales (auto simp: known_perms_def set_add_missing dest: category_perms)

interpretation single: permission_law "\<lambda>r ps. distinct ps"
  by unfold_locales (auto simp: distinct_add_missing)

interpretation analytics: permission_law "\<lambda>r ps. js_startsWith p ''analytics:'' \<longrightarrow> (p \<in> set ps \<longleftrightarrow> p \<in> set (perms_of stored r))"
  for p stored
  by unfold_locales (auto simp: set_add_missing dest: no_analytics_category)

text \<open>
  Every save of the page is accepted, and after any number of actions the page's copy of the matrix is what the backend
  stores, provided the roles start with permissions the backend knows.
\<close>

theorem saved_roles_accepted:
  assumes "perm_reach stored w" and "\<forall>r \<in> set VALID_ROLES. r \<noteq> ''super_admin'' \<longrightarrow> set (perms_of stored r) \<subseteq> set all_permissions \<union> {ALL_PERMISSIONS}"
  shows "set (pw_statuses w) \<subseteq> {200} \<and> (\<exists>m. pp_fetched (pw_page w) = Some m \<and>
    (\<forall>r \<in> set VALID_ROLES. perms_of (pm_matrix m) r = perms_of (pw_stored w) r))"
proof -
  have start: "\<forall>r \<in> set VALID_ROLES. known_perms r (perms_of stored r)" using assms(2) by (auto simp: known_perms_def)
  have "set (pw_statuses w) \<subseteq> {200}" using assms(1)
  proof induction
    case (acted w rs a)
    have inv: "page_agrees w" "\<forall>r \<in> set VALID_ROLES. known_perms r (edit_of w r)"
      using known.reach_keeps [OF acted(1) start] by auto
    have "act_role a \<in> set VALID_ROLES" "act_role a \<noteq> ''super_admin''"
      using acted(2,3) inv(1) by (auto simp: page_agrees_def permissions_view_def split: if_splits option.splits)
    then show ?case using acted inv
      by (cases a) (auto simp: update_role_permissions_def known_perms_def edit_of_def Let_def filter_empty_conv split: prod.splits if_splits)
  qed simp
  then show ?thesis using known.reach_keeps [OF assms(1) start] by (auto simp: page_agrees_def kept_of_def)
qed

text \<open>A role is marked \<^verbatim>\<open>Modified\<close> exactly when saving it would change which permissions the backend stores for it.\<close>

theorem modified_tells_difference:
  assumes "perm_reach stored w" and "\<forall>r \<in> set VALID_ROLES. distinct (perms_of stored r)" and "r \<in> set VALID_ROLES"
  shows "hasChanges (pw_page w) r \<longleftrightarrow> set (perms_of (pp_edited (pw_page w)) r) \<noteq> set (perms_of (pw_stored w) r)"
proof -
  have inv: "page_agrees w" "distinct (edit_of w r)" "distinct (kept_of w r)"
    using single.reach_keeps [OF assms(1,2)] assms(3) by auto
  have card: "set (edit_of w r) = set (kept_of w r) \<Longrightarrow> length (edit_of w r) = length (kept_of w r)"
    using inv(2,3) by (metis distinct_card)
  show ?thesis using inv(1) assms(3) card
    by (auto simp: hasChanges_def page_agrees_def Let_def list_ex_iff edit_of_def kept_of_def)
qed

text \<open>
  The two permissions for analytics are in no category of the page: whatever is done and saved there, no role gains or
  loses them.
\<close>

theorem analytics_never_granted:
  assumes "perm_reach stored w" and "r \<in> set VALID_ROLES"
  shows "ANALYTICS_READ \<in> set all_permissions \<and>
    (ANALYTICS_READ \<in> set (perms_of (pw_stored w) r) \<longleftrightarrow> ANALYTICS_READ \<in> set (perms_of stored r))"
proof -
  have "js_startsWith ANALYTICS_READ ''analytics:''" by code_simp
  moreover have "ANALYTICS_READ \<in> set all_permissions" by (simp add: all_permissions_def)
  ultimately show ?thesis using analytics.reach_keeps [OF assms(1), of ANALYTICS_READ stored] assms(2)
    by (auto simp: kept_of_def)
qed

text \<open>
  A refused save replaces the grid by the error, where all that is left is to load the matrix again, which drops the
  edits of every role.
\<close>

lemma failed_save_discards_edits:
  assumes "pp_loading s = False"
  shows "permissions_view (roleRefused msg s) = Error_view (case msg of Some e \<Rightarrow> e | None \<Rightarrow> ''Failed to save permissions'')"
    and "pp_edited (matrixFetched m (snd (fetchMatrix (roleRefused msg s)))) = pm_matrix m"
  using assms by (auto simp: permissions_view_def roleRefused_def matrixFetched_def)

end
