(* ===== verification/Server_Preferences.thy ===== *)
theory Server_Preferences
  imports Query_Hooks
begin

text \<open>
  The page of a user's server preferences, \<^verbatim>\<open>routes/settings.servers.tsx\<close>: seven values that are saved on their own
  400 ms after the last change, next to the backend's \<^verbatim>\<open>update_preferences\<close> (\<^verbatim>\<open>backend/app/api/preferences.py\<close>).
\<close>

subsection \<open>The label of the runtime limit\<close>

definition MAX_RUNTIME_MIN :: nat where "MAX_RUNTIME_MIN = 30"

definition MAX_RUNTIME_MAX :: nat where "MAX_RUNTIME_MAX = 4320"

text \<open>The slider moves in steps of half an hour, so hours are whole or end in \<^verbatim>\<open>.5\<close>.\<close>

definition show_hours :: "nat \<Rightarrow> string" where
  "show_hours m = show_nat (m div 60) @ (if m mod 60 = 0 then [] else ''.5'')"

definition formatRuntimeMinutes :: "nat \<Rightarrow> string" where
  "formatRuntimeMinutes m =
    (if m < 60 then show_nat m @ '' minutes''
     else if m = 60 then ''1 hour''
     else if m < 1440 then show_hours m @ '' hours''
     else if m = 1440 then ''1 day''
     else let days = m div 1440; remainder = m mod 1440
       in if remainder = 0 then show_nat days @ '' days''
          else show_nat days @ '' day'' @ (if days > 1 then ''s'' else []) @ '' '' @ show_hours remainder @ '' hours'')"

definition runtime_stops :: "nat list" where
  "runtime_stops = map (\<lambda>k. MAX_RUNTIME_MIN + 30 * k) [0..<144]"

lemma runtime_stops_ends: "hd runtime_stops = MAX_RUNTIME_MIN" "last runtime_stops = MAX_RUNTIME_MAX"
  by (simp_all add: runtime_stops_def hd_map last_map MAX_RUNTIME_MIN_def MAX_RUNTIME_MAX_def)

lemma runtime_labels:
  "formatRuntimeMinutes 30 = ''30 minutes''" "formatRuntimeMinutes 90 = ''1.5 hours''"
  "formatRuntimeMinutes 1500 = ''1 day 1 hours''" "formatRuntimeMinutes 4320 = ''3 days''"
  by (simp_all add: formatRuntimeMinutes_def show_hours_def show_nat.simps digit_char_def char_of_def bit_0)

subsection \<open>The page\<close>

record ServerPrefs =
  sp_idle_enabled :: bool
  sp_idle_timeout :: int
  sp_max_enabled :: bool
  sp_max_runtime :: int
  sp_stop_on_logout :: bool
  sp_default_plan :: string
  sp_default_environment :: string

text \<open>What the user record holds of them: a field is \<open>None\<close> when it is absent or of another type.\<close>

record SavedPrefs =
  sv_idle_enabled :: "bool option"
  sv_idle_timeout :: "int option"
  sv_max_enabled :: "bool option"
  sv_max_runtime :: "int option"
  sv_stop_on_logout :: "bool option"
  sv_default_plan :: "string option"
  sv_default_environment :: "string option"

definition saved_of :: "ServerPrefs \<Rightarrow> SavedPrefs" where
  "saved_of p = \<lparr>sv_idle_enabled = Some (sp_idle_enabled p), sv_idle_timeout = Some (sp_idle_timeout p),
     sv_max_enabled = Some (sp_max_enabled p), sv_max_runtime = Some (sp_max_runtime p),
     sv_stop_on_logout = Some (sp_stop_on_logout p), sv_default_plan = Some (sp_default_plan p),
     sv_default_environment = Some (sp_default_environment p)\<rparr>"

definition or_kept :: "'a option \<Rightarrow> 'a \<Rightarrow> 'a" where
  "or_kept x old = (case x of None \<Rightarrow> old | Some y \<Rightarrow> y)"

definition load_prefs :: "SavedPrefs \<Rightarrow> ServerPrefs \<Rightarrow> ServerPrefs" where
  "load_prefs u p = \<lparr>sp_idle_enabled = or_kept (sv_idle_enabled u) (sp_idle_enabled p),
     sp_idle_timeout = or_kept (sv_idle_timeout u) (sp_idle_timeout p),
     sp_max_enabled = or_kept (sv_max_enabled u) (sp_max_enabled p),
     sp_max_runtime = or_kept (sv_max_runtime u) (sp_max_runtime p),
     sp_stop_on_logout = or_kept (sv_stop_on_logout u) (sp_stop_on_logout p),
     sp_default_plan = or_kept (sv_default_plan u) (sp_default_plan p),
     sp_default_environment = or_kept (sv_default_environment u) (sp_default_environment p)\<rparr>"

datatype PrefChange = Idle_toggle bool | Timeout_change int | Runtime_toggle bool | Runtime_change int
  | Logout_toggle bool | Plan_change string | Environment_change string

text \<open>A handler sets its value and saves all seven, with the changed one in place of the one of the render.\<close>

fun apply_change :: "PrefChange \<Rightarrow> ServerPrefs \<Rightarrow> ServerPrefs" where
  "apply_change (Idle_toggle b) p = p\<lparr>sp_idle_enabled := b\<rparr>"
| "apply_change (Timeout_change n) p = p\<lparr>sp_idle_timeout := n\<rparr>"
| "apply_change (Runtime_toggle b) p = p\<lparr>sp_max_enabled := b\<rparr>"
| "apply_change (Runtime_change n) p = p\<lparr>sp_max_runtime := n\<rparr>"
| "apply_change (Logout_toggle b) p = p\<lparr>sp_stop_on_logout := b\<rparr>"
| "apply_change (Plan_change v) p = p\<lparr>sp_default_plan := v\<rparr>"
| "apply_change (Environment_change v) p = p\<lparr>sp_default_environment := v\<rparr>"

datatype SaveStatus = Idle_status | Saving_status | Saved_status

record PrefPage =
  pr_local :: ServerPrefs
  pr_status :: SaveStatus
  pr_timer :: "ServerPrefs option"
  pr_flight :: "ServerPrefs list"
  pr_status_timers :: nat
  pr_me :: "SavedPrefs option"

definition default_prefs :: ServerPrefs where
  "default_prefs = \<lparr>sp_idle_enabled = True, sp_idle_timeout = 15, sp_max_enabled = True, sp_max_runtime = 1440,
     sp_stop_on_logout = False, sp_default_plan = [], sp_default_environment = []\<rparr>"

definition mountPrefs :: "SavedPrefs option \<Rightarrow> PrefPage" where
  "mountPrefs me = \<lparr>pr_local = (case me of None \<Rightarrow> default_prefs | Some u \<Rightarrow> load_prefs u default_prefs),
     pr_status = Idle_status, pr_timer = None, pr_flight = [], pr_status_timers = 0, pr_me = me\<rparr>"

text \<open>
  The cached user changes when what arrives differs from it; the effect on it then sets the seven values. A save that
  succeeds writes its values into the cached user, when there is one.
\<close>

definition userChanges :: "SavedPrefs \<Rightarrow> PrefPage \<Rightarrow> PrefPage" where
  "userChanges u s = (if pr_me s = Some u then s else s\<lparr>pr_me := Some u, pr_local := load_prefs u (pr_local s)\<rparr>)"

definition triggerSave :: "PrefChange \<Rightarrow> PrefPage \<Rightarrow> PrefPage" where
  "triggerSave c s = s\<lparr>pr_status := Saving_status, pr_timer := Some (apply_change c (pr_local s))\<rparr>"

definition handleChange :: "PrefChange \<Rightarrow> PrefPage \<Rightarrow> PrefPage" where
  "handleChange c s = (triggerSave c s)\<lparr>pr_local := apply_change c (pr_local s)\<rparr>"

definition prefs_body :: "ServerPrefs \<Rightarrow> json" where
  "prefs_body p = JObj [(''idle_shutdown_enabled'', JBool (sp_idle_enabled p)),
     (''idle_shutdown_timeout'', JNum (sp_idle_timeout p) 0), (''max_server_runtime_enabled'', JBool (sp_max_enabled p)),
     (''max_server_runtime'', JNum (sp_max_runtime p) 0), (''stop_on_logout'', JBool (sp_stop_on_logout p)),
     (''default_plan'', JStr (sp_default_plan p)), (''default_environment'', JStr (sp_default_environment p))]"

definition save_request :: "ServerPrefs \<Rightarrow> FetchRequest" where
  "save_request p = api_put ''/preferences/'' (prefs_body p)"

definition timerFires :: "PrefPage \<Rightarrow> PrefPage \<times> ServerPrefs list" where
  "timerFires s = (case pr_timer s of None \<Rightarrow> (s, [])
     | Some p \<Rightarrow> (s\<lparr>pr_timer := None, pr_flight := pr_flight s @ [p]\<rparr>, [p]))"

definition saveSucceeded :: "ServerPrefs \<Rightarrow> PrefPage \<Rightarrow> PrefPage" where
  "saveSucceeded p s =
    (let s1 = s\<lparr>pr_status := Saved_status, pr_flight := remove1 p (pr_flight s), pr_status_timers := Suc (pr_status_timers s)\<rparr>
     in case pr_me s of None \<Rightarrow> s1 | Some u \<Rightarrow> userChanges (saved_of p) s1)"

definition saveFailed :: "ServerPrefs \<Rightarrow> PrefPage \<Rightarrow> PrefPage" where
  "saveFailed p s = s\<lparr>pr_status := Idle_status, pr_flight := remove1 p (pr_flight s)\<rparr>"

definition statusElapsed :: "PrefPage \<Rightarrow> PrefPage" where
  "statusElapsed s = (if pr_status_timers s = 0 then s
     else s\<lparr>pr_status := Idle_status, pr_status_timers := pr_status_timers s - 1\<rparr>)"

datatype PrefEvent = Changed PrefChange | Timer_fires | Save_ok ServerPrefs | Save_failed ServerPrefs
  | User_arrives SavedPrefs | Status_elapsed

fun pref_event :: "PrefEvent \<Rightarrow> PrefPage \<Rightarrow> PrefPage \<times> ServerPrefs list" where
  "pref_event (Changed c) s = (handleChange c s, [])"
| "pref_event Timer_fires s = timerFires s"
| "pref_event (Save_ok p) s = (if p \<in> set (pr_flight s) then saveSucceeded p s else s, [])"
| "pref_event (Save_failed p) s = (if p \<in> set (pr_flight s) then saveFailed p s else s, [])"
| "pref_event (User_arrives u) s = (userChanges u s, [])"
| "pref_event Status_elapsed s = (statusElapsed s, [])"

fun pref_run :: "PrefEvent list \<Rightarrow> PrefPage \<Rightarrow> PrefPage \<times> ServerPrefs list" where
  "pref_run [] s = (s, [])"
| "pref_run (e # es) s = (let (s1, r1) = pref_event e s; (s2, r2) = pref_run es s1 in (s2, r1 @ r2))"

lemma pref_run_append: "pref_run (es @ fs) s =
    (let (s1, r1) = pref_run es s; (s2, r2) = pref_run fs s1 in (s2, r1 @ r2))"
  by (induction es arbitrary: s) (auto simp: Let_def split: prod.splits)

lemma load_saved [simp]: "load_prefs (saved_of p) q = p"
  by (simp add: load_prefs_def saved_of_def or_kept_def)

lemma run_changes: "pref_run (map Changed cs) (handleChange c s) =
    (s\<lparr>pr_local := fold apply_change (c # cs) (pr_local s), pr_status := Saving_status,
       pr_timer := Some (fold apply_change (c # cs) (pr_local s))\<rparr>, [])"
proof (induction cs arbitrary: c s)
  case Nil
  then show ?case by (simp add: handleChange_def triggerSave_def)
next
  case (Cons d cs)
  show ?case by (simp add: Cons) (simp add: handleChange_def triggerSave_def)
qed

text \<open>
  Changes that come one after the other are sent once, all of them, and when the answer comes before anything else the
  page shows them, says so, and the cached user has them.
\<close>

theorem changes_saved_together:
  assumes "pr_me s = Some u" and "chosen = fold apply_change (c # cs) (pr_local s)"
    and "pref_run (map Changed (c # cs) @ [Timer_fires, Save_ok chosen]) s = (s', payloads)"
  shows "payloads = [chosen] \<and> pr_local s' = chosen \<and> pr_me s' = Some (saved_of chosen) \<and>
    pr_status s' = Saved_status \<and> pr_timer s' = None"
proof -
  have "pref_run (map Changed cs @ [Timer_fires, Save_ok chosen]) (handleChange c s) = (s', payloads)"
    using assms(3) by (simp split: prod.splits)
  then show ?thesis using assms(1)
    by (auto simp: pref_run_append run_changes assms(2) timerFires_def saveSucceeded_def userChanges_def Let_def)
qed

theorem changes_saved_together_witness:
  "snd (pref_run [Changed (Timeout_change 60), Changed (Logout_toggle True), Timer_fires,
      Save_ok (default_prefs\<lparr>sp_idle_timeout := 60, sp_stop_on_logout := True\<rparr>)] (mountPrefs (Some (saved_of default_prefs)))) =
    [default_prefs\<lparr>sp_idle_timeout := 60, sp_stop_on_logout := True\<rparr>]"
  using changes_saved_together [of "mountPrefs (Some (saved_of default_prefs))" "saved_of default_prefs"
      "default_prefs\<lparr>sp_idle_timeout := 60, sp_stop_on_logout := True\<rparr>" "Timeout_change 60" "[Logout_toggle True]",
      OF _ _ surjective_pairing]
  by (simp add: mountPrefs_def del: pref_run.simps)

text \<open>
  An answer that comes while a later change waits for its timer undoes that change in the page; when another value is
  then changed in time, the request that is sent is without it, and the page and the server agree on the lost value.
\<close>

theorem answer_undoes_change:
  assumes "pr_me s = Some u" and "u \<noteq> saved_of p" and "p \<in> set (pr_flight s)"
    and "pref_run [Changed a, Save_ok p, Changed b, Timer_fires] s = (s', payloads)"
  shows "payloads = [apply_change b p] \<and> pr_local s' = apply_change b p"
  using assms by (auto simp: handleChange_def triggerSave_def saveSucceeded_def userChanges_def timerFires_def Let_def)

theorem answer_undoes_change_witness:
  "snd (pref_run [Changed (Timeout_change 60), Timer_fires, Changed (Logout_toggle True),
       Save_ok (default_prefs\<lparr>sp_idle_timeout := 60\<rparr>), Changed (Idle_toggle False), Timer_fires]
     (mountPrefs (Some (saved_of default_prefs)))) =
    [default_prefs\<lparr>sp_idle_timeout := 60\<rparr>, default_prefs\<lparr>sp_idle_timeout := 60, sp_idle_enabled := False\<rparr>]"
proof -
  let ?p = "default_prefs\<lparr>sp_idle_timeout := 60\<rparr>"
  let ?start = "mountPrefs (Some (saved_of default_prefs))"
  obtain s where s: "pref_run [Changed (Timeout_change 60), Timer_fires] ?start = (s, [?p])"
      and me: "pr_me s = Some (saved_of default_prefs)" "?p \<in> set (pr_flight s)"
    by (simp add: mountPrefs_def handleChange_def triggerSave_def timerFires_def)
  have "saved_of default_prefs \<noteq> saved_of ?p" by (simp add: saved_of_def default_prefs_def)
  from answer_undoes_change [OF me(1) this me(2) surjective_pairing, of "Logout_toggle True" "Idle_toggle False"]
  have "snd (pref_run [Changed (Logout_toggle True), Save_ok ?p, Changed (Idle_toggle False), Timer_fires] s) =
      [?p\<lparr>sp_idle_enabled := False\<rparr>]" by (simp del: pref_run.simps)
  then show ?thesis
    using pref_run_append [of "[Changed (Timeout_change 60), Timer_fires]"
        "[Changed (Logout_toggle True), Save_ok ?p, Changed (Idle_toggle False), Timer_fires]" ?start] s
    by (simp del: pref_run.simps split: prod.splits)
qed

text \<open>A failed save is never sent again: the page goes on showing what the server does not have.\<close>

lemma failed_save_keeps_showing:
  "pr_local (saveFailed p s) = pr_local s" "pr_me (saveFailed p s) = pr_me s" "pr_timer (saveFailed p s) = pr_timer s"
  by (simp_all add: saveFailed_def)

text \<open>The backend stores the values of a request, the two numbers within their bounds.\<close>

definition update_preferences :: "SavedPrefs \<Rightarrow> ServerPrefs \<Rightarrow> SavedPrefs" where
  "update_preferences current p = current\<lparr>sv_idle_enabled := Some (sp_idle_enabled p),
     sv_idle_timeout := Some (max 5 (min (sp_idle_timeout p) 240)), sv_max_enabled := Some (sp_max_enabled p),
     sv_max_runtime := Some (max 30 (min (sp_max_runtime p) 4320)), sv_stop_on_logout := Some (sp_stop_on_logout p),
     sv_default_plan := Some (sp_default_plan p), sv_default_environment := Some (sp_default_environment p)\<rparr>"

definition TIMEOUT_OPTIONS :: "(int \<times> string) list" where
  "TIMEOUT_OPTIONS = [(15, ''15 minutes''), (30, ''30 minutes''), (60, ''1 hour''), (120, ''2 hours'')]"

definition in_bounds :: "ServerPrefs \<Rightarrow> bool" where
  "in_bounds p \<longleftrightarrow> 5 \<le> sp_idle_timeout p \<and> sp_idle_timeout p \<le> 240 \<and> 30 \<le> sp_max_runtime p \<and> sp_max_runtime p \<le> 4320"

definition stored_in_bounds :: "SavedPrefs \<Rightarrow> bool" where
  "stored_in_bounds u \<longleftrightarrow> (case sv_idle_timeout u of None \<Rightarrow> True | Some n \<Rightarrow> 5 \<le> n \<and> n \<le> 240) \<and>
     (case sv_max_runtime u of None \<Rightarrow> True | Some n \<Rightarrow> 30 \<le> n \<and> n \<le> 4320)"

text \<open>What can happen to the page: the offered values are chosen, and users arrive with values within the bounds.\<close>

fun possible_event :: "PrefEvent \<Rightarrow> bool" where
  "possible_event (Changed (Timeout_change n)) \<longleftrightarrow> n \<in> fst ` set TIMEOUT_OPTIONS"
| "possible_event (Changed (Runtime_change n)) \<longleftrightarrow> n \<in> int ` set runtime_stops"
| "possible_event (User_arrives u) \<longleftrightarrow> stored_in_bounds u"
| "possible_event _ \<longleftrightarrow> True"

definition page_in_bounds :: "PrefPage \<Rightarrow> bool" where
  "page_in_bounds s \<longleftrightarrow> in_bounds (pr_local s) \<and> (\<forall>p. pr_timer s = Some p \<longrightarrow> in_bounds p) \<and> (\<forall>p \<in> set (pr_flight s). in_bounds p)"

lemma stops_in_bounds: "m \<in> set runtime_stops \<Longrightarrow> 30 \<le> m \<and> m \<le> 4320"
  by (auto simp: runtime_stops_def MAX_RUNTIME_MIN_def)

lemma change_in_bounds: "possible_event (Changed c) \<Longrightarrow> in_bounds p \<Longrightarrow> in_bounds (apply_change c p)"
  by (cases c) (auto simp: in_bounds_def TIMEOUT_OPTIONS_def dest: stops_in_bounds)

lemma load_in_bounds: "stored_in_bounds u \<Longrightarrow> in_bounds p \<Longrightarrow> in_bounds (load_prefs u p)"
  by (auto simp: stored_in_bounds_def in_bounds_def load_prefs_def or_kept_def split: option.splits)

lemma saved_in_bounds: "in_bounds p \<Longrightarrow> stored_in_bounds (saved_of p)"
  by (simp add: in_bounds_def stored_in_bounds_def saved_of_def)

lemma mount_in_bounds: "(case me of None \<Rightarrow> True | Some u \<Rightarrow> stored_in_bounds u) \<Longrightarrow> page_in_bounds (mountPrefs me)"
proof -
  have "in_bounds default_prefs" by (simp add: in_bounds_def default_prefs_def)
  then show "(case me of None \<Rightarrow> True | Some u \<Rightarrow> stored_in_bounds u) \<Longrightarrow> page_in_bounds (mountPrefs me)"
    by (auto simp: page_in_bounds_def mountPrefs_def load_in_bounds split: option.splits)
qed

lemma user_in_bounds: "stored_in_bounds u \<Longrightarrow> page_in_bounds s \<Longrightarrow> page_in_bounds (userChanges u s)"
  by (auto simp: userChanges_def page_in_bounds_def load_in_bounds)

lemma event_in_bounds:
  assumes "possible_event e" and "page_in_bounds s"
  shows "page_in_bounds (fst (pref_event e s)) \<and> (\<forall>p \<in> set (snd (pref_event e s)). in_bounds p)"
proof (cases e)
  case (Changed c)
  then show ?thesis using assms change_in_bounds by (auto simp: handleChange_def triggerSave_def page_in_bounds_def)
next
  case Timer_fires
  then show ?thesis using assms by (auto simp: timerFires_def page_in_bounds_def split: option.splits)
next
  case (Save_ok p)
  have "page_in_bounds (s\<lparr>pr_status := st, pr_flight := remove1 p (pr_flight s), pr_status_timers := k\<rparr>)" for st k
    using assms(2) by (auto simp: page_in_bounds_def dest: notin_set_remove1)
  moreover have "p \<in> set (pr_flight s) \<Longrightarrow> stored_in_bounds (saved_of p)"
    using assms(2) by (auto simp: page_in_bounds_def saved_in_bounds)
  ultimately show ?thesis using assms(2) Save_ok
    by (auto simp: saveSucceeded_def Let_def user_in_bounds split: option.splits)
next
  case (Save_failed p)
  then show ?thesis using assms by (auto simp: saveFailed_def page_in_bounds_def dest: notin_set_remove1)
next
  case (User_arrives u)
  then show ?thesis using assms by (simp add: user_in_bounds)
next
  case Status_elapsed
  then show ?thesis using assms by (simp add: statusElapsed_def page_in_bounds_def)
qed

lemma run_in_bounds:
  "\<forall>e \<in> set es. possible_event e \<Longrightarrow> page_in_bounds s \<Longrightarrow> p \<in> set (snd (pref_run es s)) \<Longrightarrow> in_bounds p"
proof (induction es arbitrary: s)
  case (Cons e es)
  then show ?case using event_in_bounds [of e s] by (fastforce simp: Let_def split: prod.splits)
qed simp

text \<open>Whatever is chosen, and however answers and users arrive between, the backend stores each request as it is.\<close>

theorem preferences_stored_as_sent:
  assumes "\<forall>e \<in> set es. possible_event e" and "case me of None \<Rightarrow> True | Some u \<Rightarrow> stored_in_bounds u"
    and "p \<in> set (snd (pref_run es (mountPrefs me)))"
  shows "update_preferences current p = saved_of p"
  using run_in_bounds [OF assms(1) mount_in_bounds [OF assms(2)] assms(3)]
  by (simp add: update_preferences_def saved_of_def in_bounds_def)

theorem preferences_stored_as_sent_witness:
  "update_preferences (saved_of default_prefs) (default_prefs\<lparr>sp_max_runtime := 4320\<rparr>) =
    saved_of (default_prefs\<lparr>sp_max_runtime := 4320\<rparr>)"
proof (rule preferences_stored_as_sent [of "[Changed (Runtime_change 4320), Timer_fires]" None])
  have "4320 \<in> set runtime_stops"
    by (auto simp: runtime_stops_def MAX_RUNTIME_MIN_def intro!: image_eqI [of _ _ 143])
  then have "(4320 :: int) \<in> int ` set runtime_stops" by (auto intro!: image_eqI [of _ _ 4320])
  then show "\<forall>e \<in> set [Changed (Runtime_change 4320), Timer_fires]. possible_event e" by simp
qed (simp_all add: mountPrefs_def handleChange_def triggerSave_def timerFires_def)

text \<open>A change before the user is known sends the page's own defaults for all the others.\<close>

lemma early_change_sends_defaults:
  "snd (pref_run [Changed c, Timer_fires] (mountPrefs None)) = [apply_change c default_prefs]"
  by (simp add: mountPrefs_def handleChange_def triggerSave_def timerFires_def)

end
