(* ===== verification/Profile_Page.thy ===== *)
theory Profile_Page
  imports Format_Utils Query_Hooks
begin

text \<open>
  A user's profile (\<^verbatim>\<open>components/settings/profile-page.tsx\<close>) with its edit dialog, the two switches and the quota
  tiles, and the dialog of the picture (\<^verbatim>\<open>components/settings/avatar-edit-dialog.tsx\<close>).
\<close>

subsection \<open>The user the page shows\<close>

record ProfileUser =
  pu_username :: string
  pu_first_name :: "string option"
  pu_last_name :: "string option"
  pu_display_name :: "string option"
  pu_email :: "string option"
  pu_avatar_url :: "string option"
  pu_oauth_provider :: "string option"
  pu_profile :: "(string \<times> json) list"
  pu_preferences :: "(string \<times> json) list"
  pu_visibility :: "string option"

definition given :: "string option \<Rightarrow> bool" where
  "given x \<longleftrightarrow> (case x of None \<Rightarrow> False | Some v \<Rightarrow> v \<noteq> [])"

definition text_of :: "string option \<Rightarrow> string" where
  "text_of x = (case x of None \<Rightarrow> [] | Some v \<Rightarrow> v)"

definition displayName :: "ProfileUser \<Rightarrow> string" where
  "displayName u =
    (if given (pu_first_name u) \<and> given (pu_last_name u) then text_of (pu_first_name u) @ '' '' @ text_of (pu_last_name u)
     else if given (pu_display_name u) then text_of (pu_display_name u) else pu_username u)"

definition initials :: "ProfileUser \<Rightarrow> string" where
  "initials u = js_toUpperCase (take 1 (displayName u))"

definition useGravatar :: "ProfileUser \<Rightarrow> bool" where
  "useGravatar u \<longleftrightarrow> map_of (pu_preferences u) ''use_gravatar'' = Some (JBool True)"

text \<open>\<^verbatim>\<open>{ ...obj, key: value }\<close>: a key that is there keeps its place.\<close>

fun obj_set :: "string \<Rightarrow> json \<Rightarrow> (string \<times> json) list \<Rightarrow> (string \<times> json) list" where
  "obj_set k v [] = [(k, v)]"
| "obj_set k v ((k', w) # kvs) = (if k' = k then (k, v) # kvs else (k', w) # obj_set k v kvs)"

lemma map_of_obj_set [simp]: "map_of (obj_set k v kvs) = (map_of kvs)(k \<mapsto> v)"
  by (induction kvs) (auto simp: fun_eq_iff)

subsection \<open>The edit dialog\<close>

record EditForm =
  ef_first_name :: string
  ef_last_name :: string
  ef_email :: string
  ef_about :: json
  ef_organization :: json
  ef_department :: json
  ef_occupation :: json

definition profile_text :: "ProfileUser \<Rightarrow> string \<Rightarrow> json" where
  "profile_text u k = (case map_of (pu_profile u) k of None \<Rightarrow> JStr [] | Some v \<Rightarrow> if js_truthy v then v else JStr [])"

text \<open>The form is filled when the dialog is mounted, which is when the page is.\<close>

definition mountEditForm :: "ProfileUser \<Rightarrow> EditForm" where
  "mountEditForm u = \<lparr>ef_first_name = text_of (pu_first_name u), ef_last_name = text_of (pu_last_name u),
     ef_email = text_of (pu_email u), ef_about = profile_text u ''about'', ef_organization = profile_text u ''organization'',
     ef_department = profile_text u ''department'', ef_occupation = profile_text u ''occupation''\<rparr>"

definition isOAuthManaged :: "ProfileUser \<Rightarrow> string option \<Rightarrow> bool" where
  "isOAuthManaged u url \<longleftrightarrow> given (pu_oauth_provider u) \<and> given url"

definition edited_profile :: "EditForm \<Rightarrow> ProfileUser \<Rightarrow> (string \<times> json) list" where
  "edited_profile f u = obj_set ''occupation'' (ef_occupation f) (obj_set ''department'' (ef_department f)
     (obj_set ''organization'' (ef_organization f) (obj_set ''about'' (ef_about f) (pu_profile u))))"

definition profile_payload :: "EditForm \<Rightarrow> ProfileUser \<Rightarrow> string option \<Rightarrow> (string \<times> json) list" where
  "profile_payload f u url = [(''profile'', JObj (edited_profile f u))] @
     (if isOAuthManaged u url then []
      else [(''first_name'', JStr (ef_first_name f)), (''last_name'', JStr (ef_last_name f)), (''email'', JStr (ef_email f))])"

definition saveProfile :: "EditForm \<Rightarrow> ProfileUser \<Rightarrow> string option \<Rightarrow> FetchRequest" where
  "saveProfile f u url = api_put ''/users/me/profile'' (JObj (profile_payload f u url))"

text \<open>The page: the user of the store, the form of the dialog, and the switches.\<close>

datatype ProfileToast = Said string | Failed string

record ProfileState =
  pg_user :: ProfileUser
  pg_form :: EditForm
  pg_edit_open :: bool
  pg_saving :: bool
  pg_toggling_visibility :: bool
  pg_oauth_url :: "string option"
  pg_said :: "ProfileToast list"

definition mountProfile :: "ProfileUser \<Rightarrow> ProfileState" where
  "mountProfile u = \<lparr>pg_user = u, pg_form = mountEditForm u, pg_edit_open = False, pg_saving = False,
     pg_toggling_visibility = False, pg_oauth_url = None, pg_said = []\<rparr>"

definition say :: "ProfileToast list \<Rightarrow> ProfileState \<Rightarrow> ProfileState" where
  "say ts s = s\<lparr>pg_said := pg_said s @ ts\<rparr>"

definition editButton :: "ProfileState \<Rightarrow> bool" where
  "editButton s \<longleftrightarrow> \<not> (given (pu_oauth_provider (pg_user s)) \<and> given (pg_oauth_url s))"

definition openEdit :: "ProfileState \<Rightarrow> ProfileState" where
  "openEdit s = (if editButton s then s\<lparr>pg_edit_open := True\<rparr> else s)"

definition closeEdit :: "ProfileState \<Rightarrow> ProfileState" where
  "closeEdit s = s\<lparr>pg_edit_open := False\<rparr>"

definition editField :: "(EditForm \<Rightarrow> EditForm) \<Rightarrow> ProfileState \<Rightarrow> ProfileState" where
  "editField change s = s\<lparr>pg_form := change (pg_form s)\<rparr>"

definition submitEdit :: "ProfileState \<Rightarrow> FetchRequest option \<times> ProfileState" where
  "submitEdit s = (if \<not> pg_edit_open s \<or> pg_saving s then (None, s)
     else (Some (saveProfile (pg_form s) (pg_user s) (pg_oauth_url s)), s\<lparr>pg_saving := True\<rparr>))"

text \<open>The answer is a whole user, which replaces every field of the one the page had.\<close>

definition profileSaved :: "ProfileUser \<Rightarrow> ProfileState \<Rightarrow> ProfileState" where
  "profileSaved u s = (say [Said ''Profile updated''] s)\<lparr>pg_user := u, pg_edit_open := False, pg_saving := False\<rparr>"

definition editFailed :: "ProfileState \<Rightarrow> ProfileState" where
  "editFailed s = (say [Failed ''Update failed''] s)\<lparr>pg_saving := False\<rparr>"

definition userRefreshed :: "ProfileUser \<Rightarrow> ProfileState \<Rightarrow> ProfileState" where
  "userRefreshed u s = s\<lparr>pg_user := u\<rparr>"

definition methodsFetched :: "string option \<Rightarrow> ProfileState \<Rightarrow> ProfileState" where
  "methodsFetched url s = s\<lparr>pg_oauth_url := url\<rparr>"

text \<open>The backend's update of the profile, for the fields the page sends.\<close>

definition str_field :: "string \<Rightarrow> (string \<times> json) list \<Rightarrow> string option \<Rightarrow> string option" where
  "str_field k body old = (case map_of body k of Some (JStr v) \<Rightarrow> Some v | _ \<Rightarrow> old)"

definition update_my_profile :: "(string \<times> json) list \<Rightarrow> ProfileUser \<Rightarrow> ProfileUser" where
  "update_my_profile body u = u\<lparr>
     pu_first_name := str_field ''first_name'' body (pu_first_name u),
     pu_last_name := str_field ''last_name'' body (pu_last_name u),
     pu_email := str_field ''email'' body (pu_email u),
     pu_avatar_url := str_field ''avatar_url'' body (pu_avatar_url u),
     pu_profile := (case map_of body ''profile'' of Some (JObj p) \<Rightarrow> p | _ \<Rightarrow> pu_profile u),
     pu_visibility := str_field ''profile_visibility'' body (pu_visibility u)\<rparr>"

text \<open>
  A dialog that is opened and saved as it is changes nothing of the user it was filled from, up to a missing text that
  becomes an empty one.
\<close>

definition same_text :: "json option \<Rightarrow> json option \<Rightarrow> bool" where
  "same_text a b \<longleftrightarrow> (case a of None \<Rightarrow> JStr [] | Some v \<Rightarrow> if js_truthy v then v else JStr []) =
     (case b of None \<Rightarrow> JStr [] | Some v \<Rightarrow> if js_truthy v then v else JStr [])"

definition same_shown :: "ProfileUser \<Rightarrow> ProfileUser \<Rightarrow> bool" where
  "same_shown u v \<longleftrightarrow> text_of (pu_first_name u) = text_of (pu_first_name v) \<and>
     text_of (pu_last_name u) = text_of (pu_last_name v) \<and> text_of (pu_email u) = text_of (pu_email v) \<and>
     pu_avatar_url u = pu_avatar_url v \<and> pu_visibility u = pu_visibility v \<and> pu_preferences u = pu_preferences v \<and>
     (\<forall>k. same_text (map_of (pu_profile u) k) (map_of (pu_profile v) k))"

lemma profile_text_same: "same_text (Some (profile_text u k)) (map_of (pu_profile u) k)"
  by (auto simp: same_text_def profile_text_def split: option.splits)

lemma same_text_refl [simp]: "same_text a a"
  by (simp add: same_text_def)

theorem unedited_profile_kept:
  "same_shown (update_my_profile (profile_payload (mountEditForm u) u url) u) u"
proof -
  let ?body = "profile_payload (mountEditForm u) u url"
  have profile: "map_of ?body ''profile'' = Some (JObj (edited_profile (mountEditForm u) u))"
    by (simp add: profile_payload_def)
  have "same_text (map_of (edited_profile (mountEditForm u) u) k) (map_of (pu_profile u) k)" for k
    by (simp add: edited_profile_def mountEditForm_def profile_text_same)
  then show ?thesis using profile
    by (auto simp: same_shown_def update_my_profile_def str_field_def profile_payload_def mountEditForm_def text_of_def
      split: option.splits)
qed


text \<open>
  The form is not filled again when the store's user changes: after an update from elsewhere (the page begins with the
  user the browser remembered, and fetches) the dialog opens with the old values, and saving it puts them back.
\<close>

theorem stale_form_reverts_profile:
  shows "fst (submitEdit (openEdit (userRefreshed u1 (mountProfile u0)))) = Some (saveProfile (mountEditForm u0) u1 None)"
    and "text_of (pu_email (update_my_profile (profile_payload (mountEditForm u0) u1 None) u1)) = text_of (pu_email u0)"
    and "same_text (map_of (pu_profile (update_my_profile (profile_payload (mountEditForm u0) u1 None) u1)) ''about'') (map_of (pu_profile u0) ''about'')"
proof -
  show "fst (submitEdit (openEdit (userRefreshed u1 (mountProfile u0)))) = Some (saveProfile (mountEditForm u0) u1 None)"
    by (simp add: submitEdit_def openEdit_def editButton_def userRefreshed_def mountProfile_def given_def)
  have managed: "\<not> isOAuthManaged u1 None" by (simp add: isOAuthManaged_def given_def)
  then show "text_of (pu_email (update_my_profile (profile_payload (mountEditForm u0) u1 None) u1)) = text_of (pu_email u0)"
    by (simp add: update_my_profile_def str_field_def profile_payload_def mountEditForm_def text_of_def)
  show "same_text (map_of (pu_profile (update_my_profile (profile_payload (mountEditForm u0) u1 None) u1)) ''about'') (map_of (pu_profile u0) ''about'')"
    using managed profile_text_same [of u0 "''about''"]
    by (simp add: update_my_profile_def profile_payload_def edited_profile_def mountEditForm_def)
qed

text \<open>Closing the dialog keeps what was typed, and the next opening shows and sends it.\<close>

lemma cancelled_edit_kept:
  "editButton s \<Longrightarrow> \<not> pg_saving s \<Longrightarrow>
   fst (submitEdit (openEdit (closeEdit (editField f s)))) = Some (saveProfile (f (pg_form s)) (pg_user s) (pg_oauth_url s))"
  by (simp add: submitEdit_def openEdit_def closeEdit_def editField_def editButton_def)

text \<open>The dialog's notice that the provider manages the name is not there when the dialog is opened: no button opens it then.\<close>

lemma opened_unmanaged:
  "\<not> pg_edit_open s \<Longrightarrow> pg_edit_open (openEdit s) \<Longrightarrow> \<not> isOAuthManaged (pg_user s) (pg_oauth_url s)"
  by (auto simp: openEdit_def editButton_def isOAuthManaged_def split: if_splits)

subsection \<open>The switches\<close>

definition gravatar_body :: "ProfileUser \<Rightarrow> (string \<times> json) list" where
  "gravatar_body u = obj_set ''use_gravatar'' (JBool (\<not> useGravatar u)) (pu_preferences u)"

definition toggleGravatar :: "ProfileUser \<Rightarrow> FetchRequest" where
  "toggleGravatar u = api_put ''/preferences/'' (JObj (gravatar_body u))"

datatype GravatarAnswer = Gravatar_saved ProfileUser | Gravatar_refused

text \<open>\<open>was\<close> is what the switch showed when it was pressed. The handler catches the failure itself.\<close>

definition gravatarAnswered :: "bool \<Rightarrow> GravatarAnswer \<Rightarrow> ProfileState \<Rightarrow> ProfileState" where
  "gravatarAnswered was a s = (case a of
     Gravatar_saved fresh \<Rightarrow> say [Said (if \<not> was then ''Gravatar enabled'' else ''Custom avatar enabled'')] (s\<lparr>pg_user := fresh\<rparr>)
   | Gravatar_refused \<Rightarrow> say [Failed ''Update failed''] s)"

definition toggleVisibility :: "ProfileUser \<Rightarrow> (string \<times> json) list" where
  "toggleVisibility u = [(''profile_visibility'', JStr (if pu_visibility u = Some ''public'' then ''private'' else ''public''))]"

definition startVisibility :: "ProfileState \<Rightarrow> FetchRequest option \<times> ProfileState" where
  "startVisibility s = (if pg_toggling_visibility s then (None, s)
     else (Some (api_put ''/users/me/profile'' (JObj (toggleVisibility (pg_user s)))), s\<lparr>pg_toggling_visibility := True\<rparr>))"

definition visibilityAnswered :: "ProfileUser option \<Rightarrow> bool \<Rightarrow> ProfileState \<Rightarrow> ProfileState" where
  "visibilityAnswered a public s = (case a of
     Some u \<Rightarrow> (say [Said (if public then ''Profile is now public'' else ''Profile is now private'')] s)
       \<lparr>pg_user := u, pg_toggling_visibility := False\<rparr>
   | None \<Rightarrow> (say [Failed ''Update failed''] s)\<lparr>pg_toggling_visibility := False\<rparr>)"

lemma visibility_back_and_forth:
  assumes "pu_visibility u = Some ''public'' \<or> pu_visibility u = Some ''private''"
  shows "(let v = update_my_profile (toggleVisibility u) u in update_my_profile (toggleVisibility v) v) = u"
  using assms by (auto simp: update_my_profile_def toggleVisibility_def str_field_def Let_def)

text \<open>
  The backend's update of the preferences: the fields it knows, the two limits within their bounds, into those it has.
\<close>

definition preference_keys :: "string list" where
  "preference_keys = [''theme'', ''accent_color'', ''oled_mode'', ''language'', ''timezone'', ''default_environment'',
     ''default_plan'', ''use_gravatar'', ''sidebar_collapsed'', ''sidebar_pinned'', ''density'', ''pinned_workspace_ids'',
     ''notifications'', ''dashboard'', ''idle_shutdown_enabled'', ''idle_shutdown_timeout'', ''max_server_runtime_enabled'',
     ''max_server_runtime'', ''stop_on_logout'']"

definition clamp_json :: "int \<Rightarrow> int \<Rightarrow> json \<Rightarrow> json" where
  "clamp_json lo hi v = (case v of JNum n 0 \<Rightarrow> JNum (max lo (min n hi)) 0 | _ \<Rightarrow> v)"

definition stored_preference :: "string \<Rightarrow> json \<Rightarrow> json" where
  "stored_preference k v = (if k = ''idle_shutdown_timeout'' then clamp_json 5 240 v
     else if k = ''max_server_runtime'' then clamp_json 30 4320 v else v)"

definition put_preference :: "(string \<times> json) list \<Rightarrow> string \<Rightarrow> (string \<times> json) list \<Rightarrow> (string \<times> json) list" where
  "put_preference body k acc = (case map_of body k of None \<Rightarrow> acc | Some JNull \<Rightarrow> acc
     | Some v \<Rightarrow> obj_set k (stored_preference k v) acc)"

definition merge_preferences :: "(string \<times> json) list \<Rightarrow> (string \<times> json) list \<Rightarrow> (string \<times> json) list" where
  "merge_preferences body current = fold (put_preference body) preference_keys current"

lemma put_preference_other: "k' \<noteq> k \<Longrightarrow> map_of (put_preference body k' acc) k = map_of acc k"
  by (simp add: put_preference_def split: option.splits json.splits)

lemma fold_preferences: "k \<in> set ks \<Longrightarrow> map_of body k = Some v \<Longrightarrow> v \<noteq> JNull \<Longrightarrow>
    map_of (fold (put_preference body) ks acc) k = Some (stored_preference k v)"
proof (induction ks arbitrary: acc rule: rev_induct)
  case (snoc k' ks)
  show ?case
  proof (cases "k' = k")
    case True
    then show ?thesis using snoc.prems by (simp add: put_preference_def split: json.splits)
  next
    case False
    then show ?thesis using snoc by (simp add: put_preference_other)
  qed
qed simp

text \<open>
  The switch sends every preference of the store's user. What another page or device has saved since the store was
  filled is put back: of a key the store has, the backend keeps the store's value, whatever \<open>current\<close> was. The page of
  the server preferences writes its own cache after a save and leaves the store as it was.
\<close>

theorem gravatar_switch_reverts_preferences:
  assumes "k \<in> set preference_keys" and "k \<noteq> ''use_gravatar''" and "map_of (pu_preferences u) k = Some v" and "v \<noteq> JNull"
  shows "map_of (merge_preferences (gravatar_body u) current) k = Some (stored_preference k v)"
  using assms by (simp add: merge_preferences_def gravatar_body_def fold_preferences)

definition demo_profile :: ProfileUser where
  "demo_profile = \<lparr>pu_username = ''ada'', pu_first_name = None, pu_last_name = None, pu_display_name = None, pu_email = None,
     pu_avatar_url = None, pu_oauth_provider = None, pu_profile = [],
     pu_preferences = [(''use_gravatar'', JBool True), (''stop_on_logout'', JBool True)], pu_visibility = None\<rparr>"

theorem gravatar_switch_reverts_preferences_witness:
  "map_of (merge_preferences (gravatar_body demo_profile) [(''stop_on_logout'', JBool False)]) ''stop_on_logout'' = Some (JBool True)"
  using gravatar_switch_reverts_preferences [of "''stop_on_logout''" demo_profile "JBool True" "[(''stop_on_logout'', JBool False)]"]
  by (simp add: preference_keys_def demo_profile_def stored_preference_def)

subsection \<open>The dialog of the picture\<close>

record Point = pt_x :: js_num pt_y :: js_num

record Area = ar_x :: js_num ar_y :: js_num ar_width :: js_num ar_height :: js_num

datatype AvatarMode = Source_mode | Crop_mode

record AvatarDialog =
  av_mode :: AvatarMode
  av_image :: "string option"
  av_crop :: Point
  av_zoom :: js_num
  av_area :: "Area option"
  av_uploading :: bool
  av_toggling :: bool

definition MAX_FILE_SIZE :: nat where "MAX_FILE_SIZE = 2 * 1024 * 1024"

definition origin :: Point where "origin = \<lparr>pt_x = Fin 0 0, pt_y = Fin 0 0\<rparr>"

definition mountAvatar :: AvatarDialog where
  "mountAvatar = \<lparr>av_mode = Source_mode, av_image = None, av_crop = origin, av_zoom = Fin 1 0, av_area = None,
     av_uploading = False, av_toggling = False\<rparr>"

datatype AvatarSource = Gravatar_source | Custom_source | Default_source

definition activeSource :: "bool \<Rightarrow> string option \<Rightarrow> AvatarSource" where
  "activeSource gravatar url = (if gravatar then Gravatar_source else if given url then Custom_source else Default_source)"

definition removeDisabled :: "bool \<Rightarrow> string option \<Rightarrow> bool" where
  "removeDisabled gravatar url \<longleftrightarrow> activeSource gravatar url = Default_source \<or> activeSource gravatar url = Gravatar_source"

text \<open>Whether a chosen file is read; \<open>None\<close> stands for no file.\<close>

definition handleFileSelect :: "nat option \<Rightarrow> bool \<times> ProfileToast list" where
  "handleFileSelect file_size = (case file_size of None \<Rightarrow> (False, [])
     | Some n \<Rightarrow> if n > MAX_FILE_SIZE then (False, [Failed ''File too large'']) else (True, []))"

text \<open>The reader has ended, with the file as a data URL, or with \<^verbatim>\<open>null\<close> when it could not be read.\<close>

definition readerEnded :: "string option \<Rightarrow> AvatarDialog \<Rightarrow> AvatarDialog" where
  "readerEnded r d = d\<lparr>av_image := r, av_mode := Crop_mode, av_crop := origin, av_zoom := Fin 1 0, av_area := None\<rparr>"

definition cancelCrop :: "AvatarDialog \<Rightarrow> AvatarDialog" where
  "cancelCrop d = d\<lparr>av_mode := Source_mode, av_image := None, av_crop := origin, av_zoom := Fin 1 0, av_area := None\<rparr>"

definition handleUpload :: "AvatarDialog \<Rightarrow> (string \<times> Area) option \<times> AvatarDialog" where
  "handleUpload d = (case av_image d of None \<Rightarrow> (None, d)
     | Some src \<Rightarrow> if src = [] then (None, d)
         else (case av_area d of None \<Rightarrow> (None, d) | Some a \<Rightarrow> (Some (src, a), d\<lparr>av_uploading := True\<rparr>)))"

datatype AvatarView = Source_view | Crop_view string | Nothing_view

definition avatar_view :: "AvatarDialog \<Rightarrow> AvatarView" where
  "avatar_view d = (case av_mode d of Source_mode \<Rightarrow> Source_view
     | Crop_mode \<Rightarrow> (case av_image d of Some src \<Rightarrow> if src = [] then Nothing_view else Crop_view src | None \<Rightarrow> Nothing_view))"

datatype AvatarEvent = Reader_ended "string option" | Crop_moved Point | Zoomed js_num | Crop_completed Area
  | Crop_cancelled | Upload_clicked | Upload_ended

fun avatar_event :: "AvatarEvent \<Rightarrow> AvatarDialog \<Rightarrow> AvatarDialog" where
  "avatar_event (Reader_ended r) d = readerEnded r d"
| "avatar_event (Crop_moved p) d = d\<lparr>av_crop := p\<rparr>"
| "avatar_event (Zoomed z) d = d\<lparr>av_zoom := z\<rparr>"
| "avatar_event (Crop_completed a) d = d\<lparr>av_area := Some a\<rparr>"
| "avatar_event Crop_cancelled d = cancelCrop d"
| "avatar_event Upload_clicked d = snd (handleUpload d)"
| "avatar_event Upload_ended d = d\<lparr>av_uploading := False\<rparr>"

lemma upload_keeps [simp]: "av_mode (snd (handleUpload d)) = av_mode d" "av_image (snd (handleUpload d)) = av_image d"
  by (simp_all add: handleUpload_def split: option.splits)

text \<open>As long as the files can be read, the dialog always shows one of its two modes.\<close>

theorem avatar_dialog_never_blank:
  assumes "\<forall>r. Reader_ended r \<in> set es \<longrightarrow> given r"
  shows "avatar_view (fold avatar_event es mountAvatar) \<noteq> Nothing_view"
proof -
  have "(\<forall>r. Reader_ended r \<in> set es \<longrightarrow> given r) \<Longrightarrow> av_mode d = Source_mode \<or> given (av_image d) \<Longrightarrow>
      av_mode (fold avatar_event es d) = Source_mode \<or> given (av_image (fold avatar_event es d))" for es d
  proof (induction es arbitrary: d)
    case (Cons e es)
    then have "av_mode (avatar_event e d) = Source_mode \<or> given (av_image (avatar_event e d))"
      by (cases e) (auto simp: readerEnded_def cancelCrop_def)
    then show ?case using Cons by simp
  qed simp
  from this [OF assms, of mountAvatar] show ?thesis
    by (auto simp: mountAvatar_def avatar_view_def given_def split: AvatarMode.splits option.splits)
qed

theorem avatar_dialog_never_blank_witness:
  "avatar_view (fold avatar_event [Reader_ended (Some ''data:''), Zoomed (Fin 2 0)] mountAvatar) \<noteq> Nothing_view"
  by (rule avatar_dialog_never_blank) (auto simp: given_def)

text \<open>A file that cannot be read leaves the dialog blank, with no button to go back.\<close>

lemma unreadable_file_blanks_dialog: "avatar_view (readerEnded None d) = Nothing_view"
  by (simp add: avatar_view_def readerEnded_def)

text \<open>A picture is sent only of a file that was read and after the cropper told the area of that file.\<close>

lemma upload_of_crop: "fst (handleUpload d) = Some (src, a) \<Longrightarrow> av_image d = Some src \<and> src \<noteq> [] \<and> av_area d = Some a"
  by (auto simp: handleUpload_def split: option.splits if_splits)

definition handleToggleGravatar :: "bool \<Rightarrow> GravatarAnswer \<Rightarrow> ProfileState \<Rightarrow> ProfileState" where
  "handleToggleGravatar gravatar a s =
    (if gravatar then s else say [Said ''Gravatar enabled''] (gravatarAnswered False a s))"

text \<open>
  The dialog's button waits for the page's handler, which never fails: a refusal is told as a failure and then as a
  success.
\<close>

theorem refused_gravatar_called_enabled:
  "pg_said (handleToggleGravatar False Gravatar_refused s) = pg_said s @ [Failed ''Update failed'', Said ''Gravatar enabled''] \<and>
   pg_user (handleToggleGravatar False Gravatar_refused s) = pg_user s"
  by (simp add: handleToggleGravatar_def gravatarAnswered_def say_def)

subsection \<open>The quota tiles\<close>

text \<open>A ratio is \<open>num / den\<close>, and 0 for a limit that is not positive.\<close>

definition quota_pct :: "nat \<Rightarrow> nat \<Rightarrow> nat" where
  "quota_pct num den = (if den = 0 then 0 else min ((200 * num + den) div (2 * den)) 100)"

definition near_limit :: "nat \<Rightarrow> nat \<Rightarrow> bool" where
  "near_limit num den \<longleftrightarrow> den \<noteq> 0 \<and> 9 * den \<le> 10 * num"

definition sizeQuotaRatio :: "nat \<Rightarrow> string \<Rightarrow> nat \<times> nat" where
  "sizeQuotaRatio used_mb limit = (case parseMemoryString limit of
     None \<Rightarrow> (0, 0) | Some b \<Rightarrow> if b > 0 then (used_mb * 1024 * 1024, nat b) else (0, 0))"

definition sizeQuotaAvailable :: "nat \<Rightarrow> string \<Rightarrow> int option" where
  "sizeQuotaAvailable used_mb limit = map_option (\<lambda>b. max (b - int (used_mb * 1024 * 1024)) 0) (parseMemoryString limit)"

text \<open>
  The bar is full exactly when no more than half a percent of a positive limit is left, and the tile is amber from nine
  tenths on.
\<close>

theorem quota_tile_tells_use:
  assumes "0 < den"
  shows "quota_pct num den \<le> 100" and "quota_pct num den = 100 \<longleftrightarrow> 199 * den \<le> 200 * num"
    and "near_limit num den \<Longrightarrow> 90 \<le> quota_pct num den" and "90 < quota_pct num den \<Longrightarrow> near_limit num den"
proof -
  have step: "k \<le> (200 * num + den) div (2 * den) \<longleftrightarrow> (2 * k) * den \<le> 200 * num + den" for k
    using assms by (simp add: less_eq_div_iff_mult_less_eq mult.assoc mult.left_commute)
  show "quota_pct num den \<le> 100" by (simp add: quota_pct_def)
  show "quota_pct num den = 100 \<longleftrightarrow> 199 * den \<le> 200 * num"
    using assms step [of 100] by (auto simp: quota_pct_def min_def)
  show "near_limit num den \<Longrightarrow> 90 \<le> quota_pct num den"
    using assms step [of 90] by (auto simp: quota_pct_def near_limit_def)
  show "90 < quota_pct num den \<Longrightarrow> near_limit num den"
    using assms step [of 91] by (auto simp: quota_pct_def near_limit_def Suc_le_eq [symmetric])
qed

lemma zero_quota_shows_no_use: "quota_pct num 0 = 0 \<and> \<not> near_limit num 0"
  by (simp add: quota_pct_def near_limit_def)

end
