(* ===== verification/Server_Page.thy ===== *)
theory Server_Page
  imports Server_Lists Data_Views Metrics Js_Sort
begin

text \<open>
  The page of one server, \<^verbatim>\<open>routes/servers.$serverId.tsx\<close>, with its link to the running server, its charts, its tabs
  for logs and tasks, and the table of tasks (\<^verbatim>\<open>components/tasks-table.tsx\<close>).
\<close>

subsection \<open>The link to the server\<close>

definition isOwnOrUnknown :: "User option \<Rightarrow> ListedServer \<Rightarrow> bool" where
  "isOwnOrUnknown usr s \<longleftrightarrow> (case usr of None \<Rightarrow> True | Some u \<Rightarrow> server_user_id s = Some (user_id u))"

definition open_gateway :: "ListedServer \<Rightarrow> bool \<Rightarrow> OpenEffect list" where
  "open_gateway s popup = (case gatewayUrl s of
     None \<Rightarrow> []
   | Some u \<Rightarrow> if u = [] then [] else Opens_window # (if popup then [Navigates u] else []))"

text \<open>
  \<open>started\<close> is the answer of \<^verbatim>\<open>onStart\<close>, which for someone else's server asks for a reason of its own; \<open>answer\<close> is
  that of the question for a reason here, and \<open>popup\<close> whether the browser let the window open.
\<close>

definition handleOpen_detail :: "AuthState \<Rightarrow> ListedServer \<Rightarrow> bool \<Rightarrow> string option \<Rightarrow> bool \<Rightarrow> OpenEffect list" where
  "handleOpen_detail st s started answer popup =
    (if \<not> canAccessServer st s then []
     else if status s \<noteq> ''running'' then Starts (server_id s) # (if started then open_gateway s popup else [])
     else if \<not> isOwnOrUnknown (user st) s
     then Asks (server_id s) # (case answer of None \<Rightarrow> [] | Some _ \<Rightarrow> open_gateway s popup)
     else open_gateway s popup)"

lemma open_gateway_opens [simp]:
  "Opens_window \<in> set (open_gateway s popup) \<longleftrightarrow> gatewayUrl s \<noteq> None \<and> gatewayUrl s \<noteq> Some []"
  by (cases "gatewayUrl s") (auto simp: open_gateway_def)

text \<open>
  No window opens on a server of someone else without access to others' servers, nor on a running one without an
  answer to the question, and none before the server was asked to start.
\<close>

theorem detail_link_gated:
  assumes "Opens_window \<in> set (handleOpen_detail st s started answer popup)" and "user st = Some u"
  shows "(server_user_id s \<noteq> Some (user_id u) \<longrightarrow> canAccessOthersServers st \<and> (status s = ''running'' \<longrightarrow> answer \<noteq> None)) \<and>
    (status s \<noteq> ''running'' \<longrightarrow> started) \<and> gatewayUrl s \<noteq> None \<and> gatewayUrl s \<noteq> Some []"
  using assms by (auto simp: handleOpen_detail_def canAccessServer_def isOwnOrUnknown_def
      split: if_splits option.splits)

definition running_row :: ListedServer where
  "running_row = (demo_row ''1'' ''a'')\<lparr>server_user_id := Some ''nobody'', status := ''running'', server_username := Some ''nobody''\<rparr>"

theorem detail_link_gated_witness:
  "handleOpen_detail demo_admin running_row False (Some ''check'') True = [Asks ''1'', Opens_window, Navigates ''/user/nobody/a''] \<and>
   canAccessOthersServers demo_admin"
proof -
  have user: "user demo_admin = Some (demo_user ''super_admin'' (Some [ALL_PERMISSIONS]))" by (simp add: demo_admin_def)
  have row: "server_user_id running_row \<noteq> Some (user_id (demo_user ''super_admin'' (Some [ALL_PERMISSIONS])))"
      "status running_row = ''running''" "server_id running_row = ''1''" "gatewayUrl running_row = Some ''/user/nobody/a''"
    by (simp_all add: running_row_def demo_row_def demo_user_def gatewayUrl_def Server.defs)
  have access: "canAccessOthersServers demo_admin" by code_simp
  have opened: "handleOpen_detail demo_admin running_row False (Some ''check'') True = [Asks ''1'', Opens_window, Navigates ''/user/nobody/a'']"
    using user row access
    by (simp add: handleOpen_detail_def canAccessServer_def isOwnOrUnknown_def open_gateway_def)
  then have "Opens_window \<in> set (handleOpen_detail demo_admin running_row False (Some ''check'') True)" by simp
  from detail_link_gated [OF this user] row(1) opened show ?thesis by blast
qed

text \<open>The buttons of the page: a server that is neither stopped nor running, such as a failed one, can only be deleted.\<close>

lemma failed_server_buttons:
  "status s \<noteq> ''stopped'' \<Longrightarrow> status s \<noteq> ''running'' \<Longrightarrow> map fst (row_buttons st s) = [Delete]"
  by (simp add: row_buttons_def)

text \<open>The page shows its placeholders for a server that is not in the list, whether the list is still loading or not.\<close>

definition detail_server :: "string \<Rightarrow> ListedServer list \<Rightarrow> ListedServer option" where
  "detail_server i servers = find (\<lambda>s. server_id s = i) servers"

datatype DetailView = Placeholders | Details ListedServer

definition detail_view :: "string \<Rightarrow> ListedServer list option \<Rightarrow> DetailView" where
  "detail_view i fetched = (case detail_server i (case fetched of None \<Rightarrow> [] | Some ss \<Rightarrow> ss) of
     None \<Rightarrow> Placeholders | Some s \<Rightarrow> Details s)"

lemma unknown_server_loads_forever: "\<forall>s \<in> set ss. server_id s \<noteq> i \<Longrightarrow> detail_view i (Some ss) = detail_view i None"
  by (auto simp: detail_view_def detail_server_def find_None_iff split: option.splits)

definition stop_reason_label :: "string \<Rightarrow> string" where
  "stop_reason_label r = map (\<lambda>c. if c = CHR ''_'' then CHR '' '' else c) r"

lemma stop_reason_label_length: "length (stop_reason_label r) = length r \<and> CHR ''_'' \<notin> set (stop_reason_label r)"
  by (auto simp: stop_reason_label_def)

subsection \<open>The charts\<close>

record ChartPoint =
  ch_timestamp :: string
  ch_cpu :: rat
  ch_memory :: rat
  ch_memoryUsed :: rat
  ch_memoryTotal :: rat
  ch_diskTotal :: rat
  ch_diskRead :: rat
  ch_diskWrite :: rat
  ch_networkTotal :: rat
  ch_networkRx :: rat
  ch_networkTx :: rat

definition point_rate :: "(ServerMetricPoint \<Rightarrow> rat) \<Rightarrow> ServerMetricPoint option \<Rightarrow> ServerMetricPoint \<Rightarrow> rat" where
  "point_rate key prev m = counterRate (map_option (\<lambda>p. \<lparr>sample_t = epochMs p, sample_value = key p\<rparr>) prev)
     \<lparr>sample_t = epochMs m, sample_value = key m\<rparr>"

definition chart_point :: "ServerMetricPoint option \<Rightarrow> ServerMetricPoint \<Rightarrow> ChartPoint" where
  "chart_point prev m =
    (let dr = point_rate diskRead prev m; dw = point_rate diskWrite prev m;
         rx = point_rate networkRx prev m; tx = point_rate networkTx prev m
     in \<lparr>ch_timestamp = timestamp m, ch_cpu = cpu m, ch_memory = memory m, ch_memoryUsed = memoryUsed m,
         ch_memoryTotal = memoryTotal m, ch_diskTotal = dr + dw, ch_diskRead = dr, ch_diskWrite = dw,
         ch_networkTotal = rx + tx, ch_networkRx = rx, ch_networkTx = tx\<rparr>)"

fun chart_from :: "ServerMetricPoint option \<Rightarrow> ServerMetricPoint list \<Rightarrow> ChartPoint list" where
  "chart_from prev [] = []"
| "chart_from prev (m # ms) = chart_point prev m # chart_from (Some m) ms"

definition chartData :: "ServerMetricPoint list \<Rightarrow> ChartPoint list" where
  "chartData ms = chart_from None ms"

definition latest_rate :: "(ChartPoint \<Rightarrow> rat) \<Rightarrow> ChartPoint list \<Rightarrow> rat" where
  "latest_rate key cs = (if cs = [] then 0 else key (last cs))"

text \<open>What the bars of a chart add up to: each rate for the time since the point before it.\<close>

fun charted_amount :: "(ChartPoint \<Rightarrow> rat) \<Rightarrow> ServerMetricPoint list \<Rightarrow> ChartPoint list \<Rightarrow> rat" where
  "charted_amount key (m # m' # ms) (c # c' # cs) =
     key c' * (of_int (epochMs m' - epochMs m) / 1000) + charted_amount key (m' # ms) (c' # cs)"
| "charted_amount key ms cs = 0"

definition growing :: "(ServerMetricPoint \<Rightarrow> rat) \<Rightarrow> ServerMetricPoint list \<Rightarrow> bool" where
  "growing key ms \<longleftrightarrow> sorted_wrt (\<lambda>a b. epochMs a < epochMs b \<and> key a \<le> key b) ms"

lemma rate_times_gap:
  assumes "epochMs p < epochMs m" and "key p \<le> key m"
  shows "point_rate key (Some p) m * (of_int (epochMs m - epochMs p) / 1000) = key m - key p"
  using assms by (auto simp: point_rate_def counterRate_def Let_def)

lemma chart_amount:
  assumes "growing key (m # ms)" and "\<And>p q. sel (chart_point p q) = point_rate key p q"
  shows "charted_amount sel (m # ms) (chart_point prev m # chart_from (Some m) ms) = key (last (m # ms)) - key m"
  using assms(1)
proof (induction ms arbitrary: m prev)
  case (Cons m' ms)
  then have "growing key (m' # ms)" "epochMs m < epochMs m'" "key m \<le> key m'" by (auto simp: growing_def)
  then show ?case using Cons.IH [of m' "Some m"] rate_times_gap [of m m' key]
    by (simp add: assms(2) diff_divide_distrib)
qed simp

text \<open>
  The chart of a counter that only grew accounts for all of it: the area under the received bytes is the difference
  between the last and the first reading, and likewise for the other three counters.
\<close>

theorem charts_account_for_traffic:
  assumes "ms \<noteq> []"
  shows "growing networkRx ms \<Longrightarrow> charted_amount ch_networkRx ms (chartData ms) = networkRx (last ms) - networkRx (hd ms)"
    and "growing networkTx ms \<Longrightarrow> charted_amount ch_networkTx ms (chartData ms) = networkTx (last ms) - networkTx (hd ms)"
    and "growing diskRead ms \<Longrightarrow> charted_amount ch_diskRead ms (chartData ms) = diskRead (last ms) - diskRead (hd ms)"
    and "growing diskWrite ms \<Longrightarrow> charted_amount ch_diskWrite ms (chartData ms) = diskWrite (last ms) - diskWrite (hd ms)"
proof -
  obtain m ns where ms: "ms = m # ns" using assms by (cases ms) auto
  show "growing networkRx ms \<Longrightarrow> charted_amount ch_networkRx ms (chartData ms) = networkRx (last ms) - networkRx (hd ms)"
    using chart_amount [of networkRx m ns ch_networkRx None] by (simp add: ms chartData_def chart_point_def Let_def)
  show "growing networkTx ms \<Longrightarrow> charted_amount ch_networkTx ms (chartData ms) = networkTx (last ms) - networkTx (hd ms)"
    using chart_amount [of networkTx m ns ch_networkTx None] by (simp add: ms chartData_def chart_point_def Let_def)
  show "growing diskRead ms \<Longrightarrow> charted_amount ch_diskRead ms (chartData ms) = diskRead (last ms) - diskRead (hd ms)"
    using chart_amount [of diskRead m ns ch_diskRead None] by (simp add: ms chartData_def chart_point_def Let_def)
  show "growing diskWrite ms \<Longrightarrow> charted_amount ch_diskWrite ms (chartData ms) = diskWrite (last ms) - diskWrite (hd ms)"
    using chart_amount [of diskWrite m ns ch_diskWrite None] by (simp add: ms chartData_def chart_point_def Let_def)
qed

definition demo_point :: "int \<Rightarrow> rat \<Rightarrow> ServerMetricPoint" where
  "demo_point t rx = \<lparr>cpu = 0, memory = 0, memoryUsed = 0, memoryTotal = 0, memoryCache = 0, diskRead = 0, diskWrite = 0,
     networkRx = rx, networkTx = 0, timestamp = [], epochMs = t\<rparr>"

theorem charts_account_for_traffic_witness:
  "charted_amount ch_networkRx [demo_point 0 5, demo_point 2000 9, demo_point 3000 20]
     (chartData [demo_point 0 5, demo_point 2000 9, demo_point 3000 20]) = 15"
  using charts_account_for_traffic(1) [of "[demo_point 0 5, demo_point 2000 9, demo_point 3000 20]"]
  by (simp add: growing_def demo_point_def)

text \<open>No rate is negative, whatever the readings are: a counter that was reset is charted as nothing.\<close>

lemma chart_rates_nonneg: "0 \<le> point_rate key prev m"
  by (simp add: point_rate_def counterRate_nonneg)

subsection \<open>Tabs, and the pause of the logs\<close>

datatype DetailTab = Overview_tab | Logs_tab | Tasks_tab

text \<open>The log viewer is there on its tab only: it is mounted anew each time, and its state goes with it.\<close>

record DetailPage =
  dp_tab :: DetailTab
  dp_logs_paused :: bool
  dp_viewer :: "LogState option"

definition mountLogViewer :: LogState where
  "mountLogViewer = \<lparr>searchQuery = [], levelFilter = None, autoScroll = True, isPaused = False, userScrolledUp = False\<rparr>"

definition mountDetail :: DetailPage where
  "mountDetail = \<lparr>dp_tab = Overview_tab, dp_logs_paused = False, dp_viewer = None\<rparr>"

definition setActiveTab :: "DetailTab \<Rightarrow> DetailPage \<Rightarrow> DetailPage" where
  "setActiveTab t s = s\<lparr>dp_tab := t, dp_viewer := (if t = Logs_tab then Some (case dp_viewer s of None \<Rightarrow> mountLogViewer | Some v \<Rightarrow> v) else None)\<rparr>"

definition pauseClicked :: "DetailPage \<Rightarrow> DetailPage" where
  "pauseClicked s = (case dp_viewer s of None \<Rightarrow> s
     | Some v \<Rightarrow> let (v', paused) = togglePause v in s\<lparr>dp_viewer := Some v', dp_logs_paused := paused\<rparr>)"

definition logs_enabled :: "DetailPage \<Rightarrow> bool" where
  "logs_enabled s \<longleftrightarrow> \<not> dp_logs_paused s \<and> dp_tab s = Logs_tab"

definition logs_interval :: "DetailPage \<Rightarrow> nat option" where
  "logs_interval s = (if dp_logs_paused s \<or> dp_tab s \<noteq> Logs_tab then None else Some 5000)"

definition tasks_enabled :: "DetailPage \<Rightarrow> bool" where
  "tasks_enabled s \<longleftrightarrow> dp_tab s = Tasks_tab"

datatype DetailEvent = Choose_tab DetailTab | Click_pause

fun detail_event :: "DetailEvent \<Rightarrow> DetailPage \<Rightarrow> DetailPage" where
  "detail_event (Choose_tab t) s = setActiveTab t s"
| "detail_event Click_pause s = pauseClicked s"

definition shows_live :: "DetailPage \<Rightarrow> bool" where
  "shows_live s \<longleftrightarrow> (case dp_viewer s of None \<Rightarrow> False | Some v \<Rightarrow> \<not> isPaused v)"

text \<open>While the page stays on the tab of the logs, they are fetched exactly when the viewer is not paused.\<close>

lemma live_while_on_logs:
  "logs_enabled (fold detail_event (replicate n Click_pause) (setActiveTab Logs_tab mountDetail)) \<longleftrightarrow>
   shows_live (fold detail_event (replicate n Click_pause) (setActiveTab Logs_tab mountDetail))"
proof -
  have "dp_tab s = Logs_tab \<and> (\<exists>v. dp_viewer s = Some v \<and> isPaused v = dp_logs_paused s) \<Longrightarrow>
      dp_tab (fold detail_event (replicate n Click_pause) s) = Logs_tab \<and>
      (\<exists>v. dp_viewer (fold detail_event (replicate n Click_pause) s) = Some v \<and>
           isPaused v = dp_logs_paused (fold detail_event (replicate n Click_pause) s))" for s
    by (induction n arbitrary: s) (auto simp: pauseClicked_def togglePause_def Let_def)
  from this [of "setActiveTab Logs_tab mountDetail"] show ?thesis
    by (auto simp: logs_enabled_def shows_live_def setActiveTab_def mountDetail_def mountLogViewer_def split: option.splits)
qed

text \<open>
  The page keeps the pause when the tab is left, the viewer does not: on coming back the viewer shows itself running,
  with nothing fetched, and its button has to be pressed twice before anything is.
\<close>

theorem paused_logs_come_back_frozen:
  assumes "dp_tab s = Logs_tab" and "logs_enabled s" and "shows_live s" and "t \<noteq> Logs_tab"
  shows "let back = fold detail_event [Click_pause, Choose_tab t, Choose_tab Logs_tab] s
         in shows_live back \<and> \<not> logs_enabled back \<and> logs_interval back = None \<and>
            \<not> logs_enabled (detail_event Click_pause back) \<and> logs_enabled (fold detail_event [Click_pause, Click_pause] back)"
  using assms
  by (auto simp: logs_enabled_def shows_live_def logs_interval_def setActiveTab_def pauseClicked_def togglePause_def
      mountLogViewer_def Let_def split: option.splits)

theorem paused_logs_come_back_frozen_witness:
  "shows_live (fold detail_event [Choose_tab Logs_tab, Click_pause, Choose_tab Overview_tab, Choose_tab Logs_tab] mountDetail) \<and>
   \<not> logs_enabled (fold detail_event [Choose_tab Logs_tab, Click_pause, Choose_tab Overview_tab, Choose_tab Logs_tab] mountDetail)"
  using paused_logs_come_back_frozen [of "setActiveTab Logs_tab mountDetail" Overview_tab]
  by (simp add: setActiveTab_def mountDetail_def logs_enabled_def shows_live_def mountLogViewer_def Let_def)

subsection \<open>The table of tasks\<close>

definition cpu_order :: "ComputedTask \<Rightarrow> ComputedTask \<Rightarrow> int" where
  "cpu_order a b = (let d = cpu_percent b - cpu_percent a in if d < 0 then - 1 else if d > 0 then 1 else 0)"

definition sorted_tasks :: "ComputedTask list \<Rightarrow> ComputedTask list" where
  "sorted_tasks ts = js_sort cpu_order ts"

datatype TasksView = Tasks_loading | Server_stopped | Tasks_failed | No_tasks | Task_rows "ComputedTask list"

definition tasks_view :: "ComputedTask list \<Rightarrow> string option \<Rightarrow> bool \<Rightarrow> TasksView" where
  "tasks_view ts st loading =
    (if loading \<and> ts = [] then Tasks_loading
     else if st = Some ''stopped'' then Server_stopped
     else if st = Some ''error'' then Tasks_failed
     else if sorted_tasks ts = [] then No_tasks else Task_rows (sorted_tasks ts))"

text \<open>The rows are the tasks, the ones that use more of the processor first, equal ones as they came.\<close>

theorem task_rows_by_cpu:
  assumes "tasks_view ts st loading = Task_rows rows"
  shows "mset rows = mset ts \<and> sorted_wrt (\<lambda>a b. cpu_percent b \<le> cpu_percent a) rows \<and>
    filter (\<lambda>t. cpu_percent t = p) rows = filter (\<lambda>t. cpu_percent t = p) ts"
proof -
  have rows: "rows = js_sort cpu_order ts" using assms by (auto simp: tasks_view_def sorted_tasks_def split: if_splits)
  have le: "cpu_order a b \<le> 0 \<longleftrightarrow> cpu_percent b \<le> cpu_percent a" for a b by (simp add: cpu_order_def Let_def)
  have "sorted_wrt (\<lambda>a b. cpu_order a b \<le> 0) rows" unfolding rows
    by (rule js_sort_total [of UNIV]) (auto simp: le)
  moreover have "filter (\<lambda>t. cpu_percent t = p) rows = filter (\<lambda>t. cpu_percent t = p) ts" unfolding rows
    by (rule js_sort_stable) (simp add: le)
  ultimately show ?thesis by (simp add: rows mset_js_sort le)
qed

definition demo_task :: "int \<Rightarrow> rat \<Rightarrow> ComputedTask" where
  "demo_task i c = \<lparr>pid = i, cpu_time_seconds = 0, cpu_percent = c, mem_percent = 0, rss_bytes = 0\<rparr>"

theorem task_rows_by_cpu_witness:
  "mset [demo_task 2 7, demo_task 1 3] = mset [demo_task 1 3, demo_task 2 7]"
proof -
  have "tasks_view [demo_task 1 3, demo_task 2 7] None False = Task_rows [demo_task 2 7, demo_task 1 3]"
    by (simp add: tasks_view_def sorted_tasks_def cpu_order_def demo_task_def Let_def)
  from task_rows_by_cpu [OF this] show ?thesis by blast
qed

end
