(* ===== verification/Quota_Views.thy ===== *)
theory Quota_Views
  imports Plan_Page Profile_Page Cron Admin_Hooks
begin

text \<open>
  Where the limits of a user's resources are shown and set: the page of all quotas (\<^verbatim>\<open>routes/admin.quotas.tsx\<close>) with the
  card of the defaults (\<^verbatim>\<open>components/admin/quota-defaults-card.tsx\<close>), and the page of one user
  (\<^verbatim>\<open>routes/admin.users.$userId.tsx\<close>), next to the backend's quotas (\<^verbatim>\<open>backend/app/services/quota_service.py\<close>).
\<close>

subsection \<open>Limits, and the form that sets them\<close>

record QuotaLimits =
  ql_cpu :: Decimal
  ql_memory :: string
  ql_disk :: string
  ql_gpu :: Decimal
  ql_servers :: Decimal

record UserQuota =
  uq_user_id :: string
  uq_username :: string
  uq_limits :: QuotaLimits

definition initial_limits :: QuotaLimits where
  "initial_limits = \<lparr>ql_cpu = (8, 0), ql_memory = ''16g'', ql_disk = ''100g'', ql_gpu = (0, 0), ql_servers = (5, 0)\<rparr>"

definition same_number :: "Decimal \<Rightarrow> Decimal \<Rightarrow> bool" where
  "same_number a b \<longleftrightarrow> fst a * 10 ^ snd b = fst b * 10 ^ snd a"

record QuotaDialog =
  qd_open :: bool
  qd_editing :: "UserQuota option"
  qd_form :: QuotaLimits

definition mountQuotas :: QuotaDialog where
  "mountQuotas = \<lparr>qd_open = False, qd_editing = None, qd_form = initial_limits\<rparr>"

definition openEditQuota :: "UserQuota \<Rightarrow> QuotaDialog \<Rightarrow> QuotaDialog" where
  "openEditQuota q d = d\<lparr>qd_editing := Some q, qd_form := uq_limits q, qd_open := True\<rparr>"

definition limits_body :: "QuotaLimits \<Rightarrow> (string \<times> json) list" where
  "limits_body l = [(''max_servers_total'', decimal (ql_servers l)), (''max_cpu_total'', decimal (ql_cpu l)),
     (''max_memory_total'', JStr (ql_memory l)), (''max_disk_total'', JStr (ql_disk l)), (''max_gpu_total'', decimal (ql_gpu l))]"

definition submitQuota :: "QuotaDialog \<Rightarrow> Mutation option" where
  "submitQuota d = map_option (\<lambda>q. updateQuota (uq_user_id q) (JObj (limits_body (qd_form d)))) (qd_editing d)"

datatype QuotaField = Set_servers "Decimal option" | Set_cpu "Decimal option" | Set_gpu "Decimal option"
  | Set_memory string | Set_disk string

text \<open>What is typed in a field of numbers is \<open>None\<close> when it cannot be read, and becomes 0.\<close>

fun edit_limits :: "QuotaField \<Rightarrow> QuotaLimits \<Rightarrow> QuotaLimits" where
  "edit_limits (Set_servers v) l = l\<lparr>ql_servers := number_field (0, 0) v\<rparr>"
| "edit_limits (Set_cpu v) l = l\<lparr>ql_cpu := number_field (0, 0) v\<rparr>"
| "edit_limits (Set_gpu v) l = l\<lparr>ql_gpu := number_field (0, 0) v\<rparr>"
| "edit_limits (Set_memory t) l = l\<lparr>ql_memory := t\<rparr>"
| "edit_limits (Set_disk t) l = l\<lparr>ql_disk := t\<rparr>"

text \<open>The backend's update.\<close>

definition num_entry :: "string \<Rightarrow> (string \<times> json) list \<Rightarrow> Decimal \<Rightarrow> Decimal" where
  "num_entry k body old = (case map_of body k of Some (JNum m s) \<Rightarrow> (m, s) | _ \<Rightarrow> old)"

definition text_entry :: "string \<Rightarrow> (string \<times> json) list \<Rightarrow> string \<Rightarrow> string" where
  "text_entry k body old = (case map_of body k of Some (JStr v) \<Rightarrow> v | _ \<Rightarrow> old)"

definition update_user_quota :: "(string \<times> json) list \<Rightarrow> QuotaLimits \<Rightarrow> QuotaLimits" where
  "update_user_quota body l = \<lparr>ql_cpu = num_entry ''max_cpu_total'' body (ql_cpu l),
     ql_memory = text_entry ''max_memory_total'' body (ql_memory l), ql_disk = text_entry ''max_disk_total'' body (ql_disk l),
     ql_gpu = num_entry ''max_gpu_total'' body (ql_gpu l), ql_servers = num_entry ''max_servers_total'' body (ql_servers l)\<rparr>"

lemma update_with_limits: "update_user_quota (limits_body l) l' = l"
  by (simp add: update_user_quota_def limits_body_def num_entry_def text_entry_def decimal_def)

text \<open>
  Whatever the dialog was used for before, opening it on a user, editing some fields and submitting stores that user's
  own limits with just these fields changed.
\<close>

theorem quota_edit_changes_edited_fields:
  assumes "d' = (openEditQuota q d)\<lparr>qd_form := fold edit_limits es (qd_form (openEditQuota q d))\<rparr>"
  shows "submitQuota d' = Some (updateQuota (uq_user_id q) (JObj (limits_body (qd_form d')))) \<and>
    update_user_quota (limits_body (qd_form d')) (uq_limits q) = fold edit_limits es (uq_limits q)"
  using assms by (simp add: openEditQuota_def submitQuota_def update_with_limits)

theorem quota_edit_changes_edited_fields_witness:
  "update_user_quota (limits_body (fold edit_limits [Set_gpu (Some (2, 0)), Set_servers None] initial_limits)) initial_limits =
    initial_limits\<lparr>ql_gpu := (2, 0), ql_servers := (0, 0)\<rparr>"
  using quota_edit_changes_edited_fields [where d = mountQuotas and q = "\<lparr>uq_user_id = ''u'', uq_username = ''ada'', uq_limits = initial_limits\<rparr>"
      and es = "[Set_gpu (Some (2, 0)), Set_servers None]", OF refl]
  by (simp add: openEditQuota_def number_field_def)

subsection \<open>The averages above the table\<close>

definition page_average :: "nat list \<Rightarrow> nat \<Rightarrow> nat" where
  "page_average limits total_users = (if total_users > 0 then (2 * sum_list limits + total_users) div (2 * total_users) else 0)"

definition avgServers :: "UserQuota list \<Rightarrow> nat \<Rightarrow> nat" where
  "avgServers quotas total_users = page_average (map (\<lambda>q. nat (fst (ql_servers (uq_limits q)))) quotas) total_users"

text \<open>
  The sum is over the rows of the page, the divisor is the number of all users. With everyone at the same limit the
  figure is that limit when the page holds everyone, and too small when it holds fewer than half.
\<close>

theorem average_divides_page_by_all:
  assumes "\<forall>q \<in> set quotas. ql_servers (uq_limits q) = (int n, 0)" and "0 < n" and "0 < total_users"
  shows "length quotas = total_users \<Longrightarrow> avgServers quotas total_users = n"
    and "2 * length quotas < total_users \<Longrightarrow> avgServers quotas total_users < n"
proof -
  have "map (\<lambda>q. nat (fst (ql_servers (uq_limits q)))) quotas = replicate (length quotas) n"
    using assms(1) by (intro map_replicate_trivial [THEN trans] replicate_eqI) auto
  then have avg: "avgServers quotas total_users = (2 * (length quotas * n) + total_users) div (2 * total_users)"
    using assms(3) by (simp add: avgServers_def page_average_def sum_list_replicate)
  show "length quotas = total_users \<Longrightarrow> avgServers quotas total_users = n"
    using assms(3) unfolding avg by (simp add: div_nat_eqI)
  assume few: "2 * length quotas < total_users"
  have "n * (2 * length quotas) < n * total_users" using few assms(2) by (rule mult_strict_left_mono)
  moreover have "total_users \<le> n * total_users" using assms(2) by simp
  ultimately have "n * (2 * length quotas) + total_users < n * total_users + n * total_users" by (rule add_less_le_mono)
  then have "2 * (length quotas * n) + total_users < n * (2 * total_users)" by (simp add: mult.commute mult.left_commute)
  then show "avgServers quotas total_users < n"
    unfolding avg using assms(3) by (simp add: less_mult_imp_div_less)
qed

theorem average_divides_page_by_all_witness:
  "avgServers (replicate 20 \<lparr>uq_user_id = [], uq_username = [], uq_limits = initial_limits\<rparr>) 100 < 5"
  by (rule average_divides_page_by_all(2)) (auto simp: initial_limits_def)

subsection \<open>The defaults\<close>

definition isChanged :: "QuotaLimits option \<Rightarrow> QuotaLimits \<Rightarrow> bool" where
  "isChanged defaults f = (case defaults of None \<Rightarrow> False
     | Some d \<Rightarrow> \<not> same_number (ql_cpu d) (ql_cpu f) \<or> ql_memory d \<noteq> ql_memory f \<or> ql_disk d \<noteq> ql_disk f \<or>
         \<not> same_number (ql_gpu d) (ql_gpu f) \<or> \<not> same_number (ql_servers d) (ql_servers f))"

definition defaultsArrive :: "QuotaLimits option \<Rightarrow> QuotaLimits \<Rightarrow> QuotaLimits" where
  "defaultsArrive defaults f = (case defaults of None \<Rightarrow> f | Some d \<Rightarrow> d)"

lemma arrived_defaults_unchanged: "\<not> isChanged defaults (defaultsArrive defaults f)"
  by (simp add: isChanged_def defaultsArrive_def same_number_def split: option.splits)

subsection \<open>The quota on the page of a user\<close>

text \<open>
  \<^verbatim>\<open>!!row.limit && row.limit > 0\<close>: the comparison makes a number of a text, and there is none in \<^verbatim>\<open>16g\<close>. A limit is
  \<open>None\<close> where the field is missing.
\<close>

fun positive_number :: "js_num \<Rightarrow> bool" where
  "positive_number (Fin m s) = (m > 0)"
| "positive_number (Infinite neg) = (\<not> neg)"
| "positive_number NaN = False"

definition hasLimit :: "json option \<Rightarrow> bool" where
  "hasLimit limit = (case limit of None \<Rightarrow> False
     | Some (JNum m s) \<Rightarrow> m > 0
     | Some (JStr t) \<Rightarrow> t \<noteq> [] \<and> positive_number (js_Number t)
     | Some (JBool b) \<Rightarrow> b
     | Some _ \<Rightarrow> False)"

datatype QuotaBar = Unlimited | Limited rat

definition number_of :: "json \<Rightarrow> rat" where
  "number_of v = (case v of JNum m s \<Rightarrow> of_int m / 10 ^ s
     | JStr t \<Rightarrow> (case js_Number t of Fin m s \<Rightarrow> of_int m / 10 ^ s | _ \<Rightarrow> 0) | JBool True \<Rightarrow> 1 | _ \<Rightarrow> 0)"

definition quota_bar :: "rat \<Rightarrow> json option \<Rightarrow> QuotaBar" where
  "quota_bar usage limit = (if hasLimit limit then Limited (min 100 (usage / number_of (the limit) * 100)) else Unlimited)"

definition quota_rows :: "QuotaLimits \<Rightarrow> (string \<Rightarrow> rat) \<Rightarrow> (string \<times> QuotaBar) list" where
  "quota_rows l usage =
    [(''Servers'', quota_bar (usage ''servers'') (Some (decimal (ql_servers l)))),
     (''CPU'', quota_bar (usage ''cpu'') (Some (decimal (ql_cpu l)))),
     (''Memory'', quota_bar (usage ''memory_mb'') (Some (JStr (ql_memory l)))),
     (''Disk'', quota_bar (usage ''disk_mb'') (Some (JStr (ql_disk l)))),
     (''GPU'', quota_bar (usage ''gpu'') (Some (decimal (ql_gpu l))))]"

lemma size_text_no_number:
  assumes "u \<in> {CHR ''k'', CHR ''m'', CHR ''g'', CHR ''t''}"
  shows "js_Number (show_nat n @ [u]) = NaN"
proof -
  have digits: "\<And>c. c \<in> set (show_nat n) \<Longrightarrow> is_digit c" by (rule show_nat_digits)
  obtain d ds where s: "show_nat n = d # ds" by (cases "show_nat n") auto
  have nd: "\<not> is_digit u" and ns: "\<not> js_space u" using assms by (auto simp: is_digit_def js_space_def)
  have d: "is_digit d" using digits s by simp
  then have first: "\<not> js_space d" "d \<noteq> CHR ''-''" "d \<noteq> CHR ''+''" by (auto simp: is_digit_def js_space_def)
  have trim: "js_trim (show_nat n @ [u]) = show_nat n @ [u]" using first(1) ns by (simp add: js_trim_def s)
  have scan: "scan_decimal (show_nat n @ [u]) = Some (Fin (int (read_digits (show_nat n))) 0, [u])"
    using digits nd assms s by (auto simp: scan_decimal_def takeWhile_append2 scan_exponent_def Let_def)
  have radix: "take 2 (show_nat n @ [u]) \<notin> {''0x'', ''0X'', ''0o'', ''0O'', ''0b'', ''0B''}"
  proof -
    have "c \<notin> {CHR ''x'', CHR ''X'', CHR ''o'', CHR ''O'', CHR ''b'', CHR ''B''}" if "c \<in> set (show_nat n @ [u])" for c
      using that digits [of c] assms by (auto simp: is_digit_def)
    moreover have "take 2 t = [a, c] \<Longrightarrow> c \<in> set t" for t and a c :: char
      by (metis in_set_takeD list.set_intros(1) list.set_intros(2))
    ultimately show ?thesis by blast
  qed
  have inf: "show_nat n @ [u] \<noteq> ''Infinity''" using d s by (auto simp: is_digit_def)
  obtain t where t: "t = show_nat n @ [u]" by simp
  have signed: "(case t of c # r \<Rightarrow> if c = CHR ''-'' then (True, r) else if c = CHR ''+'' then (False, r) else (False, t)
      | [] \<Rightarrow> (False, t)) = (False, t)" using first s by (simp add: t)
  have "t \<noteq> []" by (simp add: t)
  then have "js_Number t = NaN"
    using trim scan radix inf unfolding t [symmetric] by (simp add: js_Number_def Let_def signed)
  then show ?thesis by (simp add: t)
qed

text \<open>
  A limit of memory in the form the backend keeps it shows as no limit at all, while the user's own profile shows it: the
  page takes the texts of the answer for numbers.
\<close>

theorem memory_limit_shown_unlimited:
  assumes "ql_memory l = show_nat n @ [u]" and "(u, k) \<in> {(CHR ''k'', 1024), (CHR ''m'', 1024 ^ 2), (CHR ''g'', 1024 ^ 3), (CHR ''t'', 1024 ^ 4)}"
    and "0 < n"
  shows "map_of (quota_rows l usage) ''Memory'' = Some Unlimited \<and>
    sizeQuotaRatio used (ql_memory l) = (used * 1024 * 1024, n * k)"
proof -
  have low: "js_toLowerCase [u] = [u]"
    using assms(2) by (auto simp: js_toLowerCase_def js_lower_char_def)
  have "u \<in> {CHR ''k'', CHR ''m'', CHR ''g'', CHR ''t''}" using assms(2) by auto
  from size_text_no_number [OF this] have "map_of (quota_rows l usage) ''Memory'' = Some Unlimited"
    by (simp add: quota_rows_def quota_bar_def hasLimit_def assms(1))
  moreover have "parseMemoryString (show_nat n @ [u]) = Some (int n * int k)"
    by (rule parseMemoryString_nat [of "[u]" "[]" u]) (use assms(2) low in \<open>auto simp: memory_suffixes_def is_letter_def number_end_def\<close>)
  ultimately show ?thesis using assms(2,3) by (auto simp: sizeQuotaRatio_def assms(1) nat_mult_distrib)
qed

theorem memory_limit_shown_unlimited_witness:
  "map_of (quota_rows (initial_limits\<lparr>ql_memory := show_nat 16 @ ''g''\<rparr>) usage) ''Memory'' = Some Unlimited \<and>
   sizeQuotaRatio 8 (show_nat 16 @ ''g'') = (8 * 1024 * 1024, 16 * 1024 ^ 3)"
  using memory_limit_shown_unlimited [of "initial_limits\<lparr>ql_memory := show_nat 16 @ ''g''\<rparr>" 16 "CHR ''g''" "1024 ^ 3" usage 8]
  by simp

lemma number_limit_shown: "0 < m \<Longrightarrow> quota_bar x (Some (decimal (m, s))) = Limited (min 100 (x / (of_int m / 10 ^ s) * 100))"
  by (simp add: quota_bar_def hasLimit_def decimal_def number_of_def)

text \<open>What the page tells of a person: the address, the provider and the logins are for administrators.\<close>

definition user_rows :: "AuthState \<Rightarrow> ProfileUser \<Rightarrow> string list" where
  "user_rows st u = (let pii = hasPermission st ''admin:access'' in
     (if pii then [''Email''] else []) @ (if pii \<and> given (pu_oauth_provider u) then [''OAuth provider''] else []) @
     [''Created'', ''Last login''] @ (if pii then [''Login count''] else []) @ [''Profile visibility''])"

lemma personal_rows_need_admin:
  "{''Email'', ''OAuth provider'', ''Login count''} \<inter> set (user_rows st u) \<noteq> {} \<longleftrightarrow> hasPermission st ''admin:access''"
  by (auto simp: user_rows_def Let_def)

definition SERVERS_VISIBLE :: nat where "SERVERS_VISIBLE = 6"

definition visible_rows :: "'a list \<Rightarrow> 'a list \<times> nat" where
  "visible_rows xs = (take SERVERS_VISIBLE xs, length xs - SERVERS_VISIBLE)"

text \<open>The rows beyond the sixth, announced as \<^verbatim>\<open>more (scroll)\<close>, are not in the list that scrolls.\<close>

lemma announced_rows_missing: "length (fst (visible_rows xs)) + snd (visible_rows xs) = length xs \<and> length (fst (visible_rows xs)) \<le> 6"
  by (simp add: visible_rows_def SERVERS_VISIBLE_def min_def)

end
