(* ===== verification/Volumes_Page.thy ===== *)
theory Volumes_Page
  imports Deploy_Dialog Js_Sort Query_Hooks
begin

text \<open>
  The page of a user's volumes, \<^verbatim>\<open>routes/volumes.tsx\<close>: the filtered and sorted cards, the forms that create and edit a
  volume, and the buttons that measure it again, next to the backend's update
  (\<^verbatim>\<open>backend/app/services/volume_service.py\<close>).
\<close>

subsection \<open>The cards\<close>

text \<open>\<open>lv_created\<close> and \<open>lv_updated\<close> are the times in milliseconds that \<^verbatim>\<open>parseUtcDate\<close> reads.\<close>

record ListedVolume = VolumeInfo +
  lv_name :: string
  lv_display_name :: string
  lv_owner_id :: string
  lv_visibility :: string
  lv_status :: string
  lv_server_count :: nat
  lv_description :: "string option"
  lv_created :: int
  lv_updated :: int

datatype OwnershipFilter = All_volumes | Mine_only | Shared_only

datatype SortOption = By_name | By_size | By_created | By_updated

definition owned_by :: "string option \<Rightarrow> ListedVolume \<Rightarrow> bool" where
  "owned_by me v \<longleftrightarrow> me = Some (lv_owner_id v)"

definition ownership_passes :: "string option \<Rightarrow> OwnershipFilter \<Rightarrow> ListedVolume \<Rightarrow> bool" where
  "ownership_passes me f v =
    (if f = All_volumes \<or> me = None then True else if f = Mine_only then owned_by me v else \<not> owned_by me v)"

definition volume_mentions :: "string \<Rightarrow> ListedVolume \<Rightarrow> bool" where
  "volume_mentions search v =
    (search = [] \<or> (let query = js_toLowerCase search in js_contains (js_toLowerCase (lv_display_name v)) query \<or>
       js_contains (js_toLowerCase (lv_name v)) query \<or> js_contains (js_toLowerCase (lv_status v)) query))"

definition volume_cmp :: "(string \<Rightarrow> string \<Rightarrow> int) \<Rightarrow> SortOption \<Rightarrow> ListedVolume \<Rightarrow> ListedVolume \<Rightarrow> int" where
  "volume_cmp localeCompare sort_by a b = (case sort_by of
     By_name \<Rightarrow> localeCompare (lv_display_name a) (lv_display_name b)
   | By_size \<Rightarrow> vol_size_bytes b - vol_size_bytes a
   | By_created \<Rightarrow> lv_created b - lv_created a
   | By_updated \<Rightarrow> lv_updated b - lv_updated a)"

definition filteredVolumes :: "(string \<Rightarrow> string \<Rightarrow> int) \<Rightarrow> string option \<Rightarrow> OwnershipFilter \<Rightarrow> string \<Rightarrow> SortOption \<Rightarrow>
    ListedVolume list \<Rightarrow> ListedVolume list" where
  "filteredVolumes localeCompare me f search sort_by vs =
    js_sort (volume_cmp localeCompare sort_by) (filter (volume_mentions search) (filter (ownership_passes me f) vs))"

text \<open>What the three pills count.\<close>

definition pill_count :: "string option \<Rightarrow> OwnershipFilter \<Rightarrow> ListedVolume list \<Rightarrow> nat" where
  "pill_count me f vs = (case f of All_volumes \<Rightarrow> length vs
     | Mine_only \<Rightarrow> length (filter (owned_by me) vs) | Shared_only \<Rightarrow> length (filter (\<lambda>v. \<not> owned_by me v) vs))"

text \<open>
  The cards are the volumes that pass the filters, each once, in the chosen order; for the order of names
  \<^verbatim>\<open>localeCompare\<close> is assumed to be the total preorder it is documented to be.
\<close>

theorem volumes_listed_in_order:
  assumes "\<And>x y. localeCompare x y \<le> 0 \<or> localeCompare y x \<le> 0"
    and "\<And>x y z. localeCompare x y \<le> 0 \<Longrightarrow> localeCompare y z \<le> 0 \<Longrightarrow> localeCompare x z \<le> 0"
  shows "mset (filteredVolumes localeCompare me f search sort_by vs) =
      filter_mset (\<lambda>v. volume_mentions search v \<and> ownership_passes me f v) (mset vs) \<and>
    sorted_wrt (\<lambda>a b. volume_cmp localeCompare sort_by a b \<le> 0) (filteredVolumes localeCompare me f search sort_by vs)"
proof -
  have "sorted_wrt (\<lambda>a b. volume_cmp localeCompare sort_by a b \<le> 0) (js_sort (volume_cmp localeCompare sort_by) xs)" for xs
    by (rule js_sort_total [of UNIV]) (use assms in \<open>auto simp: volume_cmp_def split: SortOption.splits\<close>)
  then show ?thesis
    by (simp add: filteredVolumes_def mset_js_sort flip: mset_filter) (simp add: conj_commute)
qed

definition demo_volume :: "string \<Rightarrow> int \<Rightarrow> ListedVolume" where
  "demo_volume i n = \<lparr>vol_id = i, vol_max_size_bytes = None, vol_size_bytes = n, lv_name = i, lv_display_name = i,
     lv_owner_id = ''me'', lv_visibility = ''private'', lv_status = ''active'', lv_server_count = 0, lv_description = None,
     lv_created = 0, lv_updated = 0\<rparr>"

theorem volumes_listed_in_order_witness:
  "sorted_wrt (\<lambda>a b. vol_size_bytes b \<le> vol_size_bytes a)
    (filteredVolumes (\<lambda>_ _. 0) (Some ''me'') Mine_only [] By_size [demo_volume ''a'' 3, demo_volume ''b'' 7])"
  using volumes_listed_in_order [of "\<lambda>_ _. 0" "Some ''me''" Mine_only "[]" By_size "[demo_volume ''a'' 3, demo_volume ''b'' 7]"]
  by (simp add: volume_cmp_def)

text \<open>Every pill tells how many cards it shows, once the user is known and nothing is searched for.\<close>

lemma pills_tell_lengths:
  "length (filteredVolumes localeCompare (Some u) f [] sort_by vs) = pill_count (Some u) f vs"
proof -
  have "length (filteredVolumes localeCompare (Some u) f [] sort_by vs) = length (filter (ownership_passes (Some u) f) vs)"
    unfolding filteredVolumes_def using mset_js_sort by (metis (no_types, lifting) filter_True size_mset volume_mentions_def)
  then show ?thesis by (cases f) (simp_all add: pill_count_def ownership_passes_def [abs_def])
qed

text \<open>Before the user is known the filter lets everything through, and the pill of the own volumes counts none.\<close>

lemma unknown_user_pills: "pill_count None Mine_only vs = 0 \<and> ownership_passes None Mine_only v"
  by (simp add: pill_count_def owned_by_def ownership_passes_def)

record VolumeStats =
  vs_total :: nat
  vs_total_size :: int
  vs_avg_size :: rat
  vs_largest :: int

definition larger :: "ListedVolume \<Rightarrow> ListedVolume \<Rightarrow> ListedVolume" where
  "larger best v = (if vol_size_bytes v > vol_size_bytes best then v else best)"

definition volume_stats :: "ListedVolume list \<Rightarrow> VolumeStats" where
  "volume_stats vs =
    (let total_size = foldl (\<lambda>acc v. acc + vol_size_bytes v) 0 vs
     in \<lparr>vs_total = length vs, vs_total_size = total_size,
         vs_avg_size = (if vs = [] then 0 else of_int total_size / of_nat (length vs)),
         vs_largest = (case vs of [] \<Rightarrow> 0 | v # _ \<Rightarrow> vol_size_bytes (foldl larger v vs))\<rparr>)"

lemma largest_is_max:
  assumes "vs \<noteq> []"
  shows "vs_largest (volume_stats vs) = Max (vol_size_bytes ` set vs)"
proof -
  have best: "foldl larger v xs \<in> set (v # xs) \<and> (\<forall>w \<in> set (v # xs). vol_size_bytes w \<le> vol_size_bytes (foldl larger v xs))"
    for v :: ListedVolume and xs
  proof (induction xs arbitrary: v)
    case (Cons x xs)
    from Cons [of "larger v x"] show ?case by (auto simp: larger_def split: if_splits)
  qed simp
  obtain v ws where vs: "vs = v # ws" using assms by (cases vs) auto
  have "vol_size_bytes (foldl larger v vs) = Max (vol_size_bytes ` set vs)"
    using best [of v vs] by (intro Max_eqI [symmetric]) (auto simp: vs)
  then show ?thesis by (simp add: vs volume_stats_def Let_def)
qed

datatype VolumeButton = Refresh_button bool | Browse_button | Edit_button | Delete_button

definition volume_buttons :: "bool \<Rightarrow> bool \<Rightarrow> ListedVolume \<Rightarrow> VolumeButton list" where
  "volume_buttons own refreshing v = (if own then [Refresh_button refreshing] else []) @ [Browse_button] @
     (if own then [Edit_button] else []) @ (if own \<and> lv_server_count v = 0 then [Delete_button] else [])"

text \<open>Deleting is offered only where the backend accepts it: it refuses a volume that some server mounts.\<close>

definition delete_volume :: "nat \<Rightarrow> bool" where
  "delete_volume mount_count \<longleftrightarrow> \<not> mount_count > 0"

lemma delete_offered_accepted: "Delete_button \<in> set (volume_buttons own r v) \<Longrightarrow> delete_volume (lv_server_count v)"
  by (auto simp: volume_buttons_def delete_volume_def split: if_splits)

definition sizePercent :: "ListedVolume \<Rightarrow> rat" where
  "sizePercent v = (case vol_max_size_bytes v of
     Some n \<Rightarrow> if vol_size_bytes v > 0 \<and> n > 0 then of_int (vol_size_bytes v) / of_int n * 100 else 0 | None \<Rightarrow> 0)"

subsection \<open>Creating and editing\<close>

record VolumeForm =
  vf_id :: string
  vf_display_name :: string
  vf_description :: string
  vf_max_size_gb :: int
  vf_current_size :: int

definition emptyVolumeForm :: VolumeForm where
  "emptyVolumeForm = \<lparr>vf_id = [], vf_display_name = [], vf_description = [], vf_max_size_gb = 10, vf_current_size = 0\<rparr>"

definition limit_bytes :: "VolumeForm \<Rightarrow> int" where
  "limit_bytes f = vf_max_size_gb f * 1024 * 1024 * 1024"

record VolumeChange =
  vc_display_name :: string
  vc_description :: "string option"
  vc_max_size_bytes :: "int option"

definition volume_change :: "VolumeForm \<Rightarrow> VolumeChange" where
  "volume_change f = \<lparr>vc_display_name = vf_display_name f,
     vc_description = (if vf_description f = [] then None else Some (vf_description f)),
     vc_max_size_bytes = (if limit_bytes f > 0 then Some (limit_bytes f) else None)\<rparr>"

definition handleCreateVolume :: "VolumeForm \<Rightarrow> VolumeChange option" where
  "handleCreateVolume f = (if js_trim (vf_display_name f) = [] then None else Some (volume_change f))"

definition handleEditVolume :: "ListedVolume \<Rightarrow> VolumeForm" where
  "handleEditVolume v = \<lparr>vf_id = vol_id v, vf_display_name = lv_display_name v,
     vf_description = (case lv_description v of None \<Rightarrow> [] | Some d \<Rightarrow> d),
     vf_max_size_gb = (case vol_max_size_bytes v of None \<Rightarrow> 10 | Some n \<Rightarrow> if n \<noteq> 0 then js_round_div n GB else 10),
     vf_current_size = vol_size_bytes v\<rparr>"

datatype UpdateOutcome = Nothing_sent | Limit_below_size int | Update_sent string VolumeChange

definition handleUpdateVolume :: "VolumeForm \<Rightarrow> UpdateOutcome" where
  "handleUpdateVolume f =
    (if js_trim (vf_display_name f) = [] then Nothing_sent
     else if limit_bytes f > 0 \<and> limit_bytes f < vf_current_size f then Limit_below_size (vf_current_size f)
     else Update_sent (vf_id f) (volume_change f))"

definition update_volume :: "VolumeChange \<Rightarrow> ListedVolume \<Rightarrow> ListedVolume" where
  "update_volume c v = v\<lparr>lv_display_name := vc_display_name c,
     lv_description := (case vc_description c of None \<Rightarrow> lv_description v | Some d \<Rightarrow> Some d),
     vol_max_size_bytes := (case vc_max_size_bytes c of None \<Rightarrow> vol_max_size_bytes v | Some n \<Rightarrow> Some n)\<rparr>"

lemma round_whole_gb: "js_round_div (k * GB) GB = k"
  by (simp add: js_round_div_def GB_def)

text \<open>
  A volume whose limit is a whole number of gigabytes, and which is within it, comes out of the edit dialog as it went in.
\<close>

theorem whole_gigabyte_limit_kept:
  assumes "vol_max_size_bytes v = Some (k * GB)" and "0 < k" and "vol_size_bytes v \<le> k * GB" and "js_trim (lv_display_name v) \<noteq> []"
    and "lv_description v \<noteq> Some []"
  shows "handleUpdateVolume (handleEditVolume v) = Update_sent (vol_id v) (volume_change (handleEditVolume v)) \<and>
    update_volume (volume_change (handleEditVolume v)) v = v"
proof -
  have gb: "limit_bytes (handleEditVolume v) = k * GB"
    using assms(1,2) by (simp add: limit_bytes_def handleEditVolume_def round_whole_gb) (simp add: GB_def)
  have "0 < k * GB" using assms(2) by (simp add: GB_def)
  with gb assms show ?thesis
    by (auto simp: handleUpdateVolume_def update_volume_def volume_change_def handleEditVolume_def split: option.splits)
qed

theorem whole_gigabyte_limit_kept_witness:
  "update_volume (volume_change (handleEditVolume ((demo_volume ''a'' 5)\<lparr>vol_max_size_bytes := Some (3 * GB)\<rparr>)))
     ((demo_volume ''a'' 5)\<lparr>vol_max_size_bytes := Some (3 * GB)\<rparr>) = (demo_volume ''a'' 5)\<lparr>vol_max_size_bytes := Some (3 * GB)\<rparr>"
  using whole_gigabyte_limit_kept [of "(demo_volume ''a'' 5)\<lparr>vol_max_size_bytes := Some (3 * GB)\<rparr>" 3]
  by (simp add: demo_volume_def GB_def js_trim_def js_space_def)

text \<open>
  Any other volume gets another limit by an edit of its name alone: one without a limit is limited to 10 GB, and a
  limit between two whole numbers is rounded, down as well as up. One without a limit and larger than that cannot be
  renamed at all.
\<close>

theorem renaming_changes_limit:
  assumes "js_trim name \<noteq> []"
  defines "f v \<equiv> (handleEditVolume v)\<lparr>vf_display_name := name\<rparr>"
  shows "vol_max_size_bytes v = None \<Longrightarrow> vol_size_bytes v \<le> 10 * GB \<Longrightarrow>
      \<exists>c. handleUpdateVolume (f v) = Update_sent (vol_id v) c \<and> vol_max_size_bytes (update_volume c v) = Some (10 * GB)"
    and "vol_max_size_bytes v = None \<Longrightarrow> 10 * GB < vol_size_bytes v \<Longrightarrow> handleUpdateVolume (f v) = Limit_below_size (vol_size_bytes v)"
    and "vol_max_size_bytes v = Some (k * GB + r) \<Longrightarrow> 0 < k \<Longrightarrow> 0 < r \<Longrightarrow> 2 * r < GB \<Longrightarrow> vol_size_bytes v \<le> k * GB \<Longrightarrow>
      \<exists>c. handleUpdateVolume (f v) = Update_sent (vol_id v) c \<and> vol_max_size_bytes (update_volume c v) = Some (k * GB)"
proof -
  have name: "js_trim (vf_display_name (f w)) \<noteq> []" "vf_id (f w) = vol_id w" "vf_current_size (f w) = vol_size_bytes w" for w
    using assms(1) by (auto simp: f_def handleEditVolume_def)
  have limit: "limit_bytes (f w) = vf_max_size_gb (handleEditVolume w) * GB" for w
    by (simp add: f_def limit_bytes_def GB_def)
  have sent: "0 < n \<Longrightarrow> limit_bytes (f v) = n \<Longrightarrow> vol_size_bytes v \<le> n \<Longrightarrow>
      \<exists>c. handleUpdateVolume (f v) = Update_sent (vol_id v) c \<and> vol_max_size_bytes (update_volume c v) = Some n" for n
    using name by (auto simp: handleUpdateVolume_def volume_change_def update_volume_def)
  have ten: "vol_max_size_bytes v = None \<Longrightarrow> limit_bytes (f v) = 10 * GB" by (simp add: limit handleEditVolume_def)
  show "vol_max_size_bytes v = None \<Longrightarrow> vol_size_bytes v \<le> 10 * GB \<Longrightarrow>
      \<exists>c. handleUpdateVolume (f v) = Update_sent (vol_id v) c \<and> vol_max_size_bytes (update_volume c v) = Some (10 * GB)"
    using sent [of "10 * GB"] ten by (simp add: GB_def)
  show "vol_max_size_bytes v = None \<Longrightarrow> 10 * GB < vol_size_bytes v \<Longrightarrow> handleUpdateVolume (f v) = Limit_below_size (vol_size_bytes v)"
    using name ten by (simp add: handleUpdateVolume_def GB_def)
  assume r: "vol_max_size_bytes v = Some (k * GB + r)" "0 < k" "0 < r" "2 * r < GB" "vol_size_bytes v \<le> k * GB"
  have "js_round_div (k * GB + r) GB = k"
    using r(3,4) by (simp add: js_round_div_def GB_def)
  then have "limit_bytes (f v) = k * GB" using r(1,2,3) by (simp add: limit handleEditVolume_def GB_def)
  then show "\<exists>c. handleUpdateVolume (f v) = Update_sent (vol_id v) c \<and> vol_max_size_bytes (update_volume c v) = Some (k * GB)"
    using sent [of "k * GB"] r(2,5) by (simp add: GB_def)
qed


theorem renaming_changes_limit_witness:
  "\<exists>c. handleUpdateVolume ((handleEditVolume (demo_volume ''a'' 5))\<lparr>vf_display_name := ''b''\<rparr>) = Update_sent ''a'' c \<and>
    vol_max_size_bytes (update_volume c (demo_volume ''a'' 5)) = Some (10 * GB)"
  using renaming_changes_limit(1) [of "''b''" "demo_volume ''a'' 5"]
  by (simp add: demo_volume_def GB_def js_trim_def js_space_def)

text \<open>A description that is emptied is not sent, and stays.\<close>

lemma volume_description_stays:
  "lv_description (update_volume (volume_change (f\<lparr>vf_description := []\<rparr>)) v) = lv_description v"
  by (simp add: update_volume_def volume_change_def)

text \<open>
  The page of the forms: their errors are cleared on a submit and set by the page's own check only. Nothing shows a
  request that the backend refused.
\<close>

record VolumeDialogs =
  vd_create_open :: bool
  vd_create_form :: VolumeForm
  vd_create_error :: "string option"
  vd_create_pending :: bool

definition mountVolumes :: VolumeDialogs where
  "mountVolumes = \<lparr>vd_create_open = False, vd_create_form = emptyVolumeForm, vd_create_error = None, vd_create_pending = False\<rparr>"

definition submitCreate :: "VolumeDialogs \<Rightarrow> VolumeChange option \<times> VolumeDialogs" where
  "submitCreate d = (let r = handleCreateVolume (vd_create_form d)
     in (r, d\<lparr>vd_create_error := None, vd_create_pending := (vd_create_pending d \<or> r \<noteq> None)\<rparr>))"

definition createSucceeded :: "VolumeDialogs \<Rightarrow> VolumeDialogs" where
  "createSucceeded d = d\<lparr>vd_create_open := False, vd_create_form := emptyVolumeForm, vd_create_pending := False\<rparr>"

definition createRefused :: "VolumeDialogs \<Rightarrow> VolumeDialogs" where
  "createRefused d = d\<lparr>vd_create_pending := False\<rparr>"

lemma refused_volume_silent:
  "vd_create_error (createRefused (snd (submitCreate d))) = None \<and> vd_create_open (createRefused (snd (submitCreate d))) = vd_create_open d"
  by (simp add: createRefused_def submitCreate_def Let_def)

subsection \<open>Measuring again\<close>

text \<open>
  One mutation object serves all cards. \<open>fires i n\<close> says whether the callback given with call \<open>i\<close> (from 0) runs when it
  settles after \<open>n\<close> calls; the library's documentation promises it for the latest call only.
\<close>

record RefreshPage =
  rf_ids :: "string list"
  rf_calls :: "string list"

definition handleRefreshSize :: "string \<Rightarrow> RefreshPage \<Rightarrow> RefreshPage" where
  "handleRefreshSize i s = s\<lparr>rf_ids := (if i \<in> set (rf_ids s) then rf_ids s else rf_ids s @ [i]), rf_calls := rf_calls s @ [i]\<rparr>"

definition refreshSettled :: "(nat \<Rightarrow> nat \<Rightarrow> bool) \<Rightarrow> nat \<Rightarrow> RefreshPage \<Rightarrow> RefreshPage" where
  "refreshSettled fires n s =
    (if n < length (rf_calls s) \<and> fires n (length (rf_calls s))
     then s\<lparr>rf_ids := filter (\<lambda>i. i \<noteq> rf_calls s ! n) (rf_ids s)\<rparr> else s)"

datatype RefreshEvent = Refresh_clicked string | Refresh_settled nat

fun refresh_event :: "(nat \<Rightarrow> nat \<Rightarrow> bool) \<Rightarrow> RefreshEvent \<Rightarrow> RefreshPage \<Rightarrow> RefreshPage" where
  "refresh_event fires (Refresh_clicked i) s = (if i \<in> set (rf_ids s) then s else handleRefreshSize i s)"
| "refresh_event fires (Refresh_settled n) s = refreshSettled fires n s"

text \<open>
  A volume whose measurement was still running when another was asked for shows as being measured for good: its button
  stays disabled whatever is clicked and whatever settles afterwards.
\<close>

lemma refresh_stuck_step:
  assumes "\<forall>i n. fires i n \<longleftrightarrow> Suc i = n" and "a \<in> set (rf_ids s)" and "rf_calls s \<noteq> []" and "last (rf_calls s) \<noteq> a"
  shows "a \<in> set (rf_ids (refresh_event fires e s)) \<and> rf_calls (refresh_event fires e s) \<noteq> [] \<and>
    last (rf_calls (refresh_event fires e s)) \<noteq> a"
proof (cases e)
  case (Refresh_clicked i)
  then show ?thesis using assms by (auto simp: handleRefreshSize_def)
next
  case (Refresh_settled n)
  have "Suc n = length (rf_calls s) \<Longrightarrow> rf_calls s ! n = last (rf_calls s)"
    using assms(3) by (metis diff_Suc_1 last_conv_nth)
  then show ?thesis using assms Refresh_settled by (auto simp: refreshSettled_def)
qed

theorem overtaken_refresh_never_settles:
  assumes "\<forall>i n. fires i n \<longleftrightarrow> Suc i = n" and "a \<in> set (rf_ids s)" and "b \<notin> set (rf_ids s)"
  shows "a \<in> set (rf_ids (fold (refresh_event fires) (Refresh_clicked b # es) s))"
proof -
  let ?stuck = "\<lambda>s. a \<in> set (rf_ids s) \<and> rf_calls s \<noteq> [] \<and> last (rf_calls s) \<noteq> a"
  have "?stuck s \<Longrightarrow> ?stuck (fold (refresh_event fires) es s)" for s
  proof (induction es arbitrary: s)
    case (Cons e es)
    have "?stuck (refresh_event fires e s)" using refresh_stuck_step [OF assms(1)] Cons.prems by blast
    from Cons.IH [OF this] show ?case by simp
  qed simp
  moreover have "?stuck (refresh_event fires (Refresh_clicked b) s)" using assms(2,3) by (auto simp: handleRefreshSize_def)
  ultimately show ?thesis by simp
qed

theorem overtaken_refresh_never_settles_witness:
  "''a'' \<in> set (rf_ids (fold (refresh_event (\<lambda>i n. Suc i = n)) [Refresh_clicked ''b'', Refresh_settled 0, Refresh_settled 1]
     (handleRefreshSize ''a'' \<lparr>rf_ids = [], rf_calls = []\<rparr>)))"
  by (rule overtaken_refresh_never_settles) (simp_all add: handleRefreshSize_def)

text \<open>A measurement that is not overtaken settles.\<close>

lemma single_refresh_settles:
  "fires 0 1 \<Longrightarrow> rf_ids (fold (refresh_event fires) [Refresh_clicked a, Refresh_settled 0] \<lparr>rf_ids = [], rf_calls = []\<rparr>) = []"
  by (simp add: handleRefreshSize_def refreshSettled_def)

end
