(* ===== verification/Environment_Page.thy ===== *)
theory Environment_Page
  imports Admin_Hooks
begin

text \<open>
  The administration of the environments, \<^verbatim>\<open>routes/admin.environments.tsx\<close>: the dialog that creates and edits a
  template, next to the backend's update (\<^verbatim>\<open>backend/app/services/environment_service.py\<close>).
\<close>

subsection \<open>Paths in one field\<close>

text \<open>\<^verbatim>\<open>text.split(/[\s,]+/).filter(Boolean)\<close>: the non-empty parts between white space and commas.\<close>

definition mount_separator :: "char \<Rightarrow> bool" where
  "mount_separator c \<longleftrightarrow> js_space c \<or> c = CHR '',''"

fun parts :: "(char \<Rightarrow> bool) \<Rightarrow> string \<Rightarrow> string list" where
  "parts sep [] = [[]]"
| "parts sep (x # xs) = (if sep x then [] # parts sep xs else case parts sep xs of [] \<Rightarrow> [[x]] | y # ys \<Rightarrow> (x # y) # ys)"

definition mount_list :: "string \<Rightarrow> string list" where
  "mount_list s = filter (\<lambda>p. p \<noteq> []) (parts mount_separator s)"

lemma parts_no_sep: "\<forall>c \<in> set s. \<not> sep c \<Longrightarrow> parts sep s = [s]"
  by (induction s) auto

lemma parts_append: "\<forall>c \<in> set s. \<not> sep c \<Longrightarrow> sep c \<Longrightarrow> parts sep (s @ c # t) = s # parts sep t"
  by (induction s) auto

lemma parts_clean: "p \<in> set (parts sep s) \<Longrightarrow> \<forall>c \<in> set p. \<not> sep c"
proof (induction s arbitrary: p)
  case (Cons x xs)
  show ?case
  proof (cases "parts sep xs")
    case Nil
    with Cons.prems show ?thesis by (auto split: if_splits)
  next
    case (Cons y ys)
    with Cons.IH have "\<forall>q \<in> set (y # ys). \<forall>c \<in> set q. \<not> sep c" by simp
    with Cons Cons.prems show ?thesis by (auto split: if_splits)
  qed
qed simp

definition clean_mounts :: "string list \<Rightarrow> bool" where
  "clean_mounts ms \<longleftrightarrow> (\<forall>m \<in> set ms. m \<noteq> [] \<and> (\<forall>c \<in> set m. \<not> mount_separator c))"

text \<open>
  The field that lists the paths reads back what it shows, for paths without white space and commas; and paths of that
  kind are all it ever yields.
\<close>

theorem mounts_read_back:
  assumes "clean_mounts ms"
  shows "mount_list (js_join '' '' ms) = ms"
proof -
  have sep: "mount_separator CHR '' ''" by (simp add: mount_separator_def js_space_def)
  show ?thesis using assms
  proof (induction "'' ''" ms rule: js_join.induct)
    case (2 x)
    then show ?case by (simp add: mount_list_def clean_mounts_def parts_no_sep)
  next
    case (3 x y ys)
    then have "parts mount_separator (js_join '' '' (x # y # ys)) = x # parts mount_separator (js_join '' '' (y # ys))"
      using parts_append [of x mount_separator "CHR '' ''"] sep by (simp add: clean_mounts_def)
    moreover have "mount_list (js_join '' '' (y # ys)) = y # ys" using 3 by (simp add: clean_mounts_def)
    ultimately show ?case using 3 by (simp add: mount_list_def clean_mounts_def)
  qed (simp add: mount_list_def)
qed

theorem mounts_read_back_witness: "mount_list ''/opt/a /opt/b'' = [''/opt/a'', ''/opt/b'']"
  using mounts_read_back [of "[''/opt/a'', ''/opt/b'']"]
  by (simp add: clean_mounts_def mount_separator_def js_space_def)

lemma mount_list_clean: "clean_mounts (mount_list s)"
  unfolding clean_mounts_def mount_list_def using parts_clean by auto

subsection \<open>The dialog\<close>

record EnvForm =
  ev_name :: string
  ev_slug :: string
  ev_image :: string
  ev_tool_image :: string
  ev_tool_mounts :: string
  ev_description :: string
  ev_category :: string
  ev_icon :: string
  ev_color :: string
  ev_is_public :: bool

record EnvRow =
  er_id :: string
  er_name :: string
  er_slug :: string
  er_image :: string
  er_tool_image :: "string option"
  er_tool_mounts :: "string list"
  er_description :: "string option"
  er_category :: "string option"
  er_icon :: "string option"
  er_color :: "string option"
  er_is_public :: bool
  er_is_active :: bool

definition emptyEnvForm :: EnvForm where
  "emptyEnvForm = \<lparr>ev_name = [], ev_slug = [], ev_image = [], ev_tool_image = [], ev_tool_mounts = [], ev_description = [],
     ev_category = ''simulation'', ev_icon = [], ev_color = [], ev_is_public = True\<rparr>"

definition or_text :: "string option \<Rightarrow> string \<Rightarrow> string" where
  "or_text x d = (case x of None \<Rightarrow> d | Some v \<Rightarrow> if v = [] then d else v)"

definition env_form_of :: "EnvRow \<Rightarrow> EnvForm" where
  "env_form_of e = \<lparr>ev_name = er_name e, ev_slug = er_slug e, ev_image = er_image e, ev_tool_image = or_text (er_tool_image e) [],
     ev_tool_mounts = js_join '' '' (er_tool_mounts e), ev_description = or_text (er_description e) [],
     ev_category = or_text (er_category e) ''simulation'', ev_icon = or_text (er_icon e) [], ev_color = or_text (er_color e) [],
     ev_is_public = er_is_public e\<rparr>"

text \<open>What is sent; \<open>None\<close> is a field that is left out.\<close>

record EnvUpdate =
  eu_name :: string
  eu_image :: string
  eu_tool :: "(string \<times> string list) option"
  eu_description :: "string option"
  eu_category :: string
  eu_icon :: "string option"
  eu_color :: "string option"
  eu_is_public :: bool

definition if_given :: "string \<Rightarrow> string option" where
  "if_given s = (if s = [] then None else Some s)"

definition env_update :: "EnvForm \<Rightarrow> EnvUpdate" where
  "env_update f = (let toolImage = js_trim (ev_tool_image f); toolMounts = mount_list (ev_tool_mounts f)
     in \<lparr>eu_name = ev_name f, eu_image = ev_image f, eu_tool = Some (toolImage, if toolImage \<noteq> [] then toolMounts else []),
         eu_description = if_given (ev_description f), eu_category = ev_category f, eu_icon = if_given (ev_icon f),
         eu_color = if_given (ev_color f), eu_is_public = ev_is_public f\<rparr>)"

definition env_create :: "EnvForm \<Rightarrow> string \<times> EnvUpdate" where
  "env_create f = (let toolImage = js_trim (ev_tool_image f); toolMounts = mount_list (ev_tool_mounts f)
     in (ev_slug f, (env_update f)\<lparr>eu_tool := (if toolImage \<noteq> [] then Some (toolImage, toolMounts) else None)\<rparr>))"

record EnvDialog =
  ed_open :: bool
  ed_editing :: "EnvRow option"
  ed_form :: EnvForm
  ed_updates :: "(string \<times> EnvUpdate) list"
  ed_creates :: "(string \<times> EnvUpdate) list"

definition openCreateEnv :: "EnvDialog \<Rightarrow> EnvDialog" where
  "openCreateEnv d = d\<lparr>ed_editing := None, ed_form := emptyEnvForm, ed_open := True\<rparr>"

definition openEditEnv :: "EnvRow \<Rightarrow> EnvDialog \<Rightarrow> EnvDialog" where
  "openEditEnv e d = d\<lparr>ed_editing := Some e, ed_form := env_form_of e, ed_open := True\<rparr>"

definition submitEnv :: "EnvDialog \<Rightarrow> EnvDialog" where
  "submitEnv d = (case ed_editing d of
     Some e \<Rightarrow> d\<lparr>ed_updates := ed_updates d @ [(er_id e, env_update (ed_form d))], ed_open := False\<rparr>
   | None \<Rightarrow> d\<lparr>ed_creates := ed_creates d @ [env_create (ed_form d)], ed_open := False\<rparr>)"

definition update_environment :: "EnvUpdate \<Rightarrow> EnvRow \<Rightarrow> EnvRow" where
  "update_environment u e = e\<lparr>er_name := eu_name u, er_image := eu_image u,
     er_tool_image := (case eu_tool u of None \<Rightarrow> er_tool_image e | Some (i, _) \<Rightarrow> Some i),
     er_tool_mounts := (case eu_tool u of None \<Rightarrow> er_tool_mounts e | Some (_, ms) \<Rightarrow> ms),
     er_description := (case eu_description u of None \<Rightarrow> er_description e | Some t \<Rightarrow> Some t),
     er_category := Some (eu_category u),
     er_icon := (case eu_icon u of None \<Rightarrow> er_icon e | Some t \<Rightarrow> Some t),
     er_color := (case eu_color u of None \<Rightarrow> er_color e | Some t \<Rightarrow> Some t),
     er_is_public := eu_is_public u\<rparr>"

text \<open>A template as the page leaves it: its toolchain is written without blanks, its mounts go with it, and it has a category.\<close>

definition tidy_env :: "EnvRow \<Rightarrow> bool" where
  "tidy_env e \<longleftrightarrow> (\<exists>i. er_tool_image e = Some i \<and> js_trim i = i \<and> (i = [] \<longrightarrow> er_tool_mounts e = [])) \<and>
     clean_mounts (er_tool_mounts e) \<and> (\<exists>c. er_category e = Some c \<and> c \<noteq> [])"

lemma mounts_of_form: "clean_mounts (er_tool_mounts e) \<Longrightarrow> mount_list (ev_tool_mounts (env_form_of e)) = er_tool_mounts e"
  using mounts_read_back [of "er_tool_mounts e"] by (simp add: env_form_of_def)

lemma given_or_old: "(case if_given (or_text x []) of None \<Rightarrow> x | Some t \<Rightarrow> Some t) = x"
  by (auto simp: if_given_def or_text_def split: option.splits)

lemma or_text_Some [simp]: "or_text (Some i) [] = i"
  by (simp add: or_text_def)

text \<open>
  Opening the dialog on such a template and submitting it stores it as it was, whatever the dialog was used for before.
\<close>

theorem unedited_environment_kept:
  assumes "tidy_env e"
  shows "ed_updates (submitEnv (openEditEnv e d)) = ed_updates d @ [(er_id e, env_update (env_form_of e))] \<and>
    update_environment (env_update (env_form_of e)) e = e"
proof -
  obtain i c where e: "er_tool_image e = Some i" "js_trim i = i" "i = [] \<longrightarrow> er_tool_mounts e = []" "er_category e = Some c" "c \<noteq> []"
    and clean: "clean_mounts (er_tool_mounts e)" using assms by (auto simp: tidy_env_def)
  have tool: "eu_tool (env_update (env_form_of e)) = Some (i, er_tool_mounts e)"
    using e mounts_of_form [OF clean] by (auto simp: env_update_def Let_def) (simp_all add: env_form_of_def)
  have rest: "eu_description (env_update (env_form_of e)) = if_given (or_text (er_description e) [])"
      "eu_icon (env_update (env_form_of e)) = if_given (or_text (er_icon e) [])"
      "eu_color (env_update (env_form_of e)) = if_given (or_text (er_color e) [])"
      "eu_category (env_update (env_form_of e)) = c" "eu_name (env_update (env_form_of e)) = er_name e"
      "eu_image (env_update (env_form_of e)) = er_image e" "eu_is_public (env_update (env_form_of e)) = er_is_public e"
    using e by (simp_all add: env_update_def Let_def env_form_of_def or_text_def)
  have "update_environment (env_update (env_form_of e)) e = e"
    using e by (simp add: update_environment_def tool rest given_or_old)
  then show ?thesis by (simp add: submitEnv_def openEditEnv_def)
qed

definition demo_env :: EnvRow where
  "demo_env = \<lparr>er_id = ''1'', er_name = ''a'', er_slug = ''a'', er_image = ''img'', er_tool_image = Some ''tool'',
     er_tool_mounts = [''/opt/a''], er_description = Some ''d'', er_category = Some ''base'', er_icon = None, er_color = None,
     er_is_public = True, er_is_active = True\<rparr>"

theorem unedited_environment_kept_witness: "update_environment (env_update (env_form_of demo_env)) demo_env = demo_env"
  using unedited_environment_kept [of demo_env]
  by (simp add: tidy_env_def demo_env_def clean_mounts_def mount_separator_def js_space_def js_trim_def)

text \<open>
  Clearing the image of the toolchain detaches it with its mounts. Clearing the description, the icon or the colour
  changes nothing: these are left out when they are empty.
\<close>

theorem cleared_fields_of_environment:
  "er_tool_image (update_environment (env_update (f\<lparr>ev_tool_image := []\<rparr>)) e) = Some [] \<and>
   er_tool_mounts (update_environment (env_update (f\<lparr>ev_tool_image := []\<rparr>)) e) = [] \<and>
   er_description (update_environment (env_update (f\<lparr>ev_description := []\<rparr>)) e) = er_description e \<and>
   er_icon (update_environment (env_update (f\<lparr>ev_icon := []\<rparr>)) e) = er_icon e \<and>
   er_color (update_environment (env_update (f\<lparr>ev_color := []\<rparr>)) e) = er_color e"
  by (simp add: update_environment_def env_update_def Let_def if_given_def js_trim_def)

text \<open>A template without a category gets one by any edit.\<close>

lemma edit_gives_category:
  "er_category e = None \<Longrightarrow> er_category (update_environment (env_update (env_form_of e)) e) = Some ''simulation''"
  by (simp add: update_environment_def env_update_def env_form_of_def or_text_def Let_def)

text \<open>The dialog closes on the submit: when the backend refuses, what was typed is gone with the next opening.\<close>

lemma submitted_form_lost: "\<not> ed_open (submitEnv d)" "ed_form (openCreateEnv (submitEnv d)) = emptyEnvForm"
  by (simp_all add: submitEnv_def openCreateEnv_def split: option.splits)

subsection \<open>The list\<close>

definition env_active_filter :: "string option \<Rightarrow> bool option" where
  "env_active_filter v = (if v = Some ''true'' then Some True else if v = Some ''false'' then Some False else None)"

text \<open>Two questions of the browser; a cancelled one answers \<^verbatim>\<open>null\<close>.\<close>

definition cloneEnv :: "string \<Rightarrow> string option \<Rightarrow> string option \<Rightarrow> (string \<times> string \<times> string) option" where
  "cloneEnv i name slug = (case (name, slug) of
     (Some n, Some s) \<Rightarrow> if n \<noteq> [] \<and> s \<noteq> [] then Some (i, n, s) else None | _ \<Rightarrow> None)"

lemma clone_needs_both: "cloneEnv i name slug \<noteq> None \<longleftrightarrow> (\<exists>n s. name = Some n \<and> slug = Some s \<and> n \<noteq> [] \<and> s \<noteq> [])"
  by (auto simp: cloneEnv_def split: option.splits)

definition env_counts :: "nat option \<Rightarrow> EnvRow list \<Rightarrow> nat \<times> nat \<times> nat \<times> nat" where
  "env_counts total_envs es = (case total_envs of Some n \<Rightarrow> if n \<noteq> 0 then n else length es | None \<Rightarrow> length es,
     length (filter er_is_active es), length (filter er_is_public es),
     card (set (filter (\<lambda>c. c \<noteq> []) (map (\<lambda>e. or_text (er_category e) []) es))))"

text \<open>The number of all is of the whole list, those of the active and the public ones are of the page on display.\<close>

lemma counts_of_page: "length (filter er_is_active es) \<le> length es \<and> env_counts (Some (Suc n)) es = (Suc n, snd (env_counts None es))"
  by (simp add: env_counts_def)

end
