(* ===== verification/Notification_Settings.thy ===== *)
theory Notification_Settings
  imports Profile_Page "HOL-Library.AList"
begin

text \<open>
  The page of a user's notification preferences, \<^verbatim>\<open>routes/settings.notifications.tsx\<close>, next to the backend code that
  reads them: \<^verbatim>\<open>_get_user_notification_prefs\<close> and \<^verbatim>\<open>_should_send\<close> (\<^verbatim>\<open>backend/app/services/notification_service.py\<close>) and
  \<^verbatim>\<open>dispatch_to_user\<close> (\<^verbatim>\<open>webhook_service.py\<close>).
\<close>

subsection \<open>The rows\<close>

text \<open>The channels of a row are an object: keys with a switch, in order.\<close>

record EventPref =
  ep_event :: string
  ep_label :: string
  ep_description :: string
  ep_channels :: "(string \<times> bool) list"

definition all_channels :: "bool \<Rightarrow> bool \<Rightarrow> bool \<Rightarrow> bool \<Rightarrow> (string \<times> bool) list" where
  "all_channels e w i p = [(''email'', e), (''webhook'', w), (''in_app'', i), (''push'', p)]"

definition event_row :: "string \<Rightarrow> string \<Rightarrow> string \<Rightarrow> bool \<Rightarrow> bool \<Rightarrow> bool \<Rightarrow> bool \<Rightarrow> EventPref" where
  "event_row v l d e w i p = \<lparr>ep_event = v, ep_label = l, ep_description = d, ep_channels = all_channels e w i p\<rparr>"

definition defaultEvents :: "EventPref list" where
  "defaultEvents =
    [event_row ''server_start'' ''Server Started'' ''When a server is started'' False False True False,
     event_row ''server_stop'' ''Server Stopped'' ''When a server is stopped'' False False True False,
     event_row ''server_ready'' ''Server Ready'' ''When a server is ready to use'' True False True False,
     event_row ''server_failed'' ''Server Failed'' ''When a server fails to start'' True False True False,
     event_row ''server_backup_completed'' ''Backup Completed'' ''When a server backup finishes'' True False True False,
     event_row ''credit_low'' ''Low Credits'' ''When your credit balance is low'' True True True False,
     event_row ''credit_granted'' ''Credits Granted'' ''When credits are added to your account'' True False True False,
     event_row ''credit_request'' ''Credit Request Response'' ''When your credit request is approved or rejected'' True False True False,
     event_row ''daily_allowance'' ''Daily Allowance'' ''When your daily credit allowance is granted'' False False True False,
     event_row ''queue_position'' ''Queue Position'' ''Updates on your queue position'' False False True False,
     event_row ''schedule_run'' ''Schedule Executed'' ''When a scheduled task runs'' False False True False,
     event_row ''alert_fired'' ''Alert Fired'' ''When a system alert is triggered'' True True True False,
     event_row ''maintenance'' ''Maintenance Mode'' ''System maintenance notifications'' True True True False,
     event_row ''workspace_invite'' ''Workspace Invitation'' ''When you are invited to a workspace'' True False True False,
     event_row ''workspace_member_added'' ''Added to Workspace'' ''When you are added to a workspace'' True False True False,
     event_row ''workspace_member_removed'' ''Removed from Workspace'' ''When you are removed from a workspace'' True False True False,
     event_row ''ownership_transferred'' ''Ownership Transferred'' ''When workspace ownership is transferred to you'' True False True False,
     event_row ''volume_created'' ''Volume Created'' ''When a new volume is provisioned'' False False True False,
     event_row ''volume_near_limit'' ''Volume Near Limit'' ''When a volume reaches 90% capacity'' True False True False,
     event_row ''volume_deleted'' ''Volume Deleted'' ''When a volume is permanently removed'' True False True False,
     event_row ''api_key_created'' ''API Key Created'' ''When a new API key is generated'' True False True False]"

text \<open>A checkbox of a row: a channel the object has not is shown unchecked.\<close>

definition channel_shown :: "string \<Rightarrow> EventPref \<Rightarrow> bool" where
  "channel_shown c e \<longleftrightarrow> map_of (ep_channels e) c = Some True"

definition totalEnabled :: "EventPref list \<Rightarrow> nat" where
  "totalEnabled es = sum_list (map (\<lambda>e. length (filter id (map snd (ep_channels e)))) es)"

subsection \<open>The page\<close>

text \<open>What the user record holds under \<^verbatim>\<open>notifications\<close>, as the page reads it.\<close>

record SavedNotifications =
  sn_events :: "EventPref list option"
  sn_webhook_url :: "string option"

type_synonym NotifPayload = "EventPref list \<times> string"

record NotifPage =
  nf_rows :: "EventPref list"
  nf_webhook :: string
  nf_status :: string
  nf_timer :: "NotifPayload option"
  nf_flight :: "NotifPayload list"
  nf_me :: "SavedNotifications option"

definition loadNotifications :: "SavedNotifications \<Rightarrow> NotifPage \<Rightarrow> NotifPage" where
  "loadNotifications u s = s\<lparr>nf_rows := (case sn_events u of None \<Rightarrow> nf_rows s | Some es \<Rightarrow> es),
     nf_webhook := (case sn_webhook_url u of None \<Rightarrow> nf_webhook s | Some w \<Rightarrow> w)\<rparr>"

definition mountNotifications :: NotifPage where
  "mountNotifications = \<lparr>nf_rows = defaultEvents, nf_webhook = [], nf_status = ''idle'', nf_timer = None, nf_flight = [],
     nf_me = None\<rparr>"

text \<open>The effect on the cached user runs whenever that is another object, whatever in it has changed.\<close>

definition meChanges :: "SavedNotifications option \<Rightarrow> NotifPage \<Rightarrow> NotifPage" where
  "meChanges u s = (case u of None \<Rightarrow> s\<lparr>nf_me := None\<rparr> | Some n \<Rightarrow> loadNotifications n (s\<lparr>nf_me := Some n\<rparr>))"

definition triggerNotifSave :: "EventPref list \<Rightarrow> string \<Rightarrow> NotifPage \<Rightarrow> NotifPage" where
  "triggerNotifSave es w s = s\<lparr>nf_status := ''saving'', nf_timer := Some (es, w)\<rparr>"

definition toggle_row :: "string \<Rightarrow> EventPref \<Rightarrow> EventPref" where
  "toggle_row c e = e\<lparr>ep_channels := AList.update c (\<not> channel_shown c e) (ep_channels e)\<rparr>"

definition toggleChannel :: "nat \<Rightarrow> string \<Rightarrow> NotifPage \<Rightarrow> NotifPage" where
  "toggleChannel i c s = (if i < length (nf_rows s)
     then let updated = (nf_rows s)[i := toggle_row c (nf_rows s ! i)]
       in (triggerNotifSave updated (nf_webhook s) s)\<lparr>nf_rows := updated\<rparr>
     else s)"

definition handleWebhookChange :: "string \<Rightarrow> NotifPage \<Rightarrow> NotifPage" where
  "handleWebhookChange v s = triggerNotifSave (nf_rows s) v (s\<lparr>nf_webhook := v\<rparr>)"

definition set_all :: "bool \<Rightarrow> EventPref list \<Rightarrow> EventPref list" where
  "set_all b es = map (\<lambda>e. e\<lparr>ep_channels := all_channels b b b b\<rparr>) es"

definition handleSetAll :: "bool \<Rightarrow> NotifPage \<Rightarrow> NotifPage" where
  "handleSetAll b s = triggerNotifSave (set_all b (nf_rows s)) (nf_webhook s) (s\<lparr>nf_rows := set_all b (nf_rows s)\<rparr>)"

definition handleResetNotif :: "NotifPage \<Rightarrow> NotifPage" where
  "handleResetNotif s = triggerNotifSave defaultEvents [] (s\<lparr>nf_rows := defaultEvents, nf_webhook := []\<rparr>)"

definition notifTimer :: "NotifPage \<Rightarrow> NotifPage \<times> NotifPayload list" where
  "notifTimer s = (case nf_timer s of None \<Rightarrow> (s, []) | Some p \<Rightarrow> (s\<lparr>nf_timer := None, nf_flight := nf_flight s @ [p]\<rparr>, [p]))"

definition notifSaved :: "NotifPayload \<Rightarrow> NotifPage \<Rightarrow> NotifPage" where
  "notifSaved p s = (let s1 = s\<lparr>nf_status := ''saved'', nf_flight := remove1 p (nf_flight s)\<rparr>
     in case nf_me s of None \<Rightarrow> s1
        | Some _ \<Rightarrow> meChanges (Some \<lparr>sn_events = Some (fst p), sn_webhook_url = Some (snd p)\<rparr>) s1)"

definition notifFailed :: "NotifPayload \<Rightarrow> NotifPage \<Rightarrow> NotifPage" where
  "notifFailed p s = s\<lparr>nf_status := ''idle'', nf_flight := remove1 p (nf_flight s)\<rparr>"

datatype NotifEvent = Toggled nat string | Webhook_typed string | All_set bool | Reset_clicked | Notif_timer
  | Notif_saved NotifPayload | Notif_failed NotifPayload | Me_changes "SavedNotifications option"

fun notif_event :: "NotifEvent \<Rightarrow> NotifPage \<Rightarrow> NotifPage \<times> NotifPayload list" where
  "notif_event (Toggled i c) s = (toggleChannel i c s, [])"
| "notif_event (Webhook_typed v) s = (handleWebhookChange v s, [])"
| "notif_event (All_set b) s = (handleSetAll b s, [])"
| "notif_event Reset_clicked s = (handleResetNotif s, [])"
| "notif_event Notif_timer s = notifTimer s"
| "notif_event (Notif_saved p) s = (if p \<in> set (nf_flight s) then notifSaved p s else s, [])"
| "notif_event (Notif_failed p) s = (if p \<in> set (nf_flight s) then notifFailed p s else s, [])"
| "notif_event (Me_changes u) s = (meChanges u s, [])"

fun notif_run :: "NotifEvent list \<Rightarrow> NotifPage \<Rightarrow> NotifPage \<times> NotifPayload list" where
  "notif_run [] s = (s, [])"
| "notif_run (e # es) s = (let (s1, r1) = notif_event e s; (s2, r2) = notif_run es s1 in (s2, r1 @ r2))"

definition event_json :: "EventPref \<Rightarrow> json" where
  "event_json e = JObj [(''event'', JStr (ep_event e)), (''label'', JStr (ep_label e)),
     (''description'', JStr (ep_description e)), (''channels'', JObj (map (\<lambda>(c, b). (c, JBool b)) (ep_channels e)))]"

definition notif_body :: "NotifPayload \<Rightarrow> (string \<times> json) list" where
  "notif_body p = [(''notifications'',
     JObj [(''events'', JArr (map event_json (fst p))), (''webhook_url'', JStr (snd p))])]"

subsection \<open>The backend's side\<close>

text \<open>The truth value of a stored value in Python: unlike in JavaScript, empty lists and dictionaries are false.\<close>

fun py_truthy :: "json \<Rightarrow> bool" where
  "py_truthy (JArr xs) = (xs \<noteq> [])"
| "py_truthy (JObj kvs) = (kvs \<noteq> [])"
| "py_truthy v = js_truthy v"

definition DEFAULT_CHANNELS :: "(string \<times> json) list" where
  "DEFAULT_CHANNELS = [(''email'', JBool False), (''webhook'', JBool False), (''in_app'', JBool True), (''push'', JBool False)]"

text \<open>
  \<^verbatim>\<open>{e["event"]: e.get("channels", DEFAULT_CHANNELS) for e in events}\<close>: the entry of an element, \<open>None\<close> where Python
  raises; the handler then answers no preferences at all. Of two entries for an event the later one counts.
\<close>

fun event_entry :: "json \<Rightarrow> (json \<times> json) option" where
  "event_entry (JObj kvs) = (case map_of kvs ''event'' of None \<Rightarrow> None | Some (JArr _) \<Rightarrow> None | Some (JObj _) \<Rightarrow> None
     | Some k \<Rightarrow> Some (k, case map_of kvs ''channels'' of None \<Rightarrow> JObj DEFAULT_CHANNELS | Some c \<Rightarrow> c))"
| "event_entry _ = None"

definition notification_prefs :: "(string \<times> json) list \<Rightarrow> (json \<times> json) list" where
  "notification_prefs prefs = (case map_of prefs ''notifications'' of
     Some (JObj n) \<Rightarrow> (case map_of n ''events'' of
        Some (JArr es) \<Rightarrow> (case those (map event_entry es) of Some l \<Rightarrow> rev l | None \<Rightarrow> []) | _ \<Rightarrow> [])
   | _ \<Rightarrow> [])"

definition default_channel :: "string \<Rightarrow> bool" where
  "default_channel c = (case map_of DEFAULT_CHANNELS c of None \<Rightarrow> False | Some v \<Rightarrow> py_truthy v)"

text \<open>\<^verbatim>\<open>_should_send\<close>; \<open>None\<close> where the stored channels are no dictionary and Python raises.\<close>

definition should_send :: "(json \<times> json) list \<Rightarrow> string \<Rightarrow> string \<Rightarrow> bool option" where
  "should_send prefs key c = (case (case map_of prefs (JStr key) of None \<Rightarrow> JObj DEFAULT_CHANNELS | Some ch \<Rightarrow> ch) of
     JObj ch \<Rightarrow> Some (case map_of ch c of None \<Rightarrow> default_channel c | Some v \<Rightarrow> py_truthy v)
   | _ \<Rightarrow> None)"

text \<open>Each notification the backend has, by its method, with the key it asks the preferences for.\<close>

definition event_keys :: "(string \<times> string) list" where
  "event_keys =
    [(''server_started'', ''server_start''),
     (''server_ready'', ''server_ready''),
     (''server_idle_warning'', ''server_stop''),
     (''server_stopped'', ''server_stop''),
     (''server_restarted'', ''server_start''),
     (''server_deleted'', ''server_stop''),
     (''credits_granted'', ''credit_granted''),
     (''credits_deducted'', ''credit_low''),
     (''credit_request_rejected'', ''credit_request''),
     (''credit_request_created'', ''credit_request''),
     (''credit_request_allowance_approved'', ''credit_request''),
     (''credit_request_block_changed'', ''credit_request''),
     (''credit_request_stale_reminder'', ''credit_request''),
     (''credit_request_message'', ''credit_request''),
     (''daily_allowance'', ''daily_allowance''),
     (''low_balance'', ''credit_low''),
     (''queue_timeout'', ''queue_position''),
     (''server_failed'', ''server_start''),
     (''workspace_invitation'', ''workspace_invite''),
     (''workspace_member_added'', ''workspace_member_added''),
     (''workspace_member_removed'', ''workspace_member_removed''),
     (''ownership_transferred'', ''ownership_transferred''),
     (''volume_created'', ''volume_created''),
     (''volume_near_limit'', ''volume_near_limit''),
     (''volume_deleted'', ''volume_deleted''),
     (''api_key_created'', ''api_key_created''),
     (''maintenance_window'', ''maintenance''),
     (''server_backup_completed'', ''server_backup_completed'')]"

definition EVENT_KEY_MAP :: "(string \<times> string) list" where
  "EVENT_KEY_MAP =
    [(''server_started'', ''server_start''),
     (''server_stopped'', ''server_stop''),
     (''server_restarted'', ''server_start''),
     (''server_deleted'', ''server_stop''),
     (''server_ready'', ''server_ready''),
     (''server_failed'', ''server_failed''),
     (''server_idle_warning'', ''server_stop''),
     (''server_backup_completed'', ''server_backup_completed''),
     (''credits_granted'', ''credit_granted''),
     (''credits_deducted'', ''credit_low''),
     (''credit_request_rejected'', ''credit_request''),
     (''credit_request_created'', ''credit_request''),
     (''credit_request_message'', ''credit_request''),
     (''credit_request_allowance_approved'', ''credit_request''),
     (''credit_request_stale_reminder'', ''credit_request''),
     (''credit_request_block_changed'', ''credit_request''),
     (''daily_allowance'', ''daily_allowance''),
     (''low_balance'', ''credit_low''),
     (''workspace_invitation'', ''workspace_invite''),
     (''workspace_member_added'', ''workspace_member_added''),
     (''workspace_member_removed'', ''workspace_member_removed''),
     (''ownership_transferred'', ''ownership_transferred''),
     (''volume_created'', ''volume_created''),
     (''volume_near_limit'', ''volume_near_limit''),
     (''volume_deleted'', ''volume_deleted''),
     (''api_key_created'', ''api_key_created''),
     (''queue_timeout'', ''queue_position''),
     (''alert_fired'', ''alert_fired''),
     (''maintenance'', ''maintenance''),
     (''schedule_run'', ''schedule_run''),
     (''queue_position'', ''queue_position'')]"

text \<open>\<^verbatim>\<open>user.preferences.get("webhook_url")\<close>; nothing is sent when it is missing or empty.\<close>

definition dispatch_url :: "(string \<times> json) list \<Rightarrow> json option" where
  "dispatch_url prefs = (case map_of prefs ''webhook_url'' of None \<Rightarrow> None | Some v \<Rightarrow> if py_truthy v then Some v else None)"

subsection \<open>What the switches do\<close>

definition four_channels :: "string list" where
  "four_channels = [''email'', ''webhook'', ''in_app'', ''push'']"

definition row_ok :: "EventPref \<Rightarrow> bool" where
  "row_ok e \<longleftrightarrow> map fst (ep_channels e) = four_channels"

definition rows_ok :: "EventPref list \<Rightarrow> bool" where
  "rows_ok es \<longleftrightarrow> distinct (map ep_event es) \<and> list_all row_ok es"

lemma map_fst_all_channels [simp]: "map fst (all_channels e w i p) = four_channels"
  by (simp add: all_channels_def four_channels_def)

lemma default_rows_ok: "rows_ok defaultEvents"
  unfolding rows_ok_def defaultEvents_def by (simp add: event_row_def row_ok_def)

lemma set_all_ok: "rows_ok es \<Longrightarrow> rows_ok (set_all b es)"
  by (simp add: rows_ok_def set_all_def row_ok_def list_all_iff comp_def)

lemma toggle_row_ok: "row_ok e \<Longrightarrow> c \<in> set four_channels \<Longrightarrow> row_ok (toggle_row c e)"
  by (simp add: row_ok_def toggle_row_def update_keys)

lemma toggled_rows_ok:
  assumes "rows_ok es" and "i < length es" and "c \<in> set four_channels"
  shows "rows_ok (es[i := toggle_row c (es ! i)])"
proof -
  have "map ep_event (es[i := toggle_row c (es ! i)]) = map ep_event es"
    using assms(2) by (simp add: map_update toggle_row_def list_update_same_conv)
  moreover have "list_all row_ok (es[i := toggle_row c (es ! i)])"
    using assms toggle_row_ok [of "es ! i" c] by (auto simp: rows_ok_def list_all_iff dest: set_update_subset_insert [THEN subsetD])
  ultimately show ?thesis using assms(1) by (simp add: rows_ok_def)
qed

text \<open>What the page is given: switches of the four columns, and saved rows as the page itself writes them.\<close>

fun notif_input_ok :: "NotifEvent \<Rightarrow> bool" where
  "notif_input_ok (Toggled i c) = (c \<in> set four_channels)"
| "notif_input_ok (Me_changes (Some u)) = (case sn_events u of None \<Rightarrow> True | Some es \<Rightarrow> rows_ok es)"
| "notif_input_ok e = True"

definition page_ok :: "NotifPage \<Rightarrow> bool" where
  "page_ok s \<longleftrightarrow> rows_ok (nf_rows s) \<and> list_all (rows_ok \<circ> fst) (nf_flight s) \<and>
     (case nf_timer s of None \<Rightarrow> True | Some p \<Rightarrow> rows_ok (fst p))"

lemma mount_page_ok: "page_ok mountNotifications"
  by (simp add: page_ok_def mountNotifications_def default_rows_ok)

lemma flight_removed: "list_all P xs \<Longrightarrow> list_all P (remove1 x xs)"
  by (simp add: list_all_iff notin_set_remove1) (meson notin_set_remove1)

lemma notif_event_ok: "page_ok s \<Longrightarrow> notif_input_ok e \<Longrightarrow>
    page_ok (fst (notif_event e s)) \<and> list_all (rows_ok \<circ> fst) (snd (notif_event e s))"
proof (induction e s rule: notif_event.induct)
  case (1 i c s)
  then show ?case by (simp add: toggleChannel_def Let_def triggerNotifSave_def page_ok_def toggled_rows_ok)
next
  case (5 s)
  then show ?case by (auto simp: notifTimer_def page_ok_def split: option.splits)
next
  case (6 p s)
  then show ?case
    by (auto simp: notifSaved_def Let_def meChanges_def loadNotifications_def page_ok_def flight_removed list_all_iff
        split: option.splits dest: set_remove1_subset [THEN subsetD])
next
  case (7 p s)
  then show ?case by (auto simp: notifFailed_def page_ok_def flight_removed)
next
  case (8 u s)
  then show ?case by (cases u) (auto simp: meChanges_def loadNotifications_def page_ok_def split: option.splits)
qed (simp_all add: handleWebhookChange_def handleSetAll_def handleResetNotif_def triggerNotifSave_def page_ok_def
    set_all_ok default_rows_ok)

lemma notif_run_ok: "page_ok s \<Longrightarrow> list_all notif_input_ok evs \<Longrightarrow> notif_run evs s = (s', payloads) \<Longrightarrow>
    page_ok s' \<and> list_all (rows_ok \<circ> fst) payloads"
proof (induction evs arbitrary: s s' payloads)
  case (Cons e evs)
  obtain s1 r1 s2 r2 where e: "notif_event e s = (s1, r1)" and r: "notif_run evs s1 = (s2, r2)" by fastforce
  have "page_ok s1 \<and> list_all (rows_ok \<circ> fst) r1" using notif_event_ok [of s e] Cons.prems e by simp
  moreover from this have "page_ok s2 \<and> list_all (rows_ok \<circ> fst) r2" using Cons.IH [OF _ _ r] Cons.prems by (simp add: comp_def)
  ultimately show ?case using Cons.prems e r by (auto simp: comp_def)
qed simp

lemma stored_notifications:
  "map_of (merge_preferences (notif_body p) current) ''notifications'' = map_of (notif_body p) ''notifications''"
proof -
  have "''notifications'' \<in> set preference_keys" by (simp add: preference_keys_def)
  then show ?thesis by (simp add: merge_preferences_def notif_body_def fold_preferences stored_preference_def)
qed

definition row_entry :: "EventPref \<Rightarrow> json \<times> json" where
  "row_entry e = (JStr (ep_event e), JObj (map (\<lambda>(c, b). (c, JBool b)) (ep_channels e)))"

lemma event_entry_row [simp]: "event_entry (event_json e) = Some (row_entry e)"
  by (simp add: event_json_def row_entry_def)

lemma entries_of_rows: "those (map event_entry (map event_json es)) = Some (map row_entry es)"
  by (induction es) simp_all

lemma prefs_of_payload: "notification_prefs (merge_preferences (notif_body p) current) = rev (map row_entry (fst p))"
  using entries_of_rows [of "fst p"] by (simp add: notification_prefs_def stored_notifications) (simp add: notif_body_def)

lemma row_looked_up:
  assumes "distinct (map ep_event es)" and "e \<in> set es"
  shows "map_of (rev (map row_entry es)) (JStr (ep_event e)) = Some (snd (row_entry e))"
proof -
  have "distinct (map fst (rev (map row_entry es)))"
    using assms(1) by (simp add: rev_map row_entry_def comp_def distinct_map inj_on_def)
  then show ?thesis using assms(2) by (simp add: row_entry_def map_of_eq_Some_iff image_iff) (auto simp: row_entry_def)
qed

lemma map_of_bools: "map_of (map (\<lambda>(c, b). (c, JBool b)) kvs) c = map_option JBool (map_of kvs c)"
  by (induction kvs) auto

lemma should_send_row:
  assumes "rows_ok es" and "e \<in> set es" and "c \<in> set four_channels"
  shows "should_send (rev (map row_entry es)) (ep_event e) c = Some (channel_shown c e)"
proof -
  have "map fst (ep_channels e) = four_channels" using assms by (simp add: rows_ok_def row_ok_def list_all_iff)
  then have "c \<in> fst ` set (ep_channels e)" using assms(3) by (metis set_map)
  then obtain b where "map_of (ep_channels e) c = Some b" by (metis domD dom_map_of_conv_image_fst)
  then show ?thesis using row_looked_up [of es e] assms
    by (simp add: should_send_def rows_ok_def row_entry_def map_of_bools channel_shown_def)
qed

text \<open>
  C37. Whatever was clicked, typed, loaded, saved or refused before: once the backend has stored a request of the page, its
  check of the preferences answers, for the event and each of the four channels of a row, what the row shows. (That a
  check answers yes does not mean that something is sent: see \<open>saved_webhook_never_used\<close> and \<open>dead_notification_rows\<close>.)
\<close>

theorem switches_reach_backend:
  assumes "list_all notif_input_ok evs" and "notif_run evs mountNotifications = (s', payloads)"
    and "(es, w) \<in> set payloads" and "e \<in> set es" and "c \<in> set four_channels"
  shows "should_send (notification_prefs (merge_preferences (notif_body (es, w)) current)) (ep_event e) c =
    Some (channel_shown c e)"
proof -
  have "rows_ok es" using notif_run_ok [OF mount_page_ok assms(1, 2)] assms(3) by (auto simp: list_all_iff)
  then show ?thesis using assms(4, 5) by (simp add: prefs_of_payload should_send_row)
qed

theorem switches_reach_backend_witness:
  "should_send (notification_prefs (merge_preferences (notif_body (defaultEvents[0 := toggle_row ''push'' (defaultEvents ! 0)], [])) []))
    ''server_start'' ''push'' = Some True"
proof -
  let ?e = "toggle_row ''push'' (defaultEvents ! 0)"
  have len: "0 < length defaultEvents" by (simp add: defaultEvents_def)
  have run: "notif_run [Toggled 0 ''push'', Notif_timer] mountNotifications =
      (fst (notif_run [Toggled 0 ''push'', Notif_timer] mountNotifications), [(defaultEvents[0 := ?e], [])])"
    using len by (simp add: mountNotifications_def toggleChannel_def Let_def triggerNotifSave_def notifTimer_def)
  have "should_send (notification_prefs (merge_preferences (notif_body (defaultEvents[0 := ?e], [])) []))
      (ep_event ?e) ''push'' = Some (channel_shown ''push'' ?e)"
    by (rule switches_reach_backend [OF _ run]) (use len in \<open>auto simp: four_channels_def set_update_memI\<close>)
  moreover have "ep_event ?e = ''server_start''" "channel_shown ''push'' ?e"
    by (simp_all add: defaultEvents_def event_row_def toggle_row_def channel_shown_def all_channels_def)
  ultimately show ?thesis by simp
qed

lemma set_all_events: "e \<in> set (set_all b es) \<Longrightarrow> c \<in> set four_channels \<Longrightarrow> channel_shown c e = b"
  by (auto simp: set_all_def channel_shown_def all_channels_def four_channels_def)

text \<open>
  \<^verbatim>\<open>Disable All\<close> on a page with the rows of the program, saved, leaves no notification of the service that is sent
  over any channel; \<^verbatim>\<open>Enable All\<close> leaves none that is not sent over all.
\<close>

lemma service_keys_are_rows: "set (map snd event_keys) \<subseteq> ep_event ` set defaultEvents"
  by (simp add: event_keys_def defaultEvents_def event_row_def)

theorem all_switches_cover_service:
  "map (\<lambda>k. map (should_send (notification_prefs (merge_preferences (notif_body (set_all b defaultEvents, w)) current)) k) four_channels)
     (map snd event_keys) = replicate (length event_keys) (replicate 4 (Some b))"
proof -
  let ?prefs = "notification_prefs (merge_preferences (notif_body (set_all b defaultEvents, w)) current)"
  have "should_send ?prefs k c = Some b" if "k \<in> set (map snd event_keys)" and c: "c \<in> set four_channels" for k c
  proof -
    from that(1) service_keys_are_rows obtain e where "e \<in> set defaultEvents" "k = ep_event e" by blast
    then obtain e' where e': "e' \<in> set (set_all b defaultEvents)" "k = ep_event e'"
      using that [of "e\<lparr>ep_channels := all_channels b b b b\<rparr>"] by (simp add: set_all_def)
    then have "should_send ?prefs k c = Some (channel_shown c e')"
      using should_send_row [OF set_all_ok [OF default_rows_ok] e'(1) c] by (simp add: prefs_of_payload)
    then show ?thesis using set_all_events [OF e'(1) c] by simp
  qed
  then have "map (should_send ?prefs k) four_channels = replicate 4 (Some b)" if "k \<in> set (map snd event_keys)" for k
    using that by (simp add: four_channels_def numeral_eq_Suc)
  then have "map (\<lambda>k. map (should_send ?prefs k) four_channels) (map snd event_keys) =
      map (\<lambda>k. replicate 4 (Some b)) (map snd event_keys)" by (intro map_cong) auto
  then show ?thesis by (simp add: map_replicate_const comp_def)
qed

text \<open>
  Three rows switch nothing: no notification of the service asks for their key. That a server failed is announced under
  the key of the row for started servers, although the table of keys names the row for failed ones.
\<close>

theorem dead_notification_rows:
  "filter (\<lambda>k. k \<notin> set (map snd event_keys)) (map ep_event defaultEvents) = [''server_failed'', ''schedule_run'', ''alert_fired''] \<and>
   map_of event_keys ''server_failed'' = Some ''server_start'' \<and> map_of EVENT_KEY_MAP ''server_failed'' = Some ''server_failed''"
  by (simp add: event_keys_def EVENT_KEY_MAP_def defaultEvents_def event_row_def)

text \<open>
  For a user who has never saved the page, it shows the rows of the program, and fifteen of them promise e-mails; the
  backend sends none before the first change of any switch, which turns all of them on.
\<close>

definition mailed_rows :: "EventPref list \<Rightarrow> string list" where
  "mailed_rows es = map ep_event (filter (channel_shown ''email'') es)"

theorem shown_defaults_not_used:
  assumes "map_of prefs ''notifications'' = None"
  shows "length (mailed_rows (nf_rows mountNotifications)) = 15 \<and>
    filter (\<lambda>k. should_send (notification_prefs prefs) k ''email'' \<noteq> Some False) (map ep_event defaultEvents) = [] \<and>
    (\<forall>k. should_send (notification_prefs prefs) k ''in_app'' = Some True)"
proof -
  have "should_send (notification_prefs prefs) k ''email'' = Some False"
      "should_send (notification_prefs prefs) k ''in_app'' = Some True" for k
    using assms by (simp_all add: notification_prefs_def should_send_def DEFAULT_CHANNELS_def)
  moreover have "length (mailed_rows (nf_rows mountNotifications)) = 15"
    by (simp add: mountNotifications_def mailed_rows_def defaultEvents_def event_row_def channel_shown_def all_channels_def)
  ultimately show ?thesis by simp
qed

theorem shown_defaults_not_used_witness:
  "filter (\<lambda>k. should_send (notification_prefs [(''use_gravatar'', JBool True)]) k ''email'' \<noteq> Some False)
    (map ep_event defaultEvents) = []"
  using shown_defaults_not_used [of "[(''use_gravatar'', JBool True)]"] by simp

text \<open>
  The page stores the address of the webhook among the notification preferences; the backend looks for it beside them,
  under a key that no request for preferences can set. A webhook is never sent.
\<close>

lemma put_preference_unknown: "k \<notin> set ks \<Longrightarrow> map_of (fold (put_preference body) ks acc) k = map_of acc k"
  by (induction ks arbitrary: acc) (auto simp: put_preference_other)

theorem saved_webhook_never_used:
  "map_of (merge_preferences (notif_body (es, w)) current) ''notifications'' =
     Some (JObj [(''events'', JArr (map event_json es)), (''webhook_url'', JStr w)]) \<and>
   dispatch_url (fold merge_preferences bodies []) = None"
proof -
  have "''webhook_url'' \<notin> set preference_keys" by (simp add: preference_keys_def)
  then have step: "map_of (merge_preferences body prefs) ''webhook_url'' = map_of prefs ''webhook_url''" for body prefs
    by (simp add: merge_preferences_def put_preference_unknown)
  have "map_of (fold merge_preferences bodies prefs) ''webhook_url'' = map_of prefs ''webhook_url''" for prefs
    by (induction bodies arbitrary: prefs) (simp_all add: step)
  then show ?thesis using stored_notifications [of "(es, w)" current] by (simp add: dispatch_url_def) (simp add: notif_body_def)
qed

text \<open>The answer to an earlier save, and any other change of the cached user, put a typed address back.\<close>

lemma late_answer_undoes_typing:
  "nf_me s = Some u \<Longrightarrow> (es, w) \<in> set (nf_flight s) \<Longrightarrow>
    nf_webhook (fst (notif_run [Webhook_typed v, Notif_saved (es, w)] s)) = w"
  by (simp add: handleWebhookChange_def triggerNotifSave_def notifSaved_def meChanges_def loadNotifications_def)

lemma me_change_undoes_typing:
  "sn_webhook_url u = Some w \<Longrightarrow> nf_webhook (fst (notif_run [Webhook_typed v, Me_changes (Some u)] s)) = w"
  by (simp add: handleWebhookChange_def triggerNotifSave_def meChanges_def loadNotifications_def)

lemma enabled_after_set_all: "totalEnabled (set_all b es) = (if b then 4 * length es else 0)"
  by (induction es) (auto simp: totalEnabled_def set_all_def all_channels_def)

end
