(* ===== verification/Users_Page.thy ===== *)
theory Users_Page
  imports Admin_Controls
begin

text \<open>
  The administration of the accounts, \<^verbatim>\<open>routes/admin.users.index.tsx\<close>: the dialog that creates and edits them, next to
  the routes and the service behind it (\<^verbatim>\<open>backend/app/api/users.py\<close>, \<^verbatim>\<open>backend/app/services/user_service.py\<close>) and the
  order of the roles (\<^verbatim>\<open>backend/app/core/roles.py\<close>).
\<close>

subsection \<open>The dialog\<close>

record UserForm =
  uf_username :: string
  uf_email :: string
  uf_password :: string
  uf_role :: string
  uf_first_name :: string
  uf_last_name :: string
  uf_credits :: int
  uf_daily_allowance :: int

record ListedUser =
  lu_id :: string
  lu_username :: string
  lu_email :: string
  lu_role :: string
  lu_first_name :: "string option"
  lu_last_name :: "string option"
  lu_daily_allowance :: "int option"

record UsersPage =
  ux_open :: bool
  ux_editing :: "ListedUser option"
  ux_form :: UserForm
  ux_system :: int

definition emptyUserForm :: "int \<Rightarrow> UserForm" where
  "emptyUserForm systemAllowance = \<lparr>uf_username = [], uf_email = [], uf_password = [], uf_role = ''user'',
     uf_first_name = [], uf_last_name = [], uf_credits = 500, uf_daily_allowance = systemAllowance\<rparr>"

text \<open>Until the system's allowance has arrived it counts as 500.\<close>

definition mountUsers :: UsersPage where
  "mountUsers = \<lparr>ux_open = False, ux_editing = None, ux_form = emptyUserForm 500, ux_system = 500\<rparr>"

definition openCreateUser :: "UsersPage \<Rightarrow> UsersPage" where
  "openCreateUser s = s\<lparr>ux_editing := None, ux_form := emptyUserForm (ux_system s), ux_open := True\<rparr>"

definition name_text :: "string option \<Rightarrow> string" where
  "name_text n = (case n of None \<Rightarrow> [] | Some v \<Rightarrow> v)"

definition user_form_of :: "int \<Rightarrow> ListedUser \<Rightarrow> UserForm" where
  "user_form_of systemAllowance u = \<lparr>uf_username = lu_username u, uf_email = lu_email u, uf_password = [],
     uf_role = lu_role u, uf_first_name = name_text (lu_first_name u), uf_last_name = name_text (lu_last_name u),
     uf_credits = 500,
     uf_daily_allowance = (case lu_daily_allowance u of None \<Rightarrow> systemAllowance | Some a \<Rightarrow> a)\<rparr>"

definition openEditUser :: "ListedUser \<Rightarrow> UsersPage \<Rightarrow> UsersPage" where
  "openEditUser u s = s\<lparr>ux_editing := Some u, ux_form := user_form_of (ux_system s) u, ux_open := True\<rparr>"

text \<open>
  The effect on the system's allowance and on what is edited: outside an edit it puts the allowance into the form. It
  runs when one of the two has changed.
\<close>

definition allowanceEffect :: "UsersPage \<Rightarrow> UsersPage" where
  "allowanceEffect s = (if ux_editing s = None then s\<lparr>ux_form := (ux_form s)\<lparr>uf_daily_allowance := ux_system s\<rparr>\<rparr> else s)"

definition systemAllowanceArrives :: "int \<Rightarrow> UsersPage \<Rightarrow> UsersPage" where
  "systemAllowanceArrives a s = (if ux_system s = a then s else allowanceEffect (s\<lparr>ux_system := a\<rparr>))"

text \<open>A number field: \<^verbatim>\<open>parseInt(e.target.value) || 0\<close>.\<close>

definition int_field :: "string \<Rightarrow> int" where
  "int_field v = (case js_parseInt10 v of None \<Rightarrow> 0 | Some n \<Rightarrow> n)"

definition typeAllowance :: "string \<Rightarrow> UsersPage \<Rightarrow> UsersPage" where
  "typeAllowance v s = s\<lparr>ux_form := (ux_form s)\<lparr>uf_daily_allowance := int_field v\<rparr>\<rparr>"

definition typeCredits :: "string \<Rightarrow> UsersPage \<Rightarrow> UsersPage" where
  "typeCredits v s = s\<lparr>ux_form := (ux_form s)\<lparr>uf_credits := int_field v\<rparr>\<rparr>"

text \<open>The roles of the selection field.\<close>

definition role_options :: "bool \<Rightarrow> string list" where
  "role_options may_delete = [''user'', ''moderator'', ''support'', ''guest''] @
     (if may_delete then [''admin'', ''super_admin''] else [])"

text \<open>The requests; \<open>None\<close> is a field that is left out.\<close>

record UserUpdate =
  uu_first_name :: "string option"
  uu_last_name :: "string option"
  uu_email :: "string option"
  uu_role :: "string option"

record UserCreate =
  uc_username :: string
  uc_email :: string
  uc_password :: string
  uc_role :: string
  uc_first_name :: "string option"
  uc_last_name :: "string option"
  uc_credits :: int
  uc_daily_allowance :: int

datatype UserRequest = Put_user string UserUpdate | Post_user UserCreate

definition sent_name :: "string \<Rightarrow> string option" where
  "sent_name n = (if n = [] then None else Some n)"

definition edit_payload :: "UserForm \<Rightarrow> UserUpdate" where
  "edit_payload f = \<lparr>uu_first_name = sent_name (uf_first_name f), uu_last_name = sent_name (uf_last_name f),
     uu_email = Some (uf_email f), uu_role = Some (uf_role f)\<rparr>"

definition create_payload :: "UserForm \<Rightarrow> UserCreate" where
  "create_payload f = \<lparr>uc_username = uf_username f, uc_email = uf_email f, uc_password = uf_password f, uc_role = uf_role f,
     uc_first_name = sent_name (uf_first_name f), uc_last_name = sent_name (uf_last_name f), uc_credits = uf_credits f,
     uc_daily_allowance = uf_daily_allowance f\<rparr>"

definition submitUser :: "UsersPage \<Rightarrow> UserRequest" where
  "submitUser s = (case ux_editing s of Some u \<Rightarrow> Put_user (lu_id u) (edit_payload (ux_form s))
     | None \<Rightarrow> Post_user (create_payload (ux_form s)))"

definition userSaved :: "UsersPage \<Rightarrow> UsersPage" where
  "userSaved s = s\<lparr>ux_open := False\<rparr>"

text \<open>What the page offers by the viewer's permissions: the button to create, and the buttons of a row.\<close>

datatype UserButton = Edit_user_button | Adjust_button | Delete_user_button

definition manages_users :: "bool \<Rightarrow> bool \<Rightarrow> bool \<Rightarrow> bool" where
  "manages_users create update del \<longleftrightarrow> create \<or> update \<or> del"

definition user_buttons :: "bool \<Rightarrow> bool \<Rightarrow> bool \<Rightarrow> bool \<Rightarrow> UserButton list" where
  "user_buttons create update del credits = (if manages_users create update del
     then [Edit_user_button] @ (if credits then [Adjust_button] else []) @ (if del then [Delete_user_button] else []) else [])"

subsection \<open>The backend\<close>

definition ROLE_HIERARCHY :: "(string \<times> int) list" where
  "ROLE_HIERARCHY = [(''super_admin'', 5), (''admin'', 4), (''moderator'', 3), (''support'', 2), (''user'', 1), (''guest'', 0)]"

definition get_role_level :: "string \<Rightarrow> int" where
  "get_role_level r = (case map_of ROLE_HIERARCHY r of None \<Rightarrow> - 1 | Some n \<Rightarrow> n)"

definition is_valid_role :: "string \<Rightarrow> bool" where
  "is_valid_role r \<longleftrightarrow> r \<in> set VALID_ROLES"

datatype UserError = Own_role_refused | Permission_missing string | Higher_target | Higher_role | Invalid_role
  | Username_taken | Email_taken | Invalid_request

text \<open>
  The update of an account by someone, as far as the dialog's request goes. Without an address of a free account the
  database refuses; that is left out, and so are the checks of lengths.
\<close>

definition service_update :: "RoleTable \<Rightarrow> User \<Rightarrow> UserUpdate \<Rightarrow> ListedUser \<Rightarrow> UserError + ListedUser" where
  "service_update T actor d u =
    (let u1 = u\<lparr>lu_first_name := (case uu_first_name d of None \<Rightarrow> lu_first_name u | Some n \<Rightarrow> Some n),
           lu_last_name := (case uu_last_name d of None \<Rightarrow> lu_last_name u | Some n \<Rightarrow> Some n),
           lu_email := (case uu_email d of None \<Rightarrow> lu_email u | Some e \<Rightarrow> e)\<rparr>
     in case uu_role d of None \<Rightarrow> Inr u1
        | Some r \<Rightarrow>
            if \<not> has_permission T (Some actor) USERS_UPDATE then Inl (Permission_missing USERS_UPDATE)
            else if get_role_level (lu_role u) > get_role_level (role actor) then Inl Higher_target
            else if get_role_level r > get_role_level (role actor) then Inl Higher_role
            else if is_valid_role r then Inr (u1\<lparr>lu_role := r\<rparr>)
            else Inl Invalid_role)"

definition update_user_route :: "RoleTable \<Rightarrow> User \<Rightarrow> UserUpdate \<Rightarrow> ListedUser \<Rightarrow> UserError + ListedUser" where
  "update_user_route T actor d u =
    (if user_id actor \<noteq> lu_id u
     then if \<not> has_permission T (Some actor) USERS_UPDATE then Inl (Permission_missing USERS_UPDATE) else service_update T actor d u
     else if uu_role d \<noteq> None then Inl Own_role_refused else service_update T actor d u)"

text \<open>The bounds of the request's model.\<close>

definition valid_create :: "UserCreate \<Rightarrow> bool" where
  "valid_create d \<longleftrightarrow> 3 \<le> length (uc_username d) \<and> length (uc_username d) \<le> 255 \<and> length (uc_email d) \<le> 255 \<and>
     6 \<le> length (uc_password d) \<and> list_all (\<lambda>n. case n of None \<Rightarrow> True | Some t \<Rightarrow> length t \<le> 255) [uc_first_name d, uc_last_name d] \<and>
     0 \<le> uc_credits d \<and> 0 \<le> uc_daily_allowance d"

text \<open>The account that is made; \<open>new_id\<close> is the database's.\<close>

definition create_user_route :: "RoleTable \<Rightarrow> User \<Rightarrow> UserCreate \<Rightarrow> ListedUser list \<Rightarrow> string \<Rightarrow> UserError + ListedUser" where
  "create_user_route T actor d users new_id =
    (if \<not> valid_create d then Inl Invalid_request
     else if \<not> has_permission T (Some actor) USERS_CREATE then Inl (Permission_missing USERS_CREATE)
     else if \<not> is_valid_role (uc_role d) then Inl Invalid_role
     else if uc_username d \<in> set (map lu_username users) then Inl Username_taken
     else if uc_email d \<in> set (map lu_email users) then Inl Email_taken
     else Inr \<lparr>lu_id = new_id, lu_username = uc_username d, lu_email = uc_email d, lu_role = uc_role d,
        lu_first_name = uc_first_name d, lu_last_name = uc_last_name d, lu_daily_allowance = Some (uc_daily_allowance d)\<rparr>)"

subsection \<open>What edits do\<close>

text \<open>The client's copy of the order of the roles is the backend's.\<close>

lemma role_orders_agree: "ROLE_HIERARCHY = ROLE_LEVELS" "VALID_ROLES = map fst ROLE_LEVELS"
  by (simp_all add: ROLE_HIERARCHY_def ROLE_LEVELS_def VALID_ROLES_def ROLE_PERMISSIONS_def)

text \<open>
  C25. Of the edits sent by the dialog of the page, which always name a role: one that the backend accepts was made by
  someone who may update accounts, on an account of someone else that was not above them and does not come to be above
  them; it changes the address, the role and the names that were not cleared. The backend checks the order only where a
  role is named, see below.
\<close>

theorem accepted_edits_respect_order:
  assumes "submitUser (s\<lparr>ux_editing := Some v\<rparr>) = Put_user i d" and "update_user_route T actor d u = Inr u'"
  shows "has_permission T (Some actor) USERS_UPDATE \<and> user_id actor \<noteq> lu_id u \<and>
    get_role_level (lu_role u) \<le> get_role_level (role actor) \<and> get_role_level (lu_role u') \<le> get_role_level (role actor) \<and>
    lu_role u' = uf_role (ux_form s) \<and> lu_email u' = uf_email (ux_form s) \<and>
    lu_first_name u' = (if uf_first_name (ux_form s) = [] then lu_first_name u else Some (uf_first_name (ux_form s)))"
  using assms
  by (auto simp: submitUser_def edit_payload_def update_user_route_def service_update_def Let_def sent_name_def split: if_splits)

definition demo_operator :: User where
  "demo_operator = \<lparr>user_id = ''a'', username = ''root'', role = ''admin'', permissions = None, is_active = True, preferences = None\<rparr>"

definition demo_listed :: ListedUser where
  "demo_listed = \<lparr>lu_id = ''7'', lu_username = ''ada'', lu_email = ''a@b'', lu_role = ''user'', lu_first_name = Some ''Ada'',
     lu_last_name = None, lu_daily_allowance = Some 500\<rparr>"

lemma role_has: "is_active a \<Longrightarrow> map_of ROLE_PERMISSIONS (role a) = Some ps \<Longrightarrow> p \<in> set ps \<Longrightarrow> has_permission (map_of ROLE_PERMISSIONS) (Some a) p"
  using raw_in_expanded [of p "map_of ROLE_PERMISSIONS" "role a"] by (simp add: has_permission_def get_role_permissions_def)

lemma admin_may_update: "is_active a \<Longrightarrow> role a = ''admin'' \<Longrightarrow> has_permission (map_of ROLE_PERMISSIONS) (Some a) USERS_UPDATE"
  by (rule role_has [where ps = "the (map_of ROLE_PERMISSIONS ''admin'')"]) (simp_all add: ROLE_PERMISSIONS_def)

lemma admin_may_create: "is_active a \<Longrightarrow> role a = ''admin'' \<Longrightarrow> has_permission (map_of ROLE_PERMISSIONS) (Some a) USERS_CREATE"
  by (rule role_has [where ps = "the (map_of ROLE_PERMISSIONS ''admin'')"]) (simp_all add: ROLE_PERMISSIONS_def)

theorem accepted_edits_respect_order_witness:
  "\<exists>u'. update_user_route (map_of ROLE_PERMISSIONS) demo_operator (edit_payload ((user_form_of 500 demo_listed)\<lparr>uf_role := ''support''\<rparr>)) demo_listed = Inr u' \<and>
     get_role_level (lu_role u') \<le> get_role_level ''admin''"
proof -
  let ?f = "(user_form_of 500 demo_listed)\<lparr>uf_role := ''support''\<rparr>"
  let ?s = "(openEditUser demo_listed mountUsers)\<lparr>ux_form := ?f\<rparr>"
  have "has_permission (map_of ROLE_PERMISSIONS) (Some demo_operator) USERS_UPDATE" by (rule admin_may_update) (simp_all add: demo_operator_def)
  then obtain u' where u': "update_user_route (map_of ROLE_PERMISSIONS) demo_operator (edit_payload ?f) demo_listed = Inr u'"
    by (simp add: update_user_route_def service_update_def Let_def edit_payload_def user_form_of_def demo_listed_def
        demo_operator_def get_role_level_def ROLE_HIERARCHY_def is_valid_role_def VALID_ROLES_def ROLE_PERMISSIONS_def)
  have "submitUser (?s\<lparr>ux_editing := Some demo_listed\<rparr>) = Put_user ''7'' (edit_payload ?f)"
    by (simp add: submitUser_def openEditUser_def demo_listed_def)
  from accepted_edits_respect_order [OF this u'] have "get_role_level (lu_role u') \<le> get_role_level ''admin''"
    by (auto simp: demo_operator_def)
  with u' show ?thesis by blast
qed

text \<open>
  Without a role in the request the order of the roles does not count: whoever may update accounts can change the address
  of one above them, and with it where its password is reset. Own accounts can be changed without any permission.
\<close>

theorem order_unchecked_without_role:
  assumes "uu_role d = None"
  shows "(\<exists>u'. update_user_route T actor d u = Inr u') \<longleftrightarrow> user_id actor = lu_id u \<or> has_permission T (Some actor) USERS_UPDATE"
  using assms by (simp add: update_user_route_def service_update_def)

theorem order_unchecked_without_role_witness:
  "\<exists>u'. update_user_route (map_of ROLE_PERMISSIONS) (demo_operator\<lparr>role := ''moderator''\<rparr>)
     \<lparr>uu_first_name = None, uu_last_name = None, uu_email = Some ''m@b'', uu_role = None\<rparr> (demo_listed\<lparr>lu_role := ''super_admin''\<rparr>) = Inr u'"
proof -
  have "has_permission (map_of ROLE_PERMISSIONS) (Some (demo_operator\<lparr>role := ''moderator''\<rparr>)) USERS_UPDATE"
    by (rule role_has [where ps = "the (map_of ROLE_PERMISSIONS ''moderator'')"]) (simp_all add: ROLE_PERMISSIONS_def demo_operator_def)
  then show ?thesis by (subst order_unchecked_without_role) simp_all
qed

text \<open>
  Opening the dialog on an account and submitting it leaves the account as it was, when the backend accepts. A cleared
  name comes back, as it is left out.
\<close>

theorem unedited_user_kept:
  assumes "submitUser (openEditUser u s) = Put_user i d" and "update_user_route T actor d u = Inr u'"
  shows "i = lu_id u \<and> u' = u"
  using assms
  by (cases "lu_first_name u"; cases "lu_last_name u")
    (auto simp: submitUser_def openEditUser_def edit_payload_def user_form_of_def update_user_route_def service_update_def
      Let_def sent_name_def name_text_def split: if_splits)

text \<open>
  The dialog always sends the role, and the backend refuses a request about oneself that has one: nobody can edit the
  own account in this dialog.
\<close>

theorem own_account_never_edited:
  "update_user_route T actor (edit_payload f) (u\<lparr>lu_id := user_id actor\<rparr>) = Inl Own_role_refused"
  by (simp add: update_user_route_def edit_payload_def)

text \<open>
  The order of the roles is not checked when an account is created. The page offers administrators the role above
  theirs, and the backend creates the account; it refuses to give that role to an existing one.
\<close>

theorem admin_creates_super_admin:
  assumes "is_active a" and "role a = ''admin''" and "valid_create (create_payload f)"
    and "uf_username f \<notin> set (map lu_username users)" and "uf_email f \<notin> set (map lu_email users)"
    and "user_id a \<noteq> lu_id u" and "lu_role u = ''user''"
  shows "''super_admin'' \<in> set (role_options (checkPermission (Some (profile_user (map_of ROLE_PERMISSIONS) a)) USERS_DELETE)) \<and>
    map_sum id lu_role (create_user_route (map_of ROLE_PERMISSIONS) a (create_payload (f\<lparr>uf_role := ''super_admin''\<rparr>)) users new_id) = Inr ''super_admin'' \<and>
    update_user_route (map_of ROLE_PERMISSIONS) a (edit_payload ((user_form_of 500 u)\<lparr>uf_role := ''super_admin''\<rparr>)) u = Inl Higher_role"
proof -
  have "map_of ROLE_PERMISSIONS (role a) = Some (the (map_of ROLE_PERMISSIONS ''admin''))" using assms(2) by (simp add: ROLE_PERMISSIONS_def)
  moreover have "USERS_DELETE \<in> set (the (map_of ROLE_PERMISSIONS ''admin''))" by code_simp
  ultimately have "checkPermission (Some (profile_user (map_of ROLE_PERMISSIONS) a)) USERS_DELETE"
    by (simp only: profile_check [OF _ assms(1)] simp_thms)
  moreover have "valid_create (create_payload (f\<lparr>uf_role := ''super_admin''\<rparr>))"
    using assms(3) by (simp add: valid_create_def create_payload_def)
  then have "map_sum id lu_role (create_user_route (map_of ROLE_PERMISSIONS) a (create_payload (f\<lparr>uf_role := ''super_admin''\<rparr>)) users new_id) = Inr ''super_admin''"
    using assms(4, 5) admin_may_create [OF assms(1, 2)]
    by (simp add: create_user_route_def) (simp add: create_payload_def is_valid_role_def VALID_ROLES_def ROLE_PERMISSIONS_def)
  moreover have "update_user_route (map_of ROLE_PERMISSIONS) a (edit_payload ((user_form_of 500 u)\<lparr>uf_role := ''super_admin''\<rparr>)) u = Inl Higher_role"
    using assms(2, 6, 7) admin_may_update [OF assms(1, 2)]
    by (simp add: update_user_route_def service_update_def Let_def edit_payload_def get_role_level_def ROLE_HIERARCHY_def)
  ultimately show ?thesis by (simp add: role_options_def)
qed

theorem admin_creates_super_admin_witness:
  "map_sum id lu_role (create_user_route (map_of ROLE_PERMISSIONS) demo_operator (create_payload ((emptyUserForm 500)\<lparr>uf_username := ''eve'', uf_email := ''e@b'',
      uf_password := ''secret'', uf_role := ''super_admin''\<rparr>)) [demo_listed] ''8'') = Inr ''super_admin''"
  using admin_creates_super_admin [of demo_operator "(emptyUserForm 500)\<lparr>uf_username := ''eve'', uf_email := ''e@b'',
      uf_password := ''secret''\<rparr>" "[demo_listed]" demo_listed "''8''"]
  by (simp add: demo_operator_def demo_listed_def valid_create_def create_payload_def emptyUserForm_def sent_name_def)

text \<open>Without the permission to delete accounts, no offered role is above a moderator.\<close>

lemma moderator_offers: "list_all (\<lambda>r. is_valid_role r \<and> get_role_level r \<le> get_role_level ''moderator'') (role_options False)"
  by (simp add: role_options_def is_valid_role_def VALID_ROLES_def ROLE_PERMISSIONS_def get_role_level_def ROLE_HIERARCHY_def)

text \<open>The system's allowance, when it arrives late, replaces the one that was typed for a new account.\<close>

lemma late_allowance_overwrites:
  "a \<noteq> ux_system s \<Longrightarrow> submitUser (systemAllowanceArrives a (typeAllowance v (openCreateUser s))) =
    Post_user (create_payload (emptyUserForm a))"
  by (simp add: systemAllowanceArrives_def allowanceEffect_def typeAllowance_def openCreateUser_def submitUser_def emptyUserForm_def)

lemma edit_survives_allowance:
  "submitUser (systemAllowanceArrives a (openEditUser u s)) = submitUser (openEditUser u s)"
  by (simp add: systemAllowanceArrives_def allowanceEffect_def openEditUser_def submitUser_def edit_payload_def)

end
