(* ===== verification/System_Settings.thy ===== *)
theory System_Settings
  imports Profile_Page Calendar "HOL-Library.AList"
begin

text \<open>
  The settings of the system: the six numbers of \<^verbatim>\<open>components/admin/credits/settings-tab.tsx\<close> and the retention policy of
  \<^verbatim>\<open>routes/admin.settings.tsx\<close>, the latter next to the backend that stores it (\<^verbatim>\<open>core/retention.py\<close>,
  \<^verbatim>\<open>services/retention_service.py\<close>) and to the task that deletes by it (\<^verbatim>\<open>cleanup_expired_data\<close> in \<^verbatim>\<open>tasks.py\<close>).
\<close>

subsection \<open>The numbers of the credit settings\<close>

text \<open>
  Four of the inputs show the state of the page; two are given a default value and a key, so they keep their own text
  and are made anew when the value of the server changes. \<open>se_dom\<close> is that text.
\<close>

record SettingCell =
  se_uncontrolled :: bool
  se_value :: "int option"
  se_input :: string
  se_dom :: string
  se_pending :: bool

definition mountSetting :: "bool \<Rightarrow> SettingCell" where
  "mountSetting unc = \<lparr>se_uncontrolled = unc, se_value = None, se_input = [], se_dom = [], se_pending = False\<rparr>"

definition setting_shown :: "SettingCell \<Rightarrow> string" where
  "setting_shown c = (if se_uncontrolled c \<and> se_value c \<noteq> None then se_dom c else se_input c)"

definition settingArrives :: "int \<Rightarrow> SettingCell \<Rightarrow> SettingCell" where
  "settingArrives v c = (if se_value c = Some v then c
     else if se_uncontrolled c then c\<lparr>se_value := Some v, se_dom := show_int v\<rparr>
     else c\<lparr>se_value := Some v, se_input := show_int v\<rparr>)"

definition typeSetting :: "string \<Rightarrow> SettingCell \<Rightarrow> SettingCell" where
  "typeSetting t c = (if se_pending c then c else c\<lparr>se_input := t, se_dom := t\<rparr>)"

text \<open>The button is disabled in the cases in which the handler returns, and while a save is pending.\<close>

definition saveSetting :: "SettingCell \<Rightarrow> SettingCell \<times> int option" where
  "saveSetting c = (if se_pending c then (c, None) else case js_parseInt10 (se_input c) of
     None \<Rightarrow> (c, None)
   | Some n \<Rightarrow> if n < 0 \<or> se_value c = Some n then (c, None) else (c\<lparr>se_pending := True\<rparr>, Some n))"

definition settingSettled :: "SettingCell \<Rightarrow> SettingCell" where
  "settingSettled c = c\<lparr>se_pending := False\<rparr>"

datatype SettingEvent = Value_arrives int | Setting_typed string | Setting_saved | Setting_settled

fun setting_event :: "SettingEvent \<Rightarrow> SettingCell \<Rightarrow> SettingCell \<times> int option" where
  "setting_event (Value_arrives v) c = (settingArrives v c, None)"
| "setting_event (Setting_typed t) c = (typeSetting t c, None)"
| "setting_event Setting_saved c = saveSetting c"
| "setting_event Setting_settled c = (settingSettled c, None)"

fun setting_run :: "SettingEvent list \<Rightarrow> SettingCell \<Rightarrow> SettingCell" where
  "setting_run [] c = c"
| "setting_run (e # es) c = setting_run es (fst (setting_event e c))"

lemma setting_event_kind: "se_uncontrolled (fst (setting_event e c)) = se_uncontrolled c"
  by (cases e) (auto simp: settingArrives_def typeSetting_def saveSetting_def settingSettled_def split: option.splits)

lemma setting_run_kind: "se_uncontrolled (setting_run es c) = se_uncontrolled c"
  by (induction es arbitrary: c) (simp_all add: setting_event_kind)

text \<open>
  An input of the first kind saves the number it shows, one that is not negative and not the one the server has.
\<close>

theorem controlled_saves_what_it_shows:
  assumes "setting_run es (mountSetting False) = c" and "snd (saveSetting c) = Some n"
  shows "js_parseInt10 (setting_shown c) = Some n \<and> 0 \<le> n \<and> se_value c \<noteq> Some n"
  using assms(2) setting_run_kind [of es "mountSetting False"] assms(1)
  by (auto simp: saveSetting_def setting_shown_def mountSetting_def split: if_splits option.splits)

theorem controlled_saves_what_it_shows_witness:
  "js_parseInt10 (setting_shown (setting_run [Value_arrives 500, Setting_typed ''40''] (mountSetting False))) = Some 40"
  using controlled_saves_what_it_shows [OF refl, of "[Value_arrives 500, Setting_typed ''40'']" 40]
  by (simp add: mountSetting_def settingArrives_def typeSetting_def saveSetting_def js_parseInt10_def js_space_def
      is_digit_def read_digits_def digit_val_def)

text \<open>
  One of the second kind does not: when another value arrives after something was typed, it shows that value while the
  button stays enabled, and the button saves what was typed before.
\<close>

theorem uncontrolled_saves_hidden_text:
  assumes "js_parseInt10 t = Some n" and "0 \<le> n" and "a \<noteq> b" and "n \<noteq> b"
    and "setting_run [Value_arrives a, Setting_typed t, Value_arrives b] (mountSetting True) = c"
  shows "setting_shown c = show_int b \<and> snd (saveSetting c) = Some n"
  using assms by (auto simp: mountSetting_def settingArrives_def typeSetting_def saveSetting_def setting_shown_def)

theorem uncontrolled_saves_hidden_text_witness:
  "snd (saveSetting (setting_run [Value_arrives 24, Setting_typed (show_nat 0), Value_arrives 48] (mountSetting True))) = Some 0"
  using uncontrolled_saves_hidden_text [of "show_nat 0" 0 24 48] by simp

lemma arrived_value_not_saved: "0 \<le> v \<Longrightarrow> se_value c \<noteq> Some v \<Longrightarrow> \<not> se_uncontrolled c \<Longrightarrow>
    snd (saveSetting (settingArrives v c)) = None \<and> setting_shown (settingArrives v c) = show_int v"
  by (simp add: settingArrives_def saveSetting_def setting_shown_def)

subsection \<open>The retention policy on the page\<close>

definition retention_fields :: "(string \<times> int \<times> int) list" where
  "retention_fields =
    [(''metrics_retention_days'', 7, 365), (''system_metrics_retention_days'', 7, 730),
     (''health_check_retention_days'', 7, 365), (''alert_history_retention_days'', 7, 730),
     (''activity_log_retention_days'', 30, 1825), (''notification_retention_days'', 7, 365),
     (''daily_rollup_retention_days'', 30, 1825)]"

record RetentionPage =
  rt_policy :: "(string \<times> json) list"
  rt_edits :: "(string \<times> json) list"
  rt_pending :: bool

text \<open>\<^verbatim>\<open>retentionEdits[key] ?? retentionPolicy[key]\<close>\<close>

definition retention_shown :: "RetentionPage \<Rightarrow> string \<Rightarrow> json option" where
  "retention_shown s k = (case map_of (rt_edits s) k of Some v \<Rightarrow> Some v | None \<Rightarrow> map_of (rt_policy s) k)"

definition handleRetentionChange :: "string \<Rightarrow> json \<Rightarrow> RetentionPage \<Rightarrow> RetentionPage" where
  "handleRetentionChange k v s = s\<lparr>rt_edits := obj_set k v (rt_edits s)\<rparr>"

text \<open>\<^verbatim>\<open>parseInt(e.target.value, 10) || field.min\<close>\<close>

definition typed_days :: "int \<Rightarrow> string \<Rightarrow> json" where
  "typed_days lo t = (case js_parseInt10 t of None \<Rightarrow> JNum lo 0 | Some n \<Rightarrow> JNum (if n = 0 then lo else n) 0)"

definition resetRetention :: "RetentionPage \<Rightarrow> RetentionPage" where
  "resetRetention s = s\<lparr>rt_edits := []\<rparr>"

definition handleSaveRetention :: "RetentionPage \<Rightarrow> RetentionPage \<times> (string \<times> json) list option" where
  "handleSaveRetention s = (if rt_pending s \<or> rt_edits s = [] then (s, None) else (s\<lparr>rt_pending := True\<rparr>, Some (rt_edits s)))"

definition retentionSaved :: "RetentionPage \<Rightarrow> RetentionPage" where
  "retentionSaved s = s\<lparr>rt_edits := [], rt_pending := False\<rparr>"

definition retentionRefused :: "RetentionPage \<Rightarrow> RetentionPage" where
  "retentionRefused s = s\<lparr>rt_pending := False\<rparr>"

definition policyArrives :: "(string \<times> json) list \<Rightarrow> RetentionPage \<Rightarrow> RetentionPage" where
  "policyArrives p s = s\<lparr>rt_policy := p\<rparr>"

subsection \<open>The backend's policy\<close>

definition DEFAULT_RETENTION_POLICIES :: "(string \<times> json) list" where
  "DEFAULT_RETENTION_POLICIES =
    [(''metrics_retention_days'', JNum 30 0), (''system_metrics_retention_days'', JNum 90 0),
     (''health_check_retention_days'', JNum 30 0), (''alert_history_retention_days'', JNum 90 0),
     (''activity_log_retention_days'', JNum 365 0), (''notification_retention_days'', JNum 30 0),
     (''daily_rollup_retention_days'', JNum 730 0), (''cleanup_enabled'', JBool True), (''cleanup_run_hour'', JNum 4 0)]"

definition VALIDATION_RANGES :: "(string \<times> int \<times> int) list" where
  "VALIDATION_RANGES =
    [(''metrics_retention_days'', 7, 365), (''system_metrics_retention_days'', 7, 730),
     (''health_check_retention_days'', 7, 365), (''alert_history_retention_days'', 7, 730),
     (''activity_log_retention_days'', 30, 1825), (''notification_retention_days'', 7, 365),
     (''daily_rollup_retention_days'', 30, 1825), (''cleanup_run_hour'', 0, 23)]"

text \<open>Python's \<^verbatim>\<open>int\<close> of a text: the text without white space around it is a sign and digits, or it raises.\<close>

definition py_int_of_string :: "string \<Rightarrow> int option" where
  "py_int_of_string s = (let t = js_trim s;
      (sg, ds) = (case t of [] \<Rightarrow> (1, []) | c # cs \<Rightarrow> if c = CHR ''-'' then (- 1, cs) else if c = CHR ''+'' then (1, cs) else (1, t))
    in if ds = [] \<or> \<not> list_all is_digit ds then None else Some (sg * int (read_digits ds)))"

fun py_int :: "json \<Rightarrow> int option" where
  "py_int (JNum m s) = Some (if m < 0 then - (- m div 10 ^ s) else m div 10 ^ s)"
| "py_int (JBool b) = Some (if b then 1 else 0)"
| "py_int (JStr t) = py_int_of_string t"
| "py_int _ = None"

fun py_bool_setting :: "json \<Rightarrow> bool" where
  "py_bool_setting (JStr t) = (js_toLowerCase t = ''true'')"
| "py_bool_setting (JArr xs) = (xs \<noteq> [])"
| "py_bool_setting (JObj kvs) = (kvs \<noteq> [])"
| "py_bool_setting v = js_truthy v"

datatype RetentionError = Unknown_setting string | Invalid_integer string | Out_of_range string

definition validate_setting :: "string \<Rightarrow> json \<Rightarrow> RetentionError + json" where
  "validate_setting k v = (case map_of DEFAULT_RETENTION_POLICIES k of
     None \<Rightarrow> Inl (Unknown_setting k)
   | Some (JBool _) \<Rightarrow> Inr (JBool (py_bool_setting v))
   | Some _ \<Rightarrow> (case py_int v of
        None \<Rightarrow> Inl (Invalid_integer k)
      | Some n \<Rightarrow> (case map_of VALIDATION_RANGES k of
           None \<Rightarrow> Inr (JNum n 0)
         | Some (lo, hi) \<Rightarrow> if lo \<le> n \<and> n \<le> hi then Inr (JNum n 0) else Inl (Out_of_range k))))"

fun validate_updates :: "(string \<times> json) list \<Rightarrow> RetentionError + (string \<times> json) list" where
  "validate_updates [] = Inr []"
| "validate_updates ((k, v) # kvs) = (case validate_setting k v of Inl e \<Rightarrow> Inl e
     | Inr w \<Rightarrow> (case validate_updates kvs of Inl e \<Rightarrow> Inl e | Inr ws \<Rightarrow> Inr ((k, w) # ws)))"

text \<open>\<^verbatim>\<open>str(value)\<close> of a validated value, and the rows that store them.\<close>

fun py_str :: "json \<Rightarrow> string" where
  "py_str (JBool b) = (if b then ''True'' else ''False'')"
| "py_str (JNum n s) = show_decimal n s"
| "py_str v = js_String v"

definition set_policy :: "(string \<times> json) list \<Rightarrow> (string \<times> string) list \<Rightarrow> RetentionError + (string \<times> string) list" where
  "set_policy updates db = (case validate_updates updates of Inl e \<Rightarrow> Inl e
     | Inr ws \<Rightarrow> Inr (fold (\<lambda>(k, w). AList.update k (py_str w)) ws db))"

definition read_setting :: "(string \<times> string) list \<Rightarrow> string \<times> json \<Rightarrow> string \<times> json" where
  "read_setting db kv = (case map_of db (fst kv) of None \<Rightarrow> kv
     | Some t \<Rightarrow> (fst kv, case snd kv of
          JBool b \<Rightarrow> JBool (if t = [] then b else js_toLowerCase t = ''true'')
        | d \<Rightarrow> (case py_int_of_string t of None \<Rightarrow> d | Some n \<Rightarrow> JNum n 0)))"

definition get_policy :: "(string \<times> string) list \<Rightarrow> (string \<times> json) list" where
  "get_policy db = map (read_setting db) DEFAULT_RETENTION_POLICIES"

text \<open>How the task reads a setting, and whether it deletes.\<close>

definition get_retention_days :: "(string \<times> string) list \<Rightarrow> string \<Rightarrow> int \<Rightarrow> int" where
  "get_retention_days db k d = (case map_of db k of None \<Rightarrow> d
     | Some t \<Rightarrow> if t = [] then d else case py_int_of_string t of None \<Rightarrow> d | Some n \<Rightarrow> n)"

definition cleanup_runs :: "(string \<times> string) list \<Rightarrow> bool" where
  "cleanup_runs db \<longleftrightarrow> get_retention_days db ''cleanup_enabled'' 1 \<noteq> 0"

text \<open>
  The tables the task works on: rows by the time they were made, in milliseconds, those of the daily rollups by their day.
\<close>

record StoredData =
  sd_server_metrics :: "int list"
  sd_system_metrics :: "int list"
  sd_health_checks :: "int list"
  sd_alert_history :: "int list"
  sd_activity_logs :: "int list"
  sd_credit_transactions :: "int list"
  sd_notifications :: "int list"
  sd_daily_rollups :: "int list"
  sd_request_metrics :: "int list"

definition cutoff :: "int \<Rightarrow> int \<Rightarrow> int" where
  "cutoff now days = now - days * day_ms"

definition kept_since :: "int \<Rightarrow> int \<Rightarrow> int list \<Rightarrow> int list" where
  "kept_since now days rows = filter (\<lambda>t. \<not> t < cutoff now days) rows"

text \<open>
  The task, when no statement fails. Before the rows of the ledger are deleted, whole months of it are dropped; which
  months lie in partitions of their own is the database's matter, so that step is the parameter \<open>drop_partitions\<close>.
\<close>

definition cleanup_expired_data :: "(int \<Rightarrow> int list \<Rightarrow> int list) \<Rightarrow> int \<Rightarrow> (string \<times> string) list \<Rightarrow> StoredData \<Rightarrow> StoredData" where
  "cleanup_expired_data drop_partitions now settings d =
    (if \<not> cleanup_runs settings then d
     else let days = get_retention_days settings in
       \<lparr>sd_server_metrics = kept_since now (days ''metrics_retention_days'' 30) (sd_server_metrics d),
         sd_system_metrics = kept_since now (days ''system_metrics_retention_days'' 90) (sd_system_metrics d),
         sd_health_checks = kept_since now (days ''health_check_retention_days'' 30) (sd_health_checks d),
         sd_alert_history = kept_since now (days ''alert_history_retention_days'' 90) (sd_alert_history d),
         sd_activity_logs = kept_since now (days ''activity_log_retention_days'' 365) (sd_activity_logs d),
         sd_credit_transactions = kept_since now (days ''credit_transaction_retention_days'' 730)
           (drop_partitions (max 1 (days ''credit_transaction_retention_days'' 730 div 30)) (sd_credit_transactions d)),
         sd_notifications = kept_since now (days ''notification_retention_days'' 30) (sd_notifications d),
         sd_daily_rollups = filter (\<lambda>day. \<not> day < cutoff now (days ''daily_rollup_retention_days'' 730) div day_ms) (sd_daily_rollups d),
         sd_request_metrics = kept_since now (days ''request_metrics_retention_days'' 30) (sd_request_metrics d)\<rparr>)"

subsection \<open>From the page to the task\<close>

lemma ranges_agree: "VALIDATION_RANGES = retention_fields @ [(''cleanup_run_hour'', 0, 23)]"
  by (simp add: VALIDATION_RANGES_def retention_fields_def)

lemma trim_digits: "list_all is_digit s \<Longrightarrow> js_trim s = s"
proof -
  assume d: "list_all is_digit s"
  have "dropWhile js_space t = t" if "list_all is_digit t" for t
    using that digit_not_space by (cases t) auto
  from this [OF d] this [of "rev s"] d show "js_trim s = s" by (simp add: js_trim_def list_all_rev)
qed

lemma py_int_show_nat [simp]: "py_int_of_string (show_nat n) = Some (int n)"
proof -
  have d: "list_all is_digit (show_nat n)" using show_nat_digits by (simp add: list_all_iff)
  obtain c cs where s: "show_nat n = c # cs" by (cases "show_nat n") auto
  then have "c \<noteq> CHR ''-''" "c \<noteq> CHR ''+''" using d digit_not_sep [of c] by auto
  moreover have "read_digits (c # cs) = n" using s read_show_nat [of n] by simp
  ultimately show ?thesis using d trim_digits [OF d] by (simp add: py_int_of_string_def s)
qed

lemma range_not_negative: "map_of VALIDATION_RANGES k = Some (lo, hi) \<Longrightarrow> 0 \<le> lo"
  by (auto simp: VALIDATION_RANGES_def split: if_splits)

lemma range_keys: "map_of VALIDATION_RANGES k = Some r \<Longrightarrow> \<exists>d. map_of DEFAULT_RETENTION_POLICIES k = Some (JNum d 0)"
  by (auto simp: VALIDATION_RANGES_def DEFAULT_RETENTION_POLICIES_def split: if_splits)

lemma validate_number:
  assumes "map_of VALIDATION_RANGES k = Some (lo, hi)"
  shows "validate_setting k (JNum n 0) = (if lo \<le> n \<and> n \<le> hi then Inr (JNum n 0) else Inl (Out_of_range k))"
  using range_keys [OF assms] assms by (auto simp: validate_setting_def)

lemma validated_lookup:
  "validate_updates kvs = Inr ws \<Longrightarrow> map fst ws = map fst kvs \<and>
    (\<forall>k v. map_of kvs k = Some v \<longrightarrow> (\<exists>w. validate_setting k v = Inr w \<and> map_of ws k = Some w))"
proof (induction kvs arbitrary: ws rule: validate_updates.induct)
  case (2 k v kvs)
  then show ?case by (auto split: sum.splits)
qed simp

lemma persisted: "distinct (map fst ws) \<Longrightarrow>
    map_of (fold (\<lambda>(k, w). AList.update k (py_str w)) ws db) k = (case map_of ws k of Some w \<Rightarrow> Some (py_str w) | None \<Rightarrow> map_of db k)"
proof (induction ws arbitrary: db)
  case (Cons a ws)
  obtain k' w where a: "a = (k', w)" by fastforce
  have new: "k' \<notin> fst ` set ws" using Cons.prems a by simp
  show ?case
  proof (cases "k' = k")
    case True
    then have "map_of ws k = None" using new by (simp add: map_of_eq_None_iff)
    then show ?thesis using Cons True a by (simp add: update_conv)
  next
    case False
    then show ?thesis using Cons a by (simp add: update_conv split: option.splits)
  qed
qed simp

lemma read_all: "map_of (map (read_setting db) xs) k = map_option (\<lambda>v. snd (read_setting db (k, v))) (map_of xs k)"
  by (induction xs) (auto simp: read_setting_def split: option.splits)

lemma policy_number:
  assumes "map_of VALIDATION_RANGES k = Some r" and "map_of db k = Some (show_nat n)"
  shows "map_of (get_policy db) k = Some (JNum (int n) 0)"
proof -
  obtain d where d: "map_of DEFAULT_RETENTION_POLICIES k = Some (JNum d 0)" using range_keys [OF assms(1)] by blast
  show ?thesis using d assms(2) by (simp add: get_policy_def read_all) (simp add: read_setting_def)
qed

lemma accepted_days:
  assumes "distinct (map fst updates)" and "set_policy updates db = Inr db'"
    and "map_of updates k = Some (JNum n 0)" and "map_of VALIDATION_RANGES k = Some (lo, hi)"
  shows "lo \<le> n \<and> n \<le> hi \<and> map_of (get_policy db') k = Some (JNum n 0) \<and> get_retention_days db' k d = n"
proof -
  obtain ws where ws: "validate_updates updates = Inr ws" and db': "db' = fold (\<lambda>(k, w). AList.update k (py_str w)) ws db"
    using assms(2) by (auto simp: set_policy_def split: sum.splits)
  from validated_lookup [OF ws] assms(3) obtain w where "validate_setting k (JNum n 0) = Inr w" and wk: "map_of ws k = Some w"
    by blast
  then have n: "lo \<le> n" "n \<le> hi" and w: "w = JNum n 0"
    using validate_number [OF assms(4), of n] by (auto split: if_splits)
  have "distinct (map fst ws)" using validated_lookup [OF ws] assms(1) by simp
  then have stored: "map_of db' k = Some (show_nat (nat n))"
    using persisted [of ws db k] wk w n range_not_negative [OF assms(4)] by (simp add: db')
  have "int (nat n) = n" using n range_not_negative [OF assms(4)] by simp
  then show ?thesis
    using n policy_number [OF assms(4) stored] stored by (simp add: get_retention_days_def)
qed

text \<open>The fields of the page with the tables they are labelled for, and what of a table is left when only the last days are kept.\<close>

definition FIELD_TABLES :: "(string \<times> (StoredData \<Rightarrow> int list)) list" where
  "FIELD_TABLES =
    [(''metrics_retention_days'', sd_server_metrics), (''system_metrics_retention_days'', sd_system_metrics),
     (''health_check_retention_days'', sd_health_checks), (''alert_history_retention_days'', sd_alert_history),
     (''activity_log_retention_days'', sd_activity_logs), (''notification_retention_days'', sd_notifications),
     (''daily_rollup_retention_days'', sd_daily_rollups)]"

definition last_days :: "string \<Rightarrow> int \<Rightarrow> int \<Rightarrow> int list \<Rightarrow> int list" where
  "last_days k now n rows = (if k = ''daily_rollup_retention_days'' then filter (\<lambda>day. (now - n * day_ms) div day_ms \<le> day) rows
     else filter (\<lambda>t. now - n * day_ms \<le> t) rows)"

lemma cleanup_tables:
  assumes "cleanup_runs db"
  shows "sd_server_metrics (cleanup_expired_data dp now db d) = kept_since now (get_retention_days db ''metrics_retention_days'' 30) (sd_server_metrics d)"
    "sd_system_metrics (cleanup_expired_data dp now db d) = kept_since now (get_retention_days db ''system_metrics_retention_days'' 90) (sd_system_metrics d)"
    "sd_health_checks (cleanup_expired_data dp now db d) = kept_since now (get_retention_days db ''health_check_retention_days'' 30) (sd_health_checks d)"
    "sd_alert_history (cleanup_expired_data dp now db d) = kept_since now (get_retention_days db ''alert_history_retention_days'' 90) (sd_alert_history d)"
    "sd_activity_logs (cleanup_expired_data dp now db d) = kept_since now (get_retention_days db ''activity_log_retention_days'' 365) (sd_activity_logs d)"
    "sd_notifications (cleanup_expired_data dp now db d) = kept_since now (get_retention_days db ''notification_retention_days'' 30) (sd_notifications d)"
    "sd_daily_rollups (cleanup_expired_data dp now db d) =
       filter (\<lambda>day. \<not> day < cutoff now (get_retention_days db ''daily_rollup_retention_days'' 730) div day_ms) (sd_daily_rollups d)"
  using assms by (simp_all add: cleanup_expired_data_def Let_def)

lemma kept_last: "k \<noteq> ''daily_rollup_retention_days'' \<Longrightarrow> kept_since now n rows = last_days k now n rows"
  by (simp add: kept_since_def cutoff_def last_days_def not_less)

lemma cleanup_by_days:
  assumes "map_of FIELD_TABLES k = Some rows" and "cleanup_runs db" and "\<And>d. get_retention_days db k d = n"
  shows "rows (cleanup_expired_data drop_partitions now db d) = last_days k now n (rows d)"
proof -
  have "(k, rows) \<in> set FIELD_TABLES" using assms(1) by (rule map_of_SomeD)
  then have "k \<noteq> ''daily_rollup_retention_days'' \<and> rows (cleanup_expired_data drop_partitions now db d) =
      kept_since now (get_retention_days db k (get_retention_days db k 0)) (rows d) \<or>
    k = ''daily_rollup_retention_days'' \<and> rows = sd_daily_rollups"
    using assms(3) unfolding FIELD_TABLES_def list.set insert_iff empty_iff prod.inject
    by (elim disjE conjE FalseE) (simp_all add: cleanup_tables [OF assms(2)])
  then show ?thesis
    using assms(3) kept_last [of k now n "rows d"] cleanup_tables(7) [OF assms(2)]
    by (auto simp: last_days_def cutoff_def not_less)
qed

lemma field_tables_keys: "map_of FIELD_TABLES k = Some rows \<Longrightarrow> map_of retention_fields k = Some r \<Longrightarrow> map_of VALIDATION_RANGES k = Some r"
  by (simp add: ranges_agree)

text \<open>
  C23. A number of days that the backend accepts for one of the seven fields is in the field's range, and is the one the page
  shows again. When the cleanup task runs afterwards, it leaves of the table the field is for exactly the rows of the last
  that many days, whatever the task's own defaults are. (Whether it runs is not for the page to say, see below.)
\<close>

theorem accepted_days_reach_cleanup:
  assumes "distinct (map fst updates)" and "set_policy updates db = Inr db'"
    and "map_of updates k = Some (JNum n 0)" and "map_of retention_fields k = Some (lo, hi)"
    and "map_of FIELD_TABLES k = Some rows" and "cleanup_runs db'"
  shows "lo \<le> n \<and> n \<le> hi \<and> map_of (get_policy db') k = Some (JNum n 0) \<and>
    rows (cleanup_expired_data drop_partitions now db' d) = last_days k now n (rows d)"
  using accepted_days [OF assms(1-3) field_tables_keys [OF assms(5,4)]] cleanup_by_days [OF assms(5,6), of n] by blast

theorem accepted_days_reach_cleanup_witness:
  "sd_server_metrics (cleanup_expired_data (\<lambda>_ rows. rows) (100 * day_ms) (AList.update ''metrics_retention_days'' ''60'' [])
     \<lparr>sd_server_metrics = [39 * day_ms, 40 * day_ms, 99 * day_ms], sd_system_metrics = [], sd_health_checks = [], sd_alert_history = [],
      sd_activity_logs = [], sd_credit_transactions = [], sd_notifications = [], sd_daily_rollups = [], sd_request_metrics = []\<rparr>) =
   [40 * day_ms, 99 * day_ms]"
proof -
  have n60: "show_nat 60 = ''60''" by (simp add: show_nat.simps digit_char_def char_of_def bit_0)
  have "set_policy [(''metrics_retention_days'', JNum 60 0)] [] = Inr (AList.update ''metrics_retention_days'' ''60'' [])"
    using n60 by (simp add: set_policy_def validate_setting_def DEFAULT_RETENTION_POLICIES_def VALIDATION_RANGES_def)
  note kept = accepted_days_reach_cleanup [OF _ this, of "''metrics_retention_days''" 60 7 365 sd_server_metrics]
  have "cleanup_runs (AList.update ''metrics_retention_days'' ''60'' [])" by (simp add: cleanup_runs_def get_retention_days_def)
  then show ?thesis using kept by (simp add: retention_fields_def FIELD_TABLES_def last_days_def day_ms_def)
qed

lemma switch_no_number: "py_int_of_string (py_str (JBool b)) = None"
  by (cases b) (simp_all add: py_int_of_string_def js_trim_def js_space_def is_digit_def)

lemma switch_shown: "js_toLowerCase (py_str (JBool b)) = ''true'' \<longleftrightarrow> b"
  by (cases b) (simp_all add: js_toLowerCase_def js_lower_char_def char_of_def bit_0)

lemma switch_text: "py_str (JBool b) \<noteq> []"
  by simp

text \<open>
  The switch of the cleanup is stored as the text \<open>True\<close> or \<open>False\<close>. The page is told what was chosen, but the task reads
  a number: neither is one, so it falls back to its default and deletes, also with the cleanup switched off.
\<close>

theorem disabled_cleanup_still_runs:
  "set_policy [(''cleanup_enabled'', JBool b)] db = Inr (AList.update ''cleanup_enabled'' (py_str (JBool b)) db) \<and>
   map_of (get_policy (AList.update ''cleanup_enabled'' (py_str (JBool b)) db)) ''cleanup_enabled'' = Some (JBool b) \<and>
   cleanup_runs (AList.update ''cleanup_enabled'' (py_str (JBool b)) db)"
proof -
  have v: "validate_setting ''cleanup_enabled'' (JBool b) = Inr (JBool b)"
    by (simp add: validate_setting_def DEFAULT_RETENTION_POLICIES_def)
  have d: "map_of DEFAULT_RETENTION_POLICIES ''cleanup_enabled'' = Some (JBool True)"
    by (simp add: DEFAULT_RETENTION_POLICIES_def)
  show ?thesis
    by (simp add: set_policy_def v d get_policy_def read_all del: py_str.simps) (simp add: read_setting_def update_conv switch_shown switch_no_number switch_text
        cleanup_runs_def get_retention_days_def del: py_str.simps)
qed

text \<open>What was changed while a save was on its way is dropped when it succeeds, and never sent.\<close>

lemma edits_during_save_lost:
  "rt_edits (retentionSaved (handleRetentionChange k v (fst (handleSaveRetention s)))) = []"
  by (simp add: retentionSaved_def)

text \<open>A number below the least one can be typed; it takes all the other changes with it.\<close>

lemma one_bad_value_refuses_all:
  "map_of VALIDATION_RANGES k = Some (lo, hi) \<Longrightarrow> n < lo \<Longrightarrow> (k, JNum n 0) \<in> set updates \<Longrightarrow> \<exists>e. set_policy updates db = Inl e"
proof -
  assume k: "map_of VALIDATION_RANGES k = Some (lo, hi)" "n < lo" "(k, JNum n 0) \<in> set updates"
  have "\<exists>e. validate_updates updates = Inl e" using k(3)
    by (induction updates rule: validate_updates.induct) (use k(1, 2) in \<open>auto simp: validate_number split: sum.splits\<close>)
  then show ?thesis by (auto simp: set_policy_def)
qed

end
