(* ===== verification/Workspace_List.thy ===== *)
theory Workspace_List
  imports Tables Js_Sort
begin

text \<open>
  The list of a user's workspaces, \<^verbatim>\<open>routes/workspaces.index.tsx\<close>: search, tabs, order and pins (over
  \<^verbatim>\<open>hooks/use-workspace-pins.ts\<close>), the numbers on the tabs, and the buttons of a card next to the backend's route
  (\<^verbatim>\<open>backend/app/api/workspaces.py\<close>).
\<close>

subsection \<open>The cards\<close>

text \<open>\<open>wl_created\<close> is the time in milliseconds that \<^verbatim>\<open>parseUtcDate\<close> reads.\<close>

record ListedWorkspace =
  wl_id :: string
  wl_name :: string
  wl_description :: "string option"
  wl_owner_id :: string
  wl_is_active :: bool
  wl_created :: "int option"
  wl_member_count :: nat
  wl_volume_count :: nat
  wl_pending :: bool

datatype FilterTab = All_tab | Owned_tab | Member_tab | Pending_tab

datatype WorkspaceSort = Name_asc | Name_desc | Newest | Oldest | Most_members

definition workspace_mentions :: "string \<Rightarrow> ListedWorkspace \<Rightarrow> bool" where
  "workspace_mentions search w \<longleftrightarrow> js_trim search = [] \<or>
     (let query = js_toLowerCase search
      in js_contains (js_toLowerCase (wl_name w)) query \<or>
         (case wl_description w of None \<Rightarrow> False | Some d \<Rightarrow> js_contains (js_toLowerCase d) query))"

text \<open>An unknown user owns nothing.\<close>

definition is_owner :: "string option \<Rightarrow> ListedWorkspace \<Rightarrow> bool" where
  "is_owner me w \<longleftrightarrow> me = Some (wl_owner_id w)"

definition tab_passes :: "string option \<Rightarrow> FilterTab \<Rightarrow> ListedWorkspace \<Rightarrow> bool" where
  "tab_passes me t w = (case t of All_tab \<Rightarrow> True | Owned_tab \<Rightarrow> is_owner me w
     | Member_tab \<Rightarrow> \<not> is_owner me w \<and> \<not> wl_pending w | Pending_tab \<Rightarrow> wl_pending w)"

definition created_ms :: "ListedWorkspace \<Rightarrow> int" where
  "created_ms w = (case wl_created w of None \<Rightarrow> 0 | Some t \<Rightarrow> t)"

definition chosen_cmp :: "(string \<Rightarrow> string \<Rightarrow> int) \<Rightarrow> WorkspaceSort \<Rightarrow> ListedWorkspace \<Rightarrow> ListedWorkspace \<Rightarrow> int" where
  "chosen_cmp localeCompare s a b = (case s of
     Name_asc \<Rightarrow> localeCompare (wl_name a) (wl_name b)
   | Name_desc \<Rightarrow> localeCompare (wl_name b) (wl_name a)
   | Newest \<Rightarrow> created_ms b - created_ms a
   | Oldest \<Rightarrow> created_ms a - created_ms b
   | Most_members \<Rightarrow> int (wl_member_count b) - int (wl_member_count a))"

definition workspace_cmp :: "(string \<Rightarrow> string \<Rightarrow> int) \<Rightarrow> string list \<Rightarrow> WorkspaceSort \<Rightarrow> ListedWorkspace \<Rightarrow> ListedWorkspace \<Rightarrow> int" where
  "workspace_cmp localeCompare pins s a b =
    (let aPinned = (if isPinned pins (wl_id a) then 1 else 0); bPinned = (if isPinned pins (wl_id b) then 1 else 0)
     in if aPinned \<noteq> bPinned then bPinned - aPinned else chosen_cmp localeCompare s a b)"

definition filteredWorkspaces :: "(string \<Rightarrow> string \<Rightarrow> int) \<Rightarrow> string list \<Rightarrow> string option \<Rightarrow> string \<Rightarrow> FilterTab \<Rightarrow> WorkspaceSort \<Rightarrow>
    ListedWorkspace list \<Rightarrow> ListedWorkspace list" where
  "filteredWorkspaces localeCompare pins me search t s ws =
    js_sort (workspace_cmp localeCompare pins s) (filter (tab_passes me t) (filter (workspace_mentions search) ws))"

definition filterCounts :: "string option \<Rightarrow> FilterTab \<Rightarrow> ListedWorkspace list \<Rightarrow> nat" where
  "filterCounts me t ws = (case t of All_tab \<Rightarrow> length ws | Owned_tab \<Rightarrow> length (filter (is_owner me) ws)
     | Member_tab \<Rightarrow> length (filter (\<lambda>w. \<not> is_owner me w \<and> \<not> wl_pending w) ws)
     | Pending_tab \<Rightarrow> length (filter wl_pending ws))"

definition workspace_stats :: "ListedWorkspace list \<Rightarrow> nat \<times> nat \<times> nat \<times> nat" where
  "workspace_stats ws = (length ws, length (filter wl_is_active ws), foldl (\<lambda>a w. a + wl_member_count w) 0 ws,
     foldl (\<lambda>a w. a + wl_volume_count w) 0 ws)"

text \<open>
  The cards are the workspaces that pass the search and the tab, each once; no pinned one comes after one that is not,
  and within the pinned ones and within the others the chosen order holds. Of \<^verbatim>\<open>localeCompare\<close> only what is documented is
  assumed: a total preorder.
\<close>

theorem workspaces_pinned_then_ordered:
  assumes "\<And>x y. localeCompare x y \<le> 0 \<or> localeCompare y x \<le> 0"
    and "\<And>x y z. localeCompare x y \<le> 0 \<Longrightarrow> localeCompare y z \<le> 0 \<Longrightarrow> localeCompare x z \<le> 0"
  shows "mset (filteredWorkspaces localeCompare pins me search t s ws) =
      filter_mset (\<lambda>w. workspace_mentions search w \<and> tab_passes me t w) (mset ws) \<and>
    sorted_wrt (\<lambda>a b. (isPinned pins (wl_id b) \<longrightarrow> isPinned pins (wl_id a)) \<and>
        (isPinned pins (wl_id a) = isPinned pins (wl_id b) \<longrightarrow> chosen_cmp localeCompare s a b \<le> 0))
      (filteredWorkspaces localeCompare pins me search t s ws)"
proof -
  have total: "chosen_cmp localeCompare s a b \<le> 0 \<or> chosen_cmp localeCompare s b a \<le> 0" for a b
    using assms(1) by (cases s) (simp_all add: chosen_cmp_def, linarith+)
  have trans: "chosen_cmp localeCompare s a b \<le> 0 \<Longrightarrow> chosen_cmp localeCompare s b c \<le> 0 \<Longrightarrow> chosen_cmp localeCompare s a c \<le> 0"
    for a b c using assms(2) by (cases s) (auto simp: chosen_cmp_def)
  have le: "workspace_cmp localeCompare pins s a b \<le> 0 \<longleftrightarrow> (isPinned pins (wl_id b) \<longrightarrow> isPinned pins (wl_id a)) \<and>
      (isPinned pins (wl_id a) = isPinned pins (wl_id b) \<longrightarrow> chosen_cmp localeCompare s a b \<le> 0)" for a b
    by (simp add: workspace_cmp_def Let_def)
  have "sorted_wrt (\<lambda>a b. workspace_cmp localeCompare pins s a b \<le> 0) (js_sort (workspace_cmp localeCompare pins s) xs)" for xs
  proof (rule js_sort_total [of UNIV])
    show "workspace_cmp localeCompare pins s a b \<le> 0 \<or> workspace_cmp localeCompare pins s b a \<le> 0" for a b
      using total [of a b] unfolding le by blast
    show "workspace_cmp localeCompare pins s a c \<le> 0"
      if "workspace_cmp localeCompare pins s a b \<le> 0" "workspace_cmp localeCompare pins s b c \<le> 0" for a b c
      using that trans [of a b c] unfolding le by blast
  qed simp
  then have "sorted_wrt (\<lambda>a b. (isPinned pins (wl_id b) \<longrightarrow> isPinned pins (wl_id a)) \<and>
      (isPinned pins (wl_id a) = isPinned pins (wl_id b) \<longrightarrow> chosen_cmp localeCompare s a b \<le> 0))
      (js_sort (workspace_cmp localeCompare pins s) xs)" for xs
    by (simp add: le)
  then show ?thesis
    by (simp add: filteredWorkspaces_def mset_js_sort flip: mset_filter)
qed

definition demo_workspace :: "string \<Rightarrow> int \<Rightarrow> ListedWorkspace" where
  "demo_workspace i n = \<lparr>wl_id = i, wl_name = i, wl_description = None, wl_owner_id = ''me'', wl_is_active = True,
     wl_created = Some n, wl_member_count = 1, wl_volume_count = 0, wl_pending = False\<rparr>"

theorem workspaces_pinned_then_ordered_witness:
  "sorted_wrt (\<lambda>a b. isPinned [''old''] (wl_id b) \<longrightarrow> isPinned [''old''] (wl_id a))
    (filteredWorkspaces (\<lambda>_ _. 0) [''old''] (Some ''me'') [] Owned_tab Newest [demo_workspace ''new'' 9, demo_workspace ''old'' 3])"
  using workspaces_pinned_then_ordered [of "\<lambda>_ _. 0" "[''old'']" "Some ''me''" "[]" Owned_tab Newest
      "[demo_workspace ''new'' 9, demo_workspace ''old'' 3]"]
  by (rule sorted_wrt_mono_rel [rotated, OF conjunct2]) auto

lemma blank_search: "js_trim [] = []"
  by (simp add: js_trim_def)

text \<open>A tab tells how many cards it shows when nothing is searched for.\<close>

lemma tabs_tell_lengths: "length (filteredWorkspaces localeCompare pins me [] t s ws) = filterCounts me t ws"
proof -
  have "length (filteredWorkspaces localeCompare pins me [] t s ws) = length (filter (tab_passes me t) ws)"
    unfolding filteredWorkspaces_def using mset_js_sort
    by (metis (no_types, lifting) filter_True size_mset workspace_mentions_def blank_search)
  then show ?thesis by (cases t) (simp_all add: filterCounts_def tab_passes_def [abs_def])
qed

text \<open>Every workspace that is no open invitation is counted on exactly one of the tabs of owned ones and memberships.\<close>

lemma tabs_partition:
  "list_all (\<lambda>w. \<not> wl_pending w) ws \<Longrightarrow> filterCounts me Owned_tab ws + filterCounts me Member_tab ws = filterCounts me All_tab ws"
  by (induction ws) (auto simp: filterCounts_def)

subsection \<open>Pins while a request is on its way\<close>

text \<open>
  A second pin that is set before the user record has come back is computed from the same list as the first, and the
  backend keeps the list of the last request: the first pin is lost.
\<close>

theorem quick_pin_lost:
  assumes "a \<noteq> b" and "\<not> isPinned ids a" and "\<not> isPinned ids b"
  shows "\<exists>sent. togglePin ids b = Some sent \<and> isPinned sent b \<and> \<not> isPinned sent a"
  using assms by (auto simp: togglePin_def pinWorkspace_def isPinned_def)

theorem quick_pin_lost_witness: "\<exists>sent. togglePin [] ''b'' = Some sent \<and> isPinned sent ''b'' \<and> \<not> isPinned sent ''a''"
  by (rule quick_pin_lost) (simp_all add: isPinned_def)

subsection \<open>Deleting\<close>

text \<open>The button is on every card; the route accepts the owner only.\<close>

definition delete_workspace_route :: "string \<Rightarrow> bool \<Rightarrow> ListedWorkspace \<Rightarrow> nat" where
  "delete_workspace_route me may_write w = (if \<not> may_write then 403 else if wl_owner_id w \<noteq> me then 403 else 200)"

lemma member_delete_refused:
  "tab_passes (Some me) Member_tab w \<Longrightarrow> delete_workspace_route me may_write w = 403"
  by (auto simp: delete_workspace_route_def tab_passes_def is_owner_def)

subsection \<open>Creating\<close>

record WorkspaceForm =
  wf_open :: bool
  wf_name :: string
  wf_description :: string

definition createdWorkspace :: "WorkspaceForm \<Rightarrow> WorkspaceForm" where
  "createdWorkspace f = f\<lparr>wf_open := False, wf_name := [], wf_description := []\<rparr>"

definition workspace_body :: "WorkspaceForm \<Rightarrow> json" where
  "workspace_body f = JObj [(''name'', JStr (wf_name f)), (''description'', JStr (wf_description f))]"

end
