(* ===== verification/Analytics_Page.thy ===== *)
theory Analytics_Page
  imports Calendar Heatmap Palette Role_Matrix
begin

text \<open>
  The figures over time: the page of the platform, \<^verbatim>\<open>routes/admin.analytics.tsx\<close>, next to the backend's credit flow
  (\<^verbatim>\<open>backend/app/services/analytics_service.py\<close>, \<^verbatim>\<open>api/analytics.py\<close>), and the page of a user, \<^verbatim>\<open>routes/usage.tsx\<close>.
\<close>

subsection \<open>The period before\<close>

text \<open>\<open>None\<close> where a text is no date and \<^verbatim>\<open>toISOString\<close> raises.\<close>

definition getPreviousPeriod :: "DateRange \<Rightarrow> DateRange option" where
  "getPreviousPeriod r = (case (parse_day (range_from r), parse_day (range_to r)) of
     (Some a, Some b) \<Rightarrow>
       (let start = a * day_ms; stop = b * day_ms; diff = stop - start
        in Some \<lparr>range_from = utc_text (start - diff - 86400000), range_to = utc_text (start - 86400000)\<rparr>)
   | _ \<Rightarrow> None)"

definition getDefaultDateRange :: "int \<Rightarrow> DateRange" where
  "getDefaultDateRange now = \<lparr>range_from = utc_text (now - 29 * day_ms), range_to = utc_text now\<rparr>"

lemma previous_days:
  assumes "range_from r = formatLocalDate a" and "range_to r = formatLocalDate b" and "four_digit a" and "four_digit b"
  shows "getPreviousPeriod r = Some \<lparr>range_from = formatLocalDate (a - (b - a) - 1), range_to = formatLocalDate (a - 1)\<rparr>"
proof -
  have "utc_day (k * day_ms) = k" for k using utc_day_shift [of 0 k] by (simp add: utc_day_def)
  then have day_text: "utc_text (k * day_ms) = formatLocalDate k" for k by (simp add: utc_text_def)
  have "a * day_ms - (b * day_ms - a * day_ms) - 86400000 = (a - (b - a) - 1) * day_ms"
    "a * day_ms - 86400000 = (a - 1) * day_ms" by (simp_all add: day_ms_def)
  then have "utc_text (a * day_ms - (b * day_ms - a * day_ms) - 86400000) = formatLocalDate (a - (b - a) - 1)"
    "utc_text (a * day_ms - 86400000) = formatLocalDate (a - 1)" by (simp_all only: day_text)
  then show ?thesis unfolding getPreviousPeriod_def Let_def assms(1, 2) parse_formatLocalDate [OF assms(3)]
      parse_formatLocalDate [OF assms(4)] by (simp only: option.case prod.case)
qed

text \<open>The period to compare with has as many days and ends on the day before.\<close>

theorem previous_period_adjoins:
  assumes "range_from r = formatLocalDate a" and "range_to r = formatLocalDate b"
    and "four_digit (a - (b - a) - 1)" and "four_digit (a - 1)" and "four_digit a" and "four_digit b"
  shows "\<exists>p. getPreviousPeriod r = Some p \<and> daysCount p = daysCount r \<and> parse_day (range_to p) = Some (a - 1)"
  using assms previous_days [OF assms(1, 2, 5, 6)] by (simp add: daysCount_def parse_formatLocalDate)

definition week_range :: DateRange where
  "week_range = \<lparr>range_from = formatLocalDate 20460, range_to = formatLocalDate 20466\<rparr>"

lemma week_range_days: "four_digit 20452" "four_digit 20453" "four_digit 20459" "four_digit 20460" "four_digit 20466"
  by code_simp+

theorem previous_period_adjoins_witness: "\<exists>p. getPreviousPeriod week_range = Some p \<and> daysCount p = daysCount week_range"
  using previous_period_adjoins [of week_range 20460 20466] week_range_days by (auto simp: week_range_def)

subsection \<open>The credit flow and its comparison\<close>

record FlowDay =
  fd_date :: string
  fd_consumed :: int
  fd_granted :: int

text \<open>
  The backend's flow of the transactions (time in milliseconds and amount): one entry for each day of the range that has
  a transaction, in order, with the day's midnight as ISO text.
\<close>

definition iso_day :: "int \<Rightarrow> string" where
  "iso_day d = formatLocalDate d @ ''T00:00:00''"

definition flow_between :: "int \<Rightarrow> int \<Rightarrow> (int \<times> int) list \<Rightarrow> (int \<times> int) list" where
  "flow_between a b txs = filter (\<lambda>(t, _). a * day_ms \<le> t \<and> t < (b + 1) * day_ms) txs"

definition flow_day :: "(int \<times> int) list \<Rightarrow> int \<Rightarrow> FlowDay" where
  "flow_day txs d = (let amounts = map snd (filter (\<lambda>(t, _). utc_day t = d) txs)
     in \<lparr>fd_date = iso_day d, fd_consumed = \<bar>sum_list (filter (\<lambda>x. x < 0) amounts)\<bar>,
         fd_granted = sum_list (filter (\<lambda>x. x > 0) amounts)\<rparr>)"

definition get_credit_flow :: "(int \<times> int) list \<Rightarrow> int \<Rightarrow> int \<Rightarrow> FlowDay list" where
  "get_credit_flow txs a b = (let rows = flow_between a b txs
     in map (flow_day rows) (remdups (sort (map (\<lambda>(t, _). utc_day t) rows))))"

definition credit_flow_route :: "DateRange \<Rightarrow> (int \<times> int) list \<Rightarrow> FlowDay list" where
  "credit_flow_route r txs = (case (parse_day (range_from r), parse_day (range_to r)) of
     (Some a, Some b) \<Rightarrow> get_credit_flow txs a b | _ \<Rightarrow> [])"

record ComparedDay =
  cd_timestamp :: string
  cd_consumed :: int
  cd_granted :: int
  cd_consumed_prev :: int
  cd_granted_prev :: int

definition compared_day :: "FlowDay list \<Rightarrow> FlowDay \<Rightarrow> ComparedDay" where
  "compared_day prevs d = (case List.find (\<lambda>p. fd_date p = fd_date d) prevs of
     None \<Rightarrow> \<lparr>cd_timestamp = fd_date d, cd_consumed = fd_consumed d, cd_granted = fd_granted d, cd_consumed_prev = 0,
       cd_granted_prev = 0\<rparr>
   | Some p \<Rightarrow> \<lparr>cd_timestamp = fd_date d, cd_consumed = fd_consumed d, cd_granted = fd_granted d,
       cd_consumed_prev = fd_consumed p, cd_granted_prev = fd_granted p\<rparr>)"

definition compared_flow :: "FlowDay list \<Rightarrow> FlowDay list \<Rightarrow> ComparedDay list" where
  "compared_flow flow prevs = map (compared_day prevs) flow"

lemma flow_dates:
  assumes "f \<in> set (get_credit_flow txs a b)"
  shows "\<exists>d. a \<le> d \<and> d \<le> b \<and> fd_date f = iso_day d"
proof -
  from assms obtain t x where t: "(t, x) \<in> set txs" "a * day_ms \<le> t" "t < (b + 1) * day_ms" "fd_date f = iso_day (utc_day t)"
    by (auto simp: get_credit_flow_def flow_between_def flow_day_def Let_def)
  have "a \<le> utc_day t" using zdiv_mono1 [OF t(2), of day_ms] by (simp add: utc_day_def day_ms_def)
  moreover have "utc_day t < b + 1" using t(3) by (simp add: utc_day_def day_ms_def)
  ultimately show ?thesis using t(4) by (intro exI [of _ "utc_day t"]) simp
qed

text \<open>
  The chart looks up each day of the period in the days of the period before it, by its date. The periods have no day in
  common, so the lines for the period before are zero throughout, whatever was consumed or granted in it.
\<close>

theorem compared_lines_are_flat:
  assumes "range_from r = formatLocalDate a" and "range_to r = formatLocalDate b" and "a \<le> b"
    and "four_digit (a - (b - a) - 1)" and "four_digit b" and "getPreviousPeriod r = Some p"
  shows "list_all (\<lambda>c. cd_consumed_prev c = 0 \<and> cd_granted_prev c = 0)
    (compared_flow (credit_flow_route r txs) (credit_flow_route p txs))"
proof -
  have fd: "four_digit n" if "a - (b - a) - 1 \<le> n" "n \<le> b" for n
    using four_digit_between [OF assms(4, 5) that] .
  have "four_digit a" "four_digit (a - 1)" using fd assms(3) by auto
  then have p: "p = \<lparr>range_from = formatLocalDate (a - (b - a) - 1), range_to = formatLocalDate (a - 1)\<rparr>"
    using previous_days [OF assms(1, 2) _ assms(5)] assms(6) by simp
  have days: "credit_flow_route r txs = get_credit_flow txs a b"
    "credit_flow_route p txs = get_credit_flow txs (a - (b - a) - 1) (a - 1)"
    using fd assms by (simp_all add: credit_flow_route_def p parse_formatLocalDate)
  have "fd_date q \<noteq> fd_date f"
    if f: "f \<in> set (credit_flow_route r txs)" and q: "q \<in> set (credit_flow_route p txs)" for f q
  proof -
    from flow_dates f obtain d where d: "a \<le> d" "d \<le> b" "fd_date f = iso_day d" unfolding days by blast
    from flow_dates q obtain e where e: "a - (b - a) - 1 \<le> e" "e \<le> a - 1" "fd_date q = iso_day e" unfolding days by blast
    have "four_digit d" "four_digit e" using fd d e assms(3) by auto
    then show ?thesis using date_text.text_inj [of e d] d e by (simp add: iso_day_def)
  qed
  then have "List.find (\<lambda>q. fd_date q = fd_date f) (credit_flow_route p txs) = None"
    if "f \<in> set (credit_flow_route r txs)" for f using that by (auto simp: find_None_iff)
  then show ?thesis by (auto simp: compared_flow_def compared_day_def list_all_iff)
qed

theorem compared_lines_are_flat_witness:
  "list_all (\<lambda>c. cd_consumed_prev c = 0) (compared_flow (credit_flow_route week_range [(20454 * 86400000, - 50), (20461 * 86400000, - 8)])
     (credit_flow_route (the (getPreviousPeriod week_range)) [(20454 * 86400000, - 50), (20461 * 86400000, - 8)]))"
proof -
  obtain p where p: "getPreviousPeriod week_range = Some p" using previous_period_adjoins_witness by blast
  show ?thesis
    using compared_lines_are_flat [OF _ _ _ _ _ p, of 20460 20466 "[(20454 * 86400000, - 50), (20461 * 86400000, - 8)]"]
      week_range_days p by (simp add: week_range_def list_all_iff)
qed

text \<open>The change in percent next to a figure.\<close>

definition comparePct :: "rat \<Rightarrow> rat \<Rightarrow> rat" where
  "comparePct cur_n prev = (if prev = 0 then (if cur_n > 0 then 100 else 0) else (cur_n - prev) / prev * 100)"

lemma change_is_bounded: "0 \<le> cur_n \<Longrightarrow> 0 \<le> prev \<Longrightarrow> - 100 \<le> comparePct cur_n prev"
  by (auto simp: comparePct_def field_simps)

lemma change_has_sign: "0 < prev \<Longrightarrow> comparePct cur_n prev \<ge> 0 \<longleftrightarrow> prev \<le> cur_n"
  by (auto simp: comparePct_def zero_le_divide_iff zero_le_mult_iff)

subsection \<open>Who may see the figures\<close>

text \<open>Every route of the platform's figures asks for two permissions.\<close>

definition analytics_route_allows :: "RoleTable \<Rightarrow> User \<Rightarrow> bool" where
  "analytics_route_allows T u \<longleftrightarrow> has_permission T (Some u) ANALYTICS_READ \<and> has_permission T (Some u) ADMIN_ACCESS"

text \<open>
  The page asks for one of them only. A member of the support staff passes the guard of the administration and of the
  page, and is refused every figure on it.
\<close>

theorem support_sees_no_figures:
  assumes "is_active u" and "role u = ''support''" and "st = \<lparr>user = Some (profile_user (map_of ROLE_PERMISSIONS) u)\<rparr>"
  shows "canAccessAdmin st \<and> (\<exists>g. map_of ADMIN_GUARDS ''/admin/analytics'' = Some g \<and> guardAllowed st g) \<and>
    \<not> analytics_route_allows (map_of ROLE_PERMISSIONS) u"
proof -
  have ps: "map_of ROLE_PERMISSIONS (role u) = Some (the (map_of ROLE_PERMISSIONS ''support''))"
    using assms(2) by (simp add: ROLE_PERMISSIONS_def)
  have client: "checkPermission (Some (profile_user (map_of ROLE_PERMISSIONS) u)) p \<longleftrightarrow> p \<in> set (the (map_of ROLE_PERMISSIONS ''support''))" for p
    using profile_check [OF ps assms(1)] by (simp add: ROLE_PERMISSIONS_def)
  have "ADMIN_ACCESS \<notin> get_expanded_role_permissions (map_of ROLE_PERMISSIONS) ''support''" by code_simp
  then have "\<not> has_permission (map_of ROLE_PERMISSIONS) (Some u) ADMIN_ACCESS" using assms(2) by (simp add: has_permission_def)
  moreover have "canAccessAdmin st"
    using assms(3) by (simp add: canAccessAdmin_def hasAnyPermission_def client) (simp add: ROLE_PERMISSIONS_def)
  moreover have "map_of ADMIN_GUARDS ''/admin/analytics'' = Some (one_guard ANALYTICS_READ ''/'')"
    by (simp add: admin_guards)
  moreover have "guardAllowed st (one_guard ANALYTICS_READ ''/'')"
    using assms(3) by (simp add: guardAllowed_def one_guard_def hasPermission_def client) (simp add: ROLE_PERMISSIONS_def)
  ultimately show ?thesis by (simp add: analytics_route_allows_def)
qed

subsection \<open>The page of a user's usage\<close>

text \<open>\<open>up_days\<close> are the days of the answer for the chosen range; the picker of the range is part of the page with figures.\<close>

record UsagePage =
  up_range :: DateRange
  up_loading :: bool
  up_days :: "string list option"

datatype UsageView = Usage_empty | Usage_figures

definition usage_view :: "UsagePage \<Rightarrow> UsageView" where
  "usage_view s = (if \<not> up_loading s \<and> \<not> (case up_days s of None \<Rightarrow> False | Some ds \<Rightarrow> ds \<noteq> []) then Usage_empty else Usage_figures)"

definition mountUsage :: "int \<Rightarrow> UsagePage" where
  "mountUsage now = \<lparr>up_range = getDefaultDateRange now, up_loading = True, up_days = None\<rparr>"

datatype UsageEvent = Range_chosen DateRange | Usage_arrives "string list" | Usage_refused

definition usage_event :: "UsageEvent \<Rightarrow> UsagePage \<Rightarrow> UsagePage" where
  "usage_event e s = (case e of
     Range_chosen r \<Rightarrow> if usage_view s = Usage_empty \<or> r = up_range s then s else s\<lparr>up_range := r, up_loading := True, up_days := None\<rparr>
   | Usage_arrives ds \<Rightarrow> s\<lparr>up_loading := False, up_days := Some ds\<rparr>
   | Usage_refused \<Rightarrow> s\<lparr>up_loading := False\<rparr>)"

text \<open>
  A range without usage replaces the whole page, the picker with it: the range cannot be changed any more as long as its
  answer stays empty.
\<close>

theorem empty_range_is_a_trap:
  assumes "usage_view s = Usage_empty" and "\<forall>ds. Usage_arrives ds \<in> set evs \<longrightarrow> ds = []"
  shows "usage_view (fold usage_event evs s) = Usage_empty \<and> up_range (fold usage_event evs s) = up_range s"
  using assms
proof (induction evs arbitrary: s)
  case (Cons e evs)
  have "usage_view (usage_event e s) = Usage_empty \<and> up_range (usage_event e s) = up_range s"
    using Cons.prems by (cases e) (auto simp: usage_event_def usage_view_def split: if_splits option.splits)
  then show ?case using Cons.IH [of "usage_event e s"] Cons.prems by simp
qed simp

theorem empty_range_is_a_trap_witness:
  "up_range (fold usage_event [Range_chosen week_range, Usage_arrives []] (usage_event (Usage_arrives []) (mountUsage 0))) = getDefaultDateRange 0"
  using empty_range_is_a_trap [of "usage_event (Usage_arrives []) (mountUsage 0)" "[Range_chosen week_range, Usage_arrives []]"]
  by (simp add: usage_view_def usage_event_def mountUsage_def)

end
