(* ===== verification/Health_Page.thy ===== *)
theory Health_Page
  imports Complex_Main Admin_Hooks
begin

text \<open>
  The page of the system's health, \<^verbatim>\<open>routes/admin.health.tsx\<close>: search, status filter and pages of the running containers,
  next to the backend that answers for them (\<^verbatim>\<open>get_health_monitoring\<close> in \<^verbatim>\<open>backend/app/api/admin.py\<close>).
\<close>

subsection \<open>Labels\<close>

definition mapHealthStatus :: "string \<Rightarrow> string" where
  "mapHealthStatus code = (if code = ''healthy'' then ''running'' else if code = ''unhealthy'' then ''error''
     else if code = ''restarting'' then ''pending'' else if code = ''restart_failed'' then ''error''
     else if code = ''unknown'' then ''warning'' else ''info'')"

definition shortenPath :: "string option \<Rightarrow> string" where
  "shortenPath path = (case path of None \<Rightarrow> ''Disk''
     | Some p \<Rightarrow> if p = [] then ''Disk'' else if p = ''/'' then ''Root''
         else (case rev (filter (\<lambda>q. q \<noteq> []) (js_split CHR ''/'' p)) of
                 (c # cs) # _ \<Rightarrow> js_upper_char c # cs | _ \<Rightarrow> ''Disk''))"

lemma shorten_examples: "shortenPath (Some ''/var/lib/docker'') = ''Docker''" "shortenPath (Some ''//'') = ''Disk''"
  by code_simp+

datatype ServiceLabel = Healthy_label | Disabled_label | Unhealthy_label

definition service_label :: "string option \<Rightarrow> ServiceLabel" where
  "service_label code = (case code of None \<Rightarrow> Unhealthy_label
     | Some s \<Rightarrow> if s = ''healthy'' then Healthy_label else if s = ''disabled'' then Disabled_label else Unhealthy_label)"

datatype ResourceLevel = Low_level | High_level | Critical_level

definition shown_percent :: "rat \<Rightarrow> rat" where
  "shown_percent p = min (max p 0) 100"

definition resource_level :: "rat \<Rightarrow> ResourceLevel" where
  "resource_level p = (if shown_percent p \<ge> 90 then Critical_level else if shown_percent p \<ge> 70 then High_level else Low_level)"

lemma percent_in_bar: "0 \<le> shown_percent p \<and> shown_percent p \<le> 100"
  by (simp add: shown_percent_def)

lemma level_of_percent: "resource_level p = Critical_level \<longleftrightarrow> 90 \<le> p"
  by (auto simp: resource_level_def shown_percent_def)

subsection \<open>The backend's answer\<close>

text \<open>A running server with its user and the status of its latest check, if it has one, in the order of the names.\<close>

record RunningServer =
  rs_name :: string
  rs_username :: string
  rs_check :: "string option"

record HealthAnswer =
  ha_checks :: "RunningServer list"
  ha_total :: nat
  ha_total_pages :: nat

text \<open>\<^verbatim>\<open>ilike("%search%")\<close>, for texts without wildcards.\<close>

definition health_search :: "string option \<Rightarrow> RunningServer \<Rightarrow> bool" where
  "health_search search sv = (case search of None \<Rightarrow> True
     | Some q \<Rightarrow> q = [] \<or> js_contains (js_toLowerCase (rs_name sv)) (js_toLowerCase q) \<or>
         js_contains (js_toLowerCase (rs_username sv)) (js_toLowerCase q))"

text \<open>The page is cut from the servers that match the search; the status filter then drops checks of that page.\<close>

definition get_health_monitoring :: "nat \<Rightarrow> nat \<Rightarrow> string option \<Rightarrow> string option \<Rightarrow> RunningServer list \<Rightarrow> HealthAnswer" where
  "get_health_monitoring page limit status_filter search servers =
    (let base = filter (health_search search) servers; on_page = take limit (drop ((page - 1) * limit) base);
         checked = filter (\<lambda>sv. rs_check sv \<noteq> None) on_page
     in \<lparr>ha_checks = (case status_filter of None \<Rightarrow> checked
           | Some f \<Rightarrow> if f = [] then checked else filter (\<lambda>sv. rs_check sv = Some f) checked),
         ha_total = length base, ha_total_pages = (length base + limit - 1) div limit\<rparr>)"

subsection \<open>The page\<close>

text \<open>\<open>hl_data\<close> is the answer for the current parameters; without it a skeleton takes the place of the whole page.\<close>

record HealthPage =
  hl_page :: nat
  hl_status :: string
  hl_query :: string
  hl_debounced :: string
  hl_timer :: bool
  hl_data :: "HealthAnswer option"

definition mountHealth :: HealthPage where
  "mountHealth = \<lparr>hl_page = 1, hl_status = [], hl_query = [], hl_debounced = [], hl_timer = True, hl_data = None\<rparr>"

definition or_null :: "string \<Rightarrow> string option" where
  "or_null s = (if s = [] then None else Some s)"

definition health_answer :: "RunningServer list \<Rightarrow> HealthPage \<Rightarrow> HealthAnswer" where
  "health_answer servers s = get_health_monitoring (hl_page s) 20 (or_null (hl_status s)) (or_null (hl_debounced s)) servers"

text \<open>A new filter resets the page in a microtask after the render; the pager is shown below a table with rows only.\<close>

definition filterHealth :: "string \<Rightarrow> string \<Rightarrow> HealthPage \<Rightarrow> HealthPage" where
  "filterHealth chosen debounced s = (if chosen = hl_status s \<and> debounced = hl_debounced s then s
     else s\<lparr>hl_status := chosen, hl_debounced := debounced, hl_page := 1, hl_data := None\<rparr>)"

definition pager_shown :: "HealthPage \<Rightarrow> bool" where
  "pager_shown s \<longleftrightarrow> (case hl_data s of None \<Rightarrow> False | Some d \<Rightarrow> ha_checks d \<noteq> [] \<and> ha_total_pages d > 1)"

definition turnPage :: "nat \<Rightarrow> HealthPage \<Rightarrow> HealthPage" where
  "turnPage p s = (if p = hl_page s then s else s\<lparr>hl_page := p, hl_data := None\<rparr>)"

datatype HealthEvent = Query_typed string | Search_elapsed | Status_chosen string | Prev_clicked | Next_clicked
  | Health_arrives "RunningServer list"

definition health_event :: "HealthEvent \<Rightarrow> HealthPage \<Rightarrow> HealthPage" where
  "health_event e s = (case e of
     Query_typed t \<Rightarrow> if hl_data s = None then s else if t = hl_query s then s else s\<lparr>hl_query := t, hl_timer := True\<rparr>
   | Search_elapsed \<Rightarrow> if hl_timer s then filterHealth (hl_status s) (hl_query s) (s\<lparr>hl_timer := False\<rparr>) else s
   | Status_chosen v \<Rightarrow> if hl_data s = None then s else filterHealth v (hl_debounced s) s
   | Prev_clicked \<Rightarrow> if pager_shown s \<and> hl_page s > 1 then turnPage (max 1 (hl_page s - 1)) s else s
   | Next_clicked \<Rightarrow> (case hl_data s of
        Some d \<Rightarrow> if pager_shown s \<and> hl_page s < ha_total_pages d then turnPage (min (ha_total_pages d) (hl_page s + 1)) s else s
      | None \<Rightarrow> s)
   | Health_arrives servers \<Rightarrow> s\<lparr>hl_data := Some (health_answer servers s)\<rparr>)"

definition header_running :: "HealthPage \<Rightarrow> nat option" where
  "header_running s = map_option ha_total (hl_data s)"

subsection \<open>What the page shows\<close>

lemma page_positive: "1 \<le> hl_page s \<Longrightarrow> 1 \<le> hl_page (health_event e s)"
  by (cases e) (auto simp: health_event_def filterHealth_def turnPage_def pager_shown_def split: option.splits)

text \<open>Without a status filter the pages, put together, are the checked servers that match the search, each once.\<close>

lemma pages_of_checks:
  assumes "0 < limit"
  shows "concat (map (\<lambda>k. ha_checks (get_health_monitoring (Suc k) limit None search servers))
      [0..<ha_total_pages (get_health_monitoring 1 limit None search servers)]) =
    filter (\<lambda>sv. rs_check sv \<noteq> None) (filter (health_search search) servers)"
proof -
  have cut: "concat (map (\<lambda>k. take limit (drop (k * limit) xs)) [0..<n]) = take (n * limit) xs" for n and xs :: "RunningServer list"
    by (induction n) (simp_all add: take_add [symmetric] add.commute)
  let ?base = "filter (health_search search) servers"
  have "length ?base \<le> (length ?base + limit - 1) div limit * limit"
    using assms div_mult_mod_eq [of "length ?base + limit - 1" limit] mod_less_divisor [OF assms, of "length ?base + limit - 1"]
    by linarith
  then have "concat (map (\<lambda>k. take limit (drop (k * limit) ?base)) [0..<(length ?base + limit - 1) div limit]) = ?base"
    by (simp add: cut)
  from arg_cong [OF this, of "filter (\<lambda>sv. rs_check sv \<noteq> None)"] show ?thesis
    by (simp add: get_health_monitoring_def Let_def filter_concat comp_def)
qed

text \<open>
  With a status filter, servers with that status are not found when the first page has none of them: the page says that
  nothing matches, there is no pager, and no click or refresh leads to the page they are on.
\<close>

theorem status_filter_hides_servers:
  assumes "hl_page s = 1" and "hl_status s = f" and "f \<noteq> []" and "\<not> hl_timer s"
    and "list_all (\<lambda>sv. rs_check sv \<noteq> Some f) (take 20 (filter (health_search (or_null (hl_debounced s))) servers))"
    and "set evs \<subseteq> {Prev_clicked, Next_clicked, Search_elapsed, Health_arrives servers}"
  shows "hl_page (fold health_event (Health_arrives servers # evs) s) = 1 \<and>
    map_option ha_checks (hl_data (fold health_event (Health_arrives servers # evs) s)) = Some []"
proof -
  let ?ok = "\<lambda>t. hl_page t = 1 \<and> hl_status t = f \<and> \<not> hl_timer t \<and> hl_debounced t = hl_debounced s \<and>
    map_option ha_checks (hl_data t) = Some []"
  have empty: "filter (\<lambda>sv. rs_check sv = Some f) (take 20 (filter (health_search (or_null (hl_debounced s))) servers)) = []"
    using assms(5) by (simp add: list_all_iff)
  then have arrive: "?ok (health_event (Health_arrives servers) t)"
    if "hl_page t = 1" "hl_status t = f" "\<not> hl_timer t" "hl_debounced t = hl_debounced s" for t
    using that assms(3)
    by (simp add: health_event_def health_answer_def get_health_monitoring_def or_null_def Let_def filter_empty_conv)
  have "?ok (health_event e t)" if "?ok t" "e \<in> {Prev_clicked, Next_clicked, Search_elapsed, Health_arrives servers}" for e t
    using that arrive [of t] by (auto simp: health_event_def pager_shown_def split: option.splits)
  then have "?ok (fold health_event evs t)" if "?ok t" for t
    using that assms(6) by (induction evs arbitrary: t) auto
  from this [OF arrive [of s]] assms(1, 2, 4) show ?thesis by simp
qed

definition demo_running :: "RunningServer list" where
  "demo_running = replicate 20 \<lparr>rs_name = ''a'', rs_username = ''ada'', rs_check = Some ''healthy''\<rparr> @
     [\<lparr>rs_name = ''z'', rs_username = ''ada'', rs_check = Some ''unhealthy''\<rparr>]"

theorem status_filter_hides_servers_witness:
  "list_ex (\<lambda>sv. rs_check sv = Some ''unhealthy'') demo_running \<and>
   map_option ha_checks (hl_data (fold health_event [Health_arrives demo_running, Next_clicked]
     (mountHealth\<lparr>hl_status := ''unhealthy'', hl_timer := False\<rparr>))) = Some []"
  using status_filter_hides_servers [of "mountHealth\<lparr>hl_status := ''unhealthy'', hl_timer := False\<rparr>" "''unhealthy''" demo_running
      "[Next_clicked]"]
  by (simp add: mountHealth_def demo_running_def health_search_def or_null_def list_all_iff)

text \<open>
  When servers stop while a later page is shown, that page becomes empty and its pager goes with it, although there are
  still servers on the first page.
\<close>

lemma shrunk_list_strands:
  assumes "hl_page s = 2" and "length servers \<le> 20"
  shows "fold health_event [Health_arrives servers, Prev_clicked] s = health_event (Health_arrives servers) s \<and>
    map_option ha_checks (hl_data (health_event (Health_arrives servers) s)) = Some []"
proof -
  have "length (filter P servers) \<le> 20" for P using assms(2) length_filter_le [of P servers] by linarith
  then show ?thesis using assms(1)
    by (auto simp: health_event_def health_answer_def get_health_monitoring_def pager_shown_def Let_def split: option.splits)
qed

text \<open>The number of running servers in the header is that of the servers found by the search.\<close>

lemma header_counts_matches: "header_running (health_event (Health_arrives servers) s) =
    Some (length (filter (health_search (or_null (hl_debounced s))) servers))"
  by (simp add: header_running_def health_event_def health_answer_def get_health_monitoring_def Let_def)

text \<open>While the answer to a search is awaited the field is gone, and what is typed goes nowhere.\<close>

lemma search_field_goes_away:
  "hl_timer s \<Longrightarrow> hl_query s \<noteq> hl_debounced s \<Longrightarrow> health_event (Query_typed t) (health_event Search_elapsed s) = health_event Search_elapsed s"
  by (simp add: health_event_def filterHealth_def)

end
