(* ===== verification/Audit_Page.thy ===== *)
theory Audit_Page
  imports Data_Table Data_Views Admin_Hooks Auth_Store
begin

text \<open>
  The audit log from end to end: the middleware that records every successful request that changes something
  (\<^verbatim>\<open>backend/app/middleware/audit.py\<close>), the route that lists the records (\<^verbatim>\<open>get_activity_logs\<close> and
  \<^verbatim>\<open>export_activity_logs\<close> in \<^verbatim>\<open>api/admin.py\<close>) and the page, \<^verbatim>\<open>routes/admin.audit-logs.tsx\<close>.
\<close>

subsection \<open>The middleware\<close>

definition SKIP_METHODS :: "string list" where
  "SKIP_METHODS = [''GET'', ''HEAD'', ''OPTIONS'']"

definition SKIP_PATHS :: "string list" where
  "SKIP_PATHS = [''/api/health'', ''/api/docs'', ''/api/openapi.json'', ''/api/ws'', ''/api/metrics'']"

definition audited :: "string \<Rightarrow> string \<Rightarrow> nat \<Rightarrow> bool" where
  "audited verb path code \<longleftrightarrow> verb \<notin> set SKIP_METHODS \<and> \<not> list_ex (js_startsWith path) SKIP_PATHS \<and> code < 400"

text \<open>Python's \<^verbatim>\<open>strip\<close> of one character, and the parts of a path.\<close>

definition strip_char :: "char \<Rightarrow> string \<Rightarrow> string" where
  "strip_char c s = rev (dropWhile (\<lambda>x. x = c) (rev (dropWhile (\<lambda>x. x = c) s)))"

definition request_parts :: "string \<Rightarrow> string list" where
  "request_parts path = js_split CHR ''/'' (strip_char CHR ''/'' path)"

text \<open>\<open>uuid\<close> tells the texts that Python's \<^verbatim>\<open>uuid.UUID\<close> reads. The result is the action and the type of the target.\<close>

definition audit_action :: "(string \<Rightarrow> bool) \<Rightarrow> string \<Rightarrow> string \<Rightarrow> string \<times> string" where
  "audit_action uuid verb path = (let parts = request_parts path in
     if 2 \<le> length parts \<and> parts ! 0 = ''api'' then
       let target = parts ! 1; target_id = 3 \<le> length parts \<and> uuid (parts ! 2)
       in (if verb = ''POST'' then
             if 3 < length parts then parts ! 3 @ ''_'' @ target
             else if length parts = 3 \<and> \<not> target_id then parts ! 2 @ ''_'' @ target
             else ''create_'' @ target
           else if verb = ''PUT'' then ''update_'' @ target
           else if verb = ''DELETE'' then ''delete_'' @ target
           else js_toLowerCase verb, target)
     else (js_toLowerCase verb, ''unknown''))"

lemma audit_examples:
  "audit_action (\<lambda>s. s = ''42'') ''POST'' ''/api/servers/42/start'' = (''start_servers'', ''servers'')"
  "audit_action (\<lambda>s. s = ''42'') ''POST'' ''/api/servers/'' = (''create_servers'', ''servers'')"
  "audit_action (\<lambda>s. s = ''42'') ''POST'' ''/api/users/bulk-action'' = (''bulk-action_users'', ''users'')"
  "audit_action (\<lambda>s. s = ''42'') ''PATCH'' ''/api/servers/42'' = (''patch'', ''servers'')"
  by code_simp+

text \<open>The state before is read for two kinds of targets only; the state after is not recorded.\<close>

record UserRow =
  ur_id :: string
  ur_username :: string
  ur_email :: string
  ur_role :: string
  ur_is_active :: bool

record ServerRow =
  sr_id :: string
  sr_name :: string
  sr_status :: string
  sr_plan_id :: "string option"

definition fetch_record :: "(string \<Rightarrow> UserRow option) \<Rightarrow> (string \<Rightarrow> ServerRow option) \<Rightarrow> string \<Rightarrow> string \<Rightarrow> state_obj" where
  "fetch_record us ss target i =
    (if target = ''users'' then (case us i of None \<Rightarrow> []
       | Some u \<Rightarrow> [(''id'', JStr (ur_id u)), (''username'', JStr (ur_username u)), (''email'', JStr (ur_email u)),
           (''role'', JStr (ur_role u)), (''is_active'', JBool (ur_is_active u))])
     else if target = ''servers'' then (case ss i of None \<Rightarrow> []
       | Some s \<Rightarrow> [(''id'', JStr (sr_id s)), (''name'', JStr (sr_name s)), (''status'', JStr (sr_status s)),
           (''plan_id'', case sr_plan_id s of None \<Rightarrow> JNull | Some p \<Rightarrow> JStr p)])
     else [])"

definition capture_before_state :: "(string \<Rightarrow> UserRow option) \<Rightarrow> (string \<Rightarrow> ServerRow option) \<Rightarrow> string \<Rightarrow> state_obj" where
  "capture_before_state us ss path = (let parts = request_parts path in
     if 3 \<le> length parts \<and> parts ! 0 = ''api'' \<and> parts ! 2 \<noteq> [] then fetch_record us ss (parts ! 1) (parts ! 2) else [])"

record AuditRecord =
  le_action :: string
  le_target_type :: string
  le_before :: state_obj
  le_after :: state_obj

definition log_activity :: "(string \<Rightarrow> bool) \<Rightarrow> state_obj \<Rightarrow> string \<Rightarrow> string \<Rightarrow> AuditRecord" where
  "log_activity uuid before_state verb path = (case audit_action uuid verb path of (a, t) \<Rightarrow>
     \<lparr>le_action = a, le_target_type = t, le_before = before_state, le_after = []\<rparr>)"

definition audit_dispatch :: "(string \<Rightarrow> bool) \<Rightarrow> (string \<Rightarrow> UserRow option) \<Rightarrow> (string \<Rightarrow> ServerRow option) \<Rightarrow>
    string \<Rightarrow> string \<Rightarrow> nat \<Rightarrow> AuditRecord option" where
  "audit_dispatch uuid us ss verb path code =
    (if audited verb path code then
       Some (log_activity uuid (if verb = ''PUT'' \<or> verb = ''DELETE'' then capture_before_state us ss path else []) verb path)
     else None)"

subsection \<open>What the page shows as changed\<close>

lemma fetched_keys: "distinct (map fst (fetch_record us ss t i))"
  by (auto simp: fetch_record_def split: option.splits)

text \<open>
  An update leaves no state after it. The page compares the two states it gets, so it shows every field of the updated
  user or server as removed, the changed ones and the others alike.
\<close>

theorem update_shown_as_removal:
  assumes "permutes_items sort_with" and "audit_dispatch uuid us ss ''PUT'' path code = Some e"
    and "item \<in> set (computeDiff sort_with loc (le_before e) (le_after e))"
  shows "d_type item = Removed \<and> d_after item = None"
proof -
  have after: "le_after e = []" and before: "le_before e = capture_before_state us ss path"
    using assms(2) by (auto simp: audit_dispatch_def log_activity_def split: if_splits prod.splits)
  have "set (computeDiff sort_with loc b a) = set (map (diff_item b a) (diff_keys b a))" for b a
    using assms(1) unfolding permutes_items_def computeDiff_def by (metis set_mset_mset)
  with assms(3) after obtain k where k: "k \<in> set (diff_keys (le_before e) [])" "item = diff_item (le_before e) [] k"
    by auto
  then have "map_of (le_before e) k \<noteq> None" by (auto simp: diff_keys_def map_of_eq_None_iff)
  with k(2) show ?thesis by (auto simp: diff_item_def split: option.splits)
qed

definition demo_account_row :: "string \<Rightarrow> UserRow option" where
  "demo_account_row i = (if i = ''42'' then
     Some \<lparr>ur_id = ''42'', ur_username = ''ada'', ur_email = ''ada@x.org'', ur_role = ''user'', ur_is_active = True\<rparr> else None)"

theorem update_shown_as_removal_witness:
  "audit_dispatch (\<lambda>s. s = ''42'') demo_account_row (\<lambda>_. None) ''PUT'' ''/api/users/42'' 200 =
      Some \<lparr>le_action = ''update_users'', le_target_type = ''users'', le_before = fetch_record demo_account_row (\<lambda>_. None) ''users'' ''42'',
        le_after = []\<rparr> \<and>
    (\<exists>item \<in> set (computeDiff js_sort (\<lambda>_ _. 0) (fetch_record demo_account_row (\<lambda>_. None) ''users'' ''42'') []).
      d_key item = ''username'' \<and> d_type item = Removed)"
proof -
  let ?e = "\<lparr>le_action = ''update_users'', le_target_type = ''users'', le_before = fetch_record demo_account_row (\<lambda>_. None) ''users'' ''42'',
    le_after = []\<rparr>"
  have e: "audit_dispatch (\<lambda>s. s = ''42'') demo_account_row (\<lambda>_. None) ''PUT'' ''/api/users/42'' 200 = Some ?e"
    by code_simp
  let ?item = "diff_item (le_before ?e) (le_after ?e) ''username''"
  have "set (computeDiff js_sort (\<lambda>_ _. 0) (le_before ?e) (le_after ?e)) =
      set (map (diff_item (le_before ?e) (le_after ?e)) (diff_keys (le_before ?e) (le_after ?e)))"
    using js_sort_permutes unfolding permutes_items_def computeDiff_def by (metis set_mset_mset)
  moreover have "''username'' \<in> set (diff_keys (le_before ?e) (le_after ?e))" by code_simp
  ultimately have item: "?item \<in> set (computeDiff js_sort (\<lambda>_ _. 0) (le_before ?e) (le_after ?e))" by simp
  moreover have "d_type ?item = Removed" using update_shown_as_removal [OF js_sort_permutes e item] by simp
  moreover have "d_key ?item = ''username''" by (rule diff_item_key)
  ultimately show ?thesis using e by auto
qed

subsection \<open>Every record there is\<close>

text \<open>
  The routers of the backend (\<^verbatim>\<open>backend/app/main.py\<close>), and the actions and targets its services write themselves.
\<close>

definition API_ROUTERS :: "string list" where
  "API_ROUTERS = [''auth'', ''users'', ''servers'', ''tokens'', ''credits'', ''credit-requests'', ''admin'', ''preferences'',
     ''environments'', ''plans'', ''push'', ''quotas'', ''metrics'', ''notifications'', ''dashboard'', ''bulk'', ''health'',
     ''system'', ''schedules'', ''volumes'', ''analytics'', ''workspaces'', ''search'']"

definition SERVICE_ACTIONS :: "string list" where
  "SERVICE_ACTIONS = [''credit_requests.create'', ''credit_requests.auto_approve'', ''credit_requests.approve'',
     ''credit_requests.reject'', ''credit_requests.cancel'', ''credit_requests.message'', ''credit_requests.block'',
     ''credit_requests.unblock'', ''credits.update_user_daily_allowance'', ''credits.set_allowance_override'',
     ''credits.clear_allowance_override'', ''credits.grant'', ''credits.deduct'', ''credits.update_system_daily_allowance'',
     ''credits.update_system_max_balance'', ''credits.update_auto_approve_max'', ''credits.update_request_cooldown_hours'',
     ''credits.update_system_initial_balance'', ''credits.update_system_allowance_login_window'',
     ''credits.daily_allowance_batch'', ''quotas.update_default_limits'', ''server.start'', ''server.stop'',
     ''server.restart'', ''server.delete'', ''server.update'', ''server_access'', ''server.schedule.create'',
     ''server.schedule.update'', ''server.schedule.delete'', ''server.bulk_start'', ''server.bulk_stop'',
     ''server.bulk_restart'', ''server.bulk_delete'', ''workspace_updated'', ''member_left'', ''ownership_transferred'',
     ''invitation_sent'', ''invitation_accepted'', ''invitation_rejected'', ''ip_blocked'']"

definition SERVICE_TARGETS :: "string list" where
  "SERVICE_TARGETS = [''credit_request'', ''ip_restriction'', ''server'', ''system'', ''user'', ''workspace'']"

datatype LogSource = By_request string string state_obj | By_service string string

definition log_entry :: "(string \<Rightarrow> bool) \<Rightarrow> LogSource \<Rightarrow> AuditRecord" where
  "log_entry uuid src = (case src of
     By_request verb path b \<Rightarrow> log_activity uuid b verb path
   | By_service a t \<Rightarrow> \<lparr>le_action = a, le_target_type = t, le_before = [], le_after = []\<rparr>)"

definition backend_source :: "LogSource \<Rightarrow> bool" where
  "backend_source src = (case src of
     By_request verb path _ \<Rightarrow> verb \<in> {''POST'', ''PUT'', ''PATCH'', ''DELETE''} \<and>
       2 \<le> length (request_parts path) \<and> request_parts path ! 0 = ''api'' \<and> request_parts path ! 1 \<in> set API_ROUTERS
   | By_service a t \<Rightarrow> a \<in> set SERVICE_ACTIONS \<and> t \<in> set SERVICE_TARGETS)"

subsection \<open>The list and the page\<close>

text \<open>\<open>rows\<close> are the records of the table, the newest first; a parameter that is absent or empty does not filter.\<close>

definition matches :: "string option \<Rightarrow> string \<Rightarrow> bool" where
  "matches q v = (case q of None \<Rightarrow> True | Some s \<Rightarrow> s = [] \<or> v = s)"

definition activity_rows :: "string option \<Rightarrow> string option \<Rightarrow> AuditRecord list \<Rightarrow> AuditRecord list" where
  "activity_rows act target rows = filter (\<lambda>e. matches act (le_action e) \<and> matches target (le_target_type e)) rows"

definition get_activity_logs :: "string option \<Rightarrow> string option \<Rightarrow> nat \<Rightarrow> nat \<Rightarrow> AuditRecord list \<Rightarrow> AuditRecord list \<times> nat" where
  "get_activity_logs act target page limit rows = (let found = activity_rows act target rows
     in (take limit (drop ((page - 1) * limit) found), length found))"

definition export_activity_logs :: "string option \<Rightarrow> string option \<Rightarrow> nat \<Rightarrow> AuditRecord list \<Rightarrow> AuditRecord list" where
  "export_activity_logs act target limit rows = take limit (activity_rows act target rows)"

definition ACTION_OPTIONS :: "string list" where
  "ACTION_OPTIONS = [''create'', ''update'', ''delete'', ''login'', ''spawn'', ''stop'', ''start'']"

definition TARGET_OPTIONS :: "string list" where
  "TARGET_OPTIONS = [''users'', ''servers'', ''environments'', ''plans'', ''settings'']"

definition chosen_filter :: "string \<Rightarrow> ListPage \<Rightarrow> string option" where
  "chosen_filter k s = (case tbl_filters (lp_table s) k of Some (OneValue v) \<Rightarrow> Some v | _ \<Rightarrow> None)"

definition audit_params :: "ListPage \<Rightarrow> LogParams" where
  "audit_params s = \<lparr>pp_page = Some (tbl_page (lp_table s)), pp_limit = Some (tbl_limit (lp_table s)), lp_user = None,
     lp_action = chosen_filter ''action'' s, lp_target = chosen_filter ''target_type'' s, lp_from = None, lp_to = None\<rparr>"

definition audit_answer :: "ListPage \<Rightarrow> AuditRecord list \<Rightarrow> AuditRecord list \<times> nat" where
  "audit_answer s rows = (let p = audit_params s
     in get_activity_logs (lp_action p) (lp_target p) (or_default 1 (pp_page p)) (or_default 50 (pp_limit p)) rows)"

text \<open>\<^verbatim>\<open>handleExport\<close>: the rows of the downloaded file.\<close>

definition handleExport :: "ListPage \<Rightarrow> AuditRecord list \<Rightarrow> AuditRecord list" where
  "handleExport s rows = export_activity_logs (chosen_filter ''action'' s) (chosen_filter ''target_type'' s) 10000 rows"

lemma service_actions_compound: "list_all (\<lambda>a. a \<notin> set ACTION_OPTIONS) SERVICE_ACTIONS"
  by code_simp

lemma service_target_no_setting: "''settings'' \<notin> set SERVICE_TARGETS" "''settings'' \<notin> set API_ROUTERS"
  by code_simp+

lemma options_plain: "list_all (\<lambda>a. CHR ''_'' \<notin> set a \<and> a \<noteq> ''patch'' \<and> a \<noteq> []) ACTION_OPTIONS"
  by code_simp

lemma request_action:
  assumes "backend_source (By_request verb path b)"
  shows "CHR ''_'' \<in> set (fst (audit_action uuid verb path)) \<or> fst (audit_action uuid verb path) = ''patch''"
    and "snd (audit_action uuid verb path) \<in> set API_ROUTERS"
proof -
  have "js_toLowerCase ''PATCH'' = ''patch''" by code_simp
  with assms show "CHR ''_'' \<in> set (fst (audit_action uuid verb path)) \<or> fst (audit_action uuid verb path) = ''patch''"
    by (auto simp: backend_source_def audit_action_def Let_def)
  from assms show "snd (audit_action uuid verb path) \<in> set API_ROUTERS"
    by (simp add: backend_source_def audit_action_def Let_def)
qed

lemma request_entry:
  "le_action (log_entry uuid (By_request verb path b)) = fst (audit_action uuid verb path)"
  "le_target_type (log_entry uuid (By_request verb path b)) = snd (audit_action uuid verb path)"
  by (simp_all add: log_entry_def log_activity_def split: prod.splits)

lemma recorded_not_offered:
  assumes "backend_source src"
  shows "le_action (log_entry uuid src) \<notin> set ACTION_OPTIONS" and "le_target_type (log_entry uuid src) \<noteq> ''settings''"
proof -
  have plain: "CHR ''_'' \<notin> set a \<and> a \<noteq> ''patch''" if "a \<in> set ACTION_OPTIONS" for a
    using options_plain that unfolding list_all_iff by blast
  have service: "a \<notin> set ACTION_OPTIONS" if "a \<in> set SERVICE_ACTIONS" for a
    using service_actions_compound that unfolding list_all_iff by blast
  show "le_action (log_entry uuid src) \<notin> set ACTION_OPTIONS"
  proof (cases src)
    case (By_request verb path b)
    show ?thesis unfolding By_request request_entry using request_action(1) [of verb path b uuid] assms plain By_request by blast
  next
    case (By_service a t)
    with assms service [of a] show ?thesis by (simp add: log_entry_def backend_source_def)
  qed
  show "le_target_type (log_entry uuid src) \<noteq> ''settings''"
  proof (cases src)
    case (By_request verb path b)
    show ?thesis unfolding By_request request_entry
      using request_action(2) [of verb path b uuid] assms service_target_no_setting(2) By_request by metis
  next
    case (By_service a t)
    then have "le_target_type (log_entry uuid src) \<in> set SERVICE_TARGETS" using assms by (simp add: log_entry_def backend_source_def)
    then show ?thesis using service_target_no_setting(1) by metis
  qed
qed

lemma chosen_filter_last:
  assumes "table_api_laws api" and "k \<in> set cols" and "v \<noteq> []"
  shows "chosen_filter k (fold (table_event api cols) (es @ [ChooseFilter k v]) (initialListPage limit)) = Some v"
  using assms(2,3) by (simp add: kept_value_def chosen_filter_def page_filters_last_choices [OF assms(1)] del: fold_append fold_simps) (simp add: kept_value_def)

text \<open>
  C24. The page filters by the exact text of an action and offers seven verbs for it. No record has one of them for its action:
  the middleware joins the verb with the target, the services use compound names. Whatever else is set on the page,
  choosing an action, or the target \<open>settings\<close>, leaves an empty table and an empty export.
\<close>

theorem action_filter_finds_nothing:
  assumes "table_api_laws api" and "list_all backend_source srcs"
    and "k = ''action'' \<and> v \<in> set ACTION_OPTIONS \<or> k = ''target_type'' \<and> v = ''settings''"
    and "s = fold (table_event api (fst audit_table)) (es @ [ChooseFilter k v]) (initialListPage 25)"
  shows "audit_answer s (map (log_entry uuid) srcs) = ([], 0) \<and> handleExport s (map (log_entry uuid) srcs) = []"
proof -
  have "k \<in> set (fst audit_table)" using assms(3) by (auto simp: audit_table_def)
  moreover have ne: "v \<noteq> []" using assms(3) options_plain by (auto simp: list_all_iff)
  ultimately have v: "chosen_filter k s = Some v" unfolding assms(4) by (rule chosen_filter_last [OF assms(1)])
  have "\<not> (matches (chosen_filter ''action'' s) (le_action e) \<and> matches (chosen_filter ''target_type'' s) (le_target_type e))"
    if "e \<in> log_entry uuid ` set srcs" for e
    using that v ne assms(2,3) recorded_not_offered by (fastforce simp: list_all_iff matches_def)
  then have "activity_rows (chosen_filter ''action'' s) (chosen_filter ''target_type'' s) (map (log_entry uuid) srcs) = []"
    by (auto simp: activity_rows_def filter_empty_conv)
  then show ?thesis
    by (simp_all add: audit_answer_def audit_params_def get_activity_logs_def handleExport_def export_activity_logs_def)
qed

theorem action_filter_finds_nothing_witness:
  "audit_answer (fold (table_event list_filters (fst audit_table)) ([] @ [ChooseFilter ''action'' ''start'']) (initialListPage 25))
     (map (log_entry (\<lambda>s. s = ''42'')) [By_request ''POST'' ''/api/servers/42/start'' [], By_service ''server.start'' ''server'']) = ([], 0)"
proof -
  have "list_all backend_source [By_request ''POST'' ''/api/servers/42/start'' [], By_service ''server.start'' ''server'']"
    by code_simp
  moreover have "''action'' = ''action'' \<and> ''start'' \<in> set ACTION_OPTIONS \<or> ''action'' = ''target_type'' \<and> ''start'' = ''settings''"
    by code_simp
  ultimately show ?thesis
    using action_filter_finds_nothing [OF list_filters_laws _ _ refl, of _ "''action''" "''start''" "[]" "\<lambda>s. s = ''42''"] by blast
qed

text \<open>The search field is never sent: whatever is typed, only the page goes back to the first.\<close>

lemma search_ignored:
  "audit_params (table_event api cols (Search q) s) = audit_params (table_event api cols (Page 1) s)"
  by (simp add: audit_params_def chosen_filter_def setSearch_def setPage_def)

lemma pages_concat:
  assumes "0 < l"
  shows "concat (map (\<lambda>p. take l (drop ((p - 1) * l) xs)) [1..<Suc n]) = take (n * l) xs"
proof (induction n)
  case (Suc n)
  have "[1..<Suc (Suc n)] = [1..<Suc n] @ [Suc n]" by simp
  moreover have "take (Suc n * l) xs = take (n * l) xs @ take l (drop (n * l) xs)"
    by (simp only: mult_Suc add.commute [of l] take_add)
  ultimately show ?case using Suc.IH by (simp only: map_append concat_append) simp
qed simp

definition page_of :: "nat \<Rightarrow> ListPage \<Rightarrow> ListPage" where
  "page_of p s = s\<lparr>lp_table := setPage p (lp_table s)\<rparr>"

text \<open>
  The exported rows are the pages of the list, put together, as long as there are not too many.\<close>

theorem export_is_all_pages:
  assumes "0 < tbl_limit (lp_table s)" and "snd (audit_answer s rows) \<le> 10000" and "snd (audit_answer s rows) \<le> n * tbl_limit (lp_table s)"
  shows "handleExport s rows = concat (map (\<lambda>p. fst (audit_answer (page_of p s) rows)) [1..<Suc n])"
proof -
  let ?l = "tbl_limit (lp_table s)" and ?found = "activity_rows (chosen_filter ''action'' s) (chosen_filter ''target_type'' s) rows"
  have answer: "fst (audit_answer (page_of p s) rows) = take ?l (drop ((p - 1) * ?l) ?found)" for p
    by (simp add: audit_answer_def audit_params_def get_activity_logs_def page_of_def chosen_filter_def setPage_def Let_def
        or_default_def)
  have len: "snd (audit_answer s rows) = length ?found"
    by (simp add: audit_answer_def audit_params_def get_activity_logs_def Let_def)
  show ?thesis unfolding answer pages_concat [OF assms(1)]
    using assms(2,3) len by (simp add: handleExport_def export_activity_logs_def)
qed

theorem export_is_all_pages_witness:
  "let s = initialListPage 2; rows = map (log_entry (\<lambda>s. s = ''42'')) [By_service ''server.start'' ''server'',
     By_service ''server.stop'' ''server'', By_request ''PUT'' ''/api/users/42'' []]
   in handleExport s rows = fst (audit_answer (page_of 1 s) rows) @ fst (audit_answer (page_of 2 s) rows)"
proof -
  let ?s = "initialListPage 2"
  let ?rows = "map (log_entry (\<lambda>s. s = ''42'')) [By_service ''server.start'' ''server'',
     By_service ''server.stop'' ''server'', By_request ''PUT'' ''/api/users/42'' []]"
  have "snd (audit_answer ?s ?rows) = 3" "tbl_limit (lp_table ?s) = 2" by code_simp+
  then have "handleExport ?s ?rows = concat (map (\<lambda>p. fst (audit_answer (page_of p ?s) ?rows)) [1..<Suc 2])"
    by (intro export_is_all_pages) simp_all
  moreover have "[1..<Suc 2] = [1, 2]" by (simp add: upt_rec)
  ultimately show ?thesis unfolding Let_def by (simp only: list.map concat.simps append_Nil2)
qed

subsection \<open>Labels and figures\<close>

definition word_char :: "char \<Rightarrow> bool" where
  "word_char c \<longleftrightarrow> (let n = of_char c :: nat in 48 \<le> n \<and> n \<le> 57 \<or> 65 \<le> n \<and> n \<le> 90 \<or> 97 \<le> n \<and> n \<le> 122 \<or> c = CHR ''_'')"

text \<open>The replacement of \<^verbatim>\<open>\b\w\<close>: a word character after one that is none; the flag tells whether the last one was.\<close>

fun capitalise_words :: "bool \<Rightarrow> string \<Rightarrow> string" where
  "capitalise_words inside [] = []"
| "capitalise_words inside (c # cs) =
    (if word_char c \<and> \<not> inside then js_upper_char c else c) # capitalise_words (word_char c) cs"

definition formatActionName :: "string \<Rightarrow> string" where
  "formatActionName a = capitalise_words False (map (\<lambda>c. if c = CHR ''_'' \<or> c = CHR ''.'' then CHR '' '' else c) a)"

definition formatTargetType :: "string \<Rightarrow> string" where
  "formatTargetType t = capitalise_words False (map (\<lambda>c. if c = CHR ''_'' then CHR '' '' else c) t)"

lemma format_examples:
  "formatActionName ''credit_requests.auto_approve'' = ''Credit Requests Auto Approve''"
  "formatActionName ''bulk-action_users'' = ''Bulk-Action Users''" "formatTargetType ''credit_request'' = ''Credit Request''"
  by code_simp+

datatype ActionColor = Red_action | Green_action | Amber_action | Blue_action | Muted_action

definition getActionColor :: "string \<Rightarrow> ActionColor" where
  "getActionColor a =
    (if js_contains a ''delete'' \<or> js_contains a ''disable'' then Red_action
     else if js_contains a ''create'' \<or> js_contains a ''enable'' \<or> js_contains a ''spawn'' then Green_action
     else if js_contains a ''update'' \<or> js_contains a ''edit'' then Amber_action
     else if js_contains a ''login'' \<or> js_contains a ''auth'' then Blue_action else Muted_action)"

datatype ActionIcon = Server_icon | User_icon | Settings_icon | Card_icon | Box_icon | Activity_icon

definition getActionIcon :: "string \<Rightarrow> ActionIcon" where
  "getActionIcon a =
    (if js_contains a ''server'' \<or> js_contains a ''spawn'' then Server_icon
     else if js_contains a ''user'' then User_icon
     else if js_contains a ''setting'' \<or> js_contains a ''config'' then Settings_icon
     else if js_contains a ''credit'' \<or> js_contains a ''nuke'' then Card_icon
     else if js_contains a ''environment'' \<or> js_contains a ''plan'' then Box_icon else Activity_icon)"

text \<open>\<^verbatim>\<open>edit\<close> is part of \<^verbatim>\<open>credit\<close>: every action on credits that names no other verb has the colour of an update.\<close>

lemma grants_coloured_as_edits: "getActionColor ''credits.grant'' = Amber_action" "getActionColor ''credits.deduct'' = Amber_action"
  by code_simp+

datatype BadgeKind = Info_badge | Ok_badge | Client_badge | Server_badge

definition getStatusBadge :: "int option \<Rightarrow> BadgeKind \<times> string" where
  "getStatusBadge code = (case code of None \<Rightarrow> (Info_badge, ''Unknown'')
     | Some n \<Rightarrow> if n = 0 then (Info_badge, ''Unknown'') else if 200 \<le> n \<and> n < 300 then (Ok_badge, show_int n)
         else if 400 \<le> n \<and> n < 500 then (Client_badge, show_int n)
         else if 500 \<le> n then (Server_badge, show_int n) else (Info_badge, show_int n))"

text \<open>Only successful requests are recorded, so the badge of a failure never shows on a record of the middleware.\<close>

lemma recorded_badge: "audited verb path code \<Longrightarrow> fst (getStatusBadge (Some (int code))) \<in> {Info_badge, Ok_badge}"
  by (auto simp: audited_def getStatusBadge_def)

record AuditStats =
  as_total :: nat
  as_security :: nat
  as_warnings :: nat

text \<open>The total is that of all pages, the other figures are those of the page on display.\<close>

definition audit_stats :: "AuditRecord list \<times> nat \<Rightarrow> AuditStats" where
  "audit_stats answer = \<lparr>as_total = snd answer,
     as_security = length (filter (\<lambda>l. js_contains (le_action l) ''login'' \<or> js_contains (le_action l) ''auth'' \<or>
       js_contains (le_action l) ''permission'') (fst answer)),
     as_warnings = length (filter (\<lambda>l. js_contains (le_action l) ''delete'' \<or> js_contains (le_action l) ''disable'' \<or>
       js_contains (le_action l) ''stop'') (fst answer))\<rparr>"

lemma figures_of_one_page:
  "as_security (audit_stats (audit_answer s rows)) \<le> tbl_limit (lp_table s)"
  "as_warnings (audit_stats (audit_answer s rows)) \<le> tbl_limit (lp_table s)"
proof -
  have "length (fst (audit_answer s rows)) \<le> tbl_limit (lp_table s)"
    by (simp add: audit_answer_def audit_params_def get_activity_logs_def or_default_def Let_def)
  then show "as_security (audit_stats (audit_answer s rows)) \<le> tbl_limit (lp_table s)"
    "as_warnings (audit_stats (audit_answer s rows)) \<le> tbl_limit (lp_table s)"
    unfolding audit_stats_def AuditStats.simps by (meson length_filter_le order_trans)+
qed

end
