(* ===== verification/Admin_Lists.thy ===== *)
theory Admin_Lists
  imports Audit_Page Analytics_Page Volumes_Page
begin

text \<open>
  The pages of the administration and the routes behind them: who passes a page's guard and is refused its list, and the
  page of all volumes, \<^verbatim>\<open>routes/admin.volumes.tsx\<close>, next to the backend's list and update
  (\<^verbatim>\<open>backend/app/services/volume_service.py\<close>) and the dialog of \<^verbatim>\<open>routes/admin.workspaces.tsx\<close>.
\<close>

subsection \<open>Guards of pages and routes\<close>

text \<open>\<^verbatim>\<open>require_permissions\<close> in \<^verbatim>\<open>backend/app/dependencies.py\<close> asks for one of its permissions.\<close>

definition require_permissions :: "RoleTable \<Rightarrow> User \<Rightarrow> string list \<Rightarrow> bool" where
  "require_permissions T u ps = has_any_permission T (Some u) ps"

text \<open>
  What the route asks for that answers the list of each page, as a list of checks that all have to pass. The lists of
  environments and of plans are open to every user who is signed in.
\<close>

type_synonym RouteChecks = "string list list"

definition users_list_checks :: RouteChecks where
  "users_list_checks = [[USERS_READ]]"

definition servers_list_checks :: RouteChecks where
  "servers_list_checks = [[SERVERS_READ_OWN, SERVERS_READ_ALL]]"

definition health_list_checks :: RouteChecks where
  "health_list_checks = [[ADMIN_ACCESS]]"

definition analytics_list_checks :: RouteChecks where
  "analytics_list_checks = [[ANALYTICS_READ], [ADMIN_ACCESS]]"

definition activity_list_checks :: RouteChecks where
  "activity_list_checks = [[ADMIN_ACCESS]]"

definition requests_list_checks :: RouteChecks where
  "requests_list_checks = [[CREDITS_READ_ALL]]"

definition environments_list_checks :: RouteChecks where
  "environments_list_checks = []"

definition plans_list_checks :: RouteChecks where
  "plans_list_checks = []"

definition quotas_list_checks :: RouteChecks where
  "quotas_list_checks = [[QUOTA_READ]]"

definition workspaces_list_checks :: RouteChecks where
  "workspaces_list_checks = [[ADMIN_ACCESS]]"

definition volumes_list_checks :: RouteChecks where
  "volumes_list_checks = [[ADMIN_ACCESS]]"

definition matrix_read_checks :: RouteChecks where
  "matrix_read_checks = [[ADMIN_ACCESS]]"

definition restrictions_list_checks :: RouteChecks where
  "restrictions_list_checks = [[ADMIN_ACCESS]]"

definition windows_list_checks :: RouteChecks where
  "windows_list_checks = [[ADMIN_ACCESS]]"

definition email_config_read_checks :: RouteChecks where
  "email_config_read_checks = [[ADMIN_ACCESS]]"

text \<open>All of them, under the paths of the pages whose hooks call the routes.\<close>

definition PAGE_ROUTES :: "(string \<times> RouteChecks) list" where
  "PAGE_ROUTES =
    [(''/admin/users'', users_list_checks),
     (''/admin/servers'', servers_list_checks),
     (''/admin/health'', health_list_checks),
     (''/admin/analytics'', analytics_list_checks),
     (''/admin/audit-logs'', activity_list_checks),
     (''/admin/credits'', requests_list_checks),
     (''/admin/environments'', environments_list_checks),
     (''/admin/plans'', plans_list_checks),
     (''/admin/quotas'', quotas_list_checks),
     (''/admin/workspaces'', workspaces_list_checks),
     (''/admin/volumes'', volumes_list_checks),
     (''/admin/permissions'', matrix_read_checks),
     (''/admin/ip-restrictions'', restrictions_list_checks),
     (''/admin/maintenance-windows'', windows_list_checks),
     (''/admin/settings'', email_config_read_checks)]"

definition route_allows :: "RoleTable \<Rightarrow> User \<Rightarrow> string \<Rightarrow> bool" where
  "route_allows T u path \<longleftrightarrow> list_all (require_permissions T u) (the (map_of PAGE_ROUTES path))"

text \<open>The pages whose guard lets someone in and whose list they are refused.\<close>

definition empty_pages :: "RoleTable \<Rightarrow> User \<Rightarrow> string list" where
  "empty_pages T u = map fst (filter (\<lambda>(p, g). guardAllowed \<lparr>user = Some (profile_user T u)\<rparr> g \<and> \<not> route_allows T u p) ADMIN_GUARDS)"

text \<open>Each page with the permissions one of which its guard asks for, and the checks of its route.\<close>

definition guard_table :: "(string \<times> string list \<times> string list list) list" where
  "guard_table = map (\<lambda>(p, g). (p, case g_permission g of Some q \<Rightarrow> [q] | None \<Rightarrow> the (g_permissions g), the (map_of PAGE_ROUTES p))) ADMIN_GUARDS"

lemma guard_table_explicit:
  "guard_table =
    [(''/admin/users'', [USERS_READ], [[USERS_READ]]),
     (''/admin/servers'', [SERVERS_READ_ALL], [[SERVERS_READ_OWN, SERVERS_READ_ALL]]),
     (''/admin/health'', [ADMIN_ACCESS], [[ADMIN_ACCESS]]),
     (''/admin/analytics'', [ANALYTICS_READ], [[ANALYTICS_READ], [ADMIN_ACCESS]]),
     (''/admin/audit-logs'', [AUDIT_READ], [[ADMIN_ACCESS]]),
     (''/admin/credits'', [CREDITS_READ_ALL], [[CREDITS_READ_ALL]]),
     (''/admin/environments'', [ENVIRONMENT_CREATE, ENVIRONMENT_UPDATE, ENVIRONMENT_DELETE], []),
     (''/admin/plans'', [PLAN_CREATE, PLAN_UPDATE, PLAN_DELETE], []),
     (''/admin/quotas'', [QUOTA_READ], [[QUOTA_READ]])] @
    map (\<lambda>p. (p, [ADMIN_ACCESS], [[ADMIN_ACCESS]]))
      [''/admin/workspaces'', ''/admin/volumes'', ''/admin/permissions'', ''/admin/ip-restrictions'', ''/admin/maintenance-windows'',
       ''/admin/settings'']"
  by code_simp

lemma guards_shaped:
  "list_all (\<lambda>(p, g). (case g_permission g of Some q \<Rightarrow> q \<noteq> []
     | None \<Rightarrow> (case g_permissions g of None \<Rightarrow> False | Some ps \<Rightarrow> ps \<noteq> []) \<and> \<not> g_requireAll g)) ADMIN_GUARDS"
  by code_simp

lemma shaped_guard:
  assumes "(p, g) \<in> set ADMIN_GUARDS"
  shows "guardAllowed st g = list_ex (hasPermission st) (case g_permission g of Some q \<Rightarrow> [q] | None \<Rightarrow> the (g_permissions g))"
  using guards_shaped assms
  by (auto simp: list_all_iff guardAllowed_def any_client split: option.splits list.splits)

lemma require_ex: "require_permissions T u = list_ex (has_permission T (Some u))"
  by (intro ext) (simp only: require_permissions_def has_any_permission_def)

lemma empty_pages_table:
  "empty_pages T u = map fst (filter (\<lambda>(p, alts, checks). list_ex (checkPermission (Some (profile_user T u))) alts \<and>
     \<not> list_all (list_ex (has_permission T (Some u))) checks) guard_table)"
proof -
  have c: "hasPermission \<lparr>user = Some (profile_user T u)\<rparr> = checkPermission (Some (profile_user T u))"
    by (simp add: hasPermission_def fun_eq_iff)
  show ?thesis
    unfolding empty_pages_def route_allows_def require_ex guard_table_def filter_map map_map
    by (rule arg_cong2 [where f = map], (auto simp: shaped_guard c intro!: filter_cong)+)
qed

lemma listed_permissions: "set [USERS_READ, SERVERS_READ_ALL, ADMIN_ACCESS, ANALYTICS_READ, CREDITS_READ_ALL, QUOTA_READ] \<subseteq> set all_permissions"
  by code_simp

text \<open>What the client knows of a role under the shipped matrix.\<close>

definition role_client :: "string \<Rightarrow> string \<Rightarrow> bool" where
  "role_client r p \<longleftrightarrow> (let ps = the (map_of ROLE_PERMISSIONS r) in ALL_PERMISSIONS \<in> set ps \<or> p \<in> set ps)"



subsection \<open>The list of all volumes\<close>

definition VOLUME_STATUSES :: "string list" where
  "VOLUME_STATUSES = [''active'', ''archived'', ''deleting'', ''over_limit'']"

definition VISIBILITIES :: "string list" where
  "VISIBILITIES = [''private'', ''workspace'', ''public'']"

definition volume_filters :: "(string \<times> string list) list" where
  "volume_filters = [(''status'', ''all'' # VOLUME_STATUSES), (''visibility'', ''all'' # VISIBILITIES)]"

definition admin_volume_params :: "ListPage \<Rightarrow> AdminListParams" where
  "admin_volume_params s = \<lparr>pp_page = Some (tbl_page (lp_table s)), pp_limit = Some (tbl_limit (lp_table s)),
     al_search = Some (tbl_search (lp_table s)), al_status = chosen_filter ''status'' s,
     al_visibility = chosen_filter ''visibility'' s, al_owner = None, al_sort_by = Some (tbl_sortBy (lp_table s)),
     al_sort_order = Some (if tbl_descending (lp_table s) then ''desc'' else ''asc'')\<rparr>"

text \<open>
  \<open>rows\<close> are the volumes in the order asked for; \<open>ilike\<close> is the database's search for a text in the names of a volume and
  of its owner.
\<close>

definition list_all_volumes :: "(string \<Rightarrow> ListedVolume \<Rightarrow> bool) \<Rightarrow> AdminListParams \<Rightarrow> ListedVolume list \<Rightarrow> ListedVolume list \<times> nat" where
  "list_all_volumes ilike p rows =
    (let found = filter (\<lambda>v. matches (al_status p) (lv_status v) \<and> matches (al_visibility p) (lv_visibility v) \<and>
           matches (al_owner p) (lv_owner_id v) \<and> (case al_search p of None \<Rightarrow> True | Some q \<Rightarrow> q = [] \<or> ilike q v)) rows;
         limit = or_default 20 (pp_limit p)
     in (take limit (drop ((or_default 1 (pp_page p) - 1) * limit) found), length found))"

text \<open>
  The toolbar offers an entry of its own that removes a filter. The page adds a second one, \<open>All\<close>, whose value the backend
  takes for a status: choosing it empties the list.
\<close>

theorem all_option_lists_nothing:
  assumes "table_api_laws api" and "k \<in> {''status'', ''visibility''}"
    and "list_all (\<lambda>v. lv_status v \<in> set VOLUME_STATUSES \<and> lv_visibility v \<in> set VISIBILITIES) rows"
  shows "''all'' \<in> set (the (map_of volume_filters k)) \<and>
    list_all_volumes ilike (admin_volume_params
      (fold (table_event api (fst volumes_table)) (es @ [ChooseFilter k ''all'']) (initialListPage 20))) rows = ([], 0)"
proof -
  let ?s = "fold (table_event api (fst volumes_table)) (es @ [ChooseFilter k ''all'']) (initialListPage 20)"
  have offered: "''all'' \<in> set (the (map_of volume_filters k))" using assms(2) by (auto simp: volume_filters_def)
  have "k \<in> set (fst volumes_table)" using assms(2) by (auto simp: volumes_table_def)
  then have k: "chosen_filter k ?s = Some ''all''" by (rule chosen_filter_last [OF assms(1)]) simp
  have "\<not> (matches (chosen_filter ''status'' ?s) (lv_status v) \<and> matches (chosen_filter ''visibility'' ?s) (lv_visibility v))"
    if "v \<in> set rows" for v
  proof -
    have "lv_status v \<in> set VOLUME_STATUSES" "lv_visibility v \<in> set VISIBILITIES" using assms(3) that by (auto simp: list_all_iff)
    then have "lv_status v \<noteq> ''all''" "lv_visibility v \<noteq> ''all''" by (auto simp: VOLUME_STATUSES_def VISIBILITIES_def)
    then show ?thesis using k assms(2) by (auto simp: matches_def)
  qed
  then have "filter (\<lambda>v. matches (chosen_filter ''status'' ?s) (lv_status v) \<and> matches (chosen_filter ''visibility'' ?s) (lv_visibility v) \<and> Q v) rows = []" for Q
    by (auto simp: filter_empty_conv)
  with offered show ?thesis by (simp add: list_all_volumes_def admin_volume_params_def Let_def del: fold_append)
qed

theorem all_option_lists_nothing_witness:
  "list_all_volumes (\<lambda>_ _. True) (admin_volume_params
     (fold (table_event list_filters (fst volumes_table)) ([] @ [ChooseFilter ''status'' ''all'']) (initialListPage 20)))
     [(demo_volume ''a'' 5)\<lparr>lv_status := ''active'', lv_visibility := ''private''\<rparr>] = ([], 0)"
  using all_option_lists_nothing [OF list_filters_laws, of "''status''" "[(demo_volume ''a'' 5)\<lparr>lv_status := ''active'', lv_visibility := ''private''\<rparr>]"
      "\<lambda>_ _. True" "[]"] by (simp add: VOLUME_STATUSES_def VISIBILITIES_def)

subsection \<open>Editing a volume of somebody\<close>

record AdminVolumeForm =
  avf_display_name :: string
  avf_description :: string
  avf_visibility :: string
  avf_status :: string
  avf_max_size_gb :: int

definition gb_ceil :: "int \<Rightarrow> int" where
  "gb_ceil n = - ((- n) div GB)"

definition openVolumeDialog :: "ListedVolume \<Rightarrow> AdminVolumeForm" where
  "openVolumeDialog v = \<lparr>avf_display_name = lv_display_name v, avf_description = (case lv_description v of None \<Rightarrow> [] | Some d \<Rightarrow> d),
     avf_visibility = lv_visibility v, avf_status = lv_status v,
     avf_max_size_gb = (case vol_max_size_bytes v of None \<Rightarrow> 10 | Some n \<Rightarrow> if n \<noteq> 0 then max 1 (js_round_div n GB) else 10)\<rparr>"

text \<open>The number field: no number is read as one, and the rest is kept between 1 and 500.\<close>

definition changeMaxSize :: "string \<Rightarrow> AdminVolumeForm \<Rightarrow> AdminVolumeForm" where
  "changeMaxSize t f = f\<lparr>avf_max_size_gb := (case js_parseInt10 t of None \<Rightarrow> 1 | Some n \<Rightarrow> max 1 (min 500 n))\<rparr>"

record AdminVolumeChange = VolumeChange +
  avc_visibility :: string
  avc_status :: string

definition submitVolume :: "ListedVolume \<Rightarrow> AdminVolumeForm \<Rightarrow> AdminVolumeChange" where
  "submitVolume v f = (let minSizeGb = (if vol_size_bytes v \<noteq> 0 then max 1 (gb_ceil (vol_size_bytes v)) else 1)
     in \<lparr>vc_display_name = avf_display_name f, vc_description = (if avf_description f = [] then None else Some (avf_description f)),
         vc_max_size_bytes = Some (max minSizeGb (avf_max_size_gb f) * 1024 * 1024 * 1024),
         avc_visibility = avf_visibility f, avc_status = avf_status f\<rparr>)"

definition validate_max_size :: "ListedVolume \<Rightarrow> int option \<Rightarrow> bool" where
  "validate_max_size v m = (case m of None \<Rightarrow> True | Some n \<Rightarrow> \<not> n < vol_size_bytes v)"

datatype VolumeError = Volume_forbidden | Session_required | Limit_below_use

text \<open>
  The route: its caller may write all volumes and came with a session, not with an access token (\<open>jwt\<close>). \<open>r\<close> is the row of
  the volume as it is then.
\<close>

definition admin_update_volume :: "RoleTable \<Rightarrow> User \<Rightarrow> bool \<Rightarrow> AdminVolumeChange \<Rightarrow> ListedVolume \<Rightarrow> VolumeError + ListedVolume" where
  "admin_update_volume T u jwt c r =
    (if \<not> has_permission T (Some u) VOLUMES_WRITE_ALL then Inl Volume_forbidden
     else if \<not> jwt then Inl Session_required
     else if \<not> validate_max_size r (vc_max_size_bytes c) then Inl Limit_below_use
     else Inr ((update_volume (VolumeChange.truncate c) r)\<lparr>lv_visibility := avc_visibility c, lv_status := avc_status c\<rparr>))"

lemma gb_ceil_covers: "n \<le> gb_ceil n * GB"
proof -
  have "(- n) div GB * GB \<le> - n" by (simp add: GB_def)
  then show ?thesis by (simp add: gb_ceil_def)
qed

lemma submitted_limit:
  "\<exists>n. vc_max_size_bytes (submitVolume v f) = Some n \<and> vol_size_bytes v \<le> n \<and> GB \<le> n"
proof -
  let ?m = "if vol_size_bytes v \<noteq> 0 then max 1 (gb_ceil (vol_size_bytes v)) else 1"
  let ?n = "max ?m (avf_max_size_gb f) * 1024 * 1024 * 1024"
  have n: "vc_max_size_bytes (submitVolume v f) = Some ?n" by (simp add: submitVolume_def Let_def)
  have m: "1 \<le> ?m" "vol_size_bytes v \<le> ?m * GB"
    using gb_ceil_covers [of "vol_size_bytes v"] by (auto simp: GB_def max_def)
  have "?m * GB \<le> ?n" by (simp add: GB_def)
  with m have "vol_size_bytes v \<le> ?n" "GB \<le> ?n" by (auto simp: GB_def)
  with n show ?thesis by blast
qed



text \<open>
  A volume without a limit cannot stay without one: saving the dialog as it opens limits it to ten gigabytes, or to its size
  where that is more. A limit of whole gigabytes, with which the volume complies, is kept.
\<close>

lemma unlimited_volume_limited:
  assumes "vol_max_size_bytes v = None"
  shows "vc_max_size_bytes (submitVolume v (openVolumeDialog v)) = Some (max 10 (gb_ceil (vol_size_bytes v)) * GB)"
proof -
  have "gb_ceil 0 = 0" by (simp add: gb_ceil_def)
  with assms show ?thesis by (auto simp: submitVolume_def openVolumeDialog_def GB_def max_def)
qed

lemma whole_limit_survives:
  assumes "vol_max_size_bytes v = Some (k * GB)" and "1 \<le> k" and "vol_size_bytes v \<le> k * GB"
  shows "vc_max_size_bytes (submitVolume v (openVolumeDialog v)) = vol_max_size_bytes v"
proof -
  have "gb_ceil (vol_size_bytes v) \<le> k"
    using assms(3) by (simp add: gb_ceil_def GB_def)
  moreover have "openVolumeDialog v = openVolumeDialog v\<lparr>avf_max_size_gb := k\<rparr>"
    using assms(1,2) round_whole_gb [of k] by (simp add: openVolumeDialog_def GB_def)
  ultimately show ?thesis
    using assms by (cases "openVolumeDialog v") (auto simp: submitVolume_def GB_def max_def)
qed

subsection \<open>Editing a workspace of somebody\<close>

record AdminWorkspaceRow =
  aw_name :: string
  aw_description :: "string option"
  aw_is_active :: bool

record AdminWorkspaceForm =
  awf_name :: string
  awf_description :: string
  awf_is_active :: bool

definition openWorkspaceDialog :: "AdminWorkspaceRow \<Rightarrow> AdminWorkspaceForm" where
  "openWorkspaceDialog w = \<lparr>awf_name = aw_name w, awf_description = (case aw_description w of None \<Rightarrow> [] | Some d \<Rightarrow> d),
     awf_is_active = aw_is_active w\<rparr>"

record AdminWorkspaceChange =
  awc_name :: string
  awc_description :: "string option"
  awc_is_active :: bool

definition submitWorkspace :: "AdminWorkspaceForm \<Rightarrow> AdminWorkspaceChange" where
  "submitWorkspace f = \<lparr>awc_name = awf_name f, awc_description = (if awf_description f = [] then None else Some (awf_description f)),
     awc_is_active = awf_is_active f\<rparr>"

definition admin_update_workspace :: "AdminWorkspaceChange \<Rightarrow> AdminWorkspaceRow \<Rightarrow> AdminWorkspaceRow" where
  "admin_update_workspace c w = w\<lparr>aw_name := awc_name c,
     aw_description := (case awc_description c of None \<Rightarrow> aw_description w | Some d \<Rightarrow> Some d), aw_is_active := awc_is_active c\<rparr>"

text \<open>An edit writes what the form shows, except that a description that was emptied stays.\<close>

theorem workspace_edit_writes_form:
  "openWorkspaceDialog (admin_update_workspace (submitWorkspace f) w) =
    (if awf_description f = [] then f\<lparr>awf_description := awf_description (openWorkspaceDialog w)\<rparr> else f)"
  by (simp add: openWorkspaceDialog_def admin_update_workspace_def submitWorkspace_def)

lemma unedited_workspace_kept: "aw_description w \<noteq> Some [] \<Longrightarrow> admin_update_workspace (submitWorkspace (openWorkspaceDialog w)) w = w"
  by (simp add: openWorkspaceDialog_def admin_update_workspace_def submitWorkspace_def split: option.splits)

end
