(* ===== verification/My_Credits.thy ===== *)
theory My_Credits
  imports Credit_Pages Role_Matrix
begin

text \<open>
  A user's own credits, \<^verbatim>\<open>routes/settings.credits.tsx\<close>: the pages of the history, the links to a request, and the button
  that asks for credits next to the backend that accepts the request
  (\<^verbatim>\<open>backend/app/services/credit_request_service.py\<close>). Its sorting and filtering are those of the history dialog of
  \<open>Credit_Pages\<close>.
\<close>

subsection \<open>The page buttons\<close>

definition history_buttons :: "nat \<Rightarrow> nat \<Rightarrow> nat list" where
  "history_buttons page totalPages = map (\<lambda>i. if totalPages \<le> 5 then i + 1 else if page \<le> 3 then i + 1
     else if totalPages - 2 \<le> page then totalPages - 4 + i else page - 2 + i) [0..<min 5 totalPages]"

definition history_range :: "nat \<Rightarrow> nat \<Rightarrow> nat \<Rightarrow> (nat \<times> nat) option" where
  "history_range page limit n = (if 0 < n then Some ((page - 1) * limit + 1, min (page * limit) n) else None)"

text \<open>
  The buttons are up to five pages in a row, among them the one on display, none beyond the last; where there are five
  and the page is not near an end, it is in the middle.
\<close>

theorem history_buttons_window:
  assumes "1 \<le> page" and "page \<le> n"
  shows "\<exists>a. history_buttons page n = [a..<a + min 5 n] \<and> 1 \<le> a \<and> a + min 5 n \<le> n + 1 \<and>
    page \<in> set (history_buttons page n) \<and> (5 < n \<and> 3 \<le> page \<and> page + 2 \<le> n \<longrightarrow> a = page - 2)"
proof -
  let ?a = "if n \<le> 5 \<or> page \<le> 3 then 1 else if n - 2 \<le> page then n - 4 else page - 2"
  have "history_buttons page n = map (\<lambda>i. i + ?a) [0..<min 5 n]"
    by (auto simp: history_buttons_def)
  also have "\<dots> = [?a..<?a + min 5 n]" by (simp only: map_add_upt add.commute [of ?a])
  finally have *: "history_buttons page n = [?a..<?a + min 5 n]" .
  show ?thesis using assms by (intro exI [of _ ?a]) (auto simp: *)
qed

theorem history_buttons_window_witness: "history_buttons 7 9 = [5..<10] \<and> 7 \<in> set (history_buttons 7 9)"
proof -
  have "history_buttons 7 9 = [5, 6, 7, 8, 9]" by code_simp
  moreover from history_buttons_window [of 7 9] have "7 \<in> set (history_buttons 7 9)" by auto
  ultimately show ?thesis by (simp add: upt_rec)
qed

subsection \<open>Links to a request\<close>

text \<open>
  \<open>mc_target\<close> is the parameter of the address, \<open>mc_handled\<close> the reference that keeps the last link that was followed, and
  \<open>mc_searching\<close> the link for which a search is under way that was not cancelled.
\<close>

record MyCredits =
  mc_target :: "string option"
  mc_handled :: "string option"
  mc_searching :: "string option"
  mc_thread :: "CreditRequest option"
  mc_open :: bool

definition mountMyCredits :: MyCredits where
  "mountMyCredits = \<lparr>mc_target = None, mc_handled = None, mc_searching = None, mc_thread = None, mc_open = False\<rparr>"

text \<open>The parameter changes: the effect cancels the search under way and starts its own.\<close>

definition setTarget :: "string option \<Rightarrow> MyCredits \<Rightarrow> MyCredits" where
  "setTarget t s = (if t = mc_target s then s else s\<lparr>mc_target := t,
     mc_searching := (case t of None \<Rightarrow> None | Some r \<Rightarrow> if r = [] \<or> mc_handled s = Some r then None else Some r)\<rparr>)"

definition findCreditRequestById :: "(nat \<Rightarrow> CreditRequest list \<times> nat) \<Rightarrow> string \<Rightarrow> CreditRequest option" where
  "findCreditRequestById fetch i = findRequest fetch i 1 10"

definition searchAnswered :: "string \<Rightarrow> CreditRequest option \<Rightarrow> MyCredits \<Rightarrow> MyCredits" where
  "searchAnswered r found s =
    (if mc_searching s = Some r
     then (case found of None \<Rightarrow> s | Some q \<Rightarrow> s\<lparr>mc_thread := Some q, mc_open := True\<rparr>)\<lparr>mc_handled := Some r, mc_searching := None\<rparr>
     else s)"

definition handleViewThread :: "CreditRequest \<Rightarrow> MyCredits \<Rightarrow> MyCredits" where
  "handleViewThread q s = s\<lparr>mc_thread := Some q, mc_open := True\<rparr>"

text \<open>Closing the dialog empties the parameter of the address.\<close>

definition closeThread :: "MyCredits \<Rightarrow> MyCredits" where
  "closeThread s = setTarget None (s\<lparr>mc_thread := None, mc_open := False\<rparr>)"

datatype CreditsEvent = Link_followed string | Search_answered string "CreditRequest option" | Search_failed string
  | Thread_viewed CreditRequest | Thread_closed

fun credits_event :: "CreditsEvent \<Rightarrow> MyCredits \<Rightarrow> MyCredits" where
  "credits_event (Link_followed r) s = setTarget (Some r) s"
| "credits_event (Search_answered r found) s = searchAnswered r found s"
| "credits_event (Search_failed r) s = (if mc_searching s = Some r then s\<lparr>mc_searching := None\<rparr> else s)"
| "credits_event (Thread_viewed q) s = handleViewThread q s"
| "credits_event Thread_closed s = closeThread s"

text \<open>A link opens no other request than the one it names: the answer to a search is dropped when another link came meanwhile.\<close>

definition credits_inv :: "MyCredits \<Rightarrow> bool" where
  "credits_inv s \<longleftrightarrow> (case mc_searching s of None \<Rightarrow> True | Some r \<Rightarrow> mc_target s = Some r \<and> mc_handled s \<noteq> Some r)"

lemma credits_inv_event: "credits_inv s \<Longrightarrow> credits_inv (credits_event e s)"
  by (cases e) (auto simp: credits_inv_def setTarget_def searchAnswered_def handleViewThread_def closeThread_def split: option.splits)

lemma credits_inv_run: "credits_inv s \<Longrightarrow> credits_inv (fold credits_event es s)"
  by (induction es arbitrary: s) (simp_all add: credits_inv_event)

lemma find_key_name: "find_key f k xs = Some q \<Longrightarrow> f q = k"
  by (drule find_key_SomeD) simp

theorem link_opens_named_request:
  assumes "s = fold credits_event es mountMyCredits" and "mc_thread (searchAnswered r (findCreditRequestById (paged reqs) r) s) = Some q"
    and "mc_thread s = None"
  shows "mc_target s = Some r \<and> req_id q = r \<and> q \<in> set (take 100 reqs)"
proof -
  have inv: "credits_inv s" unfolding assms(1) by (rule credits_inv_run) (simp add: credits_inv_def mountMyCredits_def)
  have "findCreditRequestById (paged reqs) r = find_key req_id r (take 100 reqs)"
    using findRequest_paged [of 1 reqs r 10] by (simp add: findCreditRequestById_def)
  with assms(2,3) have s: "mc_searching s = Some r" "find_key req_id r (take 100 reqs) = Some q"
    by (auto simp: searchAnswered_def split: if_splits option.splits)
  then show ?thesis using inv find_key_SomeD [OF s(2)] by (auto simp: credits_inv_def)
qed

definition asked_request :: "string \<Rightarrow> CreditRequest" where
  "asked_request i = \<lparr>req_id = i, req_amount = 5, req_type = TopUp, req_status = ''pending'', review_note = None, granted_amount = None,
     req_created_at = [], reviewed_at = None\<rparr>"

theorem link_opens_named_request_witness:
  "mc_thread (searchAnswered ''b'' (findCreditRequestById (paged [asked_request ''a'', asked_request ''b'']) ''b'')
     (fold credits_event [Link_followed ''a'', Link_followed ''b'', Search_answered ''a'' (Some (asked_request ''a''))] mountMyCredits)) =
     Some (asked_request ''b'') \<and> req_id (asked_request ''b'') = ''b''"
proof -
  let ?s = "fold credits_event [Link_followed ''a'', Link_followed ''b'', Search_answered ''a'' (Some (asked_request ''a''))] mountMyCredits"
  have "findCreditRequestById (paged [asked_request ''a'', asked_request ''b'']) ''b'' = Some (asked_request ''b'')"
    by (simp add: findCreditRequestById_def findRequest_paged) (simp add: asked_request_def)
  moreover have s: "mc_searching ?s = Some ''b''" "mc_thread ?s = None"
    by (simp_all add: mountMyCredits_def setTarget_def searchAnswered_def)
  ultimately have t: "mc_thread (searchAnswered ''b'' (findCreditRequestById (paged [asked_request ''a'', asked_request ''b'']) ''b'') ?s) =
      Some (asked_request ''b'')" by (simp add: searchAnswered_def)
  from link_opens_named_request [OF refl t s(2)] t show ?thesis by blast
qed

text \<open>
  The reference keeps the link that was followed last. Following the same link again, after the dialog was closed, opens
  nothing, however often it is clicked.
\<close>

definition followed :: "string \<Rightarrow> MyCredits \<Rightarrow> bool" where
  "followed r s \<longleftrightarrow> mc_handled s = Some r \<and> mc_searching s = None \<and> \<not> mc_open s"

fun same_link :: "string \<Rightarrow> CreditsEvent \<Rightarrow> bool" where
  "same_link r (Link_followed q) \<longleftrightarrow> q = r"
| "same_link r (Thread_viewed q) \<longleftrightarrow> False"
| "same_link r e \<longleftrightarrow> True"

lemma followed_event: "followed r s \<Longrightarrow> same_link r e \<Longrightarrow> followed r (credits_event e s)"
  by (cases e) (auto simp: followed_def setTarget_def searchAnswered_def closeThread_def)

lemma followed_run: "followed r s \<Longrightarrow> list_all (same_link r) es \<Longrightarrow> followed r (fold credits_event es s)"
  by (induction es arbitrary: s) (simp_all add: followed_event)

theorem same_link_opens_once:
  assumes "r \<noteq> []" and "list_all (same_link r) es"
  shows "mc_open (fold credits_event [Link_followed r, Search_answered r (Some q)] mountMyCredits) \<and>
    \<not> mc_open (fold credits_event ([Link_followed r, Search_answered r (Some q), Thread_closed] @ es) mountMyCredits)"
proof
  show "mc_open (fold credits_event [Link_followed r, Search_answered r (Some q)] mountMyCredits)"
    using assms(1) by (simp add: mountMyCredits_def setTarget_def searchAnswered_def)
  have "followed r (fold credits_event [Link_followed r, Search_answered r (Some q), Thread_closed] mountMyCredits)"
    using assms(1) by (simp add: mountMyCredits_def setTarget_def searchAnswered_def closeThread_def followed_def)
  from followed_run [OF this assms(2)]
  show "\<not> mc_open (fold credits_event ([Link_followed r, Search_answered r (Some q), Thread_closed] @ es) mountMyCredits)"
    by (simp add: followed_def)
qed

theorem same_link_opens_once_witness:
  "\<not> mc_open (fold credits_event [Link_followed ''a'', Search_answered ''a'' (Some (asked_request ''a'')), Thread_closed,
     Link_followed ''a'', Search_answered ''a'' (Some (asked_request ''a''))] mountMyCredits)"
  using same_link_opens_once [of "''a''" "[Link_followed ''a'', Search_answered ''a'' (Some (asked_request ''a''))]" "asked_request ''a''"]
  by (simp del: credits_event.simps)

subsection \<open>Asking for credits\<close>

text \<open>An account of the backend; times in milliseconds.\<close>

record CreditAccount =
  ca_blocked :: bool
  ca_blocked_until :: "int option"
  ca_requests :: "CreditRequest list"
  ca_last_rejection :: "int option"

definition has_active_block :: "int \<Rightarrow> CreditAccount \<Rightarrow> bool" where
  "has_active_block now a \<longleftrightarrow> ca_blocked a \<and> (case ca_blocked_until a of None \<Rightarrow> True | Some t \<Rightarrow> t > now)"

definition hour_ms :: int where "hour_ms = 3600000"

text \<open>The hours that are left of the pause after a rejection, rounded up as the message tells them.\<close>

definition check_cooldown :: "int \<Rightarrow> int \<Rightarrow> CreditAccount \<Rightarrow> int option" where
  "check_cooldown hours now a = (if hours \<le> 0 then None else case ca_last_rejection a of None \<Rightarrow> None
     | Some t \<Rightarrow> if t + hours * hour_ms > now then Some (max 1 ((t + hours * hour_ms - now) div hour_ms + 1)) else None)"

text \<open>White space of Python's \<^verbatim>\<open>strip\<close>: the four separators of ASCII are blank for it, not for JavaScript.\<close>

definition py_space :: "char \<Rightarrow> bool" where
  "py_space c \<longleftrightarrow> js_space c \<or> (let n = of_char c :: nat in 28 \<le> n \<and> n \<le> 31)"

datatype CreateError = Not_permitted | Body_invalid | Requests_disabled | Amount_not_positive | Reason_empty | Unknown_type | Cooling_down int | Duplicate_open

text \<open>The bounds of the body (\<^verbatim>\<open>CreateCreditRequestBody\<close>), then the service.\<close>

definition create_request :: "int \<Rightarrow> int \<Rightarrow> CreditAccount \<Rightarrow> int \<Rightarrow> string \<Rightarrow> string \<Rightarrow> CreateError + unit" where
  "create_request hours now a amount why kind =
    (if has_active_block now a then Inl Requests_disabled
     else if amount \<le> 0 then Inl Amount_not_positive
     else if list_all py_space why then Inl Reason_empty
     else if kind \<notin> {''top_up'', ''allowance''} then Inl Unknown_type
     else case check_cooldown hours now a of Some h \<Rightarrow> Inl (Cooling_down h)
       | None \<Rightarrow> if list_ex isOpenRequest (ca_requests a) then Inl Duplicate_open else Inr ())"

text \<open>The route: its caller may see the own credits, by the current role matrix \<open>T\<close>, and the body is within its bounds.\<close>

definition create_credit_request :: "RoleTable \<Rightarrow> User \<Rightarrow> int \<Rightarrow> int \<Rightarrow> CreditAccount \<Rightarrow> int \<Rightarrow> string \<Rightarrow> string \<Rightarrow> CreateError + unit" where
  "create_credit_request T u hours now a amount why kind =
    (if \<not> has_permission T (Some u) CREDITS_READ_OWN then Inl Not_permitted
     else if 0 < amount \<and> amount \<le> 1000000 \<and> 1 \<le> length why \<and> length why \<le> 2000 \<and> kind \<in> {''top_up'', ''allowance''}
     then create_request hours now a amount why kind else Inl Body_invalid)"

text \<open>
  The button of the page: the user's flags, of which the first one decides where it is there, and the answer to the query
  for open requests, \<open>None\<close> as long as there is none.
\<close>

definition requestsBlocked :: "bool option \<Rightarrow> bool option \<Rightarrow> bool" where
  "requestsBlocked in_effect flag = (case in_effect of Some b \<Rightarrow> b | None \<Rightarrow> (case flag of Some b \<Rightarrow> b | None \<Rightarrow> False))"

definition request_button :: "bool option \<Rightarrow> bool option \<Rightarrow> nat option \<Rightarrow> bool" where
  "request_button in_effect flag n_open \<longleftrightarrow> \<not> (requestsBlocked in_effect flag \<or> (case n_open of None \<Rightarrow> 0 | Some n \<Rightarrow> n) > 0)"

definition open_total :: "CreditAccount \<Rightarrow> nat" where
  "open_total a = length (filter isOpenRequest (ca_requests a))"

lemma open_total_pos: "0 < open_total a \<longleftrightarrow> list_ex isOpenRequest (ca_requests a)"
  by (induction "ca_requests a") (auto simp: open_total_def filter_empty_conv list_ex_iff)

text \<open>
  C20. What the dialog sends, for an account whose flags and open requests the page knows as they are, is accepted exactly
  if the page's button is enabled and four conditions hold of which neither button nor dialog knows: the account may see
  its credits, the amount is at most a million, the reason is more than the separators that are blank for Python and not for
  JavaScript, and no rejection is so recent that the account has to wait. The request has the number, the trimmed
  reason and the type of the form.
\<close>

theorem request_button_tells_backend:
  assumes "fst (submitRequest d) = Some m" and "n = or_zero (js_parseInt10 (rd_amount d))" and "why = js_trim (rd_reason d)"
    and "kind = request_type_name (rd_type d)"
  shows "m = useCreateCreditRequest (amount_json n) why (Some kind) \<and>
    (create_credit_request T u hours now a n why kind = Inr () \<longleftrightarrow>
     request_button (Some (has_active_block now a)) (Some (ca_blocked a)) (Some (open_total a)) \<and>
     has_permission T (Some u) CREDITS_READ_OWN \<and> n \<le> 1000000 \<and> \<not> list_all py_space why \<and> check_cooldown hours now a = None)"
proof -
  have v: "0 < n" "why \<noteq> []" "length why \<le> 2000" "m = useCreateCreditRequest (amount_json n) why (Some kind)"
    using assms by (simp_all add: submitRequest_def Let_def MAX_REASON_LENGTH_def not_le not_less split: if_splits)
  moreover have "kind \<in> {''top_up'', ''allowance''}" unfolding assms(4) by (cases "rd_type d") simp_all
  moreover have "1 \<le> length why" using v(2) by (cases why) simp_all
  ultimately show ?thesis
    using open_total_pos [of a]
    by (auto simp: create_credit_request_def create_request_def request_button_def requestsBlocked_def split: option.splits)
qed

definition demo_request_form :: RequestDialog where
  "demo_request_form = \<lparr>rd_amount = ''50'', rd_reason = '' mesh study '', rd_type = TopUp, rd_amountError = [], rd_reasonError = [],
     rd_submitError = []\<rparr>"

lemma users_see_credits: "has_permission (map_of ROLE_PERMISSIONS) (Some (demo_user ''user'' None)) CREDITS_READ_OWN"
  using raw_in_expanded [of CREDITS_READ_OWN "map_of ROLE_PERMISSIONS" "''user''"]
  by (simp add: has_permission_def demo_user_def get_role_permissions_def ROLE_PERMISSIONS_def)

theorem request_button_tells_backend_witness:
  "create_credit_request (map_of ROLE_PERMISSIONS) (demo_user ''user'' None) 24 9000000
     \<lparr>ca_blocked = True, ca_blocked_until = Some 8000000, ca_requests = [], ca_last_rejection = None\<rparr> 50 ''mesh study'' ''top_up'' = Inr ()"
proof -
  let ?a = "\<lparr>ca_blocked = True, ca_blocked_until = Some 8000000, ca_requests = [], ca_last_rejection = None\<rparr>"
  have n: "50 = or_zero (js_parseInt10 (rd_amount demo_request_form))" "''mesh study'' = js_trim (rd_reason demo_request_form)"
    "rd_amount demo_request_form = ''50''" "\<not> list_all py_space ''mesh study''"
    by code_simp+
  have "length (js_trim (rd_reason demo_request_form)) = 10" "js_trim (rd_reason demo_request_form) \<noteq> []"
    by (simp_all flip: n(2))
  then have "fst (submitRequest demo_request_form) \<noteq> None"
    using n(1,3) by (simp add: submitRequest_def Let_def MAX_REASON_LENGTH_def)
  then obtain m where "fst (submitRequest demo_request_form) = Some m" by blast
  note told = request_button_tells_backend [OF this n(1,2), of "''top_up''" "map_of ROLE_PERMISSIONS" "demo_user ''user'' None" 24 9000000 ?a]
  have "''top_up'' = request_type_name (rd_type demo_request_form)" by (simp add: demo_request_form_def)
  moreover have "request_button (Some (has_active_block 9000000 ?a)) (Some (ca_blocked ?a)) (Some (open_total ?a))"
    "check_cooldown 24 9000000 ?a = None"
    by (simp_all add: request_button_def requestsBlocked_def has_active_block_def open_total_def check_cooldown_def)
  ultimately show ?thesis using told users_see_credits n(4) by simp
qed

text \<open>Before the query for open requests has answered, the button is enabled also when there is one.\<close>

lemma early_button_enabled: "\<not> b \<Longrightarrow> request_button (Some b) flag None"
  by (simp add: request_button_def requestsBlocked_def)

text \<open>The message never promises an earlier time than the backend keeps to, and is late by an hour at most.\<close>

lemma cooldown_hours:
  assumes "check_cooldown hours now a = Some h" and "ca_last_rejection a = Some t"
  shows "t + hours * hour_ms < now + h * hour_ms \<and> now + (h - 1) * hour_ms \<le> t + hours * hour_ms"
proof -
  let ?r = "t + hours * hour_ms - now"
  from assms have r: "0 < ?r" "h = max 1 (?r div hour_ms + 1)" by (auto simp: check_cooldown_def split: if_splits)
  then have h: "h = ?r div hour_ms + 1" by (simp add: hour_ms_def pos_imp_zdiv_nonneg_iff)
  have "?r div hour_ms * hour_ms \<le> ?r" "?r < (?r div hour_ms + 1) * hour_ms" by (simp_all add: hour_ms_def)
  then show ?thesis unfolding h by (simp add: algebra_simps)
qed

end
