(* ===== verification/Appearance_Page.thy ===== *)
theory Appearance_Page
  imports Profile_Page Data_Table
begin

text \<open>
  The appearance settings, \<^verbatim>\<open>routes/settings.appearance.tsx\<close>: the buttons of the theme mode over the store of
  \<open>Ui_Stores\<close>, the choice of a timezone with the searchable select of \<^verbatim>\<open>components/ui/combobox.tsx\<close>, and how a choice
  comes back over the profile and \<^verbatim>\<open>hooks/use-timezone-sync.ts\<close>.
\<close>

subsection \<open>The searchable select\<close>

record ComboboxOption =
  co_value :: string
  co_label :: string

record Combobox =
  cb_open :: bool
  cb_search :: string

definition mountCombobox :: Combobox where
  "mountCombobox = \<lparr>cb_open = False, cb_search = []\<rparr>"

definition filteredOptions :: "ComboboxOption list \<Rightarrow> string \<Rightarrow> ComboboxOption list" where
  "filteredOptions options search =
    (if js_trim search = [] then options
     else filter (\<lambda>opt. js_contains (js_toLowerCase (co_label opt)) (js_toLowerCase search)) options)"

definition selectedOption :: "ComboboxOption list \<Rightarrow> string \<Rightarrow> ComboboxOption option" where
  "selectedOption options v = find_key co_value v options"

definition trigger_label :: "ComboboxOption list \<Rightarrow> string \<Rightarrow> string \<Rightarrow> string" where
  "trigger_label options v placeholder =
    (case selectedOption options v of Some opt \<Rightarrow> if co_label opt = [] then placeholder else co_label opt | None \<Rightarrow> placeholder)"

datatype ComboEvent = Trigger_clicked | Search_typed string | Option_clicked nat | Clicked_outside

text \<open>The panel's controls exist while it is open; an option is named by its place in the list on display.\<close>

fun combo_event :: "bool \<Rightarrow> ComboboxOption list \<Rightarrow> ComboEvent \<Rightarrow> Combobox \<Rightarrow> Combobox \<times> string option" where
  "combo_event dis options Trigger_clicked s =
    ((if dis then s else s\<lparr>cb_open := \<not> cb_open s, cb_search := (if cb_open s then cb_search s else [])\<rparr>), None)"
| "combo_event dis options (Search_typed q) s = ((if cb_open s then s\<lparr>cb_search := q\<rparr> else s), None)"
| "combo_event dis options (Option_clicked i) s =
    (if cb_open s \<and> i < length (filteredOptions options (cb_search s))
     then (s\<lparr>cb_open := False, cb_search := []\<rparr>, Some (co_value (filteredOptions options (cb_search s) ! i))) else (s, None))"
| "combo_event dis options Clicked_outside s = (s\<lparr>cb_open := False\<rparr>, None)"

fun combo_run :: "bool \<Rightarrow> ComboboxOption list \<Rightarrow> ComboEvent list \<Rightarrow> Combobox \<Rightarrow> Combobox \<times> string list" where
  "combo_run dis options [] s = (s, [])"
| "combo_run dis options (e # es) s =
    (let (s', choice) = combo_event dis options e s; (t, choices) = combo_run dis options es s'
     in (t, (case choice of None \<Rightarrow> [] | Some v \<Rightarrow> [v]) @ choices))"

lemma filtered_subset: "set (filteredOptions options q) \<subseteq> set options"
  by (auto simp: filteredOptions_def)

lemma combo_event_choice: "snd (combo_event dis options e s) = Some v \<Longrightarrow> v \<in> co_value ` set options"
  using filtered_subset [of options "cb_search s"] by (cases e) (auto split: if_splits intro!: imageI)

text \<open>Whatever is typed and clicked, the values that are handed on are those of the options.\<close>

theorem combo_choices_offered: "set (snd (combo_run dis options es s)) \<subseteq> co_value ` set options"
proof (induction es arbitrary: s)
  case (Cons e es)
  then show ?case
    using combo_event_choice [of dis options e s]
    by (auto simp: Let_def split: prod.splits option.splits) (metis imageE snd_conv subsetD)+
qed simp

text \<open>A select that is disabled never hands on anything, and one that is opened shows every option, whatever was typed before.\<close>

lemma disabled_combo_silent: "\<not> cb_open s \<Longrightarrow> snd (combo_run True options es s) = [] \<and> \<not> cb_open (fst (combo_run True options es s))"
proof (induction es arbitrary: s)
  case (Cons e es)
  then show ?case by (cases e) (auto simp: Let_def split: prod.splits)
qed simp

lemma opened_combo_shows_all:
  "\<not> cb_open s \<Longrightarrow> filteredOptions options (cb_search (fst (combo_event False options Trigger_clicked s))) = options"
  by (simp add: filteredOptions_def js_trim_def)

subsection \<open>The options for the timezone\<close>

definition FALLBACK_TIMEZONES :: "string list" where
  "FALLBACK_TIMEZONES = [''UTC'', ''America/New_York'', ''America/Chicago'', ''America/Denver'', ''America/Los_Angeles'',
     ''Europe/London'', ''Europe/Berlin'', ''Asia/Tokyo'', ''Australia/Sydney'']"

text \<open>\<open>supported\<close> is the answer of \<^verbatim>\<open>Intl.supportedValuesOf('timeZone')\<close>, \<open>None\<close> where the browser has no such function.\<close>

definition listed_zones :: "Intl \<Rightarrow> string list option \<Rightarrow> ComboboxOption list" where
  "listed_zones intl supported =
    (let zones = (case supported of Some zs \<Rightarrow> zs | None \<Rightarrow> FALLBACK_TIMEZONES)
     in [\<lparr>co_value = AUTO_TIMEZONE, co_label = ''Automatic (browser: '' @ getBrowserTimezone intl @ '')''\<rparr>,
         \<lparr>co_value = ''UTC'', co_label = ''UTC''\<rparr>] @
        map (\<lambda>z. \<lparr>co_value = z, co_label = z\<rparr>) (filter (\<lambda>z. z \<noteq> ''UTC'') zones))"

definition timezoneOptions :: "Intl \<Rightarrow> string list option \<Rightarrow> string \<Rightarrow> ComboboxOption list" where
  "timezoneOptions intl supported timezone =
    (let options = listed_zones intl supported
     in if timezone \<noteq> AUTO_TIMEZONE \<and> \<not> list_ex (\<lambda>opt. co_value opt = timezone) options
        then options @ [\<lparr>co_value = timezone, co_label = timezone\<rparr>] else options)"

text \<open>
  Whatever zone is stored, also one the browser does not list, is among the options, and the options have pairwise
  different values, as their keys have to be: the trigger shows the choice and not the placeholder.
\<close>

lemma listed_values: "map co_value (listed_zones intl supported) =
    AUTO_TIMEZONE # ''UTC'' # filter (\<lambda>z. z \<noteq> ''UTC'') (case supported of Some zs \<Rightarrow> zs | None \<Rightarrow> FALLBACK_TIMEZONES)"
  by (simp add: listed_zones_def Let_def comp_def)

lemma zone_label: "opt \<in> set (timezoneOptions intl supported timezone) \<Longrightarrow> co_value opt \<noteq> AUTO_TIMEZONE \<Longrightarrow> co_label opt = co_value opt"
  by (auto simp: timezoneOptions_def listed_zones_def Let_def list_ex_iff split: if_splits)

theorem stored_zone_selectable:
  assumes "case supported of Some zs \<Rightarrow> distinct zs \<and> AUTO_TIMEZONE \<notin> set zs | None \<Rightarrow> True"
  shows "timezone \<in> co_value ` set (timezoneOptions intl supported timezone) \<and>
    distinct (map co_value (timezoneOptions intl supported timezone)) \<and>
    (timezone \<notin> {[], AUTO_TIMEZONE} \<longrightarrow> trigger_label (timezoneOptions intl supported timezone) timezone placeholder = timezone)"
proof -
  let ?os = "timezoneOptions intl supported timezone" and ?zs = "case supported of Some zs \<Rightarrow> zs | None \<Rightarrow> FALLBACK_TIMEZONES"
  have zs: "distinct ?zs" "AUTO_TIMEZONE \<notin> set ?zs"
    using assms by (simp_all add: FALLBACK_TIMEZONES_def split: option.splits)
  have l: "distinct (map co_value (listed_zones intl supported))"
    using zs by (simp only: listed_values) (simp add: listed_values)
  have auto: "AUTO_TIMEZONE \<in> co_value ` set (listed_zones intl supported)"
    by (simp add: listed_zones_def Let_def)
  have d: "distinct (map co_value ?os)" and mem: "timezone \<in> co_value ` set ?os"
    using l auto by (auto simp: timezoneOptions_def Let_def list_ex_iff)
  have "co_label opt = timezone" if "opt \<in> set ?os" "co_value opt = timezone" "timezone \<noteq> AUTO_TIMEZONE" for opt
    using zone_label [of opt intl supported timezone] that by simp
  then have "timezone \<notin> {[], AUTO_TIMEZONE} \<longrightarrow> trigger_label ?os timezone placeholder = timezone"
    using mem find_key_None_iff [of co_value timezone ?os]
    by (auto simp: trigger_label_def selectedOption_def split: option.splits dest: find_key_SomeD)
  with mem d show ?thesis by blast
qed

theorem stored_zone_selectable_witness:
  "trigger_label (timezoneOptions \<lparr>resolvedZone = None, knownZone = \<lambda>z. True\<rparr> (Some [''Asia/Kolkata'', ''UTC'']) ''Asia/Calcutta'')
     ''Asia/Calcutta'' ''Select timezone'' = ''Asia/Calcutta''"
  using stored_zone_selectable [of "Some [''Asia/Kolkata'', ''UTC'']" "''Asia/Calcutta''" "\<lparr>resolvedZone = None, knownZone = \<lambda>z. True\<rparr>"
      "''Select timezone''"] by simp

subsection \<open>A choice and the profile\<close>

text \<open>
  Every choice is a request of its own, numbered by its place in \<open>zp_sent\<close>. The backend reads the whole row of
  preferences, merges the timezone into what it read and writes all of it back; other requests may be read, written and
  answered in between, in any order. Saving any other preference at the same time is left out.
\<close>

datatype Stage = Sent | Held "(string \<times> json) list" | Written

text \<open>
  \<open>zp_saved\<close> are the preferences the backend has, \<open>zp_me\<close> those of the cached profile, \<open>zp_auth\<close> the user's store,
  \<open>zp_seen\<close> the timezone for which the effect of \<^verbatim>\<open>useTimezoneSync\<close> ran last, \<open>zp_answered\<close> the requests the page
  has an answer to, \<open>zp_reads\<close> the profiles the backend has read and the page has not received, and \<open>zp_errors\<close> the
  messages shown.
\<close>

record ZonePage =
  zp_saved :: "(string \<times> json) list"
  zp_me :: "(string \<times> json) list option"
  zp_auth :: AuthState
  zp_seen :: "json option"
  zp_store :: TimezoneState
  zp_sent :: "string list"
  zp_stage :: "nat \<Rightarrow> Stage"
  zp_answered :: "nat list"
  zp_reads :: "(string \<times> json) list list"
  zp_errors :: "string list"

definition user_zone :: "AuthState \<Rightarrow> json option" where
  "user_zone auth = (case user auth of None \<Rightarrow> None
     | Some u \<Rightarrow> (case preferences u of None \<Rightarrow> None | Some kvs \<Rightarrow> js_get (JObj kvs) ''timezone''))"

definition zone_effect :: "Intl \<Rightarrow> ZonePage \<Rightarrow> ZonePage" where
  "zone_effect intl s = (if user_zone (zp_auth s) = zp_seen s then s
     else s\<lparr>zp_seen := user_zone (zp_auth s), zp_store := useTimezoneSync intl (zp_auth s) (zp_store s)\<rparr>)"

definition handleTimezoneChange :: "Intl \<Rightarrow> string \<Rightarrow> ZonePage \<Rightarrow> ZonePage" where
  "handleTimezoneChange intl z s = s\<lparr>zp_store := setPreference intl z (zp_store s), zp_sent := zp_sent s @ [z],
     zp_stage := (zp_stage s)(length (zp_sent s) := Sent)\<rparr>"

definition unanswered :: "nat \<Rightarrow> ZonePage \<Rightarrow> bool" where
  "unanswered n s \<longleftrightarrow> n < length (zp_sent s) \<and> n \<notin> set (zp_answered s)"

text \<open>The two halves of the backend's \<^verbatim>\<open>update_preferences\<close>.\<close>

definition read_prefs_row :: "nat \<Rightarrow> ZonePage \<Rightarrow> ZonePage" where
  "read_prefs_row n s = (if n < length (zp_sent s) \<and> zp_stage s n = Sent then s\<lparr>zp_stage := (zp_stage s)(n := Held (zp_saved s))\<rparr> else s)"

definition write_prefs_row :: "nat \<Rightarrow> ZonePage \<Rightarrow> ZonePage" where
  "write_prefs_row n s = (if n < length (zp_sent s) then (case zp_stage s n of
       Held kvs \<Rightarrow> s\<lparr>zp_saved := merge_preferences [(''timezone'', JStr (zp_sent s ! n))] kvs, zp_stage := (zp_stage s)(n := Written)\<rparr>
     | _ \<Rightarrow> s) else s)"

definition zoneSaved :: "nat \<Rightarrow> ZonePage \<Rightarrow> ZonePage" where
  "zoneSaved n s = (if unanswered n s \<and> zp_stage s n = Written
     then s\<lparr>zp_answered := n # zp_answered s, zp_me := map_option (obj_set ''timezone'' (JStr (zp_sent s ! n))) (zp_me s)\<rparr> else s)"

definition zoneFailed :: "nat \<Rightarrow> string \<Rightarrow> ZonePage \<Rightarrow> ZonePage" where
  "zoneFailed n msg s = (if unanswered n s then s\<lparr>zp_answered := n # zp_answered s, zp_errors := zp_errors s @ [msg]\<rparr> else s)"

text \<open>
  The query of the current user: the backend reads the profile; when it arrives the cache and the store get its user, and
  the effect runs.
\<close>

definition profileSent :: "ZonePage \<Rightarrow> ZonePage" where
  "profileSent s = s\<lparr>zp_reads := zp_reads s @ [zp_saved s]\<rparr>"

definition profileRead :: "Intl \<Rightarrow> User \<Rightarrow> nat \<Rightarrow> ZonePage \<Rightarrow> ZonePage" where
  "profileRead intl u k s = (if k < length (zp_reads s)
     then zone_effect intl (s\<lparr>zp_me := Some (zp_reads s ! k), zp_auth := setUser (Some (u\<lparr>preferences := Some (zp_reads s ! k)\<rparr>)) (zp_auth s),
       zp_reads := take k (zp_reads s) @ drop (Suc k) (zp_reads s)\<rparr>)
     else s)"

datatype ZoneEvent = Zone_chosen string | Row_read nat | Row_written nat | Zone_saved nat | Zone_failed nat string
  | Profile_sent | Profile_read nat

fun zone_event :: "Intl \<Rightarrow> User \<Rightarrow> ZoneEvent \<Rightarrow> ZonePage \<Rightarrow> ZonePage" where
  "zone_event intl u (Zone_chosen z) s = handleTimezoneChange intl z s"
| "zone_event intl u (Row_read n) s = read_prefs_row n s"
| "zone_event intl u (Row_written n) s = write_prefs_row n s"
| "zone_event intl u (Zone_saved n) s = zoneSaved n s"
| "zone_event intl u (Zone_failed n msg) s = zoneFailed n msg s"
| "zone_event intl u Profile_sent s = profileSent s"
| "zone_event intl u (Profile_read k) s = profileRead intl u k s"

text \<open>The page as it is found: the effect ran for the user's store before, and the profile is the one the backend has.\<close>

definition openZonePage :: "Intl \<Rightarrow> User \<Rightarrow> (string \<times> json) list \<Rightarrow> ZonePage" where
  "openZonePage intl u kvs = zone_effect intl
     \<lparr>zp_saved = kvs, zp_me = Some kvs, zp_auth = setUser (Some (u\<lparr>preferences := Some kvs\<rparr>)) initialAuth, zp_seen = None,
      zp_store = initialTimezone intl, zp_sent = [], zp_stage = (\<lambda>n. Sent), zp_answered = [], zp_reads = [], zp_errors = []\<rparr>"

definition named_zone :: "json option \<Rightarrow> string" where
  "named_zone v = (case v of Some (JStr z) \<Rightarrow> z | _ \<Rightarrow> AUTO_TIMEZONE)"

definition zone_of :: "(string \<times> json) list \<Rightarrow> string" where
  "zone_of kvs = named_zone (js_get (JObj kvs) ''timezone'')"

definition zone_state :: "Intl \<Rightarrow> string \<Rightarrow> TimezoneState" where
  "zone_state intl z = setPreference intl z (initialTimezone intl)"

lemma setPreference_state: "setPreference intl z st = zone_state intl z"
  by (cases st) (simp add: zone_state_def setPreference_def Let_def initialTimezone_def)

lemma sync_state: "useTimezoneSync intl auth st = zone_state intl (named_zone (user_zone auth))"
  by (simp add: useTimezoneSync_def Let_def setPreference_state named_zone_def user_zone_def)

fun choices :: "ZoneEvent list \<Rightarrow> string list" where
  "choices (Zone_chosen z # es) = z # choices es"
| "choices (_ # es) = choices es"
| "choices [] = []"

fun writes :: "ZoneEvent list \<Rightarrow> nat list" where
  "writes (Row_written n # es) = n # writes es"
| "writes (_ # es) = writes es"
| "writes [] = []"

fun no_failure :: "ZoneEvent \<Rightarrow> bool" where
  "no_failure (Zone_failed n msg) \<longleftrightarrow> False"
| "no_failure _ \<longleftrightarrow> True"

definition settled :: "ZonePage \<Rightarrow> bool" where
  "settled s \<longleftrightarrow> (\<forall>n < length (zp_sent s). n \<in> set (zp_answered s)) \<and> zp_reads s = []"

lemma events_append: "choices (es @ es') = choices es @ choices es'" "writes (es @ es') = writes es @ writes es'"
proof (induction es)
  case (Cons e es)
  { case 1 show ?case using Cons(1) by (cases e) simp_all }
  { case 2 show ?case using Cons(2) by (cases e) simp_all }
qed simp_all

lemma keys_obj_set: "fst ` set (obj_set k v kvs) = insert k (fst ` set kvs)"
  by (simp flip: dom_map_of_conv_image_fst)

lemma distinct_obj_set: "distinct (map fst kvs) \<Longrightarrow> distinct (map fst (obj_set k v kvs))"
  by (induction kvs) (auto simp: keys_obj_set)

lemma distinct_merge: "distinct (map fst kvs) \<Longrightarrow> distinct (map fst (merge_preferences body kvs))"
proof -
  have "distinct (map fst kvs) \<Longrightarrow> distinct (map fst (fold (put_preference body) ks kvs))" for ks
    by (induction ks arbitrary: kvs) (simp_all add: put_preference_def distinct_obj_set split: option.splits json.splits)
  then show "distinct (map fst kvs) \<Longrightarrow> ?thesis" by (simp add: merge_preferences_def)
qed

lemma js_get_distinct: "distinct (map fst kvs) \<Longrightarrow> js_get (JObj kvs) k = map_of kvs k"
  by (simp add: map_of_rev_distinct)

lemma merged_zone:
  assumes "distinct (map fst kvs)"
  shows "zone_of (merge_preferences [(''timezone'', JStr z)] kvs) = z"
proof -
  have "''timezone'' \<in> set preference_keys" by (simp add: preference_keys_def)
  from fold_preferences [OF this, of "[(''timezone'', JStr z)]" "JStr z" kvs]
  have "map_of (merge_preferences [(''timezone'', JStr z)] kvs) ''timezone'' = Some (JStr z)"
    by (simp add: merge_preferences_def stored_preference_def)
  then show ?thesis using assms by (simp only: zone_of_def js_get_distinct distinct_merge named_zone_def option.case json.case)
qed

text \<open>What holds in every order: the rows are well formed, and the zone in effect is that of the last effect or the last choice.\<close>

definition zone_inv :: "Intl \<Rightarrow> ZonePage \<Rightarrow> bool" where
  "zone_inv intl s \<longleftrightarrow> distinct (map fst (zp_saved s)) \<and> (\<forall>n kvs. zp_stage s n = Held kvs \<longrightarrow> distinct (map fst kvs)) \<and>
     zp_store s \<in> {zone_state intl (last (named_zone (zp_seen s) # zp_sent s)), zone_state intl (named_zone (zp_seen s))}"

lemma zone_inv_event:
  assumes "zone_inv intl s"
  shows "zone_inv intl (zone_event intl u e s)"
proof (cases e)
  case (Profile_read k)
  then show ?thesis using assms
    by (auto simp: zone_inv_def profileRead_def zone_effect_def sync_state setUser_def)
qed (use assms in \<open>auto simp: zone_inv_def handleTimezoneChange_def setPreference_state read_prefs_row_def write_prefs_row_def zoneSaved_def zoneFailed_def
    profileSent_def distinct_merge split: Stage.splits\<close>)

lemma zone_inv_open: "distinct (map fst kvs) \<Longrightarrow> zone_inv intl (openZonePage intl u kvs)"
  by (auto simp: zone_inv_def openZonePage_def zone_effect_def sync_state user_zone_def setUser_def named_zone_def
      initialTimezone_def zone_state_def setPreference_def Let_def resolveZone_def simp del: js_get.simps)

lemma zone_inv_run: "distinct (map fst kvs) \<Longrightarrow> zone_inv intl (fold (zone_event intl u) es (openZonePage intl u kvs))"
  by (induction es rule: rev_induct) (simp_all add: zone_inv_open zone_inv_event)

lemma sent_event: "zp_sent (zone_event intl u e s) = zp_sent s @ choices [e]"
  by (cases e) (auto simp: handleTimezoneChange_def read_prefs_row_def write_prefs_row_def zoneSaved_def zoneFailed_def profileSent_def profileRead_def
      zone_effect_def split: Stage.splits)

lemma sent_run: "zp_sent (fold (zone_event intl u) es s) = zp_sent s @ choices es"
  by (induction es rule: rev_induct) (simp_all add: sent_event events_append)

lemma open_fields [simp]: "zp_sent (openZonePage intl u kvs) = []" "zp_saved (openZonePage intl u kvs) = kvs"
  "zp_stage (openZonePage intl u kvs) n = Sent" "zp_answered (openZonePage intl u kvs) = []" "zp_reads (openZonePage intl u kvs) = []"
  by (simp_all add: openZonePage_def zone_effect_def)

text \<open>The zone that is stored is the one written last.\<close>

definition written :: "ZonePage \<Rightarrow> nat set" where
  "written s = {n. n < length (zp_sent s) \<and> zp_stage s n = Written}"

lemma saved_event:
  assumes "zone_inv intl s"
  shows "zone_of (zp_saved (zone_event intl u e s)) =
      (case e of Row_written n \<Rightarrow> if n < length (zp_sent s) \<and> (\<exists>kvs. zp_stage s n = Held kvs) then zp_sent s ! n else zone_of (zp_saved s)
       | _ \<Rightarrow> zone_of (zp_saved s))"
    and "written (zone_event intl u e s) =
      (case e of Row_written n \<Rightarrow> if n < length (zp_sent s) \<and> (\<exists>kvs. zp_stage s n = Held kvs) then insert n (written s) else written s
       | _ \<Rightarrow> written s)"
  using assms
  by (cases e; auto simp: zone_inv_def handleTimezoneChange_def read_prefs_row_def write_prefs_row_def zoneSaved_def zoneFailed_def profileSent_def
      profileRead_def zone_effect_def written_def merged_zone less_Suc_eq split: Stage.splits if_splits)+

lemma saved_offered:
  assumes "distinct (map fst kvs)"
  shows "zone_of (zp_saved (fold (zone_event intl u) es (openZonePage intl u kvs))) \<in> insert (zone_of kvs) (set (choices es))"
proof (induction es rule: rev_induct)
  case (snoc e es)
  let ?s = "fold (zone_event intl u) es (openZonePage intl u kvs)"
  have sent: "zp_sent ?s = choices es" by (simp add: sent_run)
  show ?case
    using snoc saved_event(1) [OF zone_inv_run [OF assms, of intl u es], of u e] nth_mem [of _ "choices es"]
    by (auto simp: events_append sent split: ZoneEvent.splits if_splits)
qed simp

lemma ordered_writes:
  assumes "distinct (map fst kvs)" and "sorted (writes es)"
  shows "let s = fold (zone_event intl u) es (openZonePage intl u kvs)
    in written s \<subseteq> set (writes es) \<and> zone_of (zp_saved s) = (if written s = {} then zone_of kvs else zp_sent s ! Max (written s))"
  using assms(2)
proof (induction es rule: rev_induct)
  case Nil
  show ?case by (simp add: written_def)
next
  case (snoc e es)
  let ?s = "fold (zone_event intl u) es (openZonePage intl u kvs)"
  have IH: "written ?s \<subseteq> set (writes es)" "zone_of (zp_saved ?s) = (if written ?s = {} then zone_of kvs else zp_sent ?s ! Max (written ?s))"
    using snoc by (simp_all add: Let_def events_append sorted_append)
  have fin: "finite (written ?s)" by (simp add: written_def)
  have nth: "(zp_sent ?s @ xs) ! Max (written ?s) = zp_sent ?s ! Max (written ?s)" if "written ?s \<noteq> {}" for xs
    using Max_in [OF fin that] by (simp add: written_def nth_append)
  have max: "Max (insert n (written ?s)) = n" if "e = Row_written n" for n
    using snoc.prems IH(1) that by (intro Max_eqI) (auto simp: fin events_append sorted_append)
  show ?case
    using IH saved_event [OF zone_inv_run [OF assms(1), of intl u es], of u e] nth max
    by (cases e) (auto simp: Let_def sent_event events_append max simp del: zone_event.simps)
qed

lemma answered_written:
  assumes "list_all no_failure es"
  shows "\<forall>n \<in> set (zp_answered (fold (zone_event intl u) es (openZonePage intl u kvs))).
    n < length (zp_sent (fold (zone_event intl u) es (openZonePage intl u kvs))) \<and>
    zp_stage (fold (zone_event intl u) es (openZonePage intl u kvs)) n = Written"
  using assms
proof (induction es rule: rev_induct)
  case (snoc e es)
  then show ?case
    by (cases e) (auto simp: handleTimezoneChange_def read_prefs_row_def write_prefs_row_def zoneSaved_def unanswered_def profileSent_def profileRead_def
        zone_effect_def split: Stage.splits)
qed simp

lemma read_again:
  assumes "zp_reads s = []"
  shows "zp_saved (profileRead intl u 0 (profileSent s)) = zp_saved s"
    and "zp_store (profileRead intl u 0 (profileSent s)) =
      (if js_get (JObj (zp_saved s)) ''timezone'' = zp_seen s then zp_store s else zone_state intl (zone_of (zp_saved s)))"
  using assms by (simp_all add: profileSent_def profileRead_def zone_effect_def user_zone_def setUser_def sync_state zone_of_def
      del: js_get.simps)

text \<open>
  C28. When every request was answered, the profile has been read again and nothing is under way, the zone that is stored
  is the one the page was opened with or one that was chosen, and the zone in effect is the stored one, except that where
  the stored one is what the effect saw last, the zone chosen last may be in effect instead. If no request failed and the
  backend wrote the choices in the order they were made, the zone chosen last is stored and in effect, in whatever order
  rows and profiles were read and answers came.
\<close>

theorem last_zone_kept:
  assumes "distinct (map fst kvs)" and "s = fold (zone_event intl u) es (openZonePage intl u kvs)" and "settled s"
    and "t = zone_event intl u (Profile_read 0) (zone_event intl u Profile_sent s)"
  shows "zone_of (zp_saved t) \<in> insert (zone_of kvs) (set (choices es)) \<and>
    (zp_store t = setPreference intl (zone_of (zp_saved t)) (initialTimezone intl) \<or>
      choices es \<noteq> [] \<and> js_get (JObj (zp_saved t)) ''timezone'' = zp_seen s \<and>
      zp_store t = setPreference intl (last (choices es)) (initialTimezone intl)) \<and>
    (list_all no_failure es \<and> sorted (writes es) \<longrightarrow>
      zone_of (zp_saved t) = last (zone_of kvs # choices es) \<and>
      zp_store t = setPreference intl (last (zone_of kvs # choices es)) (initialTimezone intl))"
proof -
  have sent: "zp_sent s = choices es" by (simp add: assms(2) sent_run)
  have inv: "zone_inv intl s" using zone_inv_run [OF assms(1)] by (simp add: assms(2))
  have t: "zp_saved t = zp_saved s"
    "zp_store t = (if js_get (JObj (zp_saved s)) ''timezone'' = zp_seen s then zp_store s else zone_state intl (zone_of (zp_saved s)))"
    using read_again [of s intl u] assms(3) by (simp_all add: assms(4) settled_def del: js_get.simps)
  have seen: "zone_of (zp_saved s) = named_zone (zp_seen s)" if "js_get (JObj (zp_saved s)) ''timezone'' = zp_seen s"
    using that by (simp only: zone_of_def)
  have store: "zp_store t = zone_state intl (zone_of (zp_saved s)) \<or>
      choices es \<noteq> [] \<and> js_get (JObj (zp_saved s)) ''timezone'' = zp_seen s \<and> zp_store t = zone_state intl (last (choices es))"
    using inv seen by (auto simp: t(2) zone_inv_def sent simp del: js_get.simps split: if_splits)
  have offered: "zone_of (zp_saved s) \<in> insert (zone_of kvs) (set (choices es))"
    using saved_offered [OF assms(1)] by (simp add: assms(2))
  have "zone_of (zp_saved s) = last (zone_of kvs # choices es)" if "list_all no_failure es" "sorted (writes es)"
  proof -
    have "written s = {..<length (choices es)}"
      using answered_written [OF that(1), of intl u kvs] assms(3) sent by (auto simp: written_def settled_def assms(2) [symmetric])
    moreover have "Max {..<Suc k} = k" for k by (rule Max_eqI) auto
    ultimately show ?thesis
      using ordered_writes [OF assms(1) that(2), of intl u] sent
      by (cases "choices es" rule: rev_cases) (auto simp: Let_def assms(2) [symmetric] nth_append lessThan_empty_iff)
  qed
  with store offered show ?thesis by (auto simp: t(1) zone_state_def simp del: js_get.simps)
qed

definition demo_intl :: Intl where
  "demo_intl = \<lparr>resolvedZone = Some ''Europe/Berlin'', knownZone = (\<lambda>z. z \<in> {''UTC'', ''Asia/Tokyo'', ''Europe/Berlin''})\<rparr>"

definition zone_user :: User where
  "zone_user = \<lparr>user_id = ''u1'', username = ''ada'', role = ''user'', permissions = None, is_active = True, preferences = None\<rparr>"

definition demo_page :: "ZoneEvent list \<Rightarrow> ZonePage" where
  "demo_page es = fold (zone_event demo_intl zone_user) es (openZonePage demo_intl zone_user [(''timezone'', JStr ''UTC'')])"

lemmas zone_steps = handleTimezoneChange_def read_prefs_row_def write_prefs_row_def zoneSaved_def zoneFailed_def unanswered_def profileSent_def
  profileRead_def zone_effect_def

definition demo_choices :: "ZoneEvent list" where
  "demo_choices = [Zone_chosen ''Asia/Tokyo'', Zone_chosen ''auto'', Row_read 1, Row_read 0, Row_written 0, Profile_sent, Row_written 1,
     Zone_saved 1, Profile_read 0, Zone_saved 0]"

theorem last_zone_kept_witness:
  "effectiveZone (zp_store (demo_page (demo_choices @ [Profile_sent, Profile_read 0]))) = ''Europe/Berlin''"
proof -
  let ?s = "demo_page demo_choices"
  have s: "zp_sent ?s = [''Asia/Tokyo'', ''auto'']" "set (zp_answered ?s) = {0, 1}" "zp_reads ?s = []"
    by (simp_all add: demo_page_def demo_choices_def zone_steps)
  then have "settled ?s" by (auto simp: settled_def less_Suc_eq numeral_2_eq_2)
  moreover have "list_all no_failure demo_choices" "sorted (writes demo_choices)" "choices demo_choices = [''Asia/Tokyo'', ''auto'']"
    by (simp_all add: demo_choices_def)
  ultimately have "zp_store (zone_event demo_intl zone_user (Profile_read 0) (zone_event demo_intl zone_user Profile_sent ?s)) =
      setPreference demo_intl ''auto'' (initialTimezone demo_intl)"
    using last_zone_kept [of "[(''timezone'', JStr ''UTC'')]" ?s demo_intl zone_user demo_choices _, OF _ demo_page_def _ refl] by simp
  then show ?thesis
    by (simp add: demo_page_def demo_intl_def timezone_defs getBrowserTimezone_def Let_def)
qed

text \<open>
  The exception happens: of two requests that overtake each other the first one is kept, and if it named the zone of the
  profile, the page goes on showing times in the other, which no one has stored.
\<close>

theorem overtaken_zone_stays:
  "let s = demo_page [Zone_chosen ''UTC'', Zone_chosen ''Asia/Tokyo'', Row_read 1, Row_written 1, Zone_saved 1, Row_read 0, Row_written 0,
       Zone_saved 0, Profile_sent, Profile_read 0]
   in zone_of (zp_saved s) = ''UTC'' \<and> effectiveZone (zp_store s) = ''Asia/Tokyo''"
  by code_simp

text \<open>
  A choice whose request failed stays on display. The user's timezone is what it was, so the effect does not run again,
  however often the profile is read: until the page is loaded anew, times are shown in a zone the backend does not have.
\<close>

definition reread :: "Intl \<Rightarrow> User \<Rightarrow> ZonePage \<Rightarrow> ZonePage" where
  "reread intl u s = profileRead intl u 0 (profileSent s)"

lemma rereads_keep_zone:
  assumes "zp_seen s = js_get (JObj (zp_saved s)) ''timezone''" and "zp_reads s = []"
  shows "zp_store ((reread intl u ^^ k) s) = zp_store s \<and> zp_saved ((reread intl u ^^ k) s) = zp_saved s \<and>
    zp_seen ((reread intl u ^^ k) s) = zp_seen s \<and> zp_reads ((reread intl u ^^ k) s) = []"
proof (induction k)
  case (Suc k)
  then show ?case using assms
    by (simp add: reread_def profileSent_def profileRead_def zone_effect_def user_zone_def setUser_def del: js_get.simps)
qed (simp add: assms(2))

theorem failed_zone_stays:
  assumes "t = fold (zone_event intl u) [Zone_chosen z, Zone_failed 0 msg] (openZonePage intl u kvs)"
  shows "zp_store ((reread intl u ^^ k) t) = setPreference intl z (initialTimezone intl) \<and> zp_saved ((reread intl u ^^ k) t) = kvs"
proof -
  have t: "zp_store t = zone_state intl z" "zp_saved t = kvs" "zp_seen t = js_get (JObj kvs) ''timezone''" "zp_reads t = []"
    by (simp_all add: assms handleTimezoneChange_def zoneFailed_def unanswered_def openZonePage_def zone_effect_def user_zone_def setUser_def
        setPreference_state del: js_get.simps)
  with rereads_keep_zone [of t k intl u] show ?thesis by (simp add: zone_state_def del: js_get.simps)
qed

theorem failed_zone_stays_witness:
  "effectiveZone (zp_store ((reread demo_intl zone_user ^^ 2) (demo_page [Zone_chosen ''Asia/Tokyo'', Zone_failed 0 ''Server error'']))) = ''Asia/Tokyo''"
  using failed_zone_stays [of _ demo_intl zone_user "''Asia/Tokyo''" "''Server error''" "[(''timezone'', JStr ''UTC'')]" 2, OF refl]
  by (simp add: demo_page_def demo_intl_def timezone_defs Let_def del: zone_event.simps)

subsection \<open>The buttons of the theme mode\<close>

datatype ModeButton = Light_button | Dark_button | Oled_button

fun pressMode :: "ModeButton \<Rightarrow> ThemeState \<times> Dom \<Rightarrow> ThemeState \<times> Dom" where
  "pressMode Light_button s = setDarkMode False s"
| "pressMode Dark_button s = setDarkMode True s"
| "pressMode Oled_button s = setOledMode (\<not> isOled (fst s)) (setDarkMode True s)"

fun mode_lit :: "ThemeState \<Rightarrow> ModeButton \<Rightarrow> bool" where
  "mode_lit st Light_button \<longleftrightarrow> \<not> isDark st"
| "mode_lit st Dark_button \<longleftrightarrow> isDark st \<and> \<not> isOled st"
| "mode_lit st Oled_button \<longleftrightarrow> isOled st"

definition lit_buttons :: "ThemeState \<Rightarrow> ModeButton list" where
  "lit_buttons st = filter (mode_lit st) [Light_button, Dark_button, Oled_button]"

text \<open>The effect of the application's frame, which sets the classes again when the mode changes.\<close>

definition shellTheme :: "ThemeState \<Rightarrow> Dom \<Rightarrow> Dom" where
  "shellTheme st d =
    (let cls = toggleClass ''dark'' (isDark st) (classList d);
         cls' = (if isDark st then cls else insert ''light'' cls)
     in d\<lparr>classList := toggleClass ''oled'' (isOled st) cls'\<rparr>)"

lemma press_theme_steps: "theme_step\<^sup>*\<^sup>* s (pressMode b s)"
  by (cases b) (auto intro: theme_step.intros converse_rtranclp_into_rtranclp)

lemma shell_theme_settled: "dom_shows st d \<Longrightarrow> shellTheme st d = d"
  by (cases d) (auto simp: dom_shows_def shellTheme_def toggleClass_def Let_def)

lemma presses_theme_steps: "theme_step\<^sup>*\<^sup>* s (fold pressMode bs s)"
proof (induction bs arbitrary: s)
  case (Cons b bs)
  show ?case using rtranclp_trans [OF press_theme_steps Cons.IH] by simp
qed simp

text \<open>
  After the stored preferences were applied, any presses leave the document as the store says, and the frame's effect
  finds nothing to change.
\<close>

theorem mode_presses_settled:
  "shellTheme (fst (fold pressMode bs (rehydrateTheme (Some st) s0))) (snd (fold pressMode bs (rehydrateTheme (Some st) s0))) =
     snd (fold pressMode bs (rehydrateTheme (Some st) s0))"
  by (intro shell_theme_settled theme_sys.reachable_inv [OF _ presses_theme_steps]) blast

text \<open>
  A press lights its own button alone exactly when the OLED mode was off before. With it on, \<^verbatim>\<open>Light\<close> lights two buttons,
  \<^verbatim>\<open>Dark\<close> leaves the OLED mode on, and only the OLED button turns it off, however often the others are pressed.
\<close>

theorem press_lights_its_button:
  "lit_buttons (fst (pressMode b s)) = [b] \<longleftrightarrow> \<not> isOled (fst s)"
  by (cases b) (auto simp: lit_buttons_def setDarkMode_def setOledMode_def)

theorem oled_left_by_its_button:
  "isOled (fst (fold pressMode bs s)) \<longleftrightarrow> isOled (fst s) \<noteq> odd (count_list bs Oled_button)"
proof (induction bs arbitrary: s)
  case (Cons b bs)
  then show ?case by (cases b) (auto simp: setDarkMode_def setOledMode_def)
qed simp

lemma dark_press_in_oled: "dom_shows (fst s) (snd s) \<Longrightarrow> isDark (fst s) \<Longrightarrow> pressMode Dark_button s = s"
  by (cases s; cases "fst s"; cases "snd s") (auto simp: dom_shows_def setDarkMode_def applyDarkMode_def toggleClass_def Let_def)

end
