(* ===== verification/Home_Pages.thy ===== *)
theory Home_Pages
  imports Admin_Lists Plan_Page Server_Lists File_Browser Appearance_Page
begin

text \<open>
  The pages a user begins with: the overview of the administration (\<^verbatim>\<open>routes/admin.index.tsx\<close>), the dashboard
  (\<^verbatim>\<open>routes/index.tsx\<close>) next to \<^verbatim>\<open>backend/app/api/dashboard.py\<close>, the catalogues of plans and environments
  (\<^verbatim>\<open>routes/plans.tsx\<close>, \<^verbatim>\<open>routes/environments.tsx\<close>) next to \<^verbatim>\<open>list_plans\<close> of
  \<^verbatim>\<open>backend/app/services/plan_service.py\<close> and \<^verbatim>\<open>list_environments\<close> of \<^verbatim>\<open>environment_service.py\<close>.
\<close>

subsection \<open>The cards of the administration\<close>

text \<open>The page a card leads to and the permission it is shown with.\<close>

definition ADMIN_CARDS :: "(string \<times> string) list" where
  "ADMIN_CARDS =
    [(''/admin/users'', USERS_READ), (''/admin/servers'', SERVERS_READ_ALL), (''/admin/health'', ADMIN_ACCESS),
     (''/admin/analytics'', ANALYTICS_READ), (''/admin/audit-logs'', AUDIT_READ), (''/admin/credits'', CREDITS_READ_ALL),
     (''/admin/environments'', ENVIRONMENT_CREATE), (''/admin/plans'', PLAN_CREATE), (''/admin/quotas'', QUOTA_READ),
     (''/admin/workspaces'', WORKSPACES_READ_ALL), (''/admin/volumes'', VOLUMES_READ_ALL), (''/admin/permissions'', ADMIN_ACCESS),
     (''/admin/ip-restrictions'', ADMIN_ACCESS), (''/admin/maintenance-windows'', ADMIN_ACCESS), (''/admin/settings'', ADMIN_ACCESS)]"

text \<open>The cards that open a monitoring tool in a tab of its own.\<close>

definition MONITORING_CARDS :: "(string \<times> string) list" where
  "MONITORING_CARDS = [(''/grafana'', ADMIN_ACCESS), (''/prometheus'', ADMIN_ACCESS), (''/alertmanager'', ADMIN_ACCESS), (''/jaeger'', ADMIN_ACCESS)]"

definition visibleCategories :: "AuthState \<Rightarrow> string list" where
  "visibleCategories st = map fst (filter (\<lambda>(href, p). p = [] \<or> hasPermission st p) (ADMIN_CARDS @ MONITORING_CARDS))"

definition dead_cards :: "RoleTable \<Rightarrow> User \<Rightarrow> string list" where
  "dead_cards T u = (let st = \<lparr>user = Some (profile_user T u)\<rparr>
     in filter (\<lambda>href. case map_of ADMIN_GUARDS href of None \<Rightarrow> False | Some g \<Rightarrow> \<not> guardAllowed st g) (visibleCategories st))"

definition missing_cards :: "RoleTable \<Rightarrow> User \<Rightarrow> string list" where
  "missing_cards T u = (let st = \<lparr>user = Some (profile_user T u)\<rparr> in filter (\<lambda>p. p \<notin> set (visibleCategories st)) (admin_pages st))"

text \<open>The same in terms of what the client knows of a role.\<close>

definition card_table :: "(string \<times> string) list" where
  "card_table = ADMIN_CARDS @ MONITORING_CARDS"

definition guard_alternatives :: "(string \<times> string list) list" where
  "guard_alternatives = map (\<lambda>(p, alts, checks). (p, alts)) guard_table"

definition role_cards :: "(string \<Rightarrow> bool) \<Rightarrow> string list" where
  "role_cards client = map fst (filter (\<lambda>(href, p). client p) card_table)"

definition role_dead :: "(string \<Rightarrow> bool) \<Rightarrow> string list" where
  "role_dead client = filter (\<lambda>href. case map_of guard_alternatives href of None \<Rightarrow> False | Some alts \<Rightarrow> \<not> list_ex client alts) (role_cards client)"

definition role_missing :: "(string \<Rightarrow> bool) \<Rightarrow> string list" where
  "role_missing client = filter (\<lambda>p. p \<notin> set (role_cards client)) (map fst (filter (\<lambda>(p, alts). list_ex client alts) guard_alternatives))"

definition DEAD_CARDS :: "(string \<times> string list) list" where
  "DEAD_CARDS = [(''super_admin'', []), (''admin'', []), (''moderator'', [''/admin/workspaces'', ''/admin/volumes'']),
     (''support'', [''/admin/workspaces'', ''/admin/volumes'']), (''user'', []), (''guest'', [])]"

text \<open>Only where the permission of a card differs from the guard of its page can the two disagree.\<close>

definition unlike_cards :: "(string \<times> string) list" where
  "unlike_cards = filter (\<lambda>(href, p). case map_of guard_alternatives href of None \<Rightarrow> False | Some alts \<Rightarrow> p \<notin> set alts) card_table"

definition unlike_guards :: "(string \<times> string list) list" where
  "unlike_guards = filter (\<lambda>(href, alts). case map_of card_table href of None \<Rightarrow> True | Some p \<Rightarrow> alts \<noteq> [p]) guard_alternatives"

lemma unlike_tables:
  "unlike_cards = [(''/admin/workspaces'', WORKSPACES_READ_ALL), (''/admin/volumes'', VOLUMES_READ_ALL)]"
  "unlike_guards = [(''/admin/environments'', [ENVIRONMENT_CREATE, ENVIRONMENT_UPDATE, ENVIRONMENT_DELETE]),
     (''/admin/plans'', [PLAN_CREATE, PLAN_UPDATE, PLAN_DELETE]), (''/admin/workspaces'', [ADMIN_ACCESS]), (''/admin/volumes'', [ADMIN_ACCESS])]"
  by code_simp+

lemma unlike_lookups:
  "map_of guard_alternatives ''/admin/workspaces'' = Some [ADMIN_ACCESS]" "map_of guard_alternatives ''/admin/volumes'' = Some [ADMIN_ACCESS]"
  "map_of card_table ''/admin/environments'' = Some ENVIRONMENT_CREATE" "map_of card_table ''/admin/plans'' = Some PLAN_CREATE"
  "map_of card_table ''/admin/workspaces'' = Some WORKSPACES_READ_ALL" "map_of card_table ''/admin/volumes'' = Some VOLUMES_READ_ALL"
  by code_simp+

lemma role_dead_unlike: "role_dead client =
    (if client WORKSPACES_READ_ALL \<and> \<not> client ADMIN_ACCESS then [''/admin/workspaces''] else []) @
    (if client VOLUMES_READ_ALL \<and> \<not> client ADMIN_ACCESS then [''/admin/volumes''] else [])"
proof -
  let ?R = "\<lambda>(href, p). client p \<and> (case map_of guard_alternatives href of None \<Rightarrow> False | Some alts \<Rightarrow> \<not> list_ex client alts)"
  have "role_dead client = map fst (filter ?R card_table)"
    unfolding role_dead_def role_cards_def filter_map filter_filter
    by (rule arg_cong [where f = "map fst"], rule filter_cong) (auto simp: case_prod_beta split: option.splits)
  also have "filter ?R card_table = filter ?R unlike_cards"
    unfolding unlike_cards_def filter_filter by (rule filter_cong) (auto simp: list_ex_iff split: option.splits)
  finally show ?thesis by (simp add: unlike_tables unlike_lookups)
qed

lemma role_missing_none:
  assumes "list_ex client [ENVIRONMENT_CREATE, ENVIRONMENT_UPDATE, ENVIRONMENT_DELETE] \<longrightarrow> client ENVIRONMENT_CREATE"
    and "list_ex client [PLAN_CREATE, PLAN_UPDATE, PLAN_DELETE] \<longrightarrow> client PLAN_CREATE"
    and "client ADMIN_ACCESS \<longrightarrow> client WORKSPACES_READ_ALL \<and> client VOLUMES_READ_ALL"
  shows "role_missing client = []"
proof -
  have card: "href \<in> set (role_cards client)" if "map_of card_table href = Some p" "client p" for href p
    using map_of_SomeD [OF that(1)] that(2) by (force simp: role_cards_def)
  have "href \<in> set (role_cards client)" if "(href, alts) \<in> set guard_alternatives" "list_ex client alts" for href alts
  proof (cases "(href, alts) \<in> set unlike_guards")
    case True
    then show ?thesis
      using that(2) assms card [OF unlike_lookups(3)] card [OF unlike_lookups(4)] card [OF unlike_lookups(5)] card [OF unlike_lookups(6)]
      unfolding unlike_tables by auto
  next
    case False
    with that show ?thesis by (auto simp: unlike_guards_def split: option.splits intro: card)
  qed
  then show ?thesis by (auto simp: role_missing_def filter_empty_conv)
qed

definition role_facts :: "string \<Rightarrow> bool \<times> bool \<times> bool \<times> bool" where
  "role_facts r = (role_client r WORKSPACES_READ_ALL, role_client r VOLUMES_READ_ALL, role_client r ADMIN_ACCESS,
     (list_ex (role_client r) [ENVIRONMENT_CREATE, ENVIRONMENT_UPDATE, ENVIRONMENT_DELETE] \<longrightarrow> role_client r ENVIRONMENT_CREATE) \<and>
     (list_ex (role_client r) [PLAN_CREATE, PLAN_UPDATE, PLAN_DELETE] \<longrightarrow> role_client r PLAN_CREATE))"

lemma role_fact_table:
  "map role_facts [''super_admin'', ''admin'', ''moderator'', ''support'', ''user'', ''guest''] =
     [(True, True, True, True), (True, True, True, True), (True, True, False, True), (True, True, False, True),
      (False, False, False, True), (False, False, False, True)]"
  by code_simp

lemma role_of_facts:
  assumes "role_facts r = (ws, vol, adm, True)" and "adm \<longrightarrow> ws \<and> vol"
  shows "role_dead (role_client r) = (if ws \<and> \<not> adm then [''/admin/workspaces''] else []) @ (if vol \<and> \<not> adm then [''/admin/volumes''] else []) \<and>
    role_missing (role_client r) = []"
proof -
  have f: "role_client r WORKSPACES_READ_ALL = ws" "role_client r VOLUMES_READ_ALL = vol" "role_client r ADMIN_ACCESS = adm"
    "list_ex (role_client r) [ENVIRONMENT_CREATE, ENVIRONMENT_UPDATE, ENVIRONMENT_DELETE] \<longrightarrow> role_client r ENVIRONMENT_CREATE"
    "list_ex (role_client r) [PLAN_CREATE, PLAN_UPDATE, PLAN_DELETE] \<longrightarrow> role_client r PLAN_CREATE"
    using assms(1) unfolding role_facts_def prod.inject eq_True by blast+
  show ?thesis
    using role_missing_none [OF f(4,5)] assms(2) by (simp only: role_dead_unlike f simp_thms)
qed

lemma role_card_tables:
  assumes "map_of DEAD_CARDS r = Some pages"
  shows "role_dead (role_client r) = pages \<and> role_missing (role_client r) = []"
proof -
  consider "r = ''super_admin''" "pages = []" | "r = ''admin''" "pages = []" | "r = ''moderator''" "pages = [''/admin/workspaces'', ''/admin/volumes'']"
    | "r = ''support''" "pages = [''/admin/workspaces'', ''/admin/volumes'']" | "r = ''user''" "pages = []" | "r = ''guest''" "pages = []"
    using assms unfolding DEAD_CARDS_def by (auto split: if_splits)
  then show ?thesis
    by cases (use role_fact_table in \<open>auto dest: role_of_facts\<close>)
qed

lemma cards_named: "list_all (\<lambda>(href, p). p \<noteq> []) card_table"
  by code_simp

lemma cards_role: "visibleCategories st = role_cards (hasPermission st)"
proof -
  have "filter (\<lambda>(href, p). p = [] \<or> hasPermission st p) card_table = filter (\<lambda>(href, p). hasPermission st p) card_table"
    using cards_named by (intro filter_cong) (auto simp: list_all_iff)
  then show ?thesis by (simp only: visibleCategories_def role_cards_def card_table_def)
qed

lemma guard_lookup: "map_of guard_alternatives p =
    map_option (\<lambda>g. case g_permission g of Some q \<Rightarrow> [q] | None \<Rightarrow> the (g_permissions g)) (map_of ADMIN_GUARDS p)"
proof -
  have m: "map_of (map (\<lambda>(p, g). (p, f g)) xs) p = map_option f (map_of xs p)" for f :: "PageGuardOptions \<Rightarrow> string list" and xs
    by (induction xs) auto
  have "guard_alternatives = map (\<lambda>(p, g). (p, case g_permission g of Some q \<Rightarrow> [q] | None \<Rightarrow> the (g_permissions g))) ADMIN_GUARDS"
    by (simp add: guard_alternatives_def guard_table_def comp_def case_prod_beta)
  from this [symmetric] show ?thesis using m [of "\<lambda>g. case g_permission g of Some q \<Rightarrow> [q] | None \<Rightarrow> the (g_permissions g)" ADMIN_GUARDS] by simp
qed

lemma dead_cards_role:
  assumes "map_of ROLE_PERMISSIONS (role u) = Some ps" and "is_active u"
  shows "dead_cards (map_of ROLE_PERMISSIONS) u = role_dead (role_client (role u)) \<and> missing_cards (map_of ROLE_PERMISSIONS) u = role_missing (role_client (role u))"
proof -
  let ?st = "\<lparr>user = Some (profile_user (map_of ROLE_PERMISSIONS) u)\<rparr>"
  have client: "hasPermission ?st = role_client (role u)"
    using profile_check [OF assms] assms(1) by (simp add: hasPermission_def role_client_def fun_eq_iff)
  have guard: "guardAllowed ?st g \<longleftrightarrow> list_ex (role_client (role u)) (case g_permission g of Some q \<Rightarrow> [q] | None \<Rightarrow> the (g_permissions g))"
    if "(p, g) \<in> set ADMIN_GUARDS" for p g
    using shaped_guard [OF that, of ?st] client by simp
  have dead: "dead_cards (map_of ROLE_PERMISSIONS) u = role_dead (role_client (role u))"
    unfolding dead_cards_def role_dead_def Let_def cards_role client
    by (rule filter_cong) (auto simp: guard_lookup guard [OF map_of_SomeD] split: option.splits)
  have "map fst (filter (\<lambda>(p, g). guardAllowed ?st g) ADMIN_GUARDS) = map fst (filter (\<lambda>(p, alts). list_ex (role_client (role u)) alts) guard_alternatives)"
    unfolding guard_alternatives_def guard_table_def map_map filter_map
    by (rule arg_cong2 [where f = map], (auto simp: guard intro!: filter_cong)+)
  then have "missing_cards (map_of ROLE_PERMISSIONS) u = role_missing (role_client (role u))"
    unfolding missing_cards_def role_missing_def Let_def cards_role client admin_pages_filter by simp
  with dead show ?thesis ..
qed

text \<open>
  Under the matrix the backend ships with, for every account the cards are the pages whose guards let it in, with one exception: moderators and the support staff
  see the cards of the workspaces and of the volumes, whose pages send them back to the dashboard.
\<close>

theorem dead_cards_complete:
  assumes "is_active u" and "map_of DEAD_CARDS (role u) = Some pages"
  shows "dead_cards (map_of ROLE_PERMISSIONS) u = pages \<and> missing_cards (map_of ROLE_PERMISSIONS) u = []"
proof -
  have "role u \<in> {''super_admin'', ''admin'', ''moderator'', ''support'', ''user'', ''guest''}"
    using assms(2) by (auto simp: DEAD_CARDS_def split: if_splits)
  then obtain ps where "map_of ROLE_PERMISSIONS (role u) = Some ps" by (auto simp: ROLE_PERMISSIONS_def)
  then show ?thesis
    using dead_cards_role [of u ps] assms(1) role_card_tables [OF assms(2)] by simp
qed

definition support_user :: User where
  "support_user = \<lparr>user_id = ''u7'', username = ''sam'', role = ''support'', permissions = None, is_active = True, preferences = None\<rparr>"

theorem dead_cards_complete_witness: "dead_cards (map_of ROLE_PERMISSIONS) support_user = [''/admin/workspaces'', ''/admin/volumes'']"
  using dead_cards_complete [of support_user "[''/admin/workspaces'', ''/admin/volumes'']"]
  by (simp add: support_user_def DEAD_CARDS_def)

subsection \<open>Opening a monitoring tool\<close>

text \<open>
  \<^verbatim>\<open>openMonitoringTool\<close> asks for a fresh token first. The backend sends the browser on to the tool whose path is in the
  query, and to no other place.
\<close>

definition getMonitoringUrl :: "string \<Rightarrow> string \<Rightarrow> string option \<Rightarrow> string" where
  "getMonitoringUrl base redirect token =
    (if base \<noteq> [] \<and> last base = CHR ''/'' then butlast base else base) @ ''/auth/monitoring?redirect='' @ encodeURIComponent redirect @
    ''&token='' @ encodeURIComponent (case token of None \<Rightarrow> [] | Some t \<Rightarrow> t)"

definition openMonitoringCard :: "string \<Rightarrow> bool \<Rightarrow> string option \<Rightarrow> string \<Rightarrow> string + string" where
  "openMonitoringCard base refreshed stored redirect = (if refreshed then Inr (getMonitoringUrl base redirect stored) else Inl ''/login'')"

definition monitoring_redirect :: "string \<Rightarrow> string" where
  "monitoring_redirect redirect = (if redirect \<in> {''/grafana'', ''/prometheus'', ''/alertmanager'', ''/jaeger''} then redirect else ''/grafana'')"

lemma monitoring_card_opens:
  assumes "href \<in> fst ` set MONITORING_CARDS"
  shows "\<exists>before q after. openMonitoringCard base True stored href = Inr (before @ ''/auth/monitoring?redirect='' @ q @ ''&token='' @ after) \<and>
    monitoring_redirect (url_decode q) = href \<and> url_decode after = (case stored of None \<Rightarrow> [] | Some t \<Rightarrow> t)"
proof (intro exI conjI)
  show "openMonitoringCard base True stored href = Inr ((if base \<noteq> [] \<and> last base = CHR ''/'' then butlast base else base) @
      ''/auth/monitoring?redirect='' @ encodeURIComponent href @ ''&token='' @ encodeURIComponent (case stored of None \<Rightarrow> [] | Some t \<Rightarrow> t))"
    by (simp only: openMonitoringCard_def getMonitoringUrl_def if_True)
  show "monitoring_redirect (url_decode (encodeURIComponent href)) = href"
    using assms unfolding url_decode_component by (auto simp: monitoring_redirect_def MONITORING_CARDS_def)
qed (rule url_decode_component)

subsection \<open>The dashboard\<close>

definition myRunningServers :: "User option \<Rightarrow> ListedServer list \<Rightarrow> ListedServer list" where
  "myRunningServers usr servers = filter (\<lambda>s. status s = ''running'') (myServers usr servers)"

definition running_cpu :: "User option \<Rightarrow> ListedServer list \<Rightarrow> rat" where
  "running_cpu usr servers =
    sum_list (map (\<lambda>s. case ls_allocated_cpu s of None \<Rightarrow> 0 | Some q \<Rightarrow> q) (myRunningServers usr servers))"

record DashboardData =
  dd_total :: nat
  dd_running :: nat
  dd_stopped :: nat
  dd_hourly_cost :: int
  dd_hours_left :: int

text \<open>
  The backend counts the servers of the user. \<open>cost\<close> is the price of a server's plan, \<open>None\<close> where the plan is gone;
  \<^verbatim>\<open>int\<close> cuts the quotient towards zero.
\<close>

definition py_quotient :: "int \<Rightarrow> int \<Rightarrow> int" where
  "py_quotient b c = (if b < 0 then - ((- b) div c) else b div c)"

definition get_dashboard :: "string \<Rightarrow> int \<Rightarrow> (ListedServer \<Rightarrow> int option) \<Rightarrow> ListedServer list \<Rightarrow> DashboardData" where
  "get_dashboard uid balance cost servers =
    (let own = filter (\<lambda>s. server_user_id s = Some uid) servers;
         running = filter (\<lambda>s. status s = ''running'') own;
         hourly = sum_list (map (\<lambda>s. case cost s of None \<Rightarrow> 0 | Some c \<Rightarrow> c) running)
     in \<lparr>dd_total = length own, dd_running = length running, dd_stopped = length own - length running, dd_hourly_cost = hourly,
         dd_hours_left = (if hourly > 0 then py_quotient balance hourly else 0)\<rparr>)"

text \<open>
  The two ways the page counts running servers agree: the figure of the backend is the length of the list the page
  filters from the servers it holds. The hours that are left are what the balance pays for at the present cost, and
  nothing is promised beyond it.
\<close>

theorem dashboard_figures_agree:
  assumes "usr = Some u" and "data = get_dashboard (user_id u) balance cost servers" and "0 \<le> balance"
  shows "dd_running data = length (myRunningServers usr servers) \<and> dd_running data + dd_stopped data = length (myServers usr servers) \<and>
    0 \<le> dd_hours_left data \<and>
    (0 < dd_hourly_cost data \<longrightarrow> dd_hours_left data * dd_hourly_cost data \<le> balance \<and> balance < (dd_hours_left data + 1) * dd_hourly_cost data)"
proof -
  have run: "dd_running data = length (myRunningServers usr servers)" and total: "dd_total data = length (myServers usr servers)"
    by (simp_all add: assms(1,2) get_dashboard_def myRunningServers_def myServers_def Let_def)
  have le: "length (myRunningServers usr servers) \<le> length (myServers usr servers)" by (simp add: myRunningServers_def)
  have stopped: "dd_stopped data = dd_total data - dd_running data" by (simp add: assms(2) get_dashboard_def Let_def)
  have hours: "dd_hours_left data = (if dd_hourly_cost data > 0 then balance div dd_hourly_cost data else 0)"
    using assms(3) by (simp add: assms(2) get_dashboard_def py_quotient_def Let_def)
  have bounds: "b div c * c \<le> b \<and> b < (b div c + 1) * c" if "0 < c" for b c :: int
  proof -
    have "b = b div c * c + b mod c" by simp
    moreover have "0 \<le> b mod c" "b mod c < c" using that by simp_all
    moreover have "(b div c + 1) * c = b div c * c + c" by (simp add: distrib_right)
    ultimately show ?thesis by linarith
  qed
  from hours assms(3) have "0 \<le> dd_hours_left data" by (simp add: pos_imp_zdiv_nonneg_iff)
  with run total le stopped hours bounds [of "dd_hourly_cost data" balance] show ?thesis by auto
qed

definition home_server :: "string \<Rightarrow> string \<Rightarrow> string \<Rightarrow> ListedServer" where
  "home_server i who st = \<lparr>server_id = i, status = st, server_user_id = Some who, server_username = None, ls_name = i, ls_external_url = None,
     ls_created_at = None, ls_health_status = None, ls_allocated_cpu = Some 2, ls_allocated_memory = None\<rparr>"

theorem dashboard_figures_agree_witness:
  "let servers = [home_server ''a'' ''u7'' ''running'', home_server ''b'' ''u8'' ''running'', home_server ''c'' ''u7'' ''pending''];
       data = get_dashboard ''u7'' 25 (\<lambda>s. Some 10) servers
   in dd_running data = 1 \<and> dd_stopped data = 1 \<and> dd_hours_left data * 10 \<le> 25"
proof -
  let ?servers = "[home_server ''a'' ''u7'' ''running'', home_server ''b'' ''u8'' ''running'', home_server ''c'' ''u7'' ''pending'']"
  let ?data = "get_dashboard ''u7'' 25 (\<lambda>s. Some 10) ?servers"
  have mine: "length (myRunningServers (Some support_user) ?servers) = 1" "length (myServers (Some support_user) ?servers) = 2"
    by (simp_all add: myRunningServers_def myServers_def home_server_def support_user_def)
  have "dd_hourly_cost ?data = 10" by (simp add: get_dashboard_def home_server_def Let_def)
  with mine dashboard_figures_agree [of "Some support_user" support_user ?data 25 "\<lambda>s. Some 10" ?servers]
  show ?thesis unfolding Let_def by (simp add: support_user_def)
qed

text \<open>Without a running server no hour is left, whatever the balance; a server that is starting counts as stopped.\<close>

lemma idle_balance_lasts_no_hour:
  "list_all (\<lambda>s. status s \<noteq> ''running'') servers \<Longrightarrow> dd_hours_left (get_dashboard uid balance cost servers) = 0"
proof -
  assume "list_all (\<lambda>s. status s \<noteq> ''running'') servers"
  then have "filter (\<lambda>s. status s = ''running'') (filter (\<lambda>s. server_user_id s = Some uid) servers) = []"
    by (auto simp: list_all_iff filter_empty_conv)
  then show ?thesis by (simp only: get_dashboard_def Let_def) simp
qed

subsection \<open>The catalogue of plans\<close>

definition active_first :: "('a \<Rightarrow> bool) \<Rightarrow> 'a \<Rightarrow> 'a \<Rightarrow> int" where
  "active_first act a b = (if act a = act b then 0 else if act a then -1 else 1)"

lemma insert_inactive: "\<not> act x \<Longrightarrow> list_all act as \<Longrightarrow> list_all (Not \<circ> act) bs \<Longrightarrow> js_insert (active_first act) x (as @ bs) = as @ x # bs"
  by (induction as) (auto simp: active_first_def split: list.splits intro: list.exhaust [of bs])

lemma insert_active: "act x \<Longrightarrow> js_insert (active_first act) x ys = x # ys"
  by (cases ys) (simp_all add: active_first_def)

lemma active_first_partition: "js_sort (active_first act) xs = filter act xs @ filter (\<lambda>x. \<not> act x) xs"
proof (induction xs)
  case (Cons x xs)
  then show ?case
    using insert_inactive [of act x "filter act xs" "filter (\<lambda>x. \<not> act x) xs"]
    by (cases "act x") (simp_all add: insert_active list_all_iff)
qed simp

definition plan_matches :: "string \<Rightarrow> PlanRow \<Rightarrow> bool" where
  "plan_matches search p \<longleftrightarrow> (let q = js_toLowerCase search in js_contains (js_toLowerCase (pl_name p)) q \<or>
     js_contains (js_toLowerCase (pl_slug p)) q \<or> (case pl_description p of None \<Rightarrow> False | Some d \<Rightarrow> js_contains (js_toLowerCase d) q))"

definition filteredPlans :: "string \<Rightarrow> PlanRow list \<Rightarrow> PlanRow list" where
  "filteredPlans q plans =
    js_sort (active_first pl_is_active) (if q = [] then plans else filter (plan_matches q) plans)"

text \<open>\<open>rows\<close> are all plans in the order of the query: by priority, then by name.\<close>

record PlanAccess =
  pa_direct :: "string list"
  pa_workspaces :: "string list"

definition admin_role :: "RoleTable \<Rightarrow> string \<Rightarrow> bool" where
  "admin_role T r \<longleftrightarrow> ADMIN_ACCESS \<in> set (get_role_permissions T r) \<or> ALL_PERMISSIONS \<in> set (get_role_permissions T r)"

definition plan_visible :: "RoleTable \<Rightarrow> string \<Rightarrow> PlanAccess \<Rightarrow> PlanRow \<Rightarrow> bool" where
  "plan_visible T r acc p \<longleftrightarrow> pl_is_public p \<or> admin_role T r \<or>
     (r \<noteq> [] \<and> (case pl_visible_to_roles p of None \<Rightarrow> False | Some rs \<Rightarrow> r \<in> set rs)) \<or>
     pl_id p \<in> set (pa_direct acc) \<or> pl_id p \<in> set (pa_workspaces acc)"

definition list_plans :: "RoleTable \<Rightarrow> string option \<Rightarrow> bool option \<Rightarrow> string \<Rightarrow> PlanAccess \<Rightarrow> nat \<Rightarrow> nat \<Rightarrow> PlanRow list \<Rightarrow> PlanRow list \<times> nat" where
  "list_plans T cat act r acc page limit rows =
    (let found = filter (\<lambda>p. (case cat of None \<Rightarrow> True | Some c \<Rightarrow> c = [] \<or> pl_category p = c) \<and>
           (case act of None \<Rightarrow> True | Some b \<Rightarrow> pl_is_active p = b)) rows
     in (filter (plan_visible T r acc) (take limit (drop ((page - 1) * limit) found)), length found))"

definition list_plans_route :: "RoleTable \<Rightarrow> User \<Rightarrow> PlanAccess \<Rightarrow> PlansParams \<Rightarrow> PlanRow list \<Rightarrow> PlanRow list \<times> nat" where
  "list_plans_route T u acc p rows =
    list_plans T (plan_category p) (if has_permission T (Some u) PLAN_READ then plan_is_active p else Some True) (role u) acc
      (or_default 1 (pp_page p)) (or_default 50 (pp_limit p)) rows"


definition catalogPlans :: "RoleTable \<Rightarrow> User \<Rightarrow> PlanAccess \<Rightarrow> PlanRow list \<Rightarrow> PlanRow list" where
  "catalogPlans T u acc rows =
    fst (list_plans_route T u acc \<lparr>pp_page = None, pp_limit = None, plan_category = None, plan_is_active = None\<rparr> rows)"

definition plan_figures :: "PlanRow list \<Rightarrow> nat \<times> nat" where
  "plan_figures plans = (length plans, length (filter pl_is_active plans))"

lemma catalogue_shows_active_first:
  "filteredPlans q plans = (let found = (if q = [] then plans else filter (plan_matches q) plans)
     in filter pl_is_active found @ filter (\<lambda>p. \<not> pl_is_active p) found)"
  by (simp add: filteredPlans_def active_first_partition Let_def)

lemma shown_part:
  assumes "X \<inter> Y = {}"
  shows "{p \<in> X. v p} = {p \<in> X \<union> Y. v p} \<longleftrightarrow> (\<forall>p \<in> Y. \<not> v p)"
    and "{p \<in> X. v p} = X \<union> Y \<longleftrightarrow> Y = {} \<and> (\<forall>p \<in> X \<union> Y. v p)"
  using assms by blast+


definition demo_plan :: "nat \<Rightarrow> bool \<Rightarrow> PlanRow" where
  "demo_plan i pub = \<lparr>pl_id = show_nat i, pl_name = show_nat i, pl_slug = show_nat i, pl_description = None, pl_category = ''cpu'',
     pl_cpu_limit = (1, 0), pl_memory_limit = ''2g'', pl_disk_limit = ''10g'', pl_gpu_limit = (0, 0), pl_max_servers_per_user = (3, 0),
     pl_cost_per_hour = (int i, 0), pl_cooldown_seconds = (0, 0), pl_is_public = pub, pl_visible_to_roles = None, pl_priority = (0, 0),
     pl_is_active = True\<rparr>"

definition demo_rows :: "PlanRow list" where
  "demo_rows = map (\<lambda>i. demo_plan i (i = 50)) [0..<51]"


subsection \<open>The catalogue of environments\<close>

record CatalogEnv =
  ce_name :: string
  ce_description :: "string option"
  ce_category :: "string option"
  ce_is_active :: bool
  ce_is_public :: bool

text \<open>For searches without the wildcards of \<^verbatim>\<open>ilike\<close>; \<open>rows\<close> are in the order of category and name.\<close>

definition list_environments :: "RoleTable \<Rightarrow> string \<Rightarrow> bool option \<Rightarrow> string option \<Rightarrow> nat \<Rightarrow> nat \<Rightarrow> CatalogEnv list \<Rightarrow> CatalogEnv list \<times> nat" where
  "list_environments T r act search page limit rows =
    (let found = filter (\<lambda>e. (case act of None \<Rightarrow> True | Some b \<Rightarrow> ce_is_active e = b) \<and>
           (case search of None \<Rightarrow> True | Some q \<Rightarrow> q = [] \<or> js_contains (js_toLowerCase (ce_name e)) (js_toLowerCase q) \<or>
             (case ce_description e of None \<Rightarrow> False | Some d \<Rightarrow> js_contains (js_toLowerCase d) (js_toLowerCase q))) \<and>
           (admin_role T r \<or> ce_is_active e \<and> ce_is_public e)) rows
     in (take limit (drop ((page - 1) * limit) found), length found))"

definition list_environments_route :: "RoleTable \<Rightarrow> User \<Rightarrow> string \<Rightarrow> CatalogEnv list \<Rightarrow> CatalogEnv list" where
  "list_environments_route T u search rows =
    fst (list_environments T (role u) (if has_permission T (Some u) ADMIN_ACCESS \<or> has_permission T (Some u) ALL_PERMISSIONS then None else Some True)
      (if search = [] then None else Some search) 1 50 rows)"

definition env_categories :: "CatalogEnv list \<Rightarrow> string list" where
  "env_categories envs = rev (remdups (rev (concat (map (\<lambda>e. case ce_category e of None \<Rightarrow> [] | Some c \<Rightarrow> if c = [] then [] else [c]) envs))))"

definition filteredEnvironments :: "string \<Rightarrow> CatalogEnv list \<Rightarrow> CatalogEnv list" where
  "filteredEnvironments cat envs =
    js_sort (active_first ce_is_active) (if cat = [] then envs else filter (\<lambda>e. ce_category e = Some cat) envs)"

text \<open>Which of the buttons is shown as chosen: \<open>None\<close> stands for \<^verbatim>\<open>All\<close>. There are none without a category.\<close>

definition lit_category :: "string \<Rightarrow> CatalogEnv list \<Rightarrow> string option list" where
  "lit_category cat envs = (if env_categories envs = [] then []
     else (if cat = [] then [None] else []) @ map Some (filter (\<lambda>c. c = cat) (env_categories envs)))"

record EnvCatalog =
  ec_search :: string
  ec_category :: string

datatype EnvCatalogEvent = Env_search string | Env_category string | Env_cleared

text \<open>A category is chosen among the buttons on display; the button that is lit resets it.\<close>

fun env_catalog_event :: "EnvCatalogEvent \<Rightarrow> EnvCatalog \<Rightarrow> EnvCatalog" where
  "env_catalog_event (Env_search q) s = s\<lparr>ec_search := q\<rparr>"
| "env_catalog_event (Env_category c) s = s\<lparr>ec_category := (if c = ec_category s then [] else c)\<rparr>"
| "env_catalog_event Env_cleared s = s\<lparr>ec_search := [], ec_category := []\<rparr>"

lemma sort_empty: "js_sort cmp xs = [] \<longleftrightarrow> xs = []"
  by (metis length_0_conv length_js_sort)

lemma set_env_categories: "c \<in> set (env_categories envs) \<longleftrightarrow> c \<noteq> [] \<and> (\<exists>e \<in> set envs. ce_category e = Some c)"
  by (auto simp: env_categories_def split: option.splits if_splits) force+

text \<open>
  Something is shown for a category exactly as long as it is among the buttons; when a search takes its button away the
  page is empty, whatever the search found, and no button is lit.
\<close>

theorem category_shown_iff_offered:
  assumes "cat \<noteq> []"
  shows "(filteredEnvironments cat envs \<noteq> [] \<longleftrightarrow> cat \<in> set (env_categories envs)) \<and>
    (lit_category cat envs = [Some cat] \<longleftrightarrow> cat \<in> set (env_categories envs)) \<and> (cat \<notin> set (env_categories envs) \<longrightarrow> lit_category cat envs = [])"
proof -
  have "filteredEnvironments cat envs = [] \<longleftrightarrow> filter (\<lambda>e. ce_category e = Some cat) envs = []"
    using assms by (simp add: filteredEnvironments_def sort_empty)
  then have shown: "filteredEnvironments cat envs \<noteq> [] \<longleftrightarrow> cat \<in> set (env_categories envs)"
    using assms by (auto simp: set_env_categories filter_empty_conv)
  have one: "filter (\<lambda>c. c = x) xs = (if x \<in> set xs then [x] else [])" if "distinct xs" for x and xs :: "string list"
    using that by (induction xs) auto
  have "distinct (env_categories envs)" by (simp add: env_categories_def)
  from one [OF this, of cat] shown assms show ?thesis by (auto simp: lit_category_def)
qed

theorem category_shown_iff_offered_witness:
  "filteredEnvironments ''ml'' (list_environments_route T support_user ''mesh'' [\<lparr>ce_name = ''OpenMesh'', ce_description = None,
     ce_category = Some ''simulation'', ce_is_active = True, ce_is_public = True\<rparr>]) = []"
proof -
  let ?envs = "list_environments_route T support_user ''mesh'' [\<lparr>ce_name = ''OpenMesh'', ce_description = None,
     ce_category = Some ''simulation'', ce_is_active = True, ce_is_public = True\<rparr>]"
  have "set ?envs \<subseteq> {\<lparr>ce_name = ''OpenMesh'', ce_description = None, ce_category = Some ''simulation'', ce_is_active = True, ce_is_public = True\<rparr>}"
    by (auto simp: list_environments_route_def list_environments_def Let_def split: if_splits)
  then have "''ml'' \<notin> set (env_categories ?envs)" by (auto simp: set_env_categories)
  then show ?thesis using category_shown_iff_offered [of "''ml''" ?envs] by simp
qed

end
