(* ===== verification/Activity_Page.thy ===== *)
theory Activity_Page
  imports Audit_Page
begin

text \<open>
  A user's own activity, \<^verbatim>\<open>routes/activity.tsx\<close> with \<^verbatim>\<open>hooks/use-activity.ts\<close>, next to \<^verbatim>\<open>get_my_activity\<close> of
  \<^verbatim>\<open>backend/app/api/users.py\<close>: icons and colours of actions, and the filters of the list.
\<close>

subsection \<open>Icons and colours\<close>

text \<open>The first key that occurs in the name of an action decides its icon and its colour.\<close>

definition ICON_KEYS :: "(string \<times> string) list" where
  "ICON_KEYS = [(''server'', ''Server''), (''user'', ''User''), (''setting'', ''Settings''), (''config'', ''Settings''), (''credit'', ''CreditCard''),
     (''nuke'', ''CreditCard''), (''volume'', ''HardDrive''), (''environment'', ''Box''), (''plan'', ''Box''), (''admin'', ''Shield''),
     (''permission'', ''Shield''), (''login'', ''User''), (''logout'', ''User'')]"

definition COLOUR_KEYS :: "(string \<times> ActionColor) list" where
  "COLOUR_KEYS = [(''create'', Green_action), (''spawn'', Green_action), (''start'', Green_action), (''enable'', Green_action),
     (''update'', Amber_action), (''edit'', Amber_action), (''delete'', Red_action), (''remove'', Red_action), (''stop'', Red_action),
     (''disable'', Red_action), (''login'', Blue_action), (''auth'', Blue_action)]"

definition first_key :: "(string \<times> 'a) list \<Rightarrow> 'a \<Rightarrow> string \<Rightarrow> 'a" where
  "first_key table other action = (case find (\<lambda>(k, v). js_contains (js_toLowerCase action) k) table of None \<Rightarrow> other | Some (k, v) \<Rightarrow> v)"

definition activity_icon :: "string \<Rightarrow> string" where
  "activity_icon = first_key ICON_KEYS ''Activity''"

definition activity_colour :: "string \<Rightarrow> ActionColor" where
  "activity_colour = first_key COLOUR_KEYS Muted_action"

lemma activity_colours:
  "map activity_colour [''server.spawn'', ''server.restart'', ''server.stop'', ''credits.grant'', ''create_users'', ''delete_volumes''] =
     [Green_action, Green_action, Red_action, Amber_action, Green_action, Red_action]"
  by code_simp

subsection \<open>The filters\<close>

text \<open>\<^verbatim>\<open>get_my_activity\<close>: both filters are parts of the name, compared without regard to case; dates are not sent by the page.\<close>

definition part_of :: "string option \<Rightarrow> string \<Rightarrow> bool" where
  "part_of v name = (case v of None \<Rightarrow> True | Some q \<Rightarrow> q = [] \<or> js_contains (js_toLowerCase name) (js_toLowerCase q))"

definition get_my_activity :: "nat \<Rightarrow> nat \<Rightarrow> string option \<Rightarrow> string option \<Rightarrow> AuditRecord list \<Rightarrow> AuditRecord list \<times> nat" where
  "get_my_activity page limit act target rows =
    (let found = filter (\<lambda>e. part_of act (le_action e) \<and> part_of target (le_target_type e)) rows
     in (take limit (drop ((page - 1) * limit) found), length found))"

definition MY_ACTION_OPTIONS :: "string list" where
  "MY_ACTION_OPTIONS = [''create'', ''update'', ''delete'', ''start'', ''stop'', ''restart'']"

definition MY_TARGET_OPTIONS :: "string list" where
  "MY_TARGET_OPTIONS = [''servers'', ''volumes'', ''users'']"

definition ACTIVITY_COLUMNS :: "string list" where
  "ACTIVITY_COLUMNS = [''action'', ''target_type'', ''timestamp'', ''actions'']"

text \<open>
  The page hands its table an empty list of filters, so every change starts from the empty list, and the toolbar shows no
  option as chosen and no button that clears them.
\<close>

definition changeFilter :: "TableApi \<Rightarrow> string \<Rightarrow> string option \<Rightarrow> ListPage \<Rightarrow> ListPage" where
  "changeFilter api k v s =
    (if getColumn api ACTIVITY_COLUMNS k then filterEffect (s\<lparr>lp_columnFilters := setFilterValue api k v []\<rparr>) else s)"

fun activity_event :: "TableApi \<Rightarrow> TableEvent \<Rightarrow> ListPage \<Rightarrow> ListPage" where
  "activity_event api (ChooseFilter k v) s = changeFilter api k (Some v) s"
| "activity_event api (AllValues k) s = changeFilter api k None s"
| "activity_event api ClearFilters s = s"
| "activity_event api (Search q) s = s\<lparr>lp_table := setSearch q (lp_table s)\<rparr>"
| "activity_event api (Page p) s = s\<lparr>lp_table := setPage p (lp_table s)\<rparr>"
| "activity_event api (Limit l) s = s\<lparr>lp_table := setLimit l (lp_table s)\<rparr>"

definition activity_answer :: "ListPage \<Rightarrow> AuditRecord list \<Rightarrow> AuditRecord list \<times> nat" where
  "activity_answer s rows = get_my_activity (tbl_page (lp_table s)) (tbl_limit (lp_table s)) (chosen_filter ''action'' s)
     (chosen_filter ''target_type'' s) rows"

text \<open>The abstract page knows the option that was touched last, and no other.\<close>

fun last_option :: "TableEvent \<Rightarrow> (string \<times> string) option \<Rightarrow> (string \<times> string) option" where
  "last_option (ChooseFilter k v) c = (if k \<in> set ACTIVITY_COLUMNS then map_option (Pair k) (kept_value (Some v)) else c)"
| "last_option (AllValues k) c = (if k \<in> set ACTIVITY_COLUMNS then None else c)"
| "last_option _ c = c"

definition activity_inv :: "(string \<times> string) option \<Rightarrow> ListPage \<Rightarrow> bool" where
  "activity_inv c s \<longleftrightarrow> distinct (map fst (lp_columnFilters s)) \<and> lp_prevFilters s = lp_columnFilters s \<and>
     map_of (lp_columnFilters s) = (case c of None \<Rightarrow> Map.empty | Some (k, v) \<Rightarrow> [k \<mapsto> v]) \<and>
     tbl_filters (lp_table s) = map_option OneValue \<circ> map_of (lp_columnFilters s)"

lemma activity_inv_change:
  assumes "table_api_laws api" and "activity_inv c s"
  shows "activity_inv (if k \<in> set ACTIVITY_COLUMNS then map_option (Pair k) (kept_value v) else c) (changeFilter api k v s)"
proof -
  have laws: "getColumn api ACTIVITY_COLUMNS k \<longleftrightarrow> k \<in> set ACTIVITY_COLUMNS" "distinct (map fst (setFilterValue api k v []))"
    "map_of (setFilterValue api k v []) = Map.empty(k := kept_value v)"
    using assms(1) by (simp_all add: table_api_laws_def)
  show ?thesis
  proof (cases "k \<in> set ACTIVITY_COLUMNS")
    case True
    let ?s = "s\<lparr>lp_columnFilters := setFilterValue api k v []\<rparr>"
    have "tbl_filters (lp_table (filterEffect ?s)) = map_option OneValue \<circ> map_of (lp_columnFilters ?s)"
      using laws assms(2) by (intro filterEffect_syncs) (simp_all add: activity_inv_def)
    with True laws show ?thesis
      by (cases "kept_value v") (simp_all add: changeFilter_def activity_inv_def filterEffect_fields)
  next
    case False
    with laws assms(2) show ?thesis by (simp add: changeFilter_def)
  qed
qed

lemma activity_inv_event:
  "table_api_laws api \<Longrightarrow> activity_inv c s \<Longrightarrow> activity_inv (last_option e c) (activity_event api e s)"
  using activity_inv_change [of api c s] activity_inv_change [of api c s _ None, unfolded kept_value_def]
  by (cases e) (auto simp: activity_inv_def setSearch_def setPage_def setLimit_def dest: spec split: if_splits)

lemma activity_inv_run:
  "table_api_laws api \<Longrightarrow> activity_inv c s \<Longrightarrow> activity_inv (fold last_option es c) (fold (activity_event api) es s)"
  by (induction es arbitrary: c s) (simp_all add: activity_inv_event)

text \<open>
  The page sends one filter at most, the one touched last: a second filter replaces the first, and choosing all values of
  either drops both. What it lists are the records that have the option in their name.
\<close>

theorem activity_filters_replace:
  assumes "table_api_laws api" and "s = fold (activity_event api) es (initialListPage 25)" and "c = fold last_option es None"
  shows "chosen_filter k s = (case c of None \<Rightarrow> None | Some (k', v) \<Rightarrow> if k' = k then Some v else None) \<and>
    snd (activity_answer s rows) = length (filter (\<lambda>e. case c of None \<Rightarrow> True
      | Some (k', v) \<Rightarrow> (k' = ''action'' \<longrightarrow> part_of (Some v) (le_action e)) \<and> (k' = ''target_type'' \<longrightarrow> part_of (Some v) (le_target_type e))) rows)"
proof -
  have "activity_inv None (initialListPage 25)"
    by (simp add: activity_inv_def initialListPage_def initialTable_def fun_eq_iff)
  from activity_inv_run [OF assms(1) this, of es] have "activity_inv c s" by (simp add: assms(2,3))
  then have f: "chosen_filter k s = (case c of None \<Rightarrow> None | Some (k', v) \<Rightarrow> if k' = k then Some v else None)" for k
    by (auto simp: activity_inv_def chosen_filter_def split: option.splits)
  have "snd (activity_answer s rows) = length (filter (\<lambda>e. part_of (chosen_filter ''action'' s) (le_action e) \<and>
      part_of (chosen_filter ''target_type'' s) (le_target_type e)) rows)"
    by (simp add: activity_answer_def get_my_activity_def Let_def)
  also have "\<dots> = length (filter (\<lambda>e. case c of None \<Rightarrow> True
      | Some (k', v) \<Rightarrow> (k' = ''action'' \<longrightarrow> part_of (Some v) (le_action e)) \<and> (k' = ''target_type'' \<longrightarrow> part_of (Some v) (le_target_type e))) rows)"
    by (rule arg_cong [where f = length], rule filter_cong) (auto simp: f part_of_def split: option.splits)
  finally show ?thesis using f by blast
qed

theorem activity_filters_replace_witness:
  "chosen_filter ''action'' (fold (activity_event list_filters) [ChooseFilter ''action'' ''start'', ChooseFilter ''target_type'' ''servers'']
     (initialListPage 25)) = None"
proof -
  have "fold last_option [ChooseFilter ''action'' ''start'', ChooseFilter ''target_type'' ''servers''] None = Some (''target_type'', ''servers'')"
    by (simp add: ACTIVITY_COLUMNS_def kept_value_def)
  then show ?thesis
    using activity_filters_replace [OF list_filters_laws refl refl,
      of "''action''" "[ChooseFilter ''action'' ''start'', ChooseFilter ''target_type'' ''servers'']" "[]"] by simp
qed

text \<open>The option \<open>start\<close> also lists restarts, and the target \<open>servers\<close> none of the records the services write.\<close>

lemma start_lists_restarts: "part_of (Some ''start'') ''server.restart''" "\<not> part_of (Some ''servers'') ''server''"
  by code_simp+

end
