(* ===== verification/Live_Servers.thy ===== *)
theory Live_Servers
  imports Metrics Server_Lists Format_Utils Role_Matrix
begin

text \<open>
  Live views of servers: the cards of a user's running servers with their subscriptions
  (\<^verbatim>\<open>components/charts/user-server-metrics.tsx\<close>), the load bars of the dashboard
  (\<^verbatim>\<open>components/charts/metrics-dashboard.tsx\<close>), and the life of a server as a timeline
  (\<^verbatim>\<open>components/charts/resource-timeline.tsx\<close>, \<^verbatim>\<open>routes/servers.$serverId.metrics.tsx\<close>).
\<close>

subsection \<open>Subscriptions\<close>

record Counters =
  ct_t :: int
  ct_rx :: rat
  ct_tx :: rat
  ct_read :: rat
  ct_write :: rat

record LiveMetric =
  lv_cpu :: rat
  lv_memory :: rat
  lv_memory_used :: rat
  lv_memory_total :: rat
  lv_network_rx :: rat
  lv_network_tx :: rat
  lv_disk_read :: rat
  lv_disk_write :: rat
  lv_timestamp :: int

text \<open>
  \<open>ls_topics\<close> are the servers the socket delivers, \<open>ls_subscribed\<close> the reference of the component, \<open>ls_cleanup\<close> the
  servers the clean-up of the effect's last run will give back. The socket is shared with the dashboard of the
  administration on the same page, whose room \<open>ls_global\<close> carries the samples of every server.
\<close>

record LiveServers =
  ls_topics :: "string list"
  ls_global :: bool
  ls_subscribed :: "string list"
  ls_cleanup :: "string list"
  ls_counters :: "string \<Rightarrow> Counters option"
  ls_metrics :: "string \<Rightarrow> LiveMetric option"

definition mountLive :: LiveServers where
  "mountLive = \<lparr>ls_topics = [], ls_global = False, ls_subscribed = [], ls_cleanup = [], ls_counters = Map.empty, ls_metrics = Map.empty\<rparr>"

definition runningServers :: "(ListedServer \<Rightarrow> string option) \<Rightarrow> ListedServer list \<Rightarrow> string list" where
  "runningServers container servers =
    map server_id (filter (\<lambda>s. status s = ''running'' \<and> (case container s of None \<Rightarrow> False | Some c \<Rightarrow> c \<noteq> [])) servers)"

definition subscribeServer :: "string \<Rightarrow> LiveServers \<Rightarrow> LiveServers" where
  "subscribeServer i s = (if i \<in> set (ls_subscribed s) then s
     else s\<lparr>ls_topics := List.insert i (ls_topics s), ls_subscribed := ls_subscribed s @ [i]\<rparr>)"

definition dropServer :: "string list \<Rightarrow> string \<Rightarrow> LiveServers \<Rightarrow> LiveServers" where
  "dropServer running i s = (if i \<in> set running then s
     else s\<lparr>ls_topics := removeAll i (ls_topics s), ls_subscribed := removeAll i (ls_subscribed s),
       ls_counters := (ls_counters s)(i := None), ls_metrics := (ls_metrics s)(i := None)\<rparr>)"

definition subscriptionCleanup :: "LiveServers \<Rightarrow> LiveServers" where
  "subscriptionCleanup s = s\<lparr>ls_topics := filter (\<lambda>i. i \<notin> set (ls_cleanup s)) (ls_topics s), ls_cleanup := []\<rparr>"

text \<open>A run of the effect: the clean-up of the run before, then the body.\<close>

definition subscriptionEffect :: "bool \<times> string list \<Rightarrow> LiveServers \<Rightarrow> LiveServers" where
  "subscriptionEffect = (\<lambda>(isConnected, running) s.
    let s1 = subscriptionCleanup s
    in if \<not> isConnected then s1
       else let s2 = fold subscribeServer running s1; s3 = fold (dropServer running) (ls_subscribed s2) s2
         in s3\<lparr>ls_cleanup := ls_subscribed s3\<rparr>)"

lemma subscribe_all:
  "ls_cleanup (fold subscribeServer is s) = ls_cleanup s"
  "set (ls_subscribed (fold subscribeServer is s)) = set (ls_subscribed s) \<union> set is"
  "set (ls_topics (fold subscribeServer is s)) = set (ls_topics s) \<union> (set is - set (ls_subscribed s))"
  by (induction "is" arbitrary: s) (auto simp: subscribeServer_def)

lemma drop_all:
  "ls_cleanup (fold (dropServer running) is s) = ls_cleanup s"
  "set (ls_subscribed (fold (dropServer running) is s)) = set (ls_subscribed s) - (set is - set running)"
  "set (ls_topics (fold (dropServer running) is s)) = set (ls_topics s) - (set is - set running)"
  by (induction "is" arbitrary: s) (auto simp: dropServer_def)

definition live_inv :: "LiveServers \<Rightarrow> bool" where
  "live_inv s \<longleftrightarrow> set (ls_topics s) \<subseteq> set (ls_cleanup s)"

lemma effect_connected:
  assumes "live_inv s"
  shows "set (ls_subscribed (subscriptionEffect (True, running) s)) = set running"
    and "set (ls_topics (subscriptionEffect (True, running) s)) = set running - set (ls_subscribed s)"
    and "live_inv (subscriptionEffect (True, running) s)"
  using assms by (auto simp: subscriptionEffect_def subscriptionCleanup_def live_inv_def Let_def subscribe_all drop_all)

lemma effect_disconnected:
  assumes "live_inv s"
  shows "ls_subscribed (subscriptionEffect (False, running) s) = ls_subscribed s"
    and "set (ls_topics (subscriptionEffect (False, running) s)) = {}"
    and "live_inv (subscriptionEffect (False, running) s)"
  using assms by (auto simp: subscriptionEffect_def subscriptionCleanup_def live_inv_def Let_def)

text \<open>
  The dashboard next to the cards subscribes to the room of all servers, if the client takes the user for an administrator;
  the backend lets in who may enter the administration. A sample is delivered over the room of its server and over the
  room of all (\<^verbatim>\<open>_broadcast_metric\<close> in \<^verbatim>\<open>backend/app/websocket/metrics_socket.py\<close>), and the cards take both.
\<close>

definition dashboardEffect :: "RoleTable \<Rightarrow> User \<Rightarrow> bool \<Rightarrow> bool \<Rightarrow> LiveServers \<Rightarrow> LiveServers" where
  "dashboardEffect T u isConnected canView s =
    (let s1 = s\<lparr>ls_global := False\<rparr>
     in if isConnected \<and> canView then s1\<lparr>ls_global := has_permission T (Some u) ADMIN_ACCESS\<rparr> else s1)"

definition delivered :: "LiveServers \<Rightarrow> string \<Rightarrow> bool" where
  "delivered s i \<longleftrightarrow> i \<in> set (ls_topics s) \<or> ls_global s"

record LiveRender =
  lr_connected :: bool
  lr_view :: bool
  lr_running :: "string list"

definition renderLive :: "RoleTable \<Rightarrow> User \<Rightarrow> LiveRender \<Rightarrow> LiveServers \<Rightarrow> LiveServers" where
  "renderLive T u r s = subscriptionEffect (lr_connected r, lr_running r) (dashboardEffect T u (lr_connected r) (lr_view r) s)"

text \<open>The servers of the last run with a connection.\<close>

fun last_connected :: "LiveRender list \<Rightarrow> string set \<Rightarrow> string set" where
  "last_connected [] old = old"
| "last_connected (r # runs) old = last_connected runs (if lr_connected r then set (lr_running r) else old)"

lemma dashboard_keeps [simp]:
  "ls_subscribed (dashboardEffect T u c v s) = ls_subscribed s" "live_inv (dashboardEffect T u c v s) = live_inv s"
  "ls_global (dashboardEffect T u c v s) \<longleftrightarrow> c \<and> v \<and> has_permission T (Some u) ADMIN_ACCESS"
  by (auto simp: dashboardEffect_def live_inv_def Let_def)

lemma subscribe_room: "ls_global (fold subscribeServer is s) = ls_global s" "ls_global (fold (dropServer running) is s) = ls_global s"
  by (induction "is" arbitrary: s) (simp_all add: subscribeServer_def dropServer_def)

lemma effect_room: "ls_global (subscriptionEffect r s) = ls_global s"
  by (cases r) (simp add: subscriptionEffect_def subscriptionCleanup_def Let_def subscribe_room)

lemma runs_subscribed:
  assumes "live_inv s"
  shows "live_inv (fold (renderLive T u) runs s) \<and>
    set (ls_subscribed (fold (renderLive T u) runs s)) = last_connected runs (set (ls_subscribed s))"
  using assms
proof (induction runs arbitrary: s)
  case (Cons r runs)
  let ?s = "dashboardEffect T u (lr_connected r) (lr_view r) s"
  have "live_inv ?s" using Cons.prems by simp
  note c = effect_connected [OF this, of "lr_running r"] and d = effect_disconnected [OF this, of "lr_running r"]
  show ?case
    using Cons.IH [of "renderLive T u r s"] c d by (cases "lr_connected r") (simp_all add: renderLive_def)
qed simp



lemma first_run_delivers_all: "set (ls_topics (subscriptionEffect (True, running) mountLive)) = set running"
  using effect_connected(2) [of mountLive running] by (simp add: live_inv_def mountLive_def)

lemma second_server_silences_first:
  "ls_topics (fold subscriptionEffect [(True, [''a'']), (True, [''a'', ''b''])] mountLive) = [''b'']"
  "ls_topics (fold subscriptionEffect [(True, [''a'']), (False, [''a'']), (True, [''a''])] mountLive) = []"
  by code_simp+

subsection \<open>Rates\<close>

definition onLiveMessage :: "int \<Rightarrow> string \<Rightarrow> MetricData \<Rightarrow> LiveServers \<Rightarrow> LiveServers" where
  "onLiveMessage now sid raw s =
    (if sid = [] then s
     else let rx = orZero (md_network_rx raw); tx = orZero (md_network_tx raw); rd = orZero (md_disk_read raw); wr = orZero (md_disk_write raw);
            prev = ls_counters s sid;
            rate = (\<lambda>v f. counterRate (map_option (\<lambda>c. \<lparr>sample_t = ct_t c, sample_value = f c\<rparr>) prev) \<lparr>sample_t = now, sample_value = v\<rparr>)
       in s\<lparr>ls_counters := (ls_counters s)(sid \<mapsto> \<lparr>ct_t = now, ct_rx = rx, ct_tx = tx, ct_read = rd, ct_write = wr\<rparr>),
           ls_metrics := (ls_metrics s)(sid \<mapsto> \<lparr>lv_cpu = orZero (md_cpu_percent raw), lv_memory = orZero (md_memory_percent raw),
             lv_memory_used = orZero (md_memory_used raw), lv_memory_total = orZero (md_memory_total raw),
             lv_network_rx = rate rx ct_rx, lv_network_tx = rate tx ct_tx, lv_disk_read = rate rd ct_read, lv_disk_write = rate wr ct_write,
             lv_timestamp = now\<rparr>)\<rparr>)"

datatype LiveEvent = Effect_runs bool "string list" | Sample int string MetricData

fun live_event :: "LiveEvent \<Rightarrow> LiveServers \<Rightarrow> LiveServers" where
  "live_event (Effect_runs c running) s = subscriptionEffect (c, running) s"
| "live_event (Sample now i raw) s = onLiveMessage now i raw s"

definition rates_ok :: "LiveServers \<Rightarrow> bool" where
  "rates_ok s \<longleftrightarrow> (\<forall>i m. ls_metrics s i = Some m \<longrightarrow> ls_counters s i \<noteq> None \<and>
     0 \<le> lv_network_rx m \<and> 0 \<le> lv_network_tx m \<and> 0 \<le> lv_disk_read m \<and> 0 \<le> lv_disk_write m)"

lemma subscribe_keeps: "ls_metrics (fold subscribeServer is s) = ls_metrics s" "ls_counters (fold subscribeServer is s) = ls_counters s"
  by (induction "is" arbitrary: s) (simp_all add: subscribeServer_def)

lemma drop_values:
  "ls_metrics (fold (dropServer running) is s) i = (if i \<in> set is - set running then None else ls_metrics s i)"
  "ls_counters (fold (dropServer running) is s) i = (if i \<in> set is - set running then None else ls_counters s i)"
  by (induction "is" arbitrary: s) (auto simp: dropServer_def)

lemma effect_values:
  "ls_metrics (subscriptionEffect r s) i = None \<and> ls_counters (subscriptionEffect r s) i = None \<or>
   ls_metrics (subscriptionEffect r s) i = ls_metrics s i \<and> ls_counters (subscriptionEffect r s) i = ls_counters s i"
  by (cases r) (auto simp: subscriptionEffect_def subscriptionCleanup_def Let_def drop_values subscribe_keeps)

lemma rates_ok_event: "rates_ok s \<Longrightarrow> rates_ok (live_event e s)"
proof (cases e)
  case (Effect_runs c running)
  assume "rates_ok s"
  then show ?thesis
    using effect_values [of "(c, running)" s] unfolding rates_ok_def Effect_runs live_event.simps by (metis option.distinct(1))
next
  case (Sample now i raw)
  assume "rates_ok s"
  then show ?thesis by (auto simp: rates_ok_def Sample onLiveMessage_def Let_def counterRate_nonneg)
qed

lemma rates_ok_run: "rates_ok s \<Longrightarrow> rates_ok (fold live_event es s)"
  by (induction es arbitrary: s) (simp_all add: rates_ok_event)

text \<open>
  No rate is ever negative. The first sample of a server shows no rate, also after it was stopped and its counters were
  dropped; from then on a rate is what the counter rose by over the seconds between the samples, and zero where it fell.
\<close>

theorem live_rates:
  assumes "s = fold live_event es mountLive" and "i \<noteq> []" and "ls_metrics (onLiveMessage now i raw s) i = Some m"
  shows "0 \<le> lv_network_rx m \<and> (ls_counters s i = None \<longrightarrow> lv_network_rx m = 0) \<and>
    (\<forall>c. ls_counters s i = Some c \<and> ct_t c < now \<longrightarrow>
       lv_network_rx m = max 0 (orZero (md_network_rx raw) - ct_rx c) / (of_int (now - ct_t c) / 1000))"
proof -
  have "rates_ok mountLive" by (simp add: rates_ok_def mountLive_def)
  then have "rates_ok (live_event (Sample now i raw) s)" unfolding assms(1) by (intro rates_ok_event rates_ok_run)
  then have "0 \<le> lv_network_rx m" using assms(3) by (auto simp: rates_ok_def)
  moreover have "lv_network_rx m = counterRate (map_option (\<lambda>c. \<lparr>sample_t = ct_t c, sample_value = ct_rx c\<rparr>) (ls_counters s i))
      \<lparr>sample_t = now, sample_value = orZero (md_network_rx raw)\<rparr>"
    using assms(2,3) by (auto simp: onLiveMessage_def Let_def)
  ultimately show ?thesis by (auto simp: counterRate_def Let_def max_def)
qed

theorem live_rates_witness:
  "case ls_metrics (fold live_event [Effect_runs True [''a''],
       Sample 1000 ''a'' \<lparr>md_cpu_percent = None, md_memory_percent = None, md_memory_used = None, md_memory_total = None, md_memory_cache = None,
         md_disk_read = None, md_disk_write = None, md_network_rx = Some 500, md_network_tx = None\<rparr>,
       Sample 3000 ''a'' \<lparr>md_cpu_percent = None, md_memory_percent = None, md_memory_used = None, md_memory_total = None, md_memory_cache = None,
         md_disk_read = None, md_disk_write = None, md_network_rx = Some 900, md_network_tx = None\<rparr>] mountLive) ''a'' of
     None \<Rightarrow> False | Some m \<Rightarrow> lv_network_rx m = 200"
proof -
  let ?raw = "\<lambda>n. \<lparr>md_cpu_percent = None, md_memory_percent = None, md_memory_used = None, md_memory_total = None, md_memory_cache = None,
         md_disk_read = None, md_disk_write = None, md_network_rx = Some n, md_network_tx = None\<rparr>"
  let ?es = "[Effect_runs True [''a''], Sample 1000 ''a'' (?raw 500)]"
  let ?s = "fold live_event ?es mountLive"
  have c: "map_option ct_t (ls_counters ?s ''a'') = Some 1000" "map_option ct_rx (ls_counters ?s ''a'') = Some 500"
    by (simp_all add: onLiveMessage_def Let_def orZero_def)
  then obtain c0 where c0: "ls_counters ?s ''a'' = Some c0" "ct_t c0 = 1000" "ct_rx c0 = 500" by auto
  obtain m where m: "ls_metrics (onLiveMessage 3000 ''a'' (?raw 900) ?s) ''a'' = Some m" by (simp add: onLiveMessage_def Let_def)
  from live_rates [OF refl _ m] c0 have "lv_network_rx m = 200" by (simp add: orZero_def)
  with m show ?thesis by simp
qed

subsection \<open>The load bars\<close>

datatype LoadColour = Destructive_load | Warm_load | Calm_load

record LoadBar =
  lb_id :: string
  lb_label :: string
  lb_value :: rat
  lb_colour :: LoadColour

definition load_colour :: "rat \<Rightarrow> LoadColour" where
  "load_colour v = (if v > 80 then Destructive_load else if v > 60 then Warm_load else Calm_load)"

text \<open>Of two servers with the same identifier the map keeps the last.\<close>

definition load_bar :: "ListedServer list \<Rightarrow> string \<times> ServerLoad \<Rightarrow> LoadBar" where
  "load_bar servers = (\<lambda>(i, l). \<lparr>lb_id = i,
     lb_label = (case find_key server_id i (rev servers) of
         None \<Rightarrow> ''Server '' @ take 8 i
       | Some sv \<Rightarrow> (case server_username sv of
             None \<Rightarrow> ''Server '' @ take 8 i
           | Some u \<Rightarrow> if u = [] \<or> ls_name sv = [] then ''Server '' @ take 8 i else u @ ''/'' @ ls_name sv)),
     lb_value = sl_cpu l, lb_colour = load_colour (sl_cpu l)\<rparr>)"

definition load_cmp :: "LoadBar \<Rightarrow> LoadBar \<Rightarrow> int" where
  "load_cmp a b = (if lb_value b < lb_value a then -1 else if lb_value a < lb_value b then 1 else 0)"

definition serverBarData :: "ListedServer list \<Rightarrow> (string \<times> ServerLoad) list \<Rightarrow> LoadBar list" where
  "serverBarData servers loads = js_sort load_cmp (map (load_bar servers) loads)"

text \<open>
  Every server that reports has one bar, the busiest comes first, and so the bars are red, then orange, then green.
\<close>

theorem busiest_first:
  "mset (map lb_id (serverBarData servers loads)) = mset (map fst loads) \<and>
    sorted_wrt (\<lambda>a b. lb_value b \<le> lb_value a) (serverBarData servers loads) \<and>
    sorted_wrt (\<lambda>a b. lb_colour b = Destructive_load \<longrightarrow> lb_colour a = Destructive_load) (serverBarData servers loads)"
proof -
  have ids: "lb_id \<circ> load_bar servers = fst" by (auto simp: load_bar_def)
  have "mset (map lb_id (serverBarData servers loads)) = image_mset lb_id (mset (map (load_bar servers) loads))"
    by (simp only: serverBarData_def mset_map mset_js_sort)
  also have "\<dots> = mset (map fst loads)" by (simp only: mset_map [symmetric] map_map ids)
  finally have m: "mset (map lb_id (serverBarData servers loads)) = mset (map fst loads)" .
  have le: "load_cmp a b \<le> 0 \<longleftrightarrow> lb_value b \<le> lb_value a" for a b by (auto simp: load_cmp_def)
  have "sorted_wrt (\<lambda>a b. load_cmp a b \<le> 0) (serverBarData servers loads)"
    unfolding serverBarData_def by (rule js_sort_total [where A = "set (map (load_bar servers) loads)"]) (auto simp: le)
  then have s: "sorted_wrt (\<lambda>a b. lb_value b \<le> lb_value a) (serverBarData servers loads)" by (simp add: le)
  have c: "lb_colour b = load_colour (lb_value b)" if "b \<in> set (serverBarData servers loads)" for b
    using that by (auto simp: serverBarData_def load_bar_def)
  have "sorted_wrt (\<lambda>a b. lb_colour b = Destructive_load \<longrightarrow> lb_colour a = Destructive_load) (serverBarData servers loads)"
    by (rule sorted_wrt_mono_rel [OF _ s]) (auto simp: c load_colour_def split: if_splits)
  with m s show ?thesis by blast
qed

subsection \<open>The timeline\<close>

text \<open>Instants in milliseconds.\<close>

record ResourceEvent =
  re_start :: int
  re_end :: int
  re_status :: string

definition server_timeline :: "int \<Rightarrow> int option \<Rightarrow> int option \<Rightarrow> string \<Rightarrow> ResourceEvent list" where
  "server_timeline now created started st =
    [\<lparr>re_start = (case created of None \<Rightarrow> now | Some t \<Rightarrow> t), re_end = (case started of None \<Rightarrow> now | Some t \<Rightarrow> t), re_status = ''pending''\<rparr>] @
    (case started of None \<Rightarrow> []
     | Some t \<Rightarrow> if st = ''running'' \<or> st = ''stopped'' then [\<lparr>re_start = t, re_end = now, re_status = st\<rparr>] else [])"

definition span_text :: "int \<Rightarrow> string" where
  "span_text d = (if d < 60000 then show_int (js_round_div d 1000) @ ''s''
     else if d < 3600000 then show_int (js_round_div d 60000) @ ''m'' else show_int (js_round_div d 3600000) @ ''h'')"

record TimelineBar =
  tb_status :: string
  tb_duration :: string
  tb_startOffset :: rat
  tb_width :: rat

definition time_range :: "ResourceEvent list \<Rightarrow> int \<times> int" where
  "time_range events = (let lo = Min (set (map re_start events)); hi = Max (set (map re_end events))
     in (lo, if hi - lo = 0 then 1 else hi - lo))"

definition timeline_bars :: "ResourceEvent list \<Rightarrow> TimelineBar list" where
  "timeline_bars events = (let (lo, range) = time_range events
     in map (\<lambda>e. \<lparr>tb_status = re_status e, tb_duration = span_text (re_end e - re_start e),
          tb_startOffset = of_int (re_start e - lo) / of_int range * 100,
          tb_width = of_int (re_end e - re_start e) / of_int range * 100\<rparr>) events)"

text \<open>The chart stacks the widths; the offsets are computed, but no bar is drawn for them.\<close>

fun stacked_at :: "rat \<Rightarrow> TimelineBar list \<Rightarrow> rat list" where
  "stacked_at x [] = []"
| "stacked_at x (b # bs) = x # stacked_at (x + tb_width b) bs"

lemma bars_within:
  assumes "events \<noteq> []" and "\<forall>e \<in> set events. re_start e \<le> re_end e" and "b \<in> set (timeline_bars events)"
  shows "0 \<le> tb_startOffset b \<and> 0 \<le> tb_width b \<and> tb_startOffset b + tb_width b \<le> 100"
proof -
  let ?lo = "Min (set (map re_start events))" and ?hi = "Max (set (map re_end events))" and ?r = "snd (time_range events)"
  obtain e where e: "e \<in> set events" and b: "tb_startOffset b = of_int (re_start e - ?lo) / of_int ?r * 100"
    "tb_width b = of_int (re_end e - re_start e) / of_int ?r * 100"
    using assms(3) by (auto simp: timeline_bars_def time_range_def Let_def)
  have lo: "?lo \<le> re_start e" and hi: "re_end e \<le> ?hi" and le: "re_start e \<le> re_end e" using e assms(2) by auto
  then have r: "0 < ?r" "re_end e - ?lo \<le> ?r" by (auto simp: time_range_def Let_def)
  have sum: "tb_startOffset b + tb_width b = of_int (re_end e - ?lo) / of_int ?r * 100"
    unfolding b by (simp add: field_simps diff_divide_distrib add_divide_distrib)
  have "(of_int (re_end e - ?lo) :: rat) \<le> of_int ?r" using r(2) by (simp only: of_int_le_iff)
  then have "(of_int (re_end e - ?lo) :: rat) / of_int ?r \<le> 1" using r(1) by simp
  from mult_right_mono [OF this, of 100] have "tb_startOffset b + tb_width b \<le> 100" unfolding sum by simp
  moreover have "0 \<le> tb_startOffset b" using r(1) lo by (simp add: b)
  moreover have "0 \<le> tb_width b" using r(1) le by (simp add: b)
  ultimately show ?thesis by blast
qed

text \<open>
  For a server that was created before it was started, and started before now, the bars lie within the chart, and
  stacking puts each of them at its offset: the bars of a life that is told without gaps are where they belong.
\<close>

theorem lifecycle_bars_in_place:
  assumes "created \<le> started" and "started \<le> now" and "bars = timeline_bars (server_timeline now (Some created) (Some started) st)"
  shows "stacked_at 0 bars = map tb_startOffset bars \<and> (\<forall>b \<in> set bars. 0 \<le> tb_startOffset b \<and> tb_startOffset b + tb_width b \<le> 100)"
proof -
  let ?es = "server_timeline now (Some created) (Some started) st"
  have "\<forall>e \<in> set ?es. re_start e \<le> re_end e" using assms(1,2) by (auto simp: server_timeline_def)
  moreover have "?es \<noteq> []" by (simp add: server_timeline_def)
  ultimately have "\<forall>b \<in> set bars. 0 \<le> tb_startOffset b \<and> tb_startOffset b + tb_width b \<le> 100"
    unfolding assms(3) using bars_within by blast
  moreover have "fst (time_range ?es) = created" using assms(1,2)
    by (cases "st = ''running'' \<or> st = ''stopped''") (simp_all add: time_range_def server_timeline_def Let_def min_def)
  then have "stacked_at 0 bars = map tb_startOffset bars"
    by (cases "time_range ?es") (auto simp: assms(3) timeline_bars_def server_timeline_def Let_def)
  ultimately show ?thesis by blast
qed

theorem lifecycle_bars_in_place_witness:
  "stacked_at 0 (timeline_bars (server_timeline 4000 (Some 0) (Some 1000) ''running'')) =
     map tb_startOffset (timeline_bars (server_timeline 4000 (Some 0) (Some 1000) ''running''))"
  using lifecycle_bars_in_place [of 0 1000 4000 _ "''running''"] by simp

text \<open>With a gap the stacked bars slide to the left of their offsets; a stopped server is shown as stopped since it was started.\<close>

lemma gap_is_closed:
  "stacked_at 0 (timeline_bars [\<lparr>re_start = 0, re_end = 10, re_status = st\<rparr>, \<lparr>re_start = 90, re_end = 100, re_status = st\<rparr>]) = [0, 10]"
  "map tb_startOffset (timeline_bars [\<lparr>re_start = 0, re_end = 10, re_status = st\<rparr>, \<lparr>re_start = 90, re_end = 100, re_status = st\<rparr>]) = [0, 90]"
  by (simp_all add: timeline_bars_def time_range_def Let_def)

lemma stopped_since_start:
  "server_timeline now (Some c) (Some t) ''stopped'' = [\<lparr>re_start = c, re_end = t, re_status = ''pending''\<rparr>, \<lparr>re_start = t, re_end = now, re_status = ''stopped''\<rparr>]"
  by (simp add: server_timeline_def)

end
