(* ===== verification/Spec2Isabelle.thy ===== *)
theory Spec2Isabelle
  imports Prelude Js_Sort Js_Strings Js_Values Auth_Store Role_Matrix Ui_Stores Api_Client Session Web_Socket
    Server_Actions Query_Hooks Credit_Hooks Tables Metrics Cron Format_Utils
    Shortcuts Push_Registration Dates Calendar Heatmap Iso_Time Notifications Palette Data_Views Admin_Hooks
    File_Browser Confirm_Dialog Token_Page Local_Time Maintenance_Page Credit_Dialogs Data_Table Deploy_Dialog
    Server_Lists Workspace_Page Credit_Pages Gateway_Page Login_Page Plan_Page Schedule_Dialog Notification_Views
    Admin_Controls Server_Preferences Profile_Page Server_Page Quota_Views Volumes_Page Environment_Page
    Notification_Settings Users_Page System_Settings Workspace_List Analytics_Page Health_Page Audit_Page Admin_Lists
    My_Credits Appearance_Page Home_Pages Activity_Page
    Live_Servers
begin

text \<open>
  \<^bold>\<open>NukeLab web client: a verification library.\<close>

  NukeLab runs nuclear-science workspaces as containers. Its repository holds a Python backend, a
  TypeScript single-page client (\<^verbatim>\<open>frontend/src\<close>) and the deployment around them. This development
  models the client's own logic, and of the backend the role matrix the client's permission checks are
  answers about and the rules and services the modelled pages depend on. File names below are relative to \<^verbatim>\<open>src/frontend/src\<close> unless they begin with \<^verbatim>\<open>backend\<close>.

  \<^bold>\<open>How the parts interact.\<close> Pages read data through query hooks and change it through mutation hooks;
  both send requests through one REST client, which attaches the access token and shares one token refresh
  between all calls that are refused with 401. A WebSocket pushes status and metrics into the same query
  cache. Stores keep the signed-in user, the toasts, the sidebar, the theme and the timezone. Guards and
  shortcuts ask the user store for permissions. Errors of any request end as toasts.

  \<^bold>\<open>Theories.\<close>

  \<^item> \<open>Prelude\<close>: windows of lists, lists as keyed tables, stable sorting; the locales \<open>keyed_table\<close> (one entry per
    key) and \<open>transition_system\<close> (an inductive invariant holds in every reachable state), instantiated by
    toasts, sidebar, theme, REST client, socket, pending operations, reason dialog, schedule builder,
    date range, command palette, confirm dialog, token dialog and deploy dialog.
  \<^item> \<open>Js_Sort\<close>: what sorting does with a total and with any comparison.
  \<^item> \<open>Js_Strings\<close>, \<open>Js_Values\<close>: the string and number operations of JavaScript the sources use, JSON,
    and the query strings of \<^verbatim>\<open>URLSearchParams\<close> with their decoder.
  \<^item> \<open>Auth_Store\<close>: \<^verbatim>\<open>stores/auth-store.ts\<close>, \<^verbatim>\<open>hooks/use-page-guard.ts\<close>, \<^verbatim>\<open>components/permission-guard.tsx\<close>,
    \<^verbatim>\<open>routes/admin.tsx\<close>. The state is the user; each selector of the store is a function of it. An inactive
    session is denied everything, the role fallback is monotone in the role and equals a table of least
    levels, guards render or redirect. The locale \<open>permission_oracle\<close> is the contract of a permission
    check; the client store and the backend's check both interpret it.
  \<^item> \<open>Role_Matrix\<close>: \<^verbatim>\<open>backend/app/core/roles.py\<close>, \<^verbatim>\<open>backend/app/core/security.py\<close>. The matrix is a dictionary that
    administrators change, so it is an argument \<open>T\<close> of every check, here and in the theories of the pages; \<open>role_table\<close>
    are the matrices that loading and updating can lead to, \<open>ROLE_PERMISSIONS\<close> is the one the backend ships with. The
    expansion of implied permissions terminates and is the least closure; what the client grants the backend grants,
    unless the role was emptied; the converse fails.
  \<^item> \<open>Ui_Stores\<close>: \<^verbatim>\<open>stores/toast-store.ts\<close>, \<^verbatim>\<open>stores/sidebar-store.ts\<close>, \<^verbatim>\<open>stores/theme-store.ts\<close>,
    \<^verbatim>\<open>lib/theme.ts\<close>, \<^verbatim>\<open>stores/timezone-store.ts\<close>, \<^verbatim>\<open>hooks/use-timezone-sync.ts\<close>. Toast identifiers are
    unique and never reused, the document always shows the stored theme.
  \<^item> \<open>Api_Client\<close>: \<^verbatim>\<open>lib/api.ts\<close>. Asynchronous functions are cut at their suspension points: a call or a
    refresh is a program counter, each handler is the code between two points, and \<open>api_step\<close>
    interleaves any number of calls with the network answering in any order. At most one refresh is in
    flight, a call is sent at most twice, a waiting call can always go on, answers are classified. The
    recursion of \<^verbatim>\<open>download\<close> takes the list of its rounds; it is still running exactly when every round
    was a 401 with a successful refresh.
  \<^item> \<open>Session\<close>: \<^verbatim>\<open>hooks/use-auth.ts\<close>, \<^verbatim>\<open>lib/activity-heartbeat.ts\<close>, \<^verbatim>\<open>hooks/use-activity-heartbeat.ts\<close>.
    Sign-out ends the session whatever the server answers; an idle page stops pinging.
  \<^item> \<open>Web_Socket\<close>: \<^verbatim>\<open>hooks/use-websocket.ts\<close>. Sockets, timers and microtasks are entries of the state, every
    installed handler is a function on it. At most one live socket while abandoned sockets close in time
    and two otherwise, bounded reconnection, one delivery per handler, silence after disconnecting.
  \<^item> \<open>Server_Actions\<close>: \<^verbatim>\<open>hooks/use-servers.ts\<close>, \<^verbatim>\<open>hooks/use-reason-dialog.tsx\<close>,
    \<^verbatim>\<open>hooks/use-server-actions-with-reason.ts\<close>. Pending operations with their timers, the four mutations with
    their cache updates and the subscription to the cache that every update of it runs, prompts and their
    continuations. Operations settle or time out, and one on a server of someone else is sent only with a reason.
  \<^item> \<open>Query_Hooks\<close>, \<open>Credit_Hooks\<close>: the hooks for workspaces, plans, tokens, notifications, volumes, servers,
    schedules (\<^verbatim>\<open>hooks/use-workspaces.ts\<close>, \<^verbatim>\<open>use-plans.ts\<close>, \<^verbatim>\<open>use-tokens.ts\<close>, \<^verbatim>\<open>use-notifications.ts\<close>,
    \<^verbatim>\<open>use-volumes.ts\<close>) and for credits (\<^verbatim>\<open>use-credits.ts\<close>, \<^verbatim>\<open>use-credit-requests.ts\<close>). A query is its key,
    request and condition; a mutation is its request, the keys it invalidates and its toasts. The locale
    \<open>cache_family\<close> states cache coherence and is interpreted for workspaces, credits and credit requests.
  \<^item> \<open>Admin_Hooks\<close>: the hooks of administration and monitoring (\<^verbatim>\<open>hooks/use-users.ts\<close>, \<^verbatim>\<open>use-quotas.ts\<close>,
    \<^verbatim>\<open>use-environments.ts\<close>, \<^verbatim>\<open>use-system-config.ts\<close>, \<^verbatim>\<open>use-maintenance-windows.ts\<close>,
    \<^verbatim>\<open>use-admin-volumes.ts\<close>, \<^verbatim>\<open>use-admin-workspaces.ts\<close>, \<^verbatim>\<open>use-analytics.ts\<close>, \<^verbatim>\<open>use-audit-logs.ts\<close>,
    \<^verbatim>\<open>use-activity.ts\<close>, \<^verbatim>\<open>use-health.ts\<close>, \<^verbatim>\<open>use-current-user.ts\<close> and their like) in the same vocabulary.
    Four more families of cached views are coherent, one mutation is shown to leave another page stale, bulk
    operations report their failures, a date range travels through the query string unchanged.
  \<^item> \<open>Metrics\<close>: \<^verbatim>\<open>hooks/use-server-metrics.ts\<close>, \<^verbatim>\<open>hooks/use-dashboard-metrics.ts\<close>, \<^verbatim>\<open>lib/metrics-rates.ts\<close>,
    \<^verbatim>\<open>lib/task-rates.ts\<close>. Messages and histories in any order: charts are the newest
    sixty points of a stated list; rates are never negative.
  \<^item> \<open>Cron\<close>: \<^verbatim>\<open>lib/cron-utils.ts\<close>, \<^verbatim>\<open>components/cron-builder.tsx\<close>. The builder with its presets, its modes and
    its effects: the expression it hands on reads back as what it shows; what the hourly presets are read as.
  \<^item> \<open>Tables\<close>: \<^verbatim>\<open>hooks/use-workspace-pins.ts\<close>, \<^verbatim>\<open>hooks/use-data-table.ts\<close>, \<^verbatim>\<open>lib/export.ts\<close>. Pins come
    first in a stable order, an exported CSV reads back.
  \<^item> \<open>Format_Utils\<close>: \<^verbatim>\<open>lib/utils.ts\<close> and the memory parser of \<^verbatim>\<open>lib/task-rates.ts\<close>. Accuracy of sizes,
    durations and relative times, timestamps as UTC, where the two memory parsers agree and where not.
  \<^item> \<open>Shortcuts\<close>: \<^verbatim>\<open>hooks/use-keyboard-shortcuts.ts\<close>, \<^verbatim>\<open>components/feedback/shortcuts-modal.tsx\<close>. Shortcuts
    respect the guards of the pages they lead to; the help dialog lists each once.
  \<^item> \<open>Push_Registration\<close>: \<^verbatim>\<open>lib/register-sw.ts\<close> and the push toggle of \<^verbatim>\<open>routes/settings.notifications.tsx\<close>.
    Keys survive their base64url transport; browser and server (\<^verbatim>\<open>backend/app/api/push.py\<close>) agree after turning
    push on and off, unless the browser declines to unsubscribe.
  \<^item> \<open>Dates\<close>: the calendar arithmetic of \<^verbatim>\<open>Date\<close> (days since the epoch, month overflow) and
    \<^verbatim>\<open>formatLocalDate\<close>. The locale \<open>ordered_text\<close> says that comparing two texts compares what they stand for;
    its interpretation for \<^verbatim>\<open>yyyy-mm-dd\<close> is why the date pickers may compare strings.
  \<^item> \<open>Iso_Time\<close>: \<^verbatim>\<open>toISOString\<close> and the parser of ISO instants; reading back a printed instant.
  \<^item> \<open>Calendar\<close>: \<^verbatim>\<open>components/ui/calendar.tsx\<close>, \<^verbatim>\<open>date-range-picker.tsx\<close>, \<^verbatim>\<open>time-picker.tsx\<close>. A chosen range
    stays in order whatever the user clicks, presets included.
  \<^item> \<open>Heatmap\<close>: \<^verbatim>\<open>components/charts/calendar-heatmap.tsx\<close>. The loop over days ends and yields whole weeks;
    every datum in the window is shown in its own cell.
  \<^item> \<open>Notifications\<close>: \<^verbatim>\<open>components/notifications/notification-toast-provider.tsx\<close>. The polling component refines a
    watermark on instants: a poll shows what it lets through, in order; which notifications come again and which never.
  \<^item> \<open>Palette\<close>: \<^verbatim>\<open>components/search/command-palette.tsx\<close>, \<^verbatim>\<open>hooks/use-search.ts\<close> and the entries of
    \<^verbatim>\<open>components/layout/sidebar.tsx\<close>. The list of pages is computed when the palette is mounted; it offers
    the administration pages whose guards (\<^verbatim>\<open>routes/admin.*.tsx\<close>, one definition for each) let in the user of that moment.
  \<^item> \<open>Data_Views\<close>: \<^verbatim>\<open>components/audit/audit-log-diff.tsx\<close>, \<^verbatim>\<open>components/data/data-table-pagination.tsx\<close>,
    \<^verbatim>\<open>components/log-viewer.tsx\<close>. A diff lists every changed field, the pages partition the rows, copied
    logs read back.
  \<^item> \<open>File_Browser\<close>: \<^verbatim>\<open>components/volume-file-browser.tsx\<close>. The path refines a location in a tree of folders;
    where the search timer and the window of rows go wrong.
  \<^item> \<open>Confirm_Dialog\<close>: \<^verbatim>\<open>components/ui/confirm-dialog.tsx\<close>. Questions and their answers as a transition system;
    a question with a text is confirmed only as typed.
  \<^item> \<open>Token_Page\<close>: \<^verbatim>\<open>components/settings/tokens-page.tsx\<close>. Requests for tokens pass the backend's
    validation, unless the name is too long.
  \<^item> \<open>Local_Time\<close>, \<open>Maintenance_Page\<close>: local date and time texts, \<^verbatim>\<open>routes/admin.maintenance-windows.tsx\<close>.
    Submitted windows are in order, editing keeps their times, their status follows the clock.
  \<^item> \<open>Credit_Dialogs\<close>, \<open>Credit_Pages\<close>: the dialogs for credits (\<^verbatim>\<open>components/admin/credit-adjust-dialog.tsx\<close>,
    \<^verbatim>\<open>daily-allowance-dialog.tsx\<close>, \<^verbatim>\<open>bulk-credit-dialog.tsx\<close>, \<^verbatim>\<open>allowance-override-dialog.tsx\<close>,
    \<^verbatim>\<open>credit-request-review-dialog.tsx\<close>, \<^verbatim>\<open>components/credit-request-dialog.tsx\<close>) and the tabs that open them
    (\<^verbatim>\<open>components/admin/credits/\<close>, \<^verbatim>\<open>credit-history-dialog.tsx\<close>). What is sent is valid; who it is sent to depends
    on refetches in between.
  \<^item> \<open>Data_Table\<close>: \<^verbatim>\<open>components/data/data-table.tsx\<close>, \<^verbatim>\<open>data-table-toolbar.tsx\<close> and the filters of the pages that
    use them, over the contract \<open>table_api_laws\<close> of the table library. The filters sent refine the user's
    choices; four filters are dead.
  \<^item> \<open>Deploy_Dialog\<close>: \<^verbatim>\<open>components/server/deploy-server-dialog.tsx\<close>, the edit dialog of
    \<^verbatim>\<open>routes/servers.index.tsx\<close> and the backend's rule for recreating a container.
  \<^item> \<open>Server_Lists\<close>: \<^verbatim>\<open>routes/servers.index.tsx\<close>, \<^verbatim>\<open>routes/admin.servers.tsx\<close>. Sorting, filters, pages, statistics,
    opening and bulk actions.
  \<^item> \<open>Workspace_Page\<close>: \<^verbatim>\<open>routes/workspaces.$workspaceId.tsx\<close>. Each of the twelve kinds of changes it asks for is one
    the viewer is entitled to; leaving, removing and cancelling are confirmed, handing the workspace over is not.
  \<^item> \<open>Gateway_Page\<close>: \<^verbatim>\<open>routes/user.$username.$serverName.tsx\<close>, the page in front of a server. Every start and access
    token it asks for is for an own server or has a reason, it redirects by itself at most once; its dead ends.
  \<^item> \<open>Login_Page\<close>: \<^verbatim>\<open>routes/login.tsx\<close> and the deep links of \<^verbatim>\<open>main.tsx\<close>. Sign-in never leaves the site, a deep link
    survives it; where errors are swallowed.
  \<^item> \<open>Plan_Page\<close>, \<open>Environment_Page\<close>, \<open>Quota_Views\<close>, \<open>Users_Page\<close>: \<^verbatim>\<open>routes/admin.plans.tsx\<close>,
    \<^verbatim>\<open>admin.environments.tsx\<close>, \<^verbatim>\<open>admin.quotas.tsx\<close> with \<^verbatim>\<open>admin.users.$userId.tsx\<close>, \<^verbatim>\<open>admin.users.index.tsx\<close>, each
    next to the backend's update. Unedited forms keep what they show, edits change the edited fields, the order of
    the roles is respected by updates that name a role, and by no others; which fields cannot be cleared.
  \<^item> \<open>Schedule_Dialog\<close>: \<^verbatim>\<open>components/server/schedule-dialog.tsx\<close> over \<open>Cron\<close>. A schedule is listed as it was built; the
    custom mode renders without end.
  \<^item> \<open>Notification_Views\<close>, \<open>Notification_Settings\<close>: \<^verbatim>\<open>components/notifications/notification-center.tsx\<close>,
    \<^verbatim>\<open>routes/notifications.tsx\<close>, \<^verbatim>\<open>routes/settings.notifications.tsx\<close>, the last next to
    \<^verbatim>\<open>backend/app/services/notification_service.py\<close> and \<^verbatim>\<open>webhook_service.py\<close>. The backend's check of the preferences
    answers what the switches show; three rows and the webhook decide nothing.
  \<^item> \<open>Admin_Controls\<close>: \<^verbatim>\<open>routes/admin.ip-restrictions.tsx\<close> next to \<^verbatim>\<open>backend/app/middleware/ip_restriction.py\<close>, and
    \<^verbatim>\<open>routes/admin.permissions.tsx\<close>. The banner tells what the gate does, saved roles are accepted.
  \<^item> \<open>Server_Preferences\<close>, \<open>Profile_Page\<close>, \<open>Server_Page\<close>: \<^verbatim>\<open>routes/settings.servers.tsx\<close>,
    \<^verbatim>\<open>components/settings/profile-page.tsx\<close> with \<^verbatim>\<open>avatar-edit-dialog.tsx\<close>, \<^verbatim>\<open>routes/servers.$serverId.tsx\<close> with
    \<^verbatim>\<open>components/tasks-table.tsx\<close>. Preferences are stored as sent; which late answers undo changes; charts account for
    all traffic.
  \<^item> \<open>Volumes_Page\<close>, \<open>Workspace_List\<close>: \<^verbatim>\<open>routes/volumes.tsx\<close>, \<^verbatim>\<open>routes/workspaces.index.tsx\<close>. The cards are what passes
    the filters, in the chosen order; a button that never comes back, a pin that is lost.
  \<^item> \<open>System_Settings\<close>: \<^verbatim>\<open>components/admin/credits/settings-tab.tsx\<close>, \<^verbatim>\<open>routes/admin.settings.tsx\<close> with
    \<^verbatim>\<open>backend/app/core/retention.py\<close>, \<^verbatim>\<open>services/retention_service.py\<close> and the clean-up in \<^verbatim>\<open>tasks.py\<close>. Accepted days
    are those the clean-up deletes by, table by table; its switch does not reach it.
  \<^item> \<open>Analytics_Page\<close>, \<open>Health_Page\<close>: \<^verbatim>\<open>routes/admin.analytics.tsx\<close>, \<^verbatim>\<open>routes/usage.tsx\<close>, \<^verbatim>\<open>routes/admin.health.tsx\<close>
    with the routes behind them. The period before adjoins, its lines are flat; what the status filter hides.
  \<^item> \<open>Audit_Page\<close>: \<^verbatim>\<open>routes/admin.audit-logs.tsx\<close> with \<^verbatim>\<open>backend/app/middleware/audit.py\<close> and the routes that list and
    export. The export is all pages; the action filter finds nothing, updates are shown as removals.
  \<^item> \<open>Admin_Lists\<close>: the checks of the routes behind each administration page against the guards of \<open>Palette\<close>, with the
    complete list of pages whose list is refused to someone the guard lets in; \<^verbatim>\<open>routes/admin.volumes.tsx\<close>,
    \<^verbatim>\<open>routes/admin.workspaces.tsx\<close>. An edit of a volume is refused only if the volume has grown in between.
  \<^item> \<open>My_Credits\<close>: \<^verbatim>\<open>routes/settings.credits.tsx\<close> with \<^verbatim>\<open>backend/app/services/credit_request_service.py\<close>. When the
    button that asks for credits tells what the backend does; a link opens no other request than its own, and opens it once.
  \<^item> \<open>Appearance_Page\<close>: \<^verbatim>\<open>routes/settings.appearance.tsx\<close> and \<^verbatim>\<open>components/ui/combobox.tsx\<close>. Requests for timezones
    are read, written and answered in any order; the zone chosen last is in effect and stored if the writes keep the order
    of the choices, and what happens otherwise; what the buttons of the theme mode light.
  \<^item> \<open>Home_Pages\<close>: \<^verbatim>\<open>routes/admin.index.tsx\<close>, \<^verbatim>\<open>routes/index.tsx\<close>, \<^verbatim>\<open>routes/plans.tsx\<close> and \<^verbatim>\<open>routes/environments.tsx\<close> with the
    routes they read. Which cards lead nowhere; the figures of the dashboard agree; when the catalogues are complete.
  \<^item> \<open>Activity_Page\<close>: \<^verbatim>\<open>routes/activity.tsx\<close>. One filter at most is sent, the one touched last.
  \<^item> \<open>Live_Servers\<close>: \<^verbatim>\<open>components/charts/user-server-metrics.tsx\<close>, \<^verbatim>\<open>metrics-dashboard.tsx\<close>, \<^verbatim>\<open>resource-timeline.tsx\<close>. Which
    servers the live cards hear of, by their own subscriptions and by that of the dashboard above them, their rates, the load bars, the bars of a server's life.
  \<^item> This theory: a property that spans the REST client, the server operations and the toasts.

  \<^bold>\<open>Idealisations.\<close> Numbers are exact: integers, decimals \<open>m * 10 ^ (- s)\<close> or rationals, so the rounding
  of doubles is not seen. Strings are byte lists, read as UTF-8; case mapping and white space are those of
  ASCII. Times are milliseconds. An exception is a value of a sum or option type, and so is a loop that
  does not return. No definition has fuel: every recursion is structural or has a termination proof.

  \<^bold>\<open>Parameters.\<close> Code outside the repository is an argument: the query cache (\<open>query_client_laws\<close>: an
  updater that gives no value leaves the data alone; \<open>prefix_matching\<close>: invalidating a key reaches every
  query whose key begins with it), the constructor of \<^verbatim>\<open>WebSocket\<close>, the browser's push manager, the
  clock and the zone offset of \<^verbatim>\<open>Date\<close>, the formatters of \<^verbatim>\<open>Intl\<close>, \<^verbatim>\<open>localeCompare\<close>. Witnesses instantiate the assumptions about them.

  The text search of the database (\<open>ilike\<close>), the texts Python reads as a UUID and the callbacks a mutation runs are
  arguments too.

  \<^bold>\<open>Not modelled.\<close> Markup, styling, animation and the favicon, which compute nothing that is sent or decided; the charts,
  which a library draws from the series modelled here; generated code (\<^verbatim>\<open>routeTree.gen.ts\<close>) and third-party code; the
  monitoring client, whose capture calls are a log; the support page, which only shows answers of modelled hooks; of the backend everything but the checks, services, routes and tasks named above;
  deployment.
\<close>

subsection \<open>From an answer to what the user sees\<close>

definition demo_conflict :: Response where
  "demo_conflict = \<lparr>resp_status = 409, resp_statusText = ''Conflict'',
     resp_body = JsonBody (JObj [(''detail'', JStr ''Server is already running'')])\<rparr>"

text \<open>
  C11. A refused server operation reaches the user in the server's own words: when the answer to the request of
  an operation is an error, but not 401 (which asks for a new token first) or 429 (to whose text the waiting time is added), and its
  body is JSON with a detail text that is not empty, the call is rejected with that text, and the
  operation's error handler shows it in exactly one toast and frees the server's buttons. The answer is
  reported to the monitoring service exactly when it is a server error.
\<close>

theorem refused_operation_reaches_user:
  assumes "\<not> resp_ok resp" and "resp_status resp \<noteq> 401" and "resp_status resp \<noteq> 429"
    and "resp_body resp = JsonBody b" and "js_get b ''detail'' = Some (JStr detail)" and "detail \<noteq> []"
  shows "\<exists>e toast. calls (apiFetch_first i (op_request t s r) resp st) i = Finished (RejectedApi e) \<and>
    toasts (toastStore (mutation_error t s (err_message e) now acts)) = toasts (toastStore acts) @ [toast] \<and>
    toast_type toast = TError \<and> toast_message toast = Some detail \<and>
    \<not> isOperationPending s None (mutation_error t s (err_message e) now acts) \<and>
    length (captured (apiFetch_first i (op_request t s r) resp st)) =
      length (captured st) + (if resp_status resp \<ge> 500 then 1 else 0)"
proof -
  have msg: "err_message (errorOf resp) = detail"
    using assms(3-6) by (simp add: errorOf_message extractErrorDetail_priority detail_of_def)
  have "calls (apiFetch_first i (op_request t s r) resp st) i = Finished (RejectedApi (errorOf resp))"
    using assms(1,2) by (simp add: apiFetch_first_def finishCall_def Let_def)
  moreover have "length (captured (apiFetch_first i (op_request t s r) resp st)) =
      length (captured st) + (if resp_status resp \<ge> 500 then 1 else 0)"
    using assms(1,2) by (simp add: apiFetch_first_def finishCall_def Let_def)
  moreover have "\<not> isOperationPending s None (mutation_error t s detail now acts)"
    using pending_after_remove[of s now s acts] by (simp add: mutation_error_def isOperationPending_def Let_def)
  ultimately show ?thesis
    by (intro exI[of _ "errorOf resp"])
      (simp add: msg mutation_error_def removePendingOp_def setPendingOps_def addToast_def mkToast_def
        ToastOptions.defs Let_def)
qed

theorem refused_operation_reaches_user_witness:
  "\<exists>e. calls (apiFetch_first 0 (op_request Start ''a'' None) demo_conflict demo_both) 0 = Finished (RejectedApi e) \<and>
    \<not> isOperationPending ''a'' None (mutation_error Start ''a'' (err_message e) 9 demo_actions)"
proof -
  have "\<not> resp_ok demo_conflict" "resp_status demo_conflict \<noteq> 401" "resp_status demo_conflict \<noteq> 429"
    "resp_body demo_conflict = JsonBody (JObj [(''detail'', JStr ''Server is already running'')])"
    by (simp_all add: demo_conflict_def resp_ok_def)
  moreover have "js_get (JObj [(''detail'', JStr ''Server is already running'')]) ''detail'' =
      Some (JStr ''Server is already running'')" by simp
  moreover have "''Server is already running'' \<noteq> []" by simp
  ultimately show ?thesis
    using refused_operation_reaches_user[of demo_conflict _ "''Server is already running''" 0 Start "''a''" None
        demo_both 9 demo_actions] by blast
qed

end
